(* ===== verification/Govee_Prelude.thy ===== *)
theory Govee_Prelude
  imports Complex_Main "HOL-Library.Word"
begin

text \<open>
  Shared vocabulary of the development: bytes, times, the exceptions of the integration and
  results that may be an exception, bounded double-ended queues, Python indexing, rounding and
  prefix tests.  The locale \<open>step_system\<close> is the contract every event-driven component of the
  integration satisfies: one invariant that each operation keeps, hence that every run keeps.
\<close>

section \<open>Named collections\<close>

named_theorems op_defs \<open>definitions of component operations, unfolded in step-wise proofs\<close>
named_theorems inv_intros \<open>invariant preservation lemmas, one per operation\<close>

section \<open>Bytes, times and results\<close>

type_synonym byte = "8 word"
type_synonym bytes = "byte list"
type_synonym time = rat

text \<open>Why Custom Auto options are rejected; the flow maps the reason to a form error.\<close>

datatype options_fault =
    OptNotBoolean | OptNotInteger | OptOutOfRange | OptNotFourValues | OptNotAscending

text \<open>
  The exception classes the modelled code raises or catches.  Message texts are diagnostics
  and are not modelled; where the code inspects a message the class carries the reason.
\<close>

datatype exn =
    FrameLengthError | FrameChecksumError | CryptoError
  | ValueError | TypeError | KeyError | IndexError | AssertionError | RuntimeError | TimeoutError
  | CancelledError | OtherError
  | ProtocolError | ProfileError | DuplicateProfileKeyError | ProfileSelectionError
  | CustomAutoOptionsError options_fault
  | PurifierClientError | CommandDeadlineExceeded | CommandSuperseded
  | AirQualityQueryPreempted | AirQualityQueryCancelled | AirQualityQueryTimeout
  | TransactionTimeoutError | RefreshPreemptedError
  | ChannelError | ChannelNotReadyError | NegotiationError
  | GattTransportError | BluetoothUnavailableError
  | CustomAutoMemoryError | HomeAssistantError | ConfigEntryError | ConfigEntryNotReady

type_synonym 'a res = "exn + 'a"

text \<open>Subclass tests that the code's \<open>except\<close> clauses perform.\<close>

definition is_frame_error :: "exn \<Rightarrow> bool" where
  "is_frame_error e \<longleftrightarrow> e = FrameLengthError \<or> e = FrameChecksumError"

fun is_value_error :: "exn \<Rightarrow> bool" where
  "is_value_error FrameLengthError = True"
| "is_value_error FrameChecksumError = True"
| "is_value_error CryptoError = True"
| "is_value_error ValueError = True"
| "is_value_error ProtocolError = True"
| "is_value_error ProfileError = True"
| "is_value_error DuplicateProfileKeyError = True"
| "is_value_error ProfileSelectionError = True"
| "is_value_error (CustomAutoOptionsError f) = True"
| "is_value_error _ = False"

fun is_profile_error :: "exn \<Rightarrow> bool" where
  "is_profile_error ProfileError = True"
| "is_profile_error DuplicateProfileKeyError = True"
| "is_profile_error ProfileSelectionError = True"
| "is_profile_error _ = False"

fun is_connection_error :: "exn \<Rightarrow> bool" where
  "is_connection_error PurifierClientError = True"
| "is_connection_error CommandDeadlineExceeded = True"
| "is_connection_error CommandSuperseded = True"
| "is_connection_error AirQualityQueryPreempted = True"
| "is_connection_error AirQualityQueryCancelled = True"
| "is_connection_error AirQualityQueryTimeout = True"
| "is_connection_error TransactionTimeoutError = True"
| "is_connection_error RefreshPreemptedError = True"
| "is_connection_error ChannelError = True"
| "is_connection_error ChannelNotReadyError = True"
| "is_connection_error NegotiationError = True"
| "is_connection_error GattTransportError = True"
| "is_connection_error BluetoothUnavailableError = True"
| "is_connection_error _ = False"

definition res_bind :: "'a res \<Rightarrow> ('a \<Rightarrow> 'b res) \<Rightarrow> 'b res" where
  "res_bind r f = (case r of Inl e \<Rightarrow> Inl e | Inr x \<Rightarrow> f x)"

fun res_map_list :: "('a \<Rightarrow> 'b res) \<Rightarrow> 'a list \<Rightarrow> 'b list res" where
  "res_map_list f [] = Inr []"
| "res_map_list f (x # xs) = res_bind (f x) (\<lambda>y. res_bind (res_map_list f xs) (\<lambda>ys. Inr (y # ys)))"

lemma res_bind_simps [simp]:
  "res_bind (Inl e) f = Inl e"
  "res_bind (Inr x) f = f x"
  by (simp_all add: res_bind_def)

lemma res_bind_eq_Inr [simp]: "res_bind r f = Inr y \<longleftrightarrow> (\<exists>x. r = Inr x \<and> f x = Inr y)"
  by (cases r) simp_all

lemma res_bind_eq_Inl [simp]:
  "res_bind r f = Inl e \<longleftrightarrow> r = Inl e \<or> (\<exists>x. r = Inr x \<and> f x = Inl e)"
  by (cases r) simp_all

lemma res_bind_cong [fundef_cong]:
  "r = r' \<Longrightarrow> (\<And>x. r' = Inr x \<Longrightarrow> f x = f' x) \<Longrightarrow> res_bind r f = res_bind r' f'"
  by (cases r') simp_all

lemma res_map_list_cong [fundef_cong]:
  "xs = ys \<Longrightarrow> (\<And>x. x \<in> set ys \<Longrightarrow> f x = g x) \<Longrightarrow> res_map_list f xs = res_map_list g ys"
  by (induction ys arbitrary: xs) auto

lemma res_map_list_Inr:
  "res_map_list f xs = Inr ys \<Longrightarrow> length ys = length xs \<and> (\<forall>i < length xs. f (xs ! i) = Inr (ys ! i))"
  by (induction xs arbitrary: ys) (auto simp: nth_Cons split: nat.splits)

lemma res_map_list_Inr_set:
  "res_map_list f xs = Inr ys \<Longrightarrow> y \<in> set ys \<Longrightarrow> \<exists>x \<in> set xs. f x = Inr y"
  by (induction xs arbitrary: ys) auto

lemma res_map_list_total:
  "\<forall>x \<in> set xs. \<exists>y. f x = Inr y \<Longrightarrow> \<exists>ys. res_map_list f xs = Inr ys"
  by (induction xs) auto

section \<open>Python sequences\<close>

text \<open>\<open>xs[i]\<close> with an integer index: negative indices count from the end.\<close>

definition py_nth :: "'a list \<Rightarrow> int \<Rightarrow> 'a res" where
  "py_nth xs i =
     (if 0 \<le> i \<and> i < int (length xs) then Inr (xs ! nat i)
      else if i < 0 \<and> 0 \<le> int (length xs) + i then Inr (xs ! nat (int (length xs) + i))
      else Inl IndexError)"

lemma py_nth_nat [simp]: "i < length xs \<Longrightarrow> py_nth xs (int i) = Inr (xs ! i)"
  by (simp add: py_nth_def)

lemma py_nth_numeral:
  "0 \<le> i \<Longrightarrow> i < int (length xs) \<Longrightarrow> py_nth xs i = Inr (xs ! nat i)"
  by (simp add: py_nth_def)

text \<open>\<open>xs[a:b]\<close> for non-negative bounds, \<open>startswith\<close>, and \<open>needle in xs\<close> on bytes.\<close>

definition py_slice :: "nat \<Rightarrow> nat \<Rightarrow> 'a list \<Rightarrow> 'a list" where
  "py_slice a b xs = take (b - a) (drop a xs)"

definition starts_with :: "'a list \<Rightarrow> 'a list \<Rightarrow> bool" where
  "starts_with p xs \<longleftrightarrow> take (length p) xs = p"

fun contains_list :: "'a list \<Rightarrow> 'a list \<Rightarrow> bool" where
  "contains_list needle [] \<longleftrightarrow> needle = []"
| "contains_list needle (x # xs) \<longleftrightarrow> starts_with needle (x # xs) \<or> contains_list needle xs"

lemma length_py_slice [simp]: "length (py_slice a b xs) = min (b - a) (length xs - a)"
  by (simp add: py_slice_def)

lemma py_slice_nth [simp]: "i < b - a \<Longrightarrow> a + i < length xs \<Longrightarrow> py_slice a b xs ! i = xs ! (a + i)"
  by (simp add: py_slice_def)

lemma starts_with_append [simp]: "starts_with p (p @ xs)"
  by (simp add: starts_with_def)

lemma starts_with_length: "starts_with p xs \<Longrightarrow> length p \<le> length xs"
  by (metis starts_with_def length_take min.absorb_iff2 min.cobounded1 min_def)

lemma take_2_eq: "2 \<le> length xs \<Longrightarrow> take 2 xs = [xs ! 0, xs ! 1]"
  by (cases xs; cases "tl xs") (auto simp: numeral_2_eq_2)

lemma starts_with_two:
  "2 \<le> length xs \<Longrightarrow> starts_with [a, b] xs \<longleftrightarrow> xs ! 0 = a \<and> xs ! 1 = b"
  by (simp add: starts_with_def take_2_eq flip: numeral_2_eq_2)

lemma find_Some_member: "find P xs = Some x \<Longrightarrow> x \<in> set xs \<and> P x"
  by (induction xs) (auto split: if_splits)

section \<open>Bounded double-ended queues\<close>

text \<open>\<open>deque(maxlen=n).append(x)\<close>: the oldest element leaves when the bound is exceeded.\<close>

definition deque_append :: "nat \<Rightarrow> 'a \<Rightarrow> 'a list \<Rightarrow> 'a list" where
  "deque_append n x xs = (let ys = xs @ [x] in drop (length ys - n) ys)"

lemma length_deque_append: "length (deque_append n x xs) \<le> n"
  by (simp add: deque_append_def)

lemma deque_append_below [simp]: "length xs < n \<Longrightarrow> deque_append n x xs = xs @ [x]"
  by (simp add: deque_append_def)

lemma set_deque_append: "set (deque_append n x xs) \<subseteq> insert x (set xs)"
  unfolding deque_append_def Let_def
  using set_drop_subset[of "length (xs @ [x]) - n" "xs @ [x]"] by auto

lemma deque_append_keeps_last: "0 < n \<Longrightarrow> x \<in> set (deque_append n x xs)"
  by (cases "length xs < n") (auto simp: deque_append_def)

lemma length_deque_append_ge: "length xs \<le> n \<Longrightarrow> length xs \<le> length (deque_append n x xs)"
  by (auto simp: deque_append_def)

section \<open>Rounding\<close>

text \<open>
  \<open>round(x)\<close> is round-half-to-even.  Times and fractions are rationals here: the code's floats
  are compared, added and halved, never tested for exact equality of computed values, so the
  model states the intended real arithmetic and leaves binary rounding out.
\<close>

definition py_round :: "rat \<Rightarrow> int" where
  "py_round x =
     (let f = \<lfloor>x\<rfloor>; d = x - of_int f
      in if d < 1/2 then f else if 1/2 < d then f + 1 else if even f then f else f + 1)"

definition py_round3 :: "rat \<Rightarrow> rat" where
  "py_round3 x = of_int (py_round (x * 1000)) / 1000"

lemma py_round_close: "\<bar>of_int (py_round x) - x\<bar> \<le> 1/2"
proof -
  have lo: "of_int \<lfloor>x\<rfloor> \<le> x" and hi: "x < of_int \<lfloor>x\<rfloor> + 1" by linarith+
  then show ?thesis unfolding py_round_def Let_def by (simp add: abs_le_iff)
qed

lemma py_round_int [simp]: "py_round (of_int n) = n"
  by (simp add: py_round_def)

lemma py_round_nonneg: "0 \<le> x \<Longrightarrow> 0 \<le> py_round x"
  by (auto simp: py_round_def Let_def zero_le_floor)

section \<open>Event-driven components\<close>

text \<open>
  The contract of a component driven by a stream of events: every step keeps its invariant.
  Components interpret it with their own step function; a run is a left fold over the events.
\<close>

locale step_system =
  fixes step :: "'s \<Rightarrow> 'e \<Rightarrow> 's" and inv :: "'s \<Rightarrow> bool"
  assumes step_inv: "inv s \<Longrightarrow> inv (step s e)"
begin

lemma run_inv: "inv s \<Longrightarrow> inv (foldl step s es)"
  by (induction es arbitrary: s) (auto intro: step_inv)

lemma run_prefix_inv: "inv s \<Longrightarrow> inv (foldl step s (take n es))"
  by (rule run_inv)

end

text \<open>A component that in addition has observations that never change once made.\<close>

locale settling_system = step_system +
  fixes settled :: "'s \<Rightarrow> 'k \<Rightarrow> 'v option"
  assumes step_settled: "inv s \<Longrightarrow> settled s k = Some v \<Longrightarrow> settled (step s e) k = Some v"
begin

lemma run_settled: "inv s \<Longrightarrow> settled s k = Some v \<Longrightarrow> settled (foldl step s es) k = Some v"
  by (induction es arbitrary: s) (auto intro: step_inv step_settled)

end

end
