(* ===== verification/Frame.thy ===== *)
theory Frame
  imports Govee_Prelude
begin

text \<open>
  Twenty-byte application frames (\<open>frame.py\<close>): the XOR checksum, construction with padding,
  validation, and the validated \<open>ApplicationFrame\<close> value with its field accessors.
\<close>

unbundle bit_operations_syntax

section \<open>Construction and validation\<close>

definition FRAME_LENGTH :: nat where
  "FRAME_LENGTH = 20"

definition FRAME_CONTENT_LENGTH :: nat where
  "FRAME_CONTENT_LENGTH = FRAME_LENGTH - 1"

definition xor_checksum :: "bytes \<Rightarrow> byte" where
  "xor_checksum content = foldl (XOR) 0 content"

text \<open>\<open>bytes.ljust(n, fill)\<close>\<close>

definition ljust :: "nat \<Rightarrow> byte \<Rightarrow> bytes \<Rightarrow> bytes" where
  "ljust n fill xs = xs @ replicate (n - length xs) fill"

definition build_frame :: "bytes \<Rightarrow> bytes res" where
  "build_frame content =
     (if FRAME_CONTENT_LENGTH < length content then Inl FrameLengthError
      else let padded = ljust FRAME_CONTENT_LENGTH 0 content
           in Inr (padded @ [xor_checksum padded]))"

definition validate_frame :: "bytes \<Rightarrow> bytes res" where
  "validate_frame frame =
     (if length frame \<noteq> FRAME_LENGTH then Inl FrameLengthError
      else let expected = xor_checksum (take FRAME_CONTENT_LENGTH frame)
           in if frame ! FRAME_CONTENT_LENGTH \<noteq> expected then Inl FrameChecksumError
              else Inr frame)"

definition is_valid_frame :: "bytes \<Rightarrow> bool" where
  "is_valid_frame frame =
     (case validate_frame frame of
        Inl e \<Rightarrow> \<not> is_frame_error e
      | Inr _ \<Rightarrow> True)"

section \<open>The validated frame value\<close>

record application_frame =
  af_data :: bytes

definition application_frame_from_bytes :: "bytes \<Rightarrow> application_frame res" where
  "application_frame_from_bytes frame =
     res_bind (validate_frame frame) (\<lambda>d. Inr \<lparr>af_data = d\<rparr>)"

definition application_frame_build :: "bytes \<Rightarrow> application_frame res" where
  "application_frame_build content =
     res_bind (build_frame content) application_frame_from_bytes"

definition af_prefix :: "application_frame \<Rightarrow> byte" where
  "af_prefix f = af_data f ! 0"

definition af_command :: "application_frame \<Rightarrow> byte" where
  "af_command f = af_data f ! 1"

definition af_payload :: "application_frame \<Rightarrow> bytes" where
  "af_payload f = py_slice 2 19 (af_data f)"

definition af_checksum :: "application_frame \<Rightarrow> byte" where
  "af_checksum f = af_data f ! 19"

definition af_len :: "application_frame \<Rightarrow> nat" where
  "af_len f = FRAME_LENGTH"

section \<open>Checksum algebra\<close>

lemma foldl_xor: "foldl (XOR) a (xs :: bytes) = a XOR foldl (XOR) 0 xs"
proof (induction xs arbitrary: a)
  case Nil
  show ?case by simp
next
  case (Cons x xs)
  have "foldl (XOR) (a XOR x) xs = (a XOR x) XOR foldl (XOR) 0 xs" by (rule Cons)
  moreover have "foldl (XOR) (0 XOR x) xs = (0 XOR x) XOR foldl (XOR) 0 xs" by (rule Cons)
  ultimately show ?case by (simp add: xor.assoc)
qed

lemma xor_checksum_simps [simp]:
  "xor_checksum [] = 0"
  "xor_checksum (x # xs) = x XOR xor_checksum xs"
  by (simp_all add: xor_checksum_def) (subst foldl_xor, simp)

lemma xor_checksum_append [simp]: "xor_checksum (xs @ ys) = xor_checksum xs XOR xor_checksum ys"
  by (induction xs) (simp_all add: xor.assoc)

lemma xor_checksum_zeros [simp]: "xor_checksum (replicate n 0) = 0"
  by (induction n) simp_all

lemma xor_cancel_left: "(a :: byte) XOR b = a XOR c \<longleftrightarrow> b = c"
  by (metis xor.assoc xor.left_neutral xor_self_eq)

lemma xor_checksum_update:
  "i < length xs \<Longrightarrow> xor_checksum (xs[i := v]) = xor_checksum xs \<longleftrightarrow> v = xs ! i"
proof (induction xs arbitrary: i)
  case Nil
  then show ?case by simp
next
  case (Cons x xs)
  show ?case
  proof (cases i)
    case 0
    then show ?thesis by (simp add: xor.commute[of _ "xor_checksum xs"] xor_cancel_left)
  next
    case (Suc j)
    with Cons show ?thesis by (simp add: xor_cancel_left)
  qed
qed

section \<open>Basic facts\<close>

lemma frame_lengths [simp]: "FRAME_LENGTH = 20" "FRAME_CONTENT_LENGTH = 19"
  by (simp_all add: FRAME_LENGTH_def FRAME_CONTENT_LENGTH_def)

lemma length_ljust [simp]: "length (ljust n b xs) = max n (length xs)"
  by (simp add: ljust_def)

lemma validate_frame_Inr:
  "validate_frame f = Inr d \<longleftrightarrow> d = f \<and> length f = 20 \<and> f ! 19 = xor_checksum (take 19 f)"
  by (auto simp: validate_frame_def Let_def)

lemma validate_frame_Inl_frame_error: "validate_frame f = Inl e \<Longrightarrow> is_frame_error e"
  by (auto simp: validate_frame_def Let_def is_frame_error_def split: if_splits)

lemma is_valid_frame_iff:
  "is_valid_frame f \<longleftrightarrow> length f = 20 \<and> f ! 19 = xor_checksum (take 19 f)"
  by (auto simp: is_valid_frame_def validate_frame_def Let_def is_frame_error_def)

lemma is_valid_frame_validate: "is_valid_frame f \<longleftrightarrow> validate_frame f = Inr f"
  by (auto simp: is_valid_frame_iff validate_frame_Inr)

lemma validate_of_valid [simp]: "is_valid_frame f \<Longrightarrow> validate_frame f = Inr f"
  by (simp add: is_valid_frame_validate)

lemma valid_frame_length: "is_valid_frame f \<Longrightarrow> length f = 20"
  by (simp add: is_valid_frame_iff)

lemma build_frame_Inr:
  "build_frame c = Inr f \<longleftrightarrow>
     length c \<le> 19 \<and> f = ljust 19 0 c @ [xor_checksum (ljust 19 0 c)]"
  by (auto simp: build_frame_def Let_def)

lemma build_frame_valid: "build_frame c = Inr f \<Longrightarrow> is_valid_frame f"
proof -
  assume "build_frame c = Inr f"
  then have f: "f = ljust 19 0 c @ [xor_checksum (ljust 19 0 c)]" and len: "length (ljust 19 0 c) = 19"
    by (simp_all add: build_frame_Inr)
  from len have "take 19 f = ljust 19 0 c" and "f ! 19 = xor_checksum (ljust 19 0 c)"
    unfolding f by (simp_all only: take_append nth_append) simp_all
  moreover have "length f = 20" unfolding f using len by simp
  ultimately show ?thesis by (simp add: is_valid_frame_iff)
qed

lemma build_frame_checksum:
  "build_frame c = Inr f \<Longrightarrow> xor_checksum f = 0 \<and> f ! 19 = xor_checksum c"
proof -
  assume "build_frame c = Inr f"
  then have f: "f = ljust 19 0 c @ [xor_checksum (ljust 19 0 c)]" and len: "length c \<le> 19"
    by (simp_all add: build_frame_Inr)
  have "xor_checksum (ljust 19 0 c) = xor_checksum c" by (simp add: ljust_def)
  with f len show ?thesis by (simp add: nth_append)
qed

lemma build_frame_nth: "build_frame c = Inr f \<Longrightarrow> i < length c \<Longrightarrow> f ! i = c ! i"
  by (auto simp: build_frame_Inr ljust_def nth_append)

lemma build_frame_padding: "build_frame c = Inr f \<Longrightarrow> length c \<le> i \<Longrightarrow> i < 19 \<Longrightarrow> f ! i = 0"
  by (auto simp: build_frame_Inr ljust_def nth_append)

lemma build_frame_take: "build_frame c = Inr f \<Longrightarrow> take (length c) f = c"
  by (auto simp: build_frame_Inr ljust_def)

lemma build_frame_starts_with:
  "build_frame (p @ c) = Inr f \<Longrightarrow> starts_with p f"
  by (auto simp: build_frame_Inr ljust_def starts_with_def)

lemma build_frame_Inl: "build_frame c = Inl e \<longleftrightarrow> e = FrameLengthError \<and> 19 < length c"
  by (auto simp: build_frame_def Let_def)

lemma build_frame_total: "length c \<le> 19 \<Longrightarrow> \<exists>f. build_frame c = Inr f"
  by (auto simp: build_frame_Inr)

section \<open>Properties\<close>

text \<open>A frame built from at most nineteen content bytes is accepted by the validator
  unchanged, carries the content in front followed by zero padding, and longer content is
  refused with a length error and nothing else.\<close>

theorem build_validate_roundtrip:
  "build_frame content =
     (if length content \<le> 19
      then Inr (content @ replicate (19 - length content) 0 @ [xor_checksum content])
      else Inl FrameLengthError) \<and>
   (case build_frame content of
      Inr f \<Rightarrow> validate_frame f = Inr f \<and> take (length content) f = content
    | Inl e \<Rightarrow> 19 < length content)"
proof (cases "length content \<le> 19")
  case True
  then obtain f where f: "build_frame content = Inr f" using build_frame_total by blast
  then have "is_valid_frame f" "take (length content) f = content"
    by (rule build_frame_valid, rule build_frame_take)
  with f have "case build_frame content of
      Inr f \<Rightarrow> validate_frame f = Inr f \<and> take (length content) f = content
    | Inl e \<Rightarrow> 19 < length content" by simp
  moreover from f True have "f = content @ replicate (19 - length content) 0 @ [xor_checksum content]"
    by (simp add: build_frame_Inr ljust_def)
  ultimately show ?thesis using f True by simp
next
  case False
  then show ?thesis by (simp add: build_frame_def)
qed

text \<open>The checksum detects every single-byte corruption: changing any one byte of a valid
  frame (content or checksum) to a different value makes validation fail with the checksum
  error.\<close>

theorem single_byte_corruption_detected:
  assumes "validate_frame frame = Inr frame" and "i < 20" and "v \<noteq> frame ! i"
  shows "validate_frame (frame[i := v]) = Inl FrameChecksumError"
proof -
  from assms(1) have len: "length frame = 20"
    and sum: "frame ! 19 = xor_checksum (take 19 frame)"
    by (auto simp: validate_frame_Inr)
  show ?thesis
  proof (cases "i = 19")
    case True
    with assms len sum show ?thesis by (simp add: validate_frame_def)
  next
    case False
    with assms(2) have i: "i < 19" by simp
    then have upd: "take 19 (frame[i := v]) = (take 19 frame)[i := v]"
      by (simp add: take_update_swap)
    have "xor_checksum ((take 19 frame)[i := v]) \<noteq> xor_checksum (take 19 frame)"
      using assms(3) i len by (subst xor_checksum_update) auto
    with upd i len sum show ?thesis by (simp add: validate_frame_def)
  qed
qed

theorem single_byte_corruption_detected_witness:
  "validate_frame ((0x33 # 0x01 # 0x01 # replicate 16 0 @ [0x33])[2 := 0x00])
     = Inl FrameChecksumError"
  by (rule single_byte_corruption_detected)
    (simp_all add: validate_frame_def eval_nat_numeral)

end
