(* ===== verification/Crypto.thy ===== *)
theory Crypto
  imports Frame "HOL-Library.Multiset"
begin

text \<open>
  The H7129 frame transform (\<open>crypto.py\<close>): one AES-128-ECB block over bytes 0 to 15 and an
  RC4-compatible keystream over bytes 16 to 19, plus the negotiation frames and the session
  key they carry.  AES comes from the third-party \<open>cryptography\<close> package: it is the parameter
  \<open>aes_ecb encrypt block key\<close> of every definition that uses it.  RC4 is written out as the code
  writes it, and its state is shown to stay a permutation of 0 to 255.
\<close>

section \<open>Keys and the RC4-compatible keystream\<close>

definition AES_BLOCK_LENGTH :: nat where
  "AES_BLOCK_LENGTH = 16"

text \<open>\<open>b"MakingLifeSmarte"\<close>\<close>

definition COMMUNICATION_KEY :: bytes where
  "COMMUNICATION_KEY =
     [0x4D, 0x61, 0x6B, 0x69, 0x6E, 0x67, 0x4C, 0x69, 0x66, 0x65, 0x53, 0x6D, 0x61, 0x72, 0x74, 0x65]"

definition validate_key :: "bytes \<Rightarrow> bytes res" where
  "validate_key key = (if length key \<noteq> AES_BLOCK_LENGTH then Inl CryptoError else Inr key)"

text \<open>\<open>state[i], state[j] = state[j], state[i]\<close>\<close>

definition swap_list :: "'a list \<Rightarrow> nat \<Rightarrow> nat \<Rightarrow> 'a list" where
  "swap_list xs i j = xs[i := xs ! j, j := xs ! i]"

text \<open>One round of the key schedule; \<open>& 0xFF\<close> is \<open>mod 256\<close>.\<close>

definition rc4_schedule_step :: "bytes \<Rightarrow> nat list \<times> nat \<Rightarrow> nat \<Rightarrow> nat list \<times> nat" where
  "rc4_schedule_step key = (\<lambda>(state, j) i.
     let j' = (j + state ! i + unat (key ! (i mod length key))) mod 256
     in (swap_list state i j', j'))"

definition rc4_schedule :: "bytes \<Rightarrow> nat list" where
  "rc4_schedule key = fst (foldl (rc4_schedule_step key) ([0..<256], 0) [0..<256])"

text \<open>The output loop: \<open>length\<close> bytes from the running state and indices.\<close>

fun rc4_output :: "nat \<Rightarrow> nat list \<Rightarrow> nat \<Rightarrow> nat \<Rightarrow> bytes" where
  "rc4_output 0 state i j = []"
| "rc4_output (Suc n) state i j =
     (let i' = (i + 1) mod 256;
          j' = (j + state ! i') mod 256;
          state' = swap_list state i' j'
      in of_nat (state' ! ((state' ! i' + state' ! j') mod 256)) # rc4_output n state' i' j')"

definition rc4_keystream :: "bytes \<Rightarrow> int \<Rightarrow> bytes res" where
  "rc4_keystream key len =
     res_bind (validate_key key) (\<lambda>key.
       if len < 0 then Inl ValueError
       else Inr (rc4_output (nat len) (rc4_schedule key) 0 0))"

definition xor_tail :: "bytes \<Rightarrow> bytes \<Rightarrow> bytes res" where
  "xor_tail tail key =
     res_bind (rc4_keystream key (int (length tail))) (\<lambda>stream.
       Inr (map2 (XOR) tail stream))"

section \<open>Frames under a key\<close>

definition encrypt_frame ::
    "(bool \<Rightarrow> bytes \<Rightarrow> bytes \<Rightarrow> bytes) \<Rightarrow> bytes \<Rightarrow> bytes \<Rightarrow> bytes res" where
  "encrypt_frame aes_ecb plaintext key =
     res_bind (validate_frame plaintext) (\<lambda>plaintext.
     res_bind (validate_key key) (\<lambda>key.
       let encrypted_head = aes_ecb True (take AES_BLOCK_LENGTH plaintext) key
       in res_bind (xor_tail (drop AES_BLOCK_LENGTH plaintext) key) (\<lambda>tail.
            Inr (encrypted_head @ tail))))"

definition decrypt_frame ::
    "(bool \<Rightarrow> bytes \<Rightarrow> bytes \<Rightarrow> bytes) \<Rightarrow> bytes \<Rightarrow> bytes \<Rightarrow> bytes res" where
  "decrypt_frame aes_ecb ciphertext key =
     (if length ciphertext \<noteq> FRAME_LENGTH then Inl CryptoError
      else res_bind (validate_key key) (\<lambda>key.
        let plaintext_head = aes_ecb False (take AES_BLOCK_LENGTH ciphertext) key
        in res_bind (xor_tail (drop AES_BLOCK_LENGTH ciphertext) key) (\<lambda>tail.
             validate_frame (plaintext_head @ tail))))"

section \<open>Session negotiation\<close>

definition create_negotiation_frame :: "int \<Rightarrow> (nat \<Rightarrow> bytes) \<Rightarrow> bytes res" where
  "create_negotiation_frame step random_bytes =
     (if step \<notin> {0x01, 0x02} then Inl CryptoError
      else let padding = random_bytes 17
           in if length padding \<noteq> 17 then Inl CryptoError
              else build_frame ([0xE7, word_of_int step] @ padding))"

definition extract_session_key :: "bytes \<Rightarrow> bytes res" where
  "extract_session_key frame =
     res_bind (validate_frame frame) (\<lambda>frame.
       if take 2 frame \<noteq> [0xE7, 0x01] then Inl CryptoError
       else Inr (py_slice 2 18 frame))"

section \<open>The RC4 state is a permutation\<close>

definition rc4_state_ok :: "nat list \<Rightarrow> bool" where
  "rc4_state_ok state \<longleftrightarrow> mset state = mset [0..<256]"

lemma AES_BLOCK_LENGTH_16 [simp]: "AES_BLOCK_LENGTH = 16"
  by (simp add: AES_BLOCK_LENGTH_def)

lemma length_swap_list [simp]: "length (swap_list xs i j) = length xs"
  by (simp add: swap_list_def)

lemma mset_swap_list: "i < length xs \<Longrightarrow> j < length xs \<Longrightarrow> mset (swap_list xs i j) = mset xs"
  by (simp add: swap_list_def mset_swap)

lemma rc4_state_ok_length: "rc4_state_ok state \<Longrightarrow> length state = 256"
  by (metis rc4_state_ok_def length_upt minus_nat.diff_0 size_mset)

lemma rc4_state_ok_swap:
  "rc4_state_ok state \<Longrightarrow> i < 256 \<Longrightarrow> j < 256 \<Longrightarrow> rc4_state_ok (swap_list state i j)"
  using rc4_state_ok_length[of state] by (simp add: rc4_state_ok_def mset_swap_list)

lemma rc4_schedule_step_ok:
  "rc4_state_ok (fst sj) \<Longrightarrow> i < 256 \<Longrightarrow> rc4_state_ok (fst (rc4_schedule_step key sj i))"
  by (cases sj) (simp add: rc4_schedule_step_def Let_def rc4_state_ok_swap)

lemma rc4_schedule_fold_ok:
  "rc4_state_ok (fst sj) \<Longrightarrow> \<forall>i \<in> set is. i < 256 \<Longrightarrow>
     rc4_state_ok (fst (foldl (rc4_schedule_step key) sj is))"
  by (induction "is" arbitrary: sj) (simp_all add: rc4_schedule_step_ok)

lemma rc4_schedule_ok: "rc4_state_ok (rc4_schedule key)"
  unfolding rc4_schedule_def by (rule rc4_schedule_fold_ok) (simp_all add: rc4_state_ok_def)

lemma rc4_state_ok_bounds: "rc4_state_ok state \<Longrightarrow> k < 256 \<Longrightarrow> state ! k < 256"
proof -
  assume ok: "rc4_state_ok state" and k: "k < 256"
  then have "state ! k \<in> set state" by (simp add: rc4_state_ok_length)
  also have "set state = {0..<256}"
    using ok by (metis rc4_state_ok_def set_mset_mset set_upt)
  finally show ?thesis by simp
qed

lemma length_rc4_output [simp]: "length (rc4_output n state i j) = n"
  by (induction n arbitrary: state i j) (simp_all add: Let_def)

lemma rc4_keystream_length:
  "rc4_keystream key n = Inr ks \<Longrightarrow> length ks = nat n \<and> length key = 16"
  by (auto simp: rc4_keystream_def validate_key_def split: if_splits)

lemma rc4_keystream_ok:
  "length key = 16 \<Longrightarrow> 0 \<le> n \<Longrightarrow> \<exists>ks. rc4_keystream key n = Inr ks"
  by (simp add: rc4_keystream_def validate_key_def)

section \<open>Involution of the tail and round trip of the frame\<close>

lemma map2_xor_involutive:
  "length xs = length ks \<Longrightarrow> map2 (XOR) (map2 (XOR) xs ks) ks = (xs :: bytes)"
  by (induction xs ks rule: list_induct2) (simp_all add: xor.assoc)

lemma xor_tail_length: "xor_tail t key = Inr u \<Longrightarrow> length u = length t"
  by (auto simp: xor_tail_def dest: rc4_keystream_length)

lemma xor_tail_involutive:
  assumes "xor_tail t key = Inr u"
  shows "xor_tail u key = Inr t"
proof -
  from assms obtain ks where ks: "rc4_keystream key (int (length t)) = Inr ks"
    and u: "u = map2 (XOR) t ks" by (auto simp: xor_tail_def)
  from ks have "length ks = length t" by (auto dest: rc4_keystream_length)
  with u ks show ?thesis by (simp add: xor_tail_def map2_xor_involutive)
qed

lemma xor_tail_total: "length key = 16 \<Longrightarrow> \<exists>u. xor_tail t key = Inr u"
  using rc4_keystream_ok[of key "int (length t)"] by (auto simp: xor_tail_def)

lemma decrypt_frame_valid: "decrypt_frame aes c key = Inr p \<Longrightarrow> is_valid_frame p"
  by (auto simp: decrypt_frame_def Let_def is_valid_frame_validate validate_frame_Inr split: if_splits)

lemma decrypt_frame_value_error: "decrypt_frame aes c key = Inl e \<Longrightarrow> is_value_error e"
  by (auto simp: decrypt_frame_def Let_def validate_key_def xor_tail_def rc4_keystream_def
      is_frame_error_def split: if_splits dest!: validate_frame_Inl_frame_error)

lemma create_negotiation_frame_ok:
  assumes "s = 1 \<or> s = 2" and "length (rnd 17) = 17"
  shows "\<exists>f. create_negotiation_frame s rnd = Inr f \<and> validate_frame f = Inr f \<and>
    take 19 f = [0xE7, word_of_int s] @ rnd 17"
proof -
  have len: "length ([0xE7, word_of_int s] @ rnd 17) = 19" using assms by simp
  then obtain f where f: "build_frame ([0xE7, word_of_int s] @ rnd 17) = Inr f"
    using build_frame_total by (metis le_refl)
  with len have "take 19 f = [0xE7, word_of_int s] @ rnd 17" using build_frame_take by metis
  with f assms build_frame_valid[OF f] show ?thesis by (auto simp: create_negotiation_frame_def)
qed

lemma take_2_of_19: "take 2 f = take 2 (take 19 f)"
  by simp

lemma py_slice_of_19: "py_slice 2 18 f = take 16 (drop 2 (take 19 f))"
  by (simp add: py_slice_def drop_take)

section \<open>Properties\<close>

text \<open>The RC4 key schedule leaves a permutation of 0 to 255 and every swap keeps it one, so
  every keystream index is in range and every value emitted is a byte; the keystream has
  exactly the requested length.\<close>

theorem rc4_state_permutation:
  "rc4_state_ok (rc4_schedule key) \<and>
   (\<forall>state i j. rc4_state_ok state \<longrightarrow> i < 256 \<longrightarrow> j < 256 \<longrightarrow>
      rc4_state_ok (swap_list state i j) \<and> state ! ((state ! i + state ! j) mod 256) < 256) \<and>
   (\<forall>n ks. rc4_keystream key n = Inr ks \<longrightarrow> length ks = nat n)"
  using rc4_schedule_ok rc4_state_ok_swap rc4_state_ok_bounds rc4_keystream_length by auto

theorem rc4_state_permutation_witness:
  "rc4_state_ok (swap_list [0..<256] 3 7) \<and>
   (\<exists>ks. rc4_keystream COMMUNICATION_KEY 4 = Inr ks \<and> length ks = 4)"
proof -
  have "rc4_state_ok [0..<256]" by (simp add: rc4_state_ok_def)
  then have 1: "rc4_state_ok (swap_list [0..<256] 3 7)"
    using rc4_state_permutation[of COMMUNICATION_KEY] by simp
  obtain ks where ks: "rc4_keystream COMMUNICATION_KEY 4 = Inr ks"
    using rc4_keystream_ok[of COMMUNICATION_KEY 4] by (auto simp: COMMUNICATION_KEY_def)
  moreover from ks have "length ks = 4"
    using rc4_state_permutation[of COMMUNICATION_KEY] by auto
  ultimately show ?thesis using 1 by blast
qed

lemma decrypt_encrypted:
  assumes "\<And>b k. length b = 16 \<Longrightarrow> length k = 16 \<Longrightarrow>
      length (aes True b k) = 16 \<and> aes False (aes True b k) k = b"
    and "validate_frame plaintext = Inr plaintext" and "length key = 16"
  shows "\<exists>wire. encrypt_frame aes plaintext key = Inr wire \<and> length wire = 20 \<and>
    decrypt_frame aes wire key = Inr plaintext"
proof -
  from assms(2) have len: "length plaintext = 20" by (simp add: validate_frame_Inr)
  obtain tail where tail: "xor_tail (drop 16 plaintext) key = Inr tail"
    using xor_tail_total[OF assms(3)] by blast
  then have tl: "length tail = 4" using len by (auto dest: xor_tail_length)
  let ?head = "aes True (take 16 plaintext) key"
  have head: "length ?head = 16" "aes False ?head key = take 16 plaintext"
    using assms(1)[of "take 16 plaintext" key] assms(3) len by auto
  have "encrypt_frame aes plaintext key = Inr (?head @ tail)"
    using assms(2,3) tail by (simp add: encrypt_frame_def validate_key_def)
  moreover have "decrypt_frame aes (?head @ tail) key = validate_frame plaintext"
    using assms(3) head tl xor_tail_involutive[OF tail]
    by (simp add: decrypt_frame_def validate_key_def)
  ultimately show ?thesis using assms(2) head(1) tl by auto
qed

text \<open>Decrypting what was encrypted under the same sixteen-byte key returns the original
  frame, for any block cipher whose decryption inverts its encryption on sixteen-byte blocks;
  the wire frame is again twenty bytes long.\<close>

theorem encrypt_decrypt_roundtrip:
  assumes "\<And>b k. length b = 16 \<Longrightarrow> length k = 16 \<Longrightarrow>
      length (aes True b k) = 16 \<and> aes False (aes True b k) k = b"
    and "validate_frame plaintext = Inr plaintext" and "length key = 16"
  shows "\<exists>wire. encrypt_frame aes plaintext key = Inr wire \<and> length wire = 20 \<and>
    decrypt_frame aes wire key = Inr plaintext"
  by (rule decrypt_encrypted) (use assms in auto)

theorem encrypt_decrypt_roundtrip_witness:
  "\<exists>wire. encrypt_frame (\<lambda>_ b k. map2 (XOR) b k)
       (0xAA # 0x01 # replicate 17 0 @ [0xAB]) COMMUNICATION_KEY = Inr wire \<and>
     length wire = 20 \<and>
     decrypt_frame (\<lambda>_ b k. map2 (XOR) b k) wire COMMUNICATION_KEY
       = Inr (0xAA # 0x01 # replicate 17 0 @ [0xAB])"
  by (rule encrypt_decrypt_roundtrip)
    (auto simp: map2_xor_involutive COMMUNICATION_KEY_def validate_frame_def eval_nat_numeral)

text \<open>The session key the \<open>e7 01\<close> answer carries is its bytes 2 to 17: extracting it from a
  negotiation frame gives the first sixteen padding bytes, which is a usable key, and an
  \<open>e7 02\<close> frame is refused.\<close>

theorem negotiation_key_roundtrip:
  assumes "length (rnd 17) = 17"
  shows "(\<exists>frame. create_negotiation_frame 0x01 rnd = Inr frame \<and>
      extract_session_key frame = Inr (take 16 (rnd 17)) \<and>
      validate_key (take 16 (rnd 17)) = Inr (take 16 (rnd 17))) \<and>
    (\<exists>frame. create_negotiation_frame 0x02 rnd = Inr frame \<and>
      extract_session_key frame = Inl CryptoError)"
proof -
  obtain f where f: "create_negotiation_frame 1 rnd = Inr f" "validate_frame f = Inr f"
      "take 19 f = [0xE7, 1] @ rnd 17"
    using create_negotiation_frame_ok[of 1 rnd] assms by auto
  obtain g where g: "create_negotiation_frame 2 rnd = Inr g" "validate_frame g = Inr g"
      "take 19 g = [0xE7, 2] @ rnd 17"
    using create_negotiation_frame_ok[of 2 rnd] assms by auto
  have "extract_session_key f = Inr (take 16 (rnd 17))"
    using f(2) take_2_of_19[of f] py_slice_of_19[of f] f(3) by (simp add: extract_session_key_def)
  moreover have "extract_session_key g = Inl CryptoError"
    using g(2) take_2_of_19[of g] g(3) by (simp add: extract_session_key_def)
  ultimately show ?thesis using f(1) g(1) assms by (simp add: validate_key_def)
qed

theorem negotiation_key_roundtrip_witness:
  "\<exists>frame. create_negotiation_frame 0x01 (\<lambda>n. replicate n 7) = Inr frame \<and>
      extract_session_key frame = Inr (take 16 (replicate 17 7)) \<and>
      validate_key (take 16 (replicate 17 7)) = Inr (take 16 (replicate 17 7))"
  using negotiation_key_roundtrip[of "\<lambda>n. replicate n 7"] by simp

end
