(* ===== verification/Models.thy ===== *)
theory Models
  imports Govee_Prelude
begin

text \<open>
  The pure data models shared by all layers (\<open>models.py\<close>, \<open>observations.py\<close>): enumerations with
  their string values, the cached purifier state, typed commands, decoded events, and the
  observations with their provenance.
\<close>

section \<open>Enumerations\<close>

datatype model = H7123 | H712C | H7124 | H7129

datatype security_mode = PLAINTEXT | H7129_SESSION

datatype fan_mode = LOW | MEDIUM | HIGH | SLEEP | AUTO | TURBO

fun model_value :: "model \<Rightarrow> string" where
  "model_value H7123 = ''H7123''"
| "model_value H712C = ''H712C''"
| "model_value H7124 = ''H7124''"
| "model_value H7129 = ''H7129''"

fun security_mode_value :: "security_mode \<Rightarrow> string" where
  "security_mode_value PLAINTEXT = ''plaintext''"
| "security_mode_value H7129_SESSION = ''h7129_session''"

fun fan_mode_value :: "fan_mode \<Rightarrow> string" where
  "fan_mode_value LOW = ''low''"
| "fan_mode_value MEDIUM = ''medium''"
| "fan_mode_value HIGH = ''high''"
| "fan_mode_value SLEEP = ''sleep''"
| "fan_mode_value AUTO = ''auto''"
| "fan_mode_value TURBO = ''turbo''"

text \<open>\<open>Model(value)\<close>, \<open>SecurityMode(value)\<close>, \<open>FanMode(value)\<close>: lookup by value, else \<open>ValueError\<close>.\<close>

definition model_of_value :: "string \<Rightarrow> model res" where
  "model_of_value v =
     (case find (\<lambda>m. model_value m = v) [H7123, H712C, H7124, H7129] of
        Some m \<Rightarrow> Inr m | None \<Rightarrow> Inl ValueError)"

definition security_mode_of_value :: "string \<Rightarrow> security_mode res" where
  "security_mode_of_value v =
     (case find (\<lambda>m. security_mode_value m = v) [PLAINTEXT, H7129_SESSION] of
        Some m \<Rightarrow> Inr m | None \<Rightarrow> Inl ValueError)"

definition fan_mode_of_value :: "string \<Rightarrow> fan_mode res" where
  "fan_mode_of_value v =
     (case find (\<lambda>m. fan_mode_value m = v) [LOW, MEDIUM, HIGH, SLEEP, AUTO, TURBO] of
        Some m \<Rightarrow> Inr m | None \<Rightarrow> Inl ValueError)"

text \<open>The finite enumerations are instances of the library's enumeration class, so that
  statements about all modes are decided by computation.\<close>

instantiation fan_mode :: enum
begin

definition enum_fan_mode :: "fan_mode list" where
  "enum_fan_mode = [LOW, MEDIUM, HIGH, SLEEP, AUTO, TURBO]"

definition enum_all_fan_mode :: "(fan_mode \<Rightarrow> bool) \<Rightarrow> bool" where
  "enum_all_fan_mode P \<longleftrightarrow> P LOW \<and> P MEDIUM \<and> P HIGH \<and> P SLEEP \<and> P AUTO \<and> P TURBO"

definition enum_ex_fan_mode :: "(fan_mode \<Rightarrow> bool) \<Rightarrow> bool" where
  "enum_ex_fan_mode P \<longleftrightarrow> P LOW \<or> P MEDIUM \<or> P HIGH \<or> P SLEEP \<or> P AUTO \<or> P TURBO"

instance
proof
  have cases: "x \<in> {LOW, MEDIUM, HIGH, SLEEP, AUTO, TURBO}" for x by (cases x) simp_all
  then show univ: "(UNIV :: fan_mode set) = set enum_class.enum"
    by (auto simp: enum_fan_mode_def)
  show "distinct (enum_class.enum :: fan_mode list)" by (simp add: enum_fan_mode_def)
  show "enum_class.enum_all P \<longleftrightarrow> Ball UNIV P" for P :: "fan_mode \<Rightarrow> bool"
    unfolding univ by (simp add: enum_fan_mode_def enum_all_fan_mode_def)
  show "enum_class.enum_ex P \<longleftrightarrow> Bex UNIV P" for P :: "fan_mode \<Rightarrow> bool"
    unfolding univ by (simp add: enum_fan_mode_def enum_ex_fan_mode_def)
qed

end

instantiation model :: enum
begin

definition enum_model :: "model list" where
  "enum_model = [H7123, H712C, H7124, H7129]"

definition enum_all_model :: "(model \<Rightarrow> bool) \<Rightarrow> bool" where
  "enum_all_model P \<longleftrightarrow> P H7123 \<and> P H712C \<and> P H7124 \<and> P H7129"

definition enum_ex_model :: "(model \<Rightarrow> bool) \<Rightarrow> bool" where
  "enum_ex_model P \<longleftrightarrow> P H7123 \<or> P H712C \<or> P H7124 \<or> P H7129"

instance
proof
  have cases: "x \<in> {H7123, H712C, H7124, H7129}" for x by (cases x) simp_all
  then show univ: "(UNIV :: model set) = set enum_class.enum"
    by (auto simp: enum_model_def)
  show "distinct (enum_class.enum :: model list)" by (simp add: enum_model_def)
  show "enum_class.enum_all P \<longleftrightarrow> Ball UNIV P" for P :: "model \<Rightarrow> bool"
    unfolding univ by (simp add: enum_model_def enum_all_model_def)
  show "enum_class.enum_ex P \<longleftrightarrow> Bex UNIV P" for P :: "model \<Rightarrow> bool"
    unfolding univ by (simp add: enum_model_def enum_ex_model_def)
qed

end

lemma model_of_value_value [simp]: "model_of_value (model_value m) = Inr m"
  by (cases m) (simp_all add: model_of_value_def)

lemma fan_mode_of_value_value [simp]: "fan_mode_of_value (fan_mode_value m) = Inr m"
  by (cases m) (simp_all add: fan_mode_of_value_def)

lemma fan_mode_value_inj: "fan_mode_value m = fan_mode_value n \<longleftrightarrow> m = n"
  by (metis fan_mode_of_value_value sum.inject(2))

section \<open>Cached state\<close>

text \<open>\<open>None\<close> means not yet authoritatively observed.\<close>

record purifier_state =
  ps_power :: "bool option"
  ps_fan_mode :: "fan_mode option"
  ps_light_power :: "bool option"
  ps_light_brightness :: "int option"
  ps_light_rgb :: "(int \<times> int \<times> int) option"
  ps_pm25 :: "int option"
  ps_filter_life :: "int option"

definition empty_purifier_state :: purifier_state where
  "empty_purifier_state =
     \<lparr>ps_power = None, ps_fan_mode = None, ps_light_power = None, ps_light_brightness = None,
      ps_light_rgb = None, ps_pm25 = None, ps_filter_life = None\<rparr>"

section \<open>Commands\<close>

datatype command =
    QueryDeviceState
  | QueryNightLightState
  | QueryNightLightColor
  | QueryAirQuality
  | SetPower bool
  | SetFanMode fan_mode
  | SetNightLightPower bool
  | SetNightLightBrightness int
  | SetNightLightColor int int int
  | RawCommand bytes

text \<open>\<open>type(command).__name__\<close>\<close>

fun command_type_name :: "command \<Rightarrow> string" where
  "command_type_name QueryDeviceState = ''QueryDeviceState''"
| "command_type_name QueryNightLightState = ''QueryNightLightState''"
| "command_type_name QueryNightLightColor = ''QueryNightLightColor''"
| "command_type_name QueryAirQuality = ''QueryAirQuality''"
| "command_type_name (SetPower _) = ''SetPower''"
| "command_type_name (SetFanMode _) = ''SetFanMode''"
| "command_type_name (SetNightLightPower _) = ''SetNightLightPower''"
| "command_type_name (SetNightLightBrightness _) = ''SetNightLightBrightness''"
| "command_type_name (SetNightLightColor _ _ _) = ''SetNightLightColor''"
| "command_type_name (RawCommand _) = ''RawCommand''"

fun is_SetFanMode :: "command \<Rightarrow> bool" where
  "is_SetFanMode (SetFanMode _) = True"
| "is_SetFanMode _ = False"

section \<open>Decoded events\<close>

text \<open>Every event carries the frame it was decoded from as its first component.\<close>

datatype event =
    DeviceStateEvent (event_frame: bytes) (dev_power: "bool option") (dev_status_flags: int)
      (dev_volatile_state: int)
  | FanModeEvent (event_frame: bytes) (fan_event_mode: "fan_mode option") (fan_mode_code: int)
      (fan_manual_level: int) (fan_auto_parameter: int)
  | StartupFanModeEvent (event_frame: bytes) (su_selector: int) (su_mode_code: "int option")
      (su_manual_level: "int option") (su_level_or_configuration: "int option")
      (su_auto_parameter: "int option")
  | NightLightStateEvent (event_frame: bytes) (nl_power: "bool option") (nl_brightness: int)
      (nl_prefix: int) (nl_unsolicited: bool)
  | NightLightColorEvent (event_frame: bytes) (nl_red: "int option") (nl_green: "int option")
      (nl_blue: "int option") (color_available: bool) (acknowledgement_only: bool)
      (nlc_prefix: int)
  | AirQualityEvent (event_frame: bytes) (aq_status_flags: int) (aq_pm25: "int option")
      (aq_raw_pm25: int) (aq_mode_related: int) (aq_unknown: int) (aq_filter_life: int)
      (aq_unsolicited: bool)
  | RefreshRequestedEvent (event_frame: bytes)
  | NegotiationEvent (event_frame: bytes) (neg_step: int)
  | EchoEvent (event_frame: bytes) (echo_prefix: int) (echo_command: int)
  | UnknownEvent (event_frame: bytes) (unknown_prefix: int) (unknown_command: int)

section \<open>Observations\<close>

record received_frame =
  rf_frame :: bytes
  rf_generation :: int
  rf_received_at :: time

datatype command_origin = HOME_ASSISTANT | CUSTOM_AUTO | HANDOFF

datatype observation_source = SRC_STARTUP | SRC_COMMAND | SRC_PHYSICAL | SRC_QUERY | SRC_DEVICE

datatype observation_purpose =
    PUR_STARTUP | PUR_COMMAND | PUR_ONE_SHOT | PUR_REFRESH | PUR_PERIODIC | PUR_UNSOLICITED

record provenance =
  ob_revision :: int
  ob_generation :: int
  ob_observed_at :: time
  ob_source :: observation_source
  ob_purpose :: observation_purpose
  ob_request_id :: "int option"
  ob_operation_id :: "nat option"
  ob_command_origin :: "command_origin option"

datatype observation =
    FanModeObservation (ob_provenance: provenance) (ob_mode: fan_mode)
  | AirQualityObservation (ob_provenance: provenance) (ob_pm25: "int option") (ob_filter_life: int)

end
