(* ===== verification/Profiles.thy ===== *)
theory Profiles
  imports Models
begin

text \<open>
  Immutable runtime values of a model profile (\<open>profiles/types.py\<close>).  A Python mapping whose
  order or keys the code enumerates is an association list; lookups go through \<open>map_of\<close>.
\<close>

section \<open>Sections of a profile\<close>

datatype support_status = BASELINE | VERIFIED | EXPERIMENTAL

fun support_status_value :: "support_status \<Rightarrow> string" where
  "support_status_value BASELINE = ''baseline''"
| "support_status_value VERIFIED = ''verified''"
| "support_status_value EXPERIMENTAL = ''experimental''"

definition support_status_of_value :: "string \<Rightarrow> support_status res" where
  "support_status_of_value v =
     (case find (\<lambda>m. support_status_value m = v) [BASELINE, VERIFIED, EXPERIMENTAL] of
        Some m \<Rightarrow> Inr m | None \<Rightarrow> Inl ValueError)"

record identity_profile =
  manufacturer :: string
  identity_model :: "model option"
  display_name :: string
  support_status :: support_status
  advertised_name_prefixes :: "string list"

record bluetooth_profile =
  service_uuid :: string
  notify_uuid :: string
  write_uuid :: string

record negotiation_policy =
  neg_attempts :: int
  neg_retry_interval :: time
  neg_phase_timeout :: time
  neg_step_delay :: time

record channel_profile =
  ch_strategy :: security_mode
  first_application_delay :: time
  negotiation :: "negotiation_policy option"

record matcher_definition =
  md_kind :: string
  md_prefix :: bytes
  md_selector :: bytes
  md_exact :: bytes
  md_exact_alternatives :: "bytes list"
  md_fragments :: "int list"
  md_allowed_prefixes :: "bytes list"
  md_expected_fields :: "(int \<times> int) list"
  md_allowed_values :: "int list"

record request_definition =
  rd_name :: string
  rd_frame :: bytes
  rd_response :: matcher_definition

record command_definition =
  cd_strategy :: string
  cd_prefix :: bytes

record protocol_profile =
  codec_name :: string
  checksum_name :: string
  frame_size :: int
  pr_auto_parameter :: int
  startup_mode_strategy :: string
  pr_commands :: "(string \<times> command_definition) list"
  request_catalog :: "(string \<times> request_definition) list"
  initialization_order :: "string list"
  refresh_order :: "string list"
  essential_request :: string
  periodic_request :: string

record capability_profile =
  cap_power :: bool
  cap_fan :: bool
  cap_light :: bool
  cap_pm25 :: bool
  cap_filter_life :: bool
  cap_unsolicited_updates :: bool
  cap_refresh :: bool

record timing_profile =
  connect_attempts :: int
  connection_attempt_timeout :: time
  connection_abort_timeout :: time
  connection_diagnostic_timeout :: time
  notification_subscribe_timeout :: time
  gatt_write_timeout :: time
  gatt_disconnect_timeout :: time
  gatt_operation_cancel_timeout :: time
  stale_connection_cleanup_timeout :: time
  stale_connection_check_interval :: time
  advertisement_check_interval :: time
  recent_cached_advertisement_max_age :: time
  fresh_advertisement_timeout :: time
  transaction_timeout :: time
  initialization_attempts :: int
  essential_initialization_max_batches :: int
  initialization_retry_delay :: time
  periodic_poll_attempts :: int
  refresh_attempts :: int
  command_send_attempts :: int
  command_deadline :: time
  startup_timeout :: time
  between_request_delay :: time
  poll_interval :: time
  initial_poll_delay :: time
  backoff_initial :: time
  backoff_max :: time
  backoff_reset_after :: time
  recent_advertisement_backoff_max :: time
  advertisement_settle_delay :: time
  recovery_storm_window :: time
  recovery_storm_failure_threshold :: int
  recovery_storm_advertisement_threshold :: int
  recovery_storm_initial_floor :: time
  recovery_storm_max_floor :: time

record custom_auto_defaults =
  cad_modes :: "fan_mode list"
  cad_pm25_boundaries :: "int list"
  cad_upshift_confirmation_seconds :: int
  cad_downshift_delays_minutes :: "int list"

record device_profile =
  schema_version :: int
  profile_id :: string
  lineage :: "string list"
  source_basename :: string
  fingerprint :: string
  identity :: identity_profile
  bluetooth :: bluetooth_profile
  channel :: channel_profile
  protocol :: protocol_profile
  capabilities :: capability_profile
  timings :: timing_profile
  custom_auto_defaults :: custom_auto_defaults

section \<open>Derived values\<close>

text \<open>Baseline profiles have no model and cannot enter the runtime.\<close>

definition profile_model :: "device_profile \<Rightarrow> model res" where
  "profile_model p =
     (case identity_model (identity p) of
        None \<Rightarrow> Inl ProfileSelectionError | Some m \<Rightarrow> Inr m)"

definition profile_security :: "device_profile \<Rightarrow> security_mode" where
  "profile_security p = ch_strategy (channel p)"

definition profile_auto_parameter :: "device_profile \<Rightarrow> int" where
  "profile_auto_parameter p = pr_auto_parameter (protocol p)"

definition manual_modes :: "device_profile \<Rightarrow> fan_mode list res" where
  "manual_modes p =
     (let modes = [SLEEP, LOW, MEDIUM, HIGH]
      in res_bind (profile_model p) (\<lambda>m.
           Inr (if m = H7123 then modes else modes @ [TURBO])))"

definition supports_auto :: "device_profile \<Rightarrow> bool res" where
  "supports_auto p = res_bind (profile_model p) (\<lambda>m. Inr (m \<noteq> H712C))"

text \<open>The mapping a capability profile exposes in diagnostics.\<close>

definition capability_as_dict :: "capability_profile \<Rightarrow> (string \<times> bool) list" where
  "capability_as_dict c =
     [(''power'', cap_power c), (''fan'', cap_fan c), (''light'', cap_light c),
      (''pm25'', cap_pm25 c), (''filter_life'', cap_filter_life c),
      (''unsolicited_updates'', cap_unsolicited_updates c), (''refresh'', cap_refresh c)]"

text \<open>The fan modes a model can be commanded into.\<close>

definition commandable_modes :: "model \<Rightarrow> fan_mode list" where
  "commandable_modes m =
     [SLEEP, LOW, MEDIUM, HIGH] @ (if m = H7123 then [] else [TURBO])
       @ (if m = H712C then [] else [AUTO])"

end
