(* ===== verification/Protocol_Requests.thy ===== *)
theory Protocol_Requests
  imports Frame Profiles
begin

text \<open>
  Value objects of the protocol (\<open>protocol/types.py\<close>) and the translation of profile request
  catalogs and typed commands into response rules (\<open>protocol/requests.py\<close>).
\<close>

section \<open>Response rules and request descriptors\<close>

datatype response_kind =
    EXACT | VALUE_BYTE | ZERO_PAYLOAD | PREFIX | PREFIX_SELECTOR | FRAGMENTS | H7129_METADATA | FIELDS

datatype match_result = IGNORED | ACCEPTED | COMPLETE

record response_spec =
  rs_kind :: response_kind
  rs_prefix :: bytes
  rs_selector :: bytes
  rs_exact :: bytes
  rs_exact_alternatives :: "bytes list"
  rs_fragments :: "int list"
  rs_allowed_prefixes :: "bytes list"
  rs_expected_fields :: "(int \<times> int) list"
  rs_allowed_values :: "int list"

text \<open>\<open>ResponseSpec(kind)\<close> with every other field at its default.\<close>

definition response_spec :: "response_kind \<Rightarrow> response_spec" where
  "response_spec k =
     \<lparr>rs_kind = k, rs_prefix = [], rs_selector = [], rs_exact = [], rs_exact_alternatives = [],
      rs_fragments = [], rs_allowed_prefixes = [], rs_expected_fields = [],
      rs_allowed_values = []\<rparr>"

record request_descriptor =
  dsc_name :: string
  dsc_frame :: bytes
  dsc_response :: response_spec

text \<open>The constructor validates its frame.\<close>

definition mk_request_descriptor ::
    "string \<Rightarrow> bytes \<Rightarrow> response_spec \<Rightarrow> request_descriptor res" where
  "mk_request_descriptor name frame response =
     res_bind (validate_frame frame) (\<lambda>f.
       Inr \<lparr>dsc_name = name, dsc_frame = f, dsc_response = response\<rparr>)"

fun response_kind_value :: "response_kind \<Rightarrow> string" where
  "response_kind_value EXACT = ''exact''"
| "response_kind_value VALUE_BYTE = ''value_byte''"
| "response_kind_value ZERO_PAYLOAD = ''zero_payload''"
| "response_kind_value PREFIX = ''prefix''"
| "response_kind_value PREFIX_SELECTOR = ''prefix_selector''"
| "response_kind_value FRAGMENTS = ''fragments''"
| "response_kind_value H7129_METADATA = ''h7129_metadata''"
| "response_kind_value FIELDS = ''fields''"

definition response_kind_of_value :: "string \<Rightarrow> response_kind res" where
  "response_kind_of_value v =
     (case find (\<lambda>k. response_kind_value k = v)
         [EXACT, VALUE_BYTE, ZERO_PAYLOAD, PREFIX, PREFIX_SELECTOR, FRAGMENTS, H7129_METADATA,
          FIELDS] of
        Some k \<Rightarrow> Inr k | None \<Rightarrow> Inl ValueError)"

section \<open>Profile-derived catalogs\<close>

definition rule_prefix :: "bytes \<Rightarrow> response_spec" where
  "rule_prefix p = (response_spec PREFIX)\<lparr>rs_prefix := p\<rparr>"

definition rule_selector :: "bytes \<Rightarrow> bytes \<Rightarrow> response_spec" where
  "rule_selector p s = (response_spec PREFIX_SELECTOR)\<lparr>rs_prefix := p, rs_selector := s\<rparr>"

definition rule_exact :: "bytes \<Rightarrow> response_spec" where
  "rule_exact f = (response_spec EXACT)\<lparr>rs_exact := f\<rparr>"

definition response_spec_of_definition :: "matcher_definition \<Rightarrow> response_spec res" where
  "response_spec_of_definition d =
     res_bind (response_kind_of_value (md_kind d)) (\<lambda>k.
       Inr \<lparr>rs_kind = k, rs_prefix = md_prefix d, rs_selector = md_selector d,
            rs_exact = md_exact d, rs_exact_alternatives = md_exact_alternatives d,
            rs_fragments = md_fragments d, rs_allowed_prefixes = md_allowed_prefixes d,
            rs_expected_fields = md_expected_fields d,
            rs_allowed_values = md_allowed_values d\<rparr>)"

definition build_request_catalog ::
    "device_profile \<Rightarrow> (string \<times> request_descriptor) list res" where
  "build_request_catalog p =
     res_map_list (\<lambda>(name, d).
       res_bind (response_spec_of_definition (rd_response d)) (\<lambda>spec.
       res_bind (mk_request_descriptor (rd_name d) (rd_frame d) spec) (\<lambda>dsc.
         Inr (name, dsc))))
       (request_catalog (protocol p))"

section \<open>Response rules of typed commands\<close>

definition int_of_bool :: "bool \<Rightarrow> int" where
  "int_of_bool b = (if b then 1 else 0)"

text \<open>The fields a fan-mode notification must carry, read off the encoded request.\<close>

definition fan_fields :: "fan_mode \<Rightarrow> bytes \<Rightarrow> (int \<times> int) list" where
  "fan_fields mode frame =
     (if mode \<in> {LOW, MEDIUM, HIGH} then [(2, uint (frame ! 2)), (3, uint (frame ! 3))]
      else if mode = AUTO then [(2, uint (frame ! 2)), (5, uint (frame ! 5))]
      else [(2, uint (frame ! 2))])"

fun response_for_command :: "command \<Rightarrow> bytes \<Rightarrow> response_spec" where
  "response_for_command QueryDeviceState frame = rule_prefix [0xAA, 0x01]"
| "response_for_command QueryNightLightState frame = rule_selector [0xAA, 0x1B] [0x01]"
| "response_for_command QueryNightLightColor frame = rule_selector [0xAA, 0x1B] [0x05]"
| "response_for_command QueryAirQuality frame = rule_prefix [0xAA, 0x19]"
| "response_for_command (SetPower on) frame =
     (response_spec FIELDS)\<lparr>rs_allowed_prefixes := [[0xAA, 0x01]],
        rs_expected_fields := [(2, int_of_bool on)]\<rparr>"
| "response_for_command (SetFanMode mode) frame =
     (response_spec FIELDS)\<lparr>rs_exact_alternatives := [frame],
        rs_allowed_prefixes := [[0xEE, 0x05]], rs_expected_fields := fan_fields mode frame\<rparr>"
| "response_for_command (SetNightLightPower on) frame =
     (response_spec FIELDS)\<lparr>rs_allowed_prefixes := [[0xAA, 0x1B], [0x3A, 0x1B], [0xEE, 0x1B]],
        rs_expected_fields := [(2, 0x01), (3, int_of_bool on)]\<rparr>"
| "response_for_command (SetNightLightBrightness percent) frame =
     (response_spec FIELDS)\<lparr>rs_allowed_prefixes := [[0xAA, 0x1B], [0x3A, 0x1B], [0xEE, 0x1B]],
        rs_expected_fields := [(2, 0x01), (4, percent)]\<rparr>"
| "response_for_command (SetNightLightColor r g b) frame =
     (response_spec FIELDS)\<lparr>rs_allowed_prefixes := [[0x3A, 0x1B]],
        rs_expected_fields := map (\<lambda>offset. (int offset, uint (frame ! offset))) [2..<7]\<rparr>"
| "response_for_command (RawCommand raw) frame = rule_exact frame"

lemma response_spec_simps [simp]:
  "rs_kind (response_spec k) = k" "rs_prefix (response_spec k) = []"
  "rs_selector (response_spec k) = []" "rs_exact (response_spec k) = []"
  "rs_exact_alternatives (response_spec k) = []" "rs_fragments (response_spec k) = []"
  "rs_allowed_prefixes (response_spec k) = []" "rs_expected_fields (response_spec k) = []"
  "rs_allowed_values (response_spec k) = []"
  by (simp_all add: response_spec_def)

lemma mk_request_descriptor_Inr:
  "mk_request_descriptor n f r = Inr d \<longleftrightarrow>
     is_valid_frame f \<and> d = \<lparr>dsc_name = n, dsc_frame = f, dsc_response = r\<rparr>"
  by (auto simp: mk_request_descriptor_def is_valid_frame_validate validate_frame_Inr)

lemma build_request_catalog_valid:
  assumes "build_request_catalog p = Inr cat" and "map_of cat n = Some d"
  shows "is_valid_frame (dsc_frame d)"
proof -
  from assms(2) have "(n, d) \<in> set cat" by (rule map_of_SomeD)
  with assms(1) show ?thesis
    unfolding build_request_catalog_def
    by (auto dest!: res_map_list_Inr_set simp: mk_request_descriptor_Inr)
qed

lemma build_request_catalog_keys:
  assumes "build_request_catalog p = Inr cat"
  shows "map fst cat = map fst (request_catalog (protocol p))"
proof -
  have "map fst ys = map fst xs"
    if "res_map_list (\<lambda>(name, d).
       res_bind (response_spec_of_definition (rd_response d)) (\<lambda>spec.
       res_bind (mk_request_descriptor (rd_name d) (rd_frame d) spec) (\<lambda>dsc.
         Inr (name, dsc)))) xs = Inr ys" for xs ys
    using that by (induction xs arbitrary: ys) auto
  with assms show ?thesis unfolding build_request_catalog_def by blast
qed

end
