(* ===== verification/Protocol_Matcher.thy ===== *)
theory Protocol_Matcher
  imports Protocol_Requests
begin

text \<open>
  Response matching and multipart progress (\<open>protocol/matcher.py\<close>).  The locale
  \<open>response_matcher\<close> is the interface the transaction executor relies on: a matcher completes
  at most once, nothing is accepted after completion, and the evidence it keeps is a
  subsequence of what it was fed.  \<open>ResponseMatcher\<close> interprets it.
\<close>

section \<open>The interface of a matcher\<close>

locale response_matcher =
  fixes feed :: "'m \<Rightarrow> bytes \<Rightarrow> ('m \<times> match_result) res"
    and complete :: "'m \<Rightarrow> bool"
    and frames :: "'m \<Rightarrow> bytes list"
  assumes feed_complete: "complete m \<Longrightarrow> feed m d = Inr (m, IGNORED)"
    and feed_result: "feed m d = Inr (m', r) \<Longrightarrow> r = COMPLETE \<longleftrightarrow> \<not> complete m \<and> complete m'"
    and feed_mono: "feed m d = Inr (m', r) \<Longrightarrow> complete m \<Longrightarrow> complete m'"
    and feed_frames: "feed m d = Inr (m', r) \<Longrightarrow> frames m' = frames m \<or> frames m' = frames m @ [d]"
    and feed_ignored: "feed m d = Inr (m', IGNORED) \<Longrightarrow> m' = m"
    and feed_complete_frames: "feed m d = Inr (m', COMPLETE) \<Longrightarrow> frames m' = frames m @ [d]"
begin

text \<open>Offering a whole stream, stopping at the first error.\<close>

fun feed_all :: "'m \<Rightarrow> bytes list \<Rightarrow> 'm res" where
  "feed_all m [] = Inr m"
| "feed_all m (d # ds) = res_bind (feed m d) (\<lambda>(m', _). feed_all m' ds)"

lemma feed_all_after_complete: "complete m \<Longrightarrow> feed_all m ds = Inr m"
  by (induction ds) (simp_all add: feed_complete)

lemma feed_all_frames_subset: "feed_all m ds = Inr m' \<Longrightarrow> set (frames m') \<subseteq> set (frames m) \<union> set ds"
proof (induction ds arbitrary: m)
  case Nil
  then show ?case by simp
next
  case (Cons d ds)
  then obtain m1 r where 1: "feed m d = Inr (m1, r)" and 2: "feed_all m1 ds = Inr m'"
    by auto
  from Cons.IH[OF 2] feed_frames[OF 1] show ?case by auto
qed

lemma feed_all_append:
  "feed_all m (ds @ es) = res_bind (feed_all m ds) (\<lambda>m'. feed_all m' es)"
  by (induction ds arbitrary: m) (auto simp: res_bind_def split: sum.splits)

lemma complete_is_final:
  assumes "feed_all m ds = Inr m'" and "complete m'"
  shows "feed_all m (ds @ es) = Inr m'"
  using assms feed_all_after_complete by (simp add: feed_all_append)

end

section \<open>The response matcher\<close>

record matcher =
  mt_descriptor :: request_descriptor
  mt_frames :: "bytes list"
  mt_fragment_index :: nat
  mt_complete :: bool

definition new_matcher :: "request_descriptor \<Rightarrow> matcher" where
  "new_matcher d =
     \<lparr>mt_descriptor = d, mt_frames = [], mt_fragment_index = 0, mt_complete = False\<rparr>"

text \<open>\<open>all(data[offset] == value for offset, value in fields)\<close>\<close>

fun all_fields :: "bytes \<Rightarrow> (int \<times> int) list \<Rightarrow> bool res" where
  "all_fields data [] = Inr True"
| "all_fields data ((offset, v) # fs) =
     res_bind (py_nth data offset) (\<lambda>b.
       if uint b = v then all_fields data fs else Inr False)"

definition feed_fragment :: "matcher \<Rightarrow> bytes \<Rightarrow> response_spec \<Rightarrow> (matcher \<times> match_result) res" where
  "feed_fragment m data spec =
     (if data ! 0 \<noteq> 0xAB \<or> rs_fragments spec = [] then Inr (m, IGNORED)
      else
        let fragment = uint (data ! 1)
        in res_bind (py_nth (rs_fragments spec) (int (mt_fragment_index m))) (\<lambda>expected.
             if fragment = expected then
               let m1 = m\<lparr>mt_frames := mt_frames m @ [data],
                          mt_fragment_index := mt_fragment_index m + 1\<rparr>
               in if mt_fragment_index m1 = length (rs_fragments spec)
                  then Inr (m1\<lparr>mt_complete := True\<rparr>, COMPLETE)
                  else Inr (m1, ACCEPTED)
             else if mt_fragment_index m \<noteq> 0 \<and>
                     fragment = rs_fragments spec ! (mt_fragment_index m - 1)
             then Inr (m, ACCEPTED)
             else Inr (m, IGNORED)))"

text \<open>Whether a frame completes a rule in one step; \<open>None\<close> leaves it to the fragment logic.\<close>

definition match_single :: "response_spec \<Rightarrow> bytes \<Rightarrow> bool option res" where
  "match_single spec data =
     (if data \<in> set (rs_exact_alternatives spec) then Inr (Some True)
      else case rs_kind spec of
        EXACT \<Rightarrow> Inr (Some (data = rs_exact spec))
      | VALUE_BYTE \<Rightarrow>
          Inr (Some (take 2 data = rs_prefix spec \<and> uint (data ! 2) \<in> set (rs_allowed_values spec)
                \<and> (\<forall>b \<in> set (py_slice 3 19 data). b = 0)))
      | ZERO_PAYLOAD \<Rightarrow>
          Inr (Some (take 2 data = rs_prefix spec \<and> (\<forall>b \<in> set (py_slice 2 19 data). b = 0)))
      | PREFIX \<Rightarrow> Inr (Some (starts_with (rs_prefix spec) data))
      | PREFIX_SELECTOR \<Rightarrow>
          Inr (Some (starts_with (rs_prefix spec) data \<and>
                py_slice (length (rs_prefix spec))
                  (length (rs_prefix spec) + length (rs_selector spec)) data = rs_selector spec))
      | H7129_METADATA \<Rightarrow>
          Inr (Some (take 2 data = [0xAB, 0x00] \<and>
                contains_list [0x02, 0x02, 0x00, 0x01] (py_slice 2 19 data)))
      | FIELDS \<Rightarrow>
          (if \<exists>p \<in> set (rs_allowed_prefixes spec). starts_with p data
           then res_bind (all_fields data (rs_expected_fields spec)) (\<lambda>b. Inr (Some b))
           else Inr (Some False))
      | FRAGMENTS \<Rightarrow> Inr None)"

definition matcher_feed :: "matcher \<Rightarrow> bytes \<Rightarrow> (matcher \<times> match_result) res" where
  "matcher_feed m frame =
     (if mt_complete m then Inr (m, IGNORED)
      else res_bind (validate_frame frame) (\<lambda>data.
        let spec = dsc_response (mt_descriptor m)
        in res_bind (match_single spec data) (\<lambda>matched.
             case matched of
               None \<Rightarrow> feed_fragment m data spec
             | Some False \<Rightarrow> Inr (m, IGNORED)
             | Some True \<Rightarrow>
                 Inr (m\<lparr>mt_frames := mt_frames m @ [data], mt_complete := True\<rparr>, COMPLETE))))"

section \<open>Facts\<close>

lemma validate_frame_Inr_same: "validate_frame f = Inr d \<Longrightarrow> d = f"
  by (simp add: validate_frame_Inr)

lemma feed_fragment_cases:
  assumes "feed_fragment m data spec = Inr (m', r)"
  shows "(r = IGNORED \<and> m' = m) \<or> (r = ACCEPTED \<and> mt_complete m' = mt_complete m \<and>
      (m' = m \<or> mt_frames m' = mt_frames m @ [data])) \<or>
    (r = COMPLETE \<and> mt_complete m' \<and> mt_frames m' = mt_frames m @ [data])"
  using assms by (auto simp: feed_fragment_def Let_def split: if_splits)

lemma feed_fragment_descriptor:
  "feed_fragment m data spec = Inr (m', r) \<Longrightarrow> mt_descriptor m' = mt_descriptor m"
  by (auto simp: feed_fragment_def Let_def split: if_splits)

text \<open>The four ways a frame that is not refused by an exception can end.\<close>

lemma matcher_feed_steps:
  assumes "matcher_feed m frame = Inr (m', r)"
  obtains (over) "mt_complete m" "m' = m" "r = IGNORED"
  | (single) "\<not> mt_complete m" "is_valid_frame frame"
      "match_single (dsc_response (mt_descriptor m)) frame = Inr (Some True)"
      "m' = m\<lparr>mt_frames := mt_frames m @ [frame], mt_complete := True\<rparr>" "r = COMPLETE"
  | (none) "\<not> mt_complete m" "is_valid_frame frame"
      "match_single (dsc_response (mt_descriptor m)) frame = Inr (Some False)"
      "m' = m" "r = IGNORED"
  | (fragment) "\<not> mt_complete m" "is_valid_frame frame"
      "match_single (dsc_response (mt_descriptor m)) frame = Inr None"
      "feed_fragment m frame (dsc_response (mt_descriptor m)) = Inr (m', r)"
proof (cases "mt_complete m")
  case True
  with assms show ?thesis by (intro over) (simp_all add: matcher_feed_def)
next
  case False
  with assms obtain d where d: "validate_frame frame = Inr d" by (auto simp: matcher_feed_def)
  then have v: "d = frame" "is_valid_frame frame"
    by (auto simp: validate_frame_Inr is_valid_frame_iff)
  with assms False d obtain b where
    b: "match_single (dsc_response (mt_descriptor m)) frame = Inr b"
    by (auto simp: matcher_feed_def Let_def)
  consider "b = None" | "b = Some True" | "b = Some False" by (cases b) auto
  then show ?thesis
  proof cases
    case 1
    with assms False v b show ?thesis
      by (intro fragment) (simp_all add: matcher_feed_def Let_def)
  next
    case 2
    with assms False v b show ?thesis
      by (intro single) (simp_all add: matcher_feed_def Let_def)
  next
    case 3
    with assms False v b show ?thesis
      by (intro none) (simp_all add: matcher_feed_def Let_def)
  qed
qed

lemma matcher_feed_cases:
  assumes "matcher_feed m frame = Inr (m', r)"
  obtains (ignored) "r = IGNORED" "m' = m"
  | (accepted) "r = ACCEPTED" "\<not> mt_complete m" "\<not> mt_complete m'"
      "m' = m \<or> mt_frames m' = mt_frames m @ [frame]"
  | (complete) "r = COMPLETE" "\<not> mt_complete m" "mt_complete m'"
      "mt_frames m' = mt_frames m @ [frame]"
  using assms
proof (cases rule: matcher_feed_steps)
  case over
  then show ?thesis by (intro ignored)
next
  case single
  then show ?thesis by (intro complete) simp_all
next
  case none
  then show ?thesis by (intro ignored)
next
  case fragment
  with feed_fragment_cases[OF fragment(4)] show ?thesis
    using ignored accepted complete by metis
qed

interpretation rm: response_matcher matcher_feed mt_complete mt_frames
proof unfold_locales
  fix m d
  show "mt_complete m \<Longrightarrow> matcher_feed m d = Inr (m, IGNORED)" by (simp add: matcher_feed_def)
next
  fix m d m' r
  assume "matcher_feed m d = Inr (m', r)"
  then show "(r = COMPLETE) = (\<not> mt_complete m \<and> mt_complete m')"
    by (cases rule: matcher_feed_cases) auto
next
  fix m d m' r
  assume "matcher_feed m d = Inr (m', r)" and "mt_complete m"
  then show "mt_complete m'" by (cases rule: matcher_feed_cases) auto
next
  fix m d m' r
  assume "matcher_feed m d = Inr (m', r)"
  then show "mt_frames m' = mt_frames m \<or> mt_frames m' = mt_frames m @ [d]"
    by (cases rule: matcher_feed_cases) auto
next
  fix m d m'
  assume "matcher_feed m d = Inr (m', IGNORED)"
  then show "m' = m" by (cases rule: matcher_feed_cases) auto
next
  fix m d m'
  assume "matcher_feed m d = Inr (m', COMPLETE)"
  then show "mt_frames m' = mt_frames m @ [d]" by (cases rule: matcher_feed_cases) auto
qed

lemma matcher_feed_descriptor:
  "matcher_feed m d = Inr (m', r) \<Longrightarrow> mt_descriptor m' = mt_descriptor m"
  by (erule matcher_feed_steps) (auto dest: feed_fragment_descriptor)

text \<open>The offsets of a rule lie inside the frame.\<close>

definition spec_offsets_ok :: "response_spec \<Rightarrow> bool" where
  "spec_offsets_ok spec \<longleftrightarrow> (\<forall>(offset, v) \<in> set (rs_expected_fields spec). 0 \<le> offset \<and> offset < 20)"

lemma all_fields_ok:
  "length data = 20 \<Longrightarrow> \<forall>(offset, v) \<in> set fs. 0 \<le> offset \<and> offset < 20 \<Longrightarrow>
     all_fields data fs = Inr (\<forall>(offset, v) \<in> set fs. uint (data ! nat offset) = v)"
  by (induction fs) (auto simp: py_nth_numeral)

lemma match_single_total:
  "length data = 20 \<Longrightarrow> spec_offsets_ok spec \<Longrightarrow> \<exists>b. match_single spec data = Inr b"
  by (auto simp: match_single_def spec_offsets_ok_def all_fields_ok split: response_kind.splits)

section \<open>Multipart responses\<close>

text \<open>The fragment expectation of a rule whose alternatives are empty, and a fragment frame.\<close>

definition fragment_frame :: "int \<Rightarrow> bytes \<Rightarrow> bool" where
  "fragment_frame n f \<longleftrightarrow> is_valid_frame f \<and> f ! 0 = 0xAB \<and> uint (f ! 1) = n"

definition fragment_matcher :: "matcher \<Rightarrow> int list \<Rightarrow> bool" where
  "fragment_matcher m frs \<longleftrightarrow>
     rs_kind (dsc_response (mt_descriptor m)) = FRAGMENTS \<and>
     rs_exact_alternatives (dsc_response (mt_descriptor m)) = [] \<and>
     rs_fragments (dsc_response (mt_descriptor m)) = frs \<and> frs \<noteq> [] \<and>
     (mt_complete m \<longleftrightarrow> mt_fragment_index m = length frs) \<and>
     mt_fragment_index m \<le> length frs \<and> length (mt_frames m) = mt_fragment_index m \<and>
     (\<forall>i < mt_fragment_index m. fragment_frame (frs ! i) (mt_frames m ! i))"

lemma fragment_matcher_new:
  "rs_kind (dsc_response d) = FRAGMENTS \<Longrightarrow> rs_exact_alternatives (dsc_response d) = [] \<Longrightarrow>
     rs_fragments (dsc_response d) \<noteq> [] \<Longrightarrow> fragment_matcher (new_matcher d) (rs_fragments (dsc_response d))"
  by (simp add: fragment_matcher_def new_matcher_def)

lemma fragment_matcher_feed:
  assumes "fragment_matcher m frs" and "matcher_feed m f = Inr (m', r)"
  shows "fragment_matcher m' frs"
proof (cases "mt_complete m")
  case True
  with assms show ?thesis by (simp add: matcher_feed_def)
next
  case False
  let ?i = "mt_fragment_index m"
  from assms False have i: "?i < length frs" by (auto simp: fragment_matcher_def)
  from assms False have v: "is_valid_frame f"
    and ff: "feed_fragment m f (dsc_response (mt_descriptor m)) = Inr (m', r)"
    by (auto simp: matcher_feed_def match_single_def fragment_matcher_def is_valid_frame_validate
        Let_def validate_frame_Inr)
  show ?thesis
  proof (cases "f ! 0 = 0xAB \<and> uint (f ! 1) = frs ! ?i")
    case True
    with ff v i assms(1) have m': "mt_frames m' = mt_frames m @ [f]" "mt_fragment_index m' = Suc ?i"
      "mt_descriptor m' = mt_descriptor m" "mt_complete m' \<longleftrightarrow> Suc ?i = length frs"
      using \<open>\<not> mt_complete m\<close>
      by (auto simp: feed_fragment_def fragment_matcher_def Let_def split: if_splits)
    with True v i assms(1) show ?thesis
      by (auto simp: fragment_matcher_def fragment_frame_def nth_append less_Suc_eq)
  next
    case False
    with ff i assms(1) have "m' = m"
      by (auto simp: feed_fragment_def fragment_matcher_def Let_def split: if_splits)
    with assms(1) show ?thesis by simp
  qed
qed

lemma fragment_matcher_feed_all:
  "fragment_matcher m frs \<Longrightarrow> rm.feed_all m fs = Inr m' \<Longrightarrow> fragment_matcher m' frs"
  by (induction fs arbitrary: m) (auto dest: fragment_matcher_feed)

section \<open>Properties\<close>

text \<open>A multipart metadata response completes only by its documented fragment sequence:
  whatever frames arrive (unrelated, duplicated, out of order), a matcher that has completed
  holds exactly one frame per fragment number, in the documented order, each a valid \<open>ab\<close> frame
  of that number.\<close>

theorem fragments_complete_in_order:
  assumes "rs_kind (dsc_response d) = FRAGMENTS" and "rs_exact_alternatives (dsc_response d) = []"
    and "rs_fragments (dsc_response d) \<noteq> []"
    and "rm.feed_all (new_matcher d) fs = Inr m" and "mt_complete m"
  shows "map (\<lambda>f. uint (f ! 1)) (mt_frames m) = rs_fragments (dsc_response d) \<and>
    (\<forall>f \<in> set (mt_frames m). is_valid_frame f \<and> f ! 0 = 0xAB \<and> f \<in> set fs)"
proof -
  have fm: "fragment_matcher m (rs_fragments (dsc_response d))"
    using fragment_matcher_feed_all[OF fragment_matcher_new[OF assms(1-3)] assms(4)] .
  then have len: "length (mt_frames m) = length (rs_fragments (dsc_response d))"
    and each: "\<forall>i < length (mt_frames m).
      fragment_frame (rs_fragments (dsc_response d) ! i) (mt_frames m ! i)"
    using assms(5) by (auto simp: fragment_matcher_def)
  have "map (\<lambda>f. uint (f ! 1)) (mt_frames m) = rs_fragments (dsc_response d)"
    using len each by (intro nth_equalityI) (simp_all add: fragment_frame_def)
  moreover have "set (mt_frames m) \<subseteq> set fs"
    using rm.feed_all_frames_subset[OF assms(4)] by (simp add: new_matcher_def)
  moreover have "\<forall>f \<in> set (mt_frames m). is_valid_frame f \<and> f ! 0 = 0xAB"
    using each by (auto simp: in_set_conv_nth fragment_frame_def)
  ultimately show ?thesis by blast
qed

theorem fragments_complete_in_order_witness:
  "let d = \<lparr>dsc_name = ''metadata_01_05'', dsc_frame = [],
            dsc_response = (response_spec FRAGMENTS)\<lparr>rs_fragments := [0, 255]\<rparr>\<rparr>;
       f0 = 0xAB # 0x00 # replicate 17 0 @ [0xAB];
       f1 = 0xAB # 0xFF # replicate 17 0 @ [0x54];
       m = \<lparr>mt_descriptor = d, mt_frames = [f0, f1], mt_fragment_index = 2, mt_complete = True\<rparr>
   in map (\<lambda>f. uint (f ! 1)) (mt_frames m) = rs_fragments (dsc_response d) \<and>
      (\<forall>f \<in> set (mt_frames m). is_valid_frame f \<and> f ! 0 = 0xAB \<and> f \<in> set [f1, f0, f0, f1])"
proof -
  let ?d = "\<lparr>dsc_name = ''metadata_01_05'', dsc_frame = [],
            dsc_response = (response_spec FRAGMENTS)\<lparr>rs_fragments := [0, 255]\<rparr>\<rparr>"
  let ?f0 = "0xAB # 0x00 # replicate 17 0 @ [0xAB] :: bytes"
  let ?f1 = "0xAB # 0xFF # replicate 17 0 @ [0x54] :: bytes"
  let ?m1 = "\<lparr>mt_descriptor = ?d, mt_frames = [?f0], mt_fragment_index = 1, mt_complete = False\<rparr>"
  let ?m2 = "\<lparr>mt_descriptor = ?d, mt_frames = [?f0, ?f1], mt_fragment_index = 2,
              mt_complete = True\<rparr>"
  have v: "validate_frame ?f0 = Inr ?f0" "validate_frame ?f1 = Inr ?f1"
    by (simp_all add: validate_frame_def eval_nat_numeral)
  have s: "match_single ((response_spec FRAGMENTS)\<lparr>rs_fragments := [0, 255]\<rparr>) f = Inr None" for f
    by (simp add: match_single_def)
  have 1: "matcher_feed (new_matcher ?d) ?f1 = Inr (new_matcher ?d, IGNORED)"
    by (simp add: matcher_feed_def new_matcher_def v s feed_fragment_def py_nth_def Let_def)
  have 2: "matcher_feed (new_matcher ?d) ?f0 = Inr (?m1, ACCEPTED)"
    by (simp add: matcher_feed_def new_matcher_def v s feed_fragment_def py_nth_def Let_def)
  have 3: "matcher_feed ?m1 ?f0 = Inr (?m1, ACCEPTED)"
    by (simp add: matcher_feed_def v s feed_fragment_def py_nth_def Let_def)
  have 4: "matcher_feed ?m1 ?f1 = Inr (?m2, COMPLETE)"
    by (simp add: matcher_feed_def v s feed_fragment_def py_nth_def Let_def)
  have "rm.feed_all (new_matcher ?d) [?f1, ?f0, ?f0, ?f1] = Inr ?m2"
    by (simp only: rm.feed_all.simps 1 2 3 4 res_bind_simps prod.case)
  then show ?thesis
    unfolding Let_def by (intro fragments_complete_in_order) simp_all
qed

end
