(* ===== verification/Shipped_Profiles.thy ===== *)
theory Shipped_Profiles
  imports Protocol_Requests
begin

text \<open>
  The four profiles the repository ships, as the values its JSON artifacts denote after
  inheritance (\<open>model_profiles/*.json\<close>).  They are data, not code: the witnesses of the
  development are evaluated on them.  The fingerprint (a SHA-256 digest) is left empty.
\<close>

section \<open>Building blocks\<close>

definition catalog_frame :: "bytes \<Rightarrow> byte \<Rightarrow> bytes" where
  "catalog_frame content checksum = ljust 19 0 content @ [checksum]"

definition matcher_of :: "string \<Rightarrow> matcher_definition" where
  "matcher_of kind =
     \<lparr>md_kind = kind, md_prefix = [], md_selector = [], md_exact = [], md_exact_alternatives = [],
      md_fragments = [], md_allowed_prefixes = [], md_expected_fields = [], md_allowed_values = []\<rparr>"

definition request_entry ::
    "string \<Rightarrow> bytes \<Rightarrow> matcher_definition \<Rightarrow> string \<times> request_definition" where
  "request_entry name frame rule = (name, \<lparr>rd_name = name, rd_frame = frame, rd_response = rule\<rparr>)"

section \<open>Timings, Bluetooth identity and defaults\<close>

definition shipped_timings :: timing_profile where
  "shipped_timings =
     \<lparr>connect_attempts = 3,
      connection_attempt_timeout = 45,
      connection_abort_timeout = 5,
      connection_diagnostic_timeout = 1,
      notification_subscribe_timeout = 15,
      gatt_write_timeout = 10,
      gatt_disconnect_timeout = 5,
      gatt_operation_cancel_timeout = 1,
      stale_connection_cleanup_timeout = 5,
      stale_connection_check_interval = 1 / 4,
      advertisement_check_interval = 1 / 4,
      recent_cached_advertisement_max_age = 5,
      fresh_advertisement_timeout = 10,
      transaction_timeout = 3,
      initialization_attempts = 3,
      essential_initialization_max_batches = 3,
      initialization_retry_delay = 3,
      periodic_poll_attempts = 3,
      refresh_attempts = 3,
      command_send_attempts = 3,
      command_deadline = 120,
      startup_timeout = 300,
      between_request_delay = 1 / 1000,
      poll_interval = 3,
      initial_poll_delay = 242 / 125,
      backoff_initial = 1,
      backoff_max = 60,
      backoff_reset_after = 30,
      recent_advertisement_backoff_max = 8,
      advertisement_settle_delay = 1,
      recovery_storm_window = 120,
      recovery_storm_failure_threshold = 3,
      recovery_storm_advertisement_threshold = 2,
      recovery_storm_initial_floor = 5,
      recovery_storm_max_floor = 8\<rparr>"

definition shipped_bluetooth :: bluetooth_profile where
  "shipped_bluetooth =
     \<lparr>service_uuid = ''00010203-0405-0607-0809-0a0b0c0d1910'',
      notify_uuid = ''00010203-0405-0607-0809-0a0b0c0d2b10'',
      write_uuid = ''00010203-0405-0607-0809-0a0b0c0d2b11''\<rparr>"

definition shipped_custom_auto_defaults :: custom_auto_defaults where
  "shipped_custom_auto_defaults =
     \<lparr>cad_modes = [SLEEP, LOW, MEDIUM, HIGH, TURBO], cad_pm25_boundaries = [3, 5, 9, 15],
      cad_upshift_confirmation_seconds = 3, cad_downshift_delays_minutes = [7, 5, 5, 5]\<rparr>"

definition shipped_encrypted_auto_defaults :: custom_auto_defaults where
  "shipped_encrypted_auto_defaults =
     \<lparr>cad_modes = [SLEEP, LOW, MEDIUM, HIGH, TURBO], cad_pm25_boundaries = [7, 9, 13, 19],
      cad_upshift_confirmation_seconds = 3, cad_downshift_delays_minutes = [7, 5, 5, 5]\<rparr>"

definition shipped_encrypted_timings :: timing_profile where
  "shipped_encrypted_timings = shipped_timings\<lparr>initial_poll_delay := 3\<rparr>"

section \<open>The profiles\<close>

definition h7124_catalog :: "(string \<times> request_definition) list" where
  "h7124_catalog =
     [request_entry ''capability_b2'' (catalog_frame [0x33, 0xB2] 0x81)
        ((matcher_of ''value_byte'')\<lparr>md_prefix := [0x33, 0xB2], md_allowed_values := [0, 1]\<rparr>),
      request_entry ''capability_b5'' (catalog_frame [0x33, 0xB5] 0x86)
        ((matcher_of ''zero_payload'')\<lparr>md_prefix := [0x33, 0xB5]\<rparr>),
      request_entry ''device_state'' (catalog_frame [0xAA, 0x01] 0xAB)
        ((matcher_of ''prefix'')\<lparr>md_prefix := [0xAA, 0x01]\<rparr>),
      request_entry ''mode_data_00'' (catalog_frame [0xAA, 0x05] 0xAF)
        ((matcher_of ''prefix_selector'')\<lparr>md_prefix := [0xAA, 0x05], md_selector := [0x00]\<rparr>),
      request_entry ''mode_data_01'' (catalog_frame [0xAA, 0x05, 0x01] 0xAE)
        ((matcher_of ''prefix_selector'')\<lparr>md_prefix := [0xAA, 0x05], md_selector := [0x01]\<rparr>),
      request_entry ''mode_data_03'' (catalog_frame [0xAA, 0x05, 0x03] 0xAC)
        ((matcher_of ''prefix_selector'')\<lparr>md_prefix := [0xAA, 0x05], md_selector := [0x03]\<rparr>),
      request_entry ''night_light_state'' (catalog_frame [0xAA, 0x1B, 0x01] 0xB0)
        ((matcher_of ''prefix_selector'')\<lparr>md_prefix := [0xAA, 0x1B], md_selector := [0x01]\<rparr>),
      request_entry ''night_light_color'' (catalog_frame [0xAA, 0x1B, 0x05] 0xB4)
        ((matcher_of ''prefix_selector'')\<lparr>md_prefix := [0xAA, 0x1B], md_selector := [0x05]\<rparr>),
      request_entry ''capability_1e_01_02'' (catalog_frame [0xAA, 0x1E, 0x01, 0x02] 0xB7)
        ((matcher_of ''exact'')\<lparr>md_exact := catalog_frame [0xAA, 0x1E, 0x01, 0x02] 0xB7\<rparr>),
      request_entry ''capability_10'' (catalog_frame [0xAA, 0x10] 0xBA)
        ((matcher_of ''exact'')\<lparr>md_exact := catalog_frame [0xAA, 0x10] 0xBA\<rparr>),
      request_entry ''capability_08'' (catalog_frame [0xAA, 0x08] 0xA2)
        ((matcher_of ''exact'')\<lparr>md_exact := catalog_frame [0xAA, 0x08] 0xA2\<rparr>),
      request_entry ''capability_26'' (catalog_frame [0xAA, 0x26] 0x8C)
        ((matcher_of ''exact'')\<lparr>md_exact := catalog_frame [0xAA, 0x26] 0x8C\<rparr>),
      request_entry ''structured_16'' (catalog_frame [0xAA, 0x16] 0xBC)
        ((matcher_of ''prefix'')\<lparr>md_prefix := [0xAA, 0x16]\<rparr>),
      request_entry ''capability_17'' (catalog_frame [0xAA, 0x17] 0xBD)
        ((matcher_of ''exact'')\<lparr>md_exact := catalog_frame [0xAA, 0x17] 0xBD\<rparr>),
      request_entry ''air_quality'' (catalog_frame [0xAA, 0x19] 0xB3)
        ((matcher_of ''prefix'')\<lparr>md_prefix := [0xAA, 0x19]\<rparr>),
      request_entry ''device_data_10'' (catalog_frame [0xAA, 0x07, 0x10] 0xBD)
        ((matcher_of ''prefix_selector'')\<lparr>md_prefix := [0xAA, 0x07], md_selector := [0x10]\<rparr>),
      request_entry ''device_data_11'' (catalog_frame [0xAA, 0x07, 0x11] 0xBC)
        ((matcher_of ''prefix_selector'')\<lparr>md_prefix := [0xAA, 0x07], md_selector := [0x11]\<rparr>),
      request_entry ''device_data_06'' (catalog_frame [0xAA, 0x07, 0x06] 0xAB)
        ((matcher_of ''prefix_selector'')\<lparr>md_prefix := [0xAA, 0x07], md_selector := [0x06]\<rparr>),
      request_entry ''capability_07_20'' (catalog_frame [0xAA, 0x07, 0x20] 0x8D)
        ((matcher_of ''exact'')\<lparr>md_exact := catalog_frame [0xAA, 0x07, 0x20] 0x8D\<rparr>),
      request_entry ''capability_1f'' (catalog_frame [0xAA, 0x1F] 0xB5)
        ((matcher_of ''exact'')\<lparr>md_exact := catalog_frame [0xAA, 0x1F] 0xB5\<rparr>),
      request_entry ''metadata_01_02'' (catalog_frame [0xAB, 0x01, 0x02] 0xA8)
        ((matcher_of ''fragments'')\<lparr>md_fragments := [0]\<rparr>),
      request_entry ''metadata_01_05'' (catalog_frame [0xAB, 0x01, 0x05] 0xAF)
        ((matcher_of ''fragments'')\<lparr>md_fragments := [0, 255]\<rparr>),
      request_entry ''metadata_01_04'' (catalog_frame [0xAB, 0x01, 0x04] 0xAE)
        ((matcher_of ''fragments'')\<lparr>md_fragments := [0, 1, 2, 3, 4, 5, 6, 7, 255]\<rparr>)]"

definition h7124_protocol :: protocol_profile where
  "h7124_protocol =
     \<lparr>codec_name = ''govee_20_byte_v1'', checksum_name = ''xor_0_18'', frame_size = 20,
      pr_auto_parameter = 20, startup_mode_strategy = ''h7124_selector_00'',
      pr_commands =
       [(''power'', \<lparr>cd_strategy = ''power_bool_v1'', cd_prefix = [0x33, 0x01]\<rparr>),
        (''fan_mode'', \<lparr>cd_strategy = ''fan_mode_v1'', cd_prefix = [0x3A, 0x05]\<rparr>),
        (''night_light_power'', \<lparr>cd_strategy = ''night_light_power_v1'', cd_prefix = [0x3A, 0x1B, 0x01, 0x01]\<rparr>),
        (''night_light_brightness'', \<lparr>cd_strategy = ''night_light_brightness_v1'', cd_prefix = [0x3A, 0x1B, 0x01, 0x02]\<rparr>),
        (''night_light_color'', \<lparr>cd_strategy = ''night_light_color_v1'', cd_prefix = [0x3A, 0x1B, 0x05, 0x0D]\<rparr>)],
      request_catalog = h7124_catalog,
      initialization_order =
       [''capability_b2'', ''capability_b5'', ''device_state'', ''mode_data_00'', ''mode_data_01'',
    ''mode_data_03'', ''night_light_state'', ''night_light_color'', ''capability_1e_01_02'',
    ''capability_10'', ''capability_08'', ''capability_26'', ''structured_16'',
    ''capability_17'', ''air_quality'', ''device_data_10'', ''device_data_11'',
    ''device_data_06'', ''capability_07_20'', ''capability_1f'', ''metadata_01_02'',
    ''metadata_01_05'', ''metadata_01_04''],
      refresh_order =
       [''capability_b5'', ''device_state'', ''mode_data_00'', ''mode_data_01'', ''mode_data_03'',
    ''night_light_state'', ''night_light_color'', ''capability_1e_01_02'', ''capability_10'',
    ''capability_08'', ''capability_26'', ''structured_16'', ''capability_17'', ''air_quality''],
      essential_request = ''device_state'', periodic_request = ''device_state''\<rparr>"

definition h7124_profile :: device_profile where
  "h7124_profile =
     \<lparr>schema_version = 1, profile_id = ''h7124'', lineage = [''h7124'', ''default''], source_basename = ''h7124.json'',
      fingerprint = [],
      identity =
        \<lparr>manufacturer = ''Govee'', identity_model = Some H7124, display_name = ''Govee H7124'',
         support_status = VERIFIED, advertised_name_prefixes = [''GVH7124'']\<rparr>,
      bluetooth = shipped_bluetooth,
      channel = \<lparr>ch_strategy = PLAINTEXT, first_application_delay = 3 / 1000,
        negotiation = None\<rparr>,
      protocol = h7124_protocol,
      capabilities =
        \<lparr>cap_power = True, cap_fan = True, cap_light = True,
         cap_pm25 = True, cap_filter_life = True,
         cap_unsolicited_updates = True, cap_refresh = False\<rparr>,
      timings = shipped_timings, custom_auto_defaults = shipped_custom_auto_defaults\<rparr>"

definition h7129_catalog :: "(string \<times> request_definition) list" where
  "h7129_catalog =
     [request_entry ''capability_b2'' (catalog_frame [0x33, 0xB2] 0x81)
        ((matcher_of ''value_byte'')\<lparr>md_prefix := [0x33, 0xB2], md_allowed_values := [0, 1]\<rparr>),
      request_entry ''capability_b5'' (catalog_frame [0x33, 0xB5] 0x86)
        ((matcher_of ''zero_payload'')\<lparr>md_prefix := [0x33, 0xB5]\<rparr>),
      request_entry ''device_state'' (catalog_frame [0xAA, 0x01] 0xAB)
        ((matcher_of ''prefix'')\<lparr>md_prefix := [0xAA, 0x01]\<rparr>),
      request_entry ''mode_data_00'' (catalog_frame [0xAA, 0x05] 0xAF)
        ((matcher_of ''prefix_selector'')\<lparr>md_prefix := [0xAA, 0x05], md_selector := [0x00]\<rparr>),
      request_entry ''mode_data_01'' (catalog_frame [0xAA, 0x05, 0x01] 0xAE)
        ((matcher_of ''prefix_selector'')\<lparr>md_prefix := [0xAA, 0x05], md_selector := [0x01]\<rparr>),
      request_entry ''mode_data_03'' (catalog_frame [0xAA, 0x05, 0x03] 0xAC)
        ((matcher_of ''prefix_selector'')\<lparr>md_prefix := [0xAA, 0x05], md_selector := [0x03]\<rparr>),
      request_entry ''night_light_state'' (catalog_frame [0xAA, 0x1B, 0x01] 0xB0)
        ((matcher_of ''prefix_selector'')\<lparr>md_prefix := [0xAA, 0x1B], md_selector := [0x01]\<rparr>),
      request_entry ''night_light_color'' (catalog_frame [0xAA, 0x1B, 0x05] 0xB4)
        ((matcher_of ''prefix_selector'')\<lparr>md_prefix := [0xAA, 0x1B], md_selector := [0x05]\<rparr>),
      request_entry ''capability_1e_01_02'' (catalog_frame [0xAA, 0x1E, 0x01, 0x02] 0xB7)
        ((matcher_of ''exact'')\<lparr>md_exact := catalog_frame [0xAA, 0x1E, 0x03, 0x01] 0xB6\<rparr>),
      request_entry ''capability_10'' (catalog_frame [0xAA, 0x10] 0xBA)
        ((matcher_of ''exact'')\<lparr>md_exact := catalog_frame [0xAA, 0x10, 0x00, 0xFF, 0xFF, 0xFF] 0x45\<rparr>),
      request_entry ''capability_08'' (catalog_frame [0xAA, 0x08] 0xA2)
        ((matcher_of ''exact'')\<lparr>md_exact := catalog_frame [0xAA, 0x08] 0xA2\<rparr>),
      request_entry ''capability_26'' (catalog_frame [0xAA, 0x26] 0x8C)
        ((matcher_of ''exact'')\<lparr>md_exact := catalog_frame [0xAA, 0x26] 0x8C\<rparr>),
      request_entry ''structured_16'' (catalog_frame [0xAA, 0x16] 0xBC)
        ((matcher_of ''prefix'')\<lparr>md_prefix := [0xAA, 0x16]\<rparr>),
      request_entry ''capability_17'' (catalog_frame [0xAA, 0x17] 0xBD)
        ((matcher_of ''exact'')\<lparr>md_exact := catalog_frame [0xAA, 0x17] 0xBD\<rparr>),
      request_entry ''air_quality'' (catalog_frame [0xAA, 0x19] 0xB3)
        ((matcher_of ''prefix'')\<lparr>md_prefix := [0xAA, 0x19]\<rparr>),
      request_entry ''device_data_10'' (catalog_frame [0xAA, 0x07, 0x10] 0xBD)
        ((matcher_of ''prefix_selector'')\<lparr>md_prefix := [0xAA, 0x07], md_selector := [0x10]\<rparr>),
      request_entry ''device_data_11'' (catalog_frame [0xAA, 0x07, 0x11] 0xBC)
        ((matcher_of ''prefix_selector'')\<lparr>md_prefix := [0xAA, 0x07], md_selector := [0x11]\<rparr>),
      request_entry ''device_data_06'' (catalog_frame [0xAA, 0x07, 0x06] 0xAB)
        ((matcher_of ''prefix_selector'')\<lparr>md_prefix := [0xAA, 0x07], md_selector := [0x06]\<rparr>),
      request_entry ''capability_07_20'' (catalog_frame [0xAA, 0x07, 0x20] 0x8D)
        ((matcher_of ''exact'')\<lparr>md_exact := catalog_frame [0xAA, 0x07, 0x20] 0x8D\<rparr>),
      request_entry ''capability_1f'' (catalog_frame [0xAA, 0x1F] 0xB5)
        ((matcher_of ''exact'')\<lparr>md_exact := catalog_frame [0xAA, 0x1F] 0xB5\<rparr>),
      request_entry ''metadata_01_02'' (catalog_frame [0xAB, 0x01, 0x02] 0xA8)
        ((matcher_of ''fragments'')\<lparr>md_fragments := [0]\<rparr>),
      request_entry ''metadata_01_05'' (catalog_frame [0xAB, 0x01, 0x05] 0xAF)
        ((matcher_of ''fragments'')\<lparr>md_fragments := [0, 255]\<rparr>),
      request_entry ''metadata_01_04'' (catalog_frame [0xAB, 0x01, 0x04] 0xAE)
        ((matcher_of ''fragments'')\<lparr>md_fragments := [0, 1, 2, 3, 4, 5, 6, 7, 255]\<rparr>),
      request_entry ''metadata_02_02_00_01'' (catalog_frame [0xAB, 0x02, 0x02, 0x00, 0x01] 0xAA)
        (matcher_of ''h7129_metadata'')]"

definition h7129_protocol :: protocol_profile where
  "h7129_protocol =
     \<lparr>codec_name = ''govee_20_byte_v1'', checksum_name = ''xor_0_18'', frame_size = 20,
      pr_auto_parameter = 18, startup_mode_strategy = ''h7129_selector_pair'',
      pr_commands =
       [(''power'', \<lparr>cd_strategy = ''power_bool_v1'', cd_prefix = [0x33, 0x01]\<rparr>),
        (''fan_mode'', \<lparr>cd_strategy = ''fan_mode_v1'', cd_prefix = [0x3A, 0x05]\<rparr>),
        (''night_light_power'', \<lparr>cd_strategy = ''night_light_power_v1'', cd_prefix = [0x3A, 0x1B, 0x01, 0x01]\<rparr>),
        (''night_light_brightness'', \<lparr>cd_strategy = ''night_light_brightness_v1'', cd_prefix = [0x3A, 0x1B, 0x01, 0x02]\<rparr>),
        (''night_light_color'', \<lparr>cd_strategy = ''night_light_color_v1'', cd_prefix = [0x3A, 0x1B, 0x05, 0x0D]\<rparr>)],
      request_catalog = h7129_catalog,
      initialization_order =
       [''capability_b2'', ''capability_b5'', ''device_state'', ''mode_data_00'', ''mode_data_01'',
    ''mode_data_03'', ''night_light_state'', ''night_light_color'', ''capability_1e_01_02'',
    ''capability_10'', ''capability_08'', ''capability_26'', ''structured_16'',
    ''capability_17'', ''air_quality'', ''device_data_10'', ''device_data_11'',
    ''device_data_06'', ''capability_07_20'', ''capability_1f'', ''metadata_01_02'',
    ''metadata_01_05'', ''metadata_01_04'', ''metadata_02_02_00_01''],
      refresh_order =
       [''capability_b5'', ''device_state'', ''mode_data_00'', ''mode_data_01'', ''mode_data_03'',
    ''night_light_state'', ''night_light_color'', ''capability_1e_01_02'', ''capability_10'',
    ''capability_08'', ''capability_26'', ''structured_16'', ''capability_17'', ''air_quality''],
      essential_request = ''device_state'', periodic_request = ''device_state''\<rparr>"

definition h7129_profile :: device_profile where
  "h7129_profile =
     \<lparr>schema_version = 1, profile_id = ''h7129'', lineage = [''h7129'', ''default-encrypted''], source_basename = ''h7129.json'',
      fingerprint = [],
      identity =
        \<lparr>manufacturer = ''Govee'', identity_model = Some H7129, display_name = ''Govee H7129'',
         support_status = VERIFIED, advertised_name_prefixes = [''ihoment_H7129_'']\<rparr>,
      bluetooth = shipped_bluetooth,
      channel = \<lparr>ch_strategy = H7129_SESSION, first_application_delay = 3 / 1000,
        negotiation = Some \<lparr>neg_attempts = 3, neg_retry_interval = 5, neg_phase_timeout = 15,
          neg_step_delay = 1 / 1000\<rparr>\<rparr>,
      protocol = h7129_protocol,
      capabilities =
        \<lparr>cap_power = True, cap_fan = True, cap_light = True,
         cap_pm25 = True, cap_filter_life = True,
         cap_unsolicited_updates = True, cap_refresh = True\<rparr>,
      timings = shipped_encrypted_timings, custom_auto_defaults = shipped_encrypted_auto_defaults\<rparr>"

definition h7123_catalog :: "(string \<times> request_definition) list" where
  "h7123_catalog =
     [request_entry ''capability_b2'' (catalog_frame [0x33, 0xB2] 0x81)
        ((matcher_of ''value_byte'')\<lparr>md_prefix := [0x33, 0xB2], md_allowed_values := [0, 1]\<rparr>),
      request_entry ''capability_b5'' (catalog_frame [0x33, 0xB5] 0x86)
        ((matcher_of ''zero_payload'')\<lparr>md_prefix := [0x33, 0xB5]\<rparr>),
      request_entry ''device_state'' (catalog_frame [0xAA, 0x01] 0xAB)
        ((matcher_of ''prefix'')\<lparr>md_prefix := [0xAA, 0x01]\<rparr>),
      request_entry ''mode_data_00'' (catalog_frame [0xAA, 0x05] 0xAF)
        ((matcher_of ''prefix'')\<lparr>md_prefix := [0xAA, 0x05]\<rparr>),
      request_entry ''mode_data_01'' (catalog_frame [0xAA, 0x05, 0x01] 0xAE)
        ((matcher_of ''prefix'')\<lparr>md_prefix := [0xAA, 0x05]\<rparr>)]"

definition h7123_protocol :: protocol_profile where
  "h7123_protocol =
     \<lparr>codec_name = ''govee_20_byte_v1'', checksum_name = ''xor_0_18'', frame_size = 20,
      pr_auto_parameter = 20, startup_mode_strategy = ''h7123_direct'',
      pr_commands =
       [(''power'', \<lparr>cd_strategy = ''power_bool_v1'', cd_prefix = [0x33, 0x01]\<rparr>),
        (''fan_mode'', \<lparr>cd_strategy = ''fan_mode_v1'', cd_prefix = [0x3A, 0x05]\<rparr>),
        (''night_light_power'', \<lparr>cd_strategy = ''night_light_power_v1'', cd_prefix = [0x3A, 0x1B, 0x01, 0x01]\<rparr>),
        (''night_light_brightness'', \<lparr>cd_strategy = ''night_light_brightness_v1'', cd_prefix = [0x3A, 0x1B, 0x01, 0x02]\<rparr>),
        (''night_light_color'', \<lparr>cd_strategy = ''night_light_color_v1'', cd_prefix = [0x3A, 0x1B, 0x05, 0x0D]\<rparr>)],
      request_catalog = h7123_catalog,
      initialization_order =
       [''capability_b2'', ''capability_b5'', ''device_state'', ''mode_data_00'', ''mode_data_01''],
      refresh_order =
       [''device_state'', ''mode_data_00'', ''mode_data_01''],
      essential_request = ''device_state'', periodic_request = ''device_state''\<rparr>"

definition h7123_profile :: device_profile where
  "h7123_profile =
     \<lparr>schema_version = 1, profile_id = ''h7123'', lineage = [''h7123'', ''default-encrypted''], source_basename = ''h7123.json'',
      fingerprint = [],
      identity =
        \<lparr>manufacturer = ''Govee'', identity_model = Some H7123, display_name = ''Govee H7123'',
         support_status = EXPERIMENTAL, advertised_name_prefixes = [''ihoment_H7123_'']\<rparr>,
      bluetooth = shipped_bluetooth,
      channel = \<lparr>ch_strategy = H7129_SESSION, first_application_delay = 3 / 1000,
        negotiation = Some \<lparr>neg_attempts = 3, neg_retry_interval = 5, neg_phase_timeout = 15,
          neg_step_delay = 1 / 1000\<rparr>\<rparr>,
      protocol = h7123_protocol,
      capabilities =
        \<lparr>cap_power = True, cap_fan = True, cap_light = False,
         cap_pm25 = False, cap_filter_life = False,
         cap_unsolicited_updates = True, cap_refresh = True\<rparr>,
      timings = shipped_encrypted_timings, custom_auto_defaults = shipped_encrypted_auto_defaults\<rparr>"

definition h712c_catalog :: "(string \<times> request_definition) list" where
  "h712c_catalog =
     [request_entry ''device_state'' (catalog_frame [0xAA, 0x01] 0xAB)
        ((matcher_of ''prefix'')\<lparr>md_prefix := [0xAA, 0x01]\<rparr>),
      request_entry ''mode_data_00'' (catalog_frame [0xAA, 0x05] 0xAF)
        ((matcher_of ''prefix_selector'')\<lparr>md_prefix := [0xAA, 0x05], md_selector := [0x00]\<rparr>),
      request_entry ''mode_data_01'' (catalog_frame [0xAA, 0x05, 0x01] 0xAE)
        ((matcher_of ''prefix_selector'')\<lparr>md_prefix := [0xAA, 0x05], md_selector := [0x01]\<rparr>)]"

definition h712c_protocol :: protocol_profile where
  "h712c_protocol =
     \<lparr>codec_name = ''govee_20_byte_v1'', checksum_name = ''xor_0_18'', frame_size = 20,
      pr_auto_parameter = 0, startup_mode_strategy = ''h7124_selector_00'',
      pr_commands =
       [(''power'', \<lparr>cd_strategy = ''power_bool_v1'', cd_prefix = [0x33, 0x01]\<rparr>),
        (''fan_mode'', \<lparr>cd_strategy = ''fan_mode_33_v1'', cd_prefix = [0x33, 0x05]\<rparr>),
        (''night_light_power'', \<lparr>cd_strategy = ''night_light_power_v1'', cd_prefix = [0x3A, 0x1B, 0x01, 0x01]\<rparr>),
        (''night_light_brightness'', \<lparr>cd_strategy = ''night_light_brightness_v1'', cd_prefix = [0x3A, 0x1B, 0x01, 0x02]\<rparr>),
        (''night_light_color'', \<lparr>cd_strategy = ''night_light_color_v1'', cd_prefix = [0x3A, 0x1B, 0x05, 0x0D]\<rparr>)],
      request_catalog = h712c_catalog,
      initialization_order =
       [''device_state'', ''mode_data_00'', ''mode_data_01''],
      refresh_order =
       [''device_state'', ''mode_data_00'', ''mode_data_01''],
      essential_request = ''device_state'', periodic_request = ''device_state''\<rparr>"

definition h712c_profile :: device_profile where
  "h712c_profile =
     \<lparr>schema_version = 1, profile_id = ''h712c'', lineage = [''h712c'', ''default''], source_basename = ''h712c.json'',
      fingerprint = [],
      identity =
        \<lparr>manufacturer = ''Govee'', identity_model = Some H712C, display_name = ''Govee H712C'',
         support_status = EXPERIMENTAL, advertised_name_prefixes = [''GVH712C'']\<rparr>,
      bluetooth = shipped_bluetooth,
      channel = \<lparr>ch_strategy = PLAINTEXT, first_application_delay = 3 / 1000,
        negotiation = None\<rparr>,
      protocol = h712c_protocol,
      capabilities =
        \<lparr>cap_power = True, cap_fan = True, cap_light = False,
         cap_pm25 = False, cap_filter_life = False,
         cap_unsolicited_updates = True, cap_refresh = False\<rparr>,
      timings = shipped_timings, custom_auto_defaults = shipped_custom_auto_defaults\<rparr>"

text \<open>The two baselines share every section but their identity with the models that add nothing.\<close>

definition default_profile :: device_profile where
  "default_profile = h7124_profile\<lparr>profile_id := ''default'', lineage := [''default''], source_basename := ''default.json'',
     identity := \<lparr>manufacturer = ''Govee'', identity_model = None, display_name = ''Plaintext purifier baseline'',
       support_status = BASELINE, advertised_name_prefixes = []\<rparr>\<rparr>"

definition default_encrypted_profile :: device_profile where
  "default_encrypted_profile = h7129_profile\<lparr>profile_id := ''default-encrypted'', lineage := [''default-encrypted''], source_basename := ''default-encrypted.json'',
     identity := \<lparr>manufacturer = ''Govee'', identity_model = None, display_name = ''Encrypted purifier baseline'',
       support_status = BASELINE, advertised_name_prefixes = []\<rparr>\<rparr>"

section \<open>Selector facts\<close>

lemmas shipped_profile_defs =
  h7124_profile_def h7129_profile_def h7123_profile_def h712c_profile_def

lemma shipped_models [simp]:
  "profile_model h7124_profile = Inr H7124" "profile_model h7129_profile = Inr H7129"
  "profile_model h7123_profile = Inr H7123" "profile_model h712c_profile = Inr H712C"
  by (simp_all add: profile_model_def shipped_profile_defs)

lemma shipped_protocols [simp]:
  "protocol h7124_profile = h7124_protocol" "protocol h7129_profile = h7129_protocol"
  "protocol h7123_profile = h7123_protocol" "protocol h712c_profile = h712c_protocol"
  by (simp_all add: shipped_profile_defs)

lemma shipped_timing_sections [simp]:
  "timings h7124_profile = shipped_timings" "timings h7129_profile = shipped_encrypted_timings"
  "timings h7123_profile = shipped_encrypted_timings" "timings h712c_profile = shipped_timings"
  by (simp_all add: shipped_profile_defs)

lemma shipped_catalogs [simp]:
  "request_catalog h7124_protocol = h7124_catalog" "request_catalog h7129_protocol = h7129_catalog"
  "request_catalog h7123_protocol = h7123_catalog" "request_catalog h712c_protocol = h712c_catalog"
  by (simp_all add: h7124_protocol_def h7129_protocol_def h7123_protocol_def h712c_protocol_def)

lemma shipped_fan_definitions [simp]:
  "map_of (pr_commands h7124_protocol) ''fan_mode'' =
     Some \<lparr>cd_strategy = ''fan_mode_v1'', cd_prefix = [0x3A, 0x05]\<rparr>"
  "map_of (pr_commands h7129_protocol) ''fan_mode'' =
     Some \<lparr>cd_strategy = ''fan_mode_v1'', cd_prefix = [0x3A, 0x05]\<rparr>"
  "map_of (pr_commands h7123_protocol) ''fan_mode'' =
     Some \<lparr>cd_strategy = ''fan_mode_v1'', cd_prefix = [0x3A, 0x05]\<rparr>"
  "map_of (pr_commands h712c_protocol) ''fan_mode'' =
     Some \<lparr>cd_strategy = ''fan_mode_33_v1'', cd_prefix = [0x33, 0x05]\<rparr>"
  by (simp_all add: h7124_protocol_def h7129_protocol_def h7123_protocol_def h712c_protocol_def)

lemma shipped_auto_parameters [simp]:
  "profile_auto_parameter h7124_profile = 20" "profile_auto_parameter h7129_profile = 18"
  "profile_auto_parameter h712c_profile = 0"
  by (simp_all add: profile_auto_parameter_def shipped_profile_defs h7124_protocol_def
      h7129_protocol_def h712c_protocol_def)

end
