(* ===== verification/Protocol_Codec.thy ===== *)
theory Protocol_Codec
  imports Protocol_Matcher Shipped_Profiles
begin

text \<open>
  Typed command encoding and event decoding (\<open>protocol/codec.py\<close>).  The codec holds the request
  catalog of the profile; encoding returns a checksum-valid frame or the exception the code
  raises, decoding classifies a frame by its first bytes, in the order of the source.
\<close>

unbundle bit_operations_syntax

type_synonym request_map = "(string \<times> request_descriptor) list"

text \<open>\<open>d[key]\<close> of a mapping and \<open>bytes((...))\<close> of integers.\<close>

definition py_getitem :: "('k \<times> 'v) list \<Rightarrow> 'k \<Rightarrow> 'v res" where
  "py_getitem d k = (case map_of d k of None \<Rightarrow> Inl KeyError | Some v \<Rightarrow> Inr v)"

definition py_bytes :: "int list \<Rightarrow> bytes res" where
  "py_bytes xs = (if \<forall>x \<in> set xs. 0 \<le> x \<and> x < 256 then Inr (map word_of_int xs) else Inl ValueError)"

section \<open>Encoding\<close>

definition require_command_strategy ::
    "device_profile \<Rightarrow> string \<Rightarrow> string \<Rightarrow> command_definition res" where
  "require_command_strategy p name expected =
     (case map_of (pr_commands (protocol p)) name of
        None \<Rightarrow> Inl ProtocolError
      | Some d \<Rightarrow> if cd_strategy d \<noteq> expected then Inl ProtocolError else Inr d)"

definition fan_payload :: "device_profile \<Rightarrow> fan_mode \<Rightarrow> int \<times> int \<times> int" where
  "fan_payload p mode =
     (case mode of
        LOW \<Rightarrow> (0x01, 0x01, 0x00)
      | MEDIUM \<Rightarrow> (0x01, 0x02, 0x00)
      | HIGH \<Rightarrow> (0x01, 0x03, 0x00)
      | SLEEP \<Rightarrow> (0x05, 0x00, 0x00)
      | AUTO \<Rightarrow> (0x03, 0x00, profile_auto_parameter p)
      | TURBO \<Rightarrow> (0x07, 0x00, 0x00))"

definition encode_fan_mode ::
    "fan_mode \<Rightarrow> command_definition \<Rightarrow> device_profile \<Rightarrow> bytes res" where
  "encode_fan_mode mode d p =
     res_bind (manual_modes p) (\<lambda>modes.
     res_bind (supports_auto p) (\<lambda>has_auto.
       if mode \<notin> set modes \<and> \<not> (mode = AUTO \<and> has_auto) then Inl ProtocolError
       else let (mode_code, manual_level, auto_parameter) = fan_payload p mode
            in res_bind (py_bytes [mode_code, manual_level, 0x00, auto_parameter]) (\<lambda>tail.
                 build_frame (cd_prefix d @ tail))))"

definition fan_strategy :: "model \<Rightarrow> string" where
  "fan_strategy m = (if m = H712C then ''fan_mode_33_v1'' else ''fan_mode_v1'')"

fun encode :: "request_map \<Rightarrow> device_profile \<Rightarrow> command \<Rightarrow> bytes res" where
  "encode reqs p (RawCommand raw) = validate_frame raw"
| "encode reqs p QueryDeviceState =
     res_bind (py_getitem reqs ''device_state'') (\<lambda>d. Inr (dsc_frame d))"
| "encode reqs p QueryNightLightState =
     res_bind (py_getitem reqs ''night_light_state'') (\<lambda>d. Inr (dsc_frame d))"
| "encode reqs p QueryNightLightColor =
     res_bind (py_getitem reqs ''night_light_color'') (\<lambda>d. Inr (dsc_frame d))"
| "encode reqs p QueryAirQuality =
     res_bind (py_getitem reqs ''air_quality'') (\<lambda>d. Inr (dsc_frame d))"
| "encode reqs p (SetPower on) =
     res_bind (require_command_strategy p ''power'' ''power_bool_v1'') (\<lambda>d.
     res_bind (py_bytes [int_of_bool on]) (\<lambda>tail.
       build_frame (cd_prefix d @ tail)))"
| "encode reqs p (SetFanMode mode) =
     res_bind (profile_model p) (\<lambda>m.
     res_bind (require_command_strategy p ''fan_mode'' (fan_strategy m)) (\<lambda>d.
       encode_fan_mode mode d p))"
| "encode reqs p (SetNightLightPower on) =
     res_bind (require_command_strategy p ''night_light_power'' ''night_light_power_v1'') (\<lambda>d.
     res_bind (py_bytes [int_of_bool on]) (\<lambda>tail.
       build_frame (cd_prefix d @ tail)))"
| "encode reqs p (SetNightLightBrightness percent) =
     res_bind (require_command_strategy p ''night_light_brightness'' ''night_light_brightness_v1'')
       (\<lambda>d.
         if \<not> (1 \<le> percent \<and> percent \<le> 100) then Inl ProtocolError
         else res_bind (py_bytes [percent]) (\<lambda>tail. build_frame (cd_prefix d @ tail)))"
| "encode reqs p (SetNightLightColor red green blue) =
     res_bind (require_command_strategy p ''night_light_color'' ''night_light_color_v1'') (\<lambda>d.
       if \<exists>component \<in> set [red, green, blue]. \<not> (0 \<le> component \<and> component \<le> 255)
       then Inl ProtocolError
       else res_bind (py_bytes [red, green, blue]) (\<lambda>tail. build_frame (cd_prefix d @ tail)))"

section \<open>Decoding\<close>

definition decode_bool :: "int \<Rightarrow> bool option" where
  "decode_bool v = (if v = 0 then Some False else if v = 1 then Some True else None)"

definition decode_fan_mode :: "bytes \<Rightarrow> device_profile \<Rightarrow> fan_mode option" where
  "decode_fan_mode data p =
     (let mode_code = uint (data ! 2)
      in if mode_code = 0x01 then
           map_of [(0x01, LOW), (0x02, MEDIUM), (0x03, HIGH)] (uint (data ! 3))
         else if mode_code = 0x03 then
           (if uint (data ! 5) = profile_auto_parameter p then Some AUTO else None)
         else map_of [(0x05, SLEEP), (0x07, TURBO)] mode_code)"

definition fan_mode_event :: "bytes \<Rightarrow> device_profile \<Rightarrow> event" where
  "fan_mode_event data p =
     FanModeEvent data (decode_fan_mode data p) (uint (data ! 2)) (uint (data ! 3)) (uint (data ! 5))"

definition startup_fan_mode_event :: "bytes \<Rightarrow> event" where
  "startup_fan_mode_event data =
     (let selector = uint (data ! 2)
      in StartupFanModeEvent data selector
           (if selector = 0x00 then Some (uint (data ! 3)) else None)
           (if selector = 0x00 then Some (uint (data ! 4)) else None)
           (if selector = 0x01 then Some (uint (data ! 3)) else None)
           (if selector = 0x03 then Some (uint (data ! 5)) else None))"

definition night_light_color_event :: "bytes \<Rightarrow> event" where
  "night_light_color_event data =
     (let available = (uint (data ! 3) = 0x0D); prefix = uint (data ! 0)
      in NightLightColorEvent data
           (if available then Some (uint (data ! 4)) else None)
           (if available then Some (uint (data ! 5)) else None)
           (if available then Some (uint (data ! 6)) else None)
           available (prefix = 0x3A) prefix)"

definition air_quality_event :: "bytes \<Rightarrow> event" where
  "air_quality_event data =
     (let raw_pm25 = push_bit 8 (uint (data ! 3)) OR uint (data ! 4)
      in AirQualityEvent data (uint (data ! 2)) (if raw_pm25 \<le> 999 then Some raw_pm25 else None)
           raw_pm25 (uint (data ! 5)) (uint (data ! 6)) (uint (data ! 7))
           (uint (data ! 0) = 0xEE))"

definition decode_data :: "device_profile \<Rightarrow> model \<Rightarrow> bytes \<Rightarrow> event" where
  "decode_data p m data =
     (let prefix = uint (data ! 0); command = uint (data ! 1)
      in if m \<in> {H7123, H712C} \<and> command \<in> {0x19, 0x1B} then UnknownEvent data prefix command
         else if take 2 data = [0xAA, 0x01] then
           DeviceStateEvent data (decode_bool (uint (data ! 2))) (uint (data ! 4)) (uint (data ! 6))
         else if take 2 data = [0xAA, 0x05] \<and>
                 startup_mode_strategy (protocol p) = ''h7123_direct'' then fan_mode_event data p
         else if take 2 data = [0xAA, 0x05] then startup_fan_mode_event data
         else if take 2 data = [0xEE, 0x05] then fan_mode_event data p
         else if command = 0x1B \<and> uint (data ! 2) = 0x01 \<and> prefix \<in> {0xAA, 0x3A, 0xEE} then
           NightLightStateEvent data (decode_bool (uint (data ! 3))) (uint (data ! 4)) prefix
             (prefix = 0xEE)
         else if command = 0x1B \<and> uint (data ! 2) = 0x05 \<and> prefix \<in> {0xAA, 0x3A} then
           night_light_color_event data
         else if command = 0x19 \<and> prefix \<in> {0xAA, 0xEE} then air_quality_event data
         else if take 2 data = [0xEE, 0xAA] then RefreshRequestedEvent data
         else if prefix = 0xE7 then NegotiationEvent data command
         else if prefix \<in> {0x33, 0x3A} then EchoEvent data prefix command
         else UnknownEvent data prefix command)"

definition decode :: "device_profile \<Rightarrow> bytes \<Rightarrow> event res" where
  "decode p frame =
     res_bind (validate_frame frame) (\<lambda>data.
     res_bind (profile_model p) (\<lambda>m.
       Inr (decode_data p m data)))"

section \<open>Facts about encoding\<close>

lemma py_getitem_Inr [simp]: "py_getitem d k = Inr v \<longleftrightarrow> map_of d k = Some v"
  by (auto simp: py_getitem_def split: option.splits)

lemma py_bytes_Inr:
  "py_bytes xs = Inr bs \<longleftrightarrow> (\<forall>x \<in> set xs. 0 \<le> x \<and> x < 256) \<and> bs = map word_of_int xs"
  by (auto simp: py_bytes_def)

lemma py_bytes_bool [simp]: "py_bytes [int_of_bool b] = Inr [if b then 1 else 0]"
  by (simp add: py_bytes_def int_of_bool_def)

lemma uint_word_of_int_byte [simp]: "0 \<le> x \<Longrightarrow> x < 256 \<Longrightarrow> uint (word_of_int x :: byte) = x"
  by (simp add: uint_word_of_int)

lemma require_command_strategy_Inr:
  "require_command_strategy p n s = Inr d \<longleftrightarrow>
     map_of (pr_commands (protocol p)) n = Some d \<and> cd_strategy d = s"
  by (auto simp: require_command_strategy_def split: option.splits)

lemma fan_mode_supported_iff:
  "profile_model p = Inr m \<Longrightarrow>
     (\<exists>modes a. manual_modes p = Inr modes \<and> supports_auto p = Inr a \<and>
        (mode \<in> set modes \<or> mode = AUTO \<and> a)) \<longleftrightarrow> mode \<in> set (commandable_modes m)"
  by (cases mode; cases m) (auto simp: manual_modes_def supports_auto_def commandable_modes_def)

lemma encode_fan_mode_Inr:
  assumes "encode_fan_mode mode d p = Inr f"
  obtains c l a where "fan_payload p mode = (c, l, a)" and "0 \<le> a" "a < 256"
    and "build_frame (cd_prefix d @ map word_of_int [c, l, 0, a]) = Inr f"
  using assms by (auto simp: encode_fan_mode_def py_bytes_Inr split: if_splits prod.splits)

lemma encode_frame_valid:
  assumes "encode reqs p cmd = Inr f"
    and "\<And>n d. map_of reqs n = Some d \<Longrightarrow> is_valid_frame (dsc_frame d)"
  shows "is_valid_frame f"
proof (cases cmd)
  case (RawCommand raw)
  with assms(1) show ?thesis by (simp add: validate_frame_Inr is_valid_frame_iff)
next
  case (SetFanMode mode)
  with assms(1) obtain d where "encode_fan_mode mode d p = Inr f" by auto
  then show ?thesis by (elim encode_fan_mode_Inr) (rule build_frame_valid)
next
  case (SetNightLightColor r g b)
  with assms(1) show ?thesis by (auto split: if_splits intro: build_frame_valid)
next
  case (SetNightLightBrightness x)
  with assms(1) show ?thesis by (auto split: if_splits intro: build_frame_valid)
qed (use assms in \<open>auto intro: build_frame_valid\<close>)

section \<open>Facts about decoding\<close>

lemma decode_Inr:
  "decode p f = Inr ev \<longleftrightarrow> is_valid_frame f \<and> (\<exists>m. profile_model p = Inr m \<and> ev = decode_data p m f)"
  by (auto simp: decode_def validate_frame_Inr is_valid_frame_iff)

lemma event_frame_decode_data [simp]: "event_frame (decode_data p m f) = f"
  by (simp add: decode_data_def Let_def fan_mode_event_def startup_fan_mode_event_def
      night_light_color_event_def air_quality_event_def)

lemma decode_data_fan_notification:
  assumes "20 \<le> length f" and "f ! 1 = 5" and "f ! 0 = 0xEE \<or>
      f ! 0 = 0xAA \<and> startup_mode_strategy (protocol p) = ''h7123_direct''"
  shows "decode_data p m f = fan_mode_event f p"
  using assms by (auto simp: decode_data_def Let_def take_2_eq)

lemma decode_data_device_state:
  assumes "20 \<le> length f" and "starts_with [0xAA, 0x01] f"
  shows "decode_data p m f =
    DeviceStateEvent f (decode_bool (uint (f ! 2))) (uint (f ! 4)) (uint (f ! 6))"
  using assms by (auto simp: decode_data_def Let_def take_2_eq starts_with_two)

lemma decode_fan_mode_payload:
  assumes "fan_payload p mode = (c, l, a)" and "uint (f ! 2) = c"
    and "mode \<in> {LOW, MEDIUM, HIGH} \<Longrightarrow> uint (f ! 3) = l"
    and "mode = AUTO \<Longrightarrow> uint (f ! 5) = a"
  shows "decode_fan_mode f p = Some mode"
  using assms by (cases mode) (auto simp: fan_payload_def decode_fan_mode_def)

lemma air_quality_raw_bounds:
  "0 \<le> push_bit 8 (uint (a :: byte)) OR uint (b :: byte) \<and> push_bit 8 (uint a) OR uint b < 65536"
proof -
  have a: "uint a < 256" and b: "uint b < 256" using uint_lt2p[of a] uint_lt2p[of b] by simp_all
  have "push_bit 8 (uint a) = uint a * 256" by (simp add: push_bit_eq_mult)
  then have "push_bit 8 (uint a) < 2 ^ 16" "0 \<le> push_bit 8 (uint a)" using a by simp_all
  moreover have "uint b < 2 ^ 16" using b by simp
  ultimately have "push_bit 8 (uint a) OR uint b < 2 ^ 16" by (intro OR_upper) simp_all
  then show ?thesis by simp
qed

section \<open>Properties\<close>

text \<open>Encoding a fan mode succeeds exactly for the modes the model can be commanded into, and
  every other mode is refused with a protocol error, whatever the profile's catalog: a
  frame is never produced for an unsupported mode.\<close>

theorem encode_fan_mode_exactly_commandable:
  assumes "profile_model p = Inr m"
    and "map_of (pr_commands (protocol p)) ''fan_mode'' = Some d"
    and "cd_strategy d = fan_strategy m" and "length (cd_prefix d) = 2"
    and "0 \<le> profile_auto_parameter p" and "profile_auto_parameter p < 256"
  shows "if mode \<in> set (commandable_modes m)
    then \<exists>f. encode reqs p (SetFanMode mode) = Inr f \<and> is_valid_frame f \<and>
           take 2 f = cd_prefix d \<and> decode_fan_mode f p = Some mode
    else encode reqs p (SetFanMode mode) = Inl ProtocolError"
proof -
  obtain modes a where ma: "manual_modes p = Inr modes" "supports_auto p = Inr a"
    using assms(1) by (simp add: manual_modes_def supports_auto_def Let_def)
  have sup: "(mode \<in> set modes \<or> mode = AUTO \<and> a) \<longleftrightarrow> mode \<in> set (commandable_modes m)"
    using fan_mode_supported_iff[OF assms(1), of mode] ma by auto
  have enc: "encode reqs p (SetFanMode mode) = encode_fan_mode mode d p"
    using assms(1-3) by (simp add: require_command_strategy_def)
  show ?thesis
  proof (cases "mode \<in> set (commandable_modes m)")
    case True
    obtain c l x where pl: "fan_payload p mode = (c, l, x)" by (cases "fan_payload p mode")
    then have r: "0 \<le> c" "c < 256" "0 \<le> l" "l < 256" "0 \<le> x" "x < 256"
      using assms(5,6) by (auto simp: fan_payload_def split: fan_mode.splits)
    let ?c = "cd_prefix d @ map word_of_int [c, l, 0, x]"
    obtain f where f: "build_frame ?c = Inr f" using build_frame_total[of ?c] assms(4) by auto
    have "encode_fan_mode mode d p = Inr f"
    proof -
      have "py_bytes [c, l, 0, x] = Inr (map word_of_int [c, l, 0, x])"
        using r by (simp add: py_bytes_def)
      moreover have "\<not> (mode \<notin> set modes \<and> \<not> (mode = AUTO \<and> a))" using True sup by blast
      ultimately show ?thesis
        unfolding encode_fan_mode_def by (simp only: ma pl f res_bind_simps if_False Let_def prod.case)
    qed
    moreover have "take 2 f = cd_prefix d"
      using build_frame_starts_with[OF f] assms(4) by (simp add: starts_with_def)
    moreover have n: "f ! i = ?c ! i" if "i < 6" for i
      using build_frame_nth[OF f, of i] that assms(4) by simp
    have "decode_fan_mode f p = Some mode"
      using n[of 2] n[of 3] n[of 5] assms(4) r
      by (intro decode_fan_mode_payload[OF pl]) (simp_all add: nth_append)
    ultimately show ?thesis
      using build_frame_valid[OF f] unfolding if_P[OF True] enc by blast
  next
    case False
    then show ?thesis using sup ma enc by (auto simp: encode_fan_mode_def)
  qed
qed

theorem encode_fan_mode_exactly_commandable_witness:
  "if TURBO \<in> set (commandable_modes H7124)
    then \<exists>f. encode [] h7124_profile (SetFanMode TURBO) = Inr f \<and> is_valid_frame f \<and>
           take 2 f = cd_prefix \<lparr>cd_strategy = ''fan_mode_v1'', cd_prefix = [0x3A, 0x05]\<rparr> \<and>
           decode_fan_mode f h7124_profile = Some TURBO
    else encode [] h7124_profile (SetFanMode TURBO) = Inl ProtocolError"
  by (rule encode_fan_mode_exactly_commandable) (simp_all add: fan_strategy_def)

text \<open>Decoding is total on checksum-valid frames and refuses nothing else: for a runtime
  profile, every valid frame decodes to an event that carries the frame unchanged, an
  out-of-range PM2.5 sentinel is never published as a measurement, and an invalid frame raises
  the frame error of the validator.\<close>

theorem decode_total_and_bounded:
  assumes "profile_model p = Inr m"
  shows "case decode p f of
      Inr ev \<Rightarrow> is_valid_frame f \<and> event_frame ev = f \<and>
        (case ev of AirQualityEvent _ _ pm25 raw _ _ life _ \<Rightarrow>
             0 \<le> raw \<and> raw < 65536 \<and> 0 \<le> life \<and> life < 256 \<and>
             pm25 = (if raw \<le> 999 then Some raw else None)
         | _ \<Rightarrow> True)
    | Inl e \<Rightarrow> \<not> is_valid_frame f \<and> is_frame_error e"
proof (cases "is_valid_frame f")
  case True
  let ?ev = "decode_data p m f"
  have "case ?ev of AirQualityEvent _ _ pm25 raw _ _ life _ \<Rightarrow>
             0 \<le> raw \<and> raw < 65536 \<and> 0 \<le> life \<and> life < 256 \<and>
             pm25 = (if raw \<le> 999 then Some raw else None)
         | _ \<Rightarrow> True"
    using air_quality_raw_bounds uint_lt2p[of "f ! 7"]
    by (simp add: decode_data_def Let_def fan_mode_event_def startup_fan_mode_event_def
        night_light_color_event_def air_quality_event_def)
  with True assms show ?thesis by (simp add: decode_def)
next
  case False
  then obtain e where e: "validate_frame f = Inl e"
    by (cases "validate_frame f") (auto simp: validate_frame_Inr is_valid_frame_iff)
  with False show ?thesis
    using validate_frame_Inl_frame_error[OF e] by (simp add: decode_def)
qed

theorem decode_total_and_bounded_witness:
  "case decode h7124_profile (replicate 20 0) of
      Inr ev \<Rightarrow> is_valid_frame (replicate 20 0) \<and> event_frame ev = replicate 20 0 \<and>
        (case ev of AirQualityEvent _ _ pm25 raw _ _ life _ \<Rightarrow>
             0 \<le> raw \<and> raw < 65536 \<and> 0 \<le> life \<and> life < 256 \<and>
             pm25 = (if raw \<le> 999 then Some raw else None)
         | _ \<Rightarrow> True)
    | Inl e \<Rightarrow> \<not> is_valid_frame (replicate 20 0) \<and> is_frame_error e"
  by (rule decode_total_and_bounded) simp

end
