(* ===== verification/Protocol_Service.thy ===== *)
theory Protocol_Service
  imports Protocol_Codec
begin

text \<open>
  The protocol facade (\<open>protocol/service.py\<close>): a profile together with its request catalog, the
  request sweeps, transaction descriptors of typed commands, encoding and decoding.
\<close>

section \<open>The facade\<close>

record govee_protocol =
  gp_profile :: device_profile
  gp_requests :: request_map

definition new_protocol :: "device_profile \<Rightarrow> govee_protocol res" where
  "new_protocol p =
     res_bind (build_request_catalog p) (\<lambda>reqs.
       Inr \<lparr>gp_profile = p, gp_requests = reqs\<rparr>)"

definition gp_initialization_requests :: "govee_protocol \<Rightarrow> request_descriptor list res" where
  "gp_initialization_requests g =
     res_map_list (py_getitem (gp_requests g)) (initialization_order (protocol (gp_profile g)))"

definition gp_refresh_requests :: "govee_protocol \<Rightarrow> request_descriptor list res" where
  "gp_refresh_requests g =
     res_map_list (py_getitem (gp_requests g)) (refresh_order (protocol (gp_profile g)))"

definition device_state_poll :: "govee_protocol \<Rightarrow> request_descriptor res" where
  "device_state_poll g =
     py_getitem (gp_requests g) (periodic_request (protocol (gp_profile g)))"

definition new_response_matcher :: "request_descriptor \<Rightarrow> matcher" where
  "new_response_matcher d = new_matcher d"

definition gp_encode :: "govee_protocol \<Rightarrow> command \<Rightarrow> bytes res" where
  "gp_encode g command = encode (gp_requests g) (gp_profile g) command"

definition gp_decode :: "govee_protocol \<Rightarrow> bytes \<Rightarrow> event res" where
  "gp_decode g frame = decode (gp_profile g) frame"

text \<open>The rule of a command, with the direct \<open>aa 05\<close> notification of the H7123 added.\<close>

definition command_response :: "govee_protocol \<Rightarrow> command \<Rightarrow> bytes \<Rightarrow> response_spec" where
  "command_response g command frame =
     (let response = response_for_command command frame
      in if startup_mode_strategy (protocol (gp_profile g)) = ''h7123_direct'' \<and>
            is_SetFanMode command
         then response\<lparr>rs_allowed_prefixes := rs_allowed_prefixes response @ [[0xAA, 0x05]]\<rparr>
         else response)"

definition command_request ::
    "govee_protocol \<Rightarrow> command \<Rightarrow> string option \<Rightarrow> request_descriptor res" where
  "command_request g command name =
     res_bind (gp_encode g command) (\<lambda>frame.
       let descriptor_name =
             (case name of Some (c # cs) \<Rightarrow> c # cs | _ \<Rightarrow> command_type_name command)
       in mk_request_descriptor descriptor_name frame (command_response g command frame))"

definition initialization_requests :: "device_profile \<Rightarrow> request_descriptor list res" where
  "initialization_requests p = res_bind (new_protocol p) gp_initialization_requests"

definition refresh_requests :: "device_profile \<Rightarrow> request_descriptor list res" where
  "refresh_requests p = res_bind (new_protocol p) gp_refresh_requests"

section \<open>Facts\<close>

lemma new_protocol_requests_valid:
  "new_protocol p = Inr g \<Longrightarrow> map_of (gp_requests g) n = Some d \<Longrightarrow> is_valid_frame (dsc_frame d)"
  unfolding new_protocol_def by (auto intro: build_request_catalog_valid)

lemma new_protocol_profile [simp]: "new_protocol p = Inr g \<Longrightarrow> gp_profile g = p"
  by (auto simp: new_protocol_def)

lemma command_request_Inr:
  assumes "command_request g cmd name = Inr d"
  shows "gp_encode g cmd = Inr (dsc_frame d)" "is_valid_frame (dsc_frame d)"
    "dsc_response d = command_response g cmd (dsc_frame d)"
  using assms by (auto simp: command_request_def Let_def mk_request_descriptor_Inr)

text \<open>What a frame that completes a fresh transaction satisfies, per kind of rule.\<close>

lemma fresh_completion:
  assumes "matcher_feed (new_matcher d) f = Inr (m', COMPLETE)"
    and "rs_kind (dsc_response d) \<noteq> FRAGMENTS"
  shows "is_valid_frame f \<and> match_single (dsc_response d) f = Inr (Some True)"
  using assms(1)
proof (cases rule: matcher_feed_steps)
  case over
  then show ?thesis by simp
next
  case single
  then show ?thesis by (simp add: new_matcher_def)
next
  case none
  then show ?thesis by simp
next
  case fragment
  then show ?thesis
    using assms(2)
    by (auto simp: match_single_def new_matcher_def split: response_kind.splits if_splits)
qed

lemma fields_completion:
  assumes "matcher_feed (new_matcher d) f = Inr (m', COMPLETE)"
    and "rs_kind (dsc_response d) = FIELDS" and "f \<notin> set (rs_exact_alternatives (dsc_response d))"
    and "spec_offsets_ok (dsc_response d)"
  shows "is_valid_frame f \<and> (\<exists>p \<in> set (rs_allowed_prefixes (dsc_response d)). starts_with p f) \<and>
    (\<forall>(i, v) \<in> set (rs_expected_fields (dsc_response d)). uint (f ! nat i) = v)"
proof -
  from fresh_completion[OF assms(1)] assms(2) have v: "is_valid_frame f"
    and m: "match_single (dsc_response d) f = Inr (Some True)" by simp_all
  from v have "length f = 20" by (rule valid_frame_length)
  then have "all_fields f (rs_expected_fields (dsc_response d)) =
      Inr (\<forall>(i, v) \<in> set (rs_expected_fields (dsc_response d)). uint (f ! nat i) = v)"
    using assms(4) by (intro all_fields_ok) (simp_all add: spec_offsets_ok_def)
  with m assms(2,3) v show ?thesis by (auto simp: match_single_def split: if_splits)
qed

lemma command_response_offsets:
  "spec_offsets_ok (command_response g cmd f)"
  by (cases cmd)
    (auto simp: command_response_def spec_offsets_ok_def fan_fields_def rule_prefix_def
      rule_selector_def rule_exact_def Let_def)

lemma startup_mode_prefixes:
  "rs_allowed_prefixes (command_response g (SetFanMode mode) f) =
     [0xEE, 0x05] # (if startup_mode_strategy (protocol (gp_profile g)) = ''h7123_direct''
       then [[0xAA, 0x05]] else [])"
  "rs_exact_alternatives (command_response g (SetFanMode mode) f) = [f]"
  "rs_kind (command_response g (SetFanMode mode) f) = FIELDS"
  "rs_expected_fields (command_response g (SetFanMode mode) f) = fan_fields mode f"
  by (simp_all add: command_response_def Let_def)

lemma encoded_fan_frame:
  assumes "gp_encode g (SetFanMode mode) = Inr frame"
    and "\<And>d. map_of (pr_commands (protocol (gp_profile g))) ''fan_mode'' = Some d \<Longrightarrow>
           length (cd_prefix d) = 2"
  obtains c l a where "fan_payload (gp_profile g) mode = (c, l, a)" and "uint (frame ! 2) = c"
    and "uint (frame ! 3) = l" and "uint (frame ! 5) = a"
proof -
  from assms(1) obtain d m where dm: "require_command_strategy (gp_profile g) ''fan_mode''
      (fan_strategy m) = Inr d" and enc: "encode_fan_mode mode d (gp_profile g) = Inr frame"
    by (auto simp: gp_encode_def)
  from dm assms(2) have len: "length (cd_prefix d) = 2"
    by (auto simp: require_command_strategy_Inr)
  from enc show ?thesis
  proof (rule encode_fan_mode_Inr)
    fix c l a
    assume pl: "fan_payload (gp_profile g) mode = (c, l, a)" and a: "0 \<le> a" "a < 256"
      and f: "build_frame (cd_prefix d @ map word_of_int [c, l, 0, a]) = Inr frame"
    from pl have r: "0 \<le> c" "c < 256" "0 \<le> l" "l < 256"
      by (auto simp: fan_payload_def split: fan_mode.splits)
    have n: "frame ! i = (cd_prefix d @ map word_of_int [c, l, 0, a]) ! i" if "i < 6" for i
      using build_frame_nth[OF f, of i] that len by simp
    show ?thesis
      using n[of 2] n[of 3] n[of 5] len r a
      by (intro that[OF pl]) (simp_all add: nth_append)
  qed
qed

lemma fan_notification_decodes:
  assumes "command_request g (SetFanMode mode) name = Inr d"
    and "\<And>c. map_of (pr_commands (protocol (gp_profile g))) ''fan_mode'' = Some c \<Longrightarrow>
           length (cd_prefix c) = 2"
    and "matcher_feed (new_response_matcher d) f = Inr (m', COMPLETE)" and "f \<noteq> dsc_frame d"
  shows "\<exists>code level auto. gp_decode g f = Inr (FanModeEvent f (Some mode) code level auto)"
proof -
  note req = command_request_Inr[OF assms(1)]
  from fields_completion[OF assms(3)[unfolded new_response_matcher_def]] req(3) assms(4)
  have v: "is_valid_frame f"
    and pre: "f ! 0 = 0xEE \<and> f ! 1 = 5 \<or> f ! 0 = 0xAA \<and> f ! 1 = 5 \<and>
       startup_mode_strategy (protocol (gp_profile g)) = ''h7123_direct''"
    and fields: "\<forall>(i, v) \<in> set (fan_fields mode (dsc_frame d)). uint (f ! nat i) = v"
    using command_response_offsets[of g "SetFanMode mode" "dsc_frame d"] valid_frame_length[of f]
    by (auto simp: startup_mode_prefixes starts_with_two split: if_splits)
  from req(1) assms(2) obtain c l a where pl: "fan_payload (gp_profile g) mode = (c, l, a)"
    and u: "uint (dsc_frame d ! 2) = c" "uint (dsc_frame d ! 3) = l" "uint (dsc_frame d ! 5) = a"
    by (rule encoded_fan_frame)
  have dec: "decode_fan_mode f (gp_profile g) = Some mode"
    using fields u
    by (intro decode_fan_mode_payload[OF pl]) (auto simp: fan_fields_def split: if_splits)
  from req(1) obtain m where m: "profile_model (gp_profile g) = Inr m"
    by (auto simp: gp_encode_def)
  have "decode_data (gp_profile g) m f = fan_mode_event f (gp_profile g)"
    using pre valid_frame_length[OF v] by (intro decode_data_fan_notification) auto
  with m v dec show ?thesis
    by (auto simp: gp_decode_def decode_Inr fan_mode_event_def)
qed

lemma power_response_decodes:
  assumes "command_request g (SetPower on) name = Inr d"
    and "matcher_feed (new_response_matcher d) f = Inr (m', COMPLETE)"
    and "profile_model (gp_profile g) = Inr m"
  shows "\<exists>flags vol. gp_decode g f = Inr (DeviceStateEvent f (Some on) flags vol)"
proof -
  note req = command_request_Inr[OF assms(1)]
  have resp: "dsc_response d = (response_spec FIELDS)\<lparr>rs_allowed_prefixes := [[0xAA, 0x01]],
        rs_expected_fields := [(2, int_of_bool on)]\<rparr>"
    using req(3) by (simp add: command_response_def)
  from fields_completion[OF assms(2)[unfolded new_response_matcher_def]]
  have v: "is_valid_frame f" and pre: "starts_with [0xAA, 0x01] f"
    and b: "uint (f ! 2) = int_of_bool on"
    by (auto simp: resp spec_offsets_ok_def)
  have "decode_data (gp_profile g) m f =
      DeviceStateEvent f (decode_bool (uint (f ! 2))) (uint (f ! 4)) (uint (f ! 6))"
    using pre valid_frame_length[OF v] by (intro decode_data_device_state) simp_all
  with v assms(3) b show ?thesis
    by (auto simp: gp_decode_def decode_Inr decode_bool_def int_of_bool_def)
qed

lemma light_response_decodes:
  assumes "command_request g cmd name = Inr d"
    and "cmd = SetNightLightPower on \<or> cmd = SetNightLightBrightness percent"
    and "matcher_feed (new_response_matcher d) f = Inr (m', COMPLETE)"
    and "profile_model (gp_profile g) = Inr m" and "m \<notin> {H7123, H712C}"
  shows "\<exists>pw br pre uns. gp_decode g f = Inr (NightLightStateEvent f pw br pre uns) \<and>
    (cmd = SetNightLightPower on \<longrightarrow> pw = Some on) \<and>
    (cmd = SetNightLightBrightness percent \<longrightarrow> br = percent)"
proof -
  note req = command_request_Inr[OF assms(1)]
  have kind: "rs_kind (dsc_response d) = FIELDS" "rs_exact_alternatives (dsc_response d) = []"
    "rs_allowed_prefixes (dsc_response d) = [[0xAA, 0x1B], [0x3A, 0x1B], [0xEE, 0x1B]]"
    "spec_offsets_ok (dsc_response d)" "(2, 1) \<in> set (rs_expected_fields (dsc_response d))"
    using req(3) assms(2) command_response_offsets
    by (auto simp: command_response_def)
  from fields_completion[OF assms(3)[unfolded new_response_matcher_def] kind(1)] kind
  have v: "is_valid_frame f"
    and pre: "starts_with [0xAA, 0x1B] f \<or> starts_with [0x3A, 0x1B] f \<or> starts_with [0xEE, 0x1B] f"
    and fs: "\<forall>(i, v) \<in> set (rs_expected_fields (dsc_response d)). uint (f ! nat i) = v"
    by auto
  have len: "length f = 20" using v by (rule valid_frame_length)
  have two: "uint (f ! 2) = 1" using fs kind(5) by fastforce
  have p: "f ! 1 = 0x1B" "f ! 0 = 0xAA \<or> f ! 0 = 0x3A \<or> f ! 0 = 0xEE"
    using pre len by (auto simp: starts_with_two)
  have dd: "decode_data (gp_profile g) m f =
      NightLightStateEvent f (decode_bool (uint (f ! 3))) (uint (f ! 4)) (uint (f ! 0))
        (uint (f ! 0) = 0xEE)"
    using p two assms(5) len by (auto simp: decode_data_def Let_def take_2_eq)
  have "cmd = SetNightLightPower on \<longrightarrow> decode_bool (uint (f ! 3)) = Some on"
    using fs req(3) by (cases on) (auto simp: command_response_def decode_bool_def int_of_bool_def)
  moreover have "cmd = SetNightLightBrightness percent \<longrightarrow> uint (f ! 4) = percent"
    using fs req(3) by (auto simp: command_response_def)
  ultimately show ?thesis
    using dd v assms(4) by (simp add: gp_decode_def decode_def)
qed

section \<open>Properties\<close>

text \<open>Every frame the facade hands to the channel is a valid twenty-byte frame with a correct
  checksum: whatever typed or raw command is encoded, the result is either an exception or a
  valid frame, and the descriptor of the transaction carries exactly that frame.\<close>

theorem encoded_commands_are_valid:
  assumes "new_protocol p = Inr g"
  shows "(case gp_encode g cmd of Inr f \<Rightarrow> is_valid_frame f | Inl _ \<Rightarrow> True) \<and>
    (case command_request g cmd name of
       Inr d \<Rightarrow> gp_encode g cmd = Inr (dsc_frame d) \<and> is_valid_frame (dsc_frame d)
     | Inl e \<Rightarrow> gp_encode g cmd = Inl e)"
proof -
  have enc: "is_valid_frame f" if "gp_encode g cmd = Inr f" for f
    using that encode_frame_valid new_protocol_requests_valid[OF assms]
    by (metis gp_encode_def)
  then have "gp_encode g cmd = Inl e" if "command_request g cmd name = Inl e" for e
    using that by (cases "gp_encode g cmd")
      (auto simp: command_request_def mk_request_descriptor_def Let_def)
  then show ?thesis
    using enc command_request_Inr(1,2) by (auto split: sum.splits)
qed

theorem encoded_commands_are_valid_witness:
  "\<exists>g. new_protocol h712c_profile = Inr g \<and>
    (case gp_encode g (SetPower True) of Inr f \<Rightarrow> is_valid_frame f | Inl _ \<Rightarrow> True) \<and>
    (case command_request g (SetPower True) None of
       Inr d \<Rightarrow> gp_encode g (SetPower True) = Inr (dsc_frame d) \<and> is_valid_frame (dsc_frame d)
     | Inl e \<Rightarrow> gp_encode g (SetPower True) = Inl e)"
proof -
  have "\<not> isl (new_protocol h712c_profile)" by code_simp
  then obtain g where "new_protocol h712c_profile = Inr g" by (cases "new_protocol h712c_profile") auto
  then show ?thesis using encoded_commands_are_valid by blast
qed

text \<open>A notification can complete a fan-mode transaction only if it reports the commanded mode:
  apart from the byte-for-byte acknowledgement of the request itself, every frame that
  completes \<open>SetFanMode(mode)\<close> decodes to a fan-mode event carrying that mode.\<close>

theorem fan_mode_completion_reports_mode:
  assumes "command_request g (SetFanMode mode) name = Inr d"
    and "map_of (pr_commands (protocol (gp_profile g))) ''fan_mode'' = Some c"
    and "length (cd_prefix c) = 2"
    and "matcher_feed (new_response_matcher d) f = Inr (m', COMPLETE)" and "f \<noteq> dsc_frame d"
  shows "\<exists>code level auto. gp_decode g f = Inr (FanModeEvent f (Some mode) code level auto)"
  using fan_notification_decodes[OF assms(1) _ assms(4,5)] assms(2,3) by simp

theorem fan_mode_completion_reports_mode_witness:
  "\<exists>code level auto. gp_decode \<lparr>gp_profile = h7124_profile, gp_requests = []\<rparr>
       ([0xEE, 0x05, 0x01, 0x03] @ replicate 15 0 @ [0xE9]) =
     Inr (FanModeEvent ([0xEE, 0x05, 0x01, 0x03] @ replicate 15 0 @ [0xE9]) (Some HIGH) code level auto)"
proof -
  let ?g = "\<lparr>gp_profile = h7124_profile, gp_requests = []\<rparr>"
  let ?f = "[0xEE, 0x05, 0x01, 0x03] @ replicate 15 0 @ [0xE9] :: bytes"
  let ?r = "[0x3A, 0x05, 0x01, 0x03] @ replicate 15 0 @ [0x3D] :: bytes"
  let ?d = "\<lparr>dsc_name = ''SetFanMode'', dsc_frame = ?r,
             dsc_response = command_response ?g (SetFanMode HIGH) ?r\<rparr>"
  have 1: "command_request ?g (SetFanMode HIGH) None = Inr ?d" by code_simp
  have 2: "matcher_feed (new_response_matcher ?d) ?f =
      Inr ((new_response_matcher ?d)\<lparr>mt_frames := [?f], mt_complete := True\<rparr>, COMPLETE)"
    by code_simp
  have 3: "map_of (pr_commands (protocol (gp_profile ?g))) ''fan_mode'' =
      Some \<lparr>cd_strategy = ''fan_mode_v1'', cd_prefix = [0x3A, 0x05]\<rparr>" by simp
  show ?thesis
    by (rule fan_mode_completion_reports_mode[OF 1 3 _ 2]) simp_all
qed

end
