(* ===== verification/State_Reducer.thy ===== *)
theory State_Reducer
  imports Protocol_Service
begin

text \<open>
  Deterministic reduction of decoded events to the cached purifier state
  (\<open>state_reducer.py\<close>): which event is authoritative for which field, and how the startup fan
  mode is assembled from the two-frame answer of the H7129.  Resolution texts are a datatype;
  everything else is kept field by field.
\<close>

section \<open>State\<close>

datatype startup_resolution =
    NotObserved | SupersededByPhysicalUpdate | SupersededByCommandAcknowledgement
  | AwaitingStartupQuery | AwaitingManualLevel | Resolved fan_mode
  | UnknownManualLevel "int option" | UnknownH7124Combination "int option" "int option"
  | UnknownH7129ModeCode "int option"

record state_reducer =
  red_startup_mode_strategy :: string
  red_refresh_supported :: bool
  red_state :: purifier_state
  red_last_mode_code :: "int option"
  red_last_manual_level :: "int option"
  red_last_selector_01_value :: "int option"
  red_last_auto_parameter :: "int option"
  red_generation :: "int option"
  red_awaiting_manual_level :: bool
  red_resolution :: startup_resolution

record state_reduction =
  srd_state :: purifier_state
  srd_state_changed :: bool
  srd_refresh_requested :: bool

definition new_state_reducer :: "device_profile \<Rightarrow> state_reducer" where
  "new_state_reducer p =
     \<lparr>red_startup_mode_strategy = startup_mode_strategy (protocol p),
      red_refresh_supported = cap_refresh (capabilities p),
      red_state = empty_purifier_state, red_last_mode_code = None, red_last_manual_level = None,
      red_last_selector_01_value = None, red_last_auto_parameter = None, red_generation = None,
      red_awaiting_manual_level = False, red_resolution = NotObserved\<rparr>"

definition replace_state :: "purifier_state \<Rightarrow> state_reducer \<Rightarrow> state_reducer" where
  "replace_state s r = r\<lparr>red_state := s\<rparr>"

definition clear_startup_mode_partial :: "state_reducer \<Rightarrow> state_reducer" where
  "clear_startup_mode_partial r = r\<lparr>red_awaiting_manual_level := False\<rparr>"

section \<open>Startup fan mode\<close>

text \<open>\<open>f"{n:02x}"\<close> and the request a selector belongs to.\<close>

definition hex_digit :: "nat \<Rightarrow> char" where
  "hex_digit n = ''0123456789abcdef'' ! (n mod 16)"

fun hex_digits :: "nat \<Rightarrow> string" where
  "hex_digits n = (if n < 16 then [hex_digit n] else hex_digits (n div 16) @ [hex_digit n])"

definition format_02x :: "int \<Rightarrow> string" where
  "format_02x n =
     (if n < 0 then CHR ''-'' # hex_digits (nat (- n))
      else let ds = hex_digits (nat n) in replicate (2 - length ds) CHR ''0'' @ ds)"

definition startup_request_name :: "int \<Rightarrow> string" where
  "startup_request_name selector = ''mode_data_'' @ format_02x selector"

text \<open>\<open>{0x01: LOW, 0x02: MEDIUM, 0x03: HIGH}.get(level)\<close> and the non-manual mode codes.\<close>

definition manual_level_mode :: "int option \<Rightarrow> fan_mode option" where
  "manual_level_mode level =
     (if level = Some 1 then Some LOW else if level = Some 2 then Some MEDIUM
      else if level = Some 3 then Some HIGH else None)"

definition other_mode_code :: "int option \<Rightarrow> fan_mode option" where
  "other_mode_code code =
     (if code = Some 3 then Some AUTO else if code = Some 5 then Some SLEEP
      else if code = Some 7 then Some TURBO else None)"

definition decode_h7124_startup_mode :: "int option \<Rightarrow> int option \<Rightarrow> fan_mode option" where
  "decode_h7124_startup_mode mode_code manual_level =
     (if mode_code = Some 1 then manual_level_mode manual_level
      else if manual_level \<noteq> Some 0 then None
      else other_mode_code mode_code)"

text \<open>Returns the reducer and the new cached state, which the caller stores.\<close>

definition apply_startup_fan_mode_event ::
    "int \<Rightarrow> int option \<Rightarrow> int option \<Rightarrow> int option \<Rightarrow> int option \<Rightarrow> int \<Rightarrow> string option \<Rightarrow>
     state_reducer \<Rightarrow> state_reducer \<times> purifier_state" where
  "apply_startup_fan_mode_event selector mode_code manual_level level_or_configuration
       auto_parameter gen matched r =
     (let expected = startup_request_name selector
      in if matched \<noteq> Some expected \<or>
            expected \<notin> {''mode_data_00'', ''mode_data_01'', ''mode_data_03''}
         then (r, red_state r)
         else if selector = 0x03 then
           (r\<lparr>red_generation := Some gen, red_last_auto_parameter := auto_parameter\<rparr>, red_state r)
         else if selector = 0x01 then
           (let r1 = r\<lparr>red_last_selector_01_value := level_or_configuration\<rparr>
            in if red_startup_mode_strategy r \<noteq> ''h7129_selector_pair''
               then (r1\<lparr>red_generation := Some gen\<rparr>, red_state r)
               else
                 let completes = red_awaiting_manual_level r \<and> red_generation r = Some gen;
                     r2 = r1\<lparr>red_generation := Some gen\<rparr>
                 in if \<not> completes then (r2, red_state r)
                    else
                      let mode = manual_level_mode level_or_configuration;
                          r3 = r2\<lparr>red_last_manual_level := level_or_configuration,
                                 red_awaiting_manual_level := False\<rparr>
                      in case mode of
                           None \<Rightarrow> (r3\<lparr>red_resolution := UnknownManualLevel level_or_configuration\<rparr>,
                                     (red_state r)\<lparr>ps_fan_mode := None\<rparr>)
                         | Some m \<Rightarrow> (r3\<lparr>red_resolution := Resolved m\<rparr>,
                                     (red_state r)\<lparr>ps_fan_mode := Some m\<rparr>))
         else
           (let r1 = (clear_startup_mode_partial
                  (r\<lparr>red_last_mode_code := mode_code, red_last_manual_level := manual_level\<rparr>))
                  \<lparr>red_generation := Some gen\<rparr>
            in if red_startup_mode_strategy r = ''h7124_selector_00'' then
                 let mode = decode_h7124_startup_mode mode_code manual_level
                 in (r1\<lparr>red_resolution :=
                          (case mode of None \<Rightarrow> UnknownH7124Combination mode_code manual_level
                                      | Some m \<Rightarrow> Resolved m)\<rparr>,
                     (red_state r)\<lparr>ps_fan_mode := mode\<rparr>)
               else if mode_code = Some 0x01 then
                 (r1\<lparr>red_awaiting_manual_level := True, red_resolution := AwaitingManualLevel\<rparr>,
                  (red_state r)\<lparr>ps_fan_mode := None\<rparr>)
               else
                 let mode = other_mode_code mode_code
                 in (r1\<lparr>red_resolution :=
                          (case mode of None \<Rightarrow> UnknownH7129ModeCode mode_code
                                      | Some m \<Rightarrow> Resolved m)\<rparr>,
                     (red_state r)\<lparr>ps_fan_mode := mode\<rparr>)))"

section \<open>Operations\<close>

text \<open>The \<open>isinstance\<close> chain; \<open>AssertionError\<close> is the code's \<open>assert\<close> on colour components.\<close>

definition reduce_event_state ::
    "event \<Rightarrow> int \<Rightarrow> string option \<Rightarrow> state_reducer \<Rightarrow> (state_reducer \<times> purifier_state \<times> bool) res" where
  "reduce_event_state ev gen matched r =
     (let previous = red_state r
      in case ev of
        DeviceStateEvent _ (Some on) _ _ \<Rightarrow> Inr (r, previous\<lparr>ps_power := Some on\<rparr>, False)
      | StartupFanModeEvent _ selector code level config auto \<Rightarrow>
          (let (r1, s) = apply_startup_fan_mode_event selector code level config auto gen matched r
           in Inr (r1, s, False))
      | FanModeEvent _ mode _ _ _ \<Rightarrow>
          Inr ((clear_startup_mode_partial r)\<lparr>red_resolution := SupersededByPhysicalUpdate,
                  red_generation := Some gen\<rparr>,
               previous\<lparr>ps_fan_mode := mode\<rparr>, False)
      | NightLightStateEvent _ on brightness _ _ \<Rightarrow>
          (let s1 = (case on of Some pw \<Rightarrow> previous\<lparr>ps_light_power := Some pw\<rparr>
                                 | None \<Rightarrow> previous);
               s2 = (if 1 \<le> brightness \<and> brightness \<le> 100
                     then s1\<lparr>ps_light_brightness := Some brightness\<rparr> else s1)
           in Inr (r, s2, False))
      | NightLightColorEvent _ red green blue available ack _ \<Rightarrow>
          (if available \<and> \<not> ack then
             (case (red, green, blue) of
                (Some rr, Some gg, Some bb) \<Rightarrow>
                  Inr (r, previous\<lparr>ps_light_rgb := Some (rr, gg, bb)\<rparr>, False)
              | _ \<Rightarrow> Inl AssertionError)
           else Inr (r, previous, False))
      | AirQualityEvent _ _ pm25 _ _ _ filter_life _ \<Rightarrow>
          Inr (r, previous\<lparr>ps_pm25 := pm25, ps_filter_life := Some filter_life\<rparr>, False)
      | RefreshRequestedEvent _ \<Rightarrow> Inr (r, previous, red_refresh_supported r)
      | _ \<Rightarrow> Inr (r, previous, False))"

definition reduce_event ::
    "event \<Rightarrow> int \<Rightarrow> string option \<Rightarrow> state_reducer \<Rightarrow> (state_reducer \<times> state_reduction) res" where
  "reduce_event ev gen matched r =
     res_bind (reduce_event_state ev gen matched r) (\<lambda>(r1, s, refresh).
       Inr (r1\<lparr>red_state := s\<rparr>,
            \<lparr>srd_state = s, srd_state_changed = (s \<noteq> red_state r),
             srd_refresh_requested = refresh\<rparr>))"

definition apply_confirmed_command ::
    "command \<Rightarrow> int \<Rightarrow> state_reducer \<Rightarrow> state_reducer \<times> state_reduction" where
  "apply_confirmed_command command gen r =
     (let r1 = (case command of
            SetFanMode mode \<Rightarrow>
              (clear_startup_mode_partial r)\<lparr>red_resolution := SupersededByCommandAcknowledgement,
                 red_generation := Some gen,
                 red_state := (red_state r)\<lparr>ps_fan_mode := Some mode\<rparr>\<rparr>
          | _ \<Rightarrow> r)
      in (r1, \<lparr>srd_state = red_state r1, srd_state_changed = (red_state r1 \<noteq> red_state r),
               srd_refresh_requested = False\<rparr>))"

fun command_is_satisfied :: "state_reducer \<Rightarrow> command \<Rightarrow> bool" where
  "command_is_satisfied r (SetPower on) \<longleftrightarrow> ps_power (red_state r) = Some on"
| "command_is_satisfied r (SetFanMode mode) \<longleftrightarrow> ps_fan_mode (red_state r) = Some mode"
| "command_is_satisfied r (SetNightLightPower on) \<longleftrightarrow> ps_light_power (red_state r) = Some on"
| "command_is_satisfied r (SetNightLightBrightness percent) \<longleftrightarrow>
     ps_light_brightness (red_state r) = Some percent"
| "command_is_satisfied r (SetNightLightColor _ _ _) \<longleftrightarrow> False"
| "command_is_satisfied r _ \<longleftrightarrow> False"

definition invalidate_connection :: "state_reducer \<Rightarrow> state_reducer \<times> state_reduction" where
  "invalidate_connection r =
     (let s = (red_state r)\<lparr>ps_fan_mode := None\<rparr>
      in ((clear_startup_mode_partial r)\<lparr>red_resolution := AwaitingStartupQuery, red_state := s\<rparr>,
          \<lparr>srd_state = s, srd_state_changed = (s \<noteq> red_state r),
           srd_refresh_requested = False\<rparr>))"

record startup_fan_diagnostics =
  sfd_last_mode_code :: "int option"
  sfd_last_manual_level :: "int option"
  sfd_last_selector_01_value :: "int option"
  sfd_last_auto_parameter :: "int option"
  sfd_awaiting :: bool
  sfd_resolved_mode :: "string option"
  sfd_resolution :: startup_resolution
  sfd_generation :: "int option"

definition startup_fan_diagnostics :: "state_reducer \<Rightarrow> startup_fan_diagnostics" where
  "startup_fan_diagnostics r =
     \<lparr>sfd_last_mode_code = red_last_mode_code r, sfd_last_manual_level = red_last_manual_level r,
      sfd_last_selector_01_value = red_last_selector_01_value r,
      sfd_last_auto_parameter = red_last_auto_parameter r,
      sfd_awaiting = red_awaiting_manual_level r,
      sfd_resolved_mode = map_option fan_mode_value (ps_fan_mode (red_state r)),
      sfd_resolution = red_resolution r, sfd_generation = red_generation r\<rparr>"

section \<open>Runs of the reducer\<close>

text \<open>Everything the client feeds to its reducer: a frame it received (with the request it
  answered, if any), an acknowledged command, a lost connection.\<close>

datatype reducer_input =
    ReceivedFrame bytes int "string option"
  | ConfirmedCommand command int
  | LostConnection

definition reducer_apply :: "device_profile \<Rightarrow> state_reducer \<Rightarrow> reducer_input \<Rightarrow> state_reducer res" where
  "reducer_apply p r i =
     (case i of
        ReceivedFrame f gen matched \<Rightarrow>
          res_bind (decode p f) (\<lambda>ev.
          res_bind (reduce_event ev gen matched r) (\<lambda>(r', _). Inr r'))
      | ConfirmedCommand command gen \<Rightarrow> Inr (fst (apply_confirmed_command command gen r))
      | LostConnection \<Rightarrow> Inr (fst (invalidate_connection r)))"

text \<open>An exception leaves the reducer as it was.\<close>

definition reducer_step :: "device_profile \<Rightarrow> state_reducer \<Rightarrow> reducer_input \<Rightarrow> state_reducer" where
  "reducer_step p r i = (case reducer_apply p r i of Inr r' \<Rightarrow> r' | Inl _ \<Rightarrow> r)"

definition in_byte :: "int \<Rightarrow> bool" where
  "in_byte n \<longleftrightarrow> 0 \<le> n \<and> n \<le> 255"

text \<open>The physical ranges of the cached state.\<close>

definition purifier_state_ok :: "purifier_state \<Rightarrow> bool" where
  "purifier_state_ok s \<longleftrightarrow>
     (case ps_light_brightness s of Some b \<Rightarrow> 1 \<le> b \<and> b \<le> 100 | None \<Rightarrow> True) \<and>
     (case ps_light_rgb s of Some (red, green, blue) \<Rightarrow> in_byte red \<and> in_byte green \<and> in_byte blue
                           | None \<Rightarrow> True) \<and>
     (case ps_pm25 s of Some v \<Rightarrow> 0 \<le> v \<and> v \<le> 999 | None \<Rightarrow> True) \<and>
     (case ps_filter_life s of Some v \<Rightarrow> in_byte v | None \<Rightarrow> True)"

lemma in_byte_uint [simp]: "in_byte (uint (b :: byte))"
  using uint_lt2p[of b] by (simp add: in_byte_def)

lemma purifier_state_ok_fan [simp]:
  "purifier_state_ok (s\<lparr>ps_fan_mode := m\<rparr>) = purifier_state_ok s"
  by (simp add: purifier_state_ok_def)

lemma startup_event_state:
  assumes "apply_startup_fan_mode_event sel code level config auto gen matched r = (r1, s)"
  shows "s\<lparr>ps_fan_mode := x\<rparr> = (red_state r)\<lparr>ps_fan_mode := x\<rparr>"
  using assms
  by (auto simp: apply_startup_fan_mode_event_def Let_def split: if_splits option.splits)

lemma startup_event_state_ok:
  assumes "apply_startup_fan_mode_event sel code level config auto gen matched r = (r1, s)"
  shows "purifier_state_ok s = purifier_state_ok (red_state r)"
  using startup_event_state[OF assms, of None] purifier_state_ok_fan by metis

text \<open>A decoded event carries components exactly when a colour is available.\<close>

fun event_ok :: "event \<Rightarrow> bool" where
  "event_ok (NightLightColorEvent _ red green blue available _ _) \<longleftrightarrow>
     (available \<longrightarrow> (\<exists>rr gg bb. red = Some rr \<and> green = Some gg \<and> blue = Some bb \<and>
        in_byte rr \<and> in_byte gg \<and> in_byte bb))"
| "event_ok (AirQualityEvent _ _ pm25 _ _ _ life _) \<longleftrightarrow>
     (case pm25 of Some v \<Rightarrow> 0 \<le> v \<and> v \<le> 999 | None \<Rightarrow> True) \<and> in_byte life"
| "event_ok _ \<longleftrightarrow> True"

lemma event_ok_decode_data: "event_ok (decode_data p m f)"
  using air_quality_raw_bounds
  by (simp add: decode_data_def Let_def fan_mode_event_def startup_fan_mode_event_def
      night_light_color_event_def air_quality_event_def)

lemma reduce_event_state_ok:
  assumes "event_ok ev"
  shows "\<exists>r1 s b. reduce_event_state ev gen matched r = Inr (r1, s, b) \<and>
    (purifier_state_ok (red_state r) \<longrightarrow> purifier_state_ok s)"
proof (cases ev)
  case (StartupFanModeEvent f sel code level config auto)
  obtain r1 s where a: "apply_startup_fan_mode_event sel code level config auto gen matched r = (r1, s)"
    by fastforce
  with startup_event_state_ok[OF a] show ?thesis
    by (auto simp: StartupFanModeEvent reduce_event_state_def Let_def)
next
  case (NightLightStateEvent f on b pre uns)
  show ?thesis
    by (cases on) (auto simp: NightLightStateEvent reduce_event_state_def Let_def purifier_state_ok_def)
next
  case (DeviceStateEvent f on flags vol)
  show ?thesis
    by (cases on) (auto simp: DeviceStateEvent reduce_event_state_def Let_def purifier_state_ok_def)
qed (use assms in \<open>auto simp: reduce_event_state_def Let_def purifier_state_ok_def\<close>)

lemma reduce_event_ok:
  assumes "event_ok ev"
  shows "\<exists>r' red. reduce_event ev gen matched r = Inr (r', red) \<and> srd_state red = red_state r' \<and>
    (srd_state_changed red \<longleftrightarrow> red_state r' \<noteq> red_state r) \<and>
    (purifier_state_ok (red_state r) \<longrightarrow> purifier_state_ok (red_state r'))"
  using reduce_event_state_ok[OF assms, of gen matched r] by (auto simp: reduce_event_def)

lemma reducer_apply_ok:
  assumes "reducer_apply p r i = Inr r'" and "purifier_state_ok (red_state r)"
  shows "purifier_state_ok (red_state r')"
proof (cases i)
  case (ReceivedFrame f gen matched)
  with assms(1) obtain ev red where ev: "decode p f = Inr ev"
    and r: "reduce_event ev gen matched r = Inr (r', red)" by (auto simp: reducer_apply_def)
  from ev have "event_ok ev" by (auto simp: decode_Inr event_ok_decode_data)
  from reduce_event_ok[OF this, of gen matched r] r assms(2) show ?thesis by auto
next
  case (ConfirmedCommand c gen)
  with assms show ?thesis
    by (cases c) (auto simp: reducer_apply_def apply_confirmed_command_def Let_def)
next
  case LostConnection
  with assms show ?thesis
    by (auto simp: reducer_apply_def invalidate_connection_def Let_def)
qed

interpretation reducer: step_system "reducer_step p" "\<lambda>r. purifier_state_ok (red_state r)"
  by unfold_locales (auto simp: reducer_step_def split: sum.splits dest: reducer_apply_ok)

lemma reducer_apply_raises_only_frame_errors:
  assumes "profile_model p = Inr m" and "reducer_apply p r i = Inl e"
  shows "\<exists>f gen matched. i = ReceivedFrame f gen matched \<and> \<not> is_valid_frame f \<and> is_frame_error e"
proof (cases i)
  case (ReceivedFrame f gen matched)
  show ?thesis
  proof (cases "is_valid_frame f")
    case True
    with assms(1) have d: "decode p f = Inr (decode_data p m f)" by (simp add: decode_def)
    from reduce_event_ok[OF event_ok_decode_data[of p m f], of gen matched r] assms(2) d
    show ?thesis by (auto simp: reducer_apply_def ReceivedFrame)
  next
    case False
    then obtain e' where v: "validate_frame f = Inl e'"
      by (cases "validate_frame f") (auto simp: validate_frame_Inr is_valid_frame_iff)
    with assms(2) have "e = e'" by (simp add: reducer_apply_def ReceivedFrame decode_def)
    with False ReceivedFrame validate_frame_Inl_frame_error[OF v] show ?thesis by blast
  qed
qed (use assms in \<open>simp_all add: reducer_apply_def\<close>)

section \<open>Startup assembly along a run\<close>

text \<open>The frame that opens a manual-level pair, and inputs that leave fan-mode authority alone.\<close>

definition manual_selector_input :: "device_profile \<Rightarrow> reducer_input \<Rightarrow> bool" where
  "manual_selector_input p i =
     (case i of ReceivedFrame f gen (Some req) \<Rightarrow>
        req = ''mode_data_00'' \<and>
        (case decode p f of
           Inr (StartupFanModeEvent _ sel code _ _ _) \<Rightarrow> sel = 0 \<and> code = Some 1
         | _ \<Rightarrow> False)
      | _ \<Rightarrow> False)"

definition fan_neutral_input :: "device_profile \<Rightarrow> reducer_input \<Rightarrow> bool" where
  "fan_neutral_input p i =
     (case i of
        ReceivedFrame f _ _ \<Rightarrow>
          (case decode p f of
             Inr (FanModeEvent _ _ _ _ _) \<Rightarrow> False
           | Inr (StartupFanModeEvent _ _ _ _ _ _) \<Rightarrow> False
           | _ \<Rightarrow> True)
      | ConfirmedCommand c _ \<Rightarrow> \<not> is_SetFanMode c
      | LostConnection \<Rightarrow> False)"

lemma format_02x_small [simp]:
  "format_02x 0 = ''00''" "format_02x 1 = ''01''" "format_02x 3 = ''03''"
  by (simp_all add: format_02x_def hex_digit_def)

lemma startup_request_names [simp]:
  "startup_request_name 0 = ''mode_data_00''" "startup_request_name 1 = ''mode_data_01''"
  "startup_request_name 3 = ''mode_data_03''"
  by (simp_all add: startup_request_name_def)

lemma reduce_event_fields:
  assumes "reduce_event_state ev gen matched r = Inr (r1, s, b)"
  shows "(\<not> is_StartupFanModeEvent ev \<and> \<not> is_FanModeEvent ev \<longrightarrow>
      r1 = r \<and> ps_fan_mode s = ps_fan_mode (red_state r)) \<and>
    (\<not> is_DeviceStateEvent ev \<longrightarrow> ps_power s = ps_power (red_state r)) \<and>
    (\<not> is_NightLightStateEvent ev \<longrightarrow> ps_light_power s = ps_light_power (red_state r) \<and>
      ps_light_brightness s = ps_light_brightness (red_state r)) \<and>
    (\<not> (is_NightLightColorEvent ev \<and> color_available ev \<and> \<not> acknowledgement_only ev) \<longrightarrow>
      ps_light_rgb s = ps_light_rgb (red_state r)) \<and>
    (\<not> is_AirQualityEvent ev \<longrightarrow> ps_pm25 s = ps_pm25 (red_state r) \<and>
      ps_filter_life s = ps_filter_life (red_state r)) \<and>
    (b \<longleftrightarrow> is_RefreshRequestedEvent ev \<and> red_refresh_supported r)"
proof (cases ev)
  case (StartupFanModeEvent f sel code level config auto)
  with assms obtain r0 where
    a: "apply_startup_fan_mode_event sel code level config auto gen matched r = (r0, s)"
    by (auto simp: reduce_event_state_def Let_def split: prod.splits)
  have "ps_power s = ps_power (red_state r)" "ps_light_power s = ps_light_power (red_state r)"
    "ps_light_brightness s = ps_light_brightness (red_state r)"
    "ps_light_rgb s = ps_light_rgb (red_state r)" "ps_pm25 s = ps_pm25 (red_state r)"
    "ps_filter_life s = ps_filter_life (red_state r)"
    using arg_cong[OF startup_event_state[OF a, of None], of ps_power]
      arg_cong[OF startup_event_state[OF a, of None], of ps_light_power]
      arg_cong[OF startup_event_state[OF a, of None], of ps_light_brightness]
      arg_cong[OF startup_event_state[OF a, of None], of ps_light_rgb]
      arg_cong[OF startup_event_state[OF a, of None], of ps_pm25]
      arg_cong[OF startup_event_state[OF a, of None], of ps_filter_life] by simp_all
  with assms show ?thesis
    by (simp add: StartupFanModeEvent reduce_event_state_def Let_def a)
next
  case (NightLightStateEvent f on br pre uns)
  with assms show ?thesis by (cases on) (auto simp: reduce_event_state_def Let_def)
next
  case (DeviceStateEvent f on flags vol)
  with assms show ?thesis by (cases on) (auto simp: reduce_event_state_def Let_def)
next
  case (NightLightColorEvent f red green blue av ack pre)
  with assms show ?thesis
    by (auto simp: reduce_event_state_def Let_def split: if_splits option.splits)
qed (use assms in \<open>auto simp: reduce_event_state_def Let_def\<close>)

lemma startup_event_awaiting:
  assumes "apply_startup_fan_mode_event sel code level config auto gen matched r = (r1, s)"
    and "red_awaiting_manual_level r1"
  shows "red_awaiting_manual_level r \<or>
    code = Some 1 \<and> matched = Some (startup_request_name sel) \<and> sel \<noteq> 1 \<and> sel \<noteq> 3 \<and>
      startup_request_name sel \<in> {''mode_data_00'', ''mode_data_01'', ''mode_data_03''}"
  using assms
  by (auto simp: apply_startup_fan_mode_event_def clear_startup_mode_partial_def Let_def
      split: if_splits option.splits)

text \<open>A mode code is only reported by selector zero.\<close>

lemma decode_startup_code:
  "decode p f = Inr (StartupFanModeEvent f' sel (Some code) level config auto) \<Longrightarrow> sel = 0"
  by (auto simp: decode_Inr decode_data_def Let_def fan_mode_event_def startup_fan_mode_event_def
      night_light_color_event_def air_quality_event_def split: if_splits)

lemma reducer_step_awaiting:
  assumes "red_awaiting_manual_level (reducer_step p r i)"
  shows "red_awaiting_manual_level r \<or> manual_selector_input p i"
proof (cases "reducer_apply p r i")
  case (Inl e)
  with assms show ?thesis by (simp add: reducer_step_def)
next
  case (Inr r')
  with assms have aw: "red_awaiting_manual_level r'" by (simp add: reducer_step_def)
  show ?thesis
  proof (cases i)
    case (ReceivedFrame f gen matched)
    with Inr obtain ev r1 s b where ev: "decode p f = Inr ev"
      and st: "reduce_event_state ev gen matched r = Inr (r1, s, b)"
      and r': "r' = r1\<lparr>red_state := s\<rparr>"
      by (auto simp: reducer_apply_def reduce_event_def)
    show ?thesis
    proof (cases ev)
      case (StartupFanModeEvent f' sel code level config auto)
      with st have a: "apply_startup_fan_mode_event sel code level config auto gen matched r = (r1, s)"
        by (auto simp: reduce_event_state_def Let_def split: prod.splits)
      from startup_event_awaiting[OF a] aw r' ev decode_startup_code[of p f f' sel 1 level config auto]
      show ?thesis
        by (auto simp: manual_selector_input_def ReceivedFrame StartupFanModeEvent)
    next
      case (FanModeEvent f' mode c l a)
      with st aw r' show ?thesis
        by (auto simp: reduce_event_state_def clear_startup_mode_partial_def Let_def)
    qed (use st r' aw reduce_event_fields[OF st] in auto)
  next
    case (ConfirmedCommand c gen)
    with Inr aw show ?thesis
      by (cases c) (auto simp: reducer_apply_def apply_confirmed_command_def
          clear_startup_mode_partial_def Let_def)
  next
    case LostConnection
    with Inr aw show ?thesis
      by (auto simp: reducer_apply_def invalidate_connection_def clear_startup_mode_partial_def
          Let_def)
  qed
qed

lemma reducer_run_awaiting:
  assumes "\<not> red_awaiting_manual_level r" and "\<forall>i \<in> set is. \<not> manual_selector_input p i"
  shows "\<not> red_awaiting_manual_level (foldl (reducer_step p) r is)"
  using assms by (induction "is" arbitrary: r) (auto dest: reducer_step_awaiting)

lemma fan_neutral_step:
  assumes "fan_neutral_input p i"
  shows "red_awaiting_manual_level (reducer_step p r i) = red_awaiting_manual_level r \<and>
    red_generation (reducer_step p r i) = red_generation r \<and>
    red_startup_mode_strategy (reducer_step p r i) = red_startup_mode_strategy r"
proof (cases "reducer_apply p r i")
  case (Inl e)
  then show ?thesis by (simp add: reducer_step_def)
next
  case (Inr r')
  then have step: "reducer_step p r i = r'" by (simp add: reducer_step_def)
  show ?thesis
  proof (cases i)
    case (ReceivedFrame f gen matched)
    with Inr obtain ev r1 s b where ev: "decode p f = Inr ev"
      and st: "reduce_event_state ev gen matched r = Inr (r1, s, b)"
      and r': "r' = r1\<lparr>red_state := s\<rparr>"
      by (auto simp: reducer_apply_def reduce_event_def)
    from assms ev have "\<not> is_StartupFanModeEvent ev \<and> \<not> is_FanModeEvent ev"
      by (cases ev) (auto simp: fan_neutral_input_def ReceivedFrame)
    with reduce_event_fields[OF st] r' step show ?thesis by simp
  next
    case (ConfirmedCommand c gen)
    with assms Inr step show ?thesis
      by (cases c) (auto simp: fan_neutral_input_def reducer_apply_def apply_confirmed_command_def
          Let_def)
  next
    case LostConnection
    with assms show ?thesis by (simp add: fan_neutral_input_def)
  qed
qed

lemma fan_neutral_run:
  assumes "\<forall>i \<in> set is. fan_neutral_input p i"
  shows "red_awaiting_manual_level (foldl (reducer_step p) r is) = red_awaiting_manual_level r \<and>
    red_generation (foldl (reducer_step p) r is) = red_generation r \<and>
    red_startup_mode_strategy (foldl (reducer_step p) r is) = red_startup_mode_strategy r"
  using assms by (induction "is" arbitrary: r) (auto simp: fan_neutral_step)

lemma reducer_step_startup:
  assumes "decode p f = Inr (StartupFanModeEvent f' sel code level config auto)"
  shows "reducer_step p r (ReceivedFrame f gen matched) =
    (fst (apply_startup_fan_mode_event sel code level config auto gen matched r))
      \<lparr>red_state := snd (apply_startup_fan_mode_event sel code level config auto gen matched r)\<rparr>"
  using assms
  by (simp add: reducer_step_def reducer_apply_def reduce_event_def reduce_event_state_def Let_def
      split_beta)

lemma selector_01_not_awaiting:
  assumes "\<not> red_awaiting_manual_level r"
  shows "snd (apply_startup_fan_mode_event 1 code level config auto gen matched r) = red_state r"
  using assms by (simp add: apply_startup_fan_mode_event_def Let_def)

lemma selector_01_awaiting:
  assumes "red_awaiting_manual_level r" and "red_generation r = Some gen"
    and "red_startup_mode_strategy r = ''h7129_selector_pair''"
  shows "snd (apply_startup_fan_mode_event 1 code level config auto gen (Some ''mode_data_01'') r) =
    (red_state r)\<lparr>ps_fan_mode := manual_level_mode config\<rparr>"
  using assms by (auto simp: apply_startup_fan_mode_event_def Let_def split: option.split)

lemma selector_00_manual:
  assumes "red_startup_mode_strategy r \<noteq> ''h7124_selector_00''"
  shows "red_awaiting_manual_level (fst
      (apply_startup_fan_mode_event 0 (Some 1) level config auto gen (Some ''mode_data_00'') r))"
    "red_generation (fst
      (apply_startup_fan_mode_event 0 (Some 1) level config auto gen (Some ''mode_data_00'') r)) =
      Some gen"
    "red_startup_mode_strategy (fst
      (apply_startup_fan_mode_event 0 (Some 1) level config auto gen (Some ''mode_data_00'') r)) =
      red_startup_mode_strategy r"
  using assms
  by (simp_all add: apply_startup_fan_mode_event_def clear_startup_mode_partial_def Let_def)

section \<open>Properties\<close>

text \<open>The commands whose success the device reports by a state notification.\<close>

definition reports_state :: "model \<Rightarrow> command \<Rightarrow> bool" where
  "reports_state m cmd =
     (case cmd of SetPower _ \<Rightarrow> True | SetFanMode _ \<Rightarrow> True
      | SetNightLightPower _ \<Rightarrow> m \<notin> {H7123, H712C}
      | SetNightLightBrightness _ \<Rightarrow> m \<notin> {H7123, H712C}
      | _ \<Rightarrow> False)"

lemma satisfied_by_report:
  assumes "command_request g cmd name = Inr d"
    and "matcher_feed (new_response_matcher d) f = Inr (m', COMPLETE)"
    and "profile_model (gp_profile g) = Inr m" and "reports_state m cmd"
    and "\<And>c. map_of (pr_commands (protocol (gp_profile g))) ''fan_mode'' = Some c \<Longrightarrow>
           length (cd_prefix c) = 2"
    and "is_SetFanMode cmd \<Longrightarrow> f \<noteq> dsc_frame d"
  shows "\<exists>ev r' red. gp_decode g f = Inr ev \<and> reduce_event ev gen matched r = Inr (r', red) \<and>
    command_is_satisfied r' cmd"
proof (cases cmd)
  case (SetPower on)
  with power_response_decodes[OF assms(1)[unfolded SetPower] assms(2,3)] show ?thesis
    by (auto simp: reduce_event_def reduce_event_state_def)
next
  case (SetFanMode mode)
  with fan_notification_decodes[OF assms(1)[unfolded SetFanMode] assms(5) assms(2)] assms(6)
  show ?thesis by (auto simp: reduce_event_def reduce_event_state_def Let_def)
next
  case (SetNightLightPower on)
  with light_response_decodes[OF assms(1) _ assms(2,3), of on] assms(4) show ?thesis
    by (auto simp: reports_state_def reduce_event_def reduce_event_state_def Let_def)
next
  case (SetNightLightBrightness pc)
  with command_request_Inr(1)[OF assms(1)] have "1 \<le> pc" "pc \<le> 100"
    by (auto simp: gp_encode_def split: if_splits)
  with light_response_decodes[OF assms(1) _ assms(2,3), where percent = pc] assms(4)
    SetNightLightBrightness show ?thesis
    by (auto simp: reports_state_def reduce_event_def reduce_event_state_def Let_def
        split: option.split)
qed (use assms(4) in \<open>simp_all add: reports_state_def\<close>)

text \<open>C1. A completed command transaction establishes the commanded state: whenever a frame
  completes the transaction of a power, fan-mode, night-light power or brightness command,
  reducing that very frame makes the cached state satisfy the command; when the completing
  frame is the byte-for-byte acknowledgement of a fan-mode request, the acknowledgement step
  does.\<close>

theorem completed_transaction_satisfies_command:
  assumes "command_request g cmd name = Inr d"
    and "matcher_feed (new_response_matcher d) f = Inr (m', COMPLETE)"
    and "profile_model (gp_profile g) = Inr m" and "reports_state m cmd"
    and "map_of (pr_commands (protocol (gp_profile g))) ''fan_mode'' = Some c"
    and "length (cd_prefix c) = 2"
  shows "\<exists>ev r' red. gp_decode g f = Inr ev \<and> reduce_event ev gen matched r = Inr (r', red) \<and>
    (if is_SetFanMode cmd \<and> f = dsc_frame d
     then command_is_satisfied (fst (apply_confirmed_command cmd gen r')) cmd
     else command_is_satisfied r' cmd)"
proof (cases "is_SetFanMode cmd \<and> f = dsc_frame d")
  case True
  from True command_request_Inr(2)[OF assms(1)] have "is_valid_frame f" by simp
  with assms(3) have dec: "gp_decode g f = Inr (decode_data (gp_profile g) m f)"
    by (simp add: gp_decode_def decode_def)
  from True obtain mode where "cmd = SetFanMode mode" by (cases cmd) auto
  with dec True reduce_event_ok[OF event_ok_decode_data[of "gp_profile g" m f], of gen matched r]
  show ?thesis by (auto simp: apply_confirmed_command_def Let_def)
next
  case False
  have "length (cd_prefix x) = 2"
    if "map_of (pr_commands (protocol (gp_profile g))) ''fan_mode'' = Some x" for x
    using that assms(5,6) by simp
  from satisfied_by_report[OF assms(1-4) this] False show ?thesis by auto
qed

theorem completed_transaction_satisfies_command_witness:
  "\<exists>ev r' red. gp_decode \<lparr>gp_profile = h7124_profile, gp_requests = []\<rparr>
       ([0xAA, 0x01, 0x01] @ replicate 16 0 @ [0xAA]) = Inr ev \<and>
     reduce_event ev 3 None (new_state_reducer h7124_profile) = Inr (r', red) \<and>
     (if is_SetFanMode (SetPower True) \<and>
         [0xAA, 0x01, 0x01] @ replicate 16 0 @ [0xAA] =
           [0x33, 0x01, 0x01] @ replicate 16 0 @ [0x33]
      then command_is_satisfied (fst (apply_confirmed_command (SetPower True) 3 r')) (SetPower True)
      else command_is_satisfied r' (SetPower True))"
proof -
  let ?g = "\<lparr>gp_profile = h7124_profile, gp_requests = []\<rparr>"
  let ?f = "[0xAA, 0x01, 0x01] @ replicate 16 0 @ [0xAA] :: bytes"
  let ?r = "[0x33, 0x01, 0x01] @ replicate 16 0 @ [0x33] :: bytes"
  let ?d = "\<lparr>dsc_name = ''SetPower'', dsc_frame = ?r,
             dsc_response = command_response ?g (SetPower True) ?r\<rparr>"
  have 1: "command_request ?g (SetPower True) None = Inr ?d" by code_simp
  have 2: "matcher_feed (new_response_matcher ?d) ?f =
      Inr ((new_response_matcher ?d)\<lparr>mt_frames := [?f], mt_complete := True\<rparr>, COMPLETE)"
    by code_simp
  have 3: "map_of (pr_commands (protocol (gp_profile ?g))) ''fan_mode'' =
      Some \<lparr>cd_strategy = ''fan_mode_v1'', cd_prefix = [0x3A, 0x05]\<rparr>" by simp
  have 4: "profile_model (gp_profile ?g) = Inr H7124" by simp
  have 5: "reports_state H7124 (SetPower True)" by (simp add: reports_state_def)
  show ?thesis
    using completed_transaction_satisfies_command[OF 1 2 4 5 3, of 3 None
        "new_state_reducer h7124_profile"] by simp
qed

text \<open>Each decoded event has authority over its own fields only: power comes from device-state
  frames, the fan mode from fan-mode frames (never from the generic device state), light power
  and brightness from night-light state, colour from a colour report that is neither the
  value-less form nor an acknowledgement, air quality and filter life from air-quality frames;
  a refresh is requested exactly for a refresh request on a profile that supports it; and the
  change flag is set exactly when the cached state changed.\<close>

theorem event_authority:
  assumes "reduce_event ev gen matched r = Inr (r', red)"
  shows "(is_StartupFanModeEvent ev \<or> is_FanModeEvent ev \<or>
      ps_fan_mode (red_state r') = ps_fan_mode (red_state r)) \<and>
    (is_DeviceStateEvent ev \<or> ps_power (red_state r') = ps_power (red_state r)) \<and>
    (is_NightLightStateEvent ev \<or>
      ps_light_power (red_state r') = ps_light_power (red_state r) \<and>
      ps_light_brightness (red_state r') = ps_light_brightness (red_state r)) \<and>
    (is_NightLightColorEvent ev \<and> color_available ev \<and> \<not> acknowledgement_only ev \<or>
      ps_light_rgb (red_state r') = ps_light_rgb (red_state r)) \<and>
    (is_AirQualityEvent ev \<or> ps_pm25 (red_state r') = ps_pm25 (red_state r) \<and>
      ps_filter_life (red_state r') = ps_filter_life (red_state r)) \<and>
    srd_refresh_requested red = (is_RefreshRequestedEvent ev \<and> red_refresh_supported r) \<and>
    srd_state red = red_state r' \<and>
    srd_state_changed red = (red_state r' \<noteq> red_state r)"
proof -
  from assms obtain r1 s b where st: "reduce_event_state ev gen matched r = Inr (r1, s, b)"
    and r: "r' = r1\<lparr>red_state := s\<rparr>"
      "red = \<lparr>srd_state = s, srd_state_changed = (s \<noteq> red_state r), srd_refresh_requested = b\<rparr>"
    by (auto simp: reduce_event_def)
  from reduce_event_fields[OF st] r show ?thesis by auto
qed

theorem event_authority_witness:
  "\<exists>r' red. reduce_event (NightLightColorEvent [] None None None False False 0xAA) 1 None
      (new_state_reducer h7129_profile) = Inr (r', red) \<and>
    ps_light_rgb (red_state r') = ps_light_rgb (red_state (new_state_reducer h7129_profile))"
proof -
  let ?ev = "NightLightColorEvent [] None None None False False 0xAA"
  obtain r' red where "reduce_event ?ev 1 None (new_state_reducer h7129_profile) = Inr (r', red)"
    by (auto simp: reduce_event_def reduce_event_state_def Let_def)
  with event_authority[OF this] show ?thesis by auto
qed

text \<open>C31. The cached state always stays in its physical ranges and reduction never fails: from a
  fresh reducer, after any sequence of received frames, acknowledged commands and lost
  connections, brightness is 1 to 100, colour components and filter life are bytes and PM2.5 is
  0 to 999, and a further input is refused only when it is a frame the validator refuses.\<close>

theorem reducer_run_stays_physical:
  assumes "profile_model p = Inr m"
  shows "purifier_state_ok (red_state (foldl (reducer_step p) (new_state_reducer p) is)) \<and>
    (case reducer_apply p (foldl (reducer_step p) (new_state_reducer p) is) i of
       Inr r' \<Rightarrow> purifier_state_ok (red_state r')
     | Inl e \<Rightarrow> is_frame_error e \<and>
         (\<exists>f gen matched. i = ReceivedFrame f gen matched \<and> \<not> is_valid_frame f))"
proof -
  let ?r = "foldl (reducer_step p) (new_state_reducer p) is"
  have "purifier_state_ok (red_state (new_state_reducer p))"
    by (simp add: new_state_reducer_def purifier_state_ok_def empty_purifier_state_def)
  then have ok: "purifier_state_ok (red_state ?r)" by (rule reducer.run_inv)
  then show ?thesis
    using reducer_apply_raises_only_frame_errors[OF assms, of ?r i] reducer_apply_ok[of p ?r i]
    by (auto split: sum.split)
qed

theorem reducer_run_stays_physical_witness:
  "purifier_state_ok (red_state (foldl (reducer_step h7124_profile) (new_state_reducer h7124_profile)
      [LostConnection])) \<and>
    (case reducer_apply h7124_profile (foldl (reducer_step h7124_profile)
        (new_state_reducer h7124_profile) [LostConnection]) (ReceivedFrame [] 1 None) of
       Inr r' \<Rightarrow> purifier_state_ok (red_state r')
     | Inl e \<Rightarrow> is_frame_error e \<and>
         (\<exists>f gen matched. ReceivedFrame [] 1 None = ReceivedFrame f gen matched \<and> \<not> is_valid_frame f))"
  by (rule reducer_run_stays_physical[where m = H7124]) simp

text \<open>A startup manual level is never taken without its selector frame from the same
  connection: after the connection was invalidated, as long as no selector-zero frame with the
  manual mode code has answered its request, a selector-one frame leaves the cached state
  untouched.\<close>

theorem startup_level_needs_manual_selector:
  assumes "\<forall>i \<in> set is. \<not> manual_selector_input p i"
    and "decode p f = Inr (StartupFanModeEvent f 1 None None config auto)"
  shows "red_state (reducer_step p (foldl (reducer_step p) (fst (invalidate_connection r)) is)
      (ReceivedFrame f gen matched)) =
    red_state (foldl (reducer_step p) (fst (invalidate_connection r)) is)"
proof -
  let ?r = "foldl (reducer_step p) (fst (invalidate_connection r)) is"
  have "\<not> red_awaiting_manual_level ?r"
    by (rule reducer_run_awaiting[OF _ assms(1)])
      (simp add: invalidate_connection_def clear_startup_mode_partial_def Let_def)
  from selector_01_not_awaiting[OF this, of None None config auto gen matched] assms(2)
  show ?thesis by (simp add: reducer_step_startup)
qed

theorem startup_level_needs_manual_selector_witness:
  "red_state (reducer_step h7129_profile
      (foldl (reducer_step h7129_profile)
        (fst (invalidate_connection (new_state_reducer h7129_profile))) [])
      (ReceivedFrame ([0xAA, 0x05, 0x01, 0x03] @ replicate 15 0 @ [0xAD]) 4 (Some ''mode_data_01''))) =
    red_state (foldl (reducer_step h7129_profile)
      (fst (invalidate_connection (new_state_reducer h7129_profile))) [])"
proof (rule startup_level_needs_manual_selector)
  show "\<forall>i \<in> set []. \<not> manual_selector_input h7129_profile i" by simp
  show "decode h7129_profile ([0xAA, 0x05, 0x01, 0x03] @ replicate 15 0 @ [0xAD]) =
    Inr (StartupFanModeEvent ([0xAA, 0x05, 0x01, 0x03] @ replicate 15 0 @ [0xAD]) 1 None None
      (Some 3) None)" by code_simp
qed

text \<open>The two halves of the startup answer resolve to the reported mode: on a profile with the
  selector-pair strategy, a manual selector-zero answer followed, within one connection and with
  anything but fan-mode frames in between, by a selector-one answer sets the fan mode to the
  level it reports, and to unknown for an undocumented level.\<close>

theorem startup_pair_resolves_mode:
  assumes "startup_mode_strategy (protocol p) = ''h7129_selector_pair''"
    and "red_startup_mode_strategy r = startup_mode_strategy (protocol p)"
    and "decode p f0 = Inr (StartupFanModeEvent f0 0 (Some 1) level c0 a0)"
    and "decode p f1 = Inr (StartupFanModeEvent f1 1 c1 l1 config a1)"
    and "\<forall>i \<in> set is. fan_neutral_input p i"
  shows "ps_fan_mode (red_state (foldl (reducer_step p) r
      (ReceivedFrame f0 gen (Some ''mode_data_00'') # is @
        [ReceivedFrame f1 gen (Some ''mode_data_01'')]))) = manual_level_mode config"
proof -
  let ?r0 = "reducer_step p r (ReceivedFrame f0 gen (Some ''mode_data_00''))"
  let ?r1 = "foldl (reducer_step p) ?r0 is"
  have s: "red_startup_mode_strategy r \<noteq> ''h7124_selector_00''" using assms(1,2) by simp
  have "red_awaiting_manual_level ?r0" "red_generation ?r0 = Some gen"
    "red_startup_mode_strategy ?r0 = ''h7129_selector_pair''"
    using selector_00_manual[OF s, of level c0 a0 gen] assms(1,2)
    by (simp_all add: reducer_step_startup[OF assms(3)])
  with fan_neutral_run[OF assms(5), of ?r0]
  have "red_awaiting_manual_level ?r1" "red_generation ?r1 = Some gen"
    "red_startup_mode_strategy ?r1 = ''h7129_selector_pair''" by simp_all
  from selector_01_awaiting[OF this, of c1 l1 config a1] show ?thesis
    by (simp add: reducer_step_startup[OF assms(4)])
qed

theorem startup_pair_resolves_mode_witness:
  "ps_fan_mode (red_state (foldl (reducer_step h7129_profile) (new_state_reducer h7129_profile)
      (ReceivedFrame ([0xAA, 0x05, 0x00, 0x01] @ replicate 15 0 @ [0xAE]) 4 (Some ''mode_data_00'') #
        [] @
        [ReceivedFrame ([0xAA, 0x05, 0x01, 0x03] @ replicate 15 0 @ [0xAD]) 4
          (Some ''mode_data_01'')]))) = manual_level_mode (Some 3)"
proof (rule startup_pair_resolves_mode)
  show "startup_mode_strategy (protocol h7129_profile) = ''h7129_selector_pair''"
    by (simp add: h7129_protocol_def)
  show "red_startup_mode_strategy (new_state_reducer h7129_profile) =
    startup_mode_strategy (protocol h7129_profile)" by (simp add: new_state_reducer_def)
  show "decode h7129_profile ([0xAA, 0x05, 0x00, 0x01] @ replicate 15 0 @ [0xAE]) =
    Inr (StartupFanModeEvent ([0xAA, 0x05, 0x00, 0x01] @ replicate 15 0 @ [0xAE]) 0 (Some 1) (Some 0)
      None None)" by code_simp
  show "decode h7129_profile ([0xAA, 0x05, 0x01, 0x03] @ replicate 15 0 @ [0xAD]) =
    Inr (StartupFanModeEvent ([0xAA, 0x05, 0x01, 0x03] @ replicate 15 0 @ [0xAD]) 1 None None
      (Some 3) None)" by code_simp
qed simp

end
