(* ===== verification/Json_Values.thy ===== *)
theory Json_Values
  imports Govee_Prelude
begin

text \<open>
  Untyped values, as options, profiles and stored data reach the code: decoded JSON.  A Python
  \<open>bool\<close> is an \<open>int\<close> to \<open>isinstance\<close>; every check of the code excludes it explicitly, so
  booleans and integers are separate constructors here.  An object keeps its keys in order.
\<close>

datatype json =
    JNull
  | JBool bool
  | JInt int
  | JFloat rat
  | JString string
  | JArray "json list"
  | JObject "(string \<times> json) list"

type_synonym jobject = "(string \<times> json) list"

text \<open>\<open>raw.get(key)\<close> and \<open>raw.get(key, default)\<close>; \<open>None\<close> is \<open>JNull\<close>.\<close>

definition jget :: "jobject \<Rightarrow> string \<Rightarrow> json" where
  "jget d k = (case map_of d k of Some v \<Rightarrow> v | None \<Rightarrow> JNull)"

definition jget_default :: "jobject \<Rightarrow> string \<Rightarrow> json \<Rightarrow> json" where
  "jget_default d k v = (case map_of d k of Some x \<Rightarrow> x | None \<Rightarrow> v)"

text \<open>\<open>d[key]\<close> on a decoded object.\<close>

definition jitem :: "jobject \<Rightarrow> string \<Rightarrow> json res" where
  "jitem d k = (case map_of d k of Some x \<Rightarrow> Inr x | None \<Rightarrow> Inl KeyError)"

lemma jget_default_None [simp]: "map_of d k = None \<Longrightarrow> jget_default d k v = v"
  by (simp add: jget_default_def)

lemma jget_default_Some [simp]: "map_of d k = Some x \<Longrightarrow> jget_default d k v = x"
  by (simp add: jget_default_def)

end
