(* ===== verification/Auto_Options.thy ===== *)
theory Auto_Options
  imports Json_Values Shipped_Profiles
begin

text \<open>
  Typed Custom Auto options (\<open>custom_auto_options.py\<close>): parsing stored or submitted values, with
  every absent setting taken from the profile's defaults.
\<close>

section \<open>Options and their parser\<close>

definition CONF_CUSTOM_AUTO_ENABLED :: string where
  "CONF_CUSTOM_AUTO_ENABLED = ''custom_auto_enabled''"

definition CONF_CUSTOM_AUTO_PM25_BOUNDARIES :: string where
  "CONF_CUSTOM_AUTO_PM25_BOUNDARIES = ''custom_auto_pm25_boundaries''"

definition CONF_CUSTOM_AUTO_UPSHIFT_CONFIRMATION_SECONDS :: string where
  "CONF_CUSTOM_AUTO_UPSHIFT_CONFIRMATION_SECONDS = ''custom_auto_upshift_confirmation_seconds''"

definition CONF_CUSTOM_AUTO_DOWNSHIFT_DELAYS_MINUTES :: string where
  "CONF_CUSTOM_AUTO_DOWNSHIFT_DELAYS_MINUTES = ''custom_auto_downshift_delays_minutes''"

record custom_auto_options =
  ao_enabled :: bool
  ao_modes :: "fan_mode list"
  ao_pm25_boundaries :: "int list"
  ao_upshift_seconds :: int
  ao_downshift_minutes :: "int list"

definition options_integer :: "json \<Rightarrow> int \<Rightarrow> int res" where
  "options_integer value maximum =
     (case value of
        JInt n \<Rightarrow> if \<not> (0 \<le> n \<and> n \<le> maximum) then Inl (CustomAutoOptionsError OptOutOfRange)
                  else Inr n
      | _ \<Rightarrow> Inl (CustomAutoOptionsError OptNotInteger))"

definition four_integers :: "json \<Rightarrow> int \<Rightarrow> int list res" where
  "four_integers value maximum =
     (case value of
        JArray items \<Rightarrow>
          if length items \<noteq> 4 then Inl (CustomAutoOptionsError OptNotFourValues)
          else res_map_list (\<lambda>item. options_integer item maximum) items
      | _ \<Rightarrow> Inl (CustomAutoOptionsError OptNotFourValues))"

text \<open>\<open>any(left >= right for left, right in zip(xs, xs[1:]))\<close>, negated.\<close>

fun strictly_ascending :: "int list \<Rightarrow> bool" where
  "strictly_ascending (x # y # zs) \<longleftrightarrow> x < y \<and> strictly_ascending (y # zs)"
| "strictly_ascending _ \<longleftrightarrow> True"

definition parse_custom_auto_options :: "jobject \<Rightarrow> custom_auto_defaults \<Rightarrow> custom_auto_options res" where
  "parse_custom_auto_options raw defaults =
     (case jget_default raw CONF_CUSTOM_AUTO_ENABLED (JBool False) of
        JBool enabled \<Rightarrow>
          res_bind (four_integers
              (jget_default raw CONF_CUSTOM_AUTO_PM25_BOUNDARIES
                (JArray (map JInt (cad_pm25_boundaries defaults)))) 999) (\<lambda>boundaries.
          if \<not> strictly_ascending boundaries
          then Inl (CustomAutoOptionsError OptNotAscending)
          else res_bind (options_integer
              (jget_default raw CONF_CUSTOM_AUTO_UPSHIFT_CONFIRMATION_SECONDS
                (JInt (cad_upshift_confirmation_seconds defaults))) 300) (\<lambda>upshift.
          res_bind (four_integers
              (jget_default raw CONF_CUSTOM_AUTO_DOWNSHIFT_DELAYS_MINUTES
                (JArray (map JInt (cad_downshift_delays_minutes defaults)))) 1440) (\<lambda>downshifts.
            Inr \<lparr>ao_enabled = enabled, ao_modes = cad_modes defaults,
                 ao_pm25_boundaries = boundaries, ao_upshift_seconds = upshift,
                 ao_downshift_minutes = downshifts\<rparr>)))
      | _ \<Rightarrow> Inl (CustomAutoOptionsError OptNotBoolean))"

section \<open>Well-formed options\<close>

definition SPEED_MODES :: "fan_mode list" where
  "SPEED_MODES = [SLEEP, LOW, MEDIUM, HIGH, TURBO]"

definition options_wf :: "custom_auto_options \<Rightarrow> bool" where
  "options_wf opts \<longleftrightarrow>
     ao_modes opts = SPEED_MODES \<and>
     length (ao_pm25_boundaries opts) = 4 \<and> strictly_ascending (ao_pm25_boundaries opts) \<and>
     (\<forall>b \<in> set (ao_pm25_boundaries opts). 0 \<le> b \<and> b \<le> 999) \<and>
     0 \<le> ao_upshift_seconds opts \<and> ao_upshift_seconds opts \<le> 300 \<and>
     length (ao_downshift_minutes opts) = 4 \<and>
     (\<forall>d \<in> set (ao_downshift_minutes opts). 0 \<le> d \<and> d \<le> 1440)"

lemma options_integer_Inr: "options_integer v n = Inr k \<longleftrightarrow> v = JInt k \<and> 0 \<le> k \<and> k \<le> n"
  by (auto simp: options_integer_def split: json.splits)

lemma options_integer_Inl: "options_integer v n = Inl e \<Longrightarrow> \<exists>f. e = CustomAutoOptionsError f"
  by (auto simp: options_integer_def split: json.splits if_splits)

lemma options_integer_map:
  "\<forall>k \<in> set ks. 0 \<le> k \<and> k \<le> n \<Longrightarrow> res_map_list (\<lambda>item. options_integer item n) (map JInt ks) = Inr ks"
  by (induction ks) (auto simp: options_integer_def)

lemma options_integer_map_Inr:
  "res_map_list (\<lambda>item. options_integer item n) vs = Inr ks \<longleftrightarrow>
     vs = map JInt ks \<and> (\<forall>k \<in> set ks. 0 \<le> k \<and> k \<le> n)"
proof (induction vs arbitrary: ks)
  case Nil
  then show ?case by auto
next
  case (Cons v vs)
  then show ?case by (cases ks) (auto simp: options_integer_Inr)
qed

lemma options_integer_map_Inl:
  "res_map_list (\<lambda>item. options_integer item n) vs = Inl e \<Longrightarrow> \<exists>f. e = CustomAutoOptionsError f"
  by (induction vs) (auto dest: options_integer_Inl)

lemma four_integers_Inr:
  "four_integers v n = Inr ks \<longleftrightarrow>
     v = JArray (map JInt ks) \<and> length ks = 4 \<and> (\<forall>k \<in> set ks. 0 \<le> k \<and> k \<le> n)"
  by (auto simp: four_integers_def options_integer_map_Inr options_integer_map split: json.splits)

lemma four_integers_Inl: "four_integers v n = Inl e \<Longrightarrow> \<exists>f. e = CustomAutoOptionsError f"
  by (auto simp: four_integers_def split: json.splits if_splits dest: options_integer_map_Inl)

lemma strictly_ascending_sorted: "strictly_ascending xs \<longleftrightarrow> sorted_wrt (<) xs"
proof (induction xs rule: strictly_ascending.induct)
  case (1 x y zs)
  then show ?case by (auto intro: order.strict_trans)
qed auto

text \<open>The options in effect when nothing is stored.\<close>

definition default_options :: "custom_auto_defaults \<Rightarrow> custom_auto_options" where
  "default_options d =
     \<lparr>ao_enabled = False, ao_modes = cad_modes d, ao_pm25_boundaries = cad_pm25_boundaries d,
      ao_upshift_seconds = cad_upshift_confirmation_seconds d,
      ao_downshift_minutes = cad_downshift_delays_minutes d\<rparr>"

lemma default_options_parse:
  assumes "options_wf (default_options d)"
  shows "parse_custom_auto_options [] d = Inr (default_options d)"
proof -
  from assms have "four_integers (JArray (map JInt (cad_pm25_boundaries d))) 999 =
      Inr (cad_pm25_boundaries d)"
    "four_integers (JArray (map JInt (cad_downshift_delays_minutes d))) 1440 =
      Inr (cad_downshift_delays_minutes d)"
    "options_integer (JInt (cad_upshift_confirmation_seconds d)) 300 =
      Inr (cad_upshift_confirmation_seconds d)"
    by (simp_all add: options_wf_def default_options_def four_integers_Inr options_integer_Inr)
  with assms show ?thesis
    by (simp add: parse_custom_auto_options_def options_wf_def default_options_def)
qed

section \<open>Properties\<close>

text \<open>Whatever is stored or submitted, parsing Custom Auto options either raises the options
  error or returns well-formed options: exactly four strictly ascending PM2.5 boundaries from 0
  to 999, four delays from 0 to 1440 minutes and an up-shift confirmation from 0 to 300 seconds.
  Absent settings come from the profile, so a valid default set parses from an empty store.\<close>

theorem parsed_options_wf:
  assumes "cad_modes defaults = SPEED_MODES"
  shows "(case parse_custom_auto_options raw defaults of
       Inr opts \<Rightarrow> options_wf opts
     | Inl e \<Rightarrow> \<exists>f. e = CustomAutoOptionsError f) \<and>
    (options_wf (default_options defaults) \<longrightarrow>
      parse_custom_auto_options [] defaults = Inr (default_options defaults))"
proof -
  have "case parse_custom_auto_options raw defaults of
       Inr opts \<Rightarrow> options_wf opts | Inl e \<Rightarrow> \<exists>f. e = CustomAutoOptionsError f"
  proof (cases "parse_custom_auto_options raw defaults")
    case (Inl e)
    then show ?thesis
      by (auto simp: parse_custom_auto_options_def split: json.splits if_splits
          dest!: four_integers_Inl options_integer_Inl)
  next
    case (Inr opts)
    then show ?thesis using assms
      by (auto simp: parse_custom_auto_options_def four_integers_Inr options_integer_Inr
          options_wf_def split: json.splits if_splits)
  qed
  with default_options_parse[of defaults] show ?thesis by blast
qed

text \<open>The options of a shipped profile, used by the witnesses that need some.\<close>

definition shipped_options :: custom_auto_options where
  "shipped_options =
     \<lparr>ao_enabled = True, ao_modes = [SLEEP, LOW, MEDIUM, HIGH, TURBO],
      ao_pm25_boundaries = [3, 5, 9, 15], ao_upshift_seconds = 3,
      ao_downshift_minutes = [7, 5, 5, 5]\<rparr>"

lemma shipped_options_wf [simp]: "options_wf shipped_options"
  by (simp add: options_wf_def shipped_options_def SPEED_MODES_def)

theorem parsed_options_wf_witness:
  "case parse_custom_auto_options [(''custom_auto_enabled'', JBool True)] shipped_custom_auto_defaults of
       Inr opts \<Rightarrow> options_wf opts
     | Inl e \<Rightarrow> \<exists>f. e = CustomAutoOptionsError f"
  using parsed_options_wf[of shipped_custom_auto_defaults]
  by (simp add: shipped_custom_auto_defaults_def SPEED_MODES_def)

end
