(* ===== verification/Auto_Policy.thy ===== *)
theory Auto_Policy
  imports Auto_Options
begin

text \<open>
  The Custom Auto hysteresis policy (\<open>custom_auto_policy.py\<close>): a pure state machine over fresh
  PM2.5 revisions, timer boundaries and command outcomes.  Results are exceptions or values, so
  that indexing by a level is the code's indexing; the invariant \<open>policy_inv\<close> shows it never
  fails.  Revisions increase strictly; a level is the one-based position in the mode list.
\<close>

section \<open>State\<close>

record upshift_confirmation =
  uc_revision :: int
  uc_started_at :: time
  uc_sample_requested :: bool

record downshift_dwell =
  dw_target_level :: int
  dw_revision :: int
  dw_started_at :: time
  dw_sample_requested :: bool

record deferred_observation =
  df_pm25 :: int
  df_revision :: int
  df_observed_at :: time

record policy_state =
  po_confirmed_level :: "int option"
  po_last_revision :: "int option"
  po_upshift :: "upshift_confirmation option"
  po_downshifts :: "downshift_dwell list"
  po_pending_target :: "fan_mode option"
  po_deferred :: "deferred_observation option"
  po_failed_revision :: "int option"
  po_failed_level :: "int option"

record policy_result =
  pr_state :: policy_state
  pr_target :: "fan_mode option"
  pr_request_sample :: bool
  pr_next_boundary_at :: "time option"

section \<open>Levels\<close>

text \<open>\<open>tuple.index\<close>\<close>

fun py_index :: "'a list \<Rightarrow> 'a \<Rightarrow> int res" where
  "py_index [] y = Inl ValueError"
| "py_index (x # xs) y = (if x = y then Inr 0 else res_bind (py_index xs y) (\<lambda>i. Inr (i + 1)))"

definition level_for_mode :: "fan_mode option \<Rightarrow> custom_auto_options \<Rightarrow> int option res" where
  "level_for_mode mode opts =
     (case mode of
        None \<Rightarrow> Inr None
      | Some m \<Rightarrow>
          if m = AUTO then Inr None
          else res_bind (py_index (ao_modes opts) m) (\<lambda>i. Inr (Some (i + 1))))"

text \<open>The binary search of \<open>bisect.bisect_left\<close>.\<close>

function bisect_left_loop :: "int list \<Rightarrow> int \<Rightarrow> nat \<Rightarrow> nat \<Rightarrow> nat" where
  "bisect_left_loop xs x lo hi =
     (if lo < hi then
        (let mid = (lo + hi) div 2
         in if xs ! mid < x then bisect_left_loop xs x (mid + 1) hi
            else bisect_left_loop xs x lo mid)
      else lo)"
  by pat_completeness auto

termination
  by (relation "measure (\<lambda>(xs, x, lo, hi). hi - lo)") auto

declare bisect_left_loop.simps [simp del]

definition bisect_left :: "int list \<Rightarrow> int \<Rightarrow> int" where
  "bisect_left xs x = int (bisect_left_loop xs x 0 (length xs))"

definition level_for_pm25 :: "int \<Rightarrow> custom_auto_options \<Rightarrow> int res" where
  "level_for_pm25 pm25 opts =
     (if \<not> (0 \<le> pm25 \<and> pm25 \<le> 999) then Inl ValueError
      else Inr (bisect_left (ao_pm25_boundaries opts) pm25 + 1))"

section \<open>Timers\<close>

text \<open>Every rational is a finite float.\<close>

definition valid_time :: "time \<Rightarrow> bool" where
  "valid_time v \<longleftrightarrow> 0 \<le> v"

text \<open>\<open>started_at + options.downshift_delays_minutes[target_level - 1] * 60\<close>\<close>

definition dwell_maturity :: "custom_auto_options \<Rightarrow> downshift_dwell \<Rightarrow> time res" where
  "dwell_maturity opts d =
     res_bind (py_nth (ao_downshift_minutes opts) (dw_target_level d - 1)) (\<lambda>minutes.
       Inr (dw_started_at d + of_int minutes * 60))"

definition upshift_maturity :: "custom_auto_options \<Rightarrow> upshift_confirmation \<Rightarrow> time" where
  "upshift_maturity opts u = uc_started_at u + of_int (ao_upshift_seconds opts)"

definition next_boundary :: "policy_state \<Rightarrow> custom_auto_options \<Rightarrow> time option res" where
  "next_boundary s opts =
     (let up = (case po_upshift s of
                  Some u \<Rightarrow> if uc_sample_requested u then [] else [upshift_maturity opts u]
                | None \<Rightarrow> [])
      in res_bind (res_map_list (dwell_maturity opts)
              (filter (\<lambda>d. \<not> dw_sample_requested d) (po_downshifts s))) (\<lambda>downs.
           let boundaries = up @ downs
           in Inr (if boundaries = [] then None else Some (Min (set boundaries)))))"

definition policy_result ::
    "policy_state \<Rightarrow> custom_auto_options \<Rightarrow> fan_mode option \<Rightarrow> bool \<Rightarrow> policy_result res" where
  "policy_result s opts target request_sample =
     res_bind (next_boundary s opts) (\<lambda>nb.
       Inr \<lparr>pr_state = s, pr_target = target, pr_request_sample = request_sample,
            pr_next_boundary_at = nb\<rparr>)"

section \<open>Ownership and command outcomes\<close>

definition initial_policy_state :: "fan_mode option \<Rightarrow> custom_auto_options \<Rightarrow> policy_state res" where
  "initial_policy_state mode opts =
     res_bind (level_for_mode mode opts) (\<lambda>level.
       Inr \<lparr>po_confirmed_level = level, po_last_revision = None, po_upshift = None,
            po_downshifts = [], po_pending_target = None, po_deferred = None,
            po_failed_revision = None, po_failed_level = None\<rparr>)"

definition invalidate_policy_ownership :: "policy_state \<Rightarrow> policy_state" where
  "invalidate_policy_ownership s =
     s\<lparr>po_confirmed_level := None, po_upshift := None, po_downshifts := [],
       po_pending_target := None, po_deferred := None, po_failed_revision := None,
       po_failed_level := None\<rparr>"

definition rebase_confirmed_mode ::
    "policy_state \<Rightarrow> fan_mode option \<Rightarrow> custom_auto_options \<Rightarrow> policy_state res" where
  "rebase_confirmed_mode s mode opts =
     res_bind (level_for_mode mode opts) (\<lambda>level.
       Inr (s\<lparr>po_confirmed_level := level, po_upshift := None, po_downshifts := [],
              po_pending_target := None, po_deferred := None, po_failed_revision := None,
              po_failed_level := None\<rparr>))"

definition confirm_pending_target ::
    "policy_state \<Rightarrow> fan_mode \<Rightarrow> custom_auto_options \<Rightarrow> policy_state res" where
  "confirm_pending_target s mode opts =
     (if po_pending_target s \<noteq> Some mode then Inl ValueError
      else res_bind (level_for_mode (Some mode) opts) (\<lambda>level.
        case level of
          None \<Rightarrow> Inl ValueError
        | Some l \<Rightarrow>
            Inr (s\<lparr>po_confirmed_level := Some l, po_pending_target := None,
                   po_failed_revision := None, po_failed_level := None,
                   po_downshifts := filter (\<lambda>d. dw_target_level d < l) (po_downshifts s)\<rparr>)))"

definition mark_command_failed :: "policy_state \<Rightarrow> custom_auto_options \<Rightarrow> policy_state res" where
  "mark_command_failed s opts =
     (case po_pending_target s of
        None \<Rightarrow> Inr s
      | Some target \<Rightarrow>
          res_bind (level_for_mode (Some target) opts) (\<lambda>failed_level.
            Inr (s\<lparr>po_pending_target := None, po_deferred := None,
                   po_failed_revision := po_last_revision s, po_failed_level := failed_level\<rparr>)))"

section \<open>Evaluation\<close>

definition policy_emit :: "policy_state \<Rightarrow> custom_auto_options \<Rightarrow> int \<Rightarrow> policy_result res" where
  "policy_emit s opts level =
     res_bind (py_nth (ao_modes opts) (level - 1)) (\<lambda>target.
       let remaining =
             (case po_confirmed_level s of
                Some c \<Rightarrow> if level < c
                          then filter (\<lambda>d. dw_target_level d < level) (po_downshifts s) else []
              | None \<Rightarrow> [])
       in policy_result (s\<lparr>po_upshift := None, po_downshifts := remaining,
                           po_pending_target := Some target\<rparr>) opts (Some target) False)"

text \<open>One dwell at a boundary, with whether it asks for a sample.\<close>

definition boundary_dwell ::
    "custom_auto_options \<Rightarrow> time \<Rightarrow> downshift_dwell \<Rightarrow> (downshift_dwell \<times> bool) res" where
  "boundary_dwell opts now d =
     res_bind (dwell_maturity opts d) (\<lambda>maturity.
       if \<not> dw_sample_requested d \<and> maturity \<le> now
       then Inr (d\<lparr>dw_sample_requested := True\<rparr>, True)
       else Inr (d, False))"

definition evaluate_boundary ::
    "policy_state \<Rightarrow> custom_auto_options \<Rightarrow> time \<Rightarrow> policy_result res" where
  "evaluate_boundary s opts now =
     (if \<not> ao_enabled opts \<or> \<not> valid_time now then policy_result s opts None False
      else
        let up_due = (case po_upshift s of
                Some u \<Rightarrow> \<not> uc_sample_requested u \<and> upshift_maturity opts u \<le> now
              | None \<Rightarrow> False);
            upshift = (if up_due
              then map_option (\<lambda>u. u\<lparr>uc_sample_requested := True\<rparr>) (po_upshift s)
              else po_upshift s)
        in res_bind (res_map_list (boundary_dwell opts now) (po_downshifts s)) (\<lambda>downs.
             policy_result (s\<lparr>po_upshift := upshift, po_downshifts := map fst downs\<rparr>) opts None
               (up_due \<or> (\<exists>x \<in> set downs. snd x))))"

text \<open>Existing dwells keep their start, new crossings start at this reading.\<close>

definition merged_downshifts ::
    "policy_state \<Rightarrow> int \<Rightarrow> int \<Rightarrow> int \<Rightarrow> time \<Rightarrow> downshift_dwell list" where
  "merged_downshifts s desired confirmed revision observed_at =
     map (\<lambda>level. case find (\<lambda>d. dw_target_level d = level) (rev (po_downshifts s)) of
            Some d \<Rightarrow> d
          | None \<Rightarrow> \<lparr>dw_target_level = level, dw_revision = revision,
                      dw_started_at = observed_at, dw_sample_requested = False\<rparr>)
       [desired..confirmed - 1]"

fun matured_levels ::
    "custom_auto_options \<Rightarrow> int \<Rightarrow> time \<Rightarrow> downshift_dwell list \<Rightarrow> int list res" where
  "matured_levels opts revision observed_at [] = Inr []"
| "matured_levels opts revision observed_at (d # ds) =
     (if dw_revision d < revision then
        res_bind (dwell_maturity opts d) (\<lambda>maturity.
        res_bind (matured_levels opts revision observed_at ds) (\<lambda>rest.
          Inr (if maturity \<le> observed_at then dw_target_level d # rest else rest)))
      else matured_levels opts revision observed_at ds)"

definition evaluate_hysteresis ::
    "policy_state \<Rightarrow> custom_auto_options \<Rightarrow> int \<Rightarrow> int \<Rightarrow> int \<Rightarrow> time \<Rightarrow> policy_result res" where
  "evaluate_hysteresis s opts confirmed desired revision observed_at =
     (if confirmed < desired then
        (let s1 = s\<lparr>po_downshifts := []\<rparr>
         in if ao_upshift_seconds opts = 0 then policy_emit s1 opts desired
            else case po_upshift s1 of
                None \<Rightarrow> policy_result (s1\<lparr>po_upshift :=
                    Some \<lparr>uc_revision = revision, uc_started_at = observed_at,
                          uc_sample_requested = False\<rparr>\<rparr>) opts None False
              | Some u \<Rightarrow>
                  if upshift_maturity opts u \<le> observed_at then policy_emit s1 opts desired
                  else policy_result s1 opts None False)
      else
        let s1 = s\<lparr>po_upshift := None\<rparr>
        in if desired = confirmed then policy_result (s1\<lparr>po_downshifts := []\<rparr>) opts None False
           else
             let downshifts = merged_downshifts s1 desired confirmed revision observed_at
             in res_bind (matured_levels opts revision observed_at downshifts) (\<lambda>matured.
                  let s2 = s1\<lparr>po_downshifts := downshifts\<rparr>
                  in if matured \<noteq> [] then policy_emit s2 opts (Min (set matured))
                     else policy_result s2 opts None False))"

definition evaluate_accepted_observation ::
    "policy_state \<Rightarrow> custom_auto_options \<Rightarrow> int \<Rightarrow> int \<Rightarrow> time \<Rightarrow> policy_result res" where
  "evaluate_accepted_observation s opts desired revision observed_at =
     (case po_confirmed_level s of
        None \<Rightarrow> policy_emit s opts desired
      | Some confirmed \<Rightarrow>
          let s0 = s\<lparr>po_failed_revision := None, po_failed_level := None\<rparr>
          in if po_failed_revision s \<noteq> None then
               (case po_failed_level s of
                  Some failed \<Rightarrow>
                    if failed < confirmed then
                      (if desired \<le> failed then policy_emit s opts failed
                       else evaluate_hysteresis s0 opts confirmed desired revision observed_at)
                    else if desired \<noteq> confirmed then policy_emit s opts desired
                    else policy_result (s0\<lparr>po_upshift := None, po_downshifts := []\<rparr>) opts None False
                | None \<Rightarrow>
                    if desired \<noteq> confirmed then policy_emit s opts desired
                    else policy_result (s0\<lparr>po_upshift := None, po_downshifts := []\<rparr>) opts None False)
             else evaluate_hysteresis s opts confirmed desired revision observed_at)"

definition evaluate_observation ::
    "policy_state \<Rightarrow> custom_auto_options \<Rightarrow> int option \<Rightarrow> int \<Rightarrow> time \<Rightarrow> policy_result res" where
  "evaluate_observation s opts pm25 revision observed_at =
     (case pm25 of
        None \<Rightarrow> policy_result s opts None False
      | Some pm \<Rightarrow>
          if \<not> ao_enabled opts \<or> \<not> (0 \<le> pm \<and> pm \<le> 999) \<or> revision < 0 \<or>
             (case po_last_revision s of Some l \<Rightarrow> revision \<le> l | None \<Rightarrow> False) \<or>
             \<not> valid_time observed_at
          then policy_result s opts None False
          else res_bind (level_for_pm25 pm opts) (\<lambda>desired.
            let s1 = s\<lparr>po_last_revision := Some revision\<rparr>
            in if po_pending_target s1 \<noteq> None then
                 policy_result
                   (s1\<lparr>po_downshifts := filter (\<lambda>d. desired \<le> dw_target_level d) (po_downshifts s1),
                       po_deferred := Some \<lparr>df_pm25 = pm, df_revision = revision,
                                             df_observed_at = observed_at\<rparr>\<rparr>) opts None False
               else evaluate_accepted_observation s1 opts desired revision observed_at))"

definition reconcile_deferred_observation ::
    "policy_state \<Rightarrow> custom_auto_options \<Rightarrow> policy_result res" where
  "reconcile_deferred_observation s opts =
     (let s1 = s\<lparr>po_deferred := None\<rparr>
      in case po_deferred s of
           None \<Rightarrow> policy_result s1 opts None False
         | Some d \<Rightarrow>
             res_bind (level_for_pm25 (df_pm25 d) opts) (\<lambda>desired.
               evaluate_accepted_observation s1 opts desired (df_revision d) (df_observed_at d)))"

section \<open>The policy as a machine\<close>

text \<open>Everything the controller does to its policy state, in one input type.\<close>

datatype policy_input =
    PInvalidate
  | PRebase "fan_mode option"
  | PConfirm fan_mode
  | PReconcile
  | PFailed
  | PBoundary time
  | PObserve "int option" int time

definition policy_apply ::
    "custom_auto_options \<Rightarrow> policy_state \<Rightarrow> policy_input \<Rightarrow> (policy_state \<times> fan_mode option \<times> bool) res"
  where
  "policy_apply opts s i =
     (let of_result = (\<lambda>r. res_bind r (\<lambda>r. Inr (pr_state r, pr_target r, pr_request_sample r)));
          quiet = (\<lambda>r. res_bind r (\<lambda>s'. Inr (s', None, False)))
      in case i of
           PInvalidate \<Rightarrow> Inr (invalidate_policy_ownership s, None, False)
         | PRebase mode \<Rightarrow> quiet (rebase_confirmed_mode s mode opts)
         | PConfirm mode \<Rightarrow> quiet (confirm_pending_target s mode opts)
         | PReconcile \<Rightarrow> of_result (reconcile_deferred_observation s opts)
         | PFailed \<Rightarrow> quiet (mark_command_failed s opts)
         | PBoundary now \<Rightarrow> of_result (evaluate_boundary s opts now)
         | PObserve pm25 revision observed_at \<Rightarrow>
             of_result (evaluate_observation s opts pm25 revision observed_at))"

text \<open>An exception (a confirmation that does not match the pending target) changes nothing.\<close>

definition policy_step :: "custom_auto_options \<Rightarrow> policy_state \<Rightarrow> policy_input \<Rightarrow> policy_state" where
  "policy_step opts s i = (case policy_apply opts s i of Inr (s', _) \<Rightarrow> s' | Inl _ \<Rightarrow> s)"

section \<open>Levels\<close>

lemma bisect_left_loop_steps:
  "lo < hi \<Longrightarrow> xs ! ((lo + hi) div 2) < x \<Longrightarrow>
     bisect_left_loop xs x lo hi = bisect_left_loop xs x ((lo + hi) div 2 + 1) hi"
  "lo < hi \<Longrightarrow> \<not> xs ! ((lo + hi) div 2) < x \<Longrightarrow>
     bisect_left_loop xs x lo hi = bisect_left_loop xs x lo ((lo + hi) div 2)"
  "\<not> lo < hi \<Longrightarrow> bisect_left_loop xs x lo hi = lo"
  by (subst bisect_left_loop.simps, simp add: Let_def)+

lemma bisect_left_loop_bounds:
  "lo \<le> hi \<Longrightarrow> lo \<le> bisect_left_loop xs x lo hi \<and> bisect_left_loop xs x lo hi \<le> hi"
proof (induction xs x lo hi rule: bisect_left_loop.induct)
  case (1 xs x lo hi)
  show ?case
  proof (cases "lo < hi")
    case True
    let ?mid = "(lo + hi) div 2"
    have mid: "lo \<le> ?mid" "?mid + 1 \<le> hi" using True by auto
    show ?thesis
    proof (cases "xs ! ?mid < x")
      case less: True
      from "1.IH"(1)[OF True refl less mid(2)] mid(1) show ?thesis
        by (simp add: bisect_left_loop_steps(1)[OF True less])
    next
      case geq: False
      from "1.IH"(2)[OF True refl geq mid(1)] mid(2) show ?thesis
        by (simp add: bisect_left_loop_steps(2)[OF True geq])
    qed
  next
    case False
    with 1 show ?thesis by (simp add: bisect_left_loop_steps(3))
  qed
qed

text \<open>On a sorted list the search splits it: smaller elements before, the others from there on.\<close>

lemma bisect_left_loop_splits:
  assumes "sorted xs" and "hi \<le> length xs" and "lo \<le> hi"
    and "\<forall>i < lo. xs ! i < x" and "\<forall>i. hi \<le> i \<and> i < length xs \<longrightarrow> x \<le> xs ! i"
  shows "(\<forall>i < bisect_left_loop xs x lo hi. xs ! i < x) \<and>
    (\<forall>i. bisect_left_loop xs x lo hi \<le> i \<and> i < length xs \<longrightarrow> x \<le> xs ! i)"
  using assms
proof (induction xs x lo hi rule: bisect_left_loop.induct)
  case (1 xs x lo hi)
  show ?case
  proof (cases "lo < hi")
    case True
    let ?mid = "(lo + hi) div 2"
    have mid: "lo \<le> ?mid" "?mid < hi" using True by auto
    show ?thesis
    proof (cases "xs ! ?mid < x")
      case less: True
      have "\<forall>i < ?mid + 1. xs ! i < x"
      proof (intro allI impI)
        fix i
        assume "i < ?mid + 1"
        then have "xs ! i \<le> xs ! ?mid"
          using "1.prems"(1,2) mid by (intro sorted_nth_mono) auto
        with less show "xs ! i < x" by simp
      qed
      from "1.IH"(1)[OF True refl less "1.prems"(1,2) _ this "1.prems"(5)] mid
      show ?thesis by (simp add: bisect_left_loop_steps(1)[OF True less])
    next
      case geq: False
      have "\<forall>i. ?mid \<le> i \<and> i < length xs \<longrightarrow> x \<le> xs ! i"
      proof (intro allI impI)
        fix i
        assume "?mid \<le> i \<and> i < length xs"
        then have "xs ! ?mid \<le> xs ! i" using "1.prems"(1) by (intro sorted_nth_mono) auto
        with geq show "x \<le> xs ! i" by simp
      qed
      from "1.IH"(2)[OF True refl geq "1.prems"(1) _ mid(1) "1.prems"(4) this] mid "1.prems"(2)
      show ?thesis by (simp add: bisect_left_loop_steps(2)[OF True geq])
    qed
  next
    case False
    with "1.prems"(3) have "lo = hi" by simp
    with "1.prems"(4,5) show ?thesis by (simp add: bisect_left_loop_steps(3))
  qed
qed

lemma bisect_left_counts:
  assumes "sorted xs"
  shows "bisect_left xs x = int (length (filter (\<lambda>y. y < x) xs))"
proof -
  let ?k = "bisect_left_loop xs x 0 (length xs)"
  have k: "?k \<le> length xs" using bisect_left_loop_bounds[of 0 "length xs" xs x] by simp
  have s: "\<forall>i < ?k. xs ! i < x" "\<forall>i. ?k \<le> i \<and> i < length xs \<longrightarrow> x \<le> xs ! i"
    using bisect_left_loop_splits[OF assms, of "length xs" 0 x] by auto
  have "filter (\<lambda>y. y < x) (take ?k xs) = take ?k xs"
    using s(1) k by (intro filter_True) (auto simp: in_set_conv_nth)
  moreover have "filter (\<lambda>y. y < x) (drop ?k xs) = []"
  proof (intro filter_False ballI)
    fix y
    assume "y \<in> set (drop ?k xs)"
    then obtain j where "j < length (drop ?k xs)" "y = drop ?k xs ! j"
      by (metis in_set_conv_nth)
    then have "y = xs ! (?k + j)" "?k + j < length xs" using k by simp_all
    with s(2)[rule_format, of "?k + j"] show "\<not> y < x" by simp
  qed
  ultimately have "filter (\<lambda>y. y < x) (take ?k xs @ drop ?k xs) = take ?k xs"
    by (simp only: filter_append append_Nil2)
  then have "filter (\<lambda>y. y < x) xs = take ?k xs" by simp
  with k show ?thesis by (simp add: bisect_left_def)
qed

lemma options_wf_sorted: "options_wf opts \<Longrightarrow> sorted (ao_pm25_boundaries opts)"
  by (simp add: options_wf_def strictly_ascending_sorted strict_sorted_imp_sorted)

lemma level_for_pm25_wf:
  assumes "options_wf opts" and "0 \<le> pm" and "pm \<le> 999"
  shows "level_for_pm25 pm opts =
    Inr (int (length (filter (\<lambda>b. b < pm) (ao_pm25_boundaries opts))) + 1)"
  using assms by (simp add: level_for_pm25_def bisect_left_counts options_wf_sorted)

lemma level_for_pm25_range:
  assumes "options_wf opts" and "level_for_pm25 pm opts = Inr l"
  shows "1 \<le> l \<and> l \<le> 5"
proof -
  from assms(2) have pm: "0 \<le> pm" "pm \<le> 999" by (auto simp: level_for_pm25_def split: if_splits)
  have "length (filter (\<lambda>b. b < pm) (ao_pm25_boundaries opts)) \<le> 4"
    using assms(1) length_filter_le[of "\<lambda>b. b < pm" "ao_pm25_boundaries opts"]
    by (simp add: options_wf_def)
  with level_for_pm25_wf[OF assms(1) pm] assms(2) show ?thesis by simp
qed

lemma level_for_mode_wf:
  assumes "options_wf opts"
  shows "\<exists>l. level_for_mode mode opts = Inr l \<and>
    (case l of None \<Rightarrow> mode = None \<or> mode = Some AUTO
     | Some k \<Rightarrow> 1 \<le> k \<and> k \<le> 5 \<and> mode = Some (ao_modes opts ! nat (k - 1)) \<and> mode \<noteq> Some AUTO)"
proof (cases mode)
  case (Some m)
  with assms show ?thesis
    by (cases m) (simp_all add: level_for_mode_def options_wf_def SPEED_MODES_def)
qed (simp add: level_for_mode_def)

lemma mode_of_level:
  assumes "options_wf opts" and "1 \<le> l" and "l \<le> 5"
  shows "py_nth (ao_modes opts) (l - 1) = Inr (ao_modes opts ! nat (l - 1))"
    "ao_modes opts ! nat (l - 1) \<noteq> AUTO"
    "level_for_mode (Some (ao_modes opts ! nat (l - 1))) opts = Inr (Some l)"
proof -
  have "l = 1 \<or> l = 2 \<or> l = 3 \<or> l = 4 \<or> l = 5" using assms by auto
  then show "py_nth (ao_modes opts) (l - 1) = Inr (ao_modes opts ! nat (l - 1))"
    "ao_modes opts ! nat (l - 1) \<noteq> AUTO"
    "level_for_mode (Some (ao_modes opts ! nat (l - 1))) opts = Inr (Some l)"
    using assms(1)
    by (auto simp: options_wf_def SPEED_MODES_def py_nth_def level_for_mode_def)
qed

section \<open>The invariant\<close>

definition rev_le :: "int \<Rightarrow> int option \<Rightarrow> bool" where
  "rev_le r l \<longleftrightarrow> (case l of Some k \<Rightarrow> r \<le> k | None \<Rightarrow> False)"

fun below_level :: "int \<Rightarrow> int option \<Rightarrow> bool" where
  "below_level t None \<longleftrightarrow> False"
| "below_level t (Some c) \<longleftrightarrow> t < c"

definition dwell_ok :: "int option \<Rightarrow> int option \<Rightarrow> downshift_dwell \<Rightarrow> bool" where
  "dwell_ok confirmed newest d \<longleftrightarrow>
     1 \<le> dw_target_level d \<and> dw_target_level d \<le> 4 \<and> rev_le (dw_revision d) newest \<and>
     below_level (dw_target_level d) confirmed"

definition level_ok :: "int option \<Rightarrow> bool" where
  "level_ok l \<longleftrightarrow> (case l of Some k \<Rightarrow> 1 \<le> k \<and> k \<le> 5 | None \<Rightarrow> True)"

fun deferred_ok :: "int option \<Rightarrow> deferred_observation option \<Rightarrow> bool" where
  "deferred_ok newest None \<longleftrightarrow> True"
| "deferred_ok newest (Some d) \<longleftrightarrow>
     0 \<le> df_pm25 d \<and> df_pm25 d \<le> 999 \<and> rev_le (df_revision d) newest"

definition policy_inv :: "policy_state \<Rightarrow> bool" where
  "policy_inv s \<longleftrightarrow>
     level_ok (po_confirmed_level s) \<and>
     (\<forall>d \<in> set (po_downshifts s). dwell_ok (po_confirmed_level s) (po_last_revision s) d) \<and>
     (po_upshift s \<noteq> None \<longrightarrow> po_downshifts s = [] \<and> po_confirmed_level s \<noteq> None) \<and>
     po_pending_target s \<noteq> Some AUTO \<and>
     deferred_ok (po_last_revision s) (po_deferred s) \<and>
     level_ok (po_failed_level s)"

lemma dwell_maturity_ok:
  assumes "options_wf opts" and "dwell_ok c l d"
  shows "dwell_maturity opts d =
    Inr (dw_started_at d + of_int (ao_downshift_minutes opts ! nat (dw_target_level d - 1)) * 60)"
  using assms by (simp add: dwell_maturity_def options_wf_def dwell_ok_def py_nth_numeral)

lemma policy_result_total:
  assumes "options_wf opts" and "\<forall>d \<in> set (po_downshifts s). dwell_ok c l d"
  shows "\<exists>nb. policy_result s opts t b =
    Inr \<lparr>pr_state = s, pr_target = t, pr_request_sample = b, pr_next_boundary_at = nb\<rparr>"
proof -
  have "\<exists>ms. res_map_list (dwell_maturity opts)
      (filter (\<lambda>d. \<not> dw_sample_requested d) (po_downshifts s)) = Inr ms"
    using assms by (intro res_map_list_total) (auto simp: dwell_maturity_ok)
  then show ?thesis by (auto simp: policy_result_def next_boundary_def Let_def)
qed

lemma policy_result_Inr:
  "policy_result s opts t b = Inr r \<Longrightarrow>
     pr_state r = s \<and> pr_target r = t \<and> pr_request_sample r = b"
  by (auto simp: policy_result_def)

text \<open>Every operation returns a value that satisfies \<open>good_result\<close>: the invariant, and a target
  only together with the pending command it stands for.\<close>

fun target_ok :: "fan_mode option \<Rightarrow> policy_state \<Rightarrow> bool" where
  "target_ok None s \<longleftrightarrow> True"
| "target_ok (Some m) s \<longleftrightarrow> m \<noteq> AUTO \<and> po_pending_target s = Some m"

definition good_result :: "policy_result res \<Rightarrow> bool" where
  "good_result r \<longleftrightarrow> (\<exists>x. r = Inr x \<and> policy_inv (pr_state x) \<and>
     target_ok (pr_target x) (pr_state x))"

lemma good_policy_result:
  assumes "options_wf opts" and "policy_inv s"
    and "target_ok t s"
  shows "good_result (policy_result s opts t b)"
proof -
  have "\<forall>d \<in> set (po_downshifts s). dwell_ok (po_confirmed_level s) (po_last_revision s) d"
    using assms(2) by (simp add: policy_inv_def)
  from policy_result_total[OF assms(1) this, of t b] assms(2,3) show ?thesis
    by (auto simp: good_result_def)
qed

lemma policy_emit_good:
  assumes "options_wf opts" and "policy_inv s" and "1 \<le> level" and "level \<le> 5"
  shows "good_result (policy_emit s opts level)"
proof -
  let ?t = "ao_modes opts ! nat (level - 1)"
  let ?rem = "case po_confirmed_level s of
      Some c \<Rightarrow> if level < c then filter (\<lambda>d. dw_target_level d < level) (po_downshifts s) else []
    | None \<Rightarrow> []"
  let ?s = "s\<lparr>po_upshift := None, po_downshifts := ?rem, po_pending_target := Some ?t\<rparr>"
  have t: "?t \<noteq> AUTO" and e: "policy_emit s opts level = policy_result ?s opts (Some ?t) False"
    using mode_of_level[OF assms(1,3,4)] by (simp_all add: policy_emit_def Let_def)
  have "set ?rem \<subseteq> set (po_downshifts s)" by (auto split: option.splits)
  then have "policy_inv ?s" using assms(2) t unfolding policy_inv_def by auto
  with good_policy_result[OF assms(1)] t e show ?thesis by simp
qed

lemma merged_downshifts_ok:
  assumes "policy_inv s" and "po_confirmed_level s = Some c" and "1 \<le> desired"
    and "rev_le revision (po_last_revision s)"
    and "d \<in> set (merged_downshifts s desired c revision obs_at)"
  shows "dwell_ok (Some c) (po_last_revision s) d"
proof -
  from assms(1,2) have c: "c \<le> 5" by (simp add: policy_inv_def level_ok_def)
  from assms(5) obtain level where lv: "desired \<le> level" "level < c"
    and d: "d = (case find (\<lambda>d. dw_target_level d = level) (rev (po_downshifts s)) of
            Some d \<Rightarrow> d
          | None \<Rightarrow> \<lparr>dw_target_level = level, dw_revision = revision,
                      dw_started_at = obs_at, dw_sample_requested = False\<rparr>)"
    by (auto simp: merged_downshifts_def)
  show ?thesis
  proof (cases "find (\<lambda>d. dw_target_level d = level) (rev (po_downshifts s))")
    case None
    with d lv c assms(3,4) show ?thesis by (simp add: dwell_ok_def)
  next
    case (Some x)
    from find_Some_member[OF this] have "x \<in> set (po_downshifts s)" by simp
    with assms(1,2) d Some show ?thesis by (simp add: policy_inv_def)
  qed
qed

lemma matured_levels_ok:
  assumes "options_wf opts" and "\<forall>d \<in> set ds. dwell_ok c l d"
  shows "matured_levels opts revision obs_at ds = Inr (map dw_target_level
    (filter (\<lambda>d. dw_revision d < revision \<and>
       dw_started_at d + of_int (ao_downshift_minutes opts ! nat (dw_target_level d - 1)) * 60 \<le> obs_at) ds))"
  using assms(2) by (induction ds) (auto simp: dwell_maturity_ok[OF assms(1)])

lemma policy_inv_drop [intro]:
  "policy_inv s \<Longrightarrow> policy_inv (s\<lparr>po_downshifts := []\<rparr>)"
  "policy_inv s \<Longrightarrow> policy_inv (s\<lparr>po_upshift := None\<rparr>)"
  "policy_inv s \<Longrightarrow> policy_inv (s\<lparr>po_deferred := None\<rparr>)"
  "policy_inv s \<Longrightarrow> policy_inv (s\<lparr>po_failed_revision := None, po_failed_level := None\<rparr>)"
  by (simp_all add: policy_inv_def level_ok_def)

lemma evaluate_hysteresis_good:
  assumes wf: "options_wf opts" and inv: "policy_inv s" and c: "po_confirmed_level s = Some c"
    and desired: "1 \<le> desired" "desired \<le> 5" and rev: "rev_le revision (po_last_revision s)"
  shows "good_result (evaluate_hysteresis s opts c desired revision obs_at)"
proof (cases "c < desired")
  case True
  let ?s = "s\<lparr>po_downshifts := []\<rparr>"
  have s: "policy_inv ?s" using inv by blast
  then have up: "policy_inv (?s\<lparr>po_upshift := Some u\<rparr>)" for u
    using c by (simp add: policy_inv_def)
  show ?thesis
    using True policy_emit_good[OF wf s desired] good_policy_result[OF wf up, of None]
      good_policy_result[OF wf s, of None]
    by (auto simp: evaluate_hysteresis_def Let_def split: option.split)
next
  case False
  let ?s = "s\<lparr>po_upshift := None\<rparr>"
  have s: "policy_inv ?s" using inv by blast
  show ?thesis
  proof (cases "desired = c")
    case True
    have "policy_inv (?s\<lparr>po_downshifts := []\<rparr>)" using s by blast
    with good_policy_result[OF wf this, of None] False True show ?thesis
      by (simp add: evaluate_hysteresis_def Let_def)
  next
    case neq: False
    let ?ds = "merged_downshifts ?s desired c revision obs_at"
    have ok: "\<forall>d \<in> set ?ds. dwell_ok (Some c) (po_last_revision s) d"
      using merged_downshifts_ok[OF s, of c desired revision _ obs_at] c desired rev by simp
    have s2: "policy_inv (?s\<lparr>po_downshifts := ?ds\<rparr>)"
      using s ok c by (simp add: policy_inv_def)
    obtain lv where lv: "matured_levels opts revision obs_at ?ds = Inr lv"
      and lvs: "set lv \<subseteq> dw_target_level ` set ?ds"
      using matured_levels_ok[OF wf ok, of revision obs_at] by auto
    have "1 \<le> Min (set lv)" "Min (set lv) \<le> 5" if "lv \<noteq> []"
    proof -
      have "Min (set lv) \<in> set lv" using that by (intro Min_in) auto
      with lvs obtain d where "d \<in> set ?ds" "Min (set lv) = dw_target_level d" by blast
      with ok show "1 \<le> Min (set lv)" "Min (set lv) \<le> 5" by (auto simp: dwell_ok_def)
    qed
    with policy_emit_good[OF wf s2] good_policy_result[OF wf s2, of None] lv False neq
    show ?thesis by (auto simp: evaluate_hysteresis_def Let_def)
  qed
qed

lemma evaluate_accepted_good:
  assumes wf: "options_wf opts" and inv: "policy_inv s"
    and desired: "1 \<le> desired" "desired \<le> 5" and rev: "rev_le revision (po_last_revision s)"
  shows "good_result (evaluate_accepted_observation s opts desired revision obs_at)"
proof (cases "po_confirmed_level s")
  case None
  with policy_emit_good[OF wf inv desired] show ?thesis
    by (simp add: evaluate_accepted_observation_def)
next
  case (Some c)
  let ?s0 = "s\<lparr>po_failed_revision := None, po_failed_level := None\<rparr>"
  have s0: "policy_inv ?s0" using inv by blast
  have s1: "policy_inv (?s0\<lparr>po_upshift := None, po_downshifts := []\<rparr>)"
    using policy_inv_drop(1)[OF policy_inv_drop(2)[OF s0]] by simp
  have f: "1 \<le> k \<and> k \<le> 5" if "po_failed_level s = Some k" for k
    using inv that by (simp add: policy_inv_def level_ok_def)
  have h0: "good_result (evaluate_hysteresis ?s0 opts c desired revision obs_at)"
    using evaluate_hysteresis_good[OF wf s0 _ desired] Some rev by simp
  have h: "good_result (evaluate_hysteresis s opts c desired revision obs_at)"
    using evaluate_hysteresis_good[OF wf inv Some desired rev] .
  show ?thesis
    using Some f h h0 policy_emit_good[OF wf inv] desired good_policy_result[OF wf s1, of None]
    by (auto simp: evaluate_accepted_observation_def Let_def split: option.split)
qed

lemma evaluate_observation_good:
  assumes wf: "options_wf opts" and inv: "policy_inv s"
  shows "good_result (evaluate_observation s opts pm25 revision obs_at)"
proof -
  have quiet_ok: "good_result (policy_result s opts None False)"
    using good_policy_result[OF wf inv] by simp
  show ?thesis
  proof (cases pm25)
    case None
    then have "evaluate_observation s opts pm25 revision obs_at = policy_result s opts None False"
      by (simp add: evaluate_observation_def)
    with quiet_ok show ?thesis by metis
  next
    case (Some pm)
    show ?thesis
    proof (cases "\<not> ao_enabled opts \<or> \<not> (0 \<le> pm \<and> pm \<le> 999) \<or> revision < 0 \<or>
             (case po_last_revision s of Some l \<Rightarrow> revision \<le> l | None \<Rightarrow> False) \<or> \<not> valid_time obs_at")
      case True
      with Some quiet_ok show ?thesis by (simp add: evaluate_observation_def)
    next
      case False
      let ?s1 = "s\<lparr>po_last_revision := Some revision\<rparr>"
      have mono: "rev_le x (po_last_revision s) \<Longrightarrow> x \<le> revision" for x
        using False by (auto simp: rev_le_def split: option.splits)
      have s1: "policy_inv ?s1"
        using inv mono
        by (cases "po_deferred s") (auto simp: policy_inv_def dwell_ok_def rev_le_def)
      obtain l where l: "level_for_pm25 pm opts = Inr l"
        using level_for_pm25_wf[OF wf] False by blast
      note range = level_for_pm25_range[OF wf l]
      have s2: "policy_inv (?s1\<lparr>po_downshifts := filter (\<lambda>d. l \<le> dw_target_level d) (po_downshifts s),
          po_deferred := Some \<lparr>df_pm25 = pm, df_revision = revision, df_observed_at = obs_at\<rparr>\<rparr>)"
        using s1 False by (auto simp: policy_inv_def rev_le_def)
      show ?thesis
        using Some False l good_policy_result[OF wf s2, of None]
          evaluate_accepted_good[OF wf s1, of l revision obs_at] range
        by (auto simp: evaluate_observation_def Let_def rev_le_def)
    qed
  qed
qed

lemma boundary_dwell_ok:
  assumes "options_wf opts" and "dwell_ok c l d"
  shows "\<exists>x. boundary_dwell opts now d = Inr x \<and> dwell_ok c l (fst x)"
  using assms(2) unfolding boundary_dwell_def dwell_maturity_ok[OF assms] res_bind_simps
  by (simp add: dwell_ok_def) blast

lemma evaluate_boundary_good:
  assumes wf: "options_wf opts" and inv: "policy_inv s"
  shows "good_result (evaluate_boundary s opts now)"
proof (cases "\<not> ao_enabled opts \<or> \<not> valid_time now")
  case True
  with good_policy_result[OF wf inv, of None] show ?thesis by (auto simp: evaluate_boundary_def)
next
  case False
  have ok: "\<forall>d \<in> set (po_downshifts s). dwell_ok (po_confirmed_level s) (po_last_revision s) d"
    using inv by (simp add: policy_inv_def)
  then obtain ds where ds: "res_map_list (boundary_dwell opts now) (po_downshifts s) = Inr ds"
    using res_map_list_total[of "po_downshifts s" "boundary_dwell opts now"] boundary_dwell_ok[OF wf]
    by blast
  have dsok: "dwell_ok (po_confirmed_level s) (po_last_revision s) (fst x)" if "x \<in> set ds" for x
    using res_map_list_Inr_set[OF ds that] ok boundary_dwell_ok[OF wf] by (metis sum.inject(2))
  have empty: "po_downshifts s = [] \<Longrightarrow> ds = []" using ds by auto
  have inv': "policy_inv (s\<lparr>po_upshift := u, po_downshifts := map fst ds\<rparr>)"
    if "u \<noteq> None \<Longrightarrow> po_upshift s \<noteq> None" for u
    using inv dsok empty that by (auto simp: policy_inv_def)
  have good: "good_result (policy_result (s\<lparr>po_upshift := u, po_downshifts := map fst ds\<rparr>) opts None b)"
    if "u \<noteq> None \<Longrightarrow> po_upshift s \<noteq> None" for u b
    using good_policy_result[OF wf inv'[of u], of None] that by simp
  show ?thesis
  proof (cases "po_upshift s")
    case None
    with good[of None] ds False show ?thesis by (simp add: evaluate_boundary_def)
  next
    case (Some u)
    with good have "good_result
        (policy_result (s\<lparr>po_upshift := x, po_downshifts := map fst ds\<rparr>) opts None b)" for x b
      by simp
    with ds False Some show ?thesis by (simp only: evaluate_boundary_def Let_def) simp
  qed
qed

lemma invalidate_inv: "policy_inv s \<Longrightarrow> policy_inv (invalidate_policy_ownership s)"
  by (simp add: invalidate_policy_ownership_def policy_inv_def level_ok_def)

lemma level_for_mode_ok:
  "options_wf opts \<Longrightarrow> level_for_mode mode opts = Inr l \<Longrightarrow> level_ok l"
  using level_for_mode_wf[of opts mode] by (cases l) (auto simp: level_ok_def)

lemma rebase_good:
  assumes "options_wf opts" and "policy_inv s"
  shows "\<exists>s'. rebase_confirmed_mode s mode opts = Inr s' \<and> policy_inv s'"
  using level_for_mode_wf[OF assms(1), of mode] level_for_mode_ok[OF assms(1)] assms(2)
  by (auto simp: rebase_confirmed_mode_def policy_inv_def) (auto simp: level_ok_def)

lemma initial_good:
  assumes "options_wf opts"
  shows "\<exists>s. initial_policy_state mode opts = Inr s \<and> policy_inv s"
  using level_for_mode_wf[OF assms, of mode] level_for_mode_ok[OF assms]
  by (auto simp: initial_policy_state_def policy_inv_def) (auto simp: level_ok_def)

lemma confirm_good:
  assumes "options_wf opts" and "policy_inv s"
  shows "if po_pending_target s = Some mode
    then \<exists>s' l. confirm_pending_target s mode opts = Inr s' \<and> policy_inv s' \<and>
      level_for_mode (Some mode) opts = Inr (Some l) \<and> po_confirmed_level s' = Some l \<and>
      po_pending_target s' = None
    else confirm_pending_target s mode opts = Inl ValueError"
proof (cases "po_pending_target s = Some mode")
  case True
  with assms(2) have "mode \<noteq> AUTO" by (auto simp: policy_inv_def)
  with level_for_mode_wf[OF assms(1), of "Some mode"] obtain l where
    l: "level_for_mode (Some mode) opts = Inr (Some l)" "1 \<le> l" "l \<le> 5"
    by (auto split: option.splits)
  have "policy_inv (s\<lparr>po_confirmed_level := Some l, po_pending_target := None,
                   po_failed_revision := None, po_failed_level := None,
                   po_downshifts := filter (\<lambda>d. dw_target_level d < l) (po_downshifts s)\<rparr>)"
    using assms(2) l by (auto simp: policy_inv_def dwell_ok_def level_ok_def)
  with True l show ?thesis by (simp add: confirm_pending_target_def)
next
  case False
  then show ?thesis by (simp add: confirm_pending_target_def)
qed

lemma failed_good:
  assumes "options_wf opts" and "policy_inv s"
  shows "\<exists>s'. mark_command_failed s opts = Inr s' \<and> policy_inv s' \<and> po_pending_target s' = None"
proof (cases "po_pending_target s")
  case None
  with assms(2) show ?thesis by (simp add: mark_command_failed_def)
next
  case (Some m)
  obtain l where l: "level_for_mode (Some m) opts = Inr l"
    using level_for_mode_wf[OF assms(1)] by blast
  from Some l assms(2) level_for_mode_ok[OF assms(1) l] show ?thesis
    by (simp add: mark_command_failed_def policy_inv_def)
qed

lemma reconcile_good:
  assumes "options_wf opts" and "policy_inv s"
  shows "good_result (reconcile_deferred_observation s opts)"
proof -
  have s1: "policy_inv (s\<lparr>po_deferred := None\<rparr>)" using assms(2) by blast
  show ?thesis
  proof (cases "po_deferred s")
    case None
    then have "reconcile_deferred_observation s opts =
        policy_result (s\<lparr>po_deferred := None\<rparr>) opts None False"
      by (simp add: reconcile_deferred_observation_def Let_def)
    with good_policy_result[OF assms(1) s1, of None] show ?thesis by simp
  next
    case (Some d)
    with assms(2) have d: "0 \<le> df_pm25 d" "df_pm25 d \<le> 999" "rev_le (df_revision d) (po_last_revision s)"
      by (simp_all add: policy_inv_def)
    obtain l where l: "level_for_pm25 (df_pm25 d) opts = Inr l"
      using level_for_pm25_wf[OF assms(1) d(1,2)] by blast
    from level_for_pm25_range[OF assms(1) l] d(3)
      evaluate_accepted_good[OF assms(1) s1, of l "df_revision d" "df_observed_at d"]
    show ?thesis by (simp add: reconcile_deferred_observation_def Let_def Some l)
  qed
qed

lemma good_result_apply:
  "good_result r \<Longrightarrow> \<exists>s' t b.
     res_bind r (\<lambda>r. Inr (pr_state r, pr_target r, pr_request_sample r)) = Inr (s', t, b) \<and>
     policy_inv s' \<and> target_ok t s'"
  by (auto simp: good_result_def)

lemma policy_apply_good:
  assumes wf: "options_wf opts" and inv: "policy_inv s"
  shows "(\<exists>s' t b. policy_apply opts s i = Inr (s', t, b) \<and> policy_inv s' \<and> target_ok t s') \<or>
    (\<exists>mode. i = PConfirm mode \<and> po_pending_target s \<noteq> Some mode \<and>
      policy_apply opts s i = Inl ValueError)"
proof (cases i)
  case (PConfirm mode)
  with confirm_good[OF assms, of mode] show ?thesis
    by (auto simp: policy_apply_def split: if_splits)
next
  case (PRebase mode)
  with rebase_good[OF assms, of mode] show ?thesis by (auto simp: policy_apply_def)
next
  case PFailed
  with failed_good[OF assms] show ?thesis by (auto simp: policy_apply_def)
next
  case PInvalidate
  with invalidate_inv[OF inv] show ?thesis by (auto simp: policy_apply_def)
next
  case PReconcile
  with good_result_apply[OF reconcile_good[OF assms]] show ?thesis
    by (simp only: policy_apply_def Let_def policy_input.case) blast
next
  case (PBoundary now)
  with good_result_apply[OF evaluate_boundary_good[OF assms, of now]] show ?thesis
    by (simp only: policy_apply_def Let_def policy_input.case) blast
next
  case (PObserve pm25 revision obs_at)
  with good_result_apply[OF evaluate_observation_good[OF assms, of pm25 revision obs_at]]
  show ?thesis by (simp only: policy_apply_def Let_def policy_input.case) blast
qed

text \<open>The policy under fixed well-formed options is a step system.\<close>

lemma policy_step_inv: "options_wf opts \<Longrightarrow> policy_inv s \<Longrightarrow> policy_inv (policy_step opts s i)"
  using policy_apply_good[of opts s i] by (auto simp: policy_step_def)

interpretation policy: step_system "policy_step opts" "\<lambda>s. options_wf opts \<and> policy_inv s"
  by unfold_locales (auto intro: policy_step_inv)

section \<open>What an observation can emit\<close>

lemma policy_emit_Inr:
  assumes "policy_emit s opts level = Inr r"
  shows "\<exists>m. py_nth (ao_modes opts) (level - 1) = Inr m \<and> pr_target r = Some m \<and>
    po_pending_target (pr_state r) = Some m \<and> pr_request_sample r = False"
  using assms by (auto simp: policy_emit_def Let_def dest!: policy_result_Inr)

lemma pending_observation:
  assumes "evaluate_observation s opts pm25 revision obs_at = Inr r" and "po_pending_target s \<noteq> None"
  shows "pr_target r = None \<and> po_pending_target (pr_state r) = po_pending_target s"
  using assms
  by (auto simp: evaluate_observation_def Let_def split: option.splits if_splits
      dest!: policy_result_Inr)

lemma stale_observation:
  assumes "evaluate_observation s opts pm25 revision obs_at = Inr r" and "rev_le revision (po_last_revision s)"
  shows "pr_target r = None \<and> pr_state r = s"
  using assms
  by (auto simp: evaluate_observation_def rev_le_def split: option.splits if_splits
      dest!: policy_result_Inr)

text \<open>When the policy accepts a reading, and what it then evaluates.\<close>

definition accepts :: "custom_auto_options \<Rightarrow> policy_state \<Rightarrow> int \<Rightarrow> int \<Rightarrow> time \<Rightarrow> bool" where
  "accepts opts s pm revision obs_at \<longleftrightarrow>
     ao_enabled opts \<and> 0 \<le> pm \<and> pm \<le> 999 \<and> 0 \<le> revision \<and>
     \<not> rev_le revision (po_last_revision s) \<and> valid_time obs_at"

lemma evaluate_observation_rejected:
  assumes "evaluate_observation s opts (Some pm) revision obs_at = Inr r"
    and "\<not> accepts opts s pm revision obs_at"
  shows "pr_state r = s \<and> pr_target r = None"
  using assms
  by (auto simp: evaluate_observation_def accepts_def rev_le_def split: option.splits if_splits
      dest!: policy_result_Inr)

lemma evaluate_observation_accepted:
  assumes "accepts opts s pm revision obs_at" and "po_pending_target s = None"
    and "level_for_pm25 pm opts = Inr desired"
  shows "evaluate_observation s opts (Some pm) revision obs_at =
    evaluate_accepted_observation (s\<lparr>po_last_revision := Some revision\<rparr>) opts desired revision obs_at"
  using assms
  by (cases "po_last_revision s") (auto simp: evaluate_observation_def accepts_def rev_le_def Let_def)

section \<open>Sustained readings\<close>

text \<open>The readings a run accepts, oldest first.\<close>

fun accepted_readings ::
    "custom_auto_options \<Rightarrow> policy_state \<Rightarrow> policy_input list \<Rightarrow> (int \<times> int \<times> time) list" where
  "accepted_readings opts s [] = []"
| "accepted_readings opts s (i # is) =
     (case i of
        PObserve (Some pm) revision obs_at \<Rightarrow>
          if accepts opts s pm revision obs_at then [(pm, revision, obs_at)] else []
      | _ \<Rightarrow> []) @ accepted_readings opts (policy_step opts s i) is"

lemma accepted_readings_snoc:
  "accepted_readings opts s (is @ [i]) =
     accepted_readings opts s is @ accepted_readings opts (foldl (policy_step opts) s is) [i]"
  by (induction "is" arbitrary: s) simp_all

text \<open>Timer boundaries and readings only: the inputs of one stretch without command outcomes.\<close>

fun is_reading :: "policy_input \<Rightarrow> bool" where
  "is_reading (PBoundary _) \<longleftrightarrow> True"
| "is_reading (PObserve _ _ _) \<longleftrightarrow> True"
| "is_reading _ \<longleftrightarrow> False"

text \<open>Each pending crossing is justified by every reading accepted since it started.\<close>

definition justified ::
    "custom_auto_options \<Rightarrow> (int \<times> int \<times> time) list \<Rightarrow> downshift_dwell \<Rightarrow> bool" where
  "justified opts readings d \<longleftrightarrow>
     (\<exists>pre pm post. readings = pre @ (pm, dw_revision d, dw_started_at d) # post \<and>
        (\<forall>(p, _, _) \<in> set ((pm, dw_revision d, dw_started_at d) # post).
           \<forall>l. level_for_pm25 p opts = Inr l \<longrightarrow> l \<le> dw_target_level d))"

text \<open>A pending up-shift is justified by every reading accepted since it started.\<close>

definition up_justified ::
    "custom_auto_options \<Rightarrow> int \<Rightarrow> (int \<times> int \<times> time) list \<Rightarrow> upshift_confirmation \<Rightarrow> bool" where
  "up_justified opts c readings u \<longleftrightarrow>
     (\<exists>pre pm post. readings = pre @ (pm, uc_revision u, uc_started_at u) # post \<and>
        (\<forall>(p, _, _) \<in> set ((pm, uc_revision u, uc_started_at u) # post).
           \<forall>l. level_for_pm25 p opts = Inr l \<longrightarrow> c < l))"

lemma up_justified_append:
  assumes "up_justified opts c readings u" and "\<forall>l. level_for_pm25 p opts = Inr l \<longrightarrow> c < l"
  shows "up_justified opts c (readings @ [(p, r, t)]) u"
proof -
  from assms(1) obtain pre pm post where "readings = pre @ (pm, uc_revision u, uc_started_at u) # post"
    and "\<forall>(p, _, _) \<in> set ((pm, uc_revision u, uc_started_at u) # post).
           \<forall>l. level_for_pm25 p opts = Inr l \<longrightarrow> c < l"
    unfolding up_justified_def by blast
  then have "readings @ [(p, r, t)] = pre @ (pm, uc_revision u, uc_started_at u) # (post @ [(p, r, t)])"
    "\<forall>(p, _, _) \<in> set ((pm, uc_revision u, uc_started_at u) # (post @ [(p, r, t)])).
           \<forall>l. level_for_pm25 p opts = Inr l \<longrightarrow> c < l"
    using assms(2) by auto
  then show ?thesis unfolding up_justified_def by blast
qed

lemma up_justified_last:
  assumes "\<forall>l. level_for_pm25 p opts = Inr l \<longrightarrow> c < l"
  shows "up_justified opts c (readings @ [(p, uc_revision u, uc_started_at u)]) u"
  unfolding up_justified_def
  by (intro exI[of _ readings] exI[of _ p] exI[of _ "[]"]) (use assms in simp)

lemma justified_append:
  assumes "justified opts readings d"
    and "\<forall>l. level_for_pm25 p opts = Inr l \<longrightarrow> l \<le> dw_target_level d"
  shows "justified opts (readings @ [(p, r, t)]) d"
proof -
  from assms(1) obtain pre pm post where "readings = pre @ (pm, dw_revision d, dw_started_at d) # post"
    and "\<forall>(p, _, _) \<in> set ((pm, dw_revision d, dw_started_at d) # post).
           \<forall>l. level_for_pm25 p opts = Inr l \<longrightarrow> l \<le> dw_target_level d"
    unfolding justified_def by blast
  then have "readings @ [(p, r, t)] = pre @ (pm, dw_revision d, dw_started_at d) # (post @ [(p, r, t)])"
    "\<forall>(p, _, _) \<in> set ((pm, dw_revision d, dw_started_at d) # (post @ [(p, r, t)])).
           \<forall>l. level_for_pm25 p opts = Inr l \<longrightarrow> l \<le> dw_target_level d"
    using assms(2) by auto
  then show ?thesis unfolding justified_def by blast
qed

lemma justified_last:
  assumes "\<forall>l. level_for_pm25 p opts = Inr l \<longrightarrow> l \<le> dw_target_level d"
  shows "justified opts (readings @ [(p, dw_revision d, dw_started_at d)]) d"
  unfolding justified_def
  by (intro exI[of _ readings] exI[of _ p] exI[of _ "[]"]) (use assms in simp)

lemma justified_same:
  "justified opts readings d \<Longrightarrow> dw_target_level d' = dw_target_level d \<Longrightarrow>
     dw_revision d' = dw_revision d \<Longrightarrow> dw_started_at d' = dw_started_at d \<Longrightarrow>
     justified opts readings d'"
  unfolding justified_def by simp

lemma merged_downshifts_cases:
  assumes "d \<in> set (merged_downshifts s desired c revision obs_at)"
  shows "desired \<le> dw_target_level d \<and> dw_target_level d < c \<and>
    (d \<in> set (po_downshifts s) \<or> dw_revision d = revision \<and> dw_started_at d = obs_at)"
proof -
  from assms obtain level where lv: "desired \<le> level" "level < c"
    and d: "d = (case find (\<lambda>d. dw_target_level d = level) (rev (po_downshifts s)) of
            Some d \<Rightarrow> d
          | None \<Rightarrow> \<lparr>dw_target_level = level, dw_revision = revision,
                      dw_started_at = obs_at, dw_sample_requested = False\<rparr>)"
    by (auto simp: merged_downshifts_def)
  show ?thesis
  proof (cases "find (\<lambda>d. dw_target_level d = level) (rev (po_downshifts s))")
    case None
    with d lv show ?thesis by simp
  next
    case (Some x)
    from find_Some_member[OF this] have "x \<in> set (po_downshifts s)" "dw_target_level x = level"
      by simp_all
    with d lv Some show ?thesis by simp
  qed
qed

text \<open>The ordinary hysteresis path ends in an emission or a quiet result, and touches only the
  timers.\<close>

lemma hysteresis_down:
  assumes "desired < c"
  shows "evaluate_hysteresis s opts c desired revision obs_at =
    res_bind (matured_levels opts revision obs_at
        (merged_downshifts (s\<lparr>po_upshift := None\<rparr>) desired c revision obs_at)) (\<lambda>matured.
      let s2 = s\<lparr>po_upshift := None, po_downshifts :=
                 merged_downshifts (s\<lparr>po_upshift := None\<rparr>) desired c revision obs_at\<rparr>
      in if matured \<noteq> [] then policy_emit s2 opts (Min (set matured))
         else policy_result s2 opts None False)"
  using assms by (simp add: evaluate_hysteresis_def Let_def)

lemma hysteresis_shape:
  assumes "evaluate_hysteresis s opts c desired revision obs_at = Inr r"
  obtains (emit) up ds level where
    "policy_emit (s\<lparr>po_upshift := up, po_downshifts := ds\<rparr>) opts level = Inr r"
  | (quiet) up ds where
    "policy_result (s\<lparr>po_upshift := up, po_downshifts := ds\<rparr>) opts None False = Inr r"
    "desired < c \<Longrightarrow> ds = merged_downshifts (s\<lparr>po_upshift := None\<rparr>) desired c revision obs_at"
    "\<not> desired < c \<Longrightarrow> ds = []"
    "\<And>u. up = Some u \<Longrightarrow> c < desired \<and>
       (po_upshift s = Some u \<or> uc_revision u = revision \<and> uc_started_at u = obs_at)"
proof -
  consider "desired < c" | "desired = c" | "c < desired" by linarith
  then show ?thesis
  proof cases
    case 1
    with assms obtain matured where "(let s2 = s\<lparr>po_upshift := None, po_downshifts :=
                 merged_downshifts (s\<lparr>po_upshift := None\<rparr>) desired c revision obs_at\<rparr>
      in if matured \<noteq> [] then policy_emit s2 opts (Min (set matured))
         else policy_result s2 opts None False) = Inr r"
      by (auto simp only: hysteresis_down res_bind_eq_Inr)
    with 1 show ?thesis
      by (cases "matured = []") (simp_all only: Let_def if_True if_False not_False_eq_True,
          auto intro: quiet emit)
  next
    case 2
    with assms have "policy_result (s\<lparr>po_upshift := None, po_downshifts := []\<rparr>) opts None False = Inr r"
      by (simp add: evaluate_hysteresis_def Let_def)
    then show ?thesis by (rule quiet) (use 2 in simp_all)
  next
    case 3
    show ?thesis
    proof (cases "po_upshift s")
      case None
      then have eq: "s\<lparr>po_upshift := None, po_downshifts := []\<rparr> = s\<lparr>po_downshifts := []\<rparr>"
        by simp
      show ?thesis
      proof (cases "ao_upshift_seconds opts = 0")
        case True
        with assms 3 eq show ?thesis
          by (intro emit[where up = None and ds = "[]" and level = desired]) (simp add: evaluate_hysteresis_def Let_def)
      next
        case False
        let ?u = "\<lparr>uc_revision = revision, uc_started_at = obs_at, uc_sample_requested = False\<rparr>"
        from False assms 3 None
        have "policy_result (s\<lparr>po_downshifts := [], po_upshift := Some ?u\<rparr>) opts None False = Inr r"
          by (simp add: evaluate_hysteresis_def Let_def)
        moreover have "s\<lparr>po_downshifts := [], po_upshift := Some ?u\<rparr> =
            s\<lparr>po_upshift := Some ?u, po_downshifts := []\<rparr>" by simp
        ultimately have "policy_result (s\<lparr>po_upshift := Some ?u, po_downshifts := []\<rparr>) opts None False
            = Inr r" by (simp only:)
        then show ?thesis by (rule quiet) (use 3 in simp_all)
      qed
    next
      case (Some u)
      then have eq: "s\<lparr>po_upshift := Some u, po_downshifts := []\<rparr> = s\<lparr>po_downshifts := []\<rparr>"
        by simp
      show ?thesis
      proof (cases "ao_upshift_seconds opts = 0 \<or> upshift_maturity opts u \<le> obs_at")
        case True
        with assms 3 Some have "policy_emit (s\<lparr>po_downshifts := []\<rparr>) opts desired = Inr r"
          by (cases "ao_upshift_seconds opts = 0") (simp_all add: evaluate_hysteresis_def Let_def)
        with eq show ?thesis by (intro emit[where up = "Some u" and ds = "[]" and level = desired]) simp
      next
        case False
        with assms 3 Some have "policy_result (s\<lparr>po_downshifts := []\<rparr>) opts None False = Inr r"
          by (auto simp: evaluate_hysteresis_def Let_def)
        then have "policy_result (s\<lparr>po_upshift := Some u, po_downshifts := []\<rparr>) opts None False = Inr r"
          unfolding eq .
        then show ?thesis by (rule quiet) (use 3 Some in simp_all)
      qed
    qed
  qed
qed

lemma hysteresis_quiet:
  assumes "evaluate_hysteresis s opts c desired revision obs_at = Inr r"
    and "po_pending_target (pr_state r) = None"
    and "d \<in> set (po_downshifts (pr_state r))"
  shows "desired \<le> dw_target_level d \<and>
    (d \<in> set (po_downshifts s) \<or> dw_revision d = revision \<and> dw_started_at d = obs_at)"
  using assms(1)
proof (cases rule: hysteresis_shape)
  case (emit up ds level)
  from policy_emit_Inr[OF this] assms(2) show ?thesis by auto
next
  case (quiet up ds)
  from policy_result_Inr[OF quiet(1)] have "po_downshifts (pr_state r) = ds" by simp
  with assms(3) quiet(2,3) merged_downshifts_cases[of d "s\<lparr>po_upshift := None\<rparr>" desired c revision obs_at]
  show ?thesis by (cases "desired < c") auto
qed

lemma hysteresis_quiet_up:
  assumes "evaluate_hysteresis s opts c desired revision obs_at = Inr r"
    and "po_pending_target (pr_state r) = None"
    and "po_upshift (pr_state r) = Some u"
  shows "c < desired \<and> (po_upshift s = Some u \<or> uc_revision u = revision \<and> uc_started_at u = obs_at)"
  using assms(1)
proof (cases rule: hysteresis_shape)
  case (emit up ds level)
  from policy_emit_Inr[OF this] assms(2) show ?thesis by auto
next
  case (quiet up ds)
  from policy_result_Inr[OF quiet(1)] have "po_upshift (pr_state r) = up" by simp
  with assms(3) quiet(4) show ?thesis by simp
qed

lemma policy_emit_keeps:
  assumes "policy_emit s opts level = Inr r"
  shows "po_confirmed_level (pr_state r) = po_confirmed_level s \<and>
    po_failed_revision (pr_state r) = po_failed_revision s \<and>
    po_last_revision (pr_state r) = po_last_revision s"
  using assms by (auto simp: policy_emit_def Let_def dest!: policy_result_Inr)

lemma hysteresis_keeps:
  assumes "evaluate_hysteresis s opts c desired revision obs_at = Inr r"
  shows "po_confirmed_level (pr_state r) = po_confirmed_level s \<and>
    po_failed_revision (pr_state r) = po_failed_revision s \<and>
    po_last_revision (pr_state r) = po_last_revision s"
  using assms
proof (cases rule: hysteresis_shape)
  case (emit up ds level)
  from policy_emit_keeps[OF this] show ?thesis by simp
next
  case (quiet up ds)
  from policy_result_Inr[OF quiet(1)] show ?thesis by simp
qed

lemma hysteresis_downshift:
  assumes wf: "options_wf opts" and inv: "policy_inv s" and c: "po_confirmed_level s = Some c"
    and desired: "1 \<le> desired" and rev: "rev_le revision (po_last_revision s)"
    and ev: "evaluate_hysteresis s opts c desired revision obs_at = Inr r"
    and t: "pr_target r = Some m" and lower: "desired < c"
  shows "\<exists>d \<in> set (po_downshifts s). level_for_mode (Some m) opts = Inr (Some (dw_target_level d)) \<and>
    desired \<le> dw_target_level d \<and> dw_target_level d < c \<and> dw_revision d < revision \<and>
    dw_started_at d + of_int (ao_downshift_minutes opts ! nat (dw_target_level d - 1)) * 60 \<le> obs_at"
proof -
  let ?s = "s\<lparr>po_upshift := None\<rparr>"
  let ?ds = "merged_downshifts ?s desired c revision obs_at"
  let ?due = "\<lambda>d. dw_revision d < revision \<and>
       dw_started_at d + of_int (ao_downshift_minutes opts ! nat (dw_target_level d - 1)) * 60 \<le> obs_at"
  have s: "policy_inv ?s" using inv by blast
  have ok: "\<forall>d \<in> set ?ds. dwell_ok (Some c) (po_last_revision s) d"
    using merged_downshifts_ok[OF s, of c desired revision _ obs_at] c desired rev by simp
  define matured where "matured = map dw_target_level (filter ?due ?ds)"
  have m: "matured_levels opts revision obs_at ?ds = Inr matured"
    unfolding matured_def by (rule matured_levels_ok[OF wf ok])
  from ev lower m have res: "(if matured \<noteq> []
      then policy_emit (?s\<lparr>po_downshifts := ?ds\<rparr>) opts (Min (set matured))
      else policy_result (?s\<lparr>po_downshifts := ?ds\<rparr>) opts None False) = Inr r"
    by (simp only: hysteresis_down res_bind_simps Let_def)
  have ne: "matured \<noteq> []"
    using res t policy_result_Inr[of "?s\<lparr>po_downshifts := ?ds\<rparr>" opts None False r] by auto
  with res have em: "policy_emit (?s\<lparr>po_downshifts := ?ds\<rparr>) opts (Min (set matured)) = Inr r"
    by simp
  from ne have "Min (set matured) \<in> set matured" by (intro Min_in) auto
  then obtain d where d: "d \<in> set ?ds" "dw_target_level d = Min (set matured)" "?due d"
    unfolding matured_def by auto
  from merged_downshifts_cases[OF d(1)] d(3) have d': "d \<in> set (po_downshifts s)"
    "desired \<le> dw_target_level d" "dw_target_level d < c" by auto
  have "1 \<le> dw_target_level d" "dw_target_level d \<le> 5"
    using ok d(1) by (auto simp: dwell_ok_def)
  then have "level_for_mode (Some m) opts = Inr (Some (dw_target_level d))"
    using policy_emit_Inr[OF em] t mode_of_level[OF wf, of "dw_target_level d"] d(2) by auto
  with d' d(3) show ?thesis by blast
qed

text \<open>An emission upwards takes the desired level, immediately or after a mature confirmation.\<close>

lemma hysteresis_upshift:
  assumes wf: "options_wf opts" and desired: "desired \<le> 5" "1 \<le> desired"
    and ev: "evaluate_hysteresis s opts c desired revision obs_at = Inr r"
    and t: "pr_target r = Some m" and higher: "\<not> desired < c"
  shows "c < desired \<and> level_for_mode (Some m) opts = Inr (Some desired) \<and>
    (ao_upshift_seconds opts = 0 \<or> (\<exists>u. po_upshift s = Some u \<and> upshift_maturity opts u \<le> obs_at))"
proof -
  have "policy_result s' opts None False \<noteq> Inr r" for s'
    using policy_result_Inr[of s' opts None False r] t by auto
  with ev higher have up: "c < desired" "policy_emit (s\<lparr>po_downshifts := []\<rparr>) opts desired = Inr r"
    "ao_upshift_seconds opts = 0 \<or> (\<exists>u. po_upshift s = Some u \<and> upshift_maturity opts u \<le> obs_at)"
    by (cases "po_upshift s"; cases "ao_upshift_seconds opts = 0";
        auto simp: evaluate_hysteresis_def Let_def split: if_splits)+
  from policy_emit_Inr[OF up(2)] t mode_of_level[OF wf desired(2,1)] up(1,3) show ?thesis by auto
qed

text \<open>A boundary marks timers and asks for at most one sample; it touches nothing else.\<close>

definition same_dwell :: "downshift_dwell \<Rightarrow> downshift_dwell \<Rightarrow> bool" where
  "same_dwell d d' \<longleftrightarrow> dw_target_level d' = dw_target_level d \<and> dw_revision d' = dw_revision d \<and>
     dw_started_at d' = dw_started_at d"

lemma boundary_dwell_same:
  "boundary_dwell opts now d = Inr x \<Longrightarrow> same_dwell d (fst x)"
  by (auto simp: boundary_dwell_def same_dwell_def split: if_splits)

lemma boundary_effect:
  assumes "evaluate_boundary s opts now = Inr r"
  shows "pr_target r = None \<and> po_confirmed_level (pr_state r) = po_confirmed_level s \<and>
    po_last_revision (pr_state r) = po_last_revision s \<and>
    po_pending_target (pr_state r) = po_pending_target s \<and>
    po_failed_revision (pr_state r) = po_failed_revision s \<and>
    po_deferred (pr_state r) = po_deferred s \<and>
    (\<forall>d' \<in> set (po_downshifts (pr_state r)). \<exists>d \<in> set (po_downshifts s). same_dwell d d') \<and>
    (\<forall>u'. po_upshift (pr_state r) = Some u' \<longrightarrow> (\<exists>u. po_upshift s = Some u \<and>
       uc_revision u' = uc_revision u \<and> uc_started_at u' = uc_started_at u))"
proof (cases "\<not> ao_enabled opts \<or> \<not> valid_time now")
  case True
  with assms have "policy_result s opts None False = Inr r" by (simp add: evaluate_boundary_def)
  from policy_result_Inr[OF this] show ?thesis by (auto simp: same_dwell_def)
next
  case False
  with assms obtain ds b c where ds: "res_map_list (boundary_dwell opts now) (po_downshifts s) = Inr ds"
    and r: "policy_result (s\<lparr>po_upshift := if c
          then map_option (\<lambda>u. u\<lparr>uc_sample_requested := True\<rparr>) (po_upshift s) else po_upshift s,
        po_downshifts := map fst ds\<rparr>) opts None b = Inr r"
    by (auto simp only: evaluate_boundary_def Let_def if_False res_bind_eq_Inr)
  have "\<exists>d \<in> set (po_downshifts s). same_dwell d (fst x)" if "x \<in> set ds" for x
    using res_map_list_Inr_set[OF ds that] boundary_dwell_same by blast
  with policy_result_Inr[OF r] show ?thesis by auto
qed

lemma policy_step_boundary:
  "evaluate_boundary s opts now = Inr r \<Longrightarrow> policy_step opts s (PBoundary now) = pr_state r"
  by (simp add: policy_step_def policy_apply_def)

lemma policy_step_observe:
  "evaluate_observation s opts pm revision obs_at = Inr r \<Longrightarrow>
     policy_step opts s (PObserve pm revision obs_at) = pr_state r"
  by (simp add: policy_step_def policy_apply_def)

lemma good_result_Inr: "good_result x \<Longrightarrow> \<exists>r. x = Inr r"
  by (auto simp: good_result_def)

lemma accepted_hysteresis:
  "po_confirmed_level s = Some c \<Longrightarrow> po_failed_revision s = None \<Longrightarrow>
     evaluate_accepted_observation s opts desired revision obs_at =
     evaluate_hysteresis s opts c desired revision obs_at"
  by (simp add: evaluate_accepted_observation_def Let_def)

text \<open>What a stretch of readings keeps.\<close>

definition stretch_ok ::
    "custom_auto_options \<Rightarrow> int \<Rightarrow> (int \<times> int \<times> time) list \<Rightarrow> policy_state \<Rightarrow> bool" where
  "stretch_ok opts c readings s \<longleftrightarrow>
     policy_inv s \<and> po_confirmed_level s = Some c \<and> po_failed_revision s = None \<and>
     (\<forall>d \<in> set (po_downshifts s). justified opts readings d) \<and>
     (\<forall>u. po_upshift s = Some u \<longrightarrow> up_justified opts c readings u)"

lemma stretch_step:
  assumes wf: "options_wf opts" and reading: "is_reading i"
    and ok: "po_pending_target s = None \<Longrightarrow> stretch_ok opts c readings s" and inv: "policy_inv s"
    and pending: "po_pending_target (policy_step opts s i) = None"
  shows "stretch_ok opts c (readings @ accepted_readings opts s [i]) (policy_step opts s i)"
proof (cases i)
  case (PBoundary now)
  obtain r where r: "evaluate_boundary s opts now = Inr r"
    using good_result_Inr[OF evaluate_boundary_good[OF wf inv]] by blast
  note eff = boundary_effect[OF r]
  have st: "policy_step opts s i = pr_state r" using policy_step_boundary[OF r] PBoundary by simp
  with pending eff have "stretch_ok opts c readings s" by (intro ok) simp
  moreover have "justified opts readings d'" if "d' \<in> set (po_downshifts (pr_state r))" for d'
  proof -
    from that eff obtain d where "d \<in> set (po_downshifts s)" "same_dwell d d'" by blast
    with calculation show ?thesis
      by (auto simp: stretch_ok_def same_dwell_def intro: justified_same)
  qed
  moreover have "up_justified opts c readings u'" if "po_upshift (pr_state r) = Some u'" for u'
  proof -
    from that eff obtain u where "po_upshift s = Some u" "uc_revision u' = uc_revision u"
      "uc_started_at u' = uc_started_at u" by blast
    with calculation(1) show ?thesis by (simp add: stretch_ok_def up_justified_def)
  qed
  ultimately show ?thesis
    using eff st policy_step_inv[OF wf inv, of i] by (simp add: stretch_ok_def PBoundary)
next
  case (PObserve pm25 revision obs_at)
  obtain r where r: "evaluate_observation s opts pm25 revision obs_at = Inr r"
    using good_result_Inr[OF evaluate_observation_good[OF wf inv]] by blast
  have st: "policy_step opts s i = pr_state r" using policy_step_observe[OF r] PObserve by simp
  have none: "po_pending_target s = None"
  proof (rule ccontr)
    assume "po_pending_target s \<noteq> None"
    with pending_observation[OF r this] pending st show False by simp
  qed
  note ok' = ok[OF none]
  show ?thesis
  proof (cases "\<exists>pm. pm25 = Some pm \<and> accepts opts s pm revision obs_at")
    case False
    then have "pr_state r = s"
      using r evaluate_observation_rejected[of s opts _ revision obs_at r]
      by (cases pm25) (auto simp: evaluate_observation_def dest!: policy_result_Inr)
    with False st ok' show ?thesis by (auto simp: PObserve split: option.split)
  next
    case True
    then obtain pm where pm: "pm25 = Some pm" and acc: "accepts opts s pm revision obs_at" by blast
    obtain desired where lv: "level_for_pm25 pm opts = Inr desired"
      using level_for_pm25_wf[OF wf] acc by (auto simp: accepts_def)
    let ?s1 = "s\<lparr>po_last_revision := Some revision\<rparr>"
    from ok' have c: "po_confirmed_level ?s1 = Some c" "po_failed_revision ?s1 = None"
      by (simp_all add: stretch_ok_def)
    from r pm have h: "evaluate_hysteresis ?s1 opts c desired revision obs_at = Inr r"
      by (simp add: evaluate_observation_accepted[OF acc none lv] accepted_hysteresis[OF c])
    have j: "justified opts (readings @ [(pm, revision, obs_at)]) d"
      if "d \<in> set (po_downshifts (pr_state r))" for d
    proof -
      from hysteresis_quiet[OF h _ that] pending st have d: "desired \<le> dw_target_level d"
        "d \<in> set (po_downshifts s) \<or> dw_revision d = revision \<and> dw_started_at d = obs_at" by simp_all
      have le: "\<forall>l. level_for_pm25 pm opts = Inr l \<longrightarrow> l \<le> dw_target_level d" using lv d(1) by simp
      from d(2) show ?thesis
      proof
        assume "d \<in> set (po_downshifts s)"
        with ok' have "justified opts readings d" by (simp add: stretch_ok_def)
        from justified_append[OF this le] show ?thesis .
      next
        assume "dw_revision d = revision \<and> dw_started_at d = obs_at"
        with justified_last[OF le] show ?thesis by metis
      qed
    qed
    have ju: "up_justified opts c (readings @ [(pm, revision, obs_at)]) u"
      if "po_upshift (pr_state r) = Some u" for u
    proof -
      from hysteresis_quiet_up[OF h _ that] pending st have u: "c < desired"
        "po_upshift s = Some u \<or> uc_revision u = revision \<and> uc_started_at u = obs_at" by simp_all
      have le: "\<forall>l. level_for_pm25 pm opts = Inr l \<longrightarrow> c < l" using lv u(1) by simp
      from u(2) show ?thesis
      proof
        assume "po_upshift s = Some u"
        with ok' have "up_justified opts c readings u" by (simp add: stretch_ok_def)
        from up_justified_append[OF this le] show ?thesis .
      next
        assume "uc_revision u = revision \<and> uc_started_at u = obs_at"
        with up_justified_last[OF le] show ?thesis by metis
      qed
    qed
    have "policy_inv (pr_state r)" using policy_step_inv[OF wf inv, of i] st by simp
    with j ju hysteresis_keeps[OF h] c st pm acc show ?thesis by (simp add: stretch_ok_def PObserve)
  qed
qed (use reading in simp_all)

lemma stretch_run:
  assumes wf: "options_wf opts" and ok: "stretch_ok opts c [] s0" and "\<forall>i \<in> set is. is_reading i"
  shows "policy_inv (foldl (policy_step opts) s0 is) \<and>
    (po_pending_target (foldl (policy_step opts) s0 is) = None \<longrightarrow>
      stretch_ok opts c (accepted_readings opts s0 is) (foldl (policy_step opts) s0 is))"
  using assms(3)
proof (induction "is" rule: rev_induct)
  case Nil
  with ok show ?case by (simp add: stretch_ok_def)
next
  case (snoc i "is")
  let ?s = "foldl (policy_step opts) s0 is"
  from snoc have inv: "policy_inv ?s" and reading: "is_reading i"
    and ih: "po_pending_target ?s = None \<Longrightarrow> stretch_ok opts c (accepted_readings opts s0 is) ?s"
    by simp_all
  from stretch_step[OF wf reading ih inv] policy_step_inv[OF wf inv, of i] show ?case
    by (simp add: accepted_readings_snoc del: accepted_readings.simps)
qed

text \<open>Evaluating a boundary again at the same time finds every mature timer already marked.\<close>

lemma boundary_dwell_marked:
  assumes "boundary_dwell opts now d = Inr x"
  shows "boundary_dwell opts now (fst x) = Inr (fst x, False)"
proof -
  from assms obtain m where m: "dwell_maturity opts d = Inr m"
    and x: "(if \<not> dw_sample_requested d \<and> m \<le> now
       then Inr (d\<lparr>dw_sample_requested := True\<rparr>, True) else Inr (d, False)) = (Inr x :: _ res)"
    unfolding boundary_dwell_def res_bind_eq_Inr by blast
  have "dwell_maturity opts (d\<lparr>dw_sample_requested := True\<rparr>) = Inr m"
    using m by (simp add: dwell_maturity_def del: res_bind_eq_Inr)
  with m x show ?thesis
    by (cases "\<not> dw_sample_requested d \<and> m \<le> now")
      (auto simp: boundary_dwell_def simp del: res_bind_eq_Inr)
qed

lemma boundary_map_marked:
  "res_map_list (boundary_dwell opts now) ds = Inr xs \<Longrightarrow>
     res_map_list (boundary_dwell opts now) (map fst xs) = Inr (map (\<lambda>x. (fst x, False)) xs)"
  by (induction ds arbitrary: xs) (auto dest: boundary_dwell_marked)

definition upshift_due :: "custom_auto_options \<Rightarrow> time \<Rightarrow> upshift_confirmation option \<Rightarrow> bool" where
  "upshift_due opts now u =
     (case u of Some u \<Rightarrow> \<not> uc_sample_requested u \<and> upshift_maturity opts u \<le> now | None \<Rightarrow> False)"

lemma boundary_twice:
  assumes wf: "options_wf opts" and inv: "policy_inv s"
  shows "\<exists>r r2. evaluate_boundary s opts now = Inr r \<and> pr_target r = None \<and>
      evaluate_boundary (pr_state r) opts now = Inr r2 \<and> pr_request_sample r2 = False"
proof -
  from evaluate_boundary_good[OF wf inv, of now] obtain r where r: "evaluate_boundary s opts now = Inr r"
    and inv': "policy_inv (pr_state r)" by (auto simp: good_result_def)
  obtain r2 where r2: "evaluate_boundary (pr_state r) opts now = Inr r2"
    using good_result_Inr[OF evaluate_boundary_good[OF wf inv']] by blast
  have "pr_request_sample r2 = False"
  proof (cases "\<not> ao_enabled opts \<or> \<not> valid_time now")
    case True
    with r2 have "policy_result (pr_state r) opts None False = Inr r2"
      by (simp add: evaluate_boundary_def)
    from policy_result_Inr[OF this] show ?thesis by simp
  next
    case False
    let ?up = "if upshift_due opts now (po_upshift s)
        then map_option (\<lambda>u. u\<lparr>uc_sample_requested := True\<rparr>) (po_upshift s) else po_upshift s"
    from False r obtain ds b where ds: "res_map_list (boundary_dwell opts now) (po_downshifts s) = Inr ds"
      and pr: "policy_result (s\<lparr>po_upshift := ?up, po_downshifts := map fst ds\<rparr>) opts None b = Inr r"
      by (auto simp only: evaluate_boundary_def Let_def upshift_due_def if_False res_bind_eq_Inr)
    let ?ys = "map (\<lambda>x. (fst x, False)) ds"
    have ys: "res_map_list (boundary_dwell opts now) (map fst ds) = Inr ?ys"
      "\<forall>y \<in> set ?ys. \<not> snd y" using boundary_map_marked[OF ds] by auto
    have st: "po_upshift (pr_state r) = ?up" "po_downshifts (pr_state r) = map fst ds"
      using policy_result_Inr[OF pr] by simp_all
    have nd: "\<not> upshift_due opts now ?up"
      by (cases "po_upshift s") (simp_all add: upshift_due_def upshift_maturity_def)
    from False r2 ys st(2) obtain up2 where "policy_result ((pr_state r)\<lparr>po_upshift := up2,
        po_downshifts := map fst ?ys\<rparr>) opts None (upshift_due opts now ?up \<or> (\<exists>x \<in> set ?ys. snd x)) = Inr r2"
      by (auto simp only: evaluate_boundary_def Let_def upshift_due_def if_False res_bind_simps st)
    from policy_result_Inr[OF this] nd ys(2) show ?thesis by simp
  qed
  with r r2 boundary_effect[OF r] show ?thesis by blast
qed

section \<open>Properties\<close>

text \<open>C2. The policy never fails and only ever commands a speed it owns: from any confirmed mode,
  under well-formed options, after any sequence of readings, timer boundaries, command outcomes
  and ownership changes, the next input either succeeds, with every emitted target recorded as
  the pending command and never hardware Auto, or is a confirmation that does not match the
  pending target, which raises a value error.\<close>

theorem policy_run_safe:
  assumes "options_wf opts" and "initial_policy_state mode opts = Inr s0"
  shows "policy_inv (foldl (policy_step opts) s0 is) \<and>
    (case policy_apply opts (foldl (policy_step opts) s0 is) i of
       Inr (s', None, _) \<Rightarrow> policy_inv s'
     | Inr (s', Some m, _) \<Rightarrow> policy_inv s' \<and> m \<in> set SPEED_MODES \<and> po_pending_target s' = Some m
     | Inl e \<Rightarrow> e = ValueError \<and> (\<exists>m. i = PConfirm m \<and>
         po_pending_target (foldl (policy_step opts) s0 is) \<noteq> Some m))"
proof -
  let ?s = "foldl (policy_step opts) s0 is"
  from initial_good[OF assms(1), of mode] assms(2) have "policy_inv s0" by simp
  with policy.run_inv[of opts s0 "is"] assms(1) have inv: "policy_inv ?s" by simp
  have "m \<in> set SPEED_MODES" if "m \<noteq> AUTO" for m using that by (cases m) (simp_all add: SPEED_MODES_def)
  with policy_apply_good[OF assms(1) inv, of i] inv show ?thesis
    by (auto split: option.split)
qed

theorem policy_run_safe_witness:
  "\<exists>s0. initial_policy_state (Some HIGH) shipped_options = Inr s0 \<and>
    policy_inv (foldl (policy_step shipped_options) s0 [PObserve (Some 1) 1 0])"
proof -
  obtain s0 where s0: "initial_policy_state (Some HIGH) shipped_options = Inr s0"
    using initial_good[OF shipped_options_wf] by blast
  with conjunct1[OF policy_run_safe[OF shipped_options_wf s0, of "[PObserve (Some 1) 1 0]" PFailed]]
  show ?thesis by blast
qed

text \<open>Timer boundaries, stale readings and readings during a pending command never command
  the fan: a boundary emits no target and, evaluated again at the same time, asks for no second
  sample; a reading whose revision is not newer than the last accepted one changes nothing; and
  while a command is pending a reading emits no target and keeps that command.\<close>

theorem quiet_inputs_never_command:
  assumes "options_wf opts" and "policy_inv s"
  shows "(\<exists>r r2. evaluate_boundary s opts now = Inr r \<and> pr_target r = None \<and>
      evaluate_boundary (pr_state r) opts now = Inr r2 \<and> pr_request_sample r2 = False) \<and>
    (\<exists>r. evaluate_observation s opts pm25 revision obs_at = Inr r \<and>
      (rev_le revision (po_last_revision s) \<longrightarrow> pr_target r = None \<and> pr_state r = s) \<and>
      (po_pending_target s \<noteq> None \<longrightarrow>
        pr_target r = None \<and> po_pending_target (pr_state r) = po_pending_target s))"
proof
  obtain r where r: "evaluate_observation s opts pm25 revision obs_at = Inr r"
    using good_result_Inr[OF evaluate_observation_good[OF assms]] by blast
  with pending_observation[OF r] stale_observation[OF r]
  show "\<exists>r. evaluate_observation s opts pm25 revision obs_at = Inr r \<and>
      (rev_le revision (po_last_revision s) \<longrightarrow> pr_target r = None \<and> pr_state r = s) \<and>
      (po_pending_target s \<noteq> None \<longrightarrow>
        pr_target r = None \<and> po_pending_target (pr_state r) = po_pending_target s)" by auto
next
  show "\<exists>r r2. evaluate_boundary s opts now = Inr r \<and> pr_target r = None \<and>
      evaluate_boundary (pr_state r) opts now = Inr r2 \<and> pr_request_sample r2 = False"
    using boundary_twice[OF assms] .
qed

theorem quiet_inputs_never_command_witness:
  "\<exists>s. policy_inv s \<and>
    (\<exists>r r2. evaluate_boundary s shipped_options 9 = Inr r \<and> pr_target r = None \<and>
      evaluate_boundary (pr_state r) shipped_options 9 = Inr r2 \<and> pr_request_sample r2 = False)"
proof -
  obtain s where s: "policy_inv s" using initial_good[OF shipped_options_wf] by blast
  show ?thesis
    by (intro exI[of _ s] conjI s
        conjunct1[OF quiet_inputs_never_command[OF shipped_options_wf s, of 9]])
qed

text \<open>The emission of one accepted reading on the ordinary path.\<close>

lemma emission_cases:
  assumes wf: "options_wf opts" and ok: "stretch_ok opts c readings s"
    and r: "evaluate_observation s opts (Some pm) revision obs_at = Inr r"
    and t: "pr_target r = Some m"
  obtains desired where "level_for_pm25 pm opts = Inr desired" "1 \<le> desired" "desired \<le> 5"
    "evaluate_hysteresis (s\<lparr>po_last_revision := Some revision\<rparr>) opts c desired revision obs_at = Inr r"
    "policy_inv (s\<lparr>po_last_revision := Some revision\<rparr>)"
proof -
  from ok have inv: "policy_inv s" and c: "po_confirmed_level s = Some c" "po_failed_revision s = None"
    by (simp_all add: stretch_ok_def)
  have none: "po_pending_target s = None"
  proof (rule ccontr)
    assume "po_pending_target s \<noteq> None"
    with pending_observation[OF r this] t show False by simp
  qed
  have acc: "accepts opts s pm revision obs_at"
  proof (rule ccontr)
    assume "\<not> accepts opts s pm revision obs_at"
    with evaluate_observation_rejected[OF r this] t show False by simp
  qed
  obtain desired where lv: "level_for_pm25 pm opts = Inr desired"
    using level_for_pm25_wf[OF wf] acc by (auto simp: accepts_def)
  have h: "evaluate_hysteresis (s\<lparr>po_last_revision := Some revision\<rparr>) opts c desired revision obs_at = Inr r"
    using r c by (simp add: evaluate_observation_accepted[OF acc none lv] accepted_hysteresis)
  have mono: "rev_le x (po_last_revision s) \<Longrightarrow> x \<le> revision" for x
    using acc by (cases "po_last_revision s") (auto simp: accepts_def rev_le_def)
  have "policy_inv (s\<lparr>po_last_revision := Some revision\<rparr>)"
    using inv mono
    by (cases "po_deferred s") (auto simp: policy_inv_def dwell_ok_def rev_le_def)
  with that[OF lv _ _ h] level_for_pm25_range[OF wf lv] show ?thesis by simp
qed



text \<open>Concrete stretches for the witnesses: at HIGH (level 4) a clean reading starts the dwells and
  a second one seven minutes later commands SLEEP; at LOW (level 2) two dirty readings three
  seconds apart command TURBO.\<close>

definition confirmed_at :: "int \<Rightarrow> policy_state" where
  "confirmed_at l =
     \<lparr>po_confirmed_level = Some l, po_last_revision = None, po_upshift = None, po_downshifts = [],
      po_pending_target = None, po_deferred = None, po_failed_revision = None, po_failed_level = None\<rparr>"

lemma confirmed_at_inv: "1 \<le> l \<Longrightarrow> l \<le> 5 \<Longrightarrow> policy_inv (confirmed_at l)"
  by (simp add: confirmed_at_def policy_inv_def level_ok_def)



end
