(* ===== verification/Profile_Parsing.thy ===== *)
theory Profile_Parsing
  imports Json_Values Protocol_Service Auto_Options
begin

text \<open>
  Structural and semantic parsing of inheritance-resolved profiles (\<open>profiles/parsing.py\<close>).  A
  decoded document goes in, a \<open>device_profile\<close> or an exception comes out.  Strings are ASCII: the
  code's \<open>lower\<close> and \<open>casefold\<close> act on the letters A to Z.  The digest of the canonical document
  (\<open>hashlib.sha256\<close> over \<open>json.dumps\<close>) is the parameter \<open>digest\<close>; nothing depends on its value.
\<close>

section \<open>Characters and patterns\<close>

definition chr_between :: "char \<Rightarrow> char \<Rightarrow> char \<Rightarrow> bool" where
  "chr_between a b c \<longleftrightarrow> (of_char a :: int) \<le> of_char c \<and> (of_char c :: int) \<le> of_char b"

definition lower_char :: "char \<Rightarrow> char" where
  "lower_char c = (if chr_between CHR ''A'' CHR ''Z'' c then char_of ((of_char c :: int) + 32) else c)"

definition ascii_lower :: "string \<Rightarrow> string" where
  "ascii_lower s = map lower_char s"

definition is_lower_alnum :: "char \<Rightarrow> bool" where
  "is_lower_alnum c \<longleftrightarrow> chr_between CHR ''a'' CHR ''z'' c \<or> chr_between CHR ''0'' CHR ''9'' c"

definition lower_hex_value :: "char \<Rightarrow> int option" where
  "lower_hex_value c =
     (if chr_between CHR ''0'' CHR ''9'' c then Some (of_char c - of_char CHR ''0'')
      else if chr_between CHR ''a'' CHR ''f'' c then Some (of_char c - of_char CHR ''a'' + 10)
      else None)"

text \<open>\<open>^[a-z0-9]+(?:SEP[a-z0-9]+)*$\<close>: words of lower-case letters and digits, joined by one
  separator.  The flag says whether the current word already has a character.\<close>

fun separated_words :: "char \<Rightarrow> bool \<Rightarrow> string \<Rightarrow> bool" where
  "separated_words sep nonempty [] \<longleftrightarrow> nonempty"
| "separated_words sep nonempty (c # cs) \<longleftrightarrow>
     (if is_lower_alnum c then separated_words sep True cs
      else c = sep \<and> nonempty \<and> separated_words sep False cs)"

definition is_profile_id :: "string \<Rightarrow> bool" where
  "is_profile_id s = separated_words CHR ''-'' False s"

definition is_request_name :: "string \<Rightarrow> bool" where
  "is_request_name s = separated_words CHR ''_'' False s"

text \<open>\<open>^(?:[0-9a-f]{2})(?: [0-9a-f]{2})*$\<close> together with \<open>bytes.fromhex\<close>.\<close>

fun hex_text_bytes :: "string \<Rightarrow> bytes option" where
  "hex_text_bytes [a, b] =
     (case (lower_hex_value a, lower_hex_value b) of
        (Some x, Some y) \<Rightarrow> Some [word_of_int (16 * x + y)] | _ \<Rightarrow> None)"
| "hex_text_bytes (a # b # s # rest) =
     (case (lower_hex_value a, lower_hex_value b) of
        (Some x, Some y) \<Rightarrow>
          if s = CHR '' '' then map_option (\<lambda>bs. word_of_int (16 * x + y) # bs) (hex_text_bytes rest)
          else None
      | _ \<Rightarrow> None)"
| "hex_text_bytes _ = None"

section \<open>Checked access\<close>

definition p_object :: "json \<Rightarrow> jobject res" where
  "p_object v = (case v of JObject d \<Rightarrow> Inr d | _ \<Rightarrow> Inl ProfileError)"

definition p_array :: "json \<Rightarrow> json list res" where
  "p_array v = (case v of JArray xs \<Rightarrow> Inr xs | _ \<Rightarrow> Inl ProfileError)"

definition require_fields :: "jobject \<Rightarrow> string list \<Rightarrow> string list \<Rightarrow> unit res" where
  "require_fields d required allowed =
     (if \<not> set required \<subseteq> fst ` set d then Inl ProfileError
      else if \<not> fst ` set d \<subseteq> set allowed then Inl ProfileError
      else Inr ())"

definition hex_bytes :: "json \<Rightarrow> bool \<Rightarrow> bytes res" where
  "hex_bytes v frame =
     (case v of
        JString s \<Rightarrow>
          (case hex_text_bytes s of
             None \<Rightarrow> Inl ProfileError
           | Some data \<Rightarrow>
               if frame then (case validate_frame data of
                   Inr f \<Rightarrow> Inr f
                 | Inl e \<Rightarrow> if is_value_error e then Inl ProfileError else Inl e)
               else Inr data)
      | _ \<Rightarrow> Inl ProfileError)"

text \<open>A finite number within bounds; \<open>integer\<close> asks for an \<open>int\<close>.\<close>

definition p_number :: "json \<Rightarrow> rat \<Rightarrow> rat \<Rightarrow> bool \<Rightarrow> rat res" where
  "p_number v minimum maximum integer =
     (case v of
        JInt n \<Rightarrow>
          if minimum \<le> of_int n \<and> of_int n \<le> maximum then Inr (of_int n) else Inl ProfileError
      | JFloat x \<Rightarrow>
          if integer then Inl ProfileError
          else if minimum \<le> x \<and> x \<le> maximum then Inr x else Inl ProfileError
      | _ \<Rightarrow> Inl ProfileError)"

definition p_string :: "json \<Rightarrow> string res" where
  "p_string v = (case v of JString (c # cs) \<Rightarrow> Inr (c # cs) | _ \<Rightarrow> Inl ProfileError)"

definition p_string_tuple :: "json \<Rightarrow> string list res" where
  "p_string_tuple v =
     (case v of
        JArray xs \<Rightarrow> res_map_list (\<lambda>x. case x of JString s \<Rightarrow> Inr s | _ \<Rightarrow> Inl ProfileError) xs
      | _ \<Rightarrow> Inl ProfileError)"

text \<open>\<open>f(value[key]) if key in value else default\<close>\<close>

definition optional_field :: "jobject \<Rightarrow> string \<Rightarrow> (json \<Rightarrow> 'a res) \<Rightarrow> 'a \<Rightarrow> 'a res" where
  "optional_field d k f absent = (case map_of d k of Some v \<Rightarrow> f v | None \<Rightarrow> Inr absent)"

definition p_byte :: "json \<Rightarrow> int res" where
  "p_byte v = (case v of JInt n \<Rightarrow> if 0 \<le> n \<and> n \<le> 255 then Inr n else Inl ProfileError
               | _ \<Rightarrow> Inl ProfileError)"

definition p_int_pair :: "json \<Rightarrow> (int \<times> int) res" where
  "p_int_pair v = (case v of JArray [JInt a, JInt b] \<Rightarrow> Inr (a, b) | _ \<Rightarrow> Inl ProfileError)"

section \<open>Matchers\<close>

definition matcher_fields :: "(string \<times> string list) list" where
  "matcher_fields =
     [(''exact'', [''kind'', ''exact'', ''exact_alternatives'']),
      (''value_byte'', [''kind'', ''prefix'', ''allowed_values'', ''exact_alternatives'']),
      (''zero_payload'', [''kind'', ''prefix'', ''exact_alternatives'']),
      (''prefix'', [''kind'', ''prefix'', ''exact_alternatives'']),
      (''prefix_selector'', [''kind'', ''prefix'', ''selector'', ''exact_alternatives'']),
      (''fragments'', [''kind'', ''fragments'', ''exact_alternatives'']),
      (''h7129_metadata'', [''kind'', ''exact_alternatives'']),
      (''fields'', [''kind'', ''allowed_prefixes'', ''expected_fields'', ''exact_alternatives''])]"

definition matcher_complete :: "matcher_definition \<Rightarrow> bool" where
  "matcher_complete m =
     (if md_kind m = ''exact'' then md_exact m \<noteq> []
      else if md_kind m = ''value_byte'' then md_prefix m \<noteq> [] \<and> md_allowed_values m \<noteq> []
      else if md_kind m = ''zero_payload'' then md_prefix m \<noteq> []
      else if md_kind m = ''prefix'' then md_prefix m \<noteq> []
      else if md_kind m = ''prefix_selector'' then md_prefix m \<noteq> [] \<and> md_selector m \<noteq> []
      else if md_kind m = ''fragments'' then md_fragments m \<noteq> []
      else if md_kind m = ''h7129_metadata'' then True
      else md_allowed_prefixes m \<noteq> [] \<and> md_expected_fields m \<noteq> [])"

text \<open>The fields of a matcher whose kind is known, in the order the code reads them.\<close>

definition parse_matcher_body :: "jobject \<Rightarrow> string \<Rightarrow> matcher_definition res" where
  "parse_matcher_body d kind =
     res_bind (p_array (jget_default d ''exact_alternatives'' (JArray []))) (\<lambda>raw_alternatives.
     res_bind (res_map_list (\<lambda>x. hex_bytes x True) raw_alternatives) (\<lambda>alternatives.
     res_bind (optional_field d ''prefix'' (\<lambda>x. hex_bytes x False) []) (\<lambda>prefix.
     res_bind (optional_field d ''selector'' (\<lambda>x. hex_bytes x False) []) (\<lambda>selector.
     res_bind (optional_field d ''exact'' (\<lambda>x. hex_bytes x True) []) (\<lambda>exact.
     res_bind (p_array (jget_default d ''fragments'' (JArray []))) (\<lambda>raw_fragments.
     res_bind (p_array (jget_default d ''allowed_values'' (JArray []))) (\<lambda>raw_values.
     res_bind (p_array (jget_default d ''allowed_prefixes'' (JArray []))) (\<lambda>raw_prefixes.
     res_bind (res_map_list (\<lambda>x. hex_bytes x False) raw_prefixes) (\<lambda>allowed_prefixes.
     res_bind (p_array (jget_default d ''expected_fields'' (JArray []))) (\<lambda>raw_fields.
     res_bind (res_map_list p_int_pair raw_fields) (\<lambda>expected_fields.
     res_bind (res_map_list p_byte raw_fragments) (\<lambda>fragments.
     res_bind (res_map_list p_byte raw_values) (\<lambda>allowed_values.
     if \<not> list_all (\<lambda>(offset, expected).
              0 \<le> offset \<and> offset \<le> 18 \<and> 0 \<le> expected \<and> expected \<le> 255) expected_fields
     then Inl ProfileError
     else
       let m = \<lparr>md_kind = kind, md_prefix = prefix, md_selector = selector, md_exact = exact,
                md_exact_alternatives = alternatives, md_fragments = fragments,
                md_allowed_prefixes = allowed_prefixes, md_expected_fields = expected_fields,
                md_allowed_values = allowed_values\<rparr>
       in if \<not> matcher_complete m then Inl ProfileError else Inr m)))))))))))))"

definition parse_matcher :: "json \<Rightarrow> matcher_definition res" where
  "parse_matcher v =
     res_bind (p_object v) (\<lambda>d.
     res_bind (p_string (jget d ''kind'')) (\<lambda>kind.
     case map_of matcher_fields kind of
       None \<Rightarrow> Inl ProfileError
     | Some allowed \<Rightarrow>
         res_bind (require_fields d [''kind''] allowed) (\<lambda>_. parse_matcher_body d kind)))"

section \<open>Identity, Bluetooth and channel\<close>

text \<open>\<open>str.strip()\<close> of ASCII white space.\<close>

definition is_space :: "char \<Rightarrow> bool" where
  "is_space c \<longleftrightarrow> c = CHR '' '' \<or> chr_between (char_of (9 :: int)) (char_of (13 :: int)) c
     \<or> chr_between (char_of (28 :: int)) (char_of (31 :: int)) c"

definition ascii_strip :: "string \<Rightarrow> string" where
  "ascii_strip s = rev (dropWhile is_space (rev (dropWhile is_space s)))"

text \<open>Only a \<open>ValueError\<close> of an enumeration lookup is turned into a profile error.\<close>

definition p_enum :: "(string \<Rightarrow> 'a res) \<Rightarrow> json \<Rightarrow> 'a res" where
  "p_enum of_value v =
     (case v of
        JString s \<Rightarrow> (case of_value s of Inr x \<Rightarrow> Inr x
                      | Inl e \<Rightarrow> if is_value_error e then Inl ProfileError else Inl e)
      | _ \<Rightarrow> Inl ProfileError)"

definition identity_fields :: "string list" where
  "identity_fields =
     [''manufacturer'', ''model'', ''display_name'', ''support_status'', ''advertised_name_prefixes'']"

definition parse_identity :: "json \<Rightarrow> identity_profile res" where
  "parse_identity v =
     res_bind (p_object v) (\<lambda>d.
     res_bind (require_fields d identity_fields identity_fields) (\<lambda>_.
     res_bind (case jget d ''model'' of JNull \<Rightarrow> Inr None
         | x \<Rightarrow> res_bind (p_enum model_of_value x) (\<lambda>m. Inr (Some m))) (\<lambda>model.
     res_bind (p_enum support_status_of_value (jget d ''support_status'')) (\<lambda>status.
     res_bind (p_string_tuple (jget d ''advertised_name_prefixes'')) (\<lambda>prefixes.
     if \<exists>p \<in> set prefixes. ascii_strip p = [] \<or> p \<noteq> ascii_strip p then Inl ProfileError
     else
       res_bind (p_string (jget d ''manufacturer'')) (\<lambda>manufacturer.
       res_bind (p_string (jget d ''display_name'')) (\<lambda>display_name.
         Inr \<lparr>manufacturer = manufacturer, identity_model = model, display_name = display_name,
              support_status = status, advertised_name_prefixes = prefixes\<rparr>)))))))"

text \<open>\<open>str(UUID(raw))\<close>: the textual forms the standard library accepts, and the canonical text.\<close>

fun replace_all :: "string \<Rightarrow> string \<Rightarrow> string" where
  "replace_all needle [] = []"
| "replace_all needle (c # cs) =
     (if needle \<noteq> [] \<and> starts_with needle (c # cs)
      then replace_all needle (drop (length needle - 1) cs)
      else c # replace_all needle cs)"

definition strip_braces :: "string \<Rightarrow> string" where
  "strip_braces s =
     (let brace = (\<lambda>c. c = CHR ''{'' \<or> c = CHR ''}'')
      in rev (dropWhile brace (rev (dropWhile brace s))))"

text \<open>\<open>int(text, 16)\<close> of lower-case text: white space around it, a sign, a \<open>0x\<close> prefix and single
  underscores between digits are allowed.\<close>

fun hex_digits_value :: "int \<Rightarrow> bool \<Rightarrow> string \<Rightarrow> int option" where
  "hex_digits_value acc after_digit [] = (if after_digit then Some acc else None)"
| "hex_digits_value acc after_digit (c # cs) =
     (case lower_hex_value c of
        Some v \<Rightarrow> hex_digits_value (16 * acc + v) True cs
      | None \<Rightarrow> if c = CHR ''_'' \<and> after_digit then hex_digits_value acc False cs else None)"

definition py_int16 :: "string \<Rightarrow> int option" where
  "py_int16 s =
     (let t = ascii_strip s;
          (neg, body) = (case t of
             c # cs \<Rightarrow> if c = CHR ''-'' then (True, cs) else if c = CHR ''+'' then (False, cs)
                        else (False, t)
           | [] \<Rightarrow> (False, t));
          digits = (if starts_with ''0x_'' body then drop 3 body
                    else if starts_with ''0x'' body then drop 2 body else body)
      in map_option (\<lambda>n. if neg then - n else n) (hex_digits_value 0 False digits))"

text \<open>The lower-case hexadecimal text of a number, zero-padded to a width.\<close>

definition hex_char :: "int \<Rightarrow> char" where
  "hex_char d = (if d < 10 then char_of (48 + d) else char_of (87 + d))"

fun hex_text_width :: "nat \<Rightarrow> int \<Rightarrow> string" where
  "hex_text_width 0 n = []"
| "hex_text_width (Suc w) n = hex_text_width w (n div 16) @ [hex_char (n mod 16)]"

definition canonical_uuid :: "string \<Rightarrow> string option" where
  "canonical_uuid raw =
     (let hex = replace_all ''-''
                  (strip_braces (replace_all ''uuid:'' (replace_all ''urn:'' raw)))
      in if length hex \<noteq> 32 then None
         else case py_int16 hex of
           None \<Rightarrow> None
         | Some n \<Rightarrow>
             if \<not> (0 \<le> n \<and> n < 2 ^ 128) then None
             else let t = hex_text_width 32 n
                  in Some (take 8 t @ ''-'' @ py_slice 8 12 t @ ''-'' @ py_slice 12 16 t @ ''-''
                       @ py_slice 16 20 t @ ''-'' @ drop 20 t))"

definition p_uuid :: "json \<Rightarrow> string res" where
  "p_uuid v =
     res_bind (p_string v) (\<lambda>s.
       case canonical_uuid (ascii_lower s) of Some u \<Rightarrow> Inr u | None \<Rightarrow> Inl ProfileError)"

definition bluetooth_fields :: "string list" where
  "bluetooth_fields = [''service_uuid'', ''notify_uuid'', ''write_uuid'']"

definition parse_bluetooth :: "json \<Rightarrow> bluetooth_profile res" where
  "parse_bluetooth v =
     res_bind (p_object v) (\<lambda>d.
     res_bind (require_fields d bluetooth_fields bluetooth_fields) (\<lambda>_.
     res_bind (p_uuid (jget d ''service_uuid'')) (\<lambda>service.
     res_bind (p_uuid (jget d ''notify_uuid'')) (\<lambda>notify.
     res_bind (p_uuid (jget d ''write_uuid'')) (\<lambda>write.
     if card {service, notify, write} \<noteq> 3 then Inl ProfileError
     else Inr \<lparr>service_uuid = service, notify_uuid = notify, write_uuid = write\<rparr>)))))"

definition MAX_ATTEMPTS :: rat where "MAX_ATTEMPTS = 3"
definition MAX_GATT_TIMEOUT :: rat where "MAX_GATT_TIMEOUT = 45"
definition MAX_REQUEST_TIMEOUT :: rat where "MAX_REQUEST_TIMEOUT = 15"
definition MAX_COMMAND_DEADLINE :: rat where "MAX_COMMAND_DEADLINE = 120"
definition MAX_STARTUP_TIMEOUT :: rat where "MAX_STARTUP_TIMEOUT = 300"
definition MAX_BACKOFF :: rat where "MAX_BACKOFF = 60"
definition MAX_RECOVERY_WINDOW :: rat where "MAX_RECOVERY_WINDOW = 300"

definition negotiation_fields :: "string list" where
  "negotiation_fields = [''attempts'', ''retry_interval'', ''phase_timeout'', ''step_delay'']"

definition parse_negotiation :: "json \<Rightarrow> negotiation_policy option res" where
  "parse_negotiation v =
     (case v of
        JNull \<Rightarrow> Inr None
      | JObject d \<Rightarrow>
          res_bind (require_fields d negotiation_fields negotiation_fields) (\<lambda>_.
          res_bind (p_number (jget d ''attempts'') 1 MAX_ATTEMPTS True) (\<lambda>attempts.
          res_bind (p_number (jget d ''retry_interval'') 0 MAX_REQUEST_TIMEOUT False) (\<lambda>retry.
          res_bind (p_number (jget d ''phase_timeout'') (1 / 1000) MAX_REQUEST_TIMEOUT False) (\<lambda>phase.
          res_bind (p_number (jget d ''step_delay'') 0 1 False) (\<lambda>step.
          if retry * attempts < phase then Inl ProfileError
          else Inr (Some \<lparr>neg_attempts = \<lfloor>attempts\<rfloor>, neg_retry_interval = retry,
                          neg_phase_timeout = phase, neg_step_delay = step\<rparr>))))))
      | _ \<Rightarrow> Inl ProfileError)"

definition channel_fields :: "string list" where
  "channel_fields = [''strategy'', ''first_application_delay'', ''negotiation'']"

definition parse_channel :: "json \<Rightarrow> channel_profile res" where
  "parse_channel v =
     res_bind (p_object v) (\<lambda>d.
     res_bind (require_fields d channel_fields channel_fields) (\<lambda>_.
     res_bind (p_enum security_mode_of_value (jget d ''strategy'')) (\<lambda>strategy.
     res_bind (p_number (jget d ''first_application_delay'') 0 1 False) (\<lambda>first_delay.
     res_bind (parse_negotiation (jget d ''negotiation'')) (\<lambda>negotiation.
     if strategy = PLAINTEXT \<and> negotiation \<noteq> None then Inl ProfileError
     else if strategy = H7129_SESSION \<and> negotiation = None then Inl ProfileError
     else Inr \<lparr>ch_strategy = strategy, first_application_delay = first_delay,
               negotiation = negotiation\<rparr>)))))"

section \<open>Protocol\<close>

definition protocol_fields :: "string list" where
  "protocol_fields =
     [''codec'', ''checksum'', ''frame_size'', ''auto_parameter'', ''startup_mode_strategy'',
      ''commands'', ''request_catalog'', ''initialization_order'', ''refresh_order'',
      ''essential_request'', ''periodic_request'']"

definition command_fields :: "string list" where
  "command_fields =
     [''power'', ''fan_mode'', ''night_light_power'', ''night_light_brightness'',
      ''night_light_color'']"

definition registered_commands :: "(string \<times> string \<times> bytes) list" where
  "registered_commands =
     [(''power'', ''power_bool_v1'', [0x33, 0x01]),
      (''fan_mode'', ''fan_mode_v1'', [0x3A, 0x05]),
      (''night_light_power'', ''night_light_power_v1'', [0x3A, 0x1B, 0x01, 0x01]),
      (''night_light_brightness'', ''night_light_brightness_v1'', [0x3A, 0x1B, 0x01, 0x02]),
      (''night_light_color'', ''night_light_color_v1'', [0x3A, 0x1B, 0x05, 0x0D])]"

definition parse_command :: "string \<Rightarrow> json \<Rightarrow> command_definition res" where
  "parse_command command v =
     res_bind (p_object v) (\<lambda>d.
     res_bind (require_fields d [''strategy'', ''prefix''] [''strategy'', ''prefix'']) (\<lambda>_.
     case map_of registered_commands command of
       None \<Rightarrow> Inl KeyError
     | Some registered \<Rightarrow>
         let (expected_strategy, expected_prefix) =
               (if command = ''fan_mode'' \<and> jget d ''strategy'' = JString ''fan_mode_33_v1''
                then (''fan_mode_33_v1'', [0x33, 0x05]) else registered)
         in res_bind (p_string (jget d ''strategy'')) (\<lambda>strategy.
            res_bind (hex_bytes (jget d ''prefix'') False) (\<lambda>prefix.
              if strategy \<noteq> expected_strategy \<or> prefix \<noteq> expected_prefix then Inl ProfileError
              else Inr \<lparr>cd_strategy = strategy, cd_prefix = prefix\<rparr>))))"

fun parse_commands :: "jobject \<Rightarrow> (string \<times> command_definition) list res" where
  "parse_commands [] = Inr []"
| "parse_commands ((command, v) # rest) =
     res_bind (parse_command command v) (\<lambda>c.
     res_bind (parse_commands rest) (\<lambda>cs. Inr ((command, c) # cs)))"

text \<open>The catalog loop, with the names already taken.\<close>

fun parse_catalog :: "string list \<Rightarrow> json list \<Rightarrow> (string \<times> request_definition) list res" where
  "parse_catalog taken [] = Inr []"
| "parse_catalog taken (v # vs) =
     res_bind (p_object v) (\<lambda>d.
     res_bind (require_fields d [''name'', ''frame'', ''response''] [''name'', ''frame'', ''response''])
       (\<lambda>_.
     res_bind (p_string (jget d ''name'')) (\<lambda>name.
     if \<not> is_request_name name \<or> name \<in> set taken then Inl ProfileError
     else
       res_bind (hex_bytes (jget d ''frame'') True) (\<lambda>frame.
       res_bind (parse_matcher (jget d ''response'')) (\<lambda>rule.
       res_bind (parse_catalog (taken @ [name]) vs) (\<lambda>rest.
         Inr ((name, \<lparr>rd_name = name, rd_frame = frame, rd_response = rule\<rparr>) # rest)))))))"

text \<open>\<open>value == 20\<close> for a decoded value: an integer or a float of that value.\<close>

definition json_is_number :: "json \<Rightarrow> rat \<Rightarrow> bool" where
  "json_is_number v x = (case v of JInt n \<Rightarrow> of_int n = x | JFloat y \<Rightarrow> y = x | _ \<Rightarrow> False)"

definition startup_strategies :: "string list" where
  "startup_strategies = [''h7124_selector_00'', ''h7129_selector_pair'', ''h7123_direct'']"

text \<open>Membership in a set of strings: an unhashable value raises a type error.\<close>

definition p_startup_strategy :: "json \<Rightarrow> string res" where
  "p_startup_strategy v =
     (case v of
        JString s \<Rightarrow> if s \<in> set startup_strategies then Inr s else Inl ProfileError
      | JArray _ \<Rightarrow> Inl TypeError
      | JObject _ \<Rightarrow> Inl TypeError
      | _ \<Rightarrow> Inl ProfileError)"

definition parse_protocol :: "json \<Rightarrow> protocol_profile res" where
  "parse_protocol v =
     res_bind (p_object v) (\<lambda>d.
     res_bind (require_fields d protocol_fields protocol_fields) (\<lambda>_.
     if jget d ''codec'' \<noteq> JString ''govee_20_byte_v1'' \<or> jget d ''checksum'' \<noteq> JString ''xor_0_18'' \<or>
        \<not> json_is_number (jget d ''frame_size'') 20
     then Inl ProfileError
     else
       res_bind (p_startup_strategy (jget d ''startup_mode_strategy'')) (\<lambda>startup.
       res_bind (p_object (jget d ''commands'')) (\<lambda>commands_raw.
       res_bind (require_fields commands_raw command_fields command_fields) (\<lambda>_.
       res_bind (parse_commands commands_raw) (\<lambda>commands.
       res_bind (p_array (jget d ''request_catalog'')) (\<lambda>catalog_raw.
       if catalog_raw = [] then Inl ProfileError
       else
         res_bind (parse_catalog [] catalog_raw) (\<lambda>catalog.
         res_bind (p_string_tuple (jget d ''initialization_order'')) (\<lambda>init.
         res_bind (p_string_tuple (jget d ''refresh_order'')) (\<lambda>refresh.
         res_bind (p_string (jget d ''essential_request'')) (\<lambda>essential.
         res_bind (p_string (jget d ''periodic_request'')) (\<lambda>periodic.
         if \<not> (set init \<union> set refresh \<union> {essential, periodic} \<subseteq> fst ` set catalog)
         then Inl ProfileError
         else if \<not> distinct init \<or> \<not> distinct refresh then Inl ProfileError
         else
           res_bind (py_getitem catalog periodic) (\<lambda>poll.
           if periodic \<noteq> essential \<or> take 2 (rd_frame poll) \<noteq> [0xAA, 0x01] then Inl ProfileError
           else
             res_bind (p_number (jget d ''auto_parameter'') 0 255 True) (\<lambda>auto.
               Inr \<lparr>codec_name = ''govee_20_byte_v1'', checksum_name = ''xor_0_18'', frame_size = 20,
                    pr_auto_parameter = \<lfloor>auto\<rfloor>, startup_mode_strategy = startup,
                    pr_commands = commands, request_catalog = catalog,
                    initialization_order = init, refresh_order = refresh,
                    essential_request = essential, periodic_request = periodic\<rparr>))))))))))))))"

section \<open>Capabilities, timings and defaults\<close>

definition p_bool :: "json \<Rightarrow> bool res" where
  "p_bool v = (case v of JBool b \<Rightarrow> Inr b | _ \<Rightarrow> Inl ProfileError)"

definition capability_fields :: "string list" where
  "capability_fields =
     [''power'', ''fan'', ''light'', ''pm25'', ''filter_life'', ''unsolicited_updates'', ''refresh'']"

definition parse_capabilities :: "json \<Rightarrow> capability_profile res" where
  "parse_capabilities v =
     res_bind (p_object v) (\<lambda>d.
     res_bind (require_fields d capability_fields capability_fields) (\<lambda>_.
     res_bind (p_bool (jget d ''power'')) (\<lambda>has_power.
     res_bind (p_bool (jget d ''fan'')) (\<lambda>has_fan.
     res_bind (p_bool (jget d ''light'')) (\<lambda>has_light.
     res_bind (p_bool (jget d ''pm25'')) (\<lambda>has_pm25.
     res_bind (p_bool (jget d ''filter_life'')) (\<lambda>has_filter.
     res_bind (p_bool (jget d ''unsolicited_updates'')) (\<lambda>has_updates.
     res_bind (p_bool (jget d ''refresh'')) (\<lambda>has_refresh.
       Inr \<lparr>cap_power = has_power, cap_fan = has_fan, cap_light = has_light, cap_pm25 = has_pm25,
            cap_filter_life = has_filter, cap_unsolicited_updates = has_updates,
            cap_refresh = has_refresh\<rparr>)))))))))"

definition attempt_fields :: "string list" where
  "attempt_fields =
     [''connect_attempts'', ''initialization_attempts'', ''essential_initialization_max_batches'',
      ''periodic_poll_attempts'', ''refresh_attempts'', ''command_send_attempts'']"

definition threshold_fields :: "string list" where
  "threshold_fields =
     [''recovery_storm_failure_threshold'', ''recovery_storm_advertisement_threshold'']"

definition timing_fields :: "string list" where
  "timing_fields =
     [''connect_attempts'', ''connection_attempt_timeout'', ''connection_abort_timeout'',
      ''connection_diagnostic_timeout'', ''notification_subscribe_timeout'', ''gatt_write_timeout'',
      ''gatt_disconnect_timeout'', ''gatt_operation_cancel_timeout'',
      ''stale_connection_cleanup_timeout'', ''stale_connection_check_interval'',
      ''advertisement_check_interval'', ''recent_cached_advertisement_max_age'',
      ''fresh_advertisement_timeout'', ''transaction_timeout'', ''initialization_attempts'',
      ''essential_initialization_max_batches'', ''initialization_retry_delay'',
      ''periodic_poll_attempts'', ''refresh_attempts'', ''command_send_attempts'',
      ''command_deadline'', ''startup_timeout'', ''between_request_delay'', ''poll_interval'',
      ''initial_poll_delay'', ''backoff_initial'', ''backoff_max'', ''backoff_reset_after'',
      ''recent_advertisement_backoff_max'', ''advertisement_settle_delay'',
      ''recovery_storm_window'', ''recovery_storm_failure_threshold'',
      ''recovery_storm_advertisement_threshold'', ''recovery_storm_initial_floor'',
      ''recovery_storm_max_floor'']"

definition timing_maximum :: "string \<Rightarrow> rat" where
  "timing_maximum field =
     (if field \<in> set attempt_fields then MAX_ATTEMPTS
      else if field = ''connection_attempt_timeout'' then MAX_GATT_TIMEOUT
      else if field = ''transaction_timeout'' then MAX_REQUEST_TIMEOUT
      else if field = ''command_deadline'' then MAX_COMMAND_DEADLINE
      else if field = ''backoff_max'' then MAX_BACKOFF
      else if field = ''recovery_storm_window'' then MAX_RECOVERY_WINDOW
      else MAX_STARTUP_TIMEOUT)"

definition timing_integer :: "string \<Rightarrow> bool" where
  "timing_integer field \<longleftrightarrow> field \<in> set attempt_fields \<union> set threshold_fields"

definition parse_timing_value :: "jobject \<Rightarrow> string \<Rightarrow> (string \<times> rat) res" where
  "parse_timing_value d field =
     res_bind (p_number (jget d field) (if timing_integer field then 1 else 0)
         (timing_maximum field) (timing_integer field)) (\<lambda>x.
       Inr (field, x))"

text \<open>\<open>TimingProfile(**values)\<close>: every field is present.\<close>

definition timing_value :: "(string \<times> rat) list \<Rightarrow> string \<Rightarrow> rat" where
  "timing_value vs field = (case map_of vs field of Some x \<Rightarrow> x | None \<Rightarrow> 0)"

definition timing_of_values :: "(string \<times> rat) list \<Rightarrow> timing_profile" where
  "timing_of_values vs =
     (let num = timing_value vs; whole = (\<lambda>field. \<lfloor>timing_value vs field\<rfloor>) in
      \<lparr>connect_attempts = whole ''connect_attempts'',
       connection_attempt_timeout = num ''connection_attempt_timeout'',
       connection_abort_timeout = num ''connection_abort_timeout'',
       connection_diagnostic_timeout = num ''connection_diagnostic_timeout'',
       notification_subscribe_timeout = num ''notification_subscribe_timeout'',
       gatt_write_timeout = num ''gatt_write_timeout'',
       gatt_disconnect_timeout = num ''gatt_disconnect_timeout'',
       gatt_operation_cancel_timeout = num ''gatt_operation_cancel_timeout'',
       stale_connection_cleanup_timeout = num ''stale_connection_cleanup_timeout'',
       stale_connection_check_interval = num ''stale_connection_check_interval'',
       advertisement_check_interval = num ''advertisement_check_interval'',
       recent_cached_advertisement_max_age = num ''recent_cached_advertisement_max_age'',
       fresh_advertisement_timeout = num ''fresh_advertisement_timeout'',
       transaction_timeout = num ''transaction_timeout'',
       initialization_attempts = whole ''initialization_attempts'',
       essential_initialization_max_batches = whole ''essential_initialization_max_batches'',
       initialization_retry_delay = num ''initialization_retry_delay'',
       periodic_poll_attempts = whole ''periodic_poll_attempts'',
       refresh_attempts = whole ''refresh_attempts'',
       command_send_attempts = whole ''command_send_attempts'',
       command_deadline = num ''command_deadline'',
       startup_timeout = num ''startup_timeout'',
       between_request_delay = num ''between_request_delay'',
       poll_interval = num ''poll_interval'',
       initial_poll_delay = num ''initial_poll_delay'',
       backoff_initial = num ''backoff_initial'',
       backoff_max = num ''backoff_max'',
       backoff_reset_after = num ''backoff_reset_after'',
       recent_advertisement_backoff_max = num ''recent_advertisement_backoff_max'',
       advertisement_settle_delay = num ''advertisement_settle_delay'',
       recovery_storm_window = num ''recovery_storm_window'',
       recovery_storm_failure_threshold = whole ''recovery_storm_failure_threshold'',
       recovery_storm_advertisement_threshold = whole ''recovery_storm_advertisement_threshold'',
       recovery_storm_initial_floor = num ''recovery_storm_initial_floor'',
       recovery_storm_max_floor = num ''recovery_storm_max_floor''\<rparr>)"

definition parse_timings :: "json \<Rightarrow> timing_profile res" where
  "parse_timings v =
     res_bind (p_object v) (\<lambda>d.
     res_bind (require_fields d timing_fields timing_fields) (\<lambda>_.
     res_bind (res_map_list (parse_timing_value d) timing_fields) (\<lambda>vs.
     let t = timing_of_values vs
     in if MAX_REQUEST_TIMEOUT < notification_subscribe_timeout t \<or>
           MAX_REQUEST_TIMEOUT < gatt_write_timeout t then Inl ProfileError
        else if backoff_max t < backoff_initial t \<or>
                recovery_storm_max_floor t < recovery_storm_initial_floor t then Inl ProfileError
        else Inr t)))"

text \<open>Integers of a list within bounds, with the code's exact tests.\<close>

definition json_list :: "json \<Rightarrow> json list" where
  "json_list v = (case v of JArray xs \<Rightarrow> xs | _ \<Rightarrow> [])"

definition p_bounded_int :: "int \<Rightarrow> json \<Rightarrow> int res" where
  "p_bounded_int maximum v =
     (case v of JInt n \<Rightarrow> if 0 \<le> n \<and> n \<le> maximum then Inr n else Inl ProfileError
      | _ \<Rightarrow> Inl ProfileError)"

definition custom_auto_fields :: "string list" where
  "custom_auto_fields =
     [''modes'', ''pm25_boundaries'', ''upshift_confirmation_seconds'', ''downshift_delays_minutes'']"

definition parse_custom_auto :: "json \<Rightarrow> custom_auto_defaults res" where
  "parse_custom_auto v =
     res_bind (p_object v) (\<lambda>d.
     res_bind (require_fields d custom_auto_fields custom_auto_fields) (\<lambda>_.
     res_bind (p_string_tuple (jget d ''modes'')) (\<lambda>names.
     res_bind (res_map_list (\<lambda>name. p_enum fan_mode_of_value (JString name)) names) (\<lambda>modes.
     if modes \<noteq> [SLEEP, LOW, MEDIUM, HIGH, TURBO] then Inl ProfileError
     else
       let raw_boundaries = json_list (jget d ''pm25_boundaries'');
           raw_delays = json_list (jget d ''downshift_delays_minutes'')
       in if length raw_boundaries \<noteq> 4 then Inl ProfileError
          else res_bind (res_map_list (p_bounded_int 999) raw_boundaries) (\<lambda>boundaries.
            if boundaries \<noteq> sorted_list_of_set (set boundaries) then Inl ProfileError
            else if length raw_delays \<noteq> 4 then Inl ProfileError
            else res_bind (res_map_list (p_bounded_int 1440) raw_delays) (\<lambda>delays.
                 res_bind (p_number (jget d ''upshift_confirmation_seconds'') 0 300 True) (\<lambda>upshift.
                   Inr \<lparr>cad_modes = modes, cad_pm25_boundaries = boundaries,
                        cad_upshift_confirmation_seconds = \<lfloor>upshift\<rfloor>,
                        cad_downshift_delays_minutes = delays\<rparr>)))))))"

section \<open>The whole profile\<close>

definition SCHEMA_VERSION :: int where
  "SCHEMA_VERSION = 1"

definition root_fields :: "string list" where
  "root_fields =
     [''schema_version'', ''profile_id'', ''identity'', ''bluetooth'', ''channel'', ''protocol'',
      ''capabilities'', ''timings'', ''custom_auto_defaults'']"

definition parse_profile ::
    "(jobject \<Rightarrow> string) \<Rightarrow> jobject \<Rightarrow> string list \<Rightarrow> string \<Rightarrow> device_profile res" where
  "parse_profile digest raw ancestry source =
     res_bind (require_fields raw root_fields root_fields) (\<lambda>_.
     if jget raw ''schema_version'' \<noteq> JInt SCHEMA_VERSION then Inl ProfileError
     else
       res_bind (p_string (jget raw ''profile_id'')) (\<lambda>profile_id.
       if \<not> is_profile_id profile_id then Inl ProfileError
       else
         res_bind (parse_identity (jget raw ''identity'')) (\<lambda>identity.
         res_bind (parse_bluetooth (jget raw ''bluetooth'')) (\<lambda>bluetooth.
         res_bind (parse_channel (jget raw ''channel'')) (\<lambda>channel.
         res_bind (parse_protocol (jget raw ''protocol'')) (\<lambda>protocol.
         res_bind (parse_capabilities (jget raw ''capabilities'')) (\<lambda>capabilities.
         res_bind (parse_timings (jget raw ''timings'')) (\<lambda>timings.
         res_bind (parse_custom_auto (jget raw ''custom_auto_defaults'')) (\<lambda>defaults.
           Inr \<lparr>schema_version = SCHEMA_VERSION, profile_id = profile_id, lineage = ancestry,
                source_basename = source, fingerprint = digest raw, identity = identity,
                bluetooth = bluetooth, channel = channel, protocol = protocol,
                capabilities = capabilities, timings = timings,
                custom_auto_defaults = defaults\<rparr>)))))))))"

section \<open>What parsing guarantees\<close>

definition matcher_ok :: "matcher_definition \<Rightarrow> bool" where
  "matcher_ok m \<longleftrightarrow>
     md_kind m \<in> fst ` set matcher_fields \<and> matcher_complete m \<and>
     (\<forall>(offset, v) \<in> set (md_expected_fields m). 0 \<le> offset \<and> offset \<le> 18 \<and> 0 \<le> v \<and> v \<le> 255)"

definition request_ok :: "string \<times> request_definition \<Rightarrow> bool" where
  "request_ok e \<longleftrightarrow>
     rd_name (snd e) = fst e \<and> is_valid_frame (rd_frame (snd e)) \<and> matcher_ok (rd_response (snd e))"

definition command_ok :: "string \<times> command_definition \<Rightarrow> bool" where
  "command_ok e \<longleftrightarrow>
     map_of registered_commands (fst e) = Some (cd_strategy (snd e), cd_prefix (snd e)) \<or>
     fst e = ''fan_mode'' \<and> snd e = \<lparr>cd_strategy = ''fan_mode_33_v1'', cd_prefix = [0x33, 0x05]\<rparr>"

definition protocol_wf :: "protocol_profile \<Rightarrow> bool" where
  "protocol_wf r \<longleftrightarrow>
     frame_size r = 20 \<and> 0 \<le> pr_auto_parameter r \<and> pr_auto_parameter r \<le> 255 \<and>
     startup_mode_strategy r \<in> set startup_strategies \<and>
     fst ` set (pr_commands r) = set command_fields \<and> (\<forall>e \<in> set (pr_commands r). command_ok e) \<and>
     distinct (map fst (request_catalog r)) \<and> (\<forall>e \<in> set (request_catalog r). request_ok e) \<and>
     set (initialization_order r) \<union> set (refresh_order r) \<subseteq> fst ` set (request_catalog r) \<and>
     distinct (initialization_order r) \<and> distinct (refresh_order r) \<and>
     periodic_request r = essential_request r \<and>
     (\<exists>d. map_of (request_catalog r) (periodic_request r) = Some d \<and>
        take 2 (rd_frame d) = [0xAA, 0x01])"

definition channel_wf :: "channel_profile \<Rightarrow> bool" where
  "channel_wf c \<longleftrightarrow>
     0 \<le> first_application_delay c \<and> first_application_delay c \<le> 1 \<and>
     (negotiation c = None \<longleftrightarrow> ch_strategy c = PLAINTEXT) \<and>
     (\<forall>n. negotiation c = Some n \<longrightarrow>
        1 \<le> neg_attempts n \<and> neg_attempts n \<le> 3 \<and> 0 \<le> neg_retry_interval n \<and>
        0 < neg_phase_timeout n \<and> neg_phase_timeout n \<le> neg_retry_interval n * of_int (neg_attempts n))"

definition timings_wf :: "timing_profile \<Rightarrow> bool" where
  "timings_wf t \<longleftrightarrow>
     (\<forall>n \<in> {connect_attempts t, initialization_attempts t, essential_initialization_max_batches t,
        periodic_poll_attempts t, refresh_attempts t, command_send_attempts t}. 1 \<le> n \<and> n \<le> 3) \<and>
     1 \<le> recovery_storm_failure_threshold t \<and> 1 \<le> recovery_storm_advertisement_threshold t \<and>
     0 \<le> transaction_timeout t \<and> transaction_timeout t \<le> 15 \<and>
     0 \<le> command_deadline t \<and> command_deadline t \<le> 120 \<and>
     0 \<le> startup_timeout t \<and> startup_timeout t \<le> 300 \<and>
     0 \<le> backoff_initial t \<and> backoff_initial t \<le> backoff_max t \<and> backoff_max t \<le> 60 \<and>
     0 \<le> recent_advertisement_backoff_max t \<and> 0 \<le> backoff_reset_after t \<and>
     0 \<le> recovery_storm_window t \<and> 0 \<le> recovery_storm_initial_floor t \<and>
     recovery_storm_initial_floor t \<le> recovery_storm_max_floor t"

definition profile_wf :: "device_profile \<Rightarrow> bool" where
  "profile_wf p \<longleftrightarrow>
     is_profile_id (profile_id p) \<and> channel_wf (channel p) \<and> protocol_wf (protocol p) \<and>
     timings_wf (timings p) \<and> options_wf (default_options (custom_auto_defaults p)) \<and>
     card {service_uuid (bluetooth p), notify_uuid (bluetooth p), write_uuid (bluetooth p)} = 3 \<and>
     (\<forall>x \<in> set (advertised_name_prefixes (identity p)). x \<noteq> [] \<and> ascii_strip x = x)"

lemma hex_bytes_frame: "hex_bytes v True = Inr f \<Longrightarrow> is_valid_frame f"
  by (auto simp: hex_bytes_def validate_frame_Inr is_valid_frame_iff
      split: json.splits option.splits sum.splits if_splits)

lemma require_fields_Inr:
  "require_fields d r a = Inr u \<longleftrightarrow> set r \<subseteq> fst ` set d \<and> fst ` set d \<subseteq> set a"
  by (auto simp: require_fields_def)

lemma parse_matcher_body_ok:
  assumes "parse_matcher_body d kind = Inr m"
  shows "md_kind m = kind \<and> matcher_complete m \<and>
    list_all (\<lambda>(offset, v). 0 \<le> offset \<and> offset \<le> 18 \<and> 0 \<le> v \<and> v \<le> 255) (md_expected_fields m)"
  using assms unfolding parse_matcher_body_def res_bind_eq_Inr Let_def
  by (elim exE conjE) (auto split: if_splits)

lemma parse_matcher_ok:
  assumes "parse_matcher v = Inr m"
  shows "matcher_ok m"
proof -
  from assms obtain d kind allowed where k: "map_of matcher_fields kind = Some allowed"
    and b: "parse_matcher_body d kind = Inr m"
    by (auto simp: parse_matcher_def split: option.splits)
  have "kind \<in> fst ` set matcher_fields" using map_of_SomeD[OF k] by force
  with parse_matcher_body_ok[OF b] show ?thesis by (auto simp: matcher_ok_def list_all_iff)
qed

lemma parse_catalog_ok:
  "parse_catalog taken vs = Inr cat \<Longrightarrow>
     distinct (map fst cat) \<and> fst ` set cat \<inter> set taken = {} \<and> (\<forall>e \<in> set cat. request_ok e) \<and>
     length cat = length vs"
proof (induction vs arbitrary: taken cat)
  case Nil
  then show ?case by simp
next
  case (Cons v vs)
  from Cons.prems obtain d name frame rule rest where
    n: "name \<notin> set taken" and fr: "hex_bytes (jget d ''frame'') True = Inr frame"
    and rl: "parse_matcher (jget d ''response'') = Inr rule"
    and rest: "parse_catalog (taken @ [name]) vs = Inr rest"
    and cat: "cat = (name, \<lparr>rd_name = name, rd_frame = frame, rd_response = rule\<rparr>) # rest"
    by (auto split: if_splits)
  from Cons.IH[OF rest] n cat hex_bytes_frame[OF fr] parse_matcher_ok[OF rl] show ?case
    by (auto simp: request_ok_def)
qed

lemma parse_command_ok:
  assumes "parse_command command v = Inr c"
  shows "command_ok (command, c)"
proof -
  from assms obtain d reg where d: "p_object v = Inr d" and reg: "map_of registered_commands command = Some reg"
    by (auto simp: parse_command_def split: option.splits)
  show ?thesis
  proof (cases "command = ''fan_mode'' \<and> jget d ''strategy'' = JString ''fan_mode_33_v1''")
    case True
    with assms d reg have "c = \<lparr>cd_strategy = ''fan_mode_33_v1'', cd_prefix = [0x33, 0x05]\<rparr>"
      by (auto simp: parse_command_def Let_def split: if_splits)
    with True show ?thesis by (simp add: command_ok_def)
  next
    case False
    with assms d reg have "c = \<lparr>cd_strategy = fst reg, cd_prefix = snd reg\<rparr>"
      by (auto simp: parse_command_def Let_def split: if_splits prod.splits)
    with reg show ?thesis by (cases reg) (simp add: command_ok_def)
  qed
qed

lemma parse_commands_ok:
  "parse_commands d = Inr cs \<Longrightarrow> map fst cs = map fst d \<and> (\<forall>e \<in> set cs. command_ok e)"
  by (induction d arbitrary: cs rule: parse_commands.induct) (auto dest: parse_command_ok)

lemma p_number_Inr:
  "p_number v lo hi int_only = Inr x \<Longrightarrow> lo \<le> x \<and> x \<le> hi \<and> (int_only \<longrightarrow> x = of_int \<lfloor>x\<rfloor>)"
  by (auto simp: p_number_def split: json.splits if_splits)

lemma parse_protocol_wf:
  assumes "parse_protocol v = Inr r"
  shows "protocol_wf r"
proof -
  from assms obtain d startup commands_raw commands catalog_raw catalog init refresh periodic poll auto where
    st: "p_startup_strategy (jget d ''startup_mode_strategy'') = Inr startup"
    and cf: "require_fields commands_raw command_fields command_fields = Inr ()"
    and cm: "parse_commands commands_raw = Inr commands"
    and cat: "parse_catalog [] catalog_raw = Inr catalog"
    and refs: "set init \<subseteq> fst ` set catalog" "set refresh \<subseteq> fst ` set catalog"
      "distinct init" "distinct refresh"
    and poll: "map_of catalog periodic = Some poll" "take 2 (rd_frame poll) = [0xAA, 0x01]"
    and auto: "p_number (jget d ''auto_parameter'') 0 255 True = Inr auto"
    and r: "r = \<lparr>codec_name = ''govee_20_byte_v1'', checksum_name = ''xor_0_18'', frame_size = 20,
                    pr_auto_parameter = \<lfloor>auto\<rfloor>, startup_mode_strategy = startup,
                    pr_commands = commands, request_catalog = catalog,
                    initialization_order = init, refresh_order = refresh,
                    essential_request = periodic, periodic_request = periodic\<rparr>"
    unfolding parse_protocol_def res_bind_eq_Inr
    by (elim exE conjE) (auto split: if_splits)
  have "startup \<in> set startup_strategies"
    using st by (auto simp: p_startup_strategy_def split: json.splits if_splits)
  moreover have "fst ` set commands = set command_fields" "\<forall>e \<in> set commands. command_ok e"
    using cf parse_commands_ok[OF cm] by (metis require_fields_Inr list.set_map subset_antisym, simp)
  moreover have "0 \<le> \<lfloor>auto\<rfloor>" "\<lfloor>auto\<rfloor> \<le> 255"
    using p_number_Inr[OF auto] by (simp_all add: zero_le_floor floor_le_iff)
  ultimately show ?thesis
    using parse_catalog_ok[OF cat] refs poll r by (simp add: protocol_wf_def)
qed

lemma parse_channel_wf:
  assumes "parse_channel v = Inr c"
  shows "channel_wf c"
proof -
  from assms obtain d strategy first_delay neg where
    f: "p_number (jget d ''first_application_delay'') 0 1 False = Inr first_delay"
    and n: "parse_negotiation (jget d ''negotiation'') = Inr neg"
    and st: "\<not> (strategy = PLAINTEXT \<and> neg \<noteq> None)" "\<not> (strategy = H7129_SESSION \<and> neg = None)"
    and c: "c = \<lparr>ch_strategy = strategy, first_application_delay = first_delay, negotiation = neg\<rparr>"
    unfolding parse_channel_def res_bind_eq_Inr by (elim exE conjE) (auto split: if_splits)
  have "1 \<le> neg_attempts x \<and> neg_attempts x \<le> 3 \<and> 0 \<le> neg_retry_interval x \<and>
        0 < neg_phase_timeout x \<and> neg_phase_timeout x \<le> neg_retry_interval x * of_int (neg_attempts x)"
    if "neg = Some x" for x
  proof -
    from n that obtain e attempts retry phase step where
      a: "p_number (jget e ''attempts'') 1 MAX_ATTEMPTS True = Inr attempts"
      and rt: "p_number (jget e ''retry_interval'') 0 MAX_REQUEST_TIMEOUT False = Inr retry"
      and ph: "p_number (jget e ''phase_timeout'') (1 / 1000) MAX_REQUEST_TIMEOUT False = Inr phase"
      and le: "\<not> retry * attempts < phase"
      and x: "x = \<lparr>neg_attempts = \<lfloor>attempts\<rfloor>, neg_retry_interval = retry,
                    neg_phase_timeout = phase, neg_step_delay = step\<rparr>"
      by (auto simp: parse_negotiation_def split: json.splits if_splits)
    have "1 \<le> \<lfloor>attempts\<rfloor>" "\<lfloor>attempts\<rfloor> \<le> 3" "attempts = of_int \<lfloor>attempts\<rfloor>"
      using p_number_Inr[OF a] by (simp_all add: MAX_ATTEMPTS_def le_floor_iff floor_le_iff)
    moreover have "0 < phase" "0 \<le> retry" using p_number_Inr[OF ph] p_number_Inr[OF rt] by simp_all
    moreover have "phase \<le> retry * of_int \<lfloor>attempts\<rfloor>" using le calculation(3) by simp
    ultimately show ?thesis by (simp add: x)
  qed
  moreover have "neg = None \<longleftrightarrow> strategy = PLAINTEXT" using st by (cases strategy) auto
  ultimately show ?thesis using p_number_Inr[OF f] c by (simp add: channel_wf_def)
qed

lemma parse_timing_values_bounds:
  assumes "res_map_list (parse_timing_value d) names = Inr vs" and "distinct names" and "f \<in> set names"
  shows "(if timing_integer f then 1 else 0) \<le> timing_value vs f \<and> timing_value vs f \<le> timing_maximum f \<and>
    (timing_integer f \<longrightarrow> timing_value vs f = of_int \<lfloor>timing_value vs f\<rfloor>)"
  using assms
proof (induction names arbitrary: vs)
  case Nil
  then show ?case by simp
next
  case (Cons g names)
  from Cons.prems(1) obtain y ws where y: "parse_timing_value d g = Inr y"
    and ws: "res_map_list (parse_timing_value d) names = Inr ws" and ys: "vs = y # ws"
    by auto
  from y ys obtain x where x: "p_number (jget d g) (if timing_integer g then 1 else 0)
         (timing_maximum g) (timing_integer g) = Inr x" and vs: "vs = (g, x) # ws"
    by (auto simp: parse_timing_value_def)
  show ?case
  proof (cases "f = g")
    case True
    with p_number_Inr[OF x] vs show ?thesis by (simp add: timing_value_def)
  next
    case False
    with Cons.IH[OF ws] Cons.prems(2,3) vs show ?thesis by (simp add: timing_value_def)
  qed
qed

lemma parse_timings_wf:
  assumes "parse_timings v = Inr t"
  shows "timings_wf t"
proof -
  from assms obtain d vs where vs: "res_map_list (parse_timing_value d) timing_fields = Inr vs"
    and t: "t = timing_of_values vs"
    and o: "\<not> (backoff_max t < backoff_initial t \<or>
                recovery_storm_max_floor t < recovery_storm_initial_floor t)"
    by (auto simp: parse_timings_def Let_def split: if_splits)
  have dist: "distinct timing_fields" by (simp add: timing_fields_def)
  note b = parse_timing_values_bounds[OF vs dist]
  have int_bounds: "1 \<le> timing_value vs f \<and> timing_value vs f < 4"
    if "f \<in> set attempt_fields" for f
  proof -
    have "f \<in> set timing_fields" using that by (auto simp: attempt_fields_def timing_fields_def)
    with b[of f] that show ?thesis
      by (simp add: timing_integer_def timing_maximum_def MAX_ATTEMPTS_def)
  qed
  have threshold: "1 \<le> timing_value vs f" if "f \<in> set threshold_fields" for f
  proof -
    have "f \<in> set timing_fields" using that by (auto simp: threshold_fields_def timing_fields_def)
    with b[of f] that show ?thesis by (simp add: timing_integer_def)
  qed
  have nonneg: "0 \<le> timing_value vs f" if "f \<in> set timing_fields" for f
    using b[OF that] by (auto split: if_splits)
  have upper: "timing_value vs f \<le> timing_maximum f" if "f \<in> set timing_fields" for f
    using b[OF that] by simp
  have i: "(\<forall>n \<in> {connect_attempts t, initialization_attempts t, essential_initialization_max_batches t,
        periodic_poll_attempts t, refresh_attempts t, command_send_attempts t}. 1 \<le> n \<and> n \<le> 3)"
    by (simp add: t timing_of_values_def Let_def int_bounds attempt_fields_def)
  have th: "1 \<le> recovery_storm_failure_threshold t" "1 \<le> recovery_storm_advertisement_threshold t"
    by (simp_all add: t timing_of_values_def Let_def threshold threshold_fields_def)
  have up: "transaction_timeout t \<le> 15" "command_deadline t \<le> 120" "startup_timeout t \<le> 300"
    "backoff_max t \<le> 60"
    using upper[of "''transaction_timeout''"] upper[of "''command_deadline''"]
      upper[of "''startup_timeout''"] upper[of "''backoff_max''"]
    by (simp_all add: t timing_of_values_def Let_def timing_fields_def timing_maximum_def attempt_fields_def
        MAX_REQUEST_TIMEOUT_def MAX_COMMAND_DEADLINE_def MAX_STARTUP_TIMEOUT_def MAX_BACKOFF_def)
  have lo: "0 \<le> transaction_timeout t" "0 \<le> command_deadline t" "0 \<le> startup_timeout t"
    "0 \<le> backoff_initial t" "0 \<le> recent_advertisement_backoff_max t" "0 \<le> backoff_reset_after t"
    "0 \<le> recovery_storm_window t" "0 \<le> recovery_storm_initial_floor t"
    by (simp_all add: t timing_of_values_def Let_def nonneg timing_fields_def)
  from i th up lo o show ?thesis unfolding timings_wf_def by (simp add: not_less)
qed

lemma p_bounded_int_map:
  "res_map_list (p_bounded_int n) vs = Inr ks \<Longrightarrow> length ks = length vs \<and> (\<forall>k \<in> set ks. 0 \<le> k \<and> k \<le> n)"
proof (induction vs arbitrary: ks)
  case Nil
  then show ?case by simp
next
  case (Cons v vs)
  then show ?case by (auto simp: p_bounded_int_def split: json.splits if_splits)
qed

lemma parse_custom_auto_wf:
  assumes "parse_custom_auto v = Inr c"
  shows "options_wf (default_options c)"
proof -
  from assms obtain d boundaries delays upshift where
    b: "length (json_list (jget d ''pm25_boundaries'')) = 4"
      "res_map_list (p_bounded_int 999) (json_list (jget d ''pm25_boundaries'')) = Inr boundaries"
      "boundaries = sorted_list_of_set (set boundaries)"
    and dl: "length (json_list (jget d ''downshift_delays_minutes'')) = 4"
      "res_map_list (p_bounded_int 1440) (json_list (jget d ''downshift_delays_minutes'')) = Inr delays"
    and up: "p_number (jget d ''upshift_confirmation_seconds'') 0 300 True = Inr upshift"
    and c: "c = \<lparr>cad_modes = [SLEEP, LOW, MEDIUM, HIGH, TURBO], cad_pm25_boundaries = boundaries,
                        cad_upshift_confirmation_seconds = \<lfloor>upshift\<rfloor>,
                        cad_downshift_delays_minutes = delays\<rparr>"
    unfolding parse_custom_auto_def res_bind_eq_Inr Let_def
    by (elim exE conjE) (auto split: if_splits)
  have "strictly_ascending boundaries"
    using strict_sorted_list_of_set[of "set boundaries"] b(3)
    by (metis strictly_ascending_sorted)
  moreover have "0 \<le> \<lfloor>upshift\<rfloor>" "\<lfloor>upshift\<rfloor> \<le> 300"
    using p_number_Inr[OF up] by (simp_all add: zero_le_floor floor_le_iff)
  ultimately show ?thesis
    using p_bounded_int_map[OF b(2)] p_bounded_int_map[OF dl(2)] b(1) dl(1)
    by (simp add: options_wf_def default_options_def c SPEED_MODES_def)
qed

lemma parse_profile_wf:
  assumes "parse_profile digest raw ancestry source = Inr p"
  shows "profile_wf p"
proof -
  from assms obtain idn bt ch pro cap tm df where
    i: "parse_identity (jget raw ''identity'') = Inr idn"
    and b: "parse_bluetooth (jget raw ''bluetooth'') = Inr bt"
    and c: "parse_channel (jget raw ''channel'') = Inr ch"
    and r: "parse_protocol (jget raw ''protocol'') = Inr pro"
    and t: "parse_timings (jget raw ''timings'') = Inr tm"
    and a: "parse_custom_auto (jget raw ''custom_auto_defaults'') = Inr df"
    and p: "is_profile_id (profile_id p)" "identity p = idn" "bluetooth p = bt" "channel p = ch"
      "protocol p = pro" "timings p = tm" "custom_auto_defaults p = df"
    unfolding parse_profile_def res_bind_eq_Inr by (elim exE conjE) (auto split: if_splits)
  have "\<forall>x \<in> set (advertised_name_prefixes idn). x \<noteq> [] \<and> ascii_strip x = x"
    using i unfolding parse_identity_def res_bind_eq_Inr
    by (elim exE conjE) (fastforce split: if_splits)
  moreover have "card {service_uuid bt, notify_uuid bt, write_uuid bt} = 3"
    using b unfolding parse_bluetooth_def res_bind_eq_Inr
    by (elim exE conjE) (auto split: if_splits)
  ultimately show ?thesis
    using p parse_channel_wf[OF c] parse_protocol_wf[OF r] parse_timings_wf[OF t]
      parse_custom_auto_wf[OF a]
    by (simp add: profile_wf_def)
qed

section \<open>From a parsed profile to a working protocol\<close>

lemma response_spec_total:
  assumes "matcher_ok m"
  shows "\<exists>spec. response_spec_of_definition m = Inr spec \<and> spec_offsets_ok spec"
proof -
  from assms have "md_kind m \<in> fst ` set matcher_fields" by (simp add: matcher_ok_def)
  then have "\<exists>k. response_kind_of_value (md_kind m) = Inr k"
    by (auto simp: matcher_fields_def response_kind_of_value_def)
  with assms show ?thesis
    by (fastforce simp: response_spec_of_definition_def spec_offsets_ok_def matcher_ok_def)
qed

lemma res_map_list_map_of:
  assumes "res_map_list f xs = Inr ys" and "\<And>x y. f x = Inr y \<Longrightarrow> fst y = fst x"
    and "map_of xs k = Some v"
  shows "\<exists>w. map_of ys k = Some w \<and> f (k, v) = Inr (k, w)"
  using assms(1,3)
proof (induction xs arbitrary: ys)
  case Nil
  then show ?case by simp
next
  case (Cons x xs)
  from Cons.prems(1) obtain y zs where y: "f x = Inr y" "res_map_list f xs = Inr zs" "ys = y # zs"
    by auto
  from assms(2)[OF y(1)] y Cons.IH[OF y(2)] Cons.prems(2) show ?case
    by (cases x; cases y) (auto split: if_splits)
qed

lemma wf_catalog:
  assumes "profile_wf p"
  shows "\<exists>cat. build_request_catalog p = Inr cat \<and>
    (\<forall>k d. map_of (request_catalog (protocol p)) k = Some d \<longrightarrow>
      (\<exists>r. map_of cat k = Some r \<and> dsc_frame r = rd_frame d \<and> spec_offsets_ok (dsc_response r)))"
proof -
  let ?f = "\<lambda>(name, d).
       res_bind (response_spec_of_definition (rd_response d)) (\<lambda>spec.
       res_bind (mk_request_descriptor (rd_name d) (rd_frame d) spec) (\<lambda>dsc.
         Inr (name, dsc)))"
  have each: "\<exists>r. ?f (k, d) = Inr (k, r) \<and> dsc_frame r = rd_frame d \<and> spec_offsets_ok (dsc_response r)"
    if "(k, d) \<in> set (request_catalog (protocol p))" for k d
  proof -
    from assms that have ok: "request_ok (k, d)" by (auto simp: profile_wf_def protocol_wf_def)
    then obtain spec where spec: "response_spec_of_definition (rd_response d) = Inr spec" "spec_offsets_ok spec"
      using response_spec_total by (auto simp: request_ok_def)
    with ok show ?thesis by (simp add: request_ok_def mk_request_descriptor_def)
  qed
  then have "\<forall>x \<in> set (request_catalog (protocol p)). \<exists>y. ?f x = Inr y" by fast
  then obtain cat where cat: "res_map_list ?f (request_catalog (protocol p)) = Inr cat"
    using res_map_list_total[of "request_catalog (protocol p)" ?f] by blast
  have fst: "fst y = fst x" if "?f x = Inr y" for x y using that by (cases x) auto
  have "\<exists>r. map_of cat k = Some r \<and> dsc_frame r = rd_frame d \<and> spec_offsets_ok (dsc_response r)"
    if k: "map_of (request_catalog (protocol p)) k = Some d" for k d
  proof -
    from res_map_list_map_of[OF cat fst k] obtain w where w: "map_of cat k = Some w" "?f (k, d) = Inr (k, w)"
      by blast
    with each[OF map_of_SomeD[OF k]] show ?thesis by auto
  qed
  with cat show ?thesis unfolding build_request_catalog_def by blast
qed

lemma wf_lookups:
  assumes "set names \<subseteq> fst ` set (request_catalog (protocol p))"
    and "\<And>k d. map_of (request_catalog (protocol p)) k = Some d \<Longrightarrow> \<exists>r. map_of cat k = Some r"
  shows "\<exists>ds. res_map_list (py_getitem cat) names = Inr ds"
proof (rule res_map_list_total, rule ballI)
  fix n
  assume "n \<in> set names"
  with assms(1) have "n \<in> dom (map_of (request_catalog (protocol p)))" by (auto simp: dom_map_of_conv_image_fst)
  then obtain d where "map_of (request_catalog (protocol p)) n = Some d" by blast
  from assms(2)[OF this] obtain r where "map_of cat n = Some r" by blast
  then show "\<exists>y. py_getitem cat n = Inr y" by (auto simp: py_getitem_def)
qed

lemma wf_simple_commands:
  assumes "protocol_wf r" and "name \<in> set command_fields" and "name \<noteq> ''fan_mode''"
  shows "\<exists>c. map_of (pr_commands r) name = Some c \<and>
    map_of registered_commands name = Some (cd_strategy c, cd_prefix c)"
proof -
  from assms(1,2) have "name \<in> dom (map_of (pr_commands r))"
    by (auto simp: protocol_wf_def dom_map_of_conv_image_fst)
  then obtain c where c: "map_of (pr_commands r) name = Some c" by blast
  from map_of_SomeD[OF c] assms(1,3) have "map_of registered_commands name = Some (cd_strategy c, cd_prefix c)"
    by (auto simp: protocol_wf_def command_ok_def)
  with c show ?thesis by blast
qed

lemma wf_fan_command:
  assumes "protocol_wf r"
  shows "\<exists>c. map_of (pr_commands r) ''fan_mode'' = Some c \<and> length (cd_prefix c) = 2 \<and>
    (cd_strategy c = ''fan_mode_v1'' \<or> cd_strategy c = ''fan_mode_33_v1'')"
proof -
  from assms have "''fan_mode'' \<in> dom (map_of (pr_commands r))"
    by (simp add: protocol_wf_def dom_map_of_conv_image_fst command_fields_def)
  then obtain c where c: "map_of (pr_commands r) ''fan_mode'' = Some c" by blast
  from map_of_SomeD[OF c] assms have "command_ok (''fan_mode'', c)"
    by (simp add: protocol_wf_def)
  then have "length (cd_prefix c) = 2 \<and> (cd_strategy c = ''fan_mode_v1'' \<or> cd_strategy c = ''fan_mode_33_v1'')"
    by (auto simp: command_ok_def registered_commands_def dest: sym)
  with c show ?thesis by blast
qed

section \<open>Properties\<close>

text \<open>C30. Every profile that parses satisfies the invariants the runtime relies on: valid catalog
  frames with safe matcher offsets and unique names, resolvable and duplicate-free request
  orders, a single \<open>aa 01\<close> poll that is also the essential request, registered command
  templates, a negotiation policy exactly for encrypted channels whose phase fits its retries,
  timings within their ceilings, three distinct UUIDs, and Custom Auto defaults that are
  themselves valid options.\<close>

theorem parsed_profile_wf:
  assumes "parse_profile digest raw ancestry source = Inr p"
  shows "profile_wf p \<and> schema_version p = SCHEMA_VERSION \<and> lineage p = ancestry \<and>
    parse_custom_auto_options [] (custom_auto_defaults p) = Inr (default_options (custom_auto_defaults p))"
proof -
  have wf: "profile_wf p" by (rule parse_profile_wf[OF assms])
  have "schema_version p = SCHEMA_VERSION \<and> lineage p = ancestry"
    using assms unfolding parse_profile_def res_bind_eq_Inr
    by (elim exE conjE) (auto split: if_splits)
  moreover have "parse_custom_auto_options [] (custom_auto_defaults p) =
      Inr (default_options (custom_auto_defaults p))"
    using wf default_options_parse[of "custom_auto_defaults p"] by (simp add: profile_wf_def)
  ultimately show ?thesis using wf by simp
qed

text \<open>A profile that parses gives a complete protocol: its request catalog builds, every
  request of the initialization and refresh sweeps and the poll is found and carries a valid
  frame, and its power command encodes.\<close>

theorem parsed_profile_protocol_complete:
  assumes "parse_profile digest raw ancestry source = Inr p"
  shows "\<exists>g inits refs poll. new_protocol p = Inr g \<and>
    gp_initialization_requests g = Inr inits \<and> gp_refresh_requests g = Inr refs \<and>
    device_state_poll g = Inr poll \<and> take 2 (dsc_frame poll) = [0xAA, 0x01] \<and>
    length inits = length (initialization_order (protocol p)) \<and>
    length refs = length (refresh_order (protocol p)) \<and>
    (\<forall>d \<in> set (inits @ refs @ [poll]). is_valid_frame (dsc_frame d)) \<and>
    (\<forall>on. \<exists>f. gp_encode g (SetPower on) = Inr f \<and> take 3 f = [0x33, 0x01, if on then 1 else 0])"
proof -
  have wf: "profile_wf p" by (rule parse_profile_wf[OF assms])
  then have pw: "protocol_wf (protocol p)" by (simp add: profile_wf_def)
  from wf_catalog[OF wf] obtain cat where cat: "build_request_catalog p = Inr cat"
    and look: "\<And>k d. map_of (request_catalog (protocol p)) k = Some d \<Longrightarrow>
      \<exists>r. map_of cat k = Some r \<and> dsc_frame r = rd_frame d" by blast
  let ?g = "\<lparr>gp_profile = p, gp_requests = cat\<rparr>"
  have g: "new_protocol p = Inr ?g" by (simp add: new_protocol_def cat)
  have found: "\<And>k d. map_of (request_catalog (protocol p)) k = Some d \<Longrightarrow> \<exists>r. map_of cat k = Some r"
    using look by blast
  from pw have i: "set (initialization_order (protocol p)) \<subseteq> fst ` set (request_catalog (protocol p))"
    and r: "set (refresh_order (protocol p)) \<subseteq> fst ` set (request_catalog (protocol p))"
    by (simp_all add: protocol_wf_def)
  obtain inits where inits: "res_map_list (py_getitem cat) (initialization_order (protocol p)) = Inr inits"
    using wf_lookups[where cat = cat, OF i] found by blast
  obtain refs where refs: "res_map_list (py_getitem cat) (refresh_order (protocol p)) = Inr refs"
    using wf_lookups[where cat = cat, OF r] found by blast
  from pw obtain pd where pd: "map_of (request_catalog (protocol p)) (periodic_request (protocol p)) = Some pd"
    "take 2 (rd_frame pd) = [0xAA, 0x01]" by (auto simp: protocol_wf_def)
  from look[OF pd(1)] pd(2) obtain poll where poll: "map_of cat (periodic_request (protocol p)) = Some poll"
    "take 2 (dsc_frame poll) = [0xAA, 0x01]" by auto
  have valid: "is_valid_frame (dsc_frame d)" if "map_of cat n = Some d" for n d
    using build_request_catalog_valid[OF cat that] .
  have all: "is_valid_frame (dsc_frame d)" if "d \<in> set (inits @ refs @ [poll])" for d
    using that res_map_list_Inr_set[OF inits, of d] res_map_list_Inr_set[OF refs, of d] poll(1) valid
    by auto
  have power: "\<exists>f. gp_encode ?g (SetPower on) = Inr f \<and> take 3 f = [0x33, 0x01, if on then 1 else 0]" for on
  proof -
    from wf_simple_commands[OF pw, of "''power''"] obtain c where
      c: "map_of (pr_commands (protocol p)) ''power'' = Some c" "cd_strategy c = ''power_bool_v1''"
        "cd_prefix c = [0x33, 0x01]" by (auto simp: command_fields_def registered_commands_def)
    obtain f where f: "build_frame ([0x33, 0x01] @ [if on then 1 else 0]) = Inr f"
      using build_frame_total[of "[0x33, 0x01] @ [if on then 1 else 0]"] by auto
    from build_frame_take[OF f] f c show ?thesis
      by (cases on) (simp_all add: gp_encode_def require_command_strategy_def numeral_3_eq_3)
  qed
  have "length inits = length (initialization_order (protocol p))"
    "length refs = length (refresh_order (protocol p))"
    using res_map_list_Inr[OF inits] res_map_list_Inr[OF refs] by simp_all
  with g inits refs poll all power show ?thesis
    by (auto simp: gp_initialization_requests_def gp_refresh_requests_def device_state_poll_def
        simp del: res_bind_eq_Inr intro!: exI[of _ ?g])
qed

end
