(* ===== verification/Recovery.thy ===== *)
theory Recovery
  imports Profile_Parsing Shipped_Profiles
begin

text \<open>
  The recovery policy (\<open>recovery.py\<close>): rolling windows of connection failures and of
  advertisement wakes, the circuit floor for recovery storms, and the capped exponential back-off
  with jitter.  The asynchronous waiting is the client's; every operation here is told the time.
  \<open>RecoveryController\<close> is the record \<open>recovery\<close>; its two deques hold at most 32 times.

  The abstract specification \<open>storm_history\<close> keeps every failure and wake since the last reset.
  The refinement lemmas show that the bounded deques decide the same circuit floor as the
  unbounded history as long as the threshold fits the deque.
\<close>

section \<open>State\<close>

definition RECOVERY_EVENT_HISTORY_LIMIT :: nat where
  "RECOVERY_EVENT_HISTORY_LIMIT = 32"

definition MIN_JITTER_FACTOR :: rat where "MIN_JITTER_FACTOR = 8 / 10"
definition MAX_JITTER_FACTOR :: rat where "MAX_JITTER_FACTOR = 12 / 10"

record backoff_decision =
  requested_seconds :: time
  effective_seconds :: time
  jittered_seconds :: time
  floor_seconds :: time
  planned_seconds :: time

record recovery =
  failure_times :: "time list"
  advertisement_wake_times :: "time list"
  requested_backoff :: time
  last_failure_stage :: "string option"
  last_failure_cycle :: "int option"
  last_failure_stable_seconds :: time
  last_cycle_duration_seconds :: "time option"
  last_cycle_cleanup_succeeded :: "bool option"
  last_backoff_requested_seconds :: "time option"
  last_backoff_effective_seconds :: "time option"
  last_backoff_jittered_seconds :: "time option"
  last_backoff_floor_seconds :: time
  last_backoff_planned_seconds :: "time option"
  last_backoff_elapsed_seconds :: "time option"
  last_backoff_wake_reason :: "string option"

definition new_recovery :: "timing_profile \<Rightarrow> recovery" where
  "new_recovery t =
     \<lparr>failure_times = [], advertisement_wake_times = [], requested_backoff = backoff_initial t,
      last_failure_stage = None, last_failure_cycle = None, last_failure_stable_seconds = 0,
      last_cycle_duration_seconds = None, last_cycle_cleanup_succeeded = None,
      last_backoff_requested_seconds = None, last_backoff_effective_seconds = None,
      last_backoff_jittered_seconds = None, last_backoff_floor_seconds = 0,
      last_backoff_planned_seconds = None, last_backoff_elapsed_seconds = None,
      last_backoff_wake_reason = None\<rparr>"

section \<open>Operations\<close>

text \<open>The two \<open>popleft\<close> loops of \<open>_trim_window\<close>.\<close>

fun pop_before :: "time \<Rightarrow> time list \<Rightarrow> time list" where
  "pop_before cutoff [] = []"
| "pop_before cutoff (x # xs) = (if x < cutoff then pop_before cutoff xs else x # xs)"

definition trim_window :: "timing_profile \<Rightarrow> time \<Rightarrow> recovery \<Rightarrow> recovery" where
  "trim_window t now s =
     (let cutoff = now - recovery_storm_window t
      in s\<lparr>failure_times := pop_before cutoff (failure_times s),
           advertisement_wake_times := pop_before cutoff (advertisement_wake_times s)\<rparr>)"

definition begin_sequence :: "timing_profile \<Rightarrow> recovery \<Rightarrow> recovery" where
  "begin_sequence t s = s\<lparr>requested_backoff := backoff_initial t\<rparr>"

definition reset_after_stable_session :: "recovery \<Rightarrow> recovery" where
  "reset_after_stable_session s = s\<lparr>failure_times := [], advertisement_wake_times := []\<rparr>"

definition record_failure ::
    "timing_profile \<Rightarrow> string \<Rightarrow> int \<Rightarrow> time \<Rightarrow> time \<Rightarrow> recovery \<Rightarrow> recovery" where
  "record_failure t stage cycle stable_for now s =
     (let stable_seconds = max 0 stable_for;
          s = s\<lparr>last_failure_stage := Some stage, last_failure_cycle := Some cycle,
                last_failure_stable_seconds := py_round3 stable_seconds\<rparr>
      in if backoff_reset_after t \<le> stable_seconds
         then (reset_after_stable_session s)\<lparr>requested_backoff := backoff_initial t\<rparr>
         else let s = trim_window t now s
              in s\<lparr>failure_times :=
                     deque_append RECOVERY_EVENT_HISTORY_LIMIT now (failure_times s)\<rparr>)"

definition record_advertisement_wake :: "timing_profile \<Rightarrow> time \<Rightarrow> recovery \<Rightarrow> recovery" where
  "record_advertisement_wake t now s =
     (let s = trim_window t now s
      in s\<lparr>advertisement_wake_times :=
             deque_append RECOVERY_EVENT_HISTORY_LIMIT now (advertisement_wake_times s)\<rparr>)"

definition record_cycle :: "time \<Rightarrow> time \<Rightarrow> bool \<Rightarrow> recovery \<Rightarrow> recovery" where
  "record_cycle started_at finished_at cleanup_succeeded s =
     s\<lparr>last_cycle_duration_seconds := Some (py_round3 (max 0 (finished_at - started_at))),
       last_cycle_cleanup_succeeded := Some cleanup_succeeded\<rparr>"

definition circuit_floor :: "timing_profile \<Rightarrow> time \<Rightarrow> recovery \<Rightarrow> time \<times> recovery" where
  "circuit_floor t now s =
     (let s = trim_window t now s;
          failures = int (length (failure_times s));
          advertisement_wakes = int (length (advertisement_wake_times s))
      in (if failures < recovery_storm_failure_threshold t \<or>
             advertisement_wakes < recovery_storm_advertisement_threshold t then 0
          else if failures = recovery_storm_failure_threshold t
          then recovery_storm_initial_floor t
          else recovery_storm_max_floor t, s))"

definition plan_backoff ::
    "timing_profile \<Rightarrow> time \<Rightarrow> bool \<Rightarrow> rat \<Rightarrow> recovery \<Rightarrow> (backoff_decision \<times> recovery) res" where
  "plan_backoff t now recent_advertisement jitter_factor s =
     (if \<not> (MIN_JITTER_FACTOR \<le> jitter_factor \<and> jitter_factor \<le> MAX_JITTER_FACTOR)
      then Inl ValueError
      else
        let requested = requested_backoff s;
            effective = (if recent_advertisement
                         then min requested (recent_advertisement_backoff_max t) else requested);
            jittered = effective * jitter_factor;
            (floor, s) = circuit_floor t now s;
            planned = max jittered floor
        in Inr (\<lparr>requested_seconds = requested, effective_seconds = effective,
                 jittered_seconds = jittered, floor_seconds = floor, planned_seconds = planned\<rparr>,
                s\<lparr>last_backoff_requested_seconds := Some requested,
                  last_backoff_effective_seconds := Some effective,
                  last_backoff_jittered_seconds := Some (py_round3 jittered),
                  last_backoff_floor_seconds := floor,
                  last_backoff_planned_seconds := Some (py_round3 planned)\<rparr>))"

definition complete_backoff ::
    "timing_profile \<Rightarrow> time \<Rightarrow> time \<Rightarrow> string \<Rightarrow> bool \<Rightarrow> recovery \<Rightarrow> recovery" where
  "complete_backoff t started_at now wake_reason advertisement_triggered s =
     (let s = (if advertisement_triggered then record_advertisement_wake t now s else s)
      in s\<lparr>last_backoff_elapsed_seconds := Some (py_round3 (max 0 (now - started_at))),
           last_backoff_wake_reason := Some wake_reason,
           requested_backoff := min (backoff_max t) (requested_backoff s * 2)\<rparr>)"

record recovery_snapshot =
  snap_failure_count :: int
  snap_wake_count :: int
  snap_window_seconds :: time
  snap_failure_threshold :: int
  snap_wake_threshold :: int
  snap_stable_reset_seconds :: time
  snap_circuit_active :: bool
  snap_floor_seconds :: time
  snap_last :: recovery

text \<open>The snapshot repeats the fourteen \<open>last_\<close> fields of the controller: \<open>snap_last\<close> is the
  controller they are read from.\<close>

definition snapshot :: "timing_profile \<Rightarrow> time \<Rightarrow> recovery \<Rightarrow> recovery_snapshot \<times> recovery" where
  "snapshot t now s =
     (let (floor, s) = circuit_floor t now s
      in (\<lparr>snap_failure_count = int (length (failure_times s)),
           snap_wake_count = int (length (advertisement_wake_times s)),
           snap_window_seconds = recovery_storm_window t,
           snap_failure_threshold = recovery_storm_failure_threshold t,
           snap_wake_threshold = recovery_storm_advertisement_threshold t,
           snap_stable_reset_seconds = backoff_reset_after t,
           snap_circuit_active = (0 < floor), snap_floor_seconds = floor, snap_last = s\<rparr>, s))"

text \<open>\<open>RecoverySnapshot.as_dict\<close>, with its keys in order.\<close>

definition json_option :: "('a \<Rightarrow> json) \<Rightarrow> 'a option \<Rightarrow> json" where
  "json_option f x = (case x of None \<Rightarrow> JNull | Some y \<Rightarrow> f y)"

definition recovery_snapshot_as_dict :: "recovery_snapshot \<Rightarrow> jobject" where
  "recovery_snapshot_as_dict r =
     [(''failure_count_in_window'', JInt (snap_failure_count r)),
      (''advertisement_wake_count_in_window'', JInt (snap_wake_count r)),
      (''window_seconds'', JFloat (snap_window_seconds r)),
      (''failure_threshold'', JInt (snap_failure_threshold r)),
      (''advertisement_wake_threshold'', JInt (snap_wake_threshold r)),
      (''stable_reset_seconds'', JFloat (snap_stable_reset_seconds r)),
      (''circuit_breaker_active'', JBool (snap_circuit_active r)),
      (''current_circuit_floor_seconds'', JFloat (snap_floor_seconds r)),
      (''last_failure_stage'', json_option JString (last_failure_stage (snap_last r))),
      (''last_failure_cycle'', json_option JInt (last_failure_cycle (snap_last r))),
      (''last_failure_stable_seconds'', JFloat (last_failure_stable_seconds (snap_last r))),
      (''last_cycle_duration_seconds'',
         json_option JFloat (last_cycle_duration_seconds (snap_last r))),
      (''last_cycle_cleanup_succeeded'',
         json_option JBool (last_cycle_cleanup_succeeded (snap_last r))),
      (''last_backoff_requested_seconds'',
         json_option JFloat (last_backoff_requested_seconds (snap_last r))),
      (''last_backoff_effective_seconds'',
         json_option JFloat (last_backoff_effective_seconds (snap_last r))),
      (''last_backoff_jittered_seconds'',
         json_option JFloat (last_backoff_jittered_seconds (snap_last r))),
      (''last_backoff_floor_seconds'', JFloat (last_backoff_floor_seconds (snap_last r))),
      (''last_backoff_planned_seconds'',
         json_option JFloat (last_backoff_planned_seconds (snap_last r))),
      (''last_backoff_elapsed_seconds'',
         json_option JFloat (last_backoff_elapsed_seconds (snap_last r))),
      (''last_backoff_wake_reason'',
         json_option JString (last_backoff_wake_reason (snap_last r)))]"

lemmas recovery_op_defs = begin_sequence_def reset_after_stable_session_def record_failure_def
  record_advertisement_wake_def record_cycle_def circuit_floor_def plan_backoff_def
  complete_backoff_def snapshot_def trim_window_def

section \<open>Runs\<close>

datatype recovery_event =
    BeginSequence
  | StableReset
  | FailureAt string int time time
  | WakeAt time
  | CycleEnd time time bool
  | PlanAt time bool rat
  | BackoffDone time time string bool
  | SnapshotAt time

text \<open>A call that raises leaves the controller as it was.\<close>

fun recovery_step :: "timing_profile \<Rightarrow> recovery \<Rightarrow> recovery_event \<Rightarrow> recovery" where
  "recovery_step t s BeginSequence = begin_sequence t s"
| "recovery_step t s StableReset = reset_after_stable_session s"
| "recovery_step t s (FailureAt stage cycle lasted now) = record_failure t stage cycle lasted now s"
| "recovery_step t s (WakeAt now) = record_advertisement_wake t now s"
| "recovery_step t s (CycleEnd started finished ok) = record_cycle started finished ok s"
| "recovery_step t s (PlanAt now recent jitter) =
     (case plan_backoff t now recent jitter s of Inr (_, s') \<Rightarrow> s' | Inl _ \<Rightarrow> s)"
| "recovery_step t s (BackoffDone started now reason adv) =
     complete_backoff t started now reason adv s"
| "recovery_step t s (SnapshotAt now) = snd (snapshot t now s)"

text \<open>The clock after an event: an event that reads the clock carries the time it read.\<close>

fun event_time :: "time \<Rightarrow> recovery_event \<Rightarrow> time" where
  "event_time c (FailureAt stage cycle lasted now) = now"
| "event_time c (WakeAt now) = now"
| "event_time c (PlanAt now recent jitter) = now"
| "event_time c (BackoffDone started now reason adv) = now"
| "event_time c (SnapshotAt now) = now"
| "event_time c _ = c"

section \<open>Abstract specification\<close>

record storm_history =
  all_failures :: "time list"
  all_wakes :: "time list"

definition no_history :: storm_history where
  "no_history = \<lparr>all_failures = [], all_wakes = []\<rparr>"

fun history_step :: "timing_profile \<Rightarrow> storm_history \<Rightarrow> recovery_event \<Rightarrow> storm_history" where
  "history_step t h StableReset = no_history"
| "history_step t h (FailureAt stage cycle lasted now) =
     (if backoff_reset_after t \<le> max 0 lasted then no_history
      else h\<lparr>all_failures := all_failures h @ [now]\<rparr>)"
| "history_step t h (WakeAt now) = h\<lparr>all_wakes := all_wakes h @ [now]\<rparr>"
| "history_step t h (BackoffDone started now reason adv) =
     (if adv then h\<lparr>all_wakes := all_wakes h @ [now]\<rparr> else h)"
| "history_step t h _ = h"

definition in_window :: "timing_profile \<Rightarrow> time \<Rightarrow> time list \<Rightarrow> int" where
  "in_window t now xs = int (length (filter (\<lambda>x. now - recovery_storm_window t \<le> x) xs))"

definition storm_floor :: "timing_profile \<Rightarrow> time \<Rightarrow> storm_history \<Rightarrow> time" where
  "storm_floor t now h =
     (let failures = in_window t now (all_failures h); wakes = in_window t now (all_wakes h)
      in if failures < recovery_storm_failure_threshold t \<or>
            wakes < recovery_storm_advertisement_threshold t then 0
         else if failures = recovery_storm_failure_threshold t then recovery_storm_initial_floor t
         else recovery_storm_max_floor t)"

text \<open>The controller and its history along a run whose clock never goes back, as the event
  loop's monotonic clock guarantees.\<close>

inductive timed_run :: "timing_profile \<Rightarrow> time \<Rightarrow> recovery \<Rightarrow> storm_history \<Rightarrow> bool"
  for t where
  start: "timed_run t c (new_recovery t) no_history"
| step: "timed_run t c s h \<Longrightarrow> c \<le> event_time c e \<Longrightarrow>
    timed_run t (event_time c e) (recovery_step t s e) (history_step t h e)"

fun clock_monotone :: "time \<Rightarrow> recovery_event list \<Rightarrow> bool" where
  "clock_monotone c [] = True"
| "clock_monotone c (e # es) = (c \<le> event_time c e \<and> clock_monotone (event_time c e) es)"

lemma timed_run_events:
  "timed_run t c s h \<Longrightarrow> clock_monotone c es \<Longrightarrow>
   timed_run t (foldl event_time c es) (foldl (recovery_step t) s es) (foldl (history_step t) h es)"
  by (induction es arbitrary: c s h) (auto intro: timed_run.step)

section \<open>Rolling windows\<close>

text \<open>\<open>tracks\<close>: the deque is a suffix of the history, and what it lacks is either too old for any
  later window or behind 32 newer times.\<close>

definition tracks :: "timing_profile \<Rightarrow> time \<Rightarrow> time list \<Rightarrow> time list \<Rightarrow> bool" where
  "tracks t c xs h \<longleftrightarrow>
     sorted h \<and> (\<forall>x \<in> set h. x \<le> c) \<and> length xs \<le> 32 \<and>
     (\<exists>old. h = old @ xs \<and>
        ((\<forall>x \<in> set old. x < c - recovery_storm_window t) \<or> length xs = 32))"

lemma pop_before_split:
  "\<exists>popped. xs = popped @ pop_before cutoff xs \<and> (\<forall>x \<in> set popped. x < cutoff)"
  by (induction xs) (auto, metis append_Cons set_ConsD)

lemma pop_before_fresh: "sorted xs \<Longrightarrow> x \<in> set (pop_before cutoff xs) \<Longrightarrow> cutoff \<le> x"
  by (induction xs) (auto split: if_splits)

lemma length_pop_before: "length (pop_before cutoff xs) \<le> length xs"
  by (induction xs) auto

lemma tracks_Nil: "tracks t c [] []"
  by (simp add: tracks_def)

lemma tracks_later: "tracks t c xs h \<Longrightarrow> c \<le> c' \<Longrightarrow> tracks t c' xs h"
  unfolding tracks_def
  by (elim conjE exE disjE; intro conjI exI ballI) (auto intro: order_trans order_less_le_trans)

lemma tracks_trim:
  assumes "tracks t c xs h" "c \<le> now"
  shows "tracks t now (pop_before (now - recovery_storm_window t) xs) h"
proof -
  let ?cut = "now - recovery_storm_window t"
  from assms obtain old where old: "h = old @ xs" "sorted h" "\<forall>x \<in> set h. x \<le> c" "length xs \<le> 32"
    "(\<forall>x \<in> set old. x < c - recovery_storm_window t) \<or> length xs = 32"
    by (auto simp: tracks_def)
  obtain popped where popped: "xs = popped @ pop_before ?cut xs" "\<forall>x \<in> set popped. x < ?cut"
    using pop_before_split by blast
  have "(\<forall>x \<in> set (old @ popped). x < ?cut) \<or> length (pop_before ?cut xs) = 32"
  proof (cases popped)
    case Nil
    with popped(1) old(5) assms(2) show ?thesis by fastforce
  next
    case (Cons y ys)
    with popped(2) have "y < ?cut" by simp
    moreover have "sorted (old @ y # ys @ pop_before ?cut xs)"
      using old(1,2) popped(1) Cons by simp
    ultimately have "\<forall>x \<in> set old. x < ?cut" by (auto simp: sorted_append)
    with popped(2) show ?thesis by auto
  qed
  moreover have "h = (old @ popped) @ pop_before ?cut xs" using old(1) popped(1) by simp
  moreover have "\<forall>x \<in> set h. x \<le> now" using old(3) assms(2) by auto
  ultimately show ?thesis
    using old(2,4) length_pop_before[of ?cut xs] unfolding tracks_def
    by (metis order_trans)
qed

lemma tracks_append:
  assumes "tracks t c xs h"
  shows "tracks t c (deque_append 32 c xs) (h @ [c])"
proof -
  from assms obtain old where old: "h = old @ xs" "sorted h" "\<forall>x \<in> set h. x \<le> c" "length xs \<le> 32"
    "(\<forall>x \<in> set old. x < c - recovery_storm_window t) \<or> length xs = 32"
    by (auto simp: tracks_def)
  have s: "sorted (h @ [c])" using old(2,3) by (simp add: sorted_append)
  show ?thesis
  proof (cases "length xs = 32")
    case True
    then obtain y ys where xs: "xs = y # ys" by (cases xs) auto
    with True have "deque_append 32 c xs = ys @ [c]" "length (ys @ [c]) = 32"
      by (simp_all add: deque_append_def)
    then show ?thesis using s old(1,3) xs
      unfolding tracks_def by (intro conjI exI[of _ "old @ [y]"]) auto
  next
    case False
    with old(4) have "deque_append 32 c xs = xs @ [c]" by simp
    then show ?thesis using s old False
      unfolding tracks_def by (intro conjI exI[of _ old]) auto
  qed
qed

lemma tracks_count:
  assumes "tracks t now xs h"
  shows "int (length (pop_before (now - recovery_storm_window t) xs)) = min 32 (in_window t now h)"
proof -
  let ?w = "pop_before (now - recovery_storm_window t) xs"
  have tr: "tracks t now ?w h" using tracks_trim[OF assms order_refl] .
  then obtain old where old: "h = old @ ?w" "length ?w \<le> 32"
    "(\<forall>x \<in> set old. x < now - recovery_storm_window t) \<or> length ?w = 32"
    by (auto simp: tracks_def)
  have sx: "sorted xs" using assms by (auto simp: tracks_def sorted_append)
  have "filter (\<lambda>x. now - recovery_storm_window t \<le> x) ?w = ?w"
    using pop_before_fresh[OF sx] by (simp add: filter_id_conv)
  then have cnt: "in_window t now h =
      int (length (filter (\<lambda>x. now - recovery_storm_window t \<le> x) old)) + int (length ?w)"
    unfolding in_window_def by (subst old(1)) simp
  show ?thesis
  proof (cases "length ?w = 32")
    case True
    then show ?thesis unfolding cnt by simp
  next
    case False
    with old(3) have "\<forall>x \<in> set old. \<not> now - recovery_storm_window t \<le> x" by auto
    then have "filter (\<lambda>x. now - recovery_storm_window t \<le> x) old = []"
      by (simp add: filter_empty_conv)
    with cnt old(2) show ?thesis by simp
  qed
qed

definition run_ok :: "timing_profile \<Rightarrow> time \<Rightarrow> recovery \<Rightarrow> storm_history \<Rightarrow> bool" where
  "run_ok t c s h \<longleftrightarrow> tracks t c (failure_times s) (all_failures h) \<and>
     tracks t c (advertisement_wake_times s) (all_wakes h)"

lemma run_ok_trim: "run_ok t c s h \<Longrightarrow> c \<le> now \<Longrightarrow> run_ok t now (trim_window t now s) h"
  by (auto simp: run_ok_def trim_window_def Let_def intro: tracks_trim)

lemma run_ok_later: "run_ok t c s h \<Longrightarrow> c \<le> c' \<Longrightarrow> run_ok t c' s h"
  by (auto simp: run_ok_def intro: tracks_later)

lemma run_ok_wake:
  "run_ok t c s h \<Longrightarrow> c \<le> now \<Longrightarrow>
   run_ok t now (record_advertisement_wake t now s) (h\<lparr>all_wakes := all_wakes h @ [now]\<rparr>)"
  using run_ok_trim[of t c s h now]
  by (simp add: run_ok_def record_advertisement_wake_def RECOVERY_EVENT_HISTORY_LIMIT_def
      tracks_append Let_def)

lemma circuit_floor_state: "snd (circuit_floor t now s) = trim_window t now s"
  by (simp add: circuit_floor_def Let_def)

lemma plan_backoff_ok:
  assumes "MIN_JITTER_FACTOR \<le> j" "j \<le> MAX_JITTER_FACTOR"
  shows "\<exists>d s'. plan_backoff t now recent j s = Inr (d, s') \<and>
    failure_times s' = failure_times (trim_window t now s) \<and>
    advertisement_wake_times s' = advertisement_wake_times (trim_window t now s) \<and>
    requested_backoff s' = requested_backoff s"
  using assms circuit_floor_state[of t now s]
  by (cases "circuit_floor t now s") (auto simp: plan_backoff_def Let_def trim_window_def)

lemma timed_run_ok: "timed_run t c s h \<Longrightarrow> run_ok t c s h"
proof (induction rule: timed_run.induct)
  case (start c)
  show ?case by (simp add: run_ok_def new_recovery_def no_history_def tracks_Nil)
next
  case (step c s h e)
  show ?case
  proof (cases e)
    case (FailureAt stage cycle lasted now)
    with step have ok: "run_ok t now (trim_window t now s) h" by (simp add: run_ok_trim)
    then show ?thesis using FailureAt
      by (auto simp: run_ok_def record_failure_def Let_def reset_after_stable_session_def
          no_history_def tracks_Nil trim_window_def RECOVERY_EVENT_HISTORY_LIMIT_def tracks_append)
  next
    case (BackoffDone started now reason adv)
    with step run_ok_wake[of t c s h now] run_ok_later[of t c s h now] show ?thesis
      by (simp add: complete_backoff_def Let_def run_ok_def)
  next
    case (PlanAt now recent j)
    show ?thesis
    proof (cases "MIN_JITTER_FACTOR \<le> j \<and> j \<le> MAX_JITTER_FACTOR")
      case True
      then obtain d s' where p: "plan_backoff t now recent j s = Inr (d, s')"
        "failure_times s' = failure_times (trim_window t now s)"
        "advertisement_wake_times s' = advertisement_wake_times (trim_window t now s)"
        using plan_backoff_ok by blast
      with PlanAt step run_ok_trim[of t c s h now] show ?thesis by (simp add: run_ok_def)
    next
      case False
      then have "plan_backoff t now recent j s = Inl ValueError" by (auto simp: plan_backoff_def)
      with PlanAt step run_ok_later[of t c s h now] show ?thesis by simp
    qed
  next
    case (SnapshotAt now)
    have "snd (snapshot t now s) = trim_window t now s"
      by (simp add: snapshot_def circuit_floor_def Let_def)
    with SnapshotAt step run_ok_trim[of t c s h now] show ?thesis by simp
  next
    case (WakeAt now)
    with step run_ok_wake[of t c s h now] show ?thesis by simp
  qed (use step in \<open>auto simp: run_ok_def recovery_op_defs no_history_def tracks_Nil\<close>)
qed

section \<open>Back-off bounds\<close>

definition backoff_in_bounds :: "timing_profile \<Rightarrow> recovery \<Rightarrow> bool" where
  "backoff_in_bounds t s \<longleftrightarrow>
     backoff_initial t \<le> requested_backoff s \<and> requested_backoff s \<le> backoff_max t"

lemma backoff_step:
  assumes "0 \<le> backoff_initial t" "backoff_initial t \<le> backoff_max t" "backoff_in_bounds t s"
  shows "backoff_in_bounds t (recovery_step t s e)"
proof (cases e)
  case (PlanAt now recent j)
  with assms show ?thesis
    by (auto simp: backoff_in_bounds_def plan_backoff_def circuit_floor_def Let_def trim_window_def)
next
  case (BackoffDone started now reason adv)
  with assms show ?thesis
    by (auto simp: backoff_in_bounds_def complete_backoff_def record_advertisement_wake_def
        Let_def trim_window_def)
qed (use assms in \<open>auto simp: backoff_in_bounds_def recovery_op_defs Let_def\<close>)

lemma new_recovery_in_bounds:
  "backoff_initial t \<le> backoff_max t \<Longrightarrow> backoff_in_bounds t (new_recovery t)"
  by (simp add: backoff_in_bounds_def new_recovery_def)

lemma timings_wf_backoff:
  "timings_wf t \<Longrightarrow> 0 \<le> backoff_initial t \<and> backoff_initial t \<le> backoff_max t"
  by (simp add: timings_wf_def)

lemma circuit_floor_range:
  "fst (circuit_floor t now s) \<in> {0, recovery_storm_initial_floor t, recovery_storm_max_floor t}"
  by (simp add: circuit_floor_def Let_def)

text \<open>Every well-formed timing profile drives the controller as one event system.\<close>

definition wf_recovery_step ::
    "timing_profile \<times> recovery \<Rightarrow> recovery_event \<Rightarrow> timing_profile \<times> recovery" where
  "wf_recovery_step s e = (fst s, recovery_step (fst s) (snd s) e)"

interpretation recovery: step_system wf_recovery_step
  "\<lambda>(t, s). timings_wf t \<and> backoff_in_bounds t s"
  by unfold_locales (auto simp: wf_recovery_step_def timings_wf_backoff backoff_step)

lemma wf_recovery_run: "foldl wf_recovery_step (t, s) es = (t, foldl (recovery_step t) s es)"
  by (induction es arbitrary: s) (simp_all add: wf_recovery_step_def)

lemma recovery_run_bounds:
  assumes "timings_wf t"
  shows "backoff_in_bounds t (foldl (recovery_step t) (new_recovery t) es)"
  using recovery.run_inv[of "(t, new_recovery t)" es] assms
    new_recovery_in_bounds timings_wf_backoff
  by (simp add: wf_recovery_run)

text \<open>Events that leave the exponential sequence alone, and those that advance it.\<close>

fun restarts_backoff :: "timing_profile \<Rightarrow> recovery_event \<Rightarrow> bool" where
  "restarts_backoff t BeginSequence = True"
| "restarts_backoff t (FailureAt stage cycle lasted now) = (backoff_reset_after t \<le> max 0 lasted)"
| "restarts_backoff t _ = False"

fun is_backoff_done :: "recovery_event \<Rightarrow> bool" where
  "is_backoff_done (BackoffDone started now reason adv) = True"
| "is_backoff_done _ = False"

lemma requested_step:
  assumes "\<not> restarts_backoff t e"
  shows "requested_backoff (recovery_step t s e) =
    (if is_backoff_done e then min (backoff_max t) (requested_backoff s * 2) else requested_backoff s)"
proof (cases e)
  case (PlanAt now recent j)
  then show ?thesis
    by (auto simp: plan_backoff_def circuit_floor_def Let_def trim_window_def)
qed (use assms in \<open>auto simp: recovery_op_defs Let_def\<close>)

lemma capped_doubling:
  "0 \<le> (x :: rat) \<Longrightarrow> x \<le> m \<Longrightarrow> min m (min m (x * 2 ^ k) * 2) = min m (x * 2 ^ Suc k)"
  by (auto simp: min_def)

lemma requested_run:
  assumes "0 \<le> backoff_initial t" "backoff_initial t \<le> backoff_max t"
    and "requested_backoff s = min (backoff_max t) (backoff_initial t * 2 ^ k)"
    and "\<forall>e \<in> set es. \<not> restarts_backoff t e"
  shows "requested_backoff (foldl (recovery_step t) s es) =
    min (backoff_max t) (backoff_initial t * 2 ^ (k + length (filter is_backoff_done es)))"
  using assms(3,4)
proof (induction es arbitrary: s k)
  case (Cons e es)
  let ?k = "if is_backoff_done e then Suc k else k"
  have "requested_backoff (recovery_step t s e) = min (backoff_max t) (backoff_initial t * 2 ^ ?k)"
    using Cons.prems requested_step[of t e s] capped_doubling[OF assms(1,2), of k] by auto
  from Cons.IH[OF this] Cons.prems show ?case by simp
qed simp

section \<open>Properties\<close>

text \<open>C35. The circuit breaker decides by the true history: along every run whose clock does not go
  back, the floor read from the two 32-entry deques equals the floor computed from all failures
  and advertisement wakes recorded since the last reset, for every pair of thresholds the deques
  can represent.\<close>

theorem circuit_floor_refines_history:
  assumes "timed_run t c s h" "c \<le> now"
    and "recovery_storm_failure_threshold t < 32" "recovery_storm_advertisement_threshold t \<le> 32"
  shows "fst (circuit_floor t now s) = storm_floor t now h"
proof -
  have ok: "run_ok t now s h" using timed_run_ok[OF assms(1)] assms(2) by (rule run_ok_later)
  then have "int (length (failure_times (trim_window t now s))) = min 32 (in_window t now (all_failures h))"
    "int (length (advertisement_wake_times (trim_window t now s))) = min 32 (in_window t now (all_wakes h))"
    by (simp_all add: run_ok_def trim_window_def Let_def tracks_count)
  with assms(3,4) show ?thesis by (simp add: circuit_floor_def storm_floor_def Let_def min_def)
qed

text \<open>A failure threshold above the deque bound can never be reached: whatever happens, the
  circuit breaker stays closed; and at exactly the bound its maximum floor is never selected
  unless it equals the initial floor.\<close>

theorem oversized_threshold_disables_breaker:
  assumes "timed_run t c s h" "c \<le> now"
  shows "(32 < recovery_storm_failure_threshold t \<longrightarrow> fst (circuit_floor t now s) = 0) \<and>
    (recovery_storm_failure_threshold t = 32 \<longrightarrow>
       fst (circuit_floor t now s) \<in> {0, recovery_storm_initial_floor t})"
proof -
  have ok: "run_ok t now s h" using timed_run_ok[OF assms(1)] assms(2) by (rule run_ok_later)
  then have "int (length (failure_times (trim_window t now s))) = min 32 (in_window t now (all_failures h))"
    by (simp add: run_ok_def trim_window_def Let_def tracks_count)
  then have "int (length (failure_times (trim_window t now s))) \<le> 32" by simp
  then show ?thesis by (auto simp: circuit_floor_def Let_def)
qed

text \<open>C36. A planned back-off is bounded: after any sequence of controller events under a parsed
  timing profile, every plan with a jitter factor within its limits succeeds, its request lies
  between the initial and the maximum back-off, a recent advertisement caps it, the planned delay
  is never below the circuit floor nor the jittered delay, and never above 1.2 times the maximum
  back-off or the maximum floor; any other jitter factor is refused.\<close>

theorem planned_backoff_bounded:
  assumes "timings_wf t"
  shows "let s = foldl (recovery_step t) (new_recovery t) es in
    if MIN_JITTER_FACTOR \<le> j \<and> j \<le> MAX_JITTER_FACTOR
    then \<exists>d s'. plan_backoff t now recent j s = Inr (d, s') \<and>
      backoff_initial t \<le> requested_seconds d \<and> requested_seconds d \<le> backoff_max t \<and>
      (recent \<longrightarrow> effective_seconds d \<le> recent_advertisement_backoff_max t) \<and>
      floor_seconds d \<le> planned_seconds d \<and> jittered_seconds d \<le> planned_seconds d \<and>
      MIN_JITTER_FACTOR * effective_seconds d \<le> planned_seconds d \<and>
      planned_seconds d \<le> max (MAX_JITTER_FACTOR * backoff_max t) (recovery_storm_max_floor t)
    else plan_backoff t now recent j s = Inl ValueError"
proof -
  define s where "s = foldl (recovery_step t) (new_recovery t) es"
  have b: "backoff_initial t \<le> requested_backoff s" "requested_backoff s \<le> backoff_max t"
    using recovery_run_bounds[OF assms, of es] by (simp_all add: backoff_in_bounds_def s_def)
  have w: "0 \<le> backoff_initial t" "0 \<le> recent_advertisement_backoff_max t"
    "0 \<le> recovery_storm_initial_floor t"
    "recovery_storm_initial_floor t \<le> recovery_storm_max_floor t"
    using assms by (simp_all add: timings_wf_def)
  obtain f s' where f: "circuit_floor t now s = (f, s')" by fastforce
  have fr: "0 \<le> f" "f \<le> recovery_storm_max_floor t"
    using circuit_floor_range[of t now s] w(3,4) by (auto simp: f)
  define e where "e = (if recent then min (requested_backoff s) (recent_advertisement_backoff_max t)
    else requested_backoff s)"
  have e: "0 \<le> e" "e \<le> backoff_max t" "recent \<longrightarrow> e \<le> recent_advertisement_backoff_max t"
    using b w by (auto simp: e_def min_def)
  have "e * j \<le> MAX_JITTER_FACTOR * backoff_max t" "MIN_JITTER_FACTOR * e \<le> e * j"
    if "MIN_JITTER_FACTOR \<le> j" "j \<le> MAX_JITTER_FACTOR"
    using that e mult_mono[of e "backoff_max t" j MAX_JITTER_FACTOR]
      mult_left_mono[of MIN_JITTER_FACTOR j e]
    by (simp_all add: mult.commute MIN_JITTER_FACTOR_def)
  then show ?thesis unfolding s_def[symmetric] Let_def
    using b e fr by (auto simp: plan_backoff_def Let_def f e_def[symmetric] max_def)
qed

text \<open>The request follows the capped exponential sequence: from a fresh controller, or any
  restart of the sequence, the request after a stretch without restart is the initial back-off
  doubled once per completed wait and capped at the maximum.\<close>

theorem backoff_doubles_up_to_cap:
  assumes "timings_wf t" "restarts_backoff t e" "\<forall>x \<in> set es. \<not> restarts_backoff t x"
  shows "requested_backoff (foldl (recovery_step t) s (e # es)) =
    min (backoff_max t) (backoff_initial t * 2 ^ length (filter is_backoff_done es))"
proof -
  have r: "requested_backoff (recovery_step t s e) = backoff_initial t"
    using assms(2) by (cases e) (auto simp: recovery_op_defs Let_def)
  from timings_wf_backoff[OF assms(1)] r assms(3) show ?thesis
    using requested_run[of t "recovery_step t s e" 0 es] by (simp add: min_def)
qed

section \<open>Witnesses\<close>

text \<open>Three failed cycles and two advertisement wakes within the shipped two-minute window.\<close>

definition storm_events :: "recovery_event list" where
  "storm_events =
     [FailureAt ''connecting'' 1 0 10, PlanAt 10 True 1, BackoffDone 10 11 ''advertisement'' True,
      FailureAt ''connecting'' 2 0 20, BackoffDone 20 21 ''advertisement'' True,
      FailureAt ''connecting'' 3 0 30]"

lemma storm_events_run:
  "timed_run shipped_timings 30 (foldl (recovery_step shipped_timings) (new_recovery shipped_timings) storm_events)
     (foldl (history_step shipped_timings) no_history storm_events)"
proof -
  have "foldl event_time 0 storm_events = 30" "clock_monotone 0 storm_events" by code_simp+
  with timed_run_events[OF timed_run.start[of shipped_timings 0], of storm_events] show ?thesis
    by simp
qed

theorem circuit_floor_refines_history_witness:
  "fst (circuit_floor shipped_timings 40
      (foldl (recovery_step shipped_timings) (new_recovery shipped_timings) storm_events)) =
    storm_floor shipped_timings 40 (foldl (history_step shipped_timings) no_history storm_events) \<and>
   storm_floor shipped_timings 40 (foldl (history_step shipped_timings) no_history storm_events) = 5"
  by (rule conjI, rule circuit_floor_refines_history[OF storm_events_run])
    (simp_all add: shipped_timings_def, code_simp)

theorem oversized_threshold_disables_breaker_witness:
  "let t = shipped_timings\<lparr>recovery_storm_failure_threshold := 40\<rparr>
   in fst (circuit_floor t 0 (new_recovery t)) = 0"
  using oversized_threshold_disables_breaker[OF timed_run.start order_refl,
      of "shipped_timings\<lparr>recovery_storm_failure_threshold := 40\<rparr>" 0]
  by (simp add: Let_def)

lemma shipped_timings_wf: "timings_wf shipped_timings"
  by (simp add: timings_wf_def shipped_timings_def)

theorem planned_backoff_bounded_witness:
  "\<exists>d s'. plan_backoff shipped_timings 40 True 1
      (foldl (recovery_step shipped_timings) (new_recovery shipped_timings) storm_events) = Inr (d, s') \<and>
    planned_seconds d \<le> 72"
  using planned_backoff_bounded[OF shipped_timings_wf, where j = 1 and es = storm_events and now = 40 and recent = True]
  by (auto simp: Let_def MIN_JITTER_FACTOR_def MAX_JITTER_FACTOR_def shipped_timings_def)

theorem backoff_doubles_up_to_cap_witness:
  "requested_backoff (foldl (recovery_step shipped_timings) (new_recovery shipped_timings)
      (BeginSequence # storm_events)) = 4"
proof -
  have "\<forall>x \<in> set storm_events. \<not> restarts_backoff shipped_timings x" by code_simp
  moreover have "length (filter is_backoff_done storm_events) = 2" by code_simp
  ultimately show ?thesis
    using backoff_doubles_up_to_cap[OF shipped_timings_wf, of BeginSequence storm_events]
    by (simp add: shipped_timings_def)
qed

end
