(* ===== verification/Profile_Registry.thy ===== *)
theory Profile_Registry
  imports Profile_Parsing
begin

text \<open>
  Decoding and inheritance of the bundled artifacts (\<open>profiles/artifacts.py\<close>) and the registry that
  loads, cross-checks and selects profiles (\<open>profiles/registry.py\<close>).  Reading and tokenizing a
  file is the parameter \<open>read_json\<close>: the value tree of a file, objects still with their pairs in
  order and possibly with duplicate keys, or the profile error the code raises for an unreadable
  file.
\<close>

section \<open>Artifacts\<close>

definition PROFILE_IDS :: "string list" where
  "PROFILE_IDS = [''default'', ''default-encrypted'', ''h7123'', ''h712c'', ''h7124'', ''h7129'']"

definition PROFILE_FILENAMES :: "string list" where
  "PROFILE_FILENAMES = map (\<lambda>i. i @ ''.json'') PROFILE_IDS"

definition ROOT_PROFILE_IDS :: "string list" where
  "ROOT_PROFILE_IDS = [''default'', ''default-encrypted'']"

definition EXACT_PROFILE_PARENTS :: "(string \<times> string) list" where
  "EXACT_PROFILE_PARENTS =
     [(''h7123'', ''default-encrypted''), (''h712c'', ''default''), (''h7124'', ''default''),
      (''h7129'', ''default-encrypted'')]"

definition SECRET_FIELDS :: "string list" where
  "SECRET_FIELDS =
     [''callback'', ''communication_key'', ''decrypted_frame'', ''encrypted_frame'', ''import'',
      ''import_path'', ''key'', ''negotiation_randomness'', ''password'', ''random_padding'',
      ''secret'', ''session_key'', ''user_path'']"

record effective_document =
  ed_raw :: jobject
  ed_lineage :: "string list"
  ed_source :: string

text \<open>\<open>_pairs_object\<close> at every object, as \<open>object_pairs_hook\<close> applies it bottom-up.\<close>

fun decode_value :: "json \<Rightarrow> json res"
  and decode_items :: "json list \<Rightarrow> json list res"
  and decode_pairs :: "(string \<times> json) list \<Rightarrow> (string \<times> json) list res" where
  "decode_value (JArray xs) = res_bind (decode_items xs) (\<lambda>ys. Inr (JArray ys))"
| "decode_value (JObject ps) =
     res_bind (decode_pairs ps) (\<lambda>qs.
       if distinct (map fst qs) then Inr (JObject qs) else Inl DuplicateProfileKeyError)"
| "decode_value v = Inr v"
| "decode_items [] = Inr []"
| "decode_items (x # xs) =
     res_bind (decode_value x) (\<lambda>y. res_bind (decode_items xs) (\<lambda>ys. Inr (y # ys)))"
| "decode_pairs [] = Inr []"
| "decode_pairs ((k, x) # ps) =
     res_bind (decode_value x) (\<lambda>y. res_bind (decode_pairs ps) (\<lambda>qs. Inr ((k, y) # qs)))"

definition read_object :: "(string \<Rightarrow> json res) \<Rightarrow> string \<Rightarrow> jobject res" where
  "read_object read_json filename =
     res_bind (read_json filename) (\<lambda>v.
     res_bind (decode_value v) (\<lambda>decoded.
       case decoded of JObject d \<Rightarrow> Inr d | _ \<Rightarrow> Inl ProfileError))"

fun closed_value :: "json \<Rightarrow> unit res"
  and closed_items :: "json list \<Rightarrow> unit res"
  and closed_pairs :: "(string \<times> json) list \<Rightarrow> unit res" where
  "closed_value (JObject d) =
     (if jget d ''type'' = JString ''object'' \<and> jget d ''additionalProperties'' \<noteq> JBool False
      then Inl ProfileError else closed_pairs d)"
| "closed_value (JArray xs) = closed_items xs"
| "closed_value v = Inr ()"
| "closed_items [] = Inr ()"
| "closed_items (x # xs) = res_bind (closed_value x) (\<lambda>_. closed_items xs)"
| "closed_pairs [] = Inr ()"
| "closed_pairs ((k, x) # ps) = res_bind (closed_value x) (\<lambda>_. closed_pairs ps)"

definition validate_schema_artifact :: "jobject \<Rightarrow> unit res" where
  "validate_schema_artifact schema =
     (if jget schema ''$schema'' \<noteq> JString ''https://json-schema.org/draft/2020-12/schema''
      then Inl ProfileError
      else case (jget schema ''$defs'', jget schema ''oneOf'') of
        (JObject _, JArray _) \<Rightarrow> closed_value (JObject schema)
      | _ \<Rightarrow> Inl ProfileError)"

fun secret_free_value :: "json \<Rightarrow> unit res"
  and secret_free_items :: "json list \<Rightarrow> unit res"
  and secret_free_pairs :: "(string \<times> json) list \<Rightarrow> unit res" where
  "secret_free_value (JObject d) = secret_free_pairs d"
| "secret_free_value (JArray xs) = secret_free_items xs"
| "secret_free_value v = Inr ()"
| "secret_free_items [] = Inr ()"
| "secret_free_items (x # xs) = res_bind (secret_free_value x) (\<lambda>_. secret_free_items xs)"
| "secret_free_pairs [] = Inr ()"
| "secret_free_pairs ((k, x) # ps) =
     (if ascii_lower k \<in> set SECRET_FIELDS then Inl ProfileError
      else res_bind (secret_free_value x) (\<lambda>_. secret_free_pairs ps))"

text \<open>\<open>merged[key] = value\<close> keeps the position of an existing key.\<close>

fun dict_set :: "('k \<times> 'v) list \<Rightarrow> 'k \<Rightarrow> 'v \<Rightarrow> ('k \<times> 'v) list" where
  "dict_set [] k v = [(k, v)]"
| "dict_set ((k', v') # d) k v = (if k' = k then (k, v) # d else (k', v') # dict_set d k v)"

function deep_merge :: "jobject \<Rightarrow> jobject \<Rightarrow> jobject" where
  "deep_merge merged [] = merged"
| "deep_merge merged ((k, v) # rest) =
     deep_merge
       (dict_set merged k
         (case (v, map_of merged k) of
            (JObject cv, Some (JObject pv)) \<Rightarrow> JObject (deep_merge pv cv)
          | _ \<Rightarrow> v))
       rest"
  by pat_completeness auto

termination
  by (relation "measure (\<lambda>(_, c). size_list (size_prod (\<lambda>_. 0) size) c)") auto

definition check_source :: "string \<Rightarrow> jobject \<Rightarrow> unit res" where
  "check_source expected_id raw =
     res_bind (secret_free_value (JObject raw)) (\<lambda>_.
     if jget raw ''profile_id'' \<noteq> JString expected_id then Inl ProfileError
     else if jget raw ''schema_version'' \<noteq> JInt SCHEMA_VERSION then Inl ProfileError
     else if expected_id \<in> set ROOT_PROFILE_IDS then
       (if ''extends'' \<in> fst ` set raw then Inl ProfileError else Inr ())
     else case map_of EXACT_PROFILE_PARENTS expected_id of
       None \<Rightarrow> Inl KeyError
     | Some parent \<Rightarrow>
         if jget raw ''extends'' \<noteq> JString parent then Inl ProfileError else Inr ())"

fun read_sources :: "(string \<Rightarrow> json res) \<Rightarrow> string list \<Rightarrow> (string \<times> jobject) list res" where
  "read_sources read_json [] = Inr []"
| "read_sources read_json (i # is) =
     res_bind (read_object read_json (i @ ''.json'')) (\<lambda>raw.
     res_bind (check_source i raw) (\<lambda>_.
     res_bind (read_sources read_json is) (\<lambda>rest. Inr ((i, raw) # rest))))"

definition effective_document :: "(string \<times> jobject) list \<Rightarrow> string \<Rightarrow> effective_document res" where
  "effective_document sources i =
     res_bind (py_getitem sources i) (\<lambda>source.
     let finish = (\<lambda>d ancestry.
           \<lparr>ed_raw = dict_set (filter (\<lambda>(k, _). k \<noteq> ''extends'') d) ''profile_id'' (JString i),
            ed_lineage = ancestry, ed_source = i @ ''.json''\<rparr>)
     in if i \<in> set ROOT_PROFILE_IDS then Inr (finish source [i])
        else
          res_bind (py_getitem EXACT_PROFILE_PARENTS i) (\<lambda>parent.
          res_bind (py_getitem sources parent) (\<lambda>base.
            Inr (finish (deep_merge base (filter (\<lambda>(k, _). k \<noteq> ''extends'') source)) [i, parent]))))"

definition load_effective_documents :: "(string \<Rightarrow> json res) \<Rightarrow> effective_document list res" where
  "load_effective_documents read_json =
     res_bind (read_object read_json ''schema.json'') (\<lambda>schema.
     res_bind (validate_schema_artifact schema) (\<lambda>_.
     res_bind (read_sources read_json PROFILE_IDS) (\<lambda>sources.
       res_map_list (effective_document sources) PROFILE_IDS)))"

section \<open>Registry\<close>

type_synonym profile_registry = "(string \<times> device_profile) list"

definition registry_id :: "model \<Rightarrow> string" where
  "registry_id m =
     (case m of H7123 \<Rightarrow> ''h7123'' | H712C \<Rightarrow> ''h712c'' | H7124 \<Rightarrow> ''h7124'' | H7129 \<Rightarrow> ''h7129'')"

definition for_model :: "profile_registry \<Rightarrow> string \<Rightarrow> device_profile res" where
  "for_model reg name =
     res_bind (model_of_value name) (\<lambda>m.
       case map_of reg (registry_id m) of
         Some p \<Rightarrow> Inr p | None \<Rightarrow> Inl ProfileSelectionError)"

definition profile_matches :: "string \<Rightarrow> device_profile \<Rightarrow> bool" where
  "profile_matches normalized p \<longleftrightarrow>
     (\<exists>prefix \<in> set (advertised_name_prefixes (identity p)).
        starts_with (ascii_lower prefix) normalized)"

definition match_name :: "profile_registry \<Rightarrow> string option \<Rightarrow> device_profile option res" where
  "match_name reg name =
     (case name of
        None \<Rightarrow> Inr None
      | Some n \<Rightarrow>
          if n = [] then Inr None
          else
            let normalized = ascii_lower n;
                matches = map snd (filter (\<lambda>(i, p). i \<in> fst ` set EXACT_PROFILE_PARENTS \<and>
                            profile_matches normalized p) reg)
            in if 1 < length matches then Inl ProfileSelectionError
               else case matches of [] \<Rightarrow> Inr None | p # _ \<Rightarrow> Inr (Some p))"

text \<open>Building the effective profiles; an invalid field type becomes a profile error.\<close>

definition parse_document ::
    "(jobject \<Rightarrow> string) \<Rightarrow> effective_document \<Rightarrow> (string \<times> device_profile) res" where
  "parse_document digest document =
     (case jget (ed_raw document) ''profile_id'' of
        JString i \<Rightarrow>
          (case parse_profile digest (ed_raw document) (ed_lineage document) (ed_source document) of
             Inr p \<Rightarrow> Inr (i, p)
           | Inl e \<Rightarrow> if is_profile_error e then Inl e
                      else if e = KeyError \<or> e = TypeError then Inl ProfileError
                      else Inl e)
      | _ \<Rightarrow> Inl KeyError)"

definition prefixes_comparable :: "string \<Rightarrow> string \<Rightarrow> bool" where
  "prefixes_comparable a b \<longleftrightarrow> starts_with a b \<or> starts_with b a"

text \<open>The prefixes of one profile against those registered before it.\<close>

fun register_prefixes :: "string list \<Rightarrow> string list \<Rightarrow> string list res" where
  "register_prefixes registered [] = Inr registered"
| "register_prefixes registered (p # ps) =
     (let folded = ascii_lower p
      in if \<exists>e \<in> set registered. prefixes_comparable e folded then Inl ProfileError
         else register_prefixes (registered @ [folded]) ps)"

definition check_root :: "profile_registry \<Rightarrow> string \<Rightarrow> unit res" where
  "check_root reg root_id =
     res_bind (py_getitem reg root_id) (\<lambda>p.
       if identity_model (identity p) \<noteq> None \<or> advertised_name_prefixes (identity p) \<noteq> []
       then Inl ProfileError else Inr ())"

definition check_exact :: "profile_registry \<Rightarrow> string \<Rightarrow> string \<Rightarrow> unit res" where
  "check_exact reg exact_id parent =
     res_bind (py_getitem reg exact_id) (\<lambda>p.
       case identity_model (identity p) of
         None \<Rightarrow> Inl ProfileError
       | Some m \<Rightarrow>
           if advertised_name_prefixes (identity p) = [] then Inl ProfileError
           else if ascii_lower (model_value m) \<noteq> exact_id then Inl ProfileError
           else if profile_security p \<noteq> (if parent = ''default'' then PLAINTEXT else H7129_SESSION)
           then Inl ProfileError else Inr ())"

fun check_exacts :: "profile_registry \<Rightarrow> string list \<Rightarrow> (string \<times> string) list \<Rightarrow> string list res" where
  "check_exacts reg registered [] = Inr registered"
| "check_exacts reg registered ((i, parent) # rest) =
     res_bind (check_exact reg i parent) (\<lambda>_.
     res_bind (py_getitem reg i) (\<lambda>p.
     res_bind (register_prefixes registered (advertised_name_prefixes (identity p))) (\<lambda>registered'.
       check_exacts reg registered' rest)))"

definition load_profile_registry ::
    "(jobject \<Rightarrow> string) \<Rightarrow> (string \<Rightarrow> json res) \<Rightarrow> profile_registry res" where
  "load_profile_registry digest read_json =
     res_bind (load_effective_documents read_json) (\<lambda>documents.
     res_bind (res_map_list (parse_document digest) documents) (\<lambda>resolved.
     res_bind (res_map_list (check_root resolved) ROOT_PROFILE_IDS) (\<lambda>_.
     res_bind (check_exacts resolved [] EXACT_PROFILE_PARENTS) (\<lambda>_.
       Inr resolved))))"

section \<open>What loading guarantees\<close>

lemma effective_document_id:
  "effective_document sources i = Inr d \<Longrightarrow> jget (ed_raw d) ''profile_id'' = JString i"
proof -
  have set: "map_of (dict_set xs k v) k = Some v" for xs :: jobject and k v
    by (induction xs k v rule: dict_set.induct) auto
  show "effective_document sources i = Inr d \<Longrightarrow> jget (ed_raw d) ''profile_id'' = JString i"
    by (auto simp: effective_document_def Let_def jget_def set split: if_splits)
qed

lemma parse_document_Inr:
  assumes "parse_document digest d = Inr x" and "jget (ed_raw d) ''profile_id'' = JString i"
  shows "fst x = i \<and> profile_wf (snd x)"
  using assms parse_profile_wf
  by (auto simp: parse_document_def split: sum.splits if_splits)

lemma resolved_profiles:
  assumes "res_map_list (effective_document sources) ids = Inr documents"
    and "res_map_list (parse_document digest) documents = Inr resolved"
  shows "map fst resolved = ids \<and> (\<forall>e \<in> set resolved. profile_wf (snd e))"
  using assms
proof (induction ids arbitrary: documents resolved)
  case Nil
  then show ?case by auto
next
  case (Cons i ids)
  from Cons.prems(1) obtain d ds where d: "effective_document sources i = Inr d"
    and ds: "res_map_list (effective_document sources) ids = Inr ds" and doc: "documents = d # ds"
    by auto
  from Cons.prems(2) doc obtain x xs where x: "parse_document digest d = Inr x"
    and xs: "res_map_list (parse_document digest) ds = Inr xs" and r: "resolved = x # xs" by auto
  from Cons.IH[OF ds xs] parse_document_Inr[OF x effective_document_id[OF d]] r show ?case by simp
qed

definition folded_prefixes :: "device_profile \<Rightarrow> string list" where
  "folded_prefixes p = map ascii_lower (advertised_name_prefixes (identity p))"

definition incomparable :: "string list \<Rightarrow> bool" where
  "incomparable xs \<longleftrightarrow> sorted_wrt (\<lambda>a b. \<not> prefixes_comparable a b) xs"

lemma register_prefixes_ok:
  assumes "register_prefixes registered ps = Inr out" and "incomparable registered"
  shows "out = registered @ map ascii_lower ps \<and> incomparable out"
  using assms
proof (induction ps arbitrary: registered)
  case Nil
  then show ?case by simp
next
  case (Cons p ps)
  then have r: "register_prefixes (registered @ [ascii_lower p]) ps = Inr out"
    and n: "\<forall>e \<in> set registered. \<not> prefixes_comparable e (ascii_lower p)"
    by (auto simp: Let_def split: if_splits)
  have "incomparable (registered @ [ascii_lower p])"
    using Cons.prems(2) n by (simp add: incomparable_def sorted_wrt_append)
  from Cons.IH[OF r this] show ?case by auto
qed

lemma check_exacts_ok:
  assumes "check_exacts reg registered es = Inr out" and "incomparable registered"
  shows "incomparable out \<and> (\<forall>e \<in> set es. check_exact reg (fst e) (snd e) = Inr ()) \<and>
    out = registered @ concat (map (\<lambda>e. case map_of reg (fst e) of Some p \<Rightarrow> folded_prefixes p
                                      | None \<Rightarrow> []) es)"
  using assms
proof (induction es arbitrary: registered)
  case Nil
  then show ?case by simp
next
  case (Cons e es)
  obtain i parent where e: "e = (i, parent)" by (cases e)
  from Cons.prems(1) e obtain p registered' where c: "check_exact reg i parent = Inr ()"
    and p: "map_of reg i = Some p"
    and r: "register_prefixes registered (advertised_name_prefixes (identity p)) = Inr registered'"
    and rest: "check_exacts reg registered' es = Inr out" by auto
  from register_prefixes_ok[OF r Cons.prems(2)]
  have r': "registered' = registered @ folded_prefixes p" "incomparable registered'"
    by (auto simp: folded_prefixes_def)
  from Cons.IH[OF rest r'(2)] r'(1) c p e show ?case by auto
qed

lemma starts_with_comparable:
  assumes "starts_with a n" and "starts_with b n"
  shows "prefixes_comparable a b"
proof (cases "length a \<le> length b")
  case True
  then have "take (length a) (take (length b) n) = take (length a) n" by (simp add: min_def)
  with assms have "starts_with a b" by (simp add: starts_with_def)
  then show ?thesis by (simp add: prefixes_comparable_def)
next
  case False
  then have "take (length b) (take (length a) n) = take (length b) n" by (simp add: min_def)
  with assms have "starts_with b a" by (simp add: starts_with_def)
  then show ?thesis by (simp add: prefixes_comparable_def)
qed

lemma prefixes_comparable_sym: "prefixes_comparable a b \<longleftrightarrow> prefixes_comparable b a"
  by (auto simp: prefixes_comparable_def)

lemma incomparable_concat:
  assumes "incomparable (concat (map f xs))" and "x \<in> set xs" and "y \<in> set xs" and "x \<noteq> y"
    and "a \<in> set (f x)" and "b \<in> set (f y)"
  shows "\<not> prefixes_comparable a b"
  using assms
proof (induction xs)
  case Nil
  then show ?case by simp
next
  case (Cons z zs)
  from Cons.prems(1) have inc: "incomparable (concat (map f zs))"
    and cross: "\<And>a b. a \<in> set (f z) \<Longrightarrow> b \<in> set (concat (map f zs)) \<Longrightarrow> \<not> prefixes_comparable a b"
    by (auto simp: incomparable_def sorted_wrt_append)
  from Cons.prems consider "x = z" "y \<in> set zs" | "y = z" "x \<in> set zs" | "x \<in> set zs" "y \<in> set zs"
    by auto
  then show ?case
  proof cases
    case 1
    with cross[of a b] Cons.prems(5,6) show ?thesis by auto
  next
    case 2
    with cross[of b a] Cons.prems(5,6) show ?thesis using prefixes_comparable_sym by auto
  next
    case 3
    from Cons.IH[OF inc 3] Cons.prems show ?thesis by blast
  qed
qed

definition registry_wf :: "profile_registry \<Rightarrow> bool" where
  "registry_wf reg \<longleftrightarrow>
     map fst reg = PROFILE_IDS \<and> (\<forall>e \<in> set reg. profile_wf (snd e)) \<and>
     (\<forall>e \<in> set EXACT_PROFILE_PARENTS. check_exact reg (fst e) (snd e) = Inr ()) \<and>
     incomparable (concat (map (\<lambda>e. case map_of reg (fst e) of Some p \<Rightarrow> folded_prefixes p
                                  | None \<Rightarrow> []) EXACT_PROFILE_PARENTS))"

lemma load_profile_registry_wf:
  assumes "load_profile_registry digest read_json = Inr reg"
  shows "registry_wf reg"
proof -
  from assms obtain documents registered where docs: "load_effective_documents read_json = Inr documents"
    and res: "res_map_list (parse_document digest) documents = Inr reg"
    and ex: "check_exacts reg [] EXACT_PROFILE_PARENTS = Inr registered"
    unfolding load_profile_registry_def res_bind_eq_Inr by blast
  from docs obtain sources where "res_map_list (effective_document sources) PROFILE_IDS = Inr documents"
    unfolding load_effective_documents_def res_bind_eq_Inr by blast
  from resolved_profiles[OF this res] check_exacts_ok[OF ex] show ?thesis
    by (auto simp: registry_wf_def incomparable_def)
qed

lemma registry_exact:
  assumes "registry_wf reg" and "(i, parent) \<in> set EXACT_PROFILE_PARENTS"
  shows "\<exists>p m. map_of reg i = Some p \<and> identity_model (identity p) = Some m \<and>
    ascii_lower (model_value m) = i \<and> profile_wf p \<and>
    profile_security p = (if parent = ''default'' then PLAINTEXT else H7129_SESSION)"
proof -
  from assms have "check_exact reg i parent = Inr ()" by (fastforce simp: registry_wf_def)
  then obtain p m where p: "map_of reg i = Some p" "identity_model (identity p) = Some m"
    "ascii_lower (model_value m) = i"
    "profile_security p = (if parent = ''default'' then PLAINTEXT else H7129_SESSION)"
    by (auto simp: check_exact_def split: option.splits if_splits)
  from map_of_SomeD[OF p(1)] assms(1) have "profile_wf p" by (auto simp: registry_wf_def)
  with p show ?thesis by blast
qed

lemma lower_model_values:
  "ascii_lower ''H7123'' = ''h7123''" "ascii_lower ''H712C'' = ''h712c''"
  "ascii_lower ''H7124'' = ''h7124''" "ascii_lower ''H7129'' = ''h7129''"
  by code_simp+

lemma two_elements:
  "1 < length xs \<Longrightarrow> \<exists>a b rest. xs = a # b # rest"
  by (cases xs; cases "tl xs") auto

lemma profile_matches_folded:
  "profile_matches n p \<Longrightarrow> \<exists>a. a \<in> set (folded_prefixes p) \<and> starts_with a n"
  by (auto simp: profile_matches_def folded_prefixes_def)

lemma match_name_total:
  assumes wf: "registry_wf reg"
  shows "\<exists>r. match_name reg name = Inr r"
proof (rule ccontr)
  assume "\<nexists>r. match_name reg name = Inr r"
  then obtain n where n: "name = Some n" "n \<noteq> []"
    by (cases name) (auto simp: match_name_def split: if_splits)
  let ?hit = "\<lambda>(i, p). i \<in> fst ` set EXACT_PROFILE_PARENTS \<and> profile_matches (ascii_lower n) p"
  have "1 < length (filter ?hit reg)"
    using \<open>\<nexists>r. match_name reg name = Inr r\<close> n
    by (auto simp: match_name_def Let_def split: if_splits list.splits)
  from two_elements[OF this] obtain x y rest where hits: "filter ?hit reg = x # y # rest" by blast
  then have "x \<in> set (filter ?hit reg)" "y \<in> set (filter ?hit reg)" by simp_all
  then have x: "x \<in> set reg" "?hit x" and y: "y \<in> set reg" "?hit y" by simp_all
  have dist: "distinct (map fst reg)" using wf by (simp add: registry_wf_def PROFILE_IDS_def)
  then have "distinct (map fst (filter ?hit reg))" by (rule distinct_map_filter)
  with hits have ne: "fst x \<noteq> fst y" by simp
  from x y obtain a b where
    a: "a \<in> set (folded_prefixes (snd x))" "starts_with a (ascii_lower n)" and
    b: "b \<in> set (folded_prefixes (snd y))" "starts_with b (ascii_lower n)"
    using profile_matches_folded by (metis (mono_tags, lifting) case_prod_beta)
  have mx: "map_of reg (fst x) = Some (snd x)" "map_of reg (fst y) = Some (snd y)"
    using dist x(1) y(1) by simp_all
  from x(2) y(2) obtain ex ey where e: "ex \<in> set EXACT_PROFILE_PARENTS" "fst ex = fst x"
    "ey \<in> set EXACT_PROFILE_PARENTS" "fst ey = fst y"
    by (cases x; cases y) auto
  from wf have inc: "incomparable (concat (map (\<lambda>e. case map_of reg (fst e) of Some p \<Rightarrow> folded_prefixes p
                                  | None \<Rightarrow> []) EXACT_PROFILE_PARENTS))" by (simp add: registry_wf_def)
  have "\<not> prefixes_comparable a b"
    by (rule incomparable_concat[OF inc e(1,3)]) (use e ne mx a b in auto)
  with starts_with_comparable[OF a(2) b(2)] show False by simp
qed

section \<open>Properties\<close>

text \<open>A registry that loads selects unambiguously: every advertised name matches at most one
  exact profile and matching never raises; every supported model resolves to a well-formed
  profile of that model with the security its parent prescribes; and a name is only matched to
  an exact profile one of whose prefixes it carries.\<close>

theorem loaded_registry_selects:
  assumes "load_profile_registry digest read_json = Inr reg"
  shows "(case match_name reg name of
      Inr (Some p) \<Rightarrow> profile_wf p \<and> (\<exists>m. profile_model p = Inr m) \<and>
        (\<exists>n. name = Some n \<and> profile_matches (ascii_lower n) p)
    | Inr None \<Rightarrow> True
    | Inl _ \<Rightarrow> False) \<and>
    (\<exists>p. for_model reg (model_value m) = Inr p \<and> profile_wf p \<and> profile_model p = Inr m \<and>
       profile_security p = (if m \<in> {H712C, H7124} then PLAINTEXT else H7129_SESSION))"
proof
  have wf: "registry_wf reg" by (rule load_profile_registry_wf[OF assms])
  obtain r where r: "match_name reg name = Inr r" using match_name_total[OF wf] by blast
  show "case match_name reg name of
      Inr (Some p) \<Rightarrow> profile_wf p \<and> (\<exists>m. profile_model p = Inr m) \<and>
        (\<exists>n. name = Some n \<and> profile_matches (ascii_lower n) p)
    | Inr None \<Rightarrow> True | Inl _ \<Rightarrow> False"
  proof (cases r)
    case None
    with r show ?thesis by simp
  next
    case (Some p)
    with r obtain n where n: "name = Some n" by (cases name) (auto simp: match_name_def)
    let ?hit = "\<lambda>(i, p). i \<in> fst ` set EXACT_PROFILE_PARENTS \<and> profile_matches (ascii_lower n) p"
    from r Some n obtain i rest where "filter ?hit reg = (i, p) # rest"
      by (auto simp: match_name_def Let_def split: if_splits list.splits)
    then have "(i, p) \<in> set (filter ?hit reg)" by simp
    then have ip: "(i, p) \<in> set reg" "?hit (i, p)" by simp_all
    from ip(2) obtain parent where par: "(i, parent) \<in> set EXACT_PROFILE_PARENTS" by auto
    have "distinct (map fst reg)" using wf by (simp add: registry_wf_def PROFILE_IDS_def)
    with ip(1) have "map_of reg i = Some p" by simp
    with registry_exact[OF wf par] obtain m where "identity_model (identity p) = Some m" "profile_wf p"
      by auto
    with ip(2) n r Some show ?thesis by (simp add: profile_model_def)
  qed
  show "\<exists>p. for_model reg (model_value m) = Inr p \<and> profile_wf p \<and> profile_model p = Inr m \<and>
       profile_security p = (if m \<in> {H712C, H7124} then PLAINTEXT else H7129_SESSION)"
  proof -
    have par: "(registry_id m, if m \<in> {H712C, H7124} then ''default'' else ''default-encrypted'')
        \<in> set EXACT_PROFILE_PARENTS"
      by (cases m) (simp_all add: registry_id_def EXACT_PROFILE_PARENTS_def)
    from registry_exact[OF wf par] obtain p m' where p: "map_of reg (registry_id m) = Some p"
      "identity_model (identity p) = Some m'" "ascii_lower (model_value m') = registry_id m" "profile_wf p"
      "profile_security p = (if m \<in> {H712C, H7124} then PLAINTEXT else H7129_SESSION)"
      by (auto split: if_splits)
    have "m' = m"
      using p(3) by (cases m; cases m') (simp_all add: registry_id_def lower_model_values)
    with p show ?thesis by (simp add: for_model_def profile_model_def)
  qed
qed

end
