(* ===== verification/Shipped_Documents.thy ===== *)
theory Shipped_Documents
  imports Profile_Registry
begin

text \<open>
  The profile artifacts the repository ships (\<open>model_profiles/*.json\<close>), as the value trees the
  JSON reader returns (floats are the rationals their decimal text denotes), and the check that
  loading them yields the profiles of \<open>Shipped_Profiles\<close>.
\<close>

section \<open>Artifacts\<close>

definition schema_document :: jobject where
  "schema_document =
     [
      (''$schema'', JString ''https://json-schema.org/draft/2020-12/schema''),
      (''$id'', JString ''https://github.com/SoloUnity/govee-ble-purifiers/model-profile.schema.json''),
      (''title'', JString ''Govee BLE Air Purifier bundled model profile''),
      (''$defs'', JObject [
        (''hex'', JObject [
          (''type'', JString ''string''),
          (''pattern'', JString ''^(?:[0-9a-f]{2})(?: [0-9a-f]{2})*$'')]),
        (''identity'', JObject [
          (''type'', JString ''object''),
          (''properties'', JObject [
            (''manufacturer'', JObject [(''type'', JString ''string''), (''minLength'', JInt 1)]),
            (''model'', JObject [
              (''type'', JArray [JString ''string'', JString ''null'']),
              (''enum'', JArray [
                JString ''H7123'',
                JString ''H712C'',
                JString ''H7124'',
                JString ''H7129'',
                JNull])]),
            (''display_name'', JObject [(''type'', JString ''string''), (''minLength'', JInt 1)]),
            (''support_status'', JObject [
              (''enum'', JArray [JString ''baseline'', JString ''verified'', JString ''experimental''])]),
            (''advertised_name_prefixes'', JObject [
              (''type'', JString ''array''),
              (''items'', JObject [(''type'', JString ''string''), (''minLength'', JInt 1)]),
              (''uniqueItems'', JBool True)])]),
          (''additionalProperties'', JBool False)]),
        (''bluetooth'', JObject [
          (''type'', JString ''object''),
          (''properties'', JObject [
            (''service_uuid'', JObject [(''type'', JString ''string''), (''format'', JString ''uuid'')]),
            (''notify_uuid'', JObject [(''type'', JString ''string''), (''format'', JString ''uuid'')]),
            (''write_uuid'', JObject [(''type'', JString ''string''), (''format'', JString ''uuid'')])]),
          (''additionalProperties'', JBool False)]),
        (''negotiation'', JObject [
          (''type'', JString ''object''),
          (''properties'', JObject [
            (''attempts'', JObject [
              (''type'', JString ''integer''),
              (''minimum'', JInt 1),
              (''maximum'', JInt 3)]),
            (''retry_interval'', JObject [
              (''type'', JString ''number''),
              (''minimum'', JInt 0),
              (''maximum'', JInt 15)]),
            (''phase_timeout'', JObject [
              (''type'', JString ''number''),
              (''exclusiveMinimum'', JInt 0),
              (''maximum'', JInt 15)]),
            (''step_delay'', JObject [
              (''type'', JString ''number''),
              (''minimum'', JInt 0),
              (''maximum'', JInt 1)])]),
          (''additionalProperties'', JBool False)]),
        (''channel'', JObject [
          (''type'', JString ''object''),
          (''properties'', JObject [
            (''strategy'', JObject [(''enum'', JArray [JString ''plaintext'', JString ''h7129_session''])]),
            (''first_application_delay'', JObject [
              (''type'', JString ''number''),
              (''minimum'', JInt 0),
              (''maximum'', JInt 1)]),
            (''negotiation'', JObject [
              (''oneOf'', JArray [
                JObject [(''$ref'', JString ''#/$defs/negotiation'')],
                JObject [(''type'', JString ''null'')]])])]),
          (''additionalProperties'', JBool False)]),
        (''matcher'', JObject [
          (''type'', JString ''object''),
          (''properties'', JObject [
            (''kind'', JObject [
              (''enum'', JArray [
                JString ''exact'',
                JString ''value_byte'',
                JString ''zero_payload'',
                JString ''prefix'',
                JString ''prefix_selector'',
                JString ''fragments'',
                JString ''h7129_metadata'',
                JString ''fields''])]),
            (''prefix'', JObject [(''$ref'', JString ''#/$defs/hex'')]),
            (''selector'', JObject [(''$ref'', JString ''#/$defs/hex'')]),
            (''exact'', JObject [(''$ref'', JString ''#/$defs/hex'')]),
            (''exact_alternatives'', JObject [
              (''type'', JString ''array''),
              (''items'', JObject [(''$ref'', JString ''#/$defs/hex'')])]),
            (''fragments'', JObject [
              (''type'', JString ''array''),
              (''items'', JObject [
                (''type'', JString ''integer''),
                (''minimum'', JInt 0),
                (''maximum'', JInt 255)])]),
            (''allowed_prefixes'', JObject [
              (''type'', JString ''array''),
              (''items'', JObject [(''$ref'', JString ''#/$defs/hex'')])]),
            (''expected_fields'', JObject [
              (''type'', JString ''array''),
              (''items'', JObject [
                (''type'', JString ''array''),
                (''prefixItems'', JArray [
                  JObject [
                    (''type'', JString ''integer''),
                    (''minimum'', JInt 0),
                    (''maximum'', JInt 18)],
                  JObject [
                    (''type'', JString ''integer''),
                    (''minimum'', JInt 0),
                    (''maximum'', JInt 255)]]),
                (''items'', JBool False),
                (''minItems'', JInt 2),
                (''maxItems'', JInt 2)])]),
            (''allowed_values'', JObject [
              (''type'', JString ''array''),
              (''items'', JObject [
                (''type'', JString ''integer''),
                (''minimum'', JInt 0),
                (''maximum'', JInt 255)])])]),
          (''additionalProperties'', JBool False)]),
        (''request'', JObject [
          (''type'', JString ''object''),
          (''properties'', JObject [
            (''name'', JObject [
              (''type'', JString ''string''),
              (''pattern'', JString ''^[a-z0-9]+(?:_[a-z0-9]+)*$'')]),
            (''frame'', JObject [(''$ref'', JString ''#/$defs/hex'')]),
            (''response'', JObject [(''$ref'', JString ''#/$defs/matcher'')])]),
          (''additionalProperties'', JBool False)]),
        (''command'', JObject [
          (''type'', JString ''object''),
          (''properties'', JObject [
            (''strategy'', JObject [(''type'', JString ''string''), (''minLength'', JInt 1)]),
            (''prefix'', JObject [(''$ref'', JString ''#/$defs/hex'')])]),
          (''required'', JArray [JString ''strategy'', JString ''prefix'']),
          (''additionalProperties'', JBool False)]),
        (''commands'', JObject [
          (''type'', JString ''object''),
          (''properties'', JObject [
            (''power'', JObject [(''$ref'', JString ''#/$defs/command'')]),
            (''fan_mode'', JObject [(''$ref'', JString ''#/$defs/command'')]),
            (''night_light_power'', JObject [(''$ref'', JString ''#/$defs/command'')]),
            (''night_light_brightness'', JObject [(''$ref'', JString ''#/$defs/command'')]),
            (''night_light_color'', JObject [(''$ref'', JString ''#/$defs/command'')])]),
          (''required'', JArray [
            JString ''power'',
            JString ''fan_mode'',
            JString ''night_light_power'',
            JString ''night_light_brightness'',
            JString ''night_light_color'']),
          (''additionalProperties'', JBool False)]),
        (''protocol'', JObject [
          (''type'', JString ''object''),
          (''properties'', JObject [
            (''codec'', JObject [(''const'', JString ''govee_20_byte_v1'')]),
            (''checksum'', JObject [(''const'', JString ''xor_0_18'')]),
            (''frame_size'', JObject [(''const'', JInt 20)]),
            (''auto_parameter'', JObject [
              (''type'', JString ''integer''),
              (''minimum'', JInt 0),
              (''maximum'', JInt 255)]),
            (''startup_mode_strategy'', JObject [
              (''enum'', JArray [
                JString ''h7124_selector_00'',
                JString ''h7129_selector_pair'',
                JString ''h7123_direct''])]),
            (''commands'', JObject [(''$ref'', JString ''#/$defs/commands'')]),
            (''request_catalog'', JObject [
              (''type'', JString ''array''),
              (''minItems'', JInt 1),
              (''items'', JObject [(''$ref'', JString ''#/$defs/request'')])]),
            (''initialization_order'', JObject [
              (''type'', JString ''array''),
              (''items'', JObject [(''type'', JString ''string'')]),
              (''uniqueItems'', JBool True)]),
            (''refresh_order'', JObject [
              (''type'', JString ''array''),
              (''items'', JObject [(''type'', JString ''string'')]),
              (''uniqueItems'', JBool True)]),
            (''essential_request'', JObject [(''type'', JString ''string'')]),
            (''periodic_request'', JObject [(''type'', JString ''string'')])]),
          (''additionalProperties'', JBool False)]),
        (''capabilities'', JObject [
          (''type'', JString ''object''),
          (''properties'', JObject [
            (''power'', JObject [(''type'', JString ''boolean'')]),
            (''fan'', JObject [(''type'', JString ''boolean'')]),
            (''light'', JObject [(''type'', JString ''boolean'')]),
            (''pm25'', JObject [(''type'', JString ''boolean'')]),
            (''filter_life'', JObject [(''type'', JString ''boolean'')]),
            (''unsolicited_updates'', JObject [(''type'', JString ''boolean'')]),
            (''refresh'', JObject [(''type'', JString ''boolean'')])]),
          (''additionalProperties'', JBool False)]),
        (''timings'', JObject [
          (''type'', JString ''object''),
          (''properties'', JObject [
            (''connect_attempts'', JObject [
              (''type'', JString ''integer''),
              (''minimum'', JInt 1),
              (''maximum'', JInt 3)]),
            (''connection_attempt_timeout'', JObject [
              (''type'', JString ''number''),
              (''minimum'', JInt 0),
              (''maximum'', JInt 45)]),
            (''connection_abort_timeout'', JObject [(''type'', JString ''number''), (''minimum'', JInt 0)]),
            (''connection_diagnostic_timeout'', JObject [(''type'', JString ''number''), (''minimum'', JInt 0)]),
            (''notification_subscribe_timeout'', JObject [
              (''type'', JString ''number''),
              (''minimum'', JInt 0),
              (''maximum'', JInt 15)]),
            (''gatt_write_timeout'', JObject [
              (''type'', JString ''number''),
              (''minimum'', JInt 0),
              (''maximum'', JInt 15)]),
            (''gatt_disconnect_timeout'', JObject [(''type'', JString ''number''), (''minimum'', JInt 0)]),
            (''gatt_operation_cancel_timeout'', JObject [(''type'', JString ''number''), (''minimum'', JInt 0)]),
            (''stale_connection_cleanup_timeout'', JObject [(''type'', JString ''number''), (''minimum'', JInt 0)]),
            (''stale_connection_check_interval'', JObject [(''type'', JString ''number''), (''minimum'', JInt 0)]),
            (''advertisement_check_interval'', JObject [(''type'', JString ''number''), (''minimum'', JInt 0)]),
            (''recent_cached_advertisement_max_age'', JObject [(''type'', JString ''number''), (''minimum'', JInt 0)]),
            (''fresh_advertisement_timeout'', JObject [(''type'', JString ''number''), (''minimum'', JInt 0)]),
            (''transaction_timeout'', JObject [
              (''type'', JString ''number''),
              (''minimum'', JInt 0),
              (''maximum'', JInt 15)]),
            (''initialization_attempts'', JObject [
              (''type'', JString ''integer''),
              (''minimum'', JInt 1),
              (''maximum'', JInt 3)]),
            (''essential_initialization_max_batches'', JObject [
              (''type'', JString ''integer''),
              (''minimum'', JInt 1),
              (''maximum'', JInt 3)]),
            (''initialization_retry_delay'', JObject [(''type'', JString ''number''), (''minimum'', JInt 0)]),
            (''periodic_poll_attempts'', JObject [
              (''type'', JString ''integer''),
              (''minimum'', JInt 1),
              (''maximum'', JInt 3)]),
            (''refresh_attempts'', JObject [
              (''type'', JString ''integer''),
              (''minimum'', JInt 1),
              (''maximum'', JInt 3)]),
            (''command_send_attempts'', JObject [
              (''type'', JString ''integer''),
              (''minimum'', JInt 1),
              (''maximum'', JInt 3)]),
            (''command_deadline'', JObject [
              (''type'', JString ''number''),
              (''minimum'', JInt 0),
              (''maximum'', JInt 120)]),
            (''startup_timeout'', JObject [
              (''type'', JString ''number''),
              (''minimum'', JInt 0),
              (''maximum'', JInt 300)]),
            (''between_request_delay'', JObject [(''type'', JString ''number''), (''minimum'', JInt 0)]),
            (''poll_interval'', JObject [(''type'', JString ''number''), (''minimum'', JInt 0)]),
            (''initial_poll_delay'', JObject [(''type'', JString ''number''), (''minimum'', JInt 0)]),
            (''backoff_initial'', JObject [(''type'', JString ''number''), (''minimum'', JInt 0)]),
            (''backoff_max'', JObject [
              (''type'', JString ''number''),
              (''minimum'', JInt 0),
              (''maximum'', JInt 60)]),
            (''backoff_reset_after'', JObject [(''type'', JString ''number''), (''minimum'', JInt 0)]),
            (''recent_advertisement_backoff_max'', JObject [(''type'', JString ''number''), (''minimum'', JInt 0)]),
            (''advertisement_settle_delay'', JObject [(''type'', JString ''number''), (''minimum'', JInt 0)]),
            (''recovery_storm_window'', JObject [
              (''type'', JString ''number''),
              (''minimum'', JInt 0),
              (''maximum'', JInt 300)]),
            (''recovery_storm_failure_threshold'', JObject [(''type'', JString ''integer''), (''minimum'', JInt 1)]),
            (''recovery_storm_advertisement_threshold'', JObject [(''type'', JString ''integer''), (''minimum'', JInt 1)]),
            (''recovery_storm_initial_floor'', JObject [(''type'', JString ''number''), (''minimum'', JInt 0)]),
            (''recovery_storm_max_floor'', JObject [(''type'', JString ''number''), (''minimum'', JInt 0)])]),
          (''additionalProperties'', JBool False)]),
        (''customAuto'', JObject [
          (''type'', JString ''object''),
          (''properties'', JObject [
            (''modes'', JObject [
              (''type'', JString ''array''),
              (''prefixItems'', JArray [
                JObject [(''const'', JString ''sleep'')],
                JObject [(''const'', JString ''low'')],
                JObject [(''const'', JString ''medium'')],
                JObject [(''const'', JString ''high'')],
                JObject [(''const'', JString ''turbo'')]]),
              (''items'', JBool False),
              (''minItems'', JInt 5),
              (''maxItems'', JInt 5)]),
            (''pm25_boundaries'', JObject [
              (''type'', JString ''array''),
              (''items'', JObject [
                (''type'', JString ''integer''),
                (''minimum'', JInt 0),
                (''maximum'', JInt 999)]),
              (''minItems'', JInt 4),
              (''maxItems'', JInt 4)]),
            (''upshift_confirmation_seconds'', JObject [
              (''type'', JString ''integer''),
              (''minimum'', JInt 0),
              (''maximum'', JInt 300)]),
            (''downshift_delays_minutes'', JObject [
              (''type'', JString ''array''),
              (''items'', JObject [
                (''type'', JString ''integer''),
                (''minimum'', JInt 0),
                (''maximum'', JInt 1440)]),
              (''minItems'', JInt 4),
              (''maxItems'', JInt 4)])]),
          (''additionalProperties'', JBool False)]),
        (''sections'', JObject [
          (''type'', JString ''object''),
          (''properties'', JObject [
            (''schema_version'', JObject [(''const'', JInt 1)]),
            (''profile_id'', JObject [
              (''type'', JString ''string''),
              (''pattern'', JString ''^[a-z0-9]+(?:-[a-z0-9]+)*$'')]),
            (''identity'', JObject [(''$ref'', JString ''#/$defs/identity'')]),
            (''bluetooth'', JObject [(''$ref'', JString ''#/$defs/bluetooth'')]),
            (''channel'', JObject [(''$ref'', JString ''#/$defs/channel'')]),
            (''protocol'', JObject [(''$ref'', JString ''#/$defs/protocol'')]),
            (''capabilities'', JObject [(''$ref'', JString ''#/$defs/capabilities'')]),
            (''timings'', JObject [(''$ref'', JString ''#/$defs/timings'')]),
            (''custom_auto_defaults'', JObject [(''$ref'', JString ''#/$defs/customAuto'')])]),
          (''additionalProperties'', JBool False)])]),
      (''oneOf'', JArray [
        JObject [
          (''allOf'', JArray [JObject [(''$ref'', JString ''#/$defs/sections'')]]),
          (''required'', JArray [
            JString ''schema_version'',
            JString ''profile_id'',
            JString ''identity'',
            JString ''bluetooth'',
            JString ''channel'',
            JString ''protocol'',
            JString ''capabilities'',
            JString ''timings'',
            JString ''custom_auto_defaults''])],
        JObject [
          (''type'', JString ''object''),
          (''properties'', JObject [
            (''schema_version'', JObject [(''const'', JInt 1)]),
            (''profile_id'', JObject [
              (''enum'', JArray [
                JString ''h7123'',
                JString ''h712c'',
                JString ''h7124'',
                JString ''h7129''])]),
            (''extends'', JObject [
              (''enum'', JArray [JString ''default'', JString ''default-encrypted''])]),
            (''identity'', JObject [(''$ref'', JString ''#/$defs/identity'')]),
            (''bluetooth'', JObject [(''$ref'', JString ''#/$defs/bluetooth'')]),
            (''channel'', JObject [(''$ref'', JString ''#/$defs/channel'')]),
            (''protocol'', JObject [(''$ref'', JString ''#/$defs/protocol'')]),
            (''capabilities'', JObject [(''$ref'', JString ''#/$defs/capabilities'')]),
            (''timings'', JObject [(''$ref'', JString ''#/$defs/timings'')]),
            (''custom_auto_defaults'', JObject [(''$ref'', JString ''#/$defs/customAuto'')])]),
          (''required'', JArray [
            JString ''schema_version'',
            JString ''profile_id'',
            JString ''extends'']),
          (''additionalProperties'', JBool False)]])]"

definition default_catalog :: "json list" where
  "default_catalog =
     [
      JObject [
          (''name'', JString ''capability_b2''),
          (''frame'', JString ''33 b2 00 00 00 00 00 00 00 00 00 00 00 00 00 00 00 00 00 81''),
          (''response'', JObject [
            (''kind'', JString ''value_byte''),
            (''prefix'', JString ''33 b2''),
            (''allowed_values'', JArray [JInt 0, JInt 1])])],
      JObject [
          (''name'', JString ''capability_b5''),
          (''frame'', JString ''33 b5 00 00 00 00 00 00 00 00 00 00 00 00 00 00 00 00 00 86''),
          (''response'', JObject [(''kind'', JString ''zero_payload''), (''prefix'', JString ''33 b5'')])],
      JObject [
          (''name'', JString ''device_state''),
          (''frame'', JString ''aa 01 00 00 00 00 00 00 00 00 00 00 00 00 00 00 00 00 00 ab''),
          (''response'', JObject [(''kind'', JString ''prefix''), (''prefix'', JString ''aa 01'')])],
      JObject [
          (''name'', JString ''mode_data_00''),
          (''frame'', JString ''aa 05 00 00 00 00 00 00 00 00 00 00 00 00 00 00 00 00 00 af''),
          (''response'', JObject [
            (''kind'', JString ''prefix_selector''),
            (''prefix'', JString ''aa 05''),
            (''selector'', JString ''00'')])],
      JObject [
          (''name'', JString ''mode_data_01''),
          (''frame'', JString ''aa 05 01 00 00 00 00 00 00 00 00 00 00 00 00 00 00 00 00 ae''),
          (''response'', JObject [
            (''kind'', JString ''prefix_selector''),
            (''prefix'', JString ''aa 05''),
            (''selector'', JString ''01'')])],
      JObject [
          (''name'', JString ''mode_data_03''),
          (''frame'', JString ''aa 05 03 00 00 00 00 00 00 00 00 00 00 00 00 00 00 00 00 ac''),
          (''response'', JObject [
            (''kind'', JString ''prefix_selector''),
            (''prefix'', JString ''aa 05''),
            (''selector'', JString ''03'')])],
      JObject [
          (''name'', JString ''night_light_state''),
          (''frame'', JString ''aa 1b 01 00 00 00 00 00 00 00 00 00 00 00 00 00 00 00 00 b0''),
          (''response'', JObject [
            (''kind'', JString ''prefix_selector''),
            (''prefix'', JString ''aa 1b''),
            (''selector'', JString ''01'')])],
      JObject [
          (''name'', JString ''night_light_color''),
          (''frame'', JString ''aa 1b 05 00 00 00 00 00 00 00 00 00 00 00 00 00 00 00 00 b4''),
          (''response'', JObject [
            (''kind'', JString ''prefix_selector''),
            (''prefix'', JString ''aa 1b''),
            (''selector'', JString ''05'')])],
      JObject [
          (''name'', JString ''capability_1e_01_02''),
          (''frame'', JString ''aa 1e 01 02 00 00 00 00 00 00 00 00 00 00 00 00 00 00 00 b7''),
          (''response'', JObject [
            (''kind'', JString ''exact''),
            (''exact'', JString ''aa 1e 01 02 00 00 00 00 00 00 00 00 00 00 00 00 00 00 00 b7'')])],
      JObject [
          (''name'', JString ''capability_10''),
          (''frame'', JString ''aa 10 00 00 00 00 00 00 00 00 00 00 00 00 00 00 00 00 00 ba''),
          (''response'', JObject [
            (''kind'', JString ''exact''),
            (''exact'', JString ''aa 10 00 00 00 00 00 00 00 00 00 00 00 00 00 00 00 00 00 ba'')])],
      JObject [
          (''name'', JString ''capability_08''),
          (''frame'', JString ''aa 08 00 00 00 00 00 00 00 00 00 00 00 00 00 00 00 00 00 a2''),
          (''response'', JObject [
            (''kind'', JString ''exact''),
            (''exact'', JString ''aa 08 00 00 00 00 00 00 00 00 00 00 00 00 00 00 00 00 00 a2'')])],
      JObject [
          (''name'', JString ''capability_26''),
          (''frame'', JString ''aa 26 00 00 00 00 00 00 00 00 00 00 00 00 00 00 00 00 00 8c''),
          (''response'', JObject [
            (''kind'', JString ''exact''),
            (''exact'', JString ''aa 26 00 00 00 00 00 00 00 00 00 00 00 00 00 00 00 00 00 8c'')])],
      JObject [
          (''name'', JString ''structured_16''),
          (''frame'', JString ''aa 16 00 00 00 00 00 00 00 00 00 00 00 00 00 00 00 00 00 bc''),
          (''response'', JObject [(''kind'', JString ''prefix''), (''prefix'', JString ''aa 16'')])],
      JObject [
          (''name'', JString ''capability_17''),
          (''frame'', JString ''aa 17 00 00 00 00 00 00 00 00 00 00 00 00 00 00 00 00 00 bd''),
          (''response'', JObject [
            (''kind'', JString ''exact''),
            (''exact'', JString ''aa 17 00 00 00 00 00 00 00 00 00 00 00 00 00 00 00 00 00 bd'')])],
      JObject [
          (''name'', JString ''air_quality''),
          (''frame'', JString ''aa 19 00 00 00 00 00 00 00 00 00 00 00 00 00 00 00 00 00 b3''),
          (''response'', JObject [(''kind'', JString ''prefix''), (''prefix'', JString ''aa 19'')])],
      JObject [
          (''name'', JString ''device_data_10''),
          (''frame'', JString ''aa 07 10 00 00 00 00 00 00 00 00 00 00 00 00 00 00 00 00 bd''),
          (''response'', JObject [
            (''kind'', JString ''prefix_selector''),
            (''prefix'', JString ''aa 07''),
            (''selector'', JString ''10'')])],
      JObject [
          (''name'', JString ''device_data_11''),
          (''frame'', JString ''aa 07 11 00 00 00 00 00 00 00 00 00 00 00 00 00 00 00 00 bc''),
          (''response'', JObject [
            (''kind'', JString ''prefix_selector''),
            (''prefix'', JString ''aa 07''),
            (''selector'', JString ''11'')])],
      JObject [
          (''name'', JString ''device_data_06''),
          (''frame'', JString ''aa 07 06 00 00 00 00 00 00 00 00 00 00 00 00 00 00 00 00 ab''),
          (''response'', JObject [
            (''kind'', JString ''prefix_selector''),
            (''prefix'', JString ''aa 07''),
            (''selector'', JString ''06'')])],
      JObject [
          (''name'', JString ''capability_07_20''),
          (''frame'', JString ''aa 07 20 00 00 00 00 00 00 00 00 00 00 00 00 00 00 00 00 8d''),
          (''response'', JObject [
            (''kind'', JString ''exact''),
            (''exact'', JString ''aa 07 20 00 00 00 00 00 00 00 00 00 00 00 00 00 00 00 00 8d'')])],
      JObject [
          (''name'', JString ''capability_1f''),
          (''frame'', JString ''aa 1f 00 00 00 00 00 00 00 00 00 00 00 00 00 00 00 00 00 b5''),
          (''response'', JObject [
            (''kind'', JString ''exact''),
            (''exact'', JString ''aa 1f 00 00 00 00 00 00 00 00 00 00 00 00 00 00 00 00 00 b5'')])],
      JObject [
          (''name'', JString ''metadata_01_02''),
          (''frame'', JString ''ab 01 02 00 00 00 00 00 00 00 00 00 00 00 00 00 00 00 00 a8''),
          (''response'', JObject [(''kind'', JString ''fragments''), (''fragments'', JArray [JInt 0])])],
      JObject [
          (''name'', JString ''metadata_01_05''),
          (''frame'', JString ''ab 01 05 00 00 00 00 00 00 00 00 00 00 00 00 00 00 00 00 af''),
          (''response'', JObject [
            (''kind'', JString ''fragments''),
            (''fragments'', JArray [JInt 0, JInt 255])])],
      JObject [
          (''name'', JString ''metadata_01_04''),
          (''frame'', JString ''ab 01 04 00 00 00 00 00 00 00 00 00 00 00 00 00 00 00 00 ae''),
          (''response'', JObject [
            (''kind'', JString ''fragments''),
            (''fragments'', JArray [
              JInt 0,
              JInt 1,
              JInt 2,
              JInt 3,
              JInt 4,
              JInt 5,
              JInt 6,
              JInt 7,
              JInt 255])])]]"

definition default_document :: jobject where
  "default_document =
     [
      (''schema_version'', JInt 1),
      (''profile_id'', JString ''default''),
      (''identity'', JObject [
        (''manufacturer'', JString ''Govee''),
        (''model'', JNull),
        (''display_name'', JString ''Plaintext purifier baseline''),
        (''support_status'', JString ''baseline''),
        (''advertised_name_prefixes'', JArray [])]),
      (''bluetooth'', JObject [
        (''service_uuid'', JString ''00010203-0405-0607-0809-0a0b0c0d1910''),
        (''notify_uuid'', JString ''00010203-0405-0607-0809-0a0b0c0d2b10''),
        (''write_uuid'', JString ''00010203-0405-0607-0809-0a0b0c0d2b11'')]),
      (''channel'', JObject [
        (''strategy'', JString ''plaintext''),
        (''first_application_delay'', JFloat (3 / 1000)),
        (''negotiation'', JNull)]),
      (''protocol'', JObject [
        (''codec'', JString ''govee_20_byte_v1''),
        (''checksum'', JString ''xor_0_18''),
        (''frame_size'', JInt 20),
        (''auto_parameter'', JInt 20),
        (''startup_mode_strategy'', JString ''h7124_selector_00''),
        (''commands'', JObject [
          (''power'', JObject [
            (''strategy'', JString ''power_bool_v1''),
            (''prefix'', JString ''33 01'')]),
          (''fan_mode'', JObject [
            (''strategy'', JString ''fan_mode_v1''),
            (''prefix'', JString ''3a 05'')]),
          (''night_light_power'', JObject [
            (''strategy'', JString ''night_light_power_v1''),
            (''prefix'', JString ''3a 1b 01 01'')]),
          (''night_light_brightness'', JObject [
            (''strategy'', JString ''night_light_brightness_v1''),
            (''prefix'', JString ''3a 1b 01 02'')]),
          (''night_light_color'', JObject [
            (''strategy'', JString ''night_light_color_v1''),
            (''prefix'', JString ''3a 1b 05 0d'')])]),
        (''request_catalog'', JArray default_catalog),
        (''initialization_order'', JArray [
          JString ''capability_b2'',
          JString ''capability_b5'',
          JString ''device_state'',
          JString ''mode_data_00'',
          JString ''mode_data_01'',
          JString ''mode_data_03'',
          JString ''night_light_state'',
          JString ''night_light_color'',
          JString ''capability_1e_01_02'',
          JString ''capability_10'',
          JString ''capability_08'',
          JString ''capability_26'',
          JString ''structured_16'',
          JString ''capability_17'',
          JString ''air_quality'',
          JString ''device_data_10'',
          JString ''device_data_11'',
          JString ''device_data_06'',
          JString ''capability_07_20'',
          JString ''capability_1f'',
          JString ''metadata_01_02'',
          JString ''metadata_01_05'',
          JString ''metadata_01_04'']),
        (''refresh_order'', JArray [
          JString ''capability_b5'',
          JString ''device_state'',
          JString ''mode_data_00'',
          JString ''mode_data_01'',
          JString ''mode_data_03'',
          JString ''night_light_state'',
          JString ''night_light_color'',
          JString ''capability_1e_01_02'',
          JString ''capability_10'',
          JString ''capability_08'',
          JString ''capability_26'',
          JString ''structured_16'',
          JString ''capability_17'',
          JString ''air_quality'']),
        (''essential_request'', JString ''device_state''),
        (''periodic_request'', JString ''device_state'')]),
      (''capabilities'', JObject [
        (''power'', JBool True),
        (''fan'', JBool True),
        (''light'', JBool True),
        (''pm25'', JBool True),
        (''filter_life'', JBool True),
        (''unsolicited_updates'', JBool True),
        (''refresh'', JBool False)]),
      (''timings'', JObject [
        (''connect_attempts'', JInt 3),
        (''connection_attempt_timeout'', JFloat 45),
        (''connection_abort_timeout'', JFloat 5),
        (''connection_diagnostic_timeout'', JFloat 1),
        (''notification_subscribe_timeout'', JFloat 15),
        (''gatt_write_timeout'', JFloat 10),
        (''gatt_disconnect_timeout'', JFloat 5),
        (''gatt_operation_cancel_timeout'', JFloat 1),
        (''stale_connection_cleanup_timeout'', JFloat 5),
        (''stale_connection_check_interval'', JFloat (1 / 4)),
        (''advertisement_check_interval'', JFloat (1 / 4)),
        (''recent_cached_advertisement_max_age'', JFloat 5),
        (''fresh_advertisement_timeout'', JFloat 10),
        (''transaction_timeout'', JFloat 3),
        (''initialization_attempts'', JInt 3),
        (''essential_initialization_max_batches'', JInt 3),
        (''initialization_retry_delay'', JFloat 3),
        (''periodic_poll_attempts'', JInt 3),
        (''refresh_attempts'', JInt 3),
        (''command_send_attempts'', JInt 3),
        (''command_deadline'', JFloat 120),
        (''startup_timeout'', JFloat 300),
        (''between_request_delay'', JFloat (1 / 1000)),
        (''poll_interval'', JFloat 3),
        (''initial_poll_delay'', JFloat (242 / 125)),
        (''backoff_initial'', JFloat 1),
        (''backoff_max'', JFloat 60),
        (''backoff_reset_after'', JFloat 30),
        (''recent_advertisement_backoff_max'', JFloat 8),
        (''advertisement_settle_delay'', JFloat 1),
        (''recovery_storm_window'', JFloat 120),
        (''recovery_storm_failure_threshold'', JInt 3),
        (''recovery_storm_advertisement_threshold'', JInt 2),
        (''recovery_storm_initial_floor'', JFloat 5),
        (''recovery_storm_max_floor'', JFloat 8)]),
      (''custom_auto_defaults'', JObject [
        (''modes'', JArray [
          JString ''sleep'',
          JString ''low'',
          JString ''medium'',
          JString ''high'',
          JString ''turbo'']),
        (''pm25_boundaries'', JArray [JInt 3, JInt 5, JInt 9, JInt 15]),
        (''upshift_confirmation_seconds'', JInt 3),
        (''downshift_delays_minutes'', JArray [JInt 7, JInt 5, JInt 5, JInt 5])])]"

definition default_encrypted_catalog :: "json list" where
  "default_encrypted_catalog =
     [
      JObject [
          (''name'', JString ''capability_b2''),
          (''frame'', JString ''33 b2 00 00 00 00 00 00 00 00 00 00 00 00 00 00 00 00 00 81''),
          (''response'', JObject [
            (''kind'', JString ''value_byte''),
            (''prefix'', JString ''33 b2''),
            (''allowed_values'', JArray [JInt 0, JInt 1])])],
      JObject [
          (''name'', JString ''capability_b5''),
          (''frame'', JString ''33 b5 00 00 00 00 00 00 00 00 00 00 00 00 00 00 00 00 00 86''),
          (''response'', JObject [(''kind'', JString ''zero_payload''), (''prefix'', JString ''33 b5'')])],
      JObject [
          (''name'', JString ''device_state''),
          (''frame'', JString ''aa 01 00 00 00 00 00 00 00 00 00 00 00 00 00 00 00 00 00 ab''),
          (''response'', JObject [(''kind'', JString ''prefix''), (''prefix'', JString ''aa 01'')])],
      JObject [
          (''name'', JString ''mode_data_00''),
          (''frame'', JString ''aa 05 00 00 00 00 00 00 00 00 00 00 00 00 00 00 00 00 00 af''),
          (''response'', JObject [
            (''kind'', JString ''prefix_selector''),
            (''prefix'', JString ''aa 05''),
            (''selector'', JString ''00'')])],
      JObject [
          (''name'', JString ''mode_data_01''),
          (''frame'', JString ''aa 05 01 00 00 00 00 00 00 00 00 00 00 00 00 00 00 00 00 ae''),
          (''response'', JObject [
            (''kind'', JString ''prefix_selector''),
            (''prefix'', JString ''aa 05''),
            (''selector'', JString ''01'')])],
      JObject [
          (''name'', JString ''mode_data_03''),
          (''frame'', JString ''aa 05 03 00 00 00 00 00 00 00 00 00 00 00 00 00 00 00 00 ac''),
          (''response'', JObject [
            (''kind'', JString ''prefix_selector''),
            (''prefix'', JString ''aa 05''),
            (''selector'', JString ''03'')])],
      JObject [
          (''name'', JString ''night_light_state''),
          (''frame'', JString ''aa 1b 01 00 00 00 00 00 00 00 00 00 00 00 00 00 00 00 00 b0''),
          (''response'', JObject [
            (''kind'', JString ''prefix_selector''),
            (''prefix'', JString ''aa 1b''),
            (''selector'', JString ''01'')])],
      JObject [
          (''name'', JString ''night_light_color''),
          (''frame'', JString ''aa 1b 05 00 00 00 00 00 00 00 00 00 00 00 00 00 00 00 00 b4''),
          (''response'', JObject [
            (''kind'', JString ''prefix_selector''),
            (''prefix'', JString ''aa 1b''),
            (''selector'', JString ''05'')])],
      JObject [
          (''name'', JString ''capability_1e_01_02''),
          (''frame'', JString ''aa 1e 01 02 00 00 00 00 00 00 00 00 00 00 00 00 00 00 00 b7''),
          (''response'', JObject [
            (''kind'', JString ''exact''),
            (''exact'', JString ''aa 1e 03 01 00 00 00 00 00 00 00 00 00 00 00 00 00 00 00 b6'')])],
      JObject [
          (''name'', JString ''capability_10''),
          (''frame'', JString ''aa 10 00 00 00 00 00 00 00 00 00 00 00 00 00 00 00 00 00 ba''),
          (''response'', JObject [
            (''kind'', JString ''exact''),
            (''exact'', JString ''aa 10 00 ff ff ff 00 00 00 00 00 00 00 00 00 00 00 00 00 45'')])],
      JObject [
          (''name'', JString ''capability_08''),
          (''frame'', JString ''aa 08 00 00 00 00 00 00 00 00 00 00 00 00 00 00 00 00 00 a2''),
          (''response'', JObject [
            (''kind'', JString ''exact''),
            (''exact'', JString ''aa 08 00 00 00 00 00 00 00 00 00 00 00 00 00 00 00 00 00 a2'')])],
      JObject [
          (''name'', JString ''capability_26''),
          (''frame'', JString ''aa 26 00 00 00 00 00 00 00 00 00 00 00 00 00 00 00 00 00 8c''),
          (''response'', JObject [
            (''kind'', JString ''exact''),
            (''exact'', JString ''aa 26 00 00 00 00 00 00 00 00 00 00 00 00 00 00 00 00 00 8c'')])],
      JObject [
          (''name'', JString ''structured_16''),
          (''frame'', JString ''aa 16 00 00 00 00 00 00 00 00 00 00 00 00 00 00 00 00 00 bc''),
          (''response'', JObject [(''kind'', JString ''prefix''), (''prefix'', JString ''aa 16'')])],
      JObject [
          (''name'', JString ''capability_17''),
          (''frame'', JString ''aa 17 00 00 00 00 00 00 00 00 00 00 00 00 00 00 00 00 00 bd''),
          (''response'', JObject [
            (''kind'', JString ''exact''),
            (''exact'', JString ''aa 17 00 00 00 00 00 00 00 00 00 00 00 00 00 00 00 00 00 bd'')])],
      JObject [
          (''name'', JString ''air_quality''),
          (''frame'', JString ''aa 19 00 00 00 00 00 00 00 00 00 00 00 00 00 00 00 00 00 b3''),
          (''response'', JObject [(''kind'', JString ''prefix''), (''prefix'', JString ''aa 19'')])],
      JObject [
          (''name'', JString ''device_data_10''),
          (''frame'', JString ''aa 07 10 00 00 00 00 00 00 00 00 00 00 00 00 00 00 00 00 bd''),
          (''response'', JObject [
            (''kind'', JString ''prefix_selector''),
            (''prefix'', JString ''aa 07''),
            (''selector'', JString ''10'')])],
      JObject [
          (''name'', JString ''device_data_11''),
          (''frame'', JString ''aa 07 11 00 00 00 00 00 00 00 00 00 00 00 00 00 00 00 00 bc''),
          (''response'', JObject [
            (''kind'', JString ''prefix_selector''),
            (''prefix'', JString ''aa 07''),
            (''selector'', JString ''11'')])],
      JObject [
          (''name'', JString ''device_data_06''),
          (''frame'', JString ''aa 07 06 00 00 00 00 00 00 00 00 00 00 00 00 00 00 00 00 ab''),
          (''response'', JObject [
            (''kind'', JString ''prefix_selector''),
            (''prefix'', JString ''aa 07''),
            (''selector'', JString ''06'')])],
      JObject [
          (''name'', JString ''capability_07_20''),
          (''frame'', JString ''aa 07 20 00 00 00 00 00 00 00 00 00 00 00 00 00 00 00 00 8d''),
          (''response'', JObject [
            (''kind'', JString ''exact''),
            (''exact'', JString ''aa 07 20 00 00 00 00 00 00 00 00 00 00 00 00 00 00 00 00 8d'')])],
      JObject [
          (''name'', JString ''capability_1f''),
          (''frame'', JString ''aa 1f 00 00 00 00 00 00 00 00 00 00 00 00 00 00 00 00 00 b5''),
          (''response'', JObject [
            (''kind'', JString ''exact''),
            (''exact'', JString ''aa 1f 00 00 00 00 00 00 00 00 00 00 00 00 00 00 00 00 00 b5'')])],
      JObject [
          (''name'', JString ''metadata_01_02''),
          (''frame'', JString ''ab 01 02 00 00 00 00 00 00 00 00 00 00 00 00 00 00 00 00 a8''),
          (''response'', JObject [(''kind'', JString ''fragments''), (''fragments'', JArray [JInt 0])])],
      JObject [
          (''name'', JString ''metadata_01_05''),
          (''frame'', JString ''ab 01 05 00 00 00 00 00 00 00 00 00 00 00 00 00 00 00 00 af''),
          (''response'', JObject [
            (''kind'', JString ''fragments''),
            (''fragments'', JArray [JInt 0, JInt 255])])],
      JObject [
          (''name'', JString ''metadata_01_04''),
          (''frame'', JString ''ab 01 04 00 00 00 00 00 00 00 00 00 00 00 00 00 00 00 00 ae''),
          (''response'', JObject [
            (''kind'', JString ''fragments''),
            (''fragments'', JArray [
              JInt 0,
              JInt 1,
              JInt 2,
              JInt 3,
              JInt 4,
              JInt 5,
              JInt 6,
              JInt 7,
              JInt 255])])],
      JObject [
          (''name'', JString ''metadata_02_02_00_01''),
          (''frame'', JString ''ab 02 02 00 01 00 00 00 00 00 00 00 00 00 00 00 00 00 00 aa''),
          (''response'', JObject [(''kind'', JString ''h7129_metadata'')])]]"

definition default_encrypted_document :: jobject where
  "default_encrypted_document =
     [
      (''schema_version'', JInt 1),
      (''profile_id'', JString ''default-encrypted''),
      (''identity'', JObject [
        (''manufacturer'', JString ''Govee''),
        (''model'', JNull),
        (''display_name'', JString ''Encrypted purifier baseline''),
        (''support_status'', JString ''baseline''),
        (''advertised_name_prefixes'', JArray [])]),
      (''bluetooth'', JObject [
        (''service_uuid'', JString ''00010203-0405-0607-0809-0a0b0c0d1910''),
        (''notify_uuid'', JString ''00010203-0405-0607-0809-0a0b0c0d2b10''),
        (''write_uuid'', JString ''00010203-0405-0607-0809-0a0b0c0d2b11'')]),
      (''channel'', JObject [
        (''strategy'', JString ''h7129_session''),
        (''first_application_delay'', JFloat (3 / 1000)),
        (''negotiation'', JObject [
          (''attempts'', JInt 3),
          (''retry_interval'', JFloat 5),
          (''phase_timeout'', JFloat 15),
          (''step_delay'', JFloat (1 / 1000))])]),
      (''protocol'', JObject [
        (''codec'', JString ''govee_20_byte_v1''),
        (''checksum'', JString ''xor_0_18''),
        (''frame_size'', JInt 20),
        (''auto_parameter'', JInt 18),
        (''startup_mode_strategy'', JString ''h7129_selector_pair''),
        (''commands'', JObject [
          (''power'', JObject [
            (''strategy'', JString ''power_bool_v1''),
            (''prefix'', JString ''33 01'')]),
          (''fan_mode'', JObject [
            (''strategy'', JString ''fan_mode_v1''),
            (''prefix'', JString ''3a 05'')]),
          (''night_light_power'', JObject [
            (''strategy'', JString ''night_light_power_v1''),
            (''prefix'', JString ''3a 1b 01 01'')]),
          (''night_light_brightness'', JObject [
            (''strategy'', JString ''night_light_brightness_v1''),
            (''prefix'', JString ''3a 1b 01 02'')]),
          (''night_light_color'', JObject [
            (''strategy'', JString ''night_light_color_v1''),
            (''prefix'', JString ''3a 1b 05 0d'')])]),
        (''request_catalog'', JArray default_encrypted_catalog),
        (''initialization_order'', JArray [
          JString ''capability_b2'',
          JString ''capability_b5'',
          JString ''device_state'',
          JString ''mode_data_00'',
          JString ''mode_data_01'',
          JString ''mode_data_03'',
          JString ''night_light_state'',
          JString ''night_light_color'',
          JString ''capability_1e_01_02'',
          JString ''capability_10'',
          JString ''capability_08'',
          JString ''capability_26'',
          JString ''structured_16'',
          JString ''capability_17'',
          JString ''air_quality'',
          JString ''device_data_10'',
          JString ''device_data_11'',
          JString ''device_data_06'',
          JString ''capability_07_20'',
          JString ''capability_1f'',
          JString ''metadata_01_02'',
          JString ''metadata_01_05'',
          JString ''metadata_01_04'',
          JString ''metadata_02_02_00_01'']),
        (''refresh_order'', JArray [
          JString ''capability_b5'',
          JString ''device_state'',
          JString ''mode_data_00'',
          JString ''mode_data_01'',
          JString ''mode_data_03'',
          JString ''night_light_state'',
          JString ''night_light_color'',
          JString ''capability_1e_01_02'',
          JString ''capability_10'',
          JString ''capability_08'',
          JString ''capability_26'',
          JString ''structured_16'',
          JString ''capability_17'',
          JString ''air_quality'']),
        (''essential_request'', JString ''device_state''),
        (''periodic_request'', JString ''device_state'')]),
      (''capabilities'', JObject [
        (''power'', JBool True),
        (''fan'', JBool True),
        (''light'', JBool True),
        (''pm25'', JBool True),
        (''filter_life'', JBool True),
        (''unsolicited_updates'', JBool True),
        (''refresh'', JBool True)]),
      (''timings'', JObject [
        (''connect_attempts'', JInt 3),
        (''connection_attempt_timeout'', JFloat 45),
        (''connection_abort_timeout'', JFloat 5),
        (''connection_diagnostic_timeout'', JFloat 1),
        (''notification_subscribe_timeout'', JFloat 15),
        (''gatt_write_timeout'', JFloat 10),
        (''gatt_disconnect_timeout'', JFloat 5),
        (''gatt_operation_cancel_timeout'', JFloat 1),
        (''stale_connection_cleanup_timeout'', JFloat 5),
        (''stale_connection_check_interval'', JFloat (1 / 4)),
        (''advertisement_check_interval'', JFloat (1 / 4)),
        (''recent_cached_advertisement_max_age'', JFloat 5),
        (''fresh_advertisement_timeout'', JFloat 10),
        (''transaction_timeout'', JFloat 3),
        (''initialization_attempts'', JInt 3),
        (''essential_initialization_max_batches'', JInt 3),
        (''initialization_retry_delay'', JFloat 3),
        (''periodic_poll_attempts'', JInt 3),
        (''refresh_attempts'', JInt 3),
        (''command_send_attempts'', JInt 3),
        (''command_deadline'', JFloat 120),
        (''startup_timeout'', JFloat 300),
        (''between_request_delay'', JFloat (1 / 1000)),
        (''poll_interval'', JFloat 3),
        (''initial_poll_delay'', JFloat 3),
        (''backoff_initial'', JFloat 1),
        (''backoff_max'', JFloat 60),
        (''backoff_reset_after'', JFloat 30),
        (''recent_advertisement_backoff_max'', JFloat 8),
        (''advertisement_settle_delay'', JFloat 1),
        (''recovery_storm_window'', JFloat 120),
        (''recovery_storm_failure_threshold'', JInt 3),
        (''recovery_storm_advertisement_threshold'', JInt 2),
        (''recovery_storm_initial_floor'', JFloat 5),
        (''recovery_storm_max_floor'', JFloat 8)]),
      (''custom_auto_defaults'', JObject [
        (''modes'', JArray [
          JString ''sleep'',
          JString ''low'',
          JString ''medium'',
          JString ''high'',
          JString ''turbo'']),
        (''pm25_boundaries'', JArray [JInt 7, JInt 9, JInt 13, JInt 19]),
        (''upshift_confirmation_seconds'', JInt 3),
        (''downshift_delays_minutes'', JArray [JInt 7, JInt 5, JInt 5, JInt 5])])]"

definition h7123_document :: jobject where
  "h7123_document =
     [
      (''schema_version'', JInt 1),
      (''profile_id'', JString ''h7123''),
      (''extends'', JString ''default-encrypted''),
      (''identity'', JObject [
        (''manufacturer'', JString ''Govee''),
        (''model'', JString ''H7123''),
        (''display_name'', JString ''Govee H7123''),
        (''support_status'', JString ''experimental''),
        (''advertised_name_prefixes'', JArray [JString ''ihoment_H7123_''])]),
      (''protocol'', JObject [
        (''auto_parameter'', JInt 20),
        (''request_catalog'', JArray [
          JObject [
            (''name'', JString ''capability_b2''),
            (''frame'', JString ''33 b2 00 00 00 00 00 00 00 00 00 00 00 00 00 00 00 00 00 81''),
            (''response'', JObject [
              (''kind'', JString ''value_byte''),
              (''prefix'', JString ''33 b2''),
              (''allowed_values'', JArray [JInt 0, JInt 1])])],
          JObject [
            (''name'', JString ''capability_b5''),
            (''frame'', JString ''33 b5 00 00 00 00 00 00 00 00 00 00 00 00 00 00 00 00 00 86''),
            (''response'', JObject [(''kind'', JString ''zero_payload''), (''prefix'', JString ''33 b5'')])],
          JObject [
            (''name'', JString ''device_state''),
            (''frame'', JString ''aa 01 00 00 00 00 00 00 00 00 00 00 00 00 00 00 00 00 00 ab''),
            (''response'', JObject [(''kind'', JString ''prefix''), (''prefix'', JString ''aa 01'')])],
          JObject [
            (''name'', JString ''mode_data_00''),
            (''frame'', JString ''aa 05 00 00 00 00 00 00 00 00 00 00 00 00 00 00 00 00 00 af''),
            (''response'', JObject [(''kind'', JString ''prefix''), (''prefix'', JString ''aa 05'')])],
          JObject [
            (''name'', JString ''mode_data_01''),
            (''frame'', JString ''aa 05 01 00 00 00 00 00 00 00 00 00 00 00 00 00 00 00 00 ae''),
            (''response'', JObject [(''kind'', JString ''prefix''), (''prefix'', JString ''aa 05'')])]]),
        (''initialization_order'', JArray [
          JString ''capability_b2'',
          JString ''capability_b5'',
          JString ''device_state'',
          JString ''mode_data_00'',
          JString ''mode_data_01'']),
        (''refresh_order'', JArray [
          JString ''device_state'',
          JString ''mode_data_00'',
          JString ''mode_data_01'']),
        (''startup_mode_strategy'', JString ''h7123_direct'')]),
      (''capabilities'', JObject [
        (''light'', JBool False),
        (''pm25'', JBool False),
        (''filter_life'', JBool False)])]"

definition h712c_document :: jobject where
  "h712c_document =
     [
      (''schema_version'', JInt 1),
      (''profile_id'', JString ''h712c''),
      (''extends'', JString ''default''),
      (''identity'', JObject [
        (''manufacturer'', JString ''Govee''),
        (''model'', JString ''H712C''),
        (''display_name'', JString ''Govee H712C''),
        (''support_status'', JString ''experimental''),
        (''advertised_name_prefixes'', JArray [JString ''GVH712C''])]),
      (''protocol'', JObject [
        (''auto_parameter'', JInt 0),
        (''request_catalog'', JArray [
          JObject [
            (''name'', JString ''device_state''),
            (''frame'', JString ''aa 01 00 00 00 00 00 00 00 00 00 00 00 00 00 00 00 00 00 ab''),
            (''response'', JObject [(''kind'', JString ''prefix''), (''prefix'', JString ''aa 01'')])],
          JObject [
            (''name'', JString ''mode_data_00''),
            (''frame'', JString ''aa 05 00 00 00 00 00 00 00 00 00 00 00 00 00 00 00 00 00 af''),
            (''response'', JObject [
              (''kind'', JString ''prefix_selector''),
              (''prefix'', JString ''aa 05''),
              (''selector'', JString ''00'')])],
          JObject [
            (''name'', JString ''mode_data_01''),
            (''frame'', JString ''aa 05 01 00 00 00 00 00 00 00 00 00 00 00 00 00 00 00 00 ae''),
            (''response'', JObject [
              (''kind'', JString ''prefix_selector''),
              (''prefix'', JString ''aa 05''),
              (''selector'', JString ''01'')])]]),
        (''initialization_order'', JArray [
          JString ''device_state'',
          JString ''mode_data_00'',
          JString ''mode_data_01'']),
        (''refresh_order'', JArray [
          JString ''device_state'',
          JString ''mode_data_00'',
          JString ''mode_data_01'']),
        (''commands'', JObject [
          (''fan_mode'', JObject [
            (''strategy'', JString ''fan_mode_33_v1''),
            (''prefix'', JString ''33 05'')])])]),
      (''capabilities'', JObject [
        (''light'', JBool False),
        (''pm25'', JBool False),
        (''filter_life'', JBool False)])]"

definition h7124_document :: jobject where
  "h7124_document =
     [
      (''schema_version'', JInt 1),
      (''profile_id'', JString ''h7124''),
      (''extends'', JString ''default''),
      (''identity'', JObject [
        (''manufacturer'', JString ''Govee''),
        (''model'', JString ''H7124''),
        (''display_name'', JString ''Govee H7124''),
        (''support_status'', JString ''verified''),
        (''advertised_name_prefixes'', JArray [JString ''GVH7124''])])]"

definition h7129_document :: jobject where
  "h7129_document =
     [
      (''schema_version'', JInt 1),
      (''profile_id'', JString ''h7129''),
      (''extends'', JString ''default-encrypted''),
      (''identity'', JObject [
        (''manufacturer'', JString ''Govee''),
        (''model'', JString ''H7129''),
        (''display_name'', JString ''Govee H7129''),
        (''support_status'', JString ''verified''),
        (''advertised_name_prefixes'', JArray [JString ''ihoment_H7129_''])])]"

definition shipped_sources :: "(string \<times> jobject) list" where
  "shipped_sources =
     [(''default'', default_document), (''default-encrypted'', default_encrypted_document),
      (''h7123'', h7123_document), (''h712c'', h712c_document), (''h7124'', h7124_document),
      (''h7129'', h7129_document)]"

definition shipped_files :: "string \<Rightarrow> json res" where
  "shipped_files filename =
     (if filename = ''schema.json'' then Inr (JObject schema_document)
      else case find (\<lambda>(i, _). filename = i @ ''.json'') shipped_sources of
        Some (_, d) \<Rightarrow> Inr (JObject d) | None \<Rightarrow> Inl ProfileError)"

section \<open>Evaluation\<close>

lemma shipped_schema: "res_bind (read_object shipped_files ''schema.json'') validate_schema_artifact = Inr ()"
  by code_simp

lemma shipped_reading: "read_sources shipped_files PROFILE_IDS = Inr shipped_sources"
  by code_simp

text \<open>Merging and parsing, one artifact at a time.\<close>

definition shipped_parse :: "string \<Rightarrow> (string \<times> device_profile) res" where
  "shipped_parse i = res_bind (effective_document shipped_sources i) (parse_document (\<lambda>_. []))"

lemma shipped_default: "shipped_parse ''default'' = Inr (''default'', default_profile)"
  by code_simp

lemma shipped_default_encrypted:
  "shipped_parse ''default-encrypted'' = Inr (''default-encrypted'', default_encrypted_profile)"
  by code_simp

lemma shipped_h7123: "shipped_parse ''h7123'' = Inr (''h7123'', h7123_profile)"
  by code_simp

lemma shipped_h712c: "shipped_parse ''h712c'' = Inr (''h712c'', h712c_profile)"
  by code_simp

lemma shipped_h7124: "shipped_parse ''h7124'' = Inr (''h7124'', h7124_profile)"
  by code_simp

lemma shipped_h7129: "shipped_parse ''h7129'' = Inr (''h7129'', h7129_profile)"
  by code_simp

text \<open>A root artifact parses as it stands, with itself as its lineage.\<close>

lemma parse_default:
  "parse_profile (\<lambda>_. []) default_document [''default''] ''default.json'' = Inr default_profile"
  by code_simp

lemma parse_default_encrypted:
  "parse_profile (\<lambda>_. []) default_encrypted_document [''default-encrypted'']
     ''default-encrypted.json'' = Inr default_encrypted_profile"
  by code_simp

definition shipped_registry :: profile_registry where
  "shipped_registry =
     [(''default'', default_profile), (''default-encrypted'', default_encrypted_profile),
      (''h7123'', h7123_profile), (''h712c'', h712c_profile), (''h7124'', h7124_profile),
      (''h7129'', h7129_profile)]"

lemma res_map_list_compose:
  assumes "\<And>x. x \<in> set xs \<Longrightarrow> res_bind (f x) g = Inr (h x)"
  shows "\<exists>ys. res_map_list f xs = Inr ys \<and> res_map_list g ys = Inr (map h xs)"
  using assms
proof (induction xs)
  case Nil
  then show ?case by simp
next
  case (Cons x xs)
  then obtain ys where ys: "res_map_list f xs = Inr ys" "res_map_list g ys = Inr (map h xs)" by auto
  from Cons.prems[of x] obtain y where y: "f x = Inr y" "g y = Inr (h x)" by auto
  with ys show ?case by (intro exI[of _ "y # ys"]) (simp del: res_bind_eq_Inr)
qed

lemma shipped_documents:
  "\<exists>docs. res_map_list (effective_document shipped_sources) PROFILE_IDS = Inr docs \<and>
     res_map_list (parse_document (\<lambda>_. [])) docs = Inr shipped_registry"
proof -
  let ?h = "\<lambda>i. (i, case map_of shipped_registry i of Some p \<Rightarrow> p | None \<Rightarrow> default_profile)"
  have "\<exists>docs. res_map_list (effective_document shipped_sources) PROFILE_IDS = Inr docs \<and>
     res_map_list (parse_document (\<lambda>_. [])) docs = Inr (map ?h PROFILE_IDS)"
    by (rule res_map_list_compose)
      (auto simp: PROFILE_IDS_def shipped_registry_def shipped_default shipped_default_encrypted
        shipped_h7123 shipped_h712c shipped_h7124 shipped_h7129 simp flip: shipped_parse_def
        simp del: res_bind_eq_Inr)
  moreover have "map ?h PROFILE_IDS = shipped_registry"
    by (simp add: PROFILE_IDS_def shipped_registry_def)
  ultimately show ?thesis by metis
qed

lemma shipped_checks:
  "\<not> isl (res_map_list (check_root shipped_registry) ROOT_PROFILE_IDS)"
  "\<not> isl (check_exacts shipped_registry [] EXACT_PROFILE_PARENTS)"
  by code_simp+

lemma shipped_loads: "load_profile_registry (\<lambda>_. []) shipped_files = Inr shipped_registry"
proof -
  from shipped_schema obtain schema where s: "read_object shipped_files ''schema.json'' = Inr schema"
    "validate_schema_artifact schema = Inr ()" by auto
  from shipped_documents obtain docs where d: "res_map_list (effective_document shipped_sources) PROFILE_IDS = Inr docs"
    "res_map_list (parse_document (\<lambda>_. [])) docs = Inr shipped_registry" by blast
  obtain u where u: "res_map_list (check_root shipped_registry) ROOT_PROFILE_IDS = Inr u"
    using shipped_checks(1) by (cases "res_map_list (check_root shipped_registry) ROOT_PROFILE_IDS") simp_all
  obtain v where v: "check_exacts shipped_registry [] EXACT_PROFILE_PARENTS = Inr v"
    using shipped_checks(2) by (cases "check_exacts shipped_registry [] EXACT_PROFILE_PARENTS") simp_all
  show "load_profile_registry (\<lambda>_. []) shipped_files = Inr shipped_registry"
    by (simp only: load_profile_registry_def load_effective_documents_def s d u v shipped_reading
        res_bind_simps)
qed

section \<open>Properties\<close>

text \<open>The artifacts the repository ships load: the schema artifact is accepted, every profile
  file resolves against its parent and parses, the cross-checks pass, and the registry resolves
  each of the four models to its exact profile.\<close>

theorem shipped_artifacts_load:
  "load_profile_registry (\<lambda>_. []) shipped_files = Inr shipped_registry \<and>
   for_model shipped_registry ''H7123'' = Inr h7123_profile \<and>
   for_model shipped_registry ''H712C'' = Inr h712c_profile \<and>
   for_model shipped_registry ''H7124'' = Inr h7124_profile \<and>
   for_model shipped_registry ''H7129'' = Inr h7129_profile"
proof -
  have "model_of_value ''H7123'' = Inr H7123" "model_of_value ''H712C'' = Inr H712C"
    "model_of_value ''H7124'' = Inr H7124" "model_of_value ''H7129'' = Inr H7129"
    by (simp_all add: model_of_value_def)
  then show ?thesis
    using shipped_loads by (simp add: for_model_def registry_id_def shipped_registry_def)
qed

theorem loaded_registry_selects_witness:
  "(case match_name shipped_registry (Some ''GVH7124AB'') of
      Inr (Some p) \<Rightarrow> profile_wf p \<and> (\<exists>m. profile_model p = Inr m) \<and>
        (\<exists>n. Some ''GVH7124AB'' = Some n \<and> profile_matches (ascii_lower n) p)
    | Inr None \<Rightarrow> True
    | Inl _ \<Rightarrow> False) \<and>
    (\<exists>p. for_model shipped_registry (model_value H7129) = Inr p \<and> profile_wf p \<and>
       profile_model p = Inr H7129 \<and>
       profile_security p = (if H7129 \<in> {H712C, H7124} then PLAINTEXT else H7129_SESSION))"
  by (rule loaded_registry_selects[OF shipped_loads])

theorem parsed_profile_wf_witness:
  "profile_wf default_profile \<and> schema_version default_profile = SCHEMA_VERSION \<and>
    lineage default_profile = [''default''] \<and>
    parse_custom_auto_options [] (custom_auto_defaults default_profile) =
      Inr (default_options (custom_auto_defaults default_profile))"
  by (rule parsed_profile_wf[OF parse_default])

theorem parsed_profile_protocol_complete_witness:
  "\<exists>g inits refs poll. new_protocol default_encrypted_profile = Inr g \<and>
    gp_initialization_requests g = Inr inits \<and> gp_refresh_requests g = Inr refs \<and>
    device_state_poll g = Inr poll \<and> take 2 (dsc_frame poll) = [0xAA, 0x01] \<and>
    length inits = length (initialization_order (protocol default_encrypted_profile)) \<and>
    length refs = length (refresh_order (protocol default_encrypted_profile)) \<and>
    (\<forall>d \<in> set (inits @ refs @ [poll]). is_valid_frame (dsc_frame d)) \<and>
    (\<forall>on. \<exists>f. gp_encode g (SetPower on) = Inr f \<and> take 3 f = [0x33, 0x01, if on then 1 else 0])"
  by (rule parsed_profile_protocol_complete[OF parse_default_encrypted])

end
