(* ===== verification/Stateful.thy ===== *)
theory Stateful
  imports Govee_Prelude
begin

text \<open>
  State with exceptions, and futures.  An operation of a stateful component is a function from
  the state to a result and the state it leaves behind: a raise keeps the changes made before it,
  as in the code.  A future is settled at most once; \<open>set_result\<close>, \<open>set_exception\<close> and \<open>cancel\<close>
  are guarded by \<open>done()\<close> at every use in the modelled code.
\<close>

section \<open>State and exceptions\<close>

type_synonym ('a, 's) st = "'s \<Rightarrow> 'a res \<times> 's"

definition st_return :: "'a \<Rightarrow> ('a, 's) st" where
  "st_return x s = (Inr x, s)"

definition st_raise :: "exn \<Rightarrow> ('a, 's) st" where
  "st_raise e s = (Inl e, s)"

definition st_bind :: "('a, 's) st \<Rightarrow> ('a \<Rightarrow> ('b, 's) st) \<Rightarrow> ('b, 's) st" where
  "st_bind m f s = (case m s of (Inl e, s') \<Rightarrow> (Inl e, s') | (Inr x, s') \<Rightarrow> f x s')"

definition st_lift :: "'a res \<Rightarrow> ('a, 's) st" where
  "st_lift r s = (r, s)"

definition st_modify :: "('s \<Rightarrow> 's) \<Rightarrow> (unit, 's) st" where
  "st_modify f s = (Inr (), f s)"

lemma st_simps [simp]:
  "st_return x s = (Inr x, s)"
  "st_raise e s = (Inl e, s)"
  "st_lift r s = (r, s)"
  "st_modify f s = (Inr (), f s)"
  by (simp_all add: st_return_def st_raise_def st_lift_def st_modify_def)

text \<open>A relation between the state before and after that composes carries through a sequence.\<close>

lemma st_bind_preserves:
  assumes "\<And>s. R s (snd (m s))" "\<And>x s. R s (snd (f x s))" "\<And>a b c. R a b \<Longrightarrow> R b c \<Longrightarrow> R a c"
  shows "R s (snd (st_bind m f s))"
proof (cases "m s")
  case (Pair r s')
  with assms(1)[of s] have "R s s'" by simp
  with Pair assms(2,3) show ?thesis by (cases r) (auto simp: st_bind_def)
qed

section \<open>Futures\<close>

datatype outcome = Returned | Failed exn | Cancelled

type_synonym future = "outcome option"

abbreviation fut_pending :: future where "fut_pending \<equiv> None"

definition fut_done :: "future \<Rightarrow> bool" where
  "fut_done f \<longleftrightarrow> f \<noteq> None"

definition fut_settle :: "outcome \<Rightarrow> future \<Rightarrow> future" where
  "fut_settle v f = (if fut_done f then f else Some v)"

lemma fut_settle_simps [simp]:
  "fut_settle v (Some w) = Some w"
  "fut_settle v None = Some v"
  "fut_done (fut_settle v f)"
  "fut_done (Some w)"
  "\<not> fut_done None"
  by (simp_all add: fut_settle_def fut_done_def)

lemma fut_settle_keeps: "f = Some w \<Longrightarrow> fut_settle v f = Some w"
  by simp

section \<open>Objects in a store\<close>

text \<open>Mutable objects that several holders share are entries of a list; the reference of an
  object is its index, which is never reused.\<close>

definition upd_at :: "nat \<Rightarrow> ('a \<Rightarrow> 'a) \<Rightarrow> 'a list \<Rightarrow> 'a list" where
  "upd_at i f xs = (if i < length xs then xs[i := f (xs ! i)] else xs)"

lemma length_upd_at [simp]: "length (upd_at i f xs) = length xs"
  by (simp add: upd_at_def)

lemma upd_at_nth [simp]:
  "j < length xs \<Longrightarrow> upd_at i f xs ! j = (if i = j then f (xs ! j) else xs ! j)"
  by (simp add: upd_at_def nth_list_update)

lemma upd_at_append [simp]: "i < length xs \<Longrightarrow> upd_at i f (xs @ ys) = upd_at i f xs @ ys"
  by (simp add: upd_at_def nth_append list_update_append)

end
