(* ===== verification/Operations.thy ===== *)
theory Operations
  imports Stateful State_Reducer
begin

text \<open>
  The command lane (\<open>operations.py\<close>, \<open>CommandOperationController\<close>): the queue of absolute commands,
  their deadlines, send budget and supersession, and the ownership of late fan acknowledgements.

  An \<open>_Operation\<close> is shared by its caller, the queue and the executing client; operations are
  entries of \<open>oc_store\<close>, the operation with identifier \<open>n\<close> at index \<open>n - 1\<close>.  An operation of the
  controller is told the protocol, the timing profile and, where the code consults the shared
  reducer, the reducer.  Diagnostic text is represented by the values it is formatted from.
\<close>

section \<open>State\<close>

definition MAX_SUPERSEDED_FAN_ECHOES :: nat where
  "MAX_SUPERSEDED_FAN_ECHOES = 8"

datatype decoded_mode = NoMode | DecodedMode fan_mode | DecodeError exn

record fan_frame_detail =
  ffd_generation :: int
  ffd_elapsed :: time
  ffd_phase :: string
  ffd_physical_update :: bool
  ffd_matches_request :: bool
  ffd_decoded_mode :: decoded_mode
  ffd_frame :: bytes

record operation =
  op_command :: command
  op_future :: future
  op_deadline :: time
  op_send_attempts :: int
  op_created_at :: time
  op_send_diagnostics :: "(int \<times> int \<times> time) list"
  op_response_failures :: "(int \<times> exn) list"
  op_observed_fan_frames :: "fan_frame_detail list"
  op_operation_id :: nat
  op_origin :: command_origin
  op_cancel_event :: bool
  op_quiesced :: bool
  op_force_fan_confirmation :: bool

record command_diagnostics =
  cdi_reason :: string
  cdi_command :: command
  cdi_frame :: bytes
  cdi_sends :: int
  cdi_send_limit :: int
  cdi_send_timeline :: "(int \<times> int \<times> time) list"
  cdi_response_failures :: "(int \<times> exn) list"
  cdi_fan_frames :: "fan_frame_detail list"
  cdi_generation :: int
  cdi_cached_fan_mode :: "fan_mode option"

record operations =
  oc_store :: "operation list"
  oc_pending :: "nat list"
  oc_active :: "nat option"
  oc_event :: bool
  oc_last_diagnostics :: "command_diagnostics option"
  oc_next_operation_id :: nat
  oc_requiring_confirmation :: "fan_mode set"
  oc_superseded_echoes :: "(int \<times> bytes) list"
  oc_cancelled_echoes :: "(int \<times> bytes) list"

definition new_operations :: operations where
  "new_operations =
     \<lparr>oc_store = [], oc_pending = [], oc_active = None, oc_event = False,
      oc_last_diagnostics = None, oc_next_operation_id = 0, oc_requiring_confirmation = {},
      oc_superseded_echoes = [], oc_cancelled_echoes = []\<rparr>"

definition op :: "operations \<Rightarrow> nat \<Rightarrow> operation" where
  "op s i = oc_store s ! i"

definition op_done :: "operations \<Rightarrow> nat \<Rightarrow> bool" where
  "op_done s i \<longleftrightarrow> fut_done (op_future (op s i))"

definition upd_op :: "nat \<Rightarrow> (operation \<Rightarrow> operation) \<Rightarrow> operations \<Rightarrow> operations" where
  "upd_op i f s = s\<lparr>oc_store := upd_at i f (oc_store s)\<rparr>"

definition settle :: "nat \<Rightarrow> outcome \<Rightarrow> operations \<Rightarrow> operations" where
  "settle i v = upd_op i (\<lambda>x. x\<lparr>op_future := fut_settle v (op_future x)\<rparr>)"

definition quiesce :: "nat \<Rightarrow> operations \<Rightarrow> operations" where
  "quiesce i = upd_op i (\<lambda>x. x\<lparr>op_quiesced := True\<rparr>)"

section \<open>Failure evidence\<close>

text \<open>\<open>xs[-n:]\<close>: the last \<open>n\<close> entries, all of them when \<open>n\<close> is zero.\<close>

definition last_entries :: "int \<Rightarrow> 'a list \<Rightarrow> 'a list" where
  "last_entries n xs = (if n = 0 then xs else if n < 0 then drop (nat (- n)) xs
     else drop (length xs - nat n) xs)"

definition command_echo :: "govee_protocol \<Rightarrow> command \<Rightarrow> bytes res" where
  "command_echo g cmd = res_bind (command_request g cmd None) (\<lambda>d. Inr (dsc_frame d))"

definition diagnostic_summary ::
    "govee_protocol \<Rightarrow> timing_profile \<Rightarrow> state_reducer \<Rightarrow> nat \<Rightarrow> string \<Rightarrow> int \<Rightarrow> operations \<Rightarrow>
     command_diagnostics res" where
  "diagnostic_summary g t r i reason generation s =
     res_bind (command_echo g (op_command (op s i))) (\<lambda>frame.
       Inr \<lparr>cdi_reason = reason, cdi_command = op_command (op s i), cdi_frame = frame,
            cdi_sends = op_send_attempts (op s i), cdi_send_limit = command_send_attempts t,
            cdi_send_timeline =
              last_entries (command_send_attempts t) (op_send_diagnostics (op s i)),
            cdi_response_failures =
              last_entries (command_send_attempts t) (op_response_failures (op s i)),
            cdi_fan_frames = last_entries 8 (op_observed_fan_frames (op s i)),
            cdi_generation = generation, cdi_cached_fan_mode = ps_fan_mode (red_state r)\<rparr>)"

text \<open>Building the evidence encodes the command, so \<open>fail\<close> raises when the command cannot be
  encoded, and then leaves the future unsettled.\<close>

definition failure_error ::
    "govee_protocol \<Rightarrow> timing_profile \<Rightarrow> state_reducer \<Rightarrow> nat \<Rightarrow> string \<Rightarrow> int \<Rightarrow> (exn, operations) st"
  where
  "failure_error g t r i reason generation s =
     (case diagnostic_summary g t r i reason generation s of
        Inl e \<Rightarrow> (Inl e, s)
      | Inr summary \<Rightarrow> (Inr CommandDeadlineExceeded, s\<lparr>oc_last_diagnostics := Some summary\<rparr>))"

definition fail ::
    "govee_protocol \<Rightarrow> timing_profile \<Rightarrow> state_reducer \<Rightarrow> nat \<Rightarrow> string \<Rightarrow> int \<Rightarrow> (exn, operations) st"
  where
  "fail g t r i reason generation =
     st_bind (failure_error g t r i reason generation) (\<lambda>error s.
       (Inr error, settle i (Failed error) s))"

section \<open>Queue\<close>

definition clear_superseded_fan_echoes :: "operations \<Rightarrow> operations" where
  "clear_superseded_fan_echoes s = s\<lparr>oc_superseded_echoes := [], oc_cancelled_echoes := []\<rparr>"

text \<open>\<open>_coalesce_pending\<close>: matching unsettled entries are superseded in queue order.\<close>

definition superseded_by :: "command \<Rightarrow> operations \<Rightarrow> nat \<Rightarrow> bool" where
  "superseded_by cmd s i \<longleftrightarrow>
     command_type_name (op_command (op s i)) = command_type_name cmd \<and> \<not> op_done s i"

definition coalesce_pending :: "command \<Rightarrow> operations \<Rightarrow> operations" where
  "coalesce_pending cmd s =
     (let superseded = filter (superseded_by cmd s) (oc_pending s);
          s' = foldl (\<lambda>s i. quiesce i (settle i (Failed CommandSuperseded) s)) s superseded
      in s'\<lparr>oc_pending := filter (\<lambda>i. \<not> superseded_by cmd s i) (oc_pending s)\<rparr>)"

definition forces_confirmation :: "command \<Rightarrow> operations \<Rightarrow> bool" where
  "forces_confirmation cmd s \<longleftrightarrow>
     (case cmd of SetFanMode mode \<Rightarrow> mode \<in> oc_requiring_confirmation s | _ \<Rightarrow> False)"

definition discard_confirmation :: "command \<Rightarrow> operations \<Rightarrow> operations" where
  "discard_confirmation cmd s =
     (case cmd of
        SetFanMode mode \<Rightarrow> s\<lparr>oc_requiring_confirmation := oc_requiring_confirmation s - {mode}\<rparr>
      | _ \<Rightarrow> s)"

definition enqueue ::
    "timing_profile \<Rightarrow> command \<Rightarrow> time \<Rightarrow> command_origin \<Rightarrow> operations \<Rightarrow> nat \<times> operations" where
  "enqueue t cmd now origin s =
     (let i = length (oc_store s);
          new = \<lparr>op_command = cmd, op_future = fut_pending, op_deadline = now + command_deadline t,
                 op_send_attempts = 0, op_created_at = now, op_send_diagnostics = [],
                 op_response_failures = [], op_observed_fan_frames = [],
                 op_operation_id = oc_next_operation_id s + 1, op_origin = origin,
                 op_cancel_event = False, op_quiesced = False,
                 op_force_fan_confirmation = forces_confirmation cmd s\<rparr>;
          s = discard_confirmation cmd (s\<lparr>oc_next_operation_id := oc_next_operation_id s + 1\<rparr>);
          s = coalesce_pending cmd (s\<lparr>oc_store := oc_store s @ [new]\<rparr>)
      in (i, s\<lparr>oc_pending := oc_pending s @ [i], oc_event := True\<rparr>))"

text \<open>The loop of \<open>discard_expired\<close>; an exception from \<open>fail\<close> leaves the loop with what was
  popped gone and what was retained not put back.\<close>

fun discard_loop ::
    "govee_protocol \<Rightarrow> timing_profile \<Rightarrow> state_reducer \<Rightarrow> time \<Rightarrow> int \<Rightarrow> nat list \<Rightarrow> nat list \<Rightarrow>
     (nat list, operations) st" where
  "discard_loop g t r now generation [] retained s = (Inr retained, s\<lparr>oc_pending := []\<rparr>)"
| "discard_loop g t r now generation (i # rest) retained s =
     (if op_done s i then discard_loop g t r now generation rest retained s
      else if op_deadline (op s i) \<le> now then
        (case fail g t r i ''Command deadline expired while queued'' generation
                (s\<lparr>oc_pending := rest\<rparr>) of
           (Inl e, s') \<Rightarrow> (Inl e, s')
         | (Inr _, s') \<Rightarrow> discard_loop g t r now generation rest retained (quiesce i s'))
      else discard_loop g t r now generation rest (retained @ [i]) s)"

definition discard_expired ::
    "govee_protocol \<Rightarrow> timing_profile \<Rightarrow> state_reducer \<Rightarrow> time \<Rightarrow> int \<Rightarrow> (unit, operations) st" where
  "discard_expired g t r now generation s =
     (case discard_loop g t r now generation (oc_pending s) [] s of
        (Inl e, s') \<Rightarrow> (Inl e, s')
      | (Inr retained, s') \<Rightarrow>
          (Inr (), s'\<lparr>oc_pending := retained,
                       oc_event := (if retained = [] then False else oc_event s')\<rparr>))"

definition take_next ::
    "govee_protocol \<Rightarrow> timing_profile \<Rightarrow> state_reducer \<Rightarrow> time \<Rightarrow> int \<Rightarrow> (nat option, operations) st"
  where
  "take_next g t r now generation =
     st_bind (discard_expired g t r now generation) (\<lambda>_ s.
       case oc_pending s of
         [] \<Rightarrow> (Inr None, s)
       | i # rest \<Rightarrow>
           if oc_active s \<noteq> None then (Inr None, s)
           else (Inr (Some i), s\<lparr>oc_pending := rest, oc_active := Some i\<rparr>))"

definition release :: "nat \<Rightarrow> operations \<Rightarrow> operations" where
  "release i s =
     quiesce i (s\<lparr>oc_active := (if oc_active s = Some i then None else oc_active s)\<rparr>)"

definition has_pending :: "time \<Rightarrow> operations \<Rightarrow> bool" where
  "has_pending now s \<longleftrightarrow> (\<exists>i \<in> set (oc_pending s). \<not> op_done s i \<and> now < op_deadline (op s i))"

definition cancel ::
    "govee_protocol \<Rightarrow> nat \<Rightarrow> int option \<Rightarrow> (unit, operations) st" where
  "cancel g i generation =
     st_bind
       (\<lambda>s. case generation of
              Some n \<Rightarrow>
                (if oc_active s = Some i \<and> is_SetFanMode (op_command (op s i)) \<and>
                    0 < op_send_attempts (op s i)
                 then (case command_echo g (op_command (op s i)) of
                         Inl e \<Rightarrow> (Inl e, s)
                       | Inr frame \<Rightarrow>
                           (Inr (), if (n, frame) \<in> set (oc_cancelled_echoes s) then s
                                    else s\<lparr>oc_cancelled_echoes :=
                                             deque_append MAX_SUPERSEDED_FAN_ECHOES (n, frame)
                                               (oc_cancelled_echoes s)\<rparr>))
                 else (Inr (), s))
            | None \<Rightarrow> (Inr (), s))
       (\<lambda>_ s.
          let s = upd_op i (\<lambda>x. x\<lparr>op_cancel_event := True\<rparr>) (settle i Cancelled s);
              was_pending = (i \<in> set (oc_pending s));
              s = s\<lparr>oc_pending := remove1 i (oc_pending s)\<rparr>;
              s = (if was_pending then quiesce i s else s)
          in (Inr (), s\<lparr>oc_event :=
                (if list_ex (\<lambda>j. \<not> op_done s j) (oc_pending s) then oc_event s else False)\<rparr>))"

section \<open>Execution\<close>

definition reconcile :: "state_reducer \<Rightarrow> nat \<Rightarrow> operations \<Rightarrow> bool \<times> operations" where
  "reconcile r i s =
     (if command_is_satisfied r (op_command (op s i)) then (True, settle i Returned s)
      else (False, s))"

definition prepare_for_execution ::
    "govee_protocol \<Rightarrow> timing_profile \<Rightarrow> state_reducer \<Rightarrow> nat \<Rightarrow> time \<Rightarrow> int \<Rightarrow> (bool, operations) st"
  where
  "prepare_for_execution g t r i now generation s =
     (if op_done s i then (Inr False, s)
      else if op_deadline (op s i) \<le> now then
        st_bind (fail g t r i ''Command deadline expired before execution'' generation)
          (\<lambda>_. st_return False) s
      else
        let (reconciled, s) = (if op_force_fan_confirmation (op s i) then (False, s)
                               else reconcile r i s)
        in if reconciled then (Inr False, s)
           else if command_send_attempts t \<le> op_send_attempts (op s i) then
             st_bind (fail g t r i ''Command remained unconfirmed after bounded retries'' generation)
               (\<lambda>_. st_return False) s
           else (Inr True, s))"

definition prepare_for_send ::
    "govee_protocol \<Rightarrow> timing_profile \<Rightarrow> state_reducer \<Rightarrow> nat \<Rightarrow> time \<Rightarrow> int \<Rightarrow> (bool, operations) st"
  where
  "prepare_for_send g t r i now generation s =
     (if op_done s i \<or> command_send_attempts t \<le> op_send_attempts (op s i) then (Inr False, s)
      else if op_deadline (op s i) \<le> now then
        st_bind (fail g t r i ''Command deadline expired before retry'' generation)
          (\<lambda>_. st_return False) s
      else (Inr True, s))"

definition should_retry_after_response_failure ::
    "timing_profile \<Rightarrow> nat \<Rightarrow> time \<Rightarrow> operations \<Rightarrow> bool" where
  "should_retry_after_response_failure t i now s \<longleftrightarrow>
     op_send_attempts (op s i) < command_send_attempts t \<and> \<not> op_done s i \<and>
     now < op_deadline (op s i)"

definition complete :: "nat \<Rightarrow> operations \<Rightarrow> operations" where
  "complete i s = (settle i Returned s)\<lparr>oc_last_diagnostics := None\<rparr>"

text \<open>A late echo the new send may own: an exact echo of a cancelled command always, one of a
  superseded command when this send replaces it.\<close>

definition retire_superseded_fan_echo_for_send ::
    "govee_protocol \<Rightarrow> nat \<Rightarrow> int \<Rightarrow> (unit, operations) st" where
  "retire_superseded_fan_echo_for_send g i generation s =
     (if \<not> is_SetFanMode (op_command (op s i)) then (Inr (), s)
      else
        case command_echo g (op_command (op s i)) of
          Inl e \<Rightarrow> (Inl e, s)
        | Inr echo \<Rightarrow>
            let s = s\<lparr>oc_cancelled_echoes :=
                        filter (\<lambda>x. x \<noteq> (generation, echo)) (oc_cancelled_echoes s)\<rparr>
            in (Inr (), if op_force_fan_confirmation (op s i)
                        then s\<lparr>oc_superseded_echoes :=
                                 filter (\<lambda>x. x \<noteq> (generation, echo)) (oc_superseded_echoes s)\<rparr>
                        else s))"

definition op_elapsed :: "operation \<Rightarrow> time \<Rightarrow> time" where
  "op_elapsed x now = (if 0 < op_created_at x then now - op_created_at x else 0)"

definition record_send :: "govee_protocol \<Rightarrow> nat \<Rightarrow> int \<Rightarrow> time \<Rightarrow> (unit, operations) st" where
  "record_send g i generation now =
     st_bind (retire_superseded_fan_echo_for_send g i generation) (\<lambda>_.
       st_modify (upd_op i (\<lambda>x.
         x\<lparr>op_send_attempts := op_send_attempts x + 1,
           op_send_diagnostics := op_send_diagnostics x @
             [(op_send_attempts x + 1, generation, op_elapsed x now)]\<rparr>)))"

definition record_response_failure :: "nat \<Rightarrow> int \<Rightarrow> exn \<Rightarrow> operations \<Rightarrow> operations" where
  "record_response_failure i generation error =
     upd_op i (\<lambda>x. x\<lparr>op_response_failures := op_response_failures x @ [(generation, error)]\<rparr>)"

definition requeue_for_reconciliation ::
    "govee_protocol \<Rightarrow> timing_profile \<Rightarrow> state_reducer \<Rightarrow> nat \<Rightarrow> time \<Rightarrow> int \<Rightarrow> (unit, operations) st"
  where
  "requeue_for_reconciliation g t r i now generation s =
     (if op_done s i then (Inr (), s)
      else if op_deadline (op s i) \<le> now then
        st_bind (fail g t r i ''Command deadline expired during recovery'' generation)
          (\<lambda>_. st_return ()) s
      else (Inr (), s\<lparr>oc_pending := i # oc_pending s, oc_event := True\<rparr>))"

definition fail_for_shutdown :: "exn \<Rightarrow> nat option \<Rightarrow> operations \<Rightarrow> operations" where
  "fail_for_shutdown error captured s =
     (let s = clear_superseded_fan_echoes s;
          current = (case captured of Some i \<Rightarrow> Some i | None \<Rightarrow> oc_active s);
          s = (case current of Some i \<Rightarrow> settle i (Failed error) s | None \<Rightarrow> s);
          s = foldl (\<lambda>s i. quiesce i (settle i (Failed error) s)) s (oc_pending s)
      in s\<lparr>oc_pending := []\<rparr>)"

section \<open>Physical authority and late echoes\<close>

definition reserve_active_fan_echo_by_physical ::
    "govee_protocol \<Rightarrow> int \<Rightarrow> (bool, operations) st" where
  "reserve_active_fan_echo_by_physical g generation s =
     (case oc_active s of
        None \<Rightarrow> (Inr False, s)
      | Some i \<Rightarrow>
          if \<not> is_SetFanMode (op_command (op s i)) \<or> op_send_attempts (op s i) = 0
          then (Inr False, s)
          else
            case command_echo g (op_command (op s i)) of
              Inl e \<Rightarrow> (Inl e, s)
            | Inr frame \<Rightarrow>
                (Inr True, if (generation, frame) \<in> set (oc_superseded_echoes s) then s
                           else s\<lparr>oc_superseded_echoes :=
                                    deque_append MAX_SUPERSEDED_FAN_ECHOES (generation, frame)
                                      (oc_superseded_echoes s)\<rparr>))"

text \<open>The pending commands for the superseded mode must be confirmed by a notification.\<close>

definition force_matching :: "fan_mode \<Rightarrow> operations \<Rightarrow> nat \<Rightarrow> operations" where
  "force_matching mode s i =
     (if op_command (op s i) = SetFanMode mode
      then (upd_op i (\<lambda>x. x\<lparr>op_force_fan_confirmation := True\<rparr>) s)
             \<lparr>oc_requiring_confirmation := oc_requiring_confirmation s - {mode}\<rparr>
      else s)"

definition supersede_active_fan_by_physical ::
    "govee_protocol \<Rightarrow> int \<Rightarrow> (bool, operations) st" where
  "supersede_active_fan_by_physical g generation s =
     (case oc_active s of
        None \<Rightarrow> (Inr False, s)
      | Some i \<Rightarrow>
          (case op_command (op s i) of
             SetFanMode mode \<Rightarrow>
               if op_send_attempts (op s i) = 0 \<or> op_done s i then (Inr False, s)
               else
                 let s = upd_op i (\<lambda>x. x\<lparr>op_cancel_event := True\<rparr>)
                           (settle i (Failed CommandSuperseded) s);
                     s = s\<lparr>oc_requiring_confirmation := insert mode (oc_requiring_confirmation s)\<rparr>;
                     s = foldl (force_matching mode) s (oc_pending s)
                 in st_bind (reserve_active_fan_echo_by_physical g generation)
                      (\<lambda>_. st_return True) s
           | _ \<Rightarrow> (Inr False, s)))"

definition discard_active_fan_echo_reservation ::
    "govee_protocol \<Rightarrow> int \<Rightarrow> (unit, operations) st" where
  "discard_active_fan_echo_reservation g generation s =
     (case oc_active s of
        None \<Rightarrow> (Inr (), s)
      | Some i \<Rightarrow>
          if \<not> is_SetFanMode (op_command (op s i)) then (Inr (), s)
          else
            case command_echo g (op_command (op s i)) of
              Inl e \<Rightarrow> (Inl e, s)
            | Inr frame \<Rightarrow>
                (Inr (), s\<lparr>oc_superseded_echoes :=
                             remove1 (generation, frame) (oc_superseded_echoes s)\<rparr>))"

definition consume_superseded_fan_echo :: "int \<Rightarrow> bytes \<Rightarrow> operations \<Rightarrow> bool \<times> operations" where
  "consume_superseded_fan_echo generation frame s =
     (if \<not> starts_with [0x3A, 0x05] frame then (False, s)
      else if (generation, frame) \<in> set (oc_cancelled_echoes s) then (True, s)
      else if (generation, frame) \<in> set (oc_superseded_echoes s)
      then (True, s\<lparr>oc_superseded_echoes :=
                       remove1 (generation, frame) (oc_superseded_echoes s)\<rparr>)
      else (False, s))"

section \<open>Diagnostics\<close>

definition pending_fan_operation :: "operations \<Rightarrow> nat option" where
  "pending_fan_operation s =
     (let eligible = (\<lambda>i. is_SetFanMode (op_command (op s i)) \<and> \<not> op_done s i)
      in case oc_active s of
           Some i \<Rightarrow> if eligible i then Some i else find eligible (oc_pending s)
         | None \<Rightarrow> find eligible (oc_pending s))"

definition physical_frame_mode :: "govee_protocol \<Rightarrow> bytes \<Rightarrow> decoded_mode" where
  "physical_frame_mode g frame =
     (case gp_decode g frame of
        Inl e \<Rightarrow> DecodeError e
      | Inr (FanModeEvent _ (Some mode) _ _ _) \<Rightarrow> DecodedMode mode
      | Inr _ \<Rightarrow> NoMode)"

definition record_fan_frame ::
    "govee_protocol \<Rightarrow> int \<Rightarrow> bytes \<Rightarrow> string \<Rightarrow> time \<Rightarrow> (fan_frame_detail option, operations) st"
  where
  "record_fan_frame g generation frame phase now s =
     (if \<not> (starts_with [0x3A, 0x05] frame \<or> starts_with [0xEE, 0x05] frame) then (Inr None, s)
      else
        case pending_fan_operation s of
          None \<Rightarrow> (Inr None, s)
        | Some i \<Rightarrow>
            st_bind
              (\<lambda>s. if starts_with [0x3A, 0x05] frame
                   then (res_bind (command_echo g (op_command (op s i))) (\<lambda>request.
                           Inr (False, frame = request,
                                if frame = request
                                then (case op_command (op s i) of
                                        SetFanMode mode \<Rightarrow> DecodedMode mode | _ \<Rightarrow> NoMode)
                                else NoMode)), s)
                   else (Inr (True, False, physical_frame_mode g frame), s))
              (\<lambda>(physical, matches, mode) s.
                 let detail = \<lparr>ffd_generation = generation,
                               ffd_elapsed = op_elapsed (op s i) now, ffd_phase = phase,
                               ffd_physical_update = physical, ffd_matches_request = matches,
                               ffd_decoded_mode = mode, ffd_frame = frame\<rparr>
                 in (Inr (Some detail),
                     upd_op i (\<lambda>x. x\<lparr>op_observed_fan_frames :=
                                       op_observed_fan_frames x @ [detail]\<rparr>) s))
              s)"

record operation_snapshot =
  os_last_command_diagnostics :: "command_diagnostics option"
  os_pending_command_count :: nat
  os_active_command :: "string option"
  os_active_command_send_attempts :: "int option"

definition snapshot_operations :: "operations \<Rightarrow> operation_snapshot" where
  "snapshot_operations s =
     \<lparr>os_last_command_diagnostics = oc_last_diagnostics s,
      os_pending_command_count = length (filter (\<lambda>i. \<not> op_done s i) (oc_pending s)),
      os_active_command = map_option (\<lambda>i. command_type_name (op_command (op s i))) (oc_active s),
      os_active_command_send_attempts = map_option (\<lambda>i. op_send_attempts (op s i)) (oc_active s)\<rparr>"

lemmas operations_defs = failure_error_def fail_def clear_superseded_fan_echoes_def
  take_next_def release_def cancel_def reconcile_def prepare_for_execution_def
  prepare_for_send_def complete_def retire_superseded_fan_echo_for_send_def record_send_def
  record_response_failure_def requeue_for_reconciliation_def fail_for_shutdown_def
  reserve_active_fan_echo_by_physical_def supersede_active_fan_by_physical_def
  discard_active_fan_echo_reservation_def consume_superseded_fan_echo_def record_fan_frame_def

section \<open>Operations only accumulate evidence\<close>

text \<open>What can happen to an operation object: its command, deadline and identity are fixed, its
  future is settled at most once, and its flags and counters only advance.\<close>

definition op_le :: "operation \<Rightarrow> operation \<Rightarrow> bool" where
  "op_le x y \<longleftrightarrow>
     op_command y = op_command x \<and> op_deadline y = op_deadline x \<and>
     op_created_at y = op_created_at x \<and> op_operation_id y = op_operation_id x \<and>
     op_origin y = op_origin x \<and>
     (op_future x \<noteq> None \<longrightarrow> op_future y = op_future x) \<and>
     op_send_attempts x \<le> op_send_attempts y \<and>
     (op_cancel_event x \<longrightarrow> op_cancel_event y) \<and> (op_quiesced x \<longrightarrow> op_quiesced y) \<and>
     (op_force_fan_confirmation x \<longrightarrow> op_force_fan_confirmation y)"

definition store_le :: "operation list \<Rightarrow> operation list \<Rightarrow> bool" where
  "store_le xs ys \<longleftrightarrow> length xs \<le> length ys \<and> (\<forall>i < length xs. op_le (xs ! i) (ys ! i))"

definition grows :: "operations \<Rightarrow> operations \<Rightarrow> bool" where
  "grows s s' \<longleftrightarrow> store_le (oc_store s) (oc_store s')"

named_theorems grow_intros \<open>operations only accumulate: one fact per operation\<close>

lemma op_le_refl [simp, intro]: "op_le x x"
  by (simp add: op_le_def)

lemma op_le_trans: "op_le x y \<Longrightarrow> op_le y z \<Longrightarrow> op_le x z"
  unfolding op_le_def by (metis order_trans)

lemma grows_refl [simp, intro]: "grows s s"
  by (simp add: grows_def store_le_def)

lemma grows_trans [trans]: "grows a b \<Longrightarrow> grows b c \<Longrightarrow> grows a c"
  unfolding grows_def store_le_def by (auto intro: op_le_trans)

lemma grows_same_store: "oc_store s' = oc_store s \<Longrightarrow> grows s s'"
  by (simp add: grows_def store_le_def)

lemma grows_store_cong: "oc_store s' = oc_store s'' \<Longrightarrow> grows s s'' \<Longrightarrow> grows s s'"
  by (simp add: grows_def)

lemma grows_upd_op: "(\<And>x. op_le x (f x)) \<Longrightarrow> grows s (upd_op i f s)"
  by (simp add: grows_def store_le_def upd_op_def)

lemma grows_settle [grow_intros]: "grows s (settle i v s)"
  unfolding settle_def
  by (rule grows_upd_op) (auto simp: op_le_def fut_settle_def fut_done_def)

lemma grows_quiesce [grow_intros]: "grows s (quiesce i s)"
  unfolding quiesce_def by (rule grows_upd_op) (auto simp: op_le_def)

lemma grows_foldl: "(\<And>s i. grows s (f s i)) \<Longrightarrow> grows s (foldl f s xs)"
  by (induction xs arbitrary: s) (auto intro: grows_trans)

lemma grows_settle_quiesce: "grows s (quiesce i (settle j v s))"
  using grows_settle grows_quiesce grows_trans by blast

lemma grows_settle_all:
  "grows s (foldl (\<lambda>s i. quiesce i (settle i v s)) s xs)"
  by (rule grows_foldl) (rule grows_settle_quiesce)

lemma grows_st_bind:
  assumes "\<And>s. grows s (snd (m s))" "\<And>x s. grows s (snd (f x s))"
  shows "grows s (snd (st_bind m f s))"
  by (rule st_bind_preserves[of grows]) (use assms in \<open>auto intro: grows_trans\<close>)

lemma grows_failure_error [grow_intros]: "grows s (snd (failure_error g t r i reason n s))"
  by (auto simp: failure_error_def intro: grows_same_store split: sum.splits)

lemma grows_fail [grow_intros]: "grows s (snd (fail g t r i reason n s))"
  unfolding fail_def by (rule grows_st_bind) (simp_all add: grow_intros)

lemma grows_fail_then: "grows s (snd (st_bind (fail g t r i reason n) (\<lambda>_. st_return b) s))"
  by (rule grows_st_bind) (simp_all add: grow_intros)

lemma grows_coalesce [grow_intros]: "grows s (coalesce_pending cmd s)"
  unfolding coalesce_pending_def Let_def
  by (rule grows_store_cong[rotated, OF grows_settle_all]) simp

lemma grows_append: "oc_store s' = oc_store s @ xs \<Longrightarrow> grows s s'"
  by (simp add: grows_def store_le_def nth_append)

lemma discard_confirmation_store [simp]: "oc_store (discard_confirmation cmd s) = oc_store s"
  by (simp add: discard_confirmation_def split: command.splits)

lemma grows_enqueue [grow_intros]: "grows s (snd (enqueue t cmd now origin s))"
  unfolding enqueue_def Let_def snd_conv
  by (rule grows_store_cong[rotated], rule grows_trans[OF _ grows_coalesce], rule grows_append)
    simp_all

lemma grows_discard_loop:
  "grows s (snd (discard_loop g t r now n ps retained s))"
proof (induction g t r now n ps retained s rule: discard_loop.induct)
  case (2 g t r now n i rest retained s)
  obtain res s' where f: "fail g t r i ''Command deadline expired while queued'' n
      (s\<lparr>oc_pending := rest\<rparr>) = (res, s')"
    by fastforce
  have "grows s s'"
    using grows_fail[of "s\<lparr>oc_pending := rest\<rparr>" g t r i "''Command deadline expired while queued''" n]
    by (simp add: f) (simp add: grows_def)
  then have q: "grows s (quiesce i s')" "grows s s'"
    using grows_quiesce[of s' i] by (blast intro: grows_trans)+
  show ?case
  proof (cases "op_done s i")
    case True
    then show ?thesis using 2(1) by simp
  next
    case notdone: False
    show ?thesis
    proof (cases "op_deadline (op s i) \<le> now")
      case True
      then show ?thesis
        using 2(2)[OF notdone True] notdone f q grows_trans[OF q(1)] by (cases res) auto
    next
      case False
      then show ?thesis using 2(3) notdone by simp
    qed
  qed
qed (auto intro: grows_same_store)

lemma grows_discard_expired [grow_intros]: "grows s (snd (discard_expired g t r now n s))"
  using grows_discard_loop[of s g t r now n "oc_pending s" "[]"]
  by (auto simp: discard_expired_def grows_def split: prod.splits sum.splits)

lemma grows_take_next [grow_intros]: "grows s (snd (take_next g t r now n s))"
  unfolding take_next_def
  by (rule grows_st_bind) (auto intro: grow_intros grows_same_store split: list.splits)

lemma grows_release [grow_intros]: "grows s (release i s)"
  unfolding release_def by (rule grows_trans[OF grows_same_store grows_quiesce]) simp

lemma grows_set_cancel_event: "grows s (upd_op i (\<lambda>x. x\<lparr>op_cancel_event := True\<rparr>) s)"
  by (rule grows_upd_op) (simp add: op_le_def)

lemma grows_cancel [grow_intros]: "grows s (snd (cancel g i n s))"
  unfolding cancel_def
proof (rule grows_st_bind)
  fix u s
  let ?s = "upd_op i (\<lambda>x. x\<lparr>op_cancel_event := True\<rparr>) (settle i Cancelled s)"
  have "grows s ?s" using grows_settle grows_set_cancel_event grows_trans by blast
  moreover have "grows ?s (quiesce i (?s\<lparr>oc_pending := remove1 i (oc_pending ?s)\<rparr>))"
    by (rule grows_trans[OF grows_same_store grows_quiesce]) simp
  ultimately show "grows s (snd (let s = ?s; was_pending = (i \<in> set (oc_pending s));
              s = s\<lparr>oc_pending := remove1 i (oc_pending s)\<rparr>;
              s = (if was_pending then quiesce i s else s)
          in (Inr (), s\<lparr>oc_event :=
                (if list_ex (\<lambda>j. \<not> op_done s j) (oc_pending s) then oc_event s else False)\<rparr>)))"
    by (auto simp: Let_def grows_def intro: grows_trans[unfolded grows_def])
qed (auto intro: grows_same_store split: option.splits sum.splits)

lemma grows_reconcile [grow_intros]: "grows s (snd (reconcile r i s))"
  by (simp add: reconcile_def grows_settle)

lemma grows_prepare_for_execution [grow_intros]:
  "grows s (snd (prepare_for_execution g t r i now n s))"
  by (auto simp: prepare_for_execution_def Let_def reconcile_def
      intro: grows_fail_then grow_intros)

lemma grows_prepare_for_send [grow_intros]: "grows s (snd (prepare_for_send g t r i now n s))"
  by (auto simp: prepare_for_send_def intro: grows_fail_then)

lemma grows_complete [grow_intros]: "grows s (complete i s)"
  unfolding complete_def by (rule grows_store_cong[rotated, OF grows_settle]) simp

lemma grows_record_send [grow_intros]: "grows s (snd (record_send g i n now s))"
  unfolding record_send_def
  by (rule grows_st_bind)
    (auto simp: retire_superseded_fan_echo_for_send_def Let_def op_le_def
      intro!: grows_same_store grows_upd_op split: sum.splits)

lemma grows_record_response_failure [grow_intros]: "grows s (record_response_failure i n e s)"
  unfolding record_response_failure_def by (rule grows_upd_op) (simp add: op_le_def)

lemma grows_requeue [grow_intros]: "grows s (snd (requeue_for_reconciliation g t r i now n s))"
  by (auto simp: requeue_for_reconciliation_def intro: grows_fail_then grows_same_store)

lemma grows_fail_for_shutdown [grow_intros]: "grows s (fail_for_shutdown e captured s)"
proof -
  let ?c = "clear_superseded_fan_echoes s"
  let ?s = "case (case captured of Some i \<Rightarrow> Some i | None \<Rightarrow> oc_active ?c) of
      Some i \<Rightarrow> settle i (Failed e) ?c | None \<Rightarrow> ?c"
  have "grows s ?c" by (simp add: grows_same_store clear_superseded_fan_echoes_def)
  also have "grows ?c ?s" by (auto simp: grows_settle split: option.splits)
  also have "grows ?s (foldl (\<lambda>s i. quiesce i (settle i (Failed e) s)) ?s (oc_pending ?s))"
    by (rule grows_settle_all)
  finally show ?thesis by (simp add: fail_for_shutdown_def Let_def grows_def)
qed

lemma grows_reserve [grow_intros]: "grows s (snd (reserve_active_fan_echo_by_physical g n s))"
  by (auto simp: reserve_active_fan_echo_by_physical_def intro: grows_same_store
      split: option.splits sum.splits)

lemma grows_force_matching: "grows s (force_matching mode s i)"
proof -
  have "grows s (upd_op i (\<lambda>x. x\<lparr>op_force_fan_confirmation := True\<rparr>) s)"
    by (rule grows_upd_op) (simp add: op_le_def)
  then show ?thesis
    by (cases "op_command (op s i) = SetFanMode mode") (simp_all add: force_matching_def grows_def
        store_le_def)
qed

lemma grows_supersede [grow_intros]: "grows s (snd (supersede_active_fan_by_physical g n s))"
proof -
  have "grows s (snd (st_bind (reserve_active_fan_echo_by_physical g n) (\<lambda>_. st_return True)
    (foldl (force_matching mode)
      ((upd_op i (\<lambda>x. x\<lparr>op_cancel_event := True\<rparr>) (settle i (Failed CommandSuperseded) s))
         \<lparr>oc_requiring_confirmation := M\<rparr>) ps)))" (is "grows s (snd (?f (foldl ?g (?h\<lparr>oc_requiring_confirmation := M\<rparr>) ps)))")
    for mode i M ps
  proof -
    have "grows s ?h" using grows_settle grows_set_cancel_event grows_trans by blast
    also have "grows ?h (?h\<lparr>oc_requiring_confirmation := M\<rparr>)" by (simp add: grows_same_store)
    also have "grows (?h\<lparr>oc_requiring_confirmation := M\<rparr>)
        (foldl ?g (?h\<lparr>oc_requiring_confirmation := M\<rparr>) ps)"
      by (rule grows_foldl) (rule grows_force_matching)
    also have "grows (foldl ?g (?h\<lparr>oc_requiring_confirmation := M\<rparr>) ps)
        (snd (?f (foldl ?g (?h\<lparr>oc_requiring_confirmation := M\<rparr>) ps)))"
      by (rule grows_st_bind) (simp_all add: grows_reserve)
    finally show ?thesis .
  qed
  then show ?thesis
    by (auto simp: supersede_active_fan_by_physical_def Let_def split: option.splits command.splits)
qed

lemma grows_discard_reservation [grow_intros]:
  "grows s (snd (discard_active_fan_echo_reservation g n s))"
  by (auto simp: discard_active_fan_echo_reservation_def intro: grows_same_store
      split: option.splits sum.splits)

lemma grows_consume [grow_intros]: "grows s (snd (consume_superseded_fan_echo n f s))"
  by (auto simp: consume_superseded_fan_echo_def intro: grows_same_store)

lemma grows_record_fan_frame [grow_intros]: "grows s (snd (record_fan_frame g n f phase now s))"
proof -
  have "grows s (snd (st_bind m (\<lambda>(physical, matches, mode) s.
      (Inr (Some (d physical matches mode s)), upd_op i (\<lambda>x. x\<lparr>op_observed_fan_frames :=
         op_observed_fan_frames x @ [d physical matches mode s]\<rparr>) s)) s))"
    if "\<And>s. snd (m s) = s" for m i and d :: "bool \<Rightarrow> bool \<Rightarrow> decoded_mode \<Rightarrow> operations \<Rightarrow> fan_frame_detail"
    by (rule grows_st_bind) (auto simp: that op_le_def intro!: grows_upd_op split: prod.splits)
  then show ?thesis by (auto simp: record_fan_frame_def Let_def split: option.splits)
qed

section \<open>Runs\<close>

text \<open>Every call of the controller, with the arguments the client passes; the reducer is shared,
  so a call that consults it carries its current value.\<close>

datatype operations_event =
    EvEnqueue command time command_origin
  | EvTakeNext state_reducer time int
  | EvRelease nat
  | EvPrepareForExecution state_reducer nat time int
  | EvPrepareForSend state_reducer nat time int
  | EvComplete nat
  | EvReconcile state_reducer nat
  | EvSupersede int
  | EvReserve int
  | EvDiscardReservation int
  | EvConsume int bytes
  | EvClearEchoes
  | EvRecordSend nat int time
  | EvRecordResponseFailure nat int exn
  | EvRequeue state_reducer nat time int
  | EvDiscardExpired state_reducer time int
  | EvCancel nat "int option"
  | EvFail state_reducer nat string int
  | EvShutdown exn "nat option"
  | EvRecordFanFrame int bytes string time

fun operations_step ::
    "govee_protocol \<Rightarrow> timing_profile \<Rightarrow> operations \<Rightarrow> operations_event \<Rightarrow> operations" where
  "operations_step g t s (EvEnqueue cmd now origin) = snd (enqueue t cmd now origin s)"
| "operations_step g t s (EvTakeNext r now n) = snd (take_next g t r now n s)"
| "operations_step g t s (EvRelease i) = release i s"
| "operations_step g t s (EvPrepareForExecution r i now n) =
     snd (prepare_for_execution g t r i now n s)"
| "operations_step g t s (EvPrepareForSend r i now n) = snd (prepare_for_send g t r i now n s)"
| "operations_step g t s (EvComplete i) = complete i s"
| "operations_step g t s (EvReconcile r i) = snd (reconcile r i s)"
| "operations_step g t s (EvSupersede n) = snd (supersede_active_fan_by_physical g n s)"
| "operations_step g t s (EvReserve n) = snd (reserve_active_fan_echo_by_physical g n s)"
| "operations_step g t s (EvDiscardReservation n) =
     snd (discard_active_fan_echo_reservation g n s)"
| "operations_step g t s (EvConsume n f) = snd (consume_superseded_fan_echo n f s)"
| "operations_step g t s EvClearEchoes = clear_superseded_fan_echoes s"
| "operations_step g t s (EvRecordSend i n now) = snd (record_send g i n now s)"
| "operations_step g t s (EvRecordResponseFailure i n e) = record_response_failure i n e s"
| "operations_step g t s (EvRequeue r i now n) = snd (requeue_for_reconciliation g t r i now n s)"
| "operations_step g t s (EvDiscardExpired r now n) = snd (discard_expired g t r now n s)"
| "operations_step g t s (EvCancel i n) = snd (cancel g i n s)"
| "operations_step g t s (EvFail r i reason n) = snd (fail g t r i reason n s)"
| "operations_step g t s (EvShutdown e captured) = fail_for_shutdown e captured s"
| "operations_step g t s (EvRecordFanFrame n f phase now) = snd (record_fan_frame g n f phase now s)"

lemma grows_step: "grows s (operations_step g t s e)"
  by (cases e) (simp_all add: grow_intros grows_same_store clear_superseded_fan_echoes_def)

text \<open>What a holder of an operation can read of its future.\<close>

definition settled_outcome :: "operations \<Rightarrow> nat \<Rightarrow> outcome option" where
  "settled_outcome s i = (if i < length (oc_store s) then op_future (op s i) else None)"

interpretation lane: settling_system "operations_step g t" "\<lambda>_. True" settled_outcome for g t
proof unfold_locales
  fix s k v e
  assume "settled_outcome s k = Some v"
  then have "k < length (oc_store s)" "op_future (oc_store s ! k) = Some v"
    by (auto simp: settled_outcome_def op_def split: if_splits)
  then show "settled_outcome (operations_step g t s e) k = Some v"
    using grows_step[of s g t e]
    by (auto simp: settled_outcome_def op_def grows_def store_le_def op_le_def)
qed simp

end
