(* ===== verification/Operations_Lane.thy ===== *)
theory Operations_Lane
  imports Operations Recovery
begin

text \<open>
  The command lane under the client's calling discipline: what the executing client may call
  when, as an inductive relation over the states of the controller, and the invariant every such
  state satisfies.  The discipline is read off \<open>client.py\<close>: one operation executes at a time; a
  send follows a granted \<open>prepare_for_send\<close>; an operation that has to survive a reconnect is
  requeued and released in one step (there is no \<open>await\<close> between the two); shutdown runs after the
  executing task has ended.  Other tasks may enqueue, cancel, or deliver frames at any point.
\<close>

section \<open>Reading updated objects\<close>

lemma op_upd_op: "op (upd_op i f s) j = (if i = j \<and> i < length (oc_store s) then f (op s j) else op s j)"
  by (simp add: op_def upd_op_def upd_at_def nth_list_update)

lemma upd_op_fields [simp]:
  "length (oc_store (upd_op i f s)) = length (oc_store s)"
  "oc_pending (upd_op i f s) = oc_pending s"
  "oc_active (upd_op i f s) = oc_active s"
  "oc_event (upd_op i f s) = oc_event s"
  "oc_superseded_echoes (upd_op i f s) = oc_superseded_echoes s"
  "oc_cancelled_echoes (upd_op i f s) = oc_cancelled_echoes s"
  "oc_next_operation_id (upd_op i f s) = oc_next_operation_id s"
  "oc_requiring_confirmation (upd_op i f s) = oc_requiring_confirmation s"
  "oc_last_diagnostics (upd_op i f s) = oc_last_diagnostics s"
  by (simp_all add: upd_op_def)

lemma op_other_fields [simp]:
  "op (s\<lparr>oc_pending := a\<rparr>) i = op s i" "op (s\<lparr>oc_active := b\<rparr>) i = op s i"
  "op (s\<lparr>oc_event := c\<rparr>) i = op s i" "op (s\<lparr>oc_last_diagnostics := d\<rparr>) i = op s i"
  "op (s\<lparr>oc_superseded_echoes := e\<rparr>) i = op s i" "op (s\<lparr>oc_cancelled_echoes := e\<rparr>) i = op s i"
  "op (s\<lparr>oc_requiring_confirmation := m\<rparr>) i = op s i"
  "op (s\<lparr>oc_next_operation_id := k\<rparr>) i = op s i"
  by (simp_all add: op_def)

lemma op_done_other_fields [simp]:
  "op_done (s\<lparr>oc_pending := a\<rparr>) i = op_done s i" "op_done (s\<lparr>oc_active := b\<rparr>) i = op_done s i"
  "op_done (s\<lparr>oc_event := c\<rparr>) i = op_done s i"
  "op_done (s\<lparr>oc_last_diagnostics := d\<rparr>) i = op_done s i"
  "op_done (s\<lparr>oc_superseded_echoes := e\<rparr>) i = op_done s i"
  "op_done (s\<lparr>oc_cancelled_echoes := e\<rparr>) i = op_done s i"
  "op_done (s\<lparr>oc_requiring_confirmation := m\<rparr>) i = op_done s i"
  "op_done (s\<lparr>oc_next_operation_id := k\<rparr>) i = op_done s i"
  by (simp_all add: op_done_def)

text \<open>Settling and quiescing every operation of a list.\<close>

abbreviation settle_quiesce :: "outcome \<Rightarrow> operations \<Rightarrow> nat list \<Rightarrow> operations" where
  "settle_quiesce v \<equiv> foldl (\<lambda>s i. quiesce i (settle i v s))"

lemmas op_updates = settle_def quiesce_def op_upd_op

lemma settle_quiesce_fields [simp]:
  "length (oc_store (settle_quiesce v s xs)) = length (oc_store s)"
  "oc_pending (settle_quiesce v s xs) = oc_pending s"
  "oc_active (settle_quiesce v s xs) = oc_active s"
  "oc_event (settle_quiesce v s xs) = oc_event s"
  "oc_superseded_echoes (settle_quiesce v s xs) = oc_superseded_echoes s"
  "oc_cancelled_echoes (settle_quiesce v s xs) = oc_cancelled_echoes s"
  "oc_next_operation_id (settle_quiesce v s xs) = oc_next_operation_id s"
  "oc_requiring_confirmation (settle_quiesce v s xs) = oc_requiring_confirmation s"
  by (induction xs arbitrary: s) (simp_all add: op_updates)

lemma settle_fields [simp]:
  "length (oc_store (settle i v s)) = length (oc_store s)"
  "oc_pending (settle i v s) = oc_pending s"
  "oc_active (settle i v s) = oc_active s"
  "oc_next_operation_id (settle i v s) = oc_next_operation_id s"
  by (simp_all add: settle_def)

lemma op_settle:
  "op (settle i v s) j = (if i = j \<and> i < length (oc_store s)
     then (op s j)\<lparr>op_future := fut_settle v (op_future (op s j))\<rparr> else op s j)"
  by (simp add: settle_def op_upd_op)

lemma fut_settle_twice [simp]: "fut_settle v (fut_settle v f) = fut_settle v f"
  by (cases f) simp_all

lemma op_settle_quiesce:
  "op (settle_quiesce v s xs) j =
     (if j \<in> set xs \<and> j < length (oc_store s)
      then (op s j)\<lparr>op_future := fut_settle v (op_future (op s j)), op_quiesced := True\<rparr>
      else op s j)"
  by (induction xs arbitrary: s) (auto simp: op_updates)

lemma op_done_settle_quiesce:
  "op_done (settle_quiesce v s xs) j \<longleftrightarrow> op_done s j \<or> (j \<in> set xs \<and> j < length (oc_store s))"
  by (auto simp: op_done_def op_settle_quiesce fut_done_def fut_settle_def)

lemma force_matching_fields:
  "length (oc_store (force_matching mode s i)) = length (oc_store s)"
  "oc_pending (force_matching mode s i) = oc_pending s"
  "oc_active (force_matching mode s i) = oc_active s"
  "oc_superseded_echoes (force_matching mode s i) = oc_superseded_echoes s"
  "oc_cancelled_echoes (force_matching mode s i) = oc_cancelled_echoes s"
  "oc_next_operation_id (force_matching mode s i) = oc_next_operation_id s"
  "op_command (op (force_matching mode s i) j) = op_command (op s j)"
  "op_future (op (force_matching mode s i) j) = op_future (op s j)"
  "op_send_attempts (op (force_matching mode s i) j) = op_send_attempts (op s j)"
  "op_operation_id (op (force_matching mode s i) j) = op_operation_id (op s j)"
  "op_quiesced (op (force_matching mode s i) j) = op_quiesced (op s j)"
  "op_deadline (op (force_matching mode s i) j) = op_deadline (op s j)"
  by (auto simp: force_matching_def op_upd_op)

lemma force_all_fields [simp]:
  "length (oc_store (foldl (force_matching mode) s xs)) = length (oc_store s)"
  "oc_pending (foldl (force_matching mode) s xs) = oc_pending s"
  "oc_active (foldl (force_matching mode) s xs) = oc_active s"
  "oc_superseded_echoes (foldl (force_matching mode) s xs) = oc_superseded_echoes s"
  "oc_cancelled_echoes (foldl (force_matching mode) s xs) = oc_cancelled_echoes s"
  "oc_next_operation_id (foldl (force_matching mode) s xs) = oc_next_operation_id s"
  "op_command (op (foldl (force_matching mode) s xs) j) = op_command (op s j)"
  "op_future (op (foldl (force_matching mode) s xs) j) = op_future (op s j)"
  "op_send_attempts (op (foldl (force_matching mode) s xs) j) = op_send_attempts (op s j)"
  "op_operation_id (op (foldl (force_matching mode) s xs) j) = op_operation_id (op s j)"
  "op_quiesced (op (foldl (force_matching mode) s xs) j) = op_quiesced (op s j)"
  "op_deadline (op (foldl (force_matching mode) s xs) j) = op_deadline (op s j)"
  by (induction xs arbitrary: s) (simp_all add: force_matching_fields)

section \<open>Failure of encodable commands\<close>

definition encodable :: "govee_protocol \<Rightarrow> command \<Rightarrow> bool" where
  "encodable g cmd \<longleftrightarrow> (\<exists>f. command_echo g cmd = Inr f)"

lemma fail_encodable:
  assumes "encodable g (op_command (op s i))"
  obtains d where "fail g t r i reason n s =
    (Inr CommandDeadlineExceeded,
     settle i (Failed CommandDeadlineExceeded) (s\<lparr>oc_last_diagnostics := Some d\<rparr>))"
  using assms
  by (auto simp: encodable_def fail_def st_bind_def failure_error_def diagnostic_summary_def)

lemma settle_last_diagnostics:
  "settle i v (s\<lparr>oc_last_diagnostics := d\<rparr>) = (settle i v s)\<lparr>oc_last_diagnostics := d\<rparr>"
  "quiesce i (s\<lparr>oc_last_diagnostics := d\<rparr>) = (quiesce i s)\<lparr>oc_last_diagnostics := d\<rparr>"
  "settle_quiesce v (s\<lparr>oc_last_diagnostics := d\<rparr>) xs =
     (settle_quiesce v s xs)\<lparr>oc_last_diagnostics := d\<rparr>"
proof -
  show a: "settle i v (s\<lparr>oc_last_diagnostics := d\<rparr>) = (settle i v s)\<lparr>oc_last_diagnostics := d\<rparr>"
    "quiesce i (s\<lparr>oc_last_diagnostics := d\<rparr>) = (quiesce i s)\<lparr>oc_last_diagnostics := d\<rparr>" for i s
    by (simp_all add: settle_def quiesce_def upd_op_def)
  show "settle_quiesce v (s\<lparr>oc_last_diagnostics := d\<rparr>) xs =
     (settle_quiesce v s xs)\<lparr>oc_last_diagnostics := d\<rparr>"
    by (induction xs arbitrary: s) (simp_all add: a)
qed

lemma settle_pending:
  "quiesce i (settle i v (s\<lparr>oc_pending := ps\<rparr>)) = (quiesce i (settle i v s))\<lparr>oc_pending := ps\<rparr>"
  by (simp add: settle_def quiesce_def upd_op_def)

lemma settle_quiesce_reset:
  "(settle_quiesce v (a\<lparr>oc_pending := ps, oc_last_diagnostics := e\<rparr>) xs)
      \<lparr>oc_pending := [], oc_last_diagnostics := d\<rparr> =
   (settle_quiesce v a xs)\<lparr>oc_pending := [], oc_last_diagnostics := d\<rparr>"
proof (induction xs arbitrary: a)
  case (Cons i xs)
  have "quiesce i (settle i v (a\<lparr>oc_pending := ps, oc_last_diagnostics := e\<rparr>)) =
      (quiesce i (settle i v a))\<lparr>oc_pending := ps, oc_last_diagnostics := e\<rparr>"
    by (simp add: settle_def quiesce_def upd_op_def)
  with Cons show ?case by simp
qed simp

text \<open>For encodable commands the expiry loop never raises: it keeps the unexpired operations in
  order and fails and quiesces the others.\<close>

abbreviation unexpired :: "time \<Rightarrow> operations \<Rightarrow> nat \<Rightarrow> bool" where
  "unexpired now s i \<equiv> now < op_deadline (op s i)"

lemma discard_loop_encodable:
  assumes "distinct ps" "\<forall>i \<in> set ps. i < length (oc_store s) \<and>
      encodable g (op_command (op s i)) \<and> \<not> op_done s i"
  shows "\<exists>d. discard_loop g t r now n ps retained s =
    (Inr (retained @ filter (unexpired now s) ps),
     (settle_quiesce (Failed CommandDeadlineExceeded) s (filter (\<lambda>i. \<not> unexpired now s i) ps))
       \<lparr>oc_pending := [], oc_last_diagnostics := d\<rparr>)"
  using assms
proof (induction ps arbitrary: retained s)
  case Nil
  show ?case by (intro exI[of _ "oc_last_diagnostics s"]) simp
next
  case (Cons i ps)
  then have i: "encodable g (op_command (op s i))" "\<not> op_done s i" "i < length (oc_store s)" by auto
  show ?case
  proof (cases "unexpired now s i")
    case True
    with Cons.IH[of s "retained @ [i]"] Cons.prems i show ?thesis by (auto simp: not_le)
  next
    case False
    obtain d where f: "fail g t r i ''Command deadline expired while queued'' n
        (s\<lparr>oc_pending := ps\<rparr>) = (Inr CommandDeadlineExceeded,
        settle i (Failed CommandDeadlineExceeded)
          (s\<lparr>oc_pending := ps\<rparr>\<lparr>oc_last_diagnostics := Some d\<rparr>))"
      using fail_encodable[of g "s\<lparr>oc_pending := ps\<rparr>" i t r "''Command deadline expired while queued''" n]
        i(1) by auto
    let ?s = "quiesce i (settle i (Failed CommandDeadlineExceeded)
          (s\<lparr>oc_pending := ps\<rparr>\<lparr>oc_last_diagnostics := Some d\<rparr>))"
    let ?q = "quiesce i (settle i (Failed CommandDeadlineExceeded) s)"
    have s: "?s = ?q\<lparr>oc_pending := ps, oc_last_diagnostics := Some d\<rparr>"
      by (simp add: settle_def quiesce_def upd_op_def)
    have pre: "j < length (oc_store ?s) \<and> encodable g (op_command (op ?s j)) \<and> \<not> op_done ?s j"
      "unexpired now ?s j = unexpired now s j" if "j \<in> set ps" for j
    proof -
      from that Cons.prems(1) have "j \<noteq> i" by auto
      with that Cons.prems(2) show
        "j < length (oc_store ?s) \<and> encodable g (op_command (op ?s j)) \<and> \<not> op_done ?s j"
        "unexpired now ?s j = unexpired now s j"
        by (simp_all add: s) (simp_all add: op_updates op_done_def)
    qed
    obtain d' where d': "discard_loop g t r now n ps retained ?s =
      (Inr (retained @ filter (unexpired now ?s) ps),
       (settle_quiesce (Failed CommandDeadlineExceeded) ?s (filter (\<lambda>i. \<not> unexpired now ?s i) ps))
         \<lparr>oc_pending := [], oc_last_diagnostics := d'\<rparr>)"
      using Cons.IH[of ?s retained] Cons.prems(1) pre(1) by auto
    have fs: "filter (unexpired now ?s) ps = filter (unexpired now s) ps"
      "filter (\<lambda>i. \<not> unexpired now ?s i) ps = filter (\<lambda>i. \<not> unexpired now s i) ps"
      using pre(2) by (auto intro: filter_cong)
    have "discard_loop g t r now n ps retained ?s =
      (Inr (retained @ filter (unexpired now s) ps),
       (settle_quiesce (Failed CommandDeadlineExceeded) ?q (filter (\<lambda>i. \<not> unexpired now s i) ps))
         \<lparr>oc_pending := [], oc_last_diagnostics := d'\<rparr>)"
      using d' unfolding fs unfolding s settle_quiesce_reset .
    with False i(2) f show ?thesis by (intro exI[of _ d']) (simp add: not_less)
  qed
qed

section \<open>The calling discipline\<close>

text \<open>The second state component is the send grant: the operation for which \<open>prepare_for_send\<close> last
  returned true and whose send has not been recorded yet.\<close>

inductive lane_run ::
    "govee_protocol \<Rightarrow> timing_profile \<Rightarrow> operations \<Rightarrow> nat option \<Rightarrow> bool" for g t where
  start: "lane_run g t new_operations None"
| enqueue: "lane_run g t s p \<Longrightarrow> encodable g cmd \<Longrightarrow>
    lane_run g t (snd (enqueue t cmd now origin s)) p"
| take: "lane_run g t s p \<Longrightarrow> lane_run g t (snd (take_next g t r now n s)) p"
| prepare: "lane_run g t s p \<Longrightarrow> oc_active s = Some i \<Longrightarrow>
    lane_run g t (snd (prepare_for_execution g t r i now n s)) p"
| grant: "lane_run g t s p \<Longrightarrow> oc_active s = Some i \<Longrightarrow>
    prepare_for_send g t r i now n s = (res, s') \<Longrightarrow>
    lane_run g t s' (if res = Inr True then Some i else None)"
| send: "lane_run g t s (Some i) \<Longrightarrow> lane_run g t (snd (record_send g i n now s)) None"
| silence: "lane_run g t s p \<Longrightarrow> oc_active s = Some i \<Longrightarrow>
    lane_run g t (record_response_failure i n e s) p"
| expire: "lane_run g t s p \<Longrightarrow> oc_active s = Some i \<Longrightarrow>
    lane_run g t (snd (fail g t r i reason n s)) p"
| confirm: "lane_run g t s p \<Longrightarrow> oc_active s = Some i \<Longrightarrow> lane_run g t (complete i s) p"
| finish: "lane_run g t s p \<Longrightarrow> oc_active s = Some i \<Longrightarrow> lane_run g t (release i s) None"
| recover: "lane_run g t s p \<Longrightarrow> oc_active s = Some i \<Longrightarrow>
    lane_run g t (release i (snd (requeue_for_reconciliation g t r i now n s))) None"
| abandon: "lane_run g t s p \<Longrightarrow> i < length (oc_store s) \<Longrightarrow>
    lane_run g t (snd (cancel g i n s)) p"
| report: "lane_run g t s p \<Longrightarrow> i < length (oc_store s) \<Longrightarrow>
    lane_run g t (snd (failure_error g t r i reason n s)) p"
| physical: "lane_run g t s p \<Longrightarrow> lane_run g t (snd (supersede_active_fan_by_physical g n s)) p"
| reserve: "lane_run g t s p \<Longrightarrow> lane_run g t (snd (reserve_active_fan_echo_by_physical g n s)) p"
| unreserve: "lane_run g t s p \<Longrightarrow>
    lane_run g t (snd (discard_active_fan_echo_reservation g n s)) p"
| echo: "lane_run g t s p \<Longrightarrow> lane_run g t (snd (consume_superseded_fan_echo n f s)) p"
| reconnect: "lane_run g t s p \<Longrightarrow> lane_run g t (clear_superseded_fan_echoes s) p"
| frame: "lane_run g t s p \<Longrightarrow> lane_run g t (snd (record_fan_frame g n f phase now s)) p"
| shutdown: "lane_run g t s p \<Longrightarrow> oc_active s = None \<Longrightarrow>
    (\<forall>i. captured = Some i \<longrightarrow> i < length (oc_store s)) \<Longrightarrow>
    lane_run g t (fail_for_shutdown e captured s) None"

section \<open>The invariant\<close>

definition queue_ok :: "operations \<Rightarrow> bool" where
  "queue_ok s \<longleftrightarrow>
     distinct (oc_pending s) \<and> (\<forall>i \<in> set (oc_pending s). i < length (oc_store s) \<and> \<not> op_done s i) \<and>
     (\<forall>i. oc_active s = Some i \<longrightarrow> i < length (oc_store s) \<and> i \<notin> set (oc_pending s))"

definition released_ok :: "operations \<Rightarrow> bool" where
  "released_ok s \<longleftrightarrow>
     (\<forall>i < length (oc_store s). i \<notin> set (oc_pending s) \<longrightarrow> oc_active s \<noteq> Some i \<longrightarrow>
        op_quiesced (op s i))"

definition budget_ok :: "govee_protocol \<Rightarrow> timing_profile \<Rightarrow> operations \<Rightarrow> bool" where
  "budget_ok g t s \<longleftrightarrow>
     oc_next_operation_id s = length (oc_store s) \<and>
     (\<forall>i < length (oc_store s). encodable g (op_command (op s i)) \<and> op_operation_id (op s i) = Suc i \<and>
        0 \<le> op_send_attempts (op s i) \<and> op_send_attempts (op s i) \<le> command_send_attempts t)"

definition echoes_ok :: "operations \<Rightarrow> bool" where
  "echoes_ok s \<longleftrightarrow> length (oc_superseded_echoes s) \<le> MAX_SUPERSEDED_FAN_ECHOES \<and>
     length (oc_cancelled_echoes s) \<le> MAX_SUPERSEDED_FAN_ECHOES"

definition grant_ok :: "timing_profile \<Rightarrow> operations \<Rightarrow> nat option \<Rightarrow> bool" where
  "grant_ok t s p \<longleftrightarrow>
     (\<forall>i. p = Some i \<longrightarrow> oc_active s = Some i \<and> op_send_attempts (op s i) < command_send_attempts t)"

definition lane_inv :: "govee_protocol \<Rightarrow> timing_profile \<Rightarrow> operations \<Rightarrow> nat option \<Rightarrow> bool" where
  "lane_inv g t s p \<longleftrightarrow>
     queue_ok s \<and> released_ok s \<and> budget_ok g t s \<and> echoes_ok s \<and> grant_ok t s p"

lemmas lane_inv_defs = queue_ok_def released_ok_def budget_ok_def echoes_ok_def grant_ok_def

text \<open>A step that leaves queue and echoes alone and changes no operation beyond evidence, flags and
  the future of the operation that executes keeps the invariant.\<close>

definition quiet_change :: "operations \<Rightarrow> operations \<Rightarrow> nat option \<Rightarrow> bool" where
  "quiet_change s s' a \<longleftrightarrow>
     length (oc_store s') = length (oc_store s) \<and> oc_pending s' = oc_pending s \<and>
     oc_active s' = oc_active s \<and> oc_next_operation_id s' = oc_next_operation_id s \<and>
     (\<forall>i < length (oc_store s).
        op_command (op s' i) = op_command (op s i) \<and>
        op_operation_id (op s' i) = op_operation_id (op s i) \<and>
        op_send_attempts (op s' i) = op_send_attempts (op s i) \<and>
        (op_quiesced (op s i) \<longrightarrow> op_quiesced (op s' i)) \<and>
        (a = Some i \<or> op_future (op s' i) = op_future (op s i)))"

lemma quiet_change_inv:
  assumes inv: "lane_inv g t s p" and q: "quiet_change s s' (oc_active s)" and e: "echoes_ok s'"
  shows "lane_inv g t s' p"
proof -
  have len: "length (oc_store s') = length (oc_store s)" "oc_pending s' = oc_pending s"
    "oc_active s' = oc_active s" "oc_next_operation_id s' = oc_next_operation_id s"
    using q by (simp_all add: quiet_change_def)
  have at_i: "op_command (op s' i) = op_command (op s i)"
    "op_operation_id (op s' i) = op_operation_id (op s i)"
    "op_send_attempts (op s' i) = op_send_attempts (op s i)"
    "op_quiesced (op s i) \<Longrightarrow> op_quiesced (op s' i)"
    "oc_active s \<noteq> Some i \<Longrightarrow> op_future (op s' i) = op_future (op s i)"
    if "i < length (oc_store s)" for i
    using q that by (auto simp: quiet_change_def)
  have "\<not> op_done s' i" if "i \<in> set (oc_pending s)" for i
  proof -
    from inv that have "i < length (oc_store s)" "oc_active s \<noteq> Some i" "\<not> op_done s i"
      by (auto simp: lane_inv_def queue_ok_def)
    then show ?thesis using at_i(5)[of i] by (simp add: op_done_def)
  qed
  then have "queue_ok s'"
    using inv by (auto simp: lane_inv_def queue_ok_def len)
  moreover have "released_ok s'"
    using inv by (auto simp: lane_inv_def released_ok_def len intro: at_i(4))
  moreover have "budget_ok g t s'"
    using inv by (simp add: lane_inv_def budget_ok_def len at_i)
  moreover have "grant_ok t s' p"
    using inv by (auto simp: lane_inv_def grant_ok_def queue_ok_def len at_i(3))
  ultimately show ?thesis using e by (simp add: lane_inv_def)
qed

lemma quiet_change_refl: "quiet_change s s a"
  by (simp add: quiet_change_def)

lemma quiet_change_trans: "quiet_change a b x \<Longrightarrow> quiet_change b c x \<Longrightarrow> quiet_change a c x"
  unfolding quiet_change_def by (metis (no_types, lifting))

lemma quiet_settle: "quiet_change s (settle i v s) (Some i)"
  by (simp add: quiet_change_def op_updates)

lemma quiet_diagnostics: "quiet_change s (s\<lparr>oc_last_diagnostics := d\<rparr>) a"
  by (simp add: quiet_change_def)

lemma quiet_upd_op:
  assumes "\<And>x. op_command (f x) = op_command x" "\<And>x. op_operation_id (f x) = op_operation_id x"
    "\<And>x. op_send_attempts (f x) = op_send_attempts x" "\<And>x. op_quiesced x \<Longrightarrow> op_quiesced (f x)"
    "\<And>x. op_future (f x) = op_future x"
  shows "quiet_change s (upd_op i f s) a"
  using assms by (simp add: quiet_change_def op_upd_op)

lemma quiet_failure_error: "quiet_change s (snd (failure_error g t r i reason n s)) a"
  by (auto simp: failure_error_def quiet_change_refl quiet_diagnostics split: sum.splits)

lemma quiet_fail: "quiet_change s (snd (fail g t r i reason n s)) (Some i)"
  using quiet_failure_error[of s g t r i reason n "Some i"] quiet_settle[of _ i]
  by (auto simp: fail_def st_bind_def intro: quiet_change_trans split: prod.splits sum.splits)

lemma quiet_fail_then:
  "quiet_change s (snd (st_bind (fail g t r i reason n) (\<lambda>_. st_return b) s)) (Some i)"
  using quiet_fail[of s g t r i reason n] by (auto simp: st_bind_def split: prod.splits sum.splits)

lemma echoes_same:
  "oc_superseded_echoes s' = oc_superseded_echoes s \<Longrightarrow>
   oc_cancelled_echoes s' = oc_cancelled_echoes s \<Longrightarrow> echoes_ok s \<Longrightarrow> echoes_ok s'"
  by (simp add: echoes_ok_def)

lemma echoes_failure_error:
  "oc_superseded_echoes (snd (failure_error g t r i reason n s)) = oc_superseded_echoes s"
  "oc_cancelled_echoes (snd (failure_error g t r i reason n s)) = oc_cancelled_echoes s"
  by (simp_all add: failure_error_def split: sum.splits)

lemma echoes_settle [simp]:
  "oc_superseded_echoes (settle i v s) = oc_superseded_echoes s"
  "oc_cancelled_echoes (settle i v s) = oc_cancelled_echoes s"
  "oc_superseded_echoes (quiesce i s) = oc_superseded_echoes s"
  "oc_cancelled_echoes (quiesce i s) = oc_cancelled_echoes s"
  by (simp_all add: settle_def quiesce_def)

lemma echoes_fail:
  "oc_superseded_echoes (snd (fail g t r i reason n s)) = oc_superseded_echoes s"
  "oc_cancelled_echoes (snd (fail g t r i reason n s)) = oc_cancelled_echoes s"
  using echoes_failure_error[of g t r i reason n s]
  by (auto simp: fail_def st_bind_def split: prod.splits sum.splits)

lemma echoes_fail_then:
  "oc_superseded_echoes (snd (st_bind (fail g t r i reason n) (\<lambda>_. st_return b) s)) =
     oc_superseded_echoes s"
  "oc_cancelled_echoes (snd (st_bind (fail g t r i reason n) (\<lambda>_. st_return b) s)) =
     oc_cancelled_echoes s"
  using echoes_fail[of g t r i reason n s] by (auto simp: st_bind_def split: prod.splits sum.splits)

text \<open>Steps of the executing operation.\<close>

lemma lane_inv_active_step:
  assumes "lane_inv g t s p" "oc_active s = Some i" "quiet_change s s' (Some i)"
    "oc_superseded_echoes s' = oc_superseded_echoes s"
    "oc_cancelled_echoes s' = oc_cancelled_echoes s"
  shows "lane_inv g t s' p"
proof (rule quiet_change_inv[OF assms(1)])
  show "quiet_change s s' (oc_active s)" using assms(2,3) by simp
  show "echoes_ok s'" using assms(1,4,5) by (auto simp: lane_inv_def intro: echoes_same)
qed

lemma lane_inv_fail:
  assumes "lane_inv g t s p" "oc_active s = Some i"
  shows "lane_inv g t (snd (fail g t r i reason n s)) p"
    "lane_inv g t (snd (st_bind (fail g t r i reason n) (\<lambda>_. st_return b) s)) p"
  by (rule lane_inv_active_step[OF assms]; rule quiet_fail echoes_fail quiet_fail_then echoes_fail_then)+

lemma lane_inv_settle_active:
  assumes "lane_inv g t s p" "oc_active s = Some i"
  shows "lane_inv g t (settle i v s) p"
  by (rule lane_inv_active_step[OF assms quiet_settle]) simp_all

lemma lane_inv_prepare:
  assumes "lane_inv g t s p" "oc_active s = Some i"
  shows "lane_inv g t (snd (prepare_for_execution g t r i now n s)) p"
  by (simp add: prepare_for_execution_def Let_def reconcile_def assms(1) lane_inv_fail[OF assms]
      lane_inv_settle_active[OF assms])

lemma lane_inv_grant:
  assumes "lane_inv g t s p" "oc_active s = Some i" "prepare_for_send g t r i now n s = (res, s')"
  shows "lane_inv g t s' (if res = Inr True then Some i else None)"
proof -
  have "lane_inv g t s' p"
    using assms lane_inv_fail(2)[OF assms(1,2), where b = False]
    by (auto simp: prepare_for_send_def split: if_splits dest!: arg_cong[where f = snd])
  moreover have "grant_ok t s' (if res = Inr True then Some i else None)"
  proof (cases "res = Inr True")
    case True
    with assms(2,3) have "s' = s" "op_send_attempts (op s i) < command_send_attempts t"
      by (auto simp: prepare_for_send_def st_bind_def split: if_splits prod.splits sum.splits)
    with assms(2) show ?thesis by (simp add: grant_ok_def)
  qed (simp add: grant_ok_def)
  ultimately show ?thesis by (simp add: lane_inv_def)
qed

lemma lane_inv_send:
  assumes "lane_inv g t s (Some i)"
  shows "lane_inv g t (snd (record_send g i n now s)) None"
proof -
  let ?s = "snd (retire_superseded_fan_echo_for_send g i n s)"
  have i: "i < length (oc_store s)" "encodable g (op_command (op s i))"
    "op_send_attempts (op s i) < command_send_attempts t"
    using assms by (auto simp: lane_inv_def grant_ok_def queue_ok_def budget_ok_def)
  have r: "\<exists>a b. retire_superseded_fan_echo_for_send g i n s =
      (Inr (), s\<lparr>oc_cancelled_echoes := a, oc_superseded_echoes := b\<rparr>) \<and>
      length a \<le> length (oc_cancelled_echoes s) \<and> length b \<le> length (oc_superseded_echoes s)"
  proof (cases "is_SetFanMode (op_command (op s i))")
    case False
    then show ?thesis
      by (intro exI[of _ "oc_cancelled_echoes s"] exI[of _ "oc_superseded_echoes s"])
        (simp add: retire_superseded_fan_echo_for_send_def)
  next
    case True
    from i(2) obtain f where f: "command_echo g (op_command (op s i)) = Inr f"
      by (auto simp: encodable_def)
    let ?a = "filter (\<lambda>x. x \<noteq> (n, f)) (oc_cancelled_echoes s)"
    let ?b = "if op_force_fan_confirmation (op s i)
      then filter (\<lambda>x. x \<noteq> (n, f)) (oc_superseded_echoes s) else oc_superseded_echoes s"
    from True f show ?thesis
      by (intro exI[of _ ?a] exI[of _ ?b])
        (simp add: retire_superseded_fan_echo_for_send_def Let_def)
  qed
  then obtain a b where ab: "retire_superseded_fan_echo_for_send g i n s =
      (Inr (), s\<lparr>oc_cancelled_echoes := a, oc_superseded_echoes := b\<rparr>)"
    "length a \<le> length (oc_cancelled_echoes s)" "length b \<le> length (oc_superseded_echoes s)"
    by blast
  let ?f = "\<lambda>x. x\<lparr>op_send_attempts := op_send_attempts x + 1,
     op_send_diagnostics := op_send_diagnostics x @ [(op_send_attempts x + 1, n, op_elapsed x now)]\<rparr>"
  have rs: "snd (record_send g i n now s) =
      upd_op i ?f (s\<lparr>oc_cancelled_echoes := a, oc_superseded_echoes := b\<rparr>)"
    by (simp add: record_send_def st_bind_def ab(1))
  from assms ab(2,3) i show ?thesis unfolding rs
    by (auto simp: lane_inv_def lane_inv_defs op_upd_op op_done_def)
qed

lemma lane_inv_silence:
  "lane_inv g t s p \<Longrightarrow> oc_active s = Some i \<Longrightarrow>
   lane_inv g t (record_response_failure i n e s) p"
  by (rule lane_inv_active_step) (simp_all add: record_response_failure_def quiet_upd_op)

lemma lane_inv_diagnostics:
  "lane_inv g t (s\<lparr>oc_last_diagnostics := d\<rparr>) p = lane_inv g t s p"
  by (simp add: lane_inv_def lane_inv_defs)

lemma lane_inv_complete:
  "lane_inv g t s p \<Longrightarrow> oc_active s = Some i \<Longrightarrow> lane_inv g t (complete i s) p"
  by (simp add: complete_def lane_inv_diagnostics lane_inv_settle_active)

lemma lane_inv_event: "lane_inv g t (s\<lparr>oc_event := e\<rparr>) p = lane_inv g t s p"
  by (simp add: lane_inv_def lane_inv_defs)

lemma lane_inv_release:
  assumes "lane_inv g t s p" "oc_active s = Some i"
  shows "lane_inv g t (release i s) None"
  using assms
  by (auto simp: lane_inv_def lane_inv_defs release_def quiesce_def op_upd_op op_done_def)

text \<open>Requeueing the executing operation and releasing it keeps the invariant, because the queue
  takes it back before the execution gives it up.\<close>

lemma lane_inv_recover:
  assumes "lane_inv g t s p" "oc_active s = Some i"
  shows "lane_inv g t (release i (snd (requeue_for_reconciliation g t r i now n s))) None"
proof (cases "op_done s i \<or> op_deadline (op s i) \<le> now")
  case True
  then show ?thesis
  proof (cases "op_done s i")
    case True
    with assms show ?thesis by (simp add: requeue_for_reconciliation_def lane_inv_release)
  next
    case False
    let ?s = "snd (st_bind (fail g t r i ''Command deadline expired during recovery'' n)
       (\<lambda>_. st_return ()) s)"
    have "oc_active ?s = oc_active s"
      using quiet_fail_then[of s g t r i "''Command deadline expired during recovery''" n "()"]
      by (simp add: quiet_change_def)
    with False True assms lane_inv_release[OF lane_inv_fail(2)[OF assms]] show ?thesis
      by (simp add: requeue_for_reconciliation_def)
  qed
next
  case False
  with assms show ?thesis
    by (auto simp: requeue_for_reconciliation_def lane_inv_def lane_inv_defs release_def
        quiesce_def op_upd_op op_done_def)
qed

text \<open>Steps of the queue.\<close>

lemma lane_inv_remove:
  assumes "lane_inv g t s p"
  shows "lane_inv g t ((settle_quiesce v s (filter P (oc_pending s)))
     \<lparr>oc_pending := filter (\<lambda>i. \<not> P i) (oc_pending s)\<rparr>) p"
  using assms
  by (auto simp: lane_inv_def lane_inv_defs op_settle_quiesce op_done_settle_quiesce)

lemma discard_expired_encodable:
  assumes "lane_inv g t s p"
  shows "\<exists>d e. discard_expired g t r now n s =
    (Inr (), (settle_quiesce (Failed CommandDeadlineExceeded) s
        (filter (\<lambda>i. \<not> unexpired now s i) (oc_pending s)))
      \<lparr>oc_pending := filter (unexpired now s) (oc_pending s), oc_last_diagnostics := d,
       oc_event := e\<rparr>)"
proof -
  have "distinct (oc_pending s)" "\<forall>i \<in> set (oc_pending s). i < length (oc_store s) \<and>
      encodable g (op_command (op s i)) \<and> \<not> op_done s i"
    using assms by (auto simp: lane_inv_def lane_inv_defs)
  from discard_loop_encodable[OF this, of t r now n "[]"] obtain d where
    "discard_loop g t r now n (oc_pending s) [] s =
      (Inr (filter (unexpired now s) (oc_pending s)),
       (settle_quiesce (Failed CommandDeadlineExceeded) s
          (filter (\<lambda>i. \<not> unexpired now s i) (oc_pending s)))
         \<lparr>oc_pending := [], oc_last_diagnostics := d\<rparr>)" by auto
  then show ?thesis
    by (intro exI[of _ d] exI[of _ "if filter (unexpired now s) (oc_pending s) = [] then False
         else oc_event s"]) (simp add: discard_expired_def)
qed

lemma take_next_encodable:
  assumes "lane_inv g t s p"
  shows "\<exists>d e. let s' = (settle_quiesce (Failed CommandDeadlineExceeded) s
        (filter (\<lambda>i. \<not> unexpired now s i) (oc_pending s)))
      \<lparr>oc_pending := filter (unexpired now s) (oc_pending s), oc_last_diagnostics := d,
       oc_event := e\<rparr>
    in take_next g t r now n s =
      (case filter (unexpired now s) (oc_pending s) of
         [] \<Rightarrow> (Inr None, s')
       | i # rest \<Rightarrow> if oc_active s \<noteq> None then (Inr None, s')
           else (Inr (Some i), s'\<lparr>oc_pending := rest, oc_active := Some i\<rparr>))"
proof -
  obtain d e where "discard_expired g t r now n s =
    (Inr (), (settle_quiesce (Failed CommandDeadlineExceeded) s
        (filter (\<lambda>i. \<not> unexpired now s i) (oc_pending s)))
      \<lparr>oc_pending := filter (unexpired now s) (oc_pending s), oc_last_diagnostics := d,
       oc_event := e\<rparr>)"
    using discard_expired_encodable[OF assms] by blast
  then show ?thesis
    by (intro exI[of _ d] exI[of _ e])
      (simp add: take_next_def st_bind_def Let_def split: list.split)
qed

lemma lane_inv_activate:
  assumes "lane_inv g t s p" "oc_pending s = i # rest" "oc_active s = None"
  shows "lane_inv g t (s\<lparr>oc_pending := rest, oc_active := Some i\<rparr>) p"
  using assms by (auto simp: lane_inv_def lane_inv_defs)

lemma lane_inv_take:
  assumes "lane_inv g t s p"
  shows "lane_inv g t (snd (take_next g t r now n s)) p"
proof -
  obtain d e where t: "let s' = (settle_quiesce (Failed CommandDeadlineExceeded) s
        (filter (\<lambda>i. \<not> unexpired now s i) (oc_pending s)))
      \<lparr>oc_pending := filter (unexpired now s) (oc_pending s), oc_last_diagnostics := d,
       oc_event := e\<rparr>
    in take_next g t r now n s =
      (case filter (unexpired now s) (oc_pending s) of
         [] \<Rightarrow> (Inr None, s')
       | i # rest \<Rightarrow> if oc_active s \<noteq> None then (Inr None, s')
           else (Inr (Some i), s'\<lparr>oc_pending := rest, oc_active := Some i\<rparr>))"
    using take_next_encodable[OF assms] by blast
  let ?s = "(settle_quiesce (Failed CommandDeadlineExceeded) s
        (filter (\<lambda>i. \<not> unexpired now s i) (oc_pending s)))
      \<lparr>oc_pending := filter (unexpired now s) (oc_pending s), oc_last_diagnostics := d,
       oc_event := e\<rparr>"
  have inv: "lane_inv g t ?s p"
    using lane_inv_remove[OF assms, where v = "Failed CommandDeadlineExceeded" and
        P = "\<lambda>i. \<not> unexpired now s i"]
      lane_inv_event lane_inv_diagnostics by simp
  show ?thesis
  proof (cases "filter (unexpired now s) (oc_pending s)")
    case Nil
    with t inv show ?thesis by (simp add: Let_def)
  next
    case (Cons i rest)
    with t inv lane_inv_activate[OF inv, of i rest] show ?thesis
      by (cases "oc_active s") (simp_all add: Let_def)
  qed
qed

lemma coalesce_pending_eq:
  "coalesce_pending cmd s =
     (settle_quiesce (Failed CommandSuperseded) s (filter (superseded_by cmd s) (oc_pending s)))
       \<lparr>oc_pending := filter (\<lambda>i. \<not> superseded_by cmd s i) (oc_pending s)\<rparr>"
  by (simp add: coalesce_pending_def Let_def)

lemma superseded_by_append:
  "i < length (oc_store s) \<Longrightarrow> superseded_by cmd (s\<lparr>oc_store := oc_store s @ xs\<rparr>) i = superseded_by cmd s i"
  by (simp add: superseded_by_def op_done_def op_def nth_append)

text \<open>The state after \<open>enqueue\<close>, read off field by field.\<close>

lemma enqueue_state:
  assumes "lane_inv g t s p" and s'_def: "s' = snd (enqueue t cmd now origin s)"
  shows "length (oc_store s') = Suc (length (oc_store s))"
    "fst (enqueue t cmd now origin s) = length (oc_store s)"
    "oc_pending s' =
       filter (\<lambda>i. \<not> superseded_by cmd s i) (oc_pending s) @ [length (oc_store s)]"
    "oc_active s' = oc_active s"
    "oc_next_operation_id s' = Suc (oc_next_operation_id s)"
    "oc_superseded_echoes s' = oc_superseded_echoes s"
    "oc_cancelled_echoes s' = oc_cancelled_echoes s"
    "\<And>i. i < length (oc_store s) \<Longrightarrow> op s' i =
       (if i \<in> set (oc_pending s) \<and> superseded_by cmd s i
        then (op s i)\<lparr>op_future := Some (Failed CommandSuperseded), op_quiesced := True\<rparr>
        else op s i)"
    "op_command (op s' (length (oc_store s))) = cmd"
    "op_future (op s' (length (oc_store s))) = None"
    "op_send_attempts (op s' (length (oc_store s))) = 0"
    "op_operation_id (op s' (length (oc_store s))) = Suc (oc_next_operation_id s)"
    "op_deadline (op s' (length (oc_store s))) = now + command_deadline t"
proof -
  have pend: "i < length (oc_store s)" if "i \<in> set (oc_pending s)" for i
    using assms(1) that by (simp add: lane_inv_def queue_ok_def)
  let ?n = "length (oc_store s)"
  define new where "new = \<lparr>op_command = cmd, op_future = fut_pending,
     op_deadline = now + command_deadline t, op_send_attempts = 0, op_created_at = now,
     op_send_diagnostics = [], op_response_failures = [], op_observed_fan_frames = [],
     op_operation_id = oc_next_operation_id s + 1, op_origin = origin, op_cancel_event = False,
     op_quiesced = False, op_force_fan_confirmation = forces_confirmation cmd s\<rparr>"
  define a where "a = discard_confirmation cmd (s\<lparr>oc_next_operation_id := oc_next_operation_id s + 1\<rparr>)"
  define b where "b = a\<lparr>oc_store := oc_store a @ [new]\<rparr>"
  have a: "oc_store a = oc_store s" "oc_pending a = oc_pending s" "oc_active a = oc_active s"
    "oc_next_operation_id a = Suc (oc_next_operation_id s)"
    "oc_superseded_echoes a = oc_superseded_echoes s" "oc_cancelled_echoes a = oc_cancelled_echoes s"
    by (simp_all add: a_def discard_confirmation_def split: command.splits)
  have opb: "op b i = (if i < ?n then op s i else new)" if "i \<le> ?n" for i
    using that by (auto simp: b_def op_def a nth_append)
  have sup: "superseded_by cmd b i = superseded_by cmd s i" if "i < ?n" for i
    using that opb[of i] by (simp add: superseded_by_def op_done_def)
  have filters: "filter (superseded_by cmd b) (oc_pending s) = filter (superseded_by cmd s) (oc_pending s)"
    "filter (\<lambda>i. \<not> superseded_by cmd b i) (oc_pending s) = filter (\<lambda>i. \<not> superseded_by cmd s i) (oc_pending s)"
    using pend sup by (auto intro: filter_cong)
  have s': "s' = (coalesce_pending cmd b)
      \<lparr>oc_pending := oc_pending (coalesce_pending cmd b) @ [?n], oc_event := True\<rparr>"
    by (simp add: s'_def enqueue_def Let_def b_def a_def new_def)
  have bp: "oc_pending b = oc_pending s" "oc_active b = oc_active s"
    "length (oc_store b) = Suc ?n" by (simp_all add: b_def a)
  show "length (oc_store s') = Suc ?n" "oc_active s' = oc_active s"
    "oc_next_operation_id s' = Suc (oc_next_operation_id s)"
    "oc_superseded_echoes s' = oc_superseded_echoes s"
    "oc_cancelled_echoes s' = oc_cancelled_echoes s"
    by (simp_all add: s' coalesce_pending_eq bp) (simp_all add: b_def a)
  show "fst (enqueue t cmd now origin s) = ?n" by (simp add: enqueue_def Let_def)
  show "oc_pending s' = filter (\<lambda>i. \<not> superseded_by cmd s i) (oc_pending s) @ [?n]"
    by (simp add: s' coalesce_pending_eq bp filters)
  have ops': "op s' i = op (settle_quiesce (Failed CommandSuperseded) b
      (filter (superseded_by cmd s) (oc_pending s))) i" for i
    by (simp add: s' coalesce_pending_eq bp filters)
  show "op s' i = (if i \<in> set (oc_pending s) \<and> superseded_by cmd s i
      then (op s i)\<lparr>op_future := Some (Failed CommandSuperseded), op_quiesced := True\<rparr>
      else op s i)" if "i < ?n" for i
    using that opb[of i]
    by (auto simp: ops' op_settle_quiesce bp superseded_by_def op_done_def fut_settle_def)
  have "op s' ?n = new"
    using pend opb[of ?n] by (auto simp: ops' op_settle_quiesce bp)
  then show "op_command (op s' ?n) = cmd" "op_future (op s' ?n) = None"
    "op_send_attempts (op s' ?n) = 0"
    "op_operation_id (op s' ?n) = Suc (oc_next_operation_id s)"
    "op_deadline (op s' ?n) = now + command_deadline t"
    by (simp_all add: new_def)
qed

lemma lane_inv_enqueue:
  assumes inv: "lane_inv g t s p" and enc: "encodable g cmd" and budget: "0 \<le> command_send_attempts t"
  shows "lane_inv g t (snd (enqueue t cmd now origin s)) p"
proof -
  define s' where "s' = snd (enqueue t cmd now origin s)"
  let ?n = "length (oc_store s)"
  note st = enqueue_state[OF inv s'_def]
  have old: "op_command (op s' i) = op_command (op s i)" "op_operation_id (op s' i) = op_operation_id (op s i)"
    "op_send_attempts (op s' i) = op_send_attempts (op s i)" if "i < ?n" for i
    using st(8)[OF that] by simp_all
  have "queue_ok s'"
  proof -
    have "\<not> op_done s' i" if "i \<in> set (oc_pending s)" "\<not> superseded_by cmd s i" for i
      using that inv st(8)[of i] by (auto simp: lane_inv_def queue_ok_def op_done_def)
    moreover have "\<not> op_done s' ?n" using st(10) by (simp add: op_done_def)
    ultimately show ?thesis using inv
      by (auto simp: lane_inv_def queue_ok_def st(1,3,4))
  qed
  moreover have "released_ok s'"
    using inv st(8) by (auto simp: lane_inv_def released_ok_def st(1,3,4) less_Suc_eq)
  moreover have "budget_ok g t s'"
    using inv enc budget old
    by (auto simp: lane_inv_def budget_ok_def st(1,5,9,11,12) less_Suc_eq)
  moreover have "echoes_ok s'" using inv by (simp add: lane_inv_def echoes_ok_def st(6,7))
  moreover have "grant_ok t s' p"
    using inv old(3) by (auto simp: lane_inv_def grant_ok_def queue_ok_def st(4))
  ultimately show ?thesis by (simp add: lane_inv_def s'_def)
qed

lemma echoes_append:
  "echoes_ok s \<Longrightarrow> echoes_ok (s\<lparr>oc_superseded_echoes :=
     deque_append MAX_SUPERSEDED_FAN_ECHOES x (oc_superseded_echoes s)\<rparr>)"
  "echoes_ok s \<Longrightarrow> echoes_ok (s\<lparr>oc_cancelled_echoes :=
     deque_append MAX_SUPERSEDED_FAN_ECHOES x (oc_cancelled_echoes s)\<rparr>)"
  by (simp_all add: echoes_ok_def length_deque_append)

lemma lane_inv_echoes:
  assumes "lane_inv g t s p" "echoes_ok (s\<lparr>oc_superseded_echoes := a, oc_cancelled_echoes := b\<rparr>)"
  shows "lane_inv g t (s\<lparr>oc_superseded_echoes := a, oc_cancelled_echoes := b\<rparr>) p"
  using assms by (auto simp: lane_inv_def lane_inv_defs)

lemma lane_inv_superseded_echoes:
  assumes "lane_inv g t s p" "length a \<le> MAX_SUPERSEDED_FAN_ECHOES"
  shows "lane_inv g t (s\<lparr>oc_superseded_echoes := a\<rparr>) p"
  using assms by (auto simp: lane_inv_def lane_inv_defs)

lemma lane_inv_cancelled_echoes:
  assumes "lane_inv g t s p" "length a \<le> MAX_SUPERSEDED_FAN_ECHOES"
  shows "lane_inv g t (s\<lparr>oc_cancelled_echoes := a\<rparr>) p"
  using assms by (auto simp: lane_inv_def lane_inv_defs)

lemma lane_inv_bounds:
  "lane_inv g t s p \<Longrightarrow> length (oc_superseded_echoes s) \<le> MAX_SUPERSEDED_FAN_ECHOES"
  "lane_inv g t s p \<Longrightarrow> length (oc_cancelled_echoes s) \<le> MAX_SUPERSEDED_FAN_ECHOES"
  by (simp_all add: lane_inv_def echoes_ok_def)

lemma lane_inv_reserve:
  "lane_inv g t s p \<Longrightarrow> lane_inv g t (snd (reserve_active_fan_echo_by_physical g n s)) p"
  by (auto simp: reserve_active_fan_echo_by_physical_def length_deque_append
      intro: lane_inv_superseded_echoes split: option.splits sum.splits)

lemma length_remove1_le: "length xs \<le> n \<Longrightarrow> length (remove1 x xs) \<le> n"
  by (auto simp: length_remove1)

lemma lane_inv_unreserve:
  "lane_inv g t s p \<Longrightarrow> lane_inv g t (snd (discard_active_fan_echo_reservation g n s)) p"
  using lane_inv_bounds[of g t s p]
  by (auto simp: discard_active_fan_echo_reservation_def
      intro!: lane_inv_superseded_echoes length_remove1_le split: option.splits sum.splits)

lemma lane_inv_consume:
  "lane_inv g t s p \<Longrightarrow> lane_inv g t (snd (consume_superseded_fan_echo n f s)) p"
  using lane_inv_bounds[of g t s p]
  by (auto simp: consume_superseded_fan_echo_def intro!: lane_inv_superseded_echoes length_remove1_le)

lemma lane_inv_clear: "lane_inv g t s p \<Longrightarrow> lane_inv g t (clear_superseded_fan_echoes s) p"
  by (auto simp: clear_superseded_fan_echoes_def intro!: lane_inv_echoes)
    (simp add: echoes_ok_def)

lemma lane_inv_quiet:
  assumes "lane_inv g t s p" "quiet_change s s' None"
    "oc_superseded_echoes s' = oc_superseded_echoes s" "oc_cancelled_echoes s' = oc_cancelled_echoes s"
  shows "lane_inv g t s' p"
proof (rule quiet_change_inv[OF assms(1)])
  show "quiet_change s s' (oc_active s)" using assms(2) by (auto simp: quiet_change_def)
  show "echoes_ok s'" using assms by (auto simp: lane_inv_def intro: echoes_same)
qed

lemma lane_inv_report:
  "lane_inv g t s p \<Longrightarrow> lane_inv g t (snd (failure_error g t r i reason n s)) p"
  by (rule lane_inv_quiet) (simp_all add: quiet_failure_error echoes_failure_error)

lemma lane_inv_frame:
  assumes "lane_inv g t s p"
  shows "lane_inv g t (snd (record_fan_frame g n f phase now s)) p"
proof -
  have "lane_inv g t (upd_op i (\<lambda>x. x\<lparr>op_observed_fan_frames := op_observed_fan_frames x @ [d]\<rparr>) s) p"
    for i d by (rule lane_inv_quiet[OF assms]) (simp_all add: quiet_upd_op)
  with assms show ?thesis
    by (auto simp: record_fan_frame_def Let_def st_bind_def split: option.splits prod.splits sum.splits)
qed

lemma lane_inv_physical:
  assumes "lane_inv g t s p"
  shows "lane_inv g t (snd (supersede_active_fan_by_physical g n s)) p"
proof (cases "oc_active s")
  case None
  with assms show ?thesis by (simp add: supersede_active_fan_by_physical_def)
next
  case (Some i)
  have "lane_inv g t (foldl (force_matching mode)
      ((upd_op i (\<lambda>x. x\<lparr>op_cancel_event := True\<rparr>) (settle i (Failed CommandSuperseded) s))
         \<lparr>oc_requiring_confirmation := M\<rparr>) (oc_pending s)) p" for mode M
    by (rule lane_inv_active_step[OF assms Some])
      (simp_all add: quiet_change_def op_updates)
  then have forced: "lane_inv g t (snd (reserve_active_fan_echo_by_physical g n
      (foldl (force_matching mode)
        ((upd_op i (\<lambda>x. x\<lparr>op_cancel_event := True\<rparr>) (settle i (Failed CommandSuperseded) s))
           \<lparr>oc_requiring_confirmation := M\<rparr>) (oc_pending s)))) p" for mode M
    by (rule lane_inv_reserve)
  have last_state: "snd (st_bind m (\<lambda>_. st_return b) a) = snd (m a)"
    for m :: "(bool, operations) st" and b :: bool and a
    by (simp add: st_bind_def split: prod.splits sum.splits)
  show ?thesis
  proof (cases "op_command (op s i)")
    case (SetFanMode mode)
    then show ?thesis
      unfolding supersede_active_fan_by_physical_def Some Let_def
      using assms forced[where mode = mode and M = "insert mode (oc_requiring_confirmation s)"]
      by (simp add: last_state settle_def)
  qed (simp_all add: supersede_active_fan_by_physical_def Some assms)
qed

lemma lane_inv_cancel:
  assumes inv: "lane_inv g t s p" and i: "i < length (oc_store s)"
  shows "lane_inv g t (snd (cancel g i n s)) p"
proof -
  obtain f where f: "command_echo g (op_command (op s i)) = Inr f"
    using inv i by (auto simp: lane_inv_def budget_ok_def encodable_def)
  define body where "body = (\<lambda>s. let s = upd_op i (\<lambda>x. x\<lparr>op_cancel_event := True\<rparr>) (settle i Cancelled s);
              was_pending = (i \<in> set (oc_pending s));
              s = s\<lparr>oc_pending := remove1 i (oc_pending s)\<rparr>;
              s = (if was_pending then quiesce i s else s)
          in s\<lparr>oc_event :=
                (if list_ex (\<lambda>j. \<not> op_done s j) (oc_pending s) then oc_event s else False)\<rparr>)"
  have body: "lane_inv g t (body a) p" if "lane_inv g t a p" for a
    using that unfolding body_def Let_def lane_inv_event
    by (auto simp: lane_inv_def lane_inv_defs op_updates op_done_def)
  have "\<exists>b. lane_inv g t b p \<and> snd (cancel g i n s) = body b"
  proof (cases "n \<noteq> None \<and> oc_active s = Some i \<and> is_SetFanMode (op_command (op s i)) \<and>
      0 < op_send_attempts (op s i)")
    case False
    with inv show ?thesis
      by (intro exI[of _ s]) (cases n, auto simp: cancel_def st_bind_def body_def Let_def)
  next
    case True
    then obtain m where m: "n = Some m" by auto
    let ?b = "if (m, f) \<in> set (oc_cancelled_echoes s) then s
      else s\<lparr>oc_cancelled_echoes := deque_append MAX_SUPERSEDED_FAN_ECHOES (m, f) (oc_cancelled_echoes s)\<rparr>"
    have "lane_inv g t ?b p"
      using inv by (auto intro: lane_inv_cancelled_echoes simp: length_deque_append)
    moreover have "snd (cancel g i n s) = body ?b"
      using True by (simp add: cancel_def st_bind_def body_def m f Let_def)
    ultimately show ?thesis by blast
  qed
  then show ?thesis using body by metis
qed

lemma lane_inv_shutdown:
  assumes inv: "lane_inv g t s p" and act: "oc_active s = None"
    and cap: "\<forall>i. captured = Some i \<longrightarrow> i < length (oc_store s)"
  shows "lane_inv g t (fail_for_shutdown e captured s) None"
proof -
  let ?c = "clear_superseded_fan_echoes s"
  have c: "lane_inv g t ?c None"
    using lane_inv_clear[OF inv] by (simp add: lane_inv_def grant_ok_def)
  have ca: "oc_active ?c = None" "length (oc_store ?c) = length (oc_store s)"
    using act by (simp_all add: clear_superseded_fan_echoes_def)
  have step: "lane_inv g t ((settle_quiesce (Failed e) a (oc_pending a))\<lparr>oc_pending := []\<rparr>) None"
    if "a = ?c \<or> (\<exists>i. a = settle i (Failed e) ?c)" for a
  proof -
    from that c ca have a: "oc_pending a = oc_pending ?c" "oc_active a = None"
      "length (oc_store a) = length (oc_store ?c)" "echoes_ok a"
      "oc_next_operation_id a = oc_next_operation_id ?c"
      "\<And>j. op_command (op a j) = op_command (op ?c j)" "\<And>j. op_quiesced (op a j) = op_quiesced (op ?c j)"
      "\<And>j. op_operation_id (op a j) = op_operation_id (op ?c j)"
      "\<And>j. op_send_attempts (op a j) = op_send_attempts (op ?c j)"
      by (auto simp: op_settle lane_inv_def intro: echoes_same split: if_splits)
    from c a ca(1) show ?thesis
      by (auto simp: lane_inv_def queue_ok_def released_ok_def budget_ok_def grant_ok_def echoes_ok_def
          op_settle_quiesce)
  qed
  have eq: "fail_for_shutdown e captured s =
      (let a = (case captured of Some i \<Rightarrow> settle i (Failed e) ?c | None \<Rightarrow> ?c)
       in (settle_quiesce (Failed e) a (oc_pending a))\<lparr>oc_pending := []\<rparr>)"
    by (cases captured) (simp_all add: fail_for_shutdown_def Let_def ca)
  show ?thesis
  proof (cases captured)
    case None
    then show ?thesis unfolding eq using step[OF disjI1[OF refl]] by (simp add: Let_def)
  next
    case (Some i)
    have "\<exists>j. settle i (Failed e) ?c = settle j (Failed e) ?c" by blast
    from step[OF disjI2[OF this]] Some show ?thesis unfolding eq by (simp add: Let_def)
  qed
qed

lemma lane_inv_start: "0 \<le> command_send_attempts t \<Longrightarrow> lane_inv g t new_operations None"
  by (simp add: lane_inv_def lane_inv_defs new_operations_def)

lemma lane_run_inv:
  assumes "lane_run g t s p" "0 \<le> command_send_attempts t"
  shows "lane_inv g t s p"
  using assms(1)
proof (induction rule: lane_run.induct)
  case (grant s p i r now n res s')
  then show ?case by (intro lane_inv_grant)
qed (use assms(2) in \<open>auto intro: lane_inv_start lane_inv_enqueue lane_inv_take lane_inv_prepare
    lane_inv_send lane_inv_silence lane_inv_fail lane_inv_complete lane_inv_release lane_inv_recover
    lane_inv_cancel lane_inv_report lane_inv_physical lane_inv_reserve lane_inv_unreserve
    lane_inv_consume lane_inv_clear lane_inv_frame lane_inv_shutdown\<close>)

section \<open>Physical authority\<close>

lemma force_all_forces:
  "j \<in> set xs \<Longrightarrow> j < length (oc_store s) \<Longrightarrow> op_command (op s j) = SetFanMode mode \<Longrightarrow>
   op_force_fan_confirmation (op (foldl (force_matching mode) s xs) j)"
proof (induction xs arbitrary: s)
  case (Cons x xs)
  have keep: "op_force_fan_confirmation (op a j) \<Longrightarrow>
      op_force_fan_confirmation (op (foldl (force_matching mode) a ys) j)" for a ys
    by (induction ys arbitrary: a) (auto simp: force_matching_def op_upd_op)
  show ?case
  proof (cases "j = x")
    case True
    with Cons.prems have "op_force_fan_confirmation (op (force_matching mode s x) j)"
      by (simp add: force_matching_def op_upd_op)
    then show ?thesis using keep by simp
  next
    case False
    with Cons show ?thesis by (simp add: force_matching_fields)
  qed
qed simp

lemma force_all_requiring:
  "oc_requiring_confirmation (foldl (force_matching mode) s xs) =
     oc_requiring_confirmation s -
       (if \<exists>j \<in> set xs. op_command (op s j) = SetFanMode mode then {mode} else {})"
proof (induction xs arbitrary: s)
  case (Cons x xs)
  have "oc_requiring_confirmation (force_matching mode s x) = oc_requiring_confirmation s -
      (if op_command (op s x) = SetFanMode mode then {mode} else {})"
    by (simp add: force_matching_def)
  with Cons[of "force_matching mode s x"] show ?case by (auto simp: force_matching_fields)
qed simp

lemma force_all_other:
  "op_cancel_event (op (foldl (force_matching mode) s xs) j) = op_cancel_event (op s j)"
  by (induction xs arbitrary: s) (simp_all add: force_matching_def op_upd_op)

lemma reserve_holds:
  assumes "oc_active s = Some i" "op_command (op s i) = SetFanMode mode" "op_send_attempts (op s i) \<noteq> 0"
    "command_echo g (SetFanMode mode) = Inr f"
  shows "\<exists>a. reserve_active_fan_echo_by_physical g n s = (Inr True, s\<lparr>oc_superseded_echoes := a\<rparr>) \<and>
    (n, f) \<in> set a"
proof (cases "(n, f) \<in> set (oc_superseded_echoes s)")
  case True
  with assms show ?thesis
    by (intro exI[of _ "oc_superseded_echoes s"]) (simp add: reserve_active_fan_echo_by_physical_def)
next
  case False
  with assms show ?thesis
    by (intro exI[of _ "deque_append MAX_SUPERSEDED_FAN_ECHOES (n, f) (oc_superseded_echoes s)"])
      (simp add: reserve_active_fan_echo_by_physical_def deque_append_keeps_last
        MAX_SUPERSEDED_FAN_ECHOES_def)
qed

section \<open>Properties\<close>

text \<open>A command's future is settled at most once: whatever calls the controller receives, in
  whatever order and with whatever arguments, an outcome a caller could have observed never
  changes.\<close>

theorem operation_future_settles_once:
  assumes "settled_outcome s i = Some v"
  shows "settled_outcome (foldl (operations_step g t) s es) i = Some v"
  by (rule lane.run_settled[OF TrueI assms])

text \<open>C32. The command lane stays consistent: in every state the client can reach, queued operations
  are distinct, unsettled and not executing; every operation that is neither queued nor executing
  has been quiesced, so no caller waits for it forever; no operation was ever sent more often than
  the profile's budget, and a granted send is still within it; identifiers are unique; and the two
  echo reservations hold at most eight entries.\<close>

theorem command_lane_invariant:
  assumes "lane_run g t s p" and "timings_wf t"
  shows "distinct (oc_pending s) \<and>
    (\<forall>i \<in> set (oc_pending s). i < length (oc_store s) \<and> \<not> op_done s i \<and> oc_active s \<noteq> Some i) \<and>
    (\<forall>i < length (oc_store s). i \<notin> set (oc_pending s) \<and> oc_active s \<noteq> Some i \<longrightarrow> op_quiesced (op s i)) \<and>
    (\<forall>i < length (oc_store s). op_send_attempts (op s i) \<le> command_send_attempts t \<and>
       op_operation_id (op s i) = Suc i) \<and>
    (\<forall>i. p = Some i \<longrightarrow> op_send_attempts (op s i) < command_send_attempts t) \<and>
    length (oc_superseded_echoes s) \<le> 8 \<and> length (oc_cancelled_echoes s) \<le> 8"
proof -
  have "0 \<le> command_send_attempts t" using assms(2) by (simp add: timings_wf_def)
  from lane_run_inv[OF assms(1) this] show ?thesis
    by (auto simp: lane_inv_def lane_inv_defs MAX_SUPERSEDED_FAN_ECHOES_def)
qed

text \<open>A newer control supersedes the queued ones of its kind and nothing else: enqueueing
  settles every queued operation of the same command type with the superseded error and wakes its
  caller, leaves every other operation as it was, keeps the queue order, puts the new unsettled
  operation last, and leaves it the only queued one of its type.\<close>

theorem enqueue_supersedes_same_kind:
  assumes "lane_run g t s p" and "timings_wf t"
    and "s' = snd (enqueue t cmd now origin s)" and "new = fst (enqueue t cmd now origin s)"
  shows "oc_pending s' = filter (\<lambda>i. command_type_name (op_command (op s i)) \<noteq> command_type_name cmd)
      (oc_pending s) @ [new] \<and>
    op_command (op s' new) = cmd \<and> \<not> op_done s' new \<and> new = length (oc_store s) \<and>
    (\<forall>i < length (oc_store s).
       op s' i =
         (if i \<in> set (oc_pending s) \<and> command_type_name (op_command (op s i)) = command_type_name cmd
          then (op s i)\<lparr>op_future := Some (Failed CommandSuperseded), op_quiesced := True\<rparr>
          else op s i))"
proof -
  have "0 \<le> command_send_attempts t" using assms(2) by (simp add: timings_wf_def)
  note inv = lane_run_inv[OF assms(1) this]
  have pend: "superseded_by cmd s i \<longleftrightarrow> command_type_name (op_command (op s i)) = command_type_name cmd"
    if "i \<in> set (oc_pending s)" for i
    using inv that by (auto simp: lane_inv_def queue_ok_def superseded_by_def)
  note st = enqueue_state[OF inv assms(3)]
  have "filter (\<lambda>i. \<not> superseded_by cmd s i) (oc_pending s) =
      filter (\<lambda>i. command_type_name (op_command (op s i)) \<noteq> command_type_name cmd) (oc_pending s)"
    using pend by (auto intro: filter_cong)
  moreover have "new = length (oc_store s)" using assms(4) st(2) by simp
  ultimately show ?thesis using pend st(3,8,9,10) by (simp add: op_done_def cong: conj_cong)
qed

text \<open>Taking work is first in, first out with expiry: when nothing executes, the first queued
  operation whose deadline has not passed becomes the executing one, every expired operation in
  the queue fails with the deadline error and its caller is woken, and the unexpired rest stays
  queued in order; when something executes or nothing unexpired is queued, nothing is taken.\<close>

theorem take_next_first_unexpired:
  assumes "lane_run g t s p" and "timings_wf t"
    and "take_next g t r now n s = (res, s')"
  shows "(case (oc_active s, filter (unexpired now s) (oc_pending s)) of
      (None, i # rest) \<Rightarrow> res = Inr (Some i) \<and> oc_active s' = Some i \<and> oc_pending s' = rest
    | (_, q) \<Rightarrow> res = Inr None \<and> oc_active s' = oc_active s \<and> oc_pending s' = q) \<and>
    (\<forall>i \<in> set (oc_pending s). op s' i =
       (if unexpired now s i then op s i
        else (op s i)\<lparr>op_future := Some (Failed CommandDeadlineExceeded), op_quiesced := True\<rparr>))"
proof -
  have "0 \<le> command_send_attempts t" using assms(2) by (simp add: timings_wf_def)
  note inv = lane_run_inv[OF assms(1) this]
  obtain d e where t: "let s' = (settle_quiesce (Failed CommandDeadlineExceeded) s
        (filter (\<lambda>i. \<not> unexpired now s i) (oc_pending s)))
      \<lparr>oc_pending := filter (unexpired now s) (oc_pending s), oc_last_diagnostics := d,
       oc_event := e\<rparr>
    in take_next g t r now n s =
      (case filter (unexpired now s) (oc_pending s) of
         [] \<Rightarrow> (Inr None, s')
       | i # rest \<Rightarrow> if oc_active s \<noteq> None then (Inr None, s')
           else (Inr (Some i), s'\<lparr>oc_pending := rest, oc_active := Some i\<rparr>))"
    using take_next_encodable[OF inv] by blast
  have q: "i < length (oc_store s)" "op_future (op s i) = None" if "i \<in> set (oc_pending s)" for i
    using inv that by (auto simp: lane_inv_def queue_ok_def op_done_def fut_done_def)
  have ops: "op (settle_quiesce (Failed CommandDeadlineExceeded) s
        (filter (\<lambda>i. \<not> unexpired now s i) (oc_pending s))) i =
      (if unexpired now s i then op s i
        else (op s i)\<lparr>op_future := Some (Failed CommandDeadlineExceeded), op_quiesced := True\<rparr>)"
    if "i \<in> set (oc_pending s)" for i
    using q[OF that] that by (simp add: op_settle_quiesce)
  show ?thesis
    using t assms(3) ops
    by (cases "oc_active s"; cases "filter (unexpired now s) (oc_pending s)")
      (auto simp: Let_def simp del: filter_eq_Cons_iff)
qed

text \<open>A physical fan change takes authority over a sent fan command: the executing, sent and
  unsettled command fails as superseded and is told to stop, every queued command for the same
  mode must be confirmed by a notification, the mode itself stays marked exactly when none is
  queued, and a late acknowledgement of the superseded command in this connection is swallowed
  exactly when it carries the \<open>3a 05\<close> prefix.\<close>

theorem physical_update_supersedes_sent_fan:
  assumes "lane_run g t s p" and "timings_wf t"
    and "oc_active s = Some i" and "op_command (op s i) = SetFanMode mode"
    and "op_send_attempts (op s i) \<noteq> 0" and "\<not> op_done s i"
    and "command_echo g (SetFanMode mode) = Inr f"
    and "supersede_active_fan_by_physical g n s = (res, s')"
  shows "res = Inr True \<and> settled_outcome s' i = Some (Failed CommandSuperseded) \<and>
    op_cancel_event (op s' i) \<and> oc_pending s' = oc_pending s \<and>
    (\<forall>j \<in> set (oc_pending s). op_command (op s j) = SetFanMode mode \<longrightarrow>
       op_force_fan_confirmation (op s' j)) \<and>
    (mode \<in> oc_requiring_confirmation s' \<longleftrightarrow>
       (\<forall>j \<in> set (oc_pending s). op_command (op s j) \<noteq> SetFanMode mode)) \<and>
    fst (consume_superseded_fan_echo n f s') = starts_with [0x3A, 0x05] f"
proof -
  have "0 \<le> command_send_attempts t" using assms(2) by (simp add: timings_wf_def)
  note inv = lane_run_inv[OF assms(1) this]
  have i: "i < length (oc_store s)" "i \<notin> set (oc_pending s)" "op_future (op s i) = None"
    and pend: "\<And>j. j \<in> set (oc_pending s) \<Longrightarrow> j < length (oc_store s)"
    using inv assms(3,6) by (auto simp: lane_inv_def queue_ok_def op_done_def fut_done_def)
  define a where "a = (upd_op i (\<lambda>x. x\<lparr>op_cancel_event := True\<rparr>) (settle i (Failed CommandSuperseded) s))
      \<lparr>oc_requiring_confirmation := insert mode (oc_requiring_confirmation s)\<rparr>"
  define b where "b = foldl (force_matching mode) a (oc_pending s)"
  have a: "length (oc_store a) = length (oc_store s)" "oc_pending a = oc_pending s"
    "oc_active a = oc_active s" "\<And>j. op_command (op a j) = op_command (op s j)"
    "\<And>j. op_send_attempts (op a j) = op_send_attempts (op s j)"
    "op_future (op a i) = Some (Failed CommandSuperseded)" "op_cancel_event (op a i)"
    "oc_requiring_confirmation a = insert mode (oc_requiring_confirmation s)"
    using i by (simp_all add: a_def op_updates)
  obtain e where r: "reserve_active_fan_echo_by_physical g n b = (Inr True, b\<lparr>oc_superseded_echoes := e\<rparr>)"
    "(n, f) \<in> set e"
    using reserve_holds[of b i mode g f n] assms(3,4,5,7) a by (auto simp: b_def)
  have "supersede_active_fan_by_physical g n s = (Inr True, b\<lparr>oc_superseded_echoes := e\<rparr>)"
    using assms(3,4,5,6) r(1)
    by (simp add: supersede_active_fan_by_physical_def Let_def st_bind_def b_def a_def settle_def)
  then have s': "res = Inr True" "s' = b\<lparr>oc_superseded_echoes := e\<rparr>" using assms(8) by simp_all
  show ?thesis
  proof (intro conjI)
    show "\<forall>j \<in> set (oc_pending s). op_command (op s j) = SetFanMode mode \<longrightarrow>
        op_force_fan_confirmation (op s' j)"
      using force_all_forces[of _ "oc_pending s" a mode] pend a(1,4) by (simp add: s' b_def)
    show "mode \<in> oc_requiring_confirmation s' \<longleftrightarrow>
        (\<forall>j \<in> set (oc_pending s). op_command (op s j) \<noteq> SetFanMode mode)"
      using a(4,8) by (auto simp: s' b_def force_all_requiring)
    show "fst (consume_superseded_fan_echo n f s') = starts_with [0x3A, 0x05] f"
      using r(2) by (simp add: s' consume_superseded_fan_echo_def)
  qed (use a i force_all_other in \<open>simp_all add: s' b_def settled_outcome_def\<close>)
qed

text \<open>The quiescence flag of an operation that survived a reconnect is stale: an unsettled
  operation requeued before its deadline is released as quiesced, and when the next connection
  takes it, it executes with the flag still set, so a caller that abandons it during that
  execution does not wait for it to stop.\<close>

theorem requeued_operation_executes_quiesced:
  assumes "lane_run g t s p" and "timings_wf t"
    and "oc_active s = Some i" and "\<not> op_done s i"
    and "now < op_deadline (op s i)" and "now' < op_deadline (op s i)"
    and "s1 = release i (snd (requeue_for_reconciliation g t r i now n s))"
    and "take_next g t r' now' n' s1 = (res, s2)"
  shows "res = Inr (Some i) \<and> oc_active s2 = Some i \<and> \<not> op_done s2 i \<and> op_quiesced (op s2 i)"
proof -
  have b: "0 \<le> command_send_attempts t" using assms(2) by (simp add: timings_wf_def)
  note inv0 = lane_run_inv[OF assms(1) b]
  have i: "i < length (oc_store s)" using inv0 assms(3) by (simp add: lane_inv_def queue_ok_def)
  have inv: "lane_inv g t s1 None" unfolding assms(7) by (rule lane_inv_recover[OF inv0 assms(3)])
  have s1: "oc_pending s1 = i # oc_pending s" "oc_active s1 = None"
    "op s1 i = (op s i)\<lparr>op_quiesced := True\<rparr>" "length (oc_store s1) = length (oc_store s)"
    using assms(3,4,5) i
    by (simp_all add: assms(7) requeue_for_reconciliation_def release_def quiesce_def op_upd_op)
  from take_next_encodable[OF inv, where r = r' and now = now' and n = n'] obtain d e where
    t: "take_next g t r' now' n' s1 = (Inr (Some i), (settle_quiesce (Failed CommandDeadlineExceeded) s1
        (filter (\<lambda>i. \<not> unexpired now' s1 i) (oc_pending s)))
      \<lparr>oc_last_diagnostics := d, oc_event := e,
       oc_pending := filter (unexpired now' s1) (oc_pending s), oc_active := Some i\<rparr>)"
    using assms(6) s1 by (auto simp: Let_def)
  with assms(4,6,8) s1(3) show ?thesis
    by (auto simp: op_settle_quiesce op_done_def)
qed

section \<open>Witnesses\<close>

text \<open>An H7124: a queued fan command that is taken, granted and sent in connection one.\<close>

definition lane_protocol :: govee_protocol where
  "lane_protocol = \<lparr>gp_profile = h7124_profile, gp_requests = []\<rparr>"

definition queued_fan :: operations where
  "queued_fan = snd (enqueue shipped_timings (SetFanMode LOW) 100 HOME_ASSISTANT new_operations)"

definition taken_fan :: operations where
  "taken_fan = snd (take_next lane_protocol shipped_timings (new_state_reducer h7124_profile) 100 1
     queued_fan)"

definition granted_fan :: operations where
  "granted_fan = snd (prepare_for_send lane_protocol shipped_timings
     (new_state_reducer h7124_profile) 0 100 1 taken_fan)"

definition sent_fan :: operations where
  "sent_fan = snd (record_send lane_protocol 0 1 100 granted_fan)"

definition low_echo :: bytes where
  "low_echo = [0x3A, 0x05, 0x01, 0x01, 0, 0, 0, 0, 0, 0, 0, 0, 0, 0, 0, 0, 0, 0, 0, 0x3F]"

lemma low_echo: "command_echo lane_protocol (SetFanMode LOW) = Inr low_echo"
  by code_simp

lemma low_encodable: "encodable lane_protocol (SetFanMode LOW)"
  using low_echo by (auto simp: encodable_def)

lemma queued_fan_run: "lane_run lane_protocol shipped_timings queued_fan None"
  unfolding queued_fan_def by (rule lane_run.enqueue[OF lane_run.start low_encodable])

lemma sent_fan_run: "lane_run lane_protocol shipped_timings sent_fan None"
proof -
  have taken: "lane_run lane_protocol shipped_timings taken_fan None"
    unfolding taken_fan_def by (rule lane_run.take[OF queued_fan_run])
  have act: "oc_active taken_fan = Some 0" by code_simp
  have res: "prepare_for_send lane_protocol shipped_timings (new_state_reducer h7124_profile) 0 100 1
      taken_fan = (Inr True, granted_fan)"
    unfolding granted_fan_def by (rule prod_eqI, code_simp, simp)
  from lane_run.grant[OF taken act res] have "lane_run lane_protocol shipped_timings granted_fan (Some 0)"
    by simp
  then show ?thesis unfolding sent_fan_def by (rule lane_run.send)
qed

lemma sent_fan_facts:
  "oc_active sent_fan = Some 0" "op_command (op sent_fan 0) = SetFanMode LOW"
  "op_send_attempts (op sent_fan 0) = 1" "op_future (op sent_fan 0) = None"
  "op_deadline (op sent_fan 0) = 220" "length (oc_store sent_fan) = 1" "oc_pending sent_fan = []"
  by code_simp+

theorem operation_future_settles_once_witness:
  "settled_outcome (foldl (operations_step lane_protocol shipped_timings) (complete 0 sent_fan)
     [EvShutdown PurifierClientError (Some 0), EvCancel 0 (Some 1), EvRelease 0]) 0 = Some Returned"
proof -
  have "settled_outcome (complete 0 sent_fan) 0 = Some Returned"
    using sent_fan_facts by (simp add: settled_outcome_def complete_def op_settle)
  then show ?thesis by (rule operation_future_settles_once)
qed

theorem command_lane_invariant_witness:
  "op_send_attempts (op sent_fan 0) \<le> command_send_attempts shipped_timings \<and>
   op_operation_id (op sent_fan 0) = 1"
  using command_lane_invariant[OF sent_fan_run shipped_timings_wf] sent_fan_facts(6) by simp

theorem enqueue_supersedes_same_kind_witness:
  "op_future (op (snd (enqueue shipped_timings (SetFanMode HIGH) 101 HOME_ASSISTANT queued_fan)) 0) =
     Some (Failed CommandSuperseded)"
proof -
  have "length (oc_store queued_fan) = 1" "oc_pending queued_fan = [0]"
    "op_command (op queued_fan 0) = SetFanMode LOW" by code_simp+
  then show ?thesis
    using enqueue_supersedes_same_kind[OF queued_fan_run shipped_timings_wf refl refl,
        of "SetFanMode HIGH" 101 HOME_ASSISTANT] by simp
qed

theorem take_next_first_unexpired_witness:
  "oc_active (snd (take_next lane_protocol shipped_timings (new_state_reducer h7124_profile) 130 1
     queued_fan)) = Some 0"
proof -
  have "oc_active queued_fan = None" "oc_pending queued_fan = [0]" "op_deadline (op queued_fan 0) = 220"
    by code_simp+
  then show ?thesis
    using take_next_first_unexpired[OF queued_fan_run shipped_timings_wf,
        OF prod.collapse[symmetric], of "new_state_reducer h7124_profile" 130 1] by simp
qed

theorem physical_update_supersedes_sent_fan_witness:
  "fst (consume_superseded_fan_echo 1 low_echo
     (snd (supersede_active_fan_by_physical lane_protocol 1 sent_fan))) = True"
proof -
  have "\<not> op_done sent_fan 0" by (simp add: op_done_def sent_fan_facts)
  moreover have "starts_with [0x3A, 0x05] low_echo" by code_simp
  ultimately show ?thesis
    using physical_update_supersedes_sent_fan[OF sent_fan_run shipped_timings_wf
        sent_fan_facts(1,2) _ _ low_echo, OF _ _ prod.collapse[symmetric], of 1]
    by (simp add: sent_fan_facts)
qed

theorem requeued_operation_executes_quiesced_witness:
  "op_quiesced (op (snd (take_next lane_protocol shipped_timings (new_state_reducer h7124_profile) 120 2
     (release 0 (snd (requeue_for_reconciliation lane_protocol shipped_timings
        (new_state_reducer h7124_profile) 0 110 1 sent_fan))))) 0)"
proof -
  have "\<not> op_done sent_fan 0" by (simp add: op_done_def sent_fan_facts)
  then show ?thesis
    using requeued_operation_executes_quiesced[OF sent_fan_run shipped_timings_wf sent_fan_facts(1)
        _ _ _ refl, OF _ _ _ prod.collapse[symmetric], of 110 120 "new_state_reducer h7124_profile" 2
        "new_state_reducer h7124_profile" 1]
    by (simp add: sent_fan_facts)
qed

end
