(* ===== verification/Air_Quality_Queries.thy ===== *)
theory Air_Quality_Queries
  imports Stateful
begin

text \<open>
  The lower-priority lane of one-shot air-quality queries (\<open>operations.py\<close>,
  \<open>AirQualityQueryController\<close>): callers share one request per connection; a request ends with its
  connection, its deadline, a command that preempts it or an explicit cancellation.  Requests are
  entries of \<open>aq_store\<close>; the request with identifier \<open>n\<close> is at index \<open>n - 1\<close>.
\<close>

section \<open>State\<close>

record air_quality_request =
  ar_future :: future
  ar_deadline :: time
  ar_generation :: int
  ar_request_id :: nat
  ar_active :: bool
  ar_cancel_event :: bool
  ar_quiesced :: bool

record query_controller =
  aq_store :: "air_quality_request list"
  aq_request :: "nat option"
  aq_event :: bool
  aq_next_request_id :: nat

definition new_query_controller :: query_controller where
  "new_query_controller = \<lparr>aq_store = [], aq_request = None, aq_event = False, aq_next_request_id = 0\<rparr>"

definition rq :: "query_controller \<Rightarrow> nat \<Rightarrow> air_quality_request" where
  "rq s i = aq_store s ! i"

definition rq_done :: "query_controller \<Rightarrow> nat \<Rightarrow> bool" where
  "rq_done s i \<longleftrightarrow> fut_done (ar_future (rq s i))"

definition upd_rq :: "nat \<Rightarrow> (air_quality_request \<Rightarrow> air_quality_request) \<Rightarrow> query_controller \<Rightarrow> query_controller" where
  "upd_rq i f s = s\<lparr>aq_store := upd_at i f (aq_store s)\<rparr>"

section \<open>Operations\<close>

definition query_release :: "nat \<Rightarrow> query_controller \<Rightarrow> query_controller" where
  "query_release i s =
     (let s = upd_rq i (\<lambda>x. x\<lparr>ar_active := False\<rparr>) s;
          s = (if aq_request s = Some i \<and> rq_done s i
               then s\<lparr>aq_request := None, aq_event := False\<rparr> else s)
      in upd_rq i (\<lambda>x. x\<lparr>ar_quiesced := True\<rparr>) s)"

definition query_fail :: "nat \<Rightarrow> exn \<Rightarrow> query_controller \<Rightarrow> query_controller" where
  "query_fail i error s =
     (let s = upd_rq i (\<lambda>x. x\<lparr>ar_future := fut_settle (Failed error) (ar_future x),
                             ar_cancel_event := True\<rparr>) s
      in if ar_active (rq s i) then s else query_release i s)"

definition query_complete :: "nat \<Rightarrow> query_controller \<Rightarrow> query_controller" where
  "query_complete i s =
     query_release i
       (if aq_request s = Some i
        then upd_rq i (\<lambda>x. x\<lparr>ar_future := fut_settle Returned (ar_future x)\<rparr>) s else s)"

definition query_create :: "time \<Rightarrow> time \<Rightarrow> int \<Rightarrow> (nat, query_controller) st" where
  "query_create now timeout generation s =
     (let new = \<lparr>ar_future = fut_pending, ar_deadline = now + timeout, ar_generation = generation,
                 ar_request_id = aq_next_request_id s + 1, ar_active = False,
                 ar_cancel_event = False, ar_quiesced = False\<rparr>
      in (Inr (length (aq_store s)),
          s\<lparr>aq_store := aq_store s @ [new], aq_request := Some (length (aq_store s)),
            aq_event := True, aq_next_request_id := aq_next_request_id s + 1\<rparr>))"

definition query_acquire :: "time \<Rightarrow> time \<Rightarrow> int \<Rightarrow> (nat, query_controller) st" where
  "query_acquire now timeout generation s =
     (case aq_request s of
        None \<Rightarrow> query_create now timeout generation s
      | Some i \<Rightarrow>
          if rq_done s i then (Inl RuntimeError, s)
          else if ar_generation (rq s i) = generation then (Inr i, s)
          else
            let s = query_fail i PurifierClientError s
            in if ar_active (rq s i) then (Inl RuntimeError, s)
               else query_create now timeout generation s)"

definition query_take :: "time \<Rightarrow> int \<Rightarrow> query_controller \<Rightarrow> nat option \<times> query_controller" where
  "query_take now generation s =
     (case aq_request s of
        None \<Rightarrow> (None, s)
      | Some i \<Rightarrow>
          if rq_done s i \<or> ar_active (rq s i) then (None, s)
          else if ar_generation (rq s i) \<noteq> generation
          then (None, query_fail i PurifierClientError s)
          else if ar_deadline (rq s i) \<le> now
          then (None, query_fail i AirQualityQueryTimeout s)
          else (Some i, (upd_rq i (\<lambda>x. x\<lparr>ar_active := True\<rparr>) s)\<lparr>aq_event := False\<rparr>))"

definition query_cancel :: "query_controller \<Rightarrow> nat option \<times> query_controller" where
  "query_cancel s =
     (aq_request s,
      case aq_request s of
        Some i \<Rightarrow> if rq_done s i then s else query_fail i AirQualityQueryCancelled s
      | None \<Rightarrow> s)"

definition query_disconnect :: "query_controller \<Rightarrow> query_controller" where
  "query_disconnect s =
     (case aq_request s of
        Some i \<Rightarrow> if rq_done s i then s else query_fail i PurifierClientError s
      | None \<Rightarrow> s)"

lemmas query_defs = query_release_def query_fail_def query_complete_def query_create_def
  query_acquire_def query_take_def query_cancel_def query_disconnect_def Let_def

section \<open>Runs\<close>

text \<open>The client's use: only the executing request is completed, and a request is released only
  once it is settled (\<open>_async_execute_air_quality_query\<close> settles it in its \<open>finally\<close> clause).\<close>

inductive query_run :: "query_controller \<Rightarrow> bool" where
  start: "query_run new_query_controller"
| acquire: "query_run s \<Longrightarrow> query_run (snd (query_acquire now timeout n s))"
| take: "query_run s \<Longrightarrow> query_run (snd (query_take now n s))"
| complete: "query_run s \<Longrightarrow> aq_request s = Some i \<Longrightarrow> ar_active (rq s i) \<Longrightarrow>
    query_run (query_complete i s)"
| fail: "query_run s \<Longrightarrow> i < length (aq_store s) \<Longrightarrow> query_run (query_fail i e s)"
| cancel: "query_run s \<Longrightarrow> query_run (snd (query_cancel s))"
| disconnect: "query_run s \<Longrightarrow> query_run (query_disconnect s)"
| release: "query_run s \<Longrightarrow> i < length (aq_store s) \<Longrightarrow> rq_done s i \<Longrightarrow>
    query_run (query_release i s)"

lemma rq_upd_rq: "rq (upd_rq i f s) j = (if i = j \<and> i < length (aq_store s) then f (rq s j) else rq s j)"
  by (simp add: rq_def upd_rq_def upd_at_def nth_list_update)

lemma upd_rq_fields [simp]:
  "length (aq_store (upd_rq i f s)) = length (aq_store s)"
  "aq_request (upd_rq i f s) = aq_request s"
  "aq_event (upd_rq i f s) = aq_event s"
  "aq_next_request_id (upd_rq i f s) = aq_next_request_id s"
  by (simp_all add: upd_rq_def)

lemma rq_other_fields [simp]:
  "rq (s\<lparr>aq_request := a\<rparr>) i = rq s i" "rq (s\<lparr>aq_event := b\<rparr>) i = rq s i"
  "rq (s\<lparr>aq_next_request_id := k\<rparr>) i = rq s i"
  by (simp_all add: rq_def)

text \<open>Only the current request may be unsettled, executing or waited for.\<close>

definition query_inv :: "query_controller \<Rightarrow> bool" where
  "query_inv s \<longleftrightarrow>
     aq_next_request_id s = length (aq_store s) \<and>
     (\<forall>i. aq_request s = Some i \<longrightarrow> i < length (aq_store s) \<and>
        (rq_done s i \<longrightarrow> ar_active (rq s i))) \<and>
     (\<forall>i < length (aq_store s). ar_request_id (rq s i) = Suc i \<and>
        (aq_request s \<noteq> Some i \<longrightarrow> rq_done s i \<and> ar_quiesced (rq s i) \<and> \<not> ar_active (rq s i)))"

lemma query_inv_release:
  "query_inv s \<Longrightarrow> i < length (aq_store s) \<Longrightarrow> rq_done s i \<Longrightarrow> query_inv (query_release i s)"
  by (auto simp: query_inv_def query_release_def Let_def rq_upd_rq rq_done_def)

lemma query_inv_fail:
  assumes "query_inv s" "i < length (aq_store s)"
  shows "query_inv (query_fail i e s)"
proof (cases "ar_active (rq s i)")
  case True
  with assms show ?thesis
    by (auto simp: query_inv_def query_fail_def Let_def rq_upd_rq rq_done_def)
next
  case False
  with assms show ?thesis
    by (auto simp: query_inv_def query_fail_def query_release_def Let_def rq_upd_rq rq_done_def)
qed

lemma query_inv_create:
  assumes "query_inv s" "aq_request s = None"
  shows "query_inv (snd (query_create now timeout n s))"
  using assms
  by (auto simp: query_inv_def query_create_def Let_def rq_def rq_done_def nth_append less_Suc_eq)

lemma query_fail_idle:
  assumes "query_inv s" "aq_request s = Some i" "\<not> ar_active (rq (query_fail i e s) i)"
  shows "aq_request (query_fail i e s) = None"
  using assms
  by (auto simp: query_inv_def query_fail_def query_release_def Let_def rq_upd_rq rq_done_def
      split: if_splits)

lemma query_inv_acquire:
  assumes "query_inv s"
  shows "query_inv (snd (query_acquire now timeout n s))"
proof (cases "aq_request s")
  case None
  with assms show ?thesis by (simp add: query_acquire_def query_inv_create)
next
  case (Some i)
  then have i: "i < length (aq_store s)" using assms by (simp add: query_inv_def)
  show ?thesis
    using assms i query_inv_fail[OF assms i] query_fail_idle[OF assms Some]
    by (auto simp: query_acquire_def Some Let_def intro!: query_inv_create)
qed

lemma query_inv_take:
  assumes "query_inv s"
  shows "query_inv (snd (query_take now n s))"
proof (cases "aq_request s")
  case None
  with assms show ?thesis by (simp add: query_take_def)
next
  case (Some i)
  then have i: "i < length (aq_store s)" using assms by (simp add: query_inv_def)
  have "query_inv ((upd_rq i (\<lambda>x. x\<lparr>ar_active := True\<rparr>) s)\<lparr>aq_event := False\<rparr>)"
    using assms i Some by (auto simp: query_inv_def rq_upd_rq rq_done_def)
  with assms query_inv_fail[OF assms i] show ?thesis by (auto simp: query_take_def Some)
qed

lemma query_inv_complete:
  assumes "query_inv s" "aq_request s = Some i"
  shows "query_inv (query_complete i s)"
  using assms
  by (auto simp: query_inv_def query_complete_def query_release_def Let_def rq_upd_rq rq_done_def)

lemma query_inv_fail_current:
  assumes "query_inv s"
  shows "query_inv (snd (query_cancel s))" "query_inv (query_disconnect s)"
proof -
  have "query_inv (query_fail i e s)" if "aq_request s = Some i" for i e
    using assms that by (intro query_inv_fail) (auto simp: query_inv_def)
  with assms show "query_inv (snd (query_cancel s))" "query_inv (query_disconnect s)"
    by (simp_all add: query_cancel_def query_disconnect_def split: option.split)
qed

lemma query_run_inv: "query_run s \<Longrightarrow> query_inv s"
proof (induction rule: query_run.induct)
  case start
  show ?case by (simp add: query_inv_def new_query_controller_def)
qed (auto intro: query_inv_acquire query_inv_take query_inv_complete query_inv_fail query_inv_release
    query_inv_fail_current)

section \<open>Property\<close>

text \<open>Air-quality queries coalesce: in every reachable state at most one request is unsettled or
  executing and every other caller has been answered and woken; acquiring joins the current
  request of the same connection, otherwise creates a fresh unsettled one with its own deadline
  after the old connection's request was failed, and raises exactly when an executing request
  still has to be torn down.\<close>

theorem queries_coalesce:
  assumes "query_run s" and "query_acquire now timeout n s = (res, s')"
  shows "(\<forall>i < length (aq_store s'). aq_request s' \<noteq> Some i \<longrightarrow>
      rq_done s' i \<and> ar_quiesced (rq s' i) \<and> \<not> ar_active (rq s' i)) \<and>
    (case res of
       Inr i \<Rightarrow> aq_request s' = Some i \<and> \<not> rq_done s' i \<and> ar_generation (rq s' i) = n \<and>
         (if aq_request s = Some i then s' = s
          else i = length (aq_store s) \<and> ar_deadline (rq s' i) = now + timeout \<and>
            \<not> ar_active (rq s' i))
     | Inl e \<Rightarrow> e = RuntimeError \<and> (\<exists>i. aq_request s = Some i \<and> ar_active (rq s i) \<and>
         rq_done s' i \<and> (rq_done s i \<or> ar_generation (rq s i) \<noteq> n)))"
proof -
  have inv: "query_inv s" using assms(1) by (rule query_run_inv)
  have inv': "query_inv s'" using query_inv_acquire[OF inv, of now timeout n] assms(2) by simp
  have created: "aq_request b = Some i \<and> \<not> rq_done b i \<and> ar_generation (rq b i) = n \<and>
      i = length (aq_store a) \<and> ar_deadline (rq b i) = now + timeout \<and> \<not> ar_active (rq b i)"
    if "query_create now timeout n a = (Inr i, b)" for a b i
    using that by (auto simp: query_create_def Let_def rq_def rq_done_def)
  have total: "\<exists>i b. query_create now timeout n a = (Inr i, b)" for a
    by (simp add: query_create_def Let_def)
  show ?thesis
  proof (cases "aq_request s")
    case None
    with assms(2) created[of s] total[of s] inv' show ?thesis
      by (auto simp: query_acquire_def query_inv_def)
  next
    case (Some i)
    let ?f = "query_fail i PurifierClientError s"
    have i: "i < length (aq_store s)" using inv Some by (simp add: query_inv_def)
    have f: "length (aq_store ?f) = length (aq_store s)" "rq_done ?f i"
      "ar_active (rq ?f i) \<longleftrightarrow> ar_active (rq s i)"
      using i by (auto simp: query_fail_def query_release_def Let_def rq_upd_rq rq_done_def)
    from inv Some have act: "rq_done s i \<Longrightarrow> ar_active (rq s i)" by (simp add: query_inv_def)
    show ?thesis
      using assms(2) created[of ?f] total[of ?f] inv' f act i
      by (auto simp: query_acquire_def Some Let_def query_inv_def split: if_splits)
  qed
qed

theorem queries_coalesce_witness:
  "let s = snd (query_acquire 10 5 1 new_query_controller) in
   fst (query_acquire 11 5 1 s) = Inr 0 \<and> \<not> rq_done s 0"
proof -
  have "query_run (snd (query_acquire 10 5 1 new_query_controller))"
    by (rule query_run.acquire[OF query_run.start])
  from queries_coalesce[OF this prod.collapse[symmetric], of 11 5 1] show ?thesis
    by (simp add: Let_def query_acquire_def query_create_def new_query_controller_def rq_done_def rq_def)
qed

end
