(* ===== verification/Transactions.thy ===== *)
theory Transactions
  imports Protocol_Service
begin

text \<open>
  One request in flight (\<open>transactions.py\<close>): the executor sends a descriptor, feeds a fresh matcher
  with what arrives until it completes or the attempt times out, and retries within its budget.
  The event loop decides what each wait returns; an attempt of the environment is the outcome of
  its send and the sequence of its waits.  The calls the executor makes (hooks, sends, reductions)
  are logged in order; a wait sequence that ends leaves the executor waiting.
\<close>

section \<open>The environment and the log\<close>

text \<open>An arriving frame carries the exception its reduction raises, if any.\<close>

datatype tx_wait = Arrives received_frame "exn option" | Elapses | Interrupts exn

record tx_attempt =
  ta_send :: "exn option"
  ta_waits :: "tx_wait list"

datatype tx_call =
    CallAttempt
  | CallSend bytes
  | CallSent
  | CallReduce received_frame "string option"
  | CallMatch received_frame

text \<open>The evidence of a timed-out attempt: attempt, received, matched, ignored and at most four of
  the ignored frames.\<close>

record tx_summary =
  ts_attempt :: int
  ts_attempts :: int
  ts_received :: int
  ts_matched :: int
  ts_ignored :: int
  ts_sample :: "bytes list"

record tx_executor =
  tx_active_request :: "string option"
  tx_last_timeout_summary :: "(string \<times> tx_summary) option"

definition new_tx_executor :: tx_executor where
  "new_tx_executor = \<lparr>tx_active_request = None, tx_last_timeout_summary = None\<rparr>"

definition clear_timeout_summary :: "tx_executor \<Rightarrow> tx_executor" where
  "clear_timeout_summary x = x\<lparr>tx_last_timeout_summary := None\<rparr>"

section \<open>Arbitration of a wait\<close>

text \<open>What \<open>asyncio.wait\<close> found: the frame taken from the queue, the disconnect event and the two
  wake events.  A wake only counts when the caller asked for it; a disconnect wins over a frame.\<close>

definition next_frame_outcome ::
    "time \<Rightarrow> received_frame option \<Rightarrow> bool \<Rightarrow> bool \<Rightarrow> bool \<Rightarrow> bool \<Rightarrow> bool \<Rightarrow> bool \<Rightarrow> exn \<Rightarrow>
     received_frame res" where
  "next_frame_outcome remaining frame disconnected command secondary
      interrupt_for_command interrupt_for_secondary has_secondary disconnect_error =
     (let command_done = (interrupt_for_command \<and> command);
          secondary_done = (interrupt_for_secondary \<and> has_secondary \<and> secondary)
      in if remaining \<le> 0 then Inl TimeoutError
         else if frame = None \<and> \<not> disconnected \<and> \<not> command_done \<and> \<not> secondary_done
         then Inl TimeoutError
         else if disconnected then Inl disconnect_error
         else case frame of
           Some f \<Rightarrow> Inr f
         | None \<Rightarrow> if command_done \<or> secondary_done then Inl RefreshPreemptedError
                   else Inl TimeoutError)"

section \<open>One attempt\<close>

datatype tx_result =
    TxFrames "bytes list"
  | TxTimeout
  | TxRaised exn
  | TxWaiting
  | TxLoopLeft

record tx_evidence =
  te_received :: int
  te_ignored :: int
  te_sample :: "bytes list"

definition no_evidence :: tx_evidence where
  "no_evidence = \<lparr>te_received = 0, te_ignored = 0, te_sample = []\<rparr>"

definition count_ignored :: "match_result \<Rightarrow> bytes \<Rightarrow> tx_evidence \<Rightarrow> tx_evidence" where
  "count_ignored result frame ev =
     (if result = IGNORED
      then ev\<lparr>te_ignored := te_ignored ev + 1,
              te_sample := (if length (te_sample ev) < 4 then te_sample ev @ [frame]
                            else te_sample ev)\<rparr>
      else ev)"

text \<open>The \<open>while not matcher.complete\<close> loop, inside \<open>except TimeoutError\<close>.\<close>

definition tx_escape :: "exn \<Rightarrow> tx_result" where
  "tx_escape e = (if e = TimeoutError then TxTimeout else TxRaised e)"

fun tx_wait_loop ::
    "request_descriptor \<Rightarrow> matcher \<Rightarrow> tx_wait list \<Rightarrow> tx_evidence \<Rightarrow>
     tx_result \<times> matcher \<times> tx_evidence \<times> tx_call list" where
  "tx_wait_loop d m [] ev = ((if mt_complete m then TxLoopLeft else TxWaiting), m, ev, [])"
| "tx_wait_loop d m (Elapses # ws) ev =
     ((if mt_complete m then TxLoopLeft else TxTimeout), m, ev, [])"
| "tx_wait_loop d m (Interrupts e # ws) ev =
     ((if mt_complete m then TxLoopLeft else tx_escape e), m, ev, [])"
| "tx_wait_loop d m (Arrives received raised # ws) ev =
     (if mt_complete m then (TxLoopLeft, m, ev, [])
      else
        let ev = ev\<lparr>te_received := te_received ev + 1\<rparr>; frame = rf_frame received
        in case matcher_feed m frame of
             Inl e \<Rightarrow> (tx_escape e, m, ev, [])
           | Inr (m, result) \<Rightarrow>
               let reduced = CallReduce received
                     (if result = COMPLETE then Some (dsc_name d) else None)
               in case raised of
                    Some e \<Rightarrow> (tx_escape e, m, ev, [reduced])
                  | None \<Rightarrow>
                      let ev = count_ignored result frame ev
                      in if result = COMPLETE
                         then (TxFrames (mt_frames m), m, ev, [reduced, CallMatch received])
                         else let (r, m, ev, calls) = tx_wait_loop d m ws ev
                              in (r, m, ev, reduced # calls))"

section \<open>All attempts\<close>

text \<open>\<open>for attempt in range(attempts)\<close>, counted by the attempts left; an environment that ends
  before the executor returns leaves it sending.\<close>

fun tx_attempts ::
    "request_descriptor \<Rightarrow> int \<Rightarrow> nat \<Rightarrow> tx_attempt list \<Rightarrow> tx_executor \<Rightarrow>
     tx_result \<times> tx_executor \<times> tx_call list" where
  "tx_attempts d attempts 0 env x = (TxRaised TransactionTimeoutError, x, [])"
| "tx_attempts d attempts (Suc left) [] x = (TxWaiting, x, [CallAttempt, CallSend (dsc_frame d)])"
| "tx_attempts d attempts (Suc left) (a # env) x =
     (case ta_send a of
        Some e \<Rightarrow> (TxRaised e, x, [CallAttempt, CallSend (dsc_frame d)])
      | None \<Rightarrow>
          let start = [CallAttempt, CallSend (dsc_frame d), CallSent];
              (r, m, ev, calls) = tx_wait_loop d (new_matcher d) (ta_waits a) no_evidence
          in case r of
               TxFrames fs \<Rightarrow> (r, x\<lparr>tx_last_timeout_summary := None\<rparr>, start @ calls)
             | TxTimeout \<Rightarrow>
                 let summary = \<lparr>ts_attempt = attempts - int left, ts_attempts = attempts,
                        ts_received = te_received ev, ts_matched = int (length (mt_frames m)),
                        ts_ignored = te_ignored ev, ts_sample = te_sample ev\<rparr>;
                     (r, x, rest) = tx_attempts d attempts left env
                        (x\<lparr>tx_last_timeout_summary := Some (dsc_name d, summary)\<rparr>)
                 in (r, x, start @ calls @ rest)
             | TxLoopLeft \<Rightarrow>
                 let (r, x, rest) = tx_attempts d attempts left env x
                 in (r, x, start @ calls @ rest)
             | _ \<Rightarrow> (r, x, start @ calls))"

text \<open>\<open>finally: self._active_request = None\<close>, unless the executor is still inside.\<close>

definition tx_execute ::
    "request_descriptor \<Rightarrow> int \<Rightarrow> tx_attempt list \<Rightarrow> tx_executor \<Rightarrow>
     tx_result \<times> tx_executor \<times> tx_call list" where
  "tx_execute d attempts env x =
     (let (r, x, calls) = tx_attempts d attempts (nat attempts) env
            (x\<lparr>tx_active_request := Some (dsc_name d)\<rparr>)
      in (r, if r = TxWaiting then x else x\<lparr>tx_active_request := None\<rparr>, calls))"

section \<open>Facts\<close>

lemma new_matcher_open: "\<not> mt_complete (new_matcher d)"
  by (simp add: new_matcher_def)

text \<open>The frames of the waits an attempt consumed, up to the completing one.\<close>

fun reduced_frames :: "tx_call list \<Rightarrow> bytes list" where
  "reduced_frames [] = []"
| "reduced_frames (CallReduce received matched # calls) = rf_frame received # reduced_frames calls"
| "reduced_frames (_ # calls) = reduced_frames calls"

fun is_send :: "tx_call \<Rightarrow> bool" where
  "is_send (CallSend f) = True"
| "is_send _ = False"

fun matched_call :: "tx_call \<Rightarrow> bool" where
  "matched_call (CallReduce received (Some name)) = True"
| "matched_call _ = False"

lemma reduced_frames_append [simp]: "reduced_frames (xs @ ys) = reduced_frames xs @ reduced_frames ys"
  by (induction xs rule: reduced_frames.induct) simp_all

lemma tx_wait_loop_frames:
  assumes "tx_wait_loop d m ws ev = (TxFrames fs, m', ev', calls)" "\<not> mt_complete m"
  shows "rm.feed_all m (reduced_frames calls) = Inr m' \<and> mt_complete m' \<and> fs = mt_frames m' \<and>
    (\<exists>pre received. calls = pre @ [CallReduce received (Some (dsc_name d)), CallMatch received] \<and>
      (\<forall>c \<in> set pre. \<exists>r. c = CallReduce r None))"
  using assms
proof (induction d m ws ev arbitrary: calls rule: tx_wait_loop.induct)
  case (4 d m received raised ws ev)
  obtain m1 result where feed: "matcher_feed m (rf_frame received) = Inr (m1, result)"
  proof (cases "matcher_feed m (rf_frame received)")
    case (Inl e)
    with 4(2,3) show ?thesis by (simp add: Let_def tx_escape_def split: if_splits)
  next
    case (Inr b)
    with that show ?thesis by (cases b) simp
  qed
  show ?case
  proof (cases "raised = None \<and> result = COMPLETE")
    case True
    with 4(2,3) feed rm.feed_result[OF feed] show ?thesis by (auto simp: Let_def)
  next
    case False
    then have none: "raised = None" and nc: "result \<noteq> COMPLETE"
      using 4(2,3) feed by (auto simp: Let_def tx_escape_def split: option.splits if_splits)
    have open1: "\<not> mt_complete m1" using rm.feed_result[OF feed] nc 4(3) by auto
    obtain rest where rest: "calls = CallReduce received None # rest"
      "tx_wait_loop d m1 ws (count_ignored result (rf_frame received)
         (ev\<lparr>te_received := te_received ev + 1\<rparr>)) = (TxFrames fs, m', ev', rest)"
      using 4(2,3) feed none nc by (auto simp: Let_def split: prod.splits)
    from 4(1)[OF _ refl refl feed refl refl none refl nc rest(2) open1] 4(3)
    have ih: "rm.feed_all m1 (reduced_frames rest) = Inr m' \<and> mt_complete m' \<and> fs = mt_frames m' \<and>
      (\<exists>pre received. rest = pre @ [CallReduce received (Some (dsc_name d)), CallMatch received] \<and>
        (\<forall>c \<in> set pre. \<exists>r. c = CallReduce r None))" by blast
    then obtain pre r where "rest = pre @ [CallReduce r (Some (dsc_name d)), CallMatch r]"
      "\<forall>c \<in> set pre. \<exists>r. c = CallReduce r None" by blast
    then have "calls = (CallReduce received None # pre) @ [CallReduce r (Some (dsc_name d)), CallMatch r] \<and>
      (\<forall>c \<in> set (CallReduce received None # pre). \<exists>r. c = CallReduce r None)"
      using rest(1) by simp
    with ih feed rest(1) show ?thesis by (auto simp del: res_bind_eq_Inr)
  qed
qed (auto simp: tx_escape_def split: if_splits)

text \<open>A loop never leaves with a complete matcher, and a timed-out attempt matched nothing.\<close>

lemma tx_wait_loop_unmatched:
  assumes "tx_wait_loop d m ws ev = (r, m', ev', calls)" "\<not> mt_complete m"
  shows "r \<noteq> TxLoopLeft \<and> (\<forall>c \<in> set calls. \<not> is_send c) \<and>
    ((\<forall>fs. r \<noteq> TxFrames fs) \<longrightarrow> r = TxTimeout \<longrightarrow> \<not> mt_complete m' \<longrightarrow>
      (\<forall>c \<in> set calls. \<not> matched_call c)) \<and>
    (r = TxWaiting \<longrightarrow> (\<forall>w \<in> set ws. \<exists>received raised. w = Arrives received raised))"
  using assms
proof (induction d m ws ev arbitrary: r calls rule: tx_wait_loop.induct)
  case (4 d m received raised ws ev)
  show ?case
  proof (cases "matcher_feed m (rf_frame received)")
    case (Inl e)
    with 4(2,3) show ?thesis by (auto simp: Let_def tx_escape_def split: if_splits)
  next
    case (Inr b)
    obtain m1 result where b: "b = (m1, result)" by (cases b)
    with Inr have feed: "matcher_feed m (rf_frame received) = Inr (m1, result)" by simp
    show ?thesis
    proof (cases raised)
      case (Some e)
      with 4(2,3) feed rm.feed_result[OF feed] show ?thesis
        by (auto simp: Let_def tx_escape_def split: if_splits)
    next
      case None
      show ?thesis
      proof (cases "result = COMPLETE")
        case True
        with 4(2,3) feed None show ?thesis by (auto simp: Let_def)
      next
        case nc: False
        have open1: "\<not> mt_complete m1" using rm.feed_result[OF feed] nc 4(3) by auto
        obtain rest where rest: "calls = CallReduce received None # rest"
          "tx_wait_loop d m1 ws (count_ignored result (rf_frame received)
             (ev\<lparr>te_received := te_received ev + 1\<rparr>)) = (r, m', ev', rest)"
          using 4(2,3) feed None nc by (auto simp: Let_def split: prod.splits)
        from 4(1)[OF _ refl refl feed refl refl None refl nc rest(2) open1] 4(3) rest(1)
        show ?thesis by simp
      qed
    qed
  qed
qed (auto simp: tx_escape_def split: if_splits)

text \<open>One attempt, read off once.\<close>

definition tx_start :: "request_descriptor \<Rightarrow> tx_call list" where
  "tx_start d = [CallAttempt, CallSend (dsc_frame d), CallSent]"

lemma tx_start_facts [simp]:
  "filter is_send (tx_start d) = [CallSend (dsc_frame d)]"
  "reduced_frames (tx_start d) = []"
  "c \<in> set (tx_start d) \<Longrightarrow> \<not> matched_call c"
  "CallSend f \<in> set (tx_start d) \<longleftrightarrow> f = dsc_frame d"
  by (auto simp: tx_start_def)

lemma tx_attempts_cases:
  assumes "tx_attempts d attempts (Suc left) (a # env) x = (r, x', calls)"
  obtains (refused) e where "ta_send a = Some e" "r = TxRaised e" "x' = x"
      "calls = [CallAttempt, CallSend (dsc_frame d)]"
  | (ended) m ev inner where "ta_send a = None"
      "tx_wait_loop d (new_matcher d) (ta_waits a) no_evidence = (r, m, ev, inner)"
      "r \<noteq> TxTimeout" "calls = tx_start d @ inner"
      "x' = (case r of TxFrames _ \<Rightarrow> x\<lparr>tx_last_timeout_summary := None\<rparr> | _ \<Rightarrow> x)"
  | (retried) m ev inner summary rest where "ta_send a = None"
      "tx_wait_loop d (new_matcher d) (ta_waits a) no_evidence = (TxTimeout, m, ev, inner)"
      "tx_attempts d attempts left env (x\<lparr>tx_last_timeout_summary := Some (dsc_name d, summary)\<rparr>) =
        (r, x', rest)"
      "calls = tx_start d @ inner @ rest"
proof (cases "ta_send a")
  case (Some e)
  with assms refused show ?thesis by simp
next
  case None
  obtain r0 m ev inner where w: "tx_wait_loop d (new_matcher d) (ta_waits a) no_evidence = (r0, m, ev, inner)"
    by (metis prod_cases4)
  note nl = tx_wait_loop_unmatched[OF w new_matcher_open]
  show ?thesis
  proof (cases "r0 = TxTimeout")
    case True
    with assms None w retried show ?thesis
      by (fastforce simp: Let_def tx_start_def split: prod.splits)
  next
    case False
    with assms None w nl ended show ?thesis
      by (cases r0) (auto simp: Let_def tx_start_def)
  qed
qed

lemma tx_attempts_sends:
  "tx_attempts d attempts left env x = (r, x', calls) \<Longrightarrow>
   length (filter is_send calls) \<le> left \<and> (\<forall>f. CallSend f \<in> set calls \<longrightarrow> f = dsc_frame d) \<and>
   tx_active_request x' = tx_active_request x \<and> r \<noteq> TxLoopLeft \<and> r \<noteq> TxTimeout"
proof (induction left arbitrary: env x calls)
  case 0
  then show ?case by auto
next
  case (Suc left)
  show ?case
  proof (cases env)
    case Nil
    with Suc.prems show ?thesis by auto
  next
    case (Cons a rest)
    have none: "filter is_send inner = []" "CallSend f \<notin> set inner"
      if "tx_wait_loop d (new_matcher d) (ta_waits a) no_evidence = (r0, m, ev, inner)" for r0 m ev inner f
      using tx_wait_loop_unmatched[OF that new_matcher_open] by (auto simp: filter_empty_conv)
    from Suc.prems[unfolded Cons] show ?thesis
    proof (cases rule: tx_attempts_cases)
      case (refused e)
      then show ?thesis by simp
    next
      case (ended m ev inner)
      with none[OF ended(2)] tx_wait_loop_unmatched[OF ended(2) new_matcher_open] show ?thesis
        by (auto split: tx_result.splits)
    next
      case (retried m ev inner summary more)
      from Suc.IH[OF retried(3)] none[OF retried(2)] show ?thesis by (auto simp: retried(4))
    qed
  qed
qed

lemma tx_attempts_success:
  "tx_attempts d attempts left env x = (TxFrames fs, x', calls) \<Longrightarrow>
   tx_last_timeout_summary x' = None \<and>
   (\<exists>earlier inner m. calls = earlier @ tx_start d @ inner \<and>
      rm.feed_all (new_matcher d) (reduced_frames inner) = Inr m \<and> mt_complete m \<and> fs = mt_frames m \<and>
      (\<exists>pre received. inner = pre @ [CallReduce received (Some (dsc_name d)), CallMatch received] \<and>
        (\<forall>c \<in> set pre. \<exists>r. c = CallReduce r None)))"
proof (induction left arbitrary: env x calls)
  case (Suc left)
  then obtain a rest where "env = a # rest" by (cases env) auto
  with Suc.prems have "tx_attempts d attempts (Suc left) (a # rest) x = (TxFrames fs, x', calls)" by simp
  then show ?case
  proof (cases rule: tx_attempts_cases)
    case (ended m ev inner)
    have "calls = [] @ tx_start d @ inner" "tx_last_timeout_summary x' = None"
      using ended(4,5) by simp_all
    with tx_wait_loop_frames[OF ended(2) new_matcher_open] show ?thesis by blast
  next
    case (retried m ev inner summary more)
    from Suc.IH[OF retried(3)] obtain earlier inner' m' where
      "tx_last_timeout_summary x' = None" "more = earlier @ tx_start d @ inner'"
      "rm.feed_all (new_matcher d) (reduced_frames inner') = Inr m'" "mt_complete m'" "fs = mt_frames m'"
      "\<exists>pre received. inner' = pre @ [CallReduce received (Some (dsc_name d)), CallMatch received] \<and>
        (\<forall>c \<in> set pre. \<exists>r. c = CallReduce r None)"
      by blast
    moreover from this have "calls = (tx_start d @ inner @ earlier) @ tx_start d @ inner'"
      by (simp add: retried(4))
    ultimately show ?thesis by blast
  qed simp
qed simp

text \<open>Every wait of an environment that honours the deadlines ends.\<close>

definition deadline_honoured :: "tx_attempt \<Rightarrow> bool" where
  "deadline_honoured a \<longleftrightarrow> ta_send a \<noteq> None \<or> Elapses \<in> set (ta_waits a)"

lemma tx_attempts_returns:
  "tx_attempts d attempts left env x = (r, x', calls) \<Longrightarrow> left \<le> length env \<Longrightarrow>
   \<forall>a \<in> set env. deadline_honoured a \<Longrightarrow> r \<noteq> TxWaiting"
proof (induction left arbitrary: env x calls)
  case (Suc left)
  then obtain a rest where env: "env = a # rest" by (cases env) auto
  with Suc.prems have "tx_attempts d attempts (Suc left) (a # rest) x = (r, x', calls)" by simp
  then show ?case
  proof (cases rule: tx_attempts_cases)
    case (ended m ev inner)
    with tx_wait_loop_unmatched[OF ended(2) new_matcher_open] Suc.prems(3) env show ?thesis
      by (auto simp: deadline_honoured_def)
  next
    case (retried m ev inner summary more)
    from Suc.IH[OF retried(3)] Suc.prems(2,3) env show ?thesis by simp
  qed simp
qed auto

text \<open>A concrete exchange: the first attempt times out, the second is answered.\<close>

definition power_on_descriptor :: request_descriptor where
  "power_on_descriptor = \<lparr>dsc_name = ''SetPower'', dsc_frame = [0x33, 0x01, 0x01] @ replicate 16 0 @ [0x33],
       dsc_response = command_response \<lparr>gp_profile = h7124_profile, gp_requests = []\<rparr> (SetPower True)
         ([0x33, 0x01, 0x01] @ replicate 16 0 @ [0x33])\<rparr>"

definition answered_second :: "tx_attempt list" where
  "answered_second =
     [\<lparr>ta_send = None, ta_waits = [Elapses]\<rparr>,
      \<lparr>ta_send = None, ta_waits =
         [Arrives \<lparr>rf_frame = [0xAA, 0x01, 0x00] @ replicate 16 0 @ [0xAB], rf_generation = 1,
             rf_received_at = 5\<rparr> None,
          Arrives \<lparr>rf_frame = [0xAA, 0x01, 0x01] @ replicate 16 0 @ [0xAA], rf_generation = 1,
             rf_received_at = 6\<rparr> None]\<rparr>]"

section \<open>Properties\<close>

text \<open>C33. A transaction that returns was answered: the returned frames are those a fresh matcher of
  the descriptor accepted from exactly the frames reduced in the last attempt, which completed
  it; the completing frame is the last one reduced, and the only one of that attempt reported to
  the reducer as the answer; the executor is idle again and its timeout evidence is cleared.\<close>

theorem transaction_success_is_answered:
  assumes "tx_execute d attempts env x = (TxFrames fs, x', calls)"
  shows "tx_active_request x' = None \<and> tx_last_timeout_summary x' = None \<and>
    (\<exists>earlier pre received m.
       calls = earlier @ tx_start d @ pre @ [CallReduce received (Some (dsc_name d)), CallMatch received] \<and>
       (\<forall>c \<in> set pre. \<exists>r. c = CallReduce r None) \<and>
       rm.feed_all (new_matcher d) (reduced_frames pre @ [rf_frame received]) = Inr m \<and>
       mt_complete m \<and> fs = mt_frames m)"
proof -
  obtain x0 where t: "tx_attempts d attempts (nat attempts) env
      (x\<lparr>tx_active_request := Some (dsc_name d)\<rparr>) = (TxFrames fs, x0, calls)"
    "x' = x0\<lparr>tx_active_request := None\<rparr>"
    using assms by (auto simp: tx_execute_def split: prod.splits)
  from tx_attempts_success[OF t(1)] obtain earlier pre received m where
    "tx_last_timeout_summary x0 = None"
    "calls = earlier @ tx_start d @ pre @ [CallReduce received (Some (dsc_name d)), CallMatch received]"
    "\<forall>c \<in> set pre. \<exists>r. c = CallReduce r None"
    "rm.feed_all (new_matcher d) (reduced_frames pre @ [rf_frame received]) = Inr m"
    "mt_complete m" "fs = mt_frames m" by auto
  then show ?thesis unfolding t(2) by auto
qed

theorem transaction_success_is_answered_witness:
  "\<exists>x' calls. tx_execute power_on_descriptor 3 answered_second new_tx_executor =
      (TxFrames [[0xAA, 0x01, 0x01] @ replicate 16 0 @ [0xAA]], x', calls) \<and>
    tx_active_request x' = None \<and> tx_last_timeout_summary x' = None"
proof -
  have "fst (tx_execute power_on_descriptor 3 answered_second new_tx_executor) =
      TxFrames [[0xAA, 0x01, 0x01] @ replicate 16 0 @ [0xAA]]" by code_simp
  then obtain x' calls where e: "tx_execute power_on_descriptor 3 answered_second new_tx_executor =
      (TxFrames [[0xAA, 0x01, 0x01] @ replicate 16 0 @ [0xAA]], x', calls)"
    by (cases "tx_execute power_on_descriptor 3 answered_second new_tx_executor") simp
  from transaction_success_is_answered[OF this] e show ?thesis by blast
qed

text \<open>C34. A transaction is bounded: it sends nothing but the descriptor's frame, at most once per
  attempt; with an environment that refuses a send or lets every deadline pass it returns, either
  with frames or with an exception; and after any return no request owns the channel.\<close>

theorem transaction_bounded:
  assumes "tx_execute d attempts env x = (r, x', calls)"
  shows "int (length (filter is_send calls)) \<le> max 0 attempts \<and>
    (\<forall>f. CallSend f \<in> set calls \<longrightarrow> f = dsc_frame d) \<and>
    (r \<noteq> TxWaiting \<longrightarrow> tx_active_request x' = None) \<and>
    (nat attempts \<le> length env \<and> (\<forall>a \<in> set env. deadline_honoured a) \<longrightarrow>
       (\<exists>fs. r = TxFrames fs) \<or> (\<exists>e. r = TxRaised e))"
proof -
  obtain x0 where t: "tx_attempts d attempts (nat attempts) env
      (x\<lparr>tx_active_request := Some (dsc_name d)\<rparr>) = (r, x0, calls)"
    "x' = (if r = TxWaiting then x0 else x0\<lparr>tx_active_request := None\<rparr>)"
    using assms by (auto simp: tx_execute_def split: prod.splits)
  note sends = tx_attempts_sends[OF t(1)]
  have "(\<exists>fs. r = TxFrames fs) \<or> (\<exists>e. r = TxRaised e)"
    if "nat attempts \<le> length env" "\<forall>a \<in> set env. deadline_honoured a"
    using tx_attempts_returns[OF t(1) that] sends by (cases r) auto
  with sends t(2) show ?thesis by auto
qed

theorem transaction_bounded_witness:
  "\<exists>x' calls. tx_execute power_on_descriptor 2
      (replicate 2 \<lparr>ta_send = None, ta_waits = [Elapses]\<rparr>) new_tx_executor =
      (TxRaised TransactionTimeoutError, x', calls) \<and>
    int (length (filter is_send calls)) \<le> 2 \<and> tx_active_request x' = None"
proof -
  let ?run = "tx_execute power_on_descriptor 2
      (replicate 2 \<lparr>ta_send = None, ta_waits = [Elapses]\<rparr>) new_tx_executor"
  have "fst ?run = TxRaised TransactionTimeoutError" by code_simp
  then obtain x' calls where e: "?run = (TxRaised TransactionTimeoutError, x', calls)"
    by (cases ?run) simp
  from transaction_bounded[OF this] e show ?thesis by auto
qed

end
