(* ===== verification/Auto_Controller.thy ===== *)
theory Auto_Controller
  imports Stateful Auto_Policy Models
begin

text \<open>
  The Custom Auto actor (\<open>custom_auto_controller.py\<close>): one task that takes events from a queue and
  owns the policy state, and at most one worker task each for samples, timers and commands.
  Worker tasks are entries of \<open>ct_work\<close>, the one with serial \<open>n\<close> at index \<open>n - 1\<close>; what a worker
  was started to do is recorded in its entry.  Each handled event is one step: the awaits inside a
  handler only wait for cancelled workers, and no other task changes the actor's fields.  A handler
  reads the clock at most once, so a step is told one time, and what the sample-cancelling
  callback raised.
\<close>

section \<open>State\<close>

datatype work_kind = SampleWork | TimerWork | CommandWork

definition WORK_KINDS :: "work_kind list" where
  "WORK_KINDS = [SampleWork, TimerWork, CommandWork]"

record generation_token =
  gt_configuration :: int
  gt_activation :: int
  gt_connection :: int

record work =
  wk_kind :: work_kind
  wk_token :: generation_token
  wk_target :: "fan_mode option"
  wk_deadline :: "time option"
  wk_cancelled :: bool
  wk_finished :: bool

datatype control_action =
  Activate | Deactivate | Override | BeginPowerOff | FinishPowerOff | Reconfigure | Shutdown

datatype controller_event =
    EvControl control_action nat "custom_auto_options option" "bool option"
  | EvConnection bool int time
  | EvPower bool
  | EvObservation observation
  | EvWorkDone work_kind nat generation_token bool bool "fan_mode option" "exn option"

record fan_provenance =
  fp_mode :: fan_mode
  fp_source :: observation_source
  fp_purpose :: observation_purpose
  fp_revision :: int
  fp_generation :: int
  fp_command_origin :: "command_origin option"

datatype actor_state = NotStarted | Running | Ended

record controller =
  ct_options :: custom_auto_options
  ct_queue :: "controller_event list"
  ct_actor :: actor_state
  ct_controls :: "future list"
  ct_work :: "work list"
  ct_workers :: "work_kind \<Rightarrow> nat option"
  ct_listeners :: "nat list"
  ct_active :: bool
  ct_available :: bool
  ct_powered :: bool
  ct_power_transition :: bool
  ct_configuration_generation :: int
  ct_activation_generation :: int
  ct_connection_generation :: int
  ct_policy :: policy_state
  ct_sample_barrier_revision :: "int option"
  ct_sample_barrier_observed_at :: "time option"
  ct_last_seen_air_revision :: "int option"
  ct_last_pm25 :: "int option"
  ct_last_pm25_revision :: "int option"
  ct_last_pm25_generation :: "int option"
  ct_last_pm25_observed_at :: "time option"
  ct_last_physical_fan :: "fan_provenance option"
  ct_last_command_fan :: "fan_provenance option"
  ct_auto_redirect_state :: string
  ct_command_state :: string
  ct_last_error_type :: "exn option"

definition new_controller :: "custom_auto_options \<Rightarrow> controller res" where
  "new_controller opts =
     (if \<not> ao_enabled opts then Inl ValueError
      else res_bind (initial_policy_state None opts) (\<lambda>policy.
        Inr \<lparr>ct_options = opts, ct_queue = [], ct_actor = NotStarted, ct_controls = [],
             ct_work = [], ct_workers = (\<lambda>_. None), ct_listeners = [], ct_active = False,
             ct_available = False, ct_powered = False, ct_power_transition = False,
             ct_configuration_generation = 0, ct_activation_generation = 0,
             ct_connection_generation = 0, ct_policy = policy, ct_sample_barrier_revision = None,
             ct_sample_barrier_observed_at = None, ct_last_seen_air_revision = None,
             ct_last_pm25 = None, ct_last_pm25_revision = None, ct_last_pm25_generation = None,
             ct_last_pm25_observed_at = None, ct_last_physical_fan = None,
             ct_last_command_fan = None, ct_auto_redirect_state = ''idle'',
             ct_command_state = ''idle'', ct_last_error_type = None\<rparr>))"

text \<open>What a step reads from outside: the clock, and the outcome of cancelling a sample.\<close>

record step_env =
  se_now :: time
  se_cancel_error :: "exn option"

section \<open>Workers\<close>

definition ct_token :: "controller \<Rightarrow> generation_token" where
  "ct_token c =
     \<lparr>gt_configuration = ct_configuration_generation c,
      gt_activation = ct_activation_generation c, gt_connection = ct_connection_generation c\<rparr>"

definition wk :: "controller \<Rightarrow> nat \<Rightarrow> work" where
  "wk c n = ct_work c ! (n - 1)"

definition spawn ::
    "work_kind \<Rightarrow> fan_mode option \<Rightarrow> time option \<Rightarrow> controller \<Rightarrow> controller" where
  "spawn kind target deadline c =
     (if ct_workers c kind \<noteq> None then c
      else c\<lparr>ct_work := ct_work c @ [\<lparr>wk_kind = kind, wk_token = ct_token c, wk_target = target,
               wk_deadline = deadline, wk_cancelled = False, wk_finished = False\<rparr>],
             ct_workers := (ct_workers c)(kind := Some (length (ct_work c) + 1))\<rparr>)"

definition request_sample :: "controller \<Rightarrow> controller" where
  "request_sample c =
     (case ct_workers c SampleWork of
        Some n \<Rightarrow>
          if \<not> wk_finished (wk c n) then c
          else spawn SampleWork None None
                 (c\<lparr>ct_workers := (ct_workers c)(SampleWork := None)\<rparr>)
      | None \<Rightarrow> spawn SampleWork None None c)"

definition usable :: "controller \<Rightarrow> bool" where
  "usable c \<longleftrightarrow> ct_active c \<and> ct_available c \<and> ct_powered c \<and> \<not> ct_power_transition c"

definition request_fresh_if_usable :: "controller \<Rightarrow> controller" where
  "request_fresh_if_usable c = (if usable c then request_sample c else c)"

definition cancel_kind :: "step_env \<Rightarrow> work_kind \<Rightarrow> controller \<Rightarrow> controller" where
  "cancel_kind env kind c =
     (case ct_workers c kind of
        None \<Rightarrow> c
      | Some n \<Rightarrow>
          c\<lparr>ct_work := upd_at (n - 1) (\<lambda>w. w\<lparr>wk_cancelled := True\<rparr>) (ct_work c),
            ct_workers := (ct_workers c)(kind := None),
            ct_last_error_type :=
              (if kind = SampleWork \<and> se_cancel_error env \<noteq> None then se_cancel_error env
               else ct_last_error_type c)\<rparr>)"

definition cancel_kinds :: "step_env \<Rightarrow> work_kind list \<Rightarrow> controller \<Rightarrow> controller" where
  "cancel_kinds env kinds c = foldl (\<lambda>c kind. cancel_kind env kind c) c kinds"

definition invalidate_operational ::
    "step_env \<Rightarrow> bool \<Rightarrow> time option \<Rightarrow> (unit, controller) st" where
  "invalidate_operational env reset_policy barrier_observed_at c =
     (let candidate = (case barrier_observed_at of None \<Rightarrow> se_now env | Some t \<Rightarrow> t);
          c = c\<lparr>ct_activation_generation := ct_activation_generation c + 1,
                ct_sample_barrier_revision := ct_last_seen_air_revision c,
                ct_sample_barrier_observed_at :=
                  (case ct_sample_barrier_observed_at c of
                     None \<Rightarrow> Some candidate
                   | Some t \<Rightarrow> Some (max t candidate))\<rparr>;
          c = cancel_kinds env WORK_KINDS c
      in case (if reset_policy then initial_policy_state None (ct_options c)
               else Inr (invalidate_policy_ownership (ct_policy c))) of
           Inl e \<Rightarrow> (Inl e, c)
         | Inr policy \<Rightarrow>
             (Inr (), c\<lparr>ct_policy := policy, ct_command_state := ''idle'',
                        ct_last_error_type := None\<rparr>))"

definition send_command :: "fan_mode \<Rightarrow> controller \<Rightarrow> controller" where
  "send_command target c =
     spawn CommandWork (Some target) None
       (c\<lparr>ct_command_state := ''sending'', ct_last_error_type := None\<rparr>)"

definition apply_policy_result :: "step_env \<Rightarrow> policy_result \<Rightarrow> controller \<Rightarrow> controller" where
  "apply_policy_result env r c =
     (let c = cancel_kinds env [TimerWork] c;
          c = (case pr_target r of
                 Some target \<Rightarrow>
                   if ct_workers c CommandWork = None \<and> \<not> ct_power_transition c
                   then send_command target c else c
               | None \<Rightarrow> c);
          c = (if pr_request_sample r then request_sample c else c)
      in case pr_next_boundary_at r of
           Some deadline \<Rightarrow> spawn TimerWork None (Some deadline) c
         | None \<Rightarrow> c)"

definition schedule_pending_command_if_usable :: "controller \<Rightarrow> controller" where
  "schedule_pending_command_if_usable c =
     (case po_pending_target (ct_policy c) of
        None \<Rightarrow> c
      | Some target \<Rightarrow>
          if ct_workers c CommandWork \<noteq> None \<or> \<not> usable c then c else send_command target c)"

text \<open>A policy result becomes the policy state and is applied.\<close>

definition adopt_result :: "step_env \<Rightarrow> policy_result res \<Rightarrow> (unit, controller) st" where
  "adopt_result env r c =
     (case r of
        Inl e \<Rightarrow> (Inl e, c)
      | Inr r \<Rightarrow> (Inr (), apply_policy_result env r (c\<lparr>ct_policy := pr_state r\<rparr>)))"

section \<open>Events\<close>

definition invalidate_and_request :: "step_env \<Rightarrow> time option \<Rightarrow> (unit, controller) st" where
  "invalidate_and_request env barrier =
     st_bind (invalidate_operational env True barrier) (\<lambda>_. st_modify request_fresh_if_usable)"

definition handle_control ::
    "step_env \<Rightarrow> control_action \<Rightarrow> custom_auto_options option \<Rightarrow> bool option \<Rightarrow>
     (bool, controller) st" where
  "handle_control env action options powered c =
     (case action of
        Activate \<Rightarrow>
          st_bind (invalidate_and_request env None) (\<lambda>_. st_return False)
            (c\<lparr>ct_active := True, ct_power_transition := False\<rparr>)
      | BeginPowerOff \<Rightarrow>
          st_bind (invalidate_operational env True None) (\<lambda>_. st_return False)
            (c\<lparr>ct_power_transition := True\<rparr>)
      | FinishPowerOff \<Rightarrow>
          st_bind (invalidate_and_request env None) (\<lambda>_. st_return False)
            (c\<lparr>ct_powered := (powered = Some True), ct_power_transition := False\<rparr>)
      | Reconfigure \<Rightarrow>
          (case options of
             None \<Rightarrow> (Inl AssertionError, c)
           | Some opts \<Rightarrow>
               st_bind (invalidate_and_request env None) (\<lambda>_. st_return False)
                 (c\<lparr>ct_options := opts,
                    ct_configuration_generation := ct_configuration_generation c + 1\<rparr>))
      | Shutdown \<Rightarrow>
          st_bind (invalidate_operational env True None) (\<lambda>_. st_return True)
            (c\<lparr>ct_active := False\<rparr>)
      | _ \<Rightarrow>
          st_bind (invalidate_operational env True None) (\<lambda>_. st_return False)
            (c\<lparr>ct_active := False, ct_power_transition := False\<rparr>))"

definition handle_connection ::
    "step_env \<Rightarrow> bool \<Rightarrow> int \<Rightarrow> time \<Rightarrow> (unit, controller) st" where
  "handle_connection env available generation observed_at c =
     (if generation < ct_connection_generation c then (Inr (), c)
      else
        let changed_generation = (generation \<noteq> ct_connection_generation c);
            recovering = (available \<and> \<not> ct_available c)
        in if changed_generation \<or> \<not> available \<or> recovering then
             invalidate_and_request env (Some observed_at)
               (c\<lparr>ct_available := available, ct_connection_generation := generation,
                  ct_last_seen_air_revision :=
                    (if changed_generation then None else ct_last_seen_air_revision c)\<rparr>)
           else (Inr (), c\<lparr>ct_available := available\<rparr>))"

definition handle_power :: "step_env \<Rightarrow> bool \<Rightarrow> (unit, controller) st" where
  "handle_power env powered c =
     (if powered = ct_powered c then (Inr (), c)
      else invalidate_and_request env None (c\<lparr>ct_powered := powered\<rparr>))"

definition not_newer :: "'a :: linorder \<Rightarrow> 'a option \<Rightarrow> bool" where
  "not_newer x mark \<longleftrightarrow> (case mark of Some y \<Rightarrow> x \<le> y | None \<Rightarrow> False)"

definition before_mark :: "'a :: linorder \<Rightarrow> 'a option \<Rightarrow> bool" where
  "before_mark x mark \<longleftrightarrow> (case mark of Some y \<Rightarrow> x < y | None \<Rightarrow> False)"

definition remember_reading :: "provenance \<Rightarrow> int option \<Rightarrow> controller \<Rightarrow> controller" where
  "remember_reading p pm25 c =
     (case pm25 of
        Some v \<Rightarrow>
          if 0 \<le> v \<and> v \<le> 999
          then c\<lparr>ct_last_pm25 := Some v, ct_last_pm25_revision := Some (ob_revision p),
                 ct_last_pm25_generation := Some (ob_generation p),
                 ct_last_pm25_observed_at := Some (ob_observed_at p)\<rparr>
          else c
      | None \<Rightarrow> c)"

definition handle_air_quality ::
    "step_env \<Rightarrow> provenance \<Rightarrow> int option \<Rightarrow> (unit, controller) st" where
  "handle_air_quality env p pm25 c =
     (if ob_generation p \<noteq> ct_connection_generation c \<or>
         not_newer (ob_revision p) (ct_last_seen_air_revision c) then (Inr (), c)
      else
        let c = c\<lparr>ct_last_seen_air_revision := Some (ob_revision p)\<rparr>
        in if \<not> usable c \<or> not_newer (ob_revision p) (ct_sample_barrier_revision c) \<or>
              before_mark (ob_observed_at p) (ct_sample_barrier_observed_at c) then (Inr (), c)
           else
             let c = remember_reading p pm25 c
             in case evaluate_observation (ct_policy c) (ct_options c) pm25 (ob_revision p)
                       (ob_observed_at p) of
                  Inl e \<Rightarrow> (Inl e, c)
                | Inr r \<Rightarrow> if pr_state r = ct_policy c then (Inr (), c)
                          else adopt_result env (Inr r) c)"

definition handle_fan_mode :: "step_env \<Rightarrow> provenance \<Rightarrow> fan_mode \<Rightarrow> (unit, controller) st" where
  "handle_fan_mode env p mode c =
     (if ob_generation p \<noteq> ct_connection_generation c then (Inr (), c)
      else
        let seen = \<lparr>fp_mode = mode, fp_source = ob_source p, fp_purpose = ob_purpose p,
                    fp_revision = ob_revision p, fp_generation = ob_generation p,
                    fp_command_origin = ob_command_origin p\<rparr>;
            c = (if ob_source p = SRC_PHYSICAL then c\<lparr>ct_last_physical_fan := Some seen\<rparr>
                 else if ob_source p = SRC_COMMAND then c\<lparr>ct_last_command_fan := Some seen\<rparr>
                 else c)
        in if \<not> ct_active c \<or> ob_source p \<noteq> SRC_PHYSICAL then (Inr (), c)
           else if mode = AUTO then
             invalidate_and_request env None (c\<lparr>ct_auto_redirect_state := ''pending''\<rparr>)
           else
             invalidate_operational env True None
               (c\<lparr>ct_active := False, ct_auto_redirect_state := ''idle''\<rparr>))"

definition redirect_failed :: "controller \<Rightarrow> controller" where
  "redirect_failed c =
     (if ct_auto_redirect_state c = ''pending'' then c\<lparr>ct_auto_redirect_state := ''failed''\<rparr>
      else c)"

definition command_succeeded :: "step_env \<Rightarrow> fan_mode option \<Rightarrow> (unit, controller) st" where
  "command_succeeded env target c =
     (case target of
        None \<Rightarrow> (Inl AssertionError, c)
      | Some t \<Rightarrow>
          (case confirm_pending_target (ct_policy c) t (ct_options c) of
             Inl e \<Rightarrow> (Inl e, c)
           | Inr policy \<Rightarrow>
               st_bind
                 (\<lambda>c. adopt_result env (reconcile_deferred_observation (ct_policy c) (ct_options c)) c)
                 (\<lambda>_ c. adopt_result env (evaluate_boundary (ct_policy c) (ct_options c) (se_now env)) c)
                 (c\<lparr>ct_policy := policy,
                    ct_auto_redirect_state :=
                      (if ct_auto_redirect_state c \<in> {''pending'', ''failed''} then ''confirmed''
                       else ct_auto_redirect_state c),
                    ct_command_state := ''confirmed'', ct_last_error_type := None\<rparr>)))"

definition command_failed :: "exn option \<Rightarrow> (unit, controller) st" where
  "command_failed error c =
     (case mark_command_failed (ct_policy c) (ct_options c) of
        Inl e \<Rightarrow> (Inl e, c)
      | Inr policy \<Rightarrow>
          (Inr (), redirect_failed (c\<lparr>ct_policy := policy, ct_command_state := ''failed'',
                                      ct_last_error_type := error\<rparr>)))"

definition handle_work_done ::
    "step_env \<Rightarrow> work_kind \<Rightarrow> nat \<Rightarrow> generation_token \<Rightarrow> bool \<Rightarrow> bool \<Rightarrow> fan_mode option \<Rightarrow>
     exn option \<Rightarrow> (unit, controller) st" where
  "handle_work_done env kind serial token succeeded cancelled target error c =
     (if ct_workers c kind \<noteq> Some serial then (Inr (), c)
      else
        let c = c\<lparr>ct_workers := (ct_workers c)(kind := None)\<rparr>
        in if cancelled \<or> token \<noteq> ct_token c then (Inr (), c)
           else case kind of
             TimerWork \<Rightarrow>
               adopt_result env (evaluate_boundary (ct_policy c) (ct_options c) (se_now env)) c
           | SampleWork \<Rightarrow>
               (Inr (), if succeeded then c
                        else redirect_failed (c\<lparr>ct_last_error_type := error\<rparr>))
           | CommandWork \<Rightarrow>
               if target \<noteq> po_pending_target (ct_policy c)
               then (Inr (), schedule_pending_command_if_usable c)
               else if succeeded then command_succeeded env target c
               else command_failed error c)"

text \<open>An exception of a control is delivered to its caller; any other leaves the actor.\<close>

definition handle :: "step_env \<Rightarrow> controller_event \<Rightarrow> (bool, controller) st" where
  "handle env event c =
     (case event of
        EvControl action i options powered \<Rightarrow>
          (case handle_control env action options powered c of
             (Inl e, c) \<Rightarrow>
               (Inr False, c\<lparr>ct_controls := upd_at i (fut_settle (Failed e)) (ct_controls c)\<rparr>)
           | (Inr stop, c) \<Rightarrow>
               (Inr stop, c\<lparr>ct_controls := upd_at i (fut_settle Returned) (ct_controls c)\<rparr>))
      | EvConnection available generation observed_at \<Rightarrow>
          st_bind (handle_connection env available generation observed_at) (\<lambda>_. st_return False) c
      | EvPower powered \<Rightarrow> st_bind (handle_power env powered) (\<lambda>_. st_return False) c
      | EvObservation (AirQualityObservation p pm25 _) \<Rightarrow>
          st_bind (handle_air_quality env p pm25) (\<lambda>_. st_return False) c
      | EvObservation (FanModeObservation p mode) \<Rightarrow>
          st_bind (handle_fan_mode env p mode) (\<lambda>_. st_return False) c
      | EvWorkDone kind serial token succeeded cancelled target error \<Rightarrow>
          st_bind (handle_work_done env kind serial token succeeded cancelled target error)
            (\<lambda>_. st_return False) c)"

section \<open>Snapshots\<close>

record downshift_snapshot =
  ds_target_level :: int
  ds_target_mode :: fan_mode
  ds_revision :: int
  ds_started_at :: time
  ds_sample_requested :: bool

record custom_auto_snapshot =
  sn_active :: bool
  sn_available :: bool
  sn_powered :: bool
  sn_suspended :: bool
  sn_token :: generation_token
  sn_confirmed_level :: "int option"
  sn_confirmed_mode :: "fan_mode option"
  sn_pending_target :: "fan_mode option"
  sn_last_pm25 :: "int option"
  sn_last_pm25_revision :: "int option"
  sn_last_pm25_generation :: "int option"
  sn_last_pm25_observed_at :: "time option"
  sn_pending_upshift :: "upshift_confirmation option"
  sn_pending_downshifts :: "downshift_snapshot list"
  sn_command_state :: string
  sn_last_error_type :: "exn option"
  sn_last_physical_fan :: "fan_provenance option"
  sn_last_command_fan :: "fan_provenance option"
  sn_auto_redirect_state :: string
  sn_controller_listeners :: nat
  sn_actor_tasks :: nat
  sn_sample_tasks :: nat
  sn_timer_tasks :: nat
  sn_command_tasks :: nat

definition snapshot_downshift :: "custom_auto_options \<Rightarrow> downshift_dwell \<Rightarrow> downshift_snapshot res" where
  "snapshot_downshift opts d =
     res_bind (py_nth (ao_modes opts) (dw_target_level d - 1)) (\<lambda>mode.
       Inr \<lparr>ds_target_level = dw_target_level d, ds_target_mode = mode,
            ds_revision = dw_revision d, ds_started_at = dw_started_at d,
            ds_sample_requested = dw_sample_requested d\<rparr>)"

definition controller_snapshot :: "controller \<Rightarrow> custom_auto_snapshot res" where
  "controller_snapshot c =
     res_bind (case po_confirmed_level (ct_policy c) of
                 Some level \<Rightarrow>
                   res_bind (py_nth (ao_modes (ct_options c)) (level - 1)) (\<lambda>m. Inr (Some m))
               | None \<Rightarrow> Inr None) (\<lambda>confirmed_mode.
     res_bind (res_map_list (snapshot_downshift (ct_options c)) (po_downshifts (ct_policy c)))
       (\<lambda>downshifts.
       Inr \<lparr>sn_active = ct_active c, sn_available = ct_available c, sn_powered = ct_powered c,
            sn_suspended = (ct_active c \<and>
               \<not> (ct_available c \<and> ct_powered c \<and> \<not> ct_power_transition c)),
            sn_token = ct_token c, sn_confirmed_level = po_confirmed_level (ct_policy c),
            sn_confirmed_mode = confirmed_mode,
            sn_pending_target = po_pending_target (ct_policy c), sn_last_pm25 = ct_last_pm25 c,
            sn_last_pm25_revision = ct_last_pm25_revision c,
            sn_last_pm25_generation = ct_last_pm25_generation c,
            sn_last_pm25_observed_at = ct_last_pm25_observed_at c,
            sn_pending_upshift = po_upshift (ct_policy c), sn_pending_downshifts = downshifts,
            sn_command_state = ct_command_state c, sn_last_error_type = ct_last_error_type c,
            sn_last_physical_fan = ct_last_physical_fan c,
            sn_last_command_fan = ct_last_command_fan c,
            sn_auto_redirect_state = ct_auto_redirect_state c,
            sn_controller_listeners = length (ct_listeners c),
            sn_actor_tasks = (if ct_actor c = Running then 1 else 0),
            sn_sample_tasks = (if ct_workers c SampleWork = None then 0 else 1),
            sn_timer_tasks = (if ct_workers c TimerWork = None then 0 else 1),
            sn_command_tasks = (if ct_workers c CommandWork = None then 0 else 1)\<rparr>))"

definition add_state_listener :: "nat \<Rightarrow> controller \<Rightarrow> controller" where
  "add_state_listener l c =
     c\<lparr>ct_listeners := (if l \<in> set (ct_listeners c) then ct_listeners c else ct_listeners c @ [l])\<rparr>"

definition remove_state_listener :: "nat \<Rightarrow> controller \<Rightarrow> controller" where
  "remove_state_listener l c = c\<lparr>ct_listeners := filter (\<lambda>x. x \<noteq> l) (ct_listeners c)\<rparr>"

text \<open>\<open>_publish\<close>: every listener is called with the snapshot; what a listener raises is swallowed.\<close>

definition publish :: "controller \<Rightarrow> (nat \<times> custom_auto_snapshot) list res" where
  "publish c =
     (case controller_snapshot c of
        Inl e \<Rightarrow> Inl e
      | Inr sn \<Rightarrow> Inr (map (\<lambda>l. (l, sn)) (ct_listeners c)))"

section \<open>The actor and its callers\<close>

text \<open>One turn of \<open>_run\<close>: take an event, handle it, publish; an exception that leaves the handler,
  or the snapshot, ends the actor task.\<close>

definition actor_turn :: "step_env \<Rightarrow> controller \<Rightarrow> (nat \<times> custom_auto_snapshot) list \<times> controller" where
  "actor_turn env c =
     (case ct_queue c of
        event # rest \<Rightarrow>
          if ct_actor c \<noteq> Running then ([], c)
          else (case handle env event (c\<lparr>ct_queue := rest\<rparr>) of
                  (Inl e, c) \<Rightarrow> ([], c\<lparr>ct_actor := Ended\<rparr>)
                | (Inr stop, c) \<Rightarrow>
                    (case publish c of
                       Inl e \<Rightarrow> ([], c\<lparr>ct_actor := Ended\<rparr>)
                     | Inr calls \<Rightarrow>
                         (calls, if stop then c\<lparr>ct_actor := Ended\<rparr> else c)))
      | [] \<Rightarrow> ([], c))"

definition start :: "controller \<Rightarrow> controller" where
  "start c = (if ct_actor c = NotStarted then c\<lparr>ct_actor := Running\<rparr> else c)"

definition enqueue_event :: "controller_event \<Rightarrow> (unit, controller) st" where
  "enqueue_event event c =
     (if ct_actor c \<noteq> Running then (Inl RuntimeError, c)
      else (Inr (), c\<lparr>ct_queue := ct_queue c @ [event]\<rparr>))"

text \<open>\<open>_control\<close> up to its \<open>await\<close>: the caller then waits for the future with this index.\<close>

definition control ::
    "control_action \<Rightarrow> custom_auto_options option \<Rightarrow> bool option \<Rightarrow> (nat, controller) st" where
  "control action options powered c =
     (if ct_actor c \<noteq> Running then (Inl RuntimeError, c)
      else let i = length (ct_controls c)
           in (Inr i, c\<lparr>ct_controls := ct_controls c @ [fut_pending],
                        ct_queue := ct_queue c @ [EvControl action i options powered]\<rparr>))"

definition activate :: "(nat, controller) st" where
  "activate = control Activate None None"

definition deactivate :: "(nat, controller) st" where
  "deactivate = control Deactivate None None"

definition ha_override :: "(nat, controller) st" where
  "ha_override = control Override None None"

definition begin_power_off :: "(nat, controller) st" where
  "begin_power_off = control BeginPowerOff None None"

definition finish_power_off :: "bool option \<Rightarrow> (nat, controller) st" where
  "finish_power_off powered = control FinishPowerOff None powered"

definition reconfigure :: "custom_auto_options \<Rightarrow> (nat, controller) st" where
  "reconfigure opts c =
     (if \<not> ao_enabled opts then (Inl ValueError, c) else control Reconfigure (Some opts) None c)"

text \<open>\<open>shutdown\<close>: nothing to wait for when the actor was never started; after the future and the
  actor task have finished the reference is dropped.\<close>

definition shutdown :: "(nat option, controller) st" where
  "shutdown c =
     (if ct_actor c = NotStarted then (Inr None, c)
      else st_bind (control Shutdown None None) (\<lambda>i. st_return (Some i)) c)"

definition shutdown_finished :: "controller \<Rightarrow> controller" where
  "shutdown_finished c = (if ct_actor c = Ended then c\<lparr>ct_actor := NotStarted\<rparr> else c)"

definition set_connection ::
    "bool \<Rightarrow> int \<Rightarrow> time option \<Rightarrow> time \<Rightarrow> (unit, controller) st" where
  "set_connection available generation observed_at clock =
     enqueue_event (EvConnection available generation
       (case observed_at of None \<Rightarrow> clock | Some t \<Rightarrow> t))"

definition set_powered :: "bool \<Rightarrow> (unit, controller) st" where
  "set_powered powered = enqueue_event (EvPower powered)"

definition observe :: "observation \<Rightarrow> (unit, controller) st" where
  "observe observation = enqueue_event (EvObservation observation)"

text \<open>A worker task ends: it reports its outcome to the queue under the serial, token and target
  it was started with.\<close>

datatype work_outcome = WorkSucceeded | WorkCancelled | WorkFailed exn

definition finish_work :: "nat \<Rightarrow> work_outcome \<Rightarrow> controller \<Rightarrow> controller" where
  "finish_work n outcome c =
     (if n < 1 \<or> length (ct_work c) < n \<or> wk_finished (wk c n) then c
      else
        let w = wk c n;
            done = (case outcome of
                WorkSucceeded \<Rightarrow> EvWorkDone (wk_kind w) n (wk_token w) True False (wk_target w) None
              | WorkCancelled \<Rightarrow> EvWorkDone (wk_kind w) n (wk_token w) False True (wk_target w) None
              | WorkFailed e \<Rightarrow>
                  EvWorkDone (wk_kind w) n (wk_token w) False False (wk_target w) (Some e))
        in c\<lparr>ct_queue := ct_queue c @ [done],
             ct_work := upd_at (n - 1) (\<lambda>w. w\<lparr>wk_finished := True\<rparr>) (ct_work c)\<rparr>)"

text \<open>Everything that can happen to a controller, as one input type.\<close>

datatype controller_input =
    InStart
  | InControl control_action "bool option"
  | InReconfigure custom_auto_options
  | InShutdown
  | InShutdownFinished
  | InCancelCaller nat
  | InConnection bool int "time option" time
  | InPower bool
  | InObserve observation
  | InFinish nat work_outcome
  | InTurn step_env
  | InListen nat
  | InUnlisten nat

fun controller_step :: "controller \<Rightarrow> controller_input \<Rightarrow> controller" where
  "controller_step c InStart = start c"
| "controller_step c (InControl action powered) = snd (control action None powered c)"
| "controller_step c (InReconfigure opts) = snd (reconfigure opts c)"
| "controller_step c InShutdown = snd (shutdown c)"
| "controller_step c InShutdownFinished = shutdown_finished c"
| "controller_step c (InCancelCaller i) =
     c\<lparr>ct_controls := upd_at i (fut_settle Cancelled) (ct_controls c)\<rparr>"
| "controller_step c (InConnection available generation observed_at clock) =
     snd (set_connection available generation observed_at clock c)"
| "controller_step c (InPower powered) = snd (set_powered powered c)"
| "controller_step c (InObserve observation) = snd (observe observation c)"
| "controller_step c (InFinish n outcome) = finish_work n outcome c"
| "controller_step c (InTurn env) = snd (actor_turn env c)"
| "controller_step c (InListen l) = add_state_listener l c"
| "controller_step c (InUnlisten l) = remove_state_listener l c"

end
