(* ===== verification/Auto_Controller_Safety.thy ===== *)
theory Auto_Controller_Safety
  imports Auto_Controller
begin

text \<open>
  What the Custom Auto actor guarantees: the invariant of its workers, kept by every input, and
  the safety of its commands.
\<close>

section \<open>What policy results do to the pending command\<close>

lemma policy_emit_pending:
  "policy_emit s opts level = Inr r \<Longrightarrow> \<exists>m. pr_target r = Some m \<and> po_pending_target (pr_state r) = Some m"
  using policy_emit_Inr by blast

lemma policy_result_pending:
  "policy_result s opts None b = Inr r \<Longrightarrow>
   pr_target r = None \<and> po_pending_target (pr_state r) = po_pending_target s"
  by (auto dest: policy_result_Inr)

definition emits_or_keeps :: "policy_result \<Rightarrow> policy_state \<Rightarrow> bool" where
  "emits_or_keeps r s \<longleftrightarrow>
     (case pr_target r of
        None \<Rightarrow> po_pending_target (pr_state r) = po_pending_target s
      | Some m \<Rightarrow> po_pending_target (pr_state r) = Some m)"

lemma emits_or_keeps_intros:
  "policy_emit s opts level = Inr r \<Longrightarrow> emits_or_keeps r s0"
  "policy_result s opts None b = Inr r \<Longrightarrow> po_pending_target s = po_pending_target s0 \<Longrightarrow>
   emits_or_keeps r s0"
  by (auto simp: emits_or_keeps_def dest!: policy_emit_pending policy_result_pending)

lemma hysteresis_emits_or_keeps:
  assumes "evaluate_hysteresis s opts c desired revision obs_at = Inr r"
    and "po_pending_target s = po_pending_target s0"
  shows "emits_or_keeps r s0"
  using assms
  by (auto simp: evaluate_hysteresis_def Let_def intro: emits_or_keeps_intros
      split: if_splits option.splits)

lemma accepted_emits_or_keeps:
  assumes "evaluate_accepted_observation s opts desired revision obs_at = Inr r"
    and "po_pending_target s = po_pending_target s0"
  shows "emits_or_keeps r s0"
  using assms
  by (auto simp: evaluate_accepted_observation_def Let_def intro: emits_or_keeps_intros
      dest: hysteresis_emits_or_keeps split: if_splits option.splits)

lemma reconcile_emits_or_keeps:
  assumes "reconcile_deferred_observation s opts = Inr r"
  shows "emits_or_keeps r s"
  using assms
  by (auto simp: reconcile_deferred_observation_def Let_def intro: emits_or_keeps_intros
      dest: accepted_emits_or_keeps split: option.splits)

lemma observation_emits_or_keeps:
  assumes "evaluate_observation s opts pm25 revision obs_at = Inr r"
  shows "emits_or_keeps r s \<and> (pr_target r \<noteq> None \<longrightarrow> po_pending_target s = None)"
proof (cases "po_pending_target s")
  case None
  with assms show ?thesis
    by (auto simp: evaluate_observation_def Let_def intro: emits_or_keeps_intros
        accepted_emits_or_keeps split: option.splits if_splits)
next
  case (Some m)
  with pending_observation[OF assms] show ?thesis by (auto simp: emits_or_keeps_def)
qed

section \<open>The invariant\<close>

definition done_ok :: "work list \<Rightarrow> controller_event \<Rightarrow> bool" where
  "done_ok ws e \<longleftrightarrow>
     (case e of
        EvWorkDone kind n token succeeded cancelled target error \<Rightarrow>
          1 \<le> n \<and> n \<le> length ws \<and> kind = wk_kind (ws ! (n - 1)) \<and> token = wk_token (ws ! (n - 1)) \<and>
          target = wk_target (ws ! (n - 1)) \<and> wk_finished (ws ! (n - 1)) \<and>
          (cancelled \<longrightarrow> wk_cancelled (ws ! (n - 1)))
      | EvControl action i (Some opts) powered \<Rightarrow> options_wf opts
      | _ \<Rightarrow> True)"

definition owned :: "controller \<Rightarrow> nat \<Rightarrow> bool" where
  "owned c n \<longleftrightarrow> (\<exists>k. ct_workers c k = Some n)"

text \<open>The structure of the workers: each slot holds a live worker of its kind, every other worker
  ever started is cancelled or finished, and reports in the queue are truthful.\<close>

definition workers_ok :: "controller \<Rightarrow> bool" where
  "workers_ok c \<longleftrightarrow>
     (\<forall>k n. ct_workers c k = Some n \<longrightarrow>
        1 \<le> n \<and> n \<le> length (ct_work c) \<and> wk_kind (wk c n) = k \<and> \<not> wk_cancelled (wk c n)) \<and>
     (\<forall>n. 1 \<le> n \<and> n \<le> length (ct_work c) \<and> \<not> owned c n \<longrightarrow>
        wk_cancelled (wk c n) \<or> wk_finished (wk c n)) \<and>
     (\<forall>e \<in> set (ct_queue c). done_ok (ct_work c) e)"

definition authorised :: "controller \<Rightarrow> bool" where
  "authorised c \<longleftrightarrow>
     (\<forall>k n. ct_workers c k = Some n \<longrightarrow> wk_token (wk c n) = ct_token c \<and> usable c)"

definition command_ok :: "controller \<Rightarrow> bool" where
  "command_ok c \<longleftrightarrow>
     (case ct_workers c CommandWork of
        None \<Rightarrow> po_pending_target (ct_policy c) = None
      | Some n \<Rightarrow> wk_target (wk c n) \<noteq> None \<and> po_pending_target (ct_policy c) = wk_target (wk c n))"

definition controller_inv :: "controller \<Rightarrow> bool" where
  "controller_inv c \<longleftrightarrow>
     options_wf (ct_options c) \<and> policy_inv (ct_policy c) \<and> workers_ok c \<and> authorised c \<and> command_ok c"

text \<open>Work entries only grow: what a worker was started for stays, its marks stay set.\<close>

definition work_le :: "work list \<Rightarrow> work list \<Rightarrow> bool" where
  "work_le ws ws' \<longleftrightarrow> length ws \<le> length ws' \<and>
     (\<forall>i < length ws. wk_kind (ws' ! i) = wk_kind (ws ! i) \<and> wk_token (ws' ! i) = wk_token (ws ! i) \<and>
        wk_target (ws' ! i) = wk_target (ws ! i) \<and>
        (wk_cancelled (ws ! i) \<longrightarrow> wk_cancelled (ws' ! i)) \<and>
        (wk_finished (ws ! i) \<longrightarrow> wk_finished (ws' ! i)))"

lemma done_ok_mono:
  assumes "done_ok ws e" "work_le ws ws'"
  shows "done_ok ws' e"
proof (cases e)
  case (EvWorkDone kind n token succeeded cancelled target error)
  with assms have "n - 1 < length ws" by (auto simp: done_ok_def)
  with assms EvWorkDone show ?thesis by (auto simp: done_ok_def work_le_def)
qed (use assms in \<open>auto simp: done_ok_def\<close>)

lemma work_le_intros [intro]:
  "work_le ws ws"
  "work_le ws (ws @ xs)"
  "work_le ws (upd_at i (\<lambda>w. w\<lparr>wk_cancelled := True\<rparr>) ws)"
  "work_le ws (upd_at i (\<lambda>w. w\<lparr>wk_finished := True\<rparr>) ws)"
  by (auto simp: work_le_def nth_append)

text \<open>Two controllers with the same workers have the same worker structure.\<close>

lemma workers_ok_cong:
  "ct_work c' = ct_work c \<Longrightarrow> ct_workers c' = ct_workers c \<Longrightarrow> set (ct_queue c') \<subseteq> set (ct_queue c) \<Longrightarrow>
   workers_ok c \<Longrightarrow> workers_ok c'"
  unfolding workers_ok_def owned_def wk_def by auto

lemma owned_set:
  assumes "ct_workers c' = (ct_workers c)(k := Some m)" and "ct_workers c k = None"
  shows "owned c' n \<longleftrightarrow> n = m \<or> owned c n"
proof
  assume "owned c' n"
  then obtain j where "ct_workers c' j = Some n" by (auto simp: owned_def)
  with assms(1) show "n = m \<or> owned c n" by (cases "j = k") (auto simp: owned_def)
next
  assume "n = m \<or> owned c n"
  then show "owned c' n"
  proof
    assume "n = m"
    with assms(1) have "ct_workers c' k = Some n" by simp
    then show ?thesis unfolding owned_def by blast
  next
    assume "owned c n"
    then obtain j where "ct_workers c j = Some n" by (auto simp: owned_def)
    with assms have "ct_workers c' j = Some n" by auto
    then show ?thesis unfolding owned_def by blast
  qed
qed

lemma owned_clear:
  assumes "ct_workers c' = (ct_workers c)(k := None)" and "owned c n" and "\<not> owned c' n"
  shows "ct_workers c k = Some n"
proof -
  obtain j where j: "ct_workers c j = Some n" using assms(2) by (auto simp: owned_def)
  have "ct_workers c' j \<noteq> Some n" using assms(3) by (auto simp: owned_def)
  with j assms(1) show ?thesis by (cases "j = k") auto
qed

lemma workers_okD:
  "workers_ok c \<Longrightarrow> ct_workers c k = Some n \<Longrightarrow>
   1 \<le> n \<and> n \<le> length (ct_work c) \<and> wk_kind (wk c n) = k \<and> \<not> wk_cancelled (wk c n)"
  "workers_ok c \<Longrightarrow> 1 \<le> n \<Longrightarrow> n \<le> length (ct_work c) \<Longrightarrow> \<not> owned c n \<Longrightarrow>
   wk_cancelled (wk c n) \<or> wk_finished (wk c n)"
  "workers_ok c \<Longrightarrow> e \<in> set (ct_queue c) \<Longrightarrow> done_ok (ct_work c) e"
  unfolding workers_ok_def by blast+

lemma workers_okI:
  assumes "\<And>k n. ct_workers c k = Some n \<Longrightarrow>
      1 \<le> n \<and> n \<le> length (ct_work c) \<and> wk_kind (wk c n) = k \<and> \<not> wk_cancelled (wk c n)"
    and "\<And>n. 1 \<le> n \<Longrightarrow> n \<le> length (ct_work c) \<Longrightarrow> \<not> owned c n \<Longrightarrow>
      wk_cancelled (wk c n) \<or> wk_finished (wk c n)"
    and "\<And>e. e \<in> set (ct_queue c) \<Longrightarrow> done_ok (ct_work c) e"
  shows "workers_ok c"
  unfolding workers_ok_def using assms by blast

lemma workers_ok_drop:
  assumes "workers_ok c" and "ct_workers c k = Some n" and "wk_finished (wk c n)"
  shows "workers_ok (c\<lparr>ct_workers := (ct_workers c)(k := None)\<rparr>)"
proof (rule workers_okI)
  let ?c = "c\<lparr>ct_workers := (ct_workers c)(k := None)\<rparr>"
  have wk: "wk ?c m = wk c m" for m by (simp add: wk_def)
  fix j m assume "ct_workers ?c j = Some m"
  then have "ct_workers c j = Some m" by (simp split: if_splits)
  from workers_okD(1)[OF assms(1) this]
  show "1 \<le> m \<and> m \<le> length (ct_work ?c) \<and> wk_kind (wk ?c m) = j \<and> \<not> wk_cancelled (wk ?c m)"
    by (simp add: wk)
next
  let ?c = "c\<lparr>ct_workers := (ct_workers c)(k := None)\<rparr>"
  fix m assume m: "1 \<le> m" "m \<le> length (ct_work ?c)" "\<not> owned ?c m"
  have "wk_cancelled (wk c m) \<or> wk_finished (wk c m)"
  proof (cases "owned c m")
    case True
    with owned_clear[OF _ this m(3), of k] assms(2,3) show ?thesis by simp
  next
    case False
    with workers_okD(2)[OF assms(1) m(1)] m(2) show ?thesis by simp
  qed
  then show "wk_cancelled (wk ?c m) \<or> wk_finished (wk ?c m)" by (simp add: wk_def)
qed (use workers_okD(3)[OF assms(1)] in simp)

section \<open>Worker operations\<close>

lemma workers_ok_spawn:
  assumes "workers_ok c"
  shows "workers_ok (spawn kind target deadline c)"
proof (cases "ct_workers c kind")
  case None
  let ?c = "spawn kind target deadline c"
  let ?new = "Suc (length (ct_work c))"
  let ?w = "\<lparr>wk_kind = kind, wk_token = ct_token c, wk_target = target, wk_deadline = deadline,
      wk_cancelled = False, wk_finished = False\<rparr>"
  have ws: "ct_work ?c = ct_work c @ [?w]"
    and wo: "ct_workers ?c = (ct_workers c)(kind := Some ?new)" and q: "ct_queue ?c = ct_queue c"
    using None by (simp_all add: spawn_def)
  have old: "wk ?c n = wk c n" if "1 \<le> n" "n \<le> length (ct_work c)" for n
    using that by (auto simp: wk_def ws nth_append)
  have new: "wk ?c ?new = ?w" by (simp add: wk_def ws)
  note owned = owned_set[OF wo None]
  show ?thesis
  proof (rule workers_okI)
    fix k n assume k: "ct_workers ?c k = Some n"
    show "1 \<le> n \<and> n \<le> length (ct_work ?c) \<and> wk_kind (wk ?c n) = k \<and> \<not> wk_cancelled (wk ?c n)"
    proof (cases "k = kind")
      case True
      with k have "n = ?new" by (simp add: wo)
      with True show ?thesis by (simp add: new ws)
    next
      case False
      with k have "ct_workers c k = Some n" by (simp add: wo)
      from workers_okD(1)[OF assms this] show ?thesis by (simp add: old ws)
    qed
  next
    fix n assume n: "1 \<le> n" "n \<le> length (ct_work ?c)" "\<not> owned ?c n"
    then have "n \<le> length (ct_work c)" "\<not> owned c n" by (auto simp: ws owned le_Suc_eq)
    with n(1) workers_okD(2)[OF assms n(1)] show "wk_cancelled (wk ?c n) \<or> wk_finished (wk ?c n)"
      by (simp add: old)
  next
    fix e assume "e \<in> set (ct_queue ?c)"
    then have "done_ok (ct_work c) e" using workers_okD(3)[OF assms] q by simp
    then show "done_ok (ct_work ?c) e" unfolding ws by (rule done_ok_mono) blast
  qed
qed (use assms in \<open>simp add: spawn_def\<close>)

lemma workers_ok_cancel:
  assumes "workers_ok c"
  shows "workers_ok (cancel_kind env kind c)"
proof (cases "ct_workers c kind")
  case (Some m)
  let ?c = "cancel_kind env kind c"
  have ws: "ct_work ?c = upd_at (m - 1) (\<lambda>w. w\<lparr>wk_cancelled := True\<rparr>) (ct_work c)"
    and wo: "ct_workers ?c = (ct_workers c)(kind := None)" and q: "ct_queue ?c = ct_queue c"
    using Some by (simp_all add: cancel_kind_def)
  note m = workers_okD(1)[OF assms Some]
  have wk: "wk ?c n = (if n = m then (wk c n)\<lparr>wk_cancelled := True\<rparr> else wk c n)"
    if "1 \<le> n" "n \<le> length (ct_work c)" for n
    using that m by (auto simp: wk_def ws)
  show ?thesis
  proof (rule workers_okI)
    fix k n assume "ct_workers ?c k = Some n"
    then have k: "k \<noteq> kind" "ct_workers c k = Some n" by (simp_all add: wo split: if_splits)
    from workers_okD(1)[OF assms k(2)] k(1) m
    show "1 \<le> n \<and> n \<le> length (ct_work ?c) \<and> wk_kind (wk ?c n) = k \<and> \<not> wk_cancelled (wk ?c n)"
      by (auto simp: ws wk)
  next
    fix n assume n: "1 \<le> n" "n \<le> length (ct_work ?c)" "\<not> owned ?c n"
    then have len: "n \<le> length (ct_work c)" by (simp add: ws)
    show "wk_cancelled (wk ?c n) \<or> wk_finished (wk ?c n)"
    proof (cases "owned c n")
      case True
      from owned_clear[OF wo True n(3)] Some have "n = m" by simp
      with wk[OF n(1) len] show ?thesis by simp
    next
      case False
      from workers_okD(2)[OF assms n(1) len False] wk[OF n(1) len] show ?thesis by simp
    qed
  next
    fix e assume "e \<in> set (ct_queue ?c)"
    then have "done_ok (ct_work c) e" using workers_okD(3)[OF assms] q by simp
    then show "done_ok (ct_work ?c) e" unfolding ws by (rule done_ok_mono) blast
  qed
qed (use assms in \<open>simp add: cancel_kind_def\<close>)

lemma workers_ok_cancel_kinds:
  "workers_ok c \<Longrightarrow> workers_ok (cancel_kinds env kinds c)"
  unfolding cancel_kinds_def by (induction kinds arbitrary: c) (auto intro: workers_ok_cancel)

text \<open>Cancelling leaves everything but the workers and the error type alone.\<close>

definition same_actor :: "controller \<Rightarrow> controller \<Rightarrow> bool" where
  "same_actor c c' \<longleftrightarrow>
     c'\<lparr>ct_work := ct_work c, ct_workers := ct_workers c, ct_last_error_type := ct_last_error_type c\<rparr> = c"

lemma same_actor_refl [simp]: "same_actor c c"
  by (simp add: same_actor_def)

lemma same_actor_trans: "same_actor a b \<Longrightarrow> same_actor b c \<Longrightarrow> same_actor a c"
proof -
  assume ab: "same_actor a b" and bc: "same_actor b c"
  have "c\<lparr>ct_work := ct_work a, ct_workers := ct_workers a, ct_last_error_type := ct_last_error_type a\<rparr> =
      (c\<lparr>ct_work := ct_work b, ct_workers := ct_workers b, ct_last_error_type := ct_last_error_type b\<rparr>)
        \<lparr>ct_work := ct_work a, ct_workers := ct_workers a, ct_last_error_type := ct_last_error_type a\<rparr>"
    by simp
  also have "\<dots> = a" using ab bc by (simp add: same_actor_def)
  finally show ?thesis by (simp add: same_actor_def)
qed

lemma same_actor_fields:
  assumes "same_actor c c'"
  shows "ct_options c' = ct_options c" "ct_policy c' = ct_policy c" "ct_queue c' = ct_queue c"
    "ct_actor c' = ct_actor c" "ct_active c' = ct_active c" "ct_available c' = ct_available c"
    "ct_powered c' = ct_powered c" "ct_power_transition c' = ct_power_transition c"
    "ct_token c' = ct_token c" "usable c' = usable c" "ct_controls c' = ct_controls c"
    "ct_sample_barrier_observed_at c' = ct_sample_barrier_observed_at c"
    "ct_connection_generation c' = ct_connection_generation c"
    "ct_last_seen_air_revision c' = ct_last_seen_air_revision c"
    "ct_auto_redirect_state c' = ct_auto_redirect_state c"
proof -
  obtain ws wo e where c: "c = c'\<lparr>ct_work := ws, ct_workers := wo, ct_last_error_type := e\<rparr>"
    using assms unfolding same_actor_def by metis
  show "ct_options c' = ct_options c" "ct_policy c' = ct_policy c" "ct_queue c' = ct_queue c"
    "ct_actor c' = ct_actor c" "ct_active c' = ct_active c" "ct_available c' = ct_available c"
    "ct_powered c' = ct_powered c" "ct_power_transition c' = ct_power_transition c"
    "ct_token c' = ct_token c" "usable c' = usable c" "ct_controls c' = ct_controls c"
    "ct_sample_barrier_observed_at c' = ct_sample_barrier_observed_at c"
    "ct_connection_generation c' = ct_connection_generation c"
    "ct_last_seen_air_revision c' = ct_last_seen_air_revision c"
    "ct_auto_redirect_state c' = ct_auto_redirect_state c"
    by (simp_all add: c ct_token_def usable_def)
qed

lemma same_actor_cancel_kind: "same_actor c (cancel_kind env kind c)"
  by (cases "ct_workers c kind") (simp_all add: cancel_kind_def same_actor_def)

lemma same_actor_cancel_kinds: "same_actor c (cancel_kinds env kinds c)"
  unfolding cancel_kinds_def
  by (induction kinds arbitrary: c) (auto intro: same_actor_cancel_kind same_actor_trans)

lemma cancel_kind_workers: "ct_workers (cancel_kind env kind c) = (ct_workers c)(kind := None)"
  by (cases "ct_workers c kind") (auto simp: cancel_kind_def)

lemma cancel_all_workers: "ct_workers (cancel_kinds env WORK_KINDS c) = (\<lambda>_. None)"
proof
  fix k
  show "ct_workers (cancel_kinds env WORK_KINDS c) k = None"
    by (cases k) (simp_all add: cancel_kinds_def WORK_KINDS_def cancel_kind_workers)
qed

lemma cancel_timer_other:
  assumes "workers_ok c" and "k \<noteq> TimerWork"
  shows "ct_workers (cancel_kinds env [TimerWork] c) k = ct_workers c k \<and>
    (\<forall>n. ct_workers c k = Some n \<longrightarrow> wk (cancel_kinds env [TimerWork] c) n = wk c n)"
proof (cases "ct_workers c TimerWork")
  case (Some m)
  note m = workers_okD(1)[OF assms(1) Some]
  have "m \<noteq> n \<and> 1 \<le> n \<and> n \<le> length (ct_work c) \<and> 1 \<le> m" if "ct_workers c k = Some n" for n
    using workers_okD(1)[OF assms(1) that] m assms(2) by auto
  with Some assms(2) show ?thesis
    by (auto simp: cancel_kinds_def cancel_kind_def wk_def)
qed (simp add: cancel_kinds_def cancel_kind_def)

lemma spawn_fields [simp]:
  "ct_options (spawn k x d c) = ct_options c" "ct_policy (spawn k x d c) = ct_policy c"
  "ct_token (spawn k x d c) = ct_token c" "usable (spawn k x d c) = usable c"
  "ct_actor (spawn k x d c) = ct_actor c" "ct_queue (spawn k x d c) = ct_queue c"
  "ct_sample_barrier_observed_at (spawn k x d c) = ct_sample_barrier_observed_at c"
  "ct_controls (spawn k x d c) = ct_controls c"
  "ct_active (spawn k x d c) = ct_active c" "ct_power_transition (spawn k x d c) = ct_power_transition c"
  by (simp_all add: spawn_def ct_token_def usable_def)

lemma spawn_workers:
  "ct_workers c k = None \<Longrightarrow> ct_workers (spawn k x d c) = (ct_workers c)(k := Some (Suc (length (ct_work c))))"
  "ct_workers c k = Some n \<Longrightarrow> spawn k x d c = c"
  by (simp_all add: spawn_def)

lemma wk_spawn:
  "1 \<le> n \<Longrightarrow> n \<le> length (ct_work c) \<Longrightarrow> wk (spawn k x d c) n = wk c n"
  "ct_workers c k = None \<Longrightarrow> wk_token (wk (spawn k x d c) (Suc (length (ct_work c)))) = ct_token c"
  "ct_workers c k = None \<Longrightarrow> wk_target (wk (spawn k x d c) (Suc (length (ct_work c)))) = x"
  by (auto simp: spawn_def wk_def nth_append)

lemma authorised_spawn:
  assumes "workers_ok c" "authorised c" "usable c"
  shows "authorised (spawn k x d c)"
proof (cases "ct_workers c k")
  case None
  show ?thesis
    unfolding authorised_def
  proof (intro allI impI)
    fix j n assume j: "ct_workers (spawn k x d c) j = Some n"
    show "wk_token (wk (spawn k x d c) n) = ct_token (spawn k x d c) \<and> usable (spawn k x d c)"
    proof (cases "j = k")
      case True
      with j None have "n = Suc (length (ct_work c))" by (simp add: spawn_workers)
      with None assms(3) show ?thesis by (simp add: wk_spawn)
    next
      case False
      with j None have "ct_workers c j = Some n" by (simp add: spawn_workers)
      with workers_okD(1)[OF assms(1) this] assms(2,3) show ?thesis by (simp add: wk_spawn authorised_def)
    qed
  qed
qed (use assms in \<open>simp add: spawn_workers\<close>)

lemma command_ok_spawn:
  assumes "workers_ok c" "command_ok c" "k \<noteq> CommandWork"
  shows "command_ok (spawn k x d c)"
proof (cases "ct_workers c k")
  case None
  then have "ct_workers (spawn k x d c) CommandWork = ct_workers c CommandWork"
    using assms(3) by (simp add: spawn_workers)
  with assms(2) workers_okD(1)[OF assms(1), of CommandWork] show ?thesis
    by (auto simp: command_ok_def wk_spawn split: option.splits)
qed (use assms in \<open>simp add: spawn_workers\<close>)

lemma controller_inv_spawn:
  assumes "controller_inv c" "usable c" "k \<noteq> CommandWork"
  shows "controller_inv (spawn k x d c)"
  using assms by (simp add: controller_inv_def workers_ok_spawn authorised_spawn command_ok_spawn)

text \<open>Everything but the pending command is in order.\<close>

definition ready_inv :: "controller \<Rightarrow> bool" where
  "ready_inv c \<longleftrightarrow>
     options_wf (ct_options c) \<and> policy_inv (ct_policy c) \<and> workers_ok c \<and> authorised c \<and> usable c"

lemma controller_inv_send_command:
  assumes "ready_inv c" "ct_workers c CommandWork = None" "po_pending_target (ct_policy c) = Some t"
  shows "controller_inv (send_command t c)"
proof -
  let ?c = "c\<lparr>ct_command_state := ''sending'', ct_last_error_type := None\<rparr>"
  have same: "ct_token ?c = ct_token c" "usable ?c = usable c" "\<And>n. wk ?c n = wk c n"
    by (simp_all add: ct_token_def usable_def wk_def)
  have ok: "workers_ok ?c" using assms(1) by (auto simp: ready_inv_def intro: workers_ok_cong)
  have auth: "authorised ?c" using assms(1) same by (simp add: ready_inv_def authorised_def)
  have "command_ok (spawn CommandWork (Some t) None ?c)"
    using assms(2,3) wk_spawn(3)[of ?c CommandWork "Some t" None] by (simp add: command_ok_def spawn_workers)
  with ok auth same assms(1) show ?thesis
    by (simp add: send_command_def controller_inv_def workers_ok_spawn authorised_spawn ready_inv_def)
qed

lemma controller_inv_drop:
  assumes "controller_inv c" "ct_workers c k = Some n" "wk_finished (wk c n)" "k \<noteq> CommandWork"
  shows "controller_inv (c\<lparr>ct_workers := (ct_workers c)(k := None)\<rparr>)"
proof -
  let ?c = "c\<lparr>ct_workers := (ct_workers c)(k := None)\<rparr>"
  have same: "ct_token ?c = ct_token c" "usable ?c = usable c" "\<And>n. wk ?c n = wk c n"
    by (simp_all add: ct_token_def usable_def wk_def)
  have "workers_ok ?c" using assms by (auto simp: controller_inv_def intro: workers_ok_drop)
  moreover have "authorised ?c" using assms same by (auto simp: controller_inv_def authorised_def split: if_splits)
  moreover have "command_ok ?c"
    using assms same by (cases "ct_workers c CommandWork") (simp_all add: controller_inv_def command_ok_def)
  ultimately show ?thesis using assms(1) by (simp add: controller_inv_def)
qed

lemma controller_inv_request_sample:
  assumes "controller_inv c" "usable c"
  shows "controller_inv (request_sample c)"
proof (cases "ct_workers c SampleWork")
  case None
  then show ?thesis using controller_inv_spawn[OF assms] by (simp add: request_sample_def)
next
  case (Some n)
  show ?thesis
  proof (cases "wk_finished (wk c n)")
    case True
    from controller_inv_drop[OF assms(1) Some True] have
      "controller_inv (c\<lparr>ct_workers := (ct_workers c)(SampleWork := None)\<rparr>)" by simp
    moreover have "usable (c\<lparr>ct_workers := (ct_workers c)(SampleWork := None)\<rparr>)"
      using assms(2) by (simp add: usable_def)
    ultimately show ?thesis using Some True controller_inv_spawn by (simp add: request_sample_def)
  qed (use Some assms in \<open>simp add: request_sample_def\<close>)
qed

lemma controller_inv_request_fresh:
  "controller_inv c \<Longrightarrow> controller_inv (request_fresh_if_usable c)"
  by (simp add: request_fresh_if_usable_def controller_inv_request_sample)

lemma request_sample_fields [simp]:
  "usable (request_sample c) = usable c" "ct_power_transition (request_sample c) = ct_power_transition c"
  "ct_policy (request_sample c) = ct_policy c" "ct_actor (request_sample c) = ct_actor c"
  "ct_controls (request_sample c) = ct_controls c"
  "ct_queue (request_sample c) = ct_queue c" "ct_active (request_sample c) = ct_active c"
  "ct_sample_barrier_observed_at (request_sample c) = ct_sample_barrier_observed_at c"
  by (simp_all add: request_sample_def usable_def spawn_def split: option.split)

section \<open>Policy results\<close>

lemma controller_inv_apply:
  assumes ready: "ready_inv c" and pending: "case pr_target r of
      None \<Rightarrow> command_ok c
    | Some t \<Rightarrow> po_pending_target (ct_policy c) = Some t \<and> ct_workers c CommandWork = None"
  shows "controller_inv (apply_policy_result env r c)"
proof -
  let ?c1 = "cancel_kinds env [TimerWork] c"
  have wo: "workers_ok c" using ready by (simp add: ready_inv_def)
  note f = same_actor_fields[OF same_actor_cancel_kinds[of c env "[TimerWork]"]]
  note oth = cancel_timer_other[OF wo, of _ env]
  have timer: "ct_workers ?c1 TimerWork = None"
    by (simp add: cancel_kinds_def cancel_kind_workers)
  have auth1: "authorised ?c1"
    unfolding authorised_def
  proof (intro allI impI)
    fix k n assume k: "ct_workers ?c1 k = Some n"
    with timer have "k \<noteq> TimerWork" by auto
    with oth[of k] k ready show "wk_token (wk ?c1 n) = ct_token ?c1 \<and> usable ?c1"
      by (simp add: ready_inv_def authorised_def f)
  qed
  have r1: "ready_inv ?c1"
    using ready auth1 by (simp add: ready_inv_def f workers_ok_cancel_kinds)
  have cmd1: "ct_workers ?c1 CommandWork = ct_workers c CommandWork"
    "ct_workers c CommandWork = Some n \<Longrightarrow> wk ?c1 n = wk c n" for n
    using oth[of CommandWork] by simp_all
  have us: "usable c" "\<not> ct_power_transition c" using ready by (simp_all add: ready_inv_def usable_def)
  let ?c2 = "case pr_target r of
      Some t \<Rightarrow> if ct_workers ?c1 CommandWork = None \<and> \<not> ct_power_transition ?c1
                then send_command t ?c1 else ?c1
    | None \<Rightarrow> ?c1"
  have c2: "controller_inv ?c2 \<and> usable ?c2"
  proof (cases "pr_target r")
    case None
    with pending cmd1 have "command_ok ?c1" by (auto simp: command_ok_def f split: option.splits)
    with None r1 us show ?thesis by (simp add: controller_inv_def ready_inv_def f)
  next
    case (Some t)
    with pending have "po_pending_target (ct_policy ?c1) = Some t" "ct_workers ?c1 CommandWork = None"
      by (simp_all add: f cmd1)
    from controller_inv_send_command[OF r1 this(2,1)] this Some us show ?thesis
      by (simp add: f send_command_def) (simp add: usable_def f)
  qed
  let ?c3 = "if pr_request_sample r then request_sample ?c2 else ?c2"
  have c3: "controller_inv ?c3 \<and> usable ?c3"
    using c2 by (auto intro: controller_inv_request_sample)
  then show ?thesis
    unfolding apply_policy_result_def Let_def
    by (auto intro: controller_inv_spawn split: option.split)
qed

section \<open>Invalidation\<close>

definition barrier_after :: "time option \<Rightarrow> time \<Rightarrow> time option" where
  "barrier_after mark candidate = Some (case mark of None \<Rightarrow> candidate | Some t \<Rightarrow> max t candidate)"

definition idle_policy :: policy_state where
  "idle_policy =
     \<lparr>po_confirmed_level = None, po_last_revision = None, po_upshift = None, po_downshifts = [],
      po_pending_target = None, po_deferred = None, po_failed_revision = None, po_failed_level = None\<rparr>"

lemma initial_policy_state_None [simp]: "initial_policy_state None opts = Inr idle_policy"
  by (simp add: initial_policy_state_def level_for_mode_def idle_policy_def)

lemma policy_inv_idle [simp]: "policy_inv idle_policy"
  by (simp add: policy_inv_def idle_policy_def level_ok_def)

text \<open>After an invalidation no worker is left, the policy is back at its start and the barrier is
  not earlier than the given time; nothing else the actor decides by has changed.\<close>

definition invalidated :: "step_env \<Rightarrow> time option \<Rightarrow> controller \<Rightarrow> controller \<Rightarrow> bool" where
  "invalidated env barrier c c' \<longleftrightarrow>
     ct_workers c' = (\<lambda>_. None) \<and> length (ct_work c') = length (ct_work c) \<and>
     ct_policy c' = idle_policy \<and> ct_options c' = ct_options c \<and>
     ct_active c' = ct_active c \<and> usable c' = usable c \<and> ct_actor c' = ct_actor c \<and>
     ct_queue c' = ct_queue c \<and> ct_auto_redirect_state c' = ct_auto_redirect_state c \<and>
     ct_sample_barrier_observed_at c' = barrier_after (ct_sample_barrier_observed_at c)
       (case barrier of None \<Rightarrow> se_now env | Some t \<Rightarrow> t)"

lemma length_cancel_kinds: "length (ct_work (cancel_kinds env kinds c)) = length (ct_work c)"
  unfolding cancel_kinds_def
  by (induction kinds arbitrary: c) (auto simp: cancel_kind_def split: option.split)

lemma invalidate_ok:
  assumes "options_wf (ct_options c)" and "workers_ok c"
  shows "\<exists>c'. invalidate_operational env True barrier c = (Inr (), c') \<and> controller_inv c' \<and>
    invalidated env barrier c c'"
proof -
  let ?c1 = "c\<lparr>ct_activation_generation := ct_activation_generation c + 1,
      ct_sample_barrier_revision := ct_last_seen_air_revision c,
      ct_sample_barrier_observed_at := (case ct_sample_barrier_observed_at c of
         None \<Rightarrow> Some (case barrier of None \<Rightarrow> se_now env | Some t \<Rightarrow> t)
       | Some t \<Rightarrow> Some (max t (case barrier of None \<Rightarrow> se_now env | Some t \<Rightarrow> t)))\<rparr>"
  let ?c2 = "cancel_kinds env WORK_KINDS ?c1"
  let ?c3 = "?c2\<lparr>ct_policy := idle_policy, ct_command_state := ''idle'', ct_last_error_type := None\<rparr>"
  have run: "invalidate_operational env True barrier c = (Inr (), ?c3)"
    by (simp add: invalidate_operational_def Let_def)
  have "workers_ok ?c1" using assms(2) by (rule workers_ok_cong[rotated 3]) simp_all
  then have w2: "workers_ok ?c2" by (rule workers_ok_cancel_kinds)
  have w3: "workers_ok ?c3" using w2 by (rule workers_ok_cong[rotated 3]) simp_all
  note f = same_actor_fields[OF same_actor_cancel_kinds[of ?c1 env WORK_KINDS]]
  have none: "ct_workers ?c3 = (\<lambda>_. None)" by (simp add: cancel_all_workers)
  have opts: "ct_options ?c3 = ct_options c" by (simp add: f)
  have "controller_inv ?c3"
    using w3 none opts assms(1)
    by (simp add: controller_inv_def authorised_def command_ok_def) (simp add: idle_policy_def)
  moreover have "invalidated env barrier c ?c3"
    unfolding invalidated_def using none opts
    by (simp add: f usable_def barrier_after_def length_cancel_kinds split: option.split)
  ultimately show ?thesis using run by blast
qed

lemma invalidate_and_request_ok:
  assumes "options_wf (ct_options c)" and "workers_ok c"
  shows "\<exists>c1. invalidate_and_request env barrier c = (Inr (), request_fresh_if_usable c1) \<and>
    controller_inv c1 \<and> invalidated env barrier c c1"
  using invalidate_ok[OF assms, of env barrier] by (auto simp: invalidate_and_request_def st_bind_def)

section \<open>Events\<close>

text \<open>A handler that succeeds and leaves the invariant in place.\<close>

definition ok_result :: "'a res \<times> controller \<Rightarrow> bool" where
  "ok_result r \<longleftrightarrow> (\<exists>x. fst r = Inr x) \<and> controller_inv (snd r)"

lemma ok_result_simps [simp]:
  "ok_result (Inr x, c) \<longleftrightarrow> controller_inv c"
  by (simp add: ok_result_def)

lemma ok_result_invalidate:
  assumes "options_wf (ct_options c)" and "workers_ok c"
  shows "ok_result (invalidate_and_request env barrier c)" "ok_result (invalidate_operational env True barrier c)"
  using invalidate_and_request_ok[OF assms, of env barrier] invalidate_ok[OF assms, of env barrier]
    controller_inv_request_fresh by auto

lemma ok_result_st_return: "ok_result (m c) \<Longrightarrow> ok_result (st_bind m (\<lambda>_. st_return x) c)"
  by (cases "m c") (auto simp: st_bind_def ok_result_def)

lemma controller_invD:
  "controller_inv c \<Longrightarrow> options_wf (ct_options c)"
  "controller_inv c \<Longrightarrow> policy_inv (ct_policy c)"
  "controller_inv c \<Longrightarrow> workers_ok c"
  "controller_inv c \<Longrightarrow> authorised c"
  "controller_inv c \<Longrightarrow> command_ok c"
  by (simp_all add: controller_inv_def)

text \<open>Fields outside the invariant may change freely.\<close>

lemma controller_inv_cong:
  assumes "controller_inv c" "ct_work c' = ct_work c" "ct_workers c' = ct_workers c"
    "set (ct_queue c') \<subseteq> set (ct_queue c)" "ct_options c' = ct_options c" "ct_policy c' = ct_policy c"
    "ct_token c' = ct_token c" "usable c \<longrightarrow> usable c'"
  shows "controller_inv c'"
proof -
  have wk: "wk c' n = wk c n" for n using assms(2) by (simp add: wk_def)
  have "workers_ok c'" by (rule workers_ok_cong[OF assms(2,3,4)]) (rule controller_invD(3)[OF assms(1)])
  moreover have "command_ok c'"
    using controller_invD(5)[OF assms(1)] assms(3,6) wk
    by (cases "ct_workers c CommandWork") (simp_all add: command_ok_def)
  ultimately show ?thesis using assms wk by (simp add: controller_inv_def authorised_def)
qed

lemma handle_connection_ok:
  assumes "controller_inv c"
  shows "ok_result (handle_connection env available generation obs_at c)"
proof -
  let ?c = "c\<lparr>ct_available := available, ct_connection_generation := generation,
      ct_last_seen_air_revision := (if generation \<noteq> ct_connection_generation c then None
         else ct_last_seen_air_revision c)\<rparr>"
  have "workers_ok ?c" using controller_invD(3)[OF assms] by (rule workers_ok_cong[rotated 3]) simp_all
  with controller_invD(1)[OF assms] have 1: "ok_result (invalidate_and_request env (Some obs_at) ?c)"
    by (intro ok_result_invalidate) simp_all
  have 2: "controller_inv (c\<lparr>ct_available := available\<rparr>)" if "available" 
    using assms by (rule controller_inv_cong) (use that in \<open>auto simp: ct_token_def usable_def\<close>)
  show ?thesis using assms 1 2 by (auto simp: handle_connection_def Let_def)
qed

lemma handle_power_ok:
  assumes "controller_inv c"
  shows "ok_result (handle_power env powered c)"
proof -
  have "workers_ok (c\<lparr>ct_powered := powered\<rparr>)"
    using controller_invD(3)[OF assms] by (rule workers_ok_cong[rotated 3]) simp_all
  with controller_invD(1)[OF assms] have "ok_result (invalidate_and_request env None (c\<lparr>ct_powered := powered\<rparr>))"
    by (intro ok_result_invalidate) simp_all
  then show ?thesis
  proof (cases "powered = ct_powered c")
    case True
    with assms show ?thesis by (simp add: handle_power_def)
  next
    case False
    then have "handle_power env powered c = invalidate_and_request env None (c\<lparr>ct_powered := powered\<rparr>)"
      by (simp only: handle_power_def if_False)
    with \<open>ok_result (invalidate_and_request env None (c\<lparr>ct_powered := powered\<rparr>))\<close> show ?thesis by simp
  qed
qed

lemma handle_fan_mode_ok:
  assumes "controller_inv c"
  shows "ok_result (handle_fan_mode env p mode c)"
proof -
  have inv: "controller_inv (c\<lparr>ct_last_physical_fan := x\<rparr>)" "controller_inv (c\<lparr>ct_last_command_fan := y\<rparr>)"
    for x y
    by (rule controller_inv_cong[OF assms]; simp add: ct_token_def usable_def)+
  have "workers_ok (c\<lparr>ct_last_physical_fan := x, ct_auto_redirect_state := s\<rparr>)"
    "workers_ok (c\<lparr>ct_last_physical_fan := x, ct_active := False, ct_auto_redirect_state := s\<rparr>)" for x s
    using controller_invD(3)[OF assms] by (rule workers_ok_cong[rotated 3]; simp)+
  with controller_invD(1)[OF assms]
  have "ok_result (invalidate_and_request env None (c\<lparr>ct_last_physical_fan := x, ct_auto_redirect_state := s\<rparr>))"
    "ok_result (invalidate_operational env True None
       (c\<lparr>ct_last_physical_fan := x, ct_active := False, ct_auto_redirect_state := s\<rparr>))" for x s
    by (intro ok_result_invalidate; simp)+
  with inv assms show ?thesis by (simp add: handle_fan_mode_def Let_def)
qed

lemma adopt_result_ok:
  assumes "good_result r" and "options_wf (ct_options c)" and "workers_ok c" and "authorised c" and "usable c"
    and "\<And>x. r = Inr x \<Longrightarrow> case pr_target x of
        None \<Rightarrow> po_pending_target (pr_state x) = po_pending_target (ct_policy c) \<and> command_ok c
      | Some t \<Rightarrow> po_pending_target (pr_state x) = Some t \<and> ct_workers c CommandWork = None"
  shows "ok_result (adopt_result env r c)"
proof -
  obtain x where x: "r = Inr x" "policy_inv (pr_state x)" using assms(1) by (auto simp: good_result_def)
  let ?c = "c\<lparr>ct_policy := pr_state x\<rparr>"
  have same: "ct_token ?c = ct_token c" "usable ?c = usable c" "\<And>n. wk ?c n = wk c n"
    by (simp_all add: ct_token_def usable_def wk_def)
  have "workers_ok ?c" using assms(3) by (rule workers_ok_cong[rotated 3]) simp_all
  with assms x same have ready: "ready_inv ?c" by (simp add: ready_inv_def authorised_def)
  have "controller_inv (apply_policy_result env x ?c)"
  proof (rule controller_inv_apply[OF ready])
    show "case pr_target x of None \<Rightarrow> command_ok ?c
      | Some t \<Rightarrow> po_pending_target (ct_policy ?c) = Some t \<and> ct_workers ?c CommandWork = None"
      using assms(6)[OF x(1)] same
      by (cases "pr_target x"; cases "ct_workers c CommandWork") (simp_all add: command_ok_def)
  qed
  with x(1) show ?thesis by (simp add: adopt_result_def)
qed

lemma handle_air_quality_ok:
  assumes inv: "controller_inv c"
  shows "ok_result (handle_air_quality env p pm25 c)"
proof (cases "ob_generation p \<noteq> ct_connection_generation c \<or>
    not_newer (ob_revision p) (ct_last_seen_air_revision c)")
  case True
  with inv show ?thesis by (simp add: handle_air_quality_def)
next
  case False
  let ?c1 = "c\<lparr>ct_last_seen_air_revision := Some (ob_revision p)\<rparr>"
  have i1: "controller_inv ?c1"
    using inv by (rule controller_inv_cong) (simp_all add: ct_token_def usable_def)
  show ?thesis
  proof (cases "\<not> usable ?c1 \<or> not_newer (ob_revision p) (ct_sample_barrier_revision ?c1) \<or>
      before_mark (ob_observed_at p) (ct_sample_barrier_observed_at ?c1)")
    case True
    with False i1 show ?thesis by (simp add: handle_air_quality_def Let_def)
  next
    case fresh: False
    let ?c2 = "remember_reading p pm25 ?c1"
    have i2: "controller_inv ?c2" and u2: "usable ?c2"
      using i1 fresh
      by (auto simp: remember_reading_def usable_def split: option.split
          elim!: controller_inv_cong) (simp_all add: ct_token_def)
    note good = evaluate_observation_good[OF controller_invD(1,2)[OF i2], of pm25 "ob_revision p" "ob_observed_at p"]
    then obtain r where r: "evaluate_observation (ct_policy ?c2) (ct_options ?c2) pm25 (ob_revision p)
        (ob_observed_at p) = Inr r" by (auto simp: good_result_def)
    note keep = observation_emits_or_keeps[OF r]
    have "ok_result (adopt_result env (Inr r) ?c2)"
    proof (rule adopt_result_ok[OF _ controller_invD(1,3,4)[OF i2] u2])
      fix x assume "Inr r = (Inr x :: policy_result res)"
      with keep controller_invD(5)[OF i2] show "case pr_target x of
          None \<Rightarrow> po_pending_target (pr_state x) = po_pending_target (ct_policy ?c2) \<and> command_ok ?c2
        | Some t \<Rightarrow> po_pending_target (pr_state x) = Some t \<and> ct_workers ?c2 CommandWork = None"
        by (cases "pr_target r"; cases "ct_workers ?c2 CommandWork")
          (auto simp: emits_or_keeps_def command_ok_def)
    qed (use good r in simp)
    with False fresh r i2 show ?thesis by (simp add: handle_air_quality_def Let_def)
  qed
qed

lemma send_command_fields [simp]:
  "usable (send_command t c) = usable c" "ct_actor (send_command t c) = ct_actor c"
  "ct_controls (send_command t c) = ct_controls c"
  "ct_queue (send_command t c) = ct_queue c" "ct_active (send_command t c) = ct_active c"
  "ct_policy (send_command t c) = ct_policy c"
  "ct_sample_barrier_observed_at (send_command t c) = ct_sample_barrier_observed_at c"
  by (simp_all add: send_command_def usable_def spawn_def)

lemma usable_policy [simp]: "usable (c\<lparr>ct_policy := x\<rparr>) = usable c"
  by (simp add: usable_def)

lemma apply_policy_fields:
  "usable (apply_policy_result env r c) = usable c"
  "ct_actor (apply_policy_result env r c) = ct_actor c"
  "ct_queue (apply_policy_result env r c) = ct_queue c"
  "ct_controls (apply_policy_result env r c) = ct_controls c"
  "ct_active (apply_policy_result env r c) = ct_active c"
  "ct_sample_barrier_observed_at (apply_policy_result env r c) = ct_sample_barrier_observed_at c"
  using same_actor_fields[OF same_actor_cancel_kinds[of c env "[TimerWork]"]]
  by (simp_all add: apply_policy_result_def Let_def split: option.split)

lemma adopt_result_usable: "usable (snd (adopt_result env r c)) = usable c"
  by (cases r) (simp_all add: adopt_result_def apply_policy_fields)

lemma adopt_boundary_ok:
  assumes "controller_inv c" and "usable c"
  shows "ok_result (adopt_result env (evaluate_boundary (ct_policy c) (ct_options c) now) c)"
proof (rule adopt_result_ok[OF evaluate_boundary_good[OF controller_invD(1,2)[OF assms(1)]]
      controller_invD(1,3,4)[OF assms(1)] assms(2)])
  fix x assume "evaluate_boundary (ct_policy c) (ct_options c) now = Inr x"
  from boundary_effect[OF this] controller_invD(5)[OF assms(1)]
  show "case pr_target x of
      None \<Rightarrow> po_pending_target (pr_state x) = po_pending_target (ct_policy c) \<and> command_ok c
    | Some t \<Rightarrow> po_pending_target (pr_state x) = Some t \<and> ct_workers c CommandWork = None"
    by simp
qed

text \<open>A finished command worker has been taken out of its slot: all but the pending target is in
  order.\<close>

definition command_popped :: "fan_mode \<Rightarrow> controller \<Rightarrow> bool" where
  "command_popped t c \<longleftrightarrow> ready_inv c \<and> ct_workers c CommandWork = None \<and>
     po_pending_target (ct_policy c) = Some t"

lemma command_succeeded_ok:
  assumes "command_popped t c"
  shows "ok_result (command_succeeded env (Some t) c)"
proof -
  from assms have wf: "options_wf (ct_options c)" and pol: "policy_inv (ct_policy c)"
    and pend: "po_pending_target (ct_policy c) = Some t"
    by (simp_all add: command_popped_def ready_inv_def)
  from confirm_good[OF wf pol, of t] pend obtain pol' where
    conf: "confirm_pending_target (ct_policy c) t (ct_options c) = Inr pol'"
      "policy_inv pol'" "po_pending_target pol' = None" by auto
  let ?c = "c\<lparr>ct_policy := pol', ct_auto_redirect_state :=
      (if ct_auto_redirect_state c \<in> {''pending'', ''failed''} then ''confirmed''
       else ct_auto_redirect_state c), ct_command_state := ''confirmed'', ct_last_error_type := None\<rparr>"
  have same: "ct_token ?c = ct_token c" "usable ?c = usable c" "\<And>n. wk ?c n = wk c n"
    by (simp_all add: ct_token_def usable_def wk_def)
  have "workers_ok c" using assms by (simp add: command_popped_def ready_inv_def)
  then have w: "workers_ok ?c" by (rule workers_ok_cong[rotated 3]) simp_all
  have a: "authorised ?c" and u: "usable ?c" and n: "ct_workers ?c CommandWork = None"
    using assms same by (simp_all add: command_popped_def ready_inv_def authorised_def)
  let ?r = "reconcile_deferred_observation (ct_policy ?c) (ct_options ?c)"
  have first: "ok_result (adopt_result env ?r ?c)"
  proof (rule adopt_result_ok[OF _ _ w a u])
    show "good_result ?r" using reconcile_good[OF wf conf(2)] by simp
    show "options_wf (ct_options ?c)" using wf by simp
    fix x assume "?r = Inr x"
    from reconcile_emits_or_keeps[OF this] n conf(3) show "case pr_target x of
        None \<Rightarrow> po_pending_target (pr_state x) = po_pending_target (ct_policy ?c) \<and> command_ok ?c
      | Some t \<Rightarrow> po_pending_target (pr_state x) = Some t \<and> ct_workers ?c CommandWork = None"
      by (simp add: emits_or_keeps_def command_ok_def split: option.splits)
  qed
  obtain u2 c2 where c2: "adopt_result env ?r ?c = (Inr u2, c2)" "controller_inv c2"
    using first by (cases "adopt_result env ?r ?c") (auto simp: ok_result_def)
  have "usable c2" using adopt_result_usable[of env ?r ?c] c2(1) u by simp
  from adopt_boundary_ok[OF c2(2) this] c2(1) conf(1) show ?thesis
    by (simp add: command_succeeded_def st_bind_def)
qed

lemma command_failed_ok:
  assumes "command_popped t c"
  shows "ok_result (command_failed e c)"
proof -
  from assms have wf: "options_wf (ct_options c)" and pol: "policy_inv (ct_policy c)"
    by (simp_all add: command_popped_def ready_inv_def)
  from failed_good[OF wf pol] obtain pol' where
    f: "mark_command_failed (ct_policy c) (ct_options c) = Inr pol'" "policy_inv pol'"
      "po_pending_target pol' = None" by blast
  let ?c = "c\<lparr>ct_policy := pol', ct_command_state := ''failed'', ct_last_error_type := e\<rparr>"
  have same: "ct_token ?c = ct_token c" "usable ?c = usable c" "\<And>n. wk ?c n = wk c n"
    by (simp_all add: ct_token_def usable_def wk_def)
  have "workers_ok c" using assms by (simp add: command_popped_def ready_inv_def)
  then have "workers_ok ?c" by (rule workers_ok_cong[rotated 3]) simp_all
  then have "controller_inv ?c"
    using assms f same
    by (simp add: controller_inv_def authorised_def command_ok_def command_popped_def ready_inv_def)
  then have "controller_inv (redirect_failed ?c)"
    unfolding redirect_failed_def
    by (auto elim!: controller_inv_cong simp: ct_token_def usable_def)
  with f(1) show ?thesis by (simp add: command_failed_def)
qed

lemma handle_work_done_ok:
  assumes inv: "controller_inv c"
    and ok: "done_ok (ct_work c) (EvWorkDone kind n token succeeded cancelled target e)"
  shows "ok_result (handle_work_done env kind n token succeeded cancelled target e c)"
proof (cases "ct_workers c kind = Some n")
  case False
  with inv show ?thesis by (simp add: handle_work_done_def)
next
  case True
  note w = workers_okD(1)[OF controller_invD(3)[OF inv] True]
  from ok have rep: "token = wk_token (wk c n)" "target = wk_target (wk c n)" "wk_finished (wk c n)"
    "cancelled \<longrightarrow> wk_cancelled (wk c n)" by (simp_all add: done_ok_def wk_def)
  from controller_invD(4)[OF inv] True have tok: "token = ct_token c" and us: "usable c"
    by (simp_all add: authorised_def rep(1))
  have nc: "\<not> cancelled" using rep(4) w by blast
  let ?c = "c\<lparr>ct_workers := (ct_workers c)(kind := None)\<rparr>"
  have same: "ct_token ?c = ct_token c" "usable ?c = usable c" by (simp_all add: ct_token_def usable_def)
  have run: "handle_work_done env kind n token succeeded cancelled target e c =
      (case kind of
         TimerWork \<Rightarrow> adopt_result env (evaluate_boundary (ct_policy ?c) (ct_options ?c) (se_now env)) ?c
       | SampleWork \<Rightarrow> (Inr (), if succeeded then ?c else redirect_failed (?c\<lparr>ct_last_error_type := e\<rparr>))
       | CommandWork \<Rightarrow>
           if target \<noteq> po_pending_target (ct_policy ?c) then (Inr (), schedule_pending_command_if_usable ?c)
           else if succeeded then command_succeeded env target ?c else command_failed e ?c)"
    using True nc tok same by (simp add: handle_work_done_def Let_def)
  show ?thesis
  proof (cases "kind = CommandWork")
    case False
    from controller_inv_drop[OF inv True rep(3) False] have i: "controller_inv ?c" .
    have "controller_inv (redirect_failed (?c\<lparr>ct_last_error_type := e\<rparr>))"
      unfolding redirect_failed_def
      by (auto intro!: controller_inv_cong[OF i] simp: ct_token_def usable_def)
    with i us same adopt_boundary_ok[OF i, of env "se_now env"] False show ?thesis
      unfolding run by (cases kind) auto
  next
    case cmd: True
    from controller_invD(5)[OF inv] True cmd obtain t where
      t: "target = Some t" "po_pending_target (ct_policy c) = Some t"
      by (auto simp: command_ok_def rep(2) split: option.splits)
    have "workers_ok ?c" by (rule workers_ok_drop[OF controller_invD(3)[OF inv] True rep(3)])
    moreover have "authorised ?c"
      using controller_invD(4)[OF inv] same by (auto simp: authorised_def wk_def split: if_splits)
    ultimately have "command_popped t ?c"
      using inv us same t cmd by (simp add: command_popped_def ready_inv_def controller_inv_def)
    from command_succeeded_ok[OF this] command_failed_ok[OF this] t cmd show ?thesis
      unfolding run by simp
  qed
qed

lemma handle_control_ok:
  assumes inv: "controller_inv c" and "\<forall>opts. options = Some opts \<longrightarrow> options_wf opts"
    and "action = Reconfigure \<longrightarrow> options \<noteq> None"
  shows "ok_result (handle_control env action options powered c)"
proof -
  note wf = controller_invD(1)[OF inv]
  have w: "workers_ok c'" if "ct_work c' = ct_work c" "ct_workers c' = ct_workers c" "ct_queue c' = ct_queue c" for c'
    using controller_invD(3)[OF inv] that by (intro workers_ok_cong[of c' c]) simp_all
  show ?thesis
    using assms(2,3)
    by (cases action)
      (auto simp: handle_control_def intro!: ok_result_st_return ok_result_invalidate w wf)
qed

text \<open>Whatever the control, a caller gets an answer and the invariant holds.\<close>

lemma handle_ok:
  assumes inv: "controller_inv c" and ok: "done_ok (ct_work c) e"
  shows "ok_result (handle env e c)"
proof (cases e)
  case (EvControl action i options powered)
  have fut: "controller_inv (c'\<lparr>ct_controls := f (ct_controls c')\<rparr>)" if "controller_inv c'" for c' f
    using that by (rule controller_inv_cong) (simp_all add: ct_token_def usable_def)
  have opts: "\<forall>x. options = Some x \<longrightarrow> options_wf x"
    using ok EvControl by (auto simp: done_ok_def)
  show ?thesis
  proof (cases "action = Reconfigure \<and> options = None")
    case True
    with EvControl fut[OF inv] show ?thesis by (simp add: handle_def handle_control_def)
  next
    case False
    with handle_control_ok[OF inv opts, of action env powered] obtain x c' where
      "handle_control env action options powered c = (Inr x, c')" "controller_inv c'"
      by (cases "handle_control env action options powered c") (auto simp: ok_result_def)
    with EvControl fut show ?thesis by (simp add: handle_def)
  qed
next
  case (EvObservation ob)
  with handle_air_quality_ok[OF inv] handle_fan_mode_ok[OF inv] show ?thesis
    by (cases ob) (auto simp: handle_def intro: ok_result_st_return)
next
  case (EvWorkDone kind n token succeeded cancelled target err)
  with handle_work_done_ok[OF inv, of kind n token succeeded cancelled target err env] ok show ?thesis
    by (auto simp: handle_def intro: ok_result_st_return)
qed (auto simp: handle_def intro!: ok_result_st_return handle_connection_ok[OF inv] handle_power_ok[OF inv])

section \<open>What handling leaves alone\<close>

definition mark_le :: "time option \<Rightarrow> time option \<Rightarrow> bool" where
  "mark_le m m' \<longleftrightarrow> (\<forall>t. m = Some t \<longrightarrow> (\<exists>t'. m' = Some t' \<and> t \<le> t'))"

text \<open>A control that was answered keeps its answer.\<close>

definition controls_le :: "future list \<Rightarrow> future list \<Rightarrow> bool" where
  "controls_le xs ys \<longleftrightarrow> length ys = length xs \<and> (\<forall>i < length xs. fut_done (xs ! i) \<longrightarrow> ys ! i = xs ! i)"

lemma controls_le_refl [simp]: "controls_le xs xs"
  by (simp add: controls_le_def)

lemma controls_le_trans: "controls_le xs ys \<Longrightarrow> controls_le ys zs \<Longrightarrow> controls_le xs zs"
  by (simp add: controls_le_def)

lemma controls_le_settle: "controls_le xs (upd_at i (fut_settle v) xs)"
  by (auto simp: controls_le_def fut_settle_def)

text \<open>Handling never touches the queue or the actor task, and only raises the barrier.\<close>

definition settles_to :: "controller \<Rightarrow> controller \<Rightarrow> bool" where
  "settles_to c c' \<longleftrightarrow> ct_actor c' = ct_actor c \<and> ct_queue c' = ct_queue c \<and>
     mark_le (ct_sample_barrier_observed_at c) (ct_sample_barrier_observed_at c') \<and>
     controls_le (ct_controls c) (ct_controls c')"

lemma mark_le_trans: "mark_le a b \<Longrightarrow> mark_le b c \<Longrightarrow> mark_le a c"
  unfolding mark_le_def by (metis order_trans)

lemma mark_le_refl [simp]: "mark_le m m"
  by (simp add: mark_le_def)

lemma settles_to_trans: "settles_to a b \<Longrightarrow> settles_to b c \<Longrightarrow> settles_to a c"
  unfolding settles_to_def using mark_le_trans controls_le_trans by metis

lemma settles_to_same:
  "ct_actor c' = ct_actor c \<Longrightarrow> ct_queue c' = ct_queue c \<Longrightarrow>
   ct_sample_barrier_observed_at c' = ct_sample_barrier_observed_at c \<Longrightarrow>
   ct_controls c' = ct_controls c \<Longrightarrow> settles_to c c'"
  by (simp add: settles_to_def)

lemma settles_st_bind:
  assumes "settles_to c0 (snd (m c))" "\<And>x c. settles_to c0 c \<Longrightarrow> settles_to c0 (snd (f x c))"
  shows "settles_to c0 (snd (st_bind m f c))"
  using assms by (cases "m c"; cases "fst (m c)") (auto simp: st_bind_def)

lemma settles_invalidate: "settles_to c (snd (invalidate_operational env True barrier c))"
proof -
  let ?c1 = "c\<lparr>ct_activation_generation := ct_activation_generation c + 1,
      ct_sample_barrier_revision := ct_last_seen_air_revision c,
      ct_sample_barrier_observed_at := (case ct_sample_barrier_observed_at c of
         None \<Rightarrow> Some (case barrier of None \<Rightarrow> se_now env | Some t \<Rightarrow> t)
       | Some t \<Rightarrow> Some (max t (case barrier of None \<Rightarrow> se_now env | Some t \<Rightarrow> t)))\<rparr>"
  note f = same_actor_fields[OF same_actor_cancel_kinds[of ?c1 env WORK_KINDS]]
  show ?thesis
    by (simp add: invalidate_operational_def Let_def settles_to_def f mark_le_def split: option.split)
qed

lemma settles_invalidate_request: "settles_to c (snd (invalidate_and_request env barrier c))"
proof -
  have "settles_to x (request_fresh_if_usable x)" for x
    by (simp add: request_fresh_if_usable_def settles_to_same)
  then show ?thesis unfolding invalidate_and_request_def
    by (intro settles_st_bind settles_invalidate) (auto intro: settles_to_trans)
qed

lemma settles_after:
  assumes "settles_to c' (snd r)" "ct_actor c' = ct_actor c" "ct_queue c' = ct_queue c"
    "ct_sample_barrier_observed_at c' = ct_sample_barrier_observed_at c" "ct_controls c' = ct_controls c"
  shows "settles_to c (snd r)"
  using assms by (simp add: settles_to_def)

lemma settles_adopt: "settles_to c (snd (adopt_result env r c))"
  by (cases r) (simp_all add: adopt_result_def settles_to_def apply_policy_fields)

lemma settles_return: "settles_to c (snd (m c)) \<Longrightarrow> settles_to c (snd (st_bind m (\<lambda>_. st_return x) c))"
  by (rule settles_st_bind) simp_all

lemma settles_control: "settles_to c (snd (handle_control env action options powered c))"
  by (cases action)
    (auto simp: handle_control_def intro!: settles_st_bind settles_after[OF settles_invalidate_request]
        settles_after[OF settles_invalidate] intro: settles_to_same split: option.split)

lemma settles_work_done:
  "settles_to c (snd (handle_work_done env kind n token succeeded cancelled target e c))"
proof -
  let ?c = "c\<lparr>ct_workers := (ct_workers c)(kind := None)\<rparr>"
  have 1: "settles_to ?c (snd (command_succeeded env target ?c))"
  proof (cases target)
    case (Some t)
    have "settles_to ?c (snd (st_bind (\<lambda>c. adopt_result env (f c) c) (\<lambda>_ c. adopt_result env (g c) c) c2))"
      if "ct_actor c2 = ct_actor ?c" "ct_queue c2 = ct_queue ?c"
        "ct_sample_barrier_observed_at c2 = ct_sample_barrier_observed_at ?c"
        "ct_controls c2 = ct_controls ?c" for f g c2
    proof (rule settles_st_bind)
      show "settles_to ?c (snd (adopt_result env (f c2) c2))"
        by (rule settles_after[OF settles_adopt]) (use that in simp_all)
    qed (blast intro: settles_to_trans settles_adopt)
    with Some show ?thesis by (auto simp: command_succeeded_def intro: settles_to_same split: sum.split)
  qed (simp add: command_succeeded_def settles_to_same)
  have 2: "settles_to ?c (snd (command_failed e ?c))"
    by (auto simp: command_failed_def redirect_failed_def intro: settles_to_same split: sum.split)
  have 3: "settles_to ?c (schedule_pending_command_if_usable ?c)"
    by (auto simp: schedule_pending_command_if_usable_def intro: settles_to_same split: option.split)
  have 4: "settles_to ?c (if succeeded then ?c else redirect_failed (?c\<lparr>ct_last_error_type := e\<rparr>))"
    by (auto simp: redirect_failed_def intro: settles_to_same)
  have "settles_to c x" if "settles_to ?c x" for x using that by (simp add: settles_to_def)
  with 1 2 3 4 settles_adopt[of ?c env] show ?thesis
    by (cases kind) (auto simp: handle_work_done_def Let_def intro: settles_to_same)
qed

lemma settles_handle: "settles_to c (snd (handle env e c))"
proof (cases e)
  case (EvControl action i options powered)
  obtain r c' where h: "handle_control env action options powered c = (r, c')" by fastforce
  with settles_control[of c env action options powered] have s: "settles_to c c'" by simp
  have "settles_to c (c'\<lparr>ct_controls := upd_at i (fut_settle v) (ct_controls c')\<rparr>)" for v
    using s controls_le_trans[OF _ controls_le_settle] by (simp add: settles_to_def)
  with h EvControl show ?thesis by (cases r) (simp_all add: handle_def)
next
  case (EvConnection available generation obs_at)
  have "settles_to c (snd (handle_connection env available generation obs_at c))"
    by (auto simp: handle_connection_def Let_def intro!: settles_after[OF settles_invalidate_request]
        intro: settles_to_same)
  with EvConnection show ?thesis by (simp add: handle_def settles_return)
next
  case (EvPower powered)
  have "settles_to c (snd (handle_power env powered c))"
    unfolding handle_power_def
    by (auto intro!: settles_after[OF settles_invalidate_request] intro: settles_to_same)
  with EvPower show ?thesis by (simp add: handle_def settles_return)
next
  case (EvObservation ob)
  have "settles_to c (snd (handle_fan_mode env p mode c))" for p mode
    by (auto simp: handle_fan_mode_def Let_def intro!: settles_after[OF settles_invalidate_request]
        settles_after[OF settles_invalidate] intro: settles_to_same)
  moreover have "settles_to c (snd (handle_air_quality env p pm25 c))" for p pm25
    by (auto simp: handle_air_quality_def Let_def remember_reading_def
        intro!: settles_after[OF settles_adopt] intro: settles_to_same split: option.split sum.split)
  ultimately show ?thesis using EvObservation by (cases ob) (simp_all add: handle_def settles_return)
next
  case (EvWorkDone kind n token succeeded cancelled target err)
  with settles_work_done show ?thesis by (simp add: handle_def settles_return)
qed

section \<open>Runs\<close>

lemma invalidate_never_raises [simp]: "invalidate_operational env True barrier c \<noteq> (Inl e, c')"
  by (simp add: invalidate_operational_def Let_def)

lemma handle_stop:
  "handle env e c = (Inr stop, c') \<Longrightarrow> stop \<longleftrightarrow> (\<exists>i options powered. e = EvControl Shutdown i options powered)"
  by (cases e) (auto simp: handle_def handle_control_def st_bind_def
      split: prod.splits sum.splits observation.splits control_action.splits option.splits)

lemma snapshot_total:
  assumes "controller_inv c"
  shows "\<exists>sn. controller_snapshot c = Inr sn"
proof -
  have modes: "length (ao_modes (ct_options c)) = 5"
    using controller_invD(1)[OF assms] by (simp add: options_wf_def SPEED_MODES_def)
  have pol: "policy_inv (ct_policy c)" by (rule controller_invD(2)[OF assms])
  have "\<exists>ys. res_map_list (snapshot_downshift (ct_options c)) (po_downshifts (ct_policy c)) = Inr ys"
  proof (rule res_map_list_total, rule ballI)
    fix d assume "d \<in> set (po_downshifts (ct_policy c))"
    with pol have "1 \<le> dw_target_level d" "dw_target_level d \<le> 4" by (auto simp: policy_inv_def dwell_ok_def)
    then show "\<exists>y. snapshot_downshift (ct_options c) d = Inr y"
      by (simp add: snapshot_downshift_def py_nth_numeral modes)
  qed
  moreover have "\<exists>m. (case po_confirmed_level (ct_policy c) of
      Some level \<Rightarrow> res_bind (py_nth (ao_modes (ct_options c)) (level - 1)) (\<lambda>m. Inr (Some m))
    | None \<Rightarrow> Inr None) = Inr m"
    using pol by (cases "po_confirmed_level (ct_policy c)")
      (auto simp: policy_inv_def level_ok_def py_nth_numeral modes)
  ultimately show ?thesis by (auto simp: controller_snapshot_def simp del: res_bind_eq_Inr)
qed

text \<open>A turn keeps the invariant, and the actor ends exactly when it handles a shutdown.\<close>

lemma actor_turn_ok:
  assumes inv: "controller_inv c"
  shows "controller_inv (snd (actor_turn env c))"
    and "ct_actor c = Running \<Longrightarrow> ct_queue c = e # rest \<Longrightarrow>
      ct_actor (snd (actor_turn env c)) = Ended \<longleftrightarrow>
        (\<exists>i options powered. e = EvControl Shutdown i options powered)"
proof -
  have turn: "\<exists>stop c' calls. handle env e (c\<lparr>ct_queue := rest\<rparr>) = (Inr stop, c') \<and> controller_inv c' \<and>
      actor_turn env c = (calls, if stop then c'\<lparr>ct_actor := Ended\<rparr> else c')"
    if r: "ct_actor c = Running" and q: "ct_queue c = e # rest" for e rest
  proof -
    have i: "controller_inv (c\<lparr>ct_queue := rest\<rparr>)"
      using inv by (rule controller_inv_cong) (use q in \<open>auto simp: ct_token_def usable_def\<close>)
    have "done_ok (ct_work c) e" using workers_okD(3)[OF controller_invD(3)[OF inv]] q by simp
    with handle_ok[OF i, of e env] obtain stop c' where
      h: "handle env e (c\<lparr>ct_queue := rest\<rparr>) = (Inr stop, c')" "controller_inv c'"
      by (cases "handle env e (c\<lparr>ct_queue := rest\<rparr>)") (auto simp: ok_result_def)
    from snapshot_total[OF h(2)] obtain sn where "controller_snapshot c' = Inr sn" by blast
    with h r q show ?thesis by (simp add: actor_turn_def publish_def)
  qed
  have ended: "controller_inv (x\<lparr>ct_actor := Ended\<rparr>)" if "controller_inv x" for x
    using that by (rule controller_inv_cong) (simp_all add: ct_token_def usable_def)
  show "controller_inv (snd (actor_turn env c))"
  proof (cases "ct_actor c = Running \<and> ct_queue c \<noteq> []")
    case True
    then obtain e rest where "ct_queue c = e # rest" by (cases "ct_queue c") auto
    with turn[of e rest] True ended show ?thesis by auto
  next
    case False
    with inv show ?thesis by (auto simp: actor_turn_def split: list.split)
  qed
  assume "ct_actor c = Running" "ct_queue c = e # rest"
  from turn[OF this] obtain stop c' calls where t: "handle env e (c\<lparr>ct_queue := rest\<rparr>) = (Inr stop, c')"
    "actor_turn env c = (calls, if stop then c'\<lparr>ct_actor := Ended\<rparr> else c')" by blast
  with settles_handle[of "c\<lparr>ct_queue := rest\<rparr>" env e] \<open>ct_actor c = Running\<close>
  have "ct_actor c' = Running" by (simp add: settles_to_def)
  with handle_stop[OF t(1)] t(2) show "ct_actor (snd (actor_turn env c)) = Ended \<longleftrightarrow>
      (\<exists>i options powered. e = EvControl Shutdown i options powered)" by auto
qed

end
