(* ===== verification/Auto_Controller_Runs.thy ===== *)
theory Auto_Controller_Runs
  imports Auto_Controller_Safety
begin

text \<open>
  Runs of the Custom Auto actor under an environment that hands it well-formed options and whose
  callbacks are cancelled only by the actor itself, and the properties of every such run.
\<close>

section \<open>The environment\<close>

text \<open>Options reach the controller from the parser, and a worker reports a cancellation only after
  the actor asked for it.\<close>

fun input_ok :: "controller \<Rightarrow> controller_input \<Rightarrow> bool" where
  "input_ok c (InReconfigure opts) \<longleftrightarrow> options_wf opts"
| "input_ok c (InFinish n WorkCancelled) \<longleftrightarrow>
     1 \<le> n \<and> n \<le> length (ct_work c) \<longrightarrow> wk_cancelled (wk c n)"
| "input_ok c _ \<longleftrightarrow> True"

definition environment_step :: "controller \<Rightarrow> controller_input \<Rightarrow> controller" where
  "environment_step c i = (if input_ok c i then controller_step c i else c)"

lemma controller_inv_queue:
  assumes inv: "controller_inv c" and w: "ct_work c' = ct_work c" "ct_workers c' = ct_workers c"
    and q: "\<forall>e \<in> set (ct_queue c'). e \<in> set (ct_queue c) \<or> done_ok (ct_work c) e"
    and same: "ct_options c' = ct_options c" "ct_policy c' = ct_policy c" "ct_token c' = ct_token c"
      "usable c' = usable c"
  shows "controller_inv c'"
proof -
  have "done_ok (ct_work c) e" if "e \<in> set (ct_queue c')" for e
    using q that workers_okD(3)[OF controller_invD(3)[OF inv]] by blast
  then have wo: "workers_ok c'"
    using controller_invD(3)[OF inv] w unfolding workers_ok_def owned_def wk_def by auto
  have wk: "wk c' n = wk c n" for n using w(1) by (simp add: wk_def)
  have "command_ok c'"
    using controller_invD(5)[OF inv] w(2) same wk
    by (cases "ct_workers c CommandWork") (simp_all add: command_ok_def)
  with wo inv w same wk show ?thesis by (simp add: controller_inv_def authorised_def)
qed

lemma controller_inv_finish:
  assumes inv: "controller_inv c" and ok: "input_ok c (InFinish n outcome)"
  shows "controller_inv (finish_work n outcome c)"
proof (cases "n < 1 \<or> length (ct_work c) < n \<or> wk_finished (wk c n)")
  case True
  with inv show ?thesis by (auto simp: finish_work_def)
next
  case False
  let ?ws = "upd_at (n - Suc 0) (wk_finished_update (\<lambda>_. True)) (ct_work c)"
  let ?c = "c\<lparr>ct_work := ?ws\<rparr>"
  have wk: "wk ?c m = (if m = n then (wk c n)\<lparr>wk_finished := True\<rparr> else wk c m)"
    if "1 \<le> m" "m \<le> length (ct_work c)" for m
    using that False by (auto simp: wk_def)
  have same: "ct_token ?c = ct_token c" "usable ?c = usable c" "owned ?c m = owned c m" for m
    by (simp_all add: ct_token_def usable_def owned_def)
  note w = controller_invD(3)[OF inv]
  have "workers_ok ?c"
  proof (rule workers_okI)
    fix k m assume "ct_workers ?c k = Some m"
    then have "ct_workers c k = Some m" by simp
    from workers_okD(1)[OF w this]
    show "1 \<le> m \<and> m \<le> length (ct_work ?c) \<and> wk_kind (wk ?c m) = k \<and> \<not> wk_cancelled (wk ?c m)"
      by (auto simp: wk)
  next
    fix m assume m: "1 \<le> m" "m \<le> length (ct_work ?c)" "\<not> owned ?c m"
    then have "m \<le> length (ct_work c)" "\<not> owned c m" by (simp_all add: same)
    note old = workers_okD(2)[OF w m(1) this] and new = wk[OF m(1) this(1)]
    show "wk_cancelled (wk ?c m) \<or> wk_finished (wk ?c m)"
    proof (cases "m = n")
      case True
      then show ?thesis unfolding new by simp
    next
      case False
      with old show ?thesis unfolding new by simp
    qed
  next
    fix e assume "e \<in> set (ct_queue ?c)"
    then have "done_ok (ct_work c) e" using workers_okD(3)[OF w] by simp
    from done_ok_mono[OF this work_le_intros(4)[of "ct_work c" "n - Suc 0"]]
    show "done_ok (ct_work ?c) e" by simp
  qed
  moreover have "authorised ?c"
    unfolding authorised_def
  proof (intro allI impI)
    fix k m assume "ct_workers ?c k = Some m"
    then have k: "ct_workers c k = Some m" by simp
    from workers_okD(1)[OF w k] controller_invD(4)[OF inv] k
    show "wk_token (wk ?c m) = ct_token ?c \<and> usable ?c" by (auto simp: wk same authorised_def)
  qed
  moreover have "command_ok ?c"
    using controller_invD(5)[OF inv] workers_okD(1)[OF w, of CommandWork]
    by (cases "ct_workers c CommandWork") (auto simp: command_ok_def wk)
  ultimately have i: "controller_inv ?c" using inv by (simp add: controller_inv_def)
  have "done_ok ?ws (EvWorkDone (wk_kind (wk c n)) n (wk_token (wk c n)) s cancelled (wk_target (wk c n)) e)"
    if "cancelled \<longrightarrow> wk_cancelled (wk c n)" for s cancelled e
    using False that by (auto simp: done_ok_def wk_def)
  then have "controller_inv (c\<lparr>ct_queue := ct_queue c @
      [EvWorkDone (wk_kind (wk c n)) n (wk_token (wk c n)) s cancelled (wk_target (wk c n)) e],
      ct_work := ?ws\<rparr>)"
    if "cancelled \<longrightarrow> wk_cancelled (wk c n)" for s cancelled e
    using i that by (intro controller_inv_queue[OF i]) (auto simp: ct_token_def usable_def)
  with ok False show ?thesis by (cases outcome) (simp_all add: finish_work_def Let_def)
qed

lemma controller_inv_control:
  assumes "controller_inv c" and "\<And>opts. options = Some opts \<Longrightarrow> options_wf opts"
  shows "controller_inv (snd (control action options powered c))"
proof (cases "ct_actor c = Running")
  case True
  have "done_ok (ct_work c) (EvControl action (length (ct_controls c)) options powered)"
    using assms(2) by (cases options) (simp_all add: done_ok_def)
  with True show ?thesis
    by (intro controller_inv_queue[OF assms(1)]) (auto simp: control_def Let_def ct_token_def usable_def)
qed (use assms in \<open>simp add: control_def\<close>)

lemma environment_step_inv:
  assumes "controller_inv c"
  shows "controller_inv (environment_step c i)"
proof (cases "input_ok c i")
  case True
  have other: "controller_inv c'" if "ct_work c' = ct_work c" "ct_workers c' = ct_workers c"
    "ct_queue c' = ct_queue c" "ct_options c' = ct_options c" "ct_policy c' = ct_policy c"
    "ct_token c' = ct_token c" "usable c' = usable c" for c'
    using assms by (rule controller_inv_cong) (use that in simp_all)
  have queued: "controller_inv (snd (enqueue_event e c))" if "done_ok (ct_work c) e" for e
    by (rule controller_inv_queue[OF assms])
      (use that in \<open>auto simp: enqueue_event_def ct_token_def usable_def\<close>)
  have "controller_inv (controller_step c i)"
  proof (cases i)
    case InStart
    then show ?thesis by (auto simp: start_def assms ct_token_def usable_def intro: other)
  next
    case (InControl action powered)
    then show ?thesis using controller_inv_control[OF assms, of None action powered] by simp
  next
    case (InReconfigure opts)
    with True controller_inv_control[OF assms, of "Some opts"] assms show ?thesis
      by (simp add: reconfigure_def)
  next
    case InShutdown
    with controller_inv_control[OF assms, of None Shutdown None] assms show ?thesis
      by (cases "control Shutdown None None c"; cases "fst (control Shutdown None None c)")
        (auto simp: shutdown_def st_bind_def)
  next
    case InShutdownFinished
    then show ?thesis by (auto simp: shutdown_finished_def assms ct_token_def usable_def intro: other)
  next
    case (InFinish n outcome)
    with True assms show ?thesis by (simp add: controller_inv_finish)
  next
    case (InTurn env)
    with actor_turn_ok(1)[OF assms] show ?thesis by simp
  next
    case (InConnection available generation obs_at clock)
    then show ?thesis by (simp add: set_connection_def queued done_ok_def)
  next
    case (InPower powered)
    then show ?thesis by (simp add: set_powered_def queued done_ok_def)
  next
    case (InObserve ob)
    then show ?thesis by (simp add: observe_def queued done_ok_def)
  qed (auto simp: add_state_listener_def remove_state_listener_def ct_token_def usable_def intro: other)
  with True show ?thesis by (simp add: environment_step_def)
qed (use assms in \<open>simp add: environment_step_def\<close>)

lemma new_controller_inv:
  "options_wf opts \<Longrightarrow> new_controller opts = Inr c \<Longrightarrow> controller_inv c"
  by (auto simp: new_controller_def controller_inv_def workers_ok_def authorised_def command_ok_def
      split: if_splits) (simp add: idle_policy_def)

text \<open>What the caller of a control can read of its future.\<close>

definition control_outcome :: "controller \<Rightarrow> nat \<Rightarrow> outcome option" where
  "control_outcome c i = (if i < length (ct_controls c) then ct_controls c ! i else None)"

text \<open>Every input only extends the controls, keeps answers and raises the barrier.\<close>

definition outlives :: "controller \<Rightarrow> controller \<Rightarrow> bool" where
  "outlives c c' \<longleftrightarrow>
     mark_le (ct_sample_barrier_observed_at c) (ct_sample_barrier_observed_at c') \<and>
     length (ct_controls c) \<le> length (ct_controls c') \<and>
     (\<forall>i < length (ct_controls c). fut_done (ct_controls c ! i) \<longrightarrow> ct_controls c' ! i = ct_controls c ! i)"

lemma outlives_settles: "settles_to c c' \<Longrightarrow> outlives c c'"
  by (simp add: settles_to_def outlives_def controls_le_def)

lemma outlives_same:
  "ct_sample_barrier_observed_at c' = ct_sample_barrier_observed_at c \<Longrightarrow> ct_controls c' = ct_controls c \<Longrightarrow>
   outlives c c'"
  by (simp add: outlives_def)

lemma outlives_turn: "outlives c (snd (actor_turn env c))"
proof (cases "ct_queue c")
  case (Cons e rest)
  let ?h = "handle env e (c\<lparr>ct_queue := rest\<rparr>)"
  have "outlives c (snd ?h)" using settles_handle[of "c\<lparr>ct_queue := rest\<rparr>" env e]
    by (simp add: settles_to_def outlives_def controls_le_def)
  then have "outlives c ((snd ?h)\<lparr>ct_actor := a\<rparr>)" "outlives c (snd ?h)" for a
    by (simp_all add: outlives_def)
  moreover have "outlives c c" by (simp add: outlives_same)
  ultimately show ?thesis using Cons
    by (cases ?h; cases "fst ?h"; cases "publish (snd ?h)") (auto simp: actor_turn_def)
qed (simp add: actor_turn_def outlives_same)

lemma outlives_step: "outlives c (environment_step c i)"
proof -
  have "outlives c (snd (control action options powered c))" for action options powered
    by (auto simp: control_def Let_def outlives_def nth_append)
  moreover from this[of Shutdown None None] have "outlives c (snd (shutdown c))"
    by (cases "control Shutdown None None c"; cases "fst (control Shutdown None None c)")
      (auto simp: shutdown_def st_bind_def outlives_same)
  moreover have "outlives c (snd (enqueue_event e c))" for e
    by (simp add: enqueue_event_def outlives_same)
  moreover have "outlives c (c\<lparr>ct_controls := upd_at j (fut_settle v) (ct_controls c)\<rparr>)" for j v
    by (auto simp: outlives_def fut_settle_def)
  moreover have "outlives c (finish_work n outcome c)" for n outcome
    by (simp add: finish_work_def Let_def outlives_same)
  ultimately have "outlives c (controller_step c i)"
    by (cases i) (auto simp: start_def reconfigure_def shutdown_finished_def set_connection_def
        set_powered_def observe_def add_state_listener_def remove_state_listener_def
        intro: outlives_same outlives_turn)
  then show ?thesis by (simp add: environment_step_def outlives_same)
qed

interpretation actor: settling_system environment_step controller_inv control_outcome
proof unfold_locales
  fix c k v i
  assume "control_outcome c k = Some v"
  then have "k < length (ct_controls c)" "ct_controls c ! k = Some v"
    by (auto simp: control_outcome_def split: if_splits)
  with outlives_step[of c i] show "control_outcome (environment_step c i) k = Some v"
    by (auto simp: control_outcome_def outlives_def)
qed (rule environment_step_inv)

lemma barrier_run:
  "mark_le (ct_sample_barrier_observed_at c) (ct_sample_barrier_observed_at (foldl environment_step c is))"
proof (induction "is" arbitrary: c)
  case (Cons i "is")
  have "mark_le (ct_sample_barrier_observed_at c) (ct_sample_barrier_observed_at (environment_step c i))"
    using outlives_step[of c i] by (simp add: outlives_def)
  from mark_le_trans[OF this Cons] show ?case by simp
qed simp

section \<open>Properties\<close>

text \<open>C5. The actor owns its work: after any run, every worker in a slot is live, of the slot's kind,
  carries the current generation token, and exists only while Custom Auto is active on an available
  powered purifier outside a power transition; every other worker ever started has finished or has
  been cancelled; and a command worker runs exactly while the policy has a pending target, for that
  target, which is one of the fixed speeds.\<close>

theorem actor_owns_its_work:
  assumes "options_wf opts" and "new_controller opts = Inr c0" and "c = foldl environment_step c0 is"
  shows "(\<forall>k n. ct_workers c k = Some n \<longrightarrow> 1 \<le> n \<and> n \<le> length (ct_work c) \<and> wk_kind (wk c n) = k \<and>
      \<not> wk_cancelled (wk c n) \<and> wk_token (wk c n) = ct_token c \<and>
      ct_active c \<and> ct_available c \<and> ct_powered c \<and> \<not> ct_power_transition c) \<and>
    (\<forall>n. 1 \<le> n \<and> n \<le> length (ct_work c) \<and> (\<forall>k. ct_workers c k \<noteq> Some n) \<longrightarrow>
      wk_cancelled (wk c n) \<or> wk_finished (wk c n)) \<and>
    (case ct_workers c CommandWork of
       None \<Rightarrow> po_pending_target (ct_policy c) = None
     | Some n \<Rightarrow> (\<exists>t \<in> set SPEED_MODES. wk_target (wk c n) = Some t \<and>
         po_pending_target (ct_policy c) = Some t))"
proof -
  have inv: "controller_inv c"
    using actor.run_inv[OF new_controller_inv[OF assms(1,2)]] by (simp add: assms(3))
  have speed: "t \<in> set SPEED_MODES" if "po_pending_target (ct_policy c) = Some t" for t
    using controller_invD(2)[OF inv] that by (cases t) (auto simp: policy_inv_def SPEED_MODES_def)
  show ?thesis
  proof (intro conjI allI impI)
    fix k n assume k: "ct_workers c k = Some n"
    from workers_okD(1)[OF controller_invD(3)[OF inv] k] controller_invD(4)[OF inv] k
    show "1 \<le> n" "n \<le> length (ct_work c)" "wk_kind (wk c n) = k" "\<not> wk_cancelled (wk c n)"
      "wk_token (wk c n) = ct_token c" "ct_active c" "ct_available c" "ct_powered c"
      "\<not> ct_power_transition c"
      by (auto simp: authorised_def usable_def)
  next
    fix n assume "1 \<le> n \<and> n \<le> length (ct_work c) \<and> (\<forall>k. ct_workers c k \<noteq> Some n)"
    then show "wk_cancelled (wk c n) \<or> wk_finished (wk c n)"
      using workers_okD(2)[OF controller_invD(3)[OF inv]] by (simp add: owned_def)
  next
    show "case ct_workers c CommandWork of
       None \<Rightarrow> po_pending_target (ct_policy c) = None
     | Some n \<Rightarrow> (\<exists>t \<in> set SPEED_MODES. wk_target (wk c n) = Some t \<and>
         po_pending_target (ct_policy c) = Some t)"
      using controller_invD(5)[OF inv] speed
      by (auto simp: command_ok_def split: option.splits)
  qed
qed

text \<open>C8. The actor survives and answers: in every run, a running actor ends exactly when it handles a
  shutdown, whatever else it is given; and when it handles a control, the caller's future is settled
  by the end of that turn.\<close>

theorem actor_survives_and_answers:
  assumes "options_wf opts" and "new_controller opts = Inr c0" and "c = foldl environment_step c0 is"
    and "ct_actor c = Running" and "ct_queue c = e # rest"
  shows "(ct_actor (snd (actor_turn env c)) = Ended \<longleftrightarrow>
      (\<exists>i options powered. e = EvControl Shutdown i options powered)) \<and>
    (\<forall>action i options powered. e = EvControl action i options powered \<and> i < length (ct_controls c) \<longrightarrow>
      control_outcome (snd (actor_turn env c)) i \<noteq> None)"
proof -
  have inv: "controller_inv c"
    using actor.run_inv[OF new_controller_inv[OF assms(1,2)]] by (simp add: assms(3))
  have "control_outcome (snd (actor_turn env c)) i \<noteq> None"
    if e: "e = EvControl action i options powered" and i: "i < length (ct_controls c)"
    for action i options powered
  proof -
    let ?c = "c\<lparr>ct_queue := rest\<rparr>"
    obtain r c' where h: "handle_control env action options powered ?c = (r, c')" by fastforce
    with settles_control[of ?c env action options powered] i have len: "i < length (ct_controls c')"
      by (simp add: settles_to_def controls_le_def)
    have "fut_done (ct_controls (snd (handle env e ?c)) ! i) \<and> i < length (ct_controls (snd (handle env e ?c)))"
      using h len e by (cases r) (simp_all add: handle_def)
    then have "control_outcome (snd (handle env e ?c)) i \<noteq> None"
      by (simp add: control_outcome_def fut_done_def)
    moreover have "control_outcome (snd (actor_turn env c)) i = control_outcome (snd (handle env e ?c)) i"
      using assms(4,5)
      by (cases "handle env e ?c"; cases "fst (handle env e ?c)"; cases "publish (snd (handle env e ?c))")
        (auto simp: actor_turn_def control_outcome_def)
    ultimately show ?thesis by simp
  qed
  with actor_turn_ok(2)[OF inv assms(4,5), of env] show ?thesis by blast
qed

text \<open>C6. A reading from before the activation never reaches the policy: once an activation has been
  handled, then whatever follows, a PM2.5 observation taken before that moment changes neither the
  policy nor the workers.\<close>

theorem stale_readings_never_reach_policy:
  assumes "ct_actor c = Running" and "ct_queue c = EvControl Activate i None None # rest"
    and "controller_inv c" and "c2 = foldl environment_step (snd (actor_turn env c)) is"
    and "ct_queue c2 = EvObservation (AirQualityObservation p pm25 filter_life) # rest2"
    and "ob_observed_at p < se_now env"
  shows "ct_policy (snd (actor_turn env2 c2)) = ct_policy c2 \<and>
    ct_work (snd (actor_turn env2 c2)) = ct_work c2 \<and>
    ct_workers (snd (actor_turn env2 c2)) = ct_workers c2"
proof -
  let ?c = "c\<lparr>ct_queue := rest, ct_active := True, ct_power_transition := False\<rparr>"
  have w: "workers_ok ?c"
    using controller_invD(3)[OF assms(3)] by (rule workers_ok_cong[rotated 3]) (auto simp: assms(2))
  from invalidate_and_request_ok[OF _ w, of env None] controller_invD(1)[OF assms(3)] obtain c1 where
    c1: "invalidate_and_request env None ?c = (Inr (), request_fresh_if_usable c1)"
      "invalidated env None ?c c1" by auto
  let ?h = "(request_fresh_if_usable c1)\<lparr>ct_controls := upd_at i (fut_settle Returned)
      (ct_controls (request_fresh_if_usable c1))\<rparr>"
  have h: "handle env (EvControl Activate i None None) (c\<lparr>ct_queue := rest\<rparr>) = (Inr False, ?h)"
    using c1(1) by (simp add: handle_def handle_control_def st_bind_def)
  have "ct_sample_barrier_observed_at (snd (actor_turn env c)) = ct_sample_barrier_observed_at c1"
    using assms(1,2) h by (cases "publish ?h") (simp_all add: actor_turn_def request_fresh_if_usable_def)
  then have "mark_le (Some (se_now env)) (ct_sample_barrier_observed_at (snd (actor_turn env c)))"
    using c1(2) by (simp add: invalidated_def barrier_after_def mark_le_def split: option.split)
  from mark_le_trans[OF this barrier_run[of _ "is"]] assms(4,6)
  have b: "before_mark (ob_observed_at p) (ct_sample_barrier_observed_at c2)"
    by (auto simp: mark_le_def before_mark_def)
  have "\<exists>l. handle_air_quality env2 p pm25 (c2\<lparr>ct_queue := rest2\<rparr>) =
      (Inr (), c2\<lparr>ct_queue := rest2, ct_last_seen_air_revision := l\<rparr>)"
  proof (cases "ob_generation p \<noteq> ct_connection_generation c2 \<or>
      not_newer (ob_revision p) (ct_last_seen_air_revision c2)")
    case True
    then have "handle_air_quality env2 p pm25 (c2\<lparr>ct_queue := rest2\<rparr>) = (Inr (), c2\<lparr>ct_queue := rest2\<rparr>)"
      by (auto simp: handle_air_quality_def)
    then show ?thesis by (intro exI[of _ "ct_last_seen_air_revision c2"]) simp
  next
    case False
    with b show ?thesis by (auto simp: handle_air_quality_def Let_def)
  qed
  then obtain l where q: "handle env2 (EvObservation (AirQualityObservation p pm25 filter_life))
      (c2\<lparr>ct_queue := rest2\<rparr>) = (Inr False, c2\<lparr>ct_queue := rest2, ct_last_seen_air_revision := l\<rparr>)"
    by (auto simp: handle_def st_bind_def)
  show ?thesis
    using assms(5) q
    by (cases "publish (c2\<lparr>ct_queue := rest2, ct_last_seen_air_revision := l\<rparr>)")
      (auto simp: actor_turn_def)
qed

text \<open>C7. A fan mode chosen at the purifier takes over: when Custom Auto is active and the current
  connection reports a physical mode change, all its work is cancelled and the policy starts over;
  a fixed speed deactivates Custom Auto with no worker left, hardware Auto keeps it active and
  starts nothing but a fresh sample.\<close>

theorem physical_fan_mode_takes_over:
  assumes "controller_inv c" and "ct_active c" and "ob_source p = SRC_PHYSICAL"
    and "ob_generation p = ct_connection_generation c" and "handle_fan_mode env p mode c = (res, c')"
  shows "res = Inr () \<and> ct_policy c' = idle_policy \<and> (ct_active c' \<longleftrightarrow> mode = AUTO) \<and>
    (\<forall>n. 1 \<le> n \<and> n \<le> length (ct_work c) \<longrightarrow> wk_cancelled (wk c' n) \<or> wk_finished (wk c' n)) \<and>
    (\<forall>k n. ct_workers c' k = Some n \<longrightarrow> mode = AUTO \<and> k = SampleWork \<and> length (ct_work c) < n)"
proof -
  let ?seen = "\<lparr>fp_mode = mode, fp_source = SRC_PHYSICAL, fp_purpose = ob_purpose p,
      fp_revision = ob_revision p, fp_generation = ob_generation p,
      fp_command_origin = ob_command_origin p\<rparr>"
  let ?auto = "c\<lparr>ct_last_physical_fan := Some ?seen, ct_auto_redirect_state := ''pending''\<rparr>"
  let ?fixed = "c\<lparr>ct_last_physical_fan := Some ?seen, ct_active := False, ct_auto_redirect_state := ''idle''\<rparr>"
  have w: "workers_ok ?auto" "workers_ok ?fixed"
    using controller_invD(3)[OF assms(1)] by (rule workers_ok_cong[rotated 3]; simp)+
  have wf: "options_wf (ct_options ?auto)" "options_wf (ct_options ?fixed)"
    using controller_invD(1)[OF assms(1)] by simp_all
  have all: "wk_cancelled (wk x n) \<or> wk_finished (wk x n)"
    if "controller_inv x" "\<not> owned x n" "1 \<le> n" "n \<le> length (ct_work c)"
      "length (ct_work c) \<le> length (ct_work x)" for x n
    using workers_okD(2)[OF controller_invD(3)[OF that(1)] that(3) _ that(2)] that(4,5) by simp
  show ?thesis
  proof (cases "mode = AUTO")
    case True
    from invalidate_and_request_ok[OF wf(1) w(1), of env None] obtain c1 where
      c1: "invalidate_and_request env None ?auto = (Inr (), request_fresh_if_usable c1)"
        "controller_inv c1" "invalidated env None ?auto c1" by blast
    have run: "res = Inr ()" "c' = request_fresh_if_usable c1"
      using assms True c1(1) by (simp_all add: handle_fan_mode_def Let_def)
    have none: "ct_workers c1 = (\<lambda>_. None)" and len: "length (ct_work c1) = length (ct_work c)"
      using c1(3) by (simp_all add: invalidated_def)
    have wo: "k = SampleWork \<and> n = Suc (length (ct_work c))" if "ct_workers c' k = Some n" for k n
      using that by (auto simp: run request_fresh_if_usable_def request_sample_def spawn_def none len
          split: if_splits)
    have "length (ct_work c) \<le> length (ct_work c')"
      by (simp add: run request_fresh_if_usable_def request_sample_def spawn_def none len)
    moreover have "\<not> owned c' n" if "n \<le> length (ct_work c)" for n
      using wo that by (fastforce simp: owned_def)
    moreover have "controller_inv c'" unfolding run by (rule controller_inv_request_fresh[OF c1(2)])
    ultimately have "wk_cancelled (wk c' n) \<or> wk_finished (wk c' n)" if "1 \<le> n" "n \<le> length (ct_work c)" for n
      using all that by blast
    moreover have "ct_policy c' = idle_policy" "ct_active c'"
      using c1(3) assms(2) by (simp_all add: run request_fresh_if_usable_def invalidated_def)
    ultimately show ?thesis using run(1) wo True by auto
  next
    case False
    from invalidate_ok[OF wf(2) w(2), of env None] obtain c1 where
      c1: "invalidate_operational env True None ?fixed = (Inr (), c1)"
        "controller_inv c1" "invalidated env None ?fixed c1" by blast
    have run: "res = Inr ()" "c' = c1"
      using assms False c1(1) by (simp_all add: handle_fan_mode_def Let_def)
    have "\<not> owned c1 n" for n using c1(3) by (simp add: invalidated_def owned_def)
    with all[OF c1(2)] c1(3) run False show ?thesis by (simp add: invalidated_def)
  qed
qed

text \<open>A control that was queued behind a shutdown is left waiting: while the ended actor is not
  started again and the caller does not give up, its future stays pending.\<close>

lemma control_behind_shutdown_waits:
  assumes "ct_actor c = Ended" and "i < length (ct_controls c)" and "ct_controls c ! i = fut_pending"
    and "\<forall>x \<in> set is. x \<noteq> InShutdownFinished \<and> x \<noteq> InCancelCaller i"
  shows "control_outcome (foldl controller_step c is) i = None"
proof -
  have "ct_actor (foldl controller_step c is) = Ended \<and> i < length (ct_controls (foldl controller_step c is)) \<and>
      ct_controls (foldl controller_step c is) ! i = fut_pending"
    using assms
  proof (induction "is" arbitrary: c)
    case (Cons x xs)
    have "ct_actor (controller_step c x) = Ended \<and> i < length (ct_controls (controller_step c x)) \<and>
        ct_controls (controller_step c x) ! i = fut_pending"
      using Cons.prems
      by (cases x) (auto simp: start_def control_def reconfigure_def shutdown_def st_bind_def
          set_connection_def set_powered_def observe_def enqueue_event_def finish_work_def Let_def
          actor_turn_def add_state_listener_def remove_state_listener_def split: list.split)
    with Cons.IH[of "controller_step c x"] Cons.prems(4) show ?case by simp
  qed simp
  then show ?thesis by (simp add: control_outcome_def)
qed

section \<open>A run\<close>

text \<open>Started, connected, powered and activated; the first reading asks for a higher speed.\<close>

definition quiet_env :: "time \<Rightarrow> step_env" where
  "quiet_env t = \<lparr>se_now = t, se_cancel_error = None\<rparr>"

definition fresh_reading :: "int \<Rightarrow> time \<Rightarrow> provenance" where
  "fresh_reading revision t =
     \<lparr>ob_revision = revision, ob_generation = 1, ob_observed_at = t, ob_source = SRC_QUERY,
      ob_purpose = PUR_ONE_SHOT, ob_request_id = None, ob_operation_id = None,
      ob_command_origin = None\<rparr>"

definition activation_inputs :: "controller_input list" where
  "activation_inputs =
     [InStart, InConnection True 1 None 10, InTurn (quiet_env 11), InPower True, InTurn (quiet_env 12),
      InControl Activate None]"

definition commanding_inputs :: "controller_input list" where
  "commanding_inputs = activation_inputs @
     [InTurn (quiet_env 13), InObserve (AirQualityObservation (fresh_reading 1 14) (Some 500) 50),
      InTurn (quiet_env 15)]"

definition started_controller :: controller where
  "started_controller = (case new_controller shipped_options of Inr c \<Rightarrow> c)"

definition activating_controller :: controller where
  "activating_controller = foldl environment_step started_controller activation_inputs"

lemma started_controller: "new_controller shipped_options = Inr started_controller"
  by (simp add: started_controller_def new_controller_def shipped_options_def)

lemma activating_controller_facts:
  "ct_actor activating_controller = Running"
  "ct_queue activating_controller = [EvControl Activate 0 None None]"
  "ct_controls activating_controller = [None]"
  by code_simp+

lemma commanding_controller_facts:
  "ct_workers (foldl environment_step started_controller commanding_inputs) CommandWork = Some 2"
  "wk_target (wk (foldl environment_step started_controller commanding_inputs) 2) = Some TURBO"
  by code_simp+

lemma activating_controller_inv: "controller_inv activating_controller"
  unfolding activating_controller_def
  by (rule actor.run_inv) (rule new_controller_inv[OF shipped_options_wf started_controller])

theorem actor_owns_its_work_witness:
  "let c = foldl environment_step started_controller commanding_inputs in
   po_pending_target (ct_policy c) = Some TURBO \<and> wk_token (wk c 2) = ct_token c \<and> ct_active c"
proof -
  note own = actor_owns_its_work[OF shipped_options_wf started_controller refl, of commanding_inputs]
  from own commanding_controller_facts show ?thesis by (auto simp: Let_def)
qed

theorem actor_survives_and_answers_witness:
  "ct_actor (snd (actor_turn (quiet_env 13) activating_controller)) \<noteq> Ended \<and>
   control_outcome (snd (actor_turn (quiet_env 13) activating_controller)) 0 \<noteq> None"
  using actor_survives_and_answers[OF shipped_options_wf started_controller activating_controller_def
      activating_controller_facts(1,2), of "quiet_env 13"] activating_controller_facts(3)
  by simp

theorem stale_readings_never_reach_policy_witness:
  "let c = foldl environment_step (snd (actor_turn (quiet_env 13) activating_controller))
       [InObserve (AirQualityObservation (fresh_reading 1 12) (Some 500) 50)]
   in ct_policy (snd (actor_turn (quiet_env 14) c)) = ct_policy c"
proof -
  let ?c = "foldl environment_step (snd (actor_turn (quiet_env 13) activating_controller))
      [InObserve (AirQualityObservation (fresh_reading 1 12) (Some 500) 50)]"
  have "ct_queue ?c = [EvObservation (AirQualityObservation (fresh_reading 1 12) (Some 500) 50)]"
    by code_simp
  moreover have "ob_observed_at (fresh_reading 1 12) < se_now (quiet_env 13)" by code_simp
  ultimately show ?thesis
    using stale_readings_never_reach_policy[OF activating_controller_facts(1,2) activating_controller_inv refl,
        of "quiet_env 13" "[InObserve (AirQualityObservation (fresh_reading 1 12) (Some 500) 50)]"]
    by (simp add: Let_def)
qed

theorem physical_fan_mode_takes_over_witness:
  "let c = foldl environment_step started_controller commanding_inputs;
       r = handle_fan_mode (quiet_env 20) ((fresh_reading 2 19)\<lparr>ob_source := SRC_PHYSICAL\<rparr>) LOW c
   in \<not> ct_active (snd r) \<and> (wk_cancelled (wk (snd r) 2) \<or> wk_finished (wk (snd r) 2))"
proof -
  let ?c = "foldl environment_step started_controller commanding_inputs"
  have inv: "controller_inv ?c"
    by (rule actor.run_inv) (rule new_controller_inv[OF shipped_options_wf started_controller])
  have "ct_active ?c" "ct_connection_generation ?c = 1" "length (ct_work ?c) = 2" by code_simp+
  then show ?thesis
    using physical_fan_mode_takes_over[OF inv _ _ _ prod.collapse[symmetric],
        of "(fresh_reading 2 19)\<lparr>ob_source := SRC_PHYSICAL\<rparr>" "quiet_env 20" LOW]
    by (simp add: Let_def fresh_reading_def)
qed

end
