(* ===== verification/Ownership.thy ===== *)
theory Ownership
  imports Profile_Parsing
begin

text \<open>
  Process-wide ownership of purifier addresses (\<open>bluetooth/ownership.py\<close>): a claim hands out a
  token, and the address is given to nobody else before its holder has asked for release, its
  cleanup is over and every tracked task has ended.  Tokens are made by \<open>claim\<close> only, with
  distinct serials, so the identity test on tokens is equality here.  Tasks are numbers; whether a
  task is done is told to each operation.  Addresses are ASCII.
\<close>

section \<open>State\<close>

datatype ownership_state = OWNED | CANCELLATION_REQUESTED | LATE_CLEANUP | STANDALONE_CLEANUP

record ownership_token =
  tk_address :: string
  tk_serial :: int

record ownership_record =
  ow_token :: ownership_token
  ow_state :: ownership_state
  ow_started_at :: time
  ow_release_requested :: bool
  ow_cleanup_required :: bool
  ow_tasks :: "nat list"

record ownership_registry =
  rg_records :: "string \<Rightarrow> ownership_record option"
  rg_serial :: int

definition new_ownership_registry :: ownership_registry where
  "new_ownership_registry = \<lparr>rg_records = (\<lambda>_. None), rg_serial = 0\<rparr>"

definition upper_char :: "char \<Rightarrow> char" where
  "upper_char c = (if chr_between CHR ''a'' CHR ''z'' c then char_of ((of_char c :: int) - 32) else c)"

definition normalize_address :: "string \<Rightarrow> string" where
  "normalize_address address = map upper_char (ascii_strip address)"

section \<open>Release\<close>

definition quiescent :: "(nat \<Rightarrow> bool) \<Rightarrow> ownership_record \<Rightarrow> bool" where
  "quiescent task_done r \<longleftrightarrow>
     ow_release_requested r \<and> \<not> ow_cleanup_required r \<and> \<not> list_ex (\<lambda>t. \<not> task_done t) (ow_tasks r)"

definition release_if_quiescent ::
    "(nat \<Rightarrow> bool) \<Rightarrow> ownership_record \<Rightarrow> ownership_registry \<Rightarrow> ownership_registry" where
  "release_if_quiescent task_done r g =
     (if quiescent task_done r
      then g\<lparr>rg_records := (rg_records g)(tk_address (ow_token r) := None)\<rparr> else g)"

text \<open>\<open>_record\<close>: the record a token still owns.\<close>

definition token_record :: "ownership_token \<Rightarrow> ownership_registry \<Rightarrow> ownership_record option" where
  "token_record t g =
     (case rg_records g (tk_address t) of
        Some r \<Rightarrow> if ow_token r = t then Some r else None
      | None \<Rightarrow> None)"

text \<open>Records are mutable: an update of a current record.\<close>

definition put_record :: "ownership_record \<Rightarrow> ownership_registry \<Rightarrow> ownership_registry" where
  "put_record r g = g\<lparr>rg_records := (rg_records g)(tk_address (ow_token r) := Some r)\<rparr>"

section \<open>Claims\<close>

definition claim ::
    "(nat \<Rightarrow> bool) \<Rightarrow> time \<Rightarrow> string \<Rightarrow> ownership_registry \<Rightarrow>
     ownership_token option \<times> ownership_registry" where
  "claim task_done now address g =
     (let n = normalize_address address;
          g = (case rg_records g n of
                 Some existing \<Rightarrow> release_if_quiescent task_done existing g
               | None \<Rightarrow> g)
      in if rg_records g n \<noteq> None then (None, g)
         else
           let t = \<lparr>tk_address = n, tk_serial = rg_serial g + 1\<rparr>
           in (Some t, put_record \<lparr>ow_token = t, ow_state = OWNED, ow_started_at = now,
                         ow_release_requested = False, ow_cleanup_required = False, ow_tasks = []\<rparr>
                 (g\<lparr>rg_serial := rg_serial g + 1\<rparr>)))"

definition is_current :: "ownership_token option \<Rightarrow> ownership_registry \<Rightarrow> bool" where
  "is_current t g \<longleftrightarrow>
     (case t of
        None \<Rightarrow> False
      | Some t \<Rightarrow> (case rg_records g (tk_address t) of Some r \<Rightarrow> ow_token r = t | None \<Rightarrow> False))"

definition is_owned ::
    "(nat \<Rightarrow> bool) \<Rightarrow> string \<Rightarrow> ownership_registry \<Rightarrow> bool \<times> ownership_registry" where
  "is_owned task_done address g =
     (let n = normalize_address address;
          g = (case rg_records g n of
                 Some r \<Rightarrow> release_if_quiescent task_done r g
               | None \<Rightarrow> g)
      in (rg_records g n \<noteq> None, g))"

section \<open>The holder's operations\<close>

definition mark_state ::
    "ownership_state \<Rightarrow> ownership_token \<Rightarrow> ownership_registry \<Rightarrow> bool \<times> ownership_registry" where
  "mark_state st t g =
     (case token_record t g of
        None \<Rightarrow> (False, g)
      | Some r \<Rightarrow> (True, put_record (r\<lparr>ow_state := st, ow_cleanup_required := True\<rparr>) g))"

definition mark_cancellation_requested ::
    "ownership_token \<Rightarrow> ownership_registry \<Rightarrow> bool \<times> ownership_registry" where
  "mark_cancellation_requested = mark_state CANCELLATION_REQUESTED"

definition mark_late_cleanup ::
    "ownership_token \<Rightarrow> ownership_registry \<Rightarrow> bool \<times> ownership_registry" where
  "mark_late_cleanup = mark_state LATE_CLEANUP"

definition track_task ::
    "ownership_token \<Rightarrow> nat \<Rightarrow> ownership_registry \<Rightarrow> bool \<times> ownership_registry" where
  "track_task t task g =
     (case token_record t g of
        None \<Rightarrow> (False, g)
      | Some r \<Rightarrow>
          (True, put_record
             (r\<lparr>ow_tasks := (if task \<in> set (ow_tasks r) then ow_tasks r else ow_tasks r @ [task])\<rparr>) g))"

definition request_release ::
    "(nat \<Rightarrow> bool) \<Rightarrow> ownership_token \<Rightarrow> ownership_registry \<Rightarrow> ownership_registry" where
  "request_release task_done t g =
     (case token_record t g of
        None \<Rightarrow> g
      | Some r \<Rightarrow>
          let r = r\<lparr>ow_release_requested := True\<rparr>
          in release_if_quiescent task_done r (put_record r g))"

definition finish_cleanup ::
    "(nat \<Rightarrow> bool) \<Rightarrow> ownership_token \<Rightarrow> ownership_registry \<Rightarrow> ownership_registry" where
  "finish_cleanup task_done t g =
     (case token_record t g of
        None \<Rightarrow> g
      | Some r \<Rightarrow>
          let r = r\<lparr>ow_cleanup_required := False\<rparr>
          in release_if_quiescent task_done r (put_record r g))"

text \<open>The done callback of a tracked task; what the task raised is only logged.\<close>

definition task_done_callback ::
    "(nat \<Rightarrow> bool) \<Rightarrow> ownership_token \<Rightarrow> nat \<Rightarrow> ownership_registry \<Rightarrow> ownership_registry" where
  "task_done_callback task_done t task g =
     (case token_record t g of
        None \<Rightarrow> g
      | Some r \<Rightarrow>
          let r = r\<lparr>ow_tasks := removeAll task (ow_tasks r)\<rparr>
          in release_if_quiescent task_done r (put_record r g))"

record ownership_snapshot =
  os_state :: ownership_state
  os_cancellation_requested :: bool
  os_pending_tasks :: nat
  os_elapsed_seconds :: time
  os_release_requested :: bool
  os_cleanup_required :: bool
  os_token_serial :: int

definition ownership_snapshot_of ::
    "(nat \<Rightarrow> bool) \<Rightarrow> time \<Rightarrow> ownership_token option \<Rightarrow> string option \<Rightarrow> ownership_registry \<Rightarrow>
     ownership_snapshot option \<times> ownership_registry" where
  "ownership_snapshot_of task_done now t address g =
     (let r = (case t of Some t \<Rightarrow> token_record t g | None \<Rightarrow> None);
          r = (case (r, address) of
                 (None, Some a) \<Rightarrow> rg_records g (normalize_address a)
               | _ \<Rightarrow> r)
      in case r of
           None \<Rightarrow> (None, g)
         | Some r \<Rightarrow>
             let g = release_if_quiescent task_done r g
             in if rg_records g (tk_address (ow_token r)) \<noteq> Some r then (None, g)
                else (Some \<lparr>os_state = ow_state r,
                            os_cancellation_requested = (ow_state r = CANCELLATION_REQUESTED),
                            os_pending_tasks = length (filter (\<lambda>t. \<not> task_done t) (ow_tasks r)),
                            os_elapsed_seconds = py_round3 (max 0 (now - ow_started_at r)),
                            os_release_requested = ow_release_requested r,
                            os_cleanup_required = ow_cleanup_required r,
                            os_token_serial = tk_serial (ow_token r)\<rparr>, g))"

section \<open>Standalone cleanup\<close>

datatype cleanup_error =
    AlreadyActive | CleanupTaskCancelled | CleanupTaskFailed exn | CancelledAfterDeadline | TailExceeded

datatype task_result = TaskCancelled | TaskRaised exn | TaskReturned

fun standalone_task_result :: "task_result \<Rightarrow> bool \<times> cleanup_error option" where
  "standalone_task_result TaskCancelled = (False, Some CleanupTaskCancelled)"
| "standalone_task_result (TaskRaised e) = (False, Some (CleanupTaskFailed e))"
| "standalone_task_result TaskReturned = (True, None)"

text \<open>What the two bounded waits for the cleanup task found.\<close>

datatype cleanup_wait =
    DoneInTime task_result
  | DoneAfterCancel task_result
  | StillRunning
  | CallerCancelled

record standalone_result =
  sr_acquired :: bool
  sr_success :: bool
  sr_retained :: bool
  sr_error :: "cleanup_error option"
  sr_ownership :: "ownership_snapshot option"

text \<open>Up to the first wait: the address is claimed and the cleanup task is tracked.\<close>

definition begin_standalone_cleanup ::
    "(nat \<Rightarrow> bool) \<Rightarrow> time \<Rightarrow> string \<Rightarrow> nat \<Rightarrow> ownership_registry \<Rightarrow>
     (standalone_result + ownership_token) \<times> ownership_registry" where
  "begin_standalone_cleanup task_done now address task g =
     (case claim task_done now address g of
        (None, g) \<Rightarrow>
          (case ownership_snapshot_of task_done now None (Some address) g of
             (snap, g) \<Rightarrow>
               (Inl \<lparr>sr_acquired = False, sr_success = False, sr_retained = False,
                     sr_error = Some AlreadyActive, sr_ownership = snap\<rparr>, g))
      | (Some t, g) \<Rightarrow> (Inr t, snd (track_task t task (snd (mark_state STANDALONE_CLEANUP t g)))))"

text \<open>After the waits; the registry operations of \<open>finally\<close> run in every case.\<close>

definition end_standalone_cleanup ::
    "(nat \<Rightarrow> bool) \<Rightarrow> time \<Rightarrow> string \<Rightarrow> ownership_token \<Rightarrow> cleanup_wait \<Rightarrow> ownership_registry \<Rightarrow>
     standalone_result res \<times> ownership_registry" where
  "end_standalone_cleanup task_done now address t wait g =
     (let g = finish_cleanup task_done t (request_release task_done t g);
          result = (\<lambda>success retained error.
            case ownership_snapshot_of task_done now (Some t) (Some address) g of
              (snap, g) \<Rightarrow>
                (Inr \<lparr>sr_acquired = True, sr_success = success, sr_retained = retained,
                      sr_error = error, sr_ownership = snap\<rparr>, g))
      in case wait of
           DoneInTime r \<Rightarrow> (case standalone_task_result r of (success, error) \<Rightarrow> result success False error)
         | DoneAfterCancel r \<Rightarrow>
             result False False
               (case standalone_task_result r of
                  (_, Some e) \<Rightarrow> Some e
                | (_, None) \<Rightarrow> Some CancelledAfterDeadline)
         | StillRunning \<Rightarrow> result False True (Some TailExceeded)
         | CallerCancelled \<Rightarrow> (Inl CancelledError, g))"

section \<open>Runs\<close>

text \<open>The registry and the tasks that have ended; a done callback runs after its task ended.\<close>

type_synonym ownership_world = "ownership_registry \<times> nat list"

datatype ownership_input =
    OClaim time string
  | OIsOwned string
  | OMarkCancellation ownership_token
  | OMarkLate ownership_token
  | OTrack ownership_token nat
  | ORelease ownership_token
  | OFinish ownership_token
  | OSnapshot time "ownership_token option" "string option"
  | OTaskEnds nat
  | OCallback ownership_token nat
  | OBegin time string nat
  | OEnd time string ownership_token cleanup_wait

fun ownership_step :: "ownership_world \<Rightarrow> ownership_input \<Rightarrow> ownership_world" where
  "ownership_step (g, ended) (OClaim now address) =
     (snd (claim (\<lambda>t. t \<in> set ended) now address g), ended)"
| "ownership_step (g, ended) (OIsOwned address) =
     (snd (is_owned (\<lambda>t. t \<in> set ended) address g), ended)"
| "ownership_step (g, ended) (OMarkCancellation t) = (snd (mark_cancellation_requested t g), ended)"
| "ownership_step (g, ended) (OMarkLate t) = (snd (mark_late_cleanup t g), ended)"
| "ownership_step (g, ended) (OTrack t task) = (snd (track_task t task g), ended)"
| "ownership_step (g, ended) (ORelease t) = (request_release (\<lambda>t. t \<in> set ended) t g, ended)"
| "ownership_step (g, ended) (OFinish t) = (finish_cleanup (\<lambda>t. t \<in> set ended) t g, ended)"
| "ownership_step (g, ended) (OSnapshot now t address) =
     (snd (ownership_snapshot_of (\<lambda>t. t \<in> set ended) now t address g), ended)"
| "ownership_step (g, ended) (OTaskEnds task) = (g, task # ended)"
| "ownership_step (g, ended) (OCallback t task) =
     (if task \<in> set ended then task_done_callback (\<lambda>t. t \<in> set ended) t task g else g, ended)"
| "ownership_step (g, ended) (OBegin now address task) =
     (snd (begin_standalone_cleanup (\<lambda>t. t \<in> set ended) now address task g), ended)"
| "ownership_step (g, ended) (OEnd now address t wait) =
     (snd (end_standalone_cleanup (\<lambda>t. t \<in> set ended) now address t wait g), ended)"

definition registry_ok :: "ownership_registry \<Rightarrow> bool" where
  "registry_ok g \<longleftrightarrow> 0 \<le> rg_serial g \<and>
     (\<forall>a r. rg_records g a = Some r \<longrightarrow>
        tk_address (ow_token r) = a \<and> 1 \<le> tk_serial (ow_token r) \<and> tk_serial (ow_token r) \<le> rg_serial g)"

text \<open>One registry operation: serials only grow, a token that was handed out and is not current
  stays so, and a current token is lost only when its record had become quiescent.\<close>

definition registry_le :: "ownership_registry \<Rightarrow> ownership_registry \<Rightarrow> bool" where
  "registry_le g g' \<longleftrightarrow> registry_ok g' \<and> rg_serial g \<le> rg_serial g' \<and>
     (\<forall>t. tk_serial t \<le> rg_serial g \<and> token_record t g = None \<longrightarrow> token_record t g' = None)"

lemma registry_le_refl: "registry_ok g \<Longrightarrow> registry_le g g"
  by (simp add: registry_le_def)

lemma registry_le_trans: "registry_le a b \<Longrightarrow> registry_le b c \<Longrightarrow> registry_le a c"
  unfolding registry_le_def by (meson order_trans)

lemma token_record_Some:
  "token_record t g = Some r \<longleftrightarrow> rg_records g (tk_address t) = Some r \<and> ow_token r = t"
  by (auto simp: token_record_def split: option.splits if_splits)

lemma is_current_token_record: "is_current (Some t) g \<longleftrightarrow> token_record t g \<noteq> None"
  by (auto simp: is_current_def token_record_def split: option.splits)

lemma token_record_release:
  "token_record t (release_if_quiescent f r g) =
     (if quiescent f r \<and> tk_address t = tk_address (ow_token r) then None else token_record t g)"
  by (simp add: release_if_quiescent_def token_record_def)

lemma token_record_put:
  "token_record t (put_record r g) =
     (if tk_address t = tk_address (ow_token r) then if ow_token r = t then Some r else None
      else token_record t g)"
  by (simp add: put_record_def token_record_def)

lemma serial_same [simp]:
  "rg_serial (release_if_quiescent f r g) = rg_serial g" "rg_serial (put_record r g) = rg_serial g"
  by (simp_all add: release_if_quiescent_def put_record_def)

lemma registry_ok_release: "registry_ok g \<Longrightarrow> registry_ok (release_if_quiescent f r g)"
  by (simp add: registry_ok_def release_if_quiescent_def)

lemma registry_ok_put:
  "registry_ok g \<Longrightarrow> token_record (ow_token r) g \<noteq> None \<Longrightarrow> registry_ok (put_record r g)"
  by (auto simp: registry_ok_def put_record_def token_record_Some) metis+

lemma registry_le_release: "registry_ok g \<Longrightarrow> registry_le g (release_if_quiescent f r g)"
  by (simp add: registry_le_def registry_ok_release token_record_release)

lemma registry_le_put:
  "registry_ok g \<Longrightarrow> token_record (ow_token r) g \<noteq> None \<Longrightarrow> registry_le g (put_record r g)"
  by (auto simp: registry_le_def registry_ok_put token_record_put)

lemma registry_le_put_release:
  assumes "registry_ok g" "token_record (ow_token r) g \<noteq> None"
  shows "registry_le g (release_if_quiescent f r (put_record r g))"
  using registry_le_trans[OF registry_le_put[OF assms] registry_le_release[OF registry_ok_put[OF assms]]] .

lemmas holder_defs = mark_state_def track_task_def request_release_def finish_cleanup_def
  task_done_callback_def mark_cancellation_requested_def mark_late_cleanup_def

lemma registry_le_holder:
  assumes "registry_ok g"
  shows "registry_le g (snd (mark_state st t g))" "registry_le g (snd (track_task t task g))"
    "registry_le g (request_release f t g)" "registry_le g (finish_cleanup f t g)"
    "registry_le g (task_done_callback f t task g)"
  using assms
  by (auto simp: holder_defs token_record_Some Let_def registry_le_refl
      intro!: registry_le_put registry_le_put_release split: option.split)

lemma registry_le_snapshot: "registry_ok g \<Longrightarrow> registry_le g (snd (ownership_snapshot_of f now t a g))"
  by (auto simp: ownership_snapshot_of_def Let_def registry_le_refl intro: registry_le_release
      split: option.splits)

lemma registry_le_claim:
  assumes "registry_ok g"
  shows "registry_le g (snd (claim f now address g))"
proof -
  let ?n = "normalize_address address"
  let ?g = "case rg_records g ?n of Some existing \<Rightarrow> release_if_quiescent f existing g | None \<Rightarrow> g"
  have le: "registry_le g ?g" and ok: "registry_ok ?g"
    using assms by (auto intro: registry_le_refl registry_le_release registry_ok_release split: option.split)
  have "registry_le ?g (put_record \<lparr>ow_token = \<lparr>tk_address = ?n, tk_serial = rg_serial ?g + 1\<rparr>,
      ow_state = OWNED, ow_started_at = now, ow_release_requested = False, ow_cleanup_required = False,
      ow_tasks = []\<rparr> (?g\<lparr>rg_serial := rg_serial ?g + 1\<rparr>))"
    using ok by (auto simp: registry_le_def registry_ok_def put_record_def token_record_def
        split: option.splits if_splits) fastforce+
  from registry_le_trans[OF le this] le show ?thesis by (simp add: claim_def Let_def)
qed

lemma end_standalone_registry:
  "snd (end_standalone_cleanup f now address t wait g) =
     (let g = finish_cleanup f t (request_release f t g)
      in if wait = CallerCancelled then g else snd (ownership_snapshot_of f now (Some t) (Some address) g))"
  by (cases wait) (simp_all add: end_standalone_cleanup_def Let_def split_beta)

lemma registry_le_step:
  assumes "registry_ok (fst w)"
  shows "registry_le (fst w) (fst (ownership_step w i))"
proof -
  obtain g ended where w: "w = (g, ended)" by (cases w)
  let ?f = "\<lambda>t. t \<in> set ended"
  have ok: "registry_ok g" using assms w by simp
  have next_ok: "registry_le x y \<Longrightarrow> registry_ok y" for x y by (simp add: registry_le_def)
  show ?thesis
  proof (cases i)
    case (OBegin now address task)
    obtain res g1 where c: "claim ?f now address g = (res, g1)" by fastforce
    with registry_le_claim[OF ok, of ?f now address] have le1: "registry_le g g1" by simp
    show ?thesis
    proof (cases res)
      case None
      have "registry_le g1 (snd (ownership_snapshot_of ?f now None (Some address) g1))"
        by (rule registry_le_snapshot[OF next_ok[OF le1]])
      from registry_le_trans[OF le1 this] None c OBegin w show ?thesis
        by (auto simp: begin_standalone_cleanup_def split: prod.split)
    next
      case (Some t)
      have le2: "registry_le g1 (snd (mark_state STANDALONE_CLEANUP t g1))"
        by (rule registry_le_holder(1)[OF next_ok[OF le1]])
      have "registry_le (snd (mark_state STANDALONE_CLEANUP t g1))
          (snd (track_task t task (snd (mark_state STANDALONE_CLEANUP t g1))))"
        by (rule registry_le_holder(2)[OF next_ok[OF le2]])
      from registry_le_trans[OF registry_le_trans[OF le1 le2] this] Some c OBegin w show ?thesis
        by (simp add: begin_standalone_cleanup_def)
    qed
  next
    case (OEnd now address t wait)
    let ?g = "finish_cleanup ?f t (request_release ?f t g)"
    have le: "registry_le g ?g"
      using registry_le_trans[OF registry_le_holder(3)[OF ok, of ?f t]
          registry_le_holder(4)[OF next_ok[OF registry_le_holder(3)[OF ok]]]] by blast
    from registry_le_trans[OF le registry_le_snapshot[OF next_ok[OF le]]] le OEnd w show ?thesis
      by (simp add: end_standalone_registry Let_def)
  next
    case (OIsOwned address)
    with ok w show ?thesis
      by (auto simp: is_owned_def Let_def intro: registry_le_refl registry_le_release split: option.split)
  qed (use ok w registry_le_holder[OF ok] registry_le_snapshot[OF ok] registry_le_claim[OF ok] in
      \<open>auto simp: mark_cancellation_requested_def mark_late_cleanup_def registry_le_refl\<close>)
qed

text \<open>A token that was handed out and is no longer current.\<close>

definition token_released :: "ownership_world \<Rightarrow> ownership_token \<Rightarrow> unit option" where
  "token_released w t =
     (if tk_serial t \<le> rg_serial (fst w) \<and> \<not> is_current (Some t) (fst w) then Some () else None)"

interpretation ownership: settling_system ownership_step "\<lambda>w. registry_ok (fst w)" token_released
proof unfold_locales
  fix w :: ownership_world and i
  assume ok: "registry_ok (fst w)"
  from registry_le_step[OF this, of i] show "registry_ok (fst (ownership_step w i))"
    by (simp add: registry_le_def)
  fix t v
  assume "token_released w t = Some v"
  with registry_le_step[OF ok, of i] show "token_released (ownership_step w i) t = Some v"
    by (auto simp: token_released_def registry_le_def is_current_token_record split: if_splits)
qed

lemma registry_ok_new [simp]: "registry_ok new_ownership_registry"
  by (simp add: registry_ok_def new_ownership_registry_def)

section \<open>How an address becomes free\<close>

text \<open>What an operation does to the record of a current token: it loses no task that has not ended, and
  release is requested and cleanup finished only where \<open>b\<close> and \<open>d\<close> allow it.  Only a record for which all
  of that holds may go.\<close>

definition record_free :: "nat list \<Rightarrow> bool \<Rightarrow> bool \<Rightarrow> ownership_record \<Rightarrow> bool" where
  "record_free ended b d r \<longleftrightarrow> set (ow_tasks r) \<subseteq> set ended \<and> (ow_release_requested r \<or> b) \<and>
     (\<not> ow_cleanup_required r \<or> d)"

definition record_le :: "nat list \<Rightarrow> bool \<Rightarrow> bool \<Rightarrow> ownership_record \<Rightarrow> ownership_record \<Rightarrow> bool" where
  "record_le ended b d r r' \<longleftrightarrow> set (ow_tasks r) \<subseteq> set ended \<union> set (ow_tasks r') \<and>
     (ow_release_requested r' \<longrightarrow> ow_release_requested r \<or> b) \<and> (ow_cleanup_required r \<longrightarrow> ow_cleanup_required r' \<or> d)"

definition keeps_record ::
    "nat list \<Rightarrow> ownership_token \<Rightarrow> bool \<Rightarrow> bool \<Rightarrow> ownership_registry \<Rightarrow> ownership_registry \<Rightarrow> bool" where
  "keeps_record ended t b d g g' \<longleftrightarrow> (\<forall>r. token_record t g = Some r \<longrightarrow>
     record_free ended b d r \<or> (\<exists>r'. token_record t g' = Some r' \<and> record_le ended b d r r'))"

lemma keeps_record_same: "token_record t g' = token_record t g \<Longrightarrow> keeps_record ended t b d g g'"
  by (auto simp: keeps_record_def record_le_def)

lemma keeps_record_trans:
  "keeps_record ended t b d g g1 \<Longrightarrow> keeps_record ended t b d g1 g2 \<Longrightarrow> keeps_record ended t b d g g2"
  unfolding keeps_record_def record_le_def record_free_def by blast

lemma quiescent_free: "quiescent (\<lambda>t. t \<in> set ended) r \<Longrightarrow> record_free ended b d r"
  by (auto simp: quiescent_def record_free_def list_ex_iff)

text \<open>An update of the holder of \<open>t'\<close>, which may release the address.\<close>

lemma keeps_record_update:
  assumes "token_record t' g = Some r" "ow_token x = t'" "t' = t \<Longrightarrow> record_le ended b d r x"
  shows "keeps_record ended t b d g (put_record x g)"
    "keeps_record ended t b d g (release_if_quiescent (\<lambda>t. t \<in> set ended) x (put_record x g))"
proof -
  let ?q = "quiescent (\<lambda>t. t \<in> set ended) x"
  have "keeps_record ended t b d g (put_record x g) \<and>
    keeps_record ended t b d g (release_if_quiescent (\<lambda>t. t \<in> set ended) x (put_record x g))"
  proof (cases "t' = t")
    case True
    then have put: "token_record t (put_record x g) = Some x"
      "token_record t (release_if_quiescent (\<lambda>t. t \<in> set ended) x (put_record x g)) = (if ?q then None else Some x)"
      using assms(2) by (simp_all add: token_record_put token_record_release)
    have le: "record_le ended b d r x" using assms(3) True by blast
    have "record_free ended b d r" if ?q
      using quiescent_free[OF that, of b d] le by (auto simp: record_free_def record_le_def)
    with assms(1) True put le show ?thesis by (cases ?q) (simp_all add: keeps_record_def)
  next
    case False
    show ?thesis
    proof (cases "tk_address t = tk_address t'")
      case True
      with False assms(1) have "token_record t g = None" by (auto simp: token_record_def split: option.splits if_splits)
      then show ?thesis by (simp add: keeps_record_def)
    next
      case False
      with assms(2) show ?thesis
        by (intro conjI keeps_record_same) (simp_all add: token_record_put token_record_release)
    qed
  qed
  then show "keeps_record ended t b d g (put_record x g)"
    "keeps_record ended t b d g (release_if_quiescent (\<lambda>t. t \<in> set ended) x (put_record x g))" by blast+
qed

lemma keeps_record_found:
  assumes "registry_ok g" "rg_records g a = Some e"
  shows "keeps_record ended t b d g (release_if_quiescent (\<lambda>t. t \<in> set ended) e g)"
proof -
  have a: "tk_address (ow_token e) = a" using assms unfolding registry_ok_def by blast
  show ?thesis unfolding keeps_record_def
  proof (intro allI impI)
    fix r
    assume r: "token_record t g = Some r"
    show "record_free ended b d r \<or> (\<exists>r'. token_record t (release_if_quiescent (\<lambda>t. t \<in> set ended) e g) = Some r' \<and>
        record_le ended b d r r')"
    proof (cases "quiescent (\<lambda>t. t \<in> set ended) e \<and> tk_address t = a")
      case True
      then have "e = r" using r assms(2) by (simp add: token_record_Some)
      with True quiescent_free[of ended r b d] show ?thesis by simp
    next
      case False
      with r a have "token_record t (release_if_quiescent (\<lambda>t. t \<in> set ended) e g) = Some r"
        by (auto simp: token_record_release)
      then show ?thesis by (simp add: record_le_def)
    qed
  qed
qed

lemma keeps_record_change:
  assumes "\<And>r. ow_token (f r) = ow_token r" "\<And>r. t' = t \<Longrightarrow> record_le ended b d r (f r)"
  shows "keeps_record ended t b d g (case token_record t' g of None \<Rightarrow> g | Some r \<Rightarrow> put_record (f r) g)"
    "keeps_record ended t b d g (case token_record t' g of None \<Rightarrow> g
       | Some r \<Rightarrow> release_if_quiescent (\<lambda>t. t \<in> set ended) (f r) (put_record (f r) g))"
proof -
  have own: "ow_token (f r) = t'" if "token_record t' g = Some r" for r
    using that assms(1) by (simp add: token_record_Some)
  note update = keeps_record_update[OF _ own assms(2)]
  show "keeps_record ended t b d g (case token_record t' g of None \<Rightarrow> g | Some r \<Rightarrow> put_record (f r) g)"
    "keeps_record ended t b d g (case token_record t' g of None \<Rightarrow> g
       | Some r \<Rightarrow> release_if_quiescent (\<lambda>t. t \<in> set ended) (f r) (put_record (f r) g))"
    by (cases "token_record t' g", simp add: keeps_record_same, simp add: update)+
qed

lemma keeps_record_holder:
  "keeps_record ended t b d g (snd (mark_state st t' g))"
  "keeps_record ended t b d g (snd (track_task t' task g))"
  "(t' = t \<longrightarrow> b) \<Longrightarrow> keeps_record ended t b d g (request_release (\<lambda>t. t \<in> set ended) t' g)"
  "(t' = t \<longrightarrow> d) \<Longrightarrow> keeps_record ended t b d g (finish_cleanup (\<lambda>t. t \<in> set ended) t' g)"
  "task \<in> set ended \<Longrightarrow> keeps_record ended t b d g (task_done_callback (\<lambda>t. t \<in> set ended) t' task g)"
proof -
  have snd_case: "snd (case x of None \<Rightarrow> (False, g) | Some r \<Rightarrow> (True, f r)) = (case x of None \<Rightarrow> g | Some r \<Rightarrow> f r)" for x f
    by (cases x) simp_all
  show "keeps_record ended t b d g (snd (mark_state st t' g))"
    "keeps_record ended t b d g (snd (track_task t' task g))"
    unfolding mark_state_def track_task_def snd_case by (rule keeps_record_change; auto simp: record_le_def)+
  show "keeps_record ended t b d g (request_release (\<lambda>t. t \<in> set ended) t' g)" if "t' = t \<longrightarrow> b"
    unfolding request_release_def Let_def by (rule keeps_record_change(2)) (use that in \<open>auto simp: record_le_def\<close>)
  show "keeps_record ended t b d g (finish_cleanup (\<lambda>t. t \<in> set ended) t' g)" if "t' = t \<longrightarrow> d"
    unfolding finish_cleanup_def Let_def by (rule keeps_record_change(2)) (use that in \<open>auto simp: record_le_def\<close>)
  show "keeps_record ended t b d g (task_done_callback (\<lambda>t. t \<in> set ended) t' task g)" if "task \<in> set ended"
    unfolding task_done_callback_def Let_def
    by (rule keeps_record_change(2)) (use that in \<open>auto simp: record_le_def\<close>)
qed

lemma keeps_record_claim:
  assumes "registry_ok g"
  shows "keeps_record ended t b d g (snd (claim (\<lambda>t. t \<in> set ended) now address g))"
proof -
  let ?n = "normalize_address address"
  let ?g = "case rg_records g ?n of Some e \<Rightarrow> release_if_quiescent (\<lambda>t. t \<in> set ended) e g | None \<Rightarrow> g"
  have g: "keeps_record ended t b d g ?g"
    using keeps_record_found[OF assms] by (cases "rg_records g ?n") (simp_all add: keeps_record_same)
  have "keeps_record ended t b d ?g (snd (claim (\<lambda>t. t \<in> set ended) now address g))"
  proof (cases "rg_records ?g ?n = None")
    case True
    let ?t = "\<lparr>tk_address = ?n, tk_serial = rg_serial ?g + 1\<rparr>"
    let ?x = "\<lparr>ow_token = ?t, ow_state = OWNED, ow_started_at = now, ow_release_requested = False,
        ow_cleanup_required = False, ow_tasks = []\<rparr>"
    from True have c: "snd (claim (\<lambda>t. t \<in> set ended) now address g) = put_record ?x (?g\<lparr>rg_serial := rg_serial ?g + 1\<rparr>)"
      by (simp add: claim_def Let_def)
    show ?thesis
    proof (cases "tk_address t = ?n")
      case True
      with \<open>rg_records ?g ?n = None\<close> have "token_record t ?g = None" by (simp add: token_record_def)
      then show ?thesis by (simp add: keeps_record_def)
    next
      case False
      then show ?thesis unfolding c by (intro keeps_record_same) (simp add: token_record_put, simp add: token_record_def)
    qed
  next
    case False
    then have "snd (claim (\<lambda>t. t \<in> set ended) now address g) = ?g" by (simp add: claim_def Let_def)
    then show ?thesis by (simp add: keeps_record_same)
  qed
  with g show ?thesis by (rule keeps_record_trans)
qed

lemma keeps_record_snapshot:
  assumes "registry_ok g"
  shows "keeps_record ended t b d g (snd (ownership_snapshot_of (\<lambda>t. t \<in> set ended) now t' a g))"
proof -
  let ?r = "case (case t' of Some t \<Rightarrow> token_record t g | None \<Rightarrow> None, a) of
      (None, Some a) \<Rightarrow> rg_records g (normalize_address a)
    | _ \<Rightarrow> (case t' of Some t \<Rightarrow> token_record t g | None \<Rightarrow> None)"
  have "snd (ownership_snapshot_of f now t' a g) =
      (case ?r of None \<Rightarrow> g | Some r \<Rightarrow> release_if_quiescent f r g)" for f
    by (simp add: ownership_snapshot_of_def Let_def split: option.split)
  moreover have "\<exists>b. rg_records g b = Some e" if "?r = Some e" for e
    using that by (auto simp: token_record_Some split: option.splits)
  ultimately show ?thesis using keeps_record_found[OF assms] by (cases ?r) (auto simp: keeps_record_same)
qed

definition asks_release :: "ownership_token \<Rightarrow> ownership_input \<Rightarrow> bool" where
  "asks_release t i \<longleftrightarrow> i = ORelease t \<or> (\<exists>now a x. i = OEnd now a t x)"

definition ends_cleanup :: "ownership_token \<Rightarrow> ownership_input \<Rightarrow> bool" where
  "ends_cleanup t i \<longleftrightarrow> i = OFinish t \<or> (\<exists>now a x. i = OEnd now a t x)"

lemma ownership_step_record:
  assumes "registry_ok g"
  shows "keeps_record ended t (asks_release t i) (ends_cleanup t i) g (fst (ownership_step (g, ended) i))"
proof -
  let ?f = "\<lambda>t. t \<in> set ended" and ?b = "asks_release t i" and ?d = "ends_cleanup t i"
  have next_ok: "registry_le x y \<Longrightarrow> registry_ok y" for x y by (simp add: registry_le_def)
  note holder = keeps_record_holder[where ended = ended and t = t and b = ?b and d = ?d]
  note snapshot = keeps_record_snapshot[where ended = ended and t = t and b = ?b and d = ?d]
  note claim = keeps_record_claim[OF assms, where ended = ended and t = t and b = ?b and d = ?d]
  show ?thesis
  proof (cases i)
    case (OBegin now address task)
    obtain res g1 where c: "claim ?f now address g = (res, g1)" by fastforce
    have ok: "registry_ok g1" using registry_le_claim[OF assms, of ?f now address] c by (simp add: next_ok)
    have "keeps_record ended t ?b ?d g1 (fst (ownership_step (g, ended) i))"
    proof (cases res)
      case None
      with c OBegin snapshot[OF ok, of now None "Some address"] show ?thesis
        by (auto simp: begin_standalone_cleanup_def split: prod.split)
    next
      case (Some t')
      with c OBegin keeps_record_trans[OF holder(1)[of g1 STANDALONE_CLEANUP t'] holder(2)] show ?thesis
        by (auto simp: begin_standalone_cleanup_def split: prod.split)
    qed
    with claim[of now address] c show ?thesis using keeps_record_trans by fastforce
  next
    case (OEnd now address t' wait)
    let ?g1 = "request_release ?f t' g" and ?g2 = "finish_cleanup ?f t' (request_release ?f t' g)"
    have same: "(t' = t \<longrightarrow> ?b)" "(t' = t \<longrightarrow> ?d)" using OEnd by (simp_all add: asks_release_def ends_cleanup_def)
    have le: "registry_le g ?g1" "registry_le ?g1 ?g2"
      by (rule registry_le_holder(3)[OF assms], rule registry_le_holder(4)[OF next_ok[OF registry_le_holder(3)[OF assms]]])
    have "keeps_record ended t ?b ?d g ?g2"
      by (rule keeps_record_trans[OF holder(3)[OF same(1)] holder(4)[OF same(2)]])
    with keeps_record_trans[OF this snapshot[OF next_ok[OF le(2)], of now "Some t'" "Some address"]] OEnd
    show ?thesis by (cases "wait = CallerCancelled") (simp_all add: end_standalone_registry Let_def)
  next
    case (OIsOwned address)
    with keeps_record_found[OF assms, of "normalize_address address" _ ended t ?b ?d] show ?thesis
      by (cases "rg_records g (normalize_address address)") (simp_all add: is_owned_def Let_def keeps_record_same)
  next
    case (ORelease t')
    with holder(3)[of t' g] show ?thesis by (simp add: asks_release_def)
  next
    case (OFinish t')
    with holder(4)[of t' g] show ?thesis by (simp add: ends_cleanup_def)
  next
    case (OCallback t' task)
    with holder(5)[of task g t'] show ?thesis by (simp add: keeps_record_same)
  qed (use claim holder snapshot[OF assms] in
      \<open>simp_all add: mark_cancellation_requested_def mark_late_cleanup_def keeps_record_same\<close>)
qed

section \<open>Properties\<close>

text \<open>An address stays quarantined until its holder is through: a step that ends a token's ownership
  finds every task tracked under it ended, its release requested (by then or by this step) and no
  cleanup outstanding (or finished by this step); until then nobody else owns the address.\<close>

theorem address_quarantined_until_quiescent:
  assumes "registry_ok g" and "token_record t g = Some r"
    and "token_record t (fst (ownership_step (g, ended) i)) = None"
  shows "(\<forall>task \<in> set (ow_tasks r). task \<in> set ended) \<and>
    (ow_release_requested r \<or> i = ORelease t \<or> (\<exists>now a x. i = OEnd now a t x)) \<and>
    (\<not> ow_cleanup_required r \<or> i = OFinish t \<or> (\<exists>now a x. i = OEnd now a t x))"
  using ownership_step_record[OF assms(1), of ended t i] assms(2,3)
  by (auto simp: keeps_record_def record_free_def asks_release_def ends_cleanup_def)

text \<open>C37. A claim is exclusive and a token is never revived: in every reachable registry, claiming an
  address gives nothing, and changes nothing, while an owner that is not quiescent holds it;
  otherwise it gives a token with a serial never used before, which is current; and a token that
  was handed out and has lost its address is not current after any further operations.\<close>

theorem claims_exclusive_and_final:
  assumes "w = foldl ownership_step (new_ownership_registry, []) is"
    and "claim f now address (fst w) = (res, g')"
  shows "(case rg_records (fst w) (normalize_address address) of
      Some r \<Rightarrow> if quiescent f r then res \<noteq> None else res = None \<and> g' = fst w
    | None \<Rightarrow> res \<noteq> None) \<and>
    (\<forall>t. res = Some t \<longrightarrow> tk_address t = normalize_address address \<and>
       tk_serial t = rg_serial (fst w) + 1 \<and> is_current (Some t) g' \<and>
       (\<forall>a r. rg_records (fst w) a = Some r \<longrightarrow> tk_serial (ow_token r) < tk_serial t)) \<and>
    (\<forall>t. tk_serial t \<le> rg_serial (fst w) \<and> \<not> is_current (Some t) (fst w) \<longrightarrow>
       \<not> is_current (Some t) (fst (foldl ownership_step w later)))"
proof -
  have ok: "registry_ok (fst w)"
    using ownership.run_inv[of "(new_ownership_registry, [])" "is"] by (simp add: assms(1))
  have "\<not> is_current (Some t) (fst (foldl ownership_step w later))"
    if "tk_serial t \<le> rg_serial (fst w)" "\<not> is_current (Some t) (fst w)" for t
  proof -
    have "token_released w t = Some ()" using that by (simp add: token_released_def)
    from ownership.run_settled[OF ok this, of later] show ?thesis
      by (simp add: token_released_def split: if_splits)
  qed
  moreover have "rg_records (release_if_quiescent f r (fst w)) (normalize_address address) =
      (if quiescent f r then None else Some r)"
    if "rg_records (fst w) (normalize_address address) = Some r" for r
    using that ok by (auto simp: release_if_quiescent_def registry_ok_def)
  moreover have "tk_serial (ow_token r) < rg_serial (fst w) + 1" if "rg_records (fst w) a = Some r" for a r
    using ok that by (fastforce simp: registry_ok_def)
  ultimately show ?thesis
    using assms(2)
    by (cases "rg_records (fst w) (normalize_address address)")
      (auto simp: claim_def Let_def is_current_def put_record_def release_if_quiescent_def split: if_splits)
qed

text \<open>A holder that asks for release while a task still runs.\<close>

definition held_token :: ownership_token where
  "held_token = \<lparr>tk_address = ''AA:BB'', tk_serial = 1\<rparr>"

definition held_inputs :: "ownership_input list" where
  "held_inputs = [OClaim 10 '' aa:bb '', OTrack held_token 7, ORelease held_token]"

definition held_record :: ownership_record where
  "held_record =
     \<lparr>ow_token = held_token, ow_state = OWNED, ow_started_at = 10, ow_release_requested = True,
      ow_cleanup_required = False, ow_tasks = [7]\<rparr>"

theorem claims_exclusive_and_final_witness:
  "fst (claim (\<lambda>_. False) 20 ''Aa:bB'' (fst (foldl ownership_step (new_ownership_registry, []) held_inputs))) = None \<and>
   \<not> is_current (Some held_token) (fst (foldl ownership_step
       (foldl ownership_step (new_ownership_registry, []) (held_inputs @ [OTaskEnds 7, OCallback held_token 7]))
       [OClaim 30 ''aa:bb'']))"
proof -
  let ?w = "foldl ownership_step (new_ownership_registry, []) held_inputs"
  let ?v = "foldl ownership_step (new_ownership_registry, []) (held_inputs @ [OTaskEnds 7, OCallback held_token 7])"
  have "rg_records (fst ?w) (normalize_address ''Aa:bB'') = Some held_record"
    "quiescent (\<lambda>_. False) held_record = False" by code_simp+
  moreover have "tk_serial held_token \<le> rg_serial (fst ?v)" "\<not> is_current (Some held_token) (fst ?v)"
    by code_simp+
  ultimately show ?thesis
    using claims_exclusive_and_final[OF refl prod.collapse[symmetric], of "\<lambda>_. False" 20 "''Aa:bB''" held_inputs "[]"]
      claims_exclusive_and_final[OF refl prod.collapse[symmetric],
        of "\<lambda>_. False" 20 "''x''"
          "held_inputs @ [OTaskEnds 7, OCallback held_token 7]" "[OClaim 30 ''aa:bb'']"]
    by (simp only: option.case if_False) blast
qed

theorem address_quarantined_until_quiescent_witness:
  "token_record held_token (fst (ownership_step
     (fst (foldl ownership_step (new_ownership_registry, []) held_inputs), [7]) (OCallback held_token 7))) = None \<and>
   list_all (\<lambda>task. task = 7) (ow_tasks held_record)"
proof -
  let ?g = "fst (foldl ownership_step (new_ownership_registry, []) held_inputs)"
  have "registry_ok ?g" using ownership.run_inv[of "(new_ownership_registry, [])" held_inputs] by simp
  moreover have "token_record held_token ?g = Some held_record" by code_simp
  moreover have "token_record held_token (fst (ownership_step (?g, [7]) (OCallback held_token 7))) = None"
    by code_simp
  ultimately show ?thesis using address_quarantined_until_quiescent[of ?g held_token held_record "[7]" "OCallback held_token 7"]
    by (auto simp: list_all_iff)
qed

end
