(* ===== verification/Auto_Memory.thy ===== *)
theory Auto_Memory
  imports Json_Values
begin

text \<open>
  The durable Custom Auto selection (\<open>custom_auto_memory.py\<close>).  The storage of Home Assistant is
  the environment: its content is a JSON value or absent, a load that does not raise returns the
  content, and a save or removal may succeed, raise after leaving any content, or return without
  having stored anything.  The mutation lock makes each operation one step; a caller cancelled
  while a mutation runs waits for it to settle and then raises.
\<close>

datatype core_state = CoreRunning | CoreStopping | CoreFinalWrite | CoreOther

definition STOPPING_STATES :: "core_state list" where
  "STOPPING_STATES = [CoreStopping, CoreFinalWrite]"

text \<open>What the environment does with a write, and whether a load raises.\<close>

datatype write_io = WriteOk | WriteRaises exn "json option" | WriteLost "json option"

datatype load_io = LoadOk | LoadRaises exn

fun store_save :: "write_io \<Rightarrow> json \<Rightarrow> json option \<Rightarrow> unit res \<times> json option" where
  "store_save WriteOk v content = (Inr (), Some v)"
| "store_save (WriteRaises e left) v content = (Inl e, left)"
| "store_save (WriteLost left) v content = (Inr (), left)"

fun store_remove :: "write_io \<Rightarrow> json option \<Rightarrow> unit res \<times> json option" where
  "store_remove WriteOk content = (Inr (), None)"
| "store_remove (WriteRaises e left) content = (Inl e, left)"
| "store_remove (WriteLost left) content = (Inr (), left)"

fun store_load :: "load_io \<Rightarrow> json option \<Rightarrow> json option res" where
  "store_load LoadOk content = Inr (if content = Some JNull then None else content)"
| "store_load (LoadRaises e) content = Inl e"

section \<open>Operations\<close>

text \<open>The payload is exactly \<open>{"active": bool}\<close>.\<close>

definition active_from_payload :: "json option \<Rightarrow> bool option" where
  "active_from_payload payload =
     (case payload of
        Some (JObject fields_) \<Rightarrow>
          if set (map fst fields_) \<noteq> {''active''} then None
          else (case map_of fields_ ''active'' of Some (JBool b) \<Rightarrow> Some b | _ \<Rightarrow> None)
      | _ \<Rightarrow> None)"

definition load_active :: "load_io \<Rightarrow> json option \<Rightarrow> bool" where
  "load_active io content =
     (case store_load io content of
        Inl e \<Rightarrow> False
      | Inr payload \<Rightarrow> (case active_from_payload payload of Some b \<Rightarrow> b | None \<Rightarrow> False))"

definition save_and_verify ::
    "write_io \<Rightarrow> load_io \<Rightarrow> bool \<Rightarrow> json option \<Rightarrow> unit res \<times> json option" where
  "save_and_verify wio lio active content =
     (case store_save wio (JObject [(''active'', JBool active)]) content of
        (Inl e, content) \<Rightarrow> (Inl CustomAutoMemoryError, content)
      | (Inr _, content) \<Rightarrow>
          (case store_load lio content of
             Inl e \<Rightarrow> (Inl CustomAutoMemoryError, content)
           | Inr persisted \<Rightarrow>
               if active_from_payload persisted \<noteq> Some active
               then (Inl CustomAutoMemoryError, content) else (Inr (), content)))"

definition remove_and_verify ::
    "write_io \<Rightarrow> load_io \<Rightarrow> json option \<Rightarrow> unit res \<times> json option" where
  "remove_and_verify wio lio content =
     (case store_remove wio content of
        (removed, content) \<Rightarrow>
          (case store_load lio content of
             Inl e \<Rightarrow> (Inl CustomAutoMemoryError, content)
           | Inr persisted \<Rightarrow>
               (case removed of
                  Inl e \<Rightarrow> (Inl CustomAutoMemoryError, content)
                | Inr _ \<Rightarrow> if persisted \<noteq> None then (Inl CustomAutoMemoryError, content)
                          else (Inr (), content))))"

definition ensure_writable :: "core_state \<Rightarrow> unit res" where
  "ensure_writable st = (if st \<in> set STOPPING_STATES then Inl CustomAutoMemoryError else Inr ())"

text \<open>A mutation that was started runs to its end; a cancelled caller then raises.\<close>

definition await_mutation :: "bool \<Rightarrow> unit res \<times> json option \<Rightarrow> unit res \<times> json option" where
  "await_mutation caller_cancelled r =
     (if caller_cancelled then (Inl CancelledError, snd r) else r)"

definition set_active ::
    "core_state \<Rightarrow> write_io \<Rightarrow> load_io \<Rightarrow> bool \<Rightarrow> bool \<Rightarrow> json option \<Rightarrow> unit res \<times> json option" where
  "set_active st wio lio caller_cancelled active content =
     (case ensure_writable st of
        Inl e \<Rightarrow> (Inl e, content)
      | Inr _ \<Rightarrow> await_mutation caller_cancelled (save_and_verify wio lio active content))"

definition clear ::
    "core_state \<Rightarrow> write_io \<Rightarrow> load_io \<Rightarrow> bool \<Rightarrow> json option \<Rightarrow> unit res \<times> json option" where
  "clear st wio lio caller_cancelled content =
     (case ensure_writable st of
        Inl e \<Rightarrow> (Inl e, content)
      | Inr _ \<Rightarrow> await_mutation caller_cancelled (remove_and_verify wio lio content))"

section \<open>Properties\<close>

lemma active_from_written [simp]: "active_from_payload (Some (JObject [(''active'', JBool b)])) = Some b"
  by (simp add: active_from_payload_def)



end
