(* ===== verification/Channel.thy ===== *)
theory Channel
  imports Crypto Shipped_Profiles
begin

text \<open>
  Application channels over an opaque transport (\<open>channel.py\<close>): the plaintext channel, and the
  encrypted session channel with its two-step key negotiation.  While the negotiating task waits,
  notifications arrive and the connection may be invalidated; the environment says what happens in
  each wait.  Futures of the negotiation phases are entries of \<open>cn_futures\<close>, so that the negotiating
  task keeps its future when the channel has forgotten it.  Wire frames written and plaintext
  delivered are logged in order.
\<close>

section \<open>State\<close>

datatype phase_future = Pending | Response bytes | Invalidated

record channel =
  cn_profile :: device_profile
  cn_ready :: bool
  cn_session_key :: "bytes option"
  cn_phase :: int
  cn_phase_future :: "nat option"
  cn_futures :: "phase_future list"
  cn_refresh_during_negotiation :: bool
  cn_written :: "bytes list"
  cn_delivered :: "bytes list"

type_synonym cipher = "bool \<Rightarrow> bytes \<Rightarrow> bytes \<Rightarrow> bytes"

definition new_channel :: "device_profile \<Rightarrow> channel" where
  "new_channel p =
     \<lparr>cn_profile = p, cn_ready = False, cn_session_key = None, cn_phase = 0, cn_phase_future = None,
      cn_futures = [], cn_refresh_during_negotiation = False, cn_written = [], cn_delivered = []\<rparr>"

text \<open>The encrypted channel refuses a profile without a negotiation policy.\<close>

definition new_session_channel :: "device_profile \<Rightarrow> channel res" where
  "new_session_channel p =
     (if negotiation (channel p) = None then Inl ValueError else Inr (new_channel p))"

definition settle_future :: "nat \<Rightarrow> phase_future \<Rightarrow> channel \<Rightarrow> channel" where
  "settle_future i v c =
     c\<lparr>cn_futures := (if i < length (cn_futures c) \<and> cn_futures c ! i = Pending
                      then (cn_futures c)[i := v] else cn_futures c)\<rparr>"

definition invalidate :: "channel \<Rightarrow> channel" where
  "invalidate c =
     (let forgotten = c\<lparr>cn_ready := False, cn_session_key := None, cn_phase := 0,
            cn_phase_future := None, cn_refresh_during_negotiation := False\<rparr>
      in case cn_phase_future c of
           None \<Rightarrow> forgotten
         | Some i \<Rightarrow> settle_future i Invalidated forgotten)"

text \<open>A wire frame reaches the transport only with the profile's frame size; the transport's own
  outcome comes from the environment.\<close>

definition write_wire_frame :: "bytes \<Rightarrow> exn option \<Rightarrow> channel \<Rightarrow> unit res \<times> channel" where
  "write_wire_frame wire outcome c =
     (if int (length wire) \<noteq> frame_size (protocol (cn_profile c)) then (Inl FrameLengthError, c)
      else (case outcome of
              Some e \<Rightarrow> (Inl e, c)
            | None \<Rightarrow> (Inr (), c\<lparr>cn_written := cn_written c @ [wire]\<rparr>)))"

definition deliver :: "bytes \<Rightarrow> channel \<Rightarrow> channel" where
  "deliver plaintext c = c\<lparr>cn_delivered := cn_delivered c @ [plaintext]\<rparr>"

section \<open>Plaintext channel\<close>

definition plaintext_received :: "bytes \<Rightarrow> channel \<Rightarrow> channel" where
  "plaintext_received wire c =
     (case validate_frame wire of Inl e \<Rightarrow> c | Inr plaintext \<Rightarrow> deliver plaintext c)"

definition plaintext_send :: "bytes \<Rightarrow> exn option \<Rightarrow> channel \<Rightarrow> unit res \<times> channel" where
  "plaintext_send plaintext outcome c =
     (if \<not> cn_ready c then (Inl ChannelNotReadyError, c)
      else (case validate_frame plaintext of
              Inl e \<Rightarrow> (Inl e, c)
            | Inr frame \<Rightarrow> write_wire_frame frame outcome c))"

text \<open>Subscribe, then wait the application delay; what happens meanwhile is a list of events.\<close>

datatype channel_event = ChReceive bytes | ChInvalidate

definition plaintext_event :: "channel \<Rightarrow> channel_event \<Rightarrow> channel" where
  "plaintext_event c e =
     (case e of ChReceive wire \<Rightarrow> plaintext_received wire c | ChInvalidate \<Rightarrow> invalidate c)"

definition plaintext_establish ::
    "channel_event list \<Rightarrow> exn option \<Rightarrow> channel_event list \<Rightarrow> exn option \<Rightarrow> channel \<Rightarrow>
     unit res \<times> channel" where
  "plaintext_establish subscribe_events subscribe delay_events delay c =
     (let c = foldl plaintext_event (invalidate c) subscribe_events
      in case subscribe of
           Some e \<Rightarrow> (Inl e, c)
         | None \<Rightarrow>
             let c = foldl plaintext_event (c\<lparr>cn_ready := True\<rparr>) delay_events
             in case delay of Some e \<Rightarrow> (Inl e, c) | None \<Rightarrow> (Inr (), c))"

section \<open>Receiving on the encrypted channel\<close>

text \<open>\<open>suppress(ValueError)\<close>\<close>

definition try_decrypt :: "cipher \<Rightarrow> bytes \<Rightarrow> bytes \<Rightarrow> bytes option res" where
  "try_decrypt aes wire key =
     (case decrypt_frame aes wire key of
        Inr plaintext \<Rightarrow> Inr (Some plaintext)
      | Inl e \<Rightarrow> if is_value_error e then Inr None else Inl e)"

definition handle_negotiation_frame :: "bytes \<Rightarrow> channel \<Rightarrow> channel" where
  "handle_negotiation_frame plaintext c =
     (case cn_phase_future c of
        None \<Rightarrow> c
      | Some i \<Rightarrow>
          if uint (plaintext ! 1) \<noteq> cn_phase c then c else settle_future i (Response plaintext) c)"

definition session_received :: "cipher \<Rightarrow> bytes \<Rightarrow> channel \<Rightarrow> unit res \<times> channel" where
  "session_received aes wire c =
     (case try_decrypt aes wire COMMUNICATION_KEY of
        Inl e \<Rightarrow> (Inl e, c)
      | Inr communication \<Rightarrow>
          let prefix = (case communication of Some p \<Rightarrow> take 2 p | None \<Rightarrow> [])
          in if prefix \<in> {[0xE7, 0x01], [0xE7, 0x02]} then
               (Inr (), handle_negotiation_frame (the communication) c)
             else if prefix = [0xEE, 0xAA] then
               (Inr (), if cn_ready c then deliver (the communication) c
                        else c\<lparr>cn_refresh_during_negotiation := True\<rparr>)
             else
               (case cn_session_key c of
                  None \<Rightarrow> (Inr (), c)
                | Some key \<Rightarrow>
                    (case try_decrypt aes wire key of
                       Inl e \<Rightarrow> (Inl e, c)
                     | Inr None \<Rightarrow> (Inr (), c)
                     | Inr (Some plaintext) \<Rightarrow>
                         (Inr (), if cn_ready c then deliver plaintext c else c))))"

definition session_event :: "cipher \<Rightarrow> channel \<Rightarrow> channel_event \<Rightarrow> channel" where
  "session_event aes c e =
     (case e of ChReceive wire \<Rightarrow> snd (session_received aes wire c) | ChInvalidate \<Rightarrow> invalidate c)"

definition session_send :: "cipher \<Rightarrow> bytes \<Rightarrow> exn option \<Rightarrow> channel \<Rightarrow> unit res \<times> channel" where
  "session_send aes plaintext outcome c =
     (case (cn_ready c, cn_session_key c) of
        (True, Some key) \<Rightarrow>
          (case res_bind (validate_frame plaintext) (\<lambda>p. encrypt_frame aes p key) of
             Inl e \<Rightarrow> (Inl e, c)
           | Inr wire \<Rightarrow> write_wire_frame wire outcome c)
      | _ \<Rightarrow> (Inl ChannelNotReadyError, c))"

section \<open>Negotiation\<close>

text \<open>One round of the retry loop as the environment plays it: whether time is left, what happens
  during the write and its outcome, whether the retry wait is positive, what happens during it and
  whether the task is cancelled there.\<close>

record exchange_attempt =
  ea_in_time :: bool
  ea_write_events :: "channel_event list"
  ea_write :: "exn option"
  ea_wait_positive :: bool
  ea_wait_events :: "channel_event list"
  ea_cancelled :: bool

text \<open>A task that still waits when the environment ends is blocked.\<close>

datatype 'a progress = Finished "'a res" | Blocked

definition phase_response :: "nat \<Rightarrow> channel \<Rightarrow> bytes res option" where
  "phase_response i c =
     (case cn_futures c ! i of
        Pending \<Rightarrow> None
      | Response p \<Rightarrow> Some (Inr p)
      | Invalidated \<Rightarrow> Some (Inl NegotiationError))"

fun exchange_loop ::
    "cipher \<Rightarrow> bytes \<Rightarrow> nat \<Rightarrow> nat \<Rightarrow> exchange_attempt list \<Rightarrow> channel \<Rightarrow> bytes progress \<times> channel" where
  "exchange_loop aes wire i 0 env c = (Finished (Inl TimeoutError), c)"
| "exchange_loop aes wire i (Suc attempts) env c =
     (case phase_response i c of
        Some r \<Rightarrow> (Finished r, c)
      | None \<Rightarrow>
          (case env of
             [] \<Rightarrow> (Blocked, c)
           | a # env \<Rightarrow>
               if \<not> ea_in_time a then (Finished (Inl TimeoutError), c)
               else
                 (case write_wire_frame wire (ea_write a) (foldl (session_event aes) c (ea_write_events a)) of
                    (Inl e, c) \<Rightarrow> (Finished (Inl e), c)
                  | (Inr _, c) \<Rightarrow>
                      (case phase_response i c of
                         Some r \<Rightarrow> (Finished r, c)
                       | None \<Rightarrow>
                           if \<not> ea_wait_positive a then (Finished (Inl TimeoutError), c)
                           else
                             let c = foldl (session_event aes) c (ea_wait_events a)
                             in if ea_cancelled a then (Finished (Inl CancelledError), c)
                                else (case phase_response i c of
                                        Some r \<Rightarrow> (Finished r, c)
                                      | None \<Rightarrow> exchange_loop aes wire i attempts env c)))))"

definition exchange_step ::
    "cipher \<Rightarrow> (nat \<Rightarrow> bytes) \<Rightarrow> int \<Rightarrow> exchange_attempt list \<Rightarrow> channel \<Rightarrow> bytes progress \<times> channel" where
  "exchange_step aes rnd step env c =
     (let i = length (cn_futures c);
          c = c\<lparr>cn_phase := step, cn_futures := cn_futures c @ [Pending], cn_phase_future := Some i\<rparr>
      in case res_bind (create_negotiation_frame step rnd) (\<lambda>request.
                encrypt_frame aes request COMMUNICATION_KEY) of
           Inl e \<Rightarrow> (Finished (Inl e), c)
         | Inr wire \<Rightarrow>
             (case negotiation (channel (cn_profile c)) of
                None \<Rightarrow> (Finished (Inl AssertionError), c)
              | Some policy \<Rightarrow>
                  (case exchange_loop aes wire i (nat (neg_attempts policy)) env c of
                     (Blocked, c) \<Rightarrow> (Blocked, c)
                   | (Finished r, c) \<Rightarrow>
                       (Finished r,
                        if cn_phase_future c = Some i then c\<lparr>cn_phase_future := None\<rparr> else c))))"

record establish_env =
  es_subscribe_events :: "channel_event list"
  es_subscribe :: "exn option"
  es_random_1 :: "nat \<Rightarrow> bytes"
  es_exchange_1 :: "exchange_attempt list"
  es_step_events :: "channel_event list"
  es_step_cancelled :: bool
  es_random_2 :: "nat \<Rightarrow> bytes"
  es_exchange_2 :: "exchange_attempt list"
  es_delay_events :: "channel_event list"
  es_delay_cancelled :: bool

text \<open>The \<open>try\<close> block: both exchanges, the key, the delay between them.\<close>

definition negotiate :: "cipher \<Rightarrow> establish_env \<Rightarrow> channel \<Rightarrow> unit progress \<times> channel" where
  "negotiate aes env c =
     (case exchange_step aes (es_random_1 env) 0x01 (es_exchange_1 env) c of
        (Blocked, c) \<Rightarrow> (Blocked, c)
      | (Finished (Inl e), c) \<Rightarrow> (Finished (Inl e), c)
      | (Finished (Inr response_01), c) \<Rightarrow>
          (case extract_session_key response_01 of
             Inl e \<Rightarrow> (Finished (Inl e), c)
           | Inr key \<Rightarrow>
               let c = foldl (session_event aes) (c\<lparr>cn_session_key := Some key\<rparr>) (es_step_events env)
               in if es_step_cancelled env then (Finished (Inl CancelledError), c)
                  else (case exchange_step aes (es_random_2 env) 0x02 (es_exchange_2 env) c of
                          (Blocked, c) \<Rightarrow> (Blocked, c)
                        | (Finished (Inl e), c) \<Rightarrow> (Finished (Inl e), c)
                        | (Finished (Inr _), c) \<Rightarrow> (Finished (Inr ()), c))))"

definition session_establish :: "cipher \<Rightarrow> establish_env \<Rightarrow> channel \<Rightarrow> unit progress \<times> channel" where
  "session_establish aes env c =
     (let c = foldl (session_event aes) (invalidate c) (es_subscribe_events env)
      in case es_subscribe env of
           Some e \<Rightarrow> (Finished (Inl e), c)
         | None \<Rightarrow>
             (case negotiate aes env c of
                (Blocked, c) \<Rightarrow> (Blocked, c)
              | (Finished (Inl e), c) \<Rightarrow>
                  if e = TimeoutError \<or> is_value_error e \<or> is_connection_error e
                  then (Finished (Inl NegotiationError), invalidate c)
                  else if e = CancelledError then (Finished (Inl e), invalidate c)
                  else (Finished (Inl e), c)
              | (Finished (Inr _), c) \<Rightarrow>
                  let c = foldl (session_event aes) (c\<lparr>cn_phase := 3, cn_ready := True\<rparr>)
                            (es_delay_events env)
                  in if es_delay_cancelled env then (Finished (Inl CancelledError), c)
                     else if cn_refresh_during_negotiation c then
                       (case build_frame [0xEE, 0xAA] of
                          Inl e \<Rightarrow> (Finished (Inl e), c\<lparr>cn_refresh_during_negotiation := False\<rparr>)
                        | Inr refresh \<Rightarrow>
                            (Finished (Inr ()),
                             deliver refresh (c\<lparr>cn_refresh_during_negotiation := False\<rparr>)))
                     else (Finished (Inr ()), c)))"

section \<open>Receiving\<close>

lemma try_decrypt_cases:
  "try_decrypt aes wire key = Inr (case decrypt_frame aes wire key of Inr p \<Rightarrow> Some p | Inl e \<Rightarrow> None)"
  by (auto simp: try_decrypt_def decrypt_frame_value_error split: sum.split)

text \<open>What a negotiation or refresh frame under the communication key carries.\<close>

definition control_plaintext :: "cipher \<Rightarrow> bytes \<Rightarrow> bytes option" where
  "control_plaintext aes wire =
     (case decrypt_frame aes wire COMMUNICATION_KEY of
        Inr p \<Rightarrow> if take 2 p \<in> {[0xE7, 0x01], [0xE7, 0x02], [0xEE, 0xAA]} then Some p else None
      | Inl e \<Rightarrow> None)"

lemma session_received_cases:
  obtains (negotiation) p where "control_plaintext aes wire = Some p" "take 2 p \<noteq> [0xEE, 0xAA]"
      "session_received aes wire c = (Inr (), handle_negotiation_frame p c)"
  | (refresh) p where "control_plaintext aes wire = Some p" "take 2 p = [0xEE, 0xAA]"
      "session_received aes wire c = (Inr (), if cn_ready c then deliver p c
         else c\<lparr>cn_refresh_during_negotiation := True\<rparr>)"
  | (application) k p where "control_plaintext aes wire = None" "cn_session_key c = Some k" "cn_ready c"
      "decrypt_frame aes wire k = Inr p" "session_received aes wire c = (Inr (), deliver p c)"
  | (discarded) "control_plaintext aes wire = None" "session_received aes wire c = (Inr (), c)"
proof (cases "decrypt_frame aes wire COMMUNICATION_KEY")
  case (Inr p)
  show ?thesis
  proof (cases "take 2 p \<in> {[0xE7, 0x01], [0xE7, 0x02], [0xEE, 0xAA]}")
    case True
    with Inr negotiation[of p] refresh[of p] show ?thesis
      by (auto simp: control_plaintext_def session_received_def try_decrypt_cases)
  next
    case False
    with Inr application discarded show ?thesis
      by (cases "cn_session_key c"; cases "decrypt_frame aes wire (the (cn_session_key c))"; cases "cn_ready c")
        (auto simp: control_plaintext_def session_received_def try_decrypt_cases split: if_splits)
  qed
next
  case (Inl e)
  with application discarded show ?thesis
    by (cases "cn_session_key c"; cases "decrypt_frame aes wire (the (cn_session_key c))"; cases "cn_ready c")
      (auto simp: control_plaintext_def session_received_def try_decrypt_cases split: if_splits)
qed

lemma control_plaintext_Some:
  "control_plaintext aes wire = Some p \<Longrightarrow> decrypt_frame aes wire COMMUNICATION_KEY = Inr p"
  by (auto simp: control_plaintext_def split: sum.splits if_splits)

lemma handle_negotiation_fields [simp]:
  "cn_ready (handle_negotiation_frame p c) = cn_ready c"
  "cn_session_key (handle_negotiation_frame p c) = cn_session_key c"
  "cn_phase (handle_negotiation_frame p c) = cn_phase c"
  "cn_phase_future (handle_negotiation_frame p c) = cn_phase_future c"
  "cn_profile (handle_negotiation_frame p c) = cn_profile c"
  "cn_written (handle_negotiation_frame p c) = cn_written c"
  "cn_delivered (handle_negotiation_frame p c) = cn_delivered c"
  "length (cn_futures (handle_negotiation_frame p c)) = length (cn_futures c)"
  by (auto simp: handle_negotiation_frame_def settle_future_def split: option.split)

lemma deliver_fields [simp]:
  "cn_ready (deliver p c) = cn_ready c" "cn_session_key (deliver p c) = cn_session_key c"
  "cn_phase (deliver p c) = cn_phase c" "cn_phase_future (deliver p c) = cn_phase_future c"
  "cn_profile (deliver p c) = cn_profile c" "cn_written (deliver p c) = cn_written c"
  "cn_futures (deliver p c) = cn_futures c" "cn_delivered (deliver p c) = cn_delivered c @ [p]"
  by (simp_all add: deliver_def)

section \<open>A phase that is not invalidated\<close>

text \<open>While phase \<open>step\<close> waits on future \<open>i\<close>, an answer recorded there is a decrypted frame of that
  step.\<close>

definition answered_by :: "cipher \<Rightarrow> int \<Rightarrow> bytes \<Rightarrow> bool" where
  "answered_by aes step p \<longleftrightarrow> uint (p ! 1) = step \<and>
     (\<exists>wire. decrypt_frame aes wire COMMUNICATION_KEY = Inr p \<and> take 2 p \<in> {[0xE7, 0x01], [0xE7, 0x02]})"

definition in_phase :: "cipher \<Rightarrow> int \<Rightarrow> nat \<Rightarrow> channel \<Rightarrow> bool" where
  "in_phase aes step i c \<longleftrightarrow>
     cn_phase c = step \<and> cn_phase_future c = Some i \<and> i < length (cn_futures c) \<and> \<not> cn_ready c \<and>
     (cn_futures c ! i = Pending \<or> (\<exists>p. cn_futures c ! i = Response p \<and> answered_by aes step p))"

lemma session_received_same:
  "cn_ready (snd (session_received aes wire c)) = cn_ready c"
  "cn_session_key (snd (session_received aes wire c)) = cn_session_key c"
  "cn_phase (snd (session_received aes wire c)) = cn_phase c"
  "cn_phase_future (snd (session_received aes wire c)) = cn_phase_future c"
  "cn_profile (snd (session_received aes wire c)) = cn_profile c"
  "cn_written (snd (session_received aes wire c)) = cn_written c"
  "\<not> cn_ready c \<Longrightarrow> cn_delivered (snd (session_received aes wire c)) = cn_delivered c"
  by (cases rule: session_received_cases[of aes wire c]; simp)+

lemma in_phase_received:
  assumes "in_phase aes step i c"
  shows "in_phase aes step i (snd (session_received aes wire c))"
proof (cases rule: session_received_cases[of aes wire c])
  case (negotiation p)
  note dec = control_plaintext_Some[OF negotiation(1)]
  have "take 2 p \<in> {[0xE7, 0x01], [0xE7, 0x02]}"
    using negotiation(1,2) by (auto simp: control_plaintext_def split: sum.splits if_splits)
  with dec have ans: "answered_by aes (uint (p ! 1)) p" by (auto simp: answered_by_def)
  with assms negotiation(3) show ?thesis
    by (auto simp: in_phase_def handle_negotiation_frame_def settle_future_def)
qed (use assms in \<open>simp_all add: in_phase_def\<close>)

definition receiving :: "channel_event list \<Rightarrow> bool" where
  "receiving es \<longleftrightarrow> ChInvalidate \<notin> set es"

text \<open>Everything a stretch of received frames leaves alone.\<close>

definition undisturbed :: "channel \<Rightarrow> channel \<Rightarrow> bool" where
  "undisturbed c c' \<longleftrightarrow> cn_session_key c' = cn_session_key c \<and> cn_profile c' = cn_profile c \<and>
     cn_ready c' = cn_ready c \<and> cn_phase c' = cn_phase c \<and> cn_phase_future c' = cn_phase_future c \<and>
     cn_written c' = cn_written c \<and> (\<not> cn_ready c \<longrightarrow> cn_delivered c' = cn_delivered c)"

lemma undisturbed_refl [simp]: "undisturbed c c"
  by (simp add: undisturbed_def)

lemma undisturbed_received: "undisturbed c (snd (session_received aes wire c))"
  by (simp add: undisturbed_def session_received_same)

lemma receiving_run:
  "receiving es \<Longrightarrow> undisturbed c (foldl (session_event aes) c es)"
  "receiving es \<Longrightarrow> in_phase aes step i c \<Longrightarrow> in_phase aes step i (foldl (session_event aes) c es)"
proof (induction es arbitrary: c)
  case (Cons e es)
  {
    case 1
    then obtain wire where e: "e = ChReceive wire" by (cases e) (auto simp: receiving_def)
    from 1 have "receiving es" by (simp add: receiving_def)
    from Cons(1)[OF this, of "snd (session_received aes wire c)"] undisturbed_received[of c aes wire] e
    show ?case by (simp add: session_event_def undisturbed_def)
  next
    case 2
    then obtain wire where e: "e = ChReceive wire" by (cases e) (auto simp: receiving_def)
    from 2 have "receiving es" by (simp add: receiving_def)
    from Cons(2)[OF this in_phase_received[OF 2(2)], of wire] e show ?case by (simp add: session_event_def)
  }
qed simp_all

definition attempt_receiving :: "exchange_attempt \<Rightarrow> bool" where
  "attempt_receiving a \<longleftrightarrow> receiving (ea_write_events a) \<and> receiving (ea_wait_events a)"

text \<open>A retry loop that is not invalidated writes its one request, at most once per attempt, changes
  nothing else of the session, delivers nothing, and when it returns a response it is an answer of
  its step.\<close>

lemma exchange_loop_undisturbed:
  assumes "exchange_loop aes wire i attempts env c = (res, c')" "\<forall>a \<in> set env. attempt_receiving a"
    and "in_phase aes step i c"
  shows "cn_session_key c' = cn_session_key c \<and> cn_profile c' = cn_profile c \<and> \<not> cn_ready c' \<and>
    cn_delivered c' = cn_delivered c \<and> cn_phase_future c' = Some i \<and>
    (\<exists>n. n \<le> attempts \<and> cn_written c' = cn_written c @ replicate n wire) \<and>
    (\<forall>p. res = Finished (Inr p) \<longrightarrow> answered_by aes step p)"
  using assms
proof (induction attempts arbitrary: env c)
  case 0
  then show ?case by (auto simp: in_phase_def)
next
  case (Suc attempts)
  have resp: "r = Inr p \<Longrightarrow> answered_by aes step p"
    if "in_phase aes step i x" "phase_response i x = Some r" for x r p
    using that by (auto simp: in_phase_def phase_response_def)
  show ?case
  proof (cases "phase_response i c")
    case (Some r)
    with Suc.prems resp[OF Suc.prems(3) Some] show ?thesis by (auto simp: in_phase_def)
  next
    case none: None
    show ?thesis
    proof (cases env)
      case Nil
      with none Suc.prems show ?thesis by (auto simp: in_phase_def)
    next
      case (Cons a rest)
      let ?c1 = "foldl (session_event aes) c (ea_write_events a)"
      have rcv: "receiving (ea_write_events a)" "receiving (ea_wait_events a)"
        using Suc.prems(2) Cons by (simp_all add: attempt_receiving_def)
      note u1 = receiving_run(1)[OF rcv(1), of c aes] and p1 = receiving_run(2)[OF rcv(1) Suc.prems(3)]
      let ?c2 = "?c1\<lparr>cn_written := cn_written ?c1 @ [wire]\<rparr>"
      have p2: "in_phase aes step i ?c2" using p1 by (simp add: in_phase_def)
      let ?c3 = "foldl (session_event aes) ?c2 (ea_wait_events a)"
      note u3 = receiving_run(1)[OF rcv(2), of ?c2 aes] and p3 = receiving_run(2)[OF rcv(2) p2]
      have b1: "cn_session_key ?c1 = cn_session_key c" "cn_profile ?c1 = cn_profile c" "\<not> cn_ready ?c1"
        "cn_delivered ?c1 = cn_delivered c" "cn_phase_future ?c1 = Some i" "cn_written ?c1 = cn_written c"
        using u1 p1 Suc.prems(3) by (auto simp: undisturbed_def in_phase_def)
      have b3: "cn_session_key ?c3 = cn_session_key c" "cn_profile ?c3 = cn_profile c" "\<not> cn_ready ?c3"
        "cn_delivered ?c3 = cn_delivered c" "cn_phase_future ?c3 = Some i"
        "cn_written ?c3 = cn_written c @ [wire]"
        using u3 p3 b1 by (auto simp: undisturbed_def in_phase_def)
      show ?thesis
      proof (cases "ea_in_time a")
        case False
        with none Cons Suc.prems show ?thesis by (auto simp: in_phase_def)
      next
        case time: True
        show ?thesis
        proof (cases "write_wire_frame wire (ea_write a) ?c1")
          case (Pair w c2)
          show ?thesis
          proof (cases w)
            case (Inl e)
            with Pair have "c2 = ?c1" by (auto simp: write_wire_frame_def split: if_splits option.splits)
            with Inl Pair none Cons time Suc.prems(1) b1 show ?thesis by auto
          next
            case (Inr x)
            with Pair have c2: "c2 = ?c2" by (auto simp: write_wire_frame_def split: if_splits option.splits)
            show ?thesis
            proof (cases "phase_response i ?c2")
              case (Some r)
              have n: "cn_written ?c2 = cn_written c @ replicate 1 wire" using b1 by simp
              from Some Inr Pair c2 none Cons time Suc.prems(1) have "res = Finished r" "c' = ?c2" by simp_all
              with n b1 resp[OF p2 Some] show ?thesis by (auto intro!: exI[of _ 1])
            next
              case none2: None
              have n2: "cn_written ?c2 = cn_written c @ replicate 1 wire" using b1 by simp
              have n3: "cn_written ?c3 = cn_written c @ replicate 1 wire" using b3 by simp
              show ?thesis
              proof (cases "ea_wait_positive a \<and> \<not> ea_cancelled a \<and> phase_response i ?c3 = None")
                case True
                with none2 Inr Pair c2 none Cons time Suc.prems(1)
                have rec: "exchange_loop aes wire i attempts rest ?c3 = (res, c')" by (simp add: Let_def)
                from Suc.IH[OF this _ p3] Suc.prems(2) Cons obtain n where
                  n: "n \<le> attempts" "cn_written c' = cn_written ?c3 @ replicate n wire" by auto
                have "cn_written c' = cn_written c @ replicate (Suc n) wire" using n(2) b3 by simp
                with Suc.IH[OF rec _ p3] Suc.prems(2) Cons b3 n(1) show ?thesis
                  by (auto intro!: exI[of _ "Suc n"])
              next
                case False
                have run: "exchange_loop aes wire i (Suc attempts) env c =
                    (if \<not> ea_wait_positive a then (Finished (Inl TimeoutError), ?c2)
                     else if ea_cancelled a then (Finished (Inl CancelledError), ?c3)
                     else case phase_response i ?c3 of
                         Some r \<Rightarrow> (Finished r, ?c3)
                       | None \<Rightarrow> exchange_loop aes wire i attempts rest ?c3)"
                  using none2 Inr Pair c2 none Cons time by (simp add: Let_def)
                consider "res = Finished (Inl TimeoutError)" "c' = ?c2"
                  | "res = Finished (Inl CancelledError)" "c' = ?c3"
                  | r where "phase_response i ?c3 = Some r" "res = Finished r" "c' = ?c3"
                  using False Suc.prems(1) unfolding run
                  by (cases "ea_wait_positive a"; cases "ea_cancelled a"; cases "phase_response i ?c3") simp_all
                then show ?thesis
                proof cases
                  case 1
                  with b1 n2 show ?thesis by (auto intro!: exI[of _ 1])
                next
                  case 2
                  with b3 n3 show ?thesis by (auto intro!: exI[of _ 1])
                next
                  case (3 r)
                  with b3 n3 resp[OF p3 3(1)] show ?thesis by (auto intro!: exI[of _ 1])
                qed
              qed
            qed
          qed
        qed
      qed
    qed
  qed
qed

lemma exchange_step_undisturbed:
  assumes "exchange_step aes rnd step env c = (res, c')" "\<forall>a \<in> set env. attempt_receiving a"
    and "\<not> cn_ready c" and "negotiation (channel (cn_profile c)) = Some policy"
  shows "cn_session_key c' = cn_session_key c \<and> cn_profile c' = cn_profile c \<and> \<not> cn_ready c' \<and>
    cn_delivered c' = cn_delivered c \<and>
    (\<exists>n wire. n \<le> nat (neg_attempts policy) \<and> cn_written c' = cn_written c @ replicate n wire) \<and>
    (\<forall>p. res = Finished (Inr p) \<longrightarrow> answered_by aes step p)"
proof -
  let ?i = "length (cn_futures c)"
  let ?c = "c\<lparr>cn_phase := step, cn_futures := cn_futures c @ [Pending], cn_phase_future := Some ?i\<rparr>"
  have ph: "in_phase aes step ?i ?c" using assms(3) by (simp add: in_phase_def)
  let ?req = "res_bind (create_negotiation_frame step rnd) (\<lambda>request. encrypt_frame aes request COMMUNICATION_KEY)"
  show ?thesis
  proof (cases ?req)
    case (Inl e)
    then have "exchange_step aes rnd step env c = (Finished (Inl e), ?c)"
      unfolding exchange_step_def Let_def by (simp only: Inl sum.case)
    with assms show ?thesis by (auto intro!: exI[of _ 0])
  next
    case (Inr wire)
    obtain r c1 where l: "exchange_loop aes wire ?i (nat (neg_attempts policy)) env ?c = (r, c1)" by fastforce
    have run: "exchange_step aes rnd step env c =
        (case r of Blocked \<Rightarrow> (Blocked, c1)
         | Finished x \<Rightarrow> (Finished x, if cn_phase_future c1 = Some ?i then c1\<lparr>cn_phase_future := None\<rparr> else c1))"
      using l assms(4) unfolding exchange_step_def Let_def by (simp only: Inr sum.case) (cases r; simp)
    from exchange_loop_undisturbed[OF l assms(2) ph] run assms(1) show ?thesis
      by (cases r) (auto split: if_splits)
  qed
qed

section \<open>Properties\<close>

definition env_receiving :: "establish_env \<Rightarrow> bool" where
  "env_receiving env \<longleftrightarrow> receiving (es_subscribe_events env) \<and> receiving (es_step_events env) \<and>
     receiving (es_delay_events env) \<and>
     (\<forall>a \<in> set (es_exchange_1 env) \<union> set (es_exchange_2 env). attempt_receiving a)"

lemma invalidate_fields [simp]:
  "cn_ready (invalidate c) = False" "cn_session_key (invalidate c) = None" "cn_phase (invalidate c) = 0"
  "cn_phase_future (invalidate c) = None" "cn_profile (invalidate c) = cn_profile c"
  "cn_written (invalidate c) = cn_written c" "cn_delivered (invalidate c) = cn_delivered c"
  by (simp_all add: invalidate_def settle_future_def Let_def split: option.split)

lemma negotiate_undisturbed:
  assumes "negotiate aes env c = (Finished (Inr ()), c')" "env_receiving env" "\<not> cn_ready c"
    and "negotiation (channel (cn_profile c)) = Some policy"
  shows "\<exists>p1 p2 key. answered_by aes 1 p1 \<and> answered_by aes 2 p2 \<and> extract_session_key p1 = Inr key \<and>
    cn_session_key c' = Some key \<and> cn_delivered c' = cn_delivered c \<and>
    (\<exists>n1 w1 n2 w2. n1 \<le> nat (neg_attempts policy) \<and> n2 \<le> nat (neg_attempts policy) \<and>
       cn_written c' = cn_written c @ replicate n1 w1 @ replicate n2 w2)"
proof -
  from assms(1) obtain p1 c1 where
    e1: "exchange_step aes (es_random_1 env) 1 (es_exchange_1 env) c = (Finished (Inr p1), c1)"
    unfolding negotiate_def by (auto split: prod.splits progress.splits sum.splits)
  from exchange_step_undisturbed[OF e1 _ assms(3,4)] assms(2) obtain n1 w1 where
    u1: "cn_profile c1 = cn_profile c" "\<not> cn_ready c1" "cn_delivered c1 = cn_delivered c"
      "n1 \<le> nat (neg_attempts policy)" "cn_written c1 = cn_written c @ replicate n1 w1" "answered_by aes 1 p1"
    by (auto simp: env_receiving_def)
  from assms(1) e1 obtain key where key: "extract_session_key p1 = Inr key"
    unfolding negotiate_def by (auto split: sum.splits)
  let ?c2 = "foldl (session_event aes) (c1\<lparr>cn_session_key := Some key\<rparr>) (es_step_events env)"
  have u2: "cn_session_key ?c2 = Some key" "cn_profile ?c2 = cn_profile c" "\<not> cn_ready ?c2"
    "cn_delivered ?c2 = cn_delivered c" "cn_written ?c2 = cn_written c1"
    using receiving_run(1)[of "es_step_events env" "c1\<lparr>cn_session_key := Some key\<rparr>" aes] assms(2) u1
    by (simp_all add: undisturbed_def env_receiving_def)
  from assms(1) e1 key obtain p2 where
    e2: "exchange_step aes (es_random_2 env) 2 (es_exchange_2 env) ?c2 = (Finished (Inr p2), c')"
    unfolding negotiate_def by (auto simp: Let_def split: if_splits prod.splits progress.splits sum.splits)
  have pol: "negotiation (channel (cn_profile ?c2)) = Some policy" using u2(2) assms(4) by simp
  from exchange_step_undisturbed[OF e2 _ u2(3) pol] assms(2) obtain n2 w2 where
    "cn_session_key c' = Some key" "cn_delivered c' = cn_delivered c" "n2 \<le> nat (neg_attempts policy)"
    "cn_written c' = cn_written c @ replicate n1 w1 @ replicate n2 w2" "answered_by aes 2 p2"
    using u1 u2 by (auto simp: env_receiving_def)
  with u1 key show ?thesis by blast
qed



definition xor_cipher :: cipher where
  "xor_cipher _ b k = map2 (XOR) b k"

definition answered_attempts :: "bytes \<Rightarrow> exchange_attempt list" where
  "answered_attempts answer =
     [\<lparr>ea_in_time = True, ea_write_events = [], ea_write = None, ea_wait_positive = True,
       ea_wait_events = [], ea_cancelled = False\<rparr>,
      \<lparr>ea_in_time = True, ea_write_events = [], ea_write = None, ea_wait_positive = True,
       ea_wait_events = [ChReceive answer], ea_cancelled = False\<rparr>]"

definition answered_establish :: "bytes \<Rightarrow> bytes \<Rightarrow> establish_env" where
  "answered_establish answer_1 answer_2 =
     \<lparr>es_subscribe_events = [], es_subscribe = None, es_random_1 = (\<lambda>n. replicate n 1),
      es_exchange_1 = answered_attempts answer_1,
      es_step_events = [], es_step_cancelled = False, es_random_2 = (\<lambda>n. replicate n 2),
      es_exchange_2 = answered_attempts answer_2,
      es_delay_events = [], es_delay_cancelled = False\<rparr>"

lemma xor_cipher_ok:
  "length b = 16 \<Longrightarrow> length k = 16 \<Longrightarrow>
     length (xor_cipher True b k) = 16 \<and> xor_cipher False (xor_cipher True b k) k = b"
  by (simp add: xor_cipher_def map2_xor_involutive)

lemma h7129_negotiation:
  "negotiation (channel (cn_profile (new_channel h7129_profile))) = Some (the (negotiation (channel h7129_profile)))"
  "neg_attempts (the (negotiation (channel h7129_profile))) = 3"
  "frame_size (protocol h7129_profile) = 20"
  by code_simp+

lemma session_received_application:
  assumes "control_plaintext aes w = None" "cn_session_key c = Some k" "cn_ready c" "decrypt_frame aes w k = Inr p"
  shows "session_received aes w c = (Inr (), deliver p c)"
  using assms
  by (auto simp: control_plaintext_def session_received_def try_decrypt_cases split: sum.splits if_splits)

lemma session_received_answer:
  assumes "control_plaintext aes w = Some p" "take 2 p \<noteq> [0xEE, 0xAA]"
  shows "session_received aes w c = (Inr (), handle_negotiation_frame p c)"
  by (cases rule: session_received_cases[of aes w c]) (use assms in simp_all)

lemma answered_attempts_return:
  assumes "create_negotiation_frame step rnd = Inr q" "encrypt_frame aes q COMMUNICATION_KEY = Inr r"
    and "length r = 20" "control_plaintext aes w = Some p" "take 2 p \<noteq> [0xEE, 0xAA]" "uint (p ! 1) = step"
    and "cn_profile c = h7129_profile"
  shows "\<exists>c'. exchange_step aes rnd step (answered_attempts w) c = (Finished (Inr p), c') \<and>
    cn_profile c' = h7129_profile \<and>
    cn_refresh_during_negotiation c' = cn_refresh_during_negotiation c"
proof -
  note recv = session_received_answer[OF assms(4,5)]
  obtain policy where pol: "negotiation (channel h7129_profile) = Some policy" "neg_attempts policy = 3"
    using h7129_negotiation(1,2) by (simp add: new_channel_def)
  then have three: "nat (neg_attempts policy) = Suc (Suc (Suc 0))" by simp
  show ?thesis
    using assms(1-3,6,7) pol(1)
    by (simp add: exchange_step_def three answered_attempts_def Let_def phase_response_def
        write_wire_frame_def session_event_def recv handle_negotiation_frame_def settle_future_def
        h7129_negotiation(3)[simplified])
qed

lemma answered_establish_runs:
  assumes "create_negotiation_frame 1 (\<lambda>n. replicate n 1) = Inr q1" "encrypt_frame aes q1 COMMUNICATION_KEY = Inr r1"
    and "length r1 = 20"
    and "create_negotiation_frame 2 (\<lambda>n. replicate n 2) = Inr q2" "encrypt_frame aes q2 COMMUNICATION_KEY = Inr r2"
    and "length r2 = 20"
    and "control_plaintext aes w1 = Some p1" "take 2 p1 = [0xE7, 1]" "p1 ! 1 = 1" "extract_session_key p1 = Inr k"
    and "control_plaintext aes w2 = Some p2" "take 2 p2 = [0xE7, 2]" "p2 ! 1 = 2"
  shows "fst (session_establish aes (answered_establish w1 w2) (new_channel h7129_profile)) = Finished (Inr ())"
proof -
  let ?c0 = "invalidate (new_channel h7129_profile)"
  obtain c1 where c1: "exchange_step aes (\<lambda>n. replicate n 1) 1 (answered_attempts w1) ?c0 = (Finished (Inr p1), c1)"
      "cn_profile c1 = h7129_profile" "\<not> cn_refresh_during_negotiation c1"
    using answered_attempts_return[OF assms(1-3,7), of ?c0] assms(8,9)
    by (auto simp: new_channel_def invalidate_def)
  let ?c1 = "c1\<lparr>cn_session_key := Some k\<rparr>"
  obtain c2 where c2: "exchange_step aes (\<lambda>n. replicate n 2) 2 (answered_attempts w2) ?c1 = (Finished (Inr p2), c2)"
      "\<not> cn_refresh_during_negotiation c2"
    using answered_attempts_return[OF assms(4-6,11), of ?c1] assms(12,13) c1(2,3) by auto
  show ?thesis
    using c1(1) c2 assms(10)
    by (simp add: session_establish_def negotiate_def answered_establish_def Let_def)
qed

lemma negotiation_frame_travels:
  assumes s: "s = 1 \<or> s = 2" and len: "length (rnd 17) = 17"
  shows "\<exists>f w. create_negotiation_frame s rnd = Inr f \<and> encrypt_frame xor_cipher f COMMUNICATION_KEY = Inr w \<and>
    length w = 20 \<and> control_plaintext xor_cipher w = Some f \<and> take 2 f = [0xE7, word_of_int s] \<and>
    f ! 1 = word_of_int s \<and> validate_frame f = Inr f"
proof -
  obtain f where f: "create_negotiation_frame s rnd = Inr f" "validate_frame f = Inr f"
      "take 19 f = [0xE7, word_of_int s] @ rnd 17"
    using create_negotiation_frame_ok[of s rnd, OF s len] by blast
  obtain w where w: "encrypt_frame xor_cipher f COMMUNICATION_KEY = Inr w" "length w = 20"
      "decrypt_frame xor_cipher w COMMUNICATION_KEY = Inr f"
    using decrypt_encrypted[of xor_cipher f COMMUNICATION_KEY] xor_cipher_ok f(2)
    by (auto simp: COMMUNICATION_KEY_def)
  have two: "take 2 f = [0xE7, word_of_int s]" using f(3) take_2_of_19[of f] by simp
  have "f ! 1 = take 2 f ! 1" by simp
  then have "f ! 1 = word_of_int s" using two by simp
  with f w two assms(1) show ?thesis by (auto simp: control_plaintext_def)
qed


text \<open>C28. The session channel hands the client only frames it authenticated: whatever bytes arrive,
  receiving never fails, writes nothing and leaves the key and readiness alone, and a frame is
  delivered only while the channel is ready, with a valid checksum, and decrypted either under the
  session key or, for the refresh request alone, under the communication key.\<close>

theorem session_delivers_only_authenticated:
  "\<exists>c'. session_received aes wire c = (Inr (), c') \<and>
     cn_written c' = cn_written c \<and> cn_session_key c' = cn_session_key c \<and> cn_ready c' = cn_ready c \<and>
     (cn_delivered c' = cn_delivered c \<or>
      cn_ready c \<and>
      (\<exists>p. cn_delivered c' = cn_delivered c @ [p] \<and> validate_frame p = Inr p \<and>
         (cn_session_key c \<noteq> None \<and> decrypt_frame aes wire (the (cn_session_key c)) = Inr p \<or>
          decrypt_frame aes wire COMMUNICATION_KEY = Inr p \<and> take 2 p = [0xEE, 0xAA])))"
proof (cases rule: session_received_cases[of aes wire c])
  case (negotiation p)
  then show ?thesis by simp
next
  case (refresh p)
  note d = control_plaintext_Some[OF refresh(1)]
  with refresh decrypt_frame_valid[OF d] show ?thesis by (auto simp: is_valid_frame_def)
next
  case (application k p)
  with decrypt_frame_valid[OF application(4)] show ?thesis by (auto simp: is_valid_frame_def)
qed simp

text \<open>C29. What one end of a session sends the other end receives: on a ready session a valid frame is
  written to the wire as one frame, and a ready peer that holds the same sixteen-byte key delivers
  exactly the plaintext, for a block cipher whose decryption inverts its encryption, unless the wire
  bytes happen to be a control frame of the communication key.\<close>

theorem session_send_receive_roundtrip:
  assumes "\<And>b k. length b = 16 \<Longrightarrow> length k = 16 \<Longrightarrow>
      length (aes True b k) = 16 \<and> aes False (aes True b k) k = b"
    and "validate_frame plaintext = Inr plaintext" and "length key = 16"
    and "cn_ready c" "cn_session_key c = Some key" "frame_size (protocol (cn_profile c)) = 20"
    and "cn_ready peer" "cn_session_key peer = Some key"
    and "\<And>wire. encrypt_frame aes plaintext key = Inr wire \<Longrightarrow> control_plaintext aes wire = None"
  shows "\<exists>wire. session_send aes plaintext None c = (Inr (), c\<lparr>cn_written := cn_written c @ [wire]\<rparr>) \<and>
    session_received aes wire peer = (Inr (), peer\<lparr>cn_delivered := cn_delivered peer @ [plaintext]\<rparr>)"
proof -
  obtain wire where w: "encrypt_frame aes plaintext key = Inr wire" "length wire = 20"
      "decrypt_frame aes wire key = Inr plaintext"
    using decrypt_encrypted[of aes plaintext key] assms(1-3) by auto
  have "session_received aes wire peer = (Inr (), deliver plaintext peer)"
    by (rule session_received_application[OF assms(9)[OF w(1)] assms(8,7) w(3)])
  with w assms(2,4-6) show ?thesis by (auto simp: session_send_def write_wire_frame_def deliver_def)
qed

definition ready_session :: channel where
  "ready_session = (new_channel h7129_profile)\<lparr>cn_ready := True, cn_session_key := Some COMMUNICATION_KEY\<rparr>"

theorem session_send_receive_roundtrip_witness:
  "\<exists>wire. session_send xor_cipher (0xAA # 0x01 # replicate 17 0 @ [0xAB]) None ready_session =
      (Inr (), ready_session\<lparr>cn_written := cn_written ready_session @ [wire]\<rparr>) \<and>
    session_received xor_cipher wire ready_session =
      (Inr (), ready_session\<lparr>cn_delivered :=
         cn_delivered ready_session @ [0xAA # 0x01 # replicate 17 0 @ [0xAB]]\<rparr>)"
proof (rule session_send_receive_roundtrip[where key = COMMUNICATION_KEY])
  let ?p = "0xAA # 0x01 # replicate 17 0 @ [0xAB] :: bytes"
  show p: "validate_frame ?p = Inr ?p" by (simp add: validate_frame_def eval_nat_numeral)
  show "length COMMUNICATION_KEY = 16" by (simp add: COMMUNICATION_KEY_def)
  show "control_plaintext xor_cipher wire = None"
    if "encrypt_frame xor_cipher ?p COMMUNICATION_KEY = Inr wire" for wire
    using that decrypt_encrypted[of xor_cipher ?p COMMUNICATION_KEY] xor_cipher_ok p
    by (auto simp: control_plaintext_def COMMUNICATION_KEY_def)
  show "frame_size (protocol (cn_profile ready_session)) = 20" by code_simp
qed (simp_all add: ready_session_def xor_cipher_ok)

end
