(* ===== verification/Client.thy ===== *)
theory Client
  imports Operations_Lane Air_Quality_Queries Transactions Channel
begin

text \<open>
  The purifier client (\<open>client.py\<close>), part one: its state and the handlers that run to completion
  without waiting.  Receipt of a plaintext frame, loss of the connection, processing of a frame by
  the task that owns the channel, semantic observations, confirmed commands, the calls of command
  and query callers, the start of a session and of a shutdown.  The client shares the command lane,
  the query lane, the reducer, the transaction executor and the channel with the theories that model
  them; the three callbacks are a log of the calls made, in order, and are taken not to raise.
\<close>

section \<open>State\<close>

datatype client_status =
    ClientStopped | WaitingForAdvertisement | Connecting | Subscribing | Negotiating | Initializing
  | Ready | BackingOff

fun client_status_value :: "client_status \<Rightarrow> string" where
  "client_status_value ClientStopped = ''stopped''"
| "client_status_value WaitingForAdvertisement = ''waiting_for_advertisement''"
| "client_status_value Connecting = ''connecting''"
| "client_status_value Subscribing = ''subscribing''"
| "client_status_value Negotiating = ''negotiating''"
| "client_status_value Initializing = ''initializing''"
| "client_status_value Ready = ''ready''"
| "client_status_value BackingOff = ''backoff''"

definition MAX_QUEUED_FRAMES :: nat where
  "MAX_QUEUED_FRAMES = 256"

datatype client_call =
    StateCallback purifier_state
  | AvailabilityCallback bool "exn option"
  | ObservationCallback observation

text \<open>The failure dictionaries of the sweeps map request names to diagnostic text; they are kept as
  their keys, in insertion order.  The generation of the transport is its own counter.\<close>

record client =
  cl_profile :: device_profile
  cl_protocol :: govee_protocol
  cl_observed :: bool
  cl_reducer :: state_reducer
  cl_status :: client_status
  cl_channel :: "channel option"
  cl_running :: bool
  cl_stopping :: bool
  cl_disconnected :: bool
  cl_queue :: "received_frame list"
  cl_queue_overflows :: int
  cl_operations :: operations
  cl_queries :: query_controller
  cl_transactions :: tx_executor
  cl_first_ready :: "future option"
  cl_generation :: int
  cl_transport_generation :: int
  cl_refresh_pending :: bool
  cl_refresh_running :: bool
  cl_refresh_resume :: "request_descriptor list"
  cl_refresh_preemptions :: int
  cl_last_preempted :: "string option"
  cl_refresh_failures :: "string list"
  cl_next_poll_due :: time
  cl_ready_since :: "time option"
  cl_reset_timer :: "int option"
  cl_connection_cycles :: int
  cl_recovery :: recovery
  cl_plaintext_rx_count :: int
  cl_last_error :: "exn option"
  cl_initialization_failures :: "string list"
  cl_essential_batches :: int
  cl_essential_attempts :: int
  cl_ever_ready :: bool
  cl_reported_available :: "bool option"
  cl_observation_revision :: int
  cl_calls :: "client_call list"

abbreviation cl_timings :: "client \<Rightarrow> timing_profile" where
  "cl_timings c \<equiv> timings (cl_profile c)"

definition new_client ::
    "govee_protocol \<Rightarrow> device_profile \<Rightarrow> bool \<Rightarrow> bool \<Rightarrow> client res" where
  "new_client g p shared_settings observed =
     (if gp_profile g \<noteq> p \<or> \<not> shared_settings then Inl ValueError
      else Inr
        \<lparr>cl_profile = p, cl_protocol = g, cl_observed = observed, cl_reducer = new_state_reducer p,
         cl_status = ClientStopped, cl_channel = None, cl_running = False, cl_stopping = False,
         cl_disconnected = False, cl_queue = [], cl_queue_overflows = 0,
         cl_operations = new_operations, cl_queries = new_query_controller,
         cl_transactions = new_tx_executor, cl_first_ready = None, cl_generation = 0,
         cl_transport_generation = 0, cl_refresh_pending = False, cl_refresh_running = False,
         cl_refresh_resume = [], cl_refresh_preemptions = 0, cl_last_preempted = None,
         cl_refresh_failures = [], cl_next_poll_due = 0, cl_ready_since = None,
         cl_reset_timer = None, cl_connection_cycles = 0, cl_recovery = new_recovery (timings p),
         cl_plaintext_rx_count = 0, cl_last_error = None, cl_initialization_failures = [],
         cl_essential_batches = 0, cl_essential_attempts = 0, cl_ever_ready = False,
         cl_reported_available = None, cl_observation_revision = 0, cl_calls = []\<rparr>)"

definition cl_call :: "client_call \<Rightarrow> client \<Rightarrow> client" where
  "cl_call x c = c\<lparr>cl_calls := cl_calls c @ [x]\<rparr>"

text \<open>A method of the command lane or the query lane, called by the client.\<close>

definition on_operations :: "('a, operations) st \<Rightarrow> ('a, client) st" where
  "on_operations m c = (case m (cl_operations c) of (r, s) \<Rightarrow> (r, c\<lparr>cl_operations := s\<rparr>))"

definition on_queries :: "(query_controller \<Rightarrow> query_controller) \<Rightarrow> client \<Rightarrow> client" where
  "on_queries f c = c\<lparr>cl_queries := f (cl_queries c)\<rparr>"

section \<open>Availability and loss of the connection\<close>

definition set_available :: "bool \<Rightarrow> exn option \<Rightarrow> client \<Rightarrow> client" where
  "set_available available error c =
     (if cl_reported_available c = Some available then c
      else cl_call (AvailabilityCallback available error)
             (c\<lparr>cl_reported_available := Some available\<rparr>))"

definition invalidate_connection_scoped_state :: "client \<Rightarrow> client" where
  "invalidate_connection_scoped_state c =
     c\<lparr>cl_reducer := fst (invalidate_connection (cl_reducer c))\<rparr>"

definition on_disconnected :: "int \<Rightarrow> int \<Rightarrow> client \<Rightarrow> client" where
  "on_disconnected session_generation transport_generation c =
     (if session_generation \<noteq> cl_generation c \<or> transport_generation \<noteq> cl_transport_generation c
      then c
      else
        let c = invalidate_connection_scoped_state
                  (c\<lparr>cl_channel := map_option Channel.invalidate (cl_channel c)\<rparr>);
            c = c\<lparr>cl_operations := clear_superseded_fan_echoes (cl_operations c)\<rparr>
        in (on_queries query_disconnect c)\<lparr>cl_disconnected := True\<rparr>)"

section \<open>Receipt of a frame\<close>

definition decodes_fan_mode :: "event \<Rightarrow> bool" where
  "decodes_fan_mode ev =
     (case ev of FanModeEvent _ (Some mode) _ _ _ \<Rightarrow> True | _ \<Rightarrow> False)"

definition receipt_phase :: "client \<Rightarrow> string" where
  "receipt_phase c =
     (case tx_active_request (cl_transactions c) of
        Some (x # xs) \<Rightarrow> x # xs
      | _ \<Rightarrow> client_status_value (cl_status c))"

definition consume_echo :: "int \<Rightarrow> bytes \<Rightarrow> (bool, client) st" where
  "consume_echo generation frame =
     on_operations (\<lambda>s. case consume_superseded_fan_echo generation frame s of (b, s) \<Rightarrow> (Inr b, s))"

definition reserve_echo :: "int \<Rightarrow> bytes \<Rightarrow> (unit, client) st" where
  "reserve_echo generation frame c =
     (if starts_with [0xEE, 0x05] frame \<and>
         (case gp_decode (cl_protocol c) frame of Inr ev \<Rightarrow> decodes_fan_mode ev | Inl e \<Rightarrow> False)
      then on_operations
             (st_bind (reserve_active_fan_echo_by_physical (cl_protocol c) generation)
                (\<lambda>_. st_return ())) c
      else (Inr (), c))"

definition on_plaintext_frame :: "int \<Rightarrow> bytes \<Rightarrow> time \<Rightarrow> (unit, client) st" where
  "on_plaintext_frame generation frame now c =
     (if generation \<noteq> cl_generation c \<or> cl_stopping c \<or> cl_disconnected c then (Inr (), c)
      else if MAX_QUEUED_FRAMES \<le> length (cl_queue c) then
        let c = c\<lparr>cl_queue_overflows := cl_queue_overflows c + 1\<rparr>;
            c = on_disconnected generation (cl_transport_generation c) c
        in (Inr (), set_available False (Some PurifierClientError) (c\<lparr>cl_queue := []\<rparr>))
      else
        st_bind (reserve_echo generation frame) (\<lambda>_.
        st_bind (consume_echo generation frame) (\<lambda>consumed c.
          if consumed then (Inr (), c)
          else
            st_bind
              (on_operations (record_fan_frame (cl_protocol c) generation frame (receipt_phase c) now))
              (\<lambda>_ c. (Inr (), c\<lparr>cl_plaintext_rx_count := cl_plaintext_rx_count c + 1,
                               cl_queue := cl_queue c @
                                 [\<lparr>rf_frame = frame, rf_generation = generation,
                                   rf_received_at = now\<rparr>]\<rparr>)) c)) c)"

section \<open>Observations\<close>

text \<open>Who asked for the frame that is processed.\<close>

record frame_context =
  fc_purpose :: observation_purpose
  fc_request_id :: "int option"
  fc_operation_id :: "nat option"
  fc_origin :: "command_origin option"

definition unsolicited :: frame_context where
  "unsolicited = \<lparr>fc_purpose = PUR_UNSOLICITED, fc_request_id = None, fc_operation_id = None,
     fc_origin = None\<rparr>"

text \<open>The command transaction whose completion reports exactly the mode it asked for.\<close>

definition matching_command ::
    "command option \<Rightarrow> string option \<Rightarrow> frame_context \<Rightarrow> fan_mode \<Rightarrow> bool" where
  "matching_command executing matched ctx mode \<longleftrightarrow>
     matched = Some ''SetFanMode'' \<and> fc_operation_id ctx \<noteq> None \<and> fc_origin ctx \<noteq> None \<and>
     executing = Some (SetFanMode mode)"

definition startup_authoritative ::
    "device_profile \<Rightarrow> int \<Rightarrow> int option \<Rightarrow> fan_mode option \<Rightarrow> bool" where
  "startup_authoritative p selector mode_code previous_mode \<longleftrightarrow>
     startup_mode_strategy (protocol p) = ''h7124_selector_00'' \<and> selector = 0x00 \<or>
     startup_mode_strategy (protocol p) = ''h7129_selector_pair'' \<and>
       (selector = 0x00 \<and> mode_code \<noteq> Some 0x01 \<or> selector = 0x01 \<and> previous_mode = None)"

definition semantic_observation ::
    "device_profile \<Rightarrow> command option \<Rightarrow> event \<Rightarrow> fan_mode option \<Rightarrow> fan_mode option \<Rightarrow>
     string option \<Rightarrow> int \<Rightarrow> int \<Rightarrow> frame_context \<Rightarrow> time \<Rightarrow> observation option" where
  "semantic_observation p executing ev previous_mode mode matched revision generation ctx observed_at =
     (case ev of
        AirQualityEvent _ _ pm25 _ _ _ filter_life from_device \<Rightarrow>
          (let correlated = (matched \<in> {Some ''QueryAirQuality'', Some ''air_quality''} \<and> \<not> from_device)
           in Some (AirQualityObservation
                \<lparr>ob_revision = revision, ob_generation = generation, ob_observed_at = observed_at,
                 ob_source = (if from_device then SRC_DEVICE else SRC_QUERY),
                 ob_purpose = (if from_device then PUR_UNSOLICITED else fc_purpose ctx),
                 ob_request_id = (if correlated then fc_request_id ctx else None),
                 ob_operation_id = (if correlated then fc_operation_id ctx else None),
                 ob_command_origin = (if correlated then fc_origin ctx else None)\<rparr>
                pm25 filter_life))
      | FanModeEvent _ _ _ _ _ \<Rightarrow>
          (case mode of
             None \<Rightarrow> None
           | Some m \<Rightarrow>
               let commanded = matching_command executing matched ctx m
               in Some (FanModeObservation
                    \<lparr>ob_revision = revision, ob_generation = generation, ob_observed_at = observed_at,
                     ob_source = (if commanded then SRC_COMMAND else SRC_PHYSICAL),
                     ob_purpose = (if commanded then PUR_COMMAND else PUR_UNSOLICITED),
                     ob_request_id = None,
                     ob_operation_id = (if commanded then fc_operation_id ctx else None),
                     ob_command_origin = (if commanded then fc_origin ctx else None)\<rparr> m))
      | StartupFanModeEvent _ selector mode_code _ _ _ \<Rightarrow>
          (case mode of
             None \<Rightarrow> None
           | Some m \<Rightarrow>
               if matched = Some (startup_request_name selector) \<and>
                  startup_authoritative p selector mode_code previous_mode
               then Some (FanModeObservation
                    \<lparr>ob_revision = revision, ob_generation = generation, ob_observed_at = observed_at,
                     ob_source = SRC_STARTUP, ob_purpose = fc_purpose ctx,
                     ob_request_id = fc_request_id ctx, ob_operation_id = None,
                     ob_command_origin = None\<rparr> m)
               else None)
      | _ \<Rightarrow> None)"

definition active_command :: "client \<Rightarrow> command option" where
  "active_command c = map_option (\<lambda>i. op_command (op (cl_operations c) i)) (oc_active (cl_operations c))"

definition publish_semantic_observation ::
    "event \<Rightarrow> fan_mode option \<Rightarrow> string option \<Rightarrow> int \<Rightarrow> frame_context \<Rightarrow> time \<Rightarrow> client \<Rightarrow> client" where
  "publish_semantic_observation ev previous_mode matched generation ctx observed_at c =
     (if \<not> cl_observed c \<or> generation \<noteq> cl_generation c then c
      else
        let revision = cl_observation_revision c + 1
        in case semantic_observation (cl_profile c) (active_command c) ev previous_mode
                  (ps_fan_mode (red_state (cl_reducer c))) matched revision generation ctx observed_at of
             None \<Rightarrow> c
           | Some ob \<Rightarrow>
               cl_call (ObservationCallback ob) (c\<lparr>cl_observation_revision := revision\<rparr>))"

definition publish_command_fan_observation ::
    "fan_mode \<Rightarrow> received_frame \<Rightarrow> nat \<Rightarrow> command_origin \<Rightarrow> client \<Rightarrow> client" where
  "publish_command_fan_observation mode received operation_id origin c =
     (if \<not> cl_observed c \<or> rf_generation received \<noteq> cl_generation c \<or> cl_stopping c then c
      else
        let revision = cl_observation_revision c + 1
        in cl_call
             (ObservationCallback (FanModeObservation
                \<lparr>ob_revision = revision, ob_generation = rf_generation received,
                 ob_observed_at = rf_received_at received, ob_source = SRC_COMMAND,
                 ob_purpose = PUR_COMMAND, ob_request_id = None,
                 ob_operation_id = Some operation_id, ob_command_origin = Some origin\<rparr> mode))
             (c\<lparr>cl_observation_revision := revision\<rparr>))"

section \<open>Processing of a frame\<close>

text \<open>A physical fan update: an \<open>ee 05\<close> frame with a known mode.  Matched by the transaction it
  confirms, it releases the echo reserved at receipt; unmatched, it supersedes the sent command.\<close>

definition physical_fan_update :: "event \<Rightarrow> bytes \<Rightarrow> bool" where
  "physical_fan_update ev frame \<longleftrightarrow> decodes_fan_mode ev \<and> starts_with [0xEE, 0x05] frame"

definition yield_to_physical :: "event \<Rightarrow> bytes \<Rightarrow> string option \<Rightarrow> int \<Rightarrow> (unit, client) st" where
  "yield_to_physical ev frame matched generation c =
     (let g = cl_protocol c
      in if physical_fan_update ev frame \<and> matched = Some ''SetFanMode'' then
           on_operations (discard_active_fan_echo_reservation g generation) c
         else if physical_fan_update ev frame \<and> matched = None then
           on_operations (st_bind (supersede_active_fan_by_physical g generation) (\<lambda>_. st_return ())) c
         else (Inr (), c))"

definition reduce_and_publish ::
    "event \<Rightarrow> received_frame \<Rightarrow> string option \<Rightarrow> frame_context \<Rightarrow> (unit, client) st" where
  "reduce_and_publish ev received matched ctx c =
     (case reduce_event ev (rf_generation received) matched (cl_reducer c) of
        Inl e \<Rightarrow> (Inl e, c)
      | Inr (r, reduction) \<Rightarrow>
          let previous_mode = ps_fan_mode (red_state (cl_reducer c));
              c = c\<lparr>cl_reducer := r,
                    cl_refresh_pending := (cl_refresh_pending c \<or>
                      srd_refresh_requested reduction \<and> \<not> cl_refresh_running c)\<rparr>;
              c = (if srd_state_changed reduction then cl_call (StateCallback (srd_state reduction)) c else c)
          in (Inr (), publish_semantic_observation ev previous_mode matched (rf_generation received) ctx
                        (rf_received_at received) c))"

definition process_plaintext_frame ::
    "received_frame \<Rightarrow> string option \<Rightarrow> frame_context \<Rightarrow> (unit, client) st" where
  "process_plaintext_frame received matched ctx c =
     (if rf_generation received \<noteq> cl_generation c \<or> cl_stopping c then (Inr (), c)
      else
        st_bind (consume_echo (rf_generation received) (rf_frame received)) (\<lambda>consumed c.
          if consumed then (Inr (), c)
          else case gp_decode (cl_protocol c) (rf_frame received) of
                 Inl e \<Rightarrow> (Inl e, c)
               | Inr ev \<Rightarrow>
                   st_bind (yield_to_physical ev (rf_frame received) matched (rf_generation received))
                     (\<lambda>_. reduce_and_publish ev received matched ctx) c) c)"

text \<open>\<open>_apply_confirmed_command\<close> of the client: the reducer adopts the acknowledged value, and the
  exact \<open>3a 05\<close> acknowledgement is published as the command's observation.\<close>

definition cl_apply_confirmed ::
    "command \<Rightarrow> received_frame option \<Rightarrow> nat \<Rightarrow> client \<Rightarrow> client" where
  "cl_apply_confirmed cmd confirmation i c =
     (case apply_confirmed_command cmd (cl_generation c) (cl_reducer c) of
        (r, reduction) \<Rightarrow>
          let c = c\<lparr>cl_reducer := r\<rparr>;
              c = (if srd_state_changed reduction then cl_call (StateCallback (srd_state reduction)) c else c)
          in case (cmd, confirmation) of
               (SetFanMode mode, Some received) \<Rightarrow>
                 if rf_generation received = cl_generation c \<and>
                    starts_with [0x3A, 0x05] (rf_frame received)
                 then publish_command_fan_observation mode received
                        (op_operation_id (op (cl_operations c) i)) (op_origin (op (cl_operations c) i)) c
                 else c
             | _ \<Rightarrow> c)"

section \<open>Callers\<close>

text \<open>\<open>async_execute\<close> up to its wait, and what it does when the wait ends by its deadline or by
  cancellation.  After the deadline it waits for quiescence and then reports.\<close>

definition execute_begins :: "command \<Rightarrow> time \<Rightarrow> command_origin \<Rightarrow> (nat, client) st" where
  "execute_begins cmd now origin c =
     (if \<not> cl_running c then (Inl PurifierClientError, c)
      else on_operations (\<lambda>s. case enqueue (cl_timings c) cmd now origin s of (i, s) \<Rightarrow> (Inr i, s)) c)"

definition execute_cancelled :: "nat \<Rightarrow> (unit, client) st" where
  "execute_cancelled i c =
     on_operations (cancel (cl_protocol c) i (Some (cl_generation c))) c"

definition execute_reports_deadline :: "nat \<Rightarrow> (exn, client) st" where
  "execute_reports_deadline i c =
     on_operations (failure_error (cl_protocol c) (cl_timings c) (cl_reducer c) i
       ''Command was not confirmed'' (cl_generation c)) c"

text \<open>\<open>async_query_air_quality\<close> up to its wait; the wait for an earlier settled request to quiesce
  has already ended.\<close>

definition query_begins :: "time \<Rightarrow> (nat, client) st" where
  "query_begins now c =
     (if \<not> cl_running c \<or> cl_status c \<noteq> Ready then (Inl PurifierClientError, c)
      else
        let stale = (case aq_request (cl_queries c) of
                       Some i \<Rightarrow> ar_generation (rq (cl_queries c) i) \<noteq> cl_generation c | None \<Rightarrow> False);
            c = (if stale then on_queries query_disconnect c else c)
        in case query_acquire now (transaction_timeout (cl_timings c)) (cl_generation c) (cl_queries c) of
             (r, s) \<Rightarrow> (r, c\<lparr>cl_queries := s\<rparr>))"

definition query_deadline :: "nat \<Rightarrow> client \<Rightarrow> client" where
  "query_deadline i c =
     (if rq_done (cl_queries c) i then c else on_queries (query_fail i AirQualityQueryTimeout) c)"

definition cancel_air_quality_query :: "client \<Rightarrow> client" where
  "cancel_air_quality_query = on_queries (\<lambda>s. snd (query_cancel s))"

section \<open>Session and shutdown\<close>

definition cancel_recovery_reset :: "client \<Rightarrow> client" where
  "cancel_recovery_reset c = c\<lparr>cl_reset_timer := None\<rparr>"

definition schedule_recovery_reset :: "int \<Rightarrow> client \<Rightarrow> client" where
  "schedule_recovery_reset generation c =
     (cancel_recovery_reset c)\<lparr>cl_reset_timer := Some generation\<rparr>"

text \<open>The scheduled \<open>reset_if_current\<close> fires.\<close>

definition recovery_reset_fires :: "client \<Rightarrow> client" where
  "recovery_reset_fires c =
     (case cl_reset_timer c of
        None \<Rightarrow> c
      | Some generation \<Rightarrow>
          let c = c\<lparr>cl_reset_timer := None\<rparr>
          in if cl_status c \<noteq> Ready \<or> generation \<noteq> cl_generation c then c
             else c\<lparr>cl_recovery := reset_after_stable_session (cl_recovery c)\<rparr>)"

text \<open>\<open>_connect_initialize_and_run\<close> up to the wait for an advertisement.\<close>

definition begin_session :: "client \<Rightarrow> client" where
  "begin_session c =
     (let c = c\<lparr>cl_connection_cycles := cl_connection_cycles c + 1, cl_generation := cl_generation c + 1,
                cl_operations := clear_superseded_fan_echoes (cl_operations c),
                cl_disconnected := False\<rparr>;
          c = (on_queries query_disconnect c)
                \<lparr>cl_queue := [], cl_refresh_pending := False, cl_refresh_running := False,
                 cl_refresh_resume := [], cl_refresh_failures := [], cl_initialization_failures := [],
                 cl_essential_batches := 0, cl_essential_attempts := 0\<rparr>
      in (invalidate_connection_scoped_state c)\<lparr>cl_status := WaitingForAdvertisement\<rparr>)"

text \<open>\<open>async_start\<close> after the environment started.\<close>

definition client_start :: "client \<Rightarrow> client" where
  "client_start c =
     (if cl_running c then c
      else c\<lparr>cl_stopping := False, cl_first_ready := Some fut_pending, cl_running := True\<rparr>)"

text \<open>\<open>async_shutdown\<close> up to the cancellation of the runner, returning the operation it executes;
  and after the resources are released.\<close>

definition shutdown_begins :: "client \<Rightarrow> nat option \<times> client" where
  "shutdown_begins c =
     (let s = clear_superseded_fan_echoes (cl_operations c);
          c = on_queries query_disconnect
                (c\<lparr>cl_stopping := True, cl_operations := s\<lparr>oc_event := True\<rparr>\<rparr>)
      in (oc_active (cl_operations c), c\<lparr>cl_running := False\<rparr>))"

definition shutdown_ends :: "nat option \<Rightarrow> client \<Rightarrow> client" where
  "shutdown_ends active c =
     (let c = c\<lparr>cl_channel := None,
                cl_operations := fail_for_shutdown PurifierClientError active (cl_operations c)\<rparr>
      in (cancel_recovery_reset c)
           \<lparr>cl_recovery := reset_after_stable_session (cl_recovery c), cl_status := ClientStopped\<rparr>)"

section \<open>What happens while the client waits\<close>

datatype client_input =
    InFrame int bytes time
  | InDisconnect int int
  | InExecute command time command_origin
  | InCancelCommand nat
  | InReportDeadline nat
  | InQuery time
  | InQueryDeadline nat
  | InCancelQuery
  | InResetTimer
  | InShutdown

fun client_input_step :: "client \<Rightarrow> client_input \<Rightarrow> client" where
  "client_input_step c (InFrame generation frame now) = snd (on_plaintext_frame generation frame now c)"
| "client_input_step c (InDisconnect session transport) = on_disconnected session transport c"
| "client_input_step c (InExecute cmd now origin) = snd (execute_begins cmd now origin c)"
| "client_input_step c (InCancelCommand i) = snd (execute_cancelled i c)"
| "client_input_step c (InReportDeadline i) = snd (execute_reports_deadline i c)"
| "client_input_step c (InQuery now) = snd (query_begins now c)"
| "client_input_step c (InQueryDeadline i) = query_deadline i c"
| "client_input_step c InCancelQuery = cancel_air_quality_query c"
| "client_input_step c InResetTimer = recovery_reset_fires c"
| "client_input_step c InShutdown = snd (shutdown_begins c)"

end
