(* ===== verification/Client_Execution.thy ===== *)
theory Client_Execution
  imports Client
begin

text \<open>
  The purifier client (\<open>client.py\<close>), part two: the code that waits.  A wait of the task that owns the
  channel is given by what happens meanwhile (\<open>client_input\<close>s, in order) and by what the clock says;
  which frame it returns, and whether it returns a frame, a timeout, a disconnect or a wake, follows
  from the state.  On top of it one transaction, the execution of an operation, of an air-quality
  query, the initialization and refresh sweeps and a turn of the ready loop.  An environment that ends
  before the code returns leaves it blocked.
\<close>

section \<open>Waiting for a frame\<close>

text \<open>An edge is a wake that was cleared again before the waiting task ran.\<close>

record client_wait =
  cw_time_left :: bool
  cw_inputs :: "client_input list"
  cw_cancelled :: bool
  cw_command_edge :: bool
  cw_query_edge :: bool

abbreviation run_inputs :: "client_input list \<Rightarrow> client \<Rightarrow> client" where
  "run_inputs is c \<equiv> foldl client_input_step c is"

definition queue_head :: "client \<Rightarrow> received_frame option" where
  "queue_head c = (case cl_queue c of [] \<Rightarrow> None | f # rest \<Rightarrow> Some f)"

definition pop_queue :: "client \<Rightarrow> client" where
  "pop_queue c = c\<lparr>cl_queue := tl (cl_queue c)\<rparr>"

definition client_next_frame :: "bool \<Rightarrow> bool \<Rightarrow> client_wait \<Rightarrow> client \<Rightarrow> received_frame res \<times> client" where
  "client_next_frame for_command for_query w c =
     (if \<not> cw_time_left w then (Inl TimeoutError, c)
      else
        let c = run_inputs (cw_inputs w) c
        in if cw_cancelled w then (Inl CancelledError, c)
           else (next_frame_outcome 1 (queue_head c) (cl_disconnected c)
                   (oc_event (cl_operations c) \<or> cw_command_edge w)
                   (aq_event (cl_queries c) \<or> cw_query_edge w)
                   for_command for_query True GattTransportError,
                 pop_queue c))"

definition wait_for_ready_work :: "client_wait \<Rightarrow> client \<Rightarrow> unit res \<times> client" where
  "wait_for_ready_work w c =
     (let c = run_inputs (cw_inputs w) c;
          woken = (oc_event (cl_operations c) \<or> cw_command_edge w);
          head = queue_head c;
          disconnected = cl_disconnected c
      in if cw_cancelled w then (Inl CancelledError, c)
         else
           let c = pop_queue c
           in if disconnected then (Inl GattTransportError, c)
              else
                st_bind
                  (\<lambda>c. case head of None \<Rightarrow> (Inr (), c)
                                   | Some f \<Rightarrow> process_plaintext_frame f None unsolicited c)
                  (\<lambda>_ c. (Inr (), if woken
                          then c\<lparr>cl_operations := (cl_operations c)\<lparr>oc_event := False\<rparr>\<rparr> else c)) c)"

section \<open>A transaction\<close>

text \<open>The hooks of \<open>_async_execute_descriptor\<close>: whose frames they are, whether the send moves the
  poll clock, which operation records the send, and which wakes interrupt the wait.\<close>

record tx_hooks =
  th_context :: frame_context
  th_periodic :: bool
  th_operation :: "nat option"
  th_for_command :: bool
  th_for_query :: bool

definition plain_hooks :: "observation_purpose \<Rightarrow> tx_hooks" where
  "plain_hooks purpose =
     \<lparr>th_context = unsolicited\<lparr>fc_purpose := purpose\<rparr>, th_periodic = False, th_operation = None,
      th_for_command = False, th_for_query = False\<rparr>"

text \<open>The executor's wait loop with the client's \<open>next_current_frame\<close> and \<open>reduce_frame\<close>.\<close>

fun client_wait_loop ::
    "request_descriptor \<Rightarrow> tx_hooks \<Rightarrow> int \<Rightarrow> matcher \<Rightarrow> client_wait list \<Rightarrow> tx_evidence \<Rightarrow> client \<Rightarrow>
     tx_result \<times> received_frame option \<times> matcher \<times> tx_evidence \<times> client" where
  "client_wait_loop d h n m [] ev c = ((if mt_complete m then TxLoopLeft else TxWaiting), None, m, ev, c)"
| "client_wait_loop d h n m (w # ws) ev c =
     (if mt_complete m then (TxLoopLeft, None, m, ev, c)
      else case client_next_frame (th_for_command h) (th_for_query h) w c of
        (Inl e, c) \<Rightarrow> (tx_escape e, None, m, ev, c)
      | (Inr received, c) \<Rightarrow>
          if rf_generation received \<noteq> n then client_wait_loop d h n m ws ev c
          else case consume_superseded_fan_echo n (rf_frame received) (cl_operations c) of
            (True, s) \<Rightarrow> client_wait_loop d h n m ws ev (c\<lparr>cl_operations := s\<rparr>)
          | (False, s) \<Rightarrow>
              let c = c\<lparr>cl_operations := s\<rparr>; ev = ev\<lparr>te_received := te_received ev + 1\<rparr>
              in case matcher_feed m (rf_frame received) of
                   Inl e \<Rightarrow> (tx_escape e, None, m, ev, c)
                 | Inr (m, result) \<Rightarrow>
                     (case process_plaintext_frame received
                             (if result = COMPLETE then Some (dsc_name d) else None) (th_context h) c of
                        (Inl e, c) \<Rightarrow> (tx_escape e, None, m, ev, c)
                      | (Inr _, c) \<Rightarrow>
                          let ev = count_ignored result (rf_frame received) ev
                          in if result = COMPLETE then (TxFrames (mt_frames m), Some received, m, ev, c)
                             else client_wait_loop d h n m ws ev c))"

record client_attempt =
  ca_send_at :: time
  ca_send_inputs :: "client_input list"
  ca_send :: "exn option"
  ca_sent_at :: time
  ca_waits :: "client_wait list"

definition count_attempt :: "request_descriptor \<Rightarrow> client \<Rightarrow> client" where
  "count_attempt d c =
     (if cl_status c = Initializing \<and> dsc_name d = essential_request (protocol (cl_profile c))
      then c\<lparr>cl_essential_attempts := cl_essential_attempts c + 1\<rparr> else c)"

text \<open>\<open>record_send\<close>, \<open>channel.async_send\<close> and \<open>record_sent\<close>; what the channel puts on the wire is the
  channel's concern.\<close>

definition record_operation_send :: "tx_hooks \<Rightarrow> time \<Rightarrow> (unit, client) st" where
  "record_operation_send h now c =
     (case th_operation h of
        None \<Rightarrow> (Inr (), c)
      | Some i \<Rightarrow> on_operations (record_send (cl_protocol c) i (cl_generation c) now) c)"

definition channel_ready :: "client \<Rightarrow> bool" where
  "channel_ready c = (case cl_channel c of None \<Rightarrow> False | Some ch \<Rightarrow> cn_ready ch)"

definition client_send :: "client_attempt \<Rightarrow> (unit, client) st" where
  "client_send a c =
     (if \<not> channel_ready c then (Inl ChannelNotReadyError, c)
      else (case ca_send a of Some e \<Rightarrow> Inl e | None \<Rightarrow> Inr (), run_inputs (ca_send_inputs a) c))"

definition record_sent :: "tx_hooks \<Rightarrow> time \<Rightarrow> client \<Rightarrow> client" where
  "record_sent h now c =
     (if th_periodic h then c\<lparr>cl_next_poll_due := now + poll_interval (cl_timings c)\<rparr> else c)"

definition on_transactions :: "(tx_executor \<Rightarrow> tx_executor) \<Rightarrow> client \<Rightarrow> client" where
  "on_transactions f c = c\<lparr>cl_transactions := f (cl_transactions c)\<rparr>"

fun client_attempts ::
    "request_descriptor \<Rightarrow> tx_hooks \<Rightarrow> int \<Rightarrow> int \<Rightarrow> nat \<Rightarrow> client_attempt list \<Rightarrow> client \<Rightarrow>
     tx_result \<times> received_frame option \<times> client" where
  "client_attempts d h n attempts 0 env c = (TxRaised TransactionTimeoutError, None, c)"
| "client_attempts d h n attempts (Suc left) [] c = (TxWaiting, None, count_attempt d c)"
| "client_attempts d h n attempts (Suc left) (a # env) c =
     (case st_bind (record_operation_send h (ca_send_at a)) (\<lambda>_. client_send a) (count_attempt d c) of
        (Inl e, c) \<Rightarrow> (TxRaised e, None, c)
      | (Inr _, c) \<Rightarrow>
          (case client_wait_loop d h n (new_matcher d) (ca_waits a) no_evidence
                  (record_sent h (ca_sent_at a) c) of
             (r, confirmation, m, ev, c) \<Rightarrow>
               (case r of
                  TxFrames fs \<Rightarrow> (r, confirmation, on_transactions clear_timeout_summary c)
                | TxTimeout \<Rightarrow>
                    let summary = \<lparr>ts_attempt = attempts - int left, ts_attempts = attempts,
                           ts_received = te_received ev, ts_matched = int (length (mt_frames m)),
                           ts_ignored = te_ignored ev, ts_sample = te_sample ev\<rparr>
                    in client_attempts d h n attempts left env
                         (on_transactions (\<lambda>x. x\<lparr>tx_last_timeout_summary := Some (dsc_name d, summary)\<rparr>) c)
                | TxLoopLeft \<Rightarrow> client_attempts d h n attempts left env c
                | _ \<Rightarrow> (r, None, c))))"

definition set_active_request :: "string option \<Rightarrow> client \<Rightarrow> client" where
  "set_active_request name = on_transactions (\<lambda>x. x\<lparr>tx_active_request := name\<rparr>)"

definition execute_descriptor ::
    "request_descriptor \<Rightarrow> int \<Rightarrow> tx_hooks \<Rightarrow> client_attempt list \<Rightarrow> client \<Rightarrow>
     tx_result \<times> received_frame option \<times> client" where
  "execute_descriptor d attempts h env c =
     (if \<not> channel_ready c then (TxRaised ChannelError, None, c)
      else
        case client_attempts d h (cl_generation c) attempts (nat attempts) env
               (set_active_request (Some (dsc_name d)) c) of
          (r, confirmation, c) \<Rightarrow>
            (r, confirmation, if r = TxWaiting then c else set_active_request None c))"

section \<open>Execution of an operation\<close>

text \<open>How the wait for the transaction and the cancel event ends.\<close>

datatype round_end = TransactionEnds | CancelSeen | DeadlineFires | RunnerCancelled

record operation_round =
  or_now :: time
  or_attempts :: "client_attempt list"
  or_end :: round_end
  or_after :: time

definition command_hooks :: "nat \<Rightarrow> client \<Rightarrow> tx_hooks" where
  "command_hooks i c =
     (plain_hooks PUR_COMMAND)
       \<lparr>th_context := \<lparr>fc_purpose = PUR_COMMAND, fc_request_id = None,
          fc_operation_id = Some (op_operation_id (op (cl_operations c) i)),
          fc_origin = Some (op_origin (op (cl_operations c) i))\<rparr>,
        th_operation := Some i\<rparr>"

definition deadline_failure :: "nat \<Rightarrow> client \<Rightarrow> unit progress \<times> client" where
  "deadline_failure i c =
     (case on_operations (fail (cl_protocol c) (cl_timings c) (cl_reducer c) i
             ''Command deadline expired during Bluetooth transaction'' (cl_generation c)) c of
        (Inl e, c) \<Rightarrow> (Finished (Inl e), c)
      | (Inr failure, c) \<Rightarrow> (Finished (Inl failure), c))"

definition requeue_and_raise :: "nat \<Rightarrow> time \<Rightarrow> exn \<Rightarrow> client \<Rightarrow> unit progress \<times> client" where
  "requeue_and_raise i now error c =
     (case on_operations (requeue_for_reconciliation (cl_protocol c) (cl_timings c) (cl_reducer c) i now
             (cl_generation c)) c of
        (Inl e, c) \<Rightarrow> (Finished (Inl e), c)
      | (Inr _, c) \<Rightarrow> (Finished (Inl error), c))"

definition confirm_operation :: "nat \<Rightarrow> received_frame option \<Rightarrow> client \<Rightarrow> client" where
  "confirm_operation i confirmation c =
     (if op_done (cl_operations c) i then c
      else
        let c = cl_apply_confirmed (op_command (op (cl_operations c) i)) confirmation i c
        in c\<lparr>cl_operations := complete i (cl_operations c)\<rparr>)"

fun execution_loop ::
    "request_descriptor \<Rightarrow> nat \<Rightarrow> operation_round list \<Rightarrow> client \<Rightarrow> unit progress \<times> client" where
  "execution_loop d i [] c = (Blocked, c)"
| "execution_loop d i (r # rs) c =
     (case on_operations (prepare_for_send (cl_protocol c) (cl_timings c) (cl_reducer c) i (or_now r)
             (cl_generation c)) c of
        (Inl e, c) \<Rightarrow> (Finished (Inl e), c)
      | (Inr False, c) \<Rightarrow> (Finished (Inr ()), c)
      | (Inr True, c) \<Rightarrow>
          (case execute_descriptor d 1 (command_hooks i c) (or_attempts r) c of
             (result, confirmation, c) \<Rightarrow>
               (case or_end r of
                  CancelSeen \<Rightarrow>
                    if op_cancel_event (op (cl_operations c) i)
                    then (Finished (Inr ()), set_active_request None c) else (Blocked, c)
                | DeadlineFires \<Rightarrow> deadline_failure i (set_active_request None c)
                | RunnerCancelled \<Rightarrow> (Finished (Inl CancelledError), set_active_request None c)
                | TransactionEnds \<Rightarrow>
                    (case result of
                       TxFrames fs \<Rightarrow> (Finished (Inr ()), confirm_operation i confirmation c)
                     | TxRaised e \<Rightarrow>
                         if e = TransactionTimeoutError then
                           let c = c\<lparr>cl_operations :=
                                 record_response_failure i (cl_generation c) e (cl_operations c)\<rparr>
                           in if should_retry_after_response_failure (cl_timings c) i (or_after r)
                                   (cl_operations c)
                              then execution_loop d i rs c
                              else requeue_and_raise i (or_after r) e c
                         else if e = TimeoutError then deadline_failure i c
                         else if e = CancelledError then (Finished (Inl e), c)
                         else requeue_and_raise i (or_after r) e c
                     | _ \<Rightarrow> (Blocked, c)))))"

definition execute_operation ::
    "nat \<Rightarrow> time \<Rightarrow> operation_round list \<Rightarrow> client \<Rightarrow> unit progress \<times> client" where
  "execute_operation i now rounds c =
     (case on_operations (prepare_for_execution (cl_protocol c) (cl_timings c) (cl_reducer c) i now
             (cl_generation c)) c of
        (Inl e, c) \<Rightarrow> (Finished (Inl e), c)
      | (Inr False, c) \<Rightarrow> (Finished (Inr ()), c)
      | (Inr True, c) \<Rightarrow>
          (case command_request (cl_protocol c) (op_command (op (cl_operations c) i)) None of
             Inl e \<Rightarrow> (Finished (Inl e), c)
           | Inr d \<Rightarrow> execution_loop d i rounds c))"

section \<open>Execution of an air-quality query\<close>

fun is_client_error :: "exn \<Rightarrow> bool" where
  "is_client_error PurifierClientError = True"
| "is_client_error CommandDeadlineExceeded = True"
| "is_client_error CommandSuperseded = True"
| "is_client_error AirQualityQueryPreempted = True"
| "is_client_error AirQualityQueryCancelled = True"
| "is_client_error AirQualityQueryTimeout = True"
| "is_client_error TransactionTimeoutError = True"
| "is_client_error RefreshPreemptedError = True"
| "is_client_error _ = False"

definition query_hooks :: "nat \<Rightarrow> client \<Rightarrow> tx_hooks" where
  "query_hooks i c =
     (plain_hooks PUR_ONE_SHOT)
       \<lparr>th_context := unsolicited\<lparr>fc_purpose := PUR_ONE_SHOT,
          fc_request_id := Some (int (ar_request_id (rq (cl_queries c) i)))\<rparr>,
        th_for_command := True\<rparr>"

text \<open>What the query future becomes when its transaction ended; only a cancellation propagates.\<close>

definition query_transaction_ended :: "nat \<Rightarrow> tx_result \<Rightarrow> client \<Rightarrow> unit progress \<times> client" where
  "query_transaction_ended i result c =
     (case result of
        TxFrames fs \<Rightarrow>
          (Finished (Inr ()),
           if ar_generation (rq (cl_queries c) i) = cl_generation c
           then on_queries (query_complete i) c else on_queries query_disconnect c)
      | TxRaised e \<Rightarrow>
          if e = RefreshPreemptedError
          then (Finished (Inr ()), on_queries (query_fail i AirQualityQueryPreempted) c)
          else if e = TransactionTimeoutError
          then (Finished (Inr ()), on_queries (query_fail i AirQualityQueryTimeout) c)
          else if e = CancelledError then (Finished (Inl e), c)
          else (Finished (Inr ()),
                on_queries (query_fail i (if is_client_error e then e else PurifierClientError)) c)
      | _ \<Rightarrow> (Blocked, c))"

definition query_finally :: "nat \<Rightarrow> client \<Rightarrow> client" where
  "query_finally i c =
     (let c = (if rq_done (cl_queries c) i then c else on_queries (query_fail i PurifierClientError) c)
      in on_queries (query_release i) c)"

definition execute_air_quality_query ::
    "nat \<Rightarrow> client_attempt list \<Rightarrow> round_end \<Rightarrow> client \<Rightarrow> unit progress \<times> client" where
  "execute_air_quality_query i env ending c =
     (case command_request (cl_protocol c) QueryAirQuality None of
        Inl e \<Rightarrow> (Finished (Inl e), c)
      | Inr d \<Rightarrow>
          (case execute_descriptor d 1 (query_hooks i c) env c of
             (result, _, c) \<Rightarrow>
               let stopped = set_active_request None c;
                   (p, c) = (case ending of
                      CancelSeen \<Rightarrow>
                        if ar_cancel_event (rq (cl_queries c) i) then (Finished (Inr ()), stopped)
                        else (Blocked, c)
                    | DeadlineFires \<Rightarrow>
                        (Finished (Inr ()), on_queries (query_fail i AirQualityQueryTimeout) stopped)
                    | RunnerCancelled \<Rightarrow> (Finished (Inl CancelledError), stopped)
                    | TransactionEnds \<Rightarrow> query_transaction_ended i result c)
               in (p, if p = Blocked then c else query_finally i c)))"

section \<open>Initialization\<close>

definition add_failure :: "string \<Rightarrow> string list \<Rightarrow> string list" where
  "add_failure name failures = (if name \<in> set failures then failures else failures @ [name])"

definition update_initialization_failures :: "string list \<Rightarrow> client \<Rightarrow> client" where
  "update_initialization_failures failures c = c\<lparr>cl_initialization_failures := failures\<rparr>"

definition is_essential :: "request_descriptor \<Rightarrow> client \<Rightarrow> bool" where
  "is_essential d c \<longleftrightarrow> dsc_name d = essential_request (protocol (cl_profile c))"

definition count_batch :: "client \<Rightarrow> client" where
  "count_batch c = c\<lparr>cl_essential_batches := cl_essential_batches c + 1\<rparr>"

text \<open>One request of a sweep, and the delay after it.\<close>

record sweep_step =
  sw_now :: time
  sw_attempts :: "client_attempt list"
  sw_sleep :: "client_input list"
  sw_cancelled :: bool

fun initialization_sweep ::
    "request_descriptor list \<Rightarrow> sweep_step list \<Rightarrow> request_descriptor option \<Rightarrow> string list \<Rightarrow> client \<Rightarrow>
     (request_descriptor option \<times> string list) progress \<times> client" where
  "initialization_sweep [] env essential failures c = (Finished (Inr (essential, failures)), c)"
| "initialization_sweep (d # ds) [] essential failures c = (Blocked, c)"
| "initialization_sweep (d # ds) (v # env) essential failures c =
     (let essential = (if is_essential d c then Some d else essential);
          c = (if is_essential d c then count_batch c else c);
          continue = (\<lambda>failures c.
            if ds = [] then initialization_sweep ds env essential failures c
            else let c = run_inputs (sw_sleep v) c
                 in if sw_cancelled v then (Finished (Inl CancelledError), c)
                    else initialization_sweep ds env essential failures c)
      in case execute_descriptor d (initialization_attempts (cl_timings c)) (plain_hooks PUR_STARTUP)
                (sw_attempts v) c of
           (TxFrames fs, _, c) \<Rightarrow> continue failures c
         | (TxRaised e, _, c) \<Rightarrow>
             if e = TransactionTimeoutError then
               let failures = add_failure (dsc_name d) failures
               in continue failures (update_initialization_failures failures c)
             else (Finished (Inl e), c)
         | (_, _, c) \<Rightarrow> (Blocked, c))"

record retry_step =
  rs_wait :: client_wait
  rs_attempts :: "client_attempt list"

fun essential_retries ::
    "request_descriptor \<Rightarrow> retry_step list \<Rightarrow> string list \<Rightarrow> client \<Rightarrow> string list progress \<times> client" where
  "essential_retries d env failures c =
     (if dsc_name d \<notin> set failures then (Finished (Inr failures), c)
      else if essential_initialization_max_batches (cl_timings c) \<le> cl_essential_batches c
      then (Finished (Inl TransactionTimeoutError), c)
      else
        case env of
          [] \<Rightarrow> (Blocked, c)
        | v # env \<Rightarrow>
            (case wait_for_ready_work (rs_wait v) c of
               (Inl e, c) \<Rightarrow> (Finished (Inl e), c)
             | (Inr _, c) \<Rightarrow>
                 (case execute_descriptor d (initialization_attempts (cl_timings c))
                         (plain_hooks PUR_STARTUP) (rs_attempts v) (count_batch c) of
                    (TxFrames fs, _, c) \<Rightarrow>
                      let failures = removeAll (dsc_name d) failures
                      in essential_retries d env failures (update_initialization_failures failures c)
                  | (TxRaised e, _, c) \<Rightarrow>
                      if e = TransactionTimeoutError then
                        let failures = add_failure (dsc_name d) failures
                        in essential_retries d env failures (update_initialization_failures failures c)
                      else (Finished (Inl e), c)
                  | (_, _, c) \<Rightarrow> (Blocked, c))))"

definition run_initialization ::
    "request_descriptor list \<Rightarrow> sweep_step list \<Rightarrow> retry_step list \<Rightarrow> client \<Rightarrow>
     string list progress \<times> client" where
  "run_initialization ds env retries c =
     (case initialization_sweep ds env None [] c of
        (Blocked, c) \<Rightarrow> (Blocked, c)
      | (Finished (Inl e), c) \<Rightarrow> (Finished (Inl e), c)
      | (Finished (Inr (None, failures)), c) \<Rightarrow> (Finished (Inl PurifierClientError), c)
      | (Finished (Inr (Some d, failures)), c) \<Rightarrow> essential_retries d retries failures c)"

section \<open>Refresh\<close>

definition update_refresh_failures :: "string list \<Rightarrow> client \<Rightarrow> client" where
  "update_refresh_failures failures c = c\<lparr>cl_refresh_failures := failures\<rparr>"

definition defer_refresh :: "request_descriptor list \<Rightarrow> string \<Rightarrow> client \<Rightarrow> client" where
  "defer_refresh remaining interrupted c =
     c\<lparr>cl_refresh_resume := remaining, cl_refresh_pending := True,
       cl_refresh_preemptions := cl_refresh_preemptions c + 1, cl_last_preempted := Some interrupted\<rparr>"

definition has_pending_air_quality_query :: "client \<Rightarrow> bool" where
  "has_pending_air_quality_query c \<longleftrightarrow>
     (case aq_request (cl_queries c) of
        None \<Rightarrow> False
      | Some i \<Rightarrow> \<not> rq_done (cl_queries c) i \<and> ar_generation (rq (cl_queries c) i) = cl_generation c)"

fun refresh_sweep ::
    "request_descriptor list \<Rightarrow> sweep_step list \<Rightarrow> string list \<Rightarrow> client \<Rightarrow> unit progress \<times> client" where
  "refresh_sweep [] env failures c = (Finished (Inr ()), c)"
| "refresh_sweep (d # ds) [] failures c = (Blocked, c)"
| "refresh_sweep (d # ds) (v # env) failures c =
     (if has_pending (sw_now v) (cl_operations c) \<or> has_pending_air_quality_query c
      then (Finished (Inr ()), defer_refresh (d # ds) (dsc_name d) c)
      else
        let continue = (\<lambda>failures c.
              if ds = [] then refresh_sweep ds env failures c
              else let c = run_inputs (sw_sleep v) c
                   in if sw_cancelled v then (Finished (Inl CancelledError), c)
                      else refresh_sweep ds env failures c)
        in case execute_descriptor d (refresh_attempts (cl_timings c))
                  ((plain_hooks PUR_REFRESH)\<lparr>th_for_command := True, th_for_query := True\<rparr>)
                  (sw_attempts v) c of
             (TxFrames fs, _, c) \<Rightarrow> continue failures c
           | (TxRaised e, _, c) \<Rightarrow>
               if e = RefreshPreemptedError
               then (Finished (Inr ()), defer_refresh (d # ds) (dsc_name d) c)
               else if e = TransactionTimeoutError then
                 let failures = add_failure (dsc_name d) failures;
                     c = update_refresh_failures failures c
                 in if is_essential d c then (Finished (Inl e), c) else continue failures c
               else (Finished (Inl e), c)
           | (_, _, c) \<Rightarrow> (Blocked, c))"

definition run_refresh ::
    "request_descriptor list \<Rightarrow> sweep_step list \<Rightarrow> client \<Rightarrow> unit progress \<times> client" where
  "run_refresh ds env c =
     (let resuming = (cl_refresh_resume c \<noteq> []);
          active = (if resuming then cl_refresh_resume c else ds);
          failures = (if resuming then cl_refresh_failures c else []);
          c = update_refresh_failures failures
                (c\<lparr>cl_refresh_running := True, cl_refresh_pending := False, cl_refresh_resume := []\<rparr>)
      in case refresh_sweep active env failures c of
           (p, c) \<Rightarrow> (p, if p = Blocked then c else c\<lparr>cl_refresh_running := False\<rparr>))"

section \<open>The ready loop\<close>

text \<open>A turn does the first work there is: a command, a query, a refresh, the poll, or it waits.\<close>

record ready_turn =
  rt_command_now :: time
  rt_execution_now :: time
  rt_rounds :: "operation_round list"
  rt_query_now :: time
  rt_query :: "client_attempt list"
  rt_query_end :: round_end
  rt_sleep :: "client_input list"
  rt_sleep_cancelled :: bool
  rt_refresh :: "sweep_step list"
  rt_poll_now :: time
  rt_poll :: "client_attempt list"
  rt_wait :: client_wait

definition poll_device_state :: "client_attempt list \<Rightarrow> client \<Rightarrow> unit progress \<times> client" where
  "poll_device_state env c =
     (case device_state_poll (cl_protocol c) of
        Inl e \<Rightarrow> (Finished (Inl e), c)
      | Inr d \<Rightarrow>
          (case execute_descriptor d (periodic_poll_attempts (cl_timings c))
                  ((plain_hooks PUR_PERIODIC)\<lparr>th_periodic := True\<rparr>) env c of
             (TxFrames fs, _, c) \<Rightarrow> (Finished (Inr ()), c)
           | (TxRaised e, _, c) \<Rightarrow> (Finished (Inl e), c)
           | (_, _, c) \<Rightarrow> (Blocked, c)))"

definition execute_and_release :: "nat \<Rightarrow> ready_turn \<Rightarrow> client \<Rightarrow> unit progress \<times> client" where
  "execute_and_release i v c =
     (case execute_operation i (rt_execution_now v) (rt_rounds v) c of
        (p, c) \<Rightarrow> (p, if p = Blocked then c else c\<lparr>cl_operations := release i (cl_operations c)\<rparr>))"

definition idle_work :: "ready_turn \<Rightarrow> client \<Rightarrow> unit progress \<times> client" where
  "idle_work v c =
     (if cl_refresh_pending c then
        let c = run_inputs (rt_sleep v) c
        in if rt_sleep_cancelled v then (Finished (Inl CancelledError), c)
           else (case gp_refresh_requests (cl_protocol c) of
                   Inl e \<Rightarrow> (Finished (Inl e), c) | Inr ds \<Rightarrow> run_refresh ds (rt_refresh v) c)
      else if cl_next_poll_due c \<le> rt_poll_now v then poll_device_state (rt_poll v) c
      else (case wait_for_ready_work (rt_wait v) c of (r, c) \<Rightarrow> (Finished r, c)))"

definition take_ready_turn :: "ready_turn \<Rightarrow> client \<Rightarrow> unit progress \<times> client" where
  "take_ready_turn v c =
     (case on_operations (take_next (cl_protocol c) (cl_timings c) (cl_reducer c) (rt_command_now v)
             (cl_generation c)) c of
        (Inl e, c) \<Rightarrow> (Finished (Inl e), c)
      | (Inr (Some i), c) \<Rightarrow> execute_and_release i v c
      | (Inr None, c) \<Rightarrow>
          (case query_take (rt_query_now v) (cl_generation c) (cl_queries c) of
             (taken, s) \<Rightarrow>
               let c = c\<lparr>cl_queries := s\<rparr>
               in case taken of
                    Some i \<Rightarrow> execute_air_quality_query i (rt_query v) (rt_query_end v) c
                  | None \<Rightarrow> idle_work v c))"

fun ready_loop :: "ready_turn list \<Rightarrow> client \<Rightarrow> unit progress \<times> client" where
  "ready_loop env c =
     (if cl_stopping c then (Finished (Inr ()), c)
      else case env of
        [] \<Rightarrow> (Blocked, c)
      | v # env \<Rightarrow>
          (case take_ready_turn v c of
             (Finished (Inr _), c) \<Rightarrow> ready_loop env c
           | (p, c) \<Rightarrow> (p, c)))"

end
