(* ===== verification/Client_Lifecycle.thy ===== *)
theory Client_Lifecycle
  imports Client_Execution
begin

text \<open>
  The purifier client (\<open>client.py\<close>), part three: one connection from the wait for an advertisement to
  the end of its ready loop, the recovery cycle around it, and the backoff between cycles.  What the
  Bluetooth environment and the transport answer is part of the environment of a cycle.
\<close>

section \<open>A connection\<close>

text \<open>The device found or not, the generation the transport reports for the connection and the one it
  has afterwards, and the channel as establishing it left it.\<close>

record session_env =
  sn_search :: "client_input list"
  sn_device :: "bool res"
  sn_connecting :: "client_input list"
  sn_connect :: "int res"
  sn_transport_generation :: int
  sn_establishing :: "client_input list"
  sn_establish :: "exn option"
  sn_channel :: channel
  sn_initialization :: "sweep_step list"
  sn_retries :: "retry_step list"
  sn_ready_at :: time
  sn_turns :: "ready_turn list"

text \<open>Up to the established channel.\<close>

definition connect_and_establish :: "session_env \<Rightarrow> client \<Rightarrow> unit res \<times> client" where
  "connect_and_establish v c =
     (let c = run_inputs (sn_search v) (begin_session c)
      in case sn_device v of
           Inl e \<Rightarrow> (Inl e, c)
         | Inr False \<Rightarrow> (Inl BluetoothUnavailableError, c)
         | Inr True \<Rightarrow>
             let c = run_inputs (sn_connecting v) (c\<lparr>cl_status := Connecting\<rparr>);
                 c = c\<lparr>cl_transport_generation := sn_transport_generation v\<rparr>
             in case sn_connect v of
                  Inl e \<Rightarrow> (Inl e, c)
                | Inr generation \<Rightarrow>
                    if generation \<noteq> cl_transport_generation c then (Inl GattTransportError, c)
                    else
                      let c = c\<lparr>cl_status := (if profile_security (cl_profile c) = H7129_SESSION
                                             then Negotiating else Subscribing),
                                cl_channel := Some (new_channel (cl_profile c))\<rparr>;
                          c = (run_inputs (sn_establishing v) c)\<lparr>cl_channel := Some (sn_channel v)\<rparr>
                      in (case sn_establish v of Some e \<Rightarrow> Inl e | None \<Rightarrow> Inr (), c))"

text \<open>The first ready notification settles the future an explicit validation waits for.\<close>

definition become_ready :: "time \<Rightarrow> client \<Rightarrow> client" where
  "become_ready now c =
     (let c = schedule_recovery_reset (cl_generation c)
                (c\<lparr>cl_status := Ready, cl_ever_ready := True, cl_ready_since := Some now\<rparr>);
          c = on_transactions clear_timeout_summary
                (c\<lparr>cl_next_poll_due := now + initial_poll_delay (cl_timings c), cl_last_error := None\<rparr>);
          c = set_available True None c
      in c\<lparr>cl_first_ready := map_option (fut_settle Returned) (cl_first_ready c)\<rparr>)"

definition connect_initialize_and_run :: "session_env \<Rightarrow> client \<Rightarrow> unit progress \<times> client" where
  "connect_initialize_and_run v c =
     (case connect_and_establish v c of
        (Inl e, c) \<Rightarrow> (Finished (Inl e), c)
      | (Inr _, c) \<Rightarrow>
          let c = c\<lparr>cl_status := Initializing\<rparr>
          in case gp_initialization_requests (cl_protocol c) of
               Inl e \<Rightarrow> (Finished (Inl e), c)
             | Inr ds \<Rightarrow>
                 (case run_initialization ds (sn_initialization v) (sn_retries v) c of
                    (Blocked, c) \<Rightarrow> (Blocked, c)
                  | (Finished (Inl e), c) \<Rightarrow> (Finished (Inl e), c)
                  | (Finished (Inr _), c) \<Rightarrow> ready_loop (sn_turns v) (become_ready (sn_ready_at v) c)))"

section \<open>Backoff\<close>

datatype wake_reason = ScheduledDelay | ShutdownWake | QueuedCommand | FreshAdvertisement

fun wake_reason_value :: "wake_reason \<Rightarrow> string" where
  "wake_reason_value ScheduledDelay = ''scheduled_delay''"
| "wake_reason_value ShutdownWake = ''shutdown''"
| "wake_reason_value QueuedCommand = ''queued_command''"
| "wake_reason_value FreshAdvertisement = ''fresh_advertisement''"

record backoff_env =
  bo_started :: time
  bo_inputs :: "client_input list"
  bo_advertised :: bool
  bo_command_edge :: bool
  bo_woken_at :: time
  bo_floor_inputs :: "client_input list"
  bo_floor_edge :: bool
  bo_finished :: time

definition clear_command_wake :: "client \<Rightarrow> client" where
  "clear_command_wake c = c\<lparr>cl_operations := (cl_operations c)\<lparr>oc_event := False\<rparr>\<rparr>"

definition first_wake :: "bool \<Rightarrow> bool \<Rightarrow> bool \<Rightarrow> wake_reason" where
  "first_wake stopped commanded advertised =
     (if \<not> stopped \<and> \<not> commanded \<and> \<not> advertised then ScheduledDelay
      else if stopped then ShutdownWake
      else if commanded then QueuedCommand else FreshAdvertisement)"

definition minimum_wait :: "timing_profile \<Rightarrow> time \<Rightarrow> wake_reason \<Rightarrow> time" where
  "minimum_wait t circuit reason =
     (if reason = FreshAdvertisement then max circuit (advertisement_settle_delay t) else circuit)"

text \<open>The second wait: while the circuit is open only shutdown ends it early.  A command task that
  completed in the first wait is still complete in the second.\<close>

definition hold_floor ::
    "backoff_decision \<Rightarrow> backoff_env \<Rightarrow> bool \<Rightarrow> wake_reason \<Rightarrow> client \<Rightarrow> wake_reason \<times> client" where
  "hold_floor plan v commanded reason c =
     (let c = run_inputs (bo_floor_inputs v) c;
          commanded = (commanded \<or> oc_event (cl_operations c) \<or> bo_floor_edge v)
      in if cl_stopping c then (ShutdownWake, c)
         else if floor_seconds plan \<le> 0 \<and> commanded then (QueuedCommand, clear_command_wake c)
         else (reason, c))"

definition client_backoff :: "backoff_decision \<Rightarrow> backoff_env \<Rightarrow> client \<Rightarrow> wake_reason \<times> client" where
  "client_backoff plan v c =
     (let t = cl_timings c;
          c = run_inputs (bo_inputs v) c;
          commanded = (oc_event (cl_operations c) \<or> bo_command_edge v);
          reason = first_wake (cl_stopping c) commanded (bo_advertised v);
          c = (if reason = QueuedCommand then clear_command_wake c else c);
          remaining = max 0 (minimum_wait t (floor_seconds plan) reason - (bo_woken_at v - bo_started v));
          (reason, c) = (if reason \<noteq> ShutdownWake \<and> remaining \<noteq> 0
                         then hold_floor plan v commanded reason c else (reason, c));
          (reason, c) = (if reason \<noteq> ShutdownWake \<and> oc_event (cl_operations c)
                         then (QueuedCommand, clear_command_wake c) else (reason, c))
      in (reason,
          c\<lparr>cl_recovery := complete_backoff t (bo_started v) (bo_finished v) (wake_reason_value reason)
              (bo_advertised v \<and> reason \<noteq> ShutdownWake) (cl_recovery c)\<rparr>))"

section \<open>Recovery cycles\<close>

record cycle_env =
  cy_started :: time
  cy_session :: session_env
  cy_failed_at :: time
  cy_releasing :: "client_input list"
  cy_cleanup_succeeded :: bool
  cy_finished :: time
  cy_recent_advertisement :: bool
  cy_planned_at :: time
  cy_jitter :: rat
  cy_backoff :: backoff_env

text \<open>\<open>except Exception\<close>: the failure becomes recovery evidence, and the device unavailable once it
  has been ready.\<close>

definition record_cycle_failure :: "time \<Rightarrow> exn \<Rightarrow> client \<Rightarrow> client" where
  "record_cycle_failure now error c =
     (let t = cl_timings c;
          stable_for = (case cl_ready_since c of Some since \<Rightarrow> now - since | None \<Rightarrow> 0);
          c = c\<lparr>cl_last_error := Some error,
                cl_recovery := snd (snapshot t now
                  (record_failure t (client_status_value (cl_status c)) (cl_connection_cycles c)
                     stable_for now (cl_recovery c)))\<rparr>
      in if cl_ever_ready c then set_available False (Some error) c else c)"

text \<open>\<open>finally\<close>: the channel is discarded at once, then the transport disconnects and cleans up.\<close>

definition release_connection :: "cycle_env \<Rightarrow> client \<Rightarrow> client" where
  "release_connection v c =
     (let c = (cancel_recovery_reset c)\<lparr>cl_ready_since := None, cl_channel := None\<rparr>;
          c = run_inputs (cy_releasing v) c
      in c\<lparr>cl_recovery := record_cycle (cy_started v) (cy_finished v) (cy_cleanup_succeeded v)
             (cl_recovery c)\<rparr>)"

datatype cycle_end = CycleBlocked | CycleCancelled | CycleStopped | CycleRaised exn | NextCycle wake_reason

definition plan_and_back_off :: "cycle_env \<Rightarrow> client \<Rightarrow> cycle_end \<times> client" where
  "plan_and_back_off v c =
     (if cl_stopping c then (CycleStopped, c)
      else
        let c = c\<lparr>cl_status := BackingOff\<rparr>
        in case plan_backoff (cl_timings c) (cy_planned_at v) (cy_recent_advertisement v) (cy_jitter v)
                  (cl_recovery c) of
             Inl e \<Rightarrow> (CycleRaised e, c)
           | Inr (plan, recovery) \<Rightarrow>
               (case client_backoff plan (cy_backoff v) (c\<lparr>cl_recovery := recovery\<rparr>) of
                  (reason, c) \<Rightarrow> (NextCycle reason, c)))"

text \<open>An iteration of \<open>_run\<close>.\<close>

definition connection_cycle :: "cycle_env \<Rightarrow> client \<Rightarrow> cycle_end \<times> client" where
  "connection_cycle v c =
     (case connect_initialize_and_run (cy_session v) c of
        (Blocked, c) \<Rightarrow> (CycleBlocked, c)
      | (Finished (Inr _), c) \<Rightarrow> plan_and_back_off v (release_connection v c)
      | (Finished (Inl e), c) \<Rightarrow>
          if e = CancelledError then (CycleCancelled, release_connection v c)
          else plan_and_back_off v (release_connection v (record_cycle_failure (cy_failed_at v) e c)))"

fun recovery_loop :: "cycle_env list \<Rightarrow> client \<Rightarrow> cycle_end \<times> client" where
  "recovery_loop env c =
     (if cl_stopping c then (CycleStopped, c)
      else case env of
        [] \<Rightarrow> (CycleBlocked, c)
      | v # env \<Rightarrow>
          (case connection_cycle v c of
             (NextCycle reason, c) \<Rightarrow> recovery_loop env c
           | (ending, c) \<Rightarrow> (ending, c)))"

definition run_client :: "cycle_env list \<Rightarrow> client \<Rightarrow> cycle_end \<times> client" where
  "run_client env c =
     recovery_loop env (c\<lparr>cl_recovery := begin_sequence (cl_timings c) (cl_recovery c)\<rparr>)"

text \<open>\<open>async_wait_until_ready\<close>: any failure of the wait is reported as unavailable Bluetooth.\<close>

definition wait_until_ready :: "client \<Rightarrow> unit progress" where
  "wait_until_ready c =
     (case (cl_running c, cl_first_ready c) of
        (True, Some fut) \<Rightarrow>
          (case fut of
             None \<Rightarrow> Blocked
           | Some Returned \<Rightarrow> Finished (Inr ())
           | Some (Failed e) \<Rightarrow> Finished (Inl BluetoothUnavailableError)
           | Some Cancelled \<Rightarrow> Finished (Inl CancelledError))
      | _ \<Rightarrow> Finished (Inl PurifierClientError))"

end
