(* ===== verification/Client_Facts.thy ===== *)
theory Client_Facts
  imports Client_Lifecycle
begin

text \<open>
  What happens to the command lane while the client waits and while it processes frames: operations
  only accumulate evidence, no send is counted, and a cancel event is only raised on an operation
  whose future is settled.  The fields of the client that waiting leaves alone.
\<close>

section \<open>The lane evolves\<close>

definition op_evolves :: "operation \<Rightarrow> operation \<Rightarrow> bool" where
  "op_evolves x y \<longleftrightarrow>
     op_le x y \<and> op_send_attempts y = op_send_attempts x \<and>
     (op_cancel_event y \<longrightarrow> op_cancel_event x \<or> op_future y \<noteq> None)"

definition cancel_settled :: "operation \<Rightarrow> bool" where
  "cancel_settled x \<longleftrightarrow> (op_cancel_event x \<longrightarrow> op_future x \<noteq> None)"

definition evolves :: "operations \<Rightarrow> operations \<Rightarrow> bool" where
  "evolves s s' \<longleftrightarrow>
     length (oc_store s) \<le> length (oc_store s') \<and>
     (\<forall>i < length (oc_store s). op_evolves (oc_store s ! i) (oc_store s' ! i)) \<and>
     (\<forall>i. length (oc_store s) \<le> i \<and> i < length (oc_store s') \<longrightarrow> cancel_settled (oc_store s' ! i))"

named_theorems evolves_intros \<open>one fact per method of the command lane\<close>

lemma op_evolves_refl [simp]: "op_evolves x x"
  by (simp add: op_evolves_def)

lemma op_evolves_trans: "op_evolves x y \<Longrightarrow> op_evolves y z \<Longrightarrow> op_evolves x z"
  by (auto simp: op_evolves_def op_le_def)

lemma cancel_settled_evolves: "cancel_settled x \<Longrightarrow> op_evolves x y \<Longrightarrow> cancel_settled y"
  by (auto simp: cancel_settled_def op_evolves_def op_le_def)

lemma evolves_refl [simp, intro]: "evolves s s"
  by (auto simp: evolves_def)

lemma evolves_trans [trans]:
  assumes "evolves a b" "evolves b c"
  shows "evolves a c"
  unfolding evolves_def
proof (intro conjI allI impI)
  show "length (oc_store a) \<le> length (oc_store c)" using assms by (simp add: evolves_def)
  fix i
  show "op_evolves (oc_store a ! i) (oc_store c ! i)" if "i < length (oc_store a)"
  proof -
    from that assms(1) have "i < length (oc_store b)" by (auto simp: evolves_def)
    with that assms show ?thesis unfolding evolves_def by (blast intro: op_evolves_trans)
  qed
  show "cancel_settled (oc_store c ! i)" if "length (oc_store a) \<le> i \<and> i < length (oc_store c)"
  proof (cases "i < length (oc_store b)")
    case True
    with that assms show ?thesis unfolding evolves_def by (blast intro: cancel_settled_evolves)
  next
    case False
    with that assms show ?thesis by (simp add: evolves_def)
  qed
qed

lemma evolves_same_store: "oc_store s' = oc_store s \<Longrightarrow> evolves s s'"
  by (auto simp: evolves_def)

lemma evolves_upd_op:
  "(i < length (oc_store s) \<Longrightarrow> op_evolves (oc_store s ! i) (f (oc_store s ! i))) \<Longrightarrow> evolves s (upd_op i f s)"
  by (auto simp: evolves_def upd_op_def)

lemma evolves_store_cong: "oc_store s' = oc_store s'' \<Longrightarrow> evolves s s'' \<Longrightarrow> evolves s s'"
  by (simp add: evolves_def)

lemma evolves_settle [evolves_intros]: "evolves s (settle i v s)"
  unfolding settle_def
  by (rule evolves_upd_op) (auto simp: op_evolves_def op_le_def fut_settle_def fut_done_def)

lemma evolves_quiesce [evolves_intros]: "evolves s (quiesce i s)"
  unfolding quiesce_def by (rule evolves_upd_op) (auto simp: op_evolves_def op_le_def)

text \<open>Settle, then raise the cancel event.\<close>

lemma evolves_settle_cancel:
  "evolves s (upd_op i (\<lambda>x. x\<lparr>op_cancel_event := True\<rparr>) (settle i v s))"
proof (rule evolves_trans[OF evolves_settle evolves_upd_op])
  assume "i < length (oc_store (settle i v s))"
  then show "op_evolves (oc_store (settle i v s) ! i) ((oc_store (settle i v s) ! i)\<lparr>op_cancel_event := True\<rparr>)"
    by (simp add: op_evolves_def op_le_def settle_def upd_op_def fut_settle_def fut_done_def)
qed

lemma evolves_foldl: "(\<And>s i. evolves s (f s i)) \<Longrightarrow> evolves s (foldl f s xs)"
  by (induction xs arbitrary: s) (auto intro: evolves_trans)

lemma evolves_st_bind:
  assumes "\<And>s. evolves s (snd (m s))" "\<And>x s. evolves s (snd (f x s))"
  shows "evolves s (snd (st_bind m f s))"
  by (rule st_bind_preserves[where R = evolves]) (use assms evolves_trans in auto)

lemma evolves_failure_error [evolves_intros]: "evolves s (snd (failure_error g t r i reason n s))"
  by (auto simp: failure_error_def evolves_same_store split: sum.split)

lemma evolves_fail [evolves_intros]: "evolves s (snd (fail g t r i reason n s))"
  unfolding fail_def by (rule evolves_st_bind) (simp_all add: evolves_intros)

lemma evolves_fail_then: "evolves s (snd (st_bind (fail g t r i reason n) (\<lambda>_. st_return x) s))"
  by (rule evolves_st_bind) (simp_all add: evolves_intros)

lemma evolves_clear_echoes [evolves_intros]: "evolves s (clear_superseded_fan_echoes s)"
  by (simp add: clear_superseded_fan_echoes_def evolves_same_store)

lemma evolves_coalesce: "evolves s (coalesce_pending cmd s)"
  unfolding coalesce_pending_def Let_def
  by (rule evolves_store_cong[rotated, OF evolves_foldl[of "\<lambda>s i. quiesce i (settle i (Failed CommandSuperseded) s)"]])
    (auto intro: evolves_trans[OF evolves_settle evolves_quiesce])

lemma evolves_append: "\<not> op_cancel_event x \<Longrightarrow> evolves s (s\<lparr>oc_store := oc_store s @ [x]\<rparr>)"
  by (auto simp: evolves_def nth_append cancel_settled_def)

lemma evolves_enqueue [evolves_intros]: "evolves s (snd (enqueue t cmd now origin s))"
proof -
  let ?s1 = "discard_confirmation cmd (s\<lparr>oc_next_operation_id := oc_next_operation_id s + 1\<rparr>)"
  have 1: "oc_store ?s1 = oc_store s" by (simp add: discard_confirmation_store)
  have "evolves s ?s1" using 1 by (rule evolves_same_store)
  also have "evolves ?s1 (?s1\<lparr>oc_store := oc_store ?s1 @
      [\<lparr>op_command = cmd, op_future = fut_pending, op_deadline = now + command_deadline t,
        op_send_attempts = 0, op_created_at = now, op_send_diagnostics = [],
        op_response_failures = [], op_observed_fan_frames = [],
        op_operation_id = oc_next_operation_id s + 1, op_origin = origin,
        op_cancel_event = False, op_quiesced = False,
        op_force_fan_confirmation = forces_confirmation cmd s\<rparr>]\<rparr>)" (is "evolves _ ?s2")
    by (rule evolves_append) simp
  also have "evolves ?s2 (coalesce_pending cmd ?s2)" by (rule evolves_coalesce)
  finally show ?thesis by (simp add: enqueue_def Let_def evolves_def)
qed

lemma evolves_cancel [evolves_intros]: "evolves s (snd (cancel g i n s))"
  unfolding cancel_def
proof (rule evolves_st_bind)
  fix u s
  let ?s = "upd_op i (\<lambda>x. x\<lparr>op_cancel_event := True\<rparr>) (settle i Cancelled s)"
  have "evolves s ?s" by (rule evolves_settle_cancel)
  moreover have "evolves ?s (?s\<lparr>oc_pending := remove1 i (oc_pending ?s)\<rparr>)" by (simp add: evolves_same_store)
  moreover have "evolves ?s (quiesce i (?s\<lparr>oc_pending := remove1 i (oc_pending ?s)\<rparr>))"
    by (rule evolves_trans[OF evolves_same_store evolves_quiesce]) simp
  ultimately show "evolves s (snd (let s = ?s; was_pending = (i \<in> set (oc_pending s));
              s = s\<lparr>oc_pending := remove1 i (oc_pending s)\<rparr>;
              s = (if was_pending then quiesce i s else s)
          in (Inr (), s\<lparr>oc_event :=
                (if list_ex (\<lambda>j. \<not> op_done s j) (oc_pending s) then oc_event s else False)\<rparr>)))"
    by (auto simp: Let_def intro: evolves_trans evolves_store_cong)
qed (auto intro: evolves_same_store split: option.splits sum.splits)

lemma evolves_consume [evolves_intros]: "evolves s (snd (consume_superseded_fan_echo n f s))"
  by (simp add: consume_superseded_fan_echo_def evolves_same_store)

lemma evolves_reserve [evolves_intros]: "evolves s (snd (reserve_active_fan_echo_by_physical g n s))"
  by (auto simp: reserve_active_fan_echo_by_physical_def intro!: evolves_same_store
      split: option.splits sum.splits)

lemma evolves_force_matching: "evolves s (force_matching mode s i)"
proof -
  have "evolves s (upd_op i (\<lambda>x. x\<lparr>op_force_fan_confirmation := True\<rparr>) s)"
    by (rule evolves_upd_op) (simp add: op_evolves_def op_le_def)
  then show ?thesis by (auto simp: force_matching_def evolves_def)
qed

lemma evolves_supersede [evolves_intros]: "evolves s (snd (supersede_active_fan_by_physical g n s))"
proof -
  have "evolves s (snd (st_bind (reserve_active_fan_echo_by_physical g n) (\<lambda>_. st_return True)
    (foldl (force_matching mode)
      ((upd_op i (\<lambda>x. x\<lparr>op_cancel_event := True\<rparr>) (settle i (Failed CommandSuperseded) s))
         \<lparr>oc_requiring_confirmation := M\<rparr>) ps)))" (is "evolves s (snd (?f (foldl ?g (?h\<lparr>oc_requiring_confirmation := M\<rparr>) ps)))")
    for mode i M ps
  proof -
    have "evolves s ?h" by (rule evolves_settle_cancel)
    also have "evolves ?h (?h\<lparr>oc_requiring_confirmation := M\<rparr>)" by (simp add: evolves_same_store)
    also have "evolves (?h\<lparr>oc_requiring_confirmation := M\<rparr>) (foldl ?g (?h\<lparr>oc_requiring_confirmation := M\<rparr>) ps)"
      by (rule evolves_foldl) (rule evolves_force_matching)
    also have "evolves (foldl ?g (?h\<lparr>oc_requiring_confirmation := M\<rparr>) ps)
        (snd (?f (foldl ?g (?h\<lparr>oc_requiring_confirmation := M\<rparr>) ps)))"
      by (rule evolves_st_bind) (simp_all add: evolves_intros)
    finally show ?thesis .
  qed
  then show ?thesis
    by (auto simp: supersede_active_fan_by_physical_def Let_def split: option.splits command.splits)
qed

lemma evolves_discard_reservation [evolves_intros]:
  "evolves s (snd (discard_active_fan_echo_reservation g n s))"
  by (auto simp: discard_active_fan_echo_reservation_def intro!: evolves_same_store
      split: option.splits sum.splits)

lemma evolves_record_fan_frame [evolves_intros]: "evolves s (snd (record_fan_frame g n f phase now s))"
proof -
  have "evolves s (snd (st_bind m (\<lambda>(physical, matches, mode) s.
      (Inr (Some (d physical matches mode s)), upd_op i (\<lambda>x. x\<lparr>op_observed_fan_frames :=
         op_observed_fan_frames x @ [d physical matches mode s]\<rparr>) s)) s))"
    if "\<And>s. snd (m s) = s" for m i and d :: "bool \<Rightarrow> bool \<Rightarrow> decoded_mode \<Rightarrow> operations \<Rightarrow> fan_frame_detail"
    by (rule evolves_st_bind) (auto simp: that intro!: evolves_upd_op simp: op_evolves_def op_le_def)
  then show ?thesis by (auto simp: record_fan_frame_def Let_def split: option.splits)
qed

lemma evolves_reconcile: "evolves s (snd (reconcile r i s))"
  by (simp add: reconcile_def evolves_intros)

lemma evolves_prepare_for_execution [evolves_intros]:
  "evolves s (snd (prepare_for_execution g t r i now n s))"
  using evolves_reconcile[of s r i]
  by (auto simp: prepare_for_execution_def Let_def split: prod.splits intro: evolves_fail_then evolves_trans)

lemma evolves_prepare_for_send [evolves_intros]: "evolves s (snd (prepare_for_send g t r i now n s))"
  by (auto simp: prepare_for_send_def intro: evolves_fail_then)

lemma evolves_record_response_failure [evolves_intros]: "evolves s (record_response_failure i n e s)"
  unfolding record_response_failure_def
  by (rule evolves_upd_op) (simp add: op_evolves_def op_le_def)

lemma evolves_requeue [evolves_intros]: "evolves s (snd (requeue_for_reconciliation g t r i now n s))"
  by (auto simp: requeue_for_reconciliation_def intro: evolves_fail_then evolves_same_store)

lemma evolves_complete [evolves_intros]: "evolves s (complete i s)"
  unfolding complete_def by (rule evolves_store_cong[rotated, OF evolves_settle]) simp

section \<open>What waiting leaves alone\<close>

definition same_session :: "client \<Rightarrow> client \<Rightarrow> bool" where
  "same_session c c' \<longleftrightarrow>
     cl_profile c' = cl_profile c \<and> cl_protocol c' = cl_protocol c \<and> cl_observed c' = cl_observed c \<and>
     cl_status c' = cl_status c \<and> cl_generation c' = cl_generation c \<and>
     cl_transport_generation c' = cl_transport_generation c \<and>
     cl_transactions c' = cl_transactions c \<and> cl_refresh_running c' = cl_refresh_running c \<and>
     cl_refresh_resume c' = cl_refresh_resume c \<and> cl_refresh_failures c' = cl_refresh_failures c \<and>
     cl_refresh_preemptions c' = cl_refresh_preemptions c \<and>
     cl_initialization_failures c' = cl_initialization_failures c \<and>
     cl_essential_batches c' = cl_essential_batches c \<and>
     cl_essential_attempts c' = cl_essential_attempts c \<and> cl_ever_ready c' = cl_ever_ready c \<and>
     cl_connection_cycles c' = cl_connection_cycles c \<and>
     cl_next_poll_due c' = cl_next_poll_due c"

definition stays :: "client \<Rightarrow> client \<Rightarrow> bool" where
  "stays c c' \<longleftrightarrow> same_session c c' \<and> evolves (cl_operations c) (cl_operations c') \<and>
     (cl_stopping c \<longrightarrow> cl_stopping c') \<and> (cl_disconnected c \<longrightarrow> cl_disconnected c')"

named_theorems stays_intros \<open>one fact per handler of the client\<close>

lemma same_session_refl [simp]: "same_session c c"
  by (simp add: same_session_def)

lemma same_session_trans: "same_session a b \<Longrightarrow> same_session b c \<Longrightarrow> same_session a c"
  by (simp add: same_session_def)

lemma stays_refl [simp, intro]: "stays c c"
  by (simp add: stays_def)

lemma stays_trans [trans]: "stays a b \<Longrightarrow> stays b c \<Longrightarrow> stays a c"
  unfolding stays_def by (blast intro: same_session_trans evolves_trans)

lemma stays_st_bind:
  "(\<And>c. stays c (snd (m c))) \<Longrightarrow> (\<And>x c. stays c (snd (f x c))) \<Longrightarrow> stays c (snd (st_bind m f c))"
  by (rule st_bind_preserves[where R = stays]) (use stays_trans in auto)

lemma stays_fieldsI:
  "same_session c c' \<Longrightarrow> evolves (cl_operations c) (cl_operations c') \<Longrightarrow> cl_stopping c' = cl_stopping c \<Longrightarrow>
   cl_disconnected c' = cl_disconnected c \<Longrightarrow> stays c c'"
  by (simp add: stays_def)

lemma stays_on_operations:
  "(\<And>s. evolves s (snd (m s))) \<Longrightarrow> stays c (snd (on_operations m c))"
  using evolves_trans by (auto simp: on_operations_def stays_def same_session_def split: prod.split)
    (metis snd_conv)

lemma on_queries_fields [simp]:
  "stays c (on_queries f c)"
  by (rule stays_fieldsI) (simp_all add: on_queries_def same_session_def)

lemma stays_call [simp]: "stays c (cl_call x c)"
  by (rule stays_fieldsI) (simp_all add: cl_call_def same_session_def)

lemma stays_set_available [stays_intros]: "stays c (set_available a e c)"
  by (auto simp: set_available_def cl_call_def stays_def same_session_def)

lemma stays_on_disconnected [stays_intros]: "stays c (on_disconnected n m c)"
  by (auto simp: on_disconnected_def Let_def on_queries_def invalidate_connection_scoped_state_def
      stays_def same_session_def evolves_clear_echoes)

lemma stays_consume_echo [stays_intros]: "stays c (snd (consume_echo n f c))"
  unfolding consume_echo_def
proof (rule stays_on_operations)
  fix s
  show "evolves s (snd (case consume_superseded_fan_echo n f s of (b, s) \<Rightarrow> (Inr b, s)))"
    using evolves_consume[of s n f] by (cases "consume_superseded_fan_echo n f s") simp
qed

lemma stays_reserve_echo [stays_intros]: "stays c (snd (reserve_echo n f c))"
  by (auto simp: reserve_echo_def intro!: stays_on_operations evolves_st_bind evolves_reserve)

lemma stays_on_plaintext_frame [stays_intros]: "stays c (snd (on_plaintext_frame n f now c))"
proof -
  have queued: "stays c (snd ((\<lambda>_ c. (Inr (), c\<lparr>cl_plaintext_rx_count := cl_plaintext_rx_count c + 1,
      cl_queue := cl_queue c @ [x]\<rparr>)) y c))" for c x and y :: "fan_frame_detail option"
    by (rule stays_fieldsI) (simp_all add: same_session_def)
  have overflow: "stays c (set_available False e ((on_disconnected n m (c\<lparr>cl_queue_overflows := k\<rparr>))\<lparr>cl_queue := []\<rparr>))"
    for e m k
  proof -
    have "stays c (c\<lparr>cl_queue_overflows := k\<rparr>)" by (rule stays_fieldsI) (simp_all add: same_session_def)
    also have "stays \<dots> (on_disconnected n m \<dots>)" by (rule stays_on_disconnected)
    also have "stays \<dots> (\<dots>\<lparr>cl_queue := []\<rparr>)" by (rule stays_fieldsI) (simp_all add: same_session_def)
    also have "stays \<dots> (set_available False e \<dots>)" by (rule stays_set_available)
    finally show ?thesis .
  qed
  show ?thesis
    using overflow
    by (auto simp: on_plaintext_frame_def Let_def
        intro!: stays_st_bind stays_reserve_echo stays_consume_echo stays_on_operations
          evolves_record_fan_frame queued)
qed

lemma stays_yield_to_physical [stays_intros]: "stays c (snd (yield_to_physical ev f m n c))"
  by (auto simp: yield_to_physical_def Let_def
      intro!: stays_on_operations evolves_discard_reservation evolves_st_bind evolves_supersede)

lemma stays_publish_semantic [stays_intros]: "stays c (publish_semantic_observation ev pm m n ctx t c)"
  by (auto simp: publish_semantic_observation_def Let_def cl_call_def stays_def same_session_def
      split: option.split)

lemma stays_publish_command [stays_intros]: "stays c (publish_command_fan_observation mode f i k c)"
  by (auto simp: publish_command_fan_observation_def Let_def cl_call_def stays_def same_session_def)

lemma stays_reduce_and_publish [stays_intros]: "stays c (snd (reduce_and_publish ev f m ctx c))"
proof -
  have "stays c (publish_semantic_observation ev pm m n ctx t
      (if b then cl_call x (c\<lparr>cl_reducer := r, cl_refresh_pending := p\<rparr>)
       else c\<lparr>cl_reducer := r, cl_refresh_pending := p\<rparr>))" for pm n t b x r p
  proof -
    have "stays c (if b then cl_call x (c\<lparr>cl_reducer := r, cl_refresh_pending := p\<rparr>)
       else c\<lparr>cl_reducer := r, cl_refresh_pending := p\<rparr>)"
      by (auto simp: cl_call_def stays_def same_session_def)
    then show ?thesis using stays_publish_semantic stays_trans by blast
  qed
  then show ?thesis
    by (auto simp: reduce_and_publish_def Let_def split: sum.split prod.split)
qed

lemma stays_process [stays_intros]: "stays c (snd (process_plaintext_frame f m ctx c))"
proof -
  have "stays c (snd ((\<lambda>consumed c. if consumed then (Inr (), c)
          else case gp_decode (cl_protocol c) (rf_frame f) of
                 Inl e \<Rightarrow> (Inl e, c)
               | Inr ev \<Rightarrow> st_bind (yield_to_physical ev (rf_frame f) m (rf_generation f))
                     (\<lambda>_. reduce_and_publish ev f m ctx) c) consumed c))" for consumed c
    by (auto split: sum.split intro!: stays_st_bind stays_yield_to_physical stays_reduce_and_publish)
  then show ?thesis
    by (auto simp: process_plaintext_frame_def intro!: stays_st_bind stays_consume_echo)
qed

lemma stays_apply_confirmed [stays_intros]: "stays c (cl_apply_confirmed cmd conf i c)"
proof -
  obtain r reduction where r: "apply_confirmed_command cmd (cl_generation c) (cl_reducer c) = (r, reduction)"
    by fastforce
  define c1 where "c1 = (if srd_state_changed reduction
      then cl_call (StateCallback (srd_state reduction)) (c\<lparr>cl_reducer := r\<rparr>) else c\<lparr>cl_reducer := r\<rparr>)"
  have 1: "stays c c1" by (auto simp: c1_def cl_call_def stays_def same_session_def)
  have "cl_apply_confirmed cmd conf i c = c1 \<or> (\<exists>mode f k n. cl_apply_confirmed cmd conf i c =
      publish_command_fan_observation mode f k n c1)"
    unfolding cl_apply_confirmed_def r Let_def prod.case c1_def[symmetric]
    by (cases "is_SetFanMode cmd"; cases cmd; cases conf) auto
  with 1 show ?thesis using stays_publish_command stays_trans by metis
qed

text \<open>Every input but the shutdown keeps the stop flag; the shutdown only raises it.\<close>

lemma stays_execute_begins [stays_intros]: "stays c (snd (execute_begins cmd now origin c))"
proof -
  have "evolves s (snd (case enqueue t cmd now origin s of (i, s) \<Rightarrow> (Inr i, s)))" for s t
    using evolves_enqueue[of s t cmd now origin] by (cases "enqueue t cmd now origin s") simp
  then show ?thesis by (auto simp: execute_begins_def intro!: stays_on_operations)
qed

lemma stays_input [stays_intros]: "stays c (client_input_step c x)"
proof (cases x)
  case (InQuery now)
  have "stays c (snd (case query_acquire now t n s of (r, s) \<Rightarrow> (r, c'\<lparr>cl_queries := s\<rparr>)))"
    if "stays c c'" for t n s c'
  proof -
    have "stays c' (snd (case query_acquire now t n s of (r, s) \<Rightarrow> (r, c'\<lparr>cl_queries := s\<rparr>)))"
      by (auto simp: stays_def same_session_def split: prod.split)
    with that show ?thesis by (rule stays_trans)
  qed
  then show ?thesis using InQuery by (simp add: query_begins_def Let_def)
next
  case InShutdown
  then show ?thesis
    by (simp add: shutdown_begins_def Let_def on_queries_def stays_def same_session_def
        clear_superseded_fan_echoes_def evolves_same_store)
next
  case InResetTimer
  then show ?thesis
    by (auto simp: recovery_reset_fires_def Let_def stays_def same_session_def split: option.split)
qed (auto simp: stays_intros execute_cancelled_def execute_reports_deadline_def query_deadline_def
    cancel_air_quality_query_def intro!: stays_on_operations evolves_intros)

lemma stays_inputs [stays_intros]: "stays c (run_inputs is c)"
  by (induction "is" arbitrary: c) (auto intro: stays_trans stays_input)

lemma stays_pop [simp]: "stays c (pop_queue c)"
  by (rule stays_fieldsI) (simp_all add: pop_queue_def same_session_def)

lemma stays_next_frame [stays_intros]: "stays c (snd (client_next_frame a b w c))"
  by (auto simp: client_next_frame_def Let_def intro: stays_inputs stays_trans[OF stays_inputs stays_pop])

lemma stays_clear_wake: "stays c (c\<lparr>cl_operations := (cl_operations c)\<lparr>oc_event := False\<rparr>\<rparr>)"
  by (rule stays_fieldsI) (simp_all add: same_session_def evolves_same_store)

lemma stays_wait_for_ready_work [stays_intros]: "stays c (snd (wait_for_ready_work w c))"
proof -
  have "stays c (snd (st_bind
          (\<lambda>c. case h of None \<Rightarrow> (Inr (), c) | Some f \<Rightarrow> process_plaintext_frame f None unsolicited c)
          (\<lambda>_ c. (Inr (), if woken then c\<lparr>cl_operations := (cl_operations c)\<lparr>oc_event := False\<rparr>\<rparr> else c)) c))"
    for h woken c
    by (rule stays_st_bind) (auto simp: stays_process stays_clear_wake split: option.split)
  then show ?thesis
    by (auto simp: wait_for_ready_work_def Let_def
        intro: stays_inputs stays_trans[OF stays_inputs] stays_trans[OF stays_trans[OF stays_inputs stays_pop]])
qed

section \<open>A transaction\<close>

lemma stays_consumed:
  "consume_superseded_fan_echo n f (cl_operations c) = (b, s) \<Longrightarrow> stays c (c\<lparr>cl_operations := s\<rparr>)"
  using evolves_consume[of "cl_operations c" n f]
  by (auto simp: stays_def same_session_def)

lemma client_wait_loop_cases:
  fixes d :: request_descriptor and c :: client
  assumes "\<not> mt_complete m"
  obtains
    (ends) e c1 where "stays c c1" "client_wait_loop d h n m (w # ws) ev c = (tx_escape e, None, m, ev, c1)"
  | (skipped) c1 where "stays c c1"
      "client_wait_loop d h n m (w # ws) ev c = client_wait_loop d h n m ws ev c1"
  | (refused) received :: received_frame and e c1 where "stays c c1" "matcher_feed m (rf_frame received) = Inl e"
      "client_wait_loop d h n m (w # ws) ev c =
         (tx_escape e, None, m, ev\<lparr>te_received := te_received ev + 1\<rparr>, c1)"
  | (raised) received :: received_frame and e m1 result c1 where "stays c c1"
      "matcher_feed m (rf_frame received) = Inr (m1, result)"
      "client_wait_loop d h n m (w # ws) ev c =
         (tx_escape e, None, m1, ev\<lparr>te_received := te_received ev + 1\<rparr>, c1)"
  | (taken) received m1 result c0 c1 where "stays c c1" "rf_generation received = n"
      "matcher_feed m (rf_frame received) = Inr (m1, result)" "stays c c0"
      "process_plaintext_frame received (if result = COMPLETE then Some (dsc_name d) else None)
         (th_context h) c0 = (Inr (), c1)"
      "client_wait_loop d h n m (w # ws) ev c =
         (let ev = count_ignored result (rf_frame received) (ev\<lparr>te_received := te_received ev + 1\<rparr>)
          in if result = COMPLETE then (TxFrames (mt_frames m1), Some received, m1, ev, c1)
             else client_wait_loop d h n m1 ws ev c1)"
proof -
  obtain res c1 where nf: "client_next_frame (th_for_command h) (th_for_query h) w c = (res, c1)"
    by fastforce
  have s1: "stays c c1" using stays_next_frame[of c "th_for_command h" "th_for_query h" w] nf by simp
  show ?thesis
  proof (cases res)
    case (Inl e)
    with nf s1 assms show ?thesis by (intro ends) auto
  next
    case res: (Inr received)
    show ?thesis
    proof (cases "rf_generation received = n")
      case False
      with nf s1 assms res show ?thesis by (intro skipped) auto
    next
      case gen: True
      obtain b s where cs: "consume_superseded_fan_echo n (rf_frame received) (cl_operations c1) = (b, s)"
        by fastforce
      let ?c2 = "c1\<lparr>cl_operations := s\<rparr>"
      have s2: "stays c ?c2" using stays_trans[OF s1 stays_consumed[OF cs]] .
      show ?thesis
      proof (cases b)
        case True
        with nf s2 assms res gen cs show ?thesis by (intro skipped[of ?c2]) auto
      next
        case fresh: False
        show ?thesis
        proof (cases "matcher_feed m (rf_frame received)")
          case (Inl e)
          with nf s2 assms res gen cs fresh show ?thesis by (intro refused[OF s2 Inl]) auto
        next
          case (Inr y)
          obtain m1 result where y: "matcher_feed m (rf_frame received) = Inr (m1, result)"
            using Inr by (cases y) auto
          let ?matched = "if result = COMPLETE then Some (dsc_name d) else None"
          obtain p c3 where pr: "process_plaintext_frame received ?matched (th_context h) ?c2 = (p, c3)"
            by fastforce
          have s3: "stays c c3"
            using stays_trans[OF s2 stays_process[of ?c2 received ?matched "th_context h"]] pr by simp
          show ?thesis
          proof (cases p)
            case (Inl e)
            with nf s3 assms res gen cs fresh y pr show ?thesis by (intro raised[OF s3 y]) auto
          next
            case (Inr u)
            have "p = Inr ()" using Inr by simp
            with nf assms res gen cs fresh y pr show ?thesis
              by (intro taken[OF s3 gen y s2]) auto
          qed
        qed
      qed
    qed
  qed
qed

lemma stays_wait_loop:
  "client_wait_loop d h n m ws ev c = (r, confirmation, m', ev', c') \<Longrightarrow> stays c c'"
proof (induction ws arbitrary: m ev c)
  case (Cons w ws)
  show ?case
  proof (cases "mt_complete m")
    case False
    then show ?thesis
    proof (cases rule: client_wait_loop_cases[where d = d and h = h and n = n and w = w and ws = ws and ev = ev and c = c])
      case (skipped c1)
      with Cons.IH[of m ev c1] Cons.prems show ?thesis by (auto intro: stays_trans)
    next
      case (taken received m1 result c0 c1)
      with Cons.IH[of m1 _ c1] Cons.prems show ?thesis
        by (auto simp: Let_def split: if_splits intro: stays_trans)
    qed (use Cons.prems in auto)
  qed (use Cons.prems in auto)
qed auto

text \<open>A transaction moves the executor, the poll clock and the attempt counter, and counts at most one
  send per attempt on the operation it belongs to.\<close>

definition tx_session :: "client \<Rightarrow> client \<Rightarrow> bool" where
  "tx_session c c' \<longleftrightarrow>
     cl_profile c' = cl_profile c \<and> cl_protocol c' = cl_protocol c \<and> cl_observed c' = cl_observed c \<and>
     cl_status c' = cl_status c \<and> cl_generation c' = cl_generation c \<and>
     cl_refresh_running c' = cl_refresh_running c \<and>
     cl_refresh_resume c' = cl_refresh_resume c \<and> cl_refresh_failures c' = cl_refresh_failures c \<and>
     cl_refresh_preemptions c' = cl_refresh_preemptions c \<and>
     cl_initialization_failures c' = cl_initialization_failures c \<and>
     cl_essential_batches c' = cl_essential_batches c \<and> cl_ever_ready c' = cl_ever_ready c \<and>
     cl_connection_cycles c' = cl_connection_cycles c \<and>
     (cl_stopping c \<longrightarrow> cl_stopping c') \<and> (cl_disconnected c \<longrightarrow> cl_disconnected c')"

definition op_sends :: "int \<Rightarrow> operation \<Rightarrow> operation \<Rightarrow> bool" where
  "op_sends k x y \<longleftrightarrow>
     op_le x y \<and> op_send_attempts y \<le> op_send_attempts x + k \<and>
     (op_cancel_event y \<longrightarrow> op_cancel_event x \<or> op_future y \<noteq> None)"

definition sends :: "nat option \<Rightarrow> nat \<Rightarrow> operations \<Rightarrow> operations \<Rightarrow> bool" where
  "sends a k s s' \<longleftrightarrow>
     length (oc_store s) \<le> length (oc_store s') \<and>
     (\<forall>j < length (oc_store s).
        op_sends (if a = Some j then int k else 0) (oc_store s ! j) (oc_store s' ! j))"

definition transacts :: "nat option \<Rightarrow> nat \<Rightarrow> client \<Rightarrow> client \<Rightarrow> bool" where
  "transacts a k c c' \<longleftrightarrow> tx_session c c' \<and> sends a k (cl_operations c) (cl_operations c')"

lemma op_sends_trans: "op_sends k x y \<Longrightarrow> op_sends l y z \<Longrightarrow> op_sends (k + l) x z"
  by (auto simp: op_sends_def op_le_def)

lemma sends_trans:
  assumes "sends a k s t" "sends a l t u"
  shows "sends a (k + l) s u"
  unfolding sends_def
proof (intro conjI allI impI)
  show "length (oc_store s) \<le> length (oc_store u)" using assms by (simp add: sends_def)
  fix j
  assume "j < length (oc_store s)"
  with assms have "op_sends (if a = Some j then int k else 0) (oc_store s ! j) (oc_store t ! j)"
    "op_sends (if a = Some j then int l else 0) (oc_store t ! j) (oc_store u ! j)"
    by (auto simp: sends_def)
  from op_sends_trans[OF this]
  show "op_sends (if a = Some j then int (k + l) else 0) (oc_store s ! j) (oc_store u ! j)"
    by (cases "a = Some j") simp_all
qed

lemma op_sends_mono: "op_sends k x y \<Longrightarrow> k \<le> l \<Longrightarrow> op_sends l x y"
  by (auto simp: op_sends_def)

lemma sends_mono: "sends a k s t \<Longrightarrow> k \<le> l \<Longrightarrow> sends a l s t"
  unfolding sends_def by (metis (full_types) op_sends_mono of_nat_mono order_refl)

lemma tx_session_trans: "tx_session a b \<Longrightarrow> tx_session b c \<Longrightarrow> tx_session a c"
  by (simp add: tx_session_def)

lemma transacts_trans [trans]: "transacts a k b c \<Longrightarrow> transacts a l c d \<Longrightarrow> transacts a (k + l) b d"
  unfolding transacts_def by (blast intro: tx_session_trans sends_trans)

lemma transacts_mono: "transacts a k b c \<Longrightarrow> k \<le> l \<Longrightarrow> transacts a l b c"
  unfolding transacts_def by (blast intro: sends_mono)

lemma transacts_stays: "stays c c' \<Longrightarrow> transacts a 0 c c'"
  by (auto simp: stays_def same_session_def transacts_def tx_session_def evolves_def op_evolves_def
      sends_def op_sends_def)

lemma transacts_fieldsI:
  "tx_session c c' \<Longrightarrow> cl_operations c' = cl_operations c \<Longrightarrow> transacts a 0 c c'"
  by (simp add: transacts_def sends_def op_sends_def)

lemma transacts_on_transactions [simp]: "transacts a 0 c (on_transactions f c)"
  by (rule transacts_fieldsI) (simp_all add: on_transactions_def tx_session_def)

lemma transacts_set_active [simp]: "transacts a 0 c (set_active_request x c)"
  by (simp add: set_active_request_def)

lemma transacts_count_attempt [simp]: "transacts a 0 c (count_attempt d c)"
  by (rule transacts_fieldsI) (simp_all add: count_attempt_def tx_session_def)

lemma transacts_record_sent [simp]: "transacts a 0 c (record_sent h now c)"
  by (rule transacts_fieldsI) (simp_all add: record_sent_def tx_session_def)

lemma transacts_client_send: "transacts a 0 c (snd (client_send x c))"
  by (auto simp: client_send_def transacts_stays stays_inputs)

lemma sends_upd_op:
  assumes "oc_store s' = oc_store s"
  shows "sends (Some i) 1 s (upd_op i (\<lambda>x. x\<lparr>op_send_attempts := op_send_attempts x + 1,
    op_send_diagnostics := f x\<rparr>) s')"
  using assms by (auto simp: sends_def upd_op_def op_sends_def op_le_def)

lemma sends_record_send: "sends (Some i) 1 s (snd (record_send g i n now s))"
proof -
  obtain r s' where r: "retire_superseded_fan_echo_for_send g i n s = (r, s')" by fastforce
  then have store: "oc_store s' = oc_store s"
    by (auto simp: retire_superseded_fan_echo_for_send_def Let_def split: sum.splits if_splits)
  show ?thesis
  proof (cases r)
    case (Inl e)
    with r store show ?thesis by (simp add: record_send_def st_bind_def sends_def op_sends_def)
  next
    case (Inr x)
    with r sends_upd_op[OF store, of i "\<lambda>x. op_send_diagnostics x @
        [(op_send_attempts x + 1, n, op_elapsed x now)]"] show ?thesis
      by (simp add: record_send_def st_bind_def)
  qed
qed

lemma transacts_record_operation_send:
  "transacts (th_operation h) 1 c (snd (record_operation_send h now c))"
proof (cases "th_operation h")
  case None
  then show ?thesis by (simp add: record_operation_send_def transacts_mono[OF transacts_stays])
next
  case (Some i)
  with sends_record_send[of i "cl_operations c" "cl_protocol c" "cl_generation c" now] show ?thesis
    by (auto simp: record_operation_send_def on_operations_def transacts_def tx_session_def split: prod.split)
qed

lemma transacts_send_step:
  assumes "st_bind (record_operation_send h now) (\<lambda>_. client_send x) (count_attempt d c) = (r, c')"
  shows "transacts (th_operation h) 1 c c'"
proof -
  obtain r1 c1 where c1: "record_operation_send h now (count_attempt d c) = (r1, c1)" by fastforce
  have t1: "transacts (th_operation h) 1 c c1"
    using transacts_trans[OF transacts_count_attempt[of "th_operation h" c d]
        transacts_record_operation_send[of h "count_attempt d c" now]] c1 by simp
  show ?thesis
  proof (cases r1)
    case (Inl e)
    with assms c1 t1 show ?thesis by (simp add: st_bind_def)
  next
    case (Inr u)
    with assms c1 have "client_send x c1 = (r, c')" by (simp add: st_bind_def)
    with transacts_trans[OF t1 transacts_client_send[of "th_operation h" c1 x]] show ?thesis by simp
  qed
qed

lemma transacts_attempts:
  "client_attempts d h n attempts left env c = (r, confirmation, c') \<Longrightarrow>
     transacts (th_operation h) left c c'"
proof (induction left arbitrary: env c)
  case 0
  then show ?case by (simp add: transacts_stays)
next
  case (Suc left)
  let ?a = "th_operation h"
  show ?case
  proof (cases env)
    case Nil
    with Suc.prems have "c' = count_attempt d c" by simp
    then show ?thesis using transacts_mono[OF transacts_count_attempt] by simp
  next
    case (Cons a rest)
    obtain s c1 where sd: "st_bind (record_operation_send h (ca_send_at a)) (\<lambda>_. client_send a)
        (count_attempt d c) = (s, c1)" by fastforce
    note t1 = transacts_send_step[OF sd]
    show ?thesis
    proof (cases s)
      case (Inl e)
      with Suc.prems Cons sd have "c' = c1" by simp
      with transacts_mono[OF t1] show ?thesis by simp
    next
      case (Inr u)
      obtain r1 cf m ev c2 where wl: "client_wait_loop d h n (new_matcher d) (ca_waits a) no_evidence
          (record_sent h (ca_sent_at a) c1) = (r1, cf, m, ev, c2)" by (metis prod_cases5)
      have t2: "transacts ?a 1 c c2"
        using transacts_trans[OF transacts_trans[OF t1 transacts_record_sent]
            transacts_stays[OF stays_wait_loop[OF wl]]] by simp
      then have t3: "transacts ?a 1 c (on_transactions f c2)" for f
        using transacts_trans[OF t2 transacts_on_transactions] by simp
      have more: "transacts ?a (Suc left) c x" if "transacts ?a 1 c x" for x
        using transacts_mono[OF that] by simp
      have rec: "transacts ?a (Suc left) c c'"
        if "client_attempts d h n attempts left rest x = (r, confirmation, c')" "transacts ?a 1 c x" for x
        using transacts_trans[OF that(2) Suc.IH[OF that(1)]] by simp
      show ?thesis
        using Suc.prems Cons sd Inr wl more[OF t2] more[OF t3]
        by (cases r1) (auto simp: Let_def intro: t2 t3 rec)
    qed
  qed
qed

lemma transacts_descriptor:
  assumes "execute_descriptor d attempts h env c = (r, confirmation, c')"
  shows "transacts (th_operation h) (nat attempts) c c'"
proof (cases "channel_ready c")
  case False
  with assms show ?thesis using transacts_mono[OF transacts_stays] by (auto simp: execute_descriptor_def)
next
  case True
  obtain r1 cf c1 where at1: "client_attempts d h (cl_generation c) attempts (nat attempts) env
      (set_active_request (Some (dsc_name d)) c) = (r1, cf, c1)" by (metis prod_cases3)
  have "transacts (th_operation h) (nat attempts) c c1"
    using transacts_trans[OF transacts_set_active transacts_attempts[OF at1]] by simp
  then have "transacts (th_operation h) (nat attempts) c (set_active_request None c1)"
    "transacts (th_operation h) (nat attempts) c c1"
    using transacts_trans[OF _ transacts_set_active] by (metis add.right_neutral)+
  with assms True at1 show ?thesis by (auto simp: execute_descriptor_def)
qed

end
