(* ===== verification/Client_Commands.thy ===== *)
theory Client_Commands
  imports Client_Facts
begin

text \<open>
  Commands through the client: an operation that was taken from the lane and executed is settled or
  back at the head of the queue, whatever frames, disconnects, cancellations and physical updates
  arrive meanwhile, and its sends stay within the budget.
\<close>

section \<open>One execution\<close>

text \<open>The operation exists, can be encoded, is only cancelled when settled and within its budget.\<close>

definition executable :: "nat \<Rightarrow> client \<Rightarrow> bool" where
  "executable i c \<longleftrightarrow>
     i < length (oc_store (cl_operations c)) \<and> cancel_settled (op (cl_operations c) i) \<and>
     encodable (cl_protocol c) (op_command (op (cl_operations c) i)) \<and>
     op_send_attempts (op (cl_operations c) i) \<le> command_send_attempts (cl_timings c)"

definition requeued_first :: "nat \<Rightarrow> client \<Rightarrow> bool" where
  "requeued_first i c \<longleftrightarrow> (case oc_pending (cl_operations c) of [] \<Rightarrow> False | j # rest \<Rightarrow> j = i)"

text \<open>How an execution may leave its operation.\<close>

fun execution_outcome :: "nat \<Rightarrow> unit progress \<Rightarrow> client \<Rightarrow> bool" where
  "execution_outcome i (Finished (Inr _)) c \<longleftrightarrow> op_done (cl_operations c) i"
| "execution_outcome i (Finished (Inl e)) c \<longleftrightarrow>
     op_done (cl_operations c) i \<or> requeued_first i c \<or> e = CancelledError"
| "execution_outcome i Blocked c \<longleftrightarrow> True"

text \<open>The same operation later: nothing is forgotten and the budget is kept.\<close>

definition follows :: "nat \<Rightarrow> client \<Rightarrow> client \<Rightarrow> bool" where
  "follows i c c' \<longleftrightarrow> executable i c' \<and> op_le (op (cl_operations c) i) (op (cl_operations c') i)"

lemma follows_trans: "follows i a b \<Longrightarrow> follows i b c \<Longrightarrow> follows i a c"
  by (auto simp: follows_def intro: op_le_trans)

lemma follows_evolves:
  assumes "executable i c" "evolves (cl_operations c) (cl_operations c')"
    and "cl_protocol c' = cl_protocol c" "cl_profile c' = cl_profile c"
  shows "follows i c c'"
proof -
  from assms(1,2) have len: "i < length (oc_store (cl_operations c'))"
    and ev: "op_evolves (op (cl_operations c) i) (op (cl_operations c') i)"
    by (auto simp: executable_def evolves_def op_def)
  from ev have le: "op_le (op (cl_operations c) i) (op (cl_operations c') i)"
    "op_send_attempts (op (cl_operations c') i) = op_send_attempts (op (cl_operations c) i)"
    "op_command (op (cl_operations c') i) = op_command (op (cl_operations c) i)"
    by (simp_all add: op_evolves_def op_le_def)
  from assms len le cancel_settled_evolves[OF _ ev] show ?thesis
    by (simp add: follows_def executable_def)
qed

lemma follows_operations:
  assumes "executable i c" "evolves (cl_operations c) s"
  shows "follows i c (c\<lparr>cl_operations := s\<rparr>)"
  using follows_evolves[OF assms(1), of "c\<lparr>cl_operations := s\<rparr>"] assms(2) by simp

text \<open>A transaction of the operation spends at most one send.\<close>

lemma follows_transaction:
  assumes "executable i c" "transacts (Some i) 1 c c'"
    and "op_send_attempts (op (cl_operations c) i) < command_send_attempts (cl_timings c)"
  shows "follows i c c'"
proof -
  from assms(1,2) have s: "op_sends 1 (op (cl_operations c) i) (op (cl_operations c') i)"
    and len: "i < length (oc_store (cl_operations c'))"
    by (auto simp: executable_def transacts_def sends_def op_def)
  then show ?thesis
    using assms by (auto simp: follows_def executable_def transacts_def tx_session_def op_sends_def
        op_le_def cancel_settled_def)
qed

lemma op_done_future: "op_done s i \<longleftrightarrow> op_future (op s i) \<noteq> None"
  by (simp add: op_done_def fut_done_def)

lemma follows_done: "follows i c c' \<Longrightarrow> op_done (cl_operations c) i \<Longrightarrow> op_done (cl_operations c') i"
  by (auto simp: follows_def op_le_def op_done_future)

lemma settle_done: "i < length (oc_store s) \<Longrightarrow> op_done (settle i v s) i"
  by (simp add: settle_def upd_op_def op_done_def op_def)

lemma on_operations_fail:
  assumes "executable i c"
  obtains s where "fail (cl_protocol c) t r i reason n (cl_operations c) = (Inr CommandDeadlineExceeded, s)"
    "follows i c (c\<lparr>cl_operations := s\<rparr>)" "op_done s i"
proof -
  from assms have "encodable (cl_protocol c) (op_command (op (cl_operations c) i))"
    by (simp add: executable_def)
  then obtain d where f: "fail (cl_protocol c) t r i reason n (cl_operations c) = (Inr CommandDeadlineExceeded,
      settle i (Failed CommandDeadlineExceeded) ((cl_operations c)\<lparr>oc_last_diagnostics := Some d\<rparr>))"
    by (rule fail_encodable)
  let ?s = "settle i (Failed CommandDeadlineExceeded) ((cl_operations c)\<lparr>oc_last_diagnostics := Some d\<rparr>)"
  have "evolves (cl_operations c) ?s"
    using evolves_fail[of "cl_operations c" "cl_protocol c" t r i reason n] f by simp
  moreover have "op_done ?s i" using assms by (intro settle_done) (simp add: executable_def)
  ultimately show ?thesis
    using that[of ?s] f follows_operations[OF assms, of ?s] by simp
qed

lemma deadline_failure_outcome:
  assumes "executable i c" "deadline_failure i c = (p, c')"
  shows "follows i c c' \<and> execution_outcome i p c'"
proof -
  obtain s where "fail (cl_protocol c) (cl_timings c) (cl_reducer c) i
      ''Command deadline expired during Bluetooth transaction'' (cl_generation c) (cl_operations c) =
      (Inr CommandDeadlineExceeded, s)"
    "follows i c (c\<lparr>cl_operations := s\<rparr>)" "op_done s i"
    by (rule on_operations_fail[OF assms(1)])
  with assms(2) show ?thesis by (auto simp: deadline_failure_def on_operations_def)
qed

lemma requeue_and_raise_outcome:
  assumes "executable i c" "requeue_and_raise i now e c = (p, c')"
  shows "follows i c c' \<and> execution_outcome i p c'"
proof (cases "op_done (cl_operations c) i")
  case True
  with assms follows_evolves[OF assms(1), of c] show ?thesis
    by (auto simp: requeue_and_raise_def requeue_for_reconciliation_def on_operations_def)
next
  case open_op: False
  show ?thesis
  proof (cases "op_deadline (op (cl_operations c) i) \<le> now")
    case True
    obtain s where "fail (cl_protocol c) (cl_timings c) (cl_reducer c) i
        ''Command deadline expired during recovery'' (cl_generation c) (cl_operations c) =
        (Inr CommandDeadlineExceeded, s)"
      "follows i c (c\<lparr>cl_operations := s\<rparr>)" "op_done s i"
      by (rule on_operations_fail[OF assms(1)])
    with assms(2) open_op True show ?thesis
      by (auto simp: requeue_and_raise_def requeue_for_reconciliation_def on_operations_def st_bind_def
          split: prod.splits sum.splits)
  next
    case False
    let ?s = "(cl_operations c)\<lparr>oc_pending := i # oc_pending (cl_operations c), oc_event := True\<rparr>"
    have "p = Finished (Inl e) \<and> c' = c\<lparr>cl_operations := ?s\<rparr>"
      using assms(2) open_op False
      by (simp add: requeue_and_raise_def requeue_for_reconciliation_def on_operations_def)
    then show ?thesis
      using follows_operations[OF assms(1), of ?s] by (simp add: evolves_same_store requeued_first_def)
  qed
qed

lemma confirm_operation_outcome:
  assumes "executable i c"
  shows "follows i c (confirm_operation i confirmation c)"
    "op_done (cl_operations (confirm_operation i confirmation c)) i"
proof -
  let ?c1 = "cl_apply_confirmed (op_command (op (cl_operations c) i)) confirmation i c"
  let ?c2 = "?c1\<lparr>cl_operations := complete i (cl_operations ?c1)\<rparr>"
  have "stays c ?c1" by (rule stays_apply_confirmed)
  then have f1: "follows i c ?c1"
    using follows_evolves[OF assms] by (simp add: stays_def same_session_def)
  then have e1: "executable i ?c1" by (simp add: follows_def)
  have "follows i ?c1 ?c2" by (rule follows_operations[OF e1]) (rule evolves_complete)
  with f1 have "follows i c ?c2" by (rule follows_trans)
  moreover have "op_done (cl_operations ?c2) i"
    using e1 by (simp add: executable_def complete_def settle_done op_done_def op_def)
      (metis op_def op_done_def settle_done)
  moreover have "follows i c c" using follows_evolves[OF assms, of c] by simp
  ultimately show "follows i c (confirm_operation i confirmation c)"
    "op_done (cl_operations (confirm_operation i confirmation c)) i"
    by (simp_all add: confirm_operation_def Let_def)
qed

lemma follows_set_active: "follows i c c' \<Longrightarrow> follows i c (set_active_request x c')"
  by (simp add: follows_def executable_def set_active_request_def on_transactions_def)

lemma prepare_for_send_outcome:
  assumes "executable i c"
  obtains (go) "on_operations (prepare_for_send (cl_protocol c) (cl_timings c) r i now n) c = (Inr True, c)"
      "op_send_attempts (op (cl_operations c) i) < command_send_attempts (cl_timings c)"
  | (stop) s where
      "on_operations (prepare_for_send (cl_protocol c) (cl_timings c) r i now n) c = (Inr False, c\<lparr>cl_operations := s\<rparr>)"
      "follows i c (c\<lparr>cl_operations := s\<rparr>)"
      "op_done s i \<or> command_send_attempts (cl_timings c) \<le> op_send_attempts (op (cl_operations c) i)"
proof (cases "op_done (cl_operations c) i \<or>
    command_send_attempts (cl_timings c) \<le> op_send_attempts (op (cl_operations c) i)")
  case True
  with follows_evolves[OF assms, of c] show ?thesis
    by (intro stop[of "cl_operations c"]) (auto simp: prepare_for_send_def on_operations_def)
next
  case fit: False
  show ?thesis
  proof (cases "op_deadline (op (cl_operations c) i) \<le> now")
    case True
    obtain s where s: "fail (cl_protocol c) (cl_timings c) r i ''Command deadline expired before retry'' n
        (cl_operations c) = (Inr CommandDeadlineExceeded, s)"
      "follows i c (c\<lparr>cl_operations := s\<rparr>)" "op_done s i"
      by (rule on_operations_fail[OF assms])
    with fit True show ?thesis
      by (intro stop[of s]) (simp_all add: prepare_for_send_def on_operations_def st_bind_def)
  next
    case False
    with fit show ?thesis by (intro go) (simp_all add: prepare_for_send_def on_operations_def)
  qed
qed

lemma execution_loop_outcome:
  assumes "execution_loop d i rounds c = (p, c')" "executable i c"
    and "op_done (cl_operations c) i \<or>
      op_send_attempts (op (cl_operations c) i) < command_send_attempts (cl_timings c)"
  shows "follows i c c' \<and> execution_outcome i p c'"
  using assms
proof (induction rounds arbitrary: c)
  case Nil
  then show ?case using follows_evolves[of i c c] by auto
next
  case (Cons r rs)
  from Cons.prems(2) show ?case
  proof (cases rule: prepare_for_send_outcome[where r = "cl_reducer c" and now = "or_now r" and n = "cl_generation c"])
    case (stop s)
    with Cons.prems follows_done[OF stop(2)] show ?thesis by auto
  next
    case go
    obtain result confirmation c1 where x:
        "execute_descriptor d 1 (command_hooks i c) (or_attempts r) c = (result, confirmation, c1)"
      by (metis prod_cases3)
    have hook: "th_operation (command_hooks i c) = Some i" by (simp add: command_hooks_def)
    have f1: "follows i c c1"
      using follows_transaction[OF Cons.prems(2) _ go(2)] transacts_descriptor[OF x] hook by simp
    then have e1: "executable i c1" "executable i (set_active_request y c1)" for y
      using follows_set_active[OF f1] by (simp_all add: follows_def)
    have fa: "follows i c (set_active_request y c1)" for y using f1 by (rule follows_set_active)
    have cancelled: "op_done (cl_operations c1) i" if "op_cancel_event (op (cl_operations c1) i)"
      using e1(1) that by (simp add: executable_def cancel_settled_def op_done_future)
    have same: "cl_operations (set_active_request y c1) = cl_operations c1" for y
      by (simp add: set_active_request_def on_transactions_def)
    have deadline: "follows i c b \<and> execution_outcome i q b"
      if "deadline_failure i (set_active_request y c1) = (q, b) \<or> deadline_failure i c1 = (q, b)" for y q b
      using that deadline_failure_outcome[OF e1(2)] deadline_failure_outcome[OF e1(1)] follows_trans[OF fa]
        follows_trans[OF f1] by blast
    note deadline_ends = deadline[OF disjI1] deadline[OF disjI2]
    note requeue = requeue_and_raise_outcome[OF e1(1)]
    show ?thesis
    proof (cases "or_end r")
      case TransactionEnds
      show ?thesis
      proof (cases result)
        case (TxFrames fs)
        with Cons.prems(1) go x TransactionEnds confirm_operation_outcome[OF e1(1), of confirmation] f1
        show ?thesis by (auto intro: follows_trans)
      next
        case (TxRaised e)
        show ?thesis
        proof (cases "e = TransactionTimeoutError")
          case True
          let ?s = "record_response_failure i (cl_generation c1) e (cl_operations c1)"
          let ?c2 = "c1\<lparr>cl_operations := ?s\<rparr>"
          have f2: "follows i c1 ?c2" by (rule follows_operations[OF e1(1) evolves_record_response_failure])
          then have e2: "executable i ?c2" by (simp add: follows_def)
          have f02: "follows i c ?c2" using f1 f2 by (rule follows_trans)
          show ?thesis
          proof (cases "should_retry_after_response_failure (cl_timings c1) i (or_after r) ?s")
            case retry: True
            have "execution_loop d i rs ?c2 = (p, c')"
              using Cons.prems(1) go x TransactionEnds TxRaised True retry by simp
            from Cons.IH[OF this e2] retry f02 show ?thesis
              by (auto simp: should_retry_after_response_failure_def intro: follows_trans)
          next
            case False
            have "requeue_and_raise i (or_after r) e ?c2 = (p, c')"
              using Cons.prems(1) go x TransactionEnds TxRaised True False by simp
            from requeue_and_raise_outcome[OF e2 this] f02 show ?thesis by (auto intro: follows_trans)
          qed
        next
          case other: False
          show ?thesis
            using Cons.prems(1) go x TransactionEnds TxRaised other f1 requeue
            by (auto split: if_splits intro: follows_trans dest: deadline_ends)
        qed
      qed (use Cons.prems(1) go x TransactionEnds f1 in auto)
    qed (use Cons.prems(1) go x f1 fa cancelled same in
        \<open>auto split: if_splits intro: follows_trans dest: deadline_ends\<close>)
  qed
qed

lemma prepare_for_execution_outcome:
  assumes "executable i c"
  obtains (go) "on_operations (prepare_for_execution (cl_protocol c) (cl_timings c) r i now n) c = (Inr True, c)"
      "op_send_attempts (op (cl_operations c) i) < command_send_attempts (cl_timings c)"
  | (settled) s where
      "on_operations (prepare_for_execution (cl_protocol c) (cl_timings c) r i now n) c =
         (Inr False, c\<lparr>cl_operations := s\<rparr>)"
      "follows i c (c\<lparr>cl_operations := s\<rparr>)" "op_done s i"
proof (cases "op_done (cl_operations c) i")
  case True
  with follows_evolves[OF assms, of c] show ?thesis
    by (intro settled[of "cl_operations c"]) (auto simp: prepare_for_execution_def on_operations_def)
next
  case open_op: False
  have failing: thesis
    if "on_operations (prepare_for_execution (cl_protocol c) (cl_timings c) r i now n) c =
        on_operations (st_bind (fail (cl_protocol c) (cl_timings c) r i reason n) (\<lambda>_. st_return False)) c"
    for reason
  proof -
    obtain s where "fail (cl_protocol c) (cl_timings c) r i reason n (cl_operations c) =
        (Inr CommandDeadlineExceeded, s)"
      "follows i c (c\<lparr>cl_operations := s\<rparr>)" "op_done s i"
      by (rule on_operations_fail[OF assms])
    with that show ?thesis by (intro settled[of s]) (simp_all add: on_operations_def st_bind_def)
  qed
  show ?thesis
  proof (cases "op_deadline (op (cl_operations c) i) \<le> now")
    case True
    with open_op show ?thesis by (intro failing) (simp add: prepare_for_execution_def on_operations_def)
  next
    case in_time: False
    show ?thesis
    proof (cases "\<not> op_force_fan_confirmation (op (cl_operations c) i) \<and>
        command_is_satisfied r (op_command (op (cl_operations c) i))")
      case True
      let ?s = "settle i Returned (cl_operations c)"
      have "op_done ?s i" using assms by (intro settle_done) (simp add: executable_def)
      with True in_time open_op follows_operations[OF assms evolves_settle, of i Returned] show ?thesis
        by (intro settled[of ?s]) (simp_all add: prepare_for_execution_def on_operations_def reconcile_def)
    next
      case False
      show ?thesis
      proof (cases "command_send_attempts (cl_timings c) \<le> op_send_attempts (op (cl_operations c) i)")
        case True
        with False in_time open_op show ?thesis
          by (intro failing) (auto simp: prepare_for_execution_def on_operations_def reconcile_def)
      next
        case fit: False
        with False in_time open_op show ?thesis
          by (intro go) (auto simp: prepare_for_execution_def on_operations_def reconcile_def)
      qed
    qed
  qed
qed

section \<open>Properties\<close>

text \<open>C9. A command the client executes is never lost: when the execution returns, its future is
  settled; when it raises, the future is settled, or the operation is the first in the queue again
  to be reconciled on the next connection, or the client itself is being cancelled.  In every case
  it was sent within its budget, and it keeps its command, deadline and any outcome it already had.\<close>

theorem executed_command_never_lost:
  assumes "execute_operation i now rounds c = (p, c')" and "executable i c"
  shows "execution_outcome i p c' \<and>
    op_send_attempts (op (cl_operations c') i) \<le> command_send_attempts (cl_timings c') \<and>
    op_le (op (cl_operations c) i) (op (cl_operations c') i)"
proof -
  have "follows i c c' \<and> execution_outcome i p c'"
    using assms(2)
  proof (cases rule: prepare_for_execution_outcome[where r = "cl_reducer c" and now = now and n = "cl_generation c"])
    case go
    from assms(2) have "encodable (cl_protocol c) (op_command (op (cl_operations c) i))"
      by (simp add: executable_def)
    then obtain d where "command_request (cl_protocol c) (op_command (op (cl_operations c) i)) None = Inr d"
      by (auto simp: encodable_def command_echo_def res_bind_eq_Inr)
    with assms(1) go have "execution_loop d i rounds c = (p, c')" by (simp add: execute_operation_def)
    from execution_loop_outcome[OF this assms(2)] go(2) show ?thesis by simp
  next
    case (settled s)
    with assms(1) show ?thesis by (auto simp: execute_operation_def)
  qed
  then show ?thesis by (auto simp: follows_def executable_def)
qed

definition fan_client :: client where
  "fan_client = (case new_client lane_protocol h7124_profile True True of
     Inr c \<Rightarrow> c\<lparr>cl_running := True, cl_status := Ready, cl_generation := 1,
                cl_channel := Some ((new_channel h7124_profile)\<lparr>cn_ready := True\<rparr>),
                cl_operations := taken_fan\<rparr>)"

definition one_wait :: "client_input list \<Rightarrow> operation_round" where
  "one_wait inputs =
     \<lparr>or_now = 101,
      or_attempts = [\<lparr>ca_send_at = 101, ca_send_inputs = [], ca_send = None, ca_sent_at = 102,
        ca_waits = [\<lparr>cw_time_left = True, cw_inputs = inputs, cw_cancelled = False,
                     cw_command_edge = False, cw_query_edge = False\<rparr>]\<rparr>],
      or_end = TransactionEnds, or_after = 103\<rparr>"

lemma fan_client_executable: "executable 0 fan_client"
proof -
  have "cl_protocol fan_client = lane_protocol" "op_command (op (cl_operations fan_client) 0) = SetFanMode LOW"
    by code_simp+
  moreover have "0 < length (oc_store (cl_operations fan_client))" "cancel_settled (op (cl_operations fan_client) 0)"
    "op_send_attempts (op (cl_operations fan_client) 0) \<le> command_send_attempts (cl_timings fan_client)"
    by code_simp+
  ultimately show ?thesis using low_encodable by (simp add: executable_def)
qed

theorem executed_command_never_lost_witness:
  "requeued_first 0 (snd (execute_operation 0 101 [one_wait [InDisconnect 1 0]] fan_client)) \<and>
   op_done (cl_operations (snd (execute_operation 0 101 [one_wait [InFrame 1 low_echo 102]] fan_client))) 0"
proof -
  let ?dropped = "execute_operation 0 101 [one_wait [InDisconnect 1 0]] fan_client"
  let ?answered = "execute_operation 0 101 [one_wait [InFrame 1 low_echo 102]] fan_client"
  have "fst ?dropped = Finished (Inl GattTransportError)" "fst ?answered = Finished (Inr ())"
    "\<not> op_done (cl_operations (snd ?dropped)) 0"
    by code_simp+
  with executed_command_never_lost[OF prod.collapse[symmetric] fan_client_executable, of 101 "[one_wait [InDisconnect 1 0]]"]
    executed_command_never_lost[OF prod.collapse[symmetric] fan_client_executable, of 101 "[one_wait [InFrame 1 low_echo 102]]"]
  show ?thesis by simp
qed

end
