(* ===== verification/Client_Runs.thy ===== *)
theory Client_Runs
  imports Client_Commands
begin

text \<open>
  Invariants of the client over whole runs.  An invariant that every handler keeps is kept by
  transactions, executions, sweeps, the ready loop, connection cycles and the recovery loop, whatever
  the environment does; the contract of the handlers is a locale, interpreted on what consumers of the
  client rely on: the frame queue is bounded and belongs to the current connection, observations are
  numbered without gap, and availability is only reported when it changes.
\<close>

declare essential_retries.simps [simp del] ready_loop.simps [simp del] recovery_loop.simps [simp del]

section \<open>Invariants of the handlers\<close>

text \<open>The part of the state an invariant may speak about; the rest is bookkeeping of the runner.\<close>

definition client_core :: "client \<Rightarrow> received_frame list \<times> int \<times> client_call list \<times> int \<times> bool option \<times> operations" where
  "client_core c = (cl_queue c, cl_generation c, cl_calls c, cl_observation_revision c,
     cl_reported_available c, cl_operations c)"

locale client_invariant =
  fixes I :: "client \<Rightarrow> bool"
  assumes input: "I c \<Longrightarrow> I (client_input_step c x)"
    and pop: "I c \<Longrightarrow> I (pop_queue c)"
    and lane: "I c \<Longrightarrow> grows (cl_operations c) s \<Longrightarrow> I (c\<lparr>cl_operations := s\<rparr>)"
    and process: "I c \<Longrightarrow> I (snd (process_plaintext_frame f m ctx c))"
    and confirm: "I c \<Longrightarrow> I (cl_apply_confirmed cmd conf i c)"
    and available: "I c \<Longrightarrow> I (set_available a e c)"
    and session: "I c \<Longrightarrow> I (begin_session c)"
    and neutral: "I c \<Longrightarrow> client_core c' = client_core c \<Longrightarrow> I c'"
begin

lemma inputs: "I c \<Longrightarrow> I (run_inputs is c)"
  by (induction "is" arbitrary: c) (auto intro: input)

lemma queries: "I c \<Longrightarrow> I (on_queries f c)"
  by (erule neutral) (simp add: client_core_def on_queries_def)

lemma executor: "I c \<Longrightarrow> I (on_transactions f c)"
  by (erule neutral) (simp add: client_core_def on_transactions_def)

lemma active_request: "I c \<Longrightarrow> I (set_active_request x c)"
  by (simp add: set_active_request_def executor)

lemma lane_method: "(\<And>s. grows s (snd (m s))) \<Longrightarrow> I c \<Longrightarrow> I (snd (on_operations m c))"
  by (auto simp: on_operations_def split: prod.split) (metis lane snd_conv)

lemma lane_result:
  "on_operations m c = (r, c') \<Longrightarrow> (\<And>s. grows s (snd (m s))) \<Longrightarrow> I c \<Longrightarrow> I c'"
  using lane_method[of m c] by simp

lemma next_frame: "client_next_frame a b w c = (r, c') \<Longrightarrow> I c \<Longrightarrow> I c'"
  by (auto simp: client_next_frame_def Let_def inputs pop split: if_splits)

lemma ready_work: "wait_for_ready_work w c = (r, c') \<Longrightarrow> I c \<Longrightarrow> I c'"
proof -
  assume w: "wait_for_ready_work w c = (r, c')" and inv: "I c"
  let ?c1 = "run_inputs (cw_inputs w) c"
  have i1: "I ?c1" "I (pop_queue ?c1)" using inv by (simp_all add: inputs pop)
  let ?p = "case queue_head ?c1 of None \<Rightarrow> (Inr (), pop_queue ?c1)
      | Some f \<Rightarrow> process_plaintext_frame f None unsolicited (pop_queue ?c1)"
  have "I (snd ?p)" using i1 by (auto simp: process split: option.split)
  moreover from this have "I ((snd ?p)\<lparr>cl_operations := (cl_operations (snd ?p))\<lparr>oc_event := False\<rparr>\<rparr>)"
    by (rule lane) (simp add: grows_same_store)
  ultimately show "I c'"
    using w i1 by (cases ?p) (auto simp: wait_for_ready_work_def Let_def st_bind_def split: sum.splits if_splits)
qed

lemma wait_loop: "client_wait_loop d h n m ws ev c = (r, confirmation, m', ev', c') \<Longrightarrow> I c \<Longrightarrow> I c'"
proof (induction ws arbitrary: m ev c)
  case (Cons w ws)
  obtain res c1 where nf: "client_next_frame (th_for_command h) (th_for_query h) w c = (res, c1)" by fastforce
  have i1: "I c1" using next_frame[OF nf Cons.prems(2)] .
  show ?case
  proof (cases "mt_complete m")
    case True
    with Cons.prems show ?thesis by simp
  next
    case open_matcher: False
    show ?thesis
    proof (cases res)
      case (Inl e)
      with Cons.prems(1) open_matcher nf i1 show ?thesis by simp
    next
      case res: (Inr received)
      obtain b s where cs: "consume_superseded_fan_echo n (rf_frame received) (cl_operations c1) = (b, s)"
        by fastforce
      let ?c2 = "c1\<lparr>cl_operations := s\<rparr>"
      have i2: "I ?c2"
        using lane[OF i1] grows_consume[of "cl_operations c1" n "rf_frame received"] cs by simp
      show ?thesis
      proof (cases "rf_generation received \<noteq> n \<or> b")
        case True
        with Cons.IH[OF _ i1] Cons.IH[OF _ i2] Cons.prems(1) open_matcher nf res cs show ?thesis
          by (auto split: if_splits)
      next
        case False
        then have gen: "rf_generation received = n" "\<not> b" by simp_all
        show ?thesis
        proof (cases "matcher_feed m (rf_frame received)")
          case (Inl e)
          with Cons.prems(1) open_matcher nf res cs gen i2 show ?thesis by simp
        next
          case (Inr y)
          obtain m1 result where y: "matcher_feed m (rf_frame received) = Inr (m1, result)"
            using Inr by (cases y) auto
          obtain p c3 where pr: "process_plaintext_frame received
              (if result = COMPLETE then Some (dsc_name d) else None) (th_context h) ?c2 = (p, c3)"
            by fastforce
          have "I c3" using process[OF i2] pr by (metis snd_conv)
          with Cons.IH[OF _ this] Cons.prems(1) open_matcher nf res cs gen y pr show ?thesis
            by (cases p) (auto simp: Let_def split: if_splits)
        qed
      qed
    qed
  qed
qed simp

lemma attempts: "client_attempts d h n a left env c = (r, confirmation, c') \<Longrightarrow> I c \<Longrightarrow> I c'"
proof (induction left arbitrary: env c)
  case (Suc left)
  have i0: "I (count_attempt d c)"
    using Suc.prems(2) by (rule neutral) (simp add: client_core_def count_attempt_def)
  show ?case
  proof (cases env)
    case Nil
    with Suc.prems i0 show ?thesis by simp
  next
    case (Cons att rest)
    obtain s c1 where sd: "st_bind (record_operation_send h (ca_send_at att)) (\<lambda>_. client_send att)
        (count_attempt d c) = (s, c1)" by fastforce
    have "I (snd (record_operation_send h (ca_send_at att) (count_attempt d c)))"
      using i0 by (auto simp: record_operation_send_def intro!: lane_method grows_record_send split: option.split)
    moreover have "I (snd (client_send att x))" if "I x" for x
      using that by (simp add: client_send_def inputs)
    ultimately have i1: "I c1"
      using sd by (auto simp: st_bind_def split: prod.splits sum.splits) (metis snd_conv)+
    have i2: "I (record_sent h (ca_sent_at att) c1)"
      using i1 by (rule neutral) (simp add: client_core_def record_sent_def)
    obtain r1 cf m ev c2 where wl: "client_wait_loop d h n (new_matcher d) (ca_waits att) no_evidence
        (record_sent h (ca_sent_at att) c1) = (r1, cf, m, ev, c2)" by (metis prod_cases5)
    have i3: "I c2" using wait_loop[OF wl i2] .
    show ?thesis
      using Suc.prems(1) Cons sd wl i1 i3 executor[OF i3] Suc.IH[OF _ i3] Suc.IH[OF _ executor[OF i3]]
      by (cases s; cases r1) (auto simp: Let_def)
  qed
qed simp

lemma descriptor: "execute_descriptor d a h env c = (r, confirmation, c') \<Longrightarrow> I c \<Longrightarrow> I c'"
  by (auto simp: execute_descriptor_def split: if_splits prod.splits
      dest!: attempts intro!: active_request executor)

lemma neutral_fields [intro]:
  assumes "I c"
  shows "I (count_batch c)" "I (update_initialization_failures fs c)" "I (update_refresh_failures fs c)"
    "I (defer_refresh ds x c)" "I (c\<lparr>cl_refresh_running := b\<rparr>)" "I (c\<lparr>cl_status := st\<rparr>)"
    "I (c\<lparr>cl_recovery := y\<rparr>)" "I (c\<lparr>cl_queries := z\<rparr>)" "I (cancel_recovery_reset c)"
  by (rule neutral[OF assms], simp add: client_core_def count_batch_def update_initialization_failures_def
      update_refresh_failures_def defer_refresh_def cancel_recovery_reset_def)+

lemma deadline: "deadline_failure i c = (p, c') \<Longrightarrow> I c \<Longrightarrow> I c'"
  by (auto simp: deadline_failure_def split: prod.splits sum.splits dest!: lane_result intro: grow_intros)

lemma requeue: "requeue_and_raise i now e c = (p, c') \<Longrightarrow> I c \<Longrightarrow> I c'"
  by (auto simp: requeue_and_raise_def split: prod.splits sum.splits dest!: lane_result intro: grow_intros)

lemma confirmed: "I c \<Longrightarrow> I (confirm_operation i confirmation c)"
  by (auto simp: confirm_operation_def Let_def intro!: lane confirm grow_intros)

lemma execution: "execution_loop d i rounds c = (p, c') \<Longrightarrow> I c \<Longrightarrow> I c'"
proof (induction rounds arbitrary: c)
  case (Cons r rs)
  obtain b c1 where pr: "on_operations (prepare_for_send (cl_protocol c) (cl_timings c) (cl_reducer c) i (or_now r)
      (cl_generation c)) c = (b, c1)" by fastforce
  have i1: "I c1" using lane_result[OF pr grows_prepare_for_send Cons.prems(2)] .
  obtain result confirmation c2 where x: "execute_descriptor d 1 (command_hooks i c1) (or_attempts r) c1 =
      (result, confirmation, c2)" by (metis prod_cases3)
  have i2: "I c2" "I (set_active_request y c2)" for y using descriptor[OF x i1] by (simp_all add: active_request)
  let ?c3 = "c2\<lparr>cl_operations := record_response_failure i (cl_generation c2) TransactionTimeoutError
      (cl_operations c2)\<rparr>"
  have i3: "I ?c3" using i2(1) by (rule lane) (rule grow_intros)
  show ?case
  proof (cases "b = Inr True")
    case False
    with Cons.prems pr i1 show ?thesis by (auto split: sum.splits bool.splits)
  next
    case True
    show ?thesis
    proof (cases "or_end r")
      case TransactionEnds
      show ?thesis
      proof (cases result)
        case (TxRaised e)
        with Cons.prems(1) pr True x TransactionEnds i2 Cons.IH[OF _ i3] show ?thesis
          by (auto simp: Let_def split: if_splits
              dest: requeue[OF _ i3] requeue[OF _ i2(1)] deadline[OF _ i2(1)])
      qed (use Cons.prems(1) pr True x TransactionEnds i2 in \<open>auto simp: confirmed\<close>)
    qed (use Cons.prems(1) pr True x i2 in \<open>auto split: if_splits dest: deadline\<close>)
  qed
qed simp

lemma operation: "execute_operation i now rounds c = (p, c') \<Longrightarrow> I c \<Longrightarrow> I c'"
  by (auto simp: execute_operation_def split: prod.splits sum.splits bool.splits
      dest!: lane_result[OF _ grows_prepare_for_execution] dest: execution)

lemma query_ended: "query_transaction_ended i result c = (p, c') \<Longrightarrow> I c \<Longrightarrow> I c'"
  by (auto simp: query_transaction_ended_def queries split: tx_result.splits if_splits)

lemma query_execution: "execute_air_quality_query i env ending c = (p, c') \<Longrightarrow> I c \<Longrightarrow> I c'"
proof -
  assume q: "execute_air_quality_query i env ending c = (p, c')" and inv: "I c"
  have fin: "I x \<Longrightarrow> I (query_finally i x)" for x by (simp add: query_finally_def Let_def queries)
  show "I c'"
  proof (cases "command_request (cl_protocol c) QueryAirQuality None")
    case (Inl e)
    with q inv show ?thesis by (simp add: execute_air_quality_query_def)
  next
    case (Inr d)
    obtain result confirmation c1 where x: "execute_descriptor d 1 (query_hooks i c) env c =
        (result, confirmation, c1)" by (metis prod_cases3)
    have i1: "I c1" "I (set_active_request y c1)" for y using descriptor[OF x inv] by (simp_all add: active_request)
    obtain p2 c2 where t: "query_transaction_ended i result c1 = (p2, c2)" by fastforce
    have i2: "I c2" using query_ended[OF t i1(1)] .
    show ?thesis
      using q Inr x t i1 i2
      by (cases ending) (auto simp: execute_air_quality_query_def Let_def queries fin split: if_splits)
  qed
qed

lemma initialization_run: "initialization_sweep ds env ess fs c = (p, c') \<Longrightarrow> I c \<Longrightarrow> I c'"
proof (induction ds env ess fs c arbitrary: p c' rule: initialization_sweep.induct)
  case (3 d ds v env ess fs c)
  let ?c0 = "if is_essential d c then count_batch c else c"
  have i0: "I ?c0" using 3(4) by auto
  obtain result confirmation c1 where x: "execute_descriptor d (initialization_attempts (cl_timings ?c0))
      (plain_hooks PUR_STARTUP) (sw_attempts v) ?c0 = (result, confirmation, c1)" by (metis prod_cases3)
  have i1: "I c1" "I (update_initialization_failures y c1)" for y using descriptor[OF x i0] by auto
  have i2: "I (run_inputs (sw_sleep v) y)" if "I y" for y using that by (rule inputs)
  show ?case
    using 3 x i1 i2[OF i1(1)] i2[OF i1(2)]
    by (cases result) (auto simp: Let_def split: if_splits)
qed auto

lemma essential_run: "essential_retries d env fs c = (p, c') \<Longrightarrow> I c \<Longrightarrow> I c'"
proof (induction env arbitrary: fs c)
  case (Cons v env)
  show ?case
  proof (cases "dsc_name d \<notin> set fs \<or> essential_initialization_max_batches (cl_timings c) \<le> cl_essential_batches c")
    case True
    with Cons.prems show ?thesis by (auto simp: essential_retries.simps split: if_splits)
  next
    case False
    obtain r c1 where w: "wait_for_ready_work (rs_wait v) c = (r, c1)" by fastforce
    have i1: "I c1" "I (count_batch c1)" using ready_work[OF w Cons.prems(2)] by auto
    obtain result confirmation c2 where x: "execute_descriptor d (initialization_attempts (cl_timings c1))
        (plain_hooks PUR_STARTUP) (rs_attempts v) (count_batch c1) = (result, confirmation, c2)"
      by (metis prod_cases3)
    have i2: "I c2" "I (update_initialization_failures y c2)" for y using descriptor[OF x i1(2)] by auto
    show ?thesis
      using Cons.prems(1) False w x i1 i2 Cons.IH[OF _ i2(2)]
      by (cases r; cases result) (auto simp: essential_retries.simps Let_def split: if_splits)
  qed
qed (auto simp: essential_retries.simps split: if_splits)

lemma initialization: "run_initialization ds env retries c = (p, c') \<Longrightarrow> I c \<Longrightarrow> I c'"
  by (auto simp: run_initialization_def split: prod.splits progress.splits sum.splits option.splits
      dest: initialization_run essential_run)

lemma refresh_run: "refresh_sweep ds env fs c = (p, c') \<Longrightarrow> I c \<Longrightarrow> I c'"
proof (induction ds env fs c arbitrary: p c' rule: refresh_sweep.induct)
  case (3 d ds v env fs c)
  obtain result confirmation c1 where x: "execute_descriptor d (refresh_attempts (cl_timings c))
      ((plain_hooks PUR_REFRESH)\<lparr>th_for_command := True, th_for_query := True\<rparr>) (sw_attempts v) c =
      (result, confirmation, c1)" by (metis prod_cases3)
  have i1: "I c1" "I (update_refresh_failures y c1)" "I (defer_refresh ys z c1)" for y ys z
    using descriptor[OF x 3(4)] by auto
  have i2: "I (run_inputs (sw_sleep v) y)" if "I y" for y using that by (rule inputs)
  show ?case
  proof (cases "has_pending (sw_now v) (cl_operations c) \<or> has_pending_air_quality_query c")
    case True
    with 3(3,4) show ?thesis by auto
  next
    case False
    show ?thesis
      using 3(1,2)[OF False] 3(3) False x i1 i2[OF i1(1)] i2[OF i1(2)]
      by (cases result) (auto simp: Let_def split: if_splits)
  qed
qed auto

lemma refresh: "run_refresh ds env c = (p, c') \<Longrightarrow> I c \<Longrightarrow> I c'"
proof -
  assume r: "run_refresh ds env c = (p, c')" and inv: "I c"
  have "I (update_refresh_failures fs (c\<lparr>cl_refresh_running := True, cl_refresh_pending := False,
      cl_refresh_resume := []\<rparr>))" for fs
    using inv by (rule neutral) (simp add: client_core_def update_refresh_failures_def)
  with r show "I c'"
    by (auto simp: run_refresh_def Let_def split: prod.splits if_splits dest!: refresh_run)
qed

lemma turn: "take_ready_turn v c = (p, c') \<Longrightarrow> I c \<Longrightarrow> I c'"
proof -
  assume t: "take_ready_turn v c = (p, c')" and inv: "I c"
  have poll: "I y" if "poll_device_state env x = (q, y)" "I x" for env x q y
    using that by (auto simp: poll_device_state_def split: sum.splits prod.splits tx_result.splits dest!: descriptor)
  have idle: "I y" if "idle_work v x = (q, y)" "I x" for x q y
    using that by (auto simp: idle_work_def Let_def inputs split: if_splits sum.splits prod.splits
        dest: refresh[OF _ inputs] poll ready_work)
  have exec: "I y" if "execute_and_release i v x = (q, y)" "I x" for i x q y
  proof -
    obtain q1 x1 where o: "execute_operation i (rt_execution_now v) (rt_rounds v) x = (q1, x1)" by fastforce
    have "I x1" using operation[OF o that(2)] .
    then have "I (x1\<lparr>cl_operations := release i (cl_operations x1)\<rparr>)" by (rule lane) (rule grow_intros)
    with \<open>I x1\<close> that(1) o show ?thesis by (auto simp: execute_and_release_def)
  qed
  obtain r c1 where tk: "on_operations (take_next (cl_protocol c) (cl_timings c) (cl_reducer c) (rt_command_now v)
      (cl_generation c)) c = (r, c1)" by fastforce
  have i1: "I c1" "I (c1\<lparr>cl_queries := s\<rparr>)" for s
    using lane_result[OF tk grows_take_next inv] by auto
  show "I c'"
    using t tk i1
    by (auto simp: take_ready_turn_def Let_def split: sum.splits option.splits prod.splits
        dest: exec query_execution[OF _ i1(2)] idle[OF _ i1(2)])
qed

lemma ready: "ready_loop env c = (p, c') \<Longrightarrow> I c \<Longrightarrow> I c'"
proof (induction env arbitrary: c)
  case (Cons v env)
  obtain q c1 where t: "take_ready_turn v c = (q, c1)" by fastforce
  have i1: "I c1" using turn[OF t Cons.prems(2)] .
  have step: "ready_loop (v # env) c = (if cl_stopping c then (Finished (Inr ()), c)
      else case q of Finished (Inr _) \<Rightarrow> ready_loop env c1 | _ \<Rightarrow> (q, c1))"
    by (simp add: ready_loop.simps t split: progress.split sum.split)
  from Cons.prems step i1 Cons.IH[OF _ i1] show ?case
    by (auto split: if_splits progress.splits sum.splits)
qed (auto simp: ready_loop.simps split: if_splits)

text \<open>The connection around the ready loop.\<close>

lemma establish: "connect_and_establish v c = (r, c') \<Longrightarrow> I c \<Longrightarrow> I c'"
proof -
  assume e: "connect_and_establish v c = (r, c')" and inv: "I c"
  let ?n = "\<lambda>x. x\<lparr>cl_status := Connecting\<rparr>"
  have n: "I (x\<lparr>cl_status := st, cl_channel := ch\<rparr>)" "I (x\<lparr>cl_channel := ch\<rparr>)"
    "I (x\<lparr>cl_transport_generation := g\<rparr>)" if "I x" for x st ch g
    by (rule neutral[OF that], simp add: client_core_def)+
  have i1: "I (run_inputs (sn_search v) (begin_session c))" (is "I ?a") using inv by (simp add: inputs session)
  have i2: "I ((run_inputs (sn_connecting v) (?n ?a))\<lparr>cl_transport_generation := g\<rparr>)" for g
    using neutral_fields(6)[OF i1] by (intro n inputs)
  show "I c'"
    using e i1 i2 by (auto simp: connect_and_establish_def Let_def intro!: n inputs split: sum.splits bool.splits if_splits)
qed

lemma becoming_ready: "I c \<Longrightarrow> I (become_ready now c)"
proof -
  assume inv: "I c"
  let ?c1 = "schedule_recovery_reset (cl_generation c)
      (c\<lparr>cl_status := Ready, cl_ever_ready := True, cl_ready_since := Some now\<rparr>)"
  have "I ?c1" using inv by (rule neutral) (simp add: client_core_def schedule_recovery_reset_def cancel_recovery_reset_def)
  then have "I (?c1\<lparr>cl_next_poll_due := t, cl_last_error := None\<rparr>)" for t
    by (rule neutral) (simp add: client_core_def)
  then have "I (set_available True None (on_transactions clear_timeout_summary
      (?c1\<lparr>cl_next_poll_due := t, cl_last_error := None\<rparr>)))" for t
    by (intro available executor)
  then show ?thesis
    unfolding become_ready_def Let_def by (rule neutral) (simp add: client_core_def)
qed

lemma connection: "connect_initialize_and_run v c = (p, c') \<Longrightarrow> I c \<Longrightarrow> I c'"
proof -
  assume c: "connect_initialize_and_run v c = (p, c')" and inv: "I c"
  obtain r c1 where e: "connect_and_establish v c = (r, c1)" by fastforce
  have i1: "I c1" "I (c1\<lparr>cl_status := Initializing\<rparr>)" using establish[OF e inv] by auto
  show "I c'"
  proof (cases r)
    case (Inl x)
    with c e i1 show ?thesis by (simp add: connect_initialize_and_run_def)
  next
    case (Inr u)
    with c e have c: "(case gp_initialization_requests (cl_protocol (c1\<lparr>cl_status := Initializing\<rparr>)) of
        Inl e \<Rightarrow> (Finished (Inl e), c1\<lparr>cl_status := Initializing\<rparr>)
      | Inr ds \<Rightarrow> (case run_initialization ds (sn_initialization v) (sn_retries v) (c1\<lparr>cl_status := Initializing\<rparr>) of
           (Blocked, c) \<Rightarrow> (Blocked, c)
         | (Finished (Inl e), c) \<Rightarrow> (Finished (Inl e), c)
         | (Finished (Inr _), c) \<Rightarrow> ready_loop (sn_turns v) (become_ready (sn_ready_at v) c))) = (p, c')"
      by (simp add: connect_initialize_and_run_def Let_def)
    show ?thesis
    proof (cases "gp_initialization_requests (cl_protocol (c1\<lparr>cl_status := Initializing\<rparr>))")
      case (Inl x)
      with c i1 show ?thesis by simp
    next
      case (Inr ds)
      obtain q c2 where t: "run_initialization ds (sn_initialization v) (sn_retries v)
          (c1\<lparr>cl_status := Initializing\<rparr>) = (q, c2)" by fastforce
      have i2: "I c2" using initialization[OF t i1(2)] .
      from c Inr t i2 ready[OF _ becoming_ready[OF i2]] show ?thesis
        by (auto split: progress.splits sum.splits)
    qed
  qed
qed

section \<open>Recovery\<close>

lemma wake: "I c \<Longrightarrow> I (clear_command_wake c)"
  unfolding clear_command_wake_def by (erule lane) (simp add: grows_same_store)

lemma floor_hold: "hold_floor plan v b r c = (r', c') \<Longrightarrow> I c \<Longrightarrow> I c'"
  by (auto simp: hold_floor_def Let_def inputs wake split: if_splits)

lemma backoff: "client_backoff plan v c = (r, c') \<Longrightarrow> I c \<Longrightarrow> I c'"
  by (auto simp: client_backoff_def Let_def split: if_splits prod.splits
      intro!: neutral_fields(7) wake inputs dest!: floor_hold intro: wake inputs)

lemma backing_off: "plan_and_back_off v c = (r, c') \<Longrightarrow> I c \<Longrightarrow> I c'"
  by (auto simp: plan_and_back_off_def Let_def split: if_splits sum.splits prod.splits dest!: backoff)

lemma failure: "I c \<Longrightarrow> I (record_cycle_failure now e c)"
proof -
  assume inv: "I c"
  then have "I (c\<lparr>cl_last_error := x, cl_recovery := y\<rparr>)" for x y
    by (rule neutral) (simp add: client_core_def)
  then show ?thesis by (auto simp: record_cycle_failure_def Let_def available)
qed

lemma releasing: "I c \<Longrightarrow> I (release_connection v c)"
proof -
  assume inv: "I c"
  then have "I ((cancel_recovery_reset c)\<lparr>cl_ready_since := None, cl_channel := None\<rparr>)"
    by (rule neutral) (simp add: client_core_def cancel_recovery_reset_def)
  then show ?thesis by (auto simp: release_connection_def Let_def intro!: inputs)
qed

lemma cycle: "connection_cycle v c = (r, c') \<Longrightarrow> I c \<Longrightarrow> I c'"
  by (auto simp: connection_cycle_def split: prod.splits progress.splits sum.splits if_splits
      dest!: connection dest: backing_off intro: releasing failure)

lemma recovery: "recovery_loop env c = (r, c') \<Longrightarrow> I c \<Longrightarrow> I c'"
proof (induction env arbitrary: c)
  case (Cons v env)
  obtain q c1 where t: "connection_cycle v c = (q, c1)" by fastforce
  have i1: "I c1" using cycle[OF t Cons.prems(2)] .
  have step: "recovery_loop (v # env) c = (if cl_stopping c then (CycleStopped, c)
      else case q of NextCycle x \<Rightarrow> recovery_loop env c1 | _ \<Rightarrow> (q, c1))"
    by (simp add: recovery_loop.simps t split: cycle_end.split)
  from Cons.prems step i1 Cons.IH[OF _ i1] show ?case
    by (auto split: if_splits cycle_end.splits)
qed (auto simp: recovery_loop.simps split: if_splits)

lemma client_runs: "run_client env c = (r, c') \<Longrightarrow> I c \<Longrightarrow> I c'"
  unfolding run_client_def by (erule recovery) (rule neutral_fields)

end

section \<open>Callbacks and the frame queue\<close>

text \<open>What the consumers of the client are told, in order.\<close>

definition call_observations :: "client_call list \<Rightarrow> provenance list" where
  "call_observations cs =
     concat (map (\<lambda>x. case x of ObservationCallback ob \<Rightarrow> [ob_provenance ob] | _ \<Rightarrow> []) cs)"

definition call_availabilities :: "client_call list \<Rightarrow> bool list" where
  "call_availabilities cs =
     concat (map (\<lambda>x. case x of AvailabilityCallback available e \<Rightarrow> [available] | _ \<Rightarrow> []) cs)"

definition queue_bounded :: "client \<Rightarrow> bool" where
  "queue_bounded c \<longleftrightarrow> length (cl_queue c) \<le> MAX_QUEUED_FRAMES \<and>
     list_all (\<lambda>f. rf_generation f = cl_generation c) (cl_queue c)"

definition observations_ordered :: "client \<Rightarrow> bool" where
  "observations_ordered c \<longleftrightarrow> 0 \<le> cl_observation_revision c \<and>
     map ob_revision (call_observations (cl_calls c)) = [1..cl_observation_revision c] \<and>
     sorted (map ob_generation (call_observations (cl_calls c))) \<and>
     list_all (\<lambda>ob. ob_generation ob \<le> cl_generation c) (call_observations (cl_calls c))"

definition availability_reported :: "client \<Rightarrow> bool" where
  "availability_reported c \<longleftrightarrow>
     (let reports = call_availabilities (cl_calls c)
      in distinct_adj reports \<and>
         cl_reported_available c = (if reports = [] then None else Some (last reports)))"

definition client_inv :: "client \<Rightarrow> bool" where
  "client_inv c \<longleftrightarrow> queue_bounded c \<and> observations_ordered c \<and> availability_reported c"

lemma calls_snoc [simp]:
  "call_observations (cs @ [StateCallback st]) = call_observations cs"
  "call_observations (cs @ [AvailabilityCallback a e]) = call_observations cs"
  "call_observations (cs @ [ObservationCallback ob]) = call_observations cs @ [ob_provenance ob]"
  "call_availabilities (cs @ [StateCallback st]) = call_availabilities cs"
  "call_availabilities (cs @ [AvailabilityCallback a e]) = call_availabilities cs @ [a]"
  "call_availabilities (cs @ [ObservationCallback ob]) = call_availabilities cs"
  by (simp_all add: call_observations_def call_availabilities_def)

lemma client_inv_cong:
  assumes "client_inv c" "cl_queue c' = cl_queue c" "cl_generation c' = cl_generation c"
    "cl_calls c' = cl_calls c" "cl_observation_revision c' = cl_observation_revision c"
    "cl_reported_available c' = cl_reported_available c"
  shows "client_inv c'"
  using assms by (simp add: client_inv_def queue_bounded_def observations_ordered_def availability_reported_def)

lemma client_inv_lane [intro]: "client_inv c \<Longrightarrow> client_inv (snd (on_operations m c))"
  by (erule client_inv_cong) (auto simp: on_operations_def split: prod.split)

lemma client_inv_lane_result: "on_operations m c = (r, c') \<Longrightarrow> client_inv c \<Longrightarrow> client_inv c'"
  using client_inv_lane[of c m] by simp

lemma client_inv_pop [intro]: "client_inv c \<Longrightarrow> client_inv (pop_queue c)"
  by (cases "cl_queue c")
    (auto simp: client_inv_def queue_bounded_def observations_ordered_def availability_reported_def pop_queue_def)

lemma client_inv_empty_queue: "client_inv c \<Longrightarrow> client_inv (c\<lparr>cl_queue := []\<rparr>)"
  by (simp add: client_inv_def queue_bounded_def observations_ordered_def availability_reported_def)

lemma client_inv_state_call:
  "client_inv c \<Longrightarrow> client_inv (cl_call (StateCallback st) c)"
  by (simp add: client_inv_def queue_bounded_def observations_ordered_def availability_reported_def cl_call_def)

lemma client_inv_available [intro]: "client_inv c \<Longrightarrow> client_inv (set_available a e c)"
  by (auto simp: client_inv_def queue_bounded_def observations_ordered_def availability_reported_def
      set_available_def cl_call_def Let_def distinct_adj_append_iff)

lemma client_inv_observation:
  assumes "client_inv c" "ob_revision (ob_provenance ob) = cl_observation_revision c + 1"
    "ob_generation (ob_provenance ob) = cl_generation c"
  shows "client_inv (cl_call (ObservationCallback ob) (c\<lparr>cl_observation_revision := cl_observation_revision c + 1\<rparr>))"
  using assms
  by (auto simp: client_inv_def queue_bounded_def observations_ordered_def availability_reported_def cl_call_def
      upto_rec2 sorted_append list_all_iff)

lemma semantic_observation_provenance:
  "semantic_observation p x ev prev mode m k gen ctx now = Some ob \<Longrightarrow>
     ob_revision (ob_provenance ob) = k \<and> ob_generation (ob_provenance ob) = gen"
  by (auto simp: semantic_observation_def Let_def split: event.splits option.splits if_splits)

lemma client_inv_publish [intro]:
  "client_inv c \<Longrightarrow> client_inv (publish_semantic_observation ev prev m gen ctx now c)"
  by (auto simp: publish_semantic_observation_def Let_def split: option.split
      dest!: semantic_observation_provenance intro!: client_inv_observation)

lemma client_inv_reduce [intro]: "client_inv c \<Longrightarrow> client_inv (snd (reduce_and_publish ev f m ctx c))"
  by (auto simp: reduce_and_publish_def Let_def split: sum.split prod.split
      intro!: client_inv_publish client_inv_state_call elim: client_inv_cong)

lemma client_inv_process: "client_inv c \<Longrightarrow> client_inv (snd (process_plaintext_frame f m ctx c))"
proof -
  assume inv: "client_inv c"
  have "client_inv (snd (consume_echo g x c))" for g x
    unfolding consume_echo_def using inv by (rule client_inv_lane)
  moreover have "client_inv (snd (yield_to_physical ev x m g y))" if "client_inv y" for ev x g y
    using that by (auto simp: yield_to_physical_def Let_def)
  ultimately show ?thesis
    using inv by (auto simp: process_plaintext_frame_def st_bind_def split: prod.splits sum.splits)
      (metis snd_conv client_inv_reduce)+
qed

lemma client_inv_publish_command:
  "client_inv c \<Longrightarrow> client_inv (publish_command_fan_observation mode received j origin c)"
  by (auto simp: publish_command_fan_observation_def Let_def intro: client_inv_observation)

lemma client_inv_confirmed: "client_inv c \<Longrightarrow> client_inv (cl_apply_confirmed cmd confirmation i c)"
proof -
  assume inv: "client_inv c"
  obtain r red where a: "apply_confirmed_command cmd (cl_generation c) (cl_reducer c) = (r, red)" by fastforce
  let ?c = "if srd_state_changed red then cl_call (StateCallback (srd_state red)) (c\<lparr>cl_reducer := r\<rparr>)
      else c\<lparr>cl_reducer := r\<rparr>"
  have "client_inv (c\<lparr>cl_reducer := r\<rparr>)" using inv by (rule client_inv_cong) simp_all
  then have "client_inv ?c" by (simp add: client_inv_state_call)
  with \<open>client_inv ?c\<close> a show ?thesis
    by (auto simp: cl_apply_confirmed_def Let_def client_inv_publish_command split: command.split option.split)
qed

lemma client_inv_disconnected: "client_inv c \<Longrightarrow> client_inv (on_disconnected s t c)"
  by (erule client_inv_cong)
    (simp_all add: on_disconnected_def invalidate_connection_scoped_state_def on_queries_def)

lemma client_inv_frame: "client_inv c \<Longrightarrow> client_inv (snd (on_plaintext_frame g f now c))"
proof -
  assume inv: "client_inv c"
  have overflow: "client_inv ((on_disconnected g t (c\<lparr>cl_queue_overflows := n\<rparr>))\<lparr>cl_queue := []\<rparr>)" for t n
    using client_inv_cong[OF inv, of "c\<lparr>cl_queue_overflows := n\<rparr>"]
    by (intro client_inv_empty_queue client_inv_disconnected) simp
  have same: "cl_queue (snd (reserve_echo g f y)) = cl_queue y"
    "cl_generation (snd (reserve_echo g f y)) = cl_generation y"
    "cl_queue (snd (on_operations m y)) = cl_queue y"
    "cl_generation (snd (on_operations m y)) = cl_generation y" for y m
    by (auto simp: reserve_echo_def on_operations_def split: prod.splits)
  have reserve: "client_inv (snd (reserve_echo g f y))" if "client_inv y" for y
    using that by (auto simp: reserve_echo_def)
  have queued: "client_inv (y\<lparr>cl_plaintext_rx_count := k, cl_queue := q @ [x]\<rparr>)"
    if "client_inv y" "cl_queue y = q" "length q < MAX_QUEUED_FRAMES" "rf_generation x = cl_generation y" for x y k q
    using that by (auto simp: client_inv_def queue_bounded_def observations_ordered_def availability_reported_def)
  show ?thesis
  proof (cases "g \<noteq> cl_generation c \<or> cl_stopping c \<or> cl_disconnected c \<or> MAX_QUEUED_FRAMES \<le> length (cl_queue c)")
    case True
    with inv overflow show ?thesis by (auto simp: on_plaintext_frame_def Let_def)
  next
    case False
    obtain r1 c1 where 1: "reserve_echo g f c = (r1, c1)" by fastforce
    obtain r2 c2 where 2: "consume_echo g f c1 = (r2, c2)" by fastforce
    obtain r3 c3 where 3: "on_operations (record_fan_frame (cl_protocol c2) g f (receipt_phase c2) now) c2 = (r3, c3)"
      by fastforce
    have i1: "client_inv c1" using reserve[OF inv] 1 by simp
    have i2: "client_inv c2" using client_inv_lane_result i1 2 unfolding consume_echo_def by blast
    have i3: "client_inv c3" using client_inv_lane_result[OF 3 i2] .
    have "cl_queue c3 = cl_queue c" "cl_generation c3 = cl_generation c"
      using same 1 2 3 by (metis snd_conv consume_echo_def)+
    with False i1 i2 i3 1 2 3 show ?thesis
      by (cases r1; cases r2; cases r3) (auto simp: on_plaintext_frame_def st_bind_def intro!: queued)
  qed
qed

lemma client_inv_input: "client_inv c \<Longrightarrow> client_inv (client_input_step c x)"
proof (cases x)
  case (InQuery now)
  assume "client_inv c"
  then show ?thesis unfolding InQuery
    by (rule client_inv_cong) (auto simp: query_begins_def on_queries_def Let_def split: prod.split)
qed (auto simp: client_inv_frame client_inv_disconnected execute_begins_def execute_cancelled_def
  execute_reports_deadline_def query_deadline_def cancel_air_quality_query_def on_queries_def
  recovery_reset_fires_def shutdown_begins_def Let_def split: option.split elim: client_inv_cong)

lemma client_inv_session: "client_inv c \<Longrightarrow> client_inv (begin_session c)"
  by (auto simp: begin_session_def Let_def on_queries_def invalidate_connection_scoped_state_def client_inv_def
      queue_bounded_def observations_ordered_def availability_reported_def elim!: list.pred_mono_strong)

interpretation bookkeeping: client_invariant client_inv
proof unfold_locales
  fix c c'
  assume "client_inv c" "client_core c' = client_core c"
  then show "client_inv c'" by (auto simp: client_core_def elim: client_inv_cong)
qed (auto simp: client_inv_input client_inv_process client_inv_confirmed client_inv_session elim: client_inv_cong)

lemma client_inv_new: "new_client g p b observed = Inr c \<Longrightarrow> client_inv (client_start c)"
  by (auto simp: new_client_def client_start_def client_inv_def queue_bounded_def observations_ordered_def
      availability_reported_def call_observations_def call_availabilities_def split: if_splits)

end
