(* ===== verification/Client_Contract.thy ===== *)
theory Client_Contract
  imports Client_Runs
begin

text \<open>
  What the runs of the client promise: its transactions are runs of the executor, initialization ends
  with the essential request answered, recovery reports the device unavailable, and the callbacks of a
  whole run are ordered and bounded.
\<close>

section \<open>The client's transactions are runs of the executor\<close>

text \<open>The frames the executor passed to \<open>on_match\<close>.\<close>

definition confirmations :: "tx_call list \<Rightarrow> received_frame list" where
  "confirmations calls = concat (map (\<lambda>x. case x of CallMatch received \<Rightarrow> [received] | _ \<Rightarrow> []) calls)"

lemma confirmations_simps [simp]:
  "confirmations [] = []" "confirmations (xs @ ys) = confirmations xs @ confirmations ys"
  "confirmations (CallMatch received # calls) = received # confirmations calls"
  "confirmations (CallReduce received matched # calls) = confirmations calls"
  "confirmations (CallAttempt # calls) = confirmations calls"
  "confirmations (CallSend f # calls) = confirmations calls"
  "confirmations (CallSent # calls) = confirmations calls"
  by (simp_all add: confirmations_def)

definition confirms :: "tx_result \<Rightarrow> received_frame option \<Rightarrow> tx_call list \<Rightarrow> bool" where
  "confirms r confirmation calls \<longleftrightarrow>
     confirmations calls = (case confirmation of None \<Rightarrow> [] | Some received \<Rightarrow> [received]) \<and>
     (confirmation \<noteq> None \<longleftrightarrow> (\<exists>fs. r = TxFrames fs))"

lemma not_frames_escape [simp]: "tx_escape e \<noteq> TxFrames fs" "TxFrames fs \<noteq> tx_escape e"
  by (simp_all add: tx_escape_def)

lemma client_wait_loop_refines:
  "client_wait_loop d h n m ws ev c = (r, confirmation, m', ev', c') \<Longrightarrow>
     \<exists>tws calls. tx_wait_loop d m tws ev = (r, m', ev', calls) \<and> confirms r confirmation calls"
proof (induction ws arbitrary: m ev c)
  case Nil
  then show ?case by (intro exI[of _ "[]"]) (auto simp: confirms_def)
next
  case (Cons w ws)
  show ?case
  proof (cases "mt_complete m")
    case True
    with Cons.prems show ?thesis by (intro exI[of _ "[]"]) (auto simp: confirms_def)
  next
    case open_matcher: False
    then show ?thesis
    proof (cases rule: client_wait_loop_cases[where d = d and h = h and n = n and w = w and ws = ws and ev = ev and c = c])
      case (ends e c1)
      with Cons.prems open_matcher show ?thesis by (intro exI[of _ "[Interrupts e]"]) (auto simp: confirms_def)
    next
      case (skipped c1)
      with Cons.IH[of m ev c1] Cons.prems show ?thesis by simp
    next
      case (refused received e c1)
      with Cons.prems open_matcher show ?thesis
        by (intro exI[of _ "[Arrives received None]"]) (auto simp: confirms_def Let_def)
    next
      case (raised received e m1 result c1)
      with Cons.prems open_matcher show ?thesis
        by (intro exI[of _ "[Arrives received (Some e)]"]) (auto simp: confirms_def Let_def)
    next
      case (taken received m1 result c0 c1)
      show ?thesis
      proof (cases "result = COMPLETE")
        case True
        with taken Cons.prems open_matcher show ?thesis
          by (intro exI[of _ "[Arrives received None]"]) (auto simp: confirms_def Let_def)
      next
        case False
        let ?ev = "count_ignored result (rf_frame received) (ev\<lparr>te_received := te_received ev + 1\<rparr>)"
        from False taken(6) Cons.prems have "client_wait_loop d h n m1 ws ?ev c1 = (r, confirmation, m', ev', c')"
          by (simp add: Let_def)
        from Cons.IH[OF this] obtain tws calls where
          "tx_wait_loop d m1 tws ?ev = (r, m', ev', calls)" "confirms r confirmation calls" by blast
        with False taken(3) open_matcher show ?thesis
          by (intro exI[of _ "Arrives received None # tws"]) (auto simp: confirms_def Let_def)
      qed
    qed
  qed
qed

lemma stays_transactions: "stays c c' \<Longrightarrow> cl_transactions c' = cl_transactions c"
  by (simp add: stays_def same_session_def)

lemma send_step_transactions:
  assumes "st_bind (record_operation_send h now) (\<lambda>_. client_send x) (count_attempt d c) = (r, c')"
  shows "cl_transactions c' = cl_transactions c"
proof -
  have "cl_transactions (snd (on_operations m y)) = cl_transactions y" for m :: "(unit, operations) st" and y
    by (simp add: on_operations_def split: prod.split)
  then have "cl_transactions (snd (record_operation_send h now y)) = cl_transactions y" for y
    by (simp add: record_operation_send_def split: option.split)
  moreover have "cl_transactions (snd (client_send x y)) = cl_transactions y" for y
    by (simp add: client_send_def stays_transactions[OF stays_inputs])
  moreover have "cl_transactions (count_attempt d c) = cl_transactions c" by (simp add: count_attempt_def)
  ultimately show ?thesis
    using assms by (auto simp: st_bind_def split: prod.splits sum.splits) (metis snd_conv)+
qed

lemma client_attempts_refine:
  "client_attempts d h n attempts left env c = (r, confirmation, c') \<Longrightarrow>
     \<exists>tenv calls. tx_attempts d attempts left tenv (cl_transactions c) = (r, cl_transactions c', calls) \<and>
       confirms r confirmation calls"
proof (induction left arbitrary: env c)
  case 0
  then show ?case by (auto simp: confirms_def)
next
  case (Suc left)
  show ?case
  proof (cases env)
    case Nil
    with Suc.prems show ?thesis
      by - (rule exI[of _ "[]"], auto simp: confirms_def count_attempt_def)
  next
    case (Cons a rest)
    obtain s c1 where sd: "st_bind (record_operation_send h (ca_send_at a)) (\<lambda>_. client_send a)
        (count_attempt d c) = (s, c1)" by fastforce
    note t1 = send_step_transactions[OF sd]
    show ?thesis
    proof (cases s)
      case (Inl e)
      with Suc.prems Cons sd t1 show ?thesis
        by (intro exI[of _ "[\<lparr>ta_send = Some e, ta_waits = []\<rparr>]"]) (auto simp: confirms_def)
    next
      case (Inr u)
      obtain r1 cf m ev c2 where wl: "client_wait_loop d h n (new_matcher d) (ca_waits a) no_evidence
          (record_sent h (ca_sent_at a) c1) = (r1, cf, m, ev, c2)" by (metis prod_cases5)
      have t2: "cl_transactions c2 = cl_transactions c"
        using stays_transactions[OF stays_wait_loop[OF wl]] t1 by (simp add: record_sent_def)
      from client_wait_loop_refines[OF wl] obtain tws calls1 where
        tw: "tx_wait_loop d (new_matcher d) tws no_evidence = (r1, m, ev, calls1)" "confirms r1 cf calls1" by blast
      let ?a = "\<lparr>ta_send = None, ta_waits = tws\<rparr>"
      show ?thesis
      proof (cases "r1 = TxTimeout \<or> r1 = TxLoopLeft")
        case False
        with Suc.prems Cons sd Inr wl t2 tw show ?thesis
          by (intro exI[of _ "[?a]"])
            (cases r1; auto simp: confirms_def on_transactions_def clear_timeout_summary_def)
      next
        case True
        then obtain x where x: "client_attempts d h n attempts left rest x = (r, confirmation, c')"
          "cl_transactions x = (if r1 = TxTimeout then (cl_transactions c)\<lparr>tx_last_timeout_summary := Some (dsc_name d,
              \<lparr>ts_attempt = attempts - int left, ts_attempts = attempts, ts_received = te_received ev,
               ts_matched = int (length (mt_frames m)), ts_ignored = te_ignored ev, ts_sample = te_sample ev\<rparr>)\<rparr>
            else cl_transactions c)"
          using Suc.prems Cons sd Inr wl t2 by (auto simp: Let_def on_transactions_def)
        from Suc.IH[OF x(1)] obtain tenv calls where
          "tx_attempts d attempts left tenv (cl_transactions x) = (r, cl_transactions c', calls)"
          "confirms r confirmation calls" by blast
        with True x(2) tw show ?thesis
          by (intro exI[of _ "?a # tenv"]) (auto simp: confirms_def Let_def)
      qed
    qed
  qed
qed


section \<open>Recovery\<close>

text \<open>What no input changes: the last error, the absence of a channel, the reported unavailability and
  the request to stop.\<close>

definition quiet :: "client \<Rightarrow> client \<Rightarrow> bool" where
  "quiet c c' \<longleftrightarrow> cl_last_error c' = cl_last_error c \<and> cl_status c' = cl_status c \<and>
     cl_ever_ready c' = cl_ever_ready c \<and> (cl_stopping c \<longrightarrow> cl_stopping c') \<and>
     (cl_channel c = None \<longrightarrow> cl_channel c' = None) \<and>
     (cl_reported_available c = Some False \<longrightarrow> cl_reported_available c' = Some False)"

lemma quiet_trans [trans]: "quiet a b \<Longrightarrow> quiet b c \<Longrightarrow> quiet a c"
  by (simp add: quiet_def)

lemma quiet_refl [simp, intro]: "quiet c c"
  by (simp add: quiet_def)

lemma quiet_operations [simp]: "quiet c (snd (on_operations m c))"
  by (simp add: quiet_def on_operations_def split: prod.split)

lemma quiet_disconnected: "quiet c (on_disconnected s t c)"
  by (simp add: quiet_def on_disconnected_def invalidate_connection_scoped_state_def on_queries_def Let_def)

lemma quiet_frame: "quiet c (snd (on_plaintext_frame g f now c))"
proof -
  let ?keep = "\<lambda>_ c. (Inr (), c\<lparr>cl_plaintext_rx_count := cl_plaintext_rx_count c + 1,
      cl_queue := cl_queue c @ [\<lparr>rf_frame = f, rf_generation = g, rf_received_at = now\<rparr>]\<rparr>)"
  have bind: "quiet y (snd (st_bind m k y))"
    if "\<And>y. quiet y (snd (m y))" "\<And>x y. quiet y (snd (k x y))" for m :: "('a, client) st" and k :: "'a \<Rightarrow> ('b, client) st" and y
    by (rule st_bind_preserves[where R = quiet]) (use that quiet_trans in auto)
  have overflow: "quiet c (set_available False e ((on_disconnected s t (c\<lparr>cl_queue_overflows := n\<rparr>))\<lparr>cl_queue := []\<rparr>))"
    for s t n e
    using quiet_disconnected[of "c\<lparr>cl_queue_overflows := n\<rparr>" s t]
    by (auto simp: quiet_def set_available_def cl_call_def)
  have "quiet y (snd (reserve_echo g f y))" "quiet y (snd (consume_echo g f y))"
    "quiet y (snd (?keep u y))" for y and u :: unit
    by (auto simp: reserve_echo_def consume_echo_def) (simp add: quiet_def)
  then show ?thesis
    using overflow by (auto simp: on_plaintext_frame_def Let_def intro!: bind)
qed

lemma quiet_input: "quiet c (client_input_step c x)"
proof (cases x)
  case (InQuery now)
  show ?thesis unfolding InQuery
    by (auto simp: quiet_def query_begins_def on_queries_def Let_def split: prod.split)
next
  case (InDisconnect s t)
  then show ?thesis by (simp add: quiet_disconnected)
qed (auto simp: quiet_frame execute_begins_def execute_cancelled_def execute_reports_deadline_def,
  auto simp: quiet_def query_deadline_def cancel_air_quality_query_def on_queries_def
    recovery_reset_fires_def shutdown_begins_def Let_def split: option.split)

lemma quiet_inputs: "quiet c (run_inputs is c)"
  by (induction "is" arbitrary: c) (auto intro: quiet_trans quiet_input)

lemma quiet_floor: "hold_floor plan v b r c = (r', c') \<Longrightarrow> quiet c c'"
  using quiet_inputs[of c "bo_floor_inputs v"]
  by (auto simp: hold_floor_def Let_def clear_command_wake_def quiet_def split: if_splits)

lemma quiet_backoff:
  assumes "client_backoff plan v c = (r, c')"
  shows "quiet c c'" "r = ShutdownWake \<longleftrightarrow> cl_stopping c'"
proof -
  let ?c1 = "run_inputs (bo_inputs v) c"
  let ?r1 = "first_wake (cl_stopping ?c1) (oc_event (cl_operations ?c1) \<or> bo_command_edge v) (bo_advertised v)"
  let ?c2 = "if ?r1 = QueuedCommand then clear_command_wake ?c1 else ?c1"
  have wake: "quiet x (clear_command_wake x)" "cl_stopping (clear_command_wake x) = cl_stopping x" for x
    by (simp_all add: clear_command_wake_def quiet_def)
  have q1: "quiet c ?c2" using quiet_trans[OF quiet_inputs wake(1)] quiet_inputs by simp
  have r1: "?r1 = ShutdownWake \<longleftrightarrow> cl_stopping ?c2" by (auto simp: first_wake_def wake(2))
  have floor: "quiet ?c2 x \<and> (q = ShutdownWake \<longleftrightarrow> cl_stopping x)"
    if "hold_floor plan v b ?r1 ?c2 = (q, x)" "?r1 \<noteq> ShutdownWake" for b q x
    using quiet_floor[OF that(1)] that by (auto simp: hold_floor_def Let_def wake(2) split: if_splits)
  obtain r2 c3 where 2: "(if ?r1 \<noteq> ShutdownWake \<and>
      max 0 (minimum_wait (cl_timings c) (floor_seconds plan) ?r1 - (bo_woken_at v - bo_started v)) \<noteq> 0
      then hold_floor plan v (oc_event (cl_operations ?c1) \<or> bo_command_edge v) ?r1 ?c2 else (?r1, ?c2)) = (r2, c3)"
    by fastforce
  have q2: "quiet ?c2 c3 \<and> (r2 = ShutdownWake \<longleftrightarrow> cl_stopping c3)"
    using 2 r1 floor by (auto split: if_splits)
  define c4 where "c4 = (if r2 \<noteq> ShutdownWake \<and> oc_event (cl_operations c3) then clear_command_wake c3 else c3)"
  define r3 where "r3 = (if r2 \<noteq> ShutdownWake \<and> oc_event (cl_operations c3) then QueuedCommand else r2)"
  have q4: "quiet c3 c4" "r3 = ShutdownWake \<longleftrightarrow> cl_stopping c4"
    using q2 wake by (auto simp: c4_def r3_def)
  have "(if r2 \<noteq> ShutdownWake \<and> oc_event (cl_operations c3) then (QueuedCommand, clear_command_wake c3)
      else (r2, c3)) = (r3, c4)" by (simp add: c4_def r3_def)
  with assms 2 have ends: "r = r3 \<and> (\<exists>y. c' = c4\<lparr>cl_recovery := y\<rparr>)"
    unfolding client_backoff_def Let_def by (auto split: prod.splits)
  have "quiet c c4" using quiet_trans[OF quiet_trans[OF q1] q4(1)] q2 by blast
  with ends q4(2) show "quiet c c'" "r = ShutdownWake \<longleftrightarrow> cl_stopping c'"
    by (auto simp: quiet_def)
qed

lemma release_connection_quiet:
  "quiet c (release_connection v c)" "cl_channel (release_connection v c) = None"
  using quiet_inputs[of "(cancel_recovery_reset c)\<lparr>cl_ready_since := None, cl_channel := None\<rparr>" "cy_releasing v"]
  by (auto simp: release_connection_def Let_def quiet_def cancel_recovery_reset_def)

lemma ready_loop_stops: "ready_loop env c = (Finished (Inr u), c') \<Longrightarrow> cl_stopping c'"
proof (induction env arbitrary: c)
  case (Cons v env)
  then show ?case
    by (auto simp: ready_loop.simps[of "v # env"] split: if_splits prod.splits progress.splits sum.splits)
qed (simp add: ready_loop.simps split: if_splits)

lemma connection_stops: "connect_initialize_and_run v c = (Finished (Inr u), c') \<Longrightarrow> cl_stopping c'"
  by (auto simp: connect_initialize_and_run_def Let_def split: prod.splits progress.splits sum.splits
      dest: ready_loop_stops)

lemma plan_and_back_off_cases:
  assumes "plan_and_back_off v c = (ending, c')"
  obtains (stopped) "cl_stopping c" "ending = CycleStopped" "c' = c"
  | (refused) "\<not> (MIN_JITTER_FACTOR \<le> cy_jitter v \<and> cy_jitter v \<le> MAX_JITTER_FACTOR)"
      "ending = CycleRaised ValueError"
  | (waited) reason where "\<not> cl_stopping c" "ending = NextCycle reason" "quiet (c\<lparr>cl_status := BackingOff\<rparr>) c'"
      "reason = ShutdownWake \<longleftrightarrow> cl_stopping c'"
proof (cases "cl_stopping c")
  case True
  with assms show ?thesis by (intro stopped) (auto simp: plan_and_back_off_def)
next
  case False
  show ?thesis
  proof (cases "plan_backoff (cl_timings c) (cy_planned_at v) (cy_recent_advertisement v) (cy_jitter v) (cl_recovery c)")
    case (Inl e)
    with assms False show ?thesis
      by (intro refused) (auto simp: plan_and_back_off_def plan_backoff_def Let_def split: if_splits prod.splits)
  next
    case (Inr y)
    obtain plan recovery where y: "y = (plan, recovery)" by fastforce
    obtain reason c1 where b: "client_backoff plan (cy_backoff v)
        (c\<lparr>cl_status := BackingOff, cl_recovery := recovery\<rparr>) = (reason, c1)" by fastforce
    have e: "ending = NextCycle reason" "c' = c1"
      using assms False Inr y b by (simp_all add: plan_and_back_off_def Let_def)
    have q: "quiet (c\<lparr>cl_status := BackingOff\<rparr>) c'"
      using quiet_backoff(1)[OF b] e by (simp add: quiet_def)
    from False e(1) q quiet_backoff(2)[OF b] e(2) show ?thesis by (intro waited) simp_all
  qed
qed

text \<open>C21. While the client recovers, nobody sees a connected device: a connection cycle that goes on to
  the next one ended with an error that is kept as the last error, its channel is gone, the status is
  the back-off, a device that was ready before is reported unavailable, and the back-off ended for
  shutdown exactly when the client is stopping.\<close>

theorem unavailable_while_recovering:
  assumes "connection_cycle v c = (NextCycle reason, c')"
  shows "(\<exists>e. cl_last_error c' = Some e \<and> e \<noteq> CancelledError) \<and> cl_channel c' = None \<and>
    cl_status c' = BackingOff \<and> (reason = ShutdownWake \<longleftrightarrow> cl_stopping c') \<and>
    (cl_ever_ready c' \<longrightarrow> cl_reported_available c' = Some False)"
proof -
  obtain p c1 where run: "connect_initialize_and_run (cy_session v) c = (p, c1)" by fastforce
  have "\<exists>e. p = Finished (Inl e) \<and> e \<noteq> CancelledError \<and>
      plan_and_back_off v (release_connection v (record_cycle_failure (cy_failed_at v) e c1)) = (NextCycle reason, c')"
  proof (cases p)
    case (Finished r)
    show ?thesis
    proof (cases r)
      case (Inl e)
      with assms run Finished show ?thesis by (auto simp: connection_cycle_def split: if_splits)
    next
      case (Inr u)
      with run Finished have "cl_stopping c1" using connection_stops by auto
      then have "cl_stopping (release_connection v c1)"
        using release_connection_quiet(1)[of c1 v] by (simp add: quiet_def)
      with assms run Finished Inr show ?thesis by (simp add: connection_cycle_def plan_and_back_off_def)
    qed
  qed (use assms run in \<open>simp add: connection_cycle_def\<close>)
  then obtain e where e: "e \<noteq> CancelledError"
    "plan_and_back_off v (release_connection v (record_cycle_failure (cy_failed_at v) e c1)) = (NextCycle reason, c')"
    by blast
  let ?f = "record_cycle_failure (cy_failed_at v) e c1"
  have f: "cl_last_error ?f = Some e" "cl_ever_ready ?f \<longrightarrow> cl_reported_available ?f = Some False"
    by (auto simp: record_cycle_failure_def set_available_def cl_call_def Let_def)
  from e(2) show ?thesis
  proof (cases rule: plan_and_back_off_cases)
    case (waited r)
    with f e(1) release_connection_quiet[where v = v and c = ?f] show ?thesis by (auto simp: quiet_def)
  qed auto
qed

text \<open>C22. Recovery never gives up: with jitter factors within their limits, a client runs connection
  cycles, whatever error ends each of them, until it is asked to stop or its runner is cancelled; as
  long as neither happened it waits for the environment.\<close>

theorem recovery_never_gives_up:
  assumes "run_client env c = (ending, c')"
    and "list_all (\<lambda>v. MIN_JITTER_FACTOR \<le> cy_jitter v \<and> cy_jitter v \<le> MAX_JITTER_FACTOR) env"
  shows "ending = CycleBlocked \<or> ending = CycleCancelled \<or> ending = CycleStopped \<and> cl_stopping c'"
proof -
  have cycle: "q \<in> {CycleBlocked, CycleCancelled} \<or> (\<exists>r. q = NextCycle r) \<or> q = CycleStopped \<and> cl_stopping x'"
    if "connection_cycle v x = (q, x')" "MIN_JITTER_FACTOR \<le> cy_jitter v \<and> cy_jitter v \<le> MAX_JITTER_FACTOR"
    for v x q x'
  proof -
    have "y \<in> {CycleBlocked, CycleCancelled} \<or> (\<exists>r. y = NextCycle r) \<or> y = CycleStopped \<and> cl_stopping z"
      if "plan_and_back_off v s = (y, z)" for s y z
      using that by (cases rule: plan_and_back_off_cases) (use \<open>MIN_JITTER_FACTOR \<le> cy_jitter v \<and> _\<close> in auto)
    with that(1) show ?thesis
      by (auto simp: connection_cycle_def split: prod.splits progress.splits sum.splits if_splits)
  qed
  have "ending = CycleBlocked \<or> ending = CycleCancelled \<or> ending = CycleStopped \<and> cl_stopping c'"
    if "recovery_loop env x = (ending, c')" for x
    using that assms(2)
  proof (induction env arbitrary: x)
    case (Cons v env)
    obtain q x' where q: "connection_cycle v x = (q, x')" by fastforce
    from Cons.prems cycle[OF q] Cons.IH[of x'] q show ?case
      by (auto simp: recovery_loop.simps[of "v # env"] split: if_splits)
  qed (auto simp: recovery_loop.simps split: if_splits)
  with assms(1) show ?thesis by (simp add: run_client_def)
qed

end
