(* ===== verification/Client_Startup.thy ===== *)
theory Client_Startup
  imports Client_Contract
begin

text \<open>
  Initialization of a connection: the sweep over the profile's startup requests and the retries of the
  essential one, with the failures and batches they record; and the order of a deferred refresh.
\<close>

section \<open>Initialization\<close>

text \<open>What a sweep keeps besides its own records.\<close>

definition sweeps :: "client \<Rightarrow> client \<Rightarrow> bool" where
  "sweeps c c' \<longleftrightarrow> cl_profile c' = cl_profile c \<and> cl_status c' = cl_status c \<and>
     cl_generation c' = cl_generation c"

definition recorded :: "string list \<Rightarrow> client \<Rightarrow> bool" where
  "recorded failures c \<longleftrightarrow> cl_initialization_failures c = failures"

lemma sweeps_trans [trans]: "sweeps a b \<Longrightarrow> sweeps b c \<Longrightarrow> sweeps a c"
  by (simp add: sweeps_def)

lemma sweeps_essential: "sweeps c c' \<Longrightarrow> is_essential d c' = is_essential d c"
  by (simp add: sweeps_def is_essential_def)

lemma sweeps_records [simp]:
  "sweeps c (count_batch c)" "sweeps c (update_initialization_failures fs c)" "sweeps c c"
  "sweeps c (update_refresh_failures fs c)"
  by (simp_all add: sweeps_def count_batch_def update_initialization_failures_def update_refresh_failures_def)

lemma descriptor_keeps:
  assumes "execute_descriptor d a h env c = (r, confirmation, c')"
  shows "sweeps c c'" "cl_initialization_failures c' = cl_initialization_failures c"
    "cl_essential_batches c' = cl_essential_batches c"
  using transacts_descriptor[OF assms] by (simp_all add: transacts_def tx_session_def sweeps_def)

lemma inputs_keep:
  "sweeps c (run_inputs is c)" "cl_initialization_failures (run_inputs is c) = cl_initialization_failures c"
  "cl_essential_batches (run_inputs is c) = cl_essential_batches c"
  using stays_inputs[of c "is"] by (simp_all add: stays_def same_session_def sweeps_def)

lemma ready_work_keeps:
  assumes "wait_for_ready_work w c = (r, c')"
  shows "sweeps c c'" "cl_initialization_failures c' = cl_initialization_failures c"
    "cl_essential_batches c' = cl_essential_batches c"
  using stays_wait_for_ready_work[of c w] assms by (simp_all add: stays_def same_session_def sweeps_def)

lemma add_failure_set [simp]: "set (add_failure name fs) = insert name (set fs)"
  by (auto simp: add_failure_def)

lemma add_failure_distinct [simp]: "distinct (add_failure name fs) = distinct fs"
  by (simp add: add_failure_def)

definition swept ::
    "request_descriptor list \<Rightarrow> request_descriptor option \<Rightarrow> string list \<Rightarrow> client \<Rightarrow>
     request_descriptor option \<Rightarrow> string list \<Rightarrow> client \<Rightarrow> bool" where
  "swept ds ess fs c ess' fs' c' \<longleftrightarrow>
     sweeps c c' \<and> recorded fs' c' \<and> (distinct fs \<longrightarrow> distinct fs') \<and>
     set fs \<subseteq> set fs' \<and> set fs' \<subseteq> set fs \<union> dsc_name ` set ds \<and>
     cl_essential_batches c' = cl_essential_batches c + int (length (filter (\<lambda>d. is_essential d c) ds)) \<and>
     (\<forall>d. ess' = Some d \<longrightarrow> ess = Some d \<or> d \<in> set ds \<and> is_essential d c)"

lemma swept_Cons:
  assumes "sweeps c c1" "cl_essential_batches c1 = cl_essential_batches c + (if is_essential d c then 1 else 0)"
    and "fs1 = fs \<or> fs1 = add_failure (dsc_name d) fs"
    and "swept ds (if is_essential d c then Some d else ess) fs1 c1 ess' fs' c'"
  shows "swept (d # ds) ess fs c ess' fs' c'"
  using assms unfolding swept_def sweeps_essential[OF assms(1)]
  by (auto intro: sweeps_trans split: if_splits)

lemma initialization_sweep_swept:
  "initialization_sweep ds env ess fs c = (Finished (Inr (ess', fs')), c') \<Longrightarrow> recorded fs c \<Longrightarrow>
     swept ds ess fs c ess' fs' c'"
proof (induction ds arbitrary: env ess fs c)
  case Nil
  then show ?case by (auto simp: swept_def)
next
  case (Cons d ds)
  obtain v rest where env: "env = v # rest" using Cons.prems(1) by (cases env) auto
  let ?c0 = "if is_essential d c then count_batch c else c"
  let ?ess = "if is_essential d c then Some d else ess"
  obtain result confirmation c1 where x: "execute_descriptor d (initialization_attempts (cl_timings ?c0))
      (plain_hooks PUR_STARTUP) (sw_attempts v) ?c0 = (result, confirmation, c1)" by (metis prod_cases3)
  have keep: "sweeps c c1" "recorded fs c1"
    "cl_essential_batches c1 = cl_essential_batches c + (if is_essential d c then 1 else 0)"
    using descriptor_keeps[OF x] Cons.prems(2) by (auto simp: recorded_def sweeps_def count_batch_def split: if_splits)
  let ?fs = "if result = TxRaised TransactionTimeoutError then add_failure (dsc_name d) fs else fs"
  let ?c2 = "if result = TxRaised TransactionTimeoutError then update_initialization_failures ?fs c1 else c1"
  let ?c3 = "if ds = [] then ?c2 else run_inputs (sw_sleep v) ?c2"
  have c2: "sweeps c ?c2" "recorded ?fs ?c2" "cl_essential_batches ?c2 = cl_essential_batches c1"
    using keep by (auto simp: recorded_def update_initialization_failures_def sweeps_def)
  then have c3: "recorded ?fs ?c3" "sweeps c ?c3"
    "cl_essential_batches ?c3 = cl_essential_batches c + (if is_essential d c then 1 else 0)"
    using keep(3) inputs_keep[of ?c2 "sw_sleep v"] by (auto simp: recorded_def intro: sweeps_trans)
  have "initialization_sweep ds rest ?ess ?fs ?c3 = (Finished (Inr (ess', fs')), c')"
    using Cons.prems(1) x env by (auto simp: Let_def split: tx_result.splits if_splits)
  from swept_Cons[OF c3(2,3) _ Cons.IH[OF this c3(1)]] show ?case by auto
qed

lemma essential_retries_answered:
  "essential_retries d env fs c = (Finished (Inr fs'), c') \<Longrightarrow> recorded fs c \<Longrightarrow>
     sweeps c c' \<and> recorded fs' c' \<and> dsc_name d \<notin> set fs' \<and> set fs' \<subseteq> insert (dsc_name d) (set fs) \<and>
     (distinct fs \<longrightarrow> distinct fs') \<and>
     cl_essential_batches c' \<le> max (cl_essential_batches c) (essential_initialization_max_batches (cl_timings c))"
proof (induction env arbitrary: fs c)
  case Nil
  then show ?case by (auto simp: essential_retries.simps split: if_splits)
next
  case (Cons v env)
  show ?case
  proof (cases "dsc_name d \<notin> set fs \<or> essential_initialization_max_batches (cl_timings c) \<le> cl_essential_batches c")
    case True
    with Cons.prems show ?thesis by (auto simp: essential_retries.simps split: if_splits)
  next
    case False
    obtain r c1 where w: "wait_for_ready_work (rs_wait v) c = (r, c1)" by fastforce
    obtain result confirmation c2 where x: "execute_descriptor d (initialization_attempts (cl_timings c1))
        (plain_hooks PUR_STARTUP) (rs_attempts v) (count_batch c1) = (result, confirmation, c2)"
      by (metis prod_cases3)
    let ?fs = "if result = TxRaised TransactionTimeoutError then add_failure (dsc_name d) fs else removeAll (dsc_name d) fs"
    let ?c3 = "update_initialization_failures ?fs c2"
    have next_run: "essential_retries d env ?fs ?c3 = (Finished (Inr fs'), c')"
      using Cons.prems(1) False w x
      by (auto simp: essential_retries.simps[of d "v # env"] Let_def split: sum.splits tx_result.splits if_splits)
    have c3: "recorded ?fs ?c3" "sweeps c ?c3" "cl_essential_batches ?c3 = cl_essential_batches c + 1"
      using ready_work_keeps[OF w] descriptor_keeps[OF x]
      by (auto simp: recorded_def update_initialization_failures_def sweeps_def count_batch_def)
    have "cl_timings ?c3 = cl_timings c" using c3(2) by (simp add: sweeps_def)
    with Cons.IH[OF next_run c3(1)] c3(2,3) False sweeps_trans[OF c3(2)] show ?thesis
      by (auto simp: distinct_removeAll split: if_splits)
  qed
qed

text \<open>A connection only becomes ready when its essential startup request was answered: when the
  initialization of a fresh session returns, one of the requests is the essential one and is not among
  the failures, the recorded failures are exactly the returned ones, each the name of a request and
  none twice, the status and the generation are those it started with, and at most the configured
  number of batches was spent, however often the sweep itself contains the essential request.\<close>

theorem initialization_answers_essential:
  assumes "run_initialization ds env retries c = (Finished (Inr failures), c')"
    and "cl_initialization_failures c = []"
  shows "(\<exists>d. d \<in> set ds \<and> is_essential d c \<and> dsc_name d \<notin> set failures) \<and>
    cl_initialization_failures c' = failures \<and> distinct failures \<and>
    set failures \<subseteq> set (map dsc_name ds) \<and> cl_status c' = cl_status c \<and> cl_generation c' = cl_generation c \<and>
    cl_essential_batches c' \<le>
      max (cl_essential_batches c + int (length (filter (\<lambda>d. is_essential d c) ds)))
        (essential_initialization_max_batches (cl_timings c))"
proof -
  obtain d fs c1 where s: "initialization_sweep ds env None [] c = (Finished (Inr (Some d, fs)), c1)"
    and r: "essential_retries d retries fs c1 = (Finished (Inr failures), c')"
    using assms(1) by (auto simp: run_initialization_def split: prod.splits progress.splits sum.splits option.splits)
  have sw: "swept ds None [] c (Some d) fs c1"
    by (rule initialization_sweep_swept[OF s]) (simp add: recorded_def assms(2))
  then have 1: "recorded fs c1" "d \<in> set ds" "is_essential d c" "sweeps c c1" "set fs \<subseteq> dsc_name ` set ds"
    by (auto simp: swept_def)
  have "cl_timings c1 = cl_timings c" using 1(4) by (simp add: sweeps_def)
  with essential_retries_answered[OF r 1(1)] sw 1 show ?thesis
    by (auto simp: swept_def recorded_def sweeps_def)
qed

section \<open>Refresh\<close>

text \<open>How a refresh that returns ended: through all its requests, or deferred with the rest of them.\<close>

definition deferred :: "request_descriptor list \<Rightarrow> client \<Rightarrow> client \<Rightarrow> bool" where
  "deferred ds c c' \<longleftrightarrow> (\<exists>through d rest. ds = through @ d # rest \<and>
     cl_refresh_resume c' = d # rest \<and> cl_refresh_pending c' \<and> cl_last_preempted c' = Some (dsc_name d) \<and>
     cl_refresh_preemptions c' = cl_refresh_preemptions c + 1)"

definition refreshed :: "client \<Rightarrow> client \<Rightarrow> bool" where
  "refreshed c c' \<longleftrightarrow> cl_refresh_resume c' = [] \<and> cl_refresh_preemptions c' = cl_refresh_preemptions c"

definition refresh_keeps :: "client \<Rightarrow> client \<Rightarrow> bool" where
  "refresh_keeps c c' \<longleftrightarrow> cl_refresh_resume c' = cl_refresh_resume c \<and>
     cl_refresh_preemptions c' = cl_refresh_preemptions c \<and> cl_profile c' = cl_profile c"

lemma refresh_keeps_trans: "refresh_keeps a b \<Longrightarrow> refresh_keeps b c \<Longrightarrow> refresh_keeps a c"
  by (simp add: refresh_keeps_def)

lemma refresh_keeps_steps:
  "execute_descriptor d a h env c = (r, confirmation, c') \<Longrightarrow> refresh_keeps c c'"
  "refresh_keeps c (run_inputs is c)" "refresh_keeps c (update_refresh_failures fs c)" "refresh_keeps c c"
  using transacts_descriptor[of d a h env c r confirmation c'] stays_inputs[of c "is"]
  by (auto simp: transacts_def tx_session_def stays_def same_session_def refresh_keeps_def update_refresh_failures_def)

lemma refresh_sweep_ends:
  "refresh_sweep ds env fs c = (Finished (Inr u), c') \<Longrightarrow> cl_refresh_resume c = [] \<Longrightarrow>
     deferred ds c c' \<or> refreshed c c'"
proof (induction ds arbitrary: env fs c)
  case Nil
  then show ?case by (auto simp: refreshed_def)
next
  case (Cons d ds)
  obtain v rest where env: "env = v # rest" using Cons.prems(1) by (cases env) auto
  have interrupted: "deferred (d # ds) c (defer_refresh (d # ds) (dsc_name d) x)" if "refresh_keeps c x" for x
    unfolding deferred_def
    by (rule exI[of _ "[]"], rule exI[of _ d], rule exI[of _ ds])
      (use that in \<open>simp add: defer_refresh_def refresh_keeps_def\<close>)
  show ?case
  proof (cases "has_pending (sw_now v) (cl_operations c) \<or> has_pending_air_quality_query c")
    case True
    with Cons.prems(1) env interrupted[OF refresh_keeps_steps(4)] show ?thesis by auto
  next
    case False
    obtain result confirmation c1 where x: "execute_descriptor d (refresh_attempts (cl_timings c))
        ((plain_hooks PUR_REFRESH)\<lparr>th_for_command := True, th_for_query := True\<rparr>) (sw_attempts v) c =
        (result, confirmation, c1)" by (metis prod_cases3)
    note k1 = refresh_keeps_steps(1)[OF x]
    show ?thesis
    proof (cases "result = TxRaised RefreshPreemptedError")
      case True
      with Cons.prems(1) env False x interrupted[OF k1] show ?thesis by auto
    next
      case running: False
      then obtain fs1 c2 where more: "refresh_sweep ds rest fs1 c2 = (Finished (Inr u), c')" "refresh_keeps c c2"
        using Cons.prems(1) env False x k1 refresh_keeps_trans[OF k1 refresh_keeps_steps(2)]
          refresh_keeps_trans[OF k1 refresh_keeps_trans[OF refresh_keeps_steps(3) refresh_keeps_steps(2)]]
          refresh_keeps_trans[OF k1 refresh_keeps_steps(3)]
        by (auto simp: Let_def split: tx_result.splits if_splits)
      have "cl_refresh_resume c2 = []" using more(2) Cons.prems(2) by (simp add: refresh_keeps_def)
      from Cons.IH[OF more(1) this] more(2) show ?thesis
        by (auto simp: deferred_def refreshed_def refresh_keeps_def)
    qed
  qed
qed

text \<open>A preempted refresh loses no request and repeats none that was answered: a refresh that
  returns has either gone through all the requests it began with (those left from the last
  preemption, or all), or, counting one preemption, it is pending again and remembers exactly the
  requests from the interrupted one on, in their order; the next refresh goes through these.\<close>

theorem preempted_refresh_resumes_in_order:
  assumes "run_refresh ds env c = (Finished (Inr u), c')"
  shows "\<not> cl_refresh_running c' \<and>
    (let active = (if cl_refresh_resume c = [] then ds else cl_refresh_resume c)
     in cl_refresh_resume c' = [] \<and> cl_refresh_preemptions c' = cl_refresh_preemptions c \<or>
        (\<exists>through d rest. active = through @ d # rest \<and> cl_refresh_resume c' = d # rest \<and> cl_refresh_pending c' \<and>
           cl_last_preempted c' = Some (dsc_name d) \<and>
           cl_refresh_preemptions c' = cl_refresh_preemptions c + 1))"
proof -
  let ?active = "if cl_refresh_resume c = [] then ds else cl_refresh_resume c"
  let ?failures = "if cl_refresh_resume c = [] then [] else cl_refresh_failures c"
  let ?c = "update_refresh_failures ?failures
      (c\<lparr>cl_refresh_running := True, cl_refresh_pending := False, cl_refresh_resume := []\<rparr>)"
  obtain c1 where s: "refresh_sweep ?active env ?failures ?c = (Finished (Inr u), c1)"
    and c': "c' = c1\<lparr>cl_refresh_running := False\<rparr>"
    using assms by (auto simp: run_refresh_def Let_def split: prod.splits if_splits)
  have "cl_refresh_resume ?c = []" by (simp add: update_refresh_failures_def)
  from refresh_sweep_ends[OF s this] c' show ?thesis
    by (auto simp: Let_def deferred_def refreshed_def update_refresh_failures_def)
qed

end
