(* ===== verification/Client_Examples.thy ===== *)
theory Client_Examples
  imports Client_Startup
begin

text \<open>
  The bookkeeping of a whole run of the client, and concrete runs of an H7124: an answered command, a
  connection that is not found, a session that initializes, a refresh that is preempted.
\<close>

section \<open>Bookkeeping of a run\<close>

text \<open>C10. Over every run of a new client, whatever frames, disconnects, calls and failures it meets: the
  frame queue never exceeds its limit and only holds frames of the current connection; the
  observations published so far carry the revisions one, two, and so on without a gap, from
  connections in ascending order; and availability is reported only when it changes, the last report
  being the current one.\<close>

theorem client_run_bookkeeping:
  assumes "new_client g p shared_settings observed = Inr c0"
    and "run_client env (client_start c0) = (ending, c)"
  shows "length (cl_queue c) \<le> MAX_QUEUED_FRAMES \<and>
    list_all (\<lambda>f. rf_generation f = cl_generation c) (cl_queue c) \<and>
    map ob_revision (call_observations (cl_calls c)) = [1..cl_observation_revision c] \<and>
    sorted (map ob_generation (call_observations (cl_calls c))) \<and>
    list_all (\<lambda>ob. ob_generation ob \<le> cl_generation c) (call_observations (cl_calls c)) \<and>
    distinct_adj (call_availabilities (cl_calls c)) \<and>
    cl_reported_available c =
      (if call_availabilities (cl_calls c) = [] then None else Some (last (call_availabilities (cl_calls c))))"
  using bookkeeping.client_runs[OF assms(2) client_inv_new[OF assms(1)]]
  by (auto simp: client_inv_def queue_bounded_def observations_ordered_def availability_reported_def Let_def)

section \<open>Concrete runs\<close>

definition h7124_service :: govee_protocol where
  "h7124_service = (case new_protocol h7124_profile of Inr g \<Rightarrow> g)"

definition fresh_client :: client where
  "fresh_client = (case new_client h7124_service h7124_profile True True of Inr c \<Rightarrow> c)"

definition device_answer :: bytes where
  "device_answer = catalog_frame [0xAA, 0x01] 0xAB"

definition answered_by :: "bytes \<Rightarrow> client_attempt list" where
  "answered_by frame = or_attempts (one_wait [InFrame 1 frame 102])"

definition sweep_of :: "bytes \<Rightarrow> sweep_step" where
  "sweep_of frame = \<lparr>sw_now = 100, sw_attempts = answered_by frame, sw_sleep = [], sw_cancelled = False\<rparr>"

definition no_backoff_events :: backoff_env where
  "no_backoff_events = \<lparr>bo_started = 10, bo_inputs = [], bo_advertised = False, bo_command_edge = False,
     bo_woken_at = 12, bo_floor_inputs = [], bo_floor_edge = False, bo_finished = 12\<rparr>"

definition cycle_of :: "bool res \<Rightarrow> sweep_step list \<Rightarrow> cycle_env" where
  "cycle_of device steps =
     \<lparr>cy_started = 1,
      cy_session = \<lparr>sn_search = [], sn_device = device, sn_connecting = [], sn_connect = Inr 0,
        sn_transport_generation = 0, sn_establishing = [], sn_establish = None,
        sn_channel = (new_channel h7124_profile)\<lparr>cn_ready := True\<rparr>, sn_initialization = steps,
        sn_retries = [], sn_ready_at = 5, sn_turns = []\<rparr>,
      cy_failed_at = 6, cy_releasing = [], cy_cleanup_succeeded = True, cy_finished = 7,
      cy_recent_advertisement = False, cy_planned_at = 8, cy_jitter = 1, cy_backoff = no_backoff_events\<rparr>"

lemma fresh_client_new: "new_client h7124_service h7124_profile True True = Inr fresh_client"
  by code_simp

definition low_status :: bytes where
  "low_status = [0xEE, 0x05, 0x01, 0x01, 0, 0, 0, 0, 0, 0, 0, 0, 0, 0, 0, 0, 0, 0, 0, 0xEB]"

definition known_client :: client where
  "known_client = (client_start fresh_client)\<lparr>cl_ever_ready := True\<rparr>"

definition fan_request :: request_descriptor where
  "fan_request = (case command_request lane_protocol (SetFanMode LOW) None of Inr d \<Rightarrow> d)"

definition state_request :: request_descriptor where
  "state_request = (case device_state_poll h7124_service of Inr d \<Rightarrow> d)"

text \<open>The device reports its fan while the first startup request waits: one observation, still
  connected.\<close>

theorem client_run_bookkeeping_witness:
  "map ob_revision (call_observations (cl_calls (snd (run_client [cycle_of (Inr True) [sweep_of low_status]]
     (client_start fresh_client))))) = [1]"
proof -
  have "cl_observation_revision (snd (run_client [cycle_of (Inr True) [sweep_of low_status]]
      (client_start fresh_client))) = 1" by code_simp
  with client_run_bookkeeping[OF fresh_client_new prod.collapse[symmetric],
      of "[cycle_of (Inr True) [sweep_of low_status]]"]
  show ?thesis by simp
qed

lemma fan_client_ready: "channel_ready fan_client"
  by code_simp

lemma fan_request_answered:
  "fst (execute_descriptor fan_request 1 (plain_hooks PUR_COMMAND) (answered_by low_echo) fan_client) =
     TxFrames [low_echo]"
  by code_simp


text \<open>A device that was ready and is not found again.\<close>

lemma known_client_fields: "\<not> cl_stopping known_client" "cl_ever_ready known_client"
  by code_simp+

theorem unavailable_while_recovering_witness:
  "\<exists>reason c'. connection_cycle (cycle_of (Inr False) []) known_client = (NextCycle reason, c') \<and>
     cl_reported_available c' = Some False"
proof -
  let ?v = "cycle_of (Inr False) []"
  obtain r c' where run: "connection_cycle ?v known_client = (r, c')" by fastforce
  obtain c1 where first: "connect_initialize_and_run (cy_session ?v) known_client =
      (Finished (Inl BluetoothUnavailableError), c1)" "\<not> cl_stopping c1" "cl_ever_ready c1"
    using known_client_fields
    by (simp add: connect_initialize_and_run_def connect_and_establish_def cycle_of_def Let_def begin_session_def
        on_queries_def invalidate_connection_scoped_state_def)
  let ?c = "release_connection ?v (record_cycle_failure (cy_failed_at ?v) BluetoothUnavailableError c1)"
  have kept: "\<not> cl_stopping ?c" "cl_ever_ready ?c"
    using first(2,3) by (simp_all add: release_connection_def record_cycle_failure_def set_available_def cl_call_def
        cancel_recovery_reset_def cycle_of_def Let_def)
  have "plan_and_back_off ?v ?c = (r, c')" using run first(1) by (simp add: connection_cycle_def)
  then show ?thesis
  proof (cases rule: plan_and_back_off_cases)
    case (waited reason)
    with kept(2) have "cl_ever_ready c'" by (simp add: quiet_def)
    with unavailable_while_recovering[of ?v known_client reason c'] run waited(2) show ?thesis by simp
  qed (use kept in \<open>simp_all add: cycle_of_def MIN_JITTER_FACTOR_def MAX_JITTER_FACTOR_def\<close>)
qed

theorem recovery_never_gives_up_witness:
  "fst (run_client [cycle_of (Inr False) [], cycle_of (Inl GattTransportError) []] known_client)
     \<in> {CycleBlocked, CycleCancelled, CycleStopped}"
proof -
  have "list_all (\<lambda>v. MIN_JITTER_FACTOR \<le> cy_jitter v \<and> cy_jitter v \<le> MAX_JITTER_FACTOR)
      [cycle_of (Inr False) [], cycle_of (Inl GattTransportError) []]" by code_simp
  from recovery_never_gives_up[OF prod.collapse[symmetric] this, of known_client] show ?thesis by blast
qed

theorem initialization_answers_essential_witness:
  "cl_initialization_failures (snd (run_initialization [state_request] [sweep_of device_answer] []
     (fan_client\<lparr>cl_status := Initializing\<rparr>))) = [] \<and> is_essential state_request fan_client"
proof -
  let ?c = "fan_client\<lparr>cl_status := Initializing\<rparr>"
  let ?run = "run_initialization [state_request] [sweep_of device_answer] [] ?c"
  have "cl_initialization_failures ?c = []" by code_simp
  moreover have "fst ?run = Finished (Inr [])" by code_simp
  ultimately show ?thesis
    using initialization_answers_essential[of "[state_request]" "[sweep_of device_answer]" "[]" ?c "[]" "snd ?run"]
    by (auto simp: prod_eq_iff is_essential_def)
qed

theorem preempted_refresh_resumes_in_order_witness:
  "cl_refresh_resume (snd (run_refresh [state_request] [sweep_of device_answer]
     (fan_client\<lparr>cl_operations := queued_fan\<rparr>))) = [state_request]"
proof -
  let ?c = "fan_client\<lparr>cl_operations := queued_fan\<rparr>"
  let ?run = "run_refresh [state_request] [sweep_of device_answer] ?c"
  have "fst ?run = Finished (Inr ())" "cl_refresh_preemptions (snd ?run) = 1" "cl_refresh_preemptions ?c = 0"
    "cl_refresh_resume ?c = []"
    by code_simp+
  with preempted_refresh_resumes_in_order[of "[state_request]" "[sweep_of device_answer]" ?c "()" "snd ?run"]
  show ?thesis by (auto simp: Let_def prod_eq_iff Cons_eq_append_conv)
qed

end
