(* ===== verification/Coordinator.thy ===== *)
theory Coordinator
  imports Client_Execution Auto_Controller_Runs Auto_Memory
begin

text \<open>
  The coordinator (\<open>coordinator.py\<close>): it distributes what the client reports, owns the Custom Auto
  actor and its remembered selection, and linearizes everything that changes who controls the fan.
  Its parts are the actor of \<open>Auto_Controller\<close> and the stored cell of \<open>Auto_Memory\<close>; the client is
  seen through its readiness, generation and state, through the callbacks it makes and through the
  outcomes of the calls that wait for it.

  An operation that holds the control lock runs without any other holder; what runs during its awaits
  are the callbacks and the synchronous entry points, given as inputs.  What other holders did while
  it waited for the lock is part of the state it starts from.
\<close>

section \<open>State\<close>

record client_view =
  cv_ready :: bool
  cv_generation :: int
  cv_state :: purifier_state

record handoff =
  ho_state :: string
  ho_error_type :: "exn option"
  ho_reason :: "string option"

definition handoff_of :: "string \<Rightarrow> handoff" where
  "handoff_of s = \<lparr>ho_state = s, ho_error_type = None, ho_reason = None\<rparr>"

definition handoff_because :: "string \<Rightarrow> string \<Rightarrow> handoff" where
  "handoff_because s reason = (handoff_of s)\<lparr>ho_reason := Some reason\<rparr>"

text \<open>The calls the coordinator makes: into the client, to the entities, to its listeners.\<close>

datatype coordinator_call =
    CallExecute command command_origin
  | CallQueryAirQuality
  | CallCancelAirQuality
  | CallWaitReady
  | CallClientStart
  | CallClientShutdown
  | PublishData purifier_state
  | NotifyListeners
  | PublishAuto bool

text \<open>\<open>co_cause\<close> is the \<open>__cause__\<close> of the error that was translated last; \<open>co_cleanup_task\<close> says that
  the registry cleanup task exists, \<open>co_persistence_tasks\<close> how many persistence tasks do.\<close>

record coordinator =
  co_view :: client_view
  co_data :: purifier_state
  co_shutdown :: bool
  co_available :: bool
  co_publishing :: bool
  co_started :: bool
  co_observing :: bool
  co_controller :: "controller option"
  co_memory :: bool
  co_stored :: "json option"
  co_restore :: bool
  co_handoff :: handoff
  co_last_active :: bool
  co_suppress :: bool
  co_persistence_tasks :: nat
  co_registry_allowed :: bool
  co_command_gate :: bool
  co_terminal_blocked :: bool
  co_cleanup_generation :: int
  co_cleanup_served :: int
  co_cleanup_required :: bool
  co_cleanup_task :: bool
  co_registry_listener :: bool
  co_cause :: "exn option"
  co_log :: "coordinator_call list"

definition new_coordinator ::
    "client_view \<Rightarrow> custom_auto_options \<Rightarrow> bool \<Rightarrow> json option \<Rightarrow> bool \<Rightarrow> bool \<Rightarrow> coordinator res" where
  "new_coordinator view opts memory stored restore registry_allowed =
     res_bind (if ao_enabled opts then res_bind (new_controller opts) (\<lambda>ct. Inr (Some ct)) else Inr None)
       (\<lambda>ct. Inr
         \<lparr>co_view = view, co_data = empty_purifier_state, co_shutdown = False, co_available = False,
          co_publishing = False, co_started = False, co_observing = False, co_controller = ct,
          co_memory = memory, co_stored = stored, co_restore = restore, co_handoff = handoff_of ''idle'',
          co_last_active = False, co_suppress = False, co_persistence_tasks = 0,
          co_registry_allowed = registry_allowed, co_command_gate = registry_allowed,
          co_terminal_blocked = False, co_cleanup_generation = 0, co_cleanup_served = 0,
          co_cleanup_required = False, co_cleanup_task = False, co_registry_listener = False,
          co_cause = None, co_log = []\<rparr>)"

definition co_call :: "coordinator_call \<Rightarrow> coordinator \<Rightarrow> coordinator" where
  "co_call x c = c\<lparr>co_log := co_log c @ [x]\<rparr>"

definition controller_active :: "coordinator \<Rightarrow> bool" where
  "controller_active c = (case co_controller c of Some ct \<Rightarrow> ct_active ct | None \<Rightarrow> False)"

text \<open>\<open>_publish_custom_auto_state\<close>: the listeners see the snapshot, here whether it is active.\<close>

definition publish_custom_auto :: "coordinator \<Rightarrow> coordinator" where
  "publish_custom_auto c =
     (case co_controller c of None \<Rightarrow> c | Some ct \<Rightarrow> co_call (PublishAuto (ct_active ct)) c)"

section \<open>Callbacks of the client\<close>

text \<open>A synchronous method of the actor; without an actor nothing is called.\<close>

definition on_controller :: "(unit, controller) st \<Rightarrow> (unit, coordinator) st" where
  "on_controller m c =
     (case co_controller c of
        None \<Rightarrow> (Inr (), c)
      | Some ct \<Rightarrow> (case m ct of (r, ct) \<Rightarrow> (r, c\<lparr>co_controller := Some ct\<rparr>)))"

definition set_updated_data :: "purifier_state \<Rightarrow> coordinator \<Rightarrow> coordinator" where
  "set_updated_data s c = co_call (PublishData s) (c\<lparr>co_data := s\<rparr>)"

definition state_updated :: "purifier_state \<Rightarrow> (unit, coordinator) st" where
  "state_updated s c =
     (let c = (if cv_ready (co_view c) then set_updated_data s c else c)
      in case ps_power s of
           Some powered \<Rightarrow> if co_started c then on_controller (set_powered powered) c else (Inr (), c)
         | None \<Rightarrow> (Inr (), c))"

definition availability_updated :: "bool \<Rightarrow> time \<Rightarrow> (unit, coordinator) st" where
  "availability_updated available now c =
     st_bind
       (if co_started c
        then on_controller (set_connection available (cv_generation (co_view c)) (Some now) now)
        else st_return ())
       (\<lambda>_ c. (Inr (), if available then set_updated_data (cv_state (co_view c)) c else co_call NotifyListeners c))
       (c\<lparr>co_available := available\<rparr>)"

definition observation_generation :: "observation \<Rightarrow> int" where
  "observation_generation ob = ob_generation (ob_provenance ob)"

definition route_custom_auto_observation :: "observation \<Rightarrow> time \<Rightarrow> (unit, coordinator) st" where
  "route_custom_auto_observation ob now c =
     (case co_controller c of
        None \<Rightarrow> (Inr (), c)
      | Some ct \<Rightarrow>
          let current = cv_generation (co_view c)
          in if observation_generation ob \<noteq> current then (Inr (), c)
             else st_bind
                    (if ct_connection_generation ct < observation_generation ob
                     then on_controller (set_connection False current (Some now) now) else st_return ())
                    (\<lambda>_. on_controller (observe ob)) c)"

text \<open>Listeners run one after the other; what they raise is logged.  The coordinator's own listener is
  registered while it is started.\<close>

definition observation_updated :: "observation \<Rightarrow> time \<Rightarrow> (unit, coordinator) st" where
  "observation_updated ob now c =
     (if co_publishing c then (Inl RuntimeError, c)
      else
        let c = c\<lparr>co_publishing := True\<rparr>;
            c = (if co_observing c then snd (route_custom_auto_observation ob now c) else c)
        in (Inr (), c\<lparr>co_publishing := False\<rparr>))"

text \<open>The listener of the actor: losing ownership without the coordinator asking for it is persisted by
  a task of its own.\<close>

definition custom_auto_state_updated :: "bool \<Rightarrow> coordinator \<Rightarrow> coordinator" where
  "custom_auto_state_updated active c =
     (let was_active = co_last_active c;
          c = c\<lparr>co_last_active := active\<rparr>;
          c = (if was_active \<and> \<not> active \<and> co_started c \<and> \<not> co_shutdown c \<and> \<not> co_suppress c
               then c\<lparr>co_persistence_tasks := co_persistence_tasks c + 1\<rparr> else c)
      in publish_custom_auto c)"

definition CONTROLLER_LISTENER :: nat where
  "CONTROLLER_LISTENER = 0"

definition controller_turn :: "step_env \<Rightarrow> coordinator \<Rightarrow> coordinator" where
  "controller_turn env c =
     (case co_controller c of
        None \<Rightarrow> c
      | Some ct \<Rightarrow>
          (case actor_turn env ct of
             (calls, ct) \<Rightarrow>
               foldl (\<lambda>c (l, sn). if l = CONTROLLER_LISTENER then custom_auto_state_updated (sn_active sn) c else c)
                 (c\<lparr>co_controller := Some ct\<rparr>) calls))"

section \<open>The registry gate\<close>

definition schedule_registry_cleanup :: "coordinator \<Rightarrow> coordinator" where
  "schedule_registry_cleanup c = c\<lparr>co_cleanup_task := True\<rparr>"

definition set_registry_allowed :: "bool \<Rightarrow> coordinator \<Rightarrow> coordinator" where
  "set_registry_allowed allowed c =
     (if co_shutdown c \<or> co_terminal_blocked c then c
      else
        let c = c\<lparr>co_registry_allowed := allowed,
                  co_cleanup_generation := co_cleanup_generation c + (if co_cleanup_required c then 1 else 0)\<rparr>
        in if allowed then
             if \<not> co_cleanup_required c \<and> \<not> co_cleanup_task c then c\<lparr>co_command_gate := True\<rparr>
             else if co_started c \<and> \<not> co_cleanup_task c then schedule_registry_cleanup c
             else c
           else
             let c = c\<lparr>co_command_gate := False,
                       co_cleanup_generation := co_cleanup_generation c + (if co_cleanup_required c then 0 else 1),
                       co_cleanup_required := True\<rparr>
             in if co_started c \<and> \<not> co_cleanup_task c then schedule_registry_cleanup c else c)"

definition reopens_gate :: "coordinator \<Rightarrow> bool" where
  "reopens_gate c \<longleftrightarrow> co_registry_allowed c \<and> \<not> co_terminal_blocked c \<and> \<not> co_cleanup_required c \<and>
     \<not> co_shutdown c"

datatype task_end = TaskCancelled | TaskReturned | TaskRaised exn

definition registry_cleanup_done :: "task_end \<Rightarrow> coordinator \<Rightarrow> coordinator" where
  "registry_cleanup_done ending c =
     (let c = c\<lparr>co_cleanup_task := False\<rparr>
      in if ending = TaskCancelled then c
         else
           let c = (if ending \<noteq> TaskReturned then c\<lparr>co_cleanup_required := True\<rparr>
                    else if reopens_gate c then c\<lparr>co_command_gate := True\<rparr> else c)
           in if co_cleanup_required c \<and> \<not> co_shutdown c \<and>
                 co_cleanup_served c < co_cleanup_generation c
              then schedule_registry_cleanup c else c)"

text \<open>\<open>async_disable_custom_auto_and_clear\<close> up to its await.\<close>

definition disable_begins :: "coordinator \<Rightarrow> coordinator" where
  "disable_begins c =
     c\<lparr>co_terminal_blocked := True, co_registry_allowed := False, co_command_gate := False,
       co_cleanup_generation := co_cleanup_generation c + 1, co_cleanup_required := True\<rparr>"

section \<open>What happens while the coordinator waits\<close>

datatype coordinator_input =
    CiView client_view
  | CiState client_view purifier_state
  | CiAvailability client_view bool time
  | CiObservation client_view observation time
  | CiTurn step_env
  | CiWorkEnds nat work_outcome
  | CiRegistry bool
  | CiDisable
  | CiCleanupDone task_end
  | CiPersisted

fun coordinator_input_step :: "coordinator \<Rightarrow> coordinator_input \<Rightarrow> coordinator" where
  "coordinator_input_step c (CiView v) = c\<lparr>co_view := v\<rparr>"
| "coordinator_input_step c (CiState v s) = snd (state_updated s (c\<lparr>co_view := v\<rparr>))"
| "coordinator_input_step c (CiAvailability v available now) =
     snd (availability_updated available now (c\<lparr>co_view := v\<rparr>))"
| "coordinator_input_step c (CiObservation v ob now) = snd (observation_updated ob now (c\<lparr>co_view := v\<rparr>))"
| "coordinator_input_step c (CiTurn env) = controller_turn env c"
| "coordinator_input_step c (CiWorkEnds n outcome) =
     c\<lparr>co_controller := map_option (finish_work n outcome) (co_controller c)\<rparr>"
| "coordinator_input_step c (CiRegistry allowed) = set_registry_allowed allowed c"
| "coordinator_input_step c CiDisable = disable_begins c"
| "coordinator_input_step c (CiCleanupDone ending) = registry_cleanup_done ending c"
| "coordinator_input_step c CiPersisted = c\<lparr>co_persistence_tasks := co_persistence_tasks c - 1\<rparr>"

end
