(* ===== verification/Coordinator_Operations.thy ===== *)
theory Coordinator_Operations
  imports Coordinator
begin

text \<open>
  The operations of the coordinator that wait (\<open>coordinator.py\<close>).  Each await takes the next entry of
  the environment: the inputs that run meanwhile, whether the caller is cancelled there, and what the
  awaited call answers.  Inside \<open>_complete_despite_cancellation\<close> a transition runs as a task of its
  own, which the caller's cancellation does not reach.
\<close>

section \<open>Operations that wait\<close>

record await_env =
  ae_inputs :: "coordinator_input list"
  ae_cancelled :: bool
  ae_raises :: "exn option"
  ae_core :: core_state
  ae_write :: write_io
  ae_load :: load_io

text \<open>The first argument says whether the running task is the caller's, which can be cancelled.\<close>

type_synonym 'a co = "bool \<Rightarrow> await_env list \<Rightarrow> coordinator \<Rightarrow> 'a progress \<times> await_env list \<times> coordinator"

definition co_return :: "'a \<Rightarrow> 'a co" where
  "co_return x k env c = (Finished (Inr x), env, c)"

definition co_raise :: "exn \<Rightarrow> 'a co" where
  "co_raise e k env c = (Finished (Inl e), env, c)"

definition co_bind :: "'a co \<Rightarrow> ('a \<Rightarrow> 'b co) \<Rightarrow> 'b co" where
  "co_bind m f k env c =
     (case m k env c of
        (Finished (Inr x), env, c) \<Rightarrow> f x k env c
      | (Finished (Inl e), env, c) \<Rightarrow> (Finished (Inl e), env, c)
      | (Blocked, env, c) \<Rightarrow> (Blocked, env, c))"

abbreviation co_then :: "unit co \<Rightarrow> 'b co \<Rightarrow> 'b co" where
  "co_then m n \<equiv> co_bind m (\<lambda>_. n)"

definition co_modify :: "(coordinator \<Rightarrow> coordinator) \<Rightarrow> unit co" where
  "co_modify f k env c = (Finished (Inr ()), env, f c)"

definition co_get :: "(coordinator \<Rightarrow> 'a co) \<Rightarrow> 'a co" where
  "co_get f k env c = f c k env c"

text \<open>A synchronous method, and \<open>except BaseException\<close>, \<open>except Exception\<close>, \<open>finally\<close>.\<close>

definition co_sync :: "('a, coordinator) st \<Rightarrow> 'a co" where
  "co_sync m k env c = (case m c of (r, c) \<Rightarrow> (Finished r, env, c))"

definition co_catch :: "'a co \<Rightarrow> (exn \<Rightarrow> 'a co) \<Rightarrow> 'a co" where
  "co_catch m h k env c =
     (case m k env c of
        (Finished (Inl e), env, c) \<Rightarrow> h e k env c
      | (p, env, c) \<Rightarrow> (p, env, c))"

definition co_except :: "'a co \<Rightarrow> (exn \<Rightarrow> 'a co) \<Rightarrow> 'a co" where
  "co_except m h = co_catch m (\<lambda>e. if e = CancelledError then co_raise e else h e)"

definition co_finally :: "'a co \<Rightarrow> (bool \<Rightarrow> unit co) \<Rightarrow> 'a co" where
  "co_finally m g =
     co_bind (co_catch (co_bind m (\<lambda>x. co_return (Inr x))) (\<lambda>e. co_return (Inl e)))
       (\<lambda>r. co_then (g (\<not> isl r)) (case r of Inl e \<Rightarrow> co_raise e | Inr x \<Rightarrow> co_return x))"

definition run_co_inputs :: "coordinator_input list \<Rightarrow> coordinator \<Rightarrow> coordinator" where
  "run_co_inputs is c = foldl coordinator_input_step c is"

definition co_await :: "(await_env \<Rightarrow> coordinator \<Rightarrow> 'a progress \<times> coordinator) \<Rightarrow> 'a co" where
  "co_await answer k env c =
     (case env of
        [] \<Rightarrow> (Blocked, [], c)
      | v # env \<Rightarrow>
          let c = run_co_inputs (ae_inputs v) c
          in if k \<and> ae_cancelled v then (Finished (Inl CancelledError), env, c)
             else (case answer v c of (p, c) \<Rightarrow> (p, env, c)))"

text \<open>A call into the client: logged when it is made, answered by the environment.\<close>

definition answer_call :: "await_env \<Rightarrow> coordinator \<Rightarrow> unit progress \<times> coordinator" where
  "answer_call v c = (Finished (case ae_raises v of Some e \<Rightarrow> Inl e | None \<Rightarrow> Inr ()), c)"

definition client_call :: "coordinator_call \<Rightarrow> unit co" where
  "client_call x = co_then (co_modify (co_call x)) (co_await answer_call)"

text \<open>\<open>_complete_despite_cancellation\<close>: the caller's cancellation is raised once the task has ended.\<close>

definition complete_despite_cancellation :: "unit co \<Rightarrow> unit co" where
  "complete_despite_cancellation m k env c =
     (case env of
        [] \<Rightarrow> (Blocked, [], c)
      | v # env \<Rightarrow>
          (case m False env c of
             (Finished r, env, c) \<Rightarrow> (Finished (if k \<and> ae_cancelled v then Inl CancelledError else r), env, c)
           | (Blocked, env, c) \<Rightarrow> (Blocked, env, c)))"

text \<open>The control lock, from its acquisition on.\<close>

definition with_lock :: "'a co \<Rightarrow> 'a co" where
  "with_lock m = co_bind (co_await (\<lambda>v c. (Finished (Inr ()), c))) (\<lambda>_. m)"

text \<open>A control of the actor: the caller waits for its future, which a turn of the actor settles.\<close>

definition control_answer :: "nat \<Rightarrow> await_env \<Rightarrow> coordinator \<Rightarrow> unit progress \<times> coordinator" where
  "control_answer i v c =
     (case co_controller c of
        None \<Rightarrow> (Blocked, c)
      | Some ct \<Rightarrow>
          (case ct_controls ct ! i of
             None \<Rightarrow> (Blocked, c)
           | Some Returned \<Rightarrow> (Finished (Inr ()), c)
           | Some (Failed e) \<Rightarrow> (Finished (Inl e), c)
           | Some Cancelled \<Rightarrow> (Finished (Inl CancelledError), c)))"

definition begin_control :: "(nat, controller) st \<Rightarrow> (nat, coordinator) st" where
  "begin_control m c =
     (case co_controller c of
        None \<Rightarrow> (Inl AssertionError, c)
      | Some ct \<Rightarrow> (case m ct of (r, ct) \<Rightarrow> (r, c\<lparr>co_controller := Some ct\<rparr>)))"

definition control_and_wait :: "(nat, controller) st \<Rightarrow> unit co" where
  "control_and_wait m = co_bind (co_sync (begin_control m)) (\<lambda>i. co_await (control_answer i))"

definition forget_actor :: "unit co" where
  "forget_actor = co_modify (\<lambda>c. c\<lparr>co_controller := map_option shutdown_finished (co_controller c)\<rparr>)"

definition controller_shutdown :: "unit co" where
  "controller_shutdown =
     co_get (\<lambda>c. if map_option ct_actor (co_controller c) = Some NotStarted then co_return ()
                 else co_then (control_and_wait (control Shutdown None None)) forget_actor)"

text \<open>The remembered selection; without a memory nothing is stored.\<close>

definition memory_set_active :: "bool \<Rightarrow> unit co" where
  "memory_set_active active k env c =
     co_await (\<lambda>v c. case set_active (ae_core v) (ae_write v) (ae_load v) False active (co_stored c) of
                       (r, stored) \<Rightarrow> (Finished r, c\<lparr>co_stored := stored\<rparr>)) False env c"

definition memory_clear :: "unit co" where
  "memory_clear k env c =
     co_await (\<lambda>v c. case clear (ae_core v) (ae_write v) (ae_load v) False (co_stored c) of
                       (r, stored) \<Rightarrow> (Finished r, c\<lparr>co_stored := stored\<rparr>)) False env c"

section \<open>Commands\<close>

definition translate_error :: "exn \<Rightarrow> unit co" where
  "translate_error e =
     (if e = HomeAssistantError then co_then (co_modify (\<lambda>c. c\<lparr>co_cause := None\<rparr>)) (co_raise e)
      else if is_client_error e \<or> is_value_error e
      then co_then (co_modify (\<lambda>c. c\<lparr>co_cause := Some e\<rparr>)) (co_raise HomeAssistantError)
      else co_raise e)"

definition co_execute :: "command \<Rightarrow> command_origin \<Rightarrow> unit co" where
  "co_execute cmd origin =
     co_get (\<lambda>c.
       if co_publishing c then co_raise RuntimeError
       else co_catch
              (if origin = CUSTOM_AUTO \<and> \<not> co_command_gate c then co_raise HomeAssistantError
               else client_call (CallExecute cmd origin))
              translate_error)"

definition query_air_quality :: "unit co" where
  "query_air_quality =
     co_get (\<lambda>c. if co_publishing c then co_raise RuntimeError
       else co_catch (client_call CallQueryAirQuality)
              (\<lambda>e. co_raise (if is_client_error e then HomeAssistantError else e)))"

definition cancel_air_quality :: "unit co" where
  "cancel_air_quality =
     co_get (\<lambda>c. if co_publishing c then co_raise RuntimeError else client_call CallCancelAirQuality)"

definition set_light_power :: "bool \<Rightarrow> unit co" where
  "set_light_power on = co_execute (SetNightLightPower on) HOME_ASSISTANT"

definition set_light_brightness :: "int \<Rightarrow> unit co" where
  "set_light_brightness percent = co_execute (SetNightLightBrightness percent) HOME_ASSISTANT"

definition set_light_rgb :: "int \<times> int \<times> int \<Rightarrow> unit co" where
  "set_light_rgb rgb = (case rgb of (r, g, b) \<Rightarrow> co_execute (SetNightLightColor r g b) HOME_ASSISTANT)"

definition coordinator_wait_until_ready :: "unit co" where
  "coordinator_wait_until_ready = client_call CallWaitReady"

text \<open>\<open>_async_update_data\<close>: the error is the \<open>UpdateFailed\<close> of Home Assistant.\<close>

definition update_data :: "coordinator \<Rightarrow> purifier_state res" where
  "update_data c = (if cv_ready (co_view c) then Inr (cv_state (co_view c)) else Inl HomeAssistantError)"

text \<open>Powering off brackets the command with the power transition of the actor.\<close>

definition when_controller :: "unit co \<Rightarrow> unit co" where
  "when_controller m = co_get (\<lambda>c. if co_controller c = None then co_return () else m)"

definition set_power :: "bool \<Rightarrow> unit co" where
  "set_power on =
     (if on then co_execute (SetPower True) HOME_ASSISTANT
      else with_lock (co_finally
        (co_then (when_controller (complete_despite_cancellation (control_and_wait begin_power_off)))
           (co_execute (SetPower False) HOME_ASSISTANT))
        (\<lambda>confirmed_off. when_controller (co_get (\<lambda>c. complete_despite_cancellation
           (control_and_wait (finish_power_off
              (if confirmed_off then Some False else ps_power (co_data c)))))))))"

section \<open>Ownership of the fan\<close>

definition suppressing_ownership_loss :: "unit co \<Rightarrow> unit co" where
  "suppressing_ownership_loss m =
     co_then (co_modify (\<lambda>c. c\<lparr>co_suppress := True\<rparr>))
       (co_finally m (\<lambda>_. co_modify (\<lambda>c. c\<lparr>co_suppress := False\<rparr>)))"

definition settle_handoff :: "handoff \<Rightarrow> unit co" where
  "settle_handoff h = co_modify (\<lambda>c. publish_custom_auto (c\<lparr>co_handoff := h\<rparr>))"

definition ha_override_transaction :: "unit co" where
  "ha_override_transaction =
     co_then (co_get (\<lambda>c. if co_memory c \<and> co_command_gate c then memory_set_active False else co_return ()))
      (co_then (suppressing_ownership_loss (control_and_wait ha_override))
        (settle_handoff (handoff_because ''superseded'' ''ownership_yielded_to_ha'')))"

definition apply_ha_fan_mode :: "fan_mode \<Rightarrow> bool \<Rightarrow> unit co" where
  "apply_ha_fan_mode mode power_on =
     with_lock
      (co_then (when_controller (complete_despite_cancellation ha_override_transaction))
        (co_then (if power_on then co_execute (SetPower True) HOME_ASSISTANT else co_return ())
          (co_execute (SetFanMode mode) HOME_ASSISTANT)))"

definition set_fan_mode :: "fan_mode \<Rightarrow> command_origin \<Rightarrow> unit co" where
  "set_fan_mode mode origin =
     (if origin = HOME_ASSISTANT then apply_ha_fan_mode mode False
      else co_execute (SetFanMode mode) origin)"

text \<open>The callback of the actor's command workers.\<close>

definition custom_auto_fan_mode :: "fan_mode \<Rightarrow> command_origin \<Rightarrow> unit co" where
  "custom_auto_fan_mode mode origin =
     (if origin \<noteq> CUSTOM_AUTO then co_raise ValueError
      else co_get (\<lambda>c. if \<not> co_command_gate c then co_raise HomeAssistantError
                       else set_fan_mode mode origin))"

definition ensure_activation_allowed :: "unit co" where
  "ensure_activation_allowed =
     co_get (\<lambda>c. if co_terminal_blocked c \<or> \<not> co_command_gate c then co_raise HomeAssistantError else co_return ())"

text \<open>An error that is collected instead of raised.\<close>

definition collecting :: "unit co \<Rightarrow> exn list co" where
  "collecting m = co_except (co_then m (co_return [])) (\<lambda>e. co_return [e])"

definition when_memory :: "unit co \<Rightarrow> unit co" where
  "when_memory m = co_get (\<lambda>c. if co_memory c then m else co_return ())"

definition rollback_activation :: "exn list co" where
  "rollback_activation =
     co_then (co_modify (\<lambda>c. c\<lparr>co_suppress := True\<rparr>))
      (co_finally
        (co_bind (collecting (control_and_wait deactivate)) (\<lambda>errors.
           co_bind (collecting (when_memory (memory_set_active False))) (\<lambda>more. co_return (errors @ more))))
        (\<lambda>_. co_modify (\<lambda>c. c\<lparr>co_suppress := False\<rparr>)))"

definition activate_transaction :: "unit co" where
  "activate_transaction =
     co_then (when_memory (memory_set_active True))
      (co_then (co_modify (\<lambda>c. c\<lparr>co_handoff := handoff_of ''idle''\<rparr>))
        (co_except (control_and_wait activate)
           (\<lambda>e. co_bind rollback_activation
              (\<lambda>errors. co_raise (if errors \<noteq> [] then HomeAssistantError else e)))))"

definition activate_custom_auto :: "unit co" where
  "activate_custom_auto =
     co_get (\<lambda>c. if co_controller c = None then co_raise HomeAssistantError
       else co_then ensure_activation_allowed
         (with_lock (co_then ensure_activation_allowed (complete_despite_cancellation activate_transaction))))"

text \<open>The hardware goes back to its own Auto mode, once, when it is powered and reachable.\<close>

definition handoff_to_hardware :: "unit co" where
  "handoff_to_hardware =
     co_then (settle_handoff (handoff_of ''pending''))
      (co_then
        (co_except (co_execute (SetFanMode AUTO) HANDOFF)
           (\<lambda>e. co_get (\<lambda>c.
              let cause = (if e = HomeAssistantError then (case co_cause c of Some x \<Rightarrow> x | None \<Rightarrow> e) else e)
              in co_then (settle_handoff ((handoff_of ''failed'')\<lparr>ho_error_type := Some cause\<rparr>)) (co_raise e))))
        (settle_handoff (handoff_of ''confirmed'')))"

definition retrying_not_attempted :: "coordinator \<Rightarrow> bool" where
  "retrying_not_attempted c \<longleftrightarrow> \<not> controller_active c \<and>
     ho_state (co_handoff c) \<in> {''not_attempted_unknown_power'', ''not_attempted_unavailable''}"

definition yield_hardware :: "bool \<Rightarrow> bool \<Rightarrow> unit co" where
  "yield_hardware was_active retrying =
     co_get (\<lambda>c.
       if \<not> was_active \<and> \<not> retrying
       then settle_handoff (handoff_because ''superseded'' ''ownership_already_yielded'')
       else if ps_power (co_data c) = Some False
       then settle_handoff (handoff_because ''not_required'' ''powered_off'')
       else if ps_power (co_data c) = None
       then settle_handoff (handoff_because ''not_attempted_unknown_power'' ''power_unknown'')
       else if \<not> co_available c \<or> \<not> cv_ready (co_view c)
       then settle_handoff (handoff_because ''not_attempted_unavailable'' ''unavailable'')
       else handoff_to_hardware)"

definition deactivate_and_handoff :: "bool \<Rightarrow> unit co" where
  "deactivate_and_handoff persist =
     co_then (if persist then when_memory (memory_set_active False) else co_return ())
      (co_get (\<lambda>c.
        co_then (suppressing_ownership_loss (control_and_wait deactivate))
          (yield_hardware (controller_active c) (retrying_not_attempted c))))"

definition deactivate_custom_auto :: "unit co" where
  "deactivate_custom_auto =
     co_get (\<lambda>c. if co_controller c = None then co_raise HomeAssistantError
       else with_lock (complete_despite_cancellation (deactivate_and_handoff True)))"

text \<open>Around a reload: drain without touching the remembered selection, and re-arm.\<close>

definition quiesce_custom_auto :: "bool co" where
  "quiesce_custom_auto =
     co_get (\<lambda>c. if co_controller c = None then co_return False
       else with_lock (co_get (\<lambda>c.
         co_then (complete_despite_cancellation (deactivate_and_handoff False)) (co_return (controller_active c)))))"

definition rearm_after_quiesce :: "unit co" where
  "rearm_after_quiesce =
     co_get (\<lambda>c. if co_controller c = None then co_return ()
       else co_then ensure_activation_allowed
         (with_lock (co_then ensure_activation_allowed
           (complete_despite_cancellation (control_and_wait activate)))))"

section \<open>Losing ownership\<close>

definition persist_ownership_loss :: "unit co" where
  "persist_ownership_loss =
     when_memory (co_except (memory_set_active False) (\<lambda>e. co_return ()))"

definition persist_autonomous_ownership_loss :: "unit co" where
  "persist_autonomous_ownership_loss =
     co_except
       (with_lock (co_get (\<lambda>c.
          if co_controller c = None \<or> controller_active c \<or> \<not> co_command_gate c then co_return ()
          else persist_ownership_loss)))
       (\<lambda>e. co_return ())"

section \<open>Registry cleanup\<close>

definition registry_cleanup_transaction :: "unit co" where
  "registry_cleanup_transaction =
     co_bind
       (co_get (\<lambda>c. if co_controller c \<noteq> None \<and> co_started c
                    then collecting (deactivate_and_handoff False) else co_return []))
       (\<lambda>errors. co_then (when_memory memory_clear)
          (case errors of [] \<Rightarrow> co_return () | e # es \<Rightarrow> co_raise e))"

definition serve_cleanup :: "int \<Rightarrow> unit co" where
  "serve_cleanup generation =
     co_modify (\<lambda>c. c\<lparr>co_cleanup_served := max (co_cleanup_served c) generation\<rparr>)"

definition CLEANUP_RETRIES :: nat where
  "CLEANUP_RETRIES = 2"

text \<open>The attempts for one generation, by the retries left; returning means the loop looks at the
  newest generation.\<close>

definition cleanup_attempt :: "int \<Rightarrow> exn option co" where
  "cleanup_attempt generation =
     co_except
       (co_then (with_lock registry_cleanup_transaction)
         (co_then (co_modify (\<lambda>c. if generation = co_cleanup_generation c
                                 then c\<lparr>co_cleanup_required := False\<rparr> else c))
           (co_then (serve_cleanup generation) (co_return None))))
       (\<lambda>e. co_return (Some e))"

definition is_current_cleanup :: "int \<Rightarrow> coordinator \<Rightarrow> bool" where
  "is_current_cleanup generation c \<longleftrightarrow> generation = co_cleanup_generation c"

fun cleanup_attempts :: "nat \<Rightarrow> int \<Rightarrow> unit co" where
  "cleanup_attempts 0 generation =
     co_bind (cleanup_attempt generation) (\<lambda>failed. case failed of
        None \<Rightarrow> co_return ()
      | Some e \<Rightarrow> co_then (serve_cleanup generation)
          (co_get (\<lambda>c. if is_current_cleanup generation c then co_raise e else co_return ())))"
| "cleanup_attempts (Suc left) generation =
     co_bind (cleanup_attempt generation) (\<lambda>failed. case failed of
        None \<Rightarrow> co_return ()
      | Some e \<Rightarrow> co_then (co_await (\<lambda>v c. (Finished (Inr ()), c)))
          (co_get (\<lambda>c. if is_current_cleanup generation c then cleanup_attempts left generation
                       else co_return ())))"

text \<open>Every iteration waits for the lock, so the environment bounds their number.\<close>

fun cleanup_rounds :: "nat \<Rightarrow> unit co" where
  "cleanup_rounds 0 k env c = (Blocked, env, c)"
| "cleanup_rounds (Suc n) k env c =
     (if co_cleanup_required c \<and> \<not> co_shutdown c
      then co_then (cleanup_attempts CLEANUP_RETRIES (co_cleanup_generation c)) (cleanup_rounds n) k env c
      else (Finished (Inr ()), env, if reopens_gate c then c\<lparr>co_command_gate := True\<rparr> else c))"

definition registry_cleanup_loop :: "unit co" where
  "registry_cleanup_loop k env = cleanup_rounds (Suc (length env)) k env"

definition terminal_cleanup :: "int \<Rightarrow> unit co" where
  "terminal_cleanup generation =
     with_lock (co_then registry_cleanup_transaction
       (co_then (serve_cleanup generation)
         (co_modify (\<lambda>c. if generation = co_cleanup_generation c
                         then c\<lparr>co_cleanup_required := False\<rparr> else c))))"

definition disable_and_clear :: "unit co" where
  "disable_and_clear =
     co_then (co_modify disable_begins)
      (co_get (\<lambda>c. co_catch (complete_despite_cancellation (terminal_cleanup (co_cleanup_generation c)))
        (\<lambda>e. co_then
           (co_modify (\<lambda>c. if co_cleanup_required c \<and> co_started c \<and> \<not> co_cleanup_task c
                           then schedule_registry_cleanup c else c))
           (co_raise e))))"

section \<open>Start and shutdown\<close>

definition remove_registry_listener :: "coordinator \<Rightarrow> coordinator" where
  "remove_registry_listener c = c\<lparr>co_registry_listener := False\<rparr>"

definition drop_state_listener :: "coordinator \<Rightarrow> coordinator" where
  "drop_state_listener c =
     c\<lparr>co_controller := map_option (remove_state_listener CONTROLLER_LISTENER) (co_controller c)\<rparr>"

text \<open>\<open>asyncio.gather\<close> over tasks the coordinator owns: the cleanup task, whose exception it gives, and
  the persistence tasks.\<close>

fun first_cleanup_end :: "coordinator_input list \<Rightarrow> task_end option" where
  "first_cleanup_end [] = None"
| "first_cleanup_end (CiCleanupDone ending # is) = Some ending"
| "first_cleanup_end (i # is) = first_cleanup_end is"

definition gather_cleanup :: "exn list co" where
  "gather_cleanup =
     co_get (\<lambda>c. if \<not> co_cleanup_task c then co_return []
       else co_await (\<lambda>v c. (case first_cleanup_end (ae_inputs v) of
                None \<Rightarrow> Blocked
              | Some (TaskRaised e) \<Rightarrow> Finished (Inr [e])
              | Some _ \<Rightarrow> Finished (Inr []), c)))"

definition gather_persistence :: "unit co" where
  "gather_persistence =
     co_get (\<lambda>c. if co_persistence_tasks c = 0 then co_return ()
       else co_await (\<lambda>v c. (if co_persistence_tasks c = 0 then Finished (Inr ()) else Blocked, c)))"

definition required_cleanup :: "unit co \<Rightarrow> exn list co" where
  "required_cleanup m =
     co_get (\<lambda>c. if \<not> co_cleanup_required c then co_return []
       else collecting (with_lock (co_then m (co_modify (\<lambda>c. c\<lparr>co_cleanup_required := False\<rparr>)))))"

definition cleanup_failed_start :: "unit co" where
  "cleanup_failed_start =
     co_then (co_modify (\<lambda>c. remove_registry_listener (c\<lparr>co_started := False\<rparr>)))
      (co_bind gather_cleanup (\<lambda>_.
        (co_bind (required_cleanup registry_cleanup_transaction) (\<lambda>errors.
          co_then (co_modify (\<lambda>c. c\<lparr>co_shutdown := True, co_observing := False\<rparr>))
           (co_then (gather_persistence)
             (co_bind (co_get (\<lambda>c. if co_controller c = None then co_return []
                  else collecting (suppressing_ownership_loss controller_shutdown))) (\<lambda>more.
               co_then (co_modify drop_state_listener)
                (co_bind (collecting (client_call CallClientShutdown)) (\<lambda>last_errors.
                   if errors @ more @ last_errors \<noteq> [] then co_raise HomeAssistantError else co_return ())))))))))"

definition start_controller :: "time \<Rightarrow> unit co" where
  "start_controller now =
     when_controller
      (co_then (co_modify (\<lambda>c. c\<lparr>co_controller :=
           map_option (\<lambda>ct. add_state_listener CONTROLLER_LISTENER (start ct)) (co_controller c),
           co_observing := True\<rparr>))
       (co_then (co_get (\<lambda>c. co_sync (on_controller
             (set_connection (co_available c) (cv_generation (co_view c)) (Some now) now))))
         (co_get (\<lambda>c. case ps_power (co_data c) of
             Some powered \<Rightarrow> co_sync (on_controller (set_powered powered)) | None \<Rightarrow> co_return ()))))"

definition coordinator_start :: "time \<Rightarrow> unit co" where
  "coordinator_start now =
     co_get (\<lambda>c.
       if co_started c then co_return ()
       else if co_shutdown c then co_raise RuntimeError
       else co_catch
         (co_then (start_controller now)
           (co_then (co_modify (\<lambda>c. c\<lparr>co_started := True\<rparr>))
             (co_then (co_get (\<lambda>c. if co_cleanup_required c then registry_cleanup_loop else co_return ()))
               (co_then (co_get (\<lambda>c. if co_controller c \<noteq> None \<and> co_restore c \<and> co_command_gate c
                                     then control_and_wait activate else co_return ()))
                 (client_call CallClientStart)))))
         (\<lambda>startup_error. co_bind
            (co_catch (co_then (complete_despite_cancellation cleanup_failed_start) (co_return None))
               (\<lambda>e. co_return (Some e)))
            (\<lambda>cleanup_error. co_raise
               (if cleanup_error = None \<or> startup_error = CancelledError then startup_error
                else HomeAssistantError))))"

definition coordinator_shutdown :: "unit co" where
  "coordinator_shutdown =
     co_get (\<lambda>c. if co_shutdown c then co_return ()
       else
        co_then (co_modify remove_registry_listener)
         (co_bind gather_cleanup (\<lambda>task_errors.
          (co_bind (required_cleanup (complete_despite_cancellation registry_cleanup_transaction)) (\<lambda>errors.
           co_then (co_modify (\<lambda>c. c\<lparr>co_shutdown := True, co_observing := False, co_started := False\<rparr>))
            (co_then (gather_persistence)
             (co_then (when_controller (with_lock (suppressing_ownership_loss controller_shutdown)))
              (co_then (co_modify drop_state_listener)
               (co_bind (collecting (client_call CallClientShutdown)) (\<lambda>more.
                 case errors @ task_errors @ more of [] \<Rightarrow> co_return () | e # es \<Rightarrow> co_raise e))))))))))"

end
