(* ===== verification/Coordinator_Control.thy ===== *)
theory Coordinator_Control
  imports Coordinator_Operations
begin

text \<open>
  Controls of the Custom Auto actor as the coordinator uses them: a control that was answered has been
  handled, and what it establishes lasts as long as no control that undoes it was queued behind it.
\<close>

section \<open>Intent\<close>

text \<open>The part of the actor that only controls and physical fan changes move.\<close>

definition same_intent :: "controller \<Rightarrow> controller \<Rightarrow> bool" where
  "same_intent c c' \<longleftrightarrow> ct_active c' = ct_active c \<and> ct_power_transition c' = ct_power_transition c \<and>
     ct_controls c' = ct_controls c \<and> ct_queue c' = ct_queue c \<and> ct_actor c' = ct_actor c"

named_theorems intent_intros \<open>one fact per step of the actor that keeps its intent\<close>

lemma same_intent_refl [simp, intro]: "same_intent c c"
  by (simp add: same_intent_def)

lemma same_intent_trans [trans]: "same_intent a b \<Longrightarrow> same_intent b c \<Longrightarrow> same_intent a c"
  by (simp add: same_intent_def)

lemma same_intent_fields:
  "ct_active c' = ct_active c \<Longrightarrow> ct_power_transition c' = ct_power_transition c \<Longrightarrow>
   ct_controls c' = ct_controls c \<Longrightarrow> ct_queue c' = ct_queue c \<Longrightarrow> ct_actor c' = ct_actor c \<Longrightarrow> same_intent c c'"
  by (simp add: same_intent_def)

lemma same_intent_bind:
  assumes "same_intent a (snd (m c))" "\<And>x c. same_intent a c \<Longrightarrow> same_intent a (snd (f x c))"
  shows "same_intent a (snd (st_bind m f c))"
  using assms by (cases "m c"; cases "fst (m c)") (auto simp: st_bind_def)

lemma same_intent_cancel [intent_intros]: "same_intent c (cancel_kinds env ks c)"
proof -
  have "same_intent x (cancel_kind env k x)" for k x
    by (auto simp: cancel_kind_def same_intent_def split: option.split)
  then show ?thesis
    unfolding cancel_kinds_def by (induction ks arbitrary: c) (auto intro: same_intent_trans)
qed

lemma same_intent_spawn [intent_intros]: "same_intent c (spawn kind target deadline c)"
  by (simp add: spawn_def same_intent_def)

lemma same_intent_request [intent_intros]: "same_intent c (request_sample c)"
  by (auto simp: request_sample_def same_intent_def spawn_def split: option.split)

lemma same_intent_fresh [intent_intros]: "same_intent c (request_fresh_if_usable c)"
  by (auto simp: request_fresh_if_usable_def intent_intros)

lemma same_intent_send [intent_intros]: "same_intent c (send_command target c)"
  by (simp add: send_command_def spawn_def same_intent_def)

lemma same_intent_schedule [intent_intros]: "same_intent c (schedule_pending_command_if_usable c)"
  by (auto simp: schedule_pending_command_if_usable_def intent_intros split: option.split)

lemma same_intent_apply [intent_intros]: "same_intent c (apply_policy_result env r c)"
proof -
  let ?c1 = "cancel_kinds env [TimerWork] c"
  let ?c2 = "case pr_target r of Some target \<Rightarrow>
      if ct_workers ?c1 CommandWork = None \<and> \<not> ct_power_transition ?c1 then send_command target ?c1 else ?c1
    | None \<Rightarrow> ?c1"
  let ?c3 = "if pr_request_sample r then request_sample ?c2 else ?c2"
  have "same_intent c ?c1" by (rule same_intent_cancel)
  moreover have "same_intent ?c1 ?c2" by (auto simp: intent_intros split: option.split)
  moreover have "same_intent ?c2 ?c3" by (auto simp: intent_intros)
  moreover have "same_intent ?c3 (apply_policy_result env r c)"
    unfolding apply_policy_result_def Let_def by (auto simp: intent_intros split: option.split)
  ultimately show ?thesis by (blast intro: same_intent_trans)
qed

lemma same_intent_adopt [intent_intros]: "same_intent c (snd (adopt_result env r c))"
proof (cases r)
  case (Inr x)
  have "same_intent c (c\<lparr>ct_policy := pr_state x\<rparr>)" by (simp add: same_intent_def)
  also have "same_intent \<dots> (apply_policy_result env x \<dots>)" by (rule same_intent_apply)
  finally show ?thesis using Inr by (simp add: adopt_result_def)
qed (simp add: adopt_result_def)

lemma same_intent_invalidate [intent_intros]: "same_intent c (snd (invalidate_operational env b barrier c))"
proof -
  let ?c1 = "c\<lparr>ct_activation_generation := ct_activation_generation c + 1,
      ct_sample_barrier_revision := ct_last_seen_air_revision c,
      ct_sample_barrier_observed_at := (case ct_sample_barrier_observed_at c of
         None \<Rightarrow> Some (case barrier of None \<Rightarrow> se_now env | Some t \<Rightarrow> t)
       | Some t \<Rightarrow> Some (max t (case barrier of None \<Rightarrow> se_now env | Some t \<Rightarrow> t)))\<rparr>"
  have "same_intent c ?c1" by (simp add: same_intent_def)
  from same_intent_trans[OF this same_intent_cancel[of ?c1 env WORK_KINDS]] show ?thesis
    unfolding invalidate_operational_def Let_def by (auto simp: same_intent_def split: sum.split)
qed

lemma same_intent_invalidate_request [intent_intros]: "same_intent c (snd (invalidate_and_request env barrier c))"
  unfolding invalidate_and_request_def
  by (rule same_intent_bind) (auto intro: same_intent_invalidate same_intent_trans[OF _ same_intent_fresh])

lemma same_intent_after:
  "same_intent c' (snd r) \<Longrightarrow> same_intent c c' \<Longrightarrow> same_intent c (snd r)"
  by (rule same_intent_trans)

lemma same_intent_return:
  "same_intent c (snd (m c)) \<Longrightarrow> same_intent c (snd (st_bind m (\<lambda>_. st_return x) c))"
  by (rule same_intent_bind) auto

lemma same_intent_connection [intent_intros]:
  "same_intent c (snd (handle_connection env available generation observed_at c))"
  by (auto simp: handle_connection_def Let_def same_intent_fields
      intro!: same_intent_after[OF same_intent_invalidate_request])

lemma same_intent_power [intent_intros]: "same_intent c (snd (handle_power env powered c))"
  by (auto simp: handle_power_def same_intent_fields intro!: same_intent_after[OF same_intent_invalidate_request])

lemma same_intent_air_quality [intent_intros]: "same_intent c (snd (handle_air_quality env p pm25 c))"
proof -
  let ?c = "remember_reading p pm25 (c\<lparr>ct_last_seen_air_revision := Some (ob_revision p)\<rparr>)"
  have same: "same_intent c ?c" "same_intent c (c\<lparr>ct_last_seen_air_revision := Some (ob_revision p)\<rparr>)"
    by (auto simp: remember_reading_def same_intent_def split: option.split)
  have "same_intent c (snd (adopt_result env r ?c))" for r
    using same_intent_trans[OF same(1) same_intent_adopt] .
  with same show ?thesis
    unfolding handle_air_quality_def Let_def by (auto split: sum.split)
qed

lemma same_intent_command_done [intent_intros]:
  "same_intent c (snd (command_succeeded env target c))" "same_intent c (snd (command_failed e c))"
proof -
  show "same_intent c (snd (command_failed e c))"
    by (auto simp: command_failed_def redirect_failed_def same_intent_fields split: sum.split)
  have adopts: "same_intent c (snd (st_bind (\<lambda>c. adopt_result env (f c) c) (\<lambda>_ c. adopt_result env (g c) c) x))"
    if "same_intent c x" for f g x
    by (rule same_intent_bind) (use that same_intent_trans same_intent_adopt in blast)+
  show "same_intent c (snd (command_succeeded env target c))"
    unfolding command_succeeded_def by (auto intro!: adopts simp: same_intent_fields split: option.split sum.split)
qed

lemma same_intent_work_done [intent_intros]:
  "same_intent c (snd (handle_work_done env kind n token succeeded cancelled target e c))"
proof -
  let ?c = "c\<lparr>ct_workers := (ct_workers c)(kind := None)\<rparr>"
  have same: "same_intent c ?c" by (simp add: same_intent_def)
  have "same_intent c x" if "same_intent ?c x" for x using same_intent_trans[OF same that] .
  moreover have "same_intent ?c (redirect_failed (?c\<lparr>ct_last_error_type := e\<rparr>))"
    by (simp add: redirect_failed_def same_intent_def)
  ultimately show ?thesis
    using same same_intent_adopt same_intent_schedule same_intent_command_done
    by (cases kind) (auto simp: handle_work_done_def Let_def)
qed

text \<open>Only \<open>Activate\<close> makes the policy active; a fixed physical speed and the controls that yield make it
  inactive.\<close>

definition activates :: "controller_event \<Rightarrow> bool" where
  "activates e = (case e of EvControl action i options powered \<Rightarrow> action = Activate | _ \<Rightarrow> False)"

definition begins_transition :: "controller_event \<Rightarrow> bool" where
  "begins_transition e = (case e of EvControl action i options powered \<Rightarrow> action = BeginPowerOff | _ \<Rightarrow> False)"

definition control_index :: "controller_event \<Rightarrow> nat option" where
  "control_index e = (case e of EvControl action i options powered \<Rightarrow> Some i | _ \<Rightarrow> None)"

lemma control_index_simps [simp]:
  "control_index (EvControl action i options powered) = Some i"
  "control_index (EvConnection available generation t) = None"
  "control_index (EvPower b) = None"
  "control_index (EvObservation ob) = None"
  "control_index (EvWorkDone kind n token succeeded cancelled target error) = None"
  by (simp_all add: control_index_def)

lemma fut_settle_settles [simp]: "\<exists>y. fut_settle v f = Some y" "fut_settle v f \<noteq> None"
  by (cases f; simp)+

text \<open>What handling an event may do to the intent, and to the future of a control.\<close>

definition handles :: "controller_event \<Rightarrow> controller \<Rightarrow> controller \<Rightarrow> bool" where
  "handles e c c' \<longleftrightarrow> (ct_active c' \<longrightarrow> ct_active c \<or> activates e) \<and>
     (ct_power_transition c' \<longrightarrow> ct_power_transition c \<or> begins_transition e) \<and>
     ct_queue c' = ct_queue c \<and> ct_actor c' = ct_actor c \<and>
     length (ct_controls c') = length (ct_controls c) \<and>
     (\<forall>j < length (ct_controls c). control_index e \<noteq> Some j \<longrightarrow> ct_controls c' ! j = ct_controls c ! j)"

lemma same_intent_handles: "same_intent c c' \<Longrightarrow> handles e c c'"
  by (simp add: same_intent_def handles_def)

definition yields :: "control_action \<Rightarrow> bool" where
  "yields action \<longleftrightarrow> action \<in> {Deactivate, Override, Shutdown}"

lemma handle_control_intent:
  assumes "handle_control env action options powered c = (r, c')"
  shows "ct_active c' \<longrightarrow> ct_active c \<and> \<not> yields action \<or> action = Activate"
    "ct_power_transition c' \<longrightarrow> ct_power_transition c \<and> action \<noteq> FinishPowerOff \<or> action = BeginPowerOff"
    "ct_queue c' = ct_queue c" "ct_actor c' = ct_actor c" "ct_controls c' = ct_controls c"
proof -
  have after: "same_intent x (snd (st_bind (invalidate_and_request env None) (\<lambda>_. st_return b) x))"
    "same_intent x (snd (st_bind (invalidate_operational env True None) (\<lambda>_. st_return b) x))" for x and b :: bool
    by (rule same_intent_return, rule intent_intros)+
  from assms have "c' = snd (handle_control env action options powered c)" by simp
  then show "ct_active c' \<longrightarrow> ct_active c \<and> \<not> yields action \<or> action = Activate"
    "ct_power_transition c' \<longrightarrow> ct_power_transition c \<and> action \<noteq> FinishPowerOff \<or> action = BeginPowerOff"
    "ct_queue c' = ct_queue c" "ct_actor c' = ct_actor c" "ct_controls c' = ct_controls c"
    using after by (cases action; auto simp: handle_control_def yields_def same_intent_def split: option.splits)+
qed

lemma handle_handles: "handles e c (snd (handle env e c))"
proof (cases e)
  case (EvControl action i options powered)
  obtain r c' where h: "handle_control env action options powered c = (r, c')" by fastforce
  note f = handle_control_intent[OF h]
  show ?thesis
    using EvControl h f by (cases r) (auto simp: handle_def handles_def activates_def begins_transition_def control_index_def)
next
  case (EvObservation ob)
  show ?thesis
  proof (cases ob)
    case (AirQualityObservation p pm25 life)
    have "same_intent c (snd (st_bind (handle_air_quality env p pm25) (\<lambda>_. st_return False) c))"
      by (rule same_intent_return) (rule intent_intros)
    with EvObservation AirQualityObservation show ?thesis by (simp add: handle_def same_intent_handles)
  next
    case (FanModeObservation p mode)
    note intent = same_intent_invalidate[unfolded same_intent_def] same_intent_invalidate_request[unfolded same_intent_def]
    have "handles e c (snd (handle_fan_mode env p mode c))"
      by (auto simp: handle_fan_mode_def Let_def handles_def intent)
    moreover have "snd (st_bind m (\<lambda>_. st_return False) c) = snd (m c)" for m :: "(unit, controller) st"
      by (simp add: st_bind_def split: prod.split sum.split)
    ultimately show ?thesis using EvObservation FanModeObservation by (simp add: handle_def)
  qed
qed (auto simp: handle_def intro!: same_intent_handles same_intent_return intent_intros)

section \<open>What a control establishes\<close>

text \<open>Either the control still waits in the queue and nothing undoes it behind it, or it was answered,
  what it establishes holds, and nothing that undoes it is queued.\<close>

definition settles_with ::
    "control_action \<Rightarrow> (controller \<Rightarrow> bool) \<Rightarrow> (controller_event \<Rightarrow> bool) \<Rightarrow> nat \<Rightarrow> controller \<Rightarrow> bool" where
  "settles_with action good bad i c \<longleftrightarrow> i < length (ct_controls c) \<and>
     (if ct_controls c ! i = None
      then \<exists>pre options powered post. ct_queue c = pre @ EvControl action i options powered # post \<and>
             list_all (\<lambda>e. control_index e \<noteq> Some i) pre \<and> list_all (\<lambda>e. \<not> bad e) post
      else good c \<and> list_all (\<lambda>e. \<not> bad e) (ct_queue c))"

definition lasting :: "(controller \<Rightarrow> bool) \<Rightarrow> (controller_event \<Rightarrow> bool) \<Rightarrow> controller \<Rightarrow> bool" where
  "lasting good bad c \<longleftrightarrow> good c \<and> list_all (\<lambda>e. \<not> bad e) (ct_queue c)"

definition index_below :: "nat \<Rightarrow> controller_event \<Rightarrow> bool" where
  "index_below n e \<longleftrightarrow> (case control_index e of Some j \<Rightarrow> j < n | None \<Rightarrow> True)"

definition controls_ok :: "controller \<Rightarrow> bool" where
  "controls_ok c \<longleftrightarrow> list_all (index_below (length (ct_controls c))) (ct_queue c)"

text \<open>What the inputs of the coordinator do to the actor.\<close>

definition controller_closed :: "(controller \<Rightarrow> bool) \<Rightarrow> bool" where
  "controller_closed P \<longleftrightarrow>
     (\<forall>c env. P c \<longrightarrow> P (snd (actor_turn env c))) \<and>
     (\<forall>c e. control_index e = None \<longrightarrow> P c \<longrightarrow> P (snd (enqueue_event e c))) \<and>
     (\<forall>c n outcome. P c \<longrightarrow> P (finish_work n outcome c))"

text \<open>A turn handles the head of the queue.\<close>

lemma actor_turn_cases:
  obtains (idle) "snd (actor_turn env c) = c"
  | (handled) e rest a where "ct_queue c = e # rest"
      "snd (actor_turn env c) = (snd (handle env e (c\<lparr>ct_queue := rest\<rparr>)))\<lparr>ct_actor := a\<rparr>"
proof (cases "ct_queue c")
  case Nil
  then show ?thesis by (intro idle) (simp add: actor_turn_def)
next
  case (Cons e rest)
  show ?thesis
  proof (cases "ct_actor c = Running")
    case False
    with Cons show ?thesis by (intro idle) (simp add: actor_turn_def)
  next
    case True
    obtain r c1 where h: "handle env e (c\<lparr>ct_queue := rest\<rparr>) = (r, c1)" by fastforce
    show ?thesis
    proof (rule handled[OF Cons])
      show "snd (actor_turn env c) = (snd (handle env e (c\<lparr>ct_queue := rest\<rparr>)))
          \<lparr>ct_actor := ct_actor (snd (actor_turn env c))\<rparr>"
        using True Cons h by (auto simp: actor_turn_def split: sum.splits)
    qed
  qed
qed

lemma finish_work_queue:
  obtains (same) "finish_work n outcome c = c"
  | (reports) e ws where "finish_work n outcome c = c\<lparr>ct_queue := ct_queue c @ [e], ct_work := ws\<rparr>"
      "control_index e = None"
proof (cases "n < 1 \<or> length (ct_work c) < n \<or> wk_finished (wk c n)")
  case True
  then show ?thesis by (intro same) (auto simp: finish_work_def)
next
  case False
  then have open_work: "\<not> n < 1" "\<not> length (ct_work c) < n" "\<not> wk_finished (wk c n)" by simp_all
  let ?ws = "upd_at (n - 1) (\<lambda>w. w\<lparr>wk_finished := True\<rparr>) (ct_work c)"
  show ?thesis
  proof (cases outcome)
    case WorkSucceeded
    with open_work show ?thesis by - (rule reports[where ws = ?ws], simp add: finish_work_def Let_def, simp)
  next
    case WorkCancelled
    with open_work show ?thesis by - (rule reports[where ws = ?ws], simp add: finish_work_def Let_def, simp)
  next
    case (WorkFailed e)
    with open_work show ?thesis by - (rule reports[where ws = ?ws], simp add: finish_work_def Let_def, simp)
  qed
qed

lemma enqueue_event_queue:
  obtains (refused) "snd (enqueue_event e c) = c"
  | (queued) "snd (enqueue_event e c) = c\<lparr>ct_queue := ct_queue c @ [e]\<rparr>"
  by (cases "ct_actor c = Running") (simp_all add: enqueue_event_def)

lemma controls_ok_closed: "controller_closed controls_ok"
  unfolding controller_closed_def
proof (intro conjI allI impI)
  fix c env
  assume ok: "controls_ok c"
  show "controls_ok (snd (actor_turn env c))"
  proof (cases rule: actor_turn_cases[of env c])
    case (handled e rest a)
    with ok handle_handles[of e "c\<lparr>ct_queue := rest\<rparr>" env] show ?thesis
      by (simp add: controls_ok_def handles_def)
  qed (use ok in simp)
next
  fix c e
  assume "control_index e = None" "controls_ok c"
  then show "controls_ok (snd (enqueue_event e c))"
    by (cases rule: enqueue_event_queue[of e c]) (simp_all add: controls_ok_def index_below_def)
next
  fix c n outcome
  assume "controls_ok c"
  then show "controls_ok (finish_work n outcome c)"
    by (cases rule: finish_work_queue[of n outcome c]) (simp_all add: controls_ok_def index_below_def)
qed

locale control_effect =
  fixes action :: control_action and good :: "controller \<Rightarrow> bool" and bad :: "controller_event \<Rightarrow> bool"
  assumes establishes: "handle_control env action options powered c = (r, c') \<Longrightarrow> good c'"
    and keeps: "handles e c c' \<Longrightarrow> good c \<Longrightarrow> \<not> bad e \<Longrightarrow> good c'"
    and only_controls: "control_index e = None \<Longrightarrow> \<not> bad e"
    and bookkeeping: "good (c\<lparr>ct_queue := q\<rparr>) = good c" "good (c\<lparr>ct_actor := a\<rparr>) = good c"
      "good (c\<lparr>ct_work := ws\<rparr>) = good c" "good (c\<lparr>ct_controls := fs\<rparr>) = good c"
begin

lemma good_queue_work: "good (c\<lparr>ct_queue := q, ct_work := ws\<rparr>) = good c"
  using bookkeeping by metis

lemma lasting_turn: "lasting good bad c \<Longrightarrow> lasting good bad (snd (actor_turn env c))"
proof (cases rule: actor_turn_cases[of env c])
  case (handled e rest a)
  assume "lasting good bad c"
  with handled have g: "good (c\<lparr>ct_queue := rest\<rparr>)" "\<not> bad e" "list_all (\<lambda>e. \<not> bad e) rest"
    by (simp_all add: lasting_def bookkeeping)
  have h: "handles e (c\<lparr>ct_queue := rest\<rparr>) (snd (handle env e (c\<lparr>ct_queue := rest\<rparr>)))" by (rule handle_handles)
  from keeps[OF h g(1,2)] h g(3) handled(2) show ?thesis
    by (simp add: lasting_def bookkeeping handles_def)
qed simp

lemma lasting_closed: "controller_closed (lasting good bad)"
  unfolding controller_closed_def
proof (intro conjI allI impI)
  fix c e
  assume "control_index e = None" "lasting good bad c"
  then show "lasting good bad (snd (enqueue_event e c))"
    by (cases rule: enqueue_event_queue[of e c]) (simp_all add: lasting_def bookkeeping only_controls)
next
  fix c n outcome
  assume "lasting good bad c"
  then show "lasting good bad (finish_work n outcome c)"
    by (cases rule: finish_work_queue[of n outcome c]) (simp_all add: lasting_def good_queue_work only_controls)
qed (rule lasting_turn)

lemma settles_turn:
  assumes "settles_with action good bad i c"
  shows "settles_with action good bad i (snd (actor_turn env c))"
proof (cases rule: actor_turn_cases[of env c])
  case idle
  with assms show ?thesis by simp
next
  case (handled e rest a)
  let ?c = "c\<lparr>ct_queue := rest\<rparr>"
  have h: "handles e ?c (snd (handle env e ?c))" by (rule handle_handles)
  have len: "i < length (ct_controls c)" using assms by (simp add: settles_with_def)
  show ?thesis
  proof (cases "ct_controls c ! i = None")
    case False
    with assms have l: "lasting good bad c" by (simp add: settles_with_def lasting_def)
    have "ct_controls (snd (handle env e ?c)) ! i = ct_controls c ! i" if "control_index e \<noteq> Some i"
      using h len that by (simp add: handles_def)
    moreover have "ct_controls (snd (handle env e ?c)) ! i \<noteq> None" if "control_index e = Some i"
    proof -
      from that obtain act options powered where e: "e = EvControl act i options powered"
        by (auto simp: control_index_def split: controller_event.splits)
      obtain r c1 where hc: "handle_control env act options powered ?c = (r, c1)" by fastforce
      have "ct_controls c1 = ct_controls c" using handle_control_intent(5)[OF hc] by simp
      with e hc len show ?thesis by (cases r) (simp_all add: handle_def)
    qed
    ultimately have "ct_controls (snd (actor_turn env c)) ! i \<noteq> None"
      using False handled(2) by (cases "control_index e = Some i") auto
    moreover have "length (ct_controls (snd (actor_turn env c))) = length (ct_controls c)"
      using handled(2) h by (simp add: handles_def)
    ultimately show ?thesis
      using lasting_turn[OF l, of env] len by (auto simp: settles_with_def lasting_def)
  next
    case waiting: True
    with assms obtain pre options powered post where q: "ct_queue c = pre @ EvControl action i options powered # post"
      "list_all (\<lambda>e. control_index e \<noteq> Some i) pre" "list_all (\<lambda>e. \<not> bad e) post"
      by (auto simp: settles_with_def)
    show ?thesis
    proof (cases pre)
      case Nil
      with q(1) handled(1) have e: "e = EvControl action i options powered" "rest = post" by simp_all
      obtain r c1 where hc: "handle_control env action options powered ?c = (r, c1)" by fastforce
      note f = handle_control_intent[OF hc]
      from establishes[OF hc] e hc f q(3) len handled(2) show ?thesis
        by (cases r) (simp_all add: handle_def settles_with_def bookkeeping)
    next
      case (Cons e' pre')
      with q handled(1) have e: "e = e'" "rest = pre' @ EvControl action i options powered # post"
        "control_index e \<noteq> Some i" "list_all (\<lambda>e. control_index e \<noteq> Some i) pre'" by simp_all
      have "ct_controls (snd (handle env e ?c)) ! i = None" "length (ct_controls (snd (handle env e ?c))) = length (ct_controls c)"
        "ct_queue (snd (handle env e ?c)) = rest"
        using h len e(3) waiting by (simp_all add: handles_def)
      with e(2,4) q(3) len handled(2) show ?thesis unfolding settles_with_def by auto
    qed
  qed
qed

lemma settles_append:
  assumes "settles_with action good bad i c" "control_index e = None"
  shows "settles_with action good bad i (c\<lparr>ct_queue := ct_queue c @ [e], ct_work := ws\<rparr>)"
    "settles_with action good bad i (c\<lparr>ct_queue := ct_queue c @ [e]\<rparr>)"
proof -
  have more: "\<exists>pre options powered post. q @ [e] = pre @ EvControl action i options powered # post \<and>
      list_all (\<lambda>e. control_index e \<noteq> Some i) pre \<and> list_all (\<lambda>e. \<not> bad e) post"
    if "q = pre @ EvControl action i options powered # post" "list_all (\<lambda>e. control_index e \<noteq> Some i) pre"
      "list_all (\<lambda>e. \<not> bad e) post" for q pre options powered post
    using that only_controls[OF assms(2)]
    by (intro exI[of _ pre] exI[of _ options] exI[of _ powered] exI[of _ "post @ [e]"]) simp
  show "settles_with action good bad i (c\<lparr>ct_queue := ct_queue c @ [e], ct_work := ws\<rparr>)"
    "settles_with action good bad i (c\<lparr>ct_queue := ct_queue c @ [e]\<rparr>)"
    using assms(1) only_controls[OF assms(2)] more
    by (auto simp: settles_with_def good_queue_work bookkeeping simp del: append_assoc append_Cons)
qed

lemma settles_closed: "controller_closed (settles_with action good bad i)"
  unfolding controller_closed_def
proof (intro conjI allI impI)
  fix c e
  assume "control_index e = None" "settles_with action good bad i c"
  then show "settles_with action good bad i (snd (enqueue_event e c))"
    by (cases rule: enqueue_event_queue[of e c]) (simp_all add: settles_append)
next
  fix c n outcome
  assume "settles_with action good bad i c"
  then show "settles_with action good bad i (finish_work n outcome c)"
    by (cases rule: finish_work_queue[of n outcome c]) (simp_all add: settles_append)
qed (rule settles_turn)

lemma control_settles:
  assumes "control action options powered c = (Inr i, c')" "controls_ok c"
  shows "settles_with action good bad i c'"
proof -
  have c': "i = length (ct_controls c)" "c' = c\<lparr>ct_controls := ct_controls c @ [fut_pending],
      ct_queue := ct_queue c @ [EvControl action i options powered]\<rparr>"
    using assms(1) by (auto simp: control_def Let_def split: if_splits)
  have "list_all (\<lambda>e. control_index e \<noteq> Some i) (ct_queue c)"
    using assms(2) by (auto simp: c'(1) controls_ok_def index_below_def list_all_iff)
  then have "\<exists>pre options' powered' post.
      ct_queue c @ [EvControl action i options powered] = pre @ EvControl action i options' powered' # post \<and>
      list_all (\<lambda>e. control_index e \<noteq> Some i) pre \<and> list_all (\<lambda>e. \<not> bad e) post"
    by (rule_tac x = "ct_queue c" in exI, rule_tac x = options in exI, rule_tac x = powered in exI,
        rule_tac x = "[]" in exI) simp
  then show ?thesis by (simp add: settles_with_def c')
qed

end

definition inactive :: "controller \<Rightarrow> bool" where
  "inactive c \<longleftrightarrow> \<not> ct_active c"

definition untransitioned :: "controller \<Rightarrow> bool" where
  "untransitioned c \<longleftrightarrow> \<not> ct_power_transition c"

lemma yields_effect: "yields action \<Longrightarrow> control_effect action inactive activates"
  by unfold_locales
    (auto simp: inactive_def handles_def activates_def control_index_def yields_def
      dest: handle_control_intent(1) split: controller_event.splits)

interpretation deactivation: control_effect Deactivate inactive activates
  by (rule yields_effect) (simp add: yields_def)

interpretation override: control_effect Override inactive activates
  by (rule yields_effect) (simp add: yields_def)

interpretation power_off_end: control_effect FinishPowerOff untransitioned begins_transition
  by unfold_locales
    (auto simp: untransitioned_def handles_def begins_transition_def control_index_def
      dest: handle_control_intent(2) split: controller_event.splits)

end
