(* ===== verification/Coordinator_Specs.thy ===== *)
theory Coordinator_Specs
  imports Coordinator_Control
begin

text \<open>
  Reasoning about the operations of the coordinator: a specification gives what holds when an
  operation returns, when it raises and when it is still waiting, from any state that satisfies the
  precondition and in every environment.  Predicates that the inputs of the coordinator keep pass
  through its awaits.
\<close>

section \<open>Specifications\<close>

fun outcome_ok ::
    "('a \<Rightarrow> coordinator \<Rightarrow> bool) \<Rightarrow> (exn \<Rightarrow> coordinator \<Rightarrow> bool) \<Rightarrow> (coordinator \<Rightarrow> bool) \<Rightarrow>
     'a progress \<times> await_env list \<times> coordinator \<Rightarrow> bool" where
  "outcome_ok Q E B (Finished (Inr x), env, c) = Q x c"
| "outcome_ok Q E B (Finished (Inl e), env, c) = E e c"
| "outcome_ok Q E B (Blocked, env, c) = B c"

definition co_spec ::
    "(coordinator \<Rightarrow> bool) \<Rightarrow> 'a co \<Rightarrow> ('a \<Rightarrow> coordinator \<Rightarrow> bool) \<Rightarrow> (exn \<Rightarrow> coordinator \<Rightarrow> bool) \<Rightarrow>
     (coordinator \<Rightarrow> bool) \<Rightarrow> bool" where
  "co_spec P m Q E B \<longleftrightarrow> (\<forall>k env c. P c \<longrightarrow> outcome_ok Q E B (m k env c))"

lemma co_specI: "(\<And>k env c. P c \<Longrightarrow> outcome_ok Q E B (m k env c)) \<Longrightarrow> co_spec P m Q E B"
  by (simp add: co_spec_def)

lemma co_specD: "co_spec P m Q E B \<Longrightarrow> P c \<Longrightarrow> outcome_ok Q E B (m k env c)"
  by (simp add: co_spec_def)

lemma outcome_cases:
  fixes r :: "'a progress \<times> await_env list \<times> coordinator"
  obtains (returned) x env c where "r = (Finished (Inr x), env, c)"
  | (raised) e env c where "r = (Finished (Inl e), env, c)"
  | (blocked) env c where "r = (Blocked, env, c)"
proof (cases r)
  case (fields p env c)
  show ?thesis
  proof (cases p)
    case (Finished y)
    with fields show ?thesis by (cases y) (auto intro: returned raised)
  qed (use fields blocked in simp)
qed

lemma outcome_mono:
  assumes "outcome_ok Q' E' B' r" "\<And>x c. Q' x c \<Longrightarrow> Q x c" "\<And>e c. E' e c \<Longrightarrow> E e c" "\<And>c. B' c \<Longrightarrow> B c"
  shows "outcome_ok Q E B r"
  using assms by (cases rule: outcome_cases[of r]) auto

definition stable :: "(coordinator \<Rightarrow> bool) \<Rightarrow> bool" where
  "stable P \<longleftrightarrow> (\<forall>c i. P c \<longrightarrow> P (coordinator_input_step c i))"

lemma stable_run: "stable P \<Longrightarrow> P c \<Longrightarrow> P (run_co_inputs is c)"
  unfolding run_co_inputs_def by (induction "is" arbitrary: c) (auto simp: stable_def)

lemma stable_conj: "stable P \<Longrightarrow> stable Q \<Longrightarrow> stable (\<lambda>c. P c \<and> Q c)"
  by (simp add: stable_def)

lemma spec_mono:
  assumes "co_spec P' m Q' E' B'" "\<And>c. P c \<Longrightarrow> P' c" "\<And>x c. Q' x c \<Longrightarrow> Q x c" "\<And>e c. E' e c \<Longrightarrow> E e c"
    "\<And>c. B' c \<Longrightarrow> B c"
  shows "co_spec P m Q E B"
proof (rule co_specI)
  fix k env c
  assume "P c"
  from outcome_mono[OF co_specD[OF assms(1) assms(2)[OF this]] assms(3-5)] show "outcome_ok Q E B (m k env c)" .
qed

lemma spec_return: "(\<And>c. P c \<Longrightarrow> Q x c) \<Longrightarrow> co_spec P (co_return x) Q E B"
  by (simp add: co_spec_def co_return_def)

lemma spec_raise: "(\<And>c. P c \<Longrightarrow> E e c) \<Longrightarrow> co_spec P (co_raise e) Q E B"
  by (simp add: co_spec_def co_raise_def)

lemma spec_modify: "(\<And>c. P c \<Longrightarrow> Q () (f c)) \<Longrightarrow> co_spec P (co_modify f) Q E B"
  by (simp add: co_spec_def co_modify_def)

lemma spec_get: "(\<And>c0. P c0 \<Longrightarrow> co_spec (\<lambda>c. P c \<and> c = c0) (f c0) Q E B) \<Longrightarrow> co_spec P (co_get f) Q E B"
  by (rule co_specI) (simp add: co_spec_def co_get_def)

lemma spec_sync:
  assumes "\<And>c e c'. P c \<Longrightarrow> m c = (Inl e, c') \<Longrightarrow> E e c'" "\<And>c x c'. P c \<Longrightarrow> m c = (Inr x, c') \<Longrightarrow> Q x c'"
  shows "co_spec P (co_sync m) Q E B"
proof (rule co_specI)
  fix k env c
  assume "P c"
  then show "outcome_ok Q E B (co_sync m k env c)"
    using assms[of c] by (cases "m c"; cases "fst (m c)") (auto simp: co_sync_def)
qed

lemma spec_bind:
  assumes "co_spec P m R E B" "\<And>x. co_spec (R x) (f x) Q E B"
  shows "co_spec P (co_bind m f) Q E B"
proof (rule co_specI)
  fix k env c
  assume "P c"
  from co_specD[OF assms(1) this, of k env] show "outcome_ok Q E B (co_bind m f k env c)"
    by (cases rule: outcome_cases[of "m k env c"]) (simp_all add: co_bind_def co_specD[OF assms(2)])
qed

lemma spec_catch:
  assumes "co_spec P m Q R B" "\<And>e. co_spec (R e) (h e) Q E B"
  shows "co_spec P (co_catch m h) Q E B"
proof (rule co_specI)
  fix k env c
  assume "P c"
  from co_specD[OF assms(1) this, of k env] show "outcome_ok Q E B (co_catch m h k env c)"
    by (cases rule: outcome_cases[of "m k env c"]) (simp_all add: co_catch_def co_specD[OF assms(2)])
qed

lemma spec_except:
  assumes "co_spec P m Q R B" "\<And>e. e \<noteq> CancelledError \<Longrightarrow> co_spec (R e) (h e) Q E B"
    "\<And>c. R CancelledError c \<Longrightarrow> E CancelledError c"
  shows "co_spec P (co_except m h) Q E B"
  unfolding co_except_def
proof (rule spec_catch[OF assms(1)])
  fix e
  show "co_spec (R e) (if e = CancelledError then co_raise e else h e) Q E B"
    using assms(2,3) by (auto intro: spec_raise)
qed

lemma spec_finally:
  assumes "co_spec P m Q' E' B"
    and "\<And>x. co_spec (Q' x) (g True) (\<lambda>_. Q x) E B" "\<And>e. co_spec (E' e) (g False) (\<lambda>_. E e) E B"
  shows "co_spec P (co_finally m g) Q E B"
  unfolding co_finally_def
proof (rule spec_bind)
  show "co_spec P (co_catch (co_bind m (\<lambda>x. co_return (Inr x))) (\<lambda>e. co_return (Inl e)))
      (\<lambda>r c. case r of Inl e \<Rightarrow> E' e c | Inr x \<Rightarrow> Q' x c) E B"
    by (rule spec_catch, rule spec_bind[OF assms(1)]) (rule spec_return; simp)+
  fix r
  show "co_spec (\<lambda>c. case r of Inl e \<Rightarrow> E' e c | Inr x \<Rightarrow> Q' x c)
      (co_then (g (\<not> isl r)) (case r of Inl e \<Rightarrow> co_raise e | Inr x \<Rightarrow> co_return x)) Q E B"
  proof (cases r)
    case (Inl e)
    then show ?thesis by simp (rule spec_bind[OF assms(3)], rule spec_raise)
  next
    case (Inr x)
    then show ?thesis by simp (rule spec_bind[OF assms(2)], rule spec_return)
  qed
qed

lemma spec_await:
  assumes "stable P" "\<And>v c. P c \<Longrightarrow> outcome_ok Q E B (fst (answer v c), [], snd (answer v c))"
    and "\<And>c. P c \<Longrightarrow> E CancelledError c" "\<And>c. P c \<Longrightarrow> B c"
  shows "co_spec P (co_await answer) Q E B"
proof (rule co_specI)
  fix k env c
  assume P: "P c"
  show "outcome_ok Q E B (co_await answer k env c)"
  proof (cases env)
    case (Cons v rest)
    let ?c = "run_co_inputs (ae_inputs v) c"
    have P': "P ?c" using assms(1) P by (rule stable_run)
    have "outcome_ok Q E B (fst (answer v ?c), rest, snd (answer v ?c))"
      using assms(2)[OF P', of v] by (cases rule: outcome_cases[of "(fst (answer v ?c), [], snd (answer v ?c))"]) auto
    with assms(3)[OF P'] Cons show ?thesis
      by (simp add: co_await_def Let_def case_prod_beta)
  qed (simp add: co_await_def assms(4)[OF P])
qed

lemma spec_shield:
  assumes "co_spec P m Q E B" "\<And>x c. Q x c \<Longrightarrow> E CancelledError c" "\<And>e c. E e c \<Longrightarrow> E CancelledError c"
    "\<And>c. P c \<Longrightarrow> B c"
  shows "co_spec P (complete_despite_cancellation m) Q E B"
proof (rule co_specI)
  fix k env c
  assume P: "P c"
  show "outcome_ok Q E B (complete_despite_cancellation m k env c)"
  proof (cases env)
    case (Cons v rest)
    from co_specD[OF assms(1) P, of False rest] assms(2,3) Cons show ?thesis
      by (cases rule: outcome_cases[of "m False rest c"]) (auto simp: complete_despite_cancellation_def)
  qed (simp add: complete_despite_cancellation_def assms(4)[OF P])
qed

lemma spec_lock:
  assumes "stable P" "co_spec P m Q E B" "\<And>c. P c \<Longrightarrow> E CancelledError c" "\<And>c. P c \<Longrightarrow> B c"
  shows "co_spec P (with_lock m) Q E B"
  unfolding with_lock_def
  by (rule spec_bind[where R = "\<lambda>_. P"]) (use assms in \<open>auto intro!: spec_await\<close>)

lemma spec_if: "(b \<Longrightarrow> co_spec P m Q E B) \<Longrightarrow> (\<not> b \<Longrightarrow> co_spec P n Q E B) \<Longrightarrow> co_spec P (if b then m else n) Q E B"
  by simp

lemma spec_skip: "(\<And>c. P c \<Longrightarrow> Q () c) \<Longrightarrow> co_spec P m Q E B \<Longrightarrow>
    co_spec P (co_get (\<lambda>c. if f c then co_return () else m)) Q E B"
  by (rule spec_get, rule spec_if) (auto intro!: spec_return elim: spec_mono)

section \<open>What the inputs keep\<close>

definition holds :: "(controller \<Rightarrow> bool) \<Rightarrow> coordinator \<Rightarrow> bool" where
  "holds P c \<longleftrightarrow> (\<forall>ct. co_controller c = Some ct \<longrightarrow> P ct)"

text \<open>The commands that were sent, in order.\<close>

definition sent :: "coordinator \<Rightarrow> (command \<times> command_origin) list" where
  "sent c = concat (map (\<lambda>x. case x of CallExecute cmd origin \<Rightarrow> [(cmd, origin)] | _ \<Rightarrow> []) (co_log c))"

lemma sent_call [simp]:
  "sent (co_call x c) = sent c @ (case x of CallExecute cmd origin \<Rightarrow> [(cmd, origin)] | _ \<Rightarrow> [])"
  by (simp add: sent_def co_call_def)

lemma sent_cong: "co_log c' = co_log c \<Longrightarrow> sent c' = sent c"
  by (simp add: sent_def)

text \<open>Everything but the actor, and the registry gate's fields, which only close.\<close>

definition frame_kept :: "coordinator \<Rightarrow> coordinator \<Rightarrow> bool" where
  "frame_kept c c' \<longleftrightarrow> co_memory c' = co_memory c \<and> co_stored c' = co_stored c \<and>
     co_handoff c' = co_handoff c \<and> co_shutdown c' = co_shutdown c \<and> co_started c' = co_started c \<and>
     sent c' = sent c \<and> (co_controller c' = None \<longleftrightarrow> co_controller c = None)"

definition gate_closes :: "coordinator \<Rightarrow> coordinator \<Rightarrow> bool" where
  "gate_closes c c' \<longleftrightarrow>
     co_cleanup_generation c \<le> co_cleanup_generation c' \<and>
     (co_cleanup_required c \<longrightarrow> co_cleanup_required c') \<and>
     (co_command_gate c \<longrightarrow> co_command_gate c' \<or> co_cleanup_generation c < co_cleanup_generation c') \<and>
     (co_terminal_blocked c \<longrightarrow> co_terminal_blocked c' \<and> (co_command_gate c' \<longrightarrow> co_command_gate c))"

definition input_keeps :: "coordinator \<Rightarrow> coordinator \<Rightarrow> bool" where
  "input_keeps c c' \<longleftrightarrow> frame_kept c c' \<and> gate_closes c c'"

lemma frame_kept_trans: "frame_kept a b \<Longrightarrow> frame_kept b c \<Longrightarrow> frame_kept a c"
  by (simp add: frame_kept_def)

lemma gate_closes_trans:
  assumes "gate_closes a b" "gate_closes b c"
  shows "gate_closes a c"
proof -
  have "co_cleanup_generation a \<le> co_cleanup_generation b" "co_cleanup_generation b \<le> co_cleanup_generation c"
    using assms by (simp_all add: gate_closes_def)
  moreover have "co_command_gate a \<Longrightarrow> co_command_gate b \<or> co_cleanup_generation a < co_cleanup_generation b"
    "co_command_gate b \<Longrightarrow> co_command_gate c \<or> co_cleanup_generation b < co_cleanup_generation c"
    using assms by (simp_all add: gate_closes_def)
  ultimately show ?thesis using assms unfolding gate_closes_def by linarith
qed

lemma input_keeps_refl [simp, intro]: "input_keeps c c"
  by (simp add: input_keeps_def frame_kept_def gate_closes_def)

lemma input_keeps_trans [trans]: "input_keeps a b \<Longrightarrow> input_keeps b c \<Longrightarrow> input_keeps a c"
  unfolding input_keeps_def by (blast intro: gate_closes_trans frame_kept_trans)

lemma gate_closes_same:
  "co_cleanup_generation c' = co_cleanup_generation c \<Longrightarrow> co_cleanup_required c' = co_cleanup_required c \<Longrightarrow>
   co_command_gate c' = co_command_gate c \<Longrightarrow> co_terminal_blocked c' = co_terminal_blocked c \<Longrightarrow> gate_closes c c'"
  by (simp add: gate_closes_def)

lemma input_keeps_fields:
  "frame_kept c c' \<Longrightarrow> co_cleanup_generation c' = co_cleanup_generation c \<Longrightarrow>
   co_cleanup_required c' = co_cleanup_required c \<Longrightarrow> co_command_gate c' = co_command_gate c \<Longrightarrow>
   co_terminal_blocked c' = co_terminal_blocked c \<Longrightarrow> input_keeps c c'"
  by (simp add: input_keeps_def gate_closes_same)

lemma input_keeps_controller: "input_keeps c (snd (on_controller m c))"
  by (auto simp: on_controller_def sent_def frame_kept_def intro!: input_keeps_fields split: option.split prod.split)

lemma input_keeps_call: "(\<And>cmd origin. x \<noteq> CallExecute cmd origin) \<Longrightarrow> input_keeps c (co_call x c)"
  by (cases x) (auto intro!: input_keeps_fields simp: co_call_def sent_def frame_kept_def)

lemma input_keeps_silent:
  "input_keeps c (c\<lparr>co_view := v\<rparr>)" "input_keeps c (c\<lparr>co_data := s\<rparr>)" "input_keeps c (c\<lparr>co_available := b\<rparr>)"
  "input_keeps c (c\<lparr>co_publishing := b\<rparr>)" "input_keeps c (c\<lparr>co_last_active := b\<rparr>)"
  "input_keeps c (c\<lparr>co_persistence_tasks := n\<rparr>)" "input_keeps c (c\<lparr>co_cleanup_task := b\<rparr>)"
  "input_keeps c (c\<lparr>co_controller := map_option f (co_controller c)\<rparr>)"
  by (rule input_keeps_fields; simp add: sent_def frame_kept_def)+

lemma input_keeps_publish: "input_keeps c (publish_custom_auto c)"
  by (auto simp: publish_custom_auto_def input_keeps_call split: option.split)

lemma input_keeps_data: "input_keeps c (set_updated_data s c)"
  unfolding set_updated_data_def by (rule input_keeps_trans[OF input_keeps_silent(2) input_keeps_call]) simp

lemma input_keeps_after: "input_keeps c x \<Longrightarrow> (\<And>y. input_keeps y (f y)) \<Longrightarrow> input_keeps c (f x)"
  using input_keeps_trans by blast

lemma input_keeps_state: "input_keeps c (snd (state_updated s c))"
  by (auto simp: state_updated_def Let_def input_keeps_data input_keeps_controller
      intro: input_keeps_trans[OF input_keeps_data input_keeps_controller] split: option.split)

lemma input_keeps_bind:
  "(\<And>c. input_keeps c (snd (m c))) \<Longrightarrow> (\<And>x c. input_keeps c (snd (f x c))) \<Longrightarrow> input_keeps c (snd (st_bind m f c))"
  by (rule st_bind_preserves[where R = input_keeps]) (use input_keeps_trans in auto)

lemma input_keeps_availability: "input_keeps c (snd (availability_updated available now c))"
  unfolding availability_updated_def
  by (rule input_keeps_trans[OF input_keeps_silent(3)], rule input_keeps_bind)
    (auto simp: input_keeps_controller input_keeps_data input_keeps_call)

lemma input_keeps_route: "input_keeps c (snd (route_custom_auto_observation ob now c))"
  by (auto simp: route_custom_auto_observation_def Let_def input_keeps_controller intro!: input_keeps_bind
      split: option.split)

lemma input_keeps_observation: "input_keeps c (snd (observation_updated ob now c))"
proof -
  let ?x = "if co_observing c then snd (route_custom_auto_observation ob now (c\<lparr>co_publishing := True\<rparr>))
      else c\<lparr>co_publishing := True\<rparr>"
  have "input_keeps (c\<lparr>co_publishing := True\<rparr>) ?x" by (simp add: input_keeps_route)
  from input_keeps_trans[OF input_keeps_trans[OF input_keeps_silent(4) this] input_keeps_silent(4)[of ?x False]]
  show ?thesis by (simp add: observation_updated_def Let_def)
qed

lemma input_keeps_listener: "input_keeps c (custom_auto_state_updated active c)"
  unfolding custom_auto_state_updated_def Let_def
  by (rule input_keeps_trans[OF _ input_keeps_publish], simp)
    (auto intro: input_keeps_silent input_keeps_trans[OF input_keeps_silent(5) input_keeps_silent(6)])

lemma input_keeps_turn: "input_keeps c (controller_turn env c)"
proof (cases "co_controller c")
  case None
  then show ?thesis by (simp add: controller_turn_def)
next
  case (Some ct)
  obtain calls ct' where t: "actor_turn env ct = (calls, ct')" by fastforce
  let ?f = "\<lambda>c (l, sn). if l = CONTROLLER_LISTENER then custom_auto_state_updated (sn_active sn) c else c"
  have "input_keeps x (foldl ?f x calls)" for x
    by (induction calls arbitrary: x) (auto split: prod.split intro: input_keeps_trans input_keeps_listener)
  moreover have "input_keeps c (c\<lparr>co_controller := Some ct'\<rparr>)"
    using input_keeps_silent(8)[of c "\<lambda>_. ct'"] Some by simp
  ultimately show ?thesis using Some t by (auto simp: controller_turn_def intro: input_keeps_trans)
qed

lemma frame_kept_registry:
  "frame_kept c (set_registry_allowed allowed c)" "frame_kept c (registry_cleanup_done ending c)"
  "frame_kept c (disable_begins c)"
  by (auto simp: set_registry_allowed_def registry_cleanup_done_def disable_begins_def schedule_registry_cleanup_def
      frame_kept_def sent_def Let_def)

lemma gate_closes_registry:
  "gate_closes c (set_registry_allowed allowed c)" "gate_closes c (registry_cleanup_done ending c)"
  "gate_closes c (disable_begins c)"
  by (auto simp: set_registry_allowed_def registry_cleanup_done_def disable_begins_def schedule_registry_cleanup_def
      gate_closes_def reopens_gate_def Let_def)

lemma input_keeps_input: "input_keeps c (coordinator_input_step c i)"
proof (cases i)
  case (CiState v s)
  then show ?thesis using input_keeps_trans[OF input_keeps_silent(1) input_keeps_state] by simp
next
  case (CiAvailability v available now)
  then show ?thesis using input_keeps_trans[OF input_keeps_silent(1) input_keeps_availability] by simp
next
  case (CiObservation v ob now)
  then show ?thesis using input_keeps_trans[OF input_keeps_silent(1) input_keeps_observation] by simp
qed (simp_all add: input_keeps_silent input_keeps_turn input_keeps_def frame_kept_registry gate_closes_registry
    input_keeps_silent[unfolded input_keeps_def] input_keeps_turn[unfolded input_keeps_def])

lemma stable_frame: "(\<And>c c'. input_keeps c c' \<Longrightarrow> P c \<Longrightarrow> P c') \<Longrightarrow> stable P"
  using input_keeps_input by (auto simp: stable_def)

text \<open>A predicate of the actor that its steps keep.\<close>

lemma holds_cong: "co_controller c' = co_controller c \<Longrightarrow> holds P c' = holds P c"
  by (simp add: holds_def)

lemma holds_enqueue:
  assumes "controller_closed P" "control_index e = None" "holds P c"
  shows "holds P (snd (on_controller (enqueue_event e) c))"
proof (cases "co_controller c")
  case (Some ct)
  with assms have "P (snd (enqueue_event e ct))" by (simp add: controller_closed_def holds_def)
  with Some show ?thesis by (cases "enqueue_event e ct") (simp add: on_controller_def holds_def)
qed (use assms in \<open>simp add: on_controller_def holds_def\<close>)

lemma holds_publish: "co_controller (publish_custom_auto c) = co_controller c"
  by (simp add: publish_custom_auto_def co_call_def split: option.split)

lemma holds_listener: "co_controller (custom_auto_state_updated active c) = co_controller c"
  by (simp add: custom_auto_state_updated_def Let_def holds_publish)

lemma holds_turn:
  assumes "controller_closed P" "holds P c"
  shows "holds P (controller_turn env c)"
proof (cases "co_controller c")
  case (Some ct)
  obtain calls ct' where t: "actor_turn env ct = (calls, ct')" by fastforce
  let ?f = "\<lambda>c (l, sn). if l = CONTROLLER_LISTENER then custom_auto_state_updated (sn_active sn) c else c"
  have "co_controller (foldl ?f x calls) = co_controller x" for x
    by (induction calls arbitrary: x) (auto simp: holds_listener split: prod.split)
  moreover have "P ct'" using assms Some t by (simp add: controller_closed_def holds_def) (metis snd_conv)
  ultimately show ?thesis using Some t by (simp add: controller_turn_def holds_def)
qed (use assms in \<open>simp add: controller_turn_def\<close>)

lemma holds_bind:
  "(\<And>c. holds P c \<Longrightarrow> holds P (snd (m c))) \<Longrightarrow> (\<And>x c. holds P c \<Longrightarrow> holds P (snd (f x c))) \<Longrightarrow>
   holds P c \<Longrightarrow> holds P (snd (st_bind m f c))"
  by (rule st_bind_preserves[where R = "\<lambda>c c'. holds P c \<longrightarrow> holds P c'", THEN mp]) auto

lemma holds_input:
  assumes "controller_closed P" "holds P c"
  shows "holds P (coordinator_input_step c i)"
proof -
  note enqueue = holds_enqueue[OF assms(1)]
  have power: "holds P (snd (on_controller (set_powered b) x))" if "holds P x" for b x
    using enqueue[of "EvPower b" x] that by (simp add: set_powered_def)
  have connection: "holds P (snd (on_controller (set_connection a g t now) x))" if "holds P x" for a g t now x
    using enqueue[of "EvConnection a g (case t of None \<Rightarrow> now | Some t \<Rightarrow> t)" x] that by (simp add: set_connection_def)
  have observing: "holds P (snd (on_controller (observe ob) x))" if "holds P x" for ob x
    using enqueue[of "EvObservation ob" x] that by (simp add: observe_def)
  have data: "co_controller (set_updated_data s x) = co_controller x" "co_controller (co_call y x) = co_controller x" for s x y
    by (simp_all add: set_updated_data_def co_call_def)
  have route: "holds P (snd (route_custom_auto_observation ob now x))" if "holds P x" for ob now x
    using that by (auto simp: route_custom_auto_observation_def Let_def intro!: holds_bind connection observing
        split: option.split)
  show ?thesis
  proof (cases i)
    case (CiState v s)
    let ?x = "if cv_ready v then set_updated_data s (c\<lparr>co_view := v\<rparr>) else c\<lparr>co_view := v\<rparr>"
    have "holds P ?x" using assms(2) by (simp add: holds_def data)
    then have "holds P (snd (on_controller (set_powered b) ?x))" for b by (rule power)
    with \<open>holds P ?x\<close> have "holds P (snd (state_updated s (c\<lparr>co_view := v\<rparr>)))"
      by (cases "cv_ready v"; cases "ps_power s") (simp_all add: state_updated_def Let_def)
    with CiState show ?thesis by simp
  next
    case (CiAvailability v available now)
    have "holds P (snd (availability_updated available now x))" if "holds P x" for x
    proof -
      have "holds P (x\<lparr>co_available := available\<rparr>)" using that by (simp add: holds_def)
      then show ?thesis unfolding availability_updated_def
      proof (rule holds_bind[rotated 2])
        show "holds P (snd ((\<lambda>c. (Inr (), if available then set_updated_data (cv_state (co_view c)) c
            else co_call NotifyListeners c)) y))" if "holds P y" for y
          using that by (simp add: holds_def data)
      qed (simp add: connection)
    qed
    with CiAvailability assms(2) show ?thesis by (simp add: holds_cong[of "c\<lparr>co_view := v\<rparr>" c])
  next
    case (CiObservation v ob now)
    have "holds P (snd (observation_updated ob now x))" if "holds P x" for x
    proof -
      have "holds P (x\<lparr>co_publishing := True\<rparr>)" using that by (simp add: holds_def)
      from this route[OF this, of ob now] show ?thesis using that
        by (simp add: observation_updated_def Let_def) (simp add: holds_def)
    qed
    with CiObservation assms(2) show ?thesis by (simp add: holds_cong[of "c\<lparr>co_view := v\<rparr>" c])
  next
    case (CiTurn env)
    with holds_turn[OF assms] show ?thesis by simp
  next
    case (CiWorkEnds n outcome)
    have "P (finish_work n outcome ct)" if "P ct" for ct
      using assms(1) that unfolding controller_closed_def by blast
    with CiWorkEnds assms(2) show ?thesis by (cases "co_controller c") (simp_all add: holds_def)
  next
    case (CiRegistry allowed)
    have "co_controller (set_registry_allowed allowed c) = co_controller c"
      by (simp add: set_registry_allowed_def schedule_registry_cleanup_def Let_def)
    from holds_cong[OF this] CiRegistry assms(2) show ?thesis by simp
  next
    case (CiCleanupDone ending)
    have "co_controller (registry_cleanup_done ending c) = co_controller c"
      by (simp add: registry_cleanup_done_def schedule_registry_cleanup_def Let_def)
    from holds_cong[OF this] CiCleanupDone assms(2) show ?thesis by simp
  qed (use assms(2) in \<open>simp_all add: holds_def disable_begins_def\<close>)
qed

lemma stable_holds: "controller_closed P \<Longrightarrow> stable (holds P)"
  by (simp add: stable_def holds_input)

end
