(* ===== verification/Coordinator_Facts.thy ===== *)
theory Coordinator_Facts
  imports Coordinator_Specs
begin

text \<open>
  What the operations of the coordinator guarantee: an explicit command takes the fan over before it is
  sent, switching Custom Auto off hands the hardware back exactly once, a failed activation is rolled
  back, and a required cleanup removes the remembered selection.
\<close>

section \<open>Building blocks\<close>

text \<open>The part of the state the guarantees speak about.\<close>

definition co_core :: "coordinator \<Rightarrow> controller option \<times> int \<times> bool \<times> bool \<times> json option \<times> (command \<times> command_origin) list" where
  "co_core c = (co_controller c, co_cleanup_generation c, co_command_gate c, co_memory c, co_stored c, sent c)"

definition core_based :: "(coordinator \<Rightarrow> bool) \<Rightarrow> bool" where
  "core_based P \<longleftrightarrow> (\<forall>c c'. co_core c' = co_core c \<longrightarrow> P c \<longrightarrow> P c')"

definition framed :: "(coordinator \<Rightarrow> bool) \<Rightarrow> bool" where
  "framed P \<longleftrightarrow> (\<forall>c c'. input_keeps c c' \<longrightarrow> P c \<longrightarrow> P c')"

lemma framed_stable: "framed P \<Longrightarrow> stable P"
  by (rule stable_frame) (simp add: framed_def)

lemma core_basedD: "core_based P \<Longrightarrow> P c \<Longrightarrow> co_core c' = co_core c \<Longrightarrow> P c'"
  by (simp add: core_based_def)

lemma co_core_simps [simp]:
  "co_core (c\<lparr>co_suppress := b\<rparr>) = co_core c" "co_core (c\<lparr>co_handoff := h\<rparr>) = co_core c"
  "co_core (c\<lparr>co_cause := x\<rparr>) = co_core c" "co_core (c\<lparr>co_observing := b\<rparr>) = co_core c"
  "co_core (publish_custom_auto c) = co_core c"
  by (simp_all add: co_core_def sent_def publish_custom_auto_def co_call_def split: option.split)

lemma spec_suppress:
  assumes "co_spec P m Q E B" "core_based P" "\<And>x. core_based (Q x)" "\<And>e. core_based (E e)"
  shows "co_spec P (suppressing_ownership_loss m) Q E B"
  unfolding suppressing_ownership_loss_def
proof (rule spec_bind[where R = "\<lambda>_. P"])
  show "co_spec P (co_modify (\<lambda>c. c\<lparr>co_suppress := True\<rparr>)) (\<lambda>_. P) E B"
    by (rule spec_modify) (erule core_basedD[OF assms(2)], simp)
  show "co_spec P (co_finally m (\<lambda>_. co_modify (\<lambda>c. c\<lparr>co_suppress := False\<rparr>))) Q E B"
  proof (rule spec_finally[OF assms(1)])
    show "co_spec (Q x) (co_modify (\<lambda>c. c\<lparr>co_suppress := False\<rparr>)) (\<lambda>_. Q x) E B" for x
      by (rule spec_modify) (erule core_basedD[OF assms(3)], simp)
    show "co_spec (E e) (co_modify (\<lambda>c. c\<lparr>co_suppress := False\<rparr>)) (\<lambda>_. E e) E B" for e
      by (rule spec_modify) (erule core_basedD[OF assms(4)], simp)
  qed
qed

lemma spec_settle:
  assumes "core_based P"
  shows "co_spec P (settle_handoff h) (\<lambda>_ c. P c \<and> co_handoff c = h) E B"
  unfolding settle_handoff_def
proof (rule spec_modify)
  fix c
  assume "P c"
  then have "P (publish_custom_auto (c\<lparr>co_handoff := h\<rparr>))" by (rule core_basedD[OF assms]) simp
  moreover have "co_handoff (publish_custom_auto x) = co_handoff x" for x
    by (simp add: publish_custom_auto_def co_call_def split: option.split)
  ultimately show "P (publish_custom_auto (c\<lparr>co_handoff := h\<rparr>)) \<and> co_handoff (publish_custom_auto (c\<lparr>co_handoff := h\<rparr>)) = h"
    by simp
qed

text \<open>A control of the actor: what it establishes, and that everything the inputs keep is kept.\<close>

definition controls_known :: "coordinator \<Rightarrow> bool" where
  "controls_known c \<longleftrightarrow> holds controls_ok c"

lemma stable_controls_known: "stable controls_known"
  using stable_holds[OF controls_ok_closed] by (simp add: stable_def controls_known_def)

lemma framed_controller: "framed F \<Longrightarrow> F c \<Longrightarrow> co_controller c \<noteq> None \<Longrightarrow> F (c\<lparr>co_controller := Some ct\<rparr>)"
proof -
  assume F: "framed F" "F c" "co_controller c \<noteq> None"
  then have "c\<lparr>co_controller := Some ct\<rparr> = c\<lparr>co_controller := map_option (\<lambda>_. ct) (co_controller c)\<rparr>" by auto
  with F(1,2) input_keeps_silent(8)[of c "\<lambda>_. ct"] show ?thesis by (metis framed_def)
qed

lemma controls_ok_control: "control action options powered ct = (r, ct') \<Longrightarrow> controls_ok ct \<Longrightarrow> controls_ok ct'"
  by (fastforce simp: control_def Let_def controls_ok_def index_below_def list_all_iff less_Suc_eq
      split: if_splits option.splits)

context control_effect
begin

lemma spec_control:
  assumes "framed F"
  shows "co_spec (\<lambda>c. F c \<and> controls_known c) (control_and_wait (control action options powered))
    (\<lambda>_ c. F c \<and> controls_known c \<and> holds (lasting good bad) c) (\<lambda>e c. F c \<and> controls_known c)
    (\<lambda>c. F c \<and> controls_known c)"
  unfolding control_and_wait_def
proof (rule spec_bind)
  let ?W = "\<lambda>i c. (F c \<and> controls_known c) \<and> holds (settles_with action good bad i) c"
  show "co_spec (\<lambda>c. F c \<and> controls_known c) (co_sync (begin_control (control action options powered))) ?W
      (\<lambda>e c. F c \<and> controls_known c) (\<lambda>c. F c \<and> controls_known c)"
  proof (rule spec_sync)
    fix c e c'
    assume "F c \<and> controls_known c" "begin_control (control action options powered) c = (Inl e, c')"
    then show "F c' \<and> controls_known c'"
      using framed_controller[OF assms, of c] controls_ok_control[of action options powered]
      by (auto simp: begin_control_def controls_known_def holds_def split: option.splits prod.splits)
  next
    fix c i c'
    assume pre: "F c \<and> controls_known c" and b: "begin_control (control action options powered) c = (Inr i, c')"
    then obtain ct ct' where ct: "co_controller c = Some ct" "control action options powered ct = (Inr i, ct')"
      "c' = c\<lparr>co_controller := Some ct'\<rparr>"
      by (auto simp: begin_control_def split: option.splits prod.splits)
    with pre have ok: "controls_ok ct" by (simp add: controls_known_def holds_def)
    from pre ct framed_controller[OF assms, of c ct'] controls_ok_control[OF ct(2) ok] control_settles[OF ct(2) ok]
    show "?W i c'" by (auto simp: controls_known_def holds_def)
  qed
  fix i
  show "co_spec (?W i) (co_await (control_answer i))
      (\<lambda>_ c. F c \<and> controls_known c \<and> holds (lasting good bad) c) (\<lambda>e c. F c \<and> controls_known c)
      (\<lambda>c. F c \<and> controls_known c)"
  proof (rule spec_await)
    show "stable (?W i)"
      by (intro stable_conj framed_stable assms stable_controls_known stable_holds settles_closed)
    fix v c
    assume w: "?W i c"
    show "outcome_ok (\<lambda>_ c. F c \<and> controls_known c \<and> holds (lasting good bad) c) (\<lambda>e c. F c \<and> controls_known c)
        (\<lambda>c. F c \<and> controls_known c) (fst (control_answer i v c), [], snd (control_answer i v c))"
    proof (cases "co_controller c")
      case (Some ct)
      with w have s: "settles_with action good bad i ct" by (simp add: holds_def)
      have l: "lasting good bad ct" if "ct_controls ct ! i \<noteq> None"
        using s that by (simp add: settles_with_def lasting_def)
      show ?thesis
      proof (cases "ct_controls ct ! i")
        case None
        with Some w show ?thesis by (simp add: control_answer_def)
      next
        case (Some r)
        with l \<open>co_controller c = Some ct\<close> w show ?thesis
          by (cases r) (simp_all add: control_answer_def holds_def)
      qed
    qed (use w in \<open>simp add: control_answer_def\<close>)
  qed auto
qed

end

text \<open>A command: sent or not, and nothing else changes.\<close>

lemma spec_execute:
  assumes "stable P" "core_based (\<lambda>c. P c)" "\<And>c xs. P c \<Longrightarrow> P (c\<lparr>co_log := xs\<rparr>)"
  shows "co_spec (\<lambda>c. P c \<and> sent c = S) (co_execute cmd origin)
    (\<lambda>_ c. P c \<and> sent c = S @ [(cmd, origin)])
    (\<lambda>e c. P c \<and> (sent c = S \<or> sent c = S @ [(cmd, origin)]))
    (\<lambda>c. P c \<and> (sent c = S \<or> sent c = S @ [(cmd, origin)]))"
proof -
  let ?R = "\<lambda>c. P c \<and> (sent c = S \<or> sent c = S @ [(cmd, origin)])"
  have sent_stable: "stable (\<lambda>c. sent c = T)" for T
    by (rule stable_frame) (simp add: input_keeps_def frame_kept_def)
  have call: "co_spec (\<lambda>c. P c \<and> sent c = S) (client_call (CallExecute cmd origin))
      (\<lambda>_ c. P c \<and> sent c = S @ [(cmd, origin)]) (\<lambda>e. ?R) ?R"
    unfolding client_call_def
  proof (rule spec_bind[where R = "\<lambda>_ c. P c \<and> sent c = S @ [(cmd, origin)]"])
    show "co_spec (\<lambda>c. P c \<and> sent c = S) (co_modify (co_call (CallExecute cmd origin)))
        (\<lambda>_ c. P c \<and> sent c = S @ [(cmd, origin)]) (\<lambda>e. ?R) ?R"
      by (rule spec_modify) (simp add: assms(3), simp add: co_call_def assms(3))
    show "co_spec (\<lambda>c. P c \<and> sent c = S @ [(cmd, origin)]) (co_await answer_call)
        (\<lambda>_ c. P c \<and> sent c = S @ [(cmd, origin)]) (\<lambda>e. ?R) ?R"
      by (rule spec_await[OF stable_conj[OF assms(1) sent_stable]]) (auto simp: answer_call_def split: option.split)
  qed
  have translate: "co_spec ?R (translate_error e) (\<lambda>_ c. P c \<and> sent c = S @ [(cmd, origin)]) (\<lambda>e. ?R) ?R" for e
  proof -
    have "co_spec ?R (co_modify (\<lambda>c. c\<lparr>co_cause := x\<rparr>)) (\<lambda>_. ?R) (\<lambda>e. ?R) ?R" for x
      by (rule spec_modify) (auto simp: sent_def elim: core_basedD[OF assms(2)])
    then show ?thesis
      unfolding translate_error_def by (auto intro!: spec_bind[where R = "\<lambda>_. ?R"] spec_raise)
  qed
  show ?thesis
    unfolding co_execute_def
  proof (rule spec_get)
    fix c0 :: coordinator
    have "co_spec (\<lambda>c. P c \<and> sent c = S)
        (if origin = CUSTOM_AUTO \<and> \<not> co_command_gate c0 then co_raise HomeAssistantError
         else client_call (CallExecute cmd origin))
        (\<lambda>_ c. P c \<and> sent c = S @ [(cmd, origin)]) (\<lambda>e. ?R) ?R"
      using call by (auto intro: spec_raise)
    from spec_catch[OF this translate]
    have "co_spec (\<lambda>c. P c \<and> sent c = S)
        (if co_publishing c0 then co_raise RuntimeError
         else co_catch (if origin = CUSTOM_AUTO \<and> \<not> co_command_gate c0 then co_raise HomeAssistantError
           else client_call (CallExecute cmd origin)) translate_error)
        (\<lambda>_ c. P c \<and> sent c = S @ [(cmd, origin)]) (\<lambda>e. ?R) ?R"
      by (auto intro: spec_raise)
    then show "co_spec (\<lambda>c. (P c \<and> sent c = S) \<and> c = c0)
        (if co_publishing c0 then co_raise RuntimeError
         else co_catch (if origin = CUSTOM_AUTO \<and> \<not> co_command_gate c0 then co_raise HomeAssistantError
           else client_call (CallExecute cmd origin)) translate_error)
        (\<lambda>_ c. P c \<and> sent c = S @ [(cmd, origin)]) (\<lambda>e. ?R) ?R"
      by (rule spec_mono) auto
  qed
qed

text \<open>The remembered selection: what was reported as saved is what the cell holds.\<close>

definition remembers :: "bool \<Rightarrow> coordinator \<Rightarrow> bool" where
  "remembers b c \<longleftrightarrow> active_from_payload (co_stored c) = Some b"

lemma set_active_stores: "set_active st wio lio False b s = (Inr (), s') \<Longrightarrow> active_from_payload s' = Some b"
  by (cases wio; cases lio; cases s')
    (auto simp: set_active_def await_mutation_def save_and_verify_def active_from_payload_def
      split: if_splits sum.splits option.splits prod.splits)

lemma spec_remember:
  assumes "stable P" "\<And>c s. P c \<Longrightarrow> P (c\<lparr>co_stored := s\<rparr>)"
  shows "co_spec P (memory_set_active b) (\<lambda>_ c. P c \<and> remembers b c) (\<lambda>e. P) P"
proof (rule co_specI)
  let ?answer = "\<lambda>v c. case set_active (ae_core v) (ae_write v) (ae_load v) False b (co_stored c) of
      (r, stored) \<Rightarrow> (Finished r, c\<lparr>co_stored := stored\<rparr>)"
  have await: "co_spec P (co_await ?answer) (\<lambda>_ c. P c \<and> remembers b c) (\<lambda>e. P) P"
  proof (rule spec_await[OF assms(1)])
    fix v c
    assume "P c"
    obtain r s where s: "set_active (ae_core v) (ae_write v) (ae_load v) False b (co_stored c) = (r, s)" by fastforce
    show "outcome_ok (\<lambda>_ c. P c \<and> remembers b c) (\<lambda>e. P) P (fst (?answer v c), [], snd (?answer v c))"
      using s assms(2)[OF \<open>P c\<close>] set_active_stores[of "ae_core v" "ae_write v" "ae_load v" b "co_stored c" s]
      by (cases r) (simp_all add: remembers_def)
  qed simp_all
  fix k env c
  assume "P c"
  from co_specD[OF await this, of False env]
  show "outcome_ok (\<lambda>_ c. P c \<and> remembers b c) (\<lambda>e. P) P (memory_set_active b k env c)"
    by (simp add: memory_set_active_def)
qed

section \<open>Taking the fan over\<close>

text \<open>The registry gate was open in generation \<open>g\<close> and stays open as long as the generation does.\<close>

definition gate_since :: "int \<Rightarrow> coordinator \<Rightarrow> bool" where
  "gate_since g c \<longleftrightarrow> g \<le> co_cleanup_generation c \<and> (co_cleanup_generation c = g \<longrightarrow> co_command_gate c)"

lemma framed_gate: "framed (gate_since g)"
  unfolding framed_def gate_since_def input_keeps_def gate_closes_def by force

definition yielded :: "coordinator \<Rightarrow> bool" where
  "yielded c \<longleftrightarrow> holds (lasting inactive activates) c"

lemma yielded_inactive: "yielded c \<Longrightarrow> \<not> controller_active c"
  by (auto simp: yielded_def holds_def lasting_def inactive_def controller_active_def split: option.split)

lemma stable_yielded: "stable yielded"
  using stable_holds[OF deactivation.lasting_closed] by (simp add: stable_def yielded_def)

text \<open>Before the override: nothing sent yet.  After it: inactive, and remembered as off, unless the
  registry closed the gate meanwhile.\<close>

definition takeover :: "int \<Rightarrow> bool \<Rightarrow> coordinator \<Rightarrow> bool" where
  "takeover g m c \<longleftrightarrow> controls_known c \<and> gate_since g c \<and> co_memory c = m"

definition forgotten :: "int \<Rightarrow> bool \<Rightarrow> coordinator \<Rightarrow> bool" where
  "forgotten g m c \<longleftrightarrow> (m \<and> co_cleanup_generation c = g \<longrightarrow> remembers False c)"

definition taken_over :: "int \<Rightarrow> bool \<Rightarrow> coordinator \<Rightarrow> bool" where
  "taken_over g m c \<longleftrightarrow> takeover g m c \<and> forgotten g m c \<and> (co_controller c \<noteq> None \<longrightarrow> yielded c)"

lemma framed_memory: "framed (\<lambda>c. co_memory c = m)"
  by (simp add: framed_def input_keeps_def frame_kept_def)

lemma framed_conj: "framed P \<Longrightarrow> framed Q \<Longrightarrow> framed (\<lambda>c. P c \<and> Q c)"
  by (simp add: framed_def)

lemma framed_sent: "framed (\<lambda>c. sent c = s)"
  by (simp add: framed_def input_keeps_def frame_kept_def)

lemma framed_forgotten: "framed (\<lambda>c. gate_since g c \<and> co_memory c = m \<and> forgotten g m c)"
proof -
  have "forgotten g m c'" if "input_keeps c c'" "gate_since g c" "forgotten g m c" for c c'
    using that by (auto simp: forgotten_def gate_since_def input_keeps_def frame_kept_def gate_closes_def remembers_def)
  then show ?thesis
    using framed_gate[of g] framed_memory[of m] unfolding framed_def by blast
qed

lemma core_based_takeover:
  "core_based (takeover g m)" "core_based (forgotten g m)" "core_based yielded" "core_based controls_known"
  "core_based (\<lambda>c. sent c = s)" "core_based (taken_over g m)" "core_based (gate_since g)"
  by (auto simp: core_based_def co_core_def takeover_def forgotten_def taken_over_def yielded_def controls_known_def
      gate_since_def holds_def remembers_def)

lemma core_based_conj: "core_based P \<Longrightarrow> core_based Q \<Longrightarrow> core_based (\<lambda>c. P c \<and> Q c)"
  unfolding core_based_def by blast

lemma stable_takeover: "stable (takeover g m)"
  unfolding takeover_def
  by (intro stable_conj stable_controls_known framed_stable framed_gate framed_memory)

lemma stable_taken_over: "stable (taken_over g m)"
proof -
  have "stable (\<lambda>c. (controls_known c \<and> (gate_since g c \<and> co_memory c = m \<and> forgotten g m c)))"
    by (intro stable_conj stable_controls_known framed_stable framed_forgotten)
  moreover have "stable (\<lambda>c. co_controller c \<noteq> None \<longrightarrow> yielded c)"
    using stable_yielded by (auto simp: stable_def yielded_def holds_def)
  ultimately have "stable (\<lambda>c. (controls_known c \<and> (gate_since g c \<and> co_memory c = m \<and> forgotten g m c)) \<and>
      (co_controller c \<noteq> None \<longrightarrow> yielded c))" by (rule stable_conj)
  then show ?thesis by (rule back_subst[of stable]) (auto simp: taken_over_def takeover_def)
qed

lemma override_transaction_spec:
  "co_spec (\<lambda>c. takeover g m c \<and> sent c = s) ha_override_transaction
     (\<lambda>_ c. taken_over g m c \<and> sent c = s) (\<lambda>e c. takeover g m c \<and> sent c = s) (\<lambda>c. takeover g m c \<and> sent c = s)"
proof -
  let ?P = "\<lambda>c. takeover g m c \<and> sent c = s"
  let ?F = "\<lambda>c. (gate_since g c \<and> co_memory c = m \<and> forgotten g m c) \<and> sent c = s"
  let ?R = "\<lambda>c. ?F c \<and> controls_known c"
  have stable_P: "stable ?P" by (intro stable_conj stable_takeover framed_stable framed_sent)
  have memory: "co_spec ?P (co_get (\<lambda>c. if co_memory c \<and> co_command_gate c then memory_set_active False else co_return ()))
      (\<lambda>_. ?R) (\<lambda>e. ?P) ?P"
  proof (rule spec_get)
    fix c0 :: coordinator
    have silent: "?P (c\<lparr>co_stored := x\<rparr>)" if "?P c" for c x
      using that by (simp add: takeover_def controls_known_def holds_def gate_since_def sent_def)
    have set: "co_spec ?P (memory_set_active False) (\<lambda>_. ?R) (\<lambda>e. ?P) ?P"
      by (rule spec_mono[OF spec_remember[OF stable_P, of False]], erule silent) (simp_all add: takeover_def forgotten_def)
    show "co_spec (\<lambda>c. ?P c \<and> c = c0) (if co_memory c0 \<and> co_command_gate c0 then memory_set_active False else co_return ())
        (\<lambda>_. ?R) (\<lambda>e. ?P) ?P"
    proof (cases "co_memory c0 \<and> co_command_gate c0")
      case True
      from spec_mono[OF set, of "\<lambda>c. ?P c \<and> c = c0"] True show ?thesis by auto
    next
      case False
      then show ?thesis by (auto intro!: spec_return simp: takeover_def forgotten_def gate_since_def)
    qed
  qed
  have F: "framed ?F" by (intro framed_conj framed_forgotten framed_sent)
  have R: "core_based ?R" "core_based (\<lambda>c. ?F c \<and> controls_known c \<and> holds (lasting inactive activates) c)"
    using core_based_takeover by (auto simp: core_based_def co_core_def gate_since_def forgotten_def remembers_def
        controls_known_def holds_def)
  have control: "co_spec ?R (suppressing_ownership_loss (control_and_wait ha_override))
      (\<lambda>_ c. taken_over g m c \<and> sent c = s) (\<lambda>e. ?R) ?R"
    by (rule spec_mono[OF spec_suppress[OF override.spec_control[OF F, of None None, folded ha_override_def] R(1) R(2) R(1)]])
      (auto simp: taken_over_def takeover_def yielded_def)
  have settle: "co_spec (\<lambda>c. taken_over g m c \<and> sent c = s) (settle_handoff h) (\<lambda>_ c. taken_over g m c \<and> sent c = s) E B"
    for h E B
    by (rule spec_mono[OF spec_settle[OF core_based_conj[OF core_based_takeover(6,5)]]]) auto
  show ?thesis
    unfolding ha_override_transaction_def
    by (rule spec_bind[OF memory], rule spec_bind[OF spec_mono[OF control] settle]) (auto simp: takeover_def)
qed

end
