(* ===== verification/Coordinator_Contract.thy ===== *)
theory Coordinator_Contract
  imports Coordinator_Facts "HOL-Library.Sublist"
begin

text \<open>
  The contracts of the operations that change who controls the fan: an explicit command is sent only
  once the policy has yielded, and switching the policy off hands the fan back at most once.
\<close>

section \<open>An explicit fan mode\<close>

text \<open>The policy, if there is one, has yielded, and its selection is remembered as off.\<close>

definition claimed :: "int \<Rightarrow> bool \<Rightarrow> coordinator \<Rightarrow> bool" where
  "claimed g m c \<longleftrightarrow> takeover g m c \<and> (co_controller c \<noteq> None \<longrightarrow> forgotten g m c \<and> yielded c)"

lemma input_keeps_none: "(co_controller (coordinator_input_step c i) = None) = (co_controller c = None)"
  using input_keeps_input[of c i] by (simp add: input_keeps_def frame_kept_def)

lemma stable_claimed: "stable (claimed g m)"
  unfolding stable_def
proof (intro allI impI)
  fix c i
  assume c: "claimed g m c"
  show "claimed g m (coordinator_input_step c i)"
  proof (cases "co_controller c = None")
    case True
    with c stable_takeover[of g m] show ?thesis by (simp add: claimed_def stable_def input_keeps_none)
  next
    case False
    with c have "taken_over g m c" by (simp add: claimed_def taken_over_def)
    then have "taken_over g m (coordinator_input_step c i)" using stable_taken_over[of g m] by (simp add: stable_def)
    with False show ?thesis by (simp add: taken_over_def claimed_def input_keeps_none)
  qed
qed

lemma core_based_claimed: "core_based (claimed g m)"
  using core_based_takeover(1)[of g m] core_based_takeover(2)[of g m] core_based_takeover(3)
  by (simp add: core_based_def claimed_def co_core_def)

lemma claimed_log: "claimed g m c \<Longrightarrow> claimed g m (c\<lparr>co_log := xs\<rparr>)"
  by (simp add: claimed_def takeover_def forgotten_def yielded_def controls_known_def gate_since_def holds_def
      remembers_def)

lemma spec_weaken_error: "co_spec P m Q (\<lambda>e. B) B \<Longrightarrow> (\<And>c. B c \<Longrightarrow> B' c) \<Longrightarrow> co_spec P m Q (\<lambda>e. B') B'"
  by (erule spec_mono) auto

lemma spec_get_any:
  assumes "\<And>c0. co_spec P (f c0) Q E B"
  shows "co_spec P (co_get f) Q E B"
proof (rule spec_get)
  fix c0 :: coordinator
  show "co_spec (\<lambda>c. P c \<and> c = c0) (f c0) Q E B" by (rule spec_mono[OF assms]) auto
qed

lemma spec_when: "co_spec P m (\<lambda>_. P) E B \<Longrightarrow> co_spec P (when_memory m) (\<lambda>_. P) E B"
  unfolding when_memory_def by (rule spec_get_any) (auto intro: spec_return)

text \<open>What an explicit command may have sent, with or without switching the power on.\<close>

definition mode_commands :: "bool \<Rightarrow> fan_mode \<Rightarrow> (command \<times> command_origin) list" where
  "mode_commands power_on mode =
     (if power_on then [(SetPower True, HOME_ASSISTANT)] else []) @ [(SetFanMode mode, HOME_ASSISTANT)]"

definition claiming :: "int \<Rightarrow> bool \<Rightarrow> (command \<times> command_origin) list \<Rightarrow> bool \<Rightarrow> fan_mode \<Rightarrow> coordinator \<Rightarrow> bool" where
  "claiming g m s power_on mode c \<longleftrightarrow> takeover g m c \<and> sent c = s \<or>
     claimed g m c \<and> (\<exists>n. sent c = s @ take n (mode_commands power_on mode))"

lemma claiming_at: "claimed g m c \<Longrightarrow> sent c = s @ take n (mode_commands power_on mode) \<Longrightarrow> claiming g m s power_on mode c"
  by (auto simp: claiming_def)

lemma apply_mode_spec:
  "co_spec (\<lambda>c. takeover g m c \<and> sent c = s) (apply_ha_fan_mode mode power_on)
     (\<lambda>_ c. claimed g m c \<and> sent c = s @ mode_commands power_on mode)
     (\<lambda>e. claiming g m s power_on mode) (claiming g m s power_on mode)"
proof -
  let ?P = "\<lambda>c. takeover g m c \<and> sent c = s"
  let ?R = "claiming g m s power_on mode"
  let ?S = "\<lambda>n c. claimed g m c \<and> sent c = s @ take n (mode_commands power_on mode)"
  have P_R: "?P c \<Longrightarrow> ?R c" for c by (simp add: claiming_def)
  have stable_P: "stable ?P" by (intro stable_conj stable_takeover framed_stable framed_sent)
  have yield: "co_spec ?P (complete_despite_cancellation ha_override_transaction) (\<lambda>_. ?S 0) (\<lambda>e. ?R) ?R"
  proof (rule spec_shield)
    show "co_spec ?P ha_override_transaction (\<lambda>_. ?S 0) (\<lambda>e. ?R) ?R"
      by (rule spec_mono[OF override_transaction_spec[of g m s]]) (auto simp: claimed_def taken_over_def claiming_def)
  qed (auto simp: claiming_def)
  have claim: "co_spec ?P (when_controller (complete_despite_cancellation ha_override_transaction))
      (\<lambda>_. ?S 0) (\<lambda>e. ?R) ?R"
    unfolding when_controller_def
  proof (rule spec_get)
    fix c0 :: coordinator
    show "co_spec (\<lambda>c. ?P c \<and> c = c0)
        (if co_controller c0 = None then co_return () else complete_despite_cancellation ha_override_transaction)
        (\<lambda>_. ?S 0) (\<lambda>e. ?R) ?R"
      using spec_mono[OF yield, of "\<lambda>c. ?P c \<and> c = c0"] by (auto intro!: spec_return simp: claimed_def)
  qed
  have execute: "co_spec (?S n) (co_execute cmd HOME_ASSISTANT) (\<lambda>_. ?S (Suc n)) (\<lambda>e. ?R) ?R"
    if "n < length (mode_commands power_on mode)" "mode_commands power_on mode ! n = (cmd, HOME_ASSISTANT)" for n cmd
  proof -
    have more: "s @ take n (mode_commands power_on mode) @ [(cmd, HOME_ASSISTANT)] =
        s @ take (Suc n) (mode_commands power_on mode)"
      using that by (simp add: take_Suc_conv_app_nth)
    show ?thesis
      by (rule spec_mono[OF spec_execute[OF stable_claimed core_based_claimed claimed_log,
            of g m "s @ take n (mode_commands power_on mode)" cmd HOME_ASSISTANT]])
        (auto simp: more intro: claiming_at)
  qed
  have send: "co_spec (?S 0) (co_then (if power_on then co_execute (SetPower True) HOME_ASSISTANT else co_return ())
      (co_execute (SetFanMode mode) HOME_ASSISTANT))
      (\<lambda>_ c. claimed g m c \<and> sent c = s @ mode_commands power_on mode) (\<lambda>e. ?R) ?R"
  proof (cases power_on)
    case True
    then show ?thesis
      using spec_bind[OF execute[of 0 "SetPower True"], of "\<lambda>_. co_execute (SetFanMode mode) HOME_ASSISTANT"]
        execute[of 1 "SetFanMode mode"] by (simp add: mode_commands_def)
  next
    case False
    then show ?thesis
      using execute[of 0 "SetFanMode mode"]
      by (auto simp: mode_commands_def intro!: spec_bind[where R = "\<lambda>_. ?S 0"] spec_return)
  qed
  show ?thesis
    unfolding apply_ha_fan_mode_def
    by (rule spec_lock[OF stable_P spec_bind[OF claim send]]) (simp_all add: P_R)
qed

section \<open>Handing the fan back\<close>

text \<open>The selection is remembered as off when it was to be persisted.\<close>

definition switched_off :: "bool \<Rightarrow> coordinator \<Rightarrow> bool" where
  "switched_off b c \<longleftrightarrow> (b \<longrightarrow> remembers False c)"

definition HANDOFF_COMMAND :: "command \<times> command_origin" where
  "HANDOFF_COMMAND = (SetFanMode AUTO, HANDOFF)"

definition kept_to_itself :: "string set" where
  "kept_to_itself =
     {''superseded'', ''not_required'', ''not_attempted_unknown_power'', ''not_attempted_unavailable''}"

text \<open>Yielded, remembered and nothing sent yet; and how it may end.\<close>

definition handing :: "bool \<Rightarrow> (command \<times> command_origin) list \<Rightarrow> coordinator \<Rightarrow> bool" where
  "handing b s c \<longleftrightarrow> yielded c \<and> switched_off b c \<and> sent c = s"

definition handed :: "bool \<Rightarrow> (command \<times> command_origin) list \<Rightarrow> coordinator \<Rightarrow> bool" where
  "handed b s c \<longleftrightarrow> yielded c \<and> switched_off b c \<and>
     (ho_state (co_handoff c) = ''confirmed'' \<and> sent c = s @ [HANDOFF_COMMAND] \<or>
      ho_state (co_handoff c) \<in> kept_to_itself \<and> sent c = s)"

definition hand_unsettled :: "bool \<Rightarrow> (command \<times> command_origin) list \<Rightarrow> coordinator \<Rightarrow> bool" where
  "hand_unsettled b s c \<longleftrightarrow> sent c = s \<or> yielded c \<and> switched_off b c \<and> sent c = s @ [HANDOFF_COMMAND]"

lemma framed_switched_off: "framed (switched_off b)"
  by (auto simp: framed_def switched_off_def remembers_def input_keeps_def frame_kept_def)

lemma framed_handoff: "framed (\<lambda>c. co_handoff c = h)"
  by (simp add: framed_def input_keeps_def frame_kept_def)

lemma core_based_switched_off: "core_based (switched_off b)"
  by (auto simp: core_based_def co_core_def switched_off_def remembers_def)

lemma core_based_handing: "core_based (handing b s)"
  using core_based_takeover(3) core_based_switched_off core_based_takeover(5)[of s]
  by (auto simp: core_based_def handing_def)

lemma core_based_unsettled: "core_based (hand_unsettled b s)"
  using core_based_takeover(3) core_based_switched_off core_based_takeover(5)
  unfolding core_based_def hand_unsettled_def by blast

lemma stable_handing: "stable (handing b s)"
  unfolding handing_def by (intro stable_conj stable_yielded framed_stable framed_switched_off framed_sent)

lemma settle_spec:
  "co_spec (handing b s) (settle_handoff h) (\<lambda>_ c. handing b s c \<and> co_handoff c = h) E B"
  by (rule spec_settle[OF core_based_handing])

lemma handoff_spec:
  "co_spec (handing b s) handoff_to_hardware (\<lambda>_. handed b s) (\<lambda>e. hand_unsettled b s) (hand_unsettled b s)"
proof -
  let ?Y = "\<lambda>c. yielded c \<and> switched_off b c"
  have Y: "stable ?Y" "core_based ?Y"
    by (intro stable_conj stable_yielded framed_stable framed_switched_off)
      (intro core_based_conj core_based_takeover core_based_switched_off)
  have log: "?Y c \<Longrightarrow> ?Y (c\<lparr>co_log := xs\<rparr>)" for c xs
    by (simp add: yielded_def switched_off_def remembers_def holds_def)
  have pending: "co_spec (handing b s) (settle_handoff h) (\<lambda>_. handing b s) E B" for h E B
    by (rule spec_mono[OF settle_spec]) auto
  have execute: "co_spec (handing b s) (co_execute (SetFanMode AUTO) HANDOFF)
      (\<lambda>_ c. ?Y c \<and> sent c = s @ [HANDOFF_COMMAND]) (\<lambda>e. hand_unsettled b s) (hand_unsettled b s)"
    by (rule spec_mono[OF spec_execute[OF Y log, of s "SetFanMode AUTO" HANDOFF]])
      (auto simp: handing_def hand_unsettled_def HANDOFF_COMMAND_def)
  have failed: "co_spec (hand_unsettled b s) (co_get (\<lambda>c. let cause = cause_of e c
      in co_then (settle_handoff (failed cause)) (co_raise e))) Q (\<lambda>e. hand_unsettled b s) (hand_unsettled b s)"
    for e cause_of failed Q
  proof (rule spec_get_any)
    fix c0 :: coordinator
    have "co_spec (hand_unsettled b s) (settle_handoff h) (\<lambda>_. hand_unsettled b s) (\<lambda>e. hand_unsettled b s) (hand_unsettled b s)"
      for h by (rule spec_mono[OF spec_settle[OF core_based_unsettled]]) auto
    then show "co_spec (hand_unsettled b s) (let cause = cause_of e c0
        in co_then (settle_handoff (failed cause)) (co_raise e)) Q (\<lambda>e. hand_unsettled b s) (hand_unsettled b s)"
      by (auto simp: Let_def intro!: spec_bind[where R = "\<lambda>_. hand_unsettled b s"] spec_raise)
  qed
  have confirmed: "co_spec (\<lambda>c. ?Y c \<and> sent c = s @ [HANDOFF_COMMAND]) (settle_handoff (handoff_of ''confirmed''))
      (\<lambda>_. handed b s) E B" for E B
    by (rule spec_mono[OF spec_settle[OF core_based_conj[OF Y(2) core_based_takeover(5)]]])
      (auto simp: handed_def handoff_of_def)
  show ?thesis
    unfolding handoff_to_hardware_def
    by (rule spec_bind[OF pending], rule spec_bind[OF spec_except[OF execute failed] confirmed])
qed

lemma yield_spec:
  "co_spec (handing b s) (yield_hardware was_active retrying) (\<lambda>_. handed b s) (\<lambda>e. hand_unsettled b s) (hand_unsettled b s)"
  unfolding yield_hardware_def
proof (rule spec_get)
  fix c0 :: coordinator
  have kept: "co_spec (\<lambda>c. handing b s c \<and> c = c0) (settle_handoff (handoff_because h reason)) (\<lambda>_. handed b s) E B"
    if "h \<in> kept_to_itself" for h reason E B
    by (rule spec_mono[OF settle_spec[of b s]])
      (use that in \<open>auto simp: handing_def handed_def handoff_because_def handoff_of_def\<close>)
  have "co_spec (\<lambda>c. handing b s c \<and> c = c0) handoff_to_hardware (\<lambda>_. handed b s) (\<lambda>e. hand_unsettled b s) (hand_unsettled b s)"
    by (rule spec_mono[OF handoff_spec]) auto
  then show "co_spec (\<lambda>c. handing b s c \<and> c = c0)
      (if \<not> was_active \<and> \<not> retrying
       then settle_handoff (handoff_because ''superseded'' ''ownership_already_yielded'')
       else if ps_power (co_data c0) = Some False
       then settle_handoff (handoff_because ''not_required'' ''powered_off'')
       else if ps_power (co_data c0) = None
       then settle_handoff (handoff_because ''not_attempted_unknown_power'' ''power_unknown'')
       else if \<not> co_available c0 \<or> \<not> cv_ready (co_view c0)
       then settle_handoff (handoff_because ''not_attempted_unavailable'' ''unavailable'')
       else handoff_to_hardware) (\<lambda>_. handed b s) (\<lambda>e. hand_unsettled b s) (hand_unsettled b s)"
    by (intro spec_if kept) (simp_all add: kept_to_itself_def)
qed

lemma deactivate_and_handoff_spec:
  "co_spec (\<lambda>c. controls_known c \<and> co_memory c = m \<and> sent c = s) (deactivate_and_handoff persist)
     (\<lambda>_. handed (persist \<and> m) s) (\<lambda>e. hand_unsettled (persist \<and> m) s) (hand_unsettled (persist \<and> m) s)"
proof -
  let ?b = "persist \<and> m"
  let ?P = "\<lambda>c. controls_known c \<and> co_memory c = m \<and> sent c = s"
  let ?F = "\<lambda>c. switched_off ?b c \<and> sent c = s"
  let ?R = "\<lambda>c. ?F c \<and> controls_known c"
  let ?U = "hand_unsettled ?b s"
  have F: "framed ?F" by (intro framed_conj framed_switched_off framed_sent)
  have P: "stable ?P" by (intro stable_conj stable_controls_known framed_stable framed_memory framed_sent)
  have unsettled: "?P c \<Longrightarrow> ?U c" "?R c \<Longrightarrow> ?U c" for c by (simp_all add: hand_unsettled_def)
  have stored: "?P (c\<lparr>co_stored := x\<rparr>)" if "?P c" for c x
    using that by (simp add: controls_known_def holds_def sent_def)
  have "co_spec ?P (when_memory (memory_set_active False)) (\<lambda>_. ?R) (\<lambda>e. ?P) ?P" if persist
    unfolding when_memory_def
  proof (rule spec_get)
    fix c0 :: coordinator
    have "co_spec (\<lambda>c. ?P c \<and> c = c0) (memory_set_active False) (\<lambda>_. ?R) (\<lambda>e. ?P) ?P"
      by (rule spec_mono[OF spec_remember[OF P stored, of False]]) (simp_all add: switched_off_def)
    then show "co_spec (\<lambda>c. ?P c \<and> c = c0) (if co_memory c0 then memory_set_active False else co_return ())
        (\<lambda>_. ?R) (\<lambda>e. ?P) ?P"
      by (auto intro: spec_return simp: switched_off_def)
  qed
  moreover have "co_spec ?P (co_return ()) (\<lambda>_. ?R) (\<lambda>e. ?P) ?P" if "\<not> persist"
    using that by (auto intro: spec_return simp: switched_off_def)
  ultimately have memory: "co_spec ?P (if persist then when_memory (memory_set_active False) else co_return ())
      (\<lambda>_. ?R) (\<lambda>e. ?P) ?P" by simp
  have R: "core_based ?R" "core_based (\<lambda>c. ?F c \<and> controls_known c \<and> holds (lasting inactive activates) c)"
    by (auto simp: core_based_def co_core_def switched_off_def remembers_def controls_known_def holds_def)
  have "co_spec ?R (suppressing_ownership_loss (control_and_wait deactivate)) (\<lambda>_. handing ?b s) (\<lambda>e. ?R) ?R"
    by (rule spec_mono[OF spec_suppress[OF deactivation.spec_control[OF F, of None None, folded deactivate_def] R(1) R(2) R(1)]])
      (auto simp: handing_def yielded_def)
  then have drain: "co_spec ?R (suppressing_ownership_loss (control_and_wait deactivate)) (\<lambda>_. handing ?b s) (\<lambda>e. ?U) ?U"
    by (rule spec_mono) (use unsettled in blast)+
  show ?thesis
    unfolding deactivate_and_handoff_def
    by (rule spec_bind[OF spec_mono[OF memory] spec_get_any[OF spec_bind[OF drain yield_spec]]])
      (use unsettled in blast)+
qed

section \<open>Properties\<close>

lemma controls_known_start:
  "new_coordinator view opts memory stored restore allowed = Inr c \<Longrightarrow> controls_known c"
  by (cases "ao_enabled opts")
    (auto simp: new_coordinator_def new_controller_def controls_known_def holds_def controls_ok_def split: sum.splits)

text \<open>C12. An explicit fan mode from Home Assistant takes the fan over before anything is sent: whatever
  happens meanwhile, however it ends, what was sent is a prefix of the optional power command followed
  by the mode, and as soon as anything was sent the policy is inactive and, unless the registry closed the
  gate, remembered as off.  When it returns, all of it was sent.\<close>

theorem explicit_mode_takes_over:
  assumes "controls_known c" "co_command_gate c"
    and "apply_ha_fan_mode mode power_on k env c = (p, env', c')"
  shows "prefix (sent c) (sent c') \<and> prefix (sent c') (sent c @ mode_commands power_on mode) \<and>
    (sent c' \<noteq> sent c \<or> p = Finished (Inr ()) \<longrightarrow>
       \<not> controller_active c' \<and>
       (co_memory c \<and> co_controller c' \<noteq> None \<and> co_cleanup_generation c' = co_cleanup_generation c \<longrightarrow>
          remembers False c')) \<and>
    (p = Finished (Inr ()) \<longrightarrow> sent c' = sent c @ mode_commands power_on mode)"
proof -
  let ?g = "co_cleanup_generation c" and ?l = "mode_commands power_on mode"
  have claimed: "\<not> controller_active x \<and> (co_memory c \<and> co_controller x \<noteq> None \<and> co_cleanup_generation x = ?g \<longrightarrow> remembers False x)"
    if "claimed ?g (co_memory c) x" for x
    using that yielded_inactive[of x] by (auto simp: claimed_def forgotten_def controller_active_def split: option.splits)
  have "takeover ?g (co_memory c) c" using assms(1,2) by (simp add: takeover_def gate_since_def)
  then have o: "outcome_ok (\<lambda>_ x. claimed ?g (co_memory c) x \<and> sent x = sent c @ ?l)
      (\<lambda>e. claiming ?g (co_memory c) (sent c) power_on mode) (claiming ?g (co_memory c) (sent c) power_on mode) (p, env', c')"
    using co_specD[OF apply_mode_spec[of ?g "co_memory c" "sent c" mode power_on], of c k env] assms(3) by simp
  have other: ?thesis if "claiming ?g (co_memory c) (sent c) power_on mode c'" "p \<noteq> Finished (Inr ())"
    using that claimed[of c'] by (auto simp: claiming_def take_is_prefix)
  from o show ?thesis
    by (cases rule: outcome_cases[of "(p, env', c')"]) (use other claimed[of c'] in auto)
qed

text \<open>C13. Switching Custom Auto off hands the fan back at most once: when it returns the policy is
  inactive, the selection is remembered as off, and either the hardware confirmed its own Auto mode, the
  only command that was sent, or nothing was sent and the hand-off state says why.  However it ends, nothing
  but that command was sent, and only after the policy had yielded.\<close>

theorem switched_off_and_handed_back:
  assumes "controls_known c" "co_controller c \<noteq> None" "deactivate_custom_auto k env c = (p, env', c')"
  shows "(sent c' = sent c \<or> sent c' = sent c @ [HANDOFF_COMMAND]) \<and>
    (sent c' \<noteq> sent c \<or> p = Finished (Inr ()) \<longrightarrow> \<not> controller_active c' \<and> (co_memory c \<longrightarrow> remembers False c')) \<and>
    (p = Finished (Inr ()) \<longrightarrow>
       ho_state (co_handoff c') = ''confirmed'' \<and> sent c' \<noteq> sent c \<or>
       ho_state (co_handoff c') \<in> kept_to_itself \<and> sent c' = sent c)"
proof -
  let ?m = "co_memory c" and ?s = "sent c"
  let ?P = "\<lambda>x. controls_known x \<and> co_memory x = ?m \<and> sent x = ?s"
  have P: "stable ?P" by (intro stable_conj stable_controls_known framed_stable framed_memory framed_sent)
  have "co_spec ?P (complete_despite_cancellation (deactivate_and_handoff True))
      (\<lambda>_. handed ?m ?s) (\<lambda>e. hand_unsettled ?m ?s) (hand_unsettled ?m ?s)"
    using deactivate_and_handoff_spec[of ?m ?s True]
    by (intro spec_shield) (auto simp: handed_def hand_unsettled_def)
  then have "co_spec ?P (with_lock (complete_despite_cancellation (deactivate_and_handoff True)))
      (\<lambda>_. handed ?m ?s) (\<lambda>e. hand_unsettled ?m ?s) (hand_unsettled ?m ?s)"
    by (rule spec_lock[OF P]) (simp_all add: hand_unsettled_def)
  moreover have "deactivate_custom_auto k env c =
      with_lock (complete_despite_cancellation (deactivate_and_handoff True)) k env c"
    using assms(2) by (simp add: deactivate_custom_auto_def co_get_def del: not_None_eq)
  ultimately have o: "outcome_ok (\<lambda>_. handed ?m ?s) (\<lambda>e. hand_unsettled ?m ?s) (hand_unsettled ?m ?s) (p, env', c')"
    using co_specD[of ?P _ _ _ _ c k env] assms(1,3) by fastforce
  have handed: "yielded c'" "switched_off ?m c'" if "handed ?m ?s c'" using that by (simp_all add: handed_def)
  from o show ?thesis
    by (cases rule: outcome_cases[of "(p, env', c')"])
      (auto simp: handed_def hand_unsettled_def switched_off_def dest: yielded_inactive)
qed

end
