(* ===== verification/Coordinator_Invariants.thy ===== *)
theory Coordinator_Invariants
  imports Coordinator_Facts
begin

text \<open>
  Invariants of the coordinator: what its inputs and its basic steps keep is kept by every operation, in
  every environment, and so by every sequence of operations.
\<close>

section \<open>Operations that keep a predicate\<close>

definition keeps :: "(coordinator \<Rightarrow> bool) \<Rightarrow> 'a co \<Rightarrow> bool" where
  "keeps T m \<longleftrightarrow> co_spec T m (\<lambda>_. T) (\<lambda>_. T) T"

lemma keeps_simple:
  "keeps T (co_return x)" "keeps T (co_raise e)"
  by (simp_all add: keeps_def spec_return spec_raise)

lemma keeps_modify: "(\<And>c. T c \<Longrightarrow> T (f c)) \<Longrightarrow> keeps T (co_modify f)"
  by (simp add: keeps_def spec_modify)

lemma keeps_sync: "(\<And>c. T c \<Longrightarrow> T (snd (m c))) \<Longrightarrow> keeps T (co_sync m)"
  unfolding keeps_def by (rule spec_sync) (metis snd_conv)+

lemma keeps_bind: "keeps T m \<Longrightarrow> (\<And>x. keeps T (f x)) \<Longrightarrow> keeps T (co_bind m f)"
  unfolding keeps_def by (rule spec_bind)

lemma keeps_get: "(\<And>c. keeps T (f c)) \<Longrightarrow> keeps T (co_get f)"
  by (simp add: keeps_def co_spec_def co_get_def)

lemma keeps_catch: "keeps T m \<Longrightarrow> (\<And>e. keeps T (h e)) \<Longrightarrow> keeps T (co_catch m h)"
  unfolding keeps_def by (rule spec_catch)

lemma keeps_except: "keeps T m \<Longrightarrow> (\<And>e. keeps T (h e)) \<Longrightarrow> keeps T (co_except m h)"
  unfolding co_except_def by (rule keeps_catch) (simp_all add: keeps_simple)

lemma keeps_finally: "keeps T m \<Longrightarrow> (\<And>b. keeps T (g b)) \<Longrightarrow> keeps T (co_finally m g)"
  unfolding keeps_def by (rule spec_finally)

lemma keeps_shield: "keeps T m \<Longrightarrow> keeps T (complete_despite_cancellation m)"
  unfolding keeps_def by (rule spec_shield)

lemma keeps_lock: "stable T \<Longrightarrow> keeps T m \<Longrightarrow> keeps T (with_lock m)"
  unfolding keeps_def by (rule spec_lock)

lemma keeps_if: "(b \<Longrightarrow> keeps T m) \<Longrightarrow> (\<not> b \<Longrightarrow> keeps T n) \<Longrightarrow> keeps T (if b then m else n)"
  by simp

lemma keeps_await:
  assumes "stable T" "\<And>v c. T c \<Longrightarrow> T (snd (answer v c))"
  shows "keeps T (co_await answer)"
  unfolding keeps_def
proof (rule spec_await[OF assms(1)])
  fix v c
  assume "T c"
  from assms(2)[OF this, of v] show "outcome_ok (\<lambda>_. T) (\<lambda>_. T) T (fst (answer v c), [], snd (answer v c))"
    by (cases rule: outcome_cases[of "(fst (answer v c), [], snd (answer v c))"]) auto
qed simp_all

lemma keepsD: "keeps T m \<Longrightarrow> T c \<Longrightarrow> T (snd (snd (m k env c)))"
  using co_specD[of T m "\<lambda>_. T" "\<lambda>_. T" T c k env]
  by (cases rule: outcome_cases[of "m k env c"]) (auto simp: keeps_def)

lemma keeps_collecting: "keeps T m \<Longrightarrow> keeps T (collecting m)"
  unfolding collecting_def by (intro keeps_except keeps_bind keeps_simple)

lemma keeps_when: "keeps T m \<Longrightarrow> keeps T (when_memory m)" "keeps T m \<Longrightarrow> keeps T (when_controller m)"
  unfolding when_memory_def when_controller_def by (intro keeps_get keeps_if keeps_simple; assumption)+

lemma keeps_option: "keeps T m \<Longrightarrow> (\<And>x. keeps T (f x)) \<Longrightarrow> keeps T (case r of None \<Rightarrow> m | Some x \<Rightarrow> f x)"
  by (cases r) simp_all

lemma keeps_list: "keeps T m \<Longrightarrow> (\<And>x xs. keeps T (f x xs)) \<Longrightarrow> keeps T (case r of [] \<Rightarrow> m | x # xs \<Rightarrow> f x xs)"
  by (cases r) simp_all

lemma keeps_let: "(\<And>x. keeps T (f x)) \<Longrightarrow> keeps T (let x = y in f x)"
  by simp

lemmas keeps_rules = keeps_simple keeps_bind keeps_get keeps_catch keeps_except keeps_finally keeps_shield
  keeps_if keeps_collecting keeps_when keeps_option keeps_list keeps_let

section \<open>The operations that change who controls the fan\<close>

text \<open>The client sees a policy command only through an open gate.\<close>

definition admitted_call :: "coordinator_call \<Rightarrow> coordinator \<Rightarrow> bool" where
  "admitted_call x c \<longleftrightarrow> (\<forall>cmd. x \<noteq> CallExecute cmd CUSTOM_AUTO) \<or> co_command_gate c"

lemma admitted_other: "(\<And>cmd. x \<noteq> CallExecute cmd CUSTOM_AUTO) \<Longrightarrow> admitted_call x c"
  by (simp add: admitted_call_def)

locale coordinator_invariant =
  fixes T :: "coordinator \<Rightarrow> bool"
  assumes inputs: "stable T"
    and bookkeeping: "T c \<Longrightarrow> T (c\<lparr>co_suppress := b\<rparr>)" "T c \<Longrightarrow> T (c\<lparr>co_handoff := h\<rparr>)"
      "T c \<Longrightarrow> T (c\<lparr>co_cause := e\<rparr>)" "T c \<Longrightarrow> T (c\<lparr>co_stored := s\<rparr>)"
    and calls: "T c \<Longrightarrow> admitted_call x c \<Longrightarrow> T (co_call x c)"
    and controls: "T c \<Longrightarrow> co_controller c = Some ct \<Longrightarrow> control action options powered ct = (r, ct') \<Longrightarrow>
      T (c\<lparr>co_controller := Some ct'\<rparr>)"
begin

lemma lock: "keeps T m \<Longrightarrow> keeps T (with_lock m)"
  by (rule keeps_lock[OF inputs])

lemma await: "(\<And>v c. T c \<Longrightarrow> T (snd (answer v c))) \<Longrightarrow> keeps T (co_await answer)"
  by (rule keeps_await[OF inputs])

lemma client: "(\<And>cmd. x \<noteq> CallExecute cmd CUSTOM_AUTO) \<Longrightarrow> keeps T (client_call x)"
  unfolding client_call_def
  by (intro keeps_bind keeps_modify await calls) (simp_all add: admitted_other answer_call_def)

lemma control_wait: "keeps T (control_and_wait (control action options powered))"
  unfolding control_and_wait_def
proof (intro keeps_bind keeps_sync await)
  fix c
  assume "T c"
  then show "T (snd (begin_control (control action options powered) c))"
    by (auto simp: begin_control_def controls split: option.split prod.split)
next
  fix i v c
  assume "T c"
  then show "T (snd (control_answer i v c))"
    by (auto simp: control_answer_def split: option.split outcome.split)
qed

lemma control_waits:
  "keeps T (control_and_wait activate)" "keeps T (control_and_wait deactivate)" "keeps T (control_and_wait ha_override)"
  "keeps T (control_and_wait begin_power_off)" "keeps T (control_and_wait (finish_power_off p))"
  by (simp_all add: control_wait activate_def deactivate_def ha_override_def begin_power_off_def finish_power_off_def)

lemma memory: "keeps T (memory_set_active b)" "keeps T memory_clear"
proof -
  have "keeps T (co_await (\<lambda>v c. case set_active (ae_core v) (ae_write v) (ae_load v) False b (co_stored c) of
      (r, stored) \<Rightarrow> (Finished r, c\<lparr>co_stored := stored\<rparr>)))"
    by (rule await) (simp add: bookkeeping split: prod.split)
  then show "keeps T (memory_set_active b)" by (simp add: keeps_def co_spec_def memory_set_active_def)
  have "keeps T (co_await (\<lambda>v c. case clear (ae_core v) (ae_write v) (ae_load v) False (co_stored c) of
      (r, stored) \<Rightarrow> (Finished r, c\<lparr>co_stored := stored\<rparr>)))"
    by (rule await) (simp add: bookkeeping split: prod.split)
  then show "keeps T memory_clear" by (simp add: keeps_def co_spec_def memory_clear_def)
qed

lemma translate: "keeps T (translate_error e)"
  unfolding translate_error_def by (intro keeps_rules keeps_modify bookkeeping)

text \<open>A command of the policy is sent only when the gate is open at that moment.\<close>

lemma execute: "keeps T (co_execute cmd origin)"
  unfolding keeps_def co_execute_def
proof (rule spec_get)
  fix c0 :: coordinator
  let ?P = "\<lambda>c. T c \<and> c = c0"
  have call: "co_spec ?P (client_call (CallExecute cmd origin)) (\<lambda>_. T) (\<lambda>_. T) T"
    if "\<not> (origin = CUSTOM_AUTO \<and> \<not> co_command_gate c0)"
    unfolding client_call_def
  proof (rule spec_bind[where R = "\<lambda>_. T"])
    show "co_spec ?P (co_modify (co_call (CallExecute cmd origin))) (\<lambda>_. T) (\<lambda>_. T) T"
      using that by (auto intro!: spec_modify calls simp: admitted_call_def)
    show "co_spec T (co_await answer_call) (\<lambda>_. T) (\<lambda>_. T) T"
      using await[of answer_call] by (simp add: keeps_def answer_call_def)
  qed
  have "co_spec ?P (if origin = CUSTOM_AUTO \<and> \<not> co_command_gate c0 then co_raise HomeAssistantError
      else client_call (CallExecute cmd origin)) (\<lambda>_. T) (\<lambda>_. T) T"
    using call by (auto intro: spec_raise)
  from spec_catch[OF this, of translate_error] translate
  show "co_spec ?P (if co_publishing c0 then co_raise RuntimeError
      else co_catch (if origin = CUSTOM_AUTO \<and> \<not> co_command_gate c0 then co_raise HomeAssistantError
        else client_call (CallExecute cmd origin)) translate_error) (\<lambda>_. T) (\<lambda>_. T) T"
    by (auto intro: spec_raise simp: keeps_def)
qed

lemma publish: "T c \<Longrightarrow> T (publish_custom_auto c)"
  by (auto simp: publish_custom_auto_def calls admitted_other split: option.split)

lemma settle: "keeps T (settle_handoff h)"
  unfolding settle_handoff_def by (rule keeps_modify) (simp add: publish bookkeeping)

lemma suppressing: "keeps T m \<Longrightarrow> keeps T (suppressing_ownership_loss m)"
  unfolding suppressing_ownership_loss_def by (intro keeps_rules keeps_modify bookkeeping)

lemmas steps = keeps_rules keeps_modify lock client control_waits memory execute settle suppressing bookkeeping

lemma query: "keeps T query_air_quality" "keeps T cancel_air_quality" "keeps T coordinator_wait_until_ready"
  unfolding query_air_quality_def cancel_air_quality_def coordinator_wait_until_ready_def
  by (intro steps; simp)+

lemma light: "keeps T (set_light_power on)" "keeps T (set_light_brightness p)" "keeps T (set_light_rgb rgb)"
  by (simp_all add: set_light_power_def set_light_brightness_def set_light_rgb_def execute split: prod.split)

lemma purifier_power: "keeps T (set_power on)"
  unfolding set_power_def by (intro steps)

lemma override: "keeps T ha_override_transaction"
  unfolding ha_override_transaction_def by (intro steps)

lemma fan_mode: "keeps T (apply_ha_fan_mode mode on)" "keeps T (set_fan_mode mode origin)"
  "keeps T (custom_auto_fan_mode mode origin)"
  unfolding custom_auto_fan_mode_def set_fan_mode_def apply_ha_fan_mode_def by (intro steps override)+

lemma allowed: "keeps T ensure_activation_allowed"
  unfolding ensure_activation_allowed_def by (intro steps)

lemma rollback: "keeps T rollback_activation"
  unfolding rollback_activation_def by (intro steps)

lemma activation: "keeps T activate_custom_auto"
  unfolding activate_custom_auto_def activate_transaction_def by (intro steps allowed rollback)

lemma hardware: "keeps T handoff_to_hardware"
  unfolding handoff_to_hardware_def by (intro steps)

lemma yielding: "keeps T (yield_hardware was_active retrying)"
  unfolding yield_hardware_def by (intro steps hardware)

lemma handoff: "keeps T (deactivate_and_handoff persist)"
  unfolding deactivate_and_handoff_def by (intro steps yielding)

lemma deactivation: "keeps T deactivate_custom_auto" "keeps T quiesce_custom_auto" "keeps T rearm_after_quiesce"
  unfolding deactivate_custom_auto_def quiesce_custom_auto_def rearm_after_quiesce_def by (intro steps handoff allowed)+

lemma persistence: "keeps T persist_ownership_loss" "keeps T persist_autonomous_ownership_loss"
  unfolding persist_ownership_loss_def persist_autonomous_ownership_loss_def by (intro steps)+

lemma cleanup_transaction: "keeps T registry_cleanup_transaction"
  unfolding registry_cleanup_transaction_def by (intro steps handoff)

end

text \<open>The cleanup settles the registry's demand and reopens the gate.\<close>

locale coordinator_gate = coordinator_invariant +
  assumes settling: "T c \<Longrightarrow> T (c\<lparr>co_cleanup_served := n\<rparr>)" "T c \<Longrightarrow> T (c\<lparr>co_cleanup_task := True\<rparr>)"
      "T c \<Longrightarrow> T (c\<lparr>co_cleanup_required := False\<rparr>)"
    and reopening: "T c \<Longrightarrow> reopens_gate c \<Longrightarrow> T (c\<lparr>co_command_gate := True\<rparr>)"
begin

lemma settle_cleanup: "keeps T (co_modify (\<lambda>c. if b c then c\<lparr>co_cleanup_required := False\<rparr> else c))"
  by (rule keeps_modify) (simp add: settling)

lemma serve: "keeps T (serve_cleanup g)"
  unfolding serve_cleanup_def by (rule keeps_modify) (rule settling)

lemma attempt: "keeps T (cleanup_attempt g)"
  unfolding cleanup_attempt_def by (intro keeps_rules lock cleanup_transaction settle_cleanup serve)

lemma attempts: "keeps T (cleanup_attempts n g)"
proof (induction n)
  case 0
  then show ?case by (simp, intro keeps_rules attempt serve)
next
  case (Suc n)
  have "keeps T (co_await (\<lambda>v c. (Finished (Inr ()), c)))" by (rule await) simp
  with Suc show ?case by (simp, intro keeps_rules attempt)
qed

lemma rounds: "keeps T (cleanup_rounds n)"
proof (induction n)
  case 0
  then show ?case by (simp add: keeps_def co_spec_def)
next
  case (Suc n)
  then have more: "keeps T (co_then (cleanup_attempts CLEANUP_RETRIES g) (cleanup_rounds n))" for g
    by (intro keeps_rules attempts)
  show ?case
    unfolding keeps_def
  proof (rule co_specI)
    fix k env c
    assume "T c"
    with more show "outcome_ok (\<lambda>_. T) (\<lambda>_. T) T (cleanup_rounds (Suc n) k env c)"
      by (auto simp: keeps_def reopening intro: co_specD)
  qed
qed

lemma cleanup_loop: "keeps T registry_cleanup_loop"
  using rounds by (simp add: keeps_def co_spec_def registry_cleanup_loop_def del: cleanup_rounds.simps)

lemma disabling: "T c \<Longrightarrow> T (disable_begins c)"
  using inputs[unfolded stable_def, THEN spec, THEN spec, of c CiDisable] by simp

lemma disable: "keeps T disable_and_clear"
proof -
  have "keeps T (terminal_cleanup g)" for g
    unfolding terminal_cleanup_def by (intro keeps_rules lock cleanup_transaction settle_cleanup serve)
  moreover have "keeps T (co_modify disable_begins)" by (rule keeps_modify) (rule disabling)
  moreover have "keeps T (co_modify (\<lambda>c. if b c then schedule_registry_cleanup c else c))" for b
    by (rule keeps_modify) (simp add: schedule_registry_cleanup_def settling)
  ultimately show ?thesis unfolding disable_and_clear_def by (intro keeps_rules)
qed

end

section \<open>Start and shutdown\<close>

locale coordinator_lifecycle = coordinator_gate +
  assumes lifecycle: "T c \<Longrightarrow> T (c\<lparr>co_started := b\<rparr>)" "T c \<Longrightarrow> T (c\<lparr>co_shutdown := True\<rparr>)"
      "T c \<Longrightarrow> T (c\<lparr>co_observing := b\<rparr>)" "T c \<Longrightarrow> T (c\<lparr>co_registry_listener := b\<rparr>)"
    and actor: "T c \<Longrightarrow> T (c\<lparr>co_controller := map_option (\<lambda>ct. add_state_listener l (start ct)) (co_controller c)\<rparr>)"
      "T c \<Longrightarrow> T (c\<lparr>co_controller := map_option (remove_state_listener l) (co_controller c)\<rparr>)"
      "T c \<Longrightarrow> T (c\<lparr>co_controller := map_option shutdown_finished (co_controller c)\<rparr>)"
    and feeding: "T c \<Longrightarrow> control_index e = None \<Longrightarrow> T (snd (on_controller (enqueue_event e) c))"
begin

lemma starting: "keeps T (start_controller now)"
proof -
  have modify: "keeps T (co_modify (\<lambda>c. c\<lparr>co_controller :=
      map_option (\<lambda>ct. add_state_listener CONTROLLER_LISTENER (start ct)) (co_controller c), co_observing := True\<rparr>))"
  proof (rule keeps_modify)
    fix c
    assume "T c"
    from lifecycle(3)[OF actor(1)[OF this]] show "T (c\<lparr>co_controller :=
        map_option (\<lambda>ct. add_state_listener CONTROLLER_LISTENER (start ct)) (co_controller c), co_observing := True\<rparr>)" .
  qed
  have connection: "keeps T (co_sync (on_controller (set_connection a g t now)))" for a g t
    by (rule keeps_sync) (simp add: set_connection_def feeding)
  have powered: "keeps T (co_sync (on_controller (set_powered p)))" for p
    by (rule keeps_sync) (simp add: set_powered_def feeding)
  show ?thesis unfolding start_controller_def by (intro keeps_rules modify connection powered)
qed

lemma actor_ends: "keeps T controller_shutdown"
proof -
  have "keeps T forget_actor" unfolding forget_actor_def by (rule keeps_modify) (rule actor)
  then show ?thesis unfolding controller_shutdown_def by (intro keeps_rules control_wait)
qed

lemma gathering: "keeps T gather_cleanup" "keeps T gather_persistence" "keeps T m \<Longrightarrow> keeps T (required_cleanup m)"
  unfolding gather_cleanup_def gather_persistence_def required_cleanup_def
  by (intro keeps_rules await lock keeps_modify settling; simp)+

lemma endings:
  "keeps T (co_modify remove_registry_listener)" "keeps T (co_modify drop_state_listener)"
  "keeps T (co_modify (\<lambda>c. remove_registry_listener (c\<lparr>co_started := False\<rparr>)))"
  "keeps T (co_modify (\<lambda>c. c\<lparr>co_shutdown := True, co_observing := False\<rparr>))"
  "keeps T (co_modify (\<lambda>c. c\<lparr>co_shutdown := True, co_observing := False, co_started := False\<rparr>))"
  using lifecycle(3)[OF lifecycle(2)] lifecycle(1)[OF lifecycle(3)[OF lifecycle(2)]]
  by (auto intro!: keeps_modify lifecycle actor simp: remove_registry_listener_def drop_state_listener_def)

lemma failed_start: "keeps T cleanup_failed_start"
  unfolding cleanup_failed_start_def
  by (intro keeps_rules endings gathering cleanup_transaction suppressing actor_ends client) simp

lemma start_op: "keeps T (coordinator_start now)"
proof -
  have "keeps T (co_modify (\<lambda>c. c\<lparr>co_started := True\<rparr>))" by (rule keeps_modify) (rule lifecycle)
  then show ?thesis
    unfolding coordinator_start_def
    by (intro keeps_rules starting cleanup_loop control_waits failed_start client) simp_all
qed

lemma shutdown_op: "keeps T coordinator_shutdown"
  unfolding coordinator_shutdown_def
  by (intro keeps_rules endings gathering cleanup_transaction suppressing actor_ends client lock) simp

end

section \<open>Sequences of operations\<close>

text \<open>What the entities, the services, the registry and the actor's workers ask of the coordinator; an
  operation is given the environment of its awaits and whether its caller can be cancelled.\<close>

datatype coordinator_operation =
    OpPower bool
  | OpFanMode fan_mode command_origin
  | OpApplyMode fan_mode bool
  | OpPolicyMode fan_mode command_origin
  | OpLightPower bool
  | OpLightBrightness int
  | OpLightColor "int \<times> int \<times> int"
  | OpQuery
  | OpCancelQuery
  | OpWaitReady
  | OpActivate
  | OpDeactivate
  | OpQuiesce
  | OpRearm
  | OpPersistLoss
  | OpRegistryCleanup
  | OpDisable
  | OpStart time
  | OpShutdown

text \<open>The result is dropped.\<close>

definition performing :: "'a co \<Rightarrow> bool \<Rightarrow> await_env list \<Rightarrow> coordinator \<Rightarrow> coordinator" where
  "performing m k env c = snd (snd (m k env c))"

fun perform :: "coordinator_operation \<Rightarrow> bool \<Rightarrow> await_env list \<Rightarrow> coordinator \<Rightarrow> coordinator" where
  "perform (OpPower on) = performing (set_power on)"
| "perform (OpFanMode mode origin) = performing (set_fan_mode mode origin)"
| "perform (OpApplyMode mode on) = performing (apply_ha_fan_mode mode on)"
| "perform (OpPolicyMode mode origin) = performing (custom_auto_fan_mode mode origin)"
| "perform (OpLightPower on) = performing (set_light_power on)"
| "perform (OpLightBrightness p) = performing (set_light_brightness p)"
| "perform (OpLightColor rgb) = performing (set_light_rgb rgb)"
| "perform OpQuery = performing query_air_quality"
| "perform OpCancelQuery = performing cancel_air_quality"
| "perform OpWaitReady = performing coordinator_wait_until_ready"
| "perform OpActivate = performing activate_custom_auto"
| "perform OpDeactivate = performing deactivate_custom_auto"
| "perform OpQuiesce = performing quiesce_custom_auto"
| "perform OpRearm = performing rearm_after_quiesce"
| "perform OpPersistLoss = performing persist_autonomous_ownership_loss"
| "perform OpRegistryCleanup = performing registry_cleanup_loop"
| "perform OpDisable = performing disable_and_clear"
| "perform (OpStart now) = performing (coordinator_start now)"
| "perform OpShutdown = performing coordinator_shutdown"

datatype coordinator_event =
    Happens coordinator_input
  | Performs coordinator_operation bool "await_env list"

fun coordinator_event_step :: "coordinator \<Rightarrow> coordinator_event \<Rightarrow> coordinator" where
  "coordinator_event_step c (Happens i) = coordinator_input_step c i"
| "coordinator_event_step c (Performs oper k env) = perform oper k env c"

definition run_coordinator :: "coordinator_event list \<Rightarrow> coordinator \<Rightarrow> coordinator" where
  "run_coordinator es c = foldl coordinator_event_step c es"

context coordinator_lifecycle
begin

lemma perform: "T c \<Longrightarrow> T (perform oper k env c)"
  by (cases oper)
    (simp_all add: performing_def keepsD[OF purifier_power] keepsD[OF fan_mode(1)] keepsD[OF fan_mode(2)]
      keepsD[OF fan_mode(3)] keepsD[OF light(1)] keepsD[OF light(2)] keepsD[OF light(3)] keepsD[OF query(1)]
      keepsD[OF query(2)] keepsD[OF query(3)] keepsD[OF activation] keepsD[OF deactivation(1)]
      keepsD[OF deactivation(2)] keepsD[OF deactivation(3)] keepsD[OF persistence(2)] keepsD[OF cleanup_loop]
      keepsD[OF disable] keepsD[OF start_op] keepsD[OF shutdown_op])

lemma run: "T c \<Longrightarrow> T (run_coordinator es c)"
  unfolding run_coordinator_def
proof (induction es arbitrary: c)
  case (Cons e es)
  have "T (coordinator_event_step c e)"
    using Cons.prems inputs by (cases e) (simp_all add: perform stable_def)
  with Cons.IH show ?case by simp
qed simp

end

section \<open>The invariants\<close>

text \<open>The actor's queue refers to controls that exist, and the remembered selection stays enabled or not.\<close>

definition well_tended :: "bool \<Rightarrow> coordinator \<Rightarrow> bool" where
  "well_tended m c \<longleftrightarrow> controls_known c \<and> co_memory c = m"

text \<open>Custom Auto is blocked for good, and \<open>s\<close> is what the policy has sent.\<close>

definition policy_sent :: "coordinator \<Rightarrow> command list" where
  "policy_sent c = map fst (filter (\<lambda>x. snd x = CUSTOM_AUTO) (sent c))"

definition blocked_for_good :: "command list \<Rightarrow> coordinator \<Rightarrow> bool" where
  "blocked_for_good s c \<longleftrightarrow> co_terminal_blocked c \<and> \<not> co_command_gate c \<and> policy_sent c = s"

text \<open>A coordinator that runs, started or not, while the registry demands a cleanup.\<close>

definition demanded :: "bool \<Rightarrow> bool \<Rightarrow> coordinator \<Rightarrow> bool" where
  "demanded m b c \<longleftrightarrow> well_tended m c \<and> co_started c = b \<and> \<not> co_shutdown c \<and> co_cleanup_required c"

lemma stable_well_tended: "stable (well_tended m)"
  unfolding well_tended_def by (intro stable_conj stable_controls_known framed_stable framed_memory)

lemma stable_demanded: "stable (demanded m b)"
proof -
  have "stable (\<lambda>c. co_started c = b \<and> \<not> co_shutdown c \<and> co_cleanup_required c)"
    by (rule stable_frame) (simp add: input_keeps_def frame_kept_def gate_closes_def)
  then show ?thesis unfolding demanded_def by (rule stable_conj[OF stable_well_tended])
qed

lemma controls_known_control:
  "controls_known c \<Longrightarrow> co_controller c = Some ct \<Longrightarrow> control action options powered ct = (r, ct') \<Longrightarrow>
   controls_known (c\<lparr>co_controller := Some ct'\<rparr>)"
  by (simp add: controls_known_def holds_def controls_ok_control)

lemma controls_ok_actor:
  "controls_ok ct \<Longrightarrow> controls_ok (add_state_listener l (start ct))" "controls_ok ct \<Longrightarrow> controls_ok (remove_state_listener l ct)"
  "controls_ok ct \<Longrightarrow> controls_ok (shutdown_finished ct)"
  by (simp_all add: controls_ok_def add_state_listener_def start_def remove_state_listener_def shutdown_finished_def)

interpretation tended: coordinator_lifecycle "well_tended m" for m
proof unfold_locales
  fix c ct action options powered r ct'
  assume "well_tended m c" "co_controller c = Some ct" "control action options powered ct = (r, ct')"
  then show "well_tended m (c\<lparr>co_controller := Some ct'\<rparr>)"
    by (simp add: well_tended_def controls_known_control)
next
  fix c e
  assume "well_tended m c" "control_index e = None"
  moreover have "co_memory (snd (on_controller f c)) = co_memory c" for f
    by (simp add: on_controller_def split: option.split prod.split)
  ultimately show "well_tended m (snd (on_controller (enqueue_event e) c))"
    by (simp add: well_tended_def controls_known_def holds_enqueue[OF controls_ok_closed])
qed (auto simp: well_tended_def controls_known_def holds_def stable_well_tended[unfolded well_tended_def controls_known_def]
    stable_well_tended co_call_def controls_ok_actor)

interpretation demanded: coordinator_invariant "demanded m b" for m b
proof unfold_locales
  fix c ct action options powered r ct'
  assume "demanded m b c" "co_controller c = Some ct" "control action options powered ct = (r, ct')"
  then show "demanded m b (c\<lparr>co_controller := Some ct'\<rparr>)"
    by (simp add: demanded_def well_tended_def controls_known_control)
qed (auto simp: demanded_def well_tended_def controls_known_def holds_def stable_demanded co_call_def)

lemma policy_sent_call:
  "admitted_call x c \<Longrightarrow> \<not> co_command_gate c \<Longrightarrow> policy_sent (co_call x c) = policy_sent c"
  by (cases x) (auto simp: policy_sent_def admitted_call_def)

lemma policy_sent_cong: "co_log c' = co_log c \<Longrightarrow> policy_sent c' = policy_sent c"
  by (simp add: policy_sent_def sent_def)

lemma stable_blocked: "stable (blocked_for_good s)"
  by (rule stable_frame)
    (auto simp: blocked_for_good_def input_keeps_def frame_kept_def gate_closes_def policy_sent_def)

lemma on_controller_kept:
  "co_log (snd (on_controller f c)) = co_log c" "co_terminal_blocked (snd (on_controller f c)) = co_terminal_blocked c"
  "co_command_gate (snd (on_controller f c)) = co_command_gate c"
  by (simp_all add: on_controller_def split: option.split prod.split)

interpretation blocked: coordinator_lifecycle "blocked_for_good s" for s
proof unfold_locales
  fix c x
  assume "blocked_for_good s c" "admitted_call x c"
  then show "blocked_for_good s (co_call x c)"
    using policy_sent_call[of x c] by (simp add: blocked_for_good_def) (simp add: co_call_def)
qed (auto simp: blocked_for_good_def stable_blocked reopens_gate_def on_controller_kept intro: policy_sent_cong)

section \<open>Properties\<close>

text \<open>C16. The block that disabling Custom Auto sets is final: from the moment disabling begins, whatever
  the registry reports, whichever operations run after it and however their awaits end, the gate stays
  closed and the policy sends nothing any more.\<close>

theorem disabling_is_final:
  "policy_sent (run_coordinator es (disable_begins c)) = policy_sent c \<and>
   \<not> co_command_gate (run_coordinator es (disable_begins c)) \<and>
   co_terminal_blocked (run_coordinator es (disable_begins c))"
proof -
  have "blocked_for_good (policy_sent c) (disable_begins c)"
    by (simp add: blocked_for_good_def disable_begins_def policy_sent_def sent_def)
  from blocked.run[OF this] show ?thesis by (simp add: blocked_for_good_def)
qed

end
