(* ===== verification/Coordinator_Cleanup.thy ===== *)
theory Coordinator_Cleanup
  imports Coordinator_Contract Coordinator_Invariants
begin

text \<open>
  Activation and cleanup: an activation that fails is rolled back, and the cleanup the entity registry
  asks for ends with an inactive policy and no remembered selection.
\<close>

section \<open>Activation\<close>

lemma set_active_errors: "set_active st wio lio False b s = (Inl e, s') \<Longrightarrow> e = CustomAutoMemoryError"
  by (cases wio; cases lio)
    (auto simp: set_active_def ensure_writable_def await_mutation_def save_and_verify_def split: if_splits)

text \<open>What the memory raises, and what it leaves.\<close>

lemma spec_remember_errors:
  assumes "stable P" "\<And>c s. P c \<Longrightarrow> P (c\<lparr>co_stored := s\<rparr>)"
  shows "co_spec P (memory_set_active b) (\<lambda>_ c. P c \<and> remembers b c) (\<lambda>e c. e = CustomAutoMemoryError \<and> P c) P"
proof (rule co_specI)
  fix k env c
  assume "P c"
  have "outcome_ok (\<lambda>_ c. P c \<and> remembers b c) (\<lambda>e. P) P (memory_set_active b k env c)"
    using co_specD[OF spec_remember[OF assms] \<open>P c\<close>] by blast
  moreover have "e = CustomAutoMemoryError" if "memory_set_active b k env c = (Finished (Inl e), env', c')" for e env' c'
    using that by (cases env)
      (auto simp: memory_set_active_def co_await_def Let_def split: prod.splits dest: set_active_errors)
  ultimately show "outcome_ok (\<lambda>_ c. P c \<and> remembers b c) (\<lambda>e c. e = CustomAutoMemoryError \<and> P c) P
      (memory_set_active b k env c)"
    by (cases rule: outcome_cases[of "memory_set_active b k env c"]) auto
qed

text \<open>Only a cancellation passes the collector.\<close>

abbreviation cancels :: "(coordinator \<Rightarrow> bool) \<Rightarrow> exn \<Rightarrow> coordinator \<Rightarrow> bool" where
  "cancels P e c \<equiv> e = CancelledError \<and> P c"

lemma spec_collecting:
  assumes "co_spec P m (\<lambda>_. Q) (\<lambda>e. P) P" "\<And>c. Q c \<Longrightarrow> P c"
  shows "co_spec P (collecting m) (\<lambda>es c. P c \<and> (es = [] \<longrightarrow> Q c)) (cancels P) P"
  unfolding collecting_def
proof (rule spec_except[where R = "\<lambda>e. P"])
  show "co_spec P (co_then m (co_return [])) (\<lambda>es c. P c \<and> (es = [] \<longrightarrow> Q c)) (\<lambda>e. P) P"
    by (rule spec_bind[OF assms(1)], rule spec_return) (simp add: assms(2))
  show "co_spec P (co_return [e]) (\<lambda>es c. P c \<and> (es = [] \<longrightarrow> Q c)) (cancels P) P" for e
    by (rule spec_return) simp
qed simp

text \<open>An operation in a state that has a well-formed actor and memory \<open>m\<close>, with \<open>s\<close> sent.\<close>

definition tended :: "bool \<Rightarrow> (command \<times> command_origin) list \<Rightarrow> coordinator \<Rightarrow> bool" where
  "tended m s c \<longleftrightarrow> controls_known c \<and> co_memory c = m \<and> sent c = s"

lemma stable_tended: "stable (tended m s)"
  unfolding tended_def by (intro stable_conj stable_controls_known framed_stable framed_memory framed_sent)

lemma core_based_tended: "core_based (tended m s)" "core_based (remembers b)"
  by (auto simp: core_based_def co_core_def tended_def controls_known_def holds_def remembers_def)

lemma tended_simps [simp]:
  "tended m s (c\<lparr>co_stored := x\<rparr>) = tended m s c" "tended m s (c\<lparr>co_suppress := b\<rparr>) = tended m s c"
  "tended m s (c\<lparr>co_handoff := h\<rparr>) = tended m s c" "tended m s (c\<lparr>co_cleanup_required := b\<rparr>) = tended m s c"
  "tended m s (c\<lparr>co_cleanup_served := g\<rparr>) = tended m s c"
  by (simp_all add: tended_def controls_known_def holds_def sent_def)

lemma yielded_simps [simp]:
  "yielded (c\<lparr>co_stored := x\<rparr>) = yielded c" "yielded (c\<lparr>co_suppress := b\<rparr>) = yielded c"
  "yielded (c\<lparr>co_handoff := h\<rparr>) = yielded c" "yielded (c\<lparr>co_cleanup_required := b\<rparr>) = yielded c"
  "yielded (c\<lparr>co_cleanup_served := g\<rparr>) = yielded c"
  by (simp_all add: yielded_def holds_def)

lemma remembers_simps [simp]:
  "remembers v (c\<lparr>co_suppress := b\<rparr>) = remembers v c" "remembers v (c\<lparr>co_handoff := h\<rparr>) = remembers v c"
  by (simp_all add: remembers_def)

lemma framed_remembers: "framed (remembers b)"
  by (simp add: framed_def input_keeps_def frame_kept_def remembers_def)

lemma rollback_spec:
  "co_spec (tended m s) rollback_activation
     (\<lambda>es c. tended m s c \<and> (es = [] \<longrightarrow> yielded c \<and> (m \<longrightarrow> remembers False c))) (cancels (tended m s)) (tended m s)"
proof -
  let ?P = "tended m s"
  let ?Y = "\<lambda>es c. ?P c \<and> (es = [] \<longrightarrow> yielded c)"
  let ?Q = "\<lambda>es c. ?P c \<and> (es = [] \<longrightarrow> yielded c \<and> (m \<longrightarrow> remembers False c))"
  have "framed (\<lambda>c. co_memory c = m \<and> sent c = s)" by (intro framed_conj framed_memory framed_sent)
  from deactivation.spec_control[OF this, of None None, folded deactivate_def]
  have "co_spec ?P (control_and_wait deactivate) (\<lambda>_ c. ?P c \<and> yielded c) (\<lambda>e. ?P) ?P"
    by (rule spec_mono) (auto simp: tended_def yielded_def)
  from spec_collecting[OF this]
  have drain: "co_spec ?P (collecting (control_and_wait deactivate)) ?Y (cancels ?P) ?P" by (rule spec_mono) auto
  have forget: "co_spec (?Y es) (collecting (when_memory (memory_set_active False)))
      (\<lambda>more. ?Q (es @ more)) (cancels ?P) ?P" for es
  proof -
    have st: "stable (?Y es)" using stable_conj[OF stable_tended stable_yielded] stable_tended[of m s]
      by (cases "es = []") simp_all
    have "co_spec (?Y es) (when_memory (memory_set_active False)) (\<lambda>_ c. ?Y es c \<and> (m \<longrightarrow> remembers False c))
        (\<lambda>e. ?Y es) (?Y es)"
      unfolding when_memory_def
    proof (rule spec_get)
      fix c0 :: coordinator
      have "co_spec (\<lambda>c. ?Y es c \<and> c = c0) (memory_set_active False) (\<lambda>_ c. ?Y es c \<and> (m \<longrightarrow> remembers False c))
          (\<lambda>e. ?Y es) (?Y es)"
        by (rule spec_mono[OF spec_remember[OF st, of False]]) simp_all
      then show "co_spec (\<lambda>c. ?Y es c \<and> c = c0) (if co_memory c0 then memory_set_active False else co_return ())
          (\<lambda>_ c. ?Y es c \<and> (m \<longrightarrow> remembers False c)) (\<lambda>e. ?Y es) (?Y es)"
        by (auto intro: spec_return simp: tended_def)
    qed
    from spec_collecting[OF this] show ?thesis by (rule spec_mono) auto
  qed
  have quiet: "co_spec P (co_modify (\<lambda>c. c\<lparr>co_suppress := b\<rparr>)) (\<lambda>_. P) E B" if "\<And>c. P c \<Longrightarrow> P (c\<lparr>co_suppress := b\<rparr>)"
    for P b E B using that by (rule spec_modify)
  show ?thesis
    unfolding rollback_activation_def
  proof (rule spec_bind[OF quiet])
    show "co_spec ?P (co_finally
        (co_bind (collecting (control_and_wait deactivate)) (\<lambda>errors.
           co_bind (collecting (when_memory (memory_set_active False))) (\<lambda>more. co_return (errors @ more))))
        (\<lambda>_. co_modify (\<lambda>c. c\<lparr>co_suppress := False\<rparr>))) ?Q (cancels ?P) ?P"
      by (rule spec_finally[OF spec_bind[OF drain spec_bind[OF forget spec_return]] quiet quiet]) simp_all
  qed simp
qed

text \<open>The error of an activation whose rollback is known to be complete.\<close>

definition RESIDUAL_ERRORS :: "exn list" where
  "RESIDUAL_ERRORS = [CancelledError, HomeAssistantError, CustomAutoMemoryError]"

definition activation_failed :: "bool \<Rightarrow> (command \<times> command_origin) list \<Rightarrow> exn \<Rightarrow> coordinator \<Rightarrow> bool" where
  "activation_failed m s e c \<longleftrightarrow> tended m s c \<and>
     (e \<notin> set RESIDUAL_ERRORS \<longrightarrow> yielded c \<and> (m \<longrightarrow> remembers False c))"

lemma framed_tended: "framed (\<lambda>c. co_memory c = m \<and> sent c = s)"
  by (intro framed_conj framed_memory framed_sent)

text \<open>A control that establishes nothing in particular.\<close>

lemma plain_control: "control_effect action (\<lambda>_. True) (\<lambda>_. False)"
  by unfold_locales simp_all

interpretation plain: control_effect Activate "\<lambda>_. True" "\<lambda>_. False"
  by (rule plain_control)

lemma activate_transaction_spec:
  "co_spec (tended m s) activate_transaction (\<lambda>_ c. tended m s c \<and> (m \<longrightarrow> remembers True c))
     (activation_failed m s) (tended m s)"
proof -
  let ?P = "tended m s"
  let ?A = "\<lambda>c. ?P c \<and> (m \<longrightarrow> remembers True c)"
  have save: "co_spec ?P (when_memory (memory_set_active True)) (\<lambda>_. ?A) (activation_failed m s) ?P"
    unfolding when_memory_def
  proof (rule spec_get)
    fix c0 :: coordinator
    have "co_spec (\<lambda>c. ?P c \<and> c = c0) (memory_set_active True) (\<lambda>_. ?A) (activation_failed m s) ?P"
      by (rule spec_mono[OF spec_remember_errors[OF stable_tended, of m s True]])
        (simp_all add: activation_failed_def RESIDUAL_ERRORS_def)
    then show "co_spec (\<lambda>c. ?P c \<and> c = c0) (if co_memory c0 then memory_set_active True else co_return ())
        (\<lambda>_. ?A) (activation_failed m s) ?P"
      by (auto intro: spec_return simp: tended_def)
  qed
  have F: "framed (\<lambda>c. (co_memory c = m \<and> sent c = s) \<and> (m \<longrightarrow> remembers True c))"
    using framed_conj[OF framed_tended[of m s] framed_remembers[of True]] framed_tended[of m s]
    by (cases m) (simp_all add: conj_assoc)
  have arm: "co_spec ?A (control_and_wait activate) (\<lambda>_. ?A) (\<lambda>e. ?P) ?P"
    by (rule spec_mono[OF plain.spec_control[OF F, of None None, folded activate_def]]) (auto simp: tended_def)
  have undo: "co_spec ?P (co_bind rollback_activation
      (\<lambda>errors. co_raise (if errors \<noteq> [] then HomeAssistantError else e))) Q (activation_failed m s) ?P"
    if "e \<noteq> CancelledError" for e Q
  proof (rule spec_bind)
    show "co_spec ?P rollback_activation (\<lambda>es c. ?P c \<and> (es = [] \<longrightarrow> yielded c \<and> (m \<longrightarrow> remembers False c)))
        (activation_failed m s) ?P"
      by (rule spec_mono[OF rollback_spec]) (auto simp: activation_failed_def RESIDUAL_ERRORS_def)
  qed (auto intro!: spec_raise simp: activation_failed_def RESIDUAL_ERRORS_def)
  have rest: "co_spec ?A (co_then (co_modify (\<lambda>c. c\<lparr>co_handoff := handoff_of ''idle''\<rparr>))
      (co_except (control_and_wait activate) (\<lambda>e. co_bind rollback_activation
         (\<lambda>errors. co_raise (if errors \<noteq> [] then HomeAssistantError else e))))) (\<lambda>_. ?A) (activation_failed m s) ?P"
  proof (rule spec_bind[where R = "\<lambda>_. ?A"])
    show "co_spec ?A (co_modify (\<lambda>c. c\<lparr>co_handoff := handoff_of ''idle''\<rparr>)) (\<lambda>_. ?A) (activation_failed m s) ?P"
      by (rule spec_modify) simp
    show "co_spec ?A (co_except (control_and_wait activate) (\<lambda>e. co_bind rollback_activation
        (\<lambda>errors. co_raise (if errors \<noteq> [] then HomeAssistantError else e)))) (\<lambda>_. ?A) (activation_failed m s) ?P"
      by (rule spec_except[OF arm undo]) (simp_all add: activation_failed_def RESIDUAL_ERRORS_def)
  qed
  show ?thesis
    unfolding activate_transaction_def by (rule spec_bind[OF save rest])
qed


section \<open>Cleanup\<close>

lemma spec_conj:
  assumes "co_spec P m Q E B" "co_spec P' m Q' E' B'"
  shows "co_spec (\<lambda>c. P c \<and> P' c) m (\<lambda>x c. Q x c \<and> Q' x c) (\<lambda>e c. E e c \<and> E' e c) (\<lambda>c. B c \<and> B' c)"
proof (rule co_specI)
  fix k env c
  assume "P c \<and> P' c"
  with co_specD[OF assms(1)] co_specD[OF assms(2)]
  have "outcome_ok Q E B (m k env c)" "outcome_ok Q' E' B' (m k env c)" by blast+
  then show "outcome_ok (\<lambda>x c. Q x c \<and> Q' x c) (\<lambda>e c. E e c \<and> E' e c) (\<lambda>c. B c \<and> B' c) (m k env c)"
    by (cases rule: outcome_cases[of "m k env c"]) simp_all
qed

text \<open>What a cleanup is for: nothing remembered, and the policy of a started coordinator inactive.\<close>

definition drained :: "bool \<Rightarrow> bool \<Rightarrow> coordinator \<Rightarrow> bool" where
  "drained m b c \<longleftrightarrow> (m \<longrightarrow> co_stored c = None \<or> co_stored c = Some JNull) \<and>
     (b \<and> co_controller c \<noteq> None \<longrightarrow> yielded c)"

lemma drained_simps [simp]:
  "drained m b (c\<lparr>co_cleanup_required := r\<rparr>) = drained m b c" "drained m b (c\<lparr>co_cleanup_served := g\<rparr>) = drained m b c"
  "drained m b (c\<lparr>co_command_gate := r\<rparr>) = drained m b c"
  by (simp_all add: drained_def yielded_def holds_def)

lemma clear_clears: "clear st wio lio False s = (Inr (), s') \<Longrightarrow> s' = None \<or> s' = Some JNull"
  by (cases wio; cases lio; cases s')
    (auto simp: clear_def ensure_writable_def await_mutation_def remove_and_verify_def split: if_splits)

lemma spec_clear:
  assumes "stable P" "\<And>c s. P c \<Longrightarrow> P (c\<lparr>co_stored := s\<rparr>)"
  shows "co_spec P memory_clear (\<lambda>_ c. P c \<and> (co_stored c = None \<or> co_stored c = Some JNull)) (\<lambda>e. P) P"
proof (rule co_specI)
  let ?answer = "\<lambda>v c. case clear (ae_core v) (ae_write v) (ae_load v) False (co_stored c) of
      (r, stored) \<Rightarrow> (Finished r, c\<lparr>co_stored := stored\<rparr>)"
  let ?Q = "\<lambda>_ c. P c \<and> (co_stored c = None \<or> co_stored c = Some JNull)"
  have await: "co_spec P (co_await ?answer) ?Q (\<lambda>e. P) P"
  proof (rule spec_await[OF assms(1)])
    fix v c
    assume "P c"
    obtain r s where s: "clear (ae_core v) (ae_write v) (ae_load v) False (co_stored c) = (r, s)" by fastforce
    show "outcome_ok ?Q (\<lambda>e. P) P (fst (?answer v c), [], snd (?answer v c))"
      using s assms(2)[OF \<open>P c\<close>] clear_clears[of "ae_core v" "ae_write v" "ae_load v" "co_stored c" s]
      by (cases r) simp_all
  qed simp_all
  fix k env c
  assume "P c"
  from co_specD[OF await this, of False env] show "outcome_ok ?Q (\<lambda>e. P) P (memory_clear k env c)"
    by (simp add: memory_clear_def)
qed

lemma drain_spec:
  "co_spec (demanded m b) (deactivate_and_handoff False) (\<lambda>_ c. demanded m b c \<and> yielded c) (\<lambda>e. demanded m b) (demanded m b)"
proof (rule co_specI)
  fix k env c
  assume c: "demanded m b c"
  then have "outcome_ok (\<lambda>_. handed False (sent c)) (\<lambda>e. hand_unsettled False (sent c)) (hand_unsettled False (sent c))
      (deactivate_and_handoff False k env c)"
    using co_specD[OF deactivate_and_handoff_spec[of m "sent c" False]]
    by (simp add: demanded_def well_tended_def)
  moreover have "outcome_ok (\<lambda>_. demanded m b) (\<lambda>_. demanded m b) (demanded m b) (deactivate_and_handoff False k env c)"
    using co_specD[OF demanded.handoff[unfolded keeps_def] c] .
  ultimately show "outcome_ok (\<lambda>_ c. demanded m b c \<and> yielded c) (\<lambda>e. demanded m b) (demanded m b)
      (deactivate_and_handoff False k env c)"
    by (cases rule: outcome_cases[of "deactivate_and_handoff False k env c"]) (simp_all add: handed_def)
qed

lemma cleanup_transaction_spec:
  "co_spec (demanded m b) registry_cleanup_transaction (\<lambda>_ c. demanded m b c \<and> drained m b c)
     (\<lambda>e. demanded m b) (demanded m b)"
proof -
  let ?S = "demanded m b"
  let ?Y = "\<lambda>es c. ?S c \<and> (es = [] \<and> b \<and> co_controller c \<noteq> None \<longrightarrow> yielded c)"
  have drain: "co_spec ?S (co_get (\<lambda>c. if co_controller c \<noteq> None \<and> co_started c
      then collecting (deactivate_and_handoff False) else co_return [])) ?Y (\<lambda>e. ?S) ?S"
  proof (rule spec_get)
    fix c0 :: coordinator
    have "co_spec (\<lambda>c. ?S c \<and> c = c0) (collecting (deactivate_and_handoff False)) ?Y (\<lambda>e. ?S) ?S"
      by (rule spec_mono[OF spec_collecting[OF drain_spec[of m b]]]) auto
    then show "co_spec (\<lambda>c. ?S c \<and> c = c0) (if co_controller c0 \<noteq> None \<and> co_started c0
        then collecting (deactivate_and_handoff False) else co_return []) ?Y (\<lambda>e. ?S) ?S"
      by (auto intro!: spec_return simp: demanded_def)
  qed
  have none: "co_controller (coordinator_input_step c i) = None \<longleftrightarrow> co_controller c = None" for c i
    by (rule input_keeps_none)
  have Y: "stable (?Y es)" for es
    using stable_demanded[of m b] stable_yielded none by (auto simp: stable_def simp del: not_None_eq)
  have Y_stored: "?Y es (c\<lparr>co_stored := x\<rparr>)" if "?Y es c" for es c x
    using that by (auto simp: demanded_def well_tended_def controls_known_def holds_def)
  have clearing: "co_spec (?Y es) (co_then (when_memory memory_clear)
      (case es of [] \<Rightarrow> co_return () | e # es \<Rightarrow> co_raise e)) (\<lambda>_ c. ?S c \<and> drained m b c) (\<lambda>e. ?S) ?S" for es
  proof (rule spec_bind)
    let ?Z = "\<lambda>c. ?Y es c \<and> (m \<longrightarrow> co_stored c = None \<or> co_stored c = Some JNull)"
    show "co_spec (?Y es) (when_memory memory_clear) (\<lambda>_. ?Z) (\<lambda>e. ?S) ?S"
      unfolding when_memory_def
    proof (rule spec_get)
      fix c0 :: coordinator
      have "co_spec (\<lambda>c. ?Y es c \<and> c = c0) memory_clear (\<lambda>_. ?Z) (\<lambda>e. ?S) ?S"
        by (rule spec_mono[OF spec_clear[OF Y Y_stored, of es]]) auto
      then show "co_spec (\<lambda>c. ?Y es c \<and> c = c0) (if co_memory c0 then memory_clear else co_return ())
          (\<lambda>_. ?Z) (\<lambda>e. ?S) ?S"
        by (auto intro!: spec_return simp: demanded_def well_tended_def)
    qed
    show "co_spec ?Z (case es of [] \<Rightarrow> co_return () | e # es \<Rightarrow> co_raise e) (\<lambda>_ c. ?S c \<and> drained m b c)
        (\<lambda>e. ?S) ?S"
      by (cases es) (auto intro!: spec_return spec_raise simp: drained_def)
  qed
  show ?thesis unfolding registry_cleanup_transaction_def by (rule spec_bind[OF drain clearing])
qed

text \<open>After an attempt: settled, or still demanded.\<close>

definition cleaned :: "bool \<Rightarrow> bool \<Rightarrow> coordinator \<Rightarrow> bool" where
  "cleaned m b c \<longleftrightarrow> demanded m b c \<or>
     drained m b c \<and> \<not> co_cleanup_required c \<and> demanded m b (c\<lparr>co_cleanup_required := True\<rparr>)"

lemma demanded_served [simp]: "demanded m b (c\<lparr>co_cleanup_served := g\<rparr>) = demanded m b c"
  by (simp add: demanded_def well_tended_def controls_known_def holds_def)

lemma demanded_cleaned: "demanded m b c \<Longrightarrow> cleaned m b c" "demanded m b c \<Longrightarrow> co_cleanup_required c"
  by (simp_all add: cleaned_def demanded_def)

lemma settled_cleaned:
  "demanded m b c \<Longrightarrow> drained m b c \<Longrightarrow> cleaned m b (c\<lparr>co_cleanup_required := False\<rparr>)"
  by (simp add: cleaned_def demanded_def well_tended_def controls_known_def holds_def)

lemma cleaned_served: "cleaned m b c \<Longrightarrow> cleaned m b (c\<lparr>co_cleanup_served := g\<rparr>)"
  by (auto simp: cleaned_def demanded_def well_tended_def controls_known_def holds_def)

lemma serve_spec:
  "co_spec (demanded m b) (serve_cleanup g) (\<lambda>_. demanded m b) E B"
  "co_spec (cleaned m b) (serve_cleanup g) (\<lambda>_. cleaned m b) E B"
  unfolding serve_cleanup_def by (rule spec_modify, simp add: cleaned_served)+

lemma attempt_spec:
  "co_spec (demanded m b) (cleanup_attempt g) (\<lambda>r. if r = None then cleaned m b else demanded m b)
     (\<lambda>_. demanded m b) (demanded m b)"
proof -
  let ?D = "demanded m b"
  let ?Q = "\<lambda>r. if r = None then cleaned m b else ?D"
  have locked: "co_spec ?D (with_lock registry_cleanup_transaction) (\<lambda>_ c. ?D c \<and> drained m b c) (\<lambda>_. ?D) ?D"
    by (rule spec_lock[OF stable_demanded cleanup_transaction_spec])
  have settle: "co_spec (\<lambda>c. ?D c \<and> drained m b c) (co_modify (\<lambda>c. if g = co_cleanup_generation c
      then c\<lparr>co_cleanup_required := False\<rparr> else c)) (\<lambda>_. cleaned m b) (\<lambda>_. ?D) ?D"
    by (rule spec_modify) (simp add: settled_cleaned, simp add: cleaned_def)
  have "co_spec (\<lambda>c. ?D c \<and> drained m b c) (co_then (co_modify (\<lambda>c. if g = co_cleanup_generation c
      then c\<lparr>co_cleanup_required := False\<rparr> else c)) (co_then (serve_cleanup g) (co_return None))) ?Q (\<lambda>_. ?D) ?D"
    by (rule spec_bind[OF settle spec_bind[OF serve_spec(2) spec_return]]) simp
  from spec_bind[OF locked this] show ?thesis
    unfolding cleanup_attempt_def by (rule spec_except) (auto intro: spec_return)
qed

lemma attempts_spec:
  "co_spec (demanded m b) (cleanup_attempts n g) (\<lambda>_. cleaned m b) (\<lambda>_. demanded m b) (demanded m b)"
proof (induction n)
  case 0
  let ?D = "demanded m b"
  have "co_spec (if r = None then cleaned m b else ?D) (case r of None \<Rightarrow> co_return ()
      | Some e \<Rightarrow> co_then (serve_cleanup g) (co_get (\<lambda>c. if is_current_cleanup g c then co_raise e else co_return ())))
      (\<lambda>_. cleaned m b) (\<lambda>_. ?D) ?D" for r
    by (cases r) (auto intro!: spec_return spec_bind[OF serve_spec(1)] spec_get_any spec_raise demanded_cleaned)
  from spec_bind[OF attempt_spec this] show ?case by simp
next
  case (Suc n)
  let ?D = "demanded m b"
  have pause: "co_spec ?D (co_await (\<lambda>v c. (Finished (Inr ()), c))) (\<lambda>_. ?D) (\<lambda>_. ?D) ?D"
    by (rule spec_await[OF stable_demanded]) simp_all
  have "co_spec (if r = None then cleaned m b else ?D) (case r of None \<Rightarrow> co_return ()
      | Some e \<Rightarrow> co_then (co_await (\<lambda>v c. (Finished (Inr ()), c)))
          (co_get (\<lambda>c. if is_current_cleanup g c then cleanup_attempts n g else co_return ())))
      (\<lambda>_. cleaned m b) (\<lambda>_. ?D) ?D" for r
    using Suc by (cases r) (auto intro!: spec_return spec_bind[OF pause] spec_get_any demanded_cleaned)
  from spec_bind[OF attempt_spec this] show ?case by simp
qed

lemma rounds_spec:
  "co_spec (cleaned m b) (cleanup_rounds n)
     (\<lambda>_ c. drained m b c \<and> \<not> co_cleanup_required c) (\<lambda>_ c. co_cleanup_required c) (cleaned m b)"
proof (induction n)
  case 0
  then show ?case by (simp add: co_spec_def)
next
  case (Suc n)
  have "co_spec (demanded m b) (co_then (cleanup_attempts CLEANUP_RETRIES g) (cleanup_rounds n))
      (\<lambda>_ c. drained m b c \<and> \<not> co_cleanup_required c) (\<lambda>_ c. co_cleanup_required c) (cleaned m b)" for g
    by (rule spec_bind[OF spec_mono[OF attempts_spec] Suc]) (erule demanded_cleaned | assumption)+
  note more = co_specD[OF this]
  show ?case
  proof (rule co_specI)
    fix k env c
    assume c: "cleaned m b c"
    show "outcome_ok (\<lambda>_ c. drained m b c \<and> \<not> co_cleanup_required c) (\<lambda>_ c. co_cleanup_required c) (cleaned m b)
        (cleanup_rounds (Suc n) k env c)"
    proof (cases "co_cleanup_required c \<and> \<not> co_shutdown c")
      case True
      with c have "demanded m b c" by (simp add: cleaned_def)
      from more[OF this] True show ?thesis by simp
    next
      case False
      moreover from c have "\<not> co_shutdown c" by (auto simp: cleaned_def demanded_def)
      ultimately show ?thesis using c by (auto simp: cleaned_def demanded_def)
    qed
  qed
qed

text \<open>C15. A cleanup the registry demands ends done or still demanded: when the cleanup loop returns, the
  remembered selection is gone and the policy of a started coordinator is inactive, however many newer
  demands arrived while it ran, and none is left; when it gives up with an error the demand stands.\<close>

theorem cleanup_settles_the_demand:
  assumes "demanded m b c" "registry_cleanup_loop k env c = (Finished r, env', c')"
  shows "(r = Inr () \<longrightarrow> \<not> co_cleanup_required c' \<and> (m \<longrightarrow> co_stored c' = None \<or> co_stored c' = Some JNull) \<and>
      (b \<longrightarrow> \<not> controller_active c')) \<and>
    (isl r \<longrightarrow> co_cleanup_required c')"
proof -
  have "cleaned m b c" using assms(1) by (simp add: cleaned_def)
  from co_specD[OF rounds_spec this, of "Suc (length env)" k env]
  have o: "outcome_ok (\<lambda>_ c. drained m b c \<and> \<not> co_cleanup_required c) (\<lambda>_ c. co_cleanup_required c) (cleaned m b)
      (Finished r, env', c')"
    using assms(2) by (simp add: registry_cleanup_loop_def del: cleanup_rounds.simps)
  have "\<not> controller_active c'" if "drained m b c'" b
    using that yielded_inactive[of c'] by (auto simp: drained_def controller_active_def split: option.splits)
  with o show ?thesis by (cases r) (auto simp: drained_def)
qed

text \<open>The coordinator stays well-formed: from its creation on, through any sequence of reports and
  operations, every control its actor still has queued is one a caller waits for, and whether there is a
  memory never changes.\<close>

theorem coordinator_stays_well_formed:
  assumes "new_coordinator view opts memory stored restore allowed = Inr c"
  shows "well_tended memory (run_coordinator es c)"
proof (rule tended.run)
  have "co_memory c = memory" using assms by (cases "ao_enabled opts") (auto simp: new_coordinator_def split: sum.splits)
  with controls_known_start[OF assms] show "well_tended memory c" by (simp add: well_tended_def)
qed

end
