(* ===== verification/Coordinator_Examples.thy ===== *)
theory Coordinator_Examples
  imports Coordinator_Cleanup
begin

text \<open>
  The properties of the coordinator at concrete runs: a purifier that is on and reachable, a policy that
  was switched on, and awaits that are answered one after the other.
\<close>

definition reachable_view :: client_view where
  "reachable_view = \<lparr>cv_ready = True, cv_generation = 1, cv_state = empty_purifier_state\<lparr>ps_power := Some True\<rparr>\<rparr>"

definition answered :: "coordinator_input list \<Rightarrow> await_env" where
  "answered is = \<lparr>ae_inputs = is, ae_cancelled = False, ae_raises = None, ae_core = CoreRunning,
     ae_write = WriteOk, ae_load = LoadOk\<rparr>"

definition refused :: "exn \<Rightarrow> await_env" where
  "refused e = (answered [])\<lparr>ae_raises := Some e\<rparr>"

definition actor_runs :: coordinator_input where
  "actor_runs = CiTurn (quiet_env 1)"

text \<open>A started coordinator with a memory, whose actor runs and whose client is reachable.\<close>

definition started_coordinator :: coordinator where
  "started_coordinator =
     (case new_coordinator reachable_view shipped_options True None False True of
        Inr c \<Rightarrow> perform (OpStart 0) True [answered []]
          (coordinator_input_step (coordinator_input_step c (CiAvailability reachable_view True 0))
             (CiState reachable_view (cv_state reachable_view))))"

definition activation_env :: "await_env list" where
  "activation_env = [answered [actor_runs, actor_runs], answered [], answered [], answered [actor_runs]]"

definition auto_coordinator :: coordinator where
  "auto_coordinator = perform OpActivate True activation_env started_coordinator"

lemma started_coordinator_facts:
  "co_started started_coordinator" "co_command_gate started_coordinator" "co_controller started_coordinator \<noteq> None"
  "\<not> controller_active started_coordinator" "sent started_coordinator = []"
  by code_simp+

lemma auto_coordinator_facts:
  "controller_active auto_coordinator" "remembers True auto_coordinator" "co_command_gate auto_coordinator"
  "co_controller auto_coordinator \<noteq> None" "sent auto_coordinator = []" "co_memory auto_coordinator"
  by code_simp+

lemma coordinator_created:
  "new_coordinator reachable_view shipped_options True None False True =
     Inr (case new_coordinator reachable_view shipped_options True None False True of Inr c \<Rightarrow> c)"
proof -
  have "\<not> isl (new_coordinator reachable_view shipped_options True None False True)" by code_simp
  then show ?thesis by (cases "new_coordinator reachable_view shipped_options True None False True") simp_all
qed

lemma started_tended: "well_tended True started_coordinator"
proof -
  let ?c = "case new_coordinator reachable_view shipped_options True None False True of Inr c \<Rightarrow> c"
  have "controls_known ?c" by (rule controls_known_start[OF coordinator_created])
  moreover have "co_memory ?c" by code_simp
  ultimately have "well_tended True ?c" by (simp add: well_tended_def)
  from tended.run[OF this, of "[Happens (CiAvailability reachable_view True 0),
      Happens (CiState reachable_view (cv_state reachable_view)), Performs (OpStart 0) True [answered []]]"]
  show ?thesis by (subst started_coordinator_def, subst coordinator_created) (simp add: run_coordinator_def)
qed

lemma auto_known: "controls_known auto_coordinator"
  using tended.perform[OF started_tended] unfolding auto_coordinator_def well_tended_def by blast

text \<open>The memory forgets, the actor yields, the mode is sent and confirmed.\<close>

definition override_env :: "await_env list" where
  "override_env = [answered [], answered [], answered [], answered [actor_runs], answered []]"

theorem explicit_mode_takes_over_witness:
  "let r = apply_ha_fan_mode LOW False True override_env auto_coordinator; c' = snd (snd r)
   in fst r = Finished (Inr ()) \<and> sent c' = [(SetFanMode LOW, HOME_ASSISTANT)] \<and> \<not> controller_active c' \<and>
      remembers False c'"
proof -
  let ?r = "apply_ha_fan_mode LOW False True override_env auto_coordinator"
  have ended: "fst ?r = Finished (Inr ())" "co_controller (snd (snd ?r)) \<noteq> None"
    "co_cleanup_generation (snd (snd ?r)) = co_cleanup_generation auto_coordinator" by code_simp+
  note off = explicit_mode_takes_over[OF auto_known auto_coordinator_facts(3), of LOW False True override_env "fst ?r"
      "fst (snd ?r)" "snd (snd ?r)", unfolded prod.collapse, OF refl]
  from off ended have "sent (snd (snd ?r)) = [(SetFanMode LOW, HOME_ASSISTANT)]"
    unfolding auto_coordinator_facts(5) by (simp add: mode_commands_def)
  moreover from off ended auto_coordinator_facts(6)
  have "\<not> controller_active (snd (snd ?r))" "remembers False (snd (snd ?r))" by blast+
  ultimately show ?thesis using ended by (simp add: Let_def)
qed

theorem switched_off_and_handed_back_witness:
  "let r = deactivate_custom_auto True override_env auto_coordinator; c' = snd (snd r)
   in fst r = Finished (Inr ()) \<and> ho_state (co_handoff c') = ''confirmed'' \<and> sent c' = [HANDOFF_COMMAND] \<and>
      \<not> controller_active c' \<and> remembers False c'"
proof -
  let ?r = "deactivate_custom_auto True override_env auto_coordinator"
  have ended: "fst ?r = Finished (Inr ())" "ho_state (co_handoff (snd (snd ?r))) = ''confirmed''" by code_simp+
  note off = switched_off_and_handed_back[OF auto_known auto_coordinator_facts(4), of True override_env "fst ?r"
      "fst (snd ?r)" "snd (snd ?r)", unfolded prod.collapse, OF refl]
  from off ended have "sent (snd (snd ?r)) = [HANDOFF_COMMAND]"
    unfolding auto_coordinator_facts(5) by (auto simp: kept_to_itself_def)
  moreover from off ended auto_coordinator_facts(6)
  have "\<not> controller_active (snd (snd ?r))" "remembers False (snd (snd ?r))" by blast+
  ultimately show ?thesis using ended by (simp add: Let_def)
qed


text \<open>The registry blocks a running policy: the first attempt fails in the hand-off, the second succeeds.\<close>

definition blocked_coordinator :: coordinator where
  "blocked_coordinator = coordinator_input_step auto_coordinator (CiRegistry False)"

definition cleanup_env :: "await_env list" where
  "cleanup_env = [answered [], answered [actor_runs], refused CommandDeadlineExceeded, answered [], answered [],
     answered [], answered [actor_runs], answered []]"

theorem cleanup_settles_the_demand_witness:
  "let r = registry_cleanup_loop True cleanup_env blocked_coordinator; c' = snd (snd r)
   in fst r = Finished (Inr ()) \<and> \<not> co_cleanup_required c' \<and> co_stored c' = None \<and> \<not> controller_active c'"
proof -
  let ?r = "registry_cleanup_loop True cleanup_env blocked_coordinator"
  have "well_tended True blocked_coordinator"
    unfolding blocked_coordinator_def auto_coordinator_def
    using tended.run[OF started_tended, of "[Performs OpActivate True activation_env, Happens (CiRegistry False)]"]
    by (simp add: run_coordinator_def)
  moreover have "co_started blocked_coordinator" "\<not> co_shutdown blocked_coordinator" "co_cleanup_required blocked_coordinator"
    by code_simp+
  ultimately have "demanded True True blocked_coordinator" by (simp add: demanded_def)
  moreover have ended: "fst ?r = Finished (Inr ())" "co_stored (snd (snd ?r)) \<noteq> Some JNull" by code_simp+
  moreover have "?r = (Finished (Inr ()), fst (snd ?r), snd (snd ?r))" using ended(1) by (metis prod.collapse)
  ultimately have "\<not> co_cleanup_required (snd (snd ?r)) \<and> co_stored (snd (snd ?r)) = None \<and>
      \<not> controller_active (snd (snd ?r))"
    using cleanup_settles_the_demand[of True True blocked_coordinator True cleanup_env "Inr ()" "fst (snd ?r)" "snd (snd ?r)"]
    by blast
  with ended(1) show ?thesis by (simp add: Let_def)
qed

theorem coordinator_stays_well_formed_witness:
  "well_tended True (run_coordinator [Performs OpDeactivate True override_env]
     (case new_coordinator reachable_view shipped_options True None False True of Inr c \<Rightarrow> c))"
  by (rule coordinator_stays_well_formed[OF coordinator_created])

end
