(* ===== verification/Entities.thy ===== *)
theory Entities
  imports Coordinator_Contract Coordinator_Invariants Profiles
begin

text \<open>
  The entities (\<open>entity.py\<close>, \<open>fan.py\<close>, \<open>light.py\<close>, \<open>switch.py\<close>, \<open>sensor.py\<close>): what they show of the
  cached state and which operations of the coordinator they ask for.  The percentage helpers and
  \<open>format_mac\<close> of Home Assistant are parameters.
\<close>

section \<open>Shared behaviour\<close>

text \<open>\<open>_async_run_operation\<close>: every exception becomes one Home Assistant can show.\<close>

definition run_operation :: "unit co \<Rightarrow> unit co" where
  "run_operation m = co_except m (\<lambda>e. co_raise HomeAssistantError)"

definition unique_id :: "(string \<Rightarrow> string) \<Rightarrow> string \<Rightarrow> string \<Rightarrow> string" where
  "unique_id format_mac address entity_key = format_mac address @ ''_'' @ entity_key"

definition entity_available :: "bool \<Rightarrow> coordinator \<Rightarrow> bool" where
  "entity_available last_update_success c \<longleftrightarrow> last_update_success \<and> co_available c"

section \<open>Fan\<close>

datatype preset = PresetManual | PresetAuto

fun preset_value :: "preset \<Rightarrow> string" where
  "preset_value PresetManual = ''manual''"
| "preset_value PresetAuto = ''auto''"

record fan_entity =
  fe_manual_modes :: "fan_mode list"
  fe_preset_modes :: "string list"

definition fan_exists :: "device_profile \<Rightarrow> bool" where
  "fan_exists p = cap_fan (capabilities p)"

definition new_fan :: "device_profile \<Rightarrow> fan_entity res" where
  "new_fan p =
     res_bind (manual_modes p) (\<lambda>modes. res_bind (supports_auto p) (\<lambda>auto.
       Inr \<lparr>fe_manual_modes = modes,
            fe_preset_modes = (if auto then [''manual'', ''auto''] else [''manual''])\<rparr>))"

definition fan_is_on :: "coordinator \<Rightarrow> bool option" where
  "fan_is_on c = ps_power (co_data c)"

definition fan_percentage :: "(fan_mode list \<Rightarrow> fan_mode \<Rightarrow> int) \<Rightarrow> fan_entity \<Rightarrow> coordinator \<Rightarrow> int option" where
  "fan_percentage item_to_percentage fe c =
     (case ps_fan_mode (co_data c) of
        Some mode \<Rightarrow> if mode \<in> set (fe_manual_modes fe)
                     then Some (item_to_percentage (fe_manual_modes fe) mode) else None
      | None \<Rightarrow> None)"

definition fan_preset_mode :: "fan_entity \<Rightarrow> coordinator \<Rightarrow> string option" where
  "fan_preset_mode fe c =
     (case ps_fan_mode (co_data c) of
        Some mode \<Rightarrow>
          if mode \<in> set (fe_manual_modes fe) then Some (preset_value PresetManual)
          else if mode = AUTO then (if controller_active c then None else Some (preset_value PresetAuto))
          else None
      | None \<Rightarrow> None)"

definition fan_mode_for_preset :: "fan_entity \<Rightarrow> coordinator \<Rightarrow> string \<Rightarrow> fan_mode res" where
  "fan_mode_for_preset fe c name =
     (if name \<notin> set (fe_preset_modes fe) then Inl ValueError
      else if name = preset_value PresetAuto then Inr AUTO
      else if name = preset_value PresetManual then
        (case ps_fan_mode (co_data c) of
           Some mode \<Rightarrow> if mode \<in> set (fe_manual_modes fe) then Inr mode else Inr LOW
         | None \<Rightarrow> Inr LOW)
      else Inl ValueError)"

definition fan_turn_off :: "unit co" where
  "fan_turn_off = run_operation (set_power False)"

definition apply_mode :: "fan_mode res \<Rightarrow> bool \<Rightarrow> unit co" where
  "apply_mode r power_on =
     (case r of Inl e \<Rightarrow> co_raise e | Inr mode \<Rightarrow> run_operation (apply_ha_fan_mode mode power_on))"

definition fan_turn_on ::
    "(fan_mode list \<Rightarrow> int \<Rightarrow> fan_mode res) \<Rightarrow> fan_entity \<Rightarrow> int option \<Rightarrow> string option \<Rightarrow> unit co" where
  "fan_turn_on percentage_to_item fe percentage preset_mode =
     co_get (\<lambda>c.
       case percentage of
         Some n \<Rightarrow>
           if n = 0 then fan_turn_off
           else apply_mode (percentage_to_item (fe_manual_modes fe) n) True
       | None \<Rightarrow>
           (case preset_mode of
              Some name \<Rightarrow> apply_mode (fan_mode_for_preset fe c name) True
            | None \<Rightarrow> run_operation (set_power True)))"

definition is_off :: "coordinator \<Rightarrow> bool" where
  "is_off c \<longleftrightarrow> fan_is_on c = Some False"

definition fan_set_percentage ::
    "(fan_mode list \<Rightarrow> int \<Rightarrow> fan_mode res) \<Rightarrow> fan_entity \<Rightarrow> int \<Rightarrow> unit co" where
  "fan_set_percentage percentage_to_item fe n =
     (if n = 0 then fan_turn_off
      else co_get (\<lambda>c. apply_mode (percentage_to_item (fe_manual_modes fe) n) (is_off c)))"

definition fan_set_preset_mode :: "fan_entity \<Rightarrow> string \<Rightarrow> unit co" where
  "fan_set_preset_mode fe name =
     co_get (\<lambda>c. apply_mode (fan_mode_for_preset fe c name) (is_off c))"

section \<open>Light\<close>

definition light_exists :: "device_profile \<Rightarrow> bool" where
  "light_exists p = cap_light (capabilities p)"

definition light_brightness :: "purifier_state \<Rightarrow> int option" where
  "light_brightness s = map_option (\<lambda>n. py_round (of_int n * 255 / 100)) (ps_light_brightness s)"

definition brightness_percentage :: "int \<Rightarrow> int" where
  "brightness_percentage b = max 1 (min 100 (py_round (of_int b * 100 / 255)))"

definition light_turn_on :: "(int \<times> int \<times> int) option \<Rightarrow> int option \<Rightarrow> unit co" where
  "light_turn_on rgb brightness =
     co_then (case rgb of Some x \<Rightarrow> run_operation (set_light_rgb x) | None \<Rightarrow> co_return ())
      (co_then (case brightness of
           Some b \<Rightarrow> run_operation (set_light_brightness (brightness_percentage b)) | None \<Rightarrow> co_return ())
        (run_operation (set_light_power True)))"

definition light_turn_off :: "unit co" where
  "light_turn_off = run_operation (set_light_power False)"

section \<open>Switch and sensors\<close>

definition switch_exists :: "coordinator \<Rightarrow> bool" where
  "switch_exists c \<longleftrightarrow> co_controller c \<noteq> None"

definition switch_is_on :: "coordinator \<Rightarrow> bool" where
  "switch_is_on c = controller_active c"

definition switch_turn_on :: "unit co" where
  "switch_turn_on = run_operation activate_custom_auto"

definition switch_turn_off :: "unit co" where
  "switch_turn_off = run_operation deactivate_custom_auto"

datatype sensor = Pm25Sensor | FilterLifeSensor

fun sensor_key :: "sensor \<Rightarrow> string" where
  "sensor_key Pm25Sensor = ''pm25''"
| "sensor_key FilterLifeSensor = ''filter_life''"

definition sensors :: "device_profile \<Rightarrow> sensor list" where
  "sensors p =
     filter (\<lambda>s. case s of Pm25Sensor \<Rightarrow> cap_pm25 (capabilities p)
                         | FilterLifeSensor \<Rightarrow> cap_filter_life (capabilities p))
       [Pm25Sensor, FilterLifeSensor]"

fun native_value :: "sensor \<Rightarrow> purifier_state \<Rightarrow> int option" where
  "native_value Pm25Sensor s = ps_pm25 s"
| "native_value FilterLifeSensor s = ps_filter_life s"

section \<open>What the entities send\<close>

text \<open>After \<open>s\<close>, only commands of the set \<open>A\<close>.\<close>

definition sends_only :: "(command \<times> command_origin) set \<Rightarrow> (command \<times> command_origin) list \<Rightarrow> coordinator \<Rightarrow> bool" where
  "sends_only A s c \<longleftrightarrow> (\<exists>l. sent c = s @ l \<and> set l \<subseteq> A)"

lemma sends_only_cong: "sends_only A s c \<Longrightarrow> sent c' = sent c \<Longrightarrow> sends_only A s c'"
  by (simp add: sends_only_def)

lemma stable_sends: "stable (sends_only A s)"
  by (rule stable_frame) (auto simp: input_keeps_def frame_kept_def elim: sends_only_cong)

lemma keeps_quiet: "(\<And>c. sent (f c) = sent c) \<Longrightarrow> keeps (sends_only A s) (co_modify f)"
  by (rule keeps_modify) (auto elim: sends_only_cong)

lemma sent_fields [simp]:
  "sent (c\<lparr>co_suppress := b\<rparr>) = sent c" "sent (c\<lparr>co_handoff := h\<rparr>) = sent c" "sent (c\<lparr>co_cause := e\<rparr>) = sent c"
  "sent (c\<lparr>co_stored := x\<rparr>) = sent c" "sent (c\<lparr>co_controller := ct\<rparr>) = sent c"
  by (simp_all add: sent_def)

lemma sent_publish [simp]: "sent (publish_custom_auto c) = sent c"
  by (simp add: publish_custom_auto_def split: option.split)

lemma sends_control: "keeps (sends_only A s) (control_and_wait m)"
  unfolding control_and_wait_def
proof (intro keeps_bind keeps_sync keeps_await stable_sends)
  fix c
  assume "sends_only A s c"
  then show "sends_only A s (snd (begin_control m c))"
    by (auto simp: begin_control_def elim: sends_only_cong split: option.split prod.split)
next
  fix i v c
  assume "sends_only A s c"
  then show "sends_only A s (snd (control_answer i v c))"
    by (auto simp: control_answer_def split: option.split outcome.split)
qed

lemma sends_memory: "keeps (sends_only A s) (memory_set_active b)"
proof -
  have "keeps (sends_only A s) (co_await (\<lambda>v c. case set_active (ae_core v) (ae_write v) (ae_load v) False b (co_stored c) of
      (r, stored) \<Rightarrow> (Finished r, c\<lparr>co_stored := stored\<rparr>)))"
    by (rule keeps_await[OF stable_sends]) (auto elim: sends_only_cong split: prod.split)
  then show ?thesis by (simp add: keeps_def co_spec_def memory_set_active_def)
qed

lemma sends_execute: "(cmd, origin) \<in> A \<Longrightarrow> keeps (sends_only A s) (co_execute cmd origin)"
proof -
  assume "(cmd, origin) \<in> A"
  then have "sends_only A s (co_call (CallExecute cmd origin) c)" if "sends_only A s c" for c
    using that by (auto simp: sends_only_def)
  then have call: "keeps (sends_only A s) (co_modify (co_call (CallExecute cmd origin)))" by (rule keeps_modify)
  have answer: "keeps (sends_only A s) (co_await answer_call)"
    by (rule keeps_await[OF stable_sends]) (simp add: answer_call_def)
  show ?thesis
    unfolding co_execute_def translate_error_def client_call_def
    by (intro keeps_rules call answer keeps_quiet) simp_all
qed

lemma sends_settle: "keeps (sends_only A s) (settle_handoff h)"
  unfolding settle_handoff_def by (rule keeps_quiet) simp

lemma sends_suppress: "keeps (sends_only A s) m \<Longrightarrow> keeps (sends_only A s) (suppressing_ownership_loss m)"
  unfolding suppressing_ownership_loss_def by (intro keeps_rules keeps_quiet) simp_all

lemmas sends_rules = keeps_rules keeps_lock stable_sends sends_control sends_memory sends_settle sends_suppress

lemma sends_override: "keeps (sends_only A s) ha_override_transaction"
  unfolding ha_override_transaction_def by (intro sends_rules)

lemma sends_apply:
  "(SetFanMode mode, HOME_ASSISTANT) \<in> A \<Longrightarrow> (SetPower True, HOME_ASSISTANT) \<in> A \<Longrightarrow>
   keeps (sends_only A s) (apply_ha_fan_mode mode power_on)"
  unfolding apply_ha_fan_mode_def by (intro sends_rules sends_override sends_execute)

lemma sends_power: "(SetPower on, HOME_ASSISTANT) \<in> A \<Longrightarrow> keeps (sends_only A s) (set_power on)"
  unfolding set_power_def by (cases on) (simp_all, (intro sends_rules sends_execute; assumption)+)

lemma sends_run: "keeps (sends_only A s) m \<Longrightarrow> keeps (sends_only A s) (run_operation m)"
  unfolding run_operation_def by (intro sends_rules)

section \<open>Properties\<close>

text \<open>The commands a profile's fan entity may ask for.\<close>

definition fan_supports :: "device_profile \<Rightarrow> command \<times> command_origin \<Rightarrow> bool" where
  "fan_supports p x \<longleftrightarrow> snd x = HOME_ASSISTANT \<and>
     (case fst x of
        SetPower on \<Rightarrow> True
      | SetFanMode mode \<Rightarrow>
          (case manual_modes p of Inr modes \<Rightarrow> mode \<in> set modes | Inl e \<Rightarrow> False) \<or>
          mode = AUTO \<and> supports_auto p = Inr True
      | _ \<Rightarrow> False)"

datatype fan_request =
    TurnOn "int option" "string option" | TurnOff | SetPercentage int | SetPreset string

fun request_fan :: "(fan_mode list \<Rightarrow> int \<Rightarrow> fan_mode res) \<Rightarrow> fan_entity \<Rightarrow> fan_request \<Rightarrow> unit co" where
  "request_fan pti fe (TurnOn percentage preset_mode) = fan_turn_on pti fe percentage preset_mode"
| "request_fan pti fe TurnOff = fan_turn_off"
| "request_fan pti fe (SetPercentage n) = fan_set_percentage pti fe n"
| "request_fan pti fe (SetPreset name) = fan_set_preset_mode fe name"

lemma new_fanD:
  assumes "new_fan p = Inr fe"
  obtains auto where "manual_modes p = Inr (fe_manual_modes fe)" "supports_auto p = Inr auto"
    "fe_preset_modes fe = (if auto then [''manual'', ''auto''] else [''manual''])" "LOW \<in> set (fe_manual_modes fe)"
    "AUTO \<notin> set (fe_manual_modes fe)"
proof -
  from assms obtain modes auto where m: "manual_modes p = Inr modes" "supports_auto p = Inr auto"
    "fe = \<lparr>fe_manual_modes = modes, fe_preset_modes = (if auto then [''manual'', ''auto''] else [''manual''])\<rparr>"
    by (auto simp: new_fan_def)
  moreover from m(1) have "LOW \<in> set modes" "AUTO \<notin> set modes" by (auto simp: manual_modes_def Let_def split: if_splits)
  ultimately show ?thesis using that[of auto] by simp
qed

lemma preset_supported:
  assumes "new_fan p = Inr fe" "fan_mode_for_preset fe c name = Inr mode"
  shows "fan_supports p (SetFanMode mode, HOME_ASSISTANT)"
proof (rule new_fanD[OF assms(1)])
  fix auto
  assume "manual_modes p = Inr (fe_manual_modes fe)" "supports_auto p = Inr auto"
    "fe_preset_modes fe = (if auto then [''manual'', ''auto''] else [''manual''])" "LOW \<in> set (fe_manual_modes fe)"
  with assms(2) show ?thesis
    by (auto simp: fan_mode_for_preset_def fan_supports_def split: if_splits option.splits)
qed

text \<open>The fan entity asks the purifier only for what its model supports: whatever percentage or preset
  is requested, in whatever state and however the awaits end, everything that is sent is a power command or
  one of the manual modes of the profile, or hardware Auto where the profile has it.\<close>

theorem fan_asks_only_for_supported_modes:
  assumes "new_fan p = Inr fe"
    and "\<And>n mode. pti (fe_manual_modes fe) n = Inr mode \<Longrightarrow> mode \<in> set (fe_manual_modes fe)"
  shows "\<exists>l. sent (performing (request_fan pti fe request) k env c) = sent c @ l \<and> list_all (fan_supports p) l"
proof -
  let ?T = "sends_only {x. fan_supports p x} (sent c)"
  have power: "(SetPower b, HOME_ASSISTANT) \<in> {x. fan_supports p x}" for b by (simp add: fan_supports_def)
  have checked: "keeps ?T (apply_mode r power_on)"
    if "\<And>mode. r = Inr mode \<Longrightarrow> fan_supports p (SetFanMode mode, HOME_ASSISTANT)" for r power_on
    unfolding apply_mode_def using that
    by (cases r) (auto intro!: keeps_simple sends_run sends_apply power)
  have off: "keeps ?T fan_turn_off" unfolding fan_turn_off_def by (intro sends_run sends_power power)
  have percentage: "keeps ?T (apply_mode (pti (fe_manual_modes fe) n) power_on)" for n power_on
  proof (rule checked)
    fix mode
    assume "pti (fe_manual_modes fe) n = Inr mode"
    then have "mode \<in> set (fe_manual_modes fe)" by (rule assms(2))
    moreover obtain auto where "manual_modes p = Inr (fe_manual_modes fe)" using new_fanD[OF assms(1)] by blast
    ultimately show "fan_supports p (SetFanMode mode, HOME_ASSISTANT)" by (simp add: fan_supports_def)
  qed
  have preset: "keeps ?T (apply_mode (fan_mode_for_preset fe c0 name) power_on)" for c0 name power_on
    by (rule checked) (rule preset_supported[OF assms(1)])
  have "keeps ?T (request_fan pti fe request)"
    by (cases request)
      (auto simp: fan_turn_on_def fan_set_percentage_def fan_set_preset_mode_def
        intro!: keeps_get keeps_option keeps_if off percentage preset sends_run sends_power power)
  moreover have "?T c" by (simp add: sends_only_def)
  ultimately have "?T (performing (request_fan pti fe request) k env c)"
    unfolding performing_def by (rule keepsD)
  then show ?thesis by (auto simp: sends_only_def list_all_iff)
qed

lemma brightness_round_trip:
  assumes "1 \<le> n" "n \<le> 100"
  defines "b \<equiv> py_round (of_int n * 255 / 100)"
  shows "0 \<le> b" "b \<le> 255" "brightness_percentage b = n"
proof -
  have b: "\<bar>of_int b - (of_int n * 255 / 100 :: rat)\<bar> \<le> 1/2" unfolding b_def by (rule py_round_close)
  have n: "(1 :: rat) \<le> of_int n" "(of_int n :: rat) \<le> 100" using assms(1,2) by linarith+
  have "(of_int b :: rat) < 256" "(- 1 :: rat) < of_int b" using b n by linarith+
  then show "0 \<le> b" "b \<le> 255" by linarith+
  let ?r = "py_round (of_int b * 100 / 255)"
  have r: "\<bar>of_int ?r - (of_int b * 100 / 255 :: rat)\<bar> \<le> 1/2" by (rule py_round_close)
  have "\<bar>of_int ?r - (of_int n :: rat)\<bar> < 1" using r b by linarith
  then have "?r = n" by linarith
  with assms(1,2) show "brightness_percentage b = n" by (simp add: brightness_percentage_def)
qed

text \<open>What the entities show can be sent back: the brightness shown for any percentage of the purifier
  is in range and gives that percentage again when it is requested, every requested brightness is a
  percentage from 1 to 100, and selecting the preset that is shown keeps the current mode.\<close>

theorem shown_state_round_trips:
  assumes "1 \<le> n" "n \<le> 100" "new_fan p = Inr fe"
  shows "(\<exists>b. light_brightness (s\<lparr>ps_light_brightness := Some n\<rparr>) = Some b \<and> 0 \<le> b \<and> b \<le> 255 \<and>
      brightness_percentage b = n) \<and>
    1 \<le> brightness_percentage b' \<and> brightness_percentage b' \<le> 100 \<and>
    (fan_preset_mode fe c = Some name \<and> name \<in> set (fe_preset_modes fe) \<longrightarrow>
       (\<exists>mode. ps_fan_mode (co_data c) = Some mode \<and> fan_mode_for_preset fe c name = Inr mode))"
proof (intro conjI impI)
  show "\<exists>b. light_brightness (s\<lparr>ps_light_brightness := Some n\<rparr>) = Some b \<and> 0 \<le> b \<and> b \<le> 255 \<and>
      brightness_percentage b = n"
    using brightness_round_trip[OF assms(1,2)] by (simp add: light_brightness_def)
  show "1 \<le> brightness_percentage b'" "brightness_percentage b' \<le> 100"
    by (simp_all add: brightness_percentage_def)
  assume shown: "fan_preset_mode fe c = Some name \<and> name \<in> set (fe_preset_modes fe)"
  then show "\<exists>mode. ps_fan_mode (co_data c) = Some mode \<and> fan_mode_for_preset fe c name = Inr mode"
    by (auto simp: fan_preset_mode_def fan_mode_for_preset_def split: option.splits if_splits)
qed

end
