(* ===== verification/Entry_Setup.thy ===== *)
theory Entry_Setup
  imports Coordinator_Cleanup Profile_Registry
begin

text \<open>
  A config entry of the integration (\<open>__init__.py\<close>, \<open>bluetooth_profile.py\<close>, \<open>bluetooth/settings.py\<close>): the
  safety clears for entries that are disabled while unloaded, setting an entry up, applying new options,
  unloading and removing it.  Home Assistant is its registries, its events and the outcomes of its calls.
\<close>

section \<open>Bluetooth settings\<close>

record gatt_endpoints =
  ge_service_uuid :: string
  ge_notify_uuid :: string
  ge_write_uuid :: string

record route_selection_settings =
  rs_check_interval :: time
  rs_recent_cached_max_age :: time

record connection_settings =
  cs_attempts :: int
  cs_attempt_timeout :: time
  cs_abort_timeout :: time
  cs_diagnostic_timeout :: time

record gatt_operation_settings =
  gs_subscribe_timeout :: time
  gs_write_timeout :: time
  gs_disconnect_timeout :: time
  gs_cancel_timeout :: time

record cleanup_settings =
  cl_stale_timeout :: time
  cl_stale_check_interval :: time

record bluetooth_settings =
  bs_endpoints :: gatt_endpoints
  bs_route_selection :: route_selection_settings
  bs_connection :: connection_settings
  bs_gatt_operations :: gatt_operation_settings
  bs_cleanup :: cleanup_settings

definition bluetooth_settings_from_profile :: "device_profile \<Rightarrow> bluetooth_settings" where
  "bluetooth_settings_from_profile p =
     (let b = bluetooth p; t = timings p
      in \<lparr>bs_endpoints = \<lparr>ge_service_uuid = service_uuid b, ge_notify_uuid = notify_uuid b,
                          ge_write_uuid = write_uuid b\<rparr>,
          bs_route_selection = \<lparr>rs_check_interval = advertisement_check_interval t,
                                rs_recent_cached_max_age = recent_cached_advertisement_max_age t\<rparr>,
          bs_connection = \<lparr>cs_attempts = connect_attempts t, cs_attempt_timeout = connection_attempt_timeout t,
                           cs_abort_timeout = connection_abort_timeout t,
                           cs_diagnostic_timeout = connection_diagnostic_timeout t\<rparr>,
          bs_gatt_operations = \<lparr>gs_subscribe_timeout = notification_subscribe_timeout t,
                                gs_write_timeout = gatt_write_timeout t,
                                gs_disconnect_timeout = gatt_disconnect_timeout t,
                                gs_cancel_timeout = gatt_operation_cancel_timeout t\<rparr>,
          bs_cleanup = \<lparr>cl_stale_timeout = stale_connection_cleanup_timeout t,
                        cl_stale_check_interval = stale_connection_check_interval t\<rparr>\<rparr>)"

section \<open>Clears that an unloaded entry requires\<close>

text \<open>The clear task is absent, scheduled, or in an attempt for a generation.\<close>

datatype clear_task = NoTask | Scheduled | Attempting int nat

record required_clear =
  rc_generation :: int
  rc_served :: int
  rc_task :: clear_task
  rc_error :: "exn option"

definition new_required_clear :: required_clear where
  "new_required_clear = \<lparr>rc_generation = 0, rc_served = 0, rc_task = NoTask, rc_error = None\<rparr>"

definition schedule_required_clear :: "required_clear \<Rightarrow> required_clear" where
  "schedule_required_clear r = (if rc_task r \<noteq> NoTask then r else r\<lparr>rc_task := Scheduled\<rparr>)"

definition CONFIG_ENTRY_CLEAR_ATTEMPTS :: nat where
  "CONFIG_ENTRY_CLEAR_ATTEMPTS = 3"

text \<open>One attempt: the registry events during the clear and during the pause after it, and how they end.\<close>

record clear_round =
  cr_bumps :: nat
  cr_core :: core_state
  cr_write :: write_io
  cr_load :: load_io
  cr_cancelled :: bool
  cr_pause_bumps :: nat
  cr_pause_cancelled :: bool

definition bump :: "nat \<Rightarrow> required_clear \<Rightarrow> required_clear" where
  "bump n r = r\<lparr>rc_generation := rc_generation r + int n\<rparr>"

fun clear_attempts ::
    "int \<Rightarrow> nat \<Rightarrow> clear_round list \<Rightarrow> required_clear \<Rightarrow> json option \<Rightarrow>
     unit progress \<times> required_clear \<times> json option" where
  "clear_attempts target attempt [] r stored = (Blocked, r\<lparr>rc_task := Attempting target attempt\<rparr>, stored)"
| "clear_attempts target attempt (v # env) r stored =
     (let r = bump (cr_bumps v) r
      in case clear (cr_core v) (cr_write v) (cr_load v) (cr_cancelled v) stored of
           (Inr _, stored) \<Rightarrow>
             (Finished (Inr ()), r\<lparr>rc_served := rc_generation r, rc_error := None, rc_task := NoTask\<rparr>, stored)
         | (Inl e, stored) \<Rightarrow>
             if e = CancelledError then (Finished (Inl e), r\<lparr>rc_task := NoTask\<rparr>, stored)
             else if rc_generation r \<noteq> target then clear_attempts (rc_generation r) 0 env r stored
             else if attempt + 1 = CONFIG_ENTRY_CLEAR_ATTEMPTS
             then (Finished (Inr ()), r\<lparr>rc_error := Some e, rc_task := NoTask\<rparr>, stored)
             else if cr_pause_cancelled v
             then (Finished (Inl CancelledError), (bump (cr_pause_bumps v) r)\<lparr>rc_task := NoTask\<rparr>, stored)
             else clear_attempts target (attempt + 1) env (bump (cr_pause_bumps v) r) stored)"

text \<open>The task from where it is.\<close>

definition clear_required_generation ::
    "clear_round list \<Rightarrow> required_clear \<Rightarrow> json option \<Rightarrow> unit progress \<times> required_clear \<times> json option" where
  "clear_required_generation env r stored =
     (case rc_task r of
        Attempting target attempt \<Rightarrow> clear_attempts target attempt env r stored
      | _ \<Rightarrow>
          if rc_served r < rc_generation r then clear_attempts (rc_generation r) 0 env r stored
          else (Finished (Inr ()), r\<lparr>rc_task := NoTask\<rparr>, stored))"

text \<open>Setup joins or performs them; \<open>None\<close>: nothing was ever required.\<close>

definition settle_required_clear ::
    "clear_round list \<Rightarrow> required_clear option \<Rightarrow> json option \<Rightarrow>
     unit progress \<times> required_clear option \<times> json option" where
  "settle_required_clear env required stored =
     (case required of
        None \<Rightarrow> (Finished (Inr ()), None, stored)
      | Some r \<Rightarrow>
          if rc_generation r \<le> rc_served r then (Finished (Inr ()), Some r, stored)
          else
            (case clear_required_generation env (schedule_required_clear r) stored of
               (Finished (Inr _), r, stored) \<Rightarrow>
                 (Finished (if rc_served r < rc_generation r then Inl ConfigEntryError else Inr ()), Some r, stored)
             | (p, r, stored) \<Rightarrow> (p, Some r, stored)))"

section \<open>The entity registry\<close>

datatype disabler = ByConfigEntry | ByOther

record switch_entry =
  sw_disabled_by :: "disabler option"
  sw_hidden :: bool

text \<open>A change of an entity: the Custom Auto switch of an entry of this integration, whether that entry is
  disabled, and what the change says \<open>disabled_by\<close> was before, if it says so.\<close>

record registry_change =
  ch_our_switch :: bool
  ch_entry_exists :: bool
  ch_entry_disabled :: bool
  ch_disabled_by :: "disabler option"
  ch_was_disabled_by :: "disabler option option"

definition requires_clear :: "registry_change \<Rightarrow> bool" where
  "requires_clear ch \<longleftrightarrow> ch_our_switch ch \<and> ch_entry_exists ch \<and>
     (ch_entry_disabled ch \<and> ch_disabled_by ch = Some ByConfigEntry \<and>
        (case ch_was_disabled_by ch of Some before \<Rightarrow> before \<noteq> Some ByConfigEntry | None \<Rightarrow> False) \<or>
      \<not> ch_entry_disabled ch \<and> ch_disabled_by ch = None \<and> ch_was_disabled_by ch = Some (Some ByConfigEntry))"

definition registry_updated :: "registry_change \<Rightarrow> required_clear option \<Rightarrow> required_clear option" where
  "registry_updated ch required =
     (if \<not> requires_clear ch then required
      else
        let r = (case required of Some r \<Rightarrow> r | None \<Rightarrow> new_required_clear)
        in Some (schedule_required_clear (r\<lparr>rc_generation := rc_generation r + 1\<rparr>)))"

definition registry_allowed :: "switch_entry option \<Rightarrow> bool" where
  "registry_allowed entry =
     (case entry of None \<Rightarrow> False | Some e \<Rightarrow> sw_disabled_by e = None \<and> \<not> sw_hidden e)"

section \<open>Setting an entry up\<close>

definition resolve_profile_options ::
    "profile_registry res \<Rightarrow> string \<Rightarrow> jobject \<Rightarrow> (device_profile \<times> custom_auto_options) res" where
  "resolve_profile_options registry model options =
     res_bind registry (\<lambda>reg. res_bind (for_model reg model) (\<lambda>p.
       res_bind (parse_custom_auto_options options (custom_auto_defaults p)) (\<lambda>opts. Inr (p, opts))))"

definition entry_profile ::
    "profile_registry res \<Rightarrow> string \<Rightarrow> jobject \<Rightarrow> (device_profile \<times> custom_auto_options) res" where
  "entry_profile registry model options =
     (case resolve_profile_options registry model options of
        Inl e \<Rightarrow> Inl (if is_value_error e then ConfigEntryError else e)
      | Inr x \<Rightarrow> Inr x)"

definition resolve_custom_auto_options ::
    "profile_registry res \<Rightarrow> string \<Rightarrow> jobject \<Rightarrow> custom_auto_options res" where
  "resolve_custom_auto_options registry model options =
     (case resolve_profile_options registry model options of
        Inl e \<Rightarrow> Inl (if is_value_error e \<or> e = KeyError then ConfigEntryError else e)
      | Inr (p, opts) \<Rightarrow> Inr opts)"

text \<open>Whether the remembered selection is restored, and what storage holds afterwards.\<close>

definition remembered_selection ::
    "bool \<Rightarrow> core_state \<Rightarrow> write_io \<Rightarrow> load_io \<Rightarrow> json option \<Rightarrow> bool res \<times> json option" where
  "remembered_selection allowed core wio lio stored =
     (if allowed then (Inr (load_active lio stored), stored)
      else (case clear core wio lio False stored of
              (Inl e, stored) \<Rightarrow> (Inl e, stored)
            | (Inr _, stored) \<Rightarrow> (Inr False, stored)))"

text \<open>The registry listener is installed, the gate set to what the registry says now, the coordinator
  started; an error shuts it down.\<close>

definition block_before_start :: "bool \<Rightarrow> bool \<Rightarrow> bool \<Rightarrow> unit co" where
  "block_before_start enabled allowed current =
     (if \<not> enabled then co_return ()
      else co_then (co_modify (\<lambda>c. set_registry_allowed current (c\<lparr>co_registry_listener := True\<rparr>)))
             (if \<not> current \<and> allowed then memory_clear else co_return ()))"

definition shut_down_quietly :: "unit co" where
  "shut_down_quietly = co_catch coordinator_shutdown (\<lambda>e. co_return ())"

definition start_entry :: "bool \<Rightarrow> bool \<Rightarrow> bool \<Rightarrow> time \<Rightarrow> unit co" where
  "start_entry enabled allowed current now =
     co_catch (co_then (block_before_start enabled allowed current) (coordinator_start now))
       (\<lambda>e. if e = BluetoothUnavailableError then co_then coordinator_shutdown (co_raise ConfigEntryNotReady)
            else co_then (co_modify remove_registry_listener) (co_then shut_down_quietly (co_raise e)))"

definition forward_platforms :: "unit co" where
  "forward_platforms =
     co_except (co_await answer_call) (\<lambda>e. co_then coordinator_shutdown (co_raise e))"

definition run_entry :: "bool \<Rightarrow> bool \<Rightarrow> bool \<Rightarrow> time \<Rightarrow> unit co" where
  "run_entry enabled allowed current now =
     co_then (start_entry enabled allowed current now) forward_platforms"

text \<open>What Home Assistant gives while an entry is set up; the best-effort cleanup of the address raises
  nothing but a cancellation.\<close>

record setup_env =
  su_clear_rounds :: "clear_round list"
  su_registry :: "profile_registry res"
  su_switch_before :: "switch_entry option"
  su_switch_now :: "switch_entry option"
  su_core :: core_state
  su_write :: write_io
  su_load :: load_io
  su_cleanup_cancelled :: bool
  su_view :: client_view
  su_now :: time
  su_awaits :: "await_env list"

record config_entry =
  en_model :: string
  en_options :: jobject

text \<open>The parts of the state an entry owns between its setups, and the coordinator once there is one.\<close>

record entry_state =
  es_required :: "required_clear option"
  es_stored :: "json option"
  es_coordinator :: "coordinator option"
  es_enabled :: bool

definition create_coordinator :: "setup_env \<Rightarrow> custom_auto_options \<Rightarrow> bool \<Rightarrow> bool \<Rightarrow> json option \<Rightarrow> coordinator res" where
  "create_coordinator env opts allowed restore stored =
     new_coordinator (su_view env) opts True stored restore allowed"

definition set_up_entry :: "setup_env \<Rightarrow> config_entry \<Rightarrow> entry_state \<Rightarrow> unit progress \<times> entry_state" where
  "set_up_entry env entry s =
     (case settle_required_clear (su_clear_rounds env) (es_required s) (es_stored s) of
        (Blocked, required, stored) \<Rightarrow> (Blocked, s\<lparr>es_required := required, es_stored := stored\<rparr>)
      | (Finished (Inl e), required, stored) \<Rightarrow> (Finished (Inl e), s\<lparr>es_required := required, es_stored := stored\<rparr>)
      | (Finished (Inr _), required, stored) \<Rightarrow>
          let s = s\<lparr>es_required := required, es_stored := stored\<rparr>
          in case entry_profile (su_registry env) (en_model entry) (en_options entry) of
               Inl e \<Rightarrow> (Finished (Inl e), s)
             | Inr (p, opts) \<Rightarrow>
                 let allowed = (ao_enabled opts \<and> registry_allowed (su_switch_before env))
                 in case remembered_selection allowed (su_core env) (su_write env) (su_load env) stored of
                      (Inl e, stored) \<Rightarrow> (Finished (Inl e), s\<lparr>es_stored := stored\<rparr>)
                    | (Inr restore, stored) \<Rightarrow>
                        let s = s\<lparr>es_stored := stored\<rparr>
                        in if su_cleanup_cancelled env then (Finished (Inl CancelledError), s)
                           else
                             case create_coordinator env opts allowed restore stored of
                               Inl e \<Rightarrow> (Finished (Inl e), s)
                             | Inr c \<Rightarrow>
                                 (case run_entry (ao_enabled opts) allowed (registry_allowed (su_switch_now env))
                                         (su_now env) True (su_awaits env) c of
                                    (p, _, c) \<Rightarrow>
                                      (p, s\<lparr>es_stored := co_stored c, es_coordinator := Some c,
                                            es_enabled := ao_enabled opts\<rparr>)))"

section \<open>Applying new options, unloading and removing\<close>

text \<open>The listener of option changes: the outcome of the reload comes from Home Assistant.\<close>

definition options_updated :: "custom_auto_options res \<Rightarrow> bool res \<Rightarrow> unit co" where
  "options_updated new_options reloaded =
     (case new_options of
        Inl e \<Rightarrow> co_raise e
      | Inr opts \<Rightarrow>
          co_then
            (co_get (\<lambda>c.
               if co_controller c \<noteq> None \<and> \<not> ao_enabled opts then disable_and_clear
               else if controller_active c
               then co_except (co_bind quiesce_custom_auto (\<lambda>_. co_return ())) (\<lambda>e. co_return ())
               else co_return ()))
            (case reloaded of
               Inl e \<Rightarrow> co_raise e
             | Inr ok \<Rightarrow> if ok then co_return () else co_raise ConfigEntryError))"

text \<open>Unloading gives whether the platforms let go.\<close>

definition unload_entry :: "bool \<Rightarrow> bool \<Rightarrow> bool co" where
  "unload_entry disabled platforms_unloaded =
     co_bind (if disabled then collecting disable_and_clear else co_return [])
       (\<lambda>errors. if \<not> platforms_unloaded then co_return False
                 else co_then coordinator_shutdown
                        (case errors of [] \<Rightarrow> co_return True | e # es \<Rightarrow> co_raise e))"

definition REMOVAL_TIMEOUTS :: "time \<times> time" where
  "REMOVAL_TIMEOUTS = (5, 1)"

text \<open>The bounds of the address cleanup after a removal: the profile's, or fixed ones when it is invalid.\<close>

definition removal_timeouts :: "profile_registry res \<Rightarrow> string \<Rightarrow> (time \<times> time) res" where
  "removal_timeouts registry model =
     (case res_bind registry (\<lambda>reg. for_model reg model) of
        Inr p \<Rightarrow>
          let b = bluetooth_settings_from_profile p
          in Inr (cl_stale_timeout (bs_cleanup b), gs_cancel_timeout (bs_gatt_operations b))
      | Inl e \<Rightarrow> if is_value_error e \<or> e = KeyError then Inr REMOVAL_TIMEOUTS else Inl e)"

text \<open>The memory is cleared and the address cleaned up in any case; the first error is raised.  The result
  has the timeouts the cleanup ran with.\<close>

definition remove_entry ::
    "profile_registry res \<Rightarrow> string \<Rightarrow> core_state \<Rightarrow> write_io \<Rightarrow> load_io \<Rightarrow> bool \<Rightarrow> bool \<Rightarrow> json option \<Rightarrow>
     (time \<times> time) \<times> unit res \<times> json option" where
  "remove_entry registry model core wio lio clear_cancelled cleanup_cancelled stored =
     (case clear core wio lio clear_cancelled stored of
        (r, stored) \<Rightarrow>
          (case removal_timeouts registry model of
             Inl e \<Rightarrow> (REMOVAL_TIMEOUTS, Inl e, stored)
           | Inr timeouts \<Rightarrow>
               (timeouts,
                case r of Inl e \<Rightarrow> Inl e
                        | Inr _ \<Rightarrow> if cleanup_cancelled then Inl CancelledError else Inr (),
                stored)))"

section \<open>Required clears\<close>

definition pending :: "required_clear option \<Rightarrow> bool" where
  "pending required \<longleftrightarrow> (case required of None \<Rightarrow> False | Some r \<Rightarrow> rc_served r < rc_generation r)"

definition storage_clear :: "json option \<Rightarrow> bool" where
  "storage_clear stored \<longleftrightarrow> stored = None \<or> stored = Some JNull"

lemma clear_result:
  "clear core wio lio cancelled stored = (Inr (), stored') \<Longrightarrow> storage_clear stored'"
  using clear_clears[of core wio lio stored stored']
  by (cases cancelled) (auto simp: storage_clear_def clear_def await_mutation_def split: sum.splits)

lemma clear_attempts_result:
  assumes "clear_attempts target attempt env r stored = (p, r', stored')" "rc_served r < rc_generation r"
  shows "rc_generation r \<le> rc_generation r' \<and>
    (if rc_served r' < rc_generation r' then rc_served r' = rc_served r
     else p = Finished (Inr ()) \<and> storage_clear stored' \<and> rc_task r' = NoTask)"
  using assms
proof (induction target attempt env r stored rule: clear_attempts.induct)
  case (1 target attempt r stored)
  then show ?case by auto
next
  case (2 target attempt v env r stored)
  obtain x stored1 where c: "clear (cr_core v) (cr_write v) (cr_load v) (cr_cancelled v) stored = (x, stored1)" by fastforce
  show ?case
  proof (cases x)
    case (Inr u)
    with 2 c clear_result[of "cr_core v" "cr_write v" "cr_load v" "cr_cancelled v" stored stored1] show ?thesis
      by (auto simp: bump_def Let_def)
  next
    case (Inl e)
    with 2 c show ?thesis
      by (fastforce simp: bump_def Let_def split: if_splits)
  qed
qed

lemma settle_result:
  assumes "settle_required_clear env required stored = (p, required', stored')"
  shows "(p = Finished (Inr ()) \<longrightarrow> \<not> pending required' \<and> (pending required \<longrightarrow> storage_clear stored')) \<and>
    (p \<noteq> Finished (Inr ()) \<longrightarrow> pending required') \<and>
    (\<not> pending required \<longrightarrow> required' = required \<and> stored' = stored)"
proof (cases "pending required")
  case False
  with assms show ?thesis by (auto simp: settle_required_clear_def pending_def split: option.splits)
next
  case True
  then obtain r where r: "required = Some r" "rc_served r < rc_generation r" by (auto simp: pending_def split: option.splits)
  let ?r = "schedule_required_clear r"
  have s: "rc_served ?r = rc_served r" "rc_generation ?r = rc_generation r" by (simp_all add: schedule_required_clear_def)
  obtain q r1 stored1 where run: "clear_required_generation env ?r stored = (q, r1, stored1)" by (rule prod_cases3)
  have ok: "if rc_served r1 < rc_generation r1 then rc_served r1 = rc_served r
      else q = Finished (Inr ()) \<and> storage_clear stored1 \<and> rc_task r1 = NoTask"
    using run r(2) s clear_attempts_result[of _ _ env ?r stored q r1 stored1]
    by (auto simp: clear_required_generation_def split: clear_task.splits)
  from assms run r ok show ?thesis
    by (cases q rule: progress.exhaust; cases "rc_served r1 < rc_generation r1")
      (auto simp: settle_required_clear_def pending_def split: sum.splits)
qed

text \<open>C18. Setup never goes on over an unserved safety clear: when settling returns, every clear that was
  demanded so far, also while it ran, has been served, and if one was pending the storage no longer holds
  a selection; when it does not return a clear is still pending; and with none pending nothing changes.\<close>

theorem settled_clears_are_durable:
  assumes "settle_required_clear env required stored = (p, required', stored')"
  shows "(p = Finished (Inr ()) \<longrightarrow> \<not> pending required' \<and> (pending required \<longrightarrow> storage_clear stored')) \<and>
    (p \<noteq> Finished (Inr ()) \<longrightarrow> pending required') \<and>
    (\<not> pending required \<longrightarrow> required' = required \<and> stored' = stored)"
  by (rule settle_result[OF assms])

section \<open>What setup restores\<close>

lemma stable_restore: "stable (\<lambda>c. co_restore c = b)"
  unfolding stable_def
proof (intro allI impI)
  fix c :: coordinator and i
  assume b: "co_restore c = b"
  have control: "co_restore (snd (on_controller m x)) = co_restore x" for m and x :: coordinator
    by (simp add: on_controller_def split: option.split prod.split)
  have bind: "co_restore (snd (st_bind m f x)) = co_restore x"
    if "\<And>x. co_restore (snd (m x)) = co_restore x" "\<And>v x. co_restore (snd (f v x)) = co_restore x" for m f x
    by (rule st_bind_preserves[where R = "\<lambda>a c. co_restore c = co_restore a"]) (use that in auto)
  have publish: "co_restore (publish_custom_auto x) = co_restore x" for x
    by (simp add: publish_custom_auto_def co_call_def split: option.split)
  have listener: "co_restore (custom_auto_state_updated a x) = co_restore x" for a x
    by (simp add: custom_auto_state_updated_def Let_def publish)
  have turn: "co_restore (foldl (\<lambda>c (l, sn). if l = CONTROLLER_LISTENER then custom_auto_state_updated (sn_active sn) c
      else c) x calls) = co_restore x" for x calls
    by (induction calls arbitrary: x) (auto simp: listener split: prod.split)
  have route: "co_restore (snd (route_custom_auto_observation ob now x)) = co_restore x" for ob now x
    by (auto simp: route_custom_auto_observation_def Let_def control intro!: bind split: option.split)
  have available: "co_restore (snd (availability_updated a now x)) = co_restore x" for a now x
    unfolding availability_updated_def by (subst bind) (auto simp: control set_updated_data_def co_call_def)
  show "co_restore (coordinator_input_step c i) = b"
    using b
    by (cases i)
      (auto simp: state_updated_def set_updated_data_def co_call_def control observation_updated_def route available
        controller_turn_def turn set_registry_allowed_def schedule_registry_cleanup_def disable_begins_def
        registry_cleanup_done_def Let_def split: option.split prod.split)
qed

interpretation restoring: coordinator_lifecycle "\<lambda>c. co_restore c = b" for b
  by unfold_locales (auto simp: stable_restore co_call_def on_controller_def split: option.split prod.split)

lemma run_entry_restore: "keeps (\<lambda>c. co_restore c = b) (run_entry enabled allowed current now)"
proof -
  let ?T = "\<lambda>c. co_restore c = b"
  have answer: "keeps ?T (co_await answer_call)" by (rule restoring.await) (simp add: answer_call_def)
  have gate: "keeps ?T (co_modify (\<lambda>c. set_registry_allowed current (c\<lparr>co_registry_listener := True\<rparr>)))"
    by (rule keeps_modify) (simp add: set_registry_allowed_def schedule_registry_cleanup_def Let_def)
  show ?thesis
    unfolding run_entry_def start_entry_def block_before_start_def forward_platforms_def shut_down_quietly_def
    by (intro keeps_rules answer gate restoring.memory restoring.start_op restoring.shutdown_op restoring.endings)
qed


end
