(* ===== verification/Discovery.thy ===== *)
theory Discovery
  imports Profile_Registry Channel Stateful "HOL-Library.Product_Lexorder" "HOL-Library.List_Lexorder" "HOL-Library.Char_ord"
begin

text \<open>
  Manual discovery (\<open>discovery.py\<close>): what the shared scanner of Home Assistant reported during one scan
  window, combined with the names learned at any time.  A dictionary is the list of its items in
  insertion order.  The normalization of an address (\<open>format_mac\<close> of Home Assistant) and the name of
  its device objects are parameters.
\<close>

section \<open>Data\<close>

record purifier_identity =
  pi_name :: string
  pi_model :: string

record fresh_sighting =
  fs_address :: string
  fs_rssi :: int
  fs_name_missing :: bool

record discovered_purifier =
  dp_address :: string
  dp_name :: string
  dp_model :: string
  dp_rssi :: int

record discovery_result =
  dr_purifiers :: "discovered_purifier list"
  dr_unnamed_seen :: bool

text \<open>What an advertisement of Home Assistant gives; \<open>si_time\<close> is missing unless it is a number.\<close>

record service_info =
  si_address :: string
  si_name :: "string option"
  si_rssi :: int
  si_connectable :: bool
  si_time :: "time option"

type_synonym identity_cache = "(string \<times> purifier_identity) list"
type_synonym sightings = "(string \<times> fresh_sighting) list"

text \<open>Asking Home Assistant for the device object of an address.\<close>

datatype device_answer = DeviceRaises exn | NoDevice | DeviceNamed "string option"

definition MAX_CACHED_IDENTITIES :: nat where
  "MAX_CACHED_IDENTITIES = 256"

definition dict_pop :: "'k \<Rightarrow> ('k \<times> 'v) list \<Rightarrow> ('k \<times> 'v) list" where
  "dict_pop k d = filter (\<lambda>x. fst x \<noteq> k) d"

text \<open>Assignment keeps the place of a key that is present.\<close>

fun dict_set :: "'k \<Rightarrow> 'v \<Rightarrow> ('k \<times> 'v) list \<Rightarrow> ('k \<times> 'v) list" where
  "dict_set k v [] = [(k, v)]"
| "dict_set k v (x # xs) = (if fst x = k then (k, v) # xs else x # dict_set k v xs)"

section \<open>Identities\<close>

definition model_from_name :: "profile_registry \<Rightarrow> string option \<Rightarrow> string option res" where
  "model_from_name reg name =
     res_bind (match_name reg name) (\<lambda>p. case p of
        None \<Rightarrow> Inr None
      | Some p \<Rightarrow> res_bind (profile_model p) (\<lambda>m. Inr (Some (model_value m))))"

fun evict_oldest :: "identity_cache \<Rightarrow> identity_cache" where
  "evict_oldest [] = []"
| "evict_oldest (x # d) = (if MAX_CACHED_IDENTITIES \<le> length (x # d) then evict_oldest d else x # d)"

definition store_identity :: "string \<Rightarrow> purifier_identity \<Rightarrow> identity_cache \<Rightarrow> identity_cache" where
  "store_identity key i ids = dict_set key i (evict_oldest (dict_pop key ids))"

definition remember_identity ::
    "(string \<Rightarrow> string) \<Rightarrow> profile_registry \<Rightarrow> string \<Rightarrow> string option \<Rightarrow>
     (purifier_identity option, identity_cache) st" where
  "remember_identity format_mac reg address name ids =
     (case model_from_name reg name of
        Inl e \<Rightarrow> (Inl e, ids)
      | Inr model \<Rightarrow>
          (case (model, name) of
             (Some m, Some n) \<Rightarrow>
               (let i = \<lparr>pi_name = n, pi_model = m\<rparr>
                in (Inr (Some i), store_identity (format_mac address) i ids))
           | _ \<Rightarrow> (Inr (map_of ids (format_mac address)), ids)))"

definition remember_device_identity ::
    "(string \<Rightarrow> string) \<Rightarrow> profile_registry \<Rightarrow> (string \<Rightarrow> device_answer) \<Rightarrow> string \<Rightarrow>
     (unit, identity_cache) st" where
  "remember_device_identity format_mac reg device address ids =
     (case device address of
        DeviceRaises e \<Rightarrow> (if e = CancelledError then Inl e else Inr (), ids)
      | NoDevice \<Rightarrow> (Inr (), ids)
      | DeviceNamed name \<Rightarrow>
          (case remember_identity format_mac reg address name ids of
             (Inl e, ids) \<Rightarrow> (Inl e, ids)
           | (Inr _, ids) \<Rightarrow> (Inr (), ids)))"

section \<open>Sightings\<close>

definition name_is_missing :: "string option \<Rightarrow> string \<Rightarrow> bool" where
  "name_is_missing name address =
     (case name of None \<Rightarrow> True | Some n \<Rightarrow> n = [] \<or> ascii_lower n = ascii_lower address)"

definition record_fresh_sighting ::
    "(string \<Rightarrow> string) \<Rightarrow> profile_registry \<Rightarrow> service_info \<Rightarrow> (unit, sightings \<times> identity_cache) st" where
  "record_fresh_sighting format_mac reg info s =
     (case s of (seen, ids) \<Rightarrow>
        if \<not> si_connectable info then (Inr (), (seen, ids))
        else
          (case remember_identity format_mac reg (si_address info) (si_name info) ids of
             (Inl e, ids) \<Rightarrow> (Inl e, (seen, ids))
           | (Inr _, ids) \<Rightarrow>
               let key = format_mac (si_address info);
                   previous = map_of seen key;
                   sighting =
                     \<lparr>fs_address = si_address info,
                      fs_rssi = max (si_rssi info)
                        (case previous of Some p \<Rightarrow> fs_rssi p | None \<Rightarrow> si_rssi info),
                      fs_name_missing = name_is_missing (si_name info) (si_address info) \<or>
                        (case previous of Some p \<Rightarrow> fs_name_missing p | None \<Rightarrow> False)\<rparr>
               in (Inr (), (dict_set key sighting seen, ids))))"

text \<open>\<open>sorted\<close> is stable and compares the key tuples.\<close>

definition discovery_key :: "discovered_purifier \<Rightarrow> int \<times> string \<times> string" where
  "discovery_key d = (- dp_rssi d, dp_name d, dp_address d)"

definition sorted_discoveries :: "discovered_purifier list \<Rightarrow> discovered_purifier list" where
  "sorted_discoveries ds = sort_key discovery_key ds"

fun resolve_sightings ::
    "(string \<Rightarrow> string) \<Rightarrow> identity_cache \<Rightarrow> fresh_sighting list \<Rightarrow> discovered_purifier list \<times> bool" where
  "resolve_sightings format_mac ids [] = ([], False)"
| "resolve_sightings format_mac ids (s # ss) =
     (case resolve_sightings format_mac ids ss of
        (ds, unnamed) \<Rightarrow>
          (case map_of ids (format_mac (fs_address s)) of
             None \<Rightarrow> (ds, fs_name_missing s \<or> unnamed)
           | Some i \<Rightarrow>
               (\<lparr>dp_address = fs_address s, dp_name = pi_name i, dp_model = pi_model i,
                 dp_rssi = fs_rssi s\<rparr> # ds, unnamed)))"

definition resolve_discoveries ::
    "(string \<Rightarrow> string) \<Rightarrow> fresh_sighting list \<Rightarrow> identity_cache \<Rightarrow> discovery_result" where
  "resolve_discoveries format_mac seen ids =
     (case resolve_sightings format_mac ids seen of
        (ds, unnamed) \<Rightarrow> \<lparr>dr_purifiers = sorted_discoveries ds, dr_unnamed_seen = unnamed\<rparr>)"

text \<open>The labels of the form: the first device of the sorted list is near.\<close>

definition discovery_label :: "nat \<Rightarrow> discovered_purifier \<Rightarrow> string" where
  "discovery_label index d =
     dp_name d @ '' ('' @ (if index = 0 then ''Near'' else ''Far'') @ '')''"

definition discovery_options :: "discovered_purifier list \<Rightarrow> (string \<times> string) list" where
  "discovery_options ds =
     foldl (\<lambda>d (index, dev). dict_set (dp_address dev) (discovery_label index dev) d) []
       (zip [0..<length ds] ds)"

section \<open>The scan window\<close>

text \<open>What Home Assistant gives during one scan: its cache before, the device objects, what its callback
  reports while the scan runs, how the active scan ends, and its cache and device objects after it.\<close>

record scan_env =
  sc_started :: time
  sc_before :: "service_info list"
  sc_device_before :: "string \<Rightarrow> device_answer"
  sc_received :: "service_info list"
  sc_scan_raises :: "exn option"
  sc_after :: "service_info list"
  sc_device_after :: "string \<Rightarrow> device_answer"

fun seed_identities ::
    "(string \<Rightarrow> string) \<Rightarrow> profile_registry \<Rightarrow> (string \<Rightarrow> device_answer) \<Rightarrow> service_info list \<Rightarrow>
     (unit, identity_cache) st" where
  "seed_identities format_mac reg device [] ids = (Inr (), ids)"
| "seed_identities format_mac reg device (info # infos) ids =
     (if \<not> si_connectable info then seed_identities format_mac reg device infos ids
      else
        (case remember_identity format_mac reg (si_address info) (si_name info) ids of
           (Inl e, ids) \<Rightarrow> (Inl e, ids)
         | (Inr _, ids) \<Rightarrow>
             (case remember_device_identity format_mac reg device (si_address info) ids of
                (Inl e, ids) \<Rightarrow> (Inl e, ids)
              | (Inr _, ids) \<Rightarrow> seed_identities format_mac reg device infos ids)))"

text \<open>The callback: what it raises stays in Home Assistant.\<close>

definition advertisements_received ::
    "(string \<Rightarrow> string) \<Rightarrow> profile_registry \<Rightarrow> service_info list \<Rightarrow> sightings \<times> identity_cache \<Rightarrow>
     sightings \<times> identity_cache" where
  "advertisements_received format_mac reg infos s =
     foldl (\<lambda>s info. snd (record_fresh_sighting format_mac reg info s)) s infos"

fun record_cached ::
    "(string \<Rightarrow> string) \<Rightarrow> profile_registry \<Rightarrow> time \<Rightarrow> service_info list \<Rightarrow>
     (unit, sightings \<times> identity_cache) st" where
  "record_cached format_mac reg started [] s = (Inr (), s)"
| "record_cached format_mac reg started (info # infos) s =
     (case si_time info of
        None \<Rightarrow> record_cached format_mac reg started infos s
      | Some t \<Rightarrow>
          if t < started then record_cached format_mac reg started infos s
          else
            (case record_fresh_sighting format_mac reg info s of
               (Inl e, s) \<Rightarrow> (Inl e, s)
             | (Inr _, s) \<Rightarrow> record_cached format_mac reg started infos s))"

fun remember_devices ::
    "(string \<Rightarrow> string) \<Rightarrow> profile_registry \<Rightarrow> (string \<Rightarrow> device_answer) \<Rightarrow> fresh_sighting list \<Rightarrow>
     (unit, identity_cache) st" where
  "remember_devices format_mac reg device [] ids = (Inr (), ids)"
| "remember_devices format_mac reg device (s # ss) ids =
     (case remember_device_identity format_mac reg device (fs_address s) ids of
        (Inl e, ids) \<Rightarrow> (Inl e, ids)
      | (Inr _, ids) \<Rightarrow> remember_devices format_mac reg device ss ids)"

definition discover_purifiers ::
    "(string \<Rightarrow> string) \<Rightarrow> profile_registry \<Rightarrow> scan_env \<Rightarrow> (discovery_result, identity_cache) st" where
  "discover_purifiers format_mac reg env ids =
     (case seed_identities format_mac reg (sc_device_before env) (sc_before env) ids of
        (Inl e, ids) \<Rightarrow> (Inl e, ids)
      | (Inr _, ids) \<Rightarrow>
          (case advertisements_received format_mac reg (sc_received env) ([], ids) of
             (seen, ids) \<Rightarrow>
               if sc_scan_raises env = Some CancelledError then (Inl CancelledError, ids)
               else
                 (case record_cached format_mac reg (sc_started env) (sc_after env) (seen, ids) of
                    (Inl e, (seen, ids)) \<Rightarrow> (Inl e, ids)
                  | (Inr _, (seen, ids)) \<Rightarrow>
                      (case remember_devices format_mac reg (sc_device_after env) (map snd seen) ids of
                         (Inl e, ids) \<Rightarrow> (Inl e, ids)
                       | (Inr _, ids) \<Rightarrow>
                           (Inr (resolve_discoveries format_mac (map snd seen) ids), ids)))))"

section \<open>Waiting for the selected device\<close>

text \<open>One iteration: the time of the loop's test, whether the processing task has ended, the newest
  advertisement in the cache, and the time before the wait.\<close>

datatype process_state = Processing | ProcessFound service_info | ProcessRaised exn

record advertisement_poll =
  ap_now :: time
  ap_process :: process_state
  ap_cached :: "service_info option"
  ap_later :: time

definition SELECTED_DEVICE_ADVERTISEMENT_TIMEOUT :: time where
  "SELECTED_DEVICE_ADVERTISEMENT_TIMEOUT = 10"

definition is_fresh :: "time \<Rightarrow> service_info \<Rightarrow> bool" where
  "is_fresh started info \<longleftrightarrow> (case si_time info of Some t \<Rightarrow> started \<le> t | None \<Rightarrow> False)"

fun wait_for_selected :: "time \<Rightarrow> advertisement_poll list \<Rightarrow> service_info option progress" where
  "wait_for_selected started [] = Blocked"
| "wait_for_selected started (p # ps) =
     (let deadline = started + SELECTED_DEVICE_ADVERTISEMENT_TIMEOUT
      in if deadline \<le> ap_now p then Finished (Inr None)
         else
           (case ap_process p of
              ProcessFound info \<Rightarrow> Finished (Inr (Some info))
            | ProcessRaised e \<Rightarrow> if e = CancelledError then Finished (Inl e) else Finished (Inr None)
            | Processing \<Rightarrow>
                (case ap_cached p of
                   Some info \<Rightarrow>
                     if is_fresh started info then Finished (Inr (Some info))
                     else if deadline \<le> ap_later p then Finished (Inr None)
                     else wait_for_selected started ps
                 | None \<Rightarrow>
                     if deadline \<le> ap_later p then Finished (Inr None)
                     else wait_for_selected started ps)))"

section \<open>The identity cache\<close>

text \<open>Reference: the latest observation of every key, newest first.\<close>

fun latest_first :: "('k \<times> 'v) list \<Rightarrow> ('k \<times> 'v) list" where
  "latest_first [] = []"
| "latest_first (x # xs) = x # dict_pop (fst x) (latest_first xs)"

text \<open>The observations that carry a supported name, with the key and the identity they stand for.\<close>

definition supported_observation ::
    "(string \<Rightarrow> string) \<Rightarrow> profile_registry \<Rightarrow> string \<times> string option \<Rightarrow> (string \<times> purifier_identity) option" where
  "supported_observation format_mac reg ob =
     (case (model_from_name reg (snd ob), snd ob) of
        (Inr (Some m), Some n) \<Rightarrow> Some (format_mac (fst ob), \<lparr>pi_name = n, pi_model = m\<rparr>)
      | _ \<Rightarrow> None)"

definition remember_all ::
    "(string \<Rightarrow> string) \<Rightarrow> profile_registry \<Rightarrow> (string \<times> string option) list \<Rightarrow> identity_cache \<Rightarrow> identity_cache" where
  "remember_all format_mac reg obs ids =
     foldl (\<lambda>ids ob. snd (remember_identity format_mac reg (fst ob) (snd ob) ids)) ids obs"

lemma distinct_latest: "distinct (map fst (latest_first xs))"
  by (induction xs) (auto simp: dict_pop_def distinct_map_filter)

lemma dict_set_new: "k \<notin> fst ` set d \<Longrightarrow> dict_set k v d = d @ [(k, v)]"
  by (induction d) auto

lemma evict_oldest_drop: "evict_oldest d = drop (length d - (MAX_CACHED_IDENTITIES - 1)) d"
proof (induction d)
  case (Cons x d)
  show ?case
  proof (cases "MAX_CACHED_IDENTITIES \<le> length (x # d)")
    case True
    then have "length (x # d) - (MAX_CACHED_IDENTITIES - 1) = Suc (length d - (MAX_CACHED_IDENTITIES - 1))"
      by (simp add: MAX_CACHED_IDENTITIES_def)
    with True Cons show ?thesis by simp
  qed (simp add: MAX_CACHED_IDENTITIES_def)
qed simp

text \<open>Removing a key before or after cutting makes no difference as long as one place is left.\<close>

lemma take_pop:
  "distinct (map fst d) \<Longrightarrow> take n (dict_pop k (take (Suc n) d)) = take n (dict_pop k d)"
proof (induction d arbitrary: n)
  case (Cons x d)
  have same: "dict_pop k d = d" if "k \<notin> fst ` set d" using that by (force simp: dict_pop_def intro: filter_True)
  show ?case
  proof (cases "fst x = k")
    case True
    with Cons.prems have "k \<notin> fst ` set d" by auto
    moreover from this have "k \<notin> fst ` set (take n d)" by (meson image_mono set_take_subset subsetD)
    then have "dict_pop k (take n d) = take n d" by (force simp: dict_pop_def intro: filter_True)
    ultimately show ?thesis using True same by (simp add: dict_pop_def)
  next
    case False
    then show ?thesis using Cons by (cases n) (simp_all add: dict_pop_def)
  qed
qed simp

lemma store_identity_latest:
  assumes "distinct (map fst d)"
  shows "store_identity k i (rev (take MAX_CACHED_IDENTITIES d)) = rev (take MAX_CACHED_IDENTITIES ((k, i) # dict_pop k d))"
proof -
  let ?n = "MAX_CACHED_IDENTITIES - 1"
  have n: "MAX_CACHED_IDENTITIES = Suc ?n" by (simp add: MAX_CACHED_IDENTITIES_def)
  have pop: "dict_pop k (rev xs) = rev (dict_pop k xs)" for xs :: identity_cache by (simp add: dict_pop_def rev_filter)
  have "evict_oldest (dict_pop k (rev (take MAX_CACHED_IDENTITIES d))) = rev (take ?n (dict_pop k (take (Suc ?n) d)))"
    unfolding evict_oldest_drop pop n[symmetric] by (simp add: rev_take)
  also have "\<dots> = rev (take ?n (dict_pop k d))" by (simp only: take_pop[OF assms])
  finally have e: "evict_oldest (dict_pop k (rev (take MAX_CACHED_IDENTITIES d))) = rev (take ?n (dict_pop k d))" .
  have "k \<notin> fst ` set (take ?n (dict_pop k d))" by (auto simp: dict_pop_def dest: in_set_takeD)
  then have "store_identity k i (rev (take MAX_CACHED_IDENTITIES d)) = rev ((k, i) # take ?n (dict_pop k d))"
    unfolding store_identity_def e by (subst dict_set_new) simp_all
  also have "\<dots> = rev (take (Suc ?n) ((k, i) # dict_pop k d))" by simp
  finally show ?thesis unfolding n[symmetric] .
qed

text \<open>C40. The identity cache of the setup flow equals its reference, whatever was observed before: it
  holds exactly the latest supported name of each of the 256 addresses seen most recently, the newest last.\<close>

theorem identity_cache_is_most_recent:
  "remember_all format_mac reg obs [] =
   rev (take MAX_CACHED_IDENTITIES (latest_first (rev (List.map_filter (supported_observation format_mac reg) obs))))"
proof (induction obs rule: rev_induct)
  case Nil
  then show ?case by (simp add: remember_all_def List.map_filter_def)
next
  case (snoc ob obs)
  let ?xs = "List.map_filter (supported_observation format_mac reg) obs"
  have step: "snd (remember_identity format_mac reg (fst ob) (snd ob) ids) =
      (case supported_observation format_mac reg ob of Some (k, i) \<Rightarrow> store_identity k i ids | None \<Rightarrow> ids)" for ids
    by (auto simp: remember_identity_def supported_observation_def Let_def split: sum.split option.split)
  have run: "remember_all format_mac reg (obs @ [ob]) [] =
      snd (remember_identity format_mac reg (fst ob) (snd ob) (remember_all format_mac reg obs []))"
    by (simp add: remember_all_def)
  have "remember_all format_mac reg (obs @ [ob]) [] =
      (case supported_observation format_mac reg ob of
         Some (k, i) \<Rightarrow> store_identity k i (remember_all format_mac reg obs [])
       | None \<Rightarrow> remember_all format_mac reg obs [])"
    unfolding run step ..
  with snoc.IH store_identity_latest[OF distinct_latest] show ?case
    by (cases "supported_observation format_mac reg ob") (auto simp: List.map_filter_def)
qed

section \<open>The result of a scan\<close>

text \<open>An advertisement that proves the device reachable during this scan.\<close>

definition scan_evidence :: "scan_env \<Rightarrow> service_info \<Rightarrow> bool" where
  "scan_evidence env info \<longleftrightarrow> si_connectable info \<and>
     (info \<in> set (sc_received env) \<or> info \<in> set (sc_after env) \<and> is_fresh (sc_started env) info)"

text \<open>Every sighting is under the key of its address, with the address of one piece of evidence and the
  signal of another one of the same device.\<close>

definition sightings_ok :: "(string \<Rightarrow> string) \<Rightarrow> (service_info \<Rightarrow> bool) \<Rightarrow> sightings \<Rightarrow> bool" where
  "sightings_ok format_mac good seen \<longleftrightarrow> (\<forall>(key, s) \<in> set seen. format_mac (fs_address s) = key \<and>
     (\<exists>info. good info \<and> si_address info = fs_address s) \<and>
     (\<exists>info. good info \<and> format_mac (si_address info) = key \<and> si_rssi info = fs_rssi s))"

lemma set_dict_set: "set (dict_set k v d) \<subseteq> insert (k, v) (set d)"
  by (induction d) auto

lemma sightings_ok_insert:
  assumes "sightings_ok format_mac good seen" "format_mac (fs_address s) = key"
    "\<exists>info. good info \<and> si_address info = fs_address s"
    "\<exists>info. good info \<and> format_mac (si_address info) = key \<and> si_rssi info = fs_rssi s"
  shows "sightings_ok format_mac good (dict_set key s seen)"
  unfolding sightings_ok_def
proof (rule ballI)
  fix x
  assume "x \<in> set (dict_set key s seen)"
  then have "x = (key, s) \<or> x \<in> set seen" using set_dict_set by fastforce
  then show "case x of (key, s) \<Rightarrow> format_mac (fs_address s) = key \<and>
      (\<exists>info. good info \<and> si_address info = fs_address s) \<and>
      (\<exists>info. good info \<and> format_mac (si_address info) = key \<and> si_rssi info = fs_rssi s)"
    using assms unfolding sightings_ok_def by blast
qed

lemma record_sighting_ok:
  assumes "sightings_ok format_mac good seen" "si_connectable info \<Longrightarrow> good info"
  shows "sightings_ok format_mac good (fst (snd (record_fresh_sighting format_mac reg info (seen, ids))))"
proof (cases "si_connectable info")
  case True
  obtain r ids' where m: "remember_identity format_mac reg (si_address info) (si_name info) ids = (r, ids')" by fastforce
  show ?thesis
  proof (cases r)
    case (Inr i)
    let ?key = "format_mac (si_address info)"
    let ?s = "\<lparr>fs_address = si_address info,
        fs_rssi = max (si_rssi info) (case map_of seen ?key of Some p \<Rightarrow> fs_rssi p | None \<Rightarrow> si_rssi info),
        fs_name_missing = name_is_missing (si_name info) (si_address info) \<or>
          (case map_of seen ?key of Some p \<Rightarrow> fs_name_missing p | None \<Rightarrow> False)\<rparr>"
    have rssi: "\<exists>x. good x \<and> format_mac (si_address x) = ?key \<and> si_rssi x = fs_rssi ?s"
    proof (cases "map_of seen ?key")
      case (Some p)
      then have "(?key, p) \<in> set seen" by (rule map_of_SomeD)
      with assms(1) obtain x where "good x" "format_mac (si_address x) = ?key" "si_rssi x = fs_rssi p"
        by (fastforce simp: sightings_ok_def)
      with Some assms(2)[OF True] show ?thesis by (simp add: max_def) blast
    qed (use assms(2)[OF True] in auto)
    have seen: "fst (snd (record_fresh_sighting format_mac reg info (seen, ids))) = dict_set ?key ?s seen"
      using True m Inr by (simp add: record_fresh_sighting_def Let_def)
    have "fs_address ?s = si_address info" by simp
    with rssi assms(2)[OF True] show ?thesis
      unfolding seen by (intro sightings_ok_insert[OF assms(1)]) auto
  qed (use True m assms in \<open>simp add: record_fresh_sighting_def\<close>)
qed (use assms in \<open>simp add: record_fresh_sighting_def\<close>)

lemma received_ok:
  assumes "\<And>info. info \<in> set infos \<Longrightarrow> si_connectable info \<Longrightarrow> good info" "sightings_ok format_mac good (fst s)"
  shows "sightings_ok format_mac good (fst (advertisements_received format_mac reg infos s))"
  using assms unfolding advertisements_received_def
proof (induction infos arbitrary: s)
  case (Cons info infos)
  have "sightings_ok format_mac good (fst (snd (record_fresh_sighting format_mac reg info s)))"
    using record_sighting_ok[of format_mac good "fst s" info reg "snd s"] Cons.prems by simp
  with Cons show ?case by simp
qed simp

lemma record_cached_ok:
  assumes "\<And>info. info \<in> set infos \<Longrightarrow> si_connectable info \<Longrightarrow> is_fresh started info \<Longrightarrow> good info"
    "sightings_ok format_mac good (fst s)"
  shows "sightings_ok format_mac good (fst (snd (record_cached format_mac reg started infos s)))"
  using assms
proof (induction infos arbitrary: s)
  case (Cons info infos)
  show ?case
  proof (cases "is_fresh started info")
    case True
    obtain r s' where r: "record_fresh_sighting format_mac reg info s = (r, s')" by (rule prod.exhaust)
    have "sightings_ok format_mac good (fst (snd (record_fresh_sighting format_mac reg info s)))"
      using record_sighting_ok[of format_mac good "fst s" info reg "snd s"] Cons.prems True by simp
    with r have ok: "sightings_ok format_mac good (fst s')" by simp
    have "sightings_ok format_mac good (fst (snd (record_cached format_mac reg started infos s')))"
      by (rule Cons.IH) (use Cons.prems ok in auto)
    with True r ok show ?thesis by (auto simp: is_fresh_def split: option.splits sum.split)
  next
    case False
    have "sightings_ok format_mac good (fst (snd (record_cached format_mac reg started infos s)))"
      by (rule Cons.IH) (use Cons.prems in auto)
    with False show ?thesis by (auto simp: is_fresh_def split: option.splits)
  qed
qed simp

lemma resolve_sound:
  "d \<in> set (fst (resolve_sightings format_mac ids ss)) \<Longrightarrow>
   \<exists>s i. s \<in> set ss \<and> map_of ids (format_mac (fs_address s)) = Some i \<and> dp_address d = fs_address s \<and>
     dp_rssi d = fs_rssi s \<and> dp_name d = pi_name i \<and> dp_model d = pi_model i"
  by (induction ss) (auto split: prod.splits option.splits)

text \<open>C39. A scan lists only purifiers that were reachable during this scan and whose name is known, the
  strongest signal first: each one was seen in a connectable advertisement that was received while the scan
  ran or is dated after its start, with a signal that such an advertisement of the same device had, and
  carries the name and the model the identity cache has for it.\<close>

theorem scan_lists_fresh_known_purifiers:
  assumes "discover_purifiers format_mac reg env ids = (Inr r, ids')" "d \<in> set (dr_purifiers r)"
  shows "(\<exists>info. scan_evidence env info \<and> si_address info = dp_address d) \<and>
    (\<exists>info. scan_evidence env info \<and> format_mac (si_address info) = format_mac (dp_address d) \<and> si_rssi info = dp_rssi d) \<and>
    map_of ids' (format_mac (dp_address d)) = Some \<lparr>pi_name = dp_name d, pi_model = dp_model d\<rparr> \<and>
    sorted (map discovery_key (dr_purifiers r))"
proof -
  from assms(1) obtain ids1 seen2 ids2 seen3 ids3 where
    rec: "advertisements_received format_mac reg (sc_received env) ([], ids1) = (seen2, ids2)"
    and cached: "record_cached format_mac reg (sc_started env) (sc_after env) (seen2, ids2) = (Inr (), (seen3, ids3))"
    and r: "r = resolve_discoveries format_mac (map snd seen3) ids'"
    by (auto simp: discover_purifiers_def split: prod.splits sum.splits if_splits)
  have "sightings_ok format_mac (scan_evidence env) (fst (advertisements_received format_mac reg (sc_received env) ([], ids1)))"
    by (rule received_ok) (auto simp: scan_evidence_def sightings_ok_def)
  with rec have "sightings_ok format_mac (scan_evidence env) (fst (seen2, ids2))" by simp
  from record_cached_ok[OF _ this, of "sc_after env" "sc_started env" reg] cached
  have ok: "sightings_ok format_mac (scan_evidence env) seen3" by (auto simp: scan_evidence_def)
  from assms(2) r obtain key s i where s: "(key, s) \<in> set seen3" "map_of ids' (format_mac (fs_address s)) = Some i"
    "dp_address d = fs_address s" "dp_rssi d = fs_rssi s" "dp_name d = pi_name i" "dp_model d = pi_model i"
    using resolve_sound[of d format_mac ids' "map snd seen3"]
    by (auto simp: resolve_discoveries_def sorted_discoveries_def split: prod.splits)
  from r have "sorted (map discovery_key (dr_purifiers r))"
    by (simp add: resolve_discoveries_def sorted_discoveries_def split: prod.split)
  with s ok show ?thesis by (fastforce simp: sightings_ok_def)
qed

text \<open>Only a fresh advertisement confirms the selected device, as long as Home Assistant hands back an
  advertisement its filter accepted.\<close>

lemma selected_is_fresh:
  "wait_for_selected started ps = Finished (Inr (Some info)) \<Longrightarrow>
   (\<And>p x. p \<in> set ps \<Longrightarrow> ap_process p = ProcessFound x \<Longrightarrow> is_fresh started x) \<Longrightarrow> is_fresh started info"
proof (induction ps)
  case (Cons p ps)
  from Cons.prems(1) show ?case
    by (auto simp: Let_def split: if_splits process_state.splits option.splits intro: Cons.prems(2) Cons.IH
        dest!: Cons.IH[OF _ Cons.prems(2)])
qed simp

end
