(* ===== verification/Config_Flow.thy ===== *)
theory Config_Flow
  imports Entry_Setup Discovery
begin

text \<open>
  The config flow and the options flow (\<open>config_flow.py\<close>, \<open>setup_validation.py\<close>): choosing a discovered
  purifier, validating it, and editing the Custom Auto options.  A step returns what Home Assistant shows
  or stores; the scan, the advertisement of the selected device and the registries are given by its
  environment.
\<close>

section \<open>Forms\<close>

definition BOUNDARY_FIELDS :: "string list" where
  "BOUNDARY_FIELDS = [''pm25_boundary_sleep_low'', ''pm25_boundary_low_medium'', ''pm25_boundary_medium_high'',
     ''pm25_boundary_high_turbo'']"

definition DOWNSHIFT_FIELDS :: "string list" where
  "DOWNSHIFT_FIELDS = [''downshift_low_sleep_minutes'', ''downshift_medium_low_minutes'',
     ''downshift_high_medium_minutes'', ''downshift_turbo_high_minutes'']"

definition whole_number :: "json \<Rightarrow> json" where
  "whole_number v = (case v of JFloat x \<Rightarrow> if of_int \<lfloor>x\<rfloor> = x then JInt \<lfloor>x\<rfloor> else v | _ \<Rightarrow> v)"

text \<open>The defaults of the settings form, by field.\<close>

definition settings_schema :: "custom_auto_options \<Rightarrow> (string \<times> int) list" where
  "settings_schema opts =
     zip BOUNDARY_FIELDS (ao_pm25_boundaries opts) @
     [(CONF_CUSTOM_AUTO_UPSHIFT_CONFIRMATION_SECONDS, ao_upshift_seconds opts)] @
     zip DOWNSHIFT_FIELDS (ao_downshift_minutes opts)"

definition input_field :: "jobject \<Rightarrow> string \<Rightarrow> json res" where
  "input_field d k = (case map_of d k of Some v \<Rightarrow> Inr v | None \<Rightarrow> Inl KeyError)"

definition normalize_settings :: "jobject \<Rightarrow> jobject res" where
  "normalize_settings user_input =
     res_bind (res_map_list (input_field user_input) BOUNDARY_FIELDS) (\<lambda>boundaries.
     res_bind (input_field user_input CONF_CUSTOM_AUTO_UPSHIFT_CONFIRMATION_SECONDS) (\<lambda>upshift.
     res_bind (res_map_list (input_field user_input) DOWNSHIFT_FIELDS) (\<lambda>downshifts.
       Inr [(CONF_CUSTOM_AUTO_ENABLED, JBool True),
            (CONF_CUSTOM_AUTO_PM25_BOUNDARIES, JArray boundaries),
            (CONF_CUSTOM_AUTO_UPSHIFT_CONFIRMATION_SECONDS, upshift),
            (CONF_CUSTOM_AUTO_DOWNSHIFT_DELAYS_MINUTES, JArray downshifts)])))"

fun settings_error :: "options_fault \<Rightarrow> string" where
  "settings_error OptNotAscending = ''boundaries_not_ascending''"
| "settings_error OptNotInteger = ''invalid_integer''"
| "settings_error OptOutOfRange = ''value_out_of_range''"
| "settings_error _ = ''invalid_custom_auto_settings''"

definition DISABLED_OPTIONS :: jobject where
  "DISABLED_OPTIONS = [(CONF_CUSTOM_AUTO_ENABLED, JBool False)]"

definition enables :: "jobject \<Rightarrow> bool" where
  "enables user_input \<longleftrightarrow> jget_default user_input CONF_CUSTOM_AUTO_ENABLED (JBool False) = JBool True"

definition UNSUPPORTED_MODELS :: "string list" where
  "UNSUPPORTED_MODELS = [''H7123'', ''H712C'']"

text \<open>What a step gives; the form of a step shows at most one error.\<close>

datatype flow_result =
    ShowForm string "string option"
  | Abort string
  | CreateEntry string "string \<times> string" jobject
  | SaveOptions jobject

section \<open>Validation\<close>

text \<open>The temporary coordinator is shut down however its start and its wait end.\<close>

definition validate_purifier :: "time \<Rightarrow> unit co" where
  "validate_purifier now =
     co_finally (co_then (coordinator_start now) coordinator_wait_until_ready) (\<lambda>ok. coordinator_shutdown)"

section \<open>The config flow\<close>

record config_flow =
  cf_discoveries :: "discovered_purifier list option"
  cf_unnamed_seen :: bool
  cf_registry :: "profile_registry option"
  cf_title :: "string option"
  cf_data :: "(string \<times> string) option"
  cf_validated :: "(string \<times> string) list"

definition new_config_flow :: config_flow where
  "new_config_flow = \<lparr>cf_discoveries = None, cf_unnamed_seen = False, cf_registry = None, cf_title = None,
     cf_data = None, cf_validated = []\<rparr>"

text \<open>The environment of a step: \<open>fl_validates\<close> is the outcome of validating the device, logged with its
  address and model in \<open>cf_validated\<close> when it returns.\<close>

record flow_env =
  fl_registry :: "profile_registry res"
  fl_configured :: "string list"
  fl_scan :: "discovery_result res"
  fl_selected :: "service_info option res"
  fl_configured_now :: "string list"
  fl_validates :: "unit res"

definition load_services :: "flow_env \<Rightarrow> (bool, config_flow) st" where
  "load_services env f =
     (if cf_registry f \<noteq> None then (Inr True, f)
      else case fl_registry env of
             Inr reg \<Rightarrow> (Inr True, f\<lparr>cf_registry := Some reg\<rparr>)
           | Inl e \<Rightarrow> (if is_profile_error e then Inr False else Inl e, f))"

definition create_pending_entry :: "jobject \<Rightarrow> (flow_result, config_flow) st" where
  "create_pending_entry options f =
     (case (cf_title f, cf_data f) of
        (Some title, Some data) \<Rightarrow> (Inr (CreateEntry title data options), f)
      | _ \<Rightarrow> (Inl AssertionError, f))"

definition scan_devices :: "(string \<Rightarrow> string) \<Rightarrow> flow_env \<Rightarrow> (unit, config_flow) st" where
  "scan_devices format_mac env f =
     (case fl_scan env of
        Inl e \<Rightarrow> (Inl e, f)
      | Inr r \<Rightarrow>
          (Inr (), f\<lparr>cf_discoveries := Some (filter (\<lambda>d. format_mac (dp_address d) \<notin> set (fl_configured env))
                                              (dr_purifiers r)),
                    cf_unnamed_seen := dr_unnamed_seen r\<rparr>))"

text \<open>The identity setup goes on with, from the fresh advertisement when it carries a supported name.\<close>

definition confirm_identity ::
    "profile_registry \<Rightarrow> discovered_purifier \<Rightarrow> service_info option \<Rightarrow> discovered_purifier option res" where
  "confirm_identity reg d selected =
     (case selected of
        None \<Rightarrow> Inr None
      | Some info \<Rightarrow>
          res_bind (model_from_name reg (si_name info)) (\<lambda>fresh. case fresh of
             None \<Rightarrow> Inr (Some d)
           | Some m \<Rightarrow>
               if m \<noteq> dp_model d then Inr None
               else Inr (Some \<lparr>dp_address = dp_address d,
                               dp_name = (case si_name info of Some n \<Rightarrow> n | None \<Rightarrow> []),
                               dp_model = m, dp_rssi = si_rssi info\<rparr>)))"

definition validate_selected ::
    "(string \<Rightarrow> string) \<Rightarrow> flow_env \<Rightarrow> discovered_purifier \<Rightarrow> (flow_result, config_flow) st" where
  "validate_selected format_mac env d f =
     (if format_mac (dp_address d) \<in> set (fl_configured_now env) then (Inr (Abort ''already_configured''), f)
      else case fl_validates env of
             Inl e \<Rightarrow> (if e = BluetoothUnavailableError then Inr (ShowForm ''user'' (Some ''cannot_connect'')) else Inl e, f)
           | Inr _ \<Rightarrow>
               let f = f\<lparr>cf_validated := cf_validated f @ [(dp_address d, dp_model d)],
                         cf_title := Some (dp_name d), cf_data := Some (dp_address d, dp_model d)\<rparr>
               in if dp_model d \<in> set UNSUPPORTED_MODELS then create_pending_entry DISABLED_OPTIONS f
                  else (Inr (ShowForm ''enable_custom_auto'' None), f))"

definition choose_device ::
    "(string \<Rightarrow> string) \<Rightarrow> flow_env \<Rightarrow> profile_registry \<Rightarrow> discovered_purifier list \<Rightarrow> string \<Rightarrow>
     (flow_result, config_flow) st" where
  "choose_device format_mac env reg discoveries address f =
     (case find (\<lambda>d. dp_address d = address) discoveries of
        None \<Rightarrow> (Inr (ShowForm ''user'' (Some ''not_discovered'')), f)
      | Some d \<Rightarrow>
          (case res_bind (fl_selected env) (confirm_identity reg d) of
             Inl e \<Rightarrow> (Inl e, f)
           | Inr None \<Rightarrow> (Inr (ShowForm ''user'' (Some ''not_discovered'')), f)
           | Inr (Some d) \<Rightarrow> validate_selected format_mac env d f))"

definition after_scan ::
    "(string \<Rightarrow> string) \<Rightarrow> flow_env \<Rightarrow> string option \<Rightarrow> (flow_result, config_flow) st" where
  "after_scan format_mac env chosen f =
     (let discoveries = (case cf_discoveries f of Some ds \<Rightarrow> ds | None \<Rightarrow> [])
      in if discoveries = [] then
           (Inr (Abort (if cf_unnamed_seen f then ''devices_seen_without_supported_name'' else ''no_devices_found'')), f)
         else case (chosen, cf_registry f) of
                (Some address, Some reg) \<Rightarrow> choose_device format_mac env reg discoveries address f
              | _ \<Rightarrow> (Inr (ShowForm ''user'' None), f))"

definition step_user :: "(string \<Rightarrow> string) \<Rightarrow> flow_env \<Rightarrow> string option \<Rightarrow> (flow_result, config_flow) st" where
  "step_user format_mac env chosen f =
     (case load_services env f of
        (Inl e, f) \<Rightarrow> (Inl e, f)
      | (Inr loaded, f) \<Rightarrow>
          if \<not> loaded then (Inr (Abort ''model_profile_invalid''), f)
          else if chosen \<noteq> None then after_scan format_mac env chosen f
          else (case scan_devices format_mac env f of
                  (Inl e, f) \<Rightarrow> (Inl e, f)
                | (Inr _, f) \<Rightarrow> after_scan format_mac env chosen f))"

definition step_custom_auto_settings :: "jobject option \<Rightarrow> (flow_result, config_flow) st" where
  "step_custom_auto_settings user_input f =
     (case (cf_data f, cf_registry f) of
        (Some (address, model), Some reg) \<Rightarrow>
          (case for_model reg model of
             Inl e \<Rightarrow> (Inl e, f)
           | Inr p \<Rightarrow>
               (case parse_custom_auto_options [(CONF_CUSTOM_AUTO_ENABLED, JBool True)] (custom_auto_defaults p) of
                  Inl e \<Rightarrow> (Inl e, f)
                | Inr effective \<Rightarrow>
                    (case user_input of
                       None \<Rightarrow> (Inr (ShowForm ''custom_auto_settings'' None), f)
                     | Some input \<Rightarrow>
                         (case normalize_settings input of
                            Inl e \<Rightarrow> (Inl e, f)
                          | Inr normalized \<Rightarrow>
                              (case parse_custom_auto_options normalized (custom_auto_defaults p) of
                                 Inl (CustomAutoOptionsError fault) \<Rightarrow>
                                   (Inr (ShowForm ''custom_auto_settings'' (Some (settings_error fault))), f)
                               | Inl e \<Rightarrow> (Inl e, f)
                               | Inr opts \<Rightarrow> create_pending_entry normalized f)))))
      | _ \<Rightarrow> (Inl AssertionError, f))"

definition step_enable_custom_auto :: "jobject option \<Rightarrow> (flow_result, config_flow) st" where
  "step_enable_custom_auto user_input f =
     (case user_input of
        None \<Rightarrow> (Inr (ShowForm ''enable_custom_auto'' None), f)
      | Some input \<Rightarrow>
          if enables input then step_custom_auto_settings None f else create_pending_entry DISABLED_OPTIONS f)"

text \<open>What Home Assistant calls: a step that asks for input is called again with it.\<close>

datatype flow_call =
    CallUser flow_env "string option"
  | CallEnable "jobject option"
  | CallSettings "jobject option"

fun flow_step :: "(string \<Rightarrow> string) \<Rightarrow> flow_call \<Rightarrow> (flow_result, config_flow) st" where
  "flow_step format_mac (CallUser env chosen) = step_user format_mac env chosen"
| "flow_step format_mac (CallEnable user_input) = step_enable_custom_auto user_input"
| "flow_step format_mac (CallSettings user_input) = step_custom_auto_settings user_input"

definition run_flow :: "(string \<Rightarrow> string) \<Rightarrow> flow_call list \<Rightarrow> config_flow" where
  "run_flow format_mac xs = foldl (\<lambda>f x. snd (flow_step format_mac x f)) new_config_flow xs"

section \<open>The options flow\<close>

datatype entry_status = EntryLoaded | EntrySetupError | EntryOther

record options_entry =
  oe_status :: entry_status
  oe_model :: string
  oe_options :: jobject
  oe_coordinator :: coordinator
  oe_stored :: "json option"
  oe_reload_pending :: bool

record options_env =
  ov_registry :: "profile_registry res"
  ov_awaits :: "await_env list"
  ov_core :: core_state
  ov_write :: write_io
  ov_load :: load_io

text \<open>Equality of option values, where a number equals a number of another type.\<close>

fun number_value :: "json \<Rightarrow> rat option" where
  "number_value (JInt n) = Some (of_int n)"
| "number_value (JFloat x) = Some x"
| "number_value (JBool b) = Some (if b then 1 else 0)"
| "number_value _ = None"

definition scalar_equal :: "json \<Rightarrow> json \<Rightarrow> bool" where
  "scalar_equal x y \<longleftrightarrow> (case (number_value x, number_value y) of
     (Some a, Some b) \<Rightarrow> a = b | (None, None) \<Rightarrow> x = y | _ \<Rightarrow> False)"

fun option_equal :: "json \<Rightarrow> json \<Rightarrow> bool" where
  "option_equal (JArray xs) (JArray ys) = list_all2 scalar_equal xs ys"
| "option_equal x y = scalar_equal x y"

definition same_options :: "jobject \<Rightarrow> jobject \<Rightarrow> bool" where
  "same_options a b \<longleftrightarrow> set (map fst a) = set (map fst b) \<and>
     list_all (\<lambda>k. case (map_of a k, map_of b k) of (Some x, Some y) \<Rightarrow> option_equal x y | _ \<Rightarrow> False) (map fst a)"

definition handoff_active :: "bool \<Rightarrow> bool co" where
  "handoff_active disabling =
     co_get (\<lambda>c.
       if co_controller c = None then co_return True
       else if \<not> disabling \<and> \<not> controller_active c then co_return True
       else co_except
              (if disabling then co_then disable_and_clear (co_return True)
               else co_bind quiesce_custom_auto (\<lambda>_. co_return True))
              (\<lambda>e. co_then
                 (co_except (if disabling then co_return () else rearm_after_quiesce) (\<lambda>e. co_return ()))
                 (co_return False)))"

definition handoff_active_controller :: "options_env \<Rightarrow> bool \<Rightarrow> options_entry \<Rightarrow> bool progress \<times> options_entry" where
  "handoff_active_controller env disabling s =
     (if oe_status s \<noteq> EntryLoaded then (Finished (Inr True), s)
      else case handoff_active disabling True (ov_awaits env) (oe_coordinator s) of
             (p, _, c) \<Rightarrow> (p, s\<lparr>oe_coordinator := c\<rparr>))"

definition clear_unloaded_transition :: "options_env \<Rightarrow> bool \<Rightarrow> options_entry \<Rightarrow> bool res \<times> options_entry" where
  "clear_unloaded_transition env enabling s =
     (if oe_status s = EntryLoaded then (Inr True, s)
      else if (jget (oe_options s) CONF_CUSTOM_AUTO_ENABLED = JBool True) = enabling then (Inr True, s)
      else case clear (ov_core env) (ov_write env) (ov_load env) False (oe_stored s) of
             (Inr _, stored) \<Rightarrow> (Inr True, s\<lparr>oe_stored := stored\<rparr>)
           | (Inl e, stored) \<Rightarrow> (if e = CancelledError then Inl e else Inr False, s\<lparr>oe_stored := stored\<rparr>))"

definition install_repair_listener :: "options_entry \<Rightarrow> options_entry" where
  "install_repair_listener s = (if oe_status s = EntrySetupError then s\<lparr>oe_reload_pending := True\<rparr> else s)"

definition effective_options :: "options_env \<Rightarrow> options_entry \<Rightarrow> (custom_auto_options \<times> bool \<times> device_profile) res" where
  "effective_options env s =
     res_bind (ov_registry env) (\<lambda>reg. res_bind (for_model reg (oe_model s)) (\<lambda>p.
       case parse_custom_auto_options (oe_options s) (custom_auto_defaults p) of
         Inr opts \<Rightarrow> Inr (opts, False, p)
       | Inl (CustomAutoOptionsError fault) \<Rightarrow>
           res_bind (parse_custom_auto_options [] (custom_auto_defaults p)) (\<lambda>opts. Inr (opts, True, p))
       | Inl e \<Rightarrow> Inl e))"

text \<open>Handing off, clearing and saving, in this order; each failure shows the form again.\<close>

definition commit_options ::
    "options_env \<Rightarrow> string \<Rightarrow> bool \<Rightarrow> bool \<Rightarrow> jobject \<Rightarrow> options_entry \<Rightarrow> flow_result progress \<times> options_entry" where
  "commit_options env form disabling enabling options s =
     (let failed = ShowForm form (Some ''custom_auto_handoff_failed'')
      in case handoff_active_controller env disabling s of
           (Blocked, s) \<Rightarrow> (Blocked, s)
         | (Finished (Inl e), s) \<Rightarrow> (Finished (Inl e), s)
         | (Finished (Inr ok), s) \<Rightarrow>
             if \<not> ok then (Finished (Inr failed), s)
             else case clear_unloaded_transition env enabling s of
                    (Inl e, s) \<Rightarrow> (Finished (Inl e), s)
                  | (Inr ok, s) \<Rightarrow>
                      if \<not> ok then (Finished (Inr failed), s)
                      else (Finished (Inr (SaveOptions options)), install_repair_listener s))"

definition options_settings :: "options_env \<Rightarrow> jobject option \<Rightarrow> options_entry \<Rightarrow> flow_result progress \<times> options_entry" where
  "options_settings env user_input s =
     (if oe_model s \<in> set UNSUPPORTED_MODELS then (Finished (Inr (Abort ''custom_auto_not_supported'')), s)
      else case effective_options env s of
             Inl e \<Rightarrow> (Finished (Inl e), s)
           | Inr (effective, invalid, p) \<Rightarrow>
               (case user_input of
                  None \<Rightarrow> (Finished (Inr (ShowForm ''custom_auto_settings''
                            (if invalid then Some ''stored_options_invalid'' else None))), s)
                | Some input \<Rightarrow>
                    (case normalize_settings input of
                       Inl e \<Rightarrow> (Finished (Inl e), s)
                     | Inr normalized \<Rightarrow>
                         (case parse_custom_auto_options normalized (custom_auto_defaults p) of
                            Inl (CustomAutoOptionsError fault) \<Rightarrow>
                              (Finished (Inr (ShowForm ''custom_auto_settings'' (Some (settings_error fault)))), s)
                          | Inl e \<Rightarrow> (Finished (Inl e), s)
                          | Inr replacement \<Rightarrow>
                              if same_options normalized (oe_options s)
                              then (Finished (Inr (SaveOptions normalized)), s)
                              else commit_options env ''custom_auto_settings'' False True normalized s))))"

definition options_init :: "options_env \<Rightarrow> jobject option \<Rightarrow> options_entry \<Rightarrow> flow_result progress \<times> options_entry" where
  "options_init env user_input s =
     (if oe_model s \<in> set UNSUPPORTED_MODELS then (Finished (Inr (Abort ''custom_auto_not_supported'')), s)
      else case effective_options env s of
             Inl e \<Rightarrow> (Finished (Inl e), s)
           | Inr (effective, invalid, p) \<Rightarrow>
               (case user_input of
                  None \<Rightarrow> (Finished (Inr (ShowForm ''init'' (if invalid then Some ''stored_options_invalid'' else None))), s)
                | Some input \<Rightarrow>
                    if enables input then options_settings env None s
                    else if same_options DISABLED_OPTIONS (oe_options s)
                    then (Finished (Inr (SaveOptions DISABLED_OPTIONS)), s)
                    else commit_options env ''init'' True False DISABLED_OPTIONS s))"

section \<open>Handing off before options are stored\<close>

definition running :: "bool \<Rightarrow> coordinator \<Rightarrow> bool" where
  "running m c \<longleftrightarrow> well_tended m c \<and> co_started c \<and> \<not> co_shutdown c"

abbreviation anything :: "coordinator \<Rightarrow> bool" where
  "anything \<equiv> \<lambda>_. True"

lemma quiesce_spec:
  "co_spec (well_tended m) quiesce_custom_auto (\<lambda>_ c. \<not> controller_active c) (\<lambda>_. anything) anything"
proof (rule co_specI)
  fix k env c
  assume c: "well_tended m c"
  let ?P = "\<lambda>x. controls_known x \<and> co_memory x = m \<and> sent x = sent c"
  have P: "stable ?P" by (intro stable_conj stable_controls_known framed_stable framed_memory framed_sent)
  have drain: "co_spec ?P (complete_despite_cancellation (deactivate_and_handoff False))
      (\<lambda>_ x. \<not> controller_active x) (\<lambda>_. anything) anything"
    by (rule spec_shield[OF spec_mono[OF deactivate_and_handoff_spec[of m "sent c" False]]])
      (auto simp: handed_def dest: yielded_inactive)
  have "co_spec ?P (co_get (\<lambda>c. co_then (complete_despite_cancellation (deactivate_and_handoff False))
      (co_return (controller_active c)))) (\<lambda>_ x. \<not> controller_active x) (\<lambda>_. anything) anything"
    by (rule spec_get_any, rule spec_bind[OF drain], rule spec_return)
  from co_specD[OF spec_lock[OF P this], of c k env] c
  show "outcome_ok (\<lambda>_ x. \<not> controller_active x) (\<lambda>_. anything) anything (quiesce_custom_auto k env c)"
    by (cases "co_controller c") (simp_all add: quiesce_custom_auto_def co_get_def co_return_def controller_active_def
        well_tended_def)
qed

lemma disable_spec:
  "co_spec (running m) disable_and_clear (\<lambda>_ c. \<not> controller_active c) (\<lambda>_. anything) anything"
proof -
  let ?D = "demanded m True"
  have drained: "drained m True c \<Longrightarrow> \<not> controller_active c" for c
    using yielded_inactive[of c] by (auto simp: drained_def controller_active_def split: option.splits)
  have begins: "co_spec (running m) (co_modify disable_begins) (\<lambda>_. ?D) (\<lambda>_. anything) anything"
  proof (rule spec_modify)
    fix c
    assume "running m c"
    then show "?D (disable_begins c)"
      using tended.disabling[of m c] by (simp add: running_def demanded_def) (simp add: disable_begins_def)
  qed
  have served: "co_spec (drained m True) (co_then (serve_cleanup g) (co_modify (\<lambda>c. if g = co_cleanup_generation c
      then c\<lparr>co_cleanup_required := False\<rparr> else c))) (\<lambda>_ c. \<not> controller_active c) (\<lambda>_. anything) anything" for g
    unfolding serve_cleanup_def
    by (rule spec_bind[OF spec_modify spec_modify]) (auto simp: drained dest: drained)
  have "co_spec ?D (co_then registry_cleanup_transaction (co_then (serve_cleanup g) (co_modify (\<lambda>c.
      if g = co_cleanup_generation c then c\<lparr>co_cleanup_required := False\<rparr> else c))))
      (\<lambda>_ c. \<not> controller_active c) (\<lambda>_. anything) anything" for g
    by (rule spec_bind[OF spec_mono[OF cleanup_transaction_spec] served]) auto
  then have "co_spec ?D (complete_despite_cancellation (terminal_cleanup g)) (\<lambda>_ c. \<not> controller_active c)
      (\<lambda>_. anything) anything" for g
    unfolding terminal_cleanup_def by (intro spec_shield spec_lock stable_demanded) simp_all
  moreover have "co_spec anything (co_then (co_modify f) (co_raise e)) Q (\<lambda>_. anything) anything" for f e Q
    by (rule spec_bind[OF spec_modify spec_raise]) simp_all
  ultimately show ?thesis
    unfolding disable_and_clear_def by (intro spec_bind[OF begins] spec_get_any spec_catch)
qed

lemma handoff_active_spec:
  "co_spec (running m) (handoff_active disabling) (\<lambda>ok c. ok \<longrightarrow> \<not> controller_active c) (\<lambda>_. anything) anything"
proof -
  let ?Q = "\<lambda>ok c. ok \<longrightarrow> \<not> controller_active c"
  have off: "co_spec (\<lambda>c. \<not> controller_active c) (co_return True) ?Q (\<lambda>_. anything) anything"
    by (rule spec_return) simp
  have quiesce: "co_spec (running m) (co_bind quiesce_custom_auto (\<lambda>_. co_return True)) ?Q (\<lambda>_. anything) anything"
    by (rule spec_bind[OF spec_mono[OF quiesce_spec[of m]] off]) (simp_all add: running_def)
  have disable: "co_spec (running m) (co_then disable_and_clear (co_return True)) ?Q (\<lambda>_. anything) anything"
    by (rule spec_bind[OF disable_spec off])
  have any: "co_spec anything x (\<lambda>_. anything) (\<lambda>_. anything) anything" for x :: "unit co"
    by (rule co_specI) (metis outcome_cases outcome_ok.simps)
  have failed: "co_spec anything (co_then x (co_return False)) ?Q (\<lambda>_. anything) anything" for x
    by (rule spec_bind[OF any spec_return]) simp
  have attempt: "co_spec (running m) (co_except
      (if disabling then co_then disable_and_clear (co_return True)
       else co_bind quiesce_custom_auto (\<lambda>_. co_return True))
      (\<lambda>e. co_then (x e) (co_return False))) ?Q (\<lambda>_. anything) anything" for x
    by (rule spec_except[OF spec_if[OF disable quiesce] failed]) simp
  show ?thesis
    unfolding handoff_active_def
  proof (rule spec_get)
    fix c0 :: coordinator
    let ?P = "\<lambda>c. running m c \<and> c = c0"
    show "co_spec ?P (if co_controller c0 = None then co_return True
        else if \<not> disabling \<and> \<not> controller_active c0 then co_return True
        else co_except
              (if disabling then co_then disable_and_clear (co_return True)
               else co_bind quiesce_custom_auto (\<lambda>_. co_return True))
              (\<lambda>e. co_then
                 (co_except (if disabling then co_return () else rearm_after_quiesce) (\<lambda>e. co_return ()))
                 (co_return False))) ?Q (\<lambda>_. anything) anything"
      by (rule spec_if, rule spec_return, simp add: controller_active_def, rule spec_if, rule spec_return, simp,
          rule spec_mono[OF attempt]) simp_all
  qed
qed

section \<open>Properties\<close>

text \<open>An entry of the flow is pending only for a device that was validated.\<close>

definition flow_ok :: "config_flow \<Rightarrow> bool" where
  "flow_ok f \<longleftrightarrow> (\<forall>data. cf_data f = Some data \<longrightarrow> data \<in> set (cf_validated f))"

lemma create_pending_ok: "snd (create_pending_entry options f) = f"
  by (simp add: create_pending_entry_def split: option.split)

lemma validate_selected_ok: "flow_ok f \<Longrightarrow> flow_ok (snd (validate_selected format_mac env d f))"
  by (auto simp: validate_selected_def flow_ok_def Let_def create_pending_ok split: sum.split)

lemma after_scan_ok: "flow_ok f \<Longrightarrow> flow_ok (snd (after_scan format_mac env chosen f))"
  by (auto simp: after_scan_def choose_device_def Let_def validate_selected_ok split: option.split sum.split)

lemma step_user_ok: "flow_ok f \<Longrightarrow> flow_ok (snd (step_user format_mac env chosen f))"
proof -
  assume ok: "flow_ok f"
  obtain r f1 where l: "load_services env f = (r, f1)" by fastforce
  with ok have f1: "flow_ok f1" by (auto simp: load_services_def flow_ok_def split: if_splits sum.splits)
  obtain q f2 where s: "scan_devices format_mac env f1 = (q, f2)" by fastforce
  with f1 have "flow_ok f2" by (auto simp: scan_devices_def flow_ok_def split: sum.splits)
  with l s f1 show ?thesis by (auto simp: step_user_def after_scan_ok split: sum.split)
qed

lemma settings_unchanged: "snd (step_custom_auto_settings user_input f) = f"
  by (auto simp: step_custom_auto_settings_def create_pending_ok split: option.split sum.split exn.split)

lemma flow_step_ok: "flow_ok f \<Longrightarrow> flow_ok (snd (flow_step format_mac x f))"
  by (cases x)
    (auto simp: step_user_ok settings_unchanged step_enable_custom_auto_def create_pending_ok split: option.split)

interpretation config_flow: step_system "\<lambda>f x. snd (flow_step format_mac x f)" flow_ok for format_mac
  by unfold_locales (rule flow_step_ok)

lemma pending_created:
  "create_pending_entry o1 f1 = (Inr (CreateEntry title data options), f) \<Longrightarrow>
   f1 = f \<and> options = o1 \<and> cf_title f = Some title \<and> cf_data f = Some data"
  by (auto simp: create_pending_entry_def split: option.splits)

lemma normalized_enables:
  "normalize_settings input = Inr normalized \<Longrightarrow> parse_custom_auto_options normalized d = Inr opts \<Longrightarrow> ao_enabled opts"
  by (auto simp: normalize_settings_def parse_custom_auto_options_def jget_default_def split: if_splits)

text \<open>The settings an entry may be created with.\<close>

definition valid_settings :: "config_flow \<Rightarrow> string \<Rightarrow> jobject \<Rightarrow> bool" where
  "valid_settings f model options \<longleftrightarrow>
     (case cf_registry f of
        None \<Rightarrow> False
      | Some reg \<Rightarrow>
          (case res_bind (for_model reg model) (\<lambda>p. parse_custom_auto_options options (custom_auto_defaults p)) of
             Inl e \<Rightarrow> False | Inr opts \<Rightarrow> ao_enabled opts))"

lemma settings_created:
  assumes "step_custom_auto_settings user_input f1 = (Inr (CreateEntry title data options), f)"
  shows "cf_title f = Some title \<and> cf_data f = Some data \<and> valid_settings f (snd data) options"
proof -
  from assms obtain address model reg p effective input normalized opts where *:
    "cf_data f1 = Some (address, model)" "cf_registry f1 = Some reg" "for_model reg model = Inr p"
    "normalize_settings input = Inr normalized"
    "parse_custom_auto_options normalized (custom_auto_defaults p) = Inr opts"
    "create_pending_entry normalized f1 = (Inr (CreateEntry title data options), f)"
    by (auto simp: step_custom_auto_settings_def split: option.splits sum.splits exn.splits)
  from pending_created[OF *(6)] normalized_enables[OF *(4,5)] * show ?thesis
    by (auto simp: valid_settings_def)
qed

lemma user_created:
  assumes "step_user format_mac env chosen f1 = (Inr (CreateEntry title data options), f)"
  shows "cf_title f = Some title \<and> cf_data f = Some data \<and> options = DISABLED_OPTIONS"
proof -
  from assms obtain d f2 where "validate_selected format_mac env d f2 = (Inr (CreateEntry title data options), f)"
    by (auto simp: step_user_def after_scan_def choose_device_def Let_def split: prod.splits sum.splits option.splits if_splits)
  then obtain f3 where "create_pending_entry DISABLED_OPTIONS f3 = (Inr (CreateEntry title data options), f)"
    by (auto simp: validate_selected_def Let_def split: sum.splits if_splits)
  from pending_created[OF this] show ?thesis by simp
qed

text \<open>C20. The config flow creates an entry only for a device it validated: through any calls of its steps,
  the address and the model of an entry it creates were validated with success, and the options it stores
  are either the disabled ones or enabled settings that are valid for that model.\<close>

theorem created_entries_are_validated:
  assumes "flow_step format_mac x (run_flow format_mac xs) = (Inr (CreateEntry title data options), f)"
  shows "data \<in> set (cf_validated f) \<and> cf_title f = Some title \<and>
    (options = DISABLED_OPTIONS \<or> valid_settings f (snd data) options)"
proof -
  have "flow_ok (run_flow format_mac xs)"
    unfolding run_flow_def by (rule config_flow.run_inv) (simp add: flow_ok_def new_config_flow_def)
  from flow_step_ok[OF this, of format_mac x] assms have ok: "flow_ok f" by simp
  have "cf_title f = Some title \<and> cf_data f = Some data \<and>
      (options = DISABLED_OPTIONS \<or> valid_settings f (snd data) options)"
  proof (cases x)
    case (CallUser env chosen)
    with assms have "step_user format_mac env chosen (run_flow format_mac xs) = (Inr (CreateEntry title data options), f)"
      by simp
    from user_created[OF this] show ?thesis by blast
  next
    case (CallSettings user_input)
    with assms have "step_custom_auto_settings user_input (run_flow format_mac xs) = (Inr (CreateEntry title data options), f)"
      by simp
    from settings_created[OF this] show ?thesis by blast
  next
      case (CallEnable user_input)
    let ?f = "run_flow format_mac xs"
    from assms CallEnable consider
        (settings) "step_custom_auto_settings None ?f = (Inr (CreateEntry title data options), f)"
      | (disabled) "create_pending_entry DISABLED_OPTIONS ?f = (Inr (CreateEntry title data options), f)"
      by (auto simp: step_enable_custom_auto_def split: option.splits if_splits)
    then show ?thesis using settings_created pending_created by cases blast+
  qed
  with ok show ?thesis by (auto simp: flow_ok_def)
qed

lemma commit_saves:
  assumes "commit_options env form disabling enabling options s = (Finished (Inr (SaveOptions o1)), s')"
  obtains s1 s2 where "o1 = options" "handoff_active_controller env disabling s = (Finished (Inr True), s1)"
    "clear_unloaded_transition env enabling s1 = (Inr True, s2)" "s' = install_repair_listener s2"
  using assms by (auto simp: commit_options_def Let_def split: prod.splits progress.splits sum.splits if_splits)

lemma saved_by_settings:
  assumes "options_settings env user_input s = (Finished (Inr (SaveOptions options)), s')"
  shows "options \<noteq> DISABLED_OPTIONS \<and> (same_options options (oe_options s) \<or>
    commit_options env ''custom_auto_settings'' False True options s = (Finished (Inr (SaveOptions options)), s'))"
proof -
  from assms obtain input normalized where n: "normalize_settings input = Inr normalized"
    "same_options normalized (oe_options s) \<and> options = normalized \<or>
     commit_options env ''custom_auto_settings'' False True normalized s = (Finished (Inr (SaveOptions options)), s')"
    by (auto simp: options_settings_def split: if_splits sum.splits option.splits exn.splits)
  then have "options = normalized" by (auto elim: commit_saves)
  moreover from n(1) have "normalized \<noteq> DISABLED_OPTIONS" by (auto simp: normalize_settings_def DISABLED_OPTIONS_def)
  ultimately show ?thesis using n(2) by blast
qed

lemma options_saved:
  assumes "options_init env user_input s = (Finished (Inr (SaveOptions options)), s') \<or>
    options_settings env user_input s = (Finished (Inr (SaveOptions options)), s')"
  shows "same_options options (oe_options s) \<or>
    options \<noteq> DISABLED_OPTIONS \<and>
      commit_options env ''custom_auto_settings'' False True options s = (Finished (Inr (SaveOptions options)), s') \<or>
    options = DISABLED_OPTIONS \<and>
      commit_options env ''init'' True False options s = (Finished (Inr (SaveOptions options)), s')"
  using assms
proof
  assume "options_init env user_input s = (Finished (Inr (SaveOptions options)), s')"
  then consider "options_settings env None s = (Finished (Inr (SaveOptions options)), s')"
    | "same_options DISABLED_OPTIONS (oe_options s)" "options = DISABLED_OPTIONS"
    | "commit_options env ''init'' True False DISABLED_OPTIONS s = (Finished (Inr (SaveOptions options)), s')"
    by (auto simp: options_init_def split: if_splits sum.splits option.splits)
  then show ?thesis
  proof cases
    case 3
    then have "options = DISABLED_OPTIONS" by (auto elim: commit_saves)
    with 3 show ?thesis by simp
  qed (use saved_by_settings in blast, simp)
qed (use saved_by_settings in blast)

lemma commit_lets_go:
  assumes "commit_options env form disabling (\<not> disabling) options s = (Finished (Inr (SaveOptions options)), s')"
    and "oe_status s = EntryLoaded \<Longrightarrow> running m (oe_coordinator s)"
  shows "if oe_status s = EntryLoaded then \<not> controller_active (oe_coordinator s')
    else (jget (oe_options s) CONF_CUSTOM_AUTO_ENABLED = JBool True) = (\<not> disabling) \<or> storage_clear (oe_stored s')"
  using assms(1)
proof (rule commit_saves)
  fix s1 s2
  assume *: "handoff_active_controller env disabling s = (Finished (Inr True), s1)"
    "clear_unloaded_transition env (\<not> disabling) s1 = (Inr True, s2)" "s' = install_repair_listener s2"
  show ?thesis
  proof (cases "oe_status s = EntryLoaded")
    case True
    obtain p env' c where h: "handoff_active disabling True (ov_awaits env) (oe_coordinator s) = (p, env', c)" by (rule prod_cases3)
    with * True have "p = Finished (Inr True)" "s1 = s\<lparr>oe_coordinator := c\<rparr>" by (simp_all add: handoff_active_controller_def)
    moreover from this co_specD[OF handoff_active_spec[of m disabling] assms(2)[OF True], of True "ov_awaits env"] h
    have "\<not> controller_active c" by simp
    moreover have "s2 = s1" using * True calculation by (simp add: clear_unloaded_transition_def)
    ultimately show ?thesis using * True by (simp add: install_repair_listener_def)
  next
    case False
    then have s1: "s1 = s" using *(1) by (simp add: handoff_active_controller_def)
    obtain r stored where c: "clear (ov_core env) (ov_write env) (ov_load env) False (oe_stored s) = (r, stored)" by fastforce
    from *(2,3) False s1 c clear_result[of "ov_core env" "ov_write env" "ov_load env" False "oe_stored s" stored] show ?thesis
      by (cases r) (auto simp: clear_unloaded_transition_def install_repair_listener_def split: if_splits)
  qed
qed


end
