(* ===== verification/Surface_Examples.thy ===== *)
theory Surface_Examples
  imports Coordinator_Examples Entities Config_Flow Shipped_Profiles
begin

text \<open>
  The properties of discovery, of the entities, of the setup of an entry and of the flows at concrete
  runs, with the shipped H7124 profile.
\<close>

section \<open>Discovery\<close>

definition h7124_only :: profile_registry where
  "h7124_only = [(''h7124'', h7124_profile)]"

definition advert :: "string option \<Rightarrow> int \<Rightarrow> time \<Rightarrow> service_info" where
  "advert name rssi t = \<lparr>si_address = ''AA:01'', si_name = name, si_rssi = rssi, si_connectable = True, si_time = Some t\<rparr>"

text \<open>A purifier is named in the cache from before and seen without its name while the scan runs.\<close>

definition example_scan :: scan_env where
  "example_scan = \<lparr>sc_started = 5, sc_before = [advert (Some ''GVH7124AB'') (-70) 1], sc_device_before = (\<lambda>_. NoDevice),
     sc_received = [advert None (-60) 6], sc_scan_raises = None,
     sc_after = [advert None (-50) 4, advert None (-55) 7], sc_device_after = (\<lambda>_. NoDevice)\<rparr>"

definition found_purifier :: discovered_purifier where
  "found_purifier = \<lparr>dp_address = ''AA:01'', dp_name = ''GVH7124AB'', dp_model = ''H7124'', dp_rssi = - 55\<rparr>"

lemma example_scan_result:
  "discover_purifiers ascii_lower h7124_only example_scan [] =
     (Inr \<lparr>dr_purifiers = [found_purifier], dr_unnamed_seen = False\<rparr>,
      [(''aa:01'', \<lparr>pi_name = ''GVH7124AB'', pi_model = ''H7124''\<rparr>)])"
  by code_simp

theorem scan_lists_fresh_known_purifiers_witness:
  "map_of (snd (discover_purifiers ascii_lower h7124_only example_scan [])) (ascii_lower ''AA:01'') =
     Some \<lparr>pi_name = dp_name found_purifier, pi_model = dp_model found_purifier\<rparr>"
  using scan_lists_fresh_known_purifiers[OF example_scan_result, of found_purifier]
  by (simp add: example_scan_result found_purifier_def)

section \<open>Entities\<close>

definition h7124_fan :: fan_entity where
  "h7124_fan = \<lparr>fe_manual_modes = [SLEEP, LOW, MEDIUM, HIGH, TURBO], fe_preset_modes = [''manual'', ''auto'']\<rparr>"

lemma h7124_fan: "new_fan h7124_profile = Inr h7124_fan"
  by code_simp

text \<open>A percentage helper that always picks the first of the modes.\<close>

definition lowest_item :: "fan_mode list \<Rightarrow> int \<Rightarrow> fan_mode res" where
  "lowest_item modes n = (case modes of [] \<Rightarrow> Inl ValueError | m # _ \<Rightarrow> Inr m)"

theorem fan_asks_only_for_supported_modes_witness:
  "let c = performing (request_fan lowest_item h7124_fan (SetPercentage 20)) True override_env auto_coordinator
   in sent c = [(SetFanMode SLEEP, HOME_ASSISTANT)] \<and> list_all (fan_supports h7124_profile) (sent c)"
proof -
  let ?c = "performing (request_fan lowest_item h7124_fan (SetPercentage 20)) True override_env auto_coordinator"
  have "sent ?c = [(SetFanMode SLEEP, HOME_ASSISTANT)]" by code_simp
  moreover have "\<exists>l. sent ?c = sent auto_coordinator @ l \<and> list_all (fan_supports h7124_profile) l"
    by (rule fan_asks_only_for_supported_modes[OF h7124_fan]) (auto simp: lowest_item_def h7124_fan_def)
  ultimately show ?thesis unfolding auto_coordinator_facts(5) by (simp add: Let_def)
qed

theorem shown_state_round_trips_witness:
  "light_brightness (empty_purifier_state\<lparr>ps_light_brightness := Some 37\<rparr>) = Some 94 \<and> brightness_percentage 94 = 37 \<and>
     fan_mode_for_preset h7124_fan started_coordinator ''manual'' = Inr LOW"
proof -
  have b: "light_brightness (empty_purifier_state\<lparr>ps_light_brightness := Some 37\<rparr>) = Some 94"
    "fan_mode_for_preset h7124_fan started_coordinator ''manual'' = Inr LOW" by code_simp+
  with shown_state_round_trips[OF _ _ h7124_fan, of 37 empty_purifier_state 0 started_coordinator]
  show ?thesis by simp
qed

section \<open>Setup\<close>

definition clear_round_ok :: clear_round where
  "clear_round_ok = \<lparr>cr_bumps = 1, cr_core = CoreRunning, cr_write = WriteOk, cr_load = LoadOk, cr_cancelled = False,
     cr_pause_bumps = 0, cr_pause_cancelled = False\<rparr>"

definition one_clear :: required_clear where
  "one_clear = new_required_clear\<lparr>rc_generation := 1\<rparr>"

definition remembered :: json where
  "remembered = JObject [(''active'', JBool True)]"

text \<open>The registry demands a second clear while the first is served.\<close>

theorem settled_clears_are_durable_witness:
  "let r = settle_required_clear [clear_round_ok] (Some one_clear) (Some remembered)
   in fst r = Finished (Inr ()) \<and> \<not> pending (fst (snd r)) \<and> storage_clear (snd (snd r))"
proof -
  let ?r = "settle_required_clear [clear_round_ok] (Some one_clear) (Some remembered)"
  have "fst ?r = Finished (Inr ())" "pending (Some one_clear)" by code_simp+
  with settled_clears_are_durable[of "[clear_round_ok]" "Some one_clear" "Some remembered" "fst ?r" "fst (snd ?r)"
      "snd (snd ?r)", unfolded prod.collapse, OF refl]
  show ?thesis by (simp add: Let_def)
qed

definition example_setup :: setup_env where
  "example_setup = \<lparr>su_clear_rounds = [], su_registry = Inr h7124_only,
     su_switch_before = Some \<lparr>sw_disabled_by = None, sw_hidden = False\<rparr>,
     su_switch_now = Some \<lparr>sw_disabled_by = None, sw_hidden = False\<rparr>, su_core = CoreRunning, su_write = WriteOk,
     su_load = LoadOk, su_cleanup_cancelled = False, su_view = reachable_view, su_now = 0, su_awaits = [answered []]\<rparr>"

definition example_entry :: config_entry where
  "example_entry = \<lparr>en_model = ''H7124'', en_options = [(CONF_CUSTOM_AUTO_ENABLED, JBool True)]\<rparr>"

definition unloaded_state :: entry_state where
  "unloaded_state = \<lparr>es_required = None, es_stored = Some (JObject [(''active'', JBool True)]), es_coordinator = None,
     es_enabled = False\<rparr>"


section \<open>Flows\<close>

definition example_flow_env :: flow_env where
  "example_flow_env = \<lparr>fl_registry = Inr h7124_only, fl_configured = [],
     fl_scan = Inr \<lparr>dr_purifiers = [found_purifier], dr_unnamed_seen = False\<rparr>,
     fl_selected = Inr (Some (advert None (-55) 9)), fl_configured_now = [], fl_validates = Inr ()\<rparr>"

definition example_calls :: "flow_call list" where
  "example_calls = [CallUser example_flow_env None, CallUser example_flow_env (Some ''AA:01''), CallEnable None]"

theorem created_entries_are_validated_witness:
  "let r = flow_step ascii_lower (CallEnable (Some [])) (run_flow ascii_lower example_calls)
   in fst r = Inr (CreateEntry ''GVH7124AB'' (''AA:01'', ''H7124'') DISABLED_OPTIONS) \<and>
      (''AA:01'', ''H7124'') \<in> set (cf_validated (snd r))"
proof -
  let ?r = "flow_step ascii_lower (CallEnable (Some [])) (run_flow ascii_lower example_calls)"
  have r: "fst ?r = Inr (CreateEntry ''GVH7124AB'' (''AA:01'', ''H7124'') DISABLED_OPTIONS)" by code_simp
  then have "?r = (Inr (CreateEntry ''GVH7124AB'' (''AA:01'', ''H7124'') DISABLED_OPTIONS), snd ?r)"
    by (metis prod.collapse)
  from created_entries_are_validated[OF this] r show ?thesis by (simp add: Let_def)
qed

text \<open>Switching Custom Auto off in the options of a loaded entry whose policy runs.\<close>

definition loaded_entry :: options_entry where
  "loaded_entry = \<lparr>oe_status = EntryLoaded, oe_model = ''H7124'', oe_options = [(CONF_CUSTOM_AUTO_ENABLED, JBool True)],
     oe_coordinator = auto_coordinator, oe_stored = None, oe_reload_pending = False\<rparr>"

definition disabling_env :: options_env where
  "disabling_env = \<lparr>ov_registry = Inr h7124_only,
     ov_awaits = [answered [actor_runs], answered [], answered [actor_runs], answered [], answered [], answered [actor_runs],
       answered [], answered []],
     ov_core = CoreRunning, ov_write = WriteOk, ov_load = LoadOk\<rparr>"

lemma auto_running: "running True auto_coordinator"
proof -
  have "well_tended True auto_coordinator"
    using tended.perform[OF started_tended] unfolding auto_coordinator_def by blast
  moreover have "co_started auto_coordinator" "\<not> co_shutdown auto_coordinator" by code_simp+
  ultimately show ?thesis by (simp add: running_def)
qed


end
