(* ===== verification/Transport.thy ===== *)
theory Transport
  imports Ownership Stateful Entry_Setup
begin

text \<open>
  The GATT transport (\<open>bluetooth/transport.py\<close>, \<open>bluetooth/cleanup.py\<close>): one connection at a time, opaque
  bytes, and the ownership of the address while backend work may still run.  \<open>tr_late_cleanup\<close> is the
  late cleanup with the connector it is for, \<open>tr_links\<close> are the clients that report a connection and
  \<open>tr_queued\<close> the calls Bleak's thread handed to the loop.  Backend tasks and Bleak
  clients are numbers.  An operation runs over the outcomes of its awaits; each await also carries what
  happens meanwhile: the backend's callbacks, ends of tasks, and the rest of the process using the
  ownership registry.  Operations run one after the other; the late cleanup of a connector is one of them.
  The counters and texts of the diagnostics are left out, except those that a decision reads.
\<close>

section \<open>State\<close>

datatype transport_stage =
    Idle | EstablishConnection | ResolveCharacteristics | Connected | SubscribeNotifications | NotificationsActive
  | WriteCommand | Disconnecting | Disconnected | AbortingConnection | ConnectionAborted

text \<open>\<open>tr_started\<close>, \<open>tr_claims\<close>, \<open>tr_reported\<close>, \<open>tr_delivered\<close> and \<open>tr_written\<close> record, for the properties
  only, the connectors with their address and token, the claims, the generations whose loss was reported,
  the notifications that were passed on, with the current generation, and the writes that were begun.\<close>

record connector_start =
  cn_task :: nat
  cn_address :: string
  cn_token :: ownership_token

record transport =
  tr_client :: "nat option"
  tr_connecting :: "nat option"
  tr_connecting_address :: "string option"
  tr_last_device :: "string option"
  tr_resolved :: bool
  tr_callback :: bool
  tr_disconnect_callback :: bool
  tr_generation :: int
  tr_loop :: bool
  tr_stage :: transport_stage
  tr_early_disconnects :: nat
  tr_tx :: nat
  tr_rx :: nat
  tr_connector :: "nat option"
  tr_detached :: bool
  tr_late_cleanup :: "(nat \<times> nat) option"
  tr_token :: "ownership_token option"
  tr_queued :: "(nat \<times> int) list"
  tr_links :: "nat list"
  tr_registry :: ownership_registry
  tr_ended :: "nat list"
  tr_next :: nat
  tr_clock :: time
  tr_settings :: bluetooth_settings
  tr_started :: "connector_start list"
  tr_claims :: "ownership_token list"
  tr_reported :: "int list"
  tr_delivered :: "(int \<times> int) list"
  tr_written :: "(int \<times> bytes) list"

definition new_transport :: "bluetooth_settings \<Rightarrow> ownership_registry \<Rightarrow> transport" where
  "new_transport settings g = \<lparr>tr_client = None, tr_connecting = None, tr_connecting_address = None, tr_last_device = None,
     tr_resolved = False, tr_callback = False, tr_disconnect_callback = False, tr_generation = 0, tr_loop = False,
     tr_stage = Idle, tr_early_disconnects = 0, tr_tx = 0, tr_rx = 0, tr_connector = None, tr_detached = False,
     tr_late_cleanup = None, tr_token = None, tr_queued = [], tr_links = [], tr_registry = g, tr_ended = [],
     tr_next = 0, tr_clock = 0, tr_settings = settings,
     tr_started = [], tr_claims = [], tr_reported = [], tr_delivered = [], tr_written = []\<rparr>"

definition is_connected :: "transport \<Rightarrow> bool" where
  "is_connected s \<longleftrightarrow> (case tr_client s of Some c \<Rightarrow> c \<in> set (tr_links s) | None \<Rightarrow> False)"

definition task_ended :: "transport \<Rightarrow> nat \<Rightarrow> bool" where
  "task_ended s t \<longleftrightarrow> t \<in> set (tr_ended s)"

definition connector_work_pending :: "transport \<Rightarrow> bool" where
  "connector_work_pending s \<longleftrightarrow>
     (case tr_connector s of Some c \<Rightarrow> \<not> task_ended s c \<or> tr_detached s | None \<Rightarrow> False) \<or>
     (case tr_late_cleanup s of Some (k, c) \<Rightarrow> \<not> task_ended s k | None \<Rightarrow> False)"

definition set_stage :: "transport_stage \<Rightarrow> transport \<Rightarrow> transport" where
  "set_stage st s = s\<lparr>tr_stage := st\<rparr>"

section \<open>The address registry\<close>

definition on_registry :: "(ownership_registry \<Rightarrow> ownership_registry) \<Rightarrow> transport \<Rightarrow> transport" where
  "on_registry f s = s\<lparr>tr_registry := f (tr_registry s)\<rparr>"

definition token_is_current :: "transport \<Rightarrow> bool" where
  "token_is_current s = is_current (tr_token s) (tr_registry s)"

definition address_owned :: "string \<Rightarrow> transport \<Rightarrow> bool \<times> transport" where
  "address_owned address s =
     (case is_owned (task_ended s) address (tr_registry s) of (b, g) \<Rightarrow> (b, s\<lparr>tr_registry := g\<rparr>))"

text \<open>A claim that succeeds is the transport's token.\<close>

definition claim_address :: "string \<Rightarrow> transport \<Rightarrow> bool \<times> transport" where
  "claim_address address s =
     (case claim (task_ended s) (tr_clock s) address (tr_registry s) of
        (None, g) \<Rightarrow> (False, s\<lparr>tr_registry := g\<rparr>)
      | (Some t, g) \<Rightarrow> (True, s\<lparr>tr_registry := g, tr_token := Some t, tr_claims := tr_claims s @ [t]\<rparr>))"

definition on_token :: "(ownership_token \<Rightarrow> ownership_registry \<Rightarrow> ownership_registry) \<Rightarrow> transport \<Rightarrow> transport" where
  "on_token f s = (case tr_token s of None \<Rightarrow> s | Some t \<Rightarrow> on_registry (f t) s)"

text \<open>\<open>_track_owned_task\<close> for a task that is created.\<close>

definition start_task :: "transport \<Rightarrow> nat \<times> transport" where
  "start_task s =
     (tr_next s, on_token (\<lambda>t g. snd (track_task t (tr_next s) g)) (s\<lparr>tr_next := tr_next s + 1\<rparr>))"

definition release_address :: "ownership_token \<Rightarrow> transport \<Rightarrow> transport" where
  "release_address t s =
     (let s = on_registry (\<lambda>g. finish_cleanup (task_ended s) t (request_release (task_ended s) t g)) s
      in if tr_token s = Some t then s\<lparr>tr_token := None\<rparr> else s)"

section \<open>Callbacks\<close>

definition let_client_go :: "transport \<Rightarrow> transport" where
  "let_client_go s = s\<lparr>tr_client := None, tr_callback := False, tr_resolved := False\<rparr>"

definition disconnected_from_bleak :: "nat \<Rightarrow> int \<Rightarrow> transport \<Rightarrow> transport" where
  "disconnected_from_bleak client generation s =
     (let s = (if generation = tr_generation s \<and> tr_stage s = EstablishConnection \<and> tr_client s = None
               then s\<lparr>tr_early_disconnects := tr_early_disconnects s + 1\<rparr> else s)
      in if tr_loop s then s\<lparr>tr_queued := tr_queued s @ [(client, generation)]\<rparr> else s)"

definition handle_disconnected :: "nat \<Rightarrow> int \<Rightarrow> transport \<Rightarrow> transport" where
  "handle_disconnected client generation s =
     (if generation \<noteq> tr_generation s then s
      else if tr_client s \<noteq> Some client then s
      else
        let s = set_stage Disconnected (let_client_go s)
        in if tr_disconnect_callback s then s\<lparr>tr_reported := tr_reported s @ [generation]\<rparr> else s)"

text \<open>A notification carries the generation its subscription was made for.\<close>

definition notification_received :: "int \<Rightarrow> transport \<Rightarrow> transport" where
  "notification_received generation s =
     (if generation \<noteq> tr_generation s then s
      else
        let s = s\<lparr>tr_rx := tr_rx s + 1\<rparr>
        in if tr_callback s then s\<lparr>tr_delivered := tr_delivered s @ [(generation, tr_generation s)]\<rparr> else s)"

definition observe_connector :: "nat \<Rightarrow> transport \<Rightarrow> transport" where
  "observe_connector task s =
     (if \<not> tr_detached s \<or> tr_connector s \<noteq> Some task then s
      else
        let k = tr_next s
        in on_token (\<lambda>t g. snd (track_task t k (snd (mark_late_cleanup t g))))
             (s\<lparr>tr_next := k + 1, tr_late_cleanup := Some (k, task)\<rparr>))"

definition observe_connector_cleanup :: "nat \<Rightarrow> transport \<Rightarrow> transport" where
  "observe_connector_cleanup task s =
     (if map_option fst (tr_late_cleanup s) = Some task then s\<lparr>tr_late_cleanup := None\<rparr> else s)"

text \<open>What happens between the steps of an operation.  A token is a capability: the rest of the process
  uses its own tokens only, while the done callbacks of tasks are the registry's.\<close>

datatype transport_event =
    Passes time
  | LinkUp nat
  | LinkDown nat
  | BleakDisconnects nat int
  | LoopHandlesDisconnect
  | Notifies int
  | ConnectorMakesClient string
  | TaskEnds nat
  | ConnectorObserved nat
  | CleanupObserved nat
  | Others ownership_input

fun input_token :: "ownership_input \<Rightarrow> ownership_token option" where
  "input_token (OMarkCancellation t) = Some t"
| "input_token (OMarkLate t) = Some t"
| "input_token (OTrack t task) = Some t"
| "input_token (ORelease t) = Some t"
| "input_token (OFinish t) = Some t"
| "input_token (OEnd now address t w) = Some t"
| "input_token _ = None"

definition allowed_to_others :: "ownership_input \<Rightarrow> transport \<Rightarrow> bool" where
  "allowed_to_others i s \<longleftrightarrow> (case input_token i of Some t \<Rightarrow> t \<notin> set (tr_claims s) | None \<Rightarrow> True)"

definition use_registry :: "ownership_input \<Rightarrow> transport \<Rightarrow> transport" where
  "use_registry i s =
     (case ownership_step (tr_registry s, tr_ended s) i of (g, ended) \<Rightarrow> s\<lparr>tr_registry := g, tr_ended := ended\<rparr>)"

fun transport_event_step :: "transport \<Rightarrow> transport_event \<Rightarrow> transport" where
  "transport_event_step s (Passes d) = s\<lparr>tr_clock := tr_clock s + max 0 d\<rparr>"
| "transport_event_step s (LinkUp c) = s\<lparr>tr_links := c # tr_links s\<rparr>"
| "transport_event_step s (LinkDown c) = s\<lparr>tr_links := removeAll c (tr_links s)\<rparr>"
| "transport_event_step s (BleakDisconnects c generation) = disconnected_from_bleak c generation s"
| "transport_event_step s LoopHandlesDisconnect =
     (case tr_queued s of
        [] \<Rightarrow> s
      | (c, generation) # q \<Rightarrow> handle_disconnected c generation (s\<lparr>tr_queued := q\<rparr>))"
| "transport_event_step s (Notifies generation) = notification_received generation s"
| "transport_event_step s (ConnectorMakesClient address) =
     s\<lparr>tr_next := tr_next s + 1, tr_connecting := Some (tr_next s), tr_connecting_address := Some address\<rparr>"
| "transport_event_step s (TaskEnds t) = use_registry (OTaskEnds t) s"
| "transport_event_step s (ConnectorObserved t) = (if task_ended s t then observe_connector t s else s)"
| "transport_event_step s (CleanupObserved t) = (if task_ended s t then observe_connector_cleanup t s else s)"
| "transport_event_step s (Others i) = (if allowed_to_others i s then use_registry i s else s)"

end
