(* ===== verification/Transport_Operations.thy ===== *)
theory Transport_Operations
  imports Transport
begin

text \<open>
  The operations of the GATT transport (\<open>bluetooth/transport.py\<close>) over the outcomes of their awaits.
\<close>

section \<open>Awaits\<close>

text \<open>How a wait for a task ends: the task has ended, the time is up, or the caller was cancelled.\<close>

datatype wait_end = WaitEnds "unit res" | WaitExpires | WaitCancelled

datatype services_answer = ServicesRaise exn | ServicesIncomplete | ServicesFound

datatype late_outcome = LateCancelled | LateFailed | LateClient nat

text \<open>One await: what happens meanwhile, how it ends, and what the backend gives: the number of connected
  devices, the client of the connector with its services, and the outcome of a late connector.\<close>

record transport_await =
  ta_events :: "transport_event list"
  ta_wait :: wait_end
  ta_count :: nat
  ta_client :: nat
  ta_services :: services_answer
  ta_late :: late_outcome

type_synonym 'a tp = "transport_await list \<Rightarrow> transport \<Rightarrow> 'a progress \<times> transport_await list \<times> transport"

definition tp_return :: "'a \<Rightarrow> 'a tp" where
  "tp_return x env s = (Finished (Inr x), env, s)"

definition tp_raise :: "exn \<Rightarrow> 'a tp" where
  "tp_raise e env s = (Finished (Inl e), env, s)"

definition tp_attempt :: "'a tp \<Rightarrow> 'a res tp" where
  "tp_attempt m env s =
     (case m env s of
        (Finished r, env, s) \<Rightarrow> (Finished (Inr r), env, s)
      | (Blocked, env, s) \<Rightarrow> (Blocked, env, s))"

definition tp_bind :: "'a tp \<Rightarrow> ('a \<Rightarrow> 'b tp) \<Rightarrow> 'b tp" where
  "tp_bind m f env s =
     (case m env s of
        (Finished (Inr x), env, s) \<Rightarrow> f x env s
      | (Finished (Inl e), env, s) \<Rightarrow> (Finished (Inl e), env, s)
      | (Blocked, env, s) \<Rightarrow> (Blocked, env, s))"

abbreviation tp_then :: "'a tp \<Rightarrow> 'b tp \<Rightarrow> 'b tp" where
  "tp_then m n \<equiv> tp_bind m (\<lambda>_. n)"

definition tp_sync :: "(transport \<Rightarrow> 'a \<times> transport) \<Rightarrow> 'a tp" where
  "tp_sync f env s = (Finished (Inr (fst (f s))), env, snd (f s))"

definition tp_modify :: "(transport \<Rightarrow> transport) \<Rightarrow> unit tp" where
  "tp_modify f = tp_sync (\<lambda>s. ((), f s))"

definition tp_get :: "(transport \<Rightarrow> 'a tp) \<Rightarrow> 'a tp" where
  "tp_get f env s = f s env s"

text \<open>\<open>except BaseException\<close>, \<open>except Exception\<close> and \<open>finally\<close>.\<close>

definition tp_catch :: "'a tp \<Rightarrow> (exn \<Rightarrow> 'a tp) \<Rightarrow> 'a tp" where
  "tp_catch m h = tp_bind (tp_attempt m) (\<lambda>r. case r of Inr x \<Rightarrow> tp_return x | Inl e \<Rightarrow> h e)"

definition tp_except :: "'a tp \<Rightarrow> (exn \<Rightarrow> 'a tp) \<Rightarrow> 'a tp" where
  "tp_except m h = tp_catch m (\<lambda>e. if e = CancelledError then tp_raise e else h e)"

definition tp_finally :: "'a tp \<Rightarrow> unit tp \<Rightarrow> 'a tp" where
  "tp_finally m n =
     tp_bind (tp_attempt m) (\<lambda>r. tp_then n (case r of Inr x \<Rightarrow> tp_return x | Inl e \<Rightarrow> tp_raise e))"

definition tp_pause :: "transport_await tp" where
  "tp_pause env s =
     (case env of
        [] \<Rightarrow> (Blocked, [], s)
      | v # env \<Rightarrow> (Finished (Inr v), env, foldl transport_event_step s (ta_events v)))"

definition tp_wait :: "nat \<Rightarrow> transport_await tp" where
  "tp_wait task =
     tp_bind tp_pause (\<lambda>v. tp_then
       (case ta_wait v of WaitEnds r \<Rightarrow> tp_modify (use_registry (OTaskEnds task)) | _ \<Rightarrow> tp_return ())
       (tp_return v))"

definition tp_sleep :: "unit tp" where
  "tp_sleep = tp_bind tp_pause (\<lambda>v. if ta_wait v = WaitCancelled then tp_raise CancelledError else tp_return ())"

section \<open>Bounded backend work\<close>

text \<open>The wait after a task was told to cancel.\<close>

definition cancelled_tail :: "nat \<Rightarrow> unit tp" where
  "cancelled_tail task =
     tp_bind (tp_wait task) (\<lambda>v. if ta_wait v = WaitCancelled then tp_raise CancelledError else tp_return ())"

text \<open>\<open>expired\<close> is raised when the deadline passes, once the task was cancelled and given its tail.\<close>

definition bounded_task :: "exn \<Rightarrow> transport_await tp" where
  "bounded_task expired =
     tp_bind (tp_sync start_task) (\<lambda>task.
     tp_bind (tp_wait task) (\<lambda>v.
       case ta_wait v of
         WaitEnds (Inr _) \<Rightarrow> tp_return v
       | WaitEnds (Inl e) \<Rightarrow> tp_raise e
       | WaitExpires \<Rightarrow> tp_then (cancelled_tail task) (tp_raise expired)
       | WaitCancelled \<Rightarrow>
           tp_get (\<lambda>s. tp_then (if task_ended s task then tp_return () else cancelled_tail task)
                          (tp_raise CancelledError))))"

definition gatt_operation :: "transport_await tp" where
  "gatt_operation = bounded_task GattTransportError"

definition cleanup_operation :: "transport_await tp" where
  "cleanup_operation = bounded_task TimeoutError"

definition gatt_operation_quietly :: "unit tp" where
  "gatt_operation_quietly = tp_except (tp_then gatt_operation (tp_return ())) (\<lambda>e. tp_return ())"

section \<open>Stale connections\<close>

definition abort_connecting_client :: "unit tp" where
  "abort_connecting_client =
     tp_get (\<lambda>s. case tr_connecting s of
       None \<Rightarrow> tp_return ()
     | Some c \<Rightarrow>
         tp_then (tp_modify (set_stage AbortingConnection))
           (tp_finally gatt_operation_quietly (tp_modify (set_stage ConnectionAborted))))"

fun stale_checks :: "nat \<Rightarrow> time \<Rightarrow> unit tp" where
  "stale_checks 0 deadline env s = (Blocked, env, s)"
| "stale_checks (Suc n) deadline env s =
     tp_bind cleanup_operation (\<lambda>v.
       if ta_count v = 0 then tp_return ()
       else tp_get (\<lambda>s. if deadline \<le> tr_clock s then tp_raise BluetoothUnavailableError
                        else tp_then tp_sleep (stale_checks n deadline))) env s"

text \<open>Every round takes an await, so the bound is never reached.\<close>

definition verify_no_connection :: "time \<Rightarrow> unit tp" where
  "verify_no_connection deadline env s = stale_checks (Suc (length env)) deadline env s"

definition ensure_owned :: "string \<Rightarrow> transport \<Rightarrow> bool \<times> transport" where
  "ensure_owned address s =
     (if token_is_current s then (True, s)
      else case address_owned address s of
             (True, s) \<Rightarrow> (False, s)
           | (False, s) \<Rightarrow> claim_address address s)"

definition release_token :: "ownership_token option \<Rightarrow> unit tp" where
  "release_token token = (case token of None \<Rightarrow> tp_return () | Some t \<Rightarrow> tp_modify (release_address t))"

text \<open>Closing what BlueZ still holds and waiting until it reports no connection.\<close>

definition close_and_verify :: "unit tp" where
  "close_and_verify =
     tp_get (\<lambda>s. let deadline = tr_clock s + cl_stale_timeout (bs_cleanup (tr_settings s))
       in tp_then cleanup_operation
            (if tr_last_device s = None then tp_return () else verify_no_connection deadline))"

text \<open>\<open>by_late_cleanup\<close>: the caller is the late cleanup of a connector; \<open>releasing\<close>: ownership ends with it.\<close>

definition cleanup_stale_connection :: "bool \<Rightarrow> bool \<Rightarrow> bool tp" where
  "cleanup_stale_connection by_late_cleanup releasing =
     tp_get (\<lambda>s.
       if connector_work_pending s \<and> \<not> by_late_cleanup then tp_return False
       else if is_connected s then tp_return False
       else case (case tr_last_device s of Some a \<Rightarrow> Some a | None \<Rightarrow> tr_connecting_address s) of
              None \<Rightarrow> tp_return True
            | Some address \<Rightarrow>
                tp_bind (tp_sync (ensure_owned address)) (\<lambda>owned.
                  if \<not> owned then tp_return False
                  else
                    tp_get (\<lambda>s. tp_bind
                      (tp_finally (tp_except (tp_then close_and_verify (tp_return True)) (\<lambda>e. tp_return False))
                         (if releasing then release_token (tr_token s) else tp_return ()))
                      (\<lambda>ok. if \<not> ok then tp_return False
                             else tp_then
                               (tp_modify (\<lambda>s. s\<lparr>tr_connecting := None, tr_connecting_address := None\<rparr>))
                               (tp_return True)))))"

section \<open>Late connectors\<close>

definition late_cleanup :: "nat \<Rightarrow> late_outcome \<Rightarrow> unit tp" where
  "late_cleanup task outcome =
     tp_get (\<lambda>s. let client = (case outcome of LateClient c \<Rightarrow> Some c | _ \<Rightarrow> tr_connecting s)
       in tp_finally
            (if \<not> token_is_current s then tp_return ()
             else
               tp_then (tp_modify (\<lambda>s. (if tr_connector s = Some task then s\<lparr>tr_connector := None\<rparr> else s)
                                          \<lparr>tr_detached := False\<rparr>))
              (tp_then (case client of
                          None \<Rightarrow> tp_return ()
                        | Some c \<Rightarrow> tp_then (tp_modify (\<lambda>s. s\<lparr>tr_connecting := Some c\<rparr>)) gatt_operation_quietly)
                (tp_then (cleanup_stale_connection True False) (tp_return ()))))
            (release_token (tr_token s)))"

text \<open>Its task: what it raises is only observed.\<close>

definition run_late_cleanup :: "nat \<Rightarrow> nat \<Rightarrow> late_outcome \<Rightarrow> unit tp" where
  "run_late_cleanup k task outcome =
     tp_finally (tp_catch (late_cleanup task outcome) (\<lambda>e. tp_return ())) (tp_modify (use_registry (OTaskEnds k)))"

text \<open>Whether the connector had ended before it was told to cancel.  When the late cleanup ends within
  its bounded wait it runs there, otherwise later as an operation of its own.\<close>

definition cancel_connector :: "nat \<Rightarrow> bool tp" where
  "cancel_connector task =
     tp_get (\<lambda>s.
       if task_ended s task then tp_return True
       else
         tp_then (tp_modify (\<lambda>s. on_token (\<lambda>t g. snd (mark_cancellation_requested t g)) (s\<lparr>tr_detached := True\<rparr>)))
        (tp_bind (tp_wait task) (\<lambda>v.
           case ta_wait v of
             WaitCancelled \<Rightarrow> tp_raise CancelledError
           | WaitExpires \<Rightarrow> tp_return False
           | WaitEnds _ \<Rightarrow>
               tp_then tp_sleep
                (tp_get (\<lambda>s. case tr_late_cleanup s of
                   None \<Rightarrow> tp_return False
                 | Some (k, c) \<Rightarrow>
                     if task_ended s k then tp_return False
                     else tp_bind tp_pause (\<lambda>v.
                       case ta_wait v of
                         WaitCancelled \<Rightarrow> tp_raise CancelledError
                       | WaitExpires \<Rightarrow> tp_return False
                       | WaitEnds _ \<Rightarrow> tp_then (run_late_cleanup k c (ta_late v)) (tp_return False)))))))"

section \<open>Disconnecting\<close>

definition transport_disconnect :: "unit tp" where
  "transport_disconnect =
     tp_get (\<lambda>s.
       tp_then (tp_modify let_client_go)
         (case tr_client s of
            None \<Rightarrow> tp_return ()
          | Some c \<Rightarrow>
              tp_then (tp_modify (set_stage Disconnecting))
                (tp_finally
                   (tp_get (\<lambda>s. if c \<in> set (tr_links s) then gatt_operation_quietly else tp_return ()))
                   (tp_modify (set_stage Disconnected)))))"

section \<open>Connecting\<close>

text \<open>The address is claimed for this attempt; \<open>None\<close> as result is a refusal.\<close>

definition start_connector :: "ownership_token \<Rightarrow> string \<Rightarrow> transport \<Rightarrow> nat \<times> transport" where
  "start_connector t address s =
     (let task = tr_next s
      in (task, on_registry (\<lambda>g. snd (track_task t task g))
           (s\<lparr>tr_next := task + 1, tr_connector := Some task, tr_detached := False,
              tr_started := tr_started s @ [\<lparr>cn_task = task, cn_address = address, cn_token = t\<rparr>]\<rparr>)))"

text \<open>Inspecting a connector that ran out of time; only a cancellation gets out.\<close>

definition timeout_diagnostics :: "unit tp" where
  "timeout_diagnostics =
     tp_bind (tp_sync start_task) (\<lambda>task.
     tp_bind (tp_wait task) (\<lambda>v.
       case ta_wait v of
         WaitEnds (Inl e) \<Rightarrow> if e = CancelledError then tp_raise CancelledError else tp_return ()
       | WaitEnds (Inr _) \<Rightarrow> tp_return ()
       | WaitExpires \<Rightarrow> cancelled_tail task
       | WaitCancelled \<Rightarrow> tp_raise CancelledError))"

definition release_connector :: "nat \<Rightarrow> transport \<Rightarrow> transport" where
  "release_connector task s =
     (if tr_connector s = Some task then s\<lparr>tr_connector := None\<rparr> else s)\<lparr>tr_detached := False\<rparr>"

text \<open>\<open>None\<close> as the result: the deadline of the attempt has passed.\<close>

definition establish :: "ownership_token \<Rightarrow> string \<Rightarrow> transport_await option tp" where
  "establish t address =
     tp_bind (tp_sync (start_connector t address)) (\<lambda>task.
       tp_finally
         (tp_bind (tp_wait task) (\<lambda>v.
            case ta_wait v of
              WaitEnds (Inr _) \<Rightarrow> tp_return (Some v)
            | WaitEnds (Inl e) \<Rightarrow> tp_raise e
            | WaitExpires \<Rightarrow> tp_then timeout_diagnostics (tp_return None)
            | WaitCancelled \<Rightarrow> tp_raise CancelledError))
         (tp_bind (cancel_connector task) (\<lambda>acknowledged.
            if acknowledged then tp_modify (release_connector task) else tp_return ())))"

definition abort_and_clean :: "unit tp" where
  "abort_and_clean = tp_then abort_connecting_client (tp_then (cleanup_stale_connection False True) (tp_return ()))"

text \<open>After the deadline: a connector that is still pending keeps the address quarantined, and one whose late
  cleanup is over has released it.\<close>

definition after_deadline :: "ownership_token \<Rightarrow> int tp" where
  "after_deadline t =
     tp_then
       (tp_get (\<lambda>s. if connector_work_pending s \<or> \<not> is_current (Some t) (tr_registry s) then tp_return ()
                    else abort_and_clean))
       (tp_raise BluetoothUnavailableError)"

definition after_failure :: "exn \<Rightarrow> int tp" where
  "after_failure e =
     (if e = CancelledError
      then tp_then (tp_get (\<lambda>s. if connector_work_pending s then tp_return () else abort_and_clean)) (tp_raise CancelledError)
      else tp_then abort_and_clean (tp_raise BluetoothUnavailableError))"

definition adopt_client :: "int \<Rightarrow> transport_await \<Rightarrow> int tp" where
  "adopt_client generation v =
     tp_then (tp_modify (\<lambda>s. s\<lparr>tr_connecting := None, tr_connecting_address := None\<rparr>))
       (tp_get (\<lambda>s.
          if generation \<noteq> tr_generation s then
            tp_bind tp_pause (\<lambda>w.
              if ta_wait w = WaitCancelled \<or> ta_wait w = WaitEnds (Inl CancelledError) then tp_raise CancelledError
              else tp_raise BluetoothUnavailableError)
          else
            tp_then (tp_modify (\<lambda>s. (set_stage ResolveCharacteristics s)\<lparr>tr_client := Some (ta_client v)\<rparr>))
              (case ta_services v of
                 ServicesRaise e \<Rightarrow> tp_raise e
               | ServicesIncomplete \<Rightarrow> tp_then transport_disconnect (tp_raise GattTransportError)
               | ServicesFound \<Rightarrow>
                   tp_then (tp_modify (\<lambda>s. set_stage Connected (s\<lparr>tr_resolved := True\<rparr>))) (tp_return generation))))"

definition begin_attempt :: "transport \<Rightarrow> int \<times> transport" where
  "begin_attempt s =
     (let s = set_stage EstablishConnection
            (s\<lparr>tr_generation := tr_generation s + 1, tr_loop := True, tr_early_disconnects := 0\<rparr>)
      in (tr_generation s, s))"

definition attempt_connection :: "ownership_token \<Rightarrow> string \<Rightarrow> int tp" where
  "attempt_connection t address =
     tp_bind (tp_sync begin_attempt) (\<lambda>generation.
     tp_bind (tp_attempt (establish t address)) (\<lambda>r.
       case r of
         Inr (Some v) \<Rightarrow> adopt_client generation v
       | Inr None \<Rightarrow> after_deadline t
       | Inl e \<Rightarrow> after_failure e))"

text \<open>Before the attempt nothing stale may be left; otherwise the address is released again.\<close>

definition prepare_address :: "ownership_token \<Rightarrow> unit tp" where
  "prepare_address t =
     tp_bind
       (tp_catch (tp_then abort_connecting_client (cleanup_stale_connection False False))
          (\<lambda>e. tp_then (tp_modify (release_address t)) (tp_raise e)))
       (\<lambda>ok. if ok then tp_return ()
              else tp_then (tp_modify (release_address t)) (tp_raise BluetoothUnavailableError))"

definition claim_for_attempt :: "string \<Rightarrow> ownership_token tp" where
  "claim_for_attempt address =
     tp_bind (tp_sync (address_owned address)) (\<lambda>owned.
       if owned then tp_raise BluetoothUnavailableError
       else
         tp_bind (tp_sync (claim_address address)) (\<lambda>claimed.
           tp_get (\<lambda>s. case tr_token s of
             Some t \<Rightarrow> if claimed then tp_then (tp_modify (\<lambda>s. s\<lparr>tr_last_device := Some address\<rparr>)) (tp_return t)
                       else tp_raise BluetoothUnavailableError
           | None \<Rightarrow> tp_raise BluetoothUnavailableError)))"

definition transport_connect :: "string \<Rightarrow> int tp" where
  "transport_connect address =
     tp_get (\<lambda>s.
       if connector_work_pending s then tp_raise BluetoothUnavailableError
       else
         tp_then transport_disconnect
        (tp_then (tp_get (\<lambda>s. if token_is_current s then tp_then (cleanup_stale_connection False True) (tp_return ())
                             else tp_return ()))
        (tp_bind (claim_for_attempt address) (\<lambda>t.
         tp_then (prepare_address t) (attempt_connection t address)))))"

section \<open>Subscribing and writing\<close>

definition with_client :: "(nat \<Rightarrow> int \<Rightarrow> unit tp) \<Rightarrow> unit tp" where
  "with_client f =
     tp_get (\<lambda>s. case tr_client s of
       Some c \<Rightarrow> if c \<in> set (tr_links s) then f c (tr_generation s) else tp_raise GattTransportError
     | None \<Rightarrow> tp_raise GattTransportError)"

definition gatt_operation_checked :: "unit tp" where
  "gatt_operation_checked =
     tp_except (tp_then gatt_operation (tp_return ())) (\<lambda>e. tp_raise GattTransportError)"

definition transport_subscribe :: "unit tp" where
  "transport_subscribe =
     with_client (\<lambda>c generation.
       tp_then (tp_modify (\<lambda>s. set_stage SubscribeNotifications (s\<lparr>tr_callback := True\<rparr>)))
      (tp_then gatt_operation_checked (tp_modify (set_stage NotificationsActive))))"

definition transport_write :: "bytes \<Rightarrow> unit tp" where
  "transport_write data =
     with_client (\<lambda>c generation.
       tp_then (tp_modify (\<lambda>s. set_stage WriteCommand (s\<lparr>tr_written := tr_written s @ [(generation, data)]\<rparr>)))
      (tp_then gatt_operation_checked
      (tp_then (tp_modify (\<lambda>s. s\<lparr>tr_tx := tr_tx s + 1\<rparr>))
         (tp_get (\<lambda>s. if generation \<noteq> tr_generation s \<or> c \<notin> set (tr_links s) then tp_raise GattTransportError
                     else tp_modify (set_stage NotificationsActive))))))"

section \<open>Runs\<close>

datatype transport_operation =
    TrConnect string
  | TrSubscribe
  | TrWrite bytes
  | TrDisconnect
  | TrCleanup
  | TrLateCleanup late_outcome
  | TrSetCallback bool

definition transport_after :: "'a tp \<Rightarrow> transport_await list \<Rightarrow> transport \<Rightarrow> transport" where
  "transport_after m env s = snd (snd (m env s))"

fun transport_operate :: "transport_operation \<Rightarrow> transport_await list \<Rightarrow> transport \<Rightarrow> transport" where
  "transport_operate (TrConnect address) = transport_after (transport_connect address)"
| "transport_operate TrSubscribe = transport_after transport_subscribe"
| "transport_operate (TrWrite data) = transport_after (transport_write data)"
| "transport_operate TrDisconnect = transport_after transport_disconnect"
| "transport_operate TrCleanup = transport_after (cleanup_stale_connection False True)"
| "transport_operate (TrLateCleanup outcome) =
     transport_after (tp_get (\<lambda>s. case tr_late_cleanup s of
       None \<Rightarrow> tp_return ()
     | Some (k, task) \<Rightarrow> if task_ended s k then tp_return () else run_late_cleanup k task outcome))"
| "transport_operate (TrSetCallback b) = transport_after (tp_modify (\<lambda>s. s\<lparr>tr_disconnect_callback := b\<rparr>))"

datatype transport_input =
    TransportHappens transport_event
  | TransportPerforms transport_operation "transport_await list"

fun transport_step :: "transport \<Rightarrow> transport_input \<Rightarrow> transport" where
  "transport_step s (TransportHappens x) = transport_event_step s x"
| "transport_step s (TransportPerforms m env) = transport_operate m env s"

definition run_transport :: "transport_input list \<Rightarrow> transport \<Rightarrow> transport" where
  "run_transport xs s = foldl transport_step s xs"

end
