(* ===== verification/Transport_Facts.thy ===== *)
theory Transport_Facts
  imports Transport_Operations
begin

text \<open>
  A program logic for the operations of the transport, and what an operation keeps of a predicate that
  everything keeps that may happen during an await.
\<close>

section \<open>Specifications\<close>

text \<open>From a state of \<open>P\<close>, an operation that returns \<open>x\<close> ends in \<open>Q x\<close>, one that raises \<open>e\<close> in \<open>E e\<close>, and one
  that still waits leaves \<open>B\<close>.\<close>

fun ends_ok :: "('a \<Rightarrow> transport \<Rightarrow> bool) \<Rightarrow> (exn \<Rightarrow> transport \<Rightarrow> bool) \<Rightarrow> (transport \<Rightarrow> bool) \<Rightarrow>
    'a progress \<times> transport_await list \<times> transport \<Rightarrow> bool" where
  "ends_ok Q E B (Finished (Inr x), env, s) = Q x s"
| "ends_ok Q E B (Finished (Inl e), env, s) = E e s"
| "ends_ok Q E B (Blocked, env, s) = B s"

definition tp_spec :: "(transport \<Rightarrow> bool) \<Rightarrow> 'a tp \<Rightarrow> ('a \<Rightarrow> transport \<Rightarrow> bool) \<Rightarrow> (exn \<Rightarrow> transport \<Rightarrow> bool) \<Rightarrow>
    (transport \<Rightarrow> bool) \<Rightarrow> bool" where
  "tp_spec P m Q E B \<longleftrightarrow> (\<forall>env s. P s \<longrightarrow> ends_ok Q E B (m env s))"

lemma tp_specI: "(\<And>env s. P s \<Longrightarrow> ends_ok Q E B (m env s)) \<Longrightarrow> tp_spec P m Q E B"
  by (simp add: tp_spec_def)

lemma tp_specD: "tp_spec P m Q E B \<Longrightarrow> P s \<Longrightarrow> ends_ok Q E B (m env s)"
  by (simp add: tp_spec_def)

lemma end_cases:
  obtains (returns) x env s where "r = (Finished (Inr x), env, s)"
  | (raises) e env s where "r = (Finished (Inl e), env, s)"
  | (waits) env s where "r = (Blocked, env, s)"
  by (metis prod_cases3 progress.exhaust sum.exhaust)

lemma ends_mono:
  "ends_ok Q E B r \<Longrightarrow> (\<And>x s. Q x s \<Longrightarrow> Q' x s) \<Longrightarrow> (\<And>e s. E e s \<Longrightarrow> E' e s) \<Longrightarrow> (\<And>s. B s \<Longrightarrow> B' s) \<Longrightarrow> ends_ok Q' E' B' r"
  by (cases rule: end_cases[of r]) auto

lemma tp_mono:
  "tp_spec P m Q E B \<Longrightarrow> (\<And>s. P' s \<Longrightarrow> P s) \<Longrightarrow> (\<And>x s. Q x s \<Longrightarrow> Q' x s) \<Longrightarrow> (\<And>e s. E e s \<Longrightarrow> E' e s) \<Longrightarrow>
   (\<And>s. B s \<Longrightarrow> B' s) \<Longrightarrow> tp_spec P' m Q' E' B'"
  unfolding tp_spec_def by (intro allI impI, rule ends_mono[of Q E B]) auto

lemma tp_conj:
  assumes "tp_spec P m Q E B" "tp_spec P' m Q' E' B'"
  shows "tp_spec (\<lambda>s. P s \<and> P' s) m (\<lambda>x s. Q x s \<and> Q' x s) (\<lambda>e s. E e s \<and> E' e s) (\<lambda>s. B s \<and> B' s)"
proof (rule tp_specI)
  fix env s
  assume "P s \<and> P' s"
  then have "ends_ok Q E B (m env s)" "ends_ok Q' E' B' (m env s)" using assms tp_specD by blast+
  then show "ends_ok (\<lambda>x s. Q x s \<and> Q' x s) (\<lambda>e s. E e s \<and> E' e s) (\<lambda>s. B s \<and> B' s) (m env s)"
    by (cases rule: end_cases[of "m env s"]) auto
qed

lemma tp_simple:
  "(\<And>s. P s \<Longrightarrow> Q x s) \<Longrightarrow> tp_spec P (tp_return x) Q E B"
  "(\<And>s. P s \<Longrightarrow> E e s) \<Longrightarrow> tp_spec P (tp_raise e) Q E B"
  by (simp_all add: tp_spec_def tp_return_def tp_raise_def)

lemma tp_sync_spec: "(\<And>s. P s \<Longrightarrow> Q (fst (f s)) (snd (f s))) \<Longrightarrow> tp_spec P (tp_sync f) Q E B"
  by (simp add: tp_spec_def tp_sync_def)

lemma tp_modify_spec: "(\<And>s. P s \<Longrightarrow> Q () (f s)) \<Longrightarrow> tp_spec P (tp_modify f) Q E B"
  by (simp add: tp_spec_def tp_sync_def tp_modify_def)

lemma tp_get_spec: "(\<And>s0. tp_spec (\<lambda>s. P s \<and> s = s0) (f s0) Q E B) \<Longrightarrow> tp_spec P (tp_get f) Q E B"
  by (simp add: tp_spec_def tp_get_def)

lemma tp_get_any: "(\<And>s0. tp_spec P (f s0) Q E B) \<Longrightarrow> tp_spec P (tp_get f) Q E B"
  by (simp add: tp_spec_def tp_get_def)

lemma tp_bind_spec:
  assumes "tp_spec P m Q E B" "\<And>x. tp_spec (Q x) (f x) R E B"
  shows "tp_spec P (tp_bind m f) R E B"
proof (rule tp_specI)
  fix env s
  assume "P s"
  with tp_specD[OF assms(1)] have "ends_ok Q E B (m env s)" .
  then show "ends_ok R E B (tp_bind m f env s)"
    by (cases rule: end_cases[of "m env s"]) (auto simp: tp_bind_def intro: tp_specD[OF assms(2)])
qed

lemma tp_attempt_spec:
  assumes "tp_spec P m Q E B"
  shows "tp_spec P (tp_attempt m) (\<lambda>r. case r of Inr x \<Rightarrow> Q x | Inl e \<Rightarrow> E e) E' B"
proof (rule tp_specI)
  fix env s
  assume "P s"
  with tp_specD[OF assms] have "ends_ok Q E B (m env s)" .
  then show "ends_ok (\<lambda>r. case r of Inr x \<Rightarrow> Q x | Inl e \<Rightarrow> E e) E' B (tp_attempt m env s)"
    by (cases rule: end_cases[of "m env s"]) (auto simp: tp_attempt_def)
qed

lemma tp_catch_spec:
  assumes "tp_spec P m Q E' B" "\<And>e. tp_spec (E' e) (h e) Q E B"
  shows "tp_spec P (tp_catch m h) Q E B"
  unfolding tp_catch_def
proof (rule tp_bind_spec[OF tp_attempt_spec[OF assms(1)]])
  fix r
  show "tp_spec (case r of Inr x \<Rightarrow> Q x | Inl e \<Rightarrow> E' e) (case r of Inr x \<Rightarrow> tp_return x | Inl e \<Rightarrow> h e) Q E B"
    using assms(2) by (cases r) (auto intro: tp_simple)
qed

lemma tp_finally_spec:
  assumes "tp_spec P m Q' E' B" "\<And>x. tp_spec (Q' x) n (\<lambda>_. Q x) E B" "\<And>e. tp_spec (E' e) n (\<lambda>_. E e) E B"
  shows "tp_spec P (tp_finally m n) Q E B"
  unfolding tp_finally_def
proof (rule tp_bind_spec[OF tp_attempt_spec[OF assms(1)]])
  fix r
  show "tp_spec (case r of Inr x \<Rightarrow> Q' x | Inl e \<Rightarrow> E' e)
      (tp_then n (case r of Inr x \<Rightarrow> tp_return x | Inl e \<Rightarrow> tp_raise e)) Q E B"
    by (cases r) (auto intro!: tp_bind_spec assms(2,3) tp_simple)
qed

lemma tp_pause_spec:
  assumes "\<And>s x. P s \<Longrightarrow> P (transport_event_step s x)"
  shows "tp_spec P tp_pause (\<lambda>_. P) E P"
proof (rule tp_specI)
  fix env s
  assume "P s"
  moreover have "P s \<Longrightarrow> P (foldl transport_event_step s xs)" for xs s
    by (induction xs arbitrary: s) (auto intro: assms)
  ultimately show "ends_ok (\<lambda>_. P) E P (tp_pause env s)" by (cases env) (simp_all add: tp_pause_def)
qed

section \<open>Operations that keep a predicate\<close>

definition tkeeps :: "(transport \<Rightarrow> bool) \<Rightarrow> 'a tp \<Rightarrow> bool" where
  "tkeeps T m \<longleftrightarrow> tp_spec T m (\<lambda>_. T) (\<lambda>_. T) T"

lemma tkeeps_simple: "tkeeps T (tp_return x)" "tkeeps T (tp_raise e)"
  by (simp_all add: tkeeps_def tp_simple)

lemma tkeeps_sync: "(\<And>s. T s \<Longrightarrow> T (snd (f s))) \<Longrightarrow> tkeeps T (tp_sync f)"
  by (simp add: tkeeps_def tp_sync_spec)

lemma tkeeps_modify: "(\<And>s. T s \<Longrightarrow> T (f s)) \<Longrightarrow> tkeeps T (tp_modify f)"
  by (simp add: tkeeps_def tp_modify_spec)

lemma tkeeps_get: "(\<And>s. tkeeps T (f s)) \<Longrightarrow> tkeeps T (tp_get f)"
  by (simp add: tkeeps_def tp_get_any)

lemma tkeeps_bind: "tkeeps T m \<Longrightarrow> (\<And>x. tkeeps T (f x)) \<Longrightarrow> tkeeps T (tp_bind m f)"
  unfolding tkeeps_def by (rule tp_bind_spec)

lemma tkeeps_catch: "tkeeps T m \<Longrightarrow> (\<And>e. tkeeps T (h e)) \<Longrightarrow> tkeeps T (tp_catch m h)"
  unfolding tkeeps_def by (rule tp_catch_spec)

lemma tkeeps_finally: "tkeeps T m \<Longrightarrow> tkeeps T n \<Longrightarrow> tkeeps T (tp_finally m n)"
  unfolding tkeeps_def by (rule tp_finally_spec)

lemma tkeeps_if: "(b \<Longrightarrow> tkeeps T m) \<Longrightarrow> (\<not> b \<Longrightarrow> tkeeps T n) \<Longrightarrow> tkeeps T (if b then m else n)"
  by simp

lemma tkeeps_except: "tkeeps T m \<Longrightarrow> (\<And>e. tkeeps T (h e)) \<Longrightarrow> tkeeps T (tp_except m h)"
  unfolding tp_except_def by (intro tkeeps_catch tkeeps_if tkeeps_simple)

lemma tkeeps_option: "tkeeps T m \<Longrightarrow> (\<And>x. tkeeps T (f x)) \<Longrightarrow> tkeeps T (case r of None \<Rightarrow> m | Some x \<Rightarrow> f x)"
  by (cases r) simp_all

lemma tkeeps_wait_end:
  "(\<And>r. tkeeps T (f r)) \<Longrightarrow> tkeeps T m \<Longrightarrow> tkeeps T n \<Longrightarrow>
   tkeeps T (case w of WaitEnds r \<Rightarrow> f r | WaitExpires \<Rightarrow> m | WaitCancelled \<Rightarrow> n)"
  by (cases w) simp_all

lemma tkeeps_sum: "(\<And>e. tkeeps T (f e)) \<Longrightarrow> (\<And>x. tkeeps T (g x)) \<Longrightarrow> tkeeps T (case r of Inl e \<Rightarrow> f e | Inr x \<Rightarrow> g x)"
  by (cases r) simp_all

lemma tkeeps_pair: "(\<And>a b. tkeeps T (f a b)) \<Longrightarrow> tkeeps T (case p of (a, b) \<Rightarrow> f a b)"
  by (cases p) simp

lemmas tkeeps_rules = tkeeps_simple tkeeps_bind tkeeps_get tkeeps_catch tkeeps_finally tkeeps_if tkeeps_except
  tkeeps_option tkeeps_wait_end tkeeps_sum tkeeps_pair

lemma tkeepsD: "tkeeps T m \<Longrightarrow> T s \<Longrightarrow> T (transport_after m env s)"
  using tp_specD[of T m "\<lambda>_. T" "\<lambda>_. T" T s env]
  by (cases rule: end_cases[of "m env s"]) (auto simp: tkeeps_def transport_after_def)

lemma tkeeps_spec: "tkeeps T m \<Longrightarrow> (\<And>s. P s \<Longrightarrow> T s) \<Longrightarrow> (\<And>s. T s \<Longrightarrow> R s) \<Longrightarrow> tp_spec P m (\<lambda>_. R) (\<lambda>_. R) R"
  unfolding tkeeps_def by (rule tp_mono[of T m "\<lambda>_. T" "\<lambda>_. T" T]) auto

section \<open>What operations keep\<close>

text \<open>The part of the state that the properties are about.\<close>

definition essence :: "transport \<Rightarrow>
    (nat option \<times> int \<times> int list) \<times> (connector_start list \<times> ownership_token list \<times> ownership_token option) \<times>
    (ownership_registry \<times> nat list)" where
  "essence s = ((tr_client s, tr_generation s, tr_reported s), (tr_started s, tr_claims s, tr_token s),
     (tr_registry s, tr_ended s))"

locale transport_frame =
  fixes T :: "transport \<Rightarrow> bool"
  assumes same: "T s \<Longrightarrow> essence s' = essence s \<Longrightarrow> T s'"
    and events: "T s \<Longrightarrow> T (transport_event_step s x)"
    and tracks: "T s \<Longrightarrow> T (snd (start_task s))"
    and owns: "T s \<Longrightarrow> T (snd (ensure_owned address s))"
begin

lemma bookkeeping: "(\<And>s. essence (f s) = essence s) \<Longrightarrow> tkeeps T (tp_modify f)"
  by (rule tkeeps_modify) (rule same)

lemma stage: "tkeeps T (tp_modify (set_stage st))"
  by (rule bookkeeping) (simp add: essence_def set_stage_def)

lemma ends: "tkeeps T (tp_modify (use_registry (OTaskEnds t)))"
  by (rule tkeeps_modify) (use events[of _ "TaskEnds t" for t] in simp)

lemma pause: "tkeeps T tp_pause"
  unfolding tkeeps_def by (rule tp_pause_spec) (rule events)

lemma wait: "tkeeps T (tp_wait task)"
  unfolding tp_wait_def by (intro tkeeps_rules pause ends)

lemma sleep: "tkeeps T tp_sleep"
  unfolding tp_sleep_def by (intro tkeeps_rules pause)

lemma tail: "tkeeps T (cancelled_tail task)"
  unfolding cancelled_tail_def by (intro tkeeps_rules wait)

lemma start: "tkeeps T (tp_sync start_task)"
  by (rule tkeeps_sync) (rule tracks)

lemma bounded: "tkeeps T (bounded_task e)"
  unfolding bounded_task_def by (intro tkeeps_rules start wait tail)

lemma backend: "tkeeps T gatt_operation" "tkeeps T cleanup_operation" "tkeeps T gatt_operation_quietly"
    "tkeeps T gatt_operation_checked"
  unfolding gatt_operation_def cleanup_operation_def gatt_operation_quietly_def gatt_operation_checked_def
  by (intro tkeeps_rules bounded)+

lemma abort: "tkeeps T abort_connecting_client"
  unfolding abort_connecting_client_def by (intro tkeeps_rules stage backend)

lemma checks: "tkeeps T (stale_checks n deadline)"
proof (induction n)
  case 0
  then show ?case by (simp add: tkeeps_def tp_spec_def)
next
  case (Suc n)
  have "tkeeps T (tp_bind cleanup_operation (\<lambda>v. if ta_count v = 0 then tp_return ()
      else tp_get (\<lambda>s. if deadline \<le> tr_clock s then tp_raise BluetoothUnavailableError
                       else tp_then tp_sleep (stale_checks n deadline))))"
    by (intro tkeeps_rules backend sleep Suc.IH)
  then show ?case by (simp add: tkeeps_def tp_spec_def)
qed

lemma verify: "tkeeps T (verify_no_connection deadline)"
  using checks by (simp add: tkeeps_def tp_spec_def verify_no_connection_def del: stale_checks.simps)

lemma closing: "tkeeps T close_and_verify"
  unfolding close_and_verify_def Let_def by (intro tkeeps_rules backend verify)

lemma forget_connecting: "tkeeps T (tp_modify (\<lambda>s. s\<lparr>tr_connecting := None, tr_connecting_address := None\<rparr>))"
  by (rule bookkeeping) (simp add: essence_def)

lemma cleaning_with:
  assumes "\<And>token. releasing \<Longrightarrow> tkeeps T (release_token token)"
  shows "tkeeps T (cleanup_stale_connection late releasing)"
  unfolding cleanup_stale_connection_def
  by (intro tkeeps_rules closing forget_connecting tkeeps_sync owns assms)

lemmas cleaning = cleaning_with[of False, simplified]

lemma diagnosing: "tkeeps T timeout_diagnostics"
  unfolding timeout_diagnostics_def by (intro tkeeps_rules start wait tail)

end

locale transport_owner = transport_frame +
  assumes releases: "T s \<Longrightarrow> T (release_address t s)"
    and cancels: "T s \<Longrightarrow> T (on_token (\<lambda>t g. snd (mark_cancellation_requested t g)) s)"
    and lets_go: "T s \<Longrightarrow> T (let_client_go s)"
begin

lemma release: "tkeeps T (release_token token)"
  by (cases token) (simp_all add: release_token_def tkeeps_simple tkeeps_modify releases)

lemma clean: "tkeeps T (cleanup_stale_connection late releasing)"
  by (rule cleaning_with) (rule release)

lemma late: "tkeeps T (late_cleanup task outcome)"
proof -
  have "tkeeps T (tp_modify (\<lambda>s. (if tr_connector s = Some task then s\<lparr>tr_connector := None\<rparr> else s)
      \<lparr>tr_detached := False\<rparr>))" "tkeeps T (tp_modify (\<lambda>s. s\<lparr>tr_connecting := Some c\<rparr>))" for c
    by (rule bookkeeping, simp add: essence_def)+
  then show ?thesis
    unfolding late_cleanup_def Let_def by (intro tkeeps_rules clean release backend)
qed

lemma run_late: "tkeeps T (run_late_cleanup k task outcome)"
  unfolding run_late_cleanup_def by (intro tkeeps_rules late ends)

lemma cancelling: "tkeeps T (cancel_connector task)"
proof -
  have "tkeeps T (tp_modify (\<lambda>s. on_token (\<lambda>t g. snd (mark_cancellation_requested t g)) (s\<lparr>tr_detached := True\<rparr>)))"
    by (intro tkeeps_modify cancels) (erule same, simp add: essence_def)
  then show ?thesis
    unfolding cancel_connector_def by (intro tkeeps_rules wait sleep pause run_late)
qed

lemma acknowledged: "tkeeps T (tp_bind (cancel_connector task) (\<lambda>ok.
    if ok then tp_modify (release_connector task) else tp_return ()))"
  by (intro tkeeps_rules cancelling bookkeeping) (simp add: essence_def release_connector_def)

lemma disconnecting: "tkeeps T transport_disconnect"
  unfolding transport_disconnect_def by (intro tkeeps_rules stage backend tkeeps_modify lets_go)

lemma aborting: "tkeeps T abort_and_clean"
  unfolding abort_and_clean_def by (intro tkeeps_rules abort clean)

lemma failing: "tkeeps T (after_deadline t)" "tkeeps T (after_failure e)"
  unfolding after_deadline_def after_failure_def by (intro tkeeps_rules aborting)+

lemma with_client: "(\<And>c n. tkeeps T (f c n)) \<Longrightarrow> tkeeps T (with_client f)"
  unfolding with_client_def by (intro tkeeps_rules)

lemma subscribing: "tkeeps T transport_subscribe"
  unfolding transport_subscribe_def
  by (intro with_client tkeeps_rules backend stage bookkeeping) (simp add: essence_def set_stage_def)

lemma writing: "tkeeps T (transport_write data)"
  unfolding transport_write_def
  by (intro with_client tkeeps_rules backend stage bookkeeping) (simp_all add: essence_def set_stage_def)

text \<open>Every operation but connecting.\<close>

lemma operate:
  assumes "\<And>address. m \<noteq> TrConnect address" "T s"
  shows "T (transport_operate m env s)"
proof (cases m)
  case (TrLateCleanup outcome)
  have "tkeeps T (tp_get (\<lambda>s. case tr_late_cleanup s of None \<Rightarrow> tp_return ()
      | Some (k, task) \<Rightarrow> if task_ended s k then tp_return () else run_late_cleanup k task outcome))"
    by (intro tkeeps_rules run_late)
  from tkeepsD[OF this assms(2)] TrLateCleanup show ?thesis by simp
next
  case (TrSetCallback b)
  have "tkeeps T (tp_modify (\<lambda>s. s\<lparr>tr_disconnect_callback := b\<rparr>))" by (rule bookkeeping) (simp add: essence_def)
  from tkeepsD[OF this assms(2)] TrSetCallback show ?thesis by simp
qed (use assms tkeepsD[OF subscribing] tkeepsD[OF writing] tkeepsD[OF disconnecting] tkeepsD[OF clean] in auto)

end

end
