(* ===== verification/Transport_Contract.thy ===== *)
theory Transport_Contract
  imports Transport_Facts
begin

text \<open>
  What the transport guarantees: while a connector may still run its address belongs to nobody else, each
  connection reports its loss at most once, and a connection attempt that returns leaves a usable client
  on an address the transport owns.
\<close>

section \<open>Invariants\<close>

text \<open>A connector that has not ended is tracked by the token it was started under, and every connector has
  a token of its own.\<close>

definition connector_tracked :: "transport \<Rightarrow> connector_start \<Rightarrow> bool" where
  "connector_tracked s x \<longleftrightarrow> task_ended s (cn_task x) \<or>
     (\<exists>r. token_record (cn_token x) (tr_registry s) = Some r \<and> cn_task x \<in> set (ow_tasks r) \<and>
        tk_address (cn_token x) = normalize_address (cn_address x))"

definition connectors_ok :: "transport \<Rightarrow> bool" where
  "connectors_ok s \<longleftrightarrow> registry_ok (tr_registry s) \<and> distinct (map cn_token (tr_started s)) \<and>
     (\<forall>x \<in> set (tr_started s). tk_serial (cn_token x) \<le> rg_serial (tr_registry s) \<and> connector_tracked s x)"

text \<open>Losses are reported in the order of the connections; the current one is not reported while the client
  is there.\<close>

definition losses_ok :: "transport \<Rightarrow> bool" where
  "losses_ok s \<longleftrightarrow> sorted_wrt (<) (tr_reported s) \<and> (\<forall>n \<in> set (tr_reported s). n \<le> tr_generation s) \<and>
     (tr_client s \<noteq> None \<longrightarrow> tr_generation s \<notin> set (tr_reported s))"

definition transport_ok :: "transport \<Rightarrow> bool" where
  "transport_ok s \<longleftrightarrow> connectors_ok s \<and> losses_ok s"

definition no_client :: "transport \<Rightarrow> bool" where
  "no_client s \<longleftrightarrow> transport_ok s \<and> tr_client s = None"

text \<open>During an attempt the token is current and nobody has asked for its release; before the connector is
  started the token has none.\<close>

definition attempting :: "ownership_token \<Rightarrow> string \<Rightarrow> transport \<Rightarrow> bool" where
  "attempting t address s \<longleftrightarrow> no_client s \<and> tr_token s = Some t \<and> t \<in> set (tr_claims s) \<and>
     tk_address t = normalize_address address \<and>
     (\<exists>r. token_record t (tr_registry s) = Some r \<and> \<not> ow_release_requested r)"

definition fresh_attempt :: "ownership_token \<Rightarrow> string \<Rightarrow> transport \<Rightarrow> bool" where
  "fresh_attempt t address s \<longleftrightarrow> attempting t address s \<and> t \<notin> cn_token ` set (tr_started s)"

definition numbered :: "int \<Rightarrow> transport \<Rightarrow> bool" where
  "numbered n s \<longleftrightarrow> tr_generation s = n \<and> n \<notin> set (tr_reported s)"

section \<open>Changes of the registry\<close>

text \<open>Serials only grow, the tasks that have not ended stay tracked, and a token of the transport whose
  release was not requested stays current, unless the transport lets go of it itself.\<close>

definition registry_change :: "bool \<Rightarrow> transport \<Rightarrow> transport \<Rightarrow> bool" where
  "registry_change own s s' \<longleftrightarrow> registry_le (tr_registry s) (tr_registry s') \<and>
     (\<forall>t. keeps_record (tr_ended s) t (own \<or> t \<notin> set (tr_claims s)) True (tr_registry s) (tr_registry s')) \<and>
     set (tr_ended s) \<subseteq> set (tr_ended s') \<and> tr_started s' = tr_started s"

lemma keeps_record_mono:
  "keeps_record ended t b d g g' \<Longrightarrow> (b \<Longrightarrow> b') \<Longrightarrow> (d \<Longrightarrow> d') \<Longrightarrow> keeps_record ended t b' d' g g'"
  unfolding keeps_record_def record_free_def record_le_def by blast

lemma connectors_change:
  assumes "connectors_ok s" "registry_change own s s'"
  shows "connectors_ok s'"
proof -
  from assms(2) have le: "registry_le (tr_registry s) (tr_registry s')"
    and more: "set (tr_ended s) \<subseteq> set (tr_ended s')" "tr_started s' = tr_started s"
    by (auto simp: registry_change_def)
  from assms(2) have keep: "keeps_record (tr_ended s) t True True (tr_registry s) (tr_registry s')" for t
    unfolding registry_change_def by (auto elim!: allE[of _ t] keeps_record_mono)
  have "connector_tracked s' x" if "connector_tracked s x" for x
    using that keep[of "cn_token x"] more(1)
    by (fastforce simp: connector_tracked_def task_ended_def keeps_record_def record_free_def record_le_def)
  with assms(1) le more(2) show ?thesis by (fastforce simp: connectors_ok_def registry_le_def)
qed

lemma attempting_change:
  assumes "\<exists>r. token_record t (tr_registry s) = Some r \<and> \<not> ow_release_requested r" "t \<in> set (tr_claims s)"
    "registry_change False s s'"
  shows "\<exists>r. token_record t (tr_registry s') = Some r \<and> \<not> ow_release_requested r"
proof -
  have "keeps_record (tr_ended s) t False True (tr_registry s) (tr_registry s')"
    using assms(2,3) by (auto simp: registry_change_def dest: spec[of _ t])
  with assms(1) show ?thesis by (fastforce simp: keeps_record_def record_free_def record_le_def)
qed

text \<open>What the transport itself does to the registry.\<close>

lemma on_token_change:
  assumes "registry_ok (tr_registry s)" "\<And>t g. registry_ok g \<Longrightarrow> registry_le g (f t g)"
    "\<And>t t' g. keeps_record (tr_ended s) t' False True g (f t g)"
  shows "registry_change False s (on_token f s)"
  using assms keeps_record_mono[OF assms(3)]
  by (auto simp: registry_change_def on_token_def on_registry_def registry_le_refl keeps_record_same split: option.split)

lemma start_task_change:
  "registry_ok (tr_registry s) \<Longrightarrow> registry_change False s (snd (start_task s))"
  using on_token_change[of "s\<lparr>tr_next := tr_next s + 1\<rparr>" "\<lambda>t g. snd (track_task t (tr_next s) g)"]
  by (simp add: start_task_def registry_change_def registry_le_holder keeps_record_holder)

lemma mark_change:
  "registry_ok (tr_registry s) \<Longrightarrow>
     registry_change False s (on_token (\<lambda>t g. snd (mark_cancellation_requested t g)) s)"
  by (rule on_token_change) (simp_all add: mark_cancellation_requested_def registry_le_holder keeps_record_holder)

lemma observe_change:
  assumes "registry_ok (tr_registry s)"
  shows "registry_change False s (observe_connector task s)"
proof -
  have "registry_le g (snd (track_task t k (snd (mark_late_cleanup t g))))" if "registry_ok g" for t g k
    using registry_le_trans[OF registry_le_holder(1)[OF that] registry_le_holder(2)] registry_le_holder(1)[OF that]
    by (simp add: mark_late_cleanup_def registry_le_def)
  moreover have "keeps_record ended t' False True g (snd (track_task t k (snd (mark_late_cleanup t g))))" for t t' g k ended
    unfolding mark_late_cleanup_def by (rule keeps_record_trans[OF keeps_record_holder(1) keeps_record_holder(2)])
  ultimately show ?thesis
    using on_token_change[of "s\<lparr>tr_next := tr_next s + 1, tr_late_cleanup := Some (tr_next s, task)\<rparr>"
        "\<lambda>t g. snd (track_task t (tr_next s) (snd (mark_late_cleanup t g)))"] assms
    by (auto simp: observe_connector_def registry_change_def registry_le_refl keeps_record_same Let_def)
qed

lemma use_registry_change:
  assumes "registry_ok (tr_registry s)" "allowed_to_others i s"
  shows "registry_change False s (use_registry i s)"
proof -
  obtain g ended where step: "ownership_step (tr_registry s, tr_ended s) i = (g, ended)" by fastforce
  have "set (tr_ended s) \<subseteq> set ended" using step by (cases i) auto
  moreover have "keeps_record (tr_ended s) t (t \<notin> set (tr_claims s)) True (tr_registry s) g" for t
    using ownership_step_record[OF assms(1), of "tr_ended s" t i] step assms(2)
    by (auto simp: allowed_to_others_def asks_release_def elim!: keeps_record_mono)
  moreover have "registry_le (tr_registry s) g"
    using registry_le_step[of "(tr_registry s, tr_ended s)" i] assms(1) step by simp
  ultimately show ?thesis by (simp add: registry_change_def use_registry_def step)
qed

lemma task_ended_set: "(\<lambda>t. t \<in> set (tr_ended s)) = task_ended s"
  by (simp add: task_ended_def fun_eq_iff)

lemma owned_change:
  "registry_ok (tr_registry s) \<Longrightarrow> registry_change False s (snd (address_owned address s))"
  using use_registry_change[of s "OIsOwned address"]
  by (auto simp: use_registry_def address_owned_def allowed_to_others_def task_ended_set registry_change_def
      split: prod.splits)

lemma claim_change:
  assumes "registry_ok (tr_registry s)"
  shows "registry_change False s (snd (claim_address address s))"
  using use_registry_change[of s "OClaim (tr_clock s) address"] assms
  by (auto simp: use_registry_def claim_address_def allowed_to_others_def task_ended_set registry_change_def
      split: prod.splits option.splits)

lemma ensure_owned_change:
  assumes "registry_ok (tr_registry s)"
  shows "registry_change False s (snd (ensure_owned address s))"
proof -
  obtain b s1 where o: "address_owned address s = (b, s1)" by fastforce
  have c1: "registry_change False s s1" using owned_change[OF assms, of address] o by simp
  then have ok: "registry_ok (tr_registry s1)" by (simp add: registry_change_def registry_le_def)
  have same: "tr_claims s1 = tr_claims s" "tr_ended s1 = tr_ended s"
    using o by (auto simp: address_owned_def split: prod.splits)
  have "registry_change False s (snd (claim_address address s1))"
    using c1 claim_change[OF ok, of address] same unfolding registry_change_def
    by (auto intro: registry_le_trans keeps_record_trans)
  with c1 o assms show ?thesis
    by (auto simp: ensure_owned_def registry_change_def registry_le_refl keeps_record_same split: bool.split)
qed

lemma release_change:
  assumes "registry_ok (tr_registry s)"
  shows "registry_change True s (release_address t s)"
proof -
  let ?f = "task_ended s"
  note ok1 = registry_le_holder(3)[OF assms, of ?f t]
  then have "registry_ok (request_release ?f t (tr_registry s))" by (simp add: registry_le_def)
  from registry_le_trans[OF ok1 registry_le_holder(4)[OF this, of ?f t]]
  have "registry_le (tr_registry s) (finish_cleanup ?f t (request_release ?f t (tr_registry s)))" .
  moreover have "keeps_record (tr_ended s) t' True True (tr_registry s)
      (finish_cleanup ?f t (request_release ?f t (tr_registry s)))" for t'
    unfolding task_ended_set[symmetric]
    by (rule keeps_record_trans[OF keeps_record_holder(3) keeps_record_holder(4)]) simp_all
  ultimately show ?thesis by (simp add: registry_change_def release_address_def on_registry_def Let_def)
qed

text \<open>What an event does to the rest.\<close>

lemma event_change:
  assumes "registry_ok (tr_registry s)"
  shows "registry_change False s (transport_event_step s x)"
proof -
  have same: "registry_change False s s'"
    if "tr_registry s' = tr_registry s" "tr_ended s' = tr_ended s" "tr_started s' = tr_started s" for s'
    using that assms by (simp add: registry_change_def registry_le_refl keeps_record_same)
  show ?thesis
  proof (cases x)
    case (TaskEnds t)
    with use_registry_change[OF assms, of "OTaskEnds t"] show ?thesis by (simp add: allowed_to_others_def)
  next
    case (Others i)
    with use_registry_change[OF assms] same[of s] show ?thesis by simp
  next
    case (ConnectorObserved t)
    with observe_change[OF assms] same[of s] show ?thesis by simp
  qed (auto intro!: same simp: disconnected_from_bleak_def handle_disconnected_def notification_received_def
      observe_connector_cleanup_def let_client_go_def set_stage_def Let_def split: list.split)
qed

lemma event_rest:
  "tr_claims (transport_event_step s x) = tr_claims s" "tr_token (transport_event_step s x) = tr_token s"
  "tr_generation (transport_event_step s x) = tr_generation s"
  "tr_client s = None \<Longrightarrow> tr_client (transport_event_step s x) = None \<and>
     tr_reported (transport_event_step s x) = tr_reported s"
  by (cases x; auto simp: disconnected_from_bleak_def handle_disconnected_def notification_received_def
      observe_connector_cleanup_def observe_connector_def on_token_def on_registry_def let_client_go_def set_stage_def
      use_registry_def Let_def split: list.split option.split prod.split)+

section \<open>What every operation keeps\<close>

lemma losses_event: "losses_ok s \<Longrightarrow> losses_ok (transport_event_step s x)"
proof (cases x)
  case LoopHandlesDisconnect
  assume ok: "losses_ok s"
  then have sorted: "sorted_wrt (<) (tr_reported s @ [tr_generation s])" if "tr_client s \<noteq> None"
    using that by (fastforce simp: losses_ok_def sorted_wrt_append order_less_le)
  show ?thesis
  proof (cases "tr_queued s")
    case (Cons e q)
    with ok sorted LoopHandlesDisconnect show ?thesis
      by (cases e) (auto simp: losses_ok_def handle_disconnected_def let_client_go_def set_stage_def Let_def)
  qed (use ok LoopHandlesDisconnect in simp)
qed (auto simp: losses_ok_def disconnected_from_bleak_def notification_received_def observe_connector_cleanup_def
    observe_connector_def on_token_def on_registry_def use_registry_def Let_def split: option.split prod.split)

text \<open>The registry is changed without the client, and only \<open>ensure_owned\<close> and \<open>release_address\<close> change the token.\<close>

lemma registry_only:
  "tr_client (snd (start_task s)) = tr_client s" "tr_generation (snd (start_task s)) = tr_generation s"
  "tr_reported (snd (start_task s)) = tr_reported s" "tr_token (snd (start_task s)) = tr_token s"
  "tr_claims (snd (start_task s)) = tr_claims s"
  "tr_client (snd (ensure_owned a s)) = tr_client s" "tr_generation (snd (ensure_owned a s)) = tr_generation s"
  "tr_reported (snd (ensure_owned a s)) = tr_reported s"
  "tr_client (release_address t s) = tr_client s" "tr_generation (release_address t s) = tr_generation s"
  "tr_reported (release_address t s) = tr_reported s"
  "tr_client (on_token f s) = tr_client s" "tr_generation (on_token f s) = tr_generation s"
  "tr_reported (on_token f s) = tr_reported s"
  by (auto simp: start_task_def on_token_def on_registry_def ensure_owned_def address_owned_def claim_address_def
      release_address_def Let_def split: option.split prod.split bool.split)

lemma losses_same:
  "tr_client s' = tr_client s \<Longrightarrow> tr_generation s' = tr_generation s \<Longrightarrow> tr_reported s' = tr_reported s \<Longrightarrow>
   losses_ok s \<Longrightarrow> losses_ok s'"
  by (simp add: losses_ok_def)

lemma registry_sound: "transport_ok s \<Longrightarrow> registry_ok (tr_registry s)"
  by (simp add: transport_ok_def connectors_ok_def)

lemma transport_change:
  assumes "transport_ok s" "registry_change own s s'" "losses_ok s'"
  shows "transport_ok s'"
  using assms connectors_change by (auto simp: transport_ok_def)

lemma transport_ok_essence: "transport_ok s \<Longrightarrow> essence s' = essence s \<Longrightarrow> transport_ok s'"
  by (auto simp: transport_ok_def connectors_ok_def connector_tracked_def losses_ok_def essence_def task_ended_def)

lemma transport_ok_steps:
  assumes "transport_ok s"
  shows "transport_ok (transport_event_step s x)" "transport_ok (snd (start_task s))"
    "transport_ok (snd (ensure_owned a s))" "transport_ok (release_address t s)"
    "transport_ok (on_token (\<lambda>t g. snd (mark_cancellation_requested t g)) s)"
proof -
  note ok = registry_sound[OF assms]
  have losses: "losses_ok s" using assms by (simp add: transport_ok_def)
  show "transport_ok (transport_event_step s x)"
    by (rule transport_change[OF assms event_change[OF ok] losses_event[OF losses]])
  show "transport_ok (snd (start_task s))"
    by (rule transport_change[OF assms start_task_change[OF ok] losses_same[OF _ _ _ losses]]) (simp_all add: registry_only)
  show "transport_ok (snd (ensure_owned a s))"
    by (rule transport_change[OF assms ensure_owned_change[OF ok] losses_same[OF _ _ _ losses]]) (simp_all add: registry_only)
  show "transport_ok (release_address t s)"
    by (rule transport_change[OF assms release_change[OF ok] losses_same[OF _ _ _ losses]]) (simp_all add: registry_only)
  show "transport_ok (on_token (\<lambda>t g. snd (mark_cancellation_requested t g)) s)"
    by (rule transport_change[OF assms mark_change[OF ok] losses_same[OF _ _ _ losses]]) (simp_all add: registry_only)
qed

lemma transport_ok_lets_go: "transport_ok s \<Longrightarrow> transport_ok (let_client_go s)"
  by (auto simp: transport_ok_def connectors_ok_def connector_tracked_def losses_ok_def let_client_go_def task_ended_def)

interpretation sound: transport_owner transport_ok
  by unfold_locales (fact transport_ok_essence transport_ok_steps transport_ok_lets_go)+

lemma no_client_essence: "no_client s \<Longrightarrow> essence s' = essence s \<Longrightarrow> no_client s'"
  using transport_ok_essence by (auto simp: no_client_def essence_def)

interpretation idle: transport_owner no_client
proof unfold_locales
  fix s s' :: transport and x address t
  assume s: "no_client s"
  then have ok: "transport_ok s" by (simp add: no_client_def)
  show "no_client s'" if "essence s' = essence s" by (rule no_client_essence[OF s that])
  show "no_client (transport_event_step s x)" "no_client (snd (start_task s))"
    "no_client (snd (ensure_owned address s))" "no_client (release_address t s)"
    "no_client (on_token (\<lambda>t g. snd (mark_cancellation_requested t g)) s)" "no_client (let_client_go s)"
    using s transport_ok_steps[OF ok] transport_ok_lets_go[OF ok] event_rest(4)
    by (simp_all add: no_client_def registry_only) (simp add: let_client_go_def)
qed

section \<open>An attempt\<close>

lemma attempting_current: "attempting t address s \<Longrightarrow> token_is_current s"
  by (auto simp: attempting_def token_is_current_def is_current_token_record)

lemma attempting_steps:
  assumes "attempting t address s"
  shows "attempting t address (transport_event_step s x)" "attempting t address (snd (start_task s))"
proof -
  from assms have s: "no_client s" "tr_token s = Some t" "t \<in> set (tr_claims s)" "tk_address t = normalize_address address"
    "\<exists>r. token_record t (tr_registry s) = Some r \<and> \<not> ow_release_requested r"
    and ok: "registry_ok (tr_registry s)"
    by (auto simp: attempting_def no_client_def transport_ok_def connectors_ok_def)
  show "attempting t address (transport_event_step s x)"
    using s idle.events[OF s(1), of x] attempting_change[OF s(5,3) event_change[OF ok, of x]]
    by (simp add: attempting_def event_rest)
  show "attempting t address (snd (start_task s))"
    using s idle.tracks[OF s(1)] attempting_change[OF s(5,3) start_task_change[OF ok]]
    by (simp add: attempting_def registry_only)
qed

lemma started_steps:
  "tr_started (transport_event_step s x) = tr_started s" if "registry_ok (tr_registry s)" for s x
  using event_change[OF that] by (simp add: registry_change_def)

interpretation attempt: transport_frame "attempting t address" for t address
proof unfold_locales
  fix s s' :: transport and x a
  assume s: "attempting t address s"
  show "attempting t address s'" if "essence s' = essence s"
    using s that no_client_essence by (auto simp: attempting_def essence_def)
  show "attempting t address (transport_event_step s x)" "attempting t address (snd (start_task s))"
    using attempting_steps[OF s] by blast+
  show "attempting t address (snd (ensure_owned a s))"
    using s attempting_current[OF s] by (simp add: ensure_owned_def)
qed

interpretation unstarted: transport_frame "fresh_attempt t address" for t address
proof unfold_locales
  fix s s' :: transport and x a
  assume s: "fresh_attempt t address s"
  then have a: "attempting t address s" by (simp add: fresh_attempt_def)
  then have ok: "registry_ok (tr_registry s)" by (auto simp: attempting_def no_client_def registry_sound)
  show "fresh_attempt t address s'" if "essence s' = essence s"
    using s that attempt.same[OF a that] by (simp add: fresh_attempt_def essence_def)
  show "fresh_attempt t address (transport_event_step s x)"
    using s attempt.events[OF a] by (simp add: fresh_attempt_def started_steps[OF ok])
  show "fresh_attempt t address (snd (start_task s))"
    using s attempt.tracks[OF a] start_task_change[OF ok] by (simp add: fresh_attempt_def registry_change_def)
  show "fresh_attempt t address (snd (ensure_owned a s))"
    using s attempting_current[OF a] by (simp add: ensure_owned_def)
qed

text \<open>With the generation of the attempt.\<close>

interpretation numbered_attempt: transport_frame "\<lambda>s. attempting t address s \<and> numbered n s" for t address n
proof unfold_locales
  fix s s' :: transport and x a
  assume s: "attempting t address s \<and> numbered n s"
  then have client: "tr_client s = None" by (simp add: attempting_def no_client_def)
  show "attempting t address s' \<and> numbered n s'" if "essence s' = essence s"
    using s that attempt.same[of t address s s'] by (simp add: numbered_def essence_def)
  show "attempting t address (transport_event_step s x) \<and> numbered n (transport_event_step s x)"
    using s attempt.events[of t address s x] event_rest(3,4)[of s x] client by (simp add: numbered_def)
  show "attempting t address (snd (start_task s)) \<and> numbered n (snd (start_task s))"
    using s attempt.tracks[of t address s] by (simp add: numbered_def registry_only)
  show "attempting t address (snd (ensure_owned a s)) \<and> numbered n (snd (ensure_owned a s))"
    using s attempt.owns[of t address s a] by (simp add: numbered_def registry_only)
qed

end
