(* ===== verification/Transport_Connection.thy ===== *)
theory Transport_Connection
  imports Transport_Contract
begin

text \<open>
  A connection attempt from the claim of the address to the adopted client, and the properties of every
  run of a transport.
\<close>

section \<open>What is raised\<close>

definition raises_only :: "exn set \<Rightarrow> 'a tp \<Rightarrow> bool" where
  "raises_only S m \<longleftrightarrow> tp_spec (\<lambda>_. True) m (\<lambda>_ _. True) (\<lambda>e _. e \<in> S) (\<lambda>_. True)"

lemma raises_basic:
  "raises_only S (tp_return x)" "e \<in> S \<Longrightarrow> raises_only S (tp_raise e)" "raises_only S (tp_sync f)"
  "raises_only S (tp_modify g)" "raises_only S tp_pause" "raises_only S (tp_attempt m)"
proof -
  have ends: "ends_ok (\<lambda>_ _. True) E (\<lambda>_. True) r" if "\<And>e env s. r = (Finished (Inl e), env, s) \<Longrightarrow> E e s" for E r
    using that by (cases rule: end_cases[of r]) auto
  show "raises_only S (tp_return x)" "e \<in> S \<Longrightarrow> raises_only S (tp_raise e)" "raises_only S (tp_sync f)"
    "raises_only S (tp_modify g)" "raises_only S tp_pause" "raises_only S (tp_attempt m)"
    unfolding raises_only_def tp_spec_def
    by (auto intro!: ends simp: tp_return_def tp_raise_def tp_sync_def tp_modify_def tp_pause_def tp_attempt_def
        split: list.splits prod.splits progress.splits)
qed

lemma raises_bind: "raises_only S m \<Longrightarrow> (\<And>x. raises_only S (f x)) \<Longrightarrow> raises_only S (tp_bind m f)"
  unfolding raises_only_def by (rule tp_bind_spec)

lemma raises_get: "(\<And>s. raises_only S (f s)) \<Longrightarrow> raises_only S (tp_get f)"
  unfolding raises_only_def by (rule tp_get_any)

lemma raises_cases:
  "(b \<Longrightarrow> raises_only S m) \<Longrightarrow> (\<not> b \<Longrightarrow> raises_only S n) \<Longrightarrow> raises_only S (if b then m else n)"
  "raises_only S m \<Longrightarrow> (\<And>x. raises_only S (f x)) \<Longrightarrow> raises_only S (case r of None \<Rightarrow> m | Some x \<Rightarrow> f x)"
  by (simp, cases r) simp_all

lemma raises_wait_end:
  "(\<And>r. raises_only S (f r)) \<Longrightarrow> raises_only S m \<Longrightarrow> raises_only S n \<Longrightarrow>
   raises_only S (case w of WaitEnds r \<Rightarrow> f r | WaitExpires \<Rightarrow> m | WaitCancelled \<Rightarrow> n)"
  by (cases w) simp_all

lemma raises_catch: "(\<And>e. raises_only S (h e)) \<Longrightarrow> raises_only S (tp_catch m h)"
  unfolding tp_catch_def by (intro raises_bind raises_basic) (auto intro: raises_basic split: sum.split)

lemma raises_except: "CancelledError \<in> S \<Longrightarrow> (\<And>e. raises_only S (h e)) \<Longrightarrow> raises_only S (tp_except m h)"
  unfolding tp_except_def by (intro raises_catch raises_cases raises_basic) simp_all

lemma raises_finally:
  assumes "raises_only S m" "raises_only S n"
  shows "raises_only S (tp_finally m n)"
proof -
  have "tp_spec (\<lambda>_. e \<in> S) n (\<lambda>_ _. e \<in> S) (\<lambda>e _. e \<in> S) (\<lambda>_. True)" for e
    using assms(2) by (cases "e \<in> S") (simp_all add: raises_only_def tp_spec_def)
  with assms show ?thesis unfolding raises_only_def by (intro tp_finally_spec)
qed

lemmas raises_rules = raises_basic raises_bind raises_get raises_cases raises_wait_end raises_except raises_finally

lemma raises_release: "raises_only S (release_token token)"
  unfolding release_token_def by (intro raises_rules)

lemma raises_quiet: "CancelledError \<in> S \<Longrightarrow> raises_only S gatt_operation_quietly"
  unfolding gatt_operation_quietly_def by (intro raises_rules)

lemma raises_abort: "CancelledError \<in> S \<Longrightarrow> raises_only S abort_connecting_client"
  unfolding abort_connecting_client_def by (intro raises_rules raises_quiet)

lemma raises_clean: "CancelledError \<in> S \<Longrightarrow> raises_only S (cleanup_stale_connection late releasing)"
  unfolding cleanup_stale_connection_def by (intro raises_rules raises_release)

lemma raises_disconnect: "CancelledError \<in> S \<Longrightarrow> raises_only S transport_disconnect"
  unfolding transport_disconnect_def by (intro raises_rules raises_quiet)

lemma raises_abort_clean: "CancelledError \<in> S \<Longrightarrow> raises_only S abort_and_clean"
  unfolding abort_and_clean_def by (intro raises_rules raises_abort raises_clean)

text \<open>What connecting raises besides what the look-up of the services does.\<close>

definition connection_errors :: "exn set" where
  "connection_errors = {BluetoothUnavailableError, GattTransportError, CancelledError}"

lemma connection_errors [simp]:
  "BluetoothUnavailableError \<in> connection_errors" "GattTransportError \<in> connection_errors"
  "CancelledError \<in> connection_errors"
  by (simp_all add: connection_errors_def)

lemma raises_failing: "raises_only connection_errors (after_deadline t)" "raises_only connection_errors (after_failure e)"
  unfolding after_deadline_def after_failure_def by (intro raises_rules raises_abort_clean; simp)+

lemma keeps_and_raises:
  assumes "tkeeps T m" "raises_only connection_errors m"
  shows "tp_spec T m (\<lambda>_. T) (\<lambda>e s. T s \<and> e \<in> connection_errors) T"
  using tp_conj[OF assms(1)[unfolded tkeeps_def] assms(2)[unfolded raises_only_def]] by (rule tp_mono) auto

section \<open>The steps of an attempt\<close>

abbreviation failed_idle :: "exn \<Rightarrow> transport \<Rightarrow> bool" where
  "failed_idle \<equiv> \<lambda>e s. no_client s \<and> e \<in> connection_errors"

lemma disconnect_spec: "tp_spec transport_ok transport_disconnect (\<lambda>_. no_client) failed_idle transport_ok"
  unfolding transport_disconnect_def
proof (rule tp_get_spec)
  fix s0
  have go: "tp_spec (\<lambda>s. transport_ok s \<and> s = s0) (tp_modify let_client_go) (\<lambda>_. no_client) failed_idle transport_ok"
    by (rule tp_modify_spec) (auto simp: no_client_def transport_ok_lets_go, simp add: let_client_go_def)
  have rest: "tp_spec no_client (case tr_client s0 of None \<Rightarrow> tp_return ()
      | Some c \<Rightarrow> tp_then (tp_modify (set_stage Disconnecting)) (tp_finally
          (tp_get (\<lambda>s. if c \<in> set (tr_links s) then gatt_operation_quietly else tp_return ()))
          (tp_modify (set_stage Disconnected)))) (\<lambda>_. no_client) failed_idle no_client"
    by (rule keeps_and_raises; intro tkeeps_rules raises_rules idle.stage idle.backend raises_quiet) simp_all
  show "tp_spec (\<lambda>s. transport_ok s \<and> s = s0) (tp_then (tp_modify let_client_go) (case tr_client s0 of None \<Rightarrow> tp_return ()
      | Some c \<Rightarrow> tp_then (tp_modify (set_stage Disconnecting)) (tp_finally
          (tp_get (\<lambda>s. if c \<in> set (tr_links s) then gatt_operation_quietly else tp_return ()))
          (tp_modify (set_stage Disconnected))))) (\<lambda>_. no_client) failed_idle transport_ok"
    by (rule tp_bind_spec[OF go tp_mono[OF rest]]) (auto simp: no_client_def)
qed

lemma claim_gives:
  assumes "no_client s" "claim_address address s = (True, s')" "tr_token s' = Some t"
  shows "fresh_attempt t address (s'\<lparr>tr_last_device := Some address\<rparr>)"
proof -
  have ok: "registry_ok (tr_registry s)" and fine: "transport_ok s" using assms(1) by (auto simp: no_client_def registry_sound)
  obtain g where c: "claim (task_ended s) (tr_clock s) address (tr_registry s) = (Some t, g)"
    and s': "s' = s\<lparr>tr_registry := g, tr_token := Some t, tr_claims := tr_claims s @ [t]\<rparr>"
    using assms(2,3) by (auto simp: claim_address_def split: prod.splits option.splits)
  from c have t: "tk_address t = normalize_address address" "tk_serial t = rg_serial (tr_registry s) + 1"
    "\<exists>r. token_record t g = Some r \<and> \<not> ow_release_requested r"
    by (auto simp: claim_def Let_def token_record_put split: option.splits if_splits)
  have change: "registry_change False s s'" using claim_change[OF ok, of address] assms(2) by simp
  have losses: "losses_ok s'" using fine s' by (simp add: transport_ok_def losses_ok_def)
  have "transport_ok s'" by (rule transport_change[OF fine change losses])
  moreover have "tk_serial (cn_token x) \<le> rg_serial (tr_registry s)" if "x \<in> set (tr_started s)" for x
    using fine that by (auto simp: transport_ok_def connectors_ok_def)
  then have "t \<notin> cn_token ` set (tr_started s)" using t(2) by fastforce
  moreover have "attempting t address s'"
    using t assms(1) s' calculation(1) by (simp add: attempting_def no_client_def)
  ultimately have "fresh_attempt t address s'" using s' by (simp add: fresh_attempt_def)
  then show ?thesis by (rule unstarted.same) (simp add: essence_def)
qed

lemma claim_spec:
  "tp_spec no_client (claim_for_attempt address) (\<lambda>t. fresh_attempt t address) failed_idle no_client"
  unfolding claim_for_attempt_def
proof (rule tp_bind_spec)
  have query: "no_client (snd (address_owned address s))" if "no_client s" for s
  proof -
    have fine: "transport_ok s" using that by (simp add: no_client_def)
    have same: "tr_client (snd (address_owned address s)) = tr_client s"
      "tr_generation (snd (address_owned address s)) = tr_generation s"
      "tr_reported (snd (address_owned address s)) = tr_reported s" by (auto simp: address_owned_def split: prod.split)
    have "losses_ok (snd (address_owned address s))"
      using fine by (intro losses_same[OF same]) (simp add: transport_ok_def)
    from transport_change[OF fine owned_change[OF registry_sound[OF fine]] this] that same
    show ?thesis by (simp add: no_client_def)
  qed
  show "tp_spec no_client (tp_sync (address_owned address)) (\<lambda>_. no_client) failed_idle no_client"
    by (rule tp_sync_spec) (rule query)
next
  fix owned
  let ?claimed = "\<lambda>b s. no_client s \<and> (\<forall>t. b \<and> tr_token s = Some t \<longrightarrow>
      fresh_attempt t address (s\<lparr>tr_last_device := Some address\<rparr>))"
  have claimed: "tp_spec no_client (tp_sync (claim_address address)) ?claimed failed_idle no_client"
  proof (rule tp_sync_spec)
    fix s
    assume s: "no_client s"
    obtain b s' where c: "claim_address address s = (b, s')" by fastforce
    have fine: "transport_ok s" using s by (simp add: no_client_def)
    have same: "tr_client s' = tr_client s" "tr_generation s' = tr_generation s" "tr_reported s' = tr_reported s"
      using c by (auto simp: claim_address_def split: prod.splits option.splits)
    have "losses_ok s'" using fine by (intro losses_same[OF same]) (simp add: transport_ok_def)
    from transport_change[OF fine _ this] claim_change[OF registry_sound[OF fine], of address] c s same
    have "no_client s'" by (simp add: no_client_def)
    with c claim_gives[OF s] show "?claimed (fst (claim_address address s)) (snd (claim_address address s))" by simp
  qed
  have "tp_spec (?claimed b) (tp_get (\<lambda>s. case tr_token s of
      Some t \<Rightarrow> if b then tp_then (tp_modify (\<lambda>s. s\<lparr>tr_last_device := Some address\<rparr>)) (tp_return t)
                else tp_raise BluetoothUnavailableError
    | None \<Rightarrow> tp_raise BluetoothUnavailableError)) (\<lambda>t. fresh_attempt t address) failed_idle no_client" for b
  proof (rule tp_get_spec)
    fix s0
    show "tp_spec (\<lambda>s. ?claimed b s \<and> s = s0) (case tr_token s0 of
        Some t \<Rightarrow> if b then tp_then (tp_modify (\<lambda>s. s\<lparr>tr_last_device := Some address\<rparr>)) (tp_return t)
                  else tp_raise BluetoothUnavailableError
      | None \<Rightarrow> tp_raise BluetoothUnavailableError) (\<lambda>t. fresh_attempt t address) failed_idle no_client"
      by (cases "tr_token s0"; cases b)
        (auto intro!: tp_simple tp_bind_spec[of _ _ "\<lambda>_. fresh_attempt (the (tr_token s0)) address"] tp_modify_spec)
  qed
  from tp_bind_spec[OF claimed this]
  show "tp_spec no_client (if owned then tp_raise BluetoothUnavailableError
      else tp_bind (tp_sync (claim_address address)) (\<lambda>claimed. tp_get (\<lambda>s. case tr_token s of
        Some t \<Rightarrow> if claimed then tp_then (tp_modify (\<lambda>s. s\<lparr>tr_last_device := Some address\<rparr>)) (tp_return t)
                  else tp_raise BluetoothUnavailableError
      | None \<Rightarrow> tp_raise BluetoothUnavailableError))) (\<lambda>t. fresh_attempt t address) failed_idle no_client"
    by (cases owned) (auto intro: tp_simple)
qed

lemma fresh_idle: "fresh_attempt t address s \<Longrightarrow> no_client s"
  by (simp add: fresh_attempt_def attempting_def)

lemma prepare_spec:
  "tp_spec (fresh_attempt t address) (prepare_address t) (\<lambda>_. fresh_attempt t address) failed_idle no_client"
  unfolding prepare_address_def
proof (rule tp_bind_spec)
  let ?m = "tp_then abort_connecting_client (cleanup_stale_connection False False)"
  have keeps: "tp_spec (fresh_attempt t address) ?m (\<lambda>_. fresh_attempt t address)
      (\<lambda>e s. fresh_attempt t address s \<and> e \<in> connection_errors) (fresh_attempt t address)"
    by (rule keeps_and_raises; intro tkeeps_rules raises_rules unstarted.abort unstarted.cleaning raises_abort raises_clean)
      simp_all
  have again: "tp_spec (\<lambda>s. fresh_attempt t address s \<and> e \<in> connection_errors)
      (tp_then (tp_modify (release_address t)) (tp_raise e)) (\<lambda>_. Q) failed_idle no_client" for e Q
    by (rule tp_bind_spec[of _ _ "\<lambda>_ s. failed_idle e s"])
      (auto intro!: tp_modify_spec tp_simple dest!: fresh_idle intro: idle.releases)
  show "tp_spec (fresh_attempt t address) (tp_catch ?m (\<lambda>e. tp_then (tp_modify (release_address t)) (tp_raise e)))
      (\<lambda>_. fresh_attempt t address) failed_idle no_client"
    by (rule tp_catch_spec[OF tp_mono[OF keeps] again]) (auto intro: fresh_idle)
next
  fix ok
  have "tp_spec (fresh_attempt t address) (tp_then (tp_modify (release_address t)) (tp_raise BluetoothUnavailableError))
      (\<lambda>_. fresh_attempt t address) failed_idle no_client"
    by (rule tp_bind_spec[of _ _ "\<lambda>_. no_client"]) (auto intro!: tp_modify_spec tp_simple dest!: fresh_idle intro: idle.releases)
  then show "tp_spec (fresh_attempt t address) (if ok then tp_return ()
      else tp_then (tp_modify (release_address t)) (tp_raise BluetoothUnavailableError))
      (\<lambda>_. fresh_attempt t address) failed_idle no_client"
    by (cases ok) (auto intro: tp_simple)
qed

lemma start_connector_gives:
  assumes "fresh_attempt t address s" "numbered n s"
  shows "attempting t address (snd (start_connector t address s)) \<and> numbered n (snd (start_connector t address s))"
proof -
  let ?task = "tr_next s" and ?g = "tr_registry s"
  let ?x = "\<lparr>cn_task = ?task, cn_address = address, cn_token = t\<rparr>"
  let ?g' = "snd (track_task t ?task ?g)" and ?s' = "snd (start_connector t address s)"
  from assms(1) have a: "attempting t address s" and fresh: "t \<notin> cn_token ` set (tr_started s)"
    by (simp_all add: fresh_attempt_def)
  from a obtain r where r: "token_record t ?g = Some r" "\<not> ow_release_requested r"
    and s: "tr_token s = Some t" "t \<in> set (tr_claims s)" "tk_address t = normalize_address address" "no_client s"
    by (auto simp: attempting_def)
  then have fine: "transport_ok s" and ok: "registry_ok ?g" by (auto simp: no_client_def registry_sound)
  from r obtain r' where r': "token_record t ?g' = Some r'" "\<not> ow_release_requested r'" "?task \<in> set (ow_tasks r')"
    by (auto simp: track_task_def token_record_put token_record_Some)
  have le: "registry_le ?g ?g'" by (rule registry_le_holder(2)[OF ok])
  have eq: "tr_registry ?s' = ?g'" "tr_ended ?s' = tr_ended s" "tr_started ?s' = tr_started s @ [?x]"
    "tr_client ?s' = tr_client s" "tr_generation ?s' = tr_generation s" "tr_reported ?s' = tr_reported s"
    "tr_token ?s' = tr_token s" "tr_claims ?s' = tr_claims s"
    by (simp_all add: start_connector_def on_registry_def Let_def)
  have old: "connector_tracked ?s' x" if "connector_tracked s x" for x
    using that keeps_record_holder(2)[of "tr_ended s" "cn_token x" True True ?g t ?task] eq
    by (fastforce simp: connector_tracked_def task_ended_def keeps_record_def record_free_def record_le_def)
  have "tk_serial t \<le> rg_serial ?g" using r(1) ok by (auto simp: token_record_Some registry_ok_def)
  moreover have "rg_serial ?g \<le> rg_serial ?g'" "registry_ok ?g'" using le by (simp_all add: registry_le_def)
  moreover have "connector_tracked ?s' ?x" using r' s(3) eq by (auto simp: connector_tracked_def)
  ultimately have "connectors_ok ?s'"
    using fine old fresh by (auto simp: transport_ok_def connectors_ok_def eq)
  then have "transport_ok ?s'" using fine by (simp add: transport_ok_def losses_ok_def eq)
  with s r' assms(2) show ?thesis by (simp add: attempting_def no_client_def numbered_def eq)
qed

lemma establish_spec:
  "tp_spec (\<lambda>s. fresh_attempt t address s \<and> numbered n s) (establish t address)
    (\<lambda>r s. if r = None then no_client s else attempting t address s \<and> numbered n s) (\<lambda>_. no_client) no_client"
  unfolding establish_def
proof (rule tp_bind_spec)
  let ?A = "\<lambda>s. attempting t address s \<and> numbered n s"
  show "tp_spec (\<lambda>s. fresh_attempt t address s \<and> numbered n s) (tp_sync (start_connector t address)) (\<lambda>_. ?A)
      (\<lambda>_. no_client) no_client"
    by (rule tp_sync_spec) (use start_connector_gives in blast)
  fix task
  have idle: "?A s \<Longrightarrow> no_client s" for s by (simp add: attempting_def)
  have marked: "?A (use_registry (OTaskEnds task) s) \<and> task_ended (use_registry (OTaskEnds task) s) task" if "?A s" for s
    using numbered_attempt.events[OF that, of "TaskEnds task"] by (simp add: use_registry_def task_ended_def)
  have wait: "tp_spec ?A (tp_wait task) (\<lambda>v s. ?A s \<and> (\<forall>r. ta_wait v = WaitEnds r \<longrightarrow> task_ended s task)) (\<lambda>_. no_client) no_client"
    unfolding tp_wait_def
  proof (rule tp_bind_spec)
    show "tp_spec ?A tp_pause (\<lambda>_. ?A) (\<lambda>_. no_client) no_client"
      by (rule tp_mono[OF numbered_attempt.pause[unfolded tkeeps_def]]) (use idle in auto)
    fix v
    show "tp_spec ?A (tp_then (case ta_wait v of WaitEnds r \<Rightarrow> tp_modify (use_registry (OTaskEnds task)) | _ \<Rightarrow> tp_return ())
        (tp_return v)) (\<lambda>v s. ?A s \<and> (\<forall>r. ta_wait v = WaitEnds r \<longrightarrow> task_ended s task)) (\<lambda>_. no_client) no_client"
      by (rule tp_bind_spec[of _ _ "\<lambda>_ s. ?A s \<and> (\<forall>r. ta_wait v = WaitEnds r \<longrightarrow> task_ended s task)"])
        (use marked in \<open>auto intro!: tp_simple tp_modify_spec split: wait_end.split\<close>)
  qed
  let ?Q = "\<lambda>r s. if r = None then no_client s else ?A s \<and> task_ended s task"
  have body: "tp_spec ?A (tp_bind (tp_wait task) (\<lambda>v. case ta_wait v of
      WaitEnds (Inr _) \<Rightarrow> tp_return (Some v) | WaitEnds (Inl e) \<Rightarrow> tp_raise e
    | WaitExpires \<Rightarrow> tp_then timeout_diagnostics (tp_return None)
    | WaitCancelled \<Rightarrow> tp_raise CancelledError)) ?Q (\<lambda>_. no_client) no_client"
  proof (rule tp_bind_spec[OF wait])
    fix v
    let ?P = "\<lambda>s. ?A s \<and> (\<forall>r. ta_wait v = WaitEnds r \<longrightarrow> task_ended s task)"
    have "tp_spec ?P (tp_then timeout_diagnostics (tp_return None)) ?Q (\<lambda>_. no_client) no_client"
      by (rule tp_bind_spec[of _ _ "\<lambda>_. no_client"])
        (rule tkeeps_spec[OF idle.diagnosing], use idle in \<open>auto intro: tp_simple\<close>)
    then show "tp_spec ?P (case ta_wait v of
        WaitEnds (Inr _) \<Rightarrow> tp_return (Some v) | WaitEnds (Inl e) \<Rightarrow> tp_raise e
      | WaitExpires \<Rightarrow> tp_then timeout_diagnostics (tp_return None)
      | WaitCancelled \<Rightarrow> tp_raise CancelledError) ?Q (\<lambda>_. no_client) no_client"
      by (cases "ta_wait v") (use idle in \<open>auto intro!: tp_simple split: sum.split\<close>)
  qed
  let ?over = "tp_bind (cancel_connector task) (\<lambda>ok. if ok then tp_modify (release_connector task) else tp_return ())"
  have acknowledged: "tp_spec (\<lambda>s. ?A s \<and> task_ended s task) ?over (\<lambda>_. ?A) (\<lambda>_. no_client) no_client"
  proof (rule tp_bind_spec)
    show "tp_spec (\<lambda>s. ?A s \<and> task_ended s task) (cancel_connector task) (\<lambda>_. ?A) (\<lambda>_. no_client) no_client"
      by (rule tp_specI) (simp add: cancel_connector_def tp_get_def tp_return_def)
    have kept: "tkeeps ?A (if ok then tp_modify (release_connector task) else tp_return ())" for ok
      by (intro tkeeps_rules numbered_attempt.bookkeeping) (simp add: essence_def release_connector_def)
    show "tp_spec ?A (if ok then tp_modify (release_connector task) else tp_return ()) (\<lambda>_. ?A)
        (\<lambda>_. no_client) no_client" for ok
      by (rule tp_mono[OF kept[unfolded tkeeps_def]]) (use idle in auto)
  qed
  have lost: "tp_spec no_client ?over (\<lambda>_. no_client) (\<lambda>_. no_client) no_client"
    using idle.acknowledged by (simp add: tkeeps_def)
  show "tp_spec ?A (tp_finally (tp_bind (tp_wait task) (\<lambda>v. case ta_wait v of
      WaitEnds (Inr _) \<Rightarrow> tp_return (Some v) | WaitEnds (Inl e) \<Rightarrow> tp_raise e
    | WaitExpires \<Rightarrow> tp_then timeout_diagnostics (tp_return None)
    | WaitCancelled \<Rightarrow> tp_raise CancelledError)) ?over)
    (\<lambda>r s. if r = None then no_client s else attempting t address s \<and> numbered n s) (\<lambda>_. no_client) no_client"
  proof (rule tp_finally_spec[OF body])
    show "tp_spec (?Q x) ?over (\<lambda>_ s. if x = None then no_client s else attempting t address s \<and> numbered n s)
        (\<lambda>_. no_client) no_client" for x
      using lost acknowledged by (cases x) simp_all
  qed (rule lost)
qed

section \<open>Connecting\<close>

text \<open>A usable connection, on an address the transport owns.\<close>

definition connection_up :: "string \<Rightarrow> int \<Rightarrow> transport \<Rightarrow> bool" where
  "connection_up address n s \<longleftrightarrow> tr_client s \<noteq> None \<and> tr_resolved s \<and> tr_stage s = Connected \<and> tr_generation s = n \<and>
     n \<notin> set (tr_reported s) \<and>
     (\<exists>t r. tr_token s = Some t \<and> tk_address t = normalize_address address \<and>
        token_record t (tr_registry s) = Some r \<and> \<not> ow_release_requested r)"

text \<open>An attempt that failed has no client; only a look-up of the services that raises leaves it behind.\<close>

definition connection_failed :: "exn \<Rightarrow> transport \<Rightarrow> bool" where
  "connection_failed e s \<longleftrightarrow>
     tr_client s = None \<and> e \<in> connection_errors \<or> tr_client s \<noteq> None \<and> tr_stage s = ResolveCharacteristics"

lemma failed_idle_ends: "failed_idle e s \<Longrightarrow> transport_ok s \<and> connection_failed e s"
  by (simp add: no_client_def connection_failed_def)

lemma adopted:
  assumes "attempting t address s" "numbered n s" "tr_client s' = Some c" "tr_stage s' = st"
    "(tr_generation s', tr_reported s', tr_started s', tr_claims s', tr_token s', tr_registry s', tr_ended s') =
     (tr_generation s, tr_reported s, tr_started s, tr_claims s, tr_token s, tr_registry s, tr_ended s)"
  shows "transport_ok s'" "st = Connected \<Longrightarrow> tr_resolved s' \<Longrightarrow> connection_up address n s'"
    "st = ResolveCharacteristics \<Longrightarrow> connection_failed e s'"
  using assms
  by (auto simp: attempting_def no_client_def transport_ok_def connectors_ok_def connector_tracked_def losses_ok_def
      task_ended_def numbered_def connection_up_def connection_failed_def)

lemma adopt_spec:
  "tp_spec (\<lambda>s. attempting t address s \<and> numbered n s) (adopt_client n v)
    (\<lambda>n s. transport_ok s \<and> connection_up address n s) (\<lambda>e s. transport_ok s \<and> connection_failed e s) transport_ok"
  unfolding adopt_client_def
proof (rule tp_bind_spec)
  let ?A = "\<lambda>s. attempting t address s \<and> numbered n s"
  have forget: "?A (s\<lparr>tr_connecting := None, tr_connecting_address := None\<rparr>)" if "?A s" for s
    by (rule numbered_attempt.same[OF that]) (simp add: essence_def)
  show "tp_spec ?A (tp_modify (\<lambda>s. s\<lparr>tr_connecting := None, tr_connecting_address := None\<rparr>)) (\<lambda>_. ?A)
      (\<lambda>e s. transport_ok s \<and> connection_failed e s) transport_ok"
    by (rule tp_modify_spec) (rule forget)
  let ?take = "\<lambda>s. (set_stage ResolveCharacteristics s)\<lparr>tr_client := Some (ta_client v)\<rparr>"
  let ?R = "\<lambda>s. \<exists>s0. ?A s0 \<and> s = ?take s0"
  have resolving: "transport_ok s" "connection_failed e s" if "?R s" for s e
    using that adopted(1,3)[of t address _ n s "ta_client v" ResolveCharacteristics] by (auto simp: set_stage_def)
  have up: "transport_ok (set_stage Connected (s\<lparr>tr_resolved := True\<rparr>)) \<and>
      connection_up address n (set_stage Connected (s\<lparr>tr_resolved := True\<rparr>))" if "?R s" for s
  proof -
    from that obtain s0 where s0: "?A s0" "s = ?take s0" by blast
    let ?s = "set_stage Connected (s\<lparr>tr_resolved := True\<rparr>)"
    note a = adopted[of t address s0 n ?s "ta_client v" Connected]
    from s0 a(1,2) show ?thesis by (simp add: set_stage_def)
  qed
  have incomplete: "tp_spec ?R (tp_then transport_disconnect (tp_raise GattTransportError))
      (\<lambda>n s. transport_ok s \<and> connection_up address n s) (\<lambda>e s. transport_ok s \<and> connection_failed e s) transport_ok"
  proof (rule tp_bind_spec[of _ _ "\<lambda>_. no_client"])
    show "tp_spec ?R transport_disconnect (\<lambda>_. no_client) (\<lambda>e s. transport_ok s \<and> connection_failed e s) transport_ok"
      by (rule tp_mono[OF disconnect_spec]) (use resolving(1) failed_idle_ends in auto)
    show "tp_spec no_client (tp_raise GattTransportError) (\<lambda>n s. transport_ok s \<and> connection_up address n s)
        (\<lambda>e s. transport_ok s \<and> connection_failed e s) transport_ok"
      by (rule tp_simple) (use failed_idle_ends[of _ GattTransportError] in simp)
  qed
  have found: "tp_spec ?R (tp_then (tp_modify (\<lambda>s. set_stage Connected (s\<lparr>tr_resolved := True\<rparr>))) (tp_return n))
      (\<lambda>n s. transport_ok s \<and> connection_up address n s) (\<lambda>e s. transport_ok s \<and> connection_failed e s) transport_ok"
    by (rule tp_bind_spec[OF tp_modify_spec tp_simple(1)]) (rule up)
  fix u
  show "tp_spec ?A (tp_get (\<lambda>s. if n \<noteq> tr_generation s
      then tp_bind tp_pause (\<lambda>w. if ta_wait w = WaitCancelled \<or> ta_wait w = WaitEnds (Inl CancelledError)
             then tp_raise CancelledError else tp_raise BluetoothUnavailableError)
      else tp_then (tp_modify ?take) (case ta_services v of
          ServicesRaise e \<Rightarrow> tp_raise e
        | ServicesIncomplete \<Rightarrow> tp_then transport_disconnect (tp_raise GattTransportError)
        | ServicesFound \<Rightarrow> tp_then (tp_modify (\<lambda>s. set_stage Connected (s\<lparr>tr_resolved := True\<rparr>))) (tp_return n))))
    (\<lambda>n s. transport_ok s \<and> connection_up address n s) (\<lambda>e s. transport_ok s \<and> connection_failed e s) transport_ok"
  proof (rule tp_get_spec)
    fix s0
    have "tp_spec ?A (tp_then (tp_modify ?take) (case ta_services v of
          ServicesRaise e \<Rightarrow> tp_raise e
        | ServicesIncomplete \<Rightarrow> tp_then transport_disconnect (tp_raise GattTransportError)
        | ServicesFound \<Rightarrow> tp_then (tp_modify (\<lambda>s. set_stage Connected (s\<lparr>tr_resolved := True\<rparr>))) (tp_return n)))
      (\<lambda>n s. transport_ok s \<and> connection_up address n s) (\<lambda>e s. transport_ok s \<and> connection_failed e s) transport_ok"
    proof (rule tp_bind_spec[of _ _ "\<lambda>_. ?R"])
      show "tp_spec ?A (tp_modify ?take) (\<lambda>_. ?R) (\<lambda>e s. transport_ok s \<and> connection_failed e s) transport_ok"
        by (rule tp_modify_spec) blast
    next
      show "tp_spec ?R (case ta_services v of
          ServicesRaise e \<Rightarrow> tp_raise e
        | ServicesIncomplete \<Rightarrow> tp_then transport_disconnect (tp_raise GattTransportError)
        | ServicesFound \<Rightarrow> tp_then (tp_modify (\<lambda>s. set_stage Connected (s\<lparr>tr_resolved := True\<rparr>))) (tp_return n))
        (\<lambda>n s. transport_ok s \<and> connection_up address n s) (\<lambda>e s. transport_ok s \<and> connection_failed e s) transport_ok"
        using incomplete found resolving by (cases "ta_services v") (auto intro!: tp_simple)
    qed
    then show "tp_spec (\<lambda>s. ?A s \<and> s = s0) (if n \<noteq> tr_generation s0
      then tp_bind tp_pause (\<lambda>w. if ta_wait w = WaitCancelled \<or> ta_wait w = WaitEnds (Inl CancelledError)
             then tp_raise CancelledError else tp_raise BluetoothUnavailableError)
      else tp_then (tp_modify ?take) (case ta_services v of
          ServicesRaise e \<Rightarrow> tp_raise e
        | ServicesIncomplete \<Rightarrow> tp_then transport_disconnect (tp_raise GattTransportError)
        | ServicesFound \<Rightarrow> tp_then (tp_modify (\<lambda>s. set_stage Connected (s\<lparr>tr_resolved := True\<rparr>))) (tp_return n)))
      (\<lambda>n s. transport_ok s \<and> connection_up address n s) (\<lambda>e s. transport_ok s \<and> connection_failed e s) transport_ok"
      by (cases "n = tr_generation s0") (auto elim!: tp_mono simp: numbered_def tp_spec_def)
  qed
qed

lemma connection_attempt_spec:
  "tp_spec (fresh_attempt t address) (attempt_connection t address)
    (\<lambda>n s. transport_ok s \<and> connection_up address n s) (\<lambda>e s. transport_ok s \<and> connection_failed e s) transport_ok"
  unfolding attempt_connection_def
proof (rule tp_bind_spec)
  let ?F = "\<lambda>n s. fresh_attempt t address s \<and> numbered n s"
  let ?U = "\<lambda>n s. transport_ok s \<and> connection_up address n s" and ?E = "\<lambda>e s. transport_ok s \<and> connection_failed e s"
  have begun: "?F (fst (begin_attempt s)) (snd (begin_attempt s))" if "fresh_attempt t address s" for s
    using that
    by (auto simp: fresh_attempt_def attempting_def no_client_def transport_ok_def connectors_ok_def
        connector_tracked_def losses_ok_def numbered_def begin_attempt_def set_stage_def task_ended_def Let_def)
  show "tp_spec (fresh_attempt t address) (tp_sync begin_attempt) ?F ?E transport_ok"
    by (rule tp_sync_spec) (rule begun)
  fix n
  have failing: "tp_spec no_client (after_deadline t) ?U ?E transport_ok" "tp_spec no_client (after_failure e) ?U ?E transport_ok"
    for e
  proof -
    have never: "tp_spec no_client m (\<lambda>_ _. False) (\<lambda>e s. no_client s \<and> e \<in> connection_errors) no_client \<Longrightarrow>
        tp_spec no_client m ?U ?E transport_ok" for m
      by (erule tp_mono) (use failed_idle_ends in \<open>auto simp: no_client_def\<close>)
    have no: "tp_spec P (tp_then m (tp_raise x)) (\<lambda>_ _. False) (\<lambda>_ _. True) (\<lambda>_. True)" for P and m :: "unit tp" and x
      by (rule tp_bind_spec[of _ _ "\<lambda>_ _. True"], rule tp_specI, metis end_cases ends_ok.simps) (rule tp_simple, simp)
    have "tp_spec (\<lambda>_. True) (after_deadline t) (\<lambda>_ _. False) (\<lambda>_ _. True) (\<lambda>_. True)"
      unfolding after_deadline_def by (rule no)
    from tp_conj[OF keeps_and_raises[OF idle.failing(1) raises_failing(1)] this]
    have "tp_spec no_client (after_deadline t) (\<lambda>_ _. False) (\<lambda>e s. no_client s \<and> e \<in> connection_errors) no_client"
      by (rule tp_mono) auto
    then show "tp_spec no_client (after_deadline t) ?U ?E transport_ok" by (rule never)
    have "tp_spec (\<lambda>_. True) (after_failure e) (\<lambda>_ _. False) (\<lambda>_ _. True) (\<lambda>_. True)"
      by (cases "e = CancelledError") (simp_all add: after_failure_def no)
    from tp_conj[OF keeps_and_raises[OF idle.failing(2) raises_failing(2)] this]
    have "tp_spec no_client (after_failure e) (\<lambda>_ _. False) (\<lambda>e s. no_client s \<and> e \<in> connection_errors) no_client"
      by (rule tp_mono) auto
    then show "tp_spec no_client (after_failure e) ?U ?E transport_ok" by (rule never)
  qed
  show "tp_spec (?F n) (tp_bind (tp_attempt (establish t address)) (\<lambda>r. case r of
      Inr (Some v) \<Rightarrow> adopt_client n v | Inr None \<Rightarrow> after_deadline t | Inl e \<Rightarrow> after_failure e)) ?U ?E transport_ok"
  proof (rule tp_bind_spec)
    let ?R = "\<lambda>r. case r of Inr x \<Rightarrow> \<lambda>s. if x = None then no_client s else attempting t address s \<and> numbered n s
      | Inl e \<Rightarrow> no_client"
    show "tp_spec (?F n) (tp_attempt (establish t address)) ?R ?E transport_ok"
      by (rule tp_mono[OF tp_attempt_spec[OF establish_spec]]) (auto simp: no_client_def)
    show "tp_spec (?R r) (case r of Inr (Some v) \<Rightarrow> adopt_client n v | Inr None \<Rightarrow> after_deadline t | Inl e \<Rightarrow> after_failure e)
        ?U ?E transport_ok" for r
      using failing adopt_spec[of t address n] by (cases r) (auto split: option.split)
  qed
qed

lemma connect_spec:
  "tp_spec (\<lambda>s. transport_ok s \<and> \<not> connector_work_pending s) (transport_connect address)
    (\<lambda>n s. transport_ok s \<and> connection_up address n s) (\<lambda>e s. transport_ok s \<and> connection_failed e s) transport_ok"
  unfolding transport_connect_def
proof (rule tp_get_spec)
  fix s0
  let ?U = "\<lambda>n s. transport_ok s \<and> connection_up address n s" and ?E = "\<lambda>e s. transport_ok s \<and> connection_failed e s"
  have fails: "tp_spec P m Q ?E transport_ok" if "tp_spec P m Q failed_idle no_client" for P Q and m :: "'a tp"
    using that by (rule tp_mono) (use failed_idle_ends in \<open>auto simp: no_client_def\<close>)
  have disconnect: "tp_spec transport_ok transport_disconnect (\<lambda>_. no_client) ?E transport_ok"
    by (rule tp_mono[OF disconnect_spec]) (use failed_idle_ends in auto)
  have clean: "tp_spec no_client (tp_get (\<lambda>s. if token_is_current s
      then tp_then (cleanup_stale_connection False True) (tp_return ()) else tp_return ())) (\<lambda>_. no_client) ?E transport_ok"
    by (rule fails, rule keeps_and_raises; intro tkeeps_rules raises_rules idle.clean raises_clean) simp
  have attempt: "tp_spec (fresh_attempt t address) (tp_then (prepare_address t) (attempt_connection t address)) ?U ?E transport_ok" for t
    by (rule tp_bind_spec[OF fails[OF prepare_spec] connection_attempt_spec])
  have "tp_spec transport_ok (tp_then transport_disconnect (tp_then (tp_get (\<lambda>s. if token_is_current s
      then tp_then (cleanup_stale_connection False True) (tp_return ()) else tp_return ()))
      (tp_bind (claim_for_attempt address) (\<lambda>t. tp_then (prepare_address t) (attempt_connection t address))))) ?U ?E transport_ok"
    by (rule tp_bind_spec[OF disconnect tp_bind_spec[OF clean tp_bind_spec[OF fails[OF claim_spec] attempt]]])
  then show "tp_spec (\<lambda>s. (transport_ok s \<and> \<not> connector_work_pending s) \<and> s = s0) (if connector_work_pending s0
      then tp_raise BluetoothUnavailableError
      else tp_then transport_disconnect (tp_then (tp_get (\<lambda>s. if token_is_current s
      then tp_then (cleanup_stale_connection False True) (tp_return ()) else tp_return ()))
      (tp_bind (claim_for_attempt address) (\<lambda>t. tp_then (prepare_address t) (attempt_connection t address))))) ?U ?E transport_ok"
    by (cases "connector_work_pending s0") (auto simp: tp_spec_def elim: tp_mono)
qed

lemma connect_keeps: "transport_ok s \<Longrightarrow> transport_ok (transport_after (transport_connect address) env s)"
proof (cases "connector_work_pending s")
  case False
  assume "transport_ok s"
  with False tp_specD[OF connect_spec, of s address env] show ?thesis
    by (cases rule: end_cases[of "transport_connect address env s"]) (auto simp: transport_after_def)
qed (simp add: transport_after_def transport_connect_def tp_get_def tp_raise_def)

section \<open>Runs\<close>

lemma transport_step_ok: "transport_ok s \<Longrightarrow> transport_ok (transport_step s x)"
proof (cases x)
  case (TransportPerforms m env)
  assume "transport_ok s"
  with TransportPerforms connect_keeps sound.operate[of m s env] show ?thesis by (cases m) auto
qed (simp add: sound.events)

interpretation transport: step_system transport_step transport_ok
  by unfold_locales (rule transport_step_ok)

lemma run_transport_ok: "registry_ok g \<Longrightarrow> transport_ok (run_transport xs (new_transport settings g))"
  unfolding run_transport_def
  by (rule transport.run_inv) (simp add: transport_ok_def connectors_ok_def losses_ok_def new_transport_def)

text \<open>C23. While a connector may still run, its address belongs to nobody else: whatever happened, for every
  connector a transport has started and that has not ended, nobody can claim the address, and the transport
  has started no other such connector for it.\<close>

theorem running_connector_holds_its_address:
  assumes "registry_ok g" "s = run_transport xs (new_transport settings g)"
    and "x \<in> set (tr_started s)" "\<not> task_ended s (cn_task x)"
  shows "fst (claim (task_ended s) now (cn_address x) (tr_registry s)) = None \<and>
    fst (is_owned (task_ended s) (cn_address x) (tr_registry s)) \<and>
    (\<forall>y \<in> set (tr_started s). \<not> task_ended s (cn_task y) \<and>
       normalize_address (cn_address y) = normalize_address (cn_address x) \<longrightarrow> y = x)"
proof -
  have ok: "connectors_ok s" using run_transport_ok[OF assms(1)] assms(2) by (simp add: transport_ok_def)
  have tracked: "\<exists>r. rg_records (tr_registry s) (normalize_address (cn_address y)) = Some r \<and>
      ow_token r = cn_token y \<and> cn_task y \<in> set (ow_tasks r)"
    if "y \<in> set (tr_started s)" "\<not> task_ended s (cn_task y)" for y
    using ok that unfolding connectors_ok_def connector_tracked_def token_record_Some by metis
  from tracked[OF assms(3,4)] obtain r where r: "rg_records (tr_registry s) (normalize_address (cn_address x)) = Some r"
    "ow_token r = cn_token x" "cn_task x \<in> set (ow_tasks r)" by blast
  with assms(4) have "\<not> quiescent (task_ended s) r" by (auto simp: quiescent_def list_ex_iff)
  moreover have "y = x" if "y \<in> set (tr_started s)" "\<not> task_ended s (cn_task y)"
    "normalize_address (cn_address y) = normalize_address (cn_address x)" for y
  proof -
    have "cn_token y = cn_token x" using tracked[OF that(1,2)] that(3) r by auto
    with ok that(1) assms(3) show ?thesis by (auto simp: connectors_ok_def distinct_map dest: inj_onD)
  qed
  ultimately show ?thesis using r(1)
    by (auto simp: claim_def is_owned_def release_if_quiescent_def Let_def)
qed

text \<open>C25. The loss of a connection is reported at most once, and the losses in the order of the connections,
  whatever callbacks of old clients and generations arrive.\<close>

theorem losses_reported_once_in_order:
  assumes "registry_ok g"
  shows "sorted_wrt (<) (tr_reported (run_transport xs (new_transport settings g)))"
  using run_transport_ok[OF assms, of xs settings] by (simp add: transport_ok_def losses_ok_def)

text \<open>C24. A connection attempt leaves a clear situation: when it returns a generation, the client is there with
  its characteristics, the generation is the current one and new, and the transport owns the address; when it
  raises, there is no client and the error is one of the documented ones, unless the attempt was refused
  because an old connector is still at work or the look-up of the services raised.\<close>

theorem connection_attempt_settles:
  assumes "registry_ok g" "s = run_transport xs (new_transport settings g)"
    and "transport_connect address env s = (Finished r, env', s')"
  shows "case r of
      Inr n \<Rightarrow> connection_up address n s' \<and> fst (is_owned (task_ended s') address (tr_registry s'))
    | Inl e \<Rightarrow> connection_failed e s' \<or> connector_work_pending s \<and> e = BluetoothUnavailableError \<and> s' = s"
proof (cases "connector_work_pending s")
  case True
  with assms(3) show ?thesis by (auto simp: transport_connect_def tp_get_def tp_raise_def)
next
  case False
  have "transport_ok s" using run_transport_ok[OF assms(1)] assms(2) by simp
  with False tp_specD[OF connect_spec, of s address env] assms(3) have
    "ends_ok (\<lambda>n s. transport_ok s \<and> connection_up address n s) (\<lambda>e s. transport_ok s \<and> connection_failed e s)
       transport_ok (Finished r, env', s')" by simp
  moreover have "fst (is_owned (task_ended s') address (tr_registry s'))" if up: "connection_up address n s'" for n
  proof -
    from up obtain x where x: "rg_records (tr_registry s') (normalize_address address) = Some x" "\<not> ow_release_requested x"
      by (auto simp: connection_up_def token_record_Some)
    then show ?thesis by (simp add: is_owned_def release_if_quiescent_def quiescent_def Let_def)
  qed
  ultimately show ?thesis by (cases r) auto
qed

end
