(* ===== verification/Transport_Examples.thy ===== *)
theory Transport_Examples
  imports Transport_Connection Shipped_Profiles
begin

text \<open>The properties of the transport at concrete runs, with the settings of the shipped H7124 profile.\<close>

definition example_transport :: transport where
  "example_transport = new_transport (bluetooth_settings_from_profile h7124_profile) new_ownership_registry"

definition awaited :: "transport_event list \<Rightarrow> wait_end \<Rightarrow> transport_await" where
  "awaited events w = \<lparr>ta_events = events, ta_wait = w, ta_count = 0, ta_client = 2, ta_services = ServicesFound,
     ta_late = LateCancelled\<rparr>"

text \<open>Nothing stale, then the connector makes a client and returns it.\<close>

definition connecting_env :: "transport_await list" where
  "connecting_env = [awaited [] (WaitEnds (Inr ())), awaited [] (WaitEnds (Inr ())),
     awaited [ConnectorMakesClient ''aa:01'', LinkUp 2] (WaitEnds (Inr ()))]"

text \<open>The connector neither returns in time nor ends when it is cancelled.\<close>

definition stuck_env :: "transport_await list" where
  "stuck_env = [awaited [] (WaitEnds (Inr ())), awaited [] (WaitEnds (Inr ())), awaited [] WaitExpires,
     awaited [] (WaitEnds (Inr ())), awaited [] WaitExpires]"

definition stuck_run :: "transport_input list" where
  "stuck_run = [TransportPerforms (TrConnect ''aa:01'') stuck_env]"

definition stuck_connector :: connector_start where
  "stuck_connector = \<lparr>cn_task = 2, cn_address = ''aa:01'', cn_token = \<lparr>tk_address = ''AA:01'', tk_serial = 1\<rparr>\<rparr>"

theorem running_connector_holds_its_address_witness:
  "fst (claim (\<lambda>t. t \<in> set (tr_ended (run_transport stuck_run example_transport))) 99 ''aa:01''
     (tr_registry (run_transport stuck_run example_transport))) = None"
proof -
  let ?s = "run_transport stuck_run example_transport"
  have "tr_started ?s = [stuck_connector]" "task_ended ?s (cn_task stuck_connector) = False"
    "cn_address stuck_connector = ''aa:01''" by code_simp+
  then have x: "stuck_connector \<in> set (tr_started ?s)" "\<not> task_ended ?s (cn_task stuck_connector)"
    "cn_address stuck_connector = ''aa:01''" by simp_all
  from running_connector_holds_its_address[OF registry_ok_new _ x(1,2), of stuck_run
      "bluetooth_settings_from_profile h7124_profile" 99] x(3)
  show ?thesis by (simp add: example_transport_def task_ended_set)
qed

definition lossy_run :: "transport_input list" where
  "lossy_run = [TransportPerforms (TrSetCallback True) [], TransportPerforms (TrConnect ''aa:01'') connecting_env,
     TransportHappens (BleakDisconnects 2 1), TransportHappens (BleakDisconnects 2 1),
     TransportHappens LoopHandlesDisconnect, TransportHappens LoopHandlesDisconnect]"

theorem losses_reported_once_in_order_witness:
  "tr_reported (run_transport lossy_run example_transport) = [1] \<and>
   sorted_wrt (<) (tr_reported (run_transport lossy_run example_transport))"
  using losses_reported_once_in_order[OF registry_ok_new, of lossy_run "bluetooth_settings_from_profile h7124_profile"]
  unfolding example_transport_def[symmetric] by (intro conjI) code_simp

theorem connection_attempt_settles_witness:
  "let r = transport_connect ''aa:01'' connecting_env example_transport
   in fst r = Finished (Inr 1) \<and> connection_up ''aa:01'' 1 (snd (snd r))"
proof -
  let ?r = "transport_connect ''aa:01'' connecting_env example_transport"
  have r: "fst ?r = Finished (Inr 1)" by code_simp
  have "example_transport = run_transport [] (new_transport (bluetooth_settings_from_profile h7124_profile) new_ownership_registry)"
    by (simp add: run_transport_def example_transport_def)
  from connection_attempt_settles[OF registry_ok_new this, of "''aa:01''" connecting_env "Inr 1" "fst (snd ?r)" "snd (snd ?r)"] r
  show ?thesis by (simp add: Let_def prod_eq_iff)
qed

end
