(* ===== verification/Bluetooth_Environment.thy ===== *)
theory Bluetooth_Environment
  imports Channel Entry_Setup
begin

text \<open>
  The route to a purifier (\<open>bluetooth/environment.py\<close>): what the passive callback of Home Assistant's
  shared scanner reported, which evidence a connection attempt may use, and the two waits.  Home
  Assistant's cache and its device objects are given to each look-up; a device object is a number.
  \<open>be_selections\<close> records the selected routes for the properties only.
\<close>

section \<open>State\<close>

text \<open>The time of an advertisement is missing unless it is a number.\<close>

record advertisement =
  ad_time :: "time option"
  ad_device :: "nat option"

datatype route_source = LiveCallback | RecentCache | NewerCache

record environment =
  be_listening :: bool
  be_event :: bool
  be_last_callback :: "time option"
  be_last_callback_advertisement :: "time option"
  be_live :: "advertisement option"
  be_fresh_after :: "time option"
  be_fresh_advertisements :: nat
  be_last_selected :: "time option"
  be_last_route :: "route_source option"
  be_selections :: "(route_source \<times> time option) list"

definition new_environment :: environment where
  "new_environment = \<lparr>be_listening = False, be_event = False, be_last_callback = None,
     be_last_callback_advertisement = None, be_live = None, be_fresh_after = None, be_fresh_advertisements = 0,
     be_last_selected = None, be_last_route = None, be_selections = []\<rparr>"

definition environment_start :: "environment \<Rightarrow> environment" where
  "environment_start e = (if be_listening e then e else e\<lparr>be_listening := True\<rparr>)"

definition environment_stop :: "environment \<Rightarrow> environment" where
  "environment_stop e = e\<lparr>be_listening := False, be_event := True\<rparr>"

definition advertisement_received :: "time \<Rightarrow> advertisement \<Rightarrow> environment \<Rightarrow> environment" where
  "advertisement_received received_at info e =
     (let e = e\<lparr>be_last_callback := Some received_at, be_last_callback_advertisement := ad_time info\<rparr>;
          is_live = (case be_fresh_after e of Some t \<Rightarrow> t \<le> received_at | None \<Rightarrow> False);
          e = (if is_live then e\<lparr>be_live := Some info, be_fresh_advertisements := be_fresh_advertisements e + 1\<rparr> else e)
      in e\<lparr>be_event := True\<rparr>)"

section \<open>Diagnostics of the route\<close>

definition rounded_age :: "time \<Rightarrow> time option \<Rightarrow> time option" where
  "rounded_age now seen = map_option (\<lambda>t. py_round3 (max 0 (now - t))) seen"

record route_diagnostics =
  rd_present :: "bool option"
  rd_advertisement_age :: "time option"
  rd_callback_age :: "time option"
  rd_callback_advertisement_age :: "time option"
  rd_fresh_advertisements :: nat
  rd_last_route :: "route_source option"
  rd_selected_age :: "time option"
  rd_error :: "exn option"

definition route_diagnostics_of :: "time \<Rightarrow> advertisement option res \<Rightarrow> environment \<Rightarrow> route_diagnostics" where
  "route_diagnostics_of now cached e =
     \<lparr>rd_present = (case cached of Inl err \<Rightarrow> None | Inr info \<Rightarrow> Some (info \<noteq> None)),
      rd_advertisement_age = (case cached of Inr (Some info) \<Rightarrow> rounded_age now (ad_time info) | _ \<Rightarrow> None),
      rd_callback_age = rounded_age now (be_last_callback e),
      rd_callback_advertisement_age = rounded_age now (be_last_callback_advertisement e),
      rd_fresh_advertisements = be_fresh_advertisements e,
      rd_last_route = be_last_route e,
      rd_selected_age = rounded_age now (be_last_selected e),
      rd_error = (case cached of Inl err \<Rightarrow> Some err | Inr info \<Rightarrow> None)\<rparr>"

text \<open>What raises is no recent advertisement.\<close>

definition has_recent_advertisement :: "time \<Rightarrow> advertisement option res \<Rightarrow> time \<Rightarrow> bool" where
  "has_recent_advertisement now cached max_age =
     (case cached of
        Inr (Some info) \<Rightarrow> (case ad_time info of Some t \<Rightarrow> max 0 (now - t) \<le> max_age | None \<Rightarrow> False)
      | _ \<Rightarrow> False)"

section \<open>Evidence\<close>

definition usable_service_info ::
    "time \<Rightarrow> time \<Rightarrow> advertisement option \<Rightarrow> environment \<Rightarrow> (advertisement \<times> route_source) option" where
  "usable_service_info max_age started_at cached e =
     (case be_live e of
        Some info \<Rightarrow> Some (info, LiveCallback)
      | None \<Rightarrow>
          (case cached of
             None \<Rightarrow> None
           | Some info \<Rightarrow>
               (case ad_time info of
                  None \<Rightarrow> None
                | Some t \<Rightarrow>
                    if t < started_at - max_age then None
                    else
                      (case be_last_selected e of
                         None \<Rightarrow> Some (info, RecentCache)
                       | Some previous \<Rightarrow> if previous < t then Some (info, NewerCache) else None))))"

definition record_selected_route :: "advertisement \<Rightarrow> route_source \<Rightarrow> environment \<Rightarrow> environment" where
  "record_selected_route info source e =
     e\<lparr>be_last_selected :=
         (case ad_time info of
            Some t \<Rightarrow> Some (case be_last_selected e of None \<Rightarrow> t | Some previous \<Rightarrow> max previous t)
          | None \<Rightarrow> be_last_selected e),
       be_last_route := Some source,
       be_selections := be_selections e @ [(source, ad_time info)]\<rparr>"

section \<open>The waits\<close>

definition callbacks :: "(time \<times> advertisement) list \<Rightarrow> environment \<Rightarrow> environment" where
  "callbacks xs e = foldl (\<lambda>e (t, info). advertisement_received t info e) e xs"

definition heard_after :: "time \<Rightarrow> environment \<Rightarrow> bool" where
  "heard_after cutoff e \<longleftrightarrow> (case be_last_callback e of Some t \<Rightarrow> cutoff < t | None \<Rightarrow> False)"

text \<open>Each element is what arrives until the task runs again: callbacks, whether the listener was stopped,
  and whether the task was cancelled.  Without a signal it goes on waiting.\<close>

fun wait_for_advertisement_after ::
    "time \<Rightarrow> ((time \<times> advertisement) list \<times> bool \<times> bool) list \<Rightarrow> environment \<Rightarrow> unit progress \<times> environment" where
  "wait_for_advertisement_after cutoff [] e =
     (if heard_after cutoff e then (Finished (Inr ()), e) else (Blocked, e\<lparr>be_event := False\<rparr>))"
| "wait_for_advertisement_after cutoff ((arrivals, stopped, cancelled) # env) e =
     (if heard_after cutoff e then (Finished (Inr ()), e)
      else
        let e = callbacks arrivals (e\<lparr>be_event := False\<rparr>);
            e = (if stopped then environment_stop e else e)
        in if cancelled then (Finished (Inl CancelledError), e)
           else wait_for_advertisement_after cutoff env e)"

text \<open>One round of the wait for a fresh device: the time of the loop's test, the two look-ups in the cache,
  Home Assistant's device, the callbacks that arrive during the bounded wait for the event, and whether
  the task is cancelled in it.\<close>

record route_round =
  ro_now :: time
  ro_cached :: "advertisement option"
  ro_device :: "nat option"
  ro_cached_again :: "advertisement option"
  ro_arrivals :: "(time \<times> advertisement) list"
  ro_cancelled :: bool

definition try_route ::
    "time \<Rightarrow> time \<Rightarrow> route_round \<Rightarrow> environment \<Rightarrow> nat option \<times> environment" where
  "try_route max_age started_at v e =
     (case usable_service_info max_age started_at (ro_cached v) e of
        None \<Rightarrow> (None, e)
      | Some (info, source) \<Rightarrow>
          (case (case ro_device v of Some d \<Rightarrow> Some d | None \<Rightarrow> ad_device info) of
             None \<Rightarrow> (None, e)
           | Some d \<Rightarrow> (Some d, record_selected_route info source e)))"

fun select_route ::
    "time \<Rightarrow> time \<Rightarrow> time \<Rightarrow> route_round list \<Rightarrow> environment \<Rightarrow> nat option progress \<times> environment" where
  "select_route max_age started_at deadline [] e = (Blocked, e)"
| "select_route max_age started_at deadline (v # env) e =
     (if deadline \<le> ro_now v then (Finished (Inr None), e)
      else
        (case try_route max_age started_at v e of
           (Some d, e) \<Rightarrow> (Finished (Inr (Some d)), e)
         | (None, e) \<Rightarrow>
             let e = e\<lparr>be_event := False\<rparr>
             in if usable_service_info max_age started_at (ro_cached_again v) e \<noteq> None
                then select_route max_age started_at deadline env e
                else
                  let e = callbacks (ro_arrivals v) e
                  in if ro_cancelled v then (Finished (Inl CancelledError), e)
                     else select_route max_age started_at deadline env e))"

definition wait_for_fresh_device ::
    "bluetooth_settings \<Rightarrow> time \<Rightarrow> time \<Rightarrow> route_round list \<Rightarrow> environment \<Rightarrow>
     nat option progress \<times> environment" where
  "wait_for_fresh_device settings timeout started_at env e =
     (case select_route (rs_recent_cached_max_age (bs_route_selection settings)) started_at (started_at + timeout) env
             (e\<lparr>be_fresh_after := Some started_at, be_live := None, be_event := False\<rparr>) of
        (Blocked, e) \<Rightarrow> (Blocked, e)
      | (Finished r, e) \<Rightarrow> (Finished r, e\<lparr>be_fresh_after := None\<rparr>))"

section \<open>Runs\<close>

datatype environment_input =
    Listens
  | StopsListening
  | Hears time advertisement
  | AwaitsRoute bluetooth_settings time time "route_round list"
  | AwaitsAdvertisement time "((time \<times> advertisement) list \<times> bool \<times> bool) list"

fun route_step :: "environment \<Rightarrow> environment_input \<Rightarrow> environment" where
  "route_step e Listens = environment_start e"
| "route_step e StopsListening = environment_stop e"
| "route_step e (Hears t info) = advertisement_received t info e"
| "route_step e (AwaitsRoute settings timeout started_at env) =
     snd (wait_for_fresh_device settings timeout started_at env e)"
| "route_step e (AwaitsAdvertisement cutoff env) = snd (wait_for_advertisement_after cutoff env e)"

section \<open>Which evidence is used\<close>

text \<open>A route from the cache is newer than an earlier route with a dated advertisement.\<close>

definition newer_evidence :: "route_source \<times> time option \<Rightarrow> route_source \<times> time option \<Rightarrow> bool" where
  "newer_evidence earlier later \<longleftrightarrow>
     fst later = LiveCallback \<or> (case (snd earlier, snd later) of (Some a, Some b) \<Rightarrow> a < b | (a, b) \<Rightarrow> b \<noteq> None)"

definition evidence :: "(route_source \<times> time option) list \<Rightarrow> time option \<Rightarrow> bool" where
  "evidence selections latest \<longleftrightarrow> sorted_wrt newer_evidence selections \<and>
     (\<forall>x \<in> set selections. case snd x of None \<Rightarrow> True | Some t \<Rightarrow> (case latest of None \<Rightarrow> False | Some m \<Rightarrow> t \<le> m))"

abbreviation evidence_ok :: "environment \<Rightarrow> bool" where
  "evidence_ok e \<equiv> evidence (be_selections e) (be_last_selected e)"

text \<open>What the waits do besides selecting a route leaves the selections alone.\<close>

lemma callback_selections:
  "be_selections (advertisement_received t info e) = be_selections e"
  "be_last_selected (advertisement_received t info e) = be_last_selected e"
  by (simp_all add: advertisement_received_def Let_def)

lemma callbacks_selections:
  "be_selections (callbacks xs e) = be_selections e" "be_last_selected (callbacks xs e) = be_last_selected e"
  unfolding callbacks_def by (induction xs arbitrary: e) (auto simp: callback_selections)

lemma evidence_append:
  assumes "evidence xs latest" "\<And>t m. snd x = Some t \<Longrightarrow> latest = Some m \<Longrightarrow> fst x = LiveCallback \<or> m < t"
    "snd x = None \<Longrightarrow> fst x = LiveCallback"
  shows "evidence (xs @ [x])
    (case snd x of Some t \<Rightarrow> Some (case latest of None \<Rightarrow> t | Some m \<Rightarrow> max m t) | None \<Rightarrow> latest)"
proof -
  have "newer_evidence y x" if "y \<in> set xs" for y
    using assms that unfolding evidence_def newer_evidence_def
    by (cases "snd y"; cases "snd x"; cases latest; force)
  moreover have "case snd y of None \<Rightarrow> True | Some t \<Rightarrow> (case (case snd x of Some t \<Rightarrow>
      Some (case latest of None \<Rightarrow> t | Some m \<Rightarrow> max m t) | None \<Rightarrow> latest) of None \<Rightarrow> False | Some m \<Rightarrow> t \<le> m)"
    if "y \<in> set (xs @ [x])" for y
    using assms(1) that unfolding evidence_def
    by (cases "snd y"; cases "snd x"; cases latest; force)
  ultimately show ?thesis using assms(1) by (simp add: evidence_def sorted_wrt_append)
qed

lemma record_route_ok:
  assumes "evidence_ok e" "usable_service_info max_age started cached e = Some (info, source)"
  shows "evidence_ok (record_selected_route info source e)"
  using evidence_append[OF assms(1), of "(source, ad_time info)"] assms(2)
  by (auto simp: record_selected_route_def usable_service_info_def split: option.splits if_splits)

lemma select_route_ok: "evidence_ok e \<Longrightarrow> evidence_ok (snd (select_route max_age started deadline env e))"
proof (induction env arbitrary: e)
  case (Cons v env)
  obtain d e1 where t: "try_route max_age started v e = (d, e1)" by fastforce
  with Cons.prems have e1: "evidence_ok e1"
    by (auto simp: try_route_def record_route_ok split: option.splits)
  then have "evidence_ok (callbacks (ro_arrivals v) (e1\<lparr>be_event := False\<rparr>))" by (simp add: callbacks_selections)
  from Cons.IH[OF this] Cons.IH[of "e1\<lparr>be_event := False\<rparr>"] t e1 Cons.prems show ?case
    by (auto simp: Let_def callbacks_selections split: option.split)
qed simp

lemma wait_after_selections:
  "be_selections (snd (wait_for_advertisement_after cutoff env e)) = be_selections e \<and>
   be_last_selected (snd (wait_for_advertisement_after cutoff env e)) = be_last_selected e"
  by (induction cutoff env e rule: wait_for_advertisement_after.induct)
    (auto simp: Let_def callbacks_selections environment_stop_def)

lemma route_step_ok: "evidence_ok e \<Longrightarrow> evidence_ok (route_step e i)"
proof (cases i)
  case (AwaitsRoute settings timeout started_at env)
  assume "evidence_ok e"
  then have "evidence_ok (e\<lparr>be_fresh_after := Some started_at, be_live := None, be_event := False\<rparr>)" by simp
  from select_route_ok[OF this, of "rs_recent_cached_max_age (bs_route_selection settings)" started_at
      "started_at + timeout" env] AwaitsRoute
  show ?thesis by (auto simp: wait_for_fresh_device_def split: prod.split progress.split)
qed (simp_all add: wait_after_selections callback_selections environment_start_def environment_stop_def)

interpretation routes: step_system route_step evidence_ok
  by unfold_locales (rule route_step_ok)

text \<open>C26. A retry never reuses evidence: through any callbacks, waits and retries, a route that a connection
  attempt takes from the cache has a dated advertisement that is newer than the dated advertisement of every
  route selected before it.\<close>

theorem retries_need_newer_evidence:
  "sorted_wrt newer_evidence (be_selections (foldl route_step new_environment is))"
  using routes.run_inv[of new_environment "is"] by (simp add: evidence_def new_environment_def)

text \<open>A device is only returned with evidence of this wait: an advertisement heard during it, or one the cache
  has that is not older than allowed.\<close>

lemma select_route_result:
  assumes "select_route max_age started deadline env e = (Finished (Inr (Some d)), e')"
  shows "\<exists>source t. be_selections e' = be_selections e @ [(source, t)] \<and> be_last_route e' = Some source \<and>
    (source \<noteq> LiveCallback \<longrightarrow> (\<exists>t'. t = Some t' \<and> started - max_age \<le> t'))"
  using assms
proof (induction env arbitrary: e)
  case (Cons v env)
  obtain r e1 where t: "try_route max_age started v e = (r, e1)" by fastforce
  show ?case
  proof (cases r)
    case None
    with t have "e1 = e" by (auto simp: try_route_def split: option.splits)
    with Cons.prems None t Cons.IH[of "e\<lparr>be_event := False\<rparr>"] Cons.IH[of "callbacks (ro_arrivals v) (e\<lparr>be_event := False\<rparr>)"]
    show ?thesis by (auto simp: Let_def callbacks_selections split: if_splits)
  next
    case (Some d')
    with Cons.prems t show ?thesis
      by (auto simp: try_route_def record_selected_route_def usable_service_info_def split: option.splits if_splits)
  qed
qed simp

end
